(* ===== verification/Elvern_Base.thy ===== *)
theory Elvern_Base
  imports Complex_Main "HOL-Library.Multiset"
begin

text \<open>
  The prelude of the development: the Python values and library functions that the modelled
  modules of \<^verbatim>\<open>backend/app\<close> share.

  \<^item> A Python \<^verbatim>\<open>float\<close> is a \<open>real\<close>. Sums and products are exact: the rounding of binary
    floating point is not modelled. Where the source tests for \<^verbatim>\<open>nan\<close> or an infinity the
    value has type \<open>pyval\<close>, which has these values.
  \<^item> A Python \<^verbatim>\<open>int\<close> is an \<open>int\<close>, a \<^verbatim>\<open>str\<close> an (ASCII) \<open>string\<close>, \<^verbatim>\<open>None\<close> is the \<open>None\<close> of
    \<open>option\<close>, a raised exception is the left part of a sum.
  \<^item> \<^verbatim>\<open>x or y\<close> tests truth, not presence: \<open>or_real\<close>, \<open>or_string\<close> and their kin treat
    \<^verbatim>\<open>0.0\<close> and the empty string as missing, as Python does.
  \<^item> A Python \<^verbatim>\<open>dict\<close> whose order of iteration matters is an association list in insertion
    order with the operations \<open>dict_get\<close>, \<open>dict_set\<close>, \<open>dict_pop\<close>.
\<close>

named_theorems py_simps "equations of the Python helper functions"
named_theorems route2_consts "the numeric constants of the playback modules"

section \<open>Exceptions\<close>

datatype py_error =
    ValueError string
  | IndexError
  | KeyError string
  | FileNotFoundError string
  | HTTPException nat string
  | DatabaseError string
  | TypeError string
  | PermissionError string

text \<open>Sequencing of computations that may raise.\<close>

fun and_then :: "'e + 'a \<Rightarrow> ('a \<Rightarrow> 'e + 'b) \<Rightarrow> 'e + 'b" where
  "and_then (Inl e) f = Inl e"
| "and_then (Inr x) f = f x"

lemma and_then_Inr_iff: "and_then m f = Inr y \<longleftrightarrow> (\<exists>x. m = Inr x \<and> f x = Inr y)"
  by (cases m) auto

lemma and_then_Inl_iff: "and_then m f = Inl e \<longleftrightarrow> m = Inl e \<or> (\<exists>x. m = Inr x \<and> f x = Inl e)"
  by (cases m) auto

section \<open>Truth values and defaults\<close>

definition or_real :: "real option \<Rightarrow> real \<Rightarrow> real" where
  "or_real x d = (case x of None \<Rightarrow> d | Some v \<Rightarrow> if v = 0 then d else v)"

definition or_int :: "int option \<Rightarrow> int \<Rightarrow> int" where
  "or_int x d = (case x of None \<Rightarrow> d | Some v \<Rightarrow> if v = 0 then d else v)"

definition or_string :: "string option \<Rightarrow> string \<Rightarrow> string" where
  "or_string x d = (case x of None \<Rightarrow> d | Some v \<Rightarrow> if v = [] then d else v)"

definition truthy_string :: "string option \<Rightarrow> bool" where
  "truthy_string x = (case x of None \<Rightarrow> False | Some v \<Rightarrow> v \<noteq> [])"

lemma or_real_simps [simp]:
  "or_real None d = d"
  "v \<noteq> 0 \<Longrightarrow> or_real (Some v) d = v"
  "or_real (Some 0) d = d"
  by (simp_all add: or_real_def)

lemma or_int_simps [simp]:
  "or_int None d = d"
  "v \<noteq> 0 \<Longrightarrow> or_int (Some v) d = v"
  "or_int (Some 0) d = d"
  by (simp_all add: or_int_def)

lemma or_string_simps [simp]:
  "or_string None d = d"
  "or_string (Some (c # cs)) d = c # cs"
  "or_string (Some []) d = d"
  by (simp_all add: or_string_def)

lemma truthy_string_simps [simp]:
  "\<not> truthy_string None"
  "truthy_string (Some (c # cs))"
  "\<not> truthy_string (Some [])"
  by (simp_all add: truthy_string_def)

lemma truthy_stringE:
  "truthy_string x \<Longrightarrow> (\<And>s. x = Some s \<Longrightarrow> s \<noteq> [] \<Longrightarrow> P) \<Longrightarrow> P"
  by (auto simp: truthy_string_def split: option.splits)

section \<open>Strings\<close>

definition char_code :: "char \<Rightarrow> nat" where
  "char_code c = of_char c"

definition is_py_space :: "char \<Rightarrow> bool" where
  "is_py_space c = (let n = char_code c in n = 32 \<or> (9 \<le> n \<and> n \<le> 13) \<or> (28 \<le> n \<and> n \<le> 31))"

definition is_py_digit :: "char \<Rightarrow> bool" where
  "is_py_digit c = (let n = char_code c in 48 \<le> n \<and> n \<le> 57)"

definition py_lstrip :: "string \<Rightarrow> string" where
  "py_lstrip s = dropWhile is_py_space s"

definition py_strip :: "string \<Rightarrow> string" where
  "py_strip s = rev (dropWhile is_py_space (rev (dropWhile is_py_space s)))"

definition py_lower_char :: "char \<Rightarrow> char" where
  "py_lower_char c = (let n = char_code c in if 65 \<le> n \<and> n \<le> 90 then char_of (n + 32) else c)"

definition py_lower :: "string \<Rightarrow> string" where
  "py_lower s = map py_lower_char s"

definition starts_with :: "string \<Rightarrow> string \<Rightarrow> bool" where
  "starts_with p s = (take (length p) s = p)"

definition ends_with :: "string \<Rightarrow> string \<Rightarrow> bool" where
  "ends_with p s = (length p \<le> length s \<and> drop (length s - length p) s = p)"

fun contains :: "string \<Rightarrow> string \<Rightarrow> bool" where
  "contains p [] = (p = [])"
| "contains p (c # cs) = (starts_with p (c # cs) \<or> contains p cs)"

lemma char_code_less [simp]: "char_code c < 256"
  by (simp add: char_code_def)

lemma py_strip_Nil [simp]: "py_strip [] = []"
  by (simp add: py_strip_def)

lemma py_lower_Nil [simp]: "py_lower [] = []"
  by (simp add: py_lower_def)

lemma starts_with_iff: "starts_with p s \<longleftrightarrow> (\<exists>t. s = p @ t)"
proof
  assume "starts_with p s"
  then have "s = p @ drop (length p) s"
    by (simp add: starts_with_def) (metis append_take_drop_id)
  then show "\<exists>t. s = p @ t" by blast
qed (auto simp: starts_with_def)

lemma contains_iff: "contains p s \<longleftrightarrow> (\<exists>a b. s = a @ p @ b)"
proof (induction s)
  case Nil
  then show ?case by auto
next
  case (Cons c cs)
  show ?case
  proof
    assume "contains p (c # cs)"
    then consider "starts_with p (c # cs)" | "contains p cs" by auto
    then show "\<exists>a b. c # cs = a @ p @ b"
    proof cases
      case 1
      then obtain t where "c # cs = [] @ p @ t" by (auto simp: starts_with_iff)
      then show ?thesis by blast
    next
      case 2
      then obtain a b where "cs = a @ p @ b" using Cons.IH by blast
      then have "c # cs = (c # a) @ p @ b" by simp
      then show ?thesis by blast
    qed
  next
    assume "\<exists>a b. c # cs = a @ p @ b"
    then obtain a b where ab: "c # cs = a @ p @ b" by blast
    show "contains p (c # cs)"
    proof (cases a)
      case Nil
      then have "starts_with p (c # cs)" using ab by (auto simp: starts_with_iff)
      then show ?thesis by simp
    next
      case (Cons x xs)
      then show ?thesis using ab Cons.IH by auto
    qed
  qed
qed

section \<open>Decimal text\<close>

text \<open>\<open>digits_value\<close> is \<^verbatim>\<open>int(...)\<close> on a run of decimal digits, and \<open>show_nat\<close>, \<open>show_int\<close>
  are \<^verbatim>\<open>str(...)\<close> of an integer.\<close>

definition digits_value :: "string \<Rightarrow> int" where
  "digits_value s = foldl (\<lambda>acc c. acc * 10 + (int (char_code c) - 48)) 0 s"

fun show_nat :: "nat \<Rightarrow> string" where
  "show_nat n = (if n < 10 then [char_of (48 + n)]
                 else show_nat (n div 10) @ [char_of (48 + n mod 10)])"

declare show_nat.simps [simp del]

definition show_int :: "int \<Rightarrow> string" where
  "show_int i = (if i < 0 then CHR ''-'' # show_nat (nat (- i)) else show_nat (nat i))"

text \<open>\<^verbatim>\<open>f"{i:0wd}"\<close>: zero padding to a width.\<close>

definition pad_nat :: "nat \<Rightarrow> nat \<Rightarrow> string" where
  "pad_nat w n = (let s = show_nat n in replicate (w - length s) (CHR ''0'') @ s)"

lemma char_code_char_of_digit [simp]: "d < 10 \<Longrightarrow> char_code (char_of (48 + d)) = 48 + d"
  by (simp add: char_code_def)

lemma digits_value_snoc: "digits_value (s @ [c]) = digits_value s * 10 + (int (char_code c) - 48)"
  by (simp add: digits_value_def)

lemma digits_value_show_nat: "digits_value (show_nat n) = int n"
proof (induction n rule: show_nat.induct)
  case (1 n)
  show ?case
  proof (cases "n < 10")
    case True
    then show ?thesis
      by (subst show_nat.simps) (simp add: digits_value_def)
  next
    case False
    then have "digits_value (show_nat n)
      = digits_value (show_nat (n div 10)) * 10 + (int (char_code (char_of (48 + n mod 10))) - 48)"
      by (subst show_nat.simps) (simp add: digits_value_snoc)
    then show ?thesis
      using "1.IH" False by (simp add: zdiv_int zmod_int)
  qed
qed

lemma show_nat_digits: "\<forall>c \<in> set (show_nat n). is_py_digit c"
proof (induction n rule: show_nat.induct)
  case (1 n)
  show ?case
  proof (cases "n < 10")
    case True
    then show ?thesis by (subst show_nat.simps) (simp add: is_py_digit_def)
  next
    case False
    then show ?thesis
      using "1.IH" by (subst show_nat.simps) (auto simp: is_py_digit_def)
  qed
qed

lemma show_nat_not_Nil [simp]: "show_nat n \<noteq> []"
  by (subst show_nat.simps) simp

section \<open>Rounding\<close>

text \<open>\<^verbatim>\<open>round(x, d)\<close>: to the nearest multiple of \<^verbatim>\<open>10**-d\<close>, ties to the even one.\<close>

definition round_half_even :: "real \<Rightarrow> int" where
  "round_half_even y =
     (let f = \<lfloor>y\<rfloor>; d = y - of_int f in
      if d < 1 / 2 then f
      else if d > 1 / 2 then f + 1
      else if even f then f else f + 1)"

definition py_round :: "nat \<Rightarrow> real \<Rightarrow> real" where
  "py_round d x = of_int (round_half_even (x * 10 ^ d)) / 10 ^ d"

lemma round_half_even_of_int [simp]: "round_half_even (of_int i) = i"
  by (simp add: round_half_even_def)

lemma round_half_even_mono: "x \<le> y \<Longrightarrow> round_half_even x \<le> round_half_even y"
proof -
  assume xy: "x \<le> y"
  have fxy: "\<lfloor>x\<rfloor> \<le> \<lfloor>y\<rfloor>" using xy by (rule floor_mono)
  have upper: "round_half_even z \<le> \<lfloor>z\<rfloor> + 1" and lower: "\<lfloor>z\<rfloor> \<le> round_half_even z" for z
    by (auto simp: round_half_even_def Let_def)
  show ?thesis
  proof (cases "\<lfloor>x\<rfloor> = \<lfloor>y\<rfloor>")
    case True
    with xy show ?thesis by (auto simp: round_half_even_def Let_def)
  next
    case False
    with fxy have "\<lfloor>x\<rfloor> + 1 \<le> \<lfloor>y\<rfloor>" by simp
    with upper[of x] lower[of y] show ?thesis by linarith
  qed
qed

lemma round_half_even_near: "\<bar>of_int (round_half_even y) - y\<bar> \<le> 1 / 2"
  unfolding round_half_even_def Let_def by (simp add: abs_le_iff)

lemma py_round_mono: "x \<le> y \<Longrightarrow> py_round d x \<le> py_round d y"
  by (simp add: py_round_def divide_right_mono round_half_even_mono)

lemma py_round_near: "\<bar>py_round d x - x\<bar> \<le> 1 / (2 * 10 ^ d)"
proof -
  have "\<bar>of_int (round_half_even (x * 10 ^ d)) - x * 10 ^ d\<bar> / 10 ^ d \<le> (1 / 2) / 10 ^ d"
    by (rule divide_right_mono[OF round_half_even_near]) simp
  moreover have "py_round d x - x = (of_int (round_half_even (x * 10 ^ d)) - x * 10 ^ d) / 10 ^ d"
    by (simp add: py_round_def diff_divide_distrib)
  then have "\<bar>py_round d x - x\<bar> = \<bar>of_int (round_half_even (x * 10 ^ d)) - x * 10 ^ d\<bar> / 10 ^ d"
    by (simp only: abs_divide) simp
  ultimately show ?thesis by simp
qed

lemma py_round_0 [simp]: "py_round d 0 = 0"
  using round_half_even_of_int[of 0] by (simp add: py_round_def)

lemma py_round_nonneg [simp]: "0 \<le> x \<Longrightarrow> 0 \<le> py_round d x"
  using py_round_mono[of 0 x d] by simp

lemma py_round_of_int [simp]: "py_round d (of_int i) = of_int i"
proof -
  have "of_int i * 10 ^ d = (of_int (i * 10 ^ d) :: real)" by simp
  then show ?thesis unfolding py_round_def by (simp only: round_half_even_of_int) simp
qed

lemma py_round_numeral [simp]: "py_round d (numeral k) = numeral k"
  using py_round_of_int[of d "numeral k"] by simp

lemma py_round_1 [simp]: "py_round d 1 = 1"
  using py_round_of_int[of d 1] by simp

section \<open>Dynamically typed numbers\<close>

text \<open>An argument the source passes through \<^verbatim>\<open>float(...)\<close>: \<^verbatim>\<open>None\<close>, a finite number (or a text
  that parses to one), a not-a-number, an infinity, or anything \<^verbatim>\<open>float\<close> rejects with a
  \<^verbatim>\<open>TypeError\<close> or \<^verbatim>\<open>ValueError\<close>.\<close>

datatype pyval = PyNone | PyNum real | PyNaN | PyInf | PyNegInf | PyNotNumeric

text \<open>\<^verbatim>\<open>float(text)\<close> on plain decimal notation: an optional sign, digits, an optional fraction.
  Exponents, underscores and the names of infinity and not-a-number are not modelled.\<close>

definition decimal_value :: "string \<Rightarrow> real option" where
  "decimal_value s =
     (let whole = takeWhile is_py_digit s; rest = dropWhile is_py_digit s;
          fraction = (case rest of [] \<Rightarrow> [] | c # cs \<Rightarrow> cs) in
      if rest = [] then (if whole = [] then None else Some (of_int (digits_value whole)))
      else if hd rest = CHR ''.'' \<and> (\<forall>c \<in> set fraction. is_py_digit c) \<and> (whole \<noteq> [] \<or> fraction \<noteq> [])
      then Some (of_int (digits_value whole) + of_int (digits_value fraction) / 10 ^ length fraction)
      else None)"

definition py_float :: "string \<Rightarrow> real option" where
  "py_float s =
     (case py_strip s of
        [] \<Rightarrow> None
      | c # cs \<Rightarrow> if c = CHR ''-'' then map_option uminus (decimal_value cs)
                 else if c = CHR ''+'' then decimal_value cs else decimal_value (c # cs))"

text \<open>\<^verbatim>\<open>int(text)\<close>: an optional sign, then digits with single underscores between them.\<close>

fun valid_digits :: "string \<Rightarrow> bool" where
  "valid_digits [] = False"
| "valid_digits [c] = is_py_digit c"
| "valid_digits (c # d # cs) =
     (if is_py_digit c then (if d = CHR ''_'' then valid_digits cs else valid_digits (d # cs)) else False)"

definition unsigned_int :: "string \<Rightarrow> int option" where
  "unsigned_int s = (if valid_digits s then Some (digits_value (filter is_py_digit s)) else None)"

definition py_int :: "string \<Rightarrow> int option" where
  "py_int s =
     (case py_strip s of
        [] \<Rightarrow> None
      | c # cs \<Rightarrow> if c = CHR ''-'' then map_option uminus (unsigned_int cs)
                 else if c = CHR ''+'' then unsigned_int cs else unsigned_int (c # cs))"

lemma valid_digits_all: "s \<noteq> [] \<Longrightarrow> \<forall>c \<in> set s. is_py_digit c \<Longrightarrow> valid_digits s"
  by (induction s rule: valid_digits.induct) (auto simp: is_py_digit_def char_code_def)

lemma digit_not_space: "is_py_digit c \<Longrightarrow> \<not> is_py_space c"
  by (auto simp: is_py_digit_def is_py_space_def Let_def)

lemma digit_not_sign: "is_py_digit c \<Longrightarrow> c \<noteq> CHR ''-'' \<and> c \<noteq> CHR ''+''"
  by (auto simp: is_py_digit_def char_code_def)

lemma py_strip_digits: "\<forall>c \<in> set s. is_py_digit c \<Longrightarrow> py_strip s = s"
proof -
  assume d: "\<forall>c \<in> set s. is_py_digit c"
  have "dropWhile is_py_space t = t" if "\<forall>c \<in> set t. is_py_digit c" for t
    using that digit_not_space by (cases t) auto
  with d show ?thesis by (simp add: py_strip_def)
qed

lemma py_int_digits: "s \<noteq> [] \<Longrightarrow> \<forall>c \<in> set s. is_py_digit c \<Longrightarrow> py_int s = Some (digits_value s)"
  using digit_not_sign
  by (cases s) (auto simp: py_int_def py_strip_digits unsigned_int_def valid_digits_all filter_id_conv)

lemma digits_value_zeros: "digits_value (replicate k (CHR ''0'') @ s) = digits_value s"
  by (induction k) (simp_all add: digits_value_def char_code_def)

lemma pad_nat_digits: "\<forall>c \<in> set (pad_nat w n). is_py_digit c"
  using show_nat_digits[of n] by (auto simp: pad_nat_def Let_def is_py_digit_def char_code_def)

lemma py_int_pad_nat: "py_int (pad_nat w n) = Some (int n)"
proof -
  have "pad_nat w n \<noteq> []" by (simp add: pad_nat_def Let_def)
  then have "py_int (pad_nat w n) = Some (digits_value (pad_nat w n))" using pad_nat_digits by (rule py_int_digits)
  then show ?thesis by (simp add: pad_nat_def Let_def digits_value_zeros digits_value_show_nat)
qed

text \<open>\<^verbatim>\<open>int(x)\<close> of a float: truncation towards zero.\<close>

definition py_trunc :: "real \<Rightarrow> int" where
  "py_trunc x = (if x < 0 then \<lceil>x\<rceil> else \<lfloor>x\<rfloor>)"

lemma py_trunc_of_int [simp]: "py_trunc (of_int i) = i"
  by (simp add: py_trunc_def)

section \<open>Dictionaries in insertion order\<close>

text \<open>\<open>dict_set\<close> keeps the place of a key that is present and appends a new one, as CPython does.\<close>

fun dict_get :: "('k \<times> 'v) list \<Rightarrow> 'k \<Rightarrow> 'v option" where
  "dict_get [] k = None"
| "dict_get ((k', v) # d) k = (if k = k' then Some v else dict_get d k)"

fun dict_set :: "('k \<times> 'v) list \<Rightarrow> 'k \<Rightarrow> 'v \<Rightarrow> ('k \<times> 'v) list" where
  "dict_set [] k v = [(k, v)]"
| "dict_set ((k', v') # d) k v = (if k = k' then (k, v) # d else (k', v') # dict_set d k v)"

fun dict_pop :: "('k \<times> 'v) list \<Rightarrow> 'k \<Rightarrow> ('k \<times> 'v) list" where
  "dict_pop [] k = []"
| "dict_pop ((k', v) # d) k = (if k = k' then dict_pop d k else (k', v) # dict_pop d k)"

definition dict_wf :: "('k \<times> 'v) list \<Rightarrow> bool" where
  "dict_wf d = distinct (map fst d)"

lemma dict_get_set [simp]: "dict_get (dict_set d k v) k' = (if k' = k then Some v else dict_get d k')"
  by (induction d) auto

lemma dict_get_pop [simp]: "dict_get (dict_pop d k) k' = (if k' = k then None else dict_get d k')"
  by (induction d) auto

lemma dict_get_map_of: "dict_get d k = map_of d k"
  by (induction d) auto

lemma dict_get_None_iff: "dict_get d k = None \<longleftrightarrow> k \<notin> fst ` set d"
  by (simp add: dict_get_map_of map_of_eq_None_iff)

lemma dict_get_SomeD: "dict_get d k = Some v \<Longrightarrow> (k, v) \<in> set d"
  by (simp add: dict_get_map_of map_of_SomeD)

lemma dict_get_wf: "dict_wf d \<Longrightarrow> (k, v) \<in> set d \<Longrightarrow> dict_get d k = Some v"
  by (simp add: dict_get_map_of dict_wf_def)

lemma keys_dict_set: "fst ` set (dict_set d k v) = insert k (fst ` set d)"
proof (induction d)
  case (Cons e d)
  then show ?case by (cases e) (simp add: insert_commute)
qed simp

lemma keys_dict_pop: "fst ` set (dict_pop d k) = fst ` set d - {k}"
proof (induction d)
  case (Cons e d)
  then show ?case by (cases e) (simp add: insert_Diff_if)
qed simp

lemma dict_wf_Nil [simp, intro]: "dict_wf []"
  by (simp add: dict_wf_def)

lemma dict_wf_set [simp, intro]: "dict_wf d \<Longrightarrow> dict_wf (dict_set d k v)"
proof (induction d)
  case (Cons e d)
  obtain k' v' where e: "e = (k', v')" by (cases e)
  have "fst ` set (dict_set d k v) = insert k (fst ` set d)" by (rule keys_dict_set)
  with Cons e show ?case by (auto simp: dict_wf_def)
qed (simp add: dict_wf_def)

lemma dict_wf_pop [simp, intro]: "dict_wf d \<Longrightarrow> dict_wf (dict_pop d k)"
proof (induction d)
  case (Cons e d)
  obtain k' v' where e: "e = (k', v')" by (cases e)
  have "fst ` set (dict_pop d k) = fst ` set d - {k}" by (rule keys_dict_pop)
  with Cons e show ?case by (auto simp: dict_wf_def)
qed (simp add: dict_wf_def)

text \<open>The interface of a keyed store, as the playback components use their dictionaries.\<close>

locale keyed_store =
  fixes get :: "'d \<Rightarrow> 'k \<Rightarrow> 'v option"
    and put :: "'d \<Rightarrow> 'k \<Rightarrow> 'v \<Rightarrow> 'd"
    and drop_key :: "'d \<Rightarrow> 'k \<Rightarrow> 'd"
    and wf :: "'d \<Rightarrow> bool"
  assumes get_put: "get (put d k v) k' = (if k' = k then Some v else get d k')"
    and get_drop: "get (drop_key d k) k' = (if k' = k then None else get d k')"
    and wf_put: "wf d \<Longrightarrow> wf (put d k v)"
    and wf_drop: "wf d \<Longrightarrow> wf (drop_key d k)"
begin

lemma get_put_same: "get (put d k v) k = Some v"
  by (simp add: get_put)

lemma get_put_other: "k' \<noteq> k \<Longrightarrow> get (put d k v) k' = get d k'"
  by (simp add: get_put)

lemma get_drop_put: "get (drop_key (put d k v) k) k' = get (drop_key d k) k'"
  by (simp add: get_drop get_put)

lemma get_foldl_drop: "get (foldl drop_key d ks) k = (if k \<in> set ks then None else get d k)"
  by (induction ks arbitrary: d) (auto simp: get_drop)

lemma wf_foldl_drop: "wf d \<Longrightarrow> wf (foldl drop_key d ks)"
  by (induction ks arbitrary: d) (auto simp: wf_drop)

end

interpretation py_dict: keyed_store dict_get dict_set dict_pop dict_wf
  by unfold_locales auto

section \<open>Lists\<close>

text \<open>\<^verbatim>\<open>zip(xs, xs[1:])\<close>: the consecutive pairs.\<close>

definition consecutive :: "'a list \<Rightarrow> ('a \<times> 'a) list" where
  "consecutive xs = zip xs (tl xs)"

lemma consecutive_simps [simp]:
  "consecutive [] = []"
  "consecutive [x] = []"
  "consecutive (x # y # ys) = (x, y) # consecutive (y # ys)"
  by (simp_all add: consecutive_def)

text \<open>The expiry loop \<^verbatim>\<open>while len(h) > 1 and h[0].ts < cutoff: h.pop(0)\<close> of the sample windows.\<close>

fun trim_window :: "('a \<Rightarrow> real) \<Rightarrow> real \<Rightarrow> 'a list \<Rightarrow> 'a list" where
  "trim_window ts cutoff [] = []"
| "trim_window ts cutoff [x] = [x]"
| "trim_window ts cutoff (x # y # zs) =
     (if ts x < cutoff then trim_window ts cutoff (y # zs) else x # y # zs)"

lemma trim_window_suffix: "\<exists>pre. h = pre @ trim_window ts cutoff h"
proof (induction ts cutoff h rule: trim_window.induct)
  case (3 ts cutoff x y zs)
  show ?case
  proof (cases "ts x < cutoff")
    case True
    with "3.IH" obtain pre where "y # zs = pre @ trim_window ts cutoff (y # zs)" by blast
    then have "x # y # zs = (x # pre) @ trim_window ts cutoff (x # y # zs)" using True by simp
    then show ?thesis by blast
  qed simp
qed simp_all

lemma trim_window_Nil_iff [simp]: "trim_window ts cutoff h = [] \<longleftrightarrow> h = []"
  by (induction ts cutoff h rule: trim_window.induct) auto

lemma trim_window_last: "h \<noteq> [] \<Longrightarrow> last (trim_window ts cutoff h) = last h"
  by (induction ts cutoff h rule: trim_window.induct) auto

lemma trim_window_sorted:
  "sorted (map ts h) \<Longrightarrow> sorted (map ts (trim_window ts cutoff h))"
  by (induction ts cutoff h rule: trim_window.induct) auto

lemma trim_window_head:
  "length (trim_window ts cutoff h) > 1 \<Longrightarrow> cutoff \<le> ts (hd (trim_window ts cutoff h))"
  by (induction ts cutoff h rule: trim_window.induct) auto

lemma trim_window_bound:
  assumes "sorted (map ts h)" and "h \<noteq> []" and "cutoff \<le> ts (last h)"
  shows "\<forall>x \<in> set (trim_window ts cutoff h). cutoff \<le> ts x"
  using assms
proof (induction ts cutoff h rule: trim_window.induct)
  case (3 ts cutoff x y zs)
  then show ?case by auto
qed auto

lemma trim_window_keeps:
  assumes "x \<in> set h" and "cutoff \<le> ts x"
  shows "x \<in> set (trim_window ts cutoff h)"
  using assms by (induction ts cutoff h rule: trim_window.induct) auto

end
