(* ===== verification/Playback_Models.thy ===== *)
theory Playback_Models
  imports Elvern_Base
begin

text \<open>
  The data of the browser playback engine: \<^verbatim>\<open>services/mobile_playback_models.py\<close>.

  The constants of lines 11 to 78 are definitions with the source's names; the bundle
  \<open>route2_consts\<close> unfolds them. The two large session classes are split along the groups of
  fields the source writes together (the threshold decider of lite mode, the audio switch, the
  emitted window): a field \<^verbatim>\<open>browser_session.lite_seek_hold_until_ts\<close> is
  \<open>ld_seek_hold_until (bs_lite b)\<close>. Left out are the fields of the thread downshift, reclaim and
  resupply protocols and the fields that only diagnostics read.

  A \<^verbatim>\<open>set[int]\<close> is a list without duplicates. A directory is the association list of its files and their sizes, a child process is
  \<open>Running\<close> or \<open>Exited\<close>, and an epoch owns its \<^verbatim>\<open>staging\<close> and \<^verbatim>\<open>published\<close> directories.
\<close>

section \<open>Constants\<close>

definition SEGMENT_DURATION_SECONDS :: real where
  "SEGMENT_DURATION_SECONDS = 2"

definition SEEK_PREROLL_SECONDS :: real where
  "SEEK_PREROLL_SECONDS = 12"

definition TARGET_WINDOW_PREROLL_SECONDS :: real where
  "TARGET_WINDOW_PREROLL_SECONDS = 6"

definition TARGET_WINDOW_FORWARD_SECONDS :: real where
  "TARGET_WINDOW_FORWARD_SECONDS = 60"

definition BACKGROUND_EXPANSION_FORWARD_SECONDS :: real where
  "BACKGROUND_EXPANSION_FORWARD_SECONDS = 600"

definition READY_AFTER_TARGET_SECONDS :: real where
  "READY_AFTER_TARGET_SECONDS = 20"

definition PLAYBACK_COMMIT_RUNWAY_SECONDS :: real where
  "PLAYBACK_COMMIT_RUNWAY_SECONDS = 20"

definition WATCH_LOW_WATERMARK_SECONDS :: real where
  "WATCH_LOW_WATERMARK_SECONDS = 18"

definition WATCH_REFILL_TARGET_SECONDS :: real where
  "WATCH_REFILL_TARGET_SECONDS = 90"

definition WATCH_STALLED_RECOVERY_RUNWAY_SECONDS :: real where
  "WATCH_STALLED_RECOVERY_RUNWAY_SECONDS = 8"

definition FRONTIER_WAIT_SECONDS :: real where
  "FRONTIER_WAIT_SECONDS = 12"

definition STATUS_POLL_PREPARE_SECONDS :: real where
  "STATUS_POLL_PREPARE_SECONDS = 1"

definition MANIFEST_ADVANCE_TRIGGER_SECONDS :: real where
  "MANIFEST_ADVANCE_TRIGGER_SECONDS = 16"

definition MANIFEST_ADVANCE_MIN_GROWTH_SECONDS :: real where
  "MANIFEST_ADVANCE_MIN_GROWTH_SECONDS = 8"

definition ROUTE2_ATTACH_READY_SECONDS :: real where
  "ROUTE2_ATTACH_READY_SECONDS = 45"

definition ROUTE2_STARTUP_MIN_RUNWAY_SECONDS :: real where
  "ROUTE2_STARTUP_MIN_RUNWAY_SECONDS = 24"

definition ROUTE2_STARTUP_PROJECTION_HORIZON_SECONDS :: real where
  "ROUTE2_STARTUP_PROJECTION_HORIZON_SECONDS = 90"

definition ROUTE2_RECOVERY_RESUME_RUNWAY_SECONDS :: real where
  "ROUTE2_RECOVERY_RESUME_RUNWAY_SECONDS = 18"

definition ROUTE2_RECOVERY_MIN_RUNWAY_SECONDS :: real where
  "ROUTE2_RECOVERY_MIN_RUNWAY_SECONDS = 10"

definition ROUTE2_RECOVERY_PROJECTION_HORIZON_SECONDS :: real where
  "ROUTE2_RECOVERY_PROJECTION_HORIZON_SECONDS = 24"

definition ROUTE2_LITE_FAST_START_RUNWAY_SECONDS :: real where
  "ROUTE2_LITE_FAST_START_RUNWAY_SECONDS = 15"

definition ROUTE2_LITE_SLOW_START_RUNWAY_SECONDS :: real where
  "ROUTE2_LITE_SLOW_START_RUNWAY_SECONDS = 45"

definition ROUTE2_LITE_UNDERSUPPLY_START_RUNWAY_SECONDS :: real where
  "ROUTE2_LITE_UNDERSUPPLY_START_RUNWAY_SECONDS = 180"

definition ROUTE2_FULL_FAST_START_RUNWAY_SECONDS :: real where
  "ROUTE2_FULL_FAST_START_RUNWAY_SECONDS = 120"

definition ROUTE2_AUDIO_SWITCH_READY_RUNWAY_SECONDS :: real where
  "ROUTE2_AUDIO_SWITCH_READY_RUNWAY_SECONDS = 15"

definition ROUTE2_LOW_WATER_RUNWAY_SECONDS :: real where
  "ROUTE2_LOW_WATER_RUNWAY_SECONDS = 12"

definition ROUTE2_LOW_WATER_PROJECTION_HORIZON_SECONDS :: real where
  "ROUTE2_LOW_WATER_PROJECTION_HORIZON_SECONDS = 90"

definition ROUTE2_SUPPLY_RATE_WINDOW_SECONDS :: real where
  "ROUTE2_SUPPLY_RATE_WINDOW_SECONDS = 18"

definition ROUTE2_SUPPLY_RATE_MIN_SAMPLE_SECONDS :: real where
  "ROUTE2_SUPPLY_RATE_MIN_SAMPLE_SECONDS = 6"

definition ROUTE2_SUPPLY_RATE_FAST_EMA_ALPHA :: real where
  "ROUTE2_SUPPLY_RATE_FAST_EMA_ALPHA = 11 / 20"

definition ROUTE2_SUPPLY_RATE_SLOW_EMA_ALPHA :: real where
  "ROUTE2_SUPPLY_RATE_SLOW_EMA_ALPHA = 1 / 4"

definition ROUTE2_SUPPLY_SURPLUS_MIN_OBSERVATION_SECONDS :: real where
  "ROUTE2_SUPPLY_SURPLUS_MIN_OBSERVATION_SECONDS = 6"

definition ROUTE2_SUPPLY_SURPLUS_MIN_RATE_X :: real where
  "ROUTE2_SUPPLY_SURPLUS_MIN_RATE_X = 21 / 20"

definition ROUTE2_STARTUP_MIN_SUPPLY_RATE_X :: real where
  "ROUTE2_STARTUP_MIN_SUPPLY_RATE_X = 21 / 20"

definition ROUTE2_RECOVERY_MIN_SUPPLY_RATE_X :: real where
  "ROUTE2_RECOVERY_MIN_SUPPLY_RATE_X = 51 / 50"

definition ROUTE2_LITE_DECIDER_FAST_CONFIRM_SECONDS :: real where
  "ROUTE2_LITE_DECIDER_FAST_CONFIRM_SECONDS = 15"

definition ROUTE2_LITE_DECIDER_UNDERSUPPLY_CONFIRM_SECONDS :: real where
  "ROUTE2_LITE_DECIDER_UNDERSUPPLY_CONFIRM_SECONDS = 25"

definition ROUTE2_LITE_DECIDER_COLD_START_GRACE_SECONDS :: real where
  "ROUTE2_LITE_DECIDER_COLD_START_GRACE_SECONDS = 20"

definition ROUTE2_LITE_DECIDER_POST_RECOVERY_HOLD_SECONDS :: real where
  "ROUTE2_LITE_DECIDER_POST_RECOVERY_HOLD_SECONDS = 30"

definition ROUTE2_LITE_DECIDER_POST_SEEK_HOLD_SECONDS :: real where
  "ROUTE2_LITE_DECIDER_POST_SEEK_HOLD_SECONDS = 15"

definition ROUTE2_LITE_DECIDER_MIN_FRONTIER_SAMPLE_COUNT :: int where
  "ROUTE2_LITE_DECIDER_MIN_FRONTIER_SAMPLE_COUNT = 6"

definition ROUTE2_LOW_WATER_SUSTAIN_SECONDS :: real where
  "ROUTE2_LOW_WATER_SUSTAIN_SECONDS = 6"

definition ROUTE2_DRAIN_IDLE_GRACE_SECONDS :: real where
  "ROUTE2_DRAIN_IDLE_GRACE_SECONDS = 12"

definition ROUTE2_DRAIN_MAX_SECONDS :: real where
  "ROUTE2_DRAIN_MAX_SECONDS = 90"

definition ROUTE2_REPLACEMENT_RETRY_BACKOFF_SECONDS :: real where
  "ROUTE2_REPLACEMENT_RETRY_BACKOFF_SECONDS = 3"

definition ROUTE2_ATTACH_ACK_WARN_SECONDS :: real where
  "ROUTE2_ATTACH_ACK_WARN_SECONDS = 6"

definition ROUTE2_ETA_DISPLAY_MIN_OBSERVATION_SECONDS :: real where
  "ROUTE2_ETA_DISPLAY_MIN_OBSERVATION_SECONDS = 10"

definition ROUTE2_ETA_DISPLAY_MIN_GROWTH_EVENTS :: int where
  "ROUTE2_ETA_DISPLAY_MIN_GROWTH_EVENTS = 3"

definition ROUTE2_ETA_DISPLAY_STICKY_OBSERVATION_SECONDS :: real where
  "ROUTE2_ETA_DISPLAY_STICKY_OBSERVATION_SECONDS = 14"

definition ROUTE2_ETA_DISPLAY_MAX_VOLATILITY_RATIO :: real where
  "ROUTE2_ETA_DISPLAY_MAX_VOLATILITY_RATIO = 19 / 20"

definition ROUTE2_ETA_DISPLAY_GRACE_SECONDS :: real where
  "ROUTE2_ETA_DISPLAY_GRACE_SECONDS = 12"

definition ROUTE2_ETA_DISPLAY_MAX_UPWARD_STEP_SECONDS :: real where
  "ROUTE2_ETA_DISPLAY_MAX_UPWARD_STEP_SECONDS = 3"

definition ROUTE2_ETA_DISPLAY_MAX_UPWARD_RATIO :: real where
  "ROUTE2_ETA_DISPLAY_MAX_UPWARD_RATIO = 9 / 50"

definition ROUTE2_ETA_DISPLAY_UPWARD_BLEND :: real where
  "ROUTE2_ETA_DISPLAY_UPWARD_BLEND = 7 / 20"

definition ROUTE2_FULL_GOODPUT_WINDOW_SECONDS :: real where
  "ROUTE2_FULL_GOODPUT_WINDOW_SECONDS = 60"

definition ROUTE2_FULL_GOODPUT_MIN_SAMPLE_COUNT :: int where
  "ROUTE2_FULL_GOODPUT_MIN_SAMPLE_COUNT = 3"

definition ROUTE2_FULL_GOODPUT_MIN_OBSERVATION_SECONDS :: real where
  "ROUTE2_FULL_GOODPUT_MIN_OBSERVATION_SECONDS = 8"

definition ROUTE2_FULL_PREFLIGHT_TIMEOUT_SECONDS :: real where
  "ROUTE2_FULL_PREFLIGHT_TIMEOUT_SECONDS = 180"

definition ROUTE2_FULL_PROBE_MIN_DURATION_SECONDS :: real where
  "ROUTE2_FULL_PROBE_MIN_DURATION_SECONDS = 3 / 20"

definition ROUTE2_FULL_PROBE_MAX_DURATION_SECONDS :: real where
  "ROUTE2_FULL_PROBE_MAX_DURATION_SECONDS = 30"

definition ROUTE2_FULL_BOOTSTRAP_ESTIMATE_DELAY_SECONDS :: real where
  "ROUTE2_FULL_BOOTSTRAP_ESTIMATE_DELAY_SECONDS = 20"

definition ROUTE2_FULL_RESERVE_BASE_SECONDS :: real where
  "ROUTE2_FULL_RESERVE_BASE_SECONDS = 20"

definition ROUTE2_FULL_RESERVE_MAX_VOLATILITY_SECONDS :: real where
  "ROUTE2_FULL_RESERVE_MAX_VOLATILITY_SECONDS = 12"

definition ROUTE2_FULL_RESERVE_MAX_UNCERTAINTY_SECONDS :: real where
  "ROUTE2_FULL_RESERVE_MAX_UNCERTAINTY_SECONDS = 10"

definition ROUTE2_FULL_VOLATILITY_HORIZON_SECONDS :: real where
  "ROUTE2_FULL_VOLATILITY_HORIZON_SECONDS = 300"

lemmas route2_constant_values [route2_consts] =
  SEGMENT_DURATION_SECONDS_def
  SEEK_PREROLL_SECONDS_def
  TARGET_WINDOW_PREROLL_SECONDS_def
  TARGET_WINDOW_FORWARD_SECONDS_def
  BACKGROUND_EXPANSION_FORWARD_SECONDS_def
  READY_AFTER_TARGET_SECONDS_def
  PLAYBACK_COMMIT_RUNWAY_SECONDS_def
  WATCH_LOW_WATERMARK_SECONDS_def
  WATCH_REFILL_TARGET_SECONDS_def
  WATCH_STALLED_RECOVERY_RUNWAY_SECONDS_def
  FRONTIER_WAIT_SECONDS_def
  STATUS_POLL_PREPARE_SECONDS_def
  MANIFEST_ADVANCE_TRIGGER_SECONDS_def
  MANIFEST_ADVANCE_MIN_GROWTH_SECONDS_def
  ROUTE2_ATTACH_READY_SECONDS_def
  ROUTE2_STARTUP_MIN_RUNWAY_SECONDS_def
  ROUTE2_STARTUP_PROJECTION_HORIZON_SECONDS_def
  ROUTE2_RECOVERY_RESUME_RUNWAY_SECONDS_def
  ROUTE2_RECOVERY_MIN_RUNWAY_SECONDS_def
  ROUTE2_RECOVERY_PROJECTION_HORIZON_SECONDS_def
  ROUTE2_LITE_FAST_START_RUNWAY_SECONDS_def
  ROUTE2_LITE_SLOW_START_RUNWAY_SECONDS_def
  ROUTE2_LITE_UNDERSUPPLY_START_RUNWAY_SECONDS_def
  ROUTE2_FULL_FAST_START_RUNWAY_SECONDS_def
  ROUTE2_AUDIO_SWITCH_READY_RUNWAY_SECONDS_def
  ROUTE2_LOW_WATER_RUNWAY_SECONDS_def
  ROUTE2_LOW_WATER_PROJECTION_HORIZON_SECONDS_def
  ROUTE2_SUPPLY_RATE_WINDOW_SECONDS_def
  ROUTE2_SUPPLY_RATE_MIN_SAMPLE_SECONDS_def
  ROUTE2_SUPPLY_RATE_FAST_EMA_ALPHA_def
  ROUTE2_SUPPLY_RATE_SLOW_EMA_ALPHA_def
  ROUTE2_SUPPLY_SURPLUS_MIN_OBSERVATION_SECONDS_def
  ROUTE2_SUPPLY_SURPLUS_MIN_RATE_X_def
  ROUTE2_STARTUP_MIN_SUPPLY_RATE_X_def
  ROUTE2_RECOVERY_MIN_SUPPLY_RATE_X_def
  ROUTE2_LITE_DECIDER_FAST_CONFIRM_SECONDS_def
  ROUTE2_LITE_DECIDER_UNDERSUPPLY_CONFIRM_SECONDS_def
  ROUTE2_LITE_DECIDER_COLD_START_GRACE_SECONDS_def
  ROUTE2_LITE_DECIDER_POST_RECOVERY_HOLD_SECONDS_def
  ROUTE2_LITE_DECIDER_POST_SEEK_HOLD_SECONDS_def
  ROUTE2_LITE_DECIDER_MIN_FRONTIER_SAMPLE_COUNT_def
  ROUTE2_LOW_WATER_SUSTAIN_SECONDS_def
  ROUTE2_DRAIN_IDLE_GRACE_SECONDS_def
  ROUTE2_DRAIN_MAX_SECONDS_def
  ROUTE2_REPLACEMENT_RETRY_BACKOFF_SECONDS_def
  ROUTE2_ATTACH_ACK_WARN_SECONDS_def
  ROUTE2_ETA_DISPLAY_MIN_OBSERVATION_SECONDS_def
  ROUTE2_ETA_DISPLAY_MIN_GROWTH_EVENTS_def
  ROUTE2_ETA_DISPLAY_STICKY_OBSERVATION_SECONDS_def
  ROUTE2_ETA_DISPLAY_MAX_VOLATILITY_RATIO_def
  ROUTE2_ETA_DISPLAY_GRACE_SECONDS_def
  ROUTE2_ETA_DISPLAY_MAX_UPWARD_STEP_SECONDS_def
  ROUTE2_ETA_DISPLAY_MAX_UPWARD_RATIO_def
  ROUTE2_ETA_DISPLAY_UPWARD_BLEND_def
  ROUTE2_FULL_GOODPUT_WINDOW_SECONDS_def
  ROUTE2_FULL_GOODPUT_MIN_SAMPLE_COUNT_def
  ROUTE2_FULL_GOODPUT_MIN_OBSERVATION_SECONDS_def
  ROUTE2_FULL_PREFLIGHT_TIMEOUT_SECONDS_def
  ROUTE2_FULL_PROBE_MIN_DURATION_SECONDS_def
  ROUTE2_FULL_PROBE_MAX_DURATION_SECONDS_def
  ROUTE2_FULL_BOOTSTRAP_ESTIMATE_DELAY_SECONDS_def
  ROUTE2_FULL_RESERVE_BASE_SECONDS_def
  ROUTE2_FULL_RESERVE_MAX_VOLATILITY_SECONDS_def
  ROUTE2_FULL_RESERVE_MAX_UNCERTAINTY_SECONDS_def
  ROUTE2_FULL_VOLATILITY_HORIZON_SECONDS_def
section \<open>Profiles\<close>

record mobile_profile =
  pr_key :: string
  pr_max_width :: int
  pr_max_height :: int
  pr_level :: string
  pr_crf :: int
  pr_maxrate :: string
  pr_bufsize :: string

definition MOBILE_PROFILES :: "(string \<times> mobile_profile) list" where
  "MOBILE_PROFILES =
     [(''mobile_1080p'',
       \<lparr>pr_key = ''mobile_1080p'', pr_max_width = 1920, pr_max_height = 1080, pr_level = ''4.1'',
        pr_crf = 21, pr_maxrate = ''5500k'', pr_bufsize = ''11000k''\<rparr>),
      (''mobile_2160p'',
       \<lparr>pr_key = ''mobile_2160p'', pr_max_width = 3840, pr_max_height = 2160, pr_level = ''5.1'',
        pr_crf = 22, pr_maxrate = ''16000k'', pr_bufsize = ''32000k''\<rparr>)]"

section \<open>Epochs\<close>

datatype process = Running | Exited int

definition poll_running :: "process option \<Rightarrow> bool" where
  "poll_running p = (p = Some Running)"

type_synonym directory = "(string \<times> int) list"

record playback_epoch =
  ep_id :: string
  ep_session_id :: string
  ep_created_at :: string
  ep_target :: real
  ep_start :: real
  ep_attach :: real
  ep_staging_dir :: directory
  ep_published_dir :: directory
  ep_state :: string
  ep_init_published :: bool
  ep_published_segments :: "int list"
  ep_segment_bytes :: "(int \<times> int) list"
  ep_init_bytes :: int
  ep_total_bytes :: int
  ep_contiguous_through :: "int option"
  ep_transcoder_completed :: bool
  ep_worker :: "string option"
  ep_last_published_at :: "string option"
  ep_last_error :: "string option"
  ep_stop_requested :: bool
  ep_process :: "process option"
  ep_drain_started :: "real option"
  ep_drain_revision :: int
  ep_last_access :: real
  ep_frontier_samples :: "(real \<times> real) list"
  ep_byte_samples :: "(real \<times> int) list"
  ep_publish_count :: int
  ep_init_latency :: "real option"
  ep_last_latency :: "real option"
  ep_latency_total :: real
  ep_latency_max :: "real option"
  ep_last_publish_kind :: "string option"
  ep_under_supply_started :: "real option"
  ep_display_eta :: "real option"
  ep_display_eta_updated :: real
  ep_display_eta_stable :: bool
  ep_replacement_reason :: "string option"
  ep_maintenance_target :: "int option"
  ep_downshift_abort :: "string option"
  ep_reclaim_request :: "string option"
  ep_resupply_target :: "int option"
  ep_resupply_abort :: "string option"
  ep_audio_stream :: "int option"

text \<open>\<open>new_epoch\<close> is the constructor call with the field defaults of the dataclass; \<open>now\<close> is the
  \<^verbatim>\<open>time.time()\<close> of the default factory of \<^verbatim>\<open>last_media_access_at_ts\<close>.\<close>

definition new_epoch :: "string \<Rightarrow> string \<Rightarrow> string \<Rightarrow> real \<Rightarrow> real \<Rightarrow> real \<Rightarrow> int option \<Rightarrow> real \<Rightarrow> playback_epoch" where
  "new_epoch eid sid created target start attach audio now =
     \<lparr>ep_id = eid, ep_session_id = sid, ep_created_at = created, ep_target = target,
      ep_start = start, ep_attach = attach, ep_staging_dir = [], ep_published_dir = [],
      ep_state = ''starting'', ep_init_published = False, ep_published_segments = [],
      ep_segment_bytes = [], ep_init_bytes = 0, ep_total_bytes = 0, ep_contiguous_through = None,
      ep_transcoder_completed = False, ep_worker = None, ep_last_published_at = None,
      ep_last_error = None, ep_stop_requested = False, ep_process = None,
      ep_drain_started = None, ep_drain_revision = 0, ep_last_access = now,
      ep_frontier_samples = [], ep_byte_samples = [], ep_publish_count = 0,
      ep_init_latency = None, ep_last_latency = None, ep_latency_total = 0,
      ep_latency_max = None, ep_last_publish_kind = None, ep_under_supply_started = None,
      ep_display_eta = None, ep_display_eta_updated = 0, ep_display_eta_stable = False,
      ep_replacement_reason = None, ep_maintenance_target = None, ep_downshift_abort = None,
      ep_reclaim_request = None, ep_resupply_target = None, ep_resupply_abort = None, ep_audio_stream = audio\<rparr>"

section \<open>Browser sessions\<close>

record lite_decider =
  ld_started :: bool
  ld_started_at :: real
  ld_last_sample :: real
  ld_state :: string
  ld_confirmed_tier :: string
  ld_previous_tier :: "string option"
  ld_candidate_tier :: "string option"
  ld_reason :: string
  ld_positive :: real
  ld_negative :: real
  ld_hold_reason :: "string option"
  ld_recovery_hold_until :: real
  ld_seek_hold_until :: real

definition new_lite_decider :: lite_decider where
  "new_lite_decider =
     \<lparr>ld_started = False, ld_started_at = 0, ld_last_sample = 0, ld_state = ''neutral_45'',
      ld_confirmed_tier = ''lite_uncertain'', ld_previous_tier = None, ld_candidate_tier = None,
      ld_reason = ''cold_start_or_unknown'', ld_positive = 0, ld_negative = 0,
      ld_hold_reason = None, ld_recovery_hold_until = 0, ld_seek_hold_until = 0\<rparr>"

record audio_switch =
  as_selected :: "int option"
  as_active :: "int option"
  as_pending :: "int option"
  as_state :: string
  as_error :: "string option"
  as_candidate_epoch :: "string option"
  as_candidate_stream :: "int option"
  as_candidate_state :: string
  as_candidate_error :: "string option"
  as_candidate_created :: real
  as_candidate_ready :: real
  as_candidate_expires :: real
  as_previous_epoch :: "string option"
  as_previous_stream :: "int option"
  as_commit_requested :: real

definition new_audio_switch :: audio_switch where
  "new_audio_switch =
     \<lparr>as_selected = None, as_active = None, as_pending = None, as_state = ''active'',
      as_error = None, as_candidate_epoch = None, as_candidate_stream = None,
      as_candidate_state = ''none'', as_candidate_error = None, as_candidate_created = 0,
      as_candidate_ready = 0, as_candidate_expires = 0, as_previous_epoch = None,
      as_previous_stream = None, as_commit_requested = 0\<rparr>"

record emitted_window =
  ew_initialized :: bool
  ew_start :: real
  ew_end :: real
  ew_anchor :: real
  ew_back :: real
  ew_forward :: real
  ew_tier :: string
  ew_revision :: int
  ew_reason :: string

definition new_emitted_window :: emitted_window where
  "new_emitted_window =
     \<lparr>ew_initialized = False, ew_start = 0, ew_end = 0, ew_anchor = 0, ew_back = 0,
      ew_forward = 0, ew_tier = [], ew_revision = 0, ew_reason = []\<rparr>"

text \<open>The state of the transactions that move threads between sessions, as far as their aborts touch it.\<close>

record adaptive_state =
  ad_downshift_retry_count :: int
  ad_downshift_retry_not_before :: real
  ad_downshift_retry_blocker :: "string option"
  ad_downshift_last_abort :: "string option"
  ad_reclaim_sufficient :: "bool option"
  ad_reclaim_consumer_user :: "int option"
  ad_reclaim_consumer_media :: "int option"
  ad_reclaim_completed_at :: "string option"
  ad_reclaim_failed :: "string option"
  ad_reclaim_retry_count :: int
  ad_reclaim_retry_not_before :: real
  ad_reclaim_retry_blocker :: "string option"
  ad_reclaim_state :: string
  ad_reclaim_blockers :: "string list"
  ad_reclaim_abort :: "string option"
  ad_resupply_state :: string
  ad_resupply_blockers :: "string list"
  ad_resupply_abort :: "string option"
  ad_priority_reexpand :: bool
  ad_donor_protection :: bool
  ad_admission_blocked :: bool

definition new_adaptive_state :: adaptive_state where
  "new_adaptive_state =
     \<lparr>ad_downshift_retry_count = 0, ad_downshift_retry_not_before = 0, ad_downshift_retry_blocker = None,
      ad_downshift_last_abort = None, ad_reclaim_sufficient = None, ad_reclaim_consumer_user = None,
      ad_reclaim_consumer_media = None, ad_reclaim_completed_at = None, ad_reclaim_failed = None,
      ad_reclaim_retry_count = 0, ad_reclaim_retry_not_before = 0, ad_reclaim_retry_blocker = None,
      ad_reclaim_state = ''none'', ad_reclaim_blockers = [], ad_reclaim_abort = None,
      ad_resupply_state = ''none'', ad_resupply_blockers = [], ad_resupply_abort = None,
      ad_priority_reexpand = False, ad_donor_protection = False, ad_admission_blocked = False\<rparr>"

record browser_session =
  bs_engine_mode :: string
  bs_playback_mode :: string
  bs_state :: string
  bs_attach_revision :: int
  bs_client_revision :: int
  bs_attach_issued_at :: real
  bs_last_attach_warning :: int
  bs_violation_signature :: string
  bs_active :: "string option"
  bs_replacement :: "string option"
  bs_retry_not_before :: real
  bs_replacement_count :: int
  bs_adaptive :: adaptive_state
  bs_preflight_state :: string
  bs_preflight_error :: "string option"
  bs_preflight_started :: real
  bs_prepare_started :: real
  bs_source_bins :: "int list"
  bs_probes :: "(real \<times> int \<times> real) list"
  bs_lite :: lite_decider
  bs_audio :: audio_switch
  bs_epochs :: "(string \<times> playback_epoch) list"
  bs_window :: emitted_window

definition new_browser_session :: browser_session where
  "new_browser_session =
     \<lparr>bs_engine_mode = ''legacy'', bs_playback_mode = ''lite'', bs_state = ''legacy'',
      bs_attach_revision = 0, bs_client_revision = 0, bs_attach_issued_at = 0,
      bs_last_attach_warning = 0, bs_violation_signature = [], bs_active = None, bs_replacement = None,
      bs_retry_not_before = 0, bs_replacement_count = 0, bs_adaptive = new_adaptive_state, bs_preflight_state = ''idle'',
      bs_preflight_error = None, bs_preflight_started = 0, bs_prepare_started = 0,
      bs_source_bins = [], bs_probes = [], bs_lite = new_lite_decider,
      bs_audio = new_audio_switch, bs_epochs = [], bs_window = new_emitted_window\<rparr>"

section \<open>Playback sessions\<close>

record cluster_job =
  cj_generation :: int
  cj_phase :: string
  cj_target :: real
  cj_target_segment :: int
  cj_start_segment :: int
  cj_end_segment :: int
  cj_start_seconds :: real
  cj_end_seconds :: real
  cj_state :: string
  cj_worker :: "string option"
  cj_superseded :: bool
  cj_process :: "process option"

record mobile_session =
  ms_id :: string
  ms_user :: int
  ms_auth_session :: "int option"
  ms_username :: "string option"
  ms_media_item :: int
  ms_title :: string
  ms_profile :: string
  ms_source_kind :: string
  ms_duration :: real
  ms_cache_key :: string
  ms_source_fingerprint :: string
  ms_last_client_seen :: string
  ms_last_media_access :: string
  ms_state :: string
  ms_epoch :: int
  ms_target :: real
  ms_pending_target :: "real option"
  ms_manifest_start :: "int option"
  ms_manifest_end :: "int option"
  ms_ready_start :: real
  ms_ready_end :: real
  ms_last_stable :: real
  ms_committed :: real
  ms_actual :: real
  ms_playing_before_seek :: bool
  ms_client_is_playing :: bool
  ms_device_class :: "string option"
  ms_user_agent :: "string option"
  ms_hls_engine :: "string option"
  ms_client_current_time :: "real option"
  ms_client_time_advancing :: "bool option"
  ms_stall_reason :: "string option"
  ms_lifecycle :: string
  ms_backgrounded_at :: real
  ms_parked :: bool
  ms_parked_at :: real
  ms_resumed_at :: real
  ms_stalled_recovery :: bool
  ms_last_refill_start :: "real option"
  ms_last_refill_end :: "real option"
  ms_last_error :: "string option"
  ms_worker_state :: string
  ms_queue_started :: "real option"
  ms_expires_at :: real
  ms_active_job :: "cluster_job option"
  ms_browser :: browser_session

definition new_session :: "string \<Rightarrow> int \<Rightarrow> int \<Rightarrow> string \<Rightarrow> string \<Rightarrow> real \<Rightarrow> string \<Rightarrow> string \<Rightarrow> string \<Rightarrow> mobile_session" where
  "new_session sid user item profile source_kind duration cache_key fingerprint created =
     \<lparr>ms_id = sid, ms_user = user, ms_auth_session = None, ms_username = None, ms_media_item = item,
      ms_title = [], ms_profile = profile,
      ms_source_kind = source_kind, ms_duration = duration, ms_cache_key = cache_key,
      ms_source_fingerprint = fingerprint, ms_last_client_seen = created,
      ms_last_media_access = created, ms_state = ''queued'', ms_epoch = 1, ms_target = 0,
      ms_pending_target = None, ms_manifest_start = None, ms_manifest_end = None,
      ms_ready_start = 0, ms_ready_end = 0, ms_last_stable = 0, ms_committed = 0, ms_actual = 0,
      ms_playing_before_seek = False, ms_client_is_playing = False, ms_device_class = None,
      ms_user_agent = None, ms_hls_engine = None,
      ms_client_current_time = None, ms_client_time_advancing = None, ms_stall_reason = None,
      ms_lifecycle = ''attached'', ms_backgrounded_at = 0, ms_parked = False, ms_parked_at = 0,
      ms_resumed_at = 0, ms_stalled_recovery = False, ms_last_refill_start = None,
      ms_last_refill_end = None, ms_last_error = None, ms_worker_state = ''idle'',
      ms_queue_started = None, ms_expires_at = 0, ms_active_job = None,
      ms_browser = new_browser_session\<rparr>"

lemmas new_record_defs =
  new_epoch_def new_adaptive_state_def new_lite_decider_def new_audio_switch_def new_emitted_window_def
  new_browser_session_def new_session_def

section \<open>Time on the media timeline\<close>

definition clamp_time :: "real \<Rightarrow> real \<Rightarrow> real" where
  "clamp_time position duration =
     (let clamped = max 0 position in
      if duration \<le> 0 then clamped else min clamped (max (duration - 1) 0))"

definition segment_index_for_time :: "real \<Rightarrow> int" where
  "segment_index_for_time position = max 0 \<lfloor>position / SEGMENT_DURATION_SECONDS\<rfloor>"

lemma clamp_time_nonneg [simp]: "0 \<le> clamp_time p d"
  by (simp add: clamp_time_def Let_def)

lemma clamp_time_le_duration: "0 < d \<Longrightarrow> clamp_time p d \<le> max (d - 1) 0"
  by (simp add: clamp_time_def Let_def)

lemma clamp_time_less_duration: "0 < d \<Longrightarrow> clamp_time p d < d"
  using clamp_time_le_duration[of d p] by auto

lemma clamp_time_mono: "p \<le> q \<Longrightarrow> clamp_time p d \<le> clamp_time q d"
  by (auto simp: clamp_time_def Let_def)

lemma clamp_time_idem [simp]: "clamp_time (clamp_time p d) d = clamp_time p d"
  by (auto simp: clamp_time_def Let_def)

lemma segment_index_nonneg [simp]: "0 \<le> segment_index_for_time p"
  by (simp add: segment_index_for_time_def)

lemma segment_index_bounds:
  assumes "0 \<le> p"
  shows "of_int (segment_index_for_time p) * SEGMENT_DURATION_SECONDS \<le> p"
    and "p < of_int (segment_index_for_time p + 1) * SEGMENT_DURATION_SECONDS"
proof -
  have idx: "segment_index_for_time p = \<lfloor>p / 2\<rfloor>"
    using assms by (simp add: segment_index_for_time_def SEGMENT_DURATION_SECONDS_def)
  have "of_int \<lfloor>p / 2\<rfloor> * 2 \<le> p" by linarith
  moreover have "p < (of_int \<lfloor>p / 2\<rfloor> + 1) * 2"
    using floor_correct[of "p / 2"] by (simp add: field_simps)
  ultimately show "of_int (segment_index_for_time p) * SEGMENT_DURATION_SECONDS \<le> p"
    and "p < of_int (segment_index_for_time p + 1) * SEGMENT_DURATION_SECONDS"
    by (simp_all add: idx SEGMENT_DURATION_SECONDS_def)
qed

end
