(* ===== verification/Route2_Math.thy ===== *)
theory Route2_Math
  imports Playback_Models
begin

text \<open>
  The rate arithmetic of \<^verbatim>\<open>services/mobile_playback_route2_math.py\<close>: the three location estimates
  of a list of transfer rates, the conservative goodput built from them, and the projection of a
  buffered runway. Every estimate satisfies the contract \<open>rate_summary\<close>: on positive rates it
  lies between any bounds of them. \<^verbatim>\<open>statistics.median\<close> is modelled as \<open>py_median\<close>.
\<close>

section \<open>Location estimates\<close>

definition positive_rates :: "real list \<Rightarrow> real list" where
  "positive_rates values = filter (\<lambda>v. v > 0) values"

definition harmonic_mean :: "real list \<Rightarrow> real" where
  "harmonic_mean values =
     (let positive = positive_rates values in
      if positive = [] then 0
      else let inverse_sum = sum_list (map (\<lambda>v. 1 / v) positive) in
           if inverse_sum \<le> 0 then 0 else real (length positive) / inverse_sum)"

definition percentile :: "real list \<Rightarrow> real \<Rightarrow> real" where
  "percentile values p =
     (if values = [] then 0
      else let ordered = sort (positive_rates values) in
           if ordered = [] then 0
           else if length ordered = 1 then ordered ! 0
           else let rank = max 0 (min (int (length ordered) - 1)
                                      \<lfloor>real (length ordered - 1) * p\<rfloor>)
                in ordered ! nat rank)"

fun ema_step :: "real \<Rightarrow> real \<Rightarrow> real list \<Rightarrow> real" where
  "ema_step alpha e [] = e"
| "ema_step alpha e (v # vs) = ema_step alpha (alpha * v + (1 - alpha) * e) vs"

fun ema :: "real \<Rightarrow> real list \<Rightarrow> real" where
  "ema alpha [] = 0"
| "ema alpha (v # vs) = max 0 (ema_step alpha v vs)"

definition py_median :: "real list \<Rightarrow> real" where
  "py_median values =
     (let d = sort values; n = length d in
      if odd n then d ! (n div 2) else (d ! (n div 2 - 1) + d ! (n div 2)) / 2)"

definition positive_median :: "real list \<Rightarrow> real" where
  "positive_median values = max 0 (py_median values)"

subsection \<open>The contract of an estimate\<close>

locale rate_summary =
  fixes estimate :: "real list \<Rightarrow> real"
  assumes within:
    "xs \<noteq> [] \<Longrightarrow> 0 < a \<Longrightarrow> \<forall>x \<in> set xs. a \<le> x \<and> x \<le> b \<Longrightarrow> a \<le> estimate xs \<and> estimate xs \<le> b"
begin

lemma between_Min_Max:
  assumes "xs \<noteq> []" and "\<forall>x \<in> set xs. 0 < x"
  shows "Min (set xs) \<le> estimate xs \<and> estimate xs \<le> Max (set xs)"
proof -
  have "Min (set xs) \<in> set xs" using assms(1) by simp
  then have "0 < Min (set xs)" using assms(2) by blast
  moreover have "\<forall>x \<in> set xs. Min (set xs) \<le> x \<and> x \<le> Max (set xs)" by simp
  ultimately show ?thesis using within assms(1) by blast
qed

lemma positive: "xs \<noteq> [] \<Longrightarrow> \<forall>x \<in> set xs. 0 < x \<Longrightarrow> 0 < estimate xs"
proof -
  assume xs: "xs \<noteq> []" "\<forall>x \<in> set xs. 0 < x"
  then have "0 < Min (set xs)" by simp
  with between_Min_Max[OF xs] show ?thesis by linarith
qed

lemma steady_rate: "0 < r \<Longrightarrow> 0 < n \<Longrightarrow> estimate (replicate n r) = r"
  using within[of "replicate n r" r r] by auto

end

lemma positive_rates_pos: "x \<in> set (positive_rates xs) \<Longrightarrow> 0 < x"
  by (simp add: positive_rates_def)

lemma positive_rates_id: "\<forall>x \<in> set xs. 0 < x \<Longrightarrow> positive_rates xs = xs"
  by (simp add: positive_rates_def)

lemma bounded_positive: "0 < (a :: real) \<Longrightarrow> \<forall>x \<in> set xs. a \<le> x \<and> x \<le> b \<Longrightarrow> \<forall>x \<in> set xs. 0 < x"
  by fastforce

lemma sum_inverse_bounds:
  assumes "0 < a" and "\<forall>x \<in> set xs. a \<le> x \<and> x \<le> b"
  shows "real (length xs) \<le> b * sum_list (map (\<lambda>v. 1 / v) xs)
       \<and> a * sum_list (map (\<lambda>v. 1 / v) xs) \<le> real (length xs)"
  using assms
proof (induction xs)
  case (Cons x xs)
  then have x: "0 < x" "a \<le> x" "x \<le> b" by auto
  then have bx: "1 \<le> b / x" "a / x \<le> 1" by (simp_all add: field_simps)
  have "real (length xs) \<le> b * sum_list (map (\<lambda>v. 1 / v) xs)
      \<and> a * sum_list (map (\<lambda>v. 1 / v) xs) \<le> real (length xs)"
    using Cons by simp
  with bx show ?case by (auto simp: distrib_left)
qed simp

lemma sum_inverse_pos:
  "xs \<noteq> [] \<Longrightarrow> \<forall>x \<in> set xs. 0 < x \<Longrightarrow> 0 < sum_list (map (\<lambda>v. 1 / v) (xs :: real list))"
proof (induction xs)
  case (Cons x xs)
  then show ?case by (cases xs) (auto intro: add_pos_pos)
qed simp

interpretation harmonic: rate_summary harmonic_mean
proof unfold_locales
  fix xs :: "real list" and a b :: real
  assume xs: "xs \<noteq> []" and a: "0 < a" and ab: "\<forall>x \<in> set xs. a \<le> x \<and> x \<le> b"
  let ?s = "sum_list (map (\<lambda>v. 1 / v) xs)"
  have pos: "\<forall>x \<in> set xs. 0 < x" by (rule bounded_positive[OF a ab])
  have s: "0 < ?s" by (rule sum_inverse_pos[OF xs pos])
  have "harmonic_mean xs = real (length xs) / ?s"
    using xs s by (simp add: harmonic_mean_def positive_rates_id[OF pos] Let_def)
  then show "a \<le> harmonic_mean xs \<and> harmonic_mean xs \<le> b"
    using sum_inverse_bounds[OF a ab] s by (simp add: pos_le_divide_eq pos_divide_le_eq)
qed

lemma ema_step_within:
  assumes "0 \<le> alpha" "alpha \<le> 1" "a \<le> e" "e \<le> b" "\<forall>x \<in> set xs. a \<le> x \<and> x \<le> b"
  shows "a \<le> ema_step alpha e xs \<and> ema_step alpha e xs \<le> b"
  using assms
proof (induction alpha e xs rule: ema_step.induct)
  case (2 alpha e v vs)
  let ?e = "alpha * v + (1 - alpha) * e"
  have "a \<le> v" "v \<le> b" using "2.prems" by auto
  then have "a \<le> ?e" "?e \<le> b"
    using "2.prems" convex_bound_le[of v b e alpha "1 - alpha"]
      convex_bound_le[of "- v" "- a" "- e" alpha "1 - alpha"] by auto
  then show ?case using "2.IH" "2.prems" by simp
qed simp

lemma ema_rate_summary:
  assumes "0 \<le> alpha" "alpha \<le> 1"
  shows "rate_summary (ema alpha)"
proof
  fix xs :: "real list" and a b :: real
  assume xs: "xs \<noteq> []" and a: "0 < a" and ab: "\<forall>x \<in> set xs. a \<le> x \<and> x \<le> b"
  obtain v vs where "xs = v # vs" using xs by (cases xs) auto
  then show "a \<le> ema alpha xs \<and> ema alpha xs \<le> b"
    using ema_step_within[OF assms, of a v b vs] a ab by auto
qed

interpretation slow_ema: rate_summary "ema ROUTE2_SUPPLY_RATE_SLOW_EMA_ALPHA"
  by (rule ema_rate_summary) (simp_all add: route2_consts)

interpretation fast_ema: rate_summary "ema ROUTE2_SUPPLY_RATE_FAST_EMA_ALPHA"
  by (rule ema_rate_summary) (simp_all add: route2_consts)

lemma percentile_index:
  assumes "xs \<noteq> []" and "\<forall>x \<in> set xs. 0 < x" and "0 \<le> p" and "p \<le> 1"
  shows "percentile xs p = sort xs ! nat \<lfloor>real (length xs - 1) * p\<rfloor>"
    and "nat \<lfloor>real (length xs - 1) * p\<rfloor> < length xs"
proof -
  let ?n = "length xs" and ?k = "\<lfloor>real (length xs - 1) * p\<rfloor>"
  have n: "0 < ?n" using assms(1) by simp
  have "real (?n - 1) * p \<le> real (?n - 1) * 1" using assms(4) by (intro mult_left_mono) simp_all
  then have k: "?k \<le> int (?n - 1)" by (simp add: floor_le_iff)
  have k0: "0 \<le> ?k" using assms(3) by simp
  show less: "nat ?k < ?n" using k k0 n by linarith
  have sorted_ne: "sort xs \<noteq> []" using assms(1) by (metis length_0_conv length_sort)
  show "percentile xs p = sort xs ! nat ?k"
  proof (cases "?n = 1")
    case True
    then have "nat ?k = 0" using less by simp
    with True show ?thesis
      using assms(1) sorted_ne by (simp add: percentile_def positive_rates_id[OF assms(2)] Let_def)
  next
    case False
    have "max 0 (min (int ?n - 1) ?k) = ?k" using k k0 n by linarith
    with False show ?thesis
      using assms(1) sorted_ne by (simp add: percentile_def positive_rates_id[OF assms(2)] Let_def)
  qed
qed

interpretation p20: rate_summary "\<lambda>xs. percentile xs (1 / 5)"
proof unfold_locales
  fix xs :: "real list" and a b :: real
  assume xs: "xs \<noteq> []" and a: "0 < a" and ab: "\<forall>x \<in> set xs. a \<le> x \<and> x \<le> b"
  have pos: "\<forall>x \<in> set xs. 0 < x" by (rule bounded_positive[OF a ab])
  note idx = percentile_index[OF xs pos, of "1 / 5"]
  have "percentile xs (1 / 5) = sort xs ! nat \<lfloor>real (length xs - 1) * (1 / 5)\<rfloor>"
    by (rule idx(1)) simp_all
  moreover have "nat \<lfloor>real (length xs - 1) * (1 / 5)\<rfloor> < length (sort xs)"
    unfolding length_sort by (rule idx(2)) simp_all
  ultimately have "percentile xs (1 / 5) \<in> set (sort xs)" by (metis nth_mem)
  then show "a \<le> percentile xs (1 / 5) \<and> percentile xs (1 / 5) \<le> b" using ab by simp
qed

lemma py_median_within:
  assumes "xs \<noteq> []" and "\<forall>x \<in> set xs. a \<le> x \<and> x \<le> b"
  shows "a \<le> py_median xs \<and> py_median xs \<le> b"
proof -
  let ?d = "sort xs" and ?n = "length xs"
  have n: "0 < ?n" using assms(1) by simp
  have el: "a \<le> ?d ! i \<and> ?d ! i \<le> b" if "i < ?n" for i
    using assms(2) that by (metis length_sort nth_mem set_sort)
  have "a \<le> ?d ! (?n div 2) \<and> ?d ! (?n div 2) \<le> b" using el n by simp
  moreover have "a \<le> ?d ! (?n div 2 - 1) \<and> ?d ! (?n div 2 - 1) \<le> b" by (rule el) (use n in linarith)
  ultimately show ?thesis by (auto simp: py_median_def Let_def)
qed

interpretation median: rate_summary positive_median
proof unfold_locales
  fix xs :: "real list" and a b :: real
  assume xs: "xs \<noteq> []" and a: "0 < a" and ab: "\<forall>x \<in> set xs. a \<le> x \<and> x \<le> b"
  show "a \<le> positive_median xs \<and> positive_median xs \<le> b"
    using py_median_within[OF xs ab] a by (simp add: positive_median_def)
qed

section \<open>Conservative goodput\<close>

record goodput =
  gp_safe_rate :: real
  gp_harmonic_mean :: real
  gp_slow_ema :: real
  gp_p20 :: real
  gp_median_rate :: real
  gp_sample_count :: int
  gp_observation :: real
  gp_confident :: bool

definition conservative_goodput :: "real list \<Rightarrow> real \<Rightarrow> goodput" where
  "conservative_goodput rates observation =
     (let positive = positive_rates rates in
      if positive = [] then
        \<lparr>gp_safe_rate = 0, gp_harmonic_mean = 0, gp_slow_ema = 0, gp_p20 = 0, gp_median_rate = 0,
         gp_sample_count = 0, gp_observation = observation, gp_confident = False\<rparr>
      else
        let hm = harmonic_mean positive;
            slow = ema ROUTE2_SUPPLY_RATE_SLOW_EMA_ALPHA positive;
            p = percentile positive (1 / 5);
            median_rate = positive_median positive;
            safe_rate = Min (set (filter (\<lambda>r. r > 0) [hm, slow, p]));
            count = int (length positive)
        in \<lparr>gp_safe_rate = safe_rate, gp_harmonic_mean = hm, gp_slow_ema = slow, gp_p20 = p,
            gp_median_rate = median_rate, gp_sample_count = count, gp_observation = observation,
            gp_confident = (count \<ge> ROUTE2_FULL_GOODPUT_MIN_SAMPLE_COUNT
              \<and> observation \<ge> ROUTE2_FULL_GOODPUT_MIN_OBSERVATION_SECONDS
              \<and> safe_rate > 0)\<rparr>)"

lemma goodput_no_rates:
  "positive_rates rates = [] \<Longrightarrow> gp_safe_rate (conservative_goodput rates obs) = 0
     \<and> gp_sample_count (conservative_goodput rates obs) = 0 \<and> \<not> gp_confident (conservative_goodput rates obs)"
  by (simp add: conservative_goodput_def)

lemma goodput_safe_rate_min:
  assumes "positive_rates rates \<noteq> []"
  shows "gp_safe_rate (conservative_goodput rates obs)
    = min (harmonic_mean (positive_rates rates))
        (min (ema ROUTE2_SUPPLY_RATE_SLOW_EMA_ALPHA (positive_rates rates))
          (percentile (positive_rates rates) (1 / 5)))"
proof -
  have pos: "\<forall>x \<in> set (positive_rates rates). 0 < x" by (simp add: positive_rates_def)
  note estimates = harmonic.positive[OF assms pos] slow_ema.positive[OF assms pos] p20.positive[OF assms pos]
  show ?thesis using assms estimates by (simp add: conservative_goodput_def Let_def)
qed

text \<open>The safe rate is itself a summary of the positive rates: the three it is the least of are.\<close>

interpretation safe: rate_summary "\<lambda>xs. gp_safe_rate (conservative_goodput xs obs)" for obs
proof unfold_locales
  fix xs :: "real list" and a b :: real
  assume xs: "xs \<noteq> []" and a: "0 < a" and ab: "\<forall>x \<in> set xs. a \<le> x \<and> x \<le> b"
  have pos: "positive_rates xs = xs" by (rule positive_rates_id[OF bounded_positive[OF a ab]])
  have ne: "positive_rates xs \<noteq> []" using pos xs by simp
  show "a \<le> gp_safe_rate (conservative_goodput xs obs) \<and> gp_safe_rate (conservative_goodput xs obs) \<le> b"
    using harmonic.within[OF xs a ab] slow_ema.within[OF xs a ab] p20.within[OF xs a ab]
    unfolding goodput_safe_rate_min[OF ne] pos by linarith
qed

lemma goodput_positive_only:
  "conservative_goodput (positive_rates rates) obs = conservative_goodput rates obs"
  by (simp add: conservative_goodput_def positive_rates_def)

text \<open>The goodput estimate is conservative. Whatever transfer rates were observed, the safe rate
  is not above the harmonic mean, the slow moving average, the 20th percentile or the fastest
  observed rate; it is not negative; and it is reported as confident exactly when at least three
  rates were positive and the window spans at least eight seconds.\<close>

theorem goodput_conservative:
  fixes rates :: "real list" and observation :: real
  defines "g \<equiv> conservative_goodput rates observation"
  shows "gp_safe_rate g \<le> gp_harmonic_mean g \<and> gp_safe_rate g \<le> gp_slow_ema g
       \<and> gp_safe_rate g \<le> gp_p20 g \<and> 0 \<le> gp_safe_rate g
       \<and> gp_safe_rate g \<le> Max (insert 0 (set rates))
       \<and> (gp_confident g \<longleftrightarrow> 3 \<le> length (filter (\<lambda>r. 0 < r) rates) \<and> 8 \<le> observation)"
proof (cases "positive_rates rates = []")
  case True
  then show ?thesis
    unfolding g_def by (simp add: conservative_goodput_def) (simp add: positive_rates_def)
next
  case False
  let ?p = "positive_rates rates"
  have pos: "\<forall>x \<in> set ?p. 0 < x" by (simp add: positive_rates_def)
  note least = goodput_safe_rate_min[OF False, of observation]
  have nonneg: "0 < gp_safe_rate g"
    using safe.positive[OF False pos, of observation] by (simp add: g_def goodput_positive_only)
  have "gp_safe_rate g \<le> Max (set ?p)"
    using safe.between_Min_Max[OF False pos, of observation] by (simp add: g_def goodput_positive_only)
  also have "\<dots> \<le> Max (insert 0 (set rates))"
    by (rule Max_mono) (use False in \<open>auto simp: positive_rates_def filter_empty_conv\<close>)
  finally have upper: "gp_safe_rate g \<le> Max (insert 0 (set rates))" .
  have fields: "gp_harmonic_mean g = harmonic_mean ?p"
    "gp_slow_ema g = ema ROUTE2_SUPPLY_RATE_SLOW_EMA_ALPHA ?p"
    "gp_p20 g = percentile ?p (1 / 5)"
    using False by (simp_all add: g_def conservative_goodput_def Let_def)
  have "gp_confident g \<longleftrightarrow> 3 \<le> int (length ?p) \<and> 8 \<le> observation \<and> 0 < gp_safe_rate g"
    using False by (simp add: g_def conservative_goodput_def Let_def route2_consts)
  then have "gp_confident g \<longleftrightarrow> 3 \<le> length (filter (\<lambda>r. 0 < r) rates) \<and> 8 \<le> observation"
    using nonneg by (simp add: positive_rates_def)
  with least nonneg upper fields show ?thesis by (auto simp: g_def[symmetric])
qed

section \<open>Projected runway\<close>

definition projected_runway :: "real \<Rightarrow> real \<Rightarrow> real \<Rightarrow> real \<Rightarrow> real" where
  "projected_runway runway supply_rate horizon demand_rate =
     max 0 (runway + (supply_rate - demand_rate) * horizon)"

definition required_runway :: "real \<Rightarrow> real \<Rightarrow> real \<Rightarrow> real \<Rightarrow> real" where
  "required_runway minimum target horizon supply_rate =
     max minimum (max 0 (target - (supply_rate - 1) * horizon))"

text \<open>The required runway is the least runway that satisfies the gate: a non-negative runway
  reaches it exactly when it reaches the minimum and its projection over the horizon, at normal
  playback speed, reaches the projected target.\<close>

theorem required_runway_is_threshold:
  assumes "0 \<le> runway" and "0 < target"
  shows "required_runway minimum target horizon supply_rate \<le> runway
    \<longleftrightarrow> minimum \<le> runway \<and> target \<le> projected_runway runway supply_rate horizon 1"
  using assms by (auto simp: required_runway_def projected_runway_def)

theorem required_runway_is_threshold_witness:
  "required_runway 24 45 90 (6 / 5) \<le> 27
    \<longleftrightarrow> 24 \<le> (27 :: real) \<and> 45 \<le> projected_runway 27 (6 / 5) 90 1"
  using required_runway_is_threshold[of 27 45 24 90 "6 / 5"] by simp

end
