(* ===== verification/Route2_Supply.thy ===== *)
theory Route2_Supply
  imports Route2_Math
begin

text \<open>
  Supply of an epoch: \<^verbatim>\<open>services/mobile_playback_route2_samples.py\<close> (the published end of an
  epoch and the three sample windows) and \<^verbatim>\<open>services/mobile_playback_route2_metrics.py\<close>
  (goodput of server and client, the supply model, the runway and the recovery target).
\<close>

section \<open>Sample windows\<close>

definition epoch_ready_end :: "mobile_session \<Rightarrow> playback_epoch \<Rightarrow> real" where
  "epoch_ready_end session epoch =
     (case ep_contiguous_through epoch of
        None \<Rightarrow> 0
      | Some through \<Rightarrow>
          if \<not> ep_init_published epoch then 0
          else min (ms_duration session)
                 (ep_start epoch + of_int (through + 1) * SEGMENT_DURATION_SECONDS))"

definition record_frontier_sample ::
  "mobile_session \<Rightarrow> real option \<Rightarrow> real \<Rightarrow> playback_epoch \<Rightarrow> playback_epoch" where
  "record_frontier_sample session now_arg clock epoch =
     (let now = or_real now_arg clock;
          published_end = py_round 3 (epoch_ready_end session epoch);
          history = ep_frontier_samples epoch;
          appended = (if history = [] \<or> published_end > snd (last history) + 1 / 1000
                         \<or> now - fst (last history) \<ge> 1
                      then history @ [(now, published_end)] else history)
      in epoch\<lparr>ep_frontier_samples := trim_window fst (now - ROUTE2_SUPPLY_RATE_WINDOW_SECONDS) appended\<rparr>)"

definition record_byte_sample :: "real option \<Rightarrow> real \<Rightarrow> playback_epoch \<Rightarrow> playback_epoch" where
  "record_byte_sample now_arg clock epoch =
     (let now = or_real now_arg clock;
          total = max 0 (ep_total_bytes epoch);
          history = ep_byte_samples epoch;
          appended = (if history = [] \<or> total > snd (last history) \<or> now - fst (last history) \<ge> 1
                      then history @ [(now, total)] else history)
      in epoch\<lparr>ep_byte_samples := trim_window fst (now - ROUTE2_FULL_GOODPUT_WINDOW_SECONDS) appended\<rparr>)"

definition record_client_probe ::
  "int option \<Rightarrow> int option \<Rightarrow> real option \<Rightarrow> real \<Rightarrow> browser_session \<Rightarrow> browser_session" where
  "record_client_probe probe_bytes probe_ms now_arg clock b =
     (case (probe_bytes, probe_ms) of
        (Some bytes, Some ms) \<Rightarrow>
          (let duration = max 0 (of_int ms / 1000) in
           if bytes \<le> 0 \<or> duration < ROUTE2_FULL_PROBE_MIN_DURATION_SECONDS
              \<or> duration > ROUTE2_FULL_PROBE_MAX_DURATION_SECONDS then b
           else let now = or_real now_arg clock in
                b\<lparr>bs_probes := trim_window fst (now - ROUTE2_FULL_GOODPUT_WINDOW_SECONDS)
                                 (bs_probes b @ [(now, bytes, duration)])\<rparr>)
      | _ \<Rightarrow> b)"

subsection \<open>The windows stay ordered and short\<close>

definition sample_window :: "real \<Rightarrow> real \<Rightarrow> (real \<times> 'a) list \<Rightarrow> bool" where
  "sample_window width now h =
     (sorted (map fst h) \<and> (\<forall>s \<in> set h. fst s \<le> now \<and> (length h > 1 \<longrightarrow> now - width \<le> fst s)))"

lemma sample_window_Nil [simp]: "sample_window width now []"
  by (simp add: sample_window_def)

lemma trim_window_subset: "set (trim_window ts cutoff h) \<subseteq> set h"
proof -
  obtain pre where "pre @ trim_window ts cutoff h = h" using trim_window_suffix by (metis (no_types))
  from arg_cong[OF this, of set] show ?thesis by auto
qed

text \<open>One recording keeps a sample window: its samples are in order of time, none is later than
  the present, and once there are two of them all lie within the width of the window.\<close>

lemma sample_window_trim:
  assumes "sorted (map fst h)" and "\<forall>s \<in> set h. fst s \<le> now"
  shows "sample_window width now (trim_window fst (now - width) h)"
proof -
  let ?t = "trim_window fst (now - width) h"
  have srt: "sorted (map fst ?t)" using assms(1) by (rule trim_window_sorted)
  have le: "\<forall>s \<in> set ?t. fst s \<le> now" 
    using assms(2) trim_window_subset[of fst "now - width" h] by blast
  have "now - width \<le> fst s" if "s \<in> set ?t" "length ?t > 1" for s
  proof -
    have "now - width \<le> fst (hd ?t)" using that(2) by (rule trim_window_head)
    moreover have "fst (hd ?t) \<le> fst s"
      using srt that(1) by (cases ?t) auto
    ultimately show ?thesis by linarith
  qed
  with srt le show ?thesis by (simp add: sample_window_def)
qed

lemma sample_window_step:
  assumes "sorted (map fst h)" and "\<forall>s \<in> set h. fst s \<le> now"
  shows "sample_window width now
           (trim_window fst (now - width) (if c then h @ [(now, x)] else h))"
  using assms by (intro sample_window_trim) (auto simp: sorted_append)

lemma frontier_window_step:
  assumes "sorted (map fst (ep_frontier_samples e))" and "\<forall>s \<in> set (ep_frontier_samples e). fst s \<le> or_real now_arg clock"
  shows "sample_window ROUTE2_SUPPLY_RATE_WINDOW_SECONDS (or_real now_arg clock)
           (ep_frontier_samples (record_frontier_sample session now_arg clock e))"
  unfolding record_frontier_sample_def Let_def using sample_window_step[OF assms] by simp

lemma byte_window_step:
  assumes "sorted (map fst (ep_byte_samples e))" and "\<forall>s \<in> set (ep_byte_samples e). fst s \<le> or_real now_arg clock"
  shows "sample_window ROUTE2_FULL_GOODPUT_WINDOW_SECONDS (or_real now_arg clock)
           (ep_byte_samples (record_byte_sample now_arg clock e))"
  unfolding record_byte_sample_def Let_def using sample_window_step[OF assms] by simp

text \<open>The newest sample is never dropped, so a recorded value is visible to the next reader.\<close>

lemma frontier_newest:
  "ep_frontier_samples (record_frontier_sample session now_arg clock e) \<noteq> []"
  by (simp add: record_frontier_sample_def Let_def)

section \<open>Goodput of server and client\<close>

definition interval_rates :: "(real \<times> int) list \<Rightarrow> real list" where
  "interval_rates history =
     concat (map (\<lambda>((previous_ts, previous_bytes), (current_ts, current_bytes)).
       let seconds = max 0 (current_ts - previous_ts); bytes = max 0 (current_bytes - previous_bytes)
       in if seconds < 1 / 4 \<or> bytes \<le> 0 then [] else [of_int bytes / seconds]) (consecutive history))"

definition server_byte_goodput :: "playback_epoch \<Rightarrow> goodput" where
  "server_byte_goodput epoch =
     (let history = ep_byte_samples epoch in
      if length history < 2 then conservative_goodput [] 0
      else conservative_goodput (interval_rates history)
             (max 0 (fst (last history) - fst (hd history))))"

definition client_goodput :: "browser_session \<Rightarrow> goodput" where
  "client_goodput b =
     (let samples = bs_probes b in
      if samples = [] then conservative_goodput [] 0
      else conservative_goodput
             (map (\<lambda>(_, bytes, duration). of_int bytes / duration)
               (filter (\<lambda>(_, bytes, duration). bytes > 0 \<and> duration \<ge> ROUTE2_FULL_PROBE_MIN_DURATION_SECONDS)
                 samples))
             (if length samples \<ge> 2 then max 0 (fst (last samples) - fst (hd samples)) else 0))"

lemma interval_rates_positive: "r \<in> set (interval_rates h) \<Longrightarrow> 0 < r"
  by (auto simp: interval_rates_def Let_def max_def split: if_splits intro!: divide_pos_pos)

section \<open>The supply model\<close>

definition supply_rate_x :: "playback_epoch \<Rightarrow> real \<times> real" where
  "supply_rate_x epoch =
     (let history = ep_frontier_samples epoch in
      if length history < 2 then (0, 0)
      else let (first_ts, first_end) = hd history; (last_ts, last_end) = last history;
               observation = max 0 (last_ts - first_ts)
           in if observation < 1 / 4 then (0, observation)
              else (max 0 ((last_end - first_end) / observation), observation))"

definition growth_rates :: "(real \<times> real) list \<Rightarrow> real list" where
  "growth_rates history =
     concat (map (\<lambda>((first_ts, first_end), (last_ts, last_end)).
       let seconds = max 0 (last_ts - first_ts); growth = max 0 (last_end - first_end)
       in if seconds < 1 / 4 \<or> growth \<le> 1 / 1000 then [] else [growth / seconds]) (consecutive history))"

record supply_model =
  sm_effective :: real
  sm_overall :: real
  sm_fast_ema :: real
  sm_slow_ema :: real
  sm_median :: real
  sm_observation :: real
  sm_growth_events :: int
  sm_volatility :: real
  sm_display_confident :: bool

definition supply_display_confident :: "real \<Rightarrow> real \<Rightarrow> int \<Rightarrow> real \<Rightarrow> bool" where
  "supply_display_confident effective observation events volatility =
     (effective > 0
      \<and> ((observation \<ge> ROUTE2_ETA_DISPLAY_MIN_OBSERVATION_SECONDS
           \<and> events \<ge> ROUTE2_ETA_DISPLAY_MIN_GROWTH_EVENTS
           \<and> volatility \<le> ROUTE2_ETA_DISPLAY_MAX_VOLATILITY_RATIO)
         \<or> (observation \<ge> ROUTE2_ETA_DISPLAY_STICKY_OBSERVATION_SECONDS
             \<and> events \<ge> ROUTE2_ETA_DISPLAY_MIN_GROWTH_EVENTS + 1)))"

text \<open>\<^verbatim>\<open>rate_candidates\<close>: the least of the positive estimates, and their relative spread.\<close>

definition least_candidate :: "real list \<Rightarrow> real" where
  "least_candidate rates = (let c = positive_rates rates in if c = [] then 0 else Min (set c))"

definition volatility_ratio :: "real list \<Rightarrow> real" where
  "volatility_ratio rates =
     (let c = positive_rates rates in
      if length c \<ge> 2 then (Max (set c) - Min (set c)) / max (Max (set c)) (1 / 1000) else 0)"

definition supply_model_of :: "playback_epoch \<Rightarrow> supply_model" where
  "supply_model_of epoch =
     (let (overall, observation) = supply_rate_x epoch;
          rates = growth_rates (ep_frontier_samples epoch);
          fast = (if rates = [] then overall else ema ROUTE2_SUPPLY_RATE_FAST_EMA_ALPHA rates);
          slow = (if rates = [] then overall else ema ROUTE2_SUPPLY_RATE_SLOW_EMA_ALPHA rates);
          med = (if rates = [] then overall else positive_median rates);
          effective = least_candidate [overall, fast, slow, med];
          volatility = volatility_ratio [overall, fast, slow, med];
          events = int (length rates)
      in \<lparr>sm_effective = effective, sm_overall = overall, sm_fast_ema = fast, sm_slow_ema = slow,
          sm_median = med, sm_observation = observation, sm_growth_events = events,
          sm_volatility = volatility,
          sm_display_confident = supply_display_confident effective observation events volatility\<rparr>)"

lemma growth_rates_positive: "r \<in> set (growth_rates h) \<Longrightarrow> 0 < r"
  by (auto simp: growth_rates_def Let_def max_def split: if_splits intro!: divide_pos_pos)

lemma supply_rate_x_nonneg: "supply_rate_x e = (r, obs) \<Longrightarrow> 0 \<le> r \<and> 0 \<le> obs"
  by (auto simp: supply_rate_x_def Let_def split: if_splits prod.splits)

lemma least_candidate_pos_iff: "0 < least_candidate rates \<longleftrightarrow> (\<exists>r \<in> set rates. 0 < r)"
proof (cases "positive_rates rates = []")
  case False
  then have "Min (set (positive_rates rates)) \<in> set (positive_rates rates)" by (intro Min_in) auto
  then have "0 < least_candidate rates" using False by (simp add: least_candidate_def positive_rates_pos)
  with False show ?thesis by (simp add: positive_rates_def filter_empty_conv)
qed (auto simp: least_candidate_def positive_rates_def filter_empty_conv)

lemma least_candidate_nonneg [simp]: "0 \<le> least_candidate rates"
proof (cases "positive_rates rates = []")
  case False
  then have "\<exists>r \<in> set rates. 0 < r" by (simp add: positive_rates_def filter_empty_conv)
  then show ?thesis using least_candidate_pos_iff[of rates] by simp
qed (simp add: least_candidate_def)

lemma least_candidate_le: "r \<in> set rates \<Longrightarrow> 0 < r \<Longrightarrow> least_candidate rates \<le> r"
  by (auto simp: least_candidate_def positive_rates_def filter_empty_conv Let_def intro!: Min_le)

lemma volatility_ratio_bounds: "0 \<le> volatility_ratio rates \<and> volatility_ratio rates < 1"
proof (cases "length (positive_rates rates) \<ge> 2")
  case True
  let ?c = "set (positive_rates rates)"
  have ne: "?c \<noteq> {}" using True by force
  then have "Min ?c \<le> Max ?c" by (intro Min_le Max_in) auto
  moreover have "0 < Min ?c" using ne positive_rates_pos Min_in[of ?c] by blast
  ultimately show ?thesis using True by (simp add: volatility_ratio_def Let_def max_def)
qed (simp add: volatility_ratio_def)

lemma supply_estimates_positive:
  assumes "growth_rates (ep_frontier_samples e) \<noteq> []"
  shows "0 < sm_fast_ema (supply_model_of e) \<and> 0 < sm_slow_ema (supply_model_of e) \<and> 0 < sm_median (supply_model_of e)"
proof -
  have pos: "\<forall>x \<in> set (growth_rates (ep_frontier_samples e)). 0 < x"
    using growth_rates_positive by blast
  show ?thesis
    using assms fast_ema.positive[OF assms pos] slow_ema.positive[OF assms pos] median.positive[OF assms pos]
    by (simp add: supply_model_of_def Let_def split: prod.splits)
qed

text \<open>The supply model errs on the low side. The effective rate of an epoch is not negative and not
  above the overall rate or any of the three estimates that is positive; it is positive exactly
  when one of them is; the volatility ratio lies in the half-open unit interval; and an estimate
  shown to the viewer always has a positive rate behind it.\<close>

theorem supply_model_conservative:
  fixes e :: playback_epoch
  defines "m \<equiv> supply_model_of e"
  shows "0 \<le> sm_effective m
       \<and> (\<forall>r \<in> {sm_overall m, sm_fast_ema m, sm_slow_ema m, sm_median m}. 0 < r \<longrightarrow> sm_effective m \<le> r)
       \<and> (0 < sm_effective m \<longleftrightarrow> (\<exists>r \<in> {sm_overall m, sm_fast_ema m, sm_slow_ema m, sm_median m}. 0 < r))
       \<and> 0 \<le> sm_volatility m \<and> sm_volatility m < 1
       \<and> (sm_display_confident m \<longrightarrow> 0 < sm_effective m \<and> 10 \<le> sm_observation m)"
proof -
  have eff: "sm_effective m = least_candidate [sm_overall m, sm_fast_ema m, sm_slow_ema m, sm_median m]"
    and vol: "sm_volatility m = volatility_ratio [sm_overall m, sm_fast_ema m, sm_slow_ema m, sm_median m]"
    and conf: "sm_display_confident m \<longleftrightarrow> supply_display_confident (sm_effective m) (sm_observation m)
        (sm_growth_events m) (sm_volatility m)"
    by (simp_all add: m_def supply_model_of_def Let_def split: prod.splits)
  have "sm_display_confident m \<longrightarrow> 0 < sm_effective m \<and> 10 \<le> sm_observation m"
    unfolding conf by (auto simp: supply_display_confident_def route2_consts)
  moreover have "0 < sm_effective m \<longleftrightarrow> (\<exists>r \<in> {sm_overall m, sm_fast_ema m, sm_slow_ema m, sm_median m}. 0 < r)"
    unfolding eff least_candidate_pos_iff by simp
  moreover have "\<forall>r \<in> {sm_overall m, sm_fast_ema m, sm_slow_ema m, sm_median m}. 0 < r \<longrightarrow> sm_effective m \<le> r"
    unfolding eff by (auto intro: least_candidate_le)
  ultimately show ?thesis using volatility_ratio_bounds eff vol by simp
qed

text \<open>An epoch whose frontier grew by four seconds in two.\<close>

definition sample_epoch :: playback_epoch where
  "sample_epoch = (new_epoch ''e'' ''s'' '''' 0 0 0 None 0)\<lparr>ep_frontier_samples := [(10, 0), (12, 4)]\<rparr>"

theorem supply_model_conservative_witness:
  "sm_overall (supply_model_of sample_epoch) = 2 \<and> 0 < sm_effective (supply_model_of sample_epoch)
   \<and> sm_effective (supply_model_of sample_epoch) \<le> 2"
proof -
  have "sm_overall (supply_model_of sample_epoch) = 2"
    by (simp add: supply_model_of_def supply_rate_x_def sample_epoch_def Let_def)
  with supply_model_conservative[of sample_epoch] show ?thesis by simp
qed

section \<open>Runway and positions\<close>

definition effective_playhead :: "mobile_session \<Rightarrow> playback_epoch \<Rightarrow> real" where
  "effective_playhead session epoch =
     clamp_time (Max {ep_attach epoch, ms_target session, ms_last_stable session,
                      ms_committed session, ms_actual session}) (ms_duration session)"

record runtime_supply =
  rs_published_end :: real
  rs_playhead :: real
  rs_runway :: real
  rs_rate :: real
  rs_observation :: real
  rs_manifest_complete :: bool
  rs_refill_in_progress :: bool

definition runtime_supply_metrics :: "mobile_session \<Rightarrow> playback_epoch \<Rightarrow> runtime_supply" where
  "runtime_supply_metrics session epoch =
     (let published_end = epoch_ready_end session epoch;
          playhead = effective_playhead session epoch;
          model = supply_model_of epoch;
          complete = (published_end + 1 / 1000 \<ge> ms_duration session \<or> ep_transcoder_completed epoch)
      in \<lparr>rs_published_end = published_end, rs_playhead = playhead,
          rs_runway = max 0 (published_end - playhead), rs_rate = sm_effective model,
          rs_observation = sm_observation model, rs_manifest_complete = complete,
          rs_refill_in_progress =
            (\<not> complete \<and> (truthy_string (ep_worker epoch) \<or> poll_running (ep_process epoch)))\<rparr>)"

definition position_in_epoch :: "mobile_session \<Rightarrow> playback_epoch \<Rightarrow> real \<Rightarrow> bool" where
  "position_in_epoch session epoch position =
     (let ready_end = epoch_ready_end session epoch;
          required_end = min (ms_duration session) (position + READY_AFTER_TARGET_SECONDS)
      in ep_init_published epoch \<and> ep_contiguous_through epoch \<noteq> None
         \<and> ep_start epoch \<le> position \<and> position \<le> ready_end + 1 / 1000
         \<and> ready_end + 1 / 1000 \<ge> required_end)"

definition recovery_target :: "mobile_session \<Rightarrow> playback_epoch option \<Rightarrow> real" where
  "recovery_target session active =
     (if ms_committed session > 0 then clamp_time (ms_committed session) (ms_duration session)
      else if ms_actual session > 0 then clamp_time (ms_actual session) (ms_duration session)
      else if ms_last_stable session > 0 then clamp_time (ms_last_stable session) (ms_duration session)
      else case active of
             Some epoch \<Rightarrow> clamp_time (ep_attach epoch) (ms_duration session)
           | None \<Rightarrow> clamp_time (ms_target session) (ms_duration session))"

lemma epoch_ready_end_le_duration: "0 \<le> ms_duration s \<Longrightarrow> epoch_ready_end s e \<le> ms_duration s"
  by (auto simp: epoch_ready_end_def split: option.splits)

lemma recovery_target_in_media:
  "0 \<le> recovery_target s a \<and> (0 < ms_duration s \<longrightarrow> recovery_target s a < ms_duration s)"
  by (auto simp: recovery_target_def clamp_time_less_duration split: option.splits)

lemma effective_playhead_bounds:
  "0 \<le> effective_playhead s e \<and> (0 < ms_duration s \<longrightarrow> effective_playhead s e < ms_duration s)"
  by (simp add: effective_playhead_def clamp_time_less_duration)

lemma rs_runway_nonneg [simp]: "0 \<le> rs_runway (runtime_supply_metrics s e)"
  by (simp add: runtime_supply_metrics_def Let_def)

lemma position_in_epoch_mono:
  assumes "position_in_epoch s e p" and "ep_start e \<le> q" and "q \<le> p"
  shows "position_in_epoch s e q"
  using assms by (auto simp: position_in_epoch_def Let_def)

end
