(* ===== verification/Route2_Readiness.thy ===== *)
theory Route2_Readiness
  imports Route2_Supply
begin

text \<open>
  The readiness questions of a session (\<^verbatim>\<open>services/mobile_playback_route2_readiness.py\<close>), the
  detection of sustained undersupply (\<^verbatim>\<open>services/mobile_playback_route2_recovery.py\<close>) and the
  buffer contract offered to the client (\<^verbatim>\<open>services/mobile_playback_buffer_contract.py\<close>).
\<close>

section \<open>Readiness\<close>

definition target_is_ready :: "mobile_session \<Rightarrow> bool" where
  "target_is_ready s =
     (if ms_state s = ''failed'' then False
      else ms_ready_start s \<le> ms_target s \<and> ms_target s \<le> ms_ready_end s
           \<and> ms_ready_end s \<ge> min (ms_target s + READY_AFTER_TARGET_SECONDS) (ms_duration s))"

definition playback_commit_is_ready :: "mobile_session \<Rightarrow> bool" where
  "playback_commit_is_ready s =
     (if \<not> target_is_ready s then False
      else ms_ready_end s \<ge> min (ms_target s + PLAYBACK_COMMIT_RUNWAY_SECONDS) (ms_duration s))"

definition watch_anchor_position :: "mobile_session \<Rightarrow> real" where
  "watch_anchor_position s =
     (if ms_pending_target s \<noteq> None then ms_target s
      else if ms_committed s > 0 then ms_committed s
      else if ms_last_stable s > 0 then ms_last_stable s
      else ms_target s)"

definition ahead_runway :: "mobile_session \<Rightarrow> real" where
  "ahead_runway s = max 0 (ms_ready_end s - watch_anchor_position s)"

definition starvation_risk :: "mobile_session \<Rightarrow> bool" where
  "starvation_risk s =
     (if ms_pending_target s \<noteq> None then False
      else ms_client_is_playing s \<and> ahead_runway s < WATCH_LOW_WATERMARK_SECONDS)"

definition stalled_recovery_needed :: "mobile_session \<Rightarrow> bool" where
  "stalled_recovery_needed s =
     (if ms_lifecycle s \<in> {''resuming'', ''recovering'', ''fatal''} then True
      else if ms_stalled_recovery s then True
      else if ms_pending_target s \<noteq> None then False
      else ms_client_is_playing s \<and> ahead_runway s < WATCH_STALLED_RECOVERY_RUNWAY_SECONDS)"

text \<open>The commit test of the source adds nothing to the target test: both ask for twenty seconds.\<close>

lemma commit_ready_iff_target_ready: "playback_commit_is_ready s \<longleftrightarrow> target_is_ready s"
  by (auto simp: playback_commit_is_ready_def target_is_ready_def route2_consts)

lemma stall_implies_starvation:
  assumes "stalled_recovery_needed s" and "ms_lifecycle s = ''attached''" and "\<not> ms_stalled_recovery s"
  shows "starvation_risk s"
  using assms by (auto simp: stalled_recovery_needed_def starvation_risk_def route2_consts split: if_splits)

section \<open>Sustained undersupply\<close>

definition steady_playback_guarded :: "mobile_session \<Rightarrow> bool" where
  "steady_playback_guarded s =
     (let b = ms_browser s in
      bs_attach_revision b > 0 \<and> bs_client_revision b \<ge> bs_attach_revision b
      \<and> ms_lifecycle s = ''attached'' \<and> ms_pending_target s = None \<and> ms_client_is_playing s)"

record low_water =
  lw_runway :: real
  lw_rate :: real
  lw_refill :: bool
  lw_starvation :: bool
  lw_stalled :: bool

definition low_water_recovery_needed ::
  "mobile_session \<Rightarrow> real option \<Rightarrow> real \<Rightarrow> playback_epoch \<Rightarrow> low_water \<times> playback_epoch" where
  "low_water_recovery_needed s now_arg clock e =
     (let now = or_real now_arg clock;
          m = runtime_supply_metrics s e;
          runway = rs_runway m; rate = rs_rate m; obs = rs_observation m
      in if \<not> steady_playback_guarded s \<or> rs_manifest_complete m
         then (\<lparr>lw_runway = runway, lw_rate = rate, lw_refill = rs_refill_in_progress m,
                lw_starvation = False, lw_stalled = False\<rparr>,
               e\<lparr>ep_under_supply_started := None\<rparr>)
         else
           let projected = projected_runway runway rate ROUTE2_LOW_WATER_PROJECTION_HORIZON_SECONDS 1;
               starving = (runway \<le> ROUTE2_RECOVERY_RESUME_RUNWAY_SECONDS
                 \<and> obs \<ge> ROUTE2_SUPPLY_RATE_MIN_SAMPLE_SECONDS
                 \<and> rate < ROUTE2_RECOVERY_MIN_SUPPLY_RATE_X);
               low = (projected \<le> ROUTE2_LOW_WATER_RUNWAY_SECONDS
                 \<and> obs \<ge> ROUTE2_SUPPLY_RATE_MIN_SAMPLE_SECONDS
                 \<and> rate < ROUTE2_RECOVERY_MIN_SUPPLY_RATE_X);
               started = (if low then (case ep_under_supply_started e of None \<Rightarrow> Some now | Some t \<Rightarrow> Some t)
                  else if runway \<ge> ROUTE2_RECOVERY_RESUME_RUNWAY_SECONDS
                       \<or> (obs \<ge> ROUTE2_SUPPLY_RATE_MIN_SAMPLE_SECONDS
                          \<and> rate \<ge> ROUTE2_RECOVERY_MIN_SUPPLY_RATE_X) then None
                  else ep_under_supply_started e);
               stalled = (starving \<and> (case started of None \<Rightarrow> False
                  | Some t \<Rightarrow> now - t \<ge> ROUTE2_LOW_WATER_SUSTAIN_SECONDS))
           in (\<lparr>lw_runway = runway, lw_rate = rate, lw_refill = rs_refill_in_progress m,
                lw_starvation = starving, lw_stalled = stalled\<rparr>,
               e\<lparr>ep_under_supply_started := started\<rparr>))"

text \<open>A stall is never reported by the first reading that finds an undersupply: the timer that
  reading starts has to run for six seconds.\<close>

lemma stall_needs_running_timer:
  assumes "lw_stalled (fst (low_water_recovery_needed s now_arg clock e))"
  shows "\<exists>t. ep_under_supply_started e = Some t \<and> 6 \<le> or_real now_arg clock - t"
proof -
  have "\<exists>t. ep_under_supply_started e = Some t"
    using assms by (auto simp: low_water_recovery_needed_def Let_def route2_consts split: if_splits option.splits)
  with assms show ?thesis
    by (auto simp: low_water_recovery_needed_def Let_def route2_consts split: if_splits)
qed

text \<open>Recovery from a stall is only requested on sustained evidence. When the low-water check reports a
  stall, the client has acknowledged the current attachment and is playing in the attached state
  with no seek pending, the epoch is not finished, the runway is at most 18 seconds with a supply
  below 1.02 observed over at least six seconds, and the epoch has been marked as undersupplied
  for at least six seconds.\<close>

theorem stall_needs_sustained_evidence:
  assumes "lw_stalled (fst (low_water_recovery_needed s now_arg clock e))"
  shows "0 < bs_attach_revision (ms_browser s)
       \<and> bs_attach_revision (ms_browser s) \<le> bs_client_revision (ms_browser s)
       \<and> ms_lifecycle s = ''attached'' \<and> ms_pending_target s = None \<and> ms_client_is_playing s
       \<and> \<not> ep_transcoder_completed e \<and> epoch_ready_end s e < ms_duration s
       \<and> rs_runway (runtime_supply_metrics s e) \<le> 18
       \<and> sm_effective (supply_model_of e) < 102 / 100 \<and> 6 \<le> sm_observation (supply_model_of e)
       \<and> (\<exists>t. ep_under_supply_started e = Some t \<and> 6 \<le> or_real now_arg clock - t)"
proof -
  let ?m = "runtime_supply_metrics s e"
  have st: "steady_playback_guarded s" "\<not> rs_manifest_complete ?m" "rs_runway ?m \<le> 18"
    "rs_rate ?m < 102 / 100" "6 \<le> rs_observation ?m"
    using assms by (auto simp: low_water_recovery_needed_def Let_def route2_consts split: if_splits)
  have "\<not> ep_transcoder_completed e" "epoch_ready_end s e < ms_duration s"
    using st(2) by (auto simp: runtime_supply_metrics_def Let_def)
  moreover have "rs_rate ?m = sm_effective (supply_model_of e)" "rs_observation ?m = sm_observation (supply_model_of e)"
    by (simp_all add: runtime_supply_metrics_def Let_def)
  moreover note st stall_needs_running_timer[OF assms]
  ultimately show ?thesis by (simp add: steady_playback_guarded_def Let_def)
qed

text \<open>A playing session whose epoch is ten seconds long and grows at half the playback speed.\<close>

definition starving_epoch :: playback_epoch where
  "starving_epoch = (new_epoch ''e'' ''s'' '''' 0 0 0 None 0)
     \<lparr>ep_init_published := True, ep_contiguous_through := Some 4,
      ep_frontier_samples := [(1, 6), (9, 10)], ep_under_supply_started := Some 3\<rparr>"

definition starving_session :: mobile_session where
  "starving_session = (new_session ''s'' 1 1 ''mobile_1080p'' ''local'' 100 '''' '''' '''')
     \<lparr>ms_client_is_playing := True,
      ms_browser := new_browser_session\<lparr>bs_attach_revision := 1, bs_client_revision := 1\<rparr>\<rparr>"

lemma starving_supply:
  "sm_effective (supply_model_of starving_epoch) = 1 / 2"
  "sm_observation (supply_model_of starving_epoch) = 8"
  by (simp_all add: supply_model_of_def supply_rate_x_def growth_rates_def starving_epoch_def
      least_candidate_def positive_rates_def positive_median_def py_median_def new_record_defs Let_def)

theorem stall_needs_sustained_evidence_witness:
  "lw_stalled (fst (low_water_recovery_needed starving_session (Some 10) 0 starving_epoch))
   \<and> (\<exists>t. ep_under_supply_started starving_epoch = Some t \<and> 6 \<le> 10 - t)"
proof -
  have m: "runtime_supply_metrics starving_session starving_epoch
      = \<lparr>rs_published_end = 10, rs_playhead = 0, rs_runway = 10, rs_rate = 1 / 2, rs_observation = 8,
         rs_manifest_complete = False, rs_refill_in_progress = False\<rparr>"
    by (simp add: runtime_supply_metrics_def starving_supply Let_def)
      (simp add: epoch_ready_end_def effective_playhead_def starving_epoch_def starving_session_def
        new_record_defs clamp_time_def poll_running_def route2_consts)
  have "lw_stalled (fst (low_water_recovery_needed starving_session (Some 10) 0 starving_epoch))"
    unfolding low_water_recovery_needed_def Let_def m
    by (simp add: steady_playback_guarded_def projected_runway_def starving_session_def
        starving_epoch_def new_record_defs route2_consts)
  then show ?thesis using stall_needs_sustained_evidence[of starving_session "Some 10" 0 starving_epoch]
    by simp
qed

section \<open>The buffer contract of the client\<close>

definition ROUTE2_FULL_BAD_CONDITION_BUFFER_SECONDS :: real where
  "ROUTE2_FULL_BAD_CONDITION_BUFFER_SECONDS = 900"
definition CLIENT_LITE_REAL_CACHE_SECONDS :: real where
  "CLIENT_LITE_REAL_CACHE_SECONDS = 15"
definition CLIENT_FULL_REAL_CACHE_SECONDS :: real where
  "CLIENT_FULL_REAL_CACHE_SECONDS = 30"
definition CLIENT_BACK_BUFFER_SECONDS :: real where
  "CLIENT_BACK_BUFFER_SECONDS = 120"
definition CLIENT_PHONE_MAX_BUFFER_SIZE_BYTES :: int where
  "CLIENT_PHONE_MAX_BUFFER_SIZE_BYTES = 250 * 1024 * 1024"
definition CLIENT_TABLET_MAX_BUFFER_SIZE_BYTES :: int where
  "CLIENT_TABLET_MAX_BUFFER_SIZE_BYTES = 300 * 1024 * 1024"
definition CLIENT_DESKTOP_MAX_BUFFER_SIZE_BYTES :: int where
  "CLIENT_DESKTOP_MAX_BUFFER_SIZE_BYTES = 3 * 1024 * 1024 * 1024"

lemmas buffer_constant_values [route2_consts] =
  ROUTE2_FULL_BAD_CONDITION_BUFFER_SECONDS_def CLIENT_LITE_REAL_CACHE_SECONDS_def
  CLIENT_FULL_REAL_CACHE_SECONDS_def CLIENT_BACK_BUFFER_SECONDS_def
  CLIENT_PHONE_MAX_BUFFER_SIZE_BYTES_def CLIENT_TABLET_MAX_BUFFER_SIZE_BYTES_def
  CLIENT_DESKTOP_MAX_BUFFER_SIZE_BYTES_def

definition client_max_buffer_size_bytes :: "string option \<Rightarrow> int" where
  "client_max_buffer_size_bytes device =
     (let normalized = py_lower (py_strip (or_string device [])) in
      if normalized = ''phone'' then CLIENT_PHONE_MAX_BUFFER_SIZE_BYTES
      else if normalized = ''tablet'' then CLIENT_TABLET_MAX_BUFFER_SIZE_BYTES
      else CLIENT_DESKTOP_MAX_BUFFER_SIZE_BYTES)"

text \<open>The seconds may be any object: \<^verbatim>\<open>float(inf)\<close> passes the test \<^verbatim>\<open>> 0\<close> and \<^verbatim>\<open>nan\<close> does not, so
  the result is a number or positive infinity.\<close>

fun coerce_positive_seconds :: "pyval \<Rightarrow> real \<Rightarrow> pyval" where
  "coerce_positive_seconds (PyNum x) fallback = PyNum (if x > 0 then x else fallback)"
| "coerce_positive_seconds PyInf fallback = PyInf"
| "coerce_positive_seconds PyNaN fallback = PyNum fallback"
| "coerce_positive_seconds PyNegInf fallback = PyNum fallback"
| "coerce_positive_seconds PyNone fallback = PyNum fallback"
| "coerce_positive_seconds PyNotNumeric fallback = PyNum fallback"

fun pyval_at_most :: "pyval \<Rightarrow> real \<Rightarrow> bool" where
  "pyval_at_most (PyNum x) y = (x \<le> y)"
| "pyval_at_most PyNegInf y = True"
| "pyval_at_most _ y = False"

fun pyval_round :: "nat \<Rightarrow> pyval \<Rightarrow> pyval" where
  "pyval_round d (PyNum x) = PyNum (py_round d x)"
| "pyval_round d v = v"

record buffer_contract =
  bc_tier :: string
  bc_server_required :: pyval
  bc_server_reserve :: pyval
  bc_client_forward :: real
  bc_client_max_forward :: real
  bc_client_back :: real
  bc_max_buffer_bytes :: int
  bc_policy_source :: string
  bc_limited_by_memory :: bool

text \<open>The tier, its target and the policy source: lines 48 to 73 of the source.\<close>

definition buffer_tier ::
  "bool \<Rightarrow> bool \<Rightarrow> pyval \<Rightarrow> string option \<Rightarrow> bool \<Rightarrow> string \<times> real \<times> string" where
  "buffer_tier full bad_condition lite_required lite_source undersupply =
     (if full then
        if bad_condition
        then (''full_bad_condition'', ROUTE2_FULL_BAD_CONDITION_BUFFER_SECONDS, ''route2_full_bad_condition'')
        else (''full_healthy'', ROUTE2_FULL_FAST_START_RUNWAY_SECONDS, ''route2_full_healthy'')
      else
        let source = py_lower (py_strip (or_string lite_source []));
            required = coerce_positive_seconds lite_required ROUTE2_LITE_SLOW_START_RUNWAY_SECONDS;
            (tier, target) =
              (if undersupply \<or> contains ''undersupply'' source
               then (''lite_undersupply'', ROUTE2_LITE_UNDERSUPPLY_START_RUNWAY_SECONDS)
               else if contains ''healthy_fast'' source
                    \<or> pyval_at_most required (ROUTE2_LITE_FAST_START_RUNWAY_SECONDS + 1 / 1000)
               then (''lite_fast'', ROUTE2_LITE_FAST_START_RUNWAY_SECONDS)
               else (''lite_uncertain'', ROUTE2_LITE_SLOW_START_RUNWAY_SECONDS))
        in (tier, target, ''route2_lite_'' @ (if source = [] then tier else source)))"

definition resolve_buffer_contract_fields ::
  "string option \<Rightarrow> string option \<Rightarrow> pyval \<Rightarrow> bool \<Rightarrow> pyval \<Rightarrow> pyval \<Rightarrow> string option \<Rightarrow> bool \<Rightarrow> buffer_contract" where
  "resolve_buffer_contract_fields mode device required_startup bad_condition reserve_required
      lite_required lite_source undersupply =
     (let full = (mode = Some ''full'');
          (tier, target, policy) = buffer_tier full bad_condition lite_required lite_source undersupply;
          client_target = (if full then CLIENT_FULL_REAL_CACHE_SECONDS else CLIENT_LITE_REAL_CACHE_SECONDS);
          server_required = coerce_positive_seconds required_startup target;
          server_reserve = (if full \<and> bad_condition
                            then coerce_positive_seconds reserve_required target else server_required)
      in \<lparr>bc_tier = tier, bc_server_required = pyval_round 2 server_required,
          bc_server_reserve = pyval_round 2 server_reserve,
          bc_client_forward = py_round 2 client_target,
          bc_client_max_forward = py_round 2 client_target,
          bc_client_back = py_round 2 CLIENT_BACK_BUFFER_SECONDS,
          bc_max_buffer_bytes = client_max_buffer_size_bytes device,
          bc_policy_source = policy, bc_limited_by_memory = False\<rparr>)"

text \<open>The server's buffer plan never leaks into the client: whatever tier the server is in, the
  forward buffer recommended to the client is 15 seconds in lite mode and 30 in full mode, the
  byte cap is one of the three device caps, and a lite session is in the undersupply tier whenever
  undersupply was detected, whatever runway was asked for.\<close>

theorem client_buffer_independent_of_tier:
  fixes mode device required bad reserve lite_required source undersupply
  defines "c \<equiv> resolve_buffer_contract_fields mode device required bad reserve lite_required source undersupply"
  shows "bc_client_forward c = (if mode = Some ''full'' then 30 else 15)
       \<and> bc_client_max_forward c = bc_client_forward c \<and> bc_client_back c = 120
       \<and> bc_max_buffer_bytes c \<in> {262144000, 314572800, 3221225472}
       \<and> bc_tier c \<in> (if mode = Some ''full'' then {''full_bad_condition'', ''full_healthy''}
                     else {''lite_undersupply'', ''lite_fast'', ''lite_uncertain''})
       \<and> (bc_tier c = ''lite_undersupply'' \<longleftrightarrow> mode \<noteq> Some ''full''
           \<and> (undersupply \<or> contains ''undersupply'' (py_lower (py_strip (or_string source [])))))"
  by (auto simp: c_def resolve_buffer_contract_fields_def buffer_tier_def client_max_buffer_size_bytes_def
      route2_consts Let_def split: prod.splits if_splits)

end
