(* ===== verification/Route2_Lite_Gate.thy ===== *)
theory Route2_Lite_Gate
  imports Route2_Readiness
begin

text \<open>
  The start gates of \<^verbatim>\<open>services/mobile_playback_route2_gates.py\<close>: the evidence read off the
  frontier samples, the threshold decider of lite mode (a state machine on \<open>lite_decider\<close>, the
  only writer of these fields), the projected-runway gate and the lite start gate built on both.
\<close>

section \<open>Frontier evidence\<close>

fun ema_rate_step :: "real \<Rightarrow> real \<Rightarrow> real list \<Rightarrow> real" where
  "ema_rate_step alpha current [] = current"
| "ema_rate_step alpha current (v # vs) = ema_rate_step alpha (alpha * max 0 v + (1 - alpha) * current) vs"

fun ema_rate :: "real \<Rightarrow> real list \<Rightarrow> real" where
  "ema_rate alpha [] = 0"
| "ema_rate alpha (v # vs) = ema_rate_step alpha (max 0 v) vs"

text \<open>The two forms of the moving average in the source agree where both are applied.\<close>

lemma ema_rate_step_eq_ema: "\<forall>x \<in> set vs. 0 \<le> x \<Longrightarrow> ema_rate_step alpha e vs = ema_step alpha e vs"
  by (induction alpha e vs rule: ema_rate_step.induct) (auto simp: max_def)

lemma ema_step_nonneg:
  "0 \<le> alpha \<Longrightarrow> alpha \<le> 1 \<Longrightarrow> 0 \<le> e \<Longrightarrow> \<forall>x \<in> set vs. 0 \<le> x \<Longrightarrow> 0 \<le> ema_step alpha e vs"
  by (induction alpha e vs rule: ema_step.induct) auto

lemma ema_rate_eq_ema:
  assumes "0 \<le> alpha" "alpha \<le> 1" "\<forall>x \<in> set xs. 0 \<le> x"
  shows "ema_rate alpha xs = ema alpha xs"
proof (cases xs)
  case (Cons v vs)
  then have "0 \<le> ema_step alpha v vs" using assms by (intro ema_step_nonneg) auto
  then show ?thesis using Cons assms(3) ema_rate_step_eq_ema[of vs alpha v] by (simp add: max_def)
qed simp

record lite_evidence =
  le_sample_count :: int
  le_first_ts :: "real option"
  le_latest_ts :: "real option"
  le_latest_rate :: real
  le_growth_rate :: real
  le_fast_ema :: real
  le_slow_ema :: real
  le_median :: real
  le_volatility :: real
  le_growth_events :: int
  le_positive_suffix :: real
  le_negative_suffix :: real
  le_display_confident :: bool

definition interval_pairs :: "(real \<times> real) list \<Rightarrow> (real \<times> real) list" where
  "interval_pairs history =
     concat (map (\<lambda>((previous_ts, previous_end), (current_ts, current_end)).
       let seconds = max 0 (current_ts - previous_ts); growth = max 0 (current_end - previous_end)
       in if seconds < 1 / 4 then [] else [(seconds, growth / seconds)]) (consecutive history))"

definition positive_suffix :: "(real \<times> real) list \<Rightarrow> real" where
  "positive_suffix pairs =
     sum_list (map fst (takeWhile (\<lambda>(_, rate). rate + 1 / 1000 \<ge> ROUTE2_SUPPLY_SURPLUS_MIN_RATE_X) (rev pairs)))"

definition negative_suffix :: "real \<Rightarrow> (real \<times> real) list \<Rightarrow> real" where
  "negative_suffix positive pairs =
     sum_list (map fst (takeWhile (\<lambda>(_, rate). rate < 1 \<and> positive \<le> 1 / 1000) (rev pairs)))"

definition lite_display_confident :: "real list \<Rightarrow> real \<Rightarrow> int \<Rightarrow> real \<Rightarrow> bool" where
  "lite_display_confident rates observation events volatility =
     (positive_rates rates \<noteq> []
      \<and> ((observation \<ge> ROUTE2_ETA_DISPLAY_MIN_OBSERVATION_SECONDS
           \<and> events \<ge> ROUTE2_ETA_DISPLAY_MIN_GROWTH_EVENTS
           \<and> volatility \<le> ROUTE2_ETA_DISPLAY_MAX_VOLATILITY_RATIO)
         \<or> (observation \<ge> ROUTE2_ETA_DISPLAY_STICKY_OBSERVATION_SECONDS
             \<and> events \<ge> ROUTE2_ETA_DISPLAY_MIN_GROWTH_EVENTS + 1)))"

definition lite_frontier_evidence :: "playback_epoch \<Rightarrow> lite_evidence" where
  "lite_frontier_evidence epoch =
     (let history = ep_frontier_samples epoch; count = int (length history) in
      if count < 2 then
        \<lparr>le_sample_count = count, le_first_ts = None, le_latest_ts = None, le_latest_rate = 0,
         le_growth_rate = 0, le_fast_ema = 0, le_slow_ema = 0, le_median = 0, le_volatility = 0,
         le_growth_events = 0, le_positive_suffix = 0, le_negative_suffix = 0,
         le_display_confident = False\<rparr>
      else
        let (first_ts, first_end) = hd history; (latest_ts, latest_end) = last history;
            observation = max 0 (latest_ts - first_ts);
            growth_rate = (if observation \<ge> 1 / 4 then max 0 ((latest_end - first_end) / observation) else 0);
            rates = growth_rates history;
            pairs = interval_pairs history;
            fast = (if rates = [] then growth_rate else ema_rate ROUTE2_SUPPLY_RATE_FAST_EMA_ALPHA rates);
            slow = (if rates = [] then growth_rate else ema_rate ROUTE2_SUPPLY_RATE_SLOW_EMA_ALPHA rates);
            med = (if rates = [] then growth_rate else positive_median rates);
            volatility = volatility_ratio [growth_rate, fast, slow, med];
            events = int (length rates);
            positive = positive_suffix pairs
        in \<lparr>le_sample_count = count, le_first_ts = Some first_ts, le_latest_ts = Some latest_ts,
            le_latest_rate = (if pairs = [] then 0 else snd (last pairs)),
            le_growth_rate = growth_rate, le_fast_ema = fast, le_slow_ema = slow, le_median = med,
            le_volatility = volatility, le_growth_events = events,
            le_positive_suffix = positive, le_negative_suffix = negative_suffix positive pairs,
            le_display_confident =
              lite_display_confident [growth_rate, fast, slow, med] observation events volatility\<rparr>)"

lemma interval_pairs_pos: "(s, r) \<in> set (interval_pairs h) \<Longrightarrow> 0 < s \<and> 0 \<le> r"
  by (auto simp: interval_pairs_def Let_def max_def split: if_splits)

lemma sum_takeWhile_nonneg:
  "\<forall>(s, r) \<in> set pairs. 0 < (s :: real) \<Longrightarrow> 0 \<le> sum_list (map fst (takeWhile P (rev pairs)))"
  by (intro sum_list_nonneg) (fastforce dest!: set_takeWhileD)

lemma suffixes_nonneg [simp]:
  "0 \<le> le_positive_suffix (lite_frontier_evidence e)" "0 \<le> le_negative_suffix (lite_frontier_evidence e)"
proof -
  have "\<forall>(s, r) \<in> set (interval_pairs h). 0 < s" for h using interval_pairs_pos by fast
  then show "0 \<le> le_positive_suffix (lite_frontier_evidence e)" "0 \<le> le_negative_suffix (lite_frontier_evidence e)"
    by (auto simp: lite_frontier_evidence_def positive_suffix_def negative_suffix_def Let_def
        split: prod.splits intro!: sum_takeWhile_nonneg)
qed

text \<open>Evidence for a surplus excludes evidence for a deficit in the same window.\<close>

lemma suffix_exclusive:
  assumes "1 / 1000 < le_positive_suffix (lite_frontier_evidence e)"
  shows "le_negative_suffix (lite_frontier_evidence e) = 0"
proof -
  have "1 / 1000 < p \<Longrightarrow> negative_suffix p pairs = 0" for p pairs
    by (cases "rev pairs") (auto simp: negative_suffix_def)
  with assms show ?thesis
    by (auto simp: lite_frontier_evidence_def Let_def split: prod.splits if_splits)
qed

section \<open>The threshold decider\<close>

record decider_fields =
  df_state :: string
  df_previous_tier :: "string option"
  df_candidate_tier :: "string option"
  df_confirmed_tier :: string
  df_reason :: string
  df_positive :: real
  df_negative :: real
  df_sample_count :: int
  df_growth_rate :: real
  df_supply_rate :: real
  df_fast_ema :: real
  df_slow_ema :: real
  df_median :: real
  df_hold_reason :: "string option"
  df_cold_start_hold :: bool
  df_recovery_hold :: bool
  df_seek_hold :: bool

definition decider_default_fields :: decider_fields where
  "decider_default_fields =
     \<lparr>df_state = ''neutral_45'', df_previous_tier = None, df_candidate_tier = None,
      df_confirmed_tier = ''lite_uncertain'', df_reason = ''cold_start_or_unknown'',
      df_positive = 0, df_negative = 0, df_sample_count = 0, df_growth_rate = 0,
      df_supply_rate = 0, df_fast_ema = 0, df_slow_ema = 0, df_median = 0, df_hold_reason = None,
      df_cold_start_hold = True, df_recovery_hold = False, df_seek_hold = False\<rparr>"

text \<open>The accumulation of evidence since the previous reading: positive and negative seconds.\<close>

definition accumulate_evidence :: "lite_decider \<Rightarrow> lite_evidence \<Rightarrow> real \<times> real" where
  "accumulate_evidence d ev =
     (case le_latest_ts ev of
        None \<Rightarrow> (0, 0)
      | Some latest \<Rightarrow>
          if ld_last_sample d > 0 \<and> latest > ld_last_sample d + 1 / 1000 then
            let elapsed = max 0 (latest - ld_last_sample d) in
            if le_latest_rate ev + 1 / 1000 \<ge> ROUTE2_SUPPLY_SURPLUS_MIN_RATE_X
            then (max (le_positive_suffix ev) (ld_positive d + elapsed), 0)
            else if le_latest_rate ev < 1
            then (0, max (le_negative_suffix ev) (ld_negative d + elapsed))
            else (le_positive_suffix ev, le_negative_suffix ev)
          else (max (ld_positive d) (le_positive_suffix ev), max (ld_negative d) (le_negative_suffix ev)))"

text \<open>The bookkeeping before the verdict: the start of the decider, the last sample, the two holds.\<close>

definition recovery_signal :: "mobile_session \<Rightarrow> bool" where
  "recovery_signal s =
     (ms_stalled_recovery s \<or> ms_lifecycle s \<in> {''resuming'', ''recovering''}
      \<or> py_strip (or_string (ms_stall_reason s) []) \<noteq> [])"

definition begin_decision :: "mobile_session \<Rightarrow> lite_evidence \<Rightarrow> lite_decider \<Rightarrow> lite_decider" where
  "begin_decision s ev d =
     (let reference = (case le_latest_ts ev of None \<Rightarrow> 0 | Some t \<Rightarrow> t);
          d1 = (case le_latest_ts ev of
                  None \<Rightarrow> d
                | Some latest \<Rightarrow>
                    (if ld_started d then d
                     else d\<lparr>ld_started := True,
                            ld_started_at := (case le_first_ts ev of Some f \<Rightarrow> f | None \<Rightarrow> latest)\<rparr>)
                    \<lparr>ld_last_sample := latest\<rparr>);
          d2 = (if recovery_signal s \<and> reference > 0
                then d1\<lparr>ld_recovery_hold_until := max (ld_recovery_hold_until d1)
                          (reference + ROUTE2_LITE_DECIDER_POST_RECOVERY_HOLD_SECONDS)\<rparr> else d1)
      in if ms_pending_target s \<noteq> None \<and> reference > 0
         then d2\<lparr>ld_seek_hold_until := max (ld_seek_hold_until d2)
                   (reference + ROUTE2_LITE_DECIDER_POST_SEEK_HOLD_SECONDS)\<rparr> else d2)"

text \<open>The verdict: confirmed tier, state, reason and hold reason.\<close>

definition decide_tier ::
  "int \<Rightarrow> bool \<Rightarrow> bool \<Rightarrow> bool \<Rightarrow> bool \<Rightarrow> bool \<Rightarrow> bool \<Rightarrow> bool \<Rightarrow> real \<Rightarrow> real \<Rightarrow> string
     \<Rightarrow> string \<times> string \<times> string \<times> string option" where
  "decide_tier samples mature cold recovery seek fast undersupply display positive negative previous =
     (if \<not> mature then
        (''lite_uncertain'', ''neutral_45'', ''lite_neutral_insufficient_samples'',
         Some (if samples < ROUTE2_LITE_DECIDER_MIN_FRONTIER_SAMPLE_COUNT
               then ''insufficient_frontier_samples'' else ''immature_supply_observation''))
      else if cold then
        (''lite_uncertain'', ''neutral_45'', ''lite_neutral_cold_start_hold'', Some ''cold_start_grace'')
      else if recovery then
        (''lite_uncertain'', ''recovery_hold_45'', ''lite_recovery_hold_45'', Some ''post_recovery_hold'')
      else if seek then
        (''lite_uncertain'', ''recovery_hold_45'', ''lite_seek_hold_45'', Some ''post_seek_hold'')
      else if fast \<and> positive + 1 / 1000 \<ge> ROUTE2_LITE_DECIDER_FAST_CONFIRM_SECONDS \<and> display then
        (if previous = ''lite_undersupply''
         then (''lite_uncertain'', ''neutral_45'', ''lite_recovered_from_undersupply_neutral_45'',
               Some ''undersupply_recovery_requires_neutral'')
         else (''lite_fast'', ''fast_confirmed_15'', ''lite_fast_confirmed'', None))
      else if undersupply \<and> negative + 1 / 1000 \<ge> ROUTE2_LITE_DECIDER_UNDERSUPPLY_CONFIRM_SECONDS then
        (''lite_undersupply'', ''undersupply_confirmed_180'', ''lite_undersupply_confirmed'', None)
      else if fast then
        (''lite_uncertain'', ''fast_candidate'', ''lite_fast_candidate_pending_confirmation'', None)
      else if undersupply then
        (''lite_uncertain'', ''undersupply_candidate'', ''lite_undersupply_candidate_pending_confirmation'', None)
      else (''lite_uncertain'', ''neutral_45'', ''lite_neutral_uncertain'', None))"

definition decider_mature :: "int \<Rightarrow> real \<Rightarrow> bool" where
  "decider_mature samples observation =
     (samples \<ge> ROUTE2_LITE_DECIDER_MIN_FRONTIER_SAMPLE_COUNT
      \<and> observation + 1 / 1000 \<ge> ROUTE2_SUPPLY_RATE_MIN_SAMPLE_SECONDS)"

definition lite_threshold_decider ::
  "mobile_session \<Rightarrow> playback_epoch \<Rightarrow> real \<Rightarrow> real \<Rightarrow> bool \<Rightarrow> decider_fields \<times> lite_decider" where
  "lite_threshold_decider s e supply_rate observation display_confident =
     (let d = bs_lite (ms_browser s);
          ev = lite_frontier_evidence e;
          count = le_sample_count ev;
          reference = (case le_latest_ts ev of None \<Rightarrow> 0 | Some t \<Rightarrow> t);
          (positive, negative) = accumulate_evidence d ev;
          d' = begin_decision s ev d;
          age = (if reference > 0 \<and> ld_started d' then max 0 (reference - ld_started_at d') else 0);
          cold = (age < ROUTE2_LITE_DECIDER_COLD_START_GRACE_SECONDS);
          recovery = (reference > 0 \<and> ld_recovery_hold_until d' > reference);
          seek = (reference > 0 \<and> ld_seek_hold_until d' > reference);
          mature = decider_mature count observation;
          fast = (mature \<and> supply_rate + 1 / 1000 \<ge> ROUTE2_SUPPLY_SURPLUS_MIN_RATE_X \<and> positive > 0);
          undersupply = (mature \<and> supply_rate < 1 \<and> negative > 0);
          candidate = (if fast then Some ''lite_fast'' else if undersupply then Some ''lite_undersupply'' else None);
          previous = (if ld_confirmed_tier d' = [] then ''lite_uncertain'' else ld_confirmed_tier d');
          display = (display_confident \<or> le_display_confident ev);
          (confirmed, state, reason, hold) =
            decide_tier count mature cold recovery seek fast undersupply display positive negative previous
      in (\<lparr>df_state = state, df_previous_tier = Some previous, df_candidate_tier = candidate,
           df_confirmed_tier = confirmed, df_reason = reason, df_positive = positive,
           df_negative = negative, df_sample_count = count, df_growth_rate = le_growth_rate ev,
           df_supply_rate = supply_rate, df_fast_ema = le_fast_ema ev, df_slow_ema = le_slow_ema ev,
           df_median = le_median ev, df_hold_reason = hold, df_cold_start_hold = cold,
           df_recovery_hold = recovery, df_seek_hold = seek\<rparr>,
          d'\<lparr>ld_previous_tier := Some previous, ld_candidate_tier := candidate,
             ld_confirmed_tier := confirmed, ld_state := state, ld_reason := reason,
             ld_positive := positive, ld_negative := negative, ld_hold_reason := hold\<rparr>))"

lemma decide_tier_fast:
  "decide_tier samples mature cold recovery seek fast undersupply display positive negative previous
     = (''lite_fast'', state, reason, hold)
   \<Longrightarrow> mature \<and> \<not> cold \<and> \<not> recovery \<and> \<not> seek \<and> fast \<and> display \<and> previous \<noteq> ''lite_undersupply''
       \<and> 15 \<le> positive + 1 / 1000 \<and> state = ''fast_confirmed_15''"
  by (auto simp: decide_tier_def route2_consts split: if_splits)

lemma decide_tier_undersupply:
  "decide_tier samples mature cold recovery seek fast undersupply display positive negative previous
     = (''lite_undersupply'', state, reason, hold)
   \<Longrightarrow> mature \<and> \<not> cold \<and> \<not> recovery \<and> \<not> seek \<and> undersupply
       \<and> 25 \<le> negative + 1 / 1000 \<and> state = ''undersupply_confirmed_180''"
  by (auto simp: decide_tier_def route2_consts split: if_splits)

lemma decide_tier_range:
  "decide_tier samples mature cold recovery seek fast undersupply display positive negative previous
     = (tier, state, reason, hold)
   \<Longrightarrow> tier \<in> {''lite_uncertain'', ''lite_fast'', ''lite_undersupply''}
     \<and> (state = ''fast_confirmed_15'' \<longleftrightarrow> tier = ''lite_fast'')
     \<and> (state = ''undersupply_confirmed_180'' \<longleftrightarrow> tier = ''lite_undersupply'')"
  by (auto simp: decide_tier_def split: if_splits)

lemmas decide_tier_facts = decide_tier_fast decide_tier_undersupply decide_tier_range

lemma begin_decision_keeps [simp]:
  "ld_confirmed_tier (begin_decision s ev d) = ld_confirmed_tier d"
  "ld_positive (begin_decision s ev d) = ld_positive d"
  "ld_negative (begin_decision s ev d) = ld_negative d"
  by (simp_all add: begin_decision_def Let_def split: option.splits)

lemma begin_decision_holds_mono:
  "ld_recovery_hold_until d \<le> ld_recovery_hold_until (begin_decision s ev d)"
  "ld_seek_hold_until d \<le> ld_seek_hold_until (begin_decision s ev d)"
  by (simp_all add: begin_decision_def Let_def split: option.splits)

text \<open>What a reading leaves behind, by projection.\<close>

lemma decider_writes_report:
  assumes "lite_threshold_decider s e rate obs conf = (f, d')"
  shows "ld_state d' = df_state f" "ld_confirmed_tier d' = df_confirmed_tier f"
    "ld_previous_tier d' = df_previous_tier f" "ld_candidate_tier d' = df_candidate_tier f"
    "ld_reason d' = df_reason f" "ld_positive d' = df_positive f" "ld_negative d' = df_negative f"
    "ld_hold_reason d' = df_hold_reason f"
  using assms by (auto simp: lite_threshold_decider_def Let_def split: prod.splits)

lemma decider_verdict:
  assumes "lite_threshold_decider s e rate obs conf = (f, d')"
  shows "decide_tier (df_sample_count f) (decider_mature (df_sample_count f) obs)
      (df_cold_start_hold f) (df_recovery_hold f) (df_seek_hold f)
      (decider_mature (df_sample_count f) obs \<and> rate + 1 / 1000 \<ge> ROUTE2_SUPPLY_SURPLUS_MIN_RATE_X \<and> df_positive f > 0)
      (decider_mature (df_sample_count f) obs \<and> rate < 1 \<and> df_negative f > 0)
      (conf \<or> le_display_confident (lite_frontier_evidence e)) (df_positive f) (df_negative f)
      (if ld_confirmed_tier (bs_lite (ms_browser s)) = [] then ''lite_uncertain''
       else ld_confirmed_tier (bs_lite (ms_browser s)))
    = (df_confirmed_tier f, df_state f, df_reason f, df_hold_reason f)"
  using assms by (auto simp: lite_threshold_decider_def Let_def split: prod.splits)

lemma accumulate_evidence_nonneg:
  assumes "0 \<le> ld_positive d" "0 \<le> ld_negative d"
  shows "0 \<le> fst (accumulate_evidence d (lite_frontier_evidence e))
       \<and> 0 \<le> snd (accumulate_evidence d (lite_frontier_evidence e))"
  using assms by (auto simp: accumulate_evidence_def Let_def le_max_iff_disj split: option.splits)

text \<open>The decider of lite mode only leaves the neutral tier on sustained evidence. A reading that
  confirms the fast tier rests on at least six samples over six seconds, a supply of at least 1.05,
  fifteen seconds of positive evidence, a decider older than its twenty second cold start, no
  recovery or seek hold, and a previous tier other than undersupply; a reading that confirms
  undersupply rests on the same maturity, a supply below 1.0 and twenty-five seconds of negative
  evidence.\<close>

theorem lite_tier_needs_evidence:
  assumes "lite_threshold_decider s e supply_rate obs conf = (f, d')"
  shows "(df_confirmed_tier f = ''lite_fast'' \<longrightarrow>
            6 \<le> df_sample_count f \<and> 6 \<le> obs + 1 / 1000 \<and> 105 / 100 \<le> supply_rate + 1 / 1000
            \<and> 15 \<le> df_positive f + 1 / 1000 \<and> \<not> df_cold_start_hold f \<and> \<not> df_recovery_hold f \<and> \<not> df_seek_hold f
            \<and> ld_confirmed_tier (bs_lite (ms_browser s)) \<noteq> ''lite_undersupply'')
       \<and> (df_confirmed_tier f = ''lite_undersupply'' \<longrightarrow>
            6 \<le> df_sample_count f \<and> 6 \<le> obs + 1 / 1000 \<and> supply_rate < 1
            \<and> 25 \<le> df_negative f + 1 / 1000 \<and> \<not> df_cold_start_hold f \<and> \<not> df_recovery_hold f \<and> \<not> df_seek_hold f)
       \<and> df_confirmed_tier f \<in> {''lite_uncertain'', ''lite_fast'', ''lite_undersupply''}"
proof -
  note v = decider_verdict[OF assms]
  have fast: "df_confirmed_tier f = ''lite_fast'' \<Longrightarrow> decider_mature (df_sample_count f) obs
      \<and> \<not> df_cold_start_hold f \<and> \<not> df_recovery_hold f \<and> \<not> df_seek_hold f \<and> 105 / 100 \<le> supply_rate + 1 / 1000
      \<and> 15 \<le> df_positive f + 1 / 1000 \<and> ld_confirmed_tier (bs_lite (ms_browser s)) \<noteq> ''lite_undersupply''"
    using v by (auto dest!: decide_tier_fast simp: route2_consts split: if_splits)
  have slow: "df_confirmed_tier f = ''lite_undersupply'' \<Longrightarrow> decider_mature (df_sample_count f) obs
      \<and> \<not> df_cold_start_hold f \<and> \<not> df_recovery_hold f \<and> \<not> df_seek_hold f \<and> supply_rate < 1
      \<and> 25 \<le> df_negative f + 1 / 1000"
    using v by (auto dest!: decide_tier_undersupply)
  show ?thesis using fast slow decide_tier_range[OF v] by (simp add: decider_mature_def route2_consts)
qed

section \<open>The decider as a transition system\<close>

text \<open>The decider states the program can reach: it starts from the defaults of the session class and
  is written by the decider only, whatever the session, the epoch and the supply figures are.\<close>

inductive decider_step :: "lite_decider \<Rightarrow> lite_decider \<Rightarrow> bool" where
  reading: "bs_lite (ms_browser s) = d \<Longrightarrow> lite_threshold_decider s e rate obs conf = (f, d')
     \<Longrightarrow> decider_step d d'"

inductive_cases decider_stepE: "decider_step d d'"

inductive decider_reachable :: "lite_decider \<Rightarrow> bool" where
  initial: "decider_reachable new_lite_decider"
| step: "decider_reachable d \<Longrightarrow> decider_step d d' \<Longrightarrow> decider_reachable d'"

definition decider_wf :: "lite_decider \<Rightarrow> bool" where
  "decider_wf d =
     (ld_confirmed_tier d \<in> {''lite_uncertain'', ''lite_fast'', ''lite_undersupply''}
      \<and> (ld_state d = ''fast_confirmed_15'' \<longleftrightarrow> ld_confirmed_tier d = ''lite_fast'')
      \<and> (ld_state d = ''undersupply_confirmed_180'' \<longleftrightarrow> ld_confirmed_tier d = ''lite_undersupply'')
      \<and> 0 \<le> ld_positive d \<and> 0 \<le> ld_negative d
      \<and> (ld_confirmed_tier d = ''lite_fast'' \<longrightarrow> 15 \<le> ld_positive d + 1 / 1000)
      \<and> (ld_confirmed_tier d = ''lite_undersupply'' \<longrightarrow> 25 \<le> ld_negative d + 1 / 1000))"

lemma decider_wf_initial: "decider_wf new_lite_decider"
  by (simp add: decider_wf_def new_lite_decider_def)

lemma decider_evidence:
  assumes "lite_threshold_decider s e rate obs conf = (f, d')"
  shows "df_positive f = fst (accumulate_evidence (bs_lite (ms_browser s)) (lite_frontier_evidence e))"
    and "df_negative f = snd (accumulate_evidence (bs_lite (ms_browser s)) (lite_frontier_evidence e))"
  using assms by (auto simp: lite_threshold_decider_def Let_def split: prod.splits)

lemma decider_state_tier:
  assumes "lite_threshold_decider s e rate obs conf = (f, d')"
  shows "(df_state f = ''fast_confirmed_15'' \<longleftrightarrow> df_confirmed_tier f = ''lite_fast'')
       \<and> (df_state f = ''undersupply_confirmed_180'' \<longleftrightarrow> df_confirmed_tier f = ''lite_undersupply'')
       \<and> df_confirmed_tier f \<in> {''lite_uncertain'', ''lite_fast'', ''lite_undersupply''}"
  using decide_tier_range[OF decider_verdict[OF assms]] by simp

lemma decider_fast:
  assumes "lite_threshold_decider s e rate obs conf = (f, d')" and "df_confirmed_tier f = ''lite_fast''"
  shows "15 \<le> df_positive f + 1 / 1000 \<and> ld_confirmed_tier (bs_lite (ms_browser s)) \<noteq> ''lite_undersupply''"
  using decider_verdict[OF assms(1)] assms(2) by (auto dest!: decide_tier_fast split: if_splits)

lemma decider_undersupply:
  assumes "lite_threshold_decider s e rate obs conf = (f, d')" and "df_confirmed_tier f = ''lite_undersupply''"
  shows "25 \<le> df_negative f + 1 / 1000"
  using decider_verdict[OF assms(1)] assms(2) by (auto dest!: decide_tier_undersupply)

lemma decider_step_wf:
  assumes "decider_step d d'" and "decider_wf d"
  shows "decider_wf d'"
proof -
  obtain s e rate obs conf f
    where run: "lite_threshold_decider s e rate obs conf = (f, d')" and d: "bs_lite (ms_browser s) = d"
    using assms(1) by (auto elim: decider_stepE)
  have "0 \<le> df_positive f \<and> 0 \<le> df_negative f"
    using assms(2) accumulate_evidence_nonneg[of d e] by (simp add: decider_evidence[OF run] d decider_wf_def)
  then show ?thesis
    using decider_state_tier[OF run] decider_fast[OF run] decider_undersupply[OF run]
    by (simp add: decider_wf_def decider_writes_report[OF run])
qed

text \<open>C40: In every reachable state of the lite decider the recorded state names the confirmed tier, both
  evidence counters are non-negative, and a confirmed tier still carries the evidence it needs; and
  no single reading takes the decider from confirmed undersupply to the confirmed fast tier.\<close>

theorem lite_decider_invariant:
  assumes "decider_reachable d"
  shows "decider_wf d \<and> (\<forall>d'. decider_step d d' \<longrightarrow>
           \<not> (ld_confirmed_tier d = ''lite_undersupply'' \<and> ld_confirmed_tier d' = ''lite_fast''))"
proof
  show "decider_wf d" using assms
    by induction (auto intro: decider_wf_initial decider_step_wf)
  show "\<forall>d'. decider_step d d' \<longrightarrow>
      \<not> (ld_confirmed_tier d = ''lite_undersupply'' \<and> ld_confirmed_tier d' = ''lite_fast'')"
    using decider_fast by (auto elim!: decider_stepE simp: decider_writes_report)
qed

theorem lite_decider_invariant_witness:
  "decider_reachable new_lite_decider \<and> decider_wf new_lite_decider"
  using lite_decider_invariant[OF decider_reachable.initial] decider_reachable.initial by blast

text \<open>A reading that confirms the fast tier: six samples at twice the playback speed, twenty seconds
  of earlier positive evidence.\<close>

definition fast_epoch :: playback_epoch where
  "fast_epoch = (new_epoch ''e'' ''s'' '''' 0 0 0 None 0)
     \<lparr>ep_frontier_samples := [(30, 0), (31, 2), (32, 4), (33, 6), (34, 8), (35, 10)]\<rparr>"

definition fast_session :: mobile_session where
  "fast_session = (new_session ''s'' 1 1 ''mobile_1080p'' ''local'' 100 '''' '''' '''')
     \<lparr>ms_browser := new_browser_session\<lparr>bs_lite := new_lite_decider
        \<lparr>ld_started := True, ld_last_sample := 34, ld_positive := 20\<rparr>\<rparr>\<rparr>"

lemma fast_evidence:
  "le_sample_count (lite_frontier_evidence fast_epoch) = 6"
  "le_latest_ts (lite_frontier_evidence fast_epoch) = Some 35"
  "le_latest_rate (lite_frontier_evidence fast_epoch) = 2"
  "le_positive_suffix (lite_frontier_evidence fast_epoch) = 5"
  by (simp_all add: lite_frontier_evidence_def fast_epoch_def interval_pairs_def positive_suffix_def
      route2_consts Let_def)

theorem lite_tier_needs_evidence_witness:
  "df_confirmed_tier (fst (lite_threshold_decider fast_session fast_epoch 2 6 True)) = ''lite_fast''
   \<and> 15 \<le> df_positive (fst (lite_threshold_decider fast_session fast_epoch 2 6 True)) + 1 / 1000"
proof -
  let ?r = "lite_threshold_decider fast_session fast_epoch 2 6 True"
  have "df_confirmed_tier (fst ?r) = ''lite_fast''"
    by (simp add: lite_threshold_decider_def fast_evidence accumulate_evidence_def begin_decision_def
        decide_tier_def decider_mature_def recovery_signal_def fast_session_def new_record_defs route2_consts Let_def)
  then show ?thesis
    using lite_tier_needs_evidence[of fast_session fast_epoch 2 6 True "fst ?r" "snd ?r"] by simp
qed

section \<open>The projected-runway gate\<close>

record attach_state =
  ag_ready :: bool
  ag_estimate :: "real option"
  ag_rate :: real
  ag_observation :: real
  ag_projected :: real
  ag_display :: bool

text \<open>\<^verbatim>\<open>math.ceil(x / SEGMENT_DURATION_SECONDS) * SEGMENT_DURATION_SECONDS\<close> above a millisecond.\<close>

definition quantized_deficit :: "real \<Rightarrow> real" where
  "quantized_deficit deficit =
     (if deficit > 1 / 1000 then of_int \<lceil>deficit / SEGMENT_DURATION_SECONDS\<rceil> * SEGMENT_DURATION_SECONDS else 0)"

definition attach_gate_state ::
  "mobile_session \<Rightarrow> playback_epoch \<Rightarrow> real \<Rightarrow> real \<Rightarrow> real \<Rightarrow> real \<Rightarrow> real option \<Rightarrow> attach_state" where
  "attach_gate_state s e minimum_runway target horizon minimum_supply_rate reference_arg =
     (if \<not> ep_init_published e \<or> ep_contiguous_through e = None
      then \<lparr>ag_ready = False, ag_estimate = None, ag_rate = 0, ag_observation = 0, ag_projected = 0, ag_display = False\<rparr>
      else
        let ready_end = epoch_ready_end s e;
            model = supply_model_of e;
            metrics = runtime_supply_metrics s e;
            rate = sm_effective model; observation = sm_observation model;
            reference = clamp_time (case reference_arg of Some r \<Rightarrow> r | None \<Rightarrow> rs_playhead metrics) (ms_duration s);
            runway = max 0 (rs_published_end metrics - reference);
            projected = projected_runway runway rate horizon 1
        in if \<not> (ep_start e \<le> reference \<and> reference \<le> ready_end + 1 / 1000)
           then \<lparr>ag_ready = False, ag_estimate = None, ag_rate = rate, ag_observation = observation,
                 ag_projected = projected, ag_display = sm_display_confident model\<rparr>
           else if rs_manifest_complete metrics
           then \<lparr>ag_ready = True, ag_estimate = Some 0, ag_rate = rate, ag_observation = observation,
                 ag_projected = projected, ag_display = True\<rparr>
           else
             let required = required_runway minimum_runway target horizon rate;
                 observation_ready = (observation \<ge> ROUTE2_SUPPLY_RATE_MIN_SAMPLE_SECONDS)
             in if observation_ready \<and> runway + 1 / 1000 \<ge> required
                then \<lparr>ag_ready = True, ag_estimate = Some 0, ag_rate = rate, ag_observation = observation,
                      ag_projected = projected, ag_display = True\<rparr>
                else if \<not> observation_ready \<or> rate \<le> 1 / 1000
                then \<lparr>ag_ready = False, ag_estimate = None, ag_rate = rate, ag_observation = observation,
                      ag_projected = projected, ag_display = False\<rparr>
                else
                  let observation_deficit = max 0 (ROUTE2_SUPPLY_RATE_MIN_SAMPLE_SECONDS - observation);
                      deficit = max 0 (min (ms_duration s) (reference + required) - rs_published_end metrics);
                      estimate = max observation_deficit (quantized_deficit deficit / rate)
                  in \<lparr>ag_ready = False, ag_estimate = Some estimate, ag_rate = rate,
                      ag_observation = observation, ag_projected = projected,
                      ag_display = sm_display_confident model\<rparr>)"

lemma quantized_deficit_bounds:
  assumes "0 \<le> d"
  shows "d - 1 / 1000 \<le> quantized_deficit d \<and> quantized_deficit d < d + 2"
proof (cases "d > 1 / 1000")
  case True
  have "d \<le> of_int \<lceil>d / 2\<rceil> * 2" using ceiling_correct[of "d / 2"] by linarith
  moreover have "of_int \<lceil>d / 2\<rceil> * 2 < d + 2" using ceiling_correct[of "d / 2"] by linarith
  ultimately show ?thesis using True by (simp add: quantized_deficit_def SEGMENT_DURATION_SECONDS_def)
qed (use assms in \<open>simp add: quantized_deficit_def\<close>)

text \<open>What every start gate promises to its caller: readiness is the estimate 0, and no estimate is
  negative. The gates that look at the published run also promise that they are never ready before
  the epoch has published its init segment and a first media segment.\<close>

locale start_gate =
  fixes gate_ready :: "mobile_session \<Rightarrow> playback_epoch \<Rightarrow> bool"
    and gate_estimate :: "mobile_session \<Rightarrow> playback_epoch \<Rightarrow> real option"
  assumes ready_estimate: "gate_ready s e \<Longrightarrow> gate_estimate s e = Some 0"
    and estimate_nonneg: "gate_estimate s e = Some t \<Longrightarrow> 0 \<le> t"
begin

lemma positive_estimate_not_ready: "gate_estimate s e = Some t \<Longrightarrow> 0 < t \<Longrightarrow> \<not> gate_ready s e"
  using ready_estimate by fastforce

lemma unknown_estimate_not_ready: "gate_estimate s e = None \<Longrightarrow> \<not> gate_ready s e"
  using ready_estimate by fastforce

end

locale published_start_gate = start_gate +
  assumes ready_published: "gate_ready s e \<Longrightarrow> ep_init_published e \<and> ep_contiguous_through e \<noteq> None"
begin

lemma unpublished_not_ready: "\<not> ep_init_published e \<Longrightarrow> \<not> gate_ready s e"
  using ready_published by blast

lemma ready_frontier: "gate_ready s e \<Longrightarrow> \<exists>through. ep_contiguous_through e = Some through"
  using ready_published by blast

end

lemma attach_gate_ready_iff:
  "ag_ready (attach_gate_state s e mr target h msr ref) \<longleftrightarrow>
     ep_init_published e \<and> ep_contiguous_through e \<noteq> None
     \<and> (let reference = clamp_time (case ref of Some r \<Rightarrow> r | None \<Rightarrow> effective_playhead s e) (ms_duration s);
            runway = max 0 (epoch_ready_end s e - reference)
        in ep_start e \<le> reference \<and> reference \<le> epoch_ready_end s e + 1 / 1000
           \<and> (epoch_ready_end s e + 1 / 1000 \<ge> ms_duration s \<or> ep_transcoder_completed e
              \<or> (6 \<le> sm_observation (supply_model_of e)
                 \<and> required_runway mr target h (sm_effective (supply_model_of e)) \<le> runway + 1 / 1000)))"
  by (auto simp: attach_gate_state_def runtime_supply_metrics_def route2_consts Let_def split: option.splits)

interpretation projected_gate: published_start_gate
  "\<lambda>s e. ag_ready (attach_gate_state s e mr target h msr ref)"
  "\<lambda>s e. ag_estimate (attach_gate_state s e mr target h msr ref)" for mr target h msr ref
proof unfold_locales
  fix s e t
  show "ag_ready (attach_gate_state s e mr target h msr ref) \<Longrightarrow> ep_init_published e \<and> ep_contiguous_through e \<noteq> None"
    by (simp add: attach_gate_ready_iff)
  show "ag_ready (attach_gate_state s e mr target h msr ref) \<Longrightarrow> ag_estimate (attach_gate_state s e mr target h msr ref) = Some 0"
    by (simp add: attach_gate_state_def Let_def split: if_splits)
  show "ag_estimate (attach_gate_state s e mr target h msr ref) = Some t \<Longrightarrow> 0 \<le> t"
    by (auto simp: attach_gate_state_def Let_def le_max_iff_disj split: if_splits)
qed

lemma attach_gate_ignores_supply_floor:
  "attach_gate_state s e mr target h floor1 ref = attach_gate_state s e mr target h floor2 ref"
  by (simp add: attach_gate_state_def)

text \<open>The projected-runway gate opens exactly when it should. An epoch is ready to attach at a position
  if and only if it has published its init segment and a contiguous run of segments, the position
  lies in the published part, and either the epoch is complete or its supply has been observed for
  six seconds and the runway, to a millisecond, reaches the minimum and its projection over the
  horizon reaches the target. The supply-rate floor the callers pass plays no part.\<close>

theorem attach_gate_exact:
  assumes "0 < target"
  shows "ag_ready (attach_gate_state s e minimum target horizon supply_floor (Some position)) \<longleftrightarrow>
     (let reference = clamp_time position (ms_duration s);
          rate = sm_effective (supply_model_of e);
          runway = max 0 (epoch_ready_end s e - reference) + 1 / 1000
      in ep_init_published e \<and> ep_contiguous_through e \<noteq> None
         \<and> ep_start e \<le> reference \<and> reference \<le> epoch_ready_end s e + 1 / 1000
         \<and> (ms_duration s \<le> epoch_ready_end s e + 1 / 1000 \<or> ep_transcoder_completed e
            \<or> (6 \<le> sm_observation (supply_model_of e) \<and> minimum \<le> runway
               \<and> target \<le> projected_runway runway rate horizon 1)))"
proof -
  have "required_runway minimum target horizon rate \<le> max 0 r + 1 / 1000
      \<longleftrightarrow> minimum \<le> max 0 r + 1 / 1000 \<and> target \<le> projected_runway (max 0 r + 1 / 1000) rate horizon 1" for r rate
    using assms by (intro required_runway_is_threshold) auto
  then show ?thesis unfolding attach_gate_ready_iff by (simp add: Let_def)
qed

text \<open>The wait estimate of the gate is sufficient. When the gate is closed with an estimate of t
  seconds, an epoch that keeps growing at the reported supply rate has, after t seconds, published
  up to the required end of the runway (or the end of the media), to within a millisecond.\<close>

theorem attach_estimate_suffices:
  assumes "attach_gate_state s e minimum target horizon supply_floor (Some position) = a"
    and "\<not> ag_ready a" and "ag_estimate a = Some t"
  shows "min (ms_duration s) (clamp_time position (ms_duration s)
           + required_runway minimum target horizon (ag_rate a))
         \<le> epoch_ready_end s e + ag_rate a * t + 1 / 1000 \<and> 0 < ag_rate a"
proof -
  let ?rate = "sm_effective (supply_model_of e)"
  let ?goal = "min (ms_duration s) (clamp_time position (ms_duration s) + required_runway minimum target horizon ?rate)"
  let ?d = "max 0 (?goal - epoch_ready_end s e)"
  have pe: "rs_published_end (runtime_supply_metrics s e) = epoch_ready_end s e"
    by (simp add: runtime_supply_metrics_def Let_def)
  have a: "ag_rate a = ?rate" "1 / 1000 < ?rate" "quantized_deficit ?d / ?rate \<le> t"
    using assms by (auto simp: attach_gate_state_def Let_def pe split: if_splits)
  then have "quantized_deficit ?d \<le> ?rate * t" by (simp add: pos_divide_le_eq mult.commute)
  moreover have "?d - 1 / 1000 \<le> quantized_deficit ?d" using quantized_deficit_bounds[of ?d] by simp
  ultimately have "?goal - epoch_ready_end s e \<le> ?rate * t + 1 / 1000" by linarith
  with a show ?thesis by simp
qed

definition ready_epoch :: playback_epoch where
  "ready_epoch = (new_epoch ''e'' ''s'' '''' 0 0 0 None 0)
     \<lparr>ep_init_published := True, ep_contiguous_through := Some 29,
      ep_frontier_samples := [(1, 44), (9, 60)]\<rparr>"

lemma ready_supply:
  "sm_effective (supply_model_of ready_epoch) = 2"
  "sm_observation (supply_model_of ready_epoch) = 8"
  by (simp_all add: supply_model_of_def supply_rate_x_def growth_rates_def ready_epoch_def
      least_candidate_def positive_rates_def positive_median_def py_median_def new_record_defs Let_def)

theorem attach_gate_exact_witness:
  "ag_ready (attach_gate_state starving_session ready_epoch 24 45 90 (105 / 100) (Some 10))"
  using attach_gate_exact[of 45 starving_session ready_epoch 24 90 "105 / 100" 10]
  by (simp add: ready_supply)
    (simp add: ready_epoch_def starving_session_def new_record_defs epoch_ready_end_def clamp_time_def
      projected_runway_def route2_consts)

theorem attach_estimate_suffices_witness:
  "ag_estimate (attach_gate_state starving_session starving_epoch 24 45 90 (105 / 100) (Some 0)) = Some 160
   \<and> min 100 (0 + 90) \<le> (10 :: real) + 1 / 2 * 160 + 1 / 1000"
proof -
  let ?a = "attach_gate_state starving_session starving_epoch 24 45 90 (105 / 100) (Some 0)"
  have ends: "epoch_ready_end starving_session starving_epoch = 10" "ms_duration starving_session = 100"
    "ep_init_published starving_epoch" "ep_contiguous_through starving_epoch = Some 4" "ep_start starving_epoch = 0"
    "\<not> ep_transcoder_completed starving_epoch"
    by (simp_all add: starving_epoch_def starving_session_def new_record_defs epoch_ready_end_def route2_consts)
  have a: "\<not> ag_ready ?a \<and> ag_estimate ?a = Some 160 \<and> ag_rate ?a = 1 / 2"
    by (simp add: attach_gate_state_def runtime_supply_metrics_def starving_supply ends clamp_time_def
        required_runway_def quantized_deficit_def route2_consts Let_def)
  with attach_estimate_suffices[of starving_session starving_epoch 24 45 90 "105 / 100" 0 ?a 160]
  show ?thesis by (simp add: ends clamp_time_def required_runway_def)
qed

section \<open>The start gate of lite mode\<close>

record startup_gate =
  sg_ready :: bool
  sg_estimate :: "real option"
  sg_rate :: real
  sg_observation :: real
  sg_required :: real
  sg_actual :: real
  sg_reason :: string
  sg_undersupply_detected :: bool
  sg_undersupply_reason :: "string option"
  sg_required_source :: string
  sg_decider :: decider_fields

definition remaining_after_attach :: "mobile_session \<Rightarrow> playback_epoch \<Rightarrow> real" where
  "remaining_after_attach s e = max 0 (ms_duration s - ep_attach e)"

text \<open>The tier-dependent runway: source, seconds, reason, undersupply flag and reason.\<close>

definition lite_required_runway ::
  "decider_fields \<Rightarrow> string \<times> real \<times> string \<times> bool \<times> string option" where
  "lite_required_runway f =
     (if df_state f = ''fast_confirmed_15''
      then (''healthy_fast_start_15'', ROUTE2_LITE_FAST_START_RUNWAY_SECONDS, ''lite_fast_confirmed'', False, None)
      else if df_state f = ''undersupply_confirmed_180''
      then (''undersupply_180'', ROUTE2_LITE_UNDERSUPPLY_START_RUNWAY_SECONDS, ''lite_undersupply_confirmed'',
            True, Some ''sustained_supply_below_1_0'')
      else (''slow_path_45'', ROUTE2_LITE_SLOW_START_RUNWAY_SECONDS,
            (if df_reason f = [] then ''lite_neutral_45'' else df_reason f), False, None))"

definition lite_initial_startup_gate ::
  "mobile_session \<Rightarrow> playback_epoch \<Rightarrow> startup_gate \<times> lite_decider" where
  "lite_initial_startup_gate s e =
     (let remaining = remaining_after_attach s e in
      if \<not> ep_init_published e \<or> ep_contiguous_through e = None then
        (\<lparr>sg_ready = False, sg_estimate = None, sg_rate = 0, sg_observation = 0,
          sg_required = min ROUTE2_LITE_SLOW_START_RUNWAY_SECONDS remaining, sg_actual = 0,
          sg_reason = ''lite_slow_supply_unknown_or_deficit'', sg_undersupply_detected = False,
          sg_undersupply_reason = None, sg_required_source = ''slow_path_45'',
          sg_decider = decider_default_fields\<rparr>, bs_lite (ms_browser s))
      else
        let a = attach_gate_state s e ROUTE2_STARTUP_MIN_RUNWAY_SECONDS ROUTE2_ATTACH_READY_SECONDS
                  ROUTE2_STARTUP_PROJECTION_HORIZON_SECONDS ROUTE2_STARTUP_MIN_SUPPLY_RATE_X (Some (ep_attach e));
            (f, d') = lite_threshold_decider s e (ag_rate a) (ag_observation a) (ag_display a);
            (source, seconds, reason, undersupply, undersupply_reason) = lite_required_runway f;
            required = min seconds remaining;
            actual = max 0 (epoch_ready_end s e - ep_attach e);
            ready = (actual + 1 / 1000 \<ge> required);
            estimate = (if ready then Some 0
                        else if ag_rate a > 1 / 1000
                        then Some (quantized_deficit (max 0 (required - actual)) / ag_rate a)
                        else None)
        in (\<lparr>sg_ready = ready, sg_estimate = estimate, sg_rate = ag_rate a,
             sg_observation = ag_observation a, sg_required = required, sg_actual = actual,
             sg_reason = reason, sg_undersupply_detected = undersupply,
             sg_undersupply_reason = undersupply_reason, sg_required_source = source,
             sg_decider = f\<rparr>, d'))"

lemma quantized_deficit_nonneg [simp]: "0 \<le> quantized_deficit d"
  by (auto simp: quantized_deficit_def SEGMENT_DURATION_SECONDS_def)

interpretation lite_gate: published_start_gate
  "\<lambda>s e. sg_ready (fst (lite_initial_startup_gate s e))" "\<lambda>s e. sg_estimate (fst (lite_initial_startup_gate s e))"
proof unfold_locales
  fix s e t
  show "sg_ready (fst (lite_initial_startup_gate s e)) \<Longrightarrow> ep_init_published e \<and> ep_contiguous_through e \<noteq> None"
    by (auto simp: lite_initial_startup_gate_def Let_def split: if_splits)
  show "sg_ready (fst (lite_initial_startup_gate s e)) \<Longrightarrow> sg_estimate (fst (lite_initial_startup_gate s e)) = Some 0"
    by (auto simp: lite_initial_startup_gate_def Let_def split: if_splits prod.splits)
  show "sg_estimate (fst (lite_initial_startup_gate s e)) = Some t \<Longrightarrow> 0 \<le> t"
    by (auto simp: lite_initial_startup_gate_def Let_def split: if_splits prod.splits)
qed

text \<open>The start gate of lite mode asks for the runway of the confirmed tier. Once an epoch has
  published media, the gate is open exactly when the runway from the attach position reaches, to a
  millisecond, the lesser of the tier's runway (15 seconds when fast is confirmed, 180 when
  undersupply is, 45 otherwise) and the media left after the attach position; the undersupply flag
  is set exactly for the 180 second tier.\<close>

theorem lite_start_gate_exact:
  assumes "lite_initial_startup_gate s e = (g, d')"
    and "ep_init_published e" and "ep_contiguous_through e = Some through"
  shows "(sg_ready g \<longleftrightarrow>
            min (if ld_confirmed_tier d' = ''lite_fast'' then 15
                 else if ld_confirmed_tier d' = ''lite_undersupply'' then 180 else 45)
              (max 0 (ms_duration s - ep_attach e))
            \<le> max 0 (epoch_ready_end s e - ep_attach e) + 1 / 1000)
       \<and> (sg_undersupply_detected g \<longleftrightarrow> ld_confirmed_tier d' = ''lite_undersupply'')"
proof -
  define a where "a = attach_gate_state s e ROUTE2_STARTUP_MIN_RUNWAY_SECONDS ROUTE2_ATTACH_READY_SECONDS
      ROUTE2_STARTUP_PROJECTION_HORIZON_SECONDS ROUTE2_STARTUP_MIN_SUPPLY_RATE_X (Some (ep_attach e))"
  obtain f dd where run: "lite_threshold_decider s e (ag_rate a) (ag_observation a) (ag_display a) = (f, dd)"
    by fastforce
  have g: "dd = d'"
    "sg_ready g \<longleftrightarrow> min (fst (snd (lite_required_runway f))) (remaining_after_attach s e)
       \<le> max 0 (epoch_ready_end s e - ep_attach e) + 1 / 1000"
    "sg_undersupply_detected g \<longleftrightarrow> fst (snd (snd (snd (lite_required_runway f))))"
    using assms by (auto simp: lite_initial_startup_gate_def Let_def a_def[symmetric] run split: prod.splits)
  have "ld_confirmed_tier d' = df_confirmed_tier f" using decider_writes_report(2)[OF run] g(1) by simp
  then show ?thesis
    using g(2,3) decider_state_tier[OF run]
    by (auto simp: lite_required_runway_def remaining_after_attach_def route2_consts split: if_splits)
qed

lemma sample_count_length [simp]: "le_sample_count (lite_frontier_evidence e) = int (length (ep_frontier_samples e))"
  by (simp add: lite_frontier_evidence_def Let_def split: prod.splits)

lemma decider_sample_count:
  "lite_threshold_decider s e rate obs conf = (f, d') \<Longrightarrow> df_sample_count f = int (length (ep_frontier_samples e))"
  by (auto simp: lite_threshold_decider_def Let_def split: prod.splits)

lemma few_samples_neutral:
  assumes "lite_threshold_decider s e rate obs conf = (f, d')" and "length (ep_frontier_samples e) < 6"
  shows "df_confirmed_tier f = ''lite_uncertain''"
  using decider_verdict[OF assms(1)] assms(2) decider_sample_count[OF assms(1)]
  by (simp add: decide_tier_def decider_mature_def route2_consts)

lemma few_samples_gate_tier:
  assumes "length (ep_frontier_samples e) < 6" and "ep_init_published e" and "ep_contiguous_through e \<noteq> None"
  shows "ld_confirmed_tier (snd (lite_initial_startup_gate s e)) = ''lite_uncertain''"
  using assms few_samples_neutral decider_writes_report(2)
  by (fastforce simp: lite_initial_startup_gate_def Let_def split: prod.splits)

theorem lite_start_gate_exact_witness:
  "sg_ready (fst (lite_initial_startup_gate starving_session ready_epoch))"
proof -
  let ?r = "lite_initial_startup_gate starving_session ready_epoch"
  have e: "ep_init_published ready_epoch" "ep_contiguous_through ready_epoch = Some 29"
    "ms_duration starving_session = 100" "ep_attach ready_epoch = 0" "epoch_ready_end starving_session ready_epoch = 60"
    "length (ep_frontier_samples ready_epoch) < 6"
    by (simp_all add: ready_epoch_def starving_session_def new_record_defs epoch_ready_end_def route2_consts)
  then have "ld_confirmed_tier (snd ?r) = ''lite_uncertain''" by (intro few_samples_gate_tier) auto
  then show ?thesis
    using lite_start_gate_exact[of starving_session ready_epoch "fst ?r" "snd ?r" 29] e by simp
qed

end
