(* ===== verification/Route2_Full_Gate.thy ===== *)
theory Route2_Full_Gate
  imports Route2_Lite_Gate
begin

text \<open>
  Full mode. The preflight that measures the source per segment
  (\<^verbatim>\<open>services/mobile_playback_route2_preflight_service.py\<close>), the byte budget of the rest of the
  media (\<^verbatim>\<open>services/mobile_playback_route2_full_helpers.py\<close>) and the gate that decides whether
  playback may start (\<^verbatim>\<open>services/mobile_playback_route2_full_gate.py\<close>).

  The preflight thread is the pair \<open>ensure_full_preflight\<close> (what the caller does under the lock)
  and \<open>finish_preflight\<close> (what the thread writes when it ends). The cache file enters as the list
  of integers its JSON holds, \<open>None\<close> when it is missing or unreadable.
\<close>

section \<open>Preflight\<close>

definition total_source_segments :: "mobile_session \<Rightarrow> int" where
  "total_source_segments s = max 1 \<lceil>ms_duration s / SEGMENT_DURATION_SECONDS\<rceil>"

text \<open>One line of the packet listing: \<open>None\<close> where the two leading tokens do not parse.\<close>

definition packet_bin :: "int \<Rightarrow> real \<Rightarrow> int" where
  "packet_bin segs pts = max 0 (min (segs - 1) \<lfloor>max pts 0 / SEGMENT_DURATION_SECONDS\<rfloor>)"

fun add_packet :: "int \<Rightarrow> int list \<Rightarrow> (real \<times> int) option \<Rightarrow> int list" where
  "add_packet segs bins None = bins"
| "add_packet segs bins (Some (pts, bytes)) =
     (if bytes \<le> 0 then bins
      else let i = nat (packet_bin segs pts) in bins[i := bins ! i + bytes])"

definition scan_packet_bins :: "int \<Rightarrow> bool \<Rightarrow> (real \<times> int) option list \<Rightarrow> int list" where
  "scan_packet_bins segs probe_ok packets =
     (if \<not> probe_ok then replicate (nat segs) 0
      else foldl (add_packet segs) (replicate (nat segs) 0) packets)"

definition combine_bins :: "int \<Rightarrow> int \<Rightarrow> int list \<Rightarrow> int list \<Rightarrow> int list" where
  "combine_bins segs floor_bytes video audio =
     (let combined = map (\<lambda>(v, a). v + a) (zip video audio) in
      if \<exists>x \<in> set combined. x \<noteq> 0 then combined else replicate (nat segs) floor_bytes)"

definition load_preflight_cache :: "mobile_session \<Rightarrow> int list option \<Rightarrow> browser_session \<Rightarrow> browser_session option" where
  "load_preflight_cache s cached b =
     (case cached of
        None \<Rightarrow> None
      | Some values \<Rightarrow>
          let bins = map (max 0) values in
          if int (length bins) \<noteq> total_source_segments s then None
          else Some (b\<lparr>bs_source_bins := bins, bs_preflight_state := ''ready'',
                       bs_preflight_error := None, bs_preflight_started := 0\<rparr>))"

text \<open>Returns the session and whether a preflight thread was started.\<close>

definition ensure_full_preflight :: "int list option \<Rightarrow> real \<Rightarrow> mobile_session \<Rightarrow> mobile_session \<times> bool" where
  "ensure_full_preflight cached clock s =
     (let b = ms_browser s in
      if bs_engine_mode b \<noteq> ''route2'' \<or> bs_playback_mode b \<noteq> ''full''
      then (s\<lparr>ms_browser := b\<lparr>bs_preflight_state := ''idle'', bs_preflight_error := None, bs_source_bins := []\<rparr>\<rparr>, False)
      else if bs_source_bins b \<noteq> []
      then (s\<lparr>ms_browser := b\<lparr>bs_preflight_state := ''ready'', bs_preflight_error := None\<rparr>\<rparr>, False)
      else case load_preflight_cache s cached b of
             Some b' \<Rightarrow> (s\<lparr>ms_browser := b'\<rparr>, False)
           | None \<Rightarrow>
               if bs_preflight_state b = ''running'' then (s, False)
               else (s\<lparr>ms_browser := b\<lparr>bs_preflight_state := ''running'', bs_preflight_started := clock,
                                       bs_preflight_error := None\<rparr>\<rparr>, True))"

definition finish_preflight :: "string + int list \<Rightarrow> mobile_session \<Rightarrow> mobile_session" where
  "finish_preflight outcome s =
     (let b = ms_browser s in
      case outcome of
        Inl message \<Rightarrow> s\<lparr>ms_browser := b\<lparr>bs_preflight_state := ''failed'',
            bs_preflight_error := Some (if message = [] then ''Full Playback preflight failed'' else message)\<rparr>\<rparr>
      | Inr bins \<Rightarrow> s\<lparr>ms_browser := b\<lparr>bs_source_bins := bins, bs_preflight_state := ''ready'',
            bs_preflight_error := None, bs_preflight_started := 0\<rparr>\<rparr>)"

lemma length_add_packet [simp]: "length (add_packet segs bins p) = length bins"
  by (cases p) (auto simp: Let_def)

lemma length_foldl_add_packet [simp]: "length (foldl (add_packet segs) bins ps) = length bins"
  by (induction ps arbitrary: bins) auto

lemma length_scan_packet_bins [simp]: "length (scan_packet_bins segs ok ps) = nat segs"
  by (simp add: scan_packet_bins_def)

lemma total_source_segments_pos: "1 \<le> total_source_segments s"
  by (simp add: total_source_segments_def)

lemma length_combine_bins:
  "length video = nat segs \<Longrightarrow> length audio = nat segs \<Longrightarrow> length (combine_bins segs f video audio) = nat segs"
  by (simp add: combine_bins_def Let_def)

lemma packet_bin_range: "1 \<le> segs \<Longrightarrow> 0 \<le> packet_bin segs pts \<and> packet_bin segs pts < segs"
  by (auto simp: packet_bin_def)

fun packet_bytes :: "(real \<times> int) option \<Rightarrow> int" where
  "packet_bytes None = 0"
| "packet_bytes (Some (pts, bytes)) = max 0 bytes"

lemma sum_list_update_add:
  "i < length (xs :: int list) \<Longrightarrow> sum_list (xs[i := xs ! i + d]) = sum_list xs + d"
  by (induction xs arbitrary: i) (auto split: nat.splits)

lemma sum_add_packet:
  assumes "1 \<le> segs" and "length bins = nat segs"
  shows "sum_list (add_packet segs bins p) = sum_list bins + packet_bytes p"
proof (cases p)
  case (Some x)
  obtain pts bytes where x: "x = (pts, bytes)" by (cases x)
  have "nat (packet_bin segs pts) < length bins"
    using packet_bin_range[OF assms(1), of pts] assms(2) by linarith
  with Some x show ?thesis by (simp add: Let_def sum_list_update_add)
qed simp

lemma sum_foldl_add_packet:
  assumes "1 \<le> segs" and "length bins = nat segs"
  shows "sum_list (foldl (add_packet segs) bins ps) = sum_list bins + sum_list (map packet_bytes ps)"
  using assms by (induction ps arbitrary: bins) (auto simp: sum_add_packet)

text \<open>The preflight loses no bytes and never misfiles them. The scan of a packet listing gives one bin
  per two-second segment of the media, at least one, and the bins add up to the sizes of all packets
  that parse with a positive size, wherever their time stamps lie.\<close>

theorem preflight_bins_complete:
  fixes s :: mobile_session
  defines "segs \<equiv> total_source_segments s"
  shows "int (length (scan_packet_bins segs True packets)) = segs \<and> 1 \<le> segs
       \<and> sum_list (scan_packet_bins segs True packets) = sum_list (map packet_bytes packets)"
proof -
  have t: "1 \<le> segs" by (simp add: segs_def total_source_segments_pos)
  then show ?thesis
    using sum_foldl_add_packet[OF t, of "replicate (nat segs) 0" packets]
    by (simp add: scan_packet_bins_def sum_list_replicate)
qed

definition preflight_wf :: "mobile_session \<Rightarrow> bool" where
  "preflight_wf s =
     (let b = ms_browser s in
      (bs_source_bins b = [] \<or> int (length (bs_source_bins b)) = total_source_segments s)
      \<and> (bs_preflight_state b = ''ready'' \<longrightarrow> bs_source_bins b \<noteq> []))"

lemma total_source_segments_browser [simp]:
  "total_source_segments (s\<lparr>ms_browser := b\<rparr>) = total_source_segments s"
  by (simp add: total_source_segments_def)

lemma preflight_wf_new: "preflight_wf (new_session sid u i p k d c f cr)"
  by (simp add: preflight_wf_def new_record_defs)

lemma load_cache_length:
  "load_preflight_cache s cached b = Some b' \<Longrightarrow> int (length (bs_source_bins b')) = total_source_segments s
     \<and> bs_source_bins b' \<noteq> [] \<and> bs_preflight_state b' = ''ready''"
  using total_source_segments_pos[of s]
  by (auto simp: load_preflight_cache_def Let_def split: option.splits if_splits)

lemma ensure_preflight_wf: "preflight_wf s \<Longrightarrow> preflight_wf (fst (ensure_full_preflight cached clock s))"
  by (auto simp: ensure_full_preflight_def preflight_wf_def Let_def dest: load_cache_length
      split: if_splits option.splits)

lemma finish_preflight_wf:
  "preflight_wf s \<Longrightarrow> (\<And>bins. outcome = Inr bins \<Longrightarrow> int (length bins) = total_source_segments s)
   \<Longrightarrow> preflight_wf (finish_preflight outcome s)"
  using total_source_segments_pos[of s]
  by (auto simp: finish_preflight_def preflight_wf_def Let_def split: sum.splits)

section \<open>The byte budget\<close>

definition parse_bitrate_bps :: "string \<Rightarrow> int" where
  "parse_bitrate_bps value =
     (let normalized = py_lower (py_strip value) in
      if normalized = [] then 0
      else let (body, multiplier) =
             (if ends_with ''k'' normalized then (butlast normalized, 1000)
              else if ends_with ''m'' normalized then (butlast normalized, 1000000)
              else (normalized, 1))
           in case py_float body of None \<Rightarrow> 0 | Some x \<Rightarrow> max 0 (py_trunc (x * multiplier)))"

definition profile_floor_bytes_per_second :: "string \<Rightarrow> py_error + real" where
  "profile_floor_bytes_per_second key =
     (case dict_get MOBILE_PROFILES key of
        None \<Rightarrow> Inl (KeyError key)
      | Some profile \<Rightarrow> Inr (max 1 (of_int (parse_bitrate_bps (pr_maxrate profile) + 160000) / 8)))"

definition profile_floor_segment_bytes :: "string \<Rightarrow> py_error + int" where
  "profile_floor_segment_bytes key =
     and_then (profile_floor_bytes_per_second key) (\<lambda>r. Inr (max 1 \<lceil>r * SEGMENT_DURATION_SECONDS\<rceil>))"

definition full_mode_requires_initial_attach_gate :: "mobile_session \<Rightarrow> bool" where
  "full_mode_requires_initial_attach_gate s =
     (bs_engine_mode (ms_browser s) = ''route2'' \<and> bs_playback_mode (ms_browser s) = ''full'')"

lemma profile_floors:
  "profile_floor_bytes_per_second ''mobile_1080p'' = Inr 707500"
  "profile_floor_bytes_per_second ''mobile_2160p'' = Inr 2020000"
  by (simp_all add: profile_floor_bytes_per_second_def MOBILE_PROFILES_def parse_bitrate_bps_def ends_with_def
      py_lower_def py_lower_char_def py_strip_def is_py_space_def is_py_digit_def char_code_def
      py_float_def decimal_value_def digits_value_def py_trunc_def)

lemma floor_segment_bytes_pos: "profile_floor_segment_bytes key = Inr n \<Longrightarrow> 1 \<le> n"
  by (auto simp: profile_floor_segment_bytes_def and_then_Inr_iff)

definition observed_ratios :: "int \<Rightarrow> int list \<Rightarrow> (int \<times> int) list \<Rightarrow> real list" where
  "observed_ratios start_segment bins segment_bytes =
     concat (map (\<lambda>(relative, actual).
       let absolute = start_segment + relative in
       if absolute < 0 \<or> absolute \<ge> int (length bins) then []
       else [of_int actual / of_int (max (bins ! nat absolute) 1)]) segment_bytes)"

definition full_safe_calibration_ratio :: "mobile_session \<Rightarrow> playback_epoch \<Rightarrow> int list \<Rightarrow> py_error + real" where
  "full_safe_calibration_ratio s e bins =
     and_then (profile_floor_bytes_per_second (ms_profile s)) (\<lambda>floor_rate.
       let source_total = max 1 (sum_list bins);
           baseline = max (1 / 10000) (floor_rate * ms_duration s / of_int source_total);
           ratios = observed_ratios (segment_index_for_time (ep_start e)) bins (ep_segment_bytes e)
       in if ratios = [] then Inr baseline
          else Inr (Max {baseline, percentile ratios (8 / 10), ema ROUTE2_SUPPLY_RATE_SLOW_EMA_ALPHA ratios,
                         positive_median ratios}))"

lemma calibration_pos: "full_safe_calibration_ratio s e bins = Inr r \<Longrightarrow> 0 < r"
  by (auto simp: full_safe_calibration_ratio_def and_then_Inr_iff Let_def less_max_iff_disj split: if_splits)

text \<open>The accounting loop over the segments still to be played, lines 112 to 138.\<close>

record budget_acc =
  ba_segments :: "real list"
  ba_estimated :: real
  ba_remaining :: real
  ba_prepared :: real

definition actual_segment_bytes :: "playback_epoch \<Rightarrow> int \<Rightarrow> int option" where
  "actual_segment_bytes e relative =
     (case ep_contiguous_through e of
        None \<Rightarrow> None
      | Some through \<Rightarrow>
          if 0 \<le> relative \<and> relative \<le> through then dict_get (ep_segment_bytes e) relative else None)"

definition budget_step ::
  "playback_epoch \<Rightarrow> int list \<Rightarrow> int \<Rightarrow> real \<Rightarrow> int \<Rightarrow> int \<Rightarrow> int \<Rightarrow> budget_acc \<Rightarrow> py_error + budget_acc" where
  "budget_step e bins floor_bytes ratio epoch_start frontier absolute acc =
     (case actual_segment_bytes e (absolute - epoch_start) of
        None \<Rightarrow>
          if int (length bins) \<le> absolute then Inl IndexError
          else let cost = of_int (max floor_bytes \<lceil>of_int (max (bins ! nat absolute) 1) * ratio\<rceil>) in
               Inr (acc\<lparr>ba_segments := ba_segments acc @ [cost], ba_estimated := ba_estimated acc + cost,
                        ba_remaining := ba_remaining acc + cost\<rparr>)
      | Some actual \<Rightarrow>
          let cost = of_int actual in
          Inr (acc\<lparr>ba_segments := ba_segments acc @ [cost], ba_remaining := ba_remaining acc + cost,
                   ba_prepared := (if absolute \<le> frontier then ba_prepared acc + cost else ba_prepared acc)\<rparr>))"

fun budget_loop ::
  "playback_epoch \<Rightarrow> int list \<Rightarrow> int \<Rightarrow> real \<Rightarrow> int \<Rightarrow> int \<Rightarrow> int list \<Rightarrow> budget_acc \<Rightarrow> py_error + budget_acc" where
  "budget_loop e bins floor_bytes ratio epoch_start frontier [] acc = Inr acc"
| "budget_loop e bins floor_bytes ratio epoch_start frontier (i # is) acc =
     and_then (budget_step e bins floor_bytes ratio epoch_start frontier i acc)
       (budget_loop e bins floor_bytes ratio epoch_start frontier is)"

fun running_sums :: "real \<Rightarrow> real list \<Rightarrow> real list" where
  "running_sums sofar [] = []"
| "running_sums sofar (x # xs) = (sofar + x) # running_sums (sofar + x) xs"

definition list_mean :: "real list \<Rightarrow> real" where
  "list_mean xs = sum_list xs / real (length xs)"

definition pstdev :: "real list \<Rightarrow> real" where
  "pstdev xs = sqrt (list_mean (map (\<lambda>x. (x - list_mean xs) ^ 2) xs))"

record full_budget =
  fb_prepared :: real
  fb_cumulative :: "real list"
  fb_deadlines :: "real list"
  fb_reserve :: real
  fb_estimated_fraction :: real
  fb_segment_cv :: real
  fb_reference_rate :: real

text \<open>The reserve in seconds, from the spread of the budget and the share that is estimated.\<close>

definition reserve_seconds :: "real \<Rightarrow> real \<Rightarrow> real" where
  "reserve_seconds cv fraction =
     ROUTE2_FULL_RESERVE_BASE_SECONDS
     + min ROUTE2_FULL_RESERVE_MAX_VOLATILITY_SECONDS (max 0 (8 * cv))
     + min ROUTE2_FULL_RESERVE_MAX_UNCERTAINTY_SECONDS (max 0 (10 * fraction))"

definition horizon_budget :: "mobile_session \<Rightarrow> playback_epoch \<Rightarrow> real list \<Rightarrow> real list" where
  "horizon_budget s e segments =
     take (nat (max 1 (min (int (length segments))
       \<lceil>min ROUTE2_FULL_VOLATILITY_HORIZON_SECONDS (max (ms_duration s - ep_attach e) 0) / SEGMENT_DURATION_SECONDS\<rceil>)))
       segments"

definition budget_cv :: "real list \<Rightarrow> real" where
  "budget_cv budget =
     (let mean = (if budget = [] then 0 else list_mean budget) in
      if budget \<noteq> [] \<and> mean > 0 then pstdev budget / mean else 0)"

definition budget_reference_rate :: "real \<Rightarrow> real list \<Rightarrow> real" where
  "budget_reference_rate floor_rate budget =
     (let rates = map (\<lambda>b. b / SEGMENT_DURATION_SECONDS) (filter (\<lambda>b. b > 0) budget)
      in max floor_rate (if rates = [] then 0 else positive_median rates))"

definition finish_budget :: "mobile_session \<Rightarrow> playback_epoch \<Rightarrow> real \<Rightarrow> budget_acc \<Rightarrow> full_budget option" where
  "finish_budget s e floor_rate acc =
     (let segments = ba_segments acc in
      if segments = [] then None
      else
        let budget = horizon_budget s e segments;
            cv = budget_cv budget;
            fraction = (if ba_remaining acc > 0 then ba_estimated acc / ba_remaining acc else 0);
            reference = budget_reference_rate floor_rate budget
        in Some \<lparr>fb_prepared = ba_prepared acc, fb_cumulative = running_sums 0 segments,
             fb_deadlines = map (\<lambda>i. real i * SEGMENT_DURATION_SECONDS) [1..<length segments + 1],
             fb_reserve = reserve_seconds cv fraction * reference,
             fb_estimated_fraction = fraction, fb_segment_cv = cv, fb_reference_rate = reference\<rparr>)"

definition budget_start_segment :: "mobile_session \<Rightarrow> playback_epoch \<Rightarrow> int" where
  "budget_start_segment s e =
     (let start = segment_index_for_time (ep_attach e); segs = total_source_segments s
      in if start \<ge> segs then segs - 1 else start)"

definition budget_frontier :: "playback_epoch \<Rightarrow> int" where
  "budget_frontier e =
     (let epoch_start = segment_index_for_time (ep_start e) in
      case ep_contiguous_through e of
        Some through \<Rightarrow> if ep_init_published e then epoch_start + through else epoch_start - 1
      | None \<Rightarrow> epoch_start - 1)"

definition full_budget_metrics :: "mobile_session \<Rightarrow> playback_epoch \<Rightarrow> py_error + full_budget option" where
  "full_budget_metrics s e =
     (let bins = bs_source_bins (ms_browser s) in
      if bins = [] then Inr None
      else and_then (profile_floor_segment_bytes (ms_profile s)) (\<lambda>floor_bytes.
        and_then (profile_floor_bytes_per_second (ms_profile s)) (\<lambda>floor_rate.
        and_then (full_safe_calibration_ratio s e bins) (\<lambda>ratio.
        and_then (budget_loop e bins floor_bytes ratio (segment_index_for_time (ep_start e)) (budget_frontier e)
                    [budget_start_segment s e .. total_source_segments s - 1]
                    \<lparr>ba_segments = [], ba_estimated = 0, ba_remaining = 0, ba_prepared = 0\<rparr>)
          (\<lambda>acc. Inr (finish_budget s e floor_rate acc))))))"

subsection \<open>The budget is total and accounts for every segment\<close>

text \<open>What publishing guarantees about an epoch: sizes are not negative, and there is a contiguous run
  only when the init segment is published.\<close>

definition published_wf :: "playback_epoch \<Rightarrow> bool" where
  "published_wf e =
     ((\<forall>(i, n) \<in> set (ep_segment_bytes e). 0 \<le> n)
      \<and> (ep_contiguous_through e \<noteq> None \<longrightarrow> ep_init_published e))"

lemma actual_segment_bytes_nonneg: "published_wf e \<Longrightarrow> actual_segment_bytes e i = Some n \<Longrightarrow> 0 \<le> n"
  by (auto simp: actual_segment_bytes_def published_wf_def split: option.splits if_splits dest!: dict_get_SomeD)

lemma budget_step_ok:
  assumes "absolute < int (length bins)"
  shows "\<exists>acc'. budget_step e bins fb ratio es fr absolute acc = Inr acc'"
  using assms by (auto simp: budget_step_def Let_def split: option.splits)

lemma budget_loop_ok:
  assumes "\<forall>i \<in> set is. i < int (length bins)"
  shows "\<exists>acc'. budget_loop e bins fb ratio es fr is acc = Inr acc'"
  using assms
proof (induction "is" arbitrary: acc)
  case (Cons i js)
  then obtain a where "budget_step e bins fb ratio es fr i acc = Inr a"
    using budget_step_ok[of i bins e fb ratio es fr acc] by auto
  with Cons show ?case by simp
qed simp

text \<open>What one step adds: a cost, counted as estimated or not, as prepared or not.\<close>

lemma budget_step_adds:
  assumes "budget_step e bins fb ratio es fr i acc = Inr a" and "published_wf e" and "1 \<le> fb"
  obtains cost est prep where
    "ba_segments a = ba_segments acc @ [cost]" "ba_remaining a = ba_remaining acc + cost"
    "ba_estimated a = ba_estimated acc + est" "ba_prepared a = ba_prepared acc + prep"
    "0 \<le> est" "0 \<le> prep" "est + prep \<le> cost"
    "actual_segment_bytes e (i - es) = None \<Longrightarrow> 1 \<le> est"
proof (cases "actual_segment_bytes e (i - es)")
  case None
  define c where "c = real_of_int (max fb \<lceil>of_int (max (bins ! nat i) 1) * ratio\<rceil>)"
  have "a = acc\<lparr>ba_segments := ba_segments acc @ [c], ba_estimated := ba_estimated acc + c,
                ba_remaining := ba_remaining acc + c\<rparr>"
    using assms(1) None by (auto simp: budget_step_def Let_def c_def split: if_splits)
  moreover have "1 \<le> c" using assms(3) unfolding c_def by linarith
  ultimately show thesis by (intro that[of c c 0]) auto
next
  case (Some n)
  have "0 \<le> n" using actual_segment_bytes_nonneg[OF assms(2) Some] .
  with assms(1) Some show thesis
    by (intro that[of "real_of_int n" 0 "if i \<le> fr then real_of_int n else 0"]) (auto simp: budget_step_def Let_def)
qed

lemma budget_loop_adds:
  assumes "budget_loop e bins fb ratio es fr is acc = Inr a" and "published_wf e" and "1 \<le> fb"
    and "ba_remaining acc = sum_list (ba_segments acc)"
  shows "ba_remaining a = sum_list (ba_segments a) \<and> length (ba_segments a) = length (ba_segments acc) + length is
     \<and> ba_estimated acc \<le> ba_estimated a \<and> ba_prepared acc \<le> ba_prepared a
     \<and> (ba_prepared a - ba_prepared acc) + (ba_estimated a - ba_estimated acc) \<le> ba_remaining a - ba_remaining acc
     \<and> ((\<exists>i \<in> set is. actual_segment_bytes e (i - es) = None) \<longrightarrow> ba_estimated acc + 1 \<le> ba_estimated a)"
  using assms(1,4)
proof (induction "is" arbitrary: acc)
  case (Cons i js)
  obtain b where b: "budget_step e bins fb ratio es fr i acc = Inr b"
    and rest: "budget_loop e bins fb ratio es fr js b = Inr a"
    using Cons.prems(1) by (auto simp: and_then_Inr_iff)
  obtain cost est prep where st:
    "ba_segments b = ba_segments acc @ [cost]" "ba_remaining b = ba_remaining acc + cost"
    "ba_estimated b = ba_estimated acc + est" "ba_prepared b = ba_prepared acc + prep"
    "0 \<le> est" "0 \<le> prep" "est + prep \<le> cost"
    "actual_segment_bytes e (i - es) = None \<Longrightarrow> 1 \<le> est"
    using budget_step_adds[OF b assms(2,3)] by blast
  have "ba_remaining b = sum_list (ba_segments b)" using st Cons.prems(2) by simp
  from Cons.IH[OF rest this] st show ?case by auto
qed simp

lemma length_running_sums [simp]: "length (running_sums t xs) = length xs"
  by (induction xs arbitrary: t) auto

lemma nth_running_sums: "i < length xs \<Longrightarrow> running_sums t xs ! i = t + sum_list (take (Suc i) xs)"
proof (induction xs arbitrary: t i)
  case (Cons x xs)
  then show ?case by (cases i) auto
qed simp

lemma last_running_sums: "xs \<noteq> [] \<Longrightarrow> last (running_sums t xs) = t + sum_list xs"
proof -
  assume xs: "xs \<noteq> []"
  then have "running_sums t xs \<noteq> []" by (cases xs) auto
  then have "last (running_sums t xs) = running_sums t xs ! (length xs - 1)" by (simp add: last_conv_nth)
  then show ?thesis using xs nth_running_sums[of "length xs - 1" xs t] by simp
qed

lemma budget_start_range: "0 \<le> budget_start_segment s e \<and> budget_start_segment s e < total_source_segments s"
  using total_source_segments_pos[of s] by (auto simp: budget_start_segment_def Let_def)

definition known_profile :: "mobile_session \<Rightarrow> bool" where
  "known_profile s = (ms_profile s \<in> {''mobile_1080p'', ''mobile_2160p''})"

lemma known_profile_floors:
  assumes "known_profile s"
  shows "\<exists>r n. profile_floor_bytes_per_second (ms_profile s) = Inr r
     \<and> profile_floor_segment_bytes (ms_profile s) = Inr n \<and> 1 \<le> n \<and> 1 \<le> r"
  using assms by (auto simp: known_profile_def profile_floors profile_floor_segment_bytes_def)

text \<open>The pieces a computed budget is made of.\<close>

lemma full_budget_metrics_cases:
  assumes "full_budget_metrics s e = Inr (Some b)"
  obtains fb fr ratio acc where
    "1 \<le> fb" "profile_floor_bytes_per_second (ms_profile s) = Inr fr"
    "budget_loop e (bs_source_bins (ms_browser s)) fb ratio (segment_index_for_time (ep_start e)) (budget_frontier e)
       [budget_start_segment s e .. total_source_segments s - 1]
       \<lparr>ba_segments = [], ba_estimated = 0, ba_remaining = 0, ba_prepared = 0\<rparr> = Inr acc"
    "finish_budget s e fr acc = Some b"
proof -
  from assms obtain fb fr ratio acc where
    "profile_floor_segment_bytes (ms_profile s) = Inr fb"
    "profile_floor_bytes_per_second (ms_profile s) = Inr fr"
    "budget_loop e (bs_source_bins (ms_browser s)) fb ratio (segment_index_for_time (ep_start e)) (budget_frontier e)
       [budget_start_segment s e .. total_source_segments s - 1]
       \<lparr>ba_segments = [], ba_estimated = 0, ba_remaining = 0, ba_prepared = 0\<rparr> = Inr acc"
    "finish_budget s e fr acc = Some b"
    by (auto simp: full_budget_metrics_def Let_def and_then_Inr_iff split: if_splits)
  with floor_segment_bytes_pos that show thesis by blast
qed

lemma reserve_seconds_bounds: "20 \<le> reserve_seconds cv x \<and> reserve_seconds cv x \<le> 42"
  by (simp add: reserve_seconds_def route2_consts)

lemma finish_budget_fields:
  assumes "finish_budget s e fr acc = Some b"
  shows "fb_prepared b = ba_prepared acc" "fb_cumulative b = running_sums 0 (ba_segments acc)"
    "fb_deadlines b = map (\<lambda>i. real i * 2) [1..<length (ba_segments acc) + 1]" "ba_segments acc \<noteq> []"
    "fr \<le> fb_reference_rate b"
    "fb_reserve b = reserve_seconds (fb_segment_cv b) (fb_estimated_fraction b) * fb_reference_rate b"
proof -
  show ne: "ba_segments acc \<noteq> []" using assms by (auto simp: finish_budget_def)
  show "fb_prepared b = ba_prepared acc" "fb_cumulative b = running_sums 0 (ba_segments acc)"
    "fb_deadlines b = map (\<lambda>i. real i * 2) [1..<length (ba_segments acc) + 1]"
    "fb_reserve b = reserve_seconds (fb_segment_cv b) (fb_estimated_fraction b) * fb_reference_rate b"
    "fr \<le> fb_reference_rate b"
    using assms ne
    by (auto simp: finish_budget_def Let_def SEGMENT_DURATION_SECONDS_def budget_reference_rate_def)
qed

lemma full_budget_total_facts:
  assumes "preflight_wf s" and "bs_source_bins (ms_browser s) \<noteq> []" and "known_profile s"
  shows "\<exists>b. full_budget_metrics s e = Inr (Some b)
     \<and> int (length (fb_cumulative b)) = total_source_segments s - budget_start_segment s e
     \<and> length (fb_deadlines b) = length (fb_cumulative b)"
proof -
  let ?is = "[budget_start_segment s e .. total_source_segments s - 1]"
  let ?zero = "\<lparr>ba_segments = [], ba_estimated = 0, ba_remaining = 0, ba_prepared = 0\<rparr>"
  have len: "int (length (bs_source_bins (ms_browser s))) = total_source_segments s"
    using assms(1,2) by (simp add: preflight_wf_def Let_def)
  obtain r n where fl: "profile_floor_bytes_per_second (ms_profile s) = Inr r"
    "profile_floor_segment_bytes (ms_profile s) = Inr n"
    using known_profile_floors[OF assms(3)] by blast
  obtain ratio where ratio: "full_safe_calibration_ratio s e (bs_source_bins (ms_browser s)) = Inr ratio"
    using fl(1) unfolding full_safe_calibration_ratio_def Let_def
    by (cases "observed_ratios (segment_index_for_time (ep_start e)) (bs_source_bins (ms_browser s)) (ep_segment_bytes e) = []") auto
  obtain acc where loop: "budget_loop e (bs_source_bins (ms_browser s)) n ratio
      (segment_index_for_time (ep_start e)) (budget_frontier e) ?is ?zero = Inr acc"
    using budget_loop_ok[of ?is "bs_source_bins (ms_browser s)" e n ratio "segment_index_for_time (ep_start e)"
        "budget_frontier e" ?zero] len by auto
  have lens: "length (ba_segments acc) = length ?is"
  proof -
    have "budget_loop e bins n ratio es fr is a = Inr a' \<Longrightarrow> length (ba_segments a') = length (ba_segments a) + length is"
      for bins es fr "is" a a'
      by (induction "is" arbitrary: a) (fastforce simp: and_then_Inr_iff budget_step_def Let_def split: option.splits if_splits)+
    from this[OF loop] show ?thesis by simp
  qed
  then have ne: "ba_segments acc \<noteq> []" using budget_start_range[of s e] by auto
  obtain b where b: "finish_budget s e r acc = Some b" using ne by (simp add: finish_budget_def Let_def)
  have "full_budget_metrics s e = Inr (Some b)"
    using assms(2) fl ratio loop b by (simp add: full_budget_metrics_def)
  moreover have "int (length (fb_cumulative b)) = total_source_segments s - budget_start_segment s e"
    using finish_budget_fields(2)[OF b] lens budget_start_range[of s e] by simp
  moreover have "length (fb_deadlines b) = length (fb_cumulative b)"
    using finish_budget_fields(2,3)[OF b] by (simp del: upt_Suc)
  ultimately show ?thesis by blast
qed

text \<open>The budget of a prepared full-mode session is total. When the source bins are those a preflight
  leaves behind and the profile is one of the two known ones, computing the budget raises no error
  and yields one cumulative figure and one deadline for every segment from the attach position to
  the end of the media.\<close>

theorem full_budget_total:
  assumes "preflight_wf s" and "bs_source_bins (ms_browser s) \<noteq> []" and "known_profile s"
  shows "\<exists>b. full_budget_metrics s e = Inr (Some b)
     \<and> int (length (fb_cumulative b)) = total_source_segments s - budget_start_segment s e
     \<and> length (fb_deadlines b) = length (fb_cumulative b)"
  using full_budget_total_facts[OF assms] .

theorem full_budget_total_witness:
  "\<exists>b. full_budget_metrics (starving_session\<lparr>ms_browser :=
         (ms_browser starving_session)\<lparr>bs_source_bins := replicate 50 1000\<rparr>\<rparr>) ready_epoch = Inr (Some b)
     \<and> int (length (fb_cumulative b)) = 50 \<and> length (fb_deadlines b) = length (fb_cumulative b)"
proof -
  let ?s = "starving_session\<lparr>ms_browser := (ms_browser starving_session)\<lparr>bs_source_bins := replicate 50 1000\<rparr>\<rparr>"
  have segs: "total_source_segments ?s = 50" "budget_start_segment ?s ready_epoch = 0"
    by (simp_all add: budget_start_segment_def total_source_segments_def starving_session_def ready_epoch_def
        new_record_defs segment_index_for_time_def route2_consts)
  have "preflight_wf ?s" "known_profile ?s"
    using segs(1) by (simp_all add: preflight_wf_def known_profile_def starving_session_def new_record_defs)
  then show ?thesis using full_budget_total[of ?s ready_epoch] segs by simp
qed

section \<open>Prepare time and bootstrap estimate\<close>

definition full_prepare_elapsed :: "mobile_session \<Rightarrow> real option \<Rightarrow> real \<Rightarrow> real" where
  "full_prepare_elapsed s now_arg clock =
     (let started = bs_prepare_started (ms_browser s) in
      if started \<le> 0 then 0 else max 0 (or_real now_arg clock - started))"

definition full_bootstrap_eta :: "mobile_session \<Rightarrow> playback_epoch \<Rightarrow> real option \<Rightarrow> real \<Rightarrow> real option" where
  "full_bootstrap_eta s e now_arg clock =
     (let now = or_real now_arg clock;
          elapsed = full_prepare_elapsed s (Some now) clock in
      if elapsed < ROUTE2_FULL_BOOTSTRAP_ESTIMATE_DELAY_SECONDS then None
      else
        let prepared = max 0 (epoch_ready_end s e - ep_attach e) in
        if prepared \<le> 1 / 1000 then None
        else
          let overall = prepared / max elapsed (1 / 1000);
              model = supply_model_of e;
              candidates = [overall, sm_overall model, sm_slow_ema model, sm_median model]
          in if positive_rates candidates = [] then None
             else if least_candidate candidates \<le> 1 / 1000 then None
             else let remaining = max 0 (ms_duration s - ep_attach e - prepared) in
                  if remaining \<le> 1 / 1000 then Some 0
                  else Some (remaining / least_candidate candidates))"

lemma bootstrap_eta_nonneg: "full_bootstrap_eta s e now_arg clock = Some t \<Longrightarrow> 0 \<le> t"
  by (auto simp: full_bootstrap_eta_def Let_def split: if_splits intro!: divide_nonneg_nonneg)

section \<open>The displayed estimate\<close>

definition next_display_eta :: "real \<Rightarrow> real \<Rightarrow> real \<Rightarrow> real" where
  "next_display_eta shown elapsed raw =
     (let predicted = max 0 (shown - elapsed) in
      if raw \<le> predicted then raw
      else let step = max ROUTE2_ETA_DISPLAY_MAX_UPWARD_STEP_SECONDS (shown * ROUTE2_ETA_DISPLAY_MAX_UPWARD_RATIO);
               cap = predicted + step;
               blended = predicted + (raw - predicted) * ROUTE2_ETA_DISPLAY_UPWARD_BLEND
           in min raw (max predicted (min cap blended)))"

definition display_prepare_eta ::
  "real option \<Rightarrow> real option \<Rightarrow> real \<Rightarrow> bool \<Rightarrow> playback_epoch \<Rightarrow> real option \<times> playback_epoch" where
  "display_prepare_eta raw now_arg clock confident e =
     (let now = or_real now_arg clock;
          previous = ep_display_eta e; updated = ep_display_eta_updated e in
      case raw of
        None \<Rightarrow>
          (case previous of
             Some p \<Rightarrow>
               if ep_display_eta_stable e \<and> updated > 0 \<and> now - updated \<le> ROUTE2_ETA_DISPLAY_GRACE_SECONDS
               then let continued = max 0 (p - (now - updated)) in
                    (Some continued, e\<lparr>ep_display_eta := Some continued, ep_display_eta_updated := now\<rparr>)
               else (None, e\<lparr>ep_display_eta := None, ep_display_eta_updated := now, ep_display_eta_stable := False\<rparr>)
           | None \<Rightarrow> (None, e\<lparr>ep_display_eta := None, ep_display_eta_updated := now, ep_display_eta_stable := False\<rparr>))
      | Some r \<Rightarrow>
          if \<not> ep_display_eta_stable e then
            if \<not> confident then (None, e\<lparr>ep_display_eta := None, ep_display_eta_updated := now\<rparr>)
            else (Some (max 0 r), e\<lparr>ep_display_eta := Some (max 0 r), ep_display_eta_updated := now,
                                    ep_display_eta_stable := True\<rparr>)
          else (case previous of
             None \<Rightarrow> (Some (max 0 r), e\<lparr>ep_display_eta := Some (max 0 r), ep_display_eta_updated := now,
                                       ep_display_eta_stable := True\<rparr>)
           | Some p \<Rightarrow>
               if updated \<le> 0 then
                 (Some (max 0 r), e\<lparr>ep_display_eta := Some (max 0 r), ep_display_eta_updated := now,
                                    ep_display_eta_stable := True\<rparr>)
               else
                 let next_eta = next_display_eta p (max 0 (now - updated)) r
                 in (Some (max 0 next_eta), e\<lparr>ep_display_eta := Some (max 0 next_eta),
                       ep_display_eta_updated := now, ep_display_eta_stable := True\<rparr>)))"

lemma next_display_eta_rise:
  assumes "0 \<le> shown" and "0 \<le> elapsed"
  shows "next_display_eta shown elapsed r \<le> shown + max 3 (shown * 18 / 100)"
proof -
  define p where "p = max 0 (shown - elapsed)"
  define c where "c = max ROUTE2_ETA_DISPLAY_MAX_UPWARD_STEP_SECONDS (shown * ROUTE2_ETA_DISPLAY_MAX_UPWARD_RATIO)"
  have c: "c = max 3 (shown * 18 / 100)" by (simp add: c_def route2_consts)
  have "p \<le> shown" using assms by (simp add: p_def)
  moreover have "0 \<le> c" by (simp add: c)
  moreover have "next_display_eta shown elapsed r \<le> p + c"
  proof (cases "r \<le> p")
    case True
    then have "next_display_eta shown elapsed r = r" by (simp add: next_display_eta_def p_def Let_def)
    with True \<open>0 \<le> c\<close> show ?thesis by linarith
  next
    case False
    then have "next_display_eta shown elapsed r
        = min r (max p (min (p + c) (p + (r - p) * ROUTE2_ETA_DISPLAY_UPWARD_BLEND)))"
      unfolding next_display_eta_def Let_def p_def[symmetric] c_def[symmetric] by (simp only: if_False)
    also have "\<dots> \<le> p + c"
      by (rule min.coboundedI2, rule max.boundedI) (use \<open>0 \<le> c\<close> in \<open>simp_all add: min.coboundedI1\<close>)
    finally show ?thesis .
  qed
  ultimately show ?thesis using c by linarith
qed

text \<open>The displayed waiting time never jumps. Once an estimate is on display, the next one shown is not
  negative, and it exceeds what was shown before by at most three seconds or eighteen percent of it,
  whatever the raw estimate is; a raw estimate below the expected countdown is shown as it is.\<close>

theorem display_eta_bounded_rise:
  assumes "ep_display_eta_stable e" and "ep_display_eta e = Some shown" and "0 \<le> shown"
    and "0 < ep_display_eta_updated e"
    and "display_prepare_eta raw (Some now) clock confident e = (Some eta, e')" and "now \<noteq> 0"
    and "ep_display_eta_updated e \<le> now"
  shows "0 \<le> eta \<and> eta \<le> shown + max 3 (shown * 18 / 100)
       \<and> (\<forall>r. raw = Some r \<and> 0 \<le> r \<and> r \<le> shown - (now - ep_display_eta_updated e) \<longrightarrow> eta = r)
       \<and> ep_display_eta e' = Some eta"
proof (cases raw)
  case None
  with assms show ?thesis
    by (auto simp: display_prepare_eta_def Let_def split: if_splits)
next
  case (Some r)
  let ?next = "next_display_eta shown (max 0 (now - ep_display_eta_updated e)) r"
  have eta: "eta = max 0 ?next" "ep_display_eta e' = Some eta"
    using assms Some by (auto simp: display_prepare_eta_def Let_def)
  have "?next \<le> shown + max 3 (shown * 18 / 100)"
    using next_display_eta_rise[OF assms(3), of "max 0 (now - ep_display_eta_updated e)" r] by simp
  then have "0 \<le> eta \<and> eta \<le> shown + max 3 (shown * 18 / 100)" using assms(3) eta(1) by auto
  moreover have "eta = r" if "0 \<le> r" "r \<le> shown - (now - ep_display_eta_updated e)"
    using that assms(7) eta(1) by (simp add: next_display_eta_def)
  ultimately show ?thesis using Some eta(2) by simp
qed

theorem display_eta_bounded_rise_witness:
  "\<exists>eta e'. display_prepare_eta (Some 500) (Some 11) 0 False
       ((new_epoch ''e'' ''s'' '''' 0 0 0 None 0)\<lparr>ep_display_eta := Some 20, ep_display_eta_updated := 10,
          ep_display_eta_stable := True\<rparr>) = (Some eta, e') \<and> eta \<le> 20 + max 3 (20 * 18 / 100)"
proof -
  let ?e = "(new_epoch ''e'' ''s'' '''' 0 0 0 None 0)\<lparr>ep_display_eta := Some 20, ep_display_eta_updated := 10,
          ep_display_eta_stable := True\<rparr>"
  have "\<exists>eta e'. display_prepare_eta (Some 500) (Some 11) 0 False ?e = (Some eta, e')"
    by (simp add: display_prepare_eta_def Let_def new_epoch_def)
  then obtain eta e' where r: "display_prepare_eta (Some 500) (Some 11) 0 False ?e = (Some eta, e')" by blast
  then show ?thesis using display_eta_bounded_rise[OF _ _ _ _ r, of 20] by (simp add: new_epoch_def)
qed

section \<open>The gate of full mode\<close>

record full_gate =
  fg_state :: string
  fg_ready :: bool
  fg_estimate :: "real option"
  fg_source :: string
  fg_required :: "real option"
  fg_actual :: "real option"
  fg_ratio :: "real option"
  fg_rate :: real
  fg_observation :: real
  fg_reason :: string

text \<open>The supply figures computed before the preflight is looked at, lines 144 to 168.\<close>

record full_supply =
  fs_actual :: real
  fs_required :: real
  fs_rate :: real
  fs_observation :: real
  fs_surplus :: bool
  fs_playable :: bool
  fs_wait :: "real option"

definition full_supply_of :: "mobile_session \<Rightarrow> playback_epoch \<Rightarrow> full_supply" where
  "full_supply_of s e =
     (let actual = max 0 (epoch_ready_end s e - ep_attach e);
          required = min ROUTE2_FULL_FAST_START_RUNWAY_SECONDS (max 0 (ms_duration s - ep_attach e));
          model = supply_model_of e; rate = sm_effective model; observation = sm_observation model;
          surplus = (observation + 1 / 1000 \<ge> ROUTE2_SUPPLY_SURPLUS_MIN_OBSERVATION_SECONDS
                     \<and> rate + 1 / 1000 \<ge> ROUTE2_SUPPLY_SURPLUS_MIN_RATE_X)
      in \<lparr>fs_actual = actual, fs_required = required, fs_rate = rate, fs_observation = observation,
          fs_surplus = surplus,
          fs_playable = (ep_init_published e \<and> ep_contiguous_through e \<noteq> None),
          fs_wait = (if \<not> surplus \<or> actual + 1 / 1000 \<ge> required then (if surplus then Some 0 else None)
                     else if rate > 1 / 1000 then Some (quantized_deficit (required - actual) / rate)
                     else None)\<rparr>)"

definition full_result ::
  "full_supply \<Rightarrow> real option \<Rightarrow> string \<Rightarrow> bool \<Rightarrow> real option \<Rightarrow> string \<Rightarrow> string \<Rightarrow> full_gate" where
  "full_result fs ratio state ready estimate source reason =
     \<lparr>fg_state = state, fg_ready = ready, fg_estimate = estimate, fg_source = source,
      fg_required = Some (fs_required fs), fg_actual = Some (fs_actual fs), fg_ratio = ratio,
      fg_rate = fs_rate fs, fg_observation = fs_observation fs, fg_reason = reason\<rparr>"

definition bare_ready :: "string \<Rightarrow> full_gate" where
  "bare_ready reason =
     \<lparr>fg_state = ''ready'', fg_ready = True, fg_estimate = None, fg_source = ''none'', fg_required = None,
      fg_actual = None, fg_ratio = None, fg_rate = 0, fg_observation = 0, fg_reason = reason\<rparr>"

definition bootstrap_result :: "full_supply \<Rightarrow> real option \<Rightarrow> real option \<Rightarrow> string \<Rightarrow> full_gate" where
  "bootstrap_result fs ratio eta reason =
     full_result fs ratio (if eta = None then ''estimating'' else ''preparing'') False eta
       (if eta \<noteq> None then ''bootstrap'' else ''none'') reason"

definition waiting_for_runway :: "full_supply \<Rightarrow> real option \<Rightarrow> full_gate" where
  "waiting_for_runway fs ratio =
     full_result fs ratio ''preparing'' False (fs_wait fs) ''fast_start_supply_surplus''
       ''full_fast_start_waiting_for_runway''"

definition fast_start_ready :: "full_supply \<Rightarrow> real option \<Rightarrow> full_gate" where
  "fast_start_ready fs ratio =
     full_result fs ratio ''ready'' True (Some 0) ''fast_start_supply_surplus'' ''full_fast_start_supply_surplus''"

text \<open>Without a budget: lines 169 to 205 and again 207 to 243, with the reason of the branch.\<close>

definition full_gate_without_budget ::
  "mobile_session \<Rightarrow> playback_epoch \<Rightarrow> real \<Rightarrow> full_supply \<Rightarrow> string \<Rightarrow> full_gate" where
  "full_gate_without_budget s e now fs reason =
     (if fs_surplus fs \<and> fs_playable fs \<and> fs_actual fs + 1 / 1000 \<ge> fs_required fs
      then fast_start_ready fs None
      else if fs_surplus fs \<and> fs_wait fs \<noteq> None then waiting_for_runway fs None
      else bootstrap_result fs None (full_bootstrap_eta s e (Some now) now) reason)"

definition budget_deficit :: "full_budget \<Rightarrow> real \<Rightarrow> real" where
  "budget_deficit b goodput_rate =
     foldl (\<lambda>deficit (required, deadline).
         max deficit (required + fb_reserve b - (fb_prepared b + goodput_rate * deadline)))
       0 (zip (fb_cumulative b) (fb_deadlines b))"

text \<open>The waits once the server is measured and nothing is ready: lines 311 to 438.\<close>

definition full_gate_waiting ::
  "mobile_session \<Rightarrow> full_supply \<Rightarrow> real option \<Rightarrow> real option \<Rightarrow> real \<Rightarrow> goodput \<Rightarrow> goodput \<Rightarrow> real \<Rightarrow> real \<Rightarrow> full_gate" where
  "full_gate_waiting s fs ratio eta elapsed server client safe_rate deficit =
     (let client_confident = (gp_confident client \<and> gp_safe_rate client > 0);
          server_confident = (gp_confident server \<and> gp_safe_rate server > 0);
          client_deficit = max 0 (ROUTE2_FULL_GOODPUT_MIN_OBSERVATION_SECONDS - gp_observation client);
          finish = (\<lambda>wait. if elapsed < ROUTE2_FULL_BOOTSTRAP_ESTIMATE_DELAY_SECONDS
             then full_result fs ratio ''estimating'' False None ''none'' ''full_budget_waiting_for_stable_eta''
             else full_result fs ratio ''preparing'' False (Some wait) ''true'' ''full_budget_waiting'')
      in if \<not> server_confident then
           (if fs_wait fs \<noteq> None then waiting_for_runway fs ratio
            else bootstrap_result fs ratio eta ''full_bootstrap_server_unknown'')
         else if safe_rate \<le> 0 then
           (if fs_wait fs \<noteq> None then waiting_for_runway fs ratio
            else bootstrap_result fs ratio eta ''full_bootstrap_effective_goodput_unknown'')
         else if \<not> client_confident then
           (if fs_wait fs \<noteq> None then waiting_for_runway fs ratio
            else if eta \<noteq> None
            then full_result fs ratio ''preparing'' False eta ''bootstrap'' ''full_budget_waiting_for_client_probe''
            else if deficit \<le> 1 / 1000
            then full_result fs ratio (if client_deficit > 0 then ''estimating'' else ''preparing'') False None
                   ''none'' ''full_budget_waiting_for_client_probe''
            else finish (max (deficit / gp_safe_rate server) client_deficit))
         else finish (if deficit > 1 / 1000 then deficit / safe_rate else 0))"

text \<open>The three ways to be ready, in order, lines 265 to 310; otherwise the waiting branches.\<close>

definition full_gate_decide ::
  "full_supply \<Rightarrow> real option \<Rightarrow> full_budget \<Rightarrow> bool \<Rightarrow> real \<Rightarrow> full_gate \<Rightarrow> full_gate" where
  "full_gate_decide fs ratio b client_confident deficit waiting =
     (if fb_cumulative b \<noteq> [] \<and> fb_prepared b + 1 / 1000 \<ge> last (fb_cumulative b)
      then full_result fs ratio ''ready'' True (Some 0) ''true'' ''full_budget_complete''
      else if client_confident \<and> deficit \<le> 1 / 1000
      then full_result fs ratio ''ready'' True (Some 0) ''true'' ''full_budget_projected_ready''
      else if fs_surplus fs \<and> fs_actual fs + 1 / 1000 \<ge> fs_required fs
      then fast_start_ready fs ratio
      else waiting)"

definition full_gate_with_budget ::
  "mobile_session \<Rightarrow> playback_epoch \<Rightarrow> real \<Rightarrow> real \<Rightarrow> full_supply \<Rightarrow> full_budget \<Rightarrow> full_gate" where
  "full_gate_with_budget s e now elapsed fs b =
     (let server = server_byte_goodput e; client = client_goodput (ms_browser s);
          server_safe = gp_safe_rate server; client_safe = gp_safe_rate client;
          client_confident = (gp_confident client \<and> client_safe > 0);
          eta = full_bootstrap_eta s e (Some now) now;
          safe_rate = min server_safe (if client_safe > 0 then client_safe else server_safe);
          reference = max 1 (fb_reference_rate b);
          ratio = (if safe_rate > 0 then Some (safe_rate / reference) else None);
          deficit = budget_deficit b safe_rate
      in full_gate_decide fs ratio b client_confident deficit
           (full_gate_waiting s fs ratio eta elapsed server client safe_rate deficit))"

definition full_mode_gate ::
  "int list option \<Rightarrow> real \<Rightarrow> mobile_session \<Rightarrow> playback_epoch \<Rightarrow> (py_error + full_gate) \<times> mobile_session" where
  "full_mode_gate cached clock s0 e =
     (if bs_playback_mode (ms_browser s0) \<noteq> ''full'' then (Inr (bare_ready ''not_full_mode''), s0)
      else if \<not> full_mode_requires_initial_attach_gate s0 then (Inr (bare_ready ''full_gate_not_required''), s0)
      else
        let elapsed = full_prepare_elapsed s0 (Some clock) clock;
            s = fst (ensure_full_preflight cached clock s0);
            fs = full_supply_of s e
        in (if bs_preflight_state (ms_browser s) \<noteq> ''ready'' \<or> bs_source_bins (ms_browser s) = []
            then Inr (full_gate_without_budget s e clock fs ''full_preflight_bootstrap'')
            else and_then (full_budget_metrics s e) (\<lambda>budget.
              case budget of
                None \<Rightarrow> Inr (full_gate_without_budget s e clock fs ''full_budget_unavailable_bootstrap'')
              | Some b \<Rightarrow> Inr (full_gate_with_budget s e clock elapsed fs b)), s))"

section \<open>What an open gate means\<close>

lemma foldl_max_le_iff:
  "foldl (\<lambda>d (r, t). max d (f r t)) (d0 :: real) xs \<le> c \<longleftrightarrow> d0 \<le> c \<and> (\<forall>(r, t) \<in> set xs. f r t \<le> c)"
  by (induction xs arbitrary: d0) auto

lemma budget_deficit_le_iff:
  assumes "0 \<le> c"
  shows "budget_deficit b rate \<le> c \<longleftrightarrow>
    (\<forall>(required, deadline) \<in> set (zip (fb_cumulative b) (fb_deadlines b)).
       required + fb_reserve b - c \<le> fb_prepared b + rate * deadline)"
  unfolding budget_deficit_def foldl_max_le_iff using assms by (auto simp: algebra_simps)

lemma budget_deficit_nonneg: "0 \<le> budget_deficit b rate"
  using foldl_max_le_iff[of "\<lambda>r t. r + fb_reserve b - (fb_prepared b + rate * t)" 0
      "zip (fb_cumulative b) (fb_deadlines b)" "budget_deficit b rate"]
  by (simp add: budget_deficit_def)

lemmas full_gate_results = full_result_def bare_ready_def bootstrap_result_def waiting_for_runway_def fast_start_ready_def

lemma full_gate_without_budget_ready:
  "fg_ready (full_gate_without_budget s e now fs reason) \<longleftrightarrow>
     fs_surplus fs \<and> fs_playable fs \<and> fs_required fs \<le> fs_actual fs + 1 / 1000"
  by (simp add: full_gate_without_budget_def full_gate_results)

lemma full_gate_waiting_not_ready [simp]: "\<not> fg_ready (full_gate_waiting s fs ratio eta elapsed sv cl rate deficit)"
  by (simp add: full_gate_waiting_def Let_def full_gate_results)

definition safe_goodput :: "mobile_session \<Rightarrow> playback_epoch \<Rightarrow> real" where
  "safe_goodput s e =
     (let server = gp_safe_rate (server_byte_goodput e); client = gp_safe_rate (client_goodput (ms_browser s))
      in min server (if client > 0 then client else server))"

definition budget_covered :: "full_budget \<Rightarrow> real \<Rightarrow> bool" where
  "budget_covered b rate =
     (\<forall>i < length (fb_cumulative b).
        fb_cumulative b ! i + fb_reserve b \<le> fb_prepared b + rate * (fb_deadlines b ! i) + 1 / 1000)"

lemma budget_covered_iff:
  assumes "length (fb_deadlines b) = length (fb_cumulative b)"
  shows "budget_deficit b rate \<le> 1 / 1000 \<longleftrightarrow> budget_covered b rate"
proof -
  have "budget_deficit b rate \<le> 1 / 1000 \<longleftrightarrow>
      (\<forall>(required, deadline) \<in> set (zip (fb_cumulative b) (fb_deadlines b)).
         required + fb_reserve b - 1 / 1000 \<le> fb_prepared b + rate * deadline)"
    by (rule budget_deficit_le_iff) simp
  also have "\<dots> \<longleftrightarrow> (\<forall>i < length (fb_cumulative b).
      fb_cumulative b ! i + fb_reserve b - 1 / 1000 \<le> fb_prepared b + rate * (fb_deadlines b ! i))"
    using assms by (auto simp: set_zip)
  also have "\<dots> \<longleftrightarrow> budget_covered b rate"
    unfolding budget_covered_def diff_le_eq by (rule refl)
  finally show ?thesis .
qed

lemma full_gate_with_budget_ready:
  assumes "fb_cumulative b \<noteq> []" and "length (fb_deadlines b) = length (fb_cumulative b)"
  shows "fg_ready (full_gate_with_budget s e now elapsed fs b) \<longleftrightarrow>
     last (fb_cumulative b) \<le> fb_prepared b + 1 / 1000
     \<or> (gp_confident (client_goodput (ms_browser s)) \<and> 0 < gp_safe_rate (client_goodput (ms_browser s))
         \<and> budget_covered b (safe_goodput s e))
     \<or> (fs_surplus fs \<and> fs_required fs \<le> fs_actual fs + 1 / 1000)"
  using assms(1) unfolding budget_covered_iff[OF assms(2), symmetric] safe_goodput_def full_gate_with_budget_def Let_def
  by (simp add: full_gate_decide_def full_gate_results)

lemma ensure_preflight_keeps [simp]:
  "ms_profile (fst (ensure_full_preflight cached clock s)) = ms_profile s"
  "ms_duration (fst (ensure_full_preflight cached clock s)) = ms_duration s"
  by (auto simp: ensure_full_preflight_def Let_def split: option.splits)

text \<open>C38: The gate of full mode is exact and never fails. For a session of a known profile whose preflight
  state is well formed, evaluating the gate raises no error and keeps that state well formed, and
  playback may start if and only if: with no byte budget yet, the supply surplus is confirmed and the
  published runway reaches 120 seconds or the end of the media; with a budget, all of it is
  published, or the client is measured with confidence and at the safe goodput every segment
  with the whole reserve is covered by its deadline, or the surplus is confirmed and the runway
  reaches its target.\<close>

theorem full_gate_exact:
  assumes "full_mode_requires_initial_attach_gate s" and "preflight_wf s" and "known_profile s"
  shows "\<exists>g s'. full_mode_gate cached clock s e = (Inr g, s') \<and> preflight_wf s'
     \<and> (fg_ready g \<longleftrightarrow>
          (if bs_source_bins (ms_browser s') = []
           then fs_surplus (full_supply_of s' e) \<and> fs_playable (full_supply_of s' e)
                \<and> fs_required (full_supply_of s' e) \<le> fs_actual (full_supply_of s' e) + 1 / 1000
           else \<exists>b. full_budget_metrics s' e = Inr (Some b)
                \<and> (last (fb_cumulative b) \<le> fb_prepared b + 1 / 1000
                   \<or> (gp_confident (client_goodput (ms_browser s')) \<and> 0 < gp_safe_rate (client_goodput (ms_browser s'))
                       \<and> budget_covered b (safe_goodput s' e))
                   \<or> (fs_surplus (full_supply_of s' e)
                       \<and> fs_required (full_supply_of s' e) \<le> fs_actual (full_supply_of s' e) + 1 / 1000))))"
proof -
  let ?s = "fst (ensure_full_preflight cached clock s)"
  have wf: "preflight_wf ?s" using assms(2) by (rule ensure_preflight_wf)
  have mode: "bs_playback_mode (ms_browser s) = ''full''" "bs_engine_mode (ms_browser s) = ''route2''"
    using assms(1) by (auto simp: full_mode_requires_initial_attach_gate_def)
  have bins_ready: "bs_source_bins (ms_browser ?s) \<noteq> [] \<Longrightarrow> bs_preflight_state (ms_browser ?s) = ''ready''"
    using mode by (auto simp: ensure_full_preflight_def Let_def dest: load_cache_length split: if_splits option.splits)
  show ?thesis
  proof (cases "bs_source_bins (ms_browser ?s) = []")
    case True
    then show ?thesis
      using assms(1) mode wf by (simp add: full_mode_gate_def Let_def full_gate_without_budget_ready)
  next
    case False
    obtain b where b: "full_budget_metrics ?s e = Inr (Some b)"
      "int (length (fb_cumulative b)) = total_source_segments ?s - budget_start_segment ?s e"
      "length (fb_deadlines b) = length (fb_cumulative b)"
      using full_budget_total_facts[OF wf False] assms(3) by (auto simp: known_profile_def)
    have ne: "fb_cumulative b \<noteq> []" using b(2) budget_start_range[of ?s e] by auto
    show ?thesis
      using assms(1) mode wf False bins_ready b(1) full_gate_with_budget_ready[OF ne b(3)]
      by (simp add: full_mode_gate_def Let_def)
  qed
qed

definition full_session :: mobile_session where
  "full_session = (new_session ''s'' 1 1 ''mobile_1080p'' ''local'' 100 '''' '''' '''')
     \<lparr>ms_browser := new_browser_session\<lparr>bs_engine_mode := ''route2'', bs_playback_mode := ''full''\<rparr>\<rparr>"

lemma empty_epoch_supply:
  "sm_effective (supply_model_of (new_epoch eid sid cr t st ap au now)) = 0"
  "sm_observation (supply_model_of (new_epoch eid sid cr t st ap au now)) = 0"
  by (simp_all add: supply_model_of_def supply_rate_x_def growth_rates_def least_candidate_def positive_rates_def
      new_epoch_def Let_def)

theorem full_gate_exact_witness:
  "\<exists>g s'. full_mode_gate None 5 full_session (new_epoch ''e'' ''s'' '''' 0 0 0 None 0) = (Inr g, s')
     \<and> \<not> fg_ready g \<and> preflight_wf s'"
proof -
  let ?e = "new_epoch ''e'' ''s'' '''' 0 0 0 None 0"
  have pre: "full_mode_requires_initial_attach_gate full_session" "preflight_wf full_session" "known_profile full_session"
    by (simp_all add: full_session_def full_mode_requires_initial_attach_gate_def preflight_wf_def known_profile_def
        new_record_defs)
  have bins: "bs_source_bins (ms_browser (snd (full_mode_gate None 5 full_session ?e))) = []"
    by (simp add: full_mode_gate_def ensure_full_preflight_def load_preflight_cache_def full_session_def
        full_mode_requires_initial_attach_gate_def new_record_defs Let_def)
  have "\<not> fs_surplus (full_supply_of s ?e)" for s
    by (simp add: full_supply_of_def empty_epoch_supply route2_consts Let_def)
  with full_gate_exact[OF pre, of None 5 ?e] bins show ?thesis by auto
qed

text \<open>A complete budget means complete media. When the prepared bytes reach the whole budget, to a
  thousandth of a byte, every segment from the attach position to the end of the media lies in the
  published run of the epoch and its size is known.\<close>

theorem full_budget_complete_means_published:
  assumes "full_budget_metrics s e = Inr (Some b)" and "published_wf e"
    and "last (fb_cumulative b) \<le> fb_prepared b + 1 / 1000"
    and "budget_start_segment s e \<le> i" and "i < total_source_segments s"
  shows "\<exists>through size. ep_contiguous_through e = Some through
     \<and> i - segment_index_for_time (ep_start e) \<le> through
     \<and> dict_get (ep_segment_bytes e) (i - segment_index_for_time (ep_start e)) = Some size"
proof -
  let ?zero = "\<lparr>ba_segments = [], ba_estimated = 0, ba_remaining = 0, ba_prepared = 0\<rparr>"
  obtain fb fr ratio acc where st: "1 \<le> fb"
    "budget_loop e (bs_source_bins (ms_browser s)) fb ratio (segment_index_for_time (ep_start e)) (budget_frontier e)
       [budget_start_segment s e .. total_source_segments s - 1] ?zero = Inr acc"
    "finish_budget s e fr acc = Some b"
    using full_budget_metrics_cases[OF assms(1)] by metis
  have adds: "ba_remaining acc = sum_list (ba_segments acc)" "0 \<le> ba_estimated acc"
    "ba_prepared acc + ba_estimated acc \<le> ba_remaining acc"
    "(\<exists>i \<in> set [budget_start_segment s e .. total_source_segments s - 1].
        actual_segment_bytes e (i - segment_index_for_time (ep_start e)) = None) \<longrightarrow> 1 \<le> ba_estimated acc"
    using budget_loop_adds[OF st(2) assms(2) st(1)] by simp_all
  have "last (fb_cumulative b) = ba_remaining acc"
    using finish_budget_fields(2,4)[OF st(3)] last_running_sums adds(1) by simp
  then have "ba_estimated acc < 1" using assms(3) adds(3) finish_budget_fields(1)[OF st(3)] by simp
  then have "actual_segment_bytes e (i - segment_index_for_time (ep_start e)) \<noteq> None"
    using adds(4) assms(4,5) by auto
  then show ?thesis by (auto simp: actual_segment_bytes_def split: option.splits if_splits)
qed

text \<open>A two second file, its one segment published.\<close>

definition short_session :: mobile_session where
  "short_session = (new_session ''s'' 1 1 ''mobile_1080p'' ''local'' 2 '''' '''' '''')
     \<lparr>ms_browser := new_browser_session\<lparr>bs_engine_mode := ''route2'', bs_playback_mode := ''full'',
        bs_source_bins := [1000]\<rparr>\<rparr>"

definition short_epoch :: playback_epoch where
  "short_epoch = (new_epoch ''e'' ''s'' '''' 0 0 0 None 0)
     \<lparr>ep_init_published := True, ep_contiguous_through := Some 0, ep_segment_bytes := [(0, 900)]\<rparr>"

theorem full_budget_complete_means_published_witness:
  "\<exists>through size. ep_contiguous_through short_epoch = Some through
     \<and> dict_get (ep_segment_bytes short_epoch) 0 = Some size \<and> 0 \<le> through"
proof -
  have segs: "total_source_segments short_session = 1" "budget_start_segment short_session short_epoch = 0"
    "segment_index_for_time (ep_start short_epoch) = 0" "budget_frontier short_epoch = 0"
    by (simp_all add: budget_start_segment_def total_source_segments_def short_session_def short_epoch_def
        new_record_defs segment_index_for_time_def budget_frontier_def route2_consts)
  have wf: "preflight_wf short_session" "known_profile short_session"
    using segs(1) by (simp_all add: preflight_wf_def known_profile_def short_session_def new_record_defs)
  obtain b where b: "full_budget_metrics short_session short_epoch = Inr (Some b)"
    using full_budget_total_facts[OF wf(1) _ wf(2), of short_epoch] by (auto simp: short_session_def new_record_defs)
  have pw: "published_wf short_epoch" by (simp add: published_wf_def short_epoch_def new_epoch_def)
  obtain fb fr ratio acc where st:
    "budget_loop short_epoch (bs_source_bins (ms_browser short_session)) fb ratio 0 0 [0 .. 0]
       \<lparr>ba_segments = [], ba_estimated = 0, ba_remaining = 0, ba_prepared = 0\<rparr> = Inr acc"
    "finish_budget short_session short_epoch fr acc = Some b"
    using full_budget_metrics_cases[OF b] segs by (metis diff_self)
  have "acc = \<lparr>ba_segments = [900], ba_estimated = 0, ba_remaining = 900, ba_prepared = 900\<rparr>"
    using st(1) by (simp add: budget_step_def actual_segment_bytes_def short_epoch_def new_epoch_def)
  then have "last (fb_cumulative b) \<le> fb_prepared b + 1 / 1000"
    using finish_budget_fields(1,2)[OF st(2)] by simp
  from full_budget_complete_means_published[OF b pw this, of 0] segs show ?thesis by auto
qed

section \<open>The attach gate of an epoch\<close>

record attach_view =
  av_ready :: bool
  av_estimate :: "real option"
  av_rate :: real
  av_observation :: real
  av_required :: "real option"
  av_actual :: "real option"
  av_ratio :: "real option"
  av_reason :: string
  av_lite :: "startup_gate option"

definition epoch_startup_attach_gate ::
  "int list option \<Rightarrow> real \<Rightarrow> mobile_session \<Rightarrow> playback_epoch \<Rightarrow> (py_error + attach_view) \<times> mobile_session" where
  "epoch_startup_attach_gate cached clock s e =
     (if full_mode_requires_initial_attach_gate s then
        let (r, s') = full_mode_gate cached clock s e in
        (and_then r (\<lambda>g. Inr \<lparr>av_ready = fg_ready g, av_estimate = fg_estimate g, av_rate = fg_rate g,
            av_observation = fg_observation g, av_required = fg_required g, av_actual = fg_actual g,
            av_ratio = fg_ratio g, av_reason = (if fg_reason g = [] then ''full_mode_gate'' else fg_reason g),
            av_lite = None\<rparr>), s')
      else if bs_playback_mode (ms_browser s) = ''lite'' \<and> bs_client_revision (ms_browser s) = 0 then
        let (g, d) = lite_initial_startup_gate s e in
        (Inr \<lparr>av_ready = sg_ready g, av_estimate = sg_estimate g, av_rate = sg_rate g,
            av_observation = sg_observation g, av_required = Some (sg_required g), av_actual = Some (sg_actual g),
            av_ratio = None, av_reason = sg_reason g, av_lite = Some g\<rparr>,
         s\<lparr>ms_browser := (ms_browser s)\<lparr>bs_lite := d\<rparr>\<rparr>)
      else
        let a = attach_gate_state s e ROUTE2_STARTUP_MIN_RUNWAY_SECONDS ROUTE2_ATTACH_READY_SECONDS
                  ROUTE2_STARTUP_PROJECTION_HORIZON_SECONDS ROUTE2_STARTUP_MIN_SUPPLY_RATE_X (Some (ep_attach e));
            actual = (if ep_init_published e \<and> ep_contiguous_through e \<noteq> None
                      then max 0 (epoch_ready_end s e - ep_attach e) else 0)
        in (Inr \<lparr>av_ready = ag_ready a, av_estimate = ag_estimate a, av_rate = ag_rate a,
            av_observation = ag_observation a,
            av_required = Some (min ROUTE2_ATTACH_READY_SECONDS (remaining_after_attach s e)),
            av_actual = Some actual, av_ratio = None, av_reason = ''startup_projected_runway'', av_lite = None\<rparr>, s))"

definition epoch_startup_attach_ready ::
  "int list option \<Rightarrow> real \<Rightarrow> mobile_session \<Rightarrow> playback_epoch \<Rightarrow> (py_error + bool) \<times> mobile_session" where
  "epoch_startup_attach_ready cached clock s e =
     (let (r, s') = epoch_startup_attach_gate cached clock s e in (and_then r (\<lambda>v. Inr (av_ready v)), s'))"

definition epoch_recovery_ready :: "mobile_session \<Rightarrow> playback_epoch \<Rightarrow> bool" where
  "epoch_recovery_ready s e =
     ag_ready (attach_gate_state s e ROUTE2_RECOVERY_MIN_RUNWAY_SECONDS ROUTE2_RECOVERY_RESUME_RUNWAY_SECONDS
       ROUTE2_RECOVERY_PROJECTION_HORIZON_SECONDS ROUTE2_RECOVERY_MIN_SUPPLY_RATE_X None)"

lemma quantized_nonneg [simp]: "0 \<le> quantized_deficit d"
  by (auto simp: quantized_deficit_def SEGMENT_DURATION_SECONDS_def)

lemma fs_wait_nonneg: "fs_wait (full_supply_of s e) = Some t \<Longrightarrow> 0 \<le> t"
  by (auto simp: full_supply_of_def Let_def split: if_splits intro!: divide_nonneg_nonneg)

lemma without_budget_laws:
  "fg_ready (full_gate_without_budget s e now fs r) \<Longrightarrow> fg_estimate (full_gate_without_budget s e now fs r) = Some 0"
  "fg_estimate (full_gate_without_budget s e now (full_supply_of s e) r) = Some t \<Longrightarrow> 0 \<le> t"
  by (auto simp: full_gate_without_budget_def full_gate_results fs_wait_nonneg bootstrap_eta_nonneg split: if_splits)

lemma waiting_nonneg:
  assumes "fg_estimate (full_gate_waiting s (full_supply_of s' e) ratio (full_bootstrap_eta s'' e'' now c) elapsed server
      client rate deficit) = Some t" and "0 \<le> deficit"
  shows "0 \<le> t"
  using assms
  by (auto simp: full_gate_waiting_def full_gate_results Let_def fs_wait_nonneg bootstrap_eta_nonneg le_max_iff_disj
      split: if_splits intro!: divide_nonneg_nonneg)

lemma full_gate_decide_cases:
  "(\<exists>src reason. full_gate_decide fs ratio b conf deficit w = full_result fs ratio ''ready'' True (Some 0) src reason)
   \<or> full_gate_decide fs ratio b conf deficit w = w"
  by (auto simp: full_gate_decide_def fast_start_ready_def)

lemma with_budget_shape:
  obtains (ready) ratio src reason where
      "full_gate_with_budget s e now el fs b = full_result fs ratio ''ready'' True (Some 0) src reason"
    | (waiting) ratio rate where
      "full_gate_with_budget s e now el fs b
         = full_gate_waiting s fs ratio (full_bootstrap_eta s e (Some now) now) el
             (server_byte_goodput e) (client_goodput (ms_browser s)) rate (budget_deficit b rate)"
  unfolding full_gate_with_budget_def Let_def by (metis full_gate_decide_cases)

lemma with_budget_laws:
  "fg_ready (full_gate_with_budget s e now el fs b) \<Longrightarrow> fg_estimate (full_gate_with_budget s e now el fs b) = Some 0"
  "fg_estimate (full_gate_with_budget s e now el (full_supply_of s e) b) = Some t \<Longrightarrow> 0 \<le> t"
proof -
  show "fg_ready (full_gate_with_budget s e now el fs b) \<Longrightarrow> fg_estimate (full_gate_with_budget s e now el fs b) = Some 0"
    by (cases rule: with_budget_shape[of s e now el fs b]) (simp_all add: full_result_def)
  show "fg_estimate (full_gate_with_budget s e now el (full_supply_of s e) b) = Some t \<Longrightarrow> 0 \<le> t"
    by (cases rule: with_budget_shape[of s e now el "full_supply_of s e" b])
      (auto simp: full_result_def budget_deficit_nonneg intro: waiting_nonneg)
qed

lemma full_gate_laws:
  assumes "full_mode_requires_initial_attach_gate s" and "full_mode_gate cached clock s e = (Inr g, s')"
  shows "fg_ready g \<Longrightarrow> fg_estimate g = Some 0" and "fg_estimate g = Some t \<Longrightarrow> 0 \<le> t"
  using assms
  by (auto simp: full_mode_gate_def full_mode_requires_initial_attach_gate_def Let_def and_then_Inr_iff
      without_budget_laws with_budget_laws split: if_splits option.splits)

definition startup_view :: "int list option \<Rightarrow> real \<Rightarrow> mobile_session \<Rightarrow> playback_epoch \<Rightarrow> attach_view option" where
  "startup_view cached clock s e =
     (case fst (epoch_startup_attach_gate cached clock s e) of Inl _ \<Rightarrow> None | Inr v \<Rightarrow> Some v)"

lemma startup_view_laws:
  assumes "startup_view cached clock s e = Some v"
  shows "av_ready v \<Longrightarrow> av_estimate v = Some 0" and "av_estimate v = Some t \<Longrightarrow> 0 \<le> t"
proof -
  consider (full) g s' where "full_mode_requires_initial_attach_gate s" "full_mode_gate cached clock s e = (Inr g, s')"
      "av_ready v = fg_ready g" "av_estimate v = fg_estimate g"
    | (lite) "av_ready v = sg_ready (fst (lite_initial_startup_gate s e))"
      "av_estimate v = sg_estimate (fst (lite_initial_startup_gate s e))"
    | (projected) mr tg h f p where "av_ready v = ag_ready (attach_gate_state s e mr tg h f p)"
      "av_estimate v = ag_estimate (attach_gate_state s e mr tg h f p)"
    using assms
    by (auto simp: startup_view_def epoch_startup_attach_gate_def Let_def and_then_Inr_iff
        split: if_splits prod.splits sum.splits)
  then show "av_ready v \<Longrightarrow> av_estimate v = Some 0" and "av_estimate v = Some t \<Longrightarrow> 0 \<le> t"
    by (cases; auto dest: full_gate_laws lite_gate.ready_estimate lite_gate.estimate_nonneg
        projected_gate.ready_estimate projected_gate.estimate_nonneg)+
qed

interpretation startup: start_gate
  "\<lambda>s e. \<exists>v. startup_view cached clock s e = Some v \<and> av_ready v"
  "\<lambda>s e. case startup_view cached clock s e of None \<Rightarrow> None | Some v \<Rightarrow> av_estimate v" for cached clock
  by unfold_locales (auto dest: startup_view_laws split: option.splits)

text \<open>The attach gate answers with one voice, whichever of its three rules applies. If it computes an
  answer, readiness is reported with the estimate zero, every estimate is non-negative, and a positive
  or unknown estimate is never reported as ready.\<close>

theorem startup_gate_consistent:
  assumes "epoch_startup_attach_gate cached clock s e = (Inr v, s')"
  shows "(av_ready v \<longrightarrow> av_estimate v = Some 0) \<and> (\<forall>t. av_estimate v = Some t \<longrightarrow> 0 \<le> t)
       \<and> (av_estimate v \<noteq> Some 0 \<longrightarrow> \<not> av_ready v)"
proof -
  have v: "startup_view cached clock s e = Some v" using assms by (simp add: startup_view_def)
  show ?thesis
    using startup.ready_estimate[of cached clock s e] startup.estimate_nonneg[of cached clock s e] v by auto
qed

theorem startup_gate_consistent_witness:
  "\<exists>v s'. epoch_startup_attach_gate None 0 starving_session ready_epoch = (Inr v, s')
     \<and> (av_ready v \<longrightarrow> av_estimate v = Some 0)"
proof -
  obtain v s' where "epoch_startup_attach_gate None 0 starving_session ready_epoch = (Inr v, s')"
    by (auto simp: epoch_startup_attach_gate_def full_mode_requires_initial_attach_gate_def starving_session_def
        new_record_defs Let_def)
  with startup_gate_consistent show ?thesis by blast
qed

end
