(* ===== verification/Epoch_Publication.thy ===== *)
theory Epoch_Publication
  imports Route2_Full_Gate "HOL-Library.List_Lexorder" "HOL-Library.Char_ord"
begin

text \<open>
  Publication of the transcoder's output: \<^verbatim>\<open>services/mobile_playback_route2_epoch_artifacts.py\<close>
  (the frontier rebuilt from the files on disk) and
  \<^verbatim>\<open>services/mobile_playback_route2_epoch_publication.py\<close> (moving staged files into the published
  directory), with the latency bookkeeping of the wrappers in \<^verbatim>\<open>mobile_playback_service.py\<close>.
  The JSON files written beside the segments are not modelled. A move that raises leaves the epoch
  as it was at that moment, so the operations return an optional error and the epoch.
\<close>

section \<open>Names of segment files\<close>

definition segment_file_name :: "nat \<Rightarrow> string" where
  "segment_file_name i = ''segment_'' @ pad_nat 6 i @ ''.m4s''"

definition matches_segment_glob :: "string \<Rightarrow> bool" where
  "matches_segment_glob name =
     (12 \<le> length name \<and> starts_with ''segment_'' name \<and> ends_with ''.m4s'' name)"

definition segment_of_name :: "string \<Rightarrow> int option" where
  "segment_of_name name =
     (if matches_segment_glob name then py_int (drop 8 (take (length name - 4) name)) else None)"

lemma segment_name_roundtrip: "segment_of_name (segment_file_name i) = Some (int i)"
  by (simp add: segment_of_name_def segment_file_name_def matches_segment_glob_def starts_with_def ends_with_def
      py_int_pad_nat)

lemma segment_name_glob [simp]: "matches_segment_glob (segment_file_name i)"
  by (simp add: matches_segment_glob_def segment_file_name_def starts_with_def ends_with_def)

section \<open>The contiguous frontier\<close>

function frontier_from :: "int list \<Rightarrow> int \<Rightarrow> int" where
  "frontier_from segs f = (if f + 1 \<in> set segs then frontier_from segs (f + 1) else f)"
  by pat_completeness auto
termination
proof (relation "measure (\<lambda>(segs, f). card {x \<in> set segs. f < x})")
  fix segs :: "int list" and f
  assume "f + 1 \<in> set segs"
  then have "f + 1 \<in> {x \<in> set segs. f < x} - {x \<in> set segs. f + 1 < x}" by simp
  moreover have "{x \<in> set segs. f + 1 < x} \<subseteq> {x \<in> set segs. f < x}" by auto
  ultimately have "{x \<in> set segs. f + 1 < x} \<subset> {x \<in> set segs. f < x}" by blast
  then have "card {x \<in> set segs. f + 1 < x} < card {x \<in> set segs. f < x}" by (intro psubset_card_mono) simp_all
  then show "((segs, f + 1), (segs, f)) \<in> measure (\<lambda>(segs, f). card {x \<in> set segs. f < x})" by simp
qed simp

declare frontier_from.simps [simp del]

definition contiguous_segment_frontier :: "int list \<Rightarrow> int option" where
  "contiguous_segment_frontier segs = (if 0 \<notin> set segs then None else Some (frontier_from segs 0))"

lemma frontier_from_spec:
  "f \<le> frontier_from segs f \<and> (\<forall>i. f < i \<and> i \<le> frontier_from segs f \<longrightarrow> i \<in> set segs)
     \<and> frontier_from segs f + 1 \<notin> set segs"
proof (induction segs f rule: frontier_from.induct)
  case (1 segs f)
  show ?case
  proof (cases "f + 1 \<in> set segs")
    case True
    then have eq: "frontier_from segs f = frontier_from segs (f + 1)" by (subst frontier_from.simps) simp
    have "i \<in> set segs" if "f < i" "i \<le> frontier_from segs (f + 1)" for i
      using that True "1.IH"[OF True] by (cases "i = f + 1") auto
    then show ?thesis using "1.IH"[OF True] eq by auto
  next
    case False
    then show ?thesis by (subst (1 2 3) frontier_from.simps) auto
  qed
qed

text \<open>The published frontier is the longest gap-free run. The frontier is reported exactly when segment
  0 exists, and then it is the one number n such that every segment from 0 to n is published and
  segment n+1 is not.\<close>

theorem frontier_is_maximal_run:
  "(contiguous_segment_frontier segs = None \<longleftrightarrow> 0 \<notin> set segs)
   \<and> (contiguous_segment_frontier segs = Some n \<longleftrightarrow> 0 \<le> n \<and> {0..n} \<subseteq> set segs \<and> n + 1 \<notin> set segs)"
proof -
  let ?m = "frontier_from segs 0"
  have m: "0 \<le> ?m" "\<forall>i. 0 < i \<and> i \<le> ?m \<longrightarrow> i \<in> set segs" "?m + 1 \<notin> set segs"
    using frontier_from_spec[of 0 segs] by auto
  have "n = ?m" if "0 \<le> n" "{0..n} \<subseteq> set segs" "n + 1 \<notin> set segs"
  proof (rule ccontr)
    assume "n \<noteq> ?m"
    then consider "n < ?m" | "?m < n" by linarith
    then show False
    proof cases
      case 1
      then have "n + 1 \<in> set segs" using m(2) that(1) by auto
      with that(3) show False ..
    next
      case 2
      then have "?m + 1 \<in> set segs" using that(2) m(1) by (auto simp: subset_iff)
      with m(3) show False ..
    qed
  qed
  moreover have "{0..?m} \<subseteq> set segs" if "0 \<in> set segs"
    using m(2) that by (auto simp: le_less)
  ultimately show ?thesis using m by (auto simp: contiguous_segment_frontier_def)
qed

section \<open>Rebuilding the frontier from disk\<close>

fun add_published_file :: "int list \<times> (int \<times> int) list \<Rightarrow> string \<times> int \<Rightarrow> int list \<times> (int \<times> int) list" where
  "add_published_file (segs, sizes) (name, bytes) =
     (case segment_of_name name of
        None \<Rightarrow> (segs, sizes)
      | Some i \<Rightarrow> (if i \<in> set segs then segs else segs @ [i], dict_set sizes i bytes))"

definition init_file :: string where
  "init_file = ''init.mp4''"

definition rebuild_published_frontier :: "string \<Rightarrow> real \<Rightarrow> playback_epoch \<Rightarrow> playback_epoch" where
  "rebuild_published_frontier stamp clock e =
     (let init = dict_get (ep_published_dir e) init_file;
          init_bytes = (case init of Some n \<Rightarrow> n | None \<Rightarrow> 0);
          (segs, sizes) = foldl add_published_file ([], []) (ep_published_dir e);
          e1 = e\<lparr>ep_init_published := (init \<noteq> None), ep_init_bytes := init_bytes,
                 ep_published_segments := segs, ep_segment_bytes := sizes,
                 ep_total_bytes := init_bytes + sum_list (map snd sizes),
                 ep_contiguous_through := (if init \<noteq> None then contiguous_segment_frontier segs else None)\<rparr>;
          e2 = (if init \<noteq> None \<or> segs \<noteq> [] then e1\<lparr>ep_last_published_at := Some stamp\<rparr> else e1)
      in record_byte_sample None clock e2)"

definition listed_segments :: "directory \<Rightarrow> int set" where
  "listed_segments dir = {i. \<exists>name n. dict_get dir name = Some n \<and> segment_of_name name = Some i}"

lemma listed_segments_Cons:
  "listed_segments ((name, n) # dir) = (case segment_of_name name of None \<Rightarrow> {} | Some i \<Rightarrow> {i}) \<union> listed_segments dir"
proof -
  have "(\<exists>name' m. dict_get ((name, n) # dir) name' = Some m \<and> segment_of_name name' = Some i)
      \<longleftrightarrow> segment_of_name name = Some i \<or> (\<exists>name' m. dict_get dir name' = Some m \<and> segment_of_name name' = Some i)" for i
    by auto
  then show ?thesis by (auto simp: listed_segments_def split: option.splits)
qed

lemma listed_segmentsI: "dict_get dir name = Some n \<Longrightarrow> segment_of_name name = Some i \<Longrightarrow> i \<in> listed_segments dir"
  by (auto simp: listed_segments_def)

lemma foldl_published_sets:
  "foldl add_published_file (segs, sizes) dir = (segs', sizes')
   \<Longrightarrow> set segs' = set segs \<union> listed_segments dir \<and> fst ` set sizes' = fst ` set sizes \<union> listed_segments dir"
proof (induction dir arbitrary: segs sizes)
  case (Cons f dir)
  obtain name bytes where f: "f = (name, bytes)" by (cases f)
  show ?case
  proof (cases "segment_of_name name")
    case None
    then show ?thesis using Cons.prems Cons.IH[of segs sizes] by (simp add: f listed_segments_Cons)
  next
    case (Some i)
    then show ?thesis
      using Cons.prems Cons.IH[of "if i \<in> set segs then segs else segs @ [i]" "dict_set sizes i bytes"]
      by (auto simp: f keys_dict_set listed_segments_Cons)
  qed
qed (simp add: listed_segments_def)

lemma foldl_published_nonneg:
  assumes "\<forall>(name, bytes) \<in> set dir. 0 \<le> bytes" and "\<forall>(i, n) \<in> set sizes. 0 \<le> n"
    and "foldl add_published_file (segs, sizes) dir = (segs', sizes')"
  shows "\<forall>(i, n) \<in> set sizes'. 0 \<le> n"
  using assms
proof (induction dir arbitrary: segs sizes)
  case (Cons f dir)
  obtain name bytes where f: "f = (name, bytes)" by (cases f)
  have set_values: "snd ` set (dict_set d k v) \<subseteq> insert v (snd ` set d)" for d :: "(int \<times> int) list" and k v
    by (induction d) (force split: if_splits)+
  show ?case
  proof (cases "segment_of_name name")
    case None
    then show ?thesis using Cons.prems Cons.IH[of sizes segs] by (auto simp: f)
  next
    case (Some i)
    have "\<forall>(j, n) \<in> set (dict_set sizes i bytes). 0 \<le> n"
      using set_values[of sizes i bytes] Cons.prems(1,2) by (fastforce simp: f)
    then show ?thesis
      using Cons.prems(1,3) Some Cons.IH[of "dict_set sizes i bytes"] by (auto simp: f split: if_splits)
  qed
qed simp

lemma record_byte_sample_keeps [simp]:
  "ep_init_published (record_byte_sample n c e) = ep_init_published e"
  "ep_published_segments (record_byte_sample n c e) = ep_published_segments e"
  "ep_segment_bytes (record_byte_sample n c e) = ep_segment_bytes e"
  "ep_contiguous_through (record_byte_sample n c e) = ep_contiguous_through e"
  "ep_published_dir (record_byte_sample n c e) = ep_published_dir e"
  "ep_staging_dir (record_byte_sample n c e) = ep_staging_dir e"
  "ep_total_bytes (record_byte_sample n c e) = ep_total_bytes e"
  "ep_id (record_byte_sample n c e) = ep_id e"
  "ep_state (record_byte_sample n c e) = ep_state e"
  "ep_worker (record_byte_sample n c e) = ep_worker e"
  "ep_replacement_reason (record_byte_sample n c e) = ep_replacement_reason e"
  "ep_drain_started (record_byte_sample n c e) = ep_drain_started e"
  "ep_attach (record_byte_sample n c e) = ep_attach e"
  "ep_audio_stream (record_byte_sample n c e) = ep_audio_stream e"
  by (simp_all add: record_byte_sample_def Let_def)

lemma rebuild_keeps [simp]:
  "ep_published_dir (rebuild_published_frontier stamp c e) = ep_published_dir e"
  "ep_staging_dir (rebuild_published_frontier stamp c e) = ep_staging_dir e"
  "ep_id (rebuild_published_frontier stamp c e) = ep_id e"
  "ep_state (rebuild_published_frontier stamp c e) = ep_state e"
  "ep_worker (rebuild_published_frontier stamp c e) = ep_worker e"
  "ep_replacement_reason (rebuild_published_frontier stamp c e) = ep_replacement_reason e"
  "ep_drain_started (rebuild_published_frontier stamp c e) = ep_drain_started e"
  "ep_attach (rebuild_published_frontier stamp c e) = ep_attach e"
  "ep_audio_stream (rebuild_published_frontier stamp c e) = ep_audio_stream e"
  by (simp_all add: rebuild_published_frontier_def Let_def split: prod.splits)

lemma rebuild_published_segments:
  "ep_published_segments (rebuild_published_frontier stamp c e)
     = fst (foldl add_published_file ([], []) (ep_published_dir e))"
  by (simp add: rebuild_published_frontier_def Let_def split: prod.splits)

lemma rebuild_segments:
  "set (ep_published_segments (rebuild_published_frontier stamp c e))
     = listed_segments (ep_published_dir e)"
proof -
  obtain segs sizes where f: "foldl add_published_file ([], []) (ep_published_dir e) = (segs, sizes)" by fastforce
  then show ?thesis using foldl_published_sets[OF f] by (simp add: rebuild_published_segments)
qed

lemma rebuild_init [simp]:
  "ep_init_published (rebuild_published_frontier stamp c e) \<longleftrightarrow> dict_get (ep_published_dir e) init_file \<noteq> None"
  by (simp add: rebuild_published_frontier_def Let_def split: prod.splits)

lemma rebuild_frontier [simp]:
  "ep_contiguous_through (rebuild_published_frontier stamp c e)
     = (if dict_get (ep_published_dir e) init_file \<noteq> None
        then contiguous_segment_frontier (ep_published_segments (rebuild_published_frontier stamp c e)) else None)"
  unfolding rebuild_published_segments
  by (cases "foldl add_published_file ([], []) (ep_published_dir e)")
    (auto simp: rebuild_published_frontier_def Let_def)

text \<open>Sizes on disk are never negative, so every rebuilt epoch satisfies what the budget relies on.\<close>

definition directory_wf :: "directory \<Rightarrow> bool" where
  "directory_wf d = (dict_wf d \<and> (\<forall>(name, bytes) \<in> set d. 0 \<le> bytes))"

lemma rebuild_published_wf:
  assumes "directory_wf (ep_published_dir e)"
  shows "published_wf (rebuild_published_frontier stamp c e)"
proof -
  obtain segs sizes where f: "foldl add_published_file ([], []) (ep_published_dir e) = (segs, sizes)" by fastforce
  have "\<forall>(i, n) \<in> set sizes. 0 \<le> n"
    using foldl_published_nonneg[OF _ _ f] assms by (simp add: directory_wf_def)
  then show ?thesis
    by (simp add: published_wf_def rebuild_published_frontier_def f Let_def)
qed

section \<open>Moving staged files into place\<close>

text \<open>\<^verbatim>\<open>staged.replace(destination)\<close> when the destination does not exist yet.\<close>

definition move_if_absent :: "string \<Rightarrow> string \<Rightarrow> playback_epoch \<Rightarrow> playback_epoch" where
  "move_if_absent staged destination e =
     (case (dict_get (ep_staging_dir e) staged, dict_get (ep_published_dir e) destination) of
        (Some bytes, None) \<Rightarrow>
          e\<lparr>ep_staging_dir := dict_pop (ep_staging_dir e) staged,
            ep_published_dir := dict_set (ep_published_dir e) destination bytes\<rparr>
      | _ \<Rightarrow> e)"

text \<open>\<open>stamp\<close> is \<^verbatim>\<open>utcnow_iso()\<close>, \<open>clock\<close> is \<^verbatim>\<open>time.time()\<close> and \<open>elapsed name\<close> the difference of the two
  monotonic readings around the publication of that file.\<close>

definition publish_init ::
  "string \<Rightarrow> real \<Rightarrow> (string \<Rightarrow> real) \<Rightarrow> playback_epoch \<Rightarrow> py_error option \<times> playback_epoch" where
  "publish_init stamp clock elapsed e =
     (let already = (dict_get (ep_published_dir e) init_file \<noteq> None) in
      if dict_get (ep_staging_dir e) init_file = None
      then (Some (FileNotFoundError ''Route 2 staged init segment is missing''), e)
      else
        let e1 = rebuild_published_frontier stamp clock (move_if_absent init_file init_file e);
            latency = max 0 (elapsed init_file)
        in (None, if already then e1
                  else e1\<lparr>ep_init_latency := Some latency, ep_last_latency := Some latency,
                          ep_last_publish_kind := Some ''init''\<rparr>))"

definition publish_segment ::
  "string \<Rightarrow> real \<Rightarrow> (string \<Rightarrow> real) \<Rightarrow> int \<Rightarrow> string \<Rightarrow> playback_epoch \<Rightarrow> py_error option \<times> playback_epoch" where
  "publish_segment stamp clock elapsed index staged e =
     (if index < 0 then (Some (ValueError ''Route 2 segment index must be non-negative''), e)
      else if dict_get (ep_staging_dir e) staged = None
      then (Some (FileNotFoundError ''Route 2 staged segment is missing''), e)
      else
        let destination = segment_file_name (nat index);
            already = (dict_get (ep_published_dir e) destination \<noteq> None);
            e1 = rebuild_published_frontier stamp clock (move_if_absent staged destination e);
            latency = max 0 (elapsed staged)
        in (None, if already then e1
                  else e1\<lparr>ep_publish_count := ep_publish_count e1 + 1,
                          ep_latency_total := ep_latency_total e1 + latency,
                          ep_latency_max := Some (max latency (or_real (ep_latency_max e1) 0)),
                          ep_last_latency := Some latency, ep_last_publish_kind := Some ''segment''\<rparr>))"

fun publish_staged ::
  "string \<Rightarrow> real \<Rightarrow> (string \<Rightarrow> real) \<Rightarrow> string list \<Rightarrow> playback_epoch \<Rightarrow> py_error option \<times> playback_epoch" where
  "publish_staged stamp clock elapsed [] e = (None, e)"
| "publish_staged stamp clock elapsed (name # names) e =
     (case segment_of_name name of
        None \<Rightarrow> publish_staged stamp clock elapsed names e
      | Some i \<Rightarrow>
          if i \<in> set (ep_published_segments e) then publish_staged stamp clock elapsed names e
          else case publish_segment stamp clock elapsed i name e of
                 (Some err, e') \<Rightarrow> (Some err, e')
               | (None, e') \<Rightarrow> publish_staged stamp clock elapsed names e')"

definition publish_epoch_outputs ::
  "string \<Rightarrow> real \<Rightarrow> (string \<Rightarrow> real) \<Rightarrow> playback_epoch \<Rightarrow> py_error option \<times> playback_epoch" where
  "publish_epoch_outputs stamp clock elapsed e =
     (let (err, e1) = (if dict_get (ep_staging_dir e) init_file \<noteq> None \<and> \<not> ep_init_published e
                       then publish_init stamp clock elapsed e else (None, e))
      in case err of
           Some x \<Rightarrow> (Some x, e1)
         | None \<Rightarrow> publish_staged stamp clock elapsed
                     (sort (filter matches_segment_glob (map fst (ep_staging_dir e1)))) e1)"

subsection \<open>Published files are never overwritten\<close>

text \<open>Published content only grows: a published name keeps its size, and the record of the epoch agrees
  with the directory after every publication.\<close>

definition keeps_published :: "playback_epoch \<Rightarrow> playback_epoch \<Rightarrow> bool" where
  "keeps_published e e' =
     (\<forall>name n. dict_get (ep_published_dir e) name = Some n \<longrightarrow> dict_get (ep_published_dir e') name = Some n)"

definition frontier_current :: "playback_epoch \<Rightarrow> bool" where
  "frontier_current e =
     ((ep_init_published e \<longleftrightarrow> dict_get (ep_published_dir e) init_file \<noteq> None)
      \<and> set (ep_published_segments e) = listed_segments (ep_published_dir e)
      \<and> ep_contiguous_through e
          = (if ep_init_published e then contiguous_segment_frontier (ep_published_segments e) else None))"

lemma keeps_published_refl [simp]: "keeps_published e e"
  by (simp add: keeps_published_def)

lemma keeps_published_trans [trans]: "keeps_published a b \<Longrightarrow> keeps_published b c \<Longrightarrow> keeps_published a c"
  by (simp add: keeps_published_def)

lemma move_if_absent_keeps: "keeps_published e (move_if_absent staged dest e)"
  by (auto simp: keeps_published_def move_if_absent_def split: option.splits)

lemma rebuild_current [simp]: "frontier_current (rebuild_published_frontier stamp c e)"
  by (simp add: frontier_current_def rebuild_segments)

lemma rebuild_keeps_published [simp]:
  "keeps_published a (rebuild_published_frontier stamp c e) \<longleftrightarrow> keeps_published a e"
  by (simp add: keeps_published_def)

definition same_publication :: "playback_epoch \<Rightarrow> playback_epoch \<Rightarrow> bool" where
  "same_publication a b =
     (ep_published_dir a = ep_published_dir b \<and> ep_init_published a = ep_init_published b
      \<and> ep_published_segments a = ep_published_segments b \<and> ep_contiguous_through a = ep_contiguous_through b)"

lemma frontier_current_same: "same_publication a b \<Longrightarrow> frontier_current a \<longleftrightarrow> frontier_current b"
  by (simp add: same_publication_def frontier_current_def)

lemma publish_init_effect:
  assumes "publish_init stamp clock el e = (err, e')" and "frontier_current e"
  shows "keeps_published e e' \<and> frontier_current e' \<and> (err = None \<longrightarrow> ep_init_published e')"
proof (cases "dict_get (ep_staging_dir e) init_file")
  case None
  then show ?thesis using assms by (auto simp: publish_init_def)
next
  case (Some n)
  let ?m = "move_if_absent init_file init_file e"
  have init: "dict_get (ep_published_dir ?m) init_file \<noteq> None"
    using Some by (auto simp: move_if_absent_def split: option.splits)
  let ?r = "rebuild_published_frontier stamp clock ?m"
  have same: "same_publication e' ?r"
    using Some assms(1)
    by (cases "dict_get (ep_published_dir e) init_file") (auto simp: publish_init_def same_publication_def Let_def)
  have "frontier_current e'" using frontier_current_same[OF same] by simp
  moreover have "keeps_published e e'"
    using same move_if_absent_keeps[of e init_file init_file] by (simp add: same_publication_def keeps_published_def)
  moreover have "ep_init_published e'" using same init by (simp add: same_publication_def)
  ultimately show ?thesis by simp
qed

lemma publish_segment_effect:
  assumes "publish_segment stamp clock el i name e = (err, e')" and "frontier_current e"
  shows "keeps_published e e' \<and> frontier_current e' \<and> (err = None \<longrightarrow> i \<in> set (ep_published_segments e'))
       \<and> (ep_init_published e \<longrightarrow> ep_init_published e')"
proof (cases "i < 0 \<or> dict_get (ep_staging_dir e) name = None")
  case True
  then show ?thesis using assms by (auto simp: publish_segment_def split: if_splits)
next
  case False
  let ?d = "segment_file_name (nat i)"
  let ?m = "move_if_absent name ?d e"
  let ?r = "rebuild_published_frontier stamp clock ?m"
  have "\<exists>n. dict_get (ep_published_dir ?m) ?d = Some n"
    using False by (auto simp: move_if_absent_def split: option.splits)
  moreover have "segment_of_name ?d = Some i" using False segment_name_roundtrip[of "nat i"] by simp
  ultimately have i: "i \<in> set (ep_published_segments ?r)" unfolding rebuild_segments using listed_segmentsI by blast
  have init: "ep_init_published e \<longrightarrow> ep_init_published ?r"
    using assms(2) move_if_absent_keeps[of e name ?d] by (auto simp: frontier_current_def keeps_published_def)
  have same: "same_publication e' ?r" and "err = None"
    using False assms(1)
    by (cases "dict_get (ep_published_dir e) ?d"; auto simp: publish_segment_def same_publication_def Let_def)+
  have "frontier_current e'" using frontier_current_same[OF same] by simp
  moreover have "keeps_published e e'"
    using same move_if_absent_keeps[of e name ?d] by (simp add: same_publication_def keeps_published_def)
  ultimately show ?thesis using i init same by (simp add: same_publication_def)
qed

lemma published_segments_mono:
  assumes "keeps_published a b" and "frontier_current a" and "frontier_current b"
  shows "set (ep_published_segments a) \<subseteq> set (ep_published_segments b)"
  using assms unfolding frontier_current_def keeps_published_def listed_segments_def by blast

lemma publish_staged_effect:
  assumes "publish_staged stamp clock el names e = (err, e')" and "frontier_current e"
  shows "keeps_published e e' \<and> frontier_current e' \<and> (ep_init_published e \<longrightarrow> ep_init_published e')
       \<and> (err = None \<longrightarrow> (\<forall>name \<in> set names. \<forall>i. segment_of_name name = Some i \<longrightarrow> i \<in> set (ep_published_segments e')))"
  using assms
proof (induction names arbitrary: e)
  case (Cons name names)
  show ?case
  proof (cases "segment_of_name name")
    case None
    then show ?thesis using Cons.prems Cons.IH[of e] by simp
  next
    case (Some i)
    show ?thesis
    proof (cases "i \<in> set (ep_published_segments e)")
      case True
      then have run: "publish_staged stamp clock el names e = (err, e')" using Cons.prems(1) Some by simp
      note ih = Cons.IH[OF run Cons.prems(2)]
      then have "i \<in> set (ep_published_segments e')"
        using True published_segments_mono[of e e'] Cons.prems(2) by auto
      with ih Some show ?thesis by simp
    next
      case False
      obtain e1 where p: "publish_segment stamp clock el i name e = (err, e') \<and> err \<noteq> None
          \<or> publish_segment stamp clock el i name e = (None, e1) \<and> publish_staged stamp clock el names e1 = (err, e')"
        using Cons.prems(1) Some False
        by (cases "publish_segment stamp clock el i name e"; cases "fst (publish_segment stamp clock el i name e)") auto
      then show ?thesis
      proof
        assume "publish_segment stamp clock el i name e = (err, e') \<and> err \<noteq> None"
        then show ?thesis using publish_segment_effect Cons.prems(2) by blast
      next
        assume q: "publish_segment stamp clock el i name e = (None, e1) \<and> publish_staged stamp clock el names e1 = (err, e')"
        have e1: "keeps_published e e1" "frontier_current e1" "i \<in> set (ep_published_segments e1)"
          "ep_init_published e \<longrightarrow> ep_init_published e1"
          using publish_segment_effect[of stamp clock el i name e None e1] q Cons.prems(2) by auto
        have ih: "keeps_published e1 e' \<and> frontier_current e' \<and> (ep_init_published e1 \<longrightarrow> ep_init_published e')
            \<and> (err = None \<longrightarrow> (\<forall>name \<in> set names. \<forall>i. segment_of_name name = Some i \<longrightarrow> i \<in> set (ep_published_segments e')))"
          using Cons.IH q e1(2) by blast
        then have "i \<in> set (ep_published_segments e')" using published_segments_mono[of e1 e'] e1(2,3) by blast
        then show ?thesis using ih e1 Some keeps_published_trans[of e e1 e'] by auto
      qed
    qed
  qed
qed simp

lemma publish_init_staging:
  assumes "publish_init stamp clock el e = (err, e')" and "name \<noteq> init_file"
  shows "dict_get (ep_staging_dir e') name = dict_get (ep_staging_dir e) name"
  using assms by (auto simp: publish_init_def move_if_absent_def Let_def split: if_splits option.splits)

lemma init_file_no_segment: "segment_of_name init_file = None"
  by (simp add: segment_of_name_def matches_segment_glob_def init_file_def)

lemma segment_name_matches: "segment_of_name name = Some i \<Longrightarrow> matches_segment_glob name"
  by (auto simp: segment_of_name_def split: if_splits)

text \<open>What the operations do to the two directories: a file leaves the staging directory exactly when a file of its size
  appears in the published directory, under the name it is published as.\<close>

definition published_as :: "string \<Rightarrow> string \<Rightarrow> bool" where
  "published_as staged name \<longleftrightarrow>
     staged = init_file \<and> name = init_file
   \<or> (\<exists>i. 0 \<le> i \<and> segment_of_name staged = Some i \<and> name = segment_file_name (nat i))"

definition moved_file :: "playback_epoch \<Rightarrow> playback_epoch \<Rightarrow> string \<Rightarrow> string \<Rightarrow> bool" where
  "moved_file e e' staged name \<longleftrightarrow>
     published_as staged name
   \<and> (\<exists>bytes. dict_get (ep_staging_dir e) staged = Some bytes \<and> dict_get (ep_published_dir e') name = Some bytes)
   \<and> dict_get (ep_published_dir e) name = None \<and> dict_get (ep_staging_dir e') staged = None"

definition only_moves :: "playback_epoch \<Rightarrow> playback_epoch \<Rightarrow> bool" where
  "only_moves e e' \<longleftrightarrow>
     (\<forall>name. dict_get (ep_published_dir e') name = dict_get (ep_published_dir e) name \<or> (\<exists>staged. moved_file e e' staged name))
   \<and> (\<forall>staged. dict_get (ep_staging_dir e') staged = dict_get (ep_staging_dir e) staged \<or> (\<exists>name. moved_file e e' staged name))"

lemma only_moves_refl [simp]: "only_moves e e"
  by (simp add: only_moves_def)

lemma moved_file_trans:
  assumes "only_moves a b" and "only_moves b c"
  shows "moved_file a b staged name \<Longrightarrow> moved_file a c staged name" and "moved_file b c staged name \<Longrightarrow> moved_file a c staged name"
proof -
  show "moved_file a c staged name" if m: "moved_file a b staged name"
  proof -
    have "\<not> moved_file b c x name" "\<not> moved_file b c staged x" for x using m by (auto simp: moved_file_def)
    then have "dict_get (ep_published_dir c) name = dict_get (ep_published_dir b) name"
      "dict_get (ep_staging_dir c) staged = dict_get (ep_staging_dir b) staged"
      using assms(2) by (auto simp: only_moves_def)
    then show ?thesis using m by (simp add: moved_file_def)
  qed
  show "moved_file a c staged name" if m: "moved_file b c staged name"
  proof -
    have "\<not> moved_file a b x name" "\<not> moved_file a b staged x" for x using m by (auto simp: moved_file_def)
    then have "dict_get (ep_published_dir b) name = dict_get (ep_published_dir a) name"
      "dict_get (ep_staging_dir b) staged = dict_get (ep_staging_dir a) staged"
      using assms(1) by (auto simp: only_moves_def)
    then show ?thesis using m by (simp add: moved_file_def)
  qed
qed

lemma only_moves_trans [trans]:
  assumes "only_moves a b" and "only_moves b c"
  shows "only_moves a c"
  unfolding only_moves_def
proof (intro conjI allI)
  show "dict_get (ep_published_dir c) name = dict_get (ep_published_dir a) name \<or> (\<exists>staged. moved_file a c staged name)" for name
    using assms moved_file_trans[OF assms] unfolding only_moves_def by metis
  show "dict_get (ep_staging_dir c) staged = dict_get (ep_staging_dir a) staged \<or> (\<exists>name. moved_file a c staged name)" for staged
    using assms moved_file_trans[OF assms] unfolding only_moves_def by metis
qed

lemma only_moves_same:
  "ep_published_dir b = ep_published_dir c \<Longrightarrow> ep_staging_dir b = ep_staging_dir c \<Longrightarrow> only_moves a b \<longleftrightarrow> only_moves a c"
  by (simp add: only_moves_def moved_file_def)

lemma move_only_moves: "published_as staged name \<Longrightarrow> only_moves e (move_if_absent staged name e)"
  by (auto simp: only_moves_def moved_file_def move_if_absent_def split: option.splits)

lemma publish_init_moves: "publish_init stamp clock el e = (err, e') \<Longrightarrow> only_moves e e'"
  using only_moves_same[of e' "move_if_absent init_file init_file e" e] move_only_moves[of init_file init_file e]
  by (auto simp: publish_init_def published_as_def Let_def split: if_splits)

lemma publish_segment_moves:
  assumes "publish_segment stamp clock el i name e = (err, e')" and "segment_of_name name = Some i"
  shows "only_moves e e'"
proof (cases "i < 0 \<or> dict_get (ep_staging_dir e) name = None")
  case True
  then show ?thesis using assms(1) by (auto simp: publish_segment_def split: if_splits)
next
  case False
  then have "published_as name (segment_file_name (nat i))" using assms(2) by (auto simp: published_as_def)
  moreover have "ep_published_dir e' = ep_published_dir (move_if_absent name (segment_file_name (nat i)) e)"
    "ep_staging_dir e' = ep_staging_dir (move_if_absent name (segment_file_name (nat i)) e)"
    using False assms(1) by (auto simp: publish_segment_def Let_def split: if_splits)
  ultimately show ?thesis using only_moves_same move_only_moves by blast
qed

lemma publish_staged_moves: "publish_staged stamp clock el names e = (err, e') \<Longrightarrow> only_moves e e'"
proof (induction stamp clock el names e rule: publish_staged.induct)
  case (2 stamp clock el name names e)
  then show ?case
    by (auto split: option.splits if_splits prod.splits dest: publish_segment_moves intro: only_moves_trans)
qed simp

text \<open>C12: Publication is sound, complete and exact. Starting from an epoch whose record agrees with its directory,
  publishing the staged outputs never changes a file already published and leaves the record in agreement with the
  directory. Whether it raises or not, all it does to the directories is to move: every newly published file was staged,
  under a name that it is published as, with the same size, and is gone from the staging directory; and nothing else
  is gone from there. When it raises no error, the init segment is published if it was staged, every staged file that
  names a segment has its segment published, and the frontier is the longest run of the published segments.\<close>

theorem publish_outputs_sound_complete:
  assumes "publish_epoch_outputs stamp clock el e = (err, e')" and "frontier_current e"
  shows "keeps_published e e' \<and> frontier_current e'
     \<and> (\<forall>name. dict_get (ep_published_dir e') name \<noteq> dict_get (ep_published_dir e) name
          \<longrightarrow> (\<exists>staged. moved_file e e' staged name))
     \<and> (\<forall>staged. dict_get (ep_staging_dir e') staged \<noteq> dict_get (ep_staging_dir e) staged
          \<longrightarrow> (\<exists>name. moved_file e e' staged name))
     \<and> (err = None \<longrightarrow>
          (dict_get (ep_staging_dir e) init_file \<noteq> None \<longrightarrow> ep_init_published e')
          \<and> (\<forall>name i. dict_get (ep_staging_dir e) name \<noteq> None \<and> segment_of_name name = Some i
               \<longrightarrow> i \<in> set (ep_published_segments e'))
          \<and> (ep_init_published e' \<longrightarrow> ep_contiguous_through e' = contiguous_segment_frontier (ep_published_segments e')))"
proof -
  have moves: "only_moves e e'"
    using assms(1) publish_init_moves[of stamp clock el e] publish_staged_moves only_moves_trans
    by (auto simp: publish_epoch_outputs_def split: prod.splits option.splits if_splits)
  obtain err1 e1 where one: "(if dict_get (ep_staging_dir e) init_file \<noteq> None \<and> \<not> ep_init_published e
      then publish_init stamp clock el e else (None, e)) = (err1, e1)" by fastforce
  have e1: "keeps_published e e1" "frontier_current e1"
    "err1 = None \<longrightarrow> dict_get (ep_staging_dir e) init_file \<noteq> None \<longrightarrow> ep_init_published e1"
    using one publish_init_effect[of stamp clock el e err1 e1] assms(2) by (auto split: if_splits)
  show ?thesis
  proof (cases err1)
    case None
    then have rest: "publish_staged stamp clock el (sort (filter matches_segment_glob (map fst (ep_staging_dir e1)))) e1
        = (err, e')"
      using assms(1) one by (simp add: publish_epoch_outputs_def)
    note st = publish_staged_effect[OF rest e1(2)]
    have staged: "i \<in> set (ep_published_segments e')"
      if "err = None" "dict_get (ep_staging_dir e) name \<noteq> None" "segment_of_name name = Some i" for name i
    proof -
      have "name \<noteq> init_file" using that(3) init_file_no_segment by auto
      then have "dict_get (ep_staging_dir e1) name \<noteq> None"
        using that(2) one publish_init_staging[of stamp clock el e err1 e1 name] by (auto split: if_splits)
      then have "name \<in> set (sort (filter matches_segment_glob (map fst (ep_staging_dir e1))))"
        using segment_name_matches[OF that(3)] by (simp add: dict_get_None_iff)
      with st that(1,3) show ?thesis by blast
    qed
    have "keeps_published e e'" using e1(1) st keeps_published_trans by blast
    then show ?thesis using e1 st staged None moves by (auto simp: frontier_current_def only_moves_def)
  next
    case (Some x)
    then have "err = Some x" "e' = e1" using assms(1) one by (simp_all add: publish_epoch_outputs_def)
    then show ?thesis using e1 moves by (auto simp: only_moves_def)
  qed
qed

theorem publish_outputs_sound_complete_witness:
  "\<exists>err e'. publish_epoch_outputs '''' 0 (\<lambda>_. 0) (new_epoch ''e'' ''s'' '''' 0 0 0 None 0
       \<lparr>ep_staging_dir := [(''init.mp4'', 700), (''segment_000000.m4s'', 900)]\<rparr>) = (err, e')
     \<and> err = None \<and> ep_init_published e' \<and> 0 \<in> set (ep_published_segments e')"
proof -
  let ?e = "new_epoch ''e'' ''s'' '''' 0 0 0 None 0
       \<lparr>ep_staging_dir := [(''init.mp4'', 700), (''segment_000000.m4s'', 900)]\<rparr>"
  have name: "''segment_000000.m4s'' = segment_file_name 0"
    by code_simp
  have cur: "frontier_current ?e" by (simp add: frontier_current_def listed_segments_def new_epoch_def)
  have tok: "segment_of_name ''segment_000000.m4s'' = Some 0" unfolding name segment_name_roundtrip by simp
  obtain err e' where r: "publish_epoch_outputs '''' 0 (\<lambda>_. 0) ?e = (err, e')" by fastforce
  have "err = None"
    using r tok init_file_no_segment
    by (auto simp: publish_epoch_outputs_def publish_init_def publish_segment_def move_if_absent_def init_file_def
        new_epoch_def matches_segment_glob_def starts_with_def ends_with_def Let_def split: if_splits)
  note c = publish_outputs_sound_complete[OF r cur, THEN conjunct2, THEN conjunct2, THEN conjunct2, THEN conjunct2, rule_format, OF \<open>err = None\<close>]
  have "ep_init_published e'" using c by (auto simp: init_file_def)
  moreover have "0 \<in> set (ep_published_segments e')"
    using conjunct1[OF conjunct2[OF c], rule_format, of "''segment_000000.m4s''" 0] tok by simp
  ultimately show ?thesis using r \<open>err = None\<close> by blast
qed

end
