(* ===== verification/Route2_Epochs.thy ===== *)
theory Route2_Epochs
  imports Epoch_Publication
begin

text \<open>
  The life of epochs in a session: \<^verbatim>\<open>services/mobile_playback_route2_epoch_lifecycle.py\<close>,
  \<^verbatim>\<open>services/mobile_playback_route2_epoch_access.py\<close> and the operations of
  \<^verbatim>\<open>MobilePlaybackManager\<close> that create, promote and drain epochs and issue attach revisions.

  The state is the session and the table of running workers. \<open>clock\<close> is \<^verbatim>\<open>time.time()\<close> and
  \<open>stamp\<close> is \<^verbatim>\<open>utcnow_iso()\<close> at the call, \<open>new_id\<close> the fresh \<^verbatim>\<open>uuid4().hex\<close>. Log events, metadata files,
  the records of workers shown to administrators and the deletion of directories are not modelled.
\<close>

type_synonym worker_table = "(string \<times> string) list"

definition update_epoch :: "string \<Rightarrow> (playback_epoch \<Rightarrow> playback_epoch) \<Rightarrow> browser_session \<Rightarrow> browser_session" where
  "update_epoch eid f b =
     (case dict_get (bs_epochs b) eid of
        None \<Rightarrow> b
      | Some e \<Rightarrow> b\<lparr>bs_epochs := dict_set (bs_epochs b) eid (f e)\<rparr>)"

definition epoch_of :: "browser_session \<Rightarrow> string option \<Rightarrow> playback_epoch option" where
  "epoch_of b eid = (if truthy_string eid then dict_get (bs_epochs b) (the eid) else None)"

section \<open>Building and ending an epoch\<close>

definition build_epoch :: "string \<Rightarrow> string \<Rightarrow> real \<Rightarrow> real option \<Rightarrow> mobile_session \<Rightarrow> playback_epoch" where
  "build_epoch new_id stamp clock target_override s =
     (let target = clamp_time (case target_override of None \<Rightarrow> ms_target s | Some t \<Rightarrow> t) (ms_duration s)
      in new_epoch new_id (ms_id s) stamp target (max 0 (py_round 2 (target - 20))) target
           (as_selected (bs_audio (ms_browser s))) clock)"

definition ensure_workspace :: "string \<Rightarrow> real \<Rightarrow> playback_epoch \<Rightarrow> playback_epoch" where
  "ensure_workspace stamp clock e = rebuild_published_frontier stamp clock e"

definition terminate_epoch :: "worker_table \<Rightarrow> playback_epoch \<Rightarrow> playback_epoch \<times> worker_table" where
  "terminate_epoch workers e =
     (e\<lparr>ep_stop_requested := True, ep_worker := (if truthy_string (ep_worker e) then None else ep_worker e),
        ep_process := None\<rparr>,
      if truthy_string (ep_worker e) then dict_pop workers (the (ep_worker e)) else workers)"

text \<open>The wrapper of the manager clears the worker in every case.\<close>

definition terminate_managed :: "worker_table \<Rightarrow> playback_epoch \<Rightarrow> playback_epoch \<times> worker_table" where
  "terminate_managed workers e =
     (let (e', workers') = terminate_epoch workers e in (e'\<lparr>ep_worker := None\<rparr>, workers'))"

definition discard_epoch :: "string \<Rightarrow> browser_session \<times> worker_table \<Rightarrow> browser_session \<times> worker_table" where
  "discard_epoch eid bw =
     (let (b, workers) = bw;
          b' = (if bs_replacement b = Some eid then b\<lparr>bs_replacement := None\<rparr> else b)
      in case dict_get (bs_epochs b) eid of
           None \<Rightarrow> (b', workers)
         | Some e \<Rightarrow> (b'\<lparr>bs_epochs := dict_pop (bs_epochs b) eid\<rparr>, snd (terminate_managed workers e)))"

definition initialize_session ::
  "string \<Rightarrow> string \<Rightarrow> int list option \<Rightarrow> real \<Rightarrow> mobile_session \<Rightarrow> mobile_session" where
  "initialize_session new_id stamp cached clock s =
     (let b = (ms_browser s)\<lparr>bs_state := ''starting'', bs_attach_revision := 0, bs_client_revision := 0,
                bs_attach_issued_at := 0, bs_last_attach_warning := 0, bs_replacement := None,
                bs_retry_not_before := 0, bs_replacement_count := 0, bs_preflight_error := None,
                bs_prepare_started := (if bs_playback_mode (ms_browser s) = ''full'' then clock else 0),
                bs_probes := []\<rparr>;
          e = build_epoch new_id stamp clock None (s\<lparr>ms_browser := b\<rparr>);
          s1 = s\<lparr>ms_browser := b\<lparr>bs_active := Some (ep_id e),
                   bs_epochs := dict_set (bs_epochs b) (ep_id e) (ensure_workspace stamp clock e)\<rparr>\<rparr>;
          s2 = fst (ensure_full_preflight cached clock s1)
      in s2\<lparr>ms_worker_state := ''idle'', ms_pending_target := None, ms_ready_start := 0, ms_ready_end := 0,
           ms_state := ''preparing''\<rparr>)"

section \<open>Draining\<close>

definition epoch_draining_expired :: "browser_session \<Rightarrow> real option \<Rightarrow> real \<Rightarrow> playback_epoch \<Rightarrow> bool" where
  "epoch_draining_expired b now_arg clock e =
     (if ep_state e \<noteq> ''draining'' then False
      else if bs_active b = Some (ep_id e) then False
      else
        let now = or_real now_arg clock;
            started = or_real (ep_drain_started e) now;
            accessed = or_real (Some (ep_last_access e)) started;
            caught_up = (ep_drain_revision e > 0 \<and> bs_client_revision b \<ge> ep_drain_revision e)
        in if caught_up \<and> now - accessed \<ge> ROUTE2_DRAIN_IDLE_GRACE_SECONDS then True
           else now - started \<ge> ROUTE2_DRAIN_MAX_SECONDS)"

definition cleanup_one :: "real \<Rightarrow> string \<times> playback_epoch \<Rightarrow> browser_session \<times> worker_table \<Rightarrow> browser_session \<times> worker_table" where
  "cleanup_one now item bw =
     (let (eid, e) = item; b = fst bw in
      if bs_active b = Some eid \<or> bs_replacement b = Some eid then bw
      else if \<not> epoch_draining_expired b (Some now) now e then bw
      else discard_epoch eid bw)"

definition cleanup_draining :: "real option \<Rightarrow> real \<Rightarrow> browser_session \<times> worker_table \<Rightarrow> browser_session \<times> worker_table" where
  "cleanup_draining now_arg clock bw =
     foldl (\<lambda>acc item. cleanup_one (or_real now_arg clock) item acc) bw (bs_epochs (fst bw))"

definition mark_draining :: "real \<Rightarrow> int option \<Rightarrow> playback_epoch \<Rightarrow> playback_epoch" where
  "mark_draining now required_revision e =
     (let e1 = e\<lparr>ep_state := ''draining'',
                 ep_drain_started := (case ep_drain_started e of None \<Rightarrow> Some now | Some t \<Rightarrow> Some t),
                 ep_last_access := max (ep_last_access e) now\<rparr>
      in case required_revision of
           None \<Rightarrow> e1
         | Some r \<Rightarrow> e1\<lparr>ep_drain_revision := max (ep_drain_revision e1) r\<rparr>)"

definition touch_session :: "string \<Rightarrow> real \<Rightarrow> int \<Rightarrow> bool \<Rightarrow> mobile_session \<Rightarrow> mobile_session" where
  "touch_session stamp clock ttl_minutes media_access s =
     s\<lparr>ms_last_client_seen := stamp,
       ms_last_media_access := (if media_access then stamp else ms_last_media_access s),
       ms_expires_at := clock + of_int (ttl_minutes * 60)\<rparr>"

definition prepare_epoch_access ::
  "string \<Rightarrow> real \<Rightarrow> int \<Rightarrow> string \<Rightarrow> playback_epoch \<Rightarrow> mobile_session \<times> worker_table
     \<Rightarrow> py_error option \<times> mobile_session \<times> worker_table" where
  "prepare_epoch_access stamp clock ttl eid e sw =
     (let (s0, workers0) = sw;
          s1 = touch_session stamp clock ttl True s0;
          (b, workers) = cleanup_draining (Some clock) clock (ms_browser s1, workers0);
          access = (\<lambda>b. update_epoch eid (\<lambda>x. x\<lparr>ep_last_access := clock\<rparr>) b);
          gone = Some (FileNotFoundError ''Route 2 epoch is no longer active'')
      in if bs_active b = Some (ep_id e) \<or> bs_replacement b = Some (ep_id e)
         then (None, s1\<lparr>ms_browser := access b\<rparr>, workers)
         else if ep_state e = ''draining'' then
           (if epoch_draining_expired b (Some clock) clock e
            then let (b', workers') = discard_epoch (ep_id e) (b, workers) in (gone, s1\<lparr>ms_browser := b'\<rparr>, workers')
            else (None, s1\<lparr>ms_browser := access b\<rparr>, workers))
         else (gone, s1\<lparr>ms_browser := b\<rparr>, workers))"

section \<open>Audio switch bookkeeping\<close>

definition clear_audio_candidate :: "audio_switch \<Rightarrow> audio_switch" where
  "clear_audio_candidate a =
     a\<lparr>as_candidate_epoch := None, as_candidate_stream := None, as_candidate_state := ''none'',
       as_candidate_error := None, as_candidate_created := 0, as_candidate_ready := 0,
       as_candidate_expires := 0, as_commit_requested := 0\<rparr>"

definition set_audio_switch_failed :: "string \<Rightarrow> audio_switch \<Rightarrow> audio_switch" where
  "set_audio_switch_failed reason a =
     (let a1 = (clear_audio_candidate a)\<lparr>as_pending := None, as_state := ''failed'',
                 as_error := Some (py_strip (if reason = [] then ''Could not switch audio track'' else reason))\<rparr>
      in if as_active a1 \<noteq> None then a1\<lparr>as_selected := as_active a1\<rparr> else a1)"

definition fail_audio_switch :: "playback_epoch \<Rightarrow> string option \<Rightarrow> audio_switch \<Rightarrow> audio_switch" where
  "fail_audio_switch replacement reason a =
     (if ep_replacement_reason replacement \<noteq> Some ''audio_track_switch'' then a
      else set_audio_switch_failed
             (py_strip (or_string reason (or_string (ep_last_error replacement) ''Could not switch audio track''))) a)"

definition audio_candidate_epoch :: "browser_session \<Rightarrow> playback_epoch option" where
  "audio_candidate_epoch b =
     (let cid = (if truthy_string (as_candidate_epoch (bs_audio b)) then as_candidate_epoch (bs_audio b)
                 else bs_replacement b) in
      if \<not> truthy_string cid then None
      else case dict_get (bs_epochs b) (the cid) of
             None \<Rightarrow> None
           | Some c \<Rightarrow>
               if ep_replacement_reason c \<noteq> Some ''audio_track_switch'' then None
               else if bs_replacement b \<noteq> Some (ep_id c) then None else Some c)"

definition audio_switch_in_progress :: "browser_session \<Rightarrow> bool" where
  "audio_switch_in_progress b =
     (let a = bs_audio b; state = py_lower (py_strip (as_state a)) in
      if state = ''committing'' then bs_client_revision b < bs_attach_revision b
      else if state \<in> {''preparing'', ''candidate_preparing'', ''candidate_ready''} then True
      else if as_pending a \<noteq> None then True
      else if truthy_string (as_candidate_epoch a) then True
      else if (case epoch_of b (bs_replacement b) of None \<Rightarrow> False
               | Some r \<Rightarrow> ep_replacement_reason r = Some ''audio_track_switch'') then True
      else state = ''active'' \<and> as_active a \<noteq> None \<and> bs_attach_revision b > 0
           \<and> bs_client_revision b < bs_attach_revision b)"

definition cancel_audio_candidate ::
  "string \<Rightarrow> bool \<Rightarrow> browser_session \<times> worker_table \<Rightarrow> browser_session \<times> worker_table" where
  "cancel_audio_candidate reason failed bw =
     (let (b, workers) = bw;
          cid = as_candidate_epoch (bs_audio b);
          (b1, workers1) =
            (case audio_candidate_epoch b of
               Some c \<Rightarrow> discard_epoch (ep_id c) (b, workers)
             | None \<Rightarrow> if truthy_string cid then discard_epoch (the cid) (b, workers) else (b, workers));
          a = clear_audio_candidate ((bs_audio b1)\<lparr>as_pending := None, as_selected := as_active (bs_audio b1)\<rparr>);
          a' = (if failed
                then a\<lparr>as_state := ''failed'',
                       as_error := Some (py_strip (if reason = [] then ''Could not switch audio track'' else reason))\<rparr>
                else a\<lparr>as_state := ''active'', as_error := None\<rparr>)
      in (b1\<lparr>bs_replacement := None, bs_audio := a'\<rparr>, workers1))"

section \<open>Attach revisions, replacement and promotion\<close>

definition guard_full_attach_boundary ::
  "int list option \<Rightarrow> real \<Rightarrow> playback_epoch option \<Rightarrow> bool \<Rightarrow> string \<Rightarrow> mobile_session
     \<Rightarrow> (py_error + bool) \<times> mobile_session" where
  "guard_full_attach_boundary cached clock epoch eligible path s =
     (if \<not> eligible then (Inr False, s)
      else case epoch of
        None \<Rightarrow> (Inr True, s)
      | Some e \<Rightarrow>
          if \<not> full_mode_requires_initial_attach_gate s then (Inr True, s)
          else
            let (r, s1) = full_mode_gate cached clock s e; b = ms_browser s1 in
            (case r of
               Inl err \<Rightarrow> (Inl err, s1)
             | Inr g \<Rightarrow>
                 if fg_ready g then (Inr True, s1\<lparr>ms_browser := b\<lparr>bs_violation_signature := []\<rparr>\<rparr>)
                 else (Inr False, s1\<lparr>ms_browser := b\<lparr>bs_violation_signature :=
                   path @ '':'' @ ep_id e @ '':'' @ show_int (bs_attach_revision b) @ '':'' @ fg_state g\<rparr>\<rparr>)))"

definition issue_attach_revision ::
  "int list option \<Rightarrow> real \<Rightarrow> int \<Rightarrow> string \<Rightarrow> playback_epoch option \<Rightarrow> mobile_session \<Rightarrow> py_error option \<times> mobile_session" where
  "issue_attach_revision cached clock next_revision reason epoch s =
     (let n = max 0 next_revision in
      if bs_attach_revision (ms_browser s) = n then (None, s)
      else
        let (allowed, s1) = (if n > 0
               then guard_full_attach_boundary cached clock epoch True (''issue_attach_revision:'' @ reason) s
               else (Inr True, s))
        in case allowed of
             Inl err \<Rightarrow> (Some err, s1)
           | Inr False \<Rightarrow> (None, s1)
           | Inr True \<Rightarrow>
               (None, s1\<lparr>ms_browser := (ms_browser s1)\<lparr>bs_attach_revision := n,
                  bs_attach_issued_at := (if n > 0 then clock else 0), bs_last_attach_warning := 0\<rparr>\<rparr>))"

definition replacement_cap_message :: string where
  "replacement_cap_message =
     ''Browser Playback Route 2 reached the maximum number of replacement epochs for this session.''"

text \<open>What is left of the session after the replacement in progress is thrown away.\<close>

definition drop_replacement :: "string \<Rightarrow> browser_session \<times> worker_table \<Rightarrow> browser_session \<times> worker_table" where
  "drop_replacement reason bw =
     (let (b0, workers0) = bw in
      if truthy_string (bs_replacement b0) then
        let b' = (case dict_get (bs_epochs b0) (the (bs_replacement b0)) of
               Some x \<Rightarrow> if ep_replacement_reason x = Some ''audio_track_switch'' \<and> reason \<noteq> ''audio_track_switch''
                 then b0\<lparr>bs_audio := fail_audio_switch x
                        (Some ''Audio switch was superseded by another playback recovery.'') (bs_audio b0)\<rparr>
                 else b0
             | None \<Rightarrow> b0)
        in discard_epoch (the (bs_replacement b0)) (b', workers0)
      else (b0, workers0))"

definition create_replacement_epoch ::
  "int \<Rightarrow> string \<Rightarrow> string \<Rightarrow> real \<Rightarrow> real \<Rightarrow> string \<Rightarrow> bool \<Rightarrow> mobile_session \<times> worker_table
     \<Rightarrow> playback_epoch option \<times> mobile_session \<times> worker_table" where
  "create_replacement_epoch cap new_id stamp clock target reason mutate sw =
     (let (s0, workers0) = sw;
          (b1, workers) = drop_replacement reason (ms_browser s0, workers0);
          s1 = s0\<lparr>ms_browser := b1\<rparr>
      in if bs_replacement_count b1 \<ge> cap
         then (None, s1\<lparr>ms_browser := b1\<lparr>bs_state := ''failed''\<rparr>, ms_state := ''failed'',
                        ms_last_error := Some replacement_cap_message\<rparr>, workers)
         else
           let safe_target = clamp_time target (ms_duration s1);
               s2 = s1\<lparr>ms_epoch := ms_epoch s1 + 1\<rparr>;
               s3 = (if mutate then s2\<lparr>ms_target := safe_target, ms_pending_target := Some safe_target\<rparr> else s2);
               e = (build_epoch new_id stamp clock (if mutate then None else Some safe_target) s3)
                     \<lparr>ep_replacement_reason := Some reason\<rparr>;
               e' = ensure_workspace stamp clock e
           in (Some e', s3\<lparr>ms_browser := b1\<lparr>bs_replacement := Some new_id,
                 bs_epochs := dict_set (bs_epochs b1) new_id e',
                 bs_replacement_count := bs_replacement_count b1 + 1, bs_retry_not_before := 0\<rparr>\<rparr>, workers))"

text \<open>The previous active epoch is drained and its worker ended, but its stop flag is cleared again.\<close>

definition retire_active ::
  "real \<Rightarrow> int \<Rightarrow> string \<Rightarrow> browser_session \<times> worker_table \<Rightarrow> browser_session \<times> worker_table" where
  "retire_active clock next_revision replacement_id bw =
     (let (b, workers) = bw in
      case epoch_of b (bs_active b) of
        None \<Rightarrow> (b, workers)
      | Some previous \<Rightarrow>
          if ep_id previous = replacement_id then (b, workers)
          else
            let (e, workers') = terminate_managed workers (mark_draining clock (Some next_revision) previous)
            in (b\<lparr>bs_epochs := dict_set (bs_epochs b) (the (bs_active b)) (e\<lparr>ep_stop_requested := False\<rparr>)\<rparr>, workers'))"

definition commit_audio_switch :: "playback_epoch option \<Rightarrow> playback_epoch \<Rightarrow> audio_switch \<Rightarrow> audio_switch" where
  "commit_audio_switch previous replacement a =
     (if ep_replacement_reason replacement \<noteq> Some ''audio_track_switch'' then a
      else clear_audio_candidate
             (a\<lparr>as_previous_epoch := (case previous of Some p \<Rightarrow> Some (ep_id p) | None \<Rightarrow> as_previous_epoch a),
                as_previous_stream := as_active a, as_active := ep_audio_stream replacement,
                as_selected := ep_audio_stream replacement, as_pending := None,
                as_state := ''committing'', as_error := None\<rparr>))"

definition promote_replacement_epoch ::
  "int list option \<Rightarrow> real \<Rightarrow> playback_epoch \<Rightarrow> mobile_session \<times> worker_table
     \<Rightarrow> py_error option \<times> mobile_session \<times> worker_table" where
  "promote_replacement_epoch cached clock replacement sw =
     (let (s0, workers0) = sw; b0 = ms_browser s0;
          next_revision = max 1 (bs_attach_revision b0 + 1);
          previous = epoch_of b0 (bs_active b0);
          (b1, workers) = retire_active clock next_revision (ep_id replacement) (b0, workers0);
          s1 = s0\<lparr>ms_browser := b1\<lparr>bs_active := Some (ep_id replacement), bs_replacement := None,
                    bs_audio := commit_audio_switch previous replacement (bs_audio b1)\<rparr>\<rparr>;
          (err, s2) = issue_attach_revision cached clock next_revision ''replacement_promotion'' (Some replacement) s1
      in case err of
           Some x \<Rightarrow> (Some x, s2, workers)
         | None \<Rightarrow> (None, s2\<lparr>ms_target := ep_attach replacement, ms_pending_target := Some (ep_attach replacement),
                             ms_last_error := None\<rparr>, workers))"

definition acknowledge_revision :: "int \<Rightarrow> browser_session \<Rightarrow> browser_session" where
  "acknowledge_revision reported b =
     b\<lparr>bs_client_revision := min (bs_attach_revision b) (max (bs_client_revision b) (max 0 reported))\<rparr>"

section \<open>The invariant of a session's epochs\<close>

definition epochs_wf :: "browser_session \<Rightarrow> bool" where
  "epochs_wf b =
     (dict_wf (bs_epochs b)
      \<and> (\<forall>(eid, e) \<in> set (bs_epochs b). ep_id e = eid \<and> eid \<noteq> [])
      \<and> (\<forall>a. bs_active b = Some a \<longrightarrow> dict_get (bs_epochs b) a \<noteq> None)
      \<and> (\<forall>r. bs_replacement b = Some r \<longrightarrow> dict_get (bs_epochs b) r \<noteq> None \<and> bs_active b \<noteq> Some r)
      \<and> 0 \<le> bs_attach_revision b \<and> 0 \<le> bs_client_revision b \<and> bs_client_revision b \<le> bs_attach_revision b)"

lemma set_dict_set: "set (dict_set d k v) \<subseteq> insert (k, v) (set d)"
  by (induction d) (auto split: if_splits)

lemma set_dict_pop: "set (dict_pop d k) \<subseteq> set d"
  by (induction d) (auto split: if_splits)

lemma epochs_wf_id: "epochs_wf b \<Longrightarrow> dict_get (bs_epochs b) eid = Some e \<Longrightarrow> ep_id e = eid \<and> eid \<noteq> []"
  by (auto simp: epochs_wf_def dest!: dict_get_SomeD)

lemma terminate_keeps [simp]:
  "ep_id (fst (terminate_managed w e)) = ep_id e" "ep_state (fst (terminate_managed w e)) = ep_state e"
  "ep_worker (fst (terminate_managed w e)) = None" "ep_process (fst (terminate_managed w e)) = None"
  "ep_drain_started (fst (terminate_managed w e)) = ep_drain_started e"
  "ep_drain_revision (fst (terminate_managed w e)) = ep_drain_revision e"
  by (simp_all add: terminate_managed_def terminate_epoch_def)

lemma mark_draining_facts [simp]:
  "ep_id (mark_draining now r e) = ep_id e" "ep_state (mark_draining now r e) = ''draining''"
  "ep_drain_started (mark_draining now r e) \<noteq> None"
  by (simp_all add: mark_draining_def Let_def split: option.splits)

lemma mark_draining_revision: "r \<le> ep_drain_revision (mark_draining now (Some r) e)"
  by (simp add: mark_draining_def)

text \<open>One lemma per operation: it keeps the invariant.\<close>

lemma discard_epoch_wf:
  assumes "epochs_wf b" and "bs_active b \<noteq> Some eid"
  shows "epochs_wf (fst (discard_epoch eid (b, w)))"
  using assms set_dict_pop[of "bs_epochs b" eid]
  by (auto simp: epochs_wf_def discard_epoch_def Let_def split: option.splits)

lemma discard_epoch_fields [simp]:
  "bs_active (fst (discard_epoch eid (b, w))) = bs_active b"
  "bs_attach_revision (fst (discard_epoch eid (b, w))) = bs_attach_revision b"
  "bs_client_revision (fst (discard_epoch eid (b, w))) = bs_client_revision b"
  "bs_replacement_count (fst (discard_epoch eid (b, w))) = bs_replacement_count b"
  "dict_get (bs_epochs (fst (discard_epoch eid (b, w)))) k = (if k = eid then None else dict_get (bs_epochs b) k)"
  "bs_replacement (fst (discard_epoch eid (b, w))) = (if bs_replacement b = Some eid then None else bs_replacement b)"
  by (auto simp: discard_epoch_def Let_def split: option.splits)

lemma update_epoch_wf:
  assumes "epochs_wf b" and "\<And>e. ep_id (f e) = ep_id e"
  shows "epochs_wf (update_epoch eid f b)"
proof (cases "dict_get (bs_epochs b) eid")
  case (Some e)
  then have "ep_id (f e) = eid \<and> eid \<noteq> []" using epochs_wf_id[OF assms(1)] assms(2) by simp
  then show ?thesis
    using assms(1) Some set_dict_set[of "bs_epochs b" eid "f e"]
    by (auto simp: epochs_wf_def update_epoch_def split: option.splits)
qed (use assms in \<open>simp add: update_epoch_def\<close>)

lemma acknowledge_wf: "epochs_wf b \<Longrightarrow> epochs_wf (acknowledge_revision n b)"
  by (auto simp: epochs_wf_def acknowledge_revision_def)

definition same_epochs :: "browser_session \<Rightarrow> browser_session \<Rightarrow> bool" where
  "same_epochs b c =
     (bs_epochs b = bs_epochs c \<and> bs_active b = bs_active c \<and> bs_replacement b = bs_replacement c
      \<and> bs_client_revision b = bs_client_revision c \<and> bs_replacement_count b = bs_replacement_count c
      \<and> bs_engine_mode b = bs_engine_mode c \<and> bs_playback_mode b = bs_playback_mode c)"

lemma ensure_preflight_same:
  "same_epochs (ms_browser (fst (ensure_full_preflight cached clock s))) (ms_browser s)
   \<and> bs_attach_revision (ms_browser (fst (ensure_full_preflight cached clock s))) = bs_attach_revision (ms_browser s)
   \<and> bs_audio (ms_browser (fst (ensure_full_preflight cached clock s))) = bs_audio (ms_browser s)"
  by (auto simp: ensure_full_preflight_def load_preflight_cache_def same_epochs_def Let_def split: option.splits if_splits)

lemma full_mode_gate_session:
  "snd (full_mode_gate cached clock s e) = s \<or> snd (full_mode_gate cached clock s e) = fst (ensure_full_preflight cached clock s)"
  by (simp add: full_mode_gate_def Let_def)

lemma full_mode_gate_same:
  "same_epochs (ms_browser (snd (full_mode_gate cached clock s e))) (ms_browser s)
   \<and> bs_attach_revision (ms_browser (snd (full_mode_gate cached clock s e))) = bs_attach_revision (ms_browser s)
   \<and> bs_audio (ms_browser (snd (full_mode_gate cached clock s e))) = bs_audio (ms_browser s)"
  using full_mode_gate_session[of cached clock s e] ensure_preflight_same[of cached clock s]
  by (auto simp: same_epochs_def)

definition same_revision :: "browser_session \<Rightarrow> browser_session \<Rightarrow> bool" where
  "same_revision b c = (same_epochs b c \<and> bs_attach_revision b = bs_attach_revision c \<and> bs_audio b = bs_audio c)"

lemma same_revision_refl [simp]: "same_revision b b"
  by (simp add: same_revision_def same_epochs_def)

lemma guard_same:
  assumes "guard_full_attach_boundary cached clock epoch eligible path s = (r, s')"
  shows "same_revision (ms_browser s') (ms_browser s)"
proof (cases "eligible \<and> full_mode_requires_initial_attach_gate s")
  case False
  then have "s' = s" using assms by (cases epoch) (auto simp: guard_full_attach_boundary_def split: if_splits)
  then show ?thesis by simp
next
  case True
  show ?thesis
  proof (cases epoch)
    case None
    then show ?thesis using assms True by (simp add: guard_full_attach_boundary_def)
  next
    case (Some e)
    obtain g t where g: "full_mode_gate cached clock s e = (g, t)" by fastforce
    have t: "same_revision (ms_browser t) (ms_browser s)"
      using full_mode_gate_same[of cached clock s e] g by (simp add: same_revision_def)
    have "\<exists>x. ms_browser s' = ms_browser t \<or> ms_browser s' = (ms_browser t)\<lparr>bs_violation_signature := x\<rparr>"
      using assms True Some g
      by (cases g) (auto simp: guard_full_attach_boundary_def Let_def split: if_splits)
    with t show ?thesis by (auto simp: same_revision_def same_epochs_def)
  qed
qed

text \<open>Issuing a revision either withholds it or sets it.\<close>

lemma issue_cases:
  assumes "issue_attach_revision cached clock n reason epoch s = (err, s')"
  obtains t where "same_revision (ms_browser t) (ms_browser s)"
    "s' = t \<or> s' = t\<lparr>ms_browser := (ms_browser t)\<lparr>bs_attach_revision := max 0 n,
        bs_attach_issued_at := (if max 0 n > 0 then clock else 0), bs_last_attach_warning := 0\<rparr>\<rparr>"
proof (cases "bs_attach_revision (ms_browser s) = max 0 n")
  case True
  then have "s' = s" using assms by (simp add: issue_attach_revision_def)
  then show thesis by (intro that[of s]) simp_all
next
  case False
  obtain r t where r: "(if max 0 n > 0 then guard_full_attach_boundary cached clock epoch True (''issue_attach_revision:'' @ reason) s
      else (Inr True, s)) = (r, t)" by fastforce
  have t: "same_revision (ms_browser t) (ms_browser s)"
  proof (cases "max 0 n > 0")
    case True
    then have "guard_full_attach_boundary cached clock epoch True (''issue_attach_revision:'' @ reason) s = (r, t)"
      using r by (simp only: True if_True)
    then show ?thesis by (rule guard_same)
  qed (use r in simp)
  have run: "(case r of Inl err \<Rightarrow> (Some err, t) | Inr False \<Rightarrow> (None, t)
      | Inr True \<Rightarrow> (None, t\<lparr>ms_browser := (ms_browser t)\<lparr>bs_attach_revision := max 0 n,
          bs_attach_issued_at := (if max 0 n > 0 then clock else 0), bs_last_attach_warning := 0\<rparr>\<rparr>)) = (err, s')"
    using assms False unfolding issue_attach_revision_def Let_def by (simp only: r prod.case if_False)
  show thesis
  proof (cases r)
    case (Inl e)
    then have "s' = t" using run by simp
    then show thesis by (intro that[OF t] disjI1)
  next
    case (Inr ok)
    show thesis
    proof (cases ok)
      case True
      then have "s' = t\<lparr>ms_browser := (ms_browser t)\<lparr>bs_attach_revision := max 0 n,
          bs_attach_issued_at := (if max 0 n > 0 then clock else 0), bs_last_attach_warning := 0\<rparr>\<rparr>"
        using run Inr by simp
      then show thesis by (intro that[OF t] disjI2)
    next
      case False
      then have "s' = t" using run Inr by simp
      then show thesis by (intro that[OF t] disjI1)
    qed
  qed
qed

lemma issue_same:
  assumes "issue_attach_revision cached clock n reason epoch s = (err, s')"
  shows "same_epochs (ms_browser s') (ms_browser s) \<and> bs_audio (ms_browser s') = bs_audio (ms_browser s)
       \<and> (bs_attach_revision (ms_browser s') = bs_attach_revision (ms_browser s)
          \<or> bs_attach_revision (ms_browser s') = max 0 n)"
  by (rule issue_cases[OF assms]) (auto simp: same_revision_def same_epochs_def)

lemma epochs_wf_same:
  "same_epochs b c \<Longrightarrow> epochs_wf c \<Longrightarrow> bs_attach_revision c \<le> bs_attach_revision b \<Longrightarrow> epochs_wf b"
  by (auto simp: same_epochs_def epochs_wf_def)

lemma issue_wf:
  assumes "issue_attach_revision cached clock n reason epoch s = (err, s')" and "epochs_wf (ms_browser s)"
    and "bs_attach_revision (ms_browser s) \<le> max 0 n"
  shows "epochs_wf (ms_browser s')"
proof -
  note same = issue_same[OF assms(1)]
  then have "bs_attach_revision (ms_browser s) \<le> bs_attach_revision (ms_browser s')" using assms(3) by auto
  with same assms(2) show ?thesis using epochs_wf_same by blast
qed

lemma cleanup_one_wf:
  assumes "epochs_wf (fst bw)"
  shows "epochs_wf (fst (cleanup_one now item bw))"
  using assms discard_epoch_wf[of "fst bw" "fst item" "snd bw"]
  by (auto simp: cleanup_one_def Let_def split: prod.splits)

lemma cleanup_one_fields [simp]:
  "bs_active (fst (cleanup_one now item bw)) = bs_active (fst bw)"
  "bs_replacement (fst (cleanup_one now item bw)) = bs_replacement (fst bw)"
  "bs_attach_revision (fst (cleanup_one now item bw)) = bs_attach_revision (fst bw)"
  "bs_client_revision (fst (cleanup_one now item bw)) = bs_client_revision (fst bw)"
  "bs_replacement_count (fst (cleanup_one now item bw)) = bs_replacement_count (fst bw)"
  by (cases bw; cases item; simp add: cleanup_one_def Let_def)+

lemma expired_same:
  "bs_active b = bs_active c \<Longrightarrow> bs_client_revision b = bs_client_revision c
   \<Longrightarrow> epoch_draining_expired b n clk e = epoch_draining_expired c n clk e"
  by (simp add: epoch_draining_expired_def)

lemma cleanup_one_get:
  "dict_get (bs_epochs (fst (cleanup_one now (eid, e) bw))) k
     = (if k = eid \<and> bs_active (fst bw) \<noteq> Some eid \<and> bs_replacement (fst bw) \<noteq> Some eid
             \<and> epoch_draining_expired (fst bw) (Some now) now e
        then None else dict_get (bs_epochs (fst bw)) k)"
  by (cases bw) (simp add: cleanup_one_def Let_def)

lemma cleanup_fold:
  fixes now :: real
  defines "run \<equiv> foldl (\<lambda>acc item. cleanup_one now item acc)"
  shows "bs_active (fst (run bw items)) = bs_active (fst bw)
       \<and> bs_replacement (fst (run bw items)) = bs_replacement (fst bw)
       \<and> bs_attach_revision (fst (run bw items)) = bs_attach_revision (fst bw)
       \<and> bs_client_revision (fst (run bw items)) = bs_client_revision (fst bw)
       \<and> bs_replacement_count (fst (run bw items)) = bs_replacement_count (fst bw)
       \<and> (epochs_wf (fst bw) \<longrightarrow> epochs_wf (fst (run bw items)))
       \<and> dict_get (bs_epochs (fst (run bw items))) k
           = (if \<exists>e. (k, e) \<in> set items \<and> bs_active (fst bw) \<noteq> Some k \<and> bs_replacement (fst bw) \<noteq> Some k
                    \<and> epoch_draining_expired (fst bw) (Some now) now e
              then None else dict_get (bs_epochs (fst bw)) k)"
  unfolding run_def
proof (induction items arbitrary: bw)
  case (Cons item items)
  obtain eid e where item: "item = (eid, e)" by (cases item)
  have same: "epoch_draining_expired (fst (cleanup_one now item bw)) (Some now) now x
      = epoch_draining_expired (fst bw) (Some now) now x" for x
    by (rule expired_same) simp_all
  show ?case
    using Cons.IH[of "cleanup_one now item bw"] cleanup_one_wf[of bw now item]
    by (simp add: same) (auto simp: item cleanup_one_get)
qed simp

text \<open>C21: Cleaning up removes exactly the epochs nobody can still want. Whatever the state of the session, the
  clean-up never touches the active or the replacement epoch, removes every other epoch whose
  draining has expired and keeps all the rest unchanged, and it changes neither the revisions nor
  which epochs are active and replacing.\<close>

theorem cleanup_exact:
  assumes "epochs_wf b" and "cleanup_draining (Some now) clock (b, w) = (b', w')" and "now \<noteq> 0"
  shows "epochs_wf b' \<and> bs_active b' = bs_active b \<and> bs_replacement b' = bs_replacement b
       \<and> bs_attach_revision b' = bs_attach_revision b \<and> bs_client_revision b' = bs_client_revision b
       \<and> (\<forall>eid. dict_get (bs_epochs b') eid =
            (case dict_get (bs_epochs b) eid of
               None \<Rightarrow> None
             | Some e \<Rightarrow> if bs_active b \<noteq> Some eid \<and> bs_replacement b \<noteq> Some eid
                           \<and> epoch_draining_expired b (Some now) now e
                        then None else Some e))"
proof -
  have b': "b' = fst (foldl (\<lambda>acc item. cleanup_one now item acc) (b, w) (bs_epochs b))"
    using assms(2,3) by (simp add: cleanup_draining_def)
  have in_dict: "(eid, e) \<in> set (bs_epochs b) \<longleftrightarrow> dict_get (bs_epochs b) eid = Some e" for eid e
    using assms(1) dict_get_wf[of "bs_epochs b" eid e] dict_get_SomeD[of "bs_epochs b" eid e]
    unfolding epochs_wf_def by blast
  have "dict_get (bs_epochs b') eid =
      (case dict_get (bs_epochs b) eid of
         None \<Rightarrow> None
       | Some e \<Rightarrow> if bs_active b \<noteq> Some eid \<and> bs_replacement b \<noteq> Some eid
                     \<and> epoch_draining_expired b (Some now) now e
                  then None else Some e)" for eid
    using cleanup_fold[of now "(b, w)" "bs_epochs b" eid]
    by (cases "dict_get (bs_epochs b) eid") (simp_all add: b' in_dict)
  moreover note cleanup_fold[of now "(b, w)" "bs_epochs b" undefined]
  ultimately show ?thesis using assms(1) unfolding b' fst_conv by blast
qed

text \<open>Creating and promoting a replacement.\<close>

lemma build_epoch_fields [simp]:
  "ep_id (build_epoch nid stamp clk ov s) = nid" "ep_state (build_epoch nid stamp clk ov s) = ''starting''"
  "ep_attach (build_epoch nid stamp clk ov s)
     = clamp_time (case ov of None \<Rightarrow> ms_target s | Some t \<Rightarrow> t) (ms_duration s)"
  by (simp_all add: build_epoch_def new_epoch_def Let_def split: option.splits)

lemma ensure_workspace_fields [simp]:
  "ep_id (ensure_workspace stamp clk e) = ep_id e" "ep_state (ensure_workspace stamp clk e) = ep_state e"
  "ep_attach (ensure_workspace stamp clk e) = ep_attach e"
  "ep_replacement_reason (ensure_workspace stamp clk e) = ep_replacement_reason e"
  by (simp_all add: ensure_workspace_def)

lemma build_epoch_start_before_target:
  "0 \<le> ep_start (build_epoch nid stamp clk ov s)
   \<and> ep_start (build_epoch nid stamp clk ov s) \<le> ep_attach (build_epoch nid stamp clk ov s)"
proof -
  let ?t = "clamp_time (case ov of None \<Rightarrow> ms_target s | Some t \<Rightarrow> t) (ms_duration s)"
  have "\<bar>py_round 2 (?t - 20) - (?t - 20)\<bar> \<le> 1 / 200" using py_round_near[of 2 "?t - 20"] by simp
  then have "py_round 2 (?t - 20) \<le> ?t - 20 + 1 / 200" by linarith
  moreover have "0 \<le> ?t" by simp
  ultimately have "max 0 (py_round 2 (?t - 20)) \<le> ?t" by linarith
  then show ?thesis by (simp add: build_epoch_def new_epoch_def Let_def)
qed

lemma drop_replacement_wf:
  assumes "epochs_wf b"
  shows "epochs_wf (fst (drop_replacement reason (b, w)))"
    and "bs_replacement (fst (drop_replacement reason (b, w))) = None"
    and "bs_active (fst (drop_replacement reason (b, w))) = bs_active b"
    and "bs_attach_revision (fst (drop_replacement reason (b, w))) = bs_attach_revision b"
    and "bs_replacement_count (fst (drop_replacement reason (b, w))) = bs_replacement_count b"
    and "bs_replacement b \<noteq> Some k
         \<Longrightarrow> dict_get (bs_epochs (fst (drop_replacement reason (b, w)))) k = dict_get (bs_epochs b) k"
proof -
  have audio: "epochs_wf (b\<lparr>bs_audio := a\<rparr>)" for a
    by (rule epochs_wf_same[of _ b]) (simp_all add: same_epochs_def assms)
  show "epochs_wf (fst (drop_replacement reason (b, w)))"
  proof (cases "truthy_string (bs_replacement b)")
    case True
    then obtain r where r: "bs_replacement b = Some r" by (auto elim: truthy_stringE)
    then have "bs_active b \<noteq> Some r" using assms by (simp add: epochs_wf_def)
    with True r assms audio show ?thesis
      by (auto simp: drop_replacement_def Let_def intro!: discard_epoch_wf split: option.splits)
  qed (use assms in \<open>simp add: drop_replacement_def\<close>)
  show "bs_replacement (fst (drop_replacement reason (b, w))) = None"
    using assms
    by (cases "bs_replacement b") (auto simp: drop_replacement_def Let_def truthy_string_def epochs_wf_def
        dest!: dict_get_SomeD split: option.splits)
  show "bs_active (fst (drop_replacement reason (b, w))) = bs_active b"
    "bs_attach_revision (fst (drop_replacement reason (b, w))) = bs_attach_revision b"
    "bs_replacement_count (fst (drop_replacement reason (b, w))) = bs_replacement_count b"
    by (simp_all add: drop_replacement_def Let_def split: option.splits)
  show "bs_replacement b \<noteq> Some k
      \<Longrightarrow> dict_get (bs_epochs (fst (drop_replacement reason (b, w)))) k = dict_get (bs_epochs b) k"
    by (auto simp: drop_replacement_def Let_def truthy_string_def split: option.splits)
qed

lemma insert_replacement_wf:
  assumes "epochs_wf b" and "bs_replacement b = None" and "dict_get (bs_epochs b) nid = None" and "nid \<noteq> []"
    and "ep_id e = nid"
  shows "epochs_wf (b\<lparr>bs_replacement := Some nid, bs_epochs := dict_set (bs_epochs b) nid e,
           bs_replacement_count := c, bs_retry_not_before := 0\<rparr>)"
  using assms set_dict_set[of "bs_epochs b" nid e] by (auto simp: epochs_wf_def)

lemma create_replacement_cases:
  assumes "create_replacement_epoch cap nid stamp clock target reason mutate (s, w) = (r, s', w')"
  defines "b1 \<equiv> fst (drop_replacement reason (ms_browser s, w))"
  obtains (refused) "cap \<le> bs_replacement_count b1" "r = None" "ms_browser s' = b1\<lparr>bs_state := ''failed''\<rparr>"
      "ms_state s' = ''failed''"
    | (created) e where "bs_replacement_count b1 < cap" "r = Some e" "ep_id e = nid"
      "ep_replacement_reason e = Some reason" "ep_attach e = clamp_time target (ms_duration s)"
      "ms_browser s' = b1\<lparr>bs_replacement := Some nid, bs_epochs := dict_set (bs_epochs b1) nid e,
         bs_replacement_count := bs_replacement_count b1 + 1, bs_retry_not_before := 0\<rparr>"
proof (cases "cap \<le> bs_replacement_count b1")
  case True
  then show thesis
    using assms(1) by (intro refused) (auto simp: create_replacement_epoch_def b1_def Let_def split: prod.splits)
next
  case False
  obtain b w1 where d: "drop_replacement reason (ms_browser s, w) = (b, w1)" by fastforce
  then have b: "b1 = b" by (simp add: b1_def)
  show thesis
    using assms(1) False d
    by (intro created[of "the r"])
      (auto simp: create_replacement_epoch_def b Let_def)
qed

lemma create_replacement_wf:
  assumes "create_replacement_epoch cap nid stamp clock target reason mutate (s, w) = (r, s', w')"
    and "epochs_wf (ms_browser s)" and "dict_get (bs_epochs (ms_browser s)) nid = None" and "nid \<noteq> []"
  shows "epochs_wf (ms_browser s')"
proof -
  define b1 where "b1 = fst (drop_replacement reason (ms_browser s, w))"
  have b1: "epochs_wf b1" "bs_replacement b1 = None"
    using drop_replacement_wf[OF assms(2)] by (simp_all add: b1_def)
  have "bs_replacement (ms_browser s) \<noteq> Some nid" using assms(2,3) by (auto simp: epochs_wf_def)
  then have fresh: "dict_get (bs_epochs b1) nid = None"
    using drop_replacement_wf(6)[OF assms(2)] assms(3) by (simp add: b1_def)
  show ?thesis
  proof (cases rule: create_replacement_cases[OF assms(1), case_names refused created])
    case refused
    have "epochs_wf (b1\<lparr>bs_state := ''failed''\<rparr>)"
      by (rule epochs_wf_same[of _ b1]) (simp_all add: same_epochs_def b1)
    then show ?thesis using refused by (simp add: b1_def)
  next
    case (created e)
    then show ?thesis using insert_replacement_wf[OF b1 fresh assms(4) created(3)] by (simp add: b1_def)
  qed
qed

lemma retire_active_facts:
  assumes "epochs_wf b"
  shows "epochs_wf (fst (retire_active clock n rid (b, w)))"
    and "same_epochs ((fst (retire_active clock n rid (b, w)))\<lparr>bs_epochs := bs_epochs b\<rparr>) b"
    and "bs_attach_revision (fst (retire_active clock n rid (b, w))) = bs_attach_revision b"
    and "k \<noteq> the (bs_active b) \<or> bs_active b = None \<Longrightarrow>
      dict_get (bs_epochs (fst (retire_active clock n rid (b, w)))) k = dict_get (bs_epochs b) k"
    and "bs_active b = Some a \<Longrightarrow> a \<noteq> rid \<Longrightarrow>
      \<exists>e. dict_get (bs_epochs (fst (retire_active clock n rid (b, w)))) a = Some e \<and> ep_state e = ''draining''
        \<and> n \<le> ep_drain_revision e \<and> ep_worker e = None \<and> ep_process e = None \<and> ep_drain_started e \<noteq> None"
proof -
  show "same_epochs ((fst (retire_active clock n rid (b, w)))\<lparr>bs_epochs := bs_epochs b\<rparr>) b"
    "bs_attach_revision (fst (retire_active clock n rid (b, w))) = bs_attach_revision b"
    by (auto simp: retire_active_def same_epochs_def Let_def split: option.splits prod.splits)
  show "k \<noteq> the (bs_active b) \<or> bs_active b = None \<Longrightarrow>
      dict_get (bs_epochs (fst (retire_active clock n rid (b, w)))) k = dict_get (bs_epochs b) k"
    by (auto simp: retire_active_def epoch_of_def Let_def split: option.splits prod.splits)
  have upd: "epochs_wf (b\<lparr>bs_epochs := dict_set (bs_epochs b) a e\<rparr>)" if "dict_get (bs_epochs b) a \<noteq> None" "ep_id e = a" for a e
  proof -
    have "a \<noteq> []" using that(1) epochs_wf_id[OF assms] by auto
    then show ?thesis using assms that set_dict_set[of "bs_epochs b" a e] by (auto simp: epochs_wf_def)
  qed
  show "epochs_wf (fst (retire_active clock n rid (b, w)))"
  proof (cases "epoch_of b (bs_active b)")
    case None
    then show ?thesis using assms by (simp add: retire_active_def)
  next
    case (Some previous)
    then obtain a where a: "bs_active b = Some a" "dict_get (bs_epochs b) a = Some previous"
      by (auto simp: epoch_of_def truthy_string_def split: if_splits option.splits)
    obtain e w2 where e: "terminate_managed w (mark_draining clock (Some n) previous) = (e, w2)" by fastforce
    have "ep_id e = a"
      using terminate_keeps(1)[of w "mark_draining clock (Some n) previous"] e epochs_wf_id[OF assms a(2)] by simp
    then show ?thesis using upd[of a "e\<lparr>ep_stop_requested := False\<rparr>"] assms Some a e
      by (simp add: retire_active_def)
  qed
  show "\<exists>e. dict_get (bs_epochs (fst (retire_active clock n rid (b, w)))) a = Some e \<and> ep_state e = ''draining''
        \<and> n \<le> ep_drain_revision e \<and> ep_worker e = None \<and> ep_process e = None \<and> ep_drain_started e \<noteq> None"
    if a: "bs_active b = Some a" "a \<noteq> rid"
  proof -
    obtain previous where pr: "dict_get (bs_epochs b) a = Some previous"
      using assms a(1) by (auto simp: epochs_wf_def)
    then have id: "ep_id previous = a" "a \<noteq> []" using epochs_wf_id[OF assms] by auto
    obtain e w2 where e: "terminate_managed w (mark_draining clock (Some n) previous) = (e, w2)" by fastforce
    then have "ep_state e = ''draining''" "n \<le> ep_drain_revision e" "ep_worker e = None" "ep_process e = None"
      "ep_drain_started e \<noteq> None"
      using terminate_keeps[of w "mark_draining clock (Some n) previous"] mark_draining_revision[of n clock previous] by auto
    then show ?thesis using a pr id e by (simp add: retire_active_def epoch_of_def truthy_string_def)
  qed
qed

lemma retire_active_audio: "bs_audio (fst (retire_active clock n rid (b, w))) = bs_audio b"
  by (auto simp: retire_active_def Let_def split: option.splits prod.splits)

lemma promote_browser:
  assumes "promote_replacement_epoch cached clock r (s, w) = (err, s', w')"
  defines "n \<equiv> max 1 (bs_attach_revision (ms_browser s) + 1)"
  defines "b1 \<equiv> fst (retire_active clock n (ep_id r) (ms_browser s, w))"
  shows "same_epochs (ms_browser s') (b1\<lparr>bs_active := Some (ep_id r), bs_replacement := None\<rparr>)
       \<and> (bs_attach_revision (ms_browser s') = bs_attach_revision b1 \<or> bs_attach_revision (ms_browser s') = n)
       \<and> bs_audio (ms_browser s')
           = commit_audio_switch (epoch_of (ms_browser s) (bs_active (ms_browser s))) r (bs_audio (ms_browser s))"
proof -
  obtain b w1 where ret: "retire_active clock n (ep_id r) (ms_browser s, w) = (b, w1)" by fastforce
  define s1 where "s1 = s\<lparr>ms_browser := b\<lparr>bs_active := Some (ep_id r), bs_replacement := None,
      bs_audio := commit_audio_switch (epoch_of (ms_browser s) (bs_active (ms_browser s))) r (bs_audio b)\<rparr>\<rparr>"
  obtain e2 s2 where iss: "issue_attach_revision cached clock n ''replacement_promotion'' (Some r) s1 = (e2, s2)" by fastforce
  have "ms_browser s' = ms_browser s2"
    using assms(1) ret iss
    by (cases e2) (auto simp: promote_replacement_epoch_def n_def[symmetric] s1_def[symmetric] Let_def)
  moreover have "max 0 n = n" by (simp add: n_def)
  moreover have "bs_audio b = bs_audio (ms_browser s)"
    using retire_active_audio[of clock n "ep_id r" "ms_browser s" w] ret by simp
  ultimately show ?thesis
    using issue_same[OF iss] ret by (auto simp: b1_def s1_def same_epochs_def)
qed

lemma retire_active_reason:
  assumes "bs_active b = Some a" and "a \<noteq> rid" and "dict_get (bs_epochs (fst (retire_active clock n rid (b, w)))) a = Some e"
  shows "\<exists>x. dict_get (bs_epochs b) a = Some x \<and> ep_replacement_reason e = ep_replacement_reason x"
  using assms
  by (auto simp: retire_active_def epoch_of_def terminate_managed_def terminate_epoch_def mark_draining_def Let_def
      split: option.splits prod.splits if_splits)

lemma promote_facts:
  assumes "promote_replacement_epoch cached clock r (s, w) = (err, s', w')" and "epochs_wf (ms_browser s)"
    and "bs_replacement (ms_browser s) = Some (ep_id r)" and "bs_active (ms_browser s) = Some a"
  shows "epochs_wf (ms_browser s') \<and> bs_active (ms_browser s') = Some (ep_id r) \<and> bs_replacement (ms_browser s') = None
     \<and> (\<exists>e. dict_get (bs_epochs (ms_browser s')) a = Some e \<and> ep_state e = ''draining'' \<and> ep_worker e = None
            \<and> bs_attach_revision (ms_browser s) + 1 \<le> ep_drain_revision e)
     \<and> bs_attach_revision (ms_browser s') \<in> {bs_attach_revision (ms_browser s), bs_attach_revision (ms_browser s) + 1}
     \<and> bs_client_revision (ms_browser s') = bs_client_revision (ms_browser s)
     \<and> bs_replacement_count (ms_browser s') = bs_replacement_count (ms_browser s)
     \<and> (\<forall>k. k \<noteq> a \<longrightarrow> dict_get (bs_epochs (ms_browser s')) k = dict_get (bs_epochs (ms_browser s)) k)
     \<and> (\<forall>e'. dict_get (bs_epochs (ms_browser s')) a = Some e' \<longrightarrow>
           (\<exists>e. dict_get (bs_epochs (ms_browser s)) a = Some e \<and> ep_replacement_reason e' = ep_replacement_reason e))
     \<and> bs_audio (ms_browser s')
         = commit_audio_switch (epoch_of (ms_browser s) (bs_active (ms_browser s))) r (bs_audio (ms_browser s))"
proof -
  let ?b = "ms_browser s" and ?rid = "ep_id r"
  define n where "n = max 1 (bs_attach_revision ?b + 1)"
  obtain b1 w1 where ret: "retire_active clock n ?rid (?b, w) = (b1, w1)" by fastforce
  have pb: "same_epochs (ms_browser s') (b1\<lparr>bs_active := Some ?rid, bs_replacement := None\<rparr>)"
    "bs_attach_revision (ms_browser s') = bs_attach_revision b1 \<or> bs_attach_revision (ms_browser s') = n"
    using promote_browser[OF assms(1)] by (simp_all add: n_def[symmetric] ret)
  note rf = retire_active_facts[OF assms(2), where clock = clock and n = n and rid = ?rid and w = w, unfolded ret fst_conv]
  have ne: "a \<noteq> ?rid" and rin: "dict_get (bs_epochs ?b) ?rid \<noteq> None"
    using assms(2,3,4) by (auto simp: epochs_wf_def)
  have n: "n = bs_attach_revision ?b + 1" using assms(2) by (simp add: epochs_wf_def n_def)
  obtain e where e: "dict_get (bs_epochs b1) a = Some e" "ep_state e = ''draining''" "n \<le> ep_drain_revision e"
    "ep_worker e = None" using rf(5)[OF assms(4) ne] by blast
  have rk: "bs_attach_revision b1 = bs_attach_revision ?b" using rf(3) by simp
  have rin1: "dict_get (bs_epochs b1) ?rid \<noteq> None" using rf(4)[where k = ?rid] rin ne assms(4) by simp
  have "epochs_wf (b1\<lparr>bs_active := Some ?rid, bs_replacement := None\<rparr>)"
    using rf(1) rin1 unfolding epochs_wf_def by simp
  then have "epochs_wf (ms_browser s')"
  proof (rule epochs_wf_same[OF pb(1)])
    show "bs_attach_revision (b1\<lparr>bs_active := Some ?rid, bs_replacement := None\<rparr>) \<le> bs_attach_revision (ms_browser s')"
      using pb(2) n rk by (elim disjE) simp_all
  qed
  moreover have "bs_active (ms_browser s') = Some ?rid" "bs_replacement (ms_browser s') = None"
    "dict_get (bs_epochs (ms_browser s')) a = Some e"
    using pb(1) e(1) by (simp_all add: same_epochs_def)
  moreover have "bs_attach_revision (ms_browser s') = bs_attach_revision ?b
      \<or> bs_attach_revision (ms_browser s') = bs_attach_revision ?b + 1"
    using pb(2) n rk by argo
  moreover have "bs_client_revision (ms_browser s') = bs_client_revision ?b"
    "bs_replacement_count (ms_browser s') = bs_replacement_count ?b"
    using pb(1) rf(2) by (simp_all add: same_epochs_def)
  moreover have "dict_get (bs_epochs (ms_browser s')) k = dict_get (bs_epochs ?b) k" if "k \<noteq> a" for k
    using pb(1) rf(4)[of k] that assms(4) by (simp add: same_epochs_def)
  moreover have "bs_audio (ms_browser s') = commit_audio_switch (epoch_of ?b (bs_active ?b)) r (bs_audio ?b)"
    using promote_browser[OF assms(1)] by blast
  moreover have "\<exists>x. dict_get (bs_epochs ?b) a = Some x \<and> ep_replacement_reason e = ep_replacement_reason x"
    using retire_active_reason[OF assms(4) ne, of clock n w] e(1) by (simp add: ret)
  ultimately show ?thesis using e(2,3,4) n by simp
qed

text \<open>C11: Promotion hands over without dropping anyone. Promoting the replacement of a well-formed session
  makes it the active epoch, leaves no replacement, and keeps the session well formed; the epoch that
  was active stays available, draining, its worker gone, until the client has acknowledged the next
  revision; and the attach revision either stays or goes up by exactly one, so that it never goes
  back.\<close>

theorem promotion_hands_over:
  assumes "promote_replacement_epoch cached clock r (s, w) = (err, s', w')" and "epochs_wf (ms_browser s)"
    and "bs_replacement (ms_browser s) = Some (ep_id r)" and "bs_active (ms_browser s) = Some a"
  shows "epochs_wf (ms_browser s') \<and> bs_active (ms_browser s') = Some (ep_id r) \<and> bs_replacement (ms_browser s') = None
     \<and> (\<exists>e. dict_get (bs_epochs (ms_browser s')) a = Some e \<and> ep_state e = ''draining'' \<and> ep_worker e = None
            \<and> bs_attach_revision (ms_browser s) + 1 \<le> ep_drain_revision e)
     \<and> bs_attach_revision (ms_browser s') \<in> {bs_attach_revision (ms_browser s), bs_attach_revision (ms_browser s) + 1}"
  using promote_facts[OF assms] by blast

section \<open>Access to an epoch\<close>

lemma cleanup_get:
  assumes "epochs_wf b" and "now \<noteq> 0"
  shows "bs_active (fst (cleanup_draining (Some now) clock (b, w))) = bs_active b"
    and "bs_replacement (fst (cleanup_draining (Some now) clock (b, w))) = bs_replacement b"
    and "bs_client_revision (fst (cleanup_draining (Some now) clock (b, w))) = bs_client_revision b"
    and "bs_attach_revision (fst (cleanup_draining (Some now) clock (b, w))) = bs_attach_revision b"
    and "bs_replacement_count (fst (cleanup_draining (Some now) clock (b, w))) = bs_replacement_count b"
    and "epochs_wf (fst (cleanup_draining (Some now) clock (b, w)))"
    and "dict_get (bs_epochs b) eid = Some e \<Longrightarrow>
      dict_get (bs_epochs (fst (cleanup_draining (Some now) clock (b, w)))) eid =
        (if bs_active b \<noteq> Some eid \<and> bs_replacement b \<noteq> Some eid \<and> epoch_draining_expired b (Some now) now e
         then None else Some e)"
    and "dict_get (bs_epochs b) eid = None \<Longrightarrow>
      dict_get (bs_epochs (fst (cleanup_draining (Some now) clock (b, w)))) eid = None"
proof -
  have run: "cleanup_draining (Some now) clock (b, w) = foldl (\<lambda>acc item. cleanup_one now item acc) (b, w) (bs_epochs b)"
    using assms(2) by (simp add: cleanup_draining_def)
  have in_dict: "(eid, e) \<in> set (bs_epochs b) \<longleftrightarrow> dict_get (bs_epochs b) eid = Some e" for e
    using assms(1) dict_get_wf[of "bs_epochs b" eid e] dict_get_SomeD[of "bs_epochs b" eid e]
    unfolding epochs_wf_def by blast
  note fold = cleanup_fold[of now "(b, w)" "bs_epochs b" eid, unfolded fst_conv]
  show "bs_active (fst (cleanup_draining (Some now) clock (b, w))) = bs_active b"
    "bs_replacement (fst (cleanup_draining (Some now) clock (b, w))) = bs_replacement b"
    "bs_client_revision (fst (cleanup_draining (Some now) clock (b, w))) = bs_client_revision b"
    "bs_attach_revision (fst (cleanup_draining (Some now) clock (b, w))) = bs_attach_revision b"
    "bs_replacement_count (fst (cleanup_draining (Some now) clock (b, w))) = bs_replacement_count b"
    "epochs_wf (fst (cleanup_draining (Some now) clock (b, w)))"
    using fold assms(1) unfolding run by simp_all
  show "dict_get (bs_epochs (fst (cleanup_draining (Some now) clock (b, w)))) eid =
      (if bs_active b \<noteq> Some eid \<and> bs_replacement b \<noteq> Some eid \<and> epoch_draining_expired b (Some now) now e
       then None else Some e)" if "dict_get (bs_epochs b) eid = Some e"
    using fold that unfolding run by (simp add: in_dict)
  show "dict_get (bs_epochs (fst (cleanup_draining (Some now) clock (b, w)))) eid = None"
    if "dict_get (bs_epochs b) eid = None"
    using fold that unfolding run by (simp add: in_dict)
qed

definition epoch_readable :: "browser_session \<Rightarrow> real \<Rightarrow> playback_epoch \<Rightarrow> bool" where
  "epoch_readable b clock e =
     (bs_active b = Some (ep_id e) \<or> bs_replacement b = Some (ep_id e)
      \<or> (ep_state e = ''draining'' \<and> \<not> epoch_draining_expired b (Some clock) clock e))"

lemma touch_session_browser [simp]: "ms_browser (touch_session stamp clk ttl m s) = ms_browser s"
  by (simp add: touch_session_def)

lemma update_epoch_get:
  "dict_get (bs_epochs (update_epoch eid f b)) k =
     (if k = eid then map_option f (dict_get (bs_epochs b) eid) else dict_get (bs_epochs b) k)"
  by (auto simp: update_epoch_def split: option.splits)

lemma update_epoch_fields [simp]:
  "bs_active (update_epoch eid f b) = bs_active b" "bs_replacement (update_epoch eid f b) = bs_replacement b"
  "bs_client_revision (update_epoch eid f b) = bs_client_revision b"
  "bs_attach_revision (update_epoch eid f b) = bs_attach_revision b"
  "bs_replacement_count (update_epoch eid f b) = bs_replacement_count b"
  "bs_audio (update_epoch eid f b) = bs_audio b"
  by (simp_all add: update_epoch_def split: option.splits)

lemma cleanup_audio: "bs_audio (fst (cleanup_draining n clock bw)) = bs_audio (fst bw)"
proof -
  have disc: "bs_audio (fst (discard_epoch eid bw)) = bs_audio (fst bw)" for eid bw
    by (cases bw) (simp add: discard_epoch_def Let_def split: option.splits)
  have "bs_audio (fst (cleanup_one now item bw)) = bs_audio (fst bw)" for now item bw
    by (simp add: cleanup_one_def Let_def disc split: prod.splits)
  then have "bs_audio (fst (foldl (\<lambda>acc item. cleanup_one now item acc) bw items)) = bs_audio (fst bw)" for now items
    by (induction items arbitrary: bw) simp_all
  then show ?thesis by (simp add: cleanup_draining_def)
qed

lemma discard_epoch_audio [simp]: "bs_audio (fst (discard_epoch eid (b, w))) = bs_audio b"
  by (simp add: discard_epoch_def Let_def split: option.splits)

lemma access_facts:
  assumes "epochs_wf (ms_browser s)" and "clock \<noteq> 0" and "dict_get (bs_epochs (ms_browser s)) eid = Some e"
    and "prepare_epoch_access stamp clock ttl eid e (s, w) = (err, s', w')"
  shows "err = (if epoch_readable (ms_browser s) clock e then None
                else Some (FileNotFoundError ''Route 2 epoch is no longer active''))
     \<and> (err = None \<longrightarrow> dict_get (bs_epochs (ms_browser s')) eid = Some (e\<lparr>ep_last_access := clock\<rparr>))
     \<and> epochs_wf (ms_browser s') \<and> bs_active (ms_browser s') = bs_active (ms_browser s)
     \<and> bs_replacement (ms_browser s') = bs_replacement (ms_browser s)
     \<and> bs_attach_revision (ms_browser s') = bs_attach_revision (ms_browser s)
     \<and> bs_client_revision (ms_browser s') = bs_client_revision (ms_browser s)
     \<and> bs_replacement_count (ms_browser s') = bs_replacement_count (ms_browser s)
     \<and> bs_audio (ms_browser s') = bs_audio (ms_browser s)
     \<and> (\<forall>k x. dict_get (bs_epochs (ms_browser s')) k = Some x \<longrightarrow>
          (\<exists>y. dict_get (bs_epochs (ms_browser s)) k = Some y \<and> ep_replacement_reason x = ep_replacement_reason y))
     \<and> (\<forall>k. bs_active (ms_browser s) = Some k \<and> dict_get (bs_epochs (ms_browser s)) k \<noteq> None
          \<longrightarrow> dict_get (bs_epochs (ms_browser s')) k \<noteq> None)"
proof -
  have id: "ep_id e = eid" using epochs_wf_id[OF assms(1,3)] by simp
  obtain b v where clean: "cleanup_draining (Some clock) clock (ms_browser s, w) = (b, v)" by fastforce
  note get = cleanup_get[OF assms(1,2), where clock = clock and w = w, unfolded clean fst_conv]
  note here = get(7)[OF assms(3)]
  have audio: "bs_audio b = bs_audio (ms_browser s)"
    using cleanup_audio[of "Some clock" clock "(ms_browser s, w)"] by (simp add: clean)
  have sub: "dict_get (bs_epochs b) k = Some x \<Longrightarrow> dict_get (bs_epochs (ms_browser s)) k = Some x" for k x
    using get(7)[of k] get(8)[of k] by (cases "dict_get (bs_epochs (ms_browser s)) k") (auto split: if_splits)
  have act: "bs_active (ms_browser s) = Some k \<and> dict_get (bs_epochs (ms_browser s)) k \<noteq> None
      \<Longrightarrow> dict_get (bs_epochs b) k \<noteq> None" for k
    using get(7)[of k] by auto
  have expired: "epoch_draining_expired b n clock e = epoch_draining_expired (ms_browser s) n clock e" for n
    by (rule expired_same) (simp_all add: get)
  have acc: "epochs_wf (update_epoch eid (\<lambda>x. x\<lparr>ep_last_access := clock\<rparr>) b)"
    by (rule update_epoch_wf[OF get(6)]) simp
  show ?thesis
  proof (cases "epoch_readable (ms_browser s) clock e")
    case True
    then have kept: "dict_get (bs_epochs b) eid = Some e" using here by (auto simp: epoch_readable_def id)
    have "bs_active b = Some (ep_id e) \<or> bs_replacement b = Some (ep_id e)
        \<or> (ep_state e = ''draining'' \<and> \<not> epoch_draining_expired b (Some clock) clock e)"
      using True unfolding epoch_readable_def get(1,2) expired .
    then have "err = None" "ms_browser s' = update_epoch eid (\<lambda>x. x\<lparr>ep_last_access := clock\<rparr>) b"
      using assms(4) by (auto simp: prepare_epoch_access_def clean Let_def split: if_splits)
    then show ?thesis using True acc kept get(1-5) audio sub act assms(3)
      by (auto simp: update_epoch_get)
  next
    case False
    then have no: "\<not> (bs_active b = Some (ep_id e) \<or> bs_replacement b = Some (ep_id e))"
      "ep_state e = ''draining'' \<Longrightarrow> epoch_draining_expired b (Some clock) clock e"
      by (auto simp: epoch_readable_def get(1,2) expired)
    have disc: "epochs_wf (fst (discard_epoch (ep_id e) (b, v)))"
      by (rule discard_epoch_wf[OF get(6)]) (use no in simp)
    have "err = Some (FileNotFoundError ''Route 2 epoch is no longer active'')"
      "ms_browser s' = (if ep_state e = ''draining'' then fst (discard_epoch (ep_id e) (b, v)) else b)"
      using assms(4) no by (auto simp: prepare_epoch_access_def clean Let_def split: if_splits prod.splits)
    then show ?thesis using False disc no(1) get(1-6) audio sub act id by auto
  qed
qed

text \<open>Access is granted exactly to readable epochs, and granting it keeps them. For an epoch of a
  well-formed session, the check before serving a file raises nothing exactly when the epoch is active,
  is the replacement, or drains and has not expired; otherwise it raises \<^verbatim>\<open>FileNotFoundError\<close>. The
  clean-up it runs first never takes the epoch from the reader it lets through: the epoch is still there,
  with the time of this access; and active epoch, replacement and revisions are as before.\<close>

theorem access_exact:
  assumes "epochs_wf (ms_browser s)" and "clock \<noteq> 0" and "dict_get (bs_epochs (ms_browser s)) eid = Some e"
    and "prepare_epoch_access stamp clock ttl eid e (s, w) = (err, s', w')"
  shows "err = (if epoch_readable (ms_browser s) clock e then None
                else Some (FileNotFoundError ''Route 2 epoch is no longer active''))
     \<and> (err = None \<longrightarrow> dict_get (bs_epochs (ms_browser s')) eid = Some (e\<lparr>ep_last_access := clock\<rparr>))
     \<and> epochs_wf (ms_browser s') \<and> bs_active (ms_browser s') = bs_active (ms_browser s)
     \<and> bs_replacement (ms_browser s') = bs_replacement (ms_browser s)
     \<and> bs_attach_revision (ms_browser s') = bs_attach_revision (ms_browser s)
     \<and> bs_client_revision (ms_browser s') = bs_client_revision (ms_browser s)"
  using access_facts[OF assms] by blast

text \<open>How long a drained epoch lives: an epoch whose readers have not acknowledged the revision that
  replaced it stays readable for the whole \<^verbatim>\<open>ROUTE2_DRAIN_MAX_SECONDS\<close>, and nobody stays longer.\<close>

lemma draining_lifetime:
  assumes "ep_drain_started e = Some t" and "t \<noteq> 0" and "now \<noteq> 0" and "epoch_draining_expired b (Some now) clk e"
  shows "now \<ge> t + ROUTE2_DRAIN_MAX_SECONDS
         \<or> (0 < ep_drain_revision e \<and> ep_drain_revision e \<le> bs_client_revision b
            \<and> or_real (Some (ep_last_access e)) t + ROUTE2_DRAIN_IDLE_GRACE_SECONDS \<le> now)"
  using assms by (auto simp: epoch_draining_expired_def Let_def split: if_splits)

section \<open>A session at work\<close>

text \<open>The concrete session of the witnesses: epoch \<^verbatim>\<open>e1\<close> is active, \<^verbatim>\<open>e2\<close> replaces it, and
  \<^verbatim>\<open>e0\<close> has been draining since second 1000 and was acknowledged.\<close>

definition demo_epoch :: "string \<Rightarrow> playback_epoch" where
  "demo_epoch i = new_epoch i ''s1'' ''t0'' 40 20 40 None 1000"

definition demo_session :: mobile_session where
  "demo_session =
     (new_session ''s1'' 1 7 ''mobile_1080p'' ''local'' 600 ''k'' ''f'' ''t0'')\<lparr>ms_browser :=
        new_browser_session\<lparr>bs_engine_mode := ''route2'', bs_active := Some ''e1'', bs_replacement := Some ''e2'',
          bs_attach_revision := 2, bs_client_revision := 2,
          bs_epochs := [(''e0'', (demo_epoch ''e0'')\<lparr>ep_state := ''draining'', ep_drain_started := Some 1000,
                                   ep_drain_revision := 2\<rparr>),
                        (''e1'', (demo_epoch ''e1'')\<lparr>ep_state := ''active''\<rparr>),
                        (''e2'', (demo_epoch ''e2'')\<lparr>ep_state := ''attach_ready''\<rparr>)]\<rparr>\<rparr>"

lemmas demo_defs = demo_session_def demo_epoch_def new_record_defs

lemma demo_wf: "epochs_wf (ms_browser demo_session)"
  by (simp add: demo_defs epochs_wf_def dict_wf_def)

lemma cleanup_exact_witness:
  "dict_get (bs_epochs (fst (cleanup_draining (Some 1100) 1100 (ms_browser demo_session, [])))) ''e0'' = None
   \<and> dict_get (bs_epochs (fst (cleanup_draining (Some 1010) 1010 (ms_browser demo_session, [])))) ''e0'' \<noteq> None
   \<and> dict_get (bs_epochs (fst (cleanup_draining (Some 1100) 1100 (ms_browser demo_session, [])))) ''e1'' \<noteq> None"
proof -
  have get: "dict_get (bs_epochs (fst (cleanup_draining (Some now) now (ms_browser demo_session, [])))) eid =
      (case dict_get (bs_epochs (ms_browser demo_session)) eid of
         None \<Rightarrow> None
       | Some e \<Rightarrow> if bs_active (ms_browser demo_session) \<noteq> Some eid \<and> bs_replacement (ms_browser demo_session) \<noteq> Some eid
                     \<and> epoch_draining_expired (ms_browser demo_session) (Some now) now e
                  then None else Some e)" if "now \<noteq> 0" for now eid
  proof -
    obtain b' w' where run: "cleanup_draining (Some now) now (ms_browser demo_session, []) = (b', w')" by fastforce
    show ?thesis using cleanup_exact[OF demo_wf run that] unfolding run fst_conv by blast
  qed
  show ?thesis
    by (simp add: get) (simp add: demo_defs epoch_draining_expired_def route2_consts)
qed

lemma promotion_hands_over_witness:
  "bs_active (ms_browser (fst (snd (promote_replacement_epoch None 1050 (demo_epoch ''e2'') (demo_session, []))))) = Some ''e2''"
proof -
  obtain err s' w' where run: "promote_replacement_epoch None 1050 (demo_epoch ''e2'') (demo_session, []) = (err, s', w')"
    by (cases "promote_replacement_epoch None 1050 (demo_epoch ''e2'') (demo_session, [])") auto
  have "bs_active (ms_browser s') = Some (ep_id (demo_epoch ''e2''))"
    using promotion_hands_over[OF run demo_wf, of "''e1''"] by (simp add: demo_defs)
  moreover have "ep_id (demo_epoch ''e2'') = ''e2''" by (simp add: demo_defs)
  ultimately show ?thesis by (simp add: run)
qed

lemma access_exact_witness:
  "fst (prepare_epoch_access ''t'' 1010 30 ''e0'' (the (dict_get (bs_epochs (ms_browser demo_session)) ''e0'')) (demo_session, [])) = None
   \<and> fst (prepare_epoch_access ''t'' 1100 30 ''e0'' (the (dict_get (bs_epochs (ms_browser demo_session)) ''e0'')) (demo_session, []))
       = Some (FileNotFoundError ''Route 2 epoch is no longer active'')"
proof -
  let ?e = "the (dict_get (bs_epochs (ms_browser demo_session)) ''e0'')"
  have e: "dict_get (bs_epochs (ms_browser demo_session)) ''e0'' = Some ?e" by (simp add: demo_defs)
  have err: "fst (prepare_epoch_access ''t'' clock 30 ''e0'' ?e (demo_session, []))
      = (if epoch_readable (ms_browser demo_session) clock ?e then None
         else Some (FileNotFoundError ''Route 2 epoch is no longer active''))" if "clock \<noteq> 0" for clock
    using access_exact[OF demo_wf that e, of "''t''" 30 "[]"]
    by (cases "prepare_epoch_access ''t'' clock 30 ''e0'' ?e (demo_session, [])") simp
  show ?thesis
    by (simp only: err, simp) (simp add: epoch_readable_def demo_defs epoch_draining_expired_def route2_consts)
qed

end
