(* ===== verification/Route2_Sessions.thy ===== *)
theory Route2_Sessions
  imports Route2_Epochs
begin

text \<open>
  Sessions at work: the audio-track operations of \<^verbatim>\<open>MobilePlaybackManager\<close> in
  \<^verbatim>\<open>services/mobile_playback_service.py\<close> and, over all operations on epochs, the steps a
  session takes between two acquisitions of the manager's lock.

  \<open>select_audio_track\<close>, \<open>commit_audio_track_candidate\<close> and \<open>cancel_audio_track_candidate\<close> are the request
  handlers from the check of the engine to the last write before the session is refreshed and its
  snapshot is built; the refresh has its own theory, \<open>Session_Refresh\<close>. \<open>validation\<close> is the answer of the trusted
  track metadata, \<open>reserve\<close> the answer of the bad-condition reserve, \<open>cap\<close> the configured number of
  replacement epochs.
\<close>

section \<open>Selecting an audio track\<close>

definition ROUTE2_AUDIO_SWITCH_CANDIDATE_TTL_SECONDS :: real where
  "ROUTE2_AUDIO_SWITCH_CANDIDATE_TTL_SECONDS = 90"

definition ROUTE2_FULL_BAD_CONDITION_RESERVE_SECONDS :: real where
  "ROUTE2_FULL_BAD_CONDITION_RESERVE_SECONDS = 900"

definition coerce_audio_stream_index :: "int option \<Rightarrow> py_error + int option" where
  "coerce_audio_stream_index value =
     (case value of
        None \<Rightarrow> Inr None
      | Some i \<Rightarrow> if i < 0 then Inl (ValueError ''selected_audio_stream_index must be non-negative'')
                  else Inr (Some i))"

definition not_route2_error :: py_error where
  "not_route2_error = ValueError ''Audio track switching requires Browser Playback Route 2''"

definition switch_position :: "real option \<Rightarrow> mobile_session \<Rightarrow> real" where
  "switch_position current s =
     clamp_time
       (case current of
          Some p \<Rightarrow> p
        | None \<Rightarrow> (case epoch_of (ms_browser s) (bs_active (ms_browser s)) of
                     Some e \<Rightarrow> effective_playhead s e
                   | None \<Rightarrow> ms_target s))
       (ms_duration s)"

definition register_audio_candidate :: "int \<Rightarrow> real \<Rightarrow> playback_epoch \<Rightarrow> browser_session \<Rightarrow> browser_session" where
  "register_audio_candidate stream clock replacement b =
     (let b' = update_epoch (ep_id replacement) (\<lambda>e. e\<lparr>ep_audio_stream := Some stream\<rparr>) b
      in b'\<lparr>bs_audio := (bs_audio b')
              \<lparr>as_selected := Some stream, as_pending := Some stream, as_state := ''candidate_preparing'',
               as_error := None, as_candidate_epoch := Some (ep_id replacement),
               as_candidate_stream := Some stream, as_candidate_state := ''preparing'',
               as_candidate_error := None, as_candidate_created := clock, as_candidate_ready := 0,
               as_candidate_expires := clock + ROUTE2_AUDIO_SWITCH_CANDIDATE_TTL_SECONDS,
               as_previous_epoch := bs_active b', as_previous_stream := as_active (bs_audio b'),
               as_commit_requested := 0\<rparr>\<rparr>)"

definition begin_audio_switch ::
  "int \<Rightarrow> string \<Rightarrow> string \<Rightarrow> real \<Rightarrow> int \<Rightarrow> real \<Rightarrow> bool option \<Rightarrow> mobile_session \<times> worker_table
     \<Rightarrow> mobile_session \<times> worker_table" where
  "begin_audio_switch cap new_id stamp clock stream position playing sw =
     (let (s0, workers0) = sw;
          s1 = (case playing of
                  None \<Rightarrow> s0
                | Some p \<Rightarrow> s0\<lparr>ms_playing_before_seek := p, ms_client_is_playing := p\<rparr>);
          s2 = s1\<lparr>ms_last_stable := position, ms_committed := position, ms_actual := position\<rparr>;
          (replacement, s3, workers) =
            create_replacement_epoch cap new_id stamp clock position ''audio_track_switch'' False (s2, workers0);
          b = ms_browser s3
      in case replacement of
           Some r \<Rightarrow> (s3\<lparr>ms_browser := register_audio_candidate stream clock r b\<rparr>, workers)
         | None \<Rightarrow>
             (s3\<lparr>ms_browser := b\<lparr>bs_audio := (bs_audio b)
                   \<lparr>as_selected := as_active (bs_audio b), as_pending := None, as_state := ''failed'',
                    as_error := Some (or_string (ms_last_error s3) ''Could not prepare the selected audio track'')\<rparr>\<rparr>\<rparr>,
              workers))"

definition select_audio_track ::
  "int \<Rightarrow> string \<Rightarrow> string \<Rightarrow> real \<Rightarrow> string option \<Rightarrow> int option \<Rightarrow> real option \<Rightarrow> bool option
     \<Rightarrow> mobile_session \<times> worker_table \<Rightarrow> py_error option \<times> mobile_session \<times> worker_table" where
  "select_audio_track cap new_id stamp clock validation requested current playing sw =
     (let (s, workers) = sw; b = ms_browser s; a = bs_audio b in
      case coerce_audio_stream_index requested of
        Inl e \<Rightarrow> (Some e, sw)
      | Inr index \<Rightarrow>
          if bs_engine_mode b \<noteq> ''route2'' then (Some not_route2_error, sw)
          else case index of
            None \<Rightarrow> (Some (ValueError ''selected_audio_stream_index is required''), sw)
          | Some stream \<Rightarrow>
              if audio_switch_in_progress b then (None, sw)
              else case validation of
                Some reason \<Rightarrow> (None, s\<lparr>ms_browser := b\<lparr>bs_audio := set_audio_switch_failed reason a\<rparr>\<rparr>, workers)
              | None \<Rightarrow>
                  if as_active a = Some stream \<and> as_pending a = None
                  then (None, s\<lparr>ms_browser := b\<lparr>bs_audio :=
                          a\<lparr>as_selected := Some stream, as_state := ''active'', as_error := None\<rparr>\<rparr>\<rparr>, workers)
                  else (None, begin_audio_switch cap new_id stamp clock stream (switch_position current s) playing sw))"

section \<open>Committing and cancelling it\<close>

text \<open>\<open>reserve\<close> is the pair \<^verbatim>\<open>(bad_condition_reserve_required, reserve_required_seconds)\<close>.\<close>

definition audio_raw_required :: "bool \<times> real option \<Rightarrow> browser_session \<Rightarrow> real" where
  "audio_raw_required reserve b =
     (if bs_playback_mode b = ''full''
      then (if fst reserve then or_real (snd reserve) ROUTE2_FULL_BAD_CONDITION_RESERVE_SECONDS
            else ROUTE2_FULL_FAST_START_RUNWAY_SECONDS)
      else
        let state = py_lower (py_strip (ld_state (bs_lite b))) in
        if state = ''fast_confirmed_15'' then ROUTE2_LITE_FAST_START_RUNWAY_SECONDS
        else if state = ''undersupply_confirmed_180'' then ROUTE2_LITE_UNDERSUPPLY_START_RUNWAY_SECONDS
        else ROUTE2_LITE_SLOW_START_RUNWAY_SECONDS)"

definition audio_required_runway :: "bool \<times> real option \<Rightarrow> mobile_session \<Rightarrow> playback_epoch \<Rightarrow> real" where
  "audio_required_runway reserve s e =
     min (max 0 (audio_raw_required reserve (ms_browser s)))
         (max 0 (max 0 (ms_duration s) - max 0 (ep_attach e)))"

definition audio_actual_runway :: "mobile_session \<Rightarrow> playback_epoch \<Rightarrow> real" where
  "audio_actual_runway s e = max 0 (epoch_ready_end s e - max 0 (ep_attach e))"

definition audio_runway_satisfied :: "bool \<times> real option \<Rightarrow> mobile_session \<Rightarrow> playback_epoch \<Rightarrow> bool" where
  "audio_runway_satisfied reserve s e = (audio_actual_runway s e + 1 / 1000 \<ge> audio_required_runway reserve s e)"

definition audio_replacement_ready :: "bool \<times> real option \<Rightarrow> mobile_session \<Rightarrow> playback_epoch \<Rightarrow> bool" where
  "audio_replacement_ready reserve s r =
     (if ep_replacement_reason r \<noteq> Some ''audio_track_switch'' then False
      else if ep_state r \<in> {''failed'', ''ended'', ''draining''} then False
      else if truthy_string (ep_last_error r) then False
      else if \<not> ep_init_published r then False
      else if ep_contiguous_through r = None then False
      else case epoch_of (ms_browser s) (bs_active (ms_browser s)) of
             None \<Rightarrow> False
           | Some active \<Rightarrow> if ep_state active \<in> {''failed'', ''ended''} then False
                            else audio_runway_satisfied reserve s r)"

definition commit_audio_track_candidate ::
  "bool \<times> real option \<Rightarrow> int list option \<Rightarrow> real \<Rightarrow> mobile_session \<times> worker_table
     \<Rightarrow> py_error option \<times> mobile_session \<times> worker_table" where
  "commit_audio_track_candidate reserve cached clock sw =
     (let (s, workers) = sw; b = ms_browser s; a = bs_audio b in
      if bs_engine_mode b \<noteq> ''route2'' then (Some not_route2_error, sw)
      else case audio_candidate_epoch b of
        None \<Rightarrow> (None, sw)
      | Some c \<Rightarrow>
          if as_candidate_state a \<noteq> ''ready'' then (None, sw)
          else if \<not> audio_runway_satisfied reserve s c
          then (None, s\<lparr>ms_browser := b\<lparr>bs_audio :=
                  a\<lparr>as_candidate_state := ''preparing'', as_state := ''candidate_preparing''\<rparr>\<rparr>\<rparr>, workers)
          else promote_replacement_epoch cached clock c
                 (s\<lparr>ms_browser := b\<lparr>bs_audio := a\<lparr>as_candidate_state := ''committing'', as_state := ''committing'',
                                          as_commit_requested := clock\<rparr>\<rparr>\<rparr>, workers))"

definition cancel_audio_track_candidate ::
  "string \<Rightarrow> mobile_session \<times> worker_table \<Rightarrow> py_error option \<times> mobile_session \<times> worker_table" where
  "cancel_audio_track_candidate reason sw =
     (let (s, workers) = sw in
      if bs_engine_mode (ms_browser s) \<noteq> ''route2'' then (Some not_route2_error, sw)
      else let (b, workers') = cancel_audio_candidate reason False (ms_browser s, workers)
           in (None, s\<lparr>ms_browser := b\<rparr>, workers'))"

section \<open>The steps of a session\<close>

definition fresh_id :: "string \<Rightarrow> mobile_session \<Rightarrow> bool" where
  "fresh_id i s =
     (i \<noteq> [] \<and> dict_get (bs_epochs (ms_browser s)) i = None \<and> as_candidate_epoch (bs_audio (ms_browser s)) \<noteq> Some i)"

inductive session_step :: "int \<Rightarrow> real \<Rightarrow> mobile_session \<times> worker_table \<Rightarrow> mobile_session \<times> worker_table \<Rightarrow> bool"
  for cap :: int and clock :: real where
  step_replace:
    "fresh_id i s \<Longrightarrow> reason \<noteq> ''audio_track_switch''
     \<Longrightarrow> create_replacement_epoch cap i stamp clock target reason mutate (s, w) = (r, s', w')
     \<Longrightarrow> session_step cap clock (s, w) (s', w')"
| step_select_audio:
    "fresh_id i s
     \<Longrightarrow> select_audio_track cap i stamp clock validation requested current playing (s, w) = (err, s', w')
     \<Longrightarrow> session_step cap clock (s, w) (s', w')"
| step_commit_audio:
    "commit_audio_track_candidate reserve cached clock (s, w) = (err, s', w')
     \<Longrightarrow> session_step cap clock (s, w) (s', w')"
| step_cancel_audio:
    "cancel_audio_track_candidate reason (s, w) = (err, s', w')
     \<Longrightarrow> session_step cap clock (s, w) (s', w')"
| step_promote:
    "bs_replacement (ms_browser s) = Some rid \<Longrightarrow> dict_get (bs_epochs (ms_browser s)) rid = Some r
     \<Longrightarrow> promote_replacement_epoch cached clock r (s, w) = (err, s', w')
     \<Longrightarrow> session_step cap clock (s, w) (s', w')"
| step_access:
    "dict_get (bs_epochs (ms_browser s)) eid = Some e
     \<Longrightarrow> prepare_epoch_access stamp clock ttl eid e (s, w) = (err, s', w')
     \<Longrightarrow> session_step cap clock (s, w) (s', w')"
| step_cleanup:
    "cleanup_draining (Some clock) clock (ms_browser s, w) = (b, w')
     \<Longrightarrow> session_step cap clock (s, w) (s\<lparr>ms_browser := b\<rparr>, w')"
| step_acknowledge:
    "session_step cap clock (s, w) (s\<lparr>ms_browser := acknowledge_revision n (ms_browser s)\<rparr>, w)"

inductive_cases session_stepE: "session_step cap clock sw sw'"

text \<open>A session is reachable when it comes from the initialisation of a session without epochs, at
  positive times.\<close>

inductive reachable_session :: "int \<Rightarrow> mobile_session \<times> worker_table \<Rightarrow> bool" for cap :: int where
  reach_init:
    "bs_epochs (ms_browser s) = [] \<Longrightarrow> as_candidate_epoch (bs_audio (ms_browser s)) = None \<Longrightarrow> i \<noteq> []
     \<Longrightarrow> reachable_session cap (initialize_session i stamp cached clock s, w)"
| reach_step:
    "reachable_session cap sw \<Longrightarrow> 0 < clock \<Longrightarrow> session_step cap clock sw sw' \<Longrightarrow> reachable_session cap sw'"

text \<open>The invariant, and what one step does to the epochs and the revisions.\<close>

definition audio_reason :: "playback_epoch option \<Rightarrow> bool" where
  "audio_reason e = (case e of None \<Rightarrow> True | Some e \<Rightarrow> ep_replacement_reason e = Some ''audio_track_switch'')"

definition candidate_ok :: "browser_session \<Rightarrow> bool" where
  "candidate_ok b =
     (case as_candidate_epoch (bs_audio b) of None \<Rightarrow> True
      | Some c \<Rightarrow> bs_active b \<noteq> Some c \<and> audio_reason (dict_get (bs_epochs b) c))"

definition session_inv :: "int \<Rightarrow> browser_session \<Rightarrow> bool" where
  "session_inv cap b =
     (epochs_wf b \<and> bs_active b \<noteq> None \<and> bs_replacement_count b \<le> max 0 cap \<and> candidate_ok b)"

definition session_progress :: "browser_session \<Rightarrow> browser_session \<Rightarrow> bool" where
  "session_progress b b' =
     (bs_attach_revision b \<le> bs_attach_revision b' \<and> bs_attach_revision b' \<le> bs_attach_revision b + 1
      \<and> bs_client_revision b \<le> bs_client_revision b'
      \<and> (bs_active b' = bs_active b \<or> bs_active b' = bs_replacement b)
      \<and> (case bs_active b of None \<Rightarrow> True | Some a \<Rightarrow> dict_get (bs_epochs b') a \<noteq> None))"

definition good_step :: "int \<Rightarrow> browser_session \<Rightarrow> browser_session \<Rightarrow> bool" where
  "good_step cap b b' = (session_inv cap b' \<and> session_progress b b')"

section \<open>Every step keeps the invariant\<close>

text \<open>A step that shrinks the table of epochs around the active one.\<close>

lemma good_shrink:
  assumes "session_inv cap b" and "epochs_wf b'" and "bs_active b' = bs_active b"
    and "bs_attach_revision b' = bs_attach_revision b" and "bs_client_revision b \<le> bs_client_revision b'"
    and "bs_replacement_count b' = bs_replacement_count b"
    and "as_candidate_epoch (bs_audio b') = None \<or> as_candidate_epoch (bs_audio b') = as_candidate_epoch (bs_audio b)"
    and "\<And>k x. dict_get (bs_epochs b') k = Some x
           \<Longrightarrow> \<exists>y. dict_get (bs_epochs b) k = Some y \<and> ep_replacement_reason x = ep_replacement_reason y"
  shows "good_step cap b b'"
proof -
  have "dict_get (bs_epochs b') a \<noteq> None" if "bs_active b = Some a" for a
    using assms(2,3) that by (simp add: epochs_wf_def)
  moreover have "audio_reason (dict_get (bs_epochs b') c)" if "audio_reason (dict_get (bs_epochs b) c)" for c
    using that assms(8)[of c] by (cases "dict_get (bs_epochs b') c") (auto simp: audio_reason_def)
  ultimately show ?thesis
    using assms(1-7)
    by (auto simp: good_step_def session_inv_def session_progress_def candidate_ok_def split: option.splits)
qed

lemma good_audio_only:
  assumes "session_inv cap b" and "as_candidate_epoch a = None \<or> as_candidate_epoch a = as_candidate_epoch (bs_audio b)"
  shows "good_step cap b (b\<lparr>bs_audio := a\<rparr>)"
proof (rule good_shrink[OF assms(1)])
  show "epochs_wf (b\<lparr>bs_audio := a\<rparr>)"
    by (rule epochs_wf_same[of _ b]) (use assms(1) in \<open>simp_all add: same_epochs_def session_inv_def\<close>)
qed (use assms in auto)

lemma clear_candidate [simp]: "as_candidate_epoch (clear_audio_candidate a) = None"
  by (simp add: clear_audio_candidate_def)

lemma audio_failed_candidate [simp]:
  "as_candidate_epoch (set_audio_switch_failed r a) = None"
  by (simp add: set_audio_switch_failed_def Let_def)

lemma fail_audio_candidate:
  "as_candidate_epoch (fail_audio_switch x r a) = None
   \<or> as_candidate_epoch (fail_audio_switch x r a) = as_candidate_epoch a"
  by (simp add: fail_audio_switch_def)

lemma drop_replacement_good:
  assumes "session_inv cap b"
  shows "good_step cap b (fst (drop_replacement reason (b, w)))"
proof (rule good_shrink[OF assms])
  have wf: "epochs_wf b" using assms by (simp add: session_inv_def)
  show "epochs_wf (fst (drop_replacement reason (b, w)))"
    "bs_active (fst (drop_replacement reason (b, w))) = bs_active b"
    "bs_attach_revision (fst (drop_replacement reason (b, w))) = bs_attach_revision b"
    "bs_replacement_count (fst (drop_replacement reason (b, w))) = bs_replacement_count b"
    by (rule drop_replacement_wf[OF wf])+
  show "bs_client_revision b \<le> bs_client_revision (fst (drop_replacement reason (b, w)))"
    by (simp add: drop_replacement_def Let_def split: option.splits)
  show "as_candidate_epoch (bs_audio (fst (drop_replacement reason (b, w)))) = None
      \<or> as_candidate_epoch (bs_audio (fst (drop_replacement reason (b, w)))) = as_candidate_epoch (bs_audio b)"
    using fail_audio_candidate
    by (simp add: drop_replacement_def Let_def split: option.splits)
  show "\<exists>y. dict_get (bs_epochs b) k = Some y \<and> ep_replacement_reason x = ep_replacement_reason y"
    if "dict_get (bs_epochs (fst (drop_replacement reason (b, w)))) k = Some x" for k x
    using that by (auto simp: drop_replacement_def Let_def split: option.splits if_splits)
qed

lemma good_trans:
  assumes "good_step cap b c" and "good_step cap c d" and "bs_active c = bs_active b"
    and "bs_attach_revision c = bs_attach_revision b" and "bs_active d = bs_active c"
  shows "good_step cap b d"
  using assms by (auto simp: good_step_def session_progress_def split: option.splits)

text \<open>Adding a replacement with a fresh identifier.\<close>

lemma insert_replacement_good:
  assumes "session_inv cap b" and "bs_replacement b = None" and "dict_get (bs_epochs b) i = None" and "i \<noteq> []"
    and "as_candidate_epoch (bs_audio b) \<noteq> Some i" and "ep_id e = i" and "bs_replacement_count b < cap"
  shows "good_step cap b (b\<lparr>bs_replacement := Some i, bs_epochs := dict_set (bs_epochs b) i e,
           bs_replacement_count := bs_replacement_count b + 1, bs_retry_not_before := 0\<rparr>)"
proof -
  have "epochs_wf (b\<lparr>bs_replacement := Some i, bs_epochs := dict_set (bs_epochs b) i e,
           bs_replacement_count := bs_replacement_count b + 1, bs_retry_not_before := 0\<rparr>)"
    using assms by (intro insert_replacement_wf) (simp_all add: session_inv_def)
  then show ?thesis
    using assms
    by (auto simp: good_step_def session_inv_def session_progress_def candidate_ok_def epochs_wf_def split: option.splits)
qed

lemma good_state: "good_step cap b c \<Longrightarrow> good_step cap b (c\<lparr>bs_state := x\<rparr>)"
  using epochs_wf_same[of "c\<lparr>bs_state := x\<rparr>" c]
  by (auto simp: good_step_def session_inv_def session_progress_def candidate_ok_def same_epochs_def split: option.splits)

lemma create_good:
  assumes "session_inv cap (ms_browser s)" and "fresh_id i s"
    and "create_replacement_epoch cap i stamp clock target reason mutate (s, w) = (r, s', w')"
  shows "good_step cap (ms_browser s) (ms_browser s')
       \<and> bs_active (ms_browser s') = bs_active (ms_browser s)
       \<and> bs_attach_revision (ms_browser s') = bs_attach_revision (ms_browser s)
       \<and> (\<forall>e. r = Some e \<longrightarrow> ep_id e = i \<and> bs_replacement (ms_browser s') = Some i
            \<and> dict_get (bs_epochs (ms_browser s')) i = Some e \<and> ep_replacement_reason e = Some reason)"
proof -
  define b1 where "b1 = fst (drop_replacement reason (ms_browser s, w))"
  have wf: "epochs_wf (ms_browser s)" using assms(1) by (simp add: session_inv_def)
  note drop = drop_replacement_wf[OF wf, where reason = reason and w = w, folded b1_def]
  have good: "good_step cap (ms_browser s) b1"
    using drop_replacement_good[OF assms(1)] by (simp add: b1_def)
  then have inv: "session_inv cap b1" by (simp add: good_step_def)
  have "bs_replacement (ms_browser s) \<noteq> Some i" using wf assms(2) by (auto simp: epochs_wf_def fresh_id_def)
  then have fresh: "dict_get (bs_epochs b1) i = None" using drop(6) assms(2) by (simp add: fresh_id_def)
  have cand: "as_candidate_epoch (bs_audio b1) \<noteq> Some i"
    using assms(2) fail_audio_candidate
    by (auto simp: b1_def drop_replacement_def fresh_id_def Let_def fail_audio_switch_def split: option.splits)
  show ?thesis
  proof (cases rule: create_replacement_cases[OF assms(3), folded b1_def, case_names refused created])
    case refused
    then show ?thesis using good_state[OF good] drop(3,4) by simp
  next
    case (created e)
    have "good_step cap b1 (ms_browser s')"
      using insert_replacement_good[OF inv drop(2) fresh _ cand created(3)] created assms(2)
      by (simp add: fresh_id_def)
    then have "good_step cap (ms_browser s) (ms_browser s')"
      by (rule good_trans[OF good]) (use drop(3,4) created(6) in simp_all)
    then show ?thesis using created drop(3,4) by simp
  qed
qed

lemma register_good:
  assumes "session_inv cap b" and "bs_replacement b = Some (ep_id r)"
    and "dict_get (bs_epochs b) (ep_id r) = Some r" and "ep_replacement_reason r = Some ''audio_track_switch''"
  shows "good_step cap b (register_audio_candidate stream clock r b)
       \<and> bs_active (register_audio_candidate stream clock r b) = bs_active b"
proof -
  define b' where "b' = update_epoch (ep_id r) (\<lambda>e. e\<lparr>ep_audio_stream := Some stream\<rparr>) b"
  have wf: "epochs_wf b" using assms(1) by (simp add: session_inv_def)
  have wf': "epochs_wf b'" unfolding b'_def by (rule update_epoch_wf[OF wf]) simp
  have fields: "bs_active b' = bs_active b" "bs_attach_revision b' = bs_attach_revision b"
    "bs_client_revision b' = bs_client_revision b" "bs_replacement_count b' = bs_replacement_count b"
    by (simp_all add: b'_def)
  have get: "dict_get (bs_epochs b') k =
      (if k = ep_id r then Some (r\<lparr>ep_audio_stream := Some stream\<rparr>) else dict_get (bs_epochs b) k)" for k
    using assms(3) by (simp add: b'_def update_epoch_get)
  obtain a where reg: "register_audio_candidate stream clock r b = b'\<lparr>bs_audio := a\<rparr>"
      "as_candidate_epoch a = Some (ep_id r)"
    by (simp add: register_audio_candidate_def b'_def[symmetric] Let_def)
  have wf2: "epochs_wf (b'\<lparr>bs_audio := a\<rparr>)"
    by (rule epochs_wf_same[OF _ wf']) (simp_all add: same_epochs_def)
  have "bs_active b \<noteq> Some (ep_id r)" using wf assms(2) by (auto simp: epochs_wf_def)
  then have "candidate_ok (b'\<lparr>bs_audio := a\<rparr>)"
    using reg(2) fields(1) assms(4) by (simp add: candidate_ok_def get audio_reason_def)
  moreover have "dict_get (bs_epochs b') k \<noteq> None" if "bs_active b = Some k" for k
    using wf' fields(1) that by (simp add: epochs_wf_def)
  ultimately show ?thesis
    using wf2 assms(1) fields reg(1)
    by (auto simp: good_step_def session_inv_def session_progress_def split: option.splits)
qed

lemma begin_audio_good:
  assumes "session_inv cap (ms_browser s)" and "fresh_id i s"
    and "begin_audio_switch cap i stamp clock stream position playing (s, w) = (s', w')"
  shows "good_step cap (ms_browser s) (ms_browser s')"
proof -
  define s2 where "s2 = (case playing of None \<Rightarrow> s | Some p \<Rightarrow> s\<lparr>ms_playing_before_seek := p, ms_client_is_playing := p\<rparr>)
      \<lparr>ms_last_stable := position, ms_committed := position, ms_actual := position\<rparr>"
  have b2: "ms_browser s2 = ms_browser s" by (simp add: s2_def split: option.splits)
  have fresh: "fresh_id i s2" using assms(2) by (simp add: fresh_id_def b2)
  obtain r s3 w3 where mk: "create_replacement_epoch cap i stamp clock position ''audio_track_switch'' False (s2, w) = (r, s3, w3)"
    by (cases "create_replacement_epoch cap i stamp clock position ''audio_track_switch'' False (s2, w)") auto
  note cg = create_good[OF _ fresh mk, unfolded b2, OF assms(1)]
  have inv3: "session_inv cap (ms_browser s3)" using cg by (simp add: good_step_def)
  have run: "ms_browser s' = (case r of
      Some e \<Rightarrow> register_audio_candidate stream clock e (ms_browser s3)
    | None \<Rightarrow> (ms_browser s3)\<lparr>bs_audio := (bs_audio (ms_browser s3))
         \<lparr>as_selected := as_active (bs_audio (ms_browser s3)), as_pending := None, as_state := ''failed'',
          as_error := Some (or_string (ms_last_error s3) ''Could not prepare the selected audio track'')\<rparr>\<rparr>)"
    using assms(3) mk by (auto simp: begin_audio_switch_def Let_def s2_def split: option.splits)
  show ?thesis
  proof (cases r)
    case None
    have "good_step cap (ms_browser s3) (ms_browser s')"
      unfolding run None option.case by (rule good_audio_only[OF inv3]) simp
    then show ?thesis
      by (rule good_trans[rotated]) (use cg run None in simp_all)
  next
    case (Some e)
    have "good_step cap (ms_browser s3) (ms_browser s') \<and> bs_active (ms_browser s') = bs_active (ms_browser s3)"
      unfolding run Some option.case by (rule register_good[OF inv3]) (use cg Some in simp_all)
    then show ?thesis using good_trans cg by blast
  qed
qed

lemma good_refl: "session_inv cap b \<Longrightarrow> good_step cap b b"
  by (auto simp: good_step_def session_progress_def session_inv_def epochs_wf_def split: option.splits)

lemma select_good:
  assumes "session_inv cap (ms_browser s)" and "fresh_id i s"
    and "select_audio_track cap i stamp clock validation requested current playing (s, w) = (err, s', w')"
  shows "good_step cap (ms_browser s) (ms_browser s')"
proof -
  note run = assms(3)[unfolded select_audio_track_def Let_def prod.case]
  note same = good_refl[OF assms(1)]
  show ?thesis
  proof (cases "coerce_audio_stream_index requested")
    case (Inl e)
    then show ?thesis using run same by simp
  next
    case (Inr index)
    show ?thesis
    proof (cases "bs_engine_mode (ms_browser s) \<noteq> ''route2'' \<or> index = None \<or> audio_switch_in_progress (ms_browser s)")
      case True
      then show ?thesis using run same Inr by (auto split: option.splits if_splits)
    next
      case False
      then obtain stream where stream: "index = Some stream" by auto
      note run2 = run[unfolded Inr sum.case stream option.case]
      show ?thesis
      proof (cases validation)
        case (Some reason)
        then have "ms_browser s' = (ms_browser s)\<lparr>bs_audio := set_audio_switch_failed reason (bs_audio (ms_browser s))\<rparr>"
          using run2 False by auto
        then show ?thesis using good_audio_only[OF assms(1)] by simp
      next
        case None
        show ?thesis
        proof (cases "as_active (bs_audio (ms_browser s)) = Some stream \<and> as_pending (bs_audio (ms_browser s)) = None")
          case True
          then have "ms_browser s' = (ms_browser s)\<lparr>bs_audio := (bs_audio (ms_browser s))
              \<lparr>as_selected := Some stream, as_state := ''active'', as_error := None\<rparr>\<rparr>"
            using run2 False None by auto
          then show ?thesis using good_audio_only[OF assms(1)] by simp
        next
          case other: False
          have "begin_audio_switch cap i stamp clock stream (switch_position current s) playing (s, w) = (s', w')"
            using run2 False None other by (simp only: simp_thms if_False option.case prod.inject split: if_splits)
          then show ?thesis using begin_audio_good[OF assms(1,2)] by blast
        qed
      qed
    qed
  qed
qed

lemma promote_good:
  assumes "session_inv cap (ms_browser s)" and "bs_replacement (ms_browser s) = Some (ep_id r)"
    and "dict_get (bs_epochs (ms_browser s)) (ep_id r) = Some r"
    and "promote_replacement_epoch cached clock r (s, w) = (err, s', w')"
  shows "good_step cap (ms_browser s) (ms_browser s')"
proof -
  let ?b = "ms_browser s" and ?b' = "ms_browser s'"
  have wf: "epochs_wf ?b" and act: "bs_active ?b \<noteq> None" using assms(1) by (simp_all add: session_inv_def)
  then obtain a where a: "bs_active ?b = Some a" by blast
  note pf = promote_facts[OF assms(4) wf assms(2) a]
  have audio: "bs_audio ?b' = commit_audio_switch (epoch_of ?b (bs_active ?b)) r (bs_audio ?b)" using pf by blast
  have same_reason: "audio_reason (dict_get (bs_epochs ?b') k)" if "audio_reason (dict_get (bs_epochs ?b) k)" for k
  proof (cases "k = a")
    case True
    obtain e where "dict_get (bs_epochs ?b') a = Some e" using pf by blast
    then show ?thesis using pf that True by (auto simp: audio_reason_def)
  qed (use pf that in simp)
  have "candidate_ok ?b'"
  proof (cases "ep_replacement_reason r = Some ''audio_track_switch''")
    case True
    then show ?thesis by (simp add: candidate_ok_def audio commit_audio_switch_def)
  next
    case False
    then have keep: "bs_audio ?b' = bs_audio ?b" by (simp add: audio commit_audio_switch_def)
    have "c \<noteq> ep_id r \<and> audio_reason (dict_get (bs_epochs ?b') c)" if "as_candidate_epoch (bs_audio ?b) = Some c" for c
    proof -
      have "audio_reason (dict_get (bs_epochs ?b) c)"
        using assms(1) that by (simp add: session_inv_def candidate_ok_def)
      then show ?thesis using same_reason False assms(3) by (auto simp: audio_reason_def)
    qed
    moreover have "bs_active ?b' = Some (ep_id r)" using pf by blast
    ultimately show ?thesis by (auto simp: candidate_ok_def keep split: option.splits)
  qed
  then show ?thesis
    using pf assms(1,2) a by (auto simp: good_step_def session_inv_def session_progress_def)
qed

lemma commit_good:
  assumes "session_inv cap (ms_browser s)"
    and "commit_audio_track_candidate reserve cached clock (s, w) = (err, s', w')"
  shows "good_step cap (ms_browser s) (ms_browser s')"
proof -
  let ?b = "ms_browser s"
  let ?t = "s\<lparr>ms_browser := ?b\<lparr>bs_audio := (bs_audio ?b)\<lparr>as_candidate_state := ''committing'',
      as_state := ''committing'', as_commit_requested := clock\<rparr>\<rparr>\<rparr>"
  note run = assms(2)[unfolded commit_audio_track_candidate_def Let_def prod.case]
  note same = good_refl[OF assms(1)]
  show ?thesis
  proof (cases "bs_engine_mode ?b \<noteq> ''route2'' \<or> audio_candidate_epoch ?b = None
      \<or> as_candidate_state (bs_audio ?b) \<noteq> ''ready''")
    case True
    then have "s' = s" using run by (auto split: option.splits if_splits)
    then show ?thesis using same by simp
  next
    case False
    then obtain c where c: "audio_candidate_epoch ?b = Some c" by auto
    have good: "good_step cap ?b (ms_browser ?t)"
      using good_audio_only[OF assms(1)] by simp
    show ?thesis
    proof (cases "audio_runway_satisfied reserve s c")
      case short: False
      have "ms_browser s' = ?b\<lparr>bs_audio := (bs_audio ?b)\<lparr>as_candidate_state := ''preparing'', as_state := ''candidate_preparing''\<rparr>\<rparr>"
        using run False c short by auto
      then show ?thesis using good_audio_only[OF assms(1)] by simp
    next
      case True
      then have promote: "promote_replacement_epoch cached clock c (?t, w) = (err, s', w')"
        using run False c by (simp only: de_Morgan_disj not_not option.case if_True if_False simp_thms)
      obtain k where k: "dict_get (bs_epochs ?b) k = Some c" "bs_replacement ?b = Some (ep_id c)"
        using c by (auto simp: audio_candidate_epoch_def Let_def split: option.splits if_splits)
      then have "ep_id c = k" using epochs_wf_id assms(1) by (auto simp: session_inv_def)
      with k have "good_step cap (ms_browser ?t) (ms_browser s')"
        using good by (intro promote_good[OF _ _ _ promote]) (simp_all add: good_step_def)
      then show ?thesis by (simp add: good_step_def session_progress_def)
    qed
  qed
qed

lemma drop_candidate_good:
  assumes "session_inv cap b" and "\<And>k. c = Some k \<Longrightarrow> bs_active b \<noteq> Some k" and "as_candidate_epoch a = None"
  shows "good_step cap b
    ((fst (case c of Some k \<Rightarrow> discard_epoch k (b, w) | None \<Rightarrow> (b, w)))\<lparr>bs_replacement := None, bs_audio := a\<rparr>)"
proof -
  define b1 where "b1 = fst (case c of Some k \<Rightarrow> discard_epoch k (b, w) | None \<Rightarrow> (b, w))"
  have b1: "epochs_wf b1"
    using assms discard_epoch_wf by (auto simp: b1_def session_inv_def split: option.splits)
  then have "epochs_wf (b1\<lparr>bs_replacement := None, bs_audio := a\<rparr>)" by (auto simp: epochs_wf_def)
  then show ?thesis
    unfolding b1_def[symmetric]
    by (rule good_shrink[OF assms(1)]) (use assms(3) in \<open>auto simp: b1_def split: option.splits if_splits\<close>)
qed

lemma cancel_good:
  assumes "session_inv cap b"
  shows "good_step cap b (fst (cancel_audio_candidate reason failed (b, w)))"
proof -
  define c where "c = (case audio_candidate_epoch b of Some e \<Rightarrow> Some (ep_id e)
     | None \<Rightarrow> if truthy_string (as_candidate_epoch (bs_audio b)) then as_candidate_epoch (bs_audio b) else None)"
  have step: "(case audio_candidate_epoch b of Some e \<Rightarrow> discard_epoch (ep_id e) (b, w)
      | None \<Rightarrow> if truthy_string (as_candidate_epoch (bs_audio b))
                then discard_epoch (the (as_candidate_epoch (bs_audio b))) (b, w) else (b, w))
      = (case c of Some k \<Rightarrow> discard_epoch k (b, w) | None \<Rightarrow> (b, w))"
    by (auto simp: c_def truthy_string_def split: option.splits)
  have not_active: "bs_active b \<noteq> Some k" if "c = Some k" for k
  proof (cases "audio_candidate_epoch b")
    case None
    then show ?thesis using that assms by (auto simp: c_def session_inv_def candidate_ok_def split: if_splits)
  next
    case (Some e)
    then have "bs_replacement b = Some (ep_id e)"
      by (auto simp: audio_candidate_epoch_def Let_def split: option.splits if_splits)
    then show ?thesis using that assms Some by (auto simp: c_def session_inv_def epochs_wf_def)
  qed
  obtain b1 w1 where b1: "(case c of Some k \<Rightarrow> discard_epoch k (b, w) | None \<Rightarrow> (b, w)) = (b1, w1)" by fastforce
  define a where "a = clear_audio_candidate ((bs_audio b1)\<lparr>as_pending := None, as_selected := as_active (bs_audio b1)\<rparr>)"
  define a' where "a' = (if failed
      then a\<lparr>as_state := ''failed'', as_error := Some (py_strip (if reason = [] then ''Could not switch audio track'' else reason))\<rparr>
      else a\<lparr>as_state := ''active'', as_error := None\<rparr>)"
  have "fst (cancel_audio_candidate reason failed (b, w)) = b1\<lparr>bs_replacement := None, bs_audio := a'\<rparr>"
    unfolding cancel_audio_candidate_def Let_def prod.case step b1 by (simp add: a_def a'_def)
  moreover have "as_candidate_epoch a' = None" by (simp add: a'_def a_def)
  moreover have "good_step cap b ((fst (b1, w1))\<lparr>bs_replacement := None, bs_audio := a'\<rparr>)"
    unfolding b1[symmetric] by (rule drop_candidate_good[OF assms not_active]) (simp_all add: a'_def a_def)
  ultimately show ?thesis by simp
qed

lemma access_good:
  assumes "session_inv cap (ms_browser s)" and "0 < clock" and "dict_get (bs_epochs (ms_browser s)) eid = Some e"
    and "prepare_epoch_access stamp clock ttl eid e (s, w) = (err, s', w')"
  shows "good_step cap (ms_browser s) (ms_browser s')"
proof -
  have "epochs_wf (ms_browser s)" "clock \<noteq> 0" using assms(1,2) by (simp_all add: session_inv_def)
  note af = access_facts[OF this assms(3,4)]
  show ?thesis by (rule good_shrink[OF assms(1)]) (use af in auto)
qed

lemma cleanup_good:
  assumes "session_inv cap b" and "0 < clock"
  shows "good_step cap b (fst (cleanup_draining (Some clock) clock (b, w)))"
proof -
  have wf: "epochs_wf b" "clock \<noteq> 0" using assms by (simp_all add: session_inv_def)
  note get = cleanup_get[OF wf, where clock = clock and w = w]
  have sub: "dict_get (bs_epochs b) k = Some x"
    if "dict_get (bs_epochs (fst (cleanup_draining (Some clock) clock (b, w)))) k = Some x" for k x
    using get(7)[of k] get(8)[of k] that by (cases "dict_get (bs_epochs b) k") (auto split: if_splits)
  show ?thesis
  proof (rule good_shrink[OF assms(1)])
    show "\<exists>y. dict_get (bs_epochs b) k = Some y \<and> ep_replacement_reason x = ep_replacement_reason y"
      if "dict_get (bs_epochs (fst (cleanup_draining (Some clock) clock (b, w)))) k = Some x" for k x
      using sub[OF that] by blast
  qed (simp_all add: get(1-6) cleanup_audio)
qed

lemma acknowledge_good: "session_inv cap b \<Longrightarrow> good_step cap b (acknowledge_revision n b)"
  using acknowledge_wf[of b n]
  by (intro good_shrink) (auto simp: session_inv_def acknowledge_revision_def epochs_wf_def)

lemma step_good:
  assumes "session_step cap clock sw sw'" and "0 < clock" and "session_inv cap (ms_browser (fst sw))"
  shows "good_step cap (ms_browser (fst sw)) (ms_browser (fst sw'))"
  using assms
proof (cases rule: session_step.cases)
  case (step_replace i s reason stamp target mutate w r s' w')
  then show ?thesis using create_good assms(3) by auto
next
  case (step_select_audio i s stamp validation requested current playing w err s' w')
  then show ?thesis using select_good assms(3) by auto
next
  case (step_commit_audio reserve cached s w err s' w')
  then show ?thesis using commit_good assms(3) by auto
next
  case (step_cancel_audio reason s w err s' w')
  obtain b v where c: "cancel_audio_candidate reason False (ms_browser s, w) = (b, v)" by fastforce
  have "ms_browser s' = ms_browser s \<or> ms_browser s' = b"
    using step_cancel_audio(3) c by (auto simp: cancel_audio_track_candidate_def split: if_splits)
  then show ?thesis
    using step_cancel_audio(1,2) assms(3) good_refl cancel_good[of cap "ms_browser s" reason False w] c by auto
next
  case (step_promote s rid r cached w err s' w')
  then have "ep_id r = rid" using epochs_wf_id assms(3) by (auto simp: session_inv_def)
  then show ?thesis using step_promote promote_good assms(3) by auto
next
  case (step_access s eid e stamp ttl w err s' w')
  then show ?thesis using access_good assms(2,3) by auto
next
  case (step_cleanup s w b w')
  then show ?thesis using cleanup_good[of cap "ms_browser s" clock w] assms(2,3) by auto
next
  case (step_acknowledge s w n)
  then show ?thesis using acknowledge_good assms(3) by auto
qed

lemma session_inv_same:
  assumes "same_epochs b c" and "bs_attach_revision b = bs_attach_revision c" and "bs_audio b = bs_audio c"
    and "session_inv cap c"
  shows "session_inv cap b"
proof -
  have "epochs_wf b" using assms by (intro epochs_wf_same[OF assms(1)]) (simp_all add: session_inv_def)
  then show ?thesis using assms by (simp add: session_inv_def candidate_ok_def same_epochs_def split: option.splits)
qed

lemma initialize_inv:
  assumes "bs_epochs (ms_browser s) = []" and "as_candidate_epoch (bs_audio (ms_browser s)) = None" and "i \<noteq> []"
  shows "session_inv cap (ms_browser (initialize_session i stamp cached clock s))"
proof -
  define b where "b = (ms_browser s)\<lparr>bs_state := ''starting'', bs_attach_revision := 0, bs_client_revision := 0,
      bs_attach_issued_at := 0, bs_last_attach_warning := 0, bs_replacement := None,
      bs_retry_not_before := 0, bs_replacement_count := 0, bs_preflight_error := None,
      bs_prepare_started := (if bs_playback_mode (ms_browser s) = ''full'' then clock else 0), bs_probes := []\<rparr>"
  define e where "e = build_epoch i stamp clock None (s\<lparr>ms_browser := b\<rparr>)"
  define s1 where "s1 = s\<lparr>ms_browser := b\<lparr>bs_active := Some (ep_id e),
      bs_epochs := dict_set (bs_epochs b) (ep_id e) (ensure_workspace stamp clock e)\<rparr>\<rparr>"
  have init: "ms_browser (initialize_session i stamp cached clock s) = ms_browser (fst (ensure_full_preflight cached clock s1))"
    by (simp add: initialize_session_def Let_def b_def[symmetric] e_def[symmetric] s1_def[symmetric] del: build_epoch_fields)
  have "ep_id e = i" by (simp add: e_def)
  then have "session_inv cap (ms_browser s1)"
    using assms by (simp add: session_inv_def epochs_wf_def dict_wf_def candidate_ok_def s1_def b_def)
  then show ?thesis
    using ensure_preflight_same[of cached clock s1] session_inv_same by (simp only: init) blast
qed

lemma reachable_inv: "reachable_session cap sw \<Longrightarrow> session_inv cap (ms_browser (fst sw))"
proof (induction rule: reachable_session.induct)
  case (reach_init s i stamp cached clock w)
  then show ?case using initialize_inv by simp
next
  case (reach_step sw clock sw')
  then show ?case using step_good by (simp add: good_step_def)
qed

text \<open>Every session that can arise is well formed. From the initialisation of a session and through any
  sequence of replacements, audio switches, commits, cancellations, promotions, accesses, clean-ups and
  acknowledgements, the active epoch exists, a replacement is another existing epoch, the client never
  acknowledges a revision that was not issued, and at most the configured number of replacements was
  created.\<close>

theorem reachable_sessions_sound:
  assumes "reachable_session cap (s, w)"
  shows "epochs_wf (ms_browser s)
     \<and> (\<exists>a e. bs_active (ms_browser s) = Some a \<and> dict_get (bs_epochs (ms_browser s)) a = Some e)
     \<and> (case bs_replacement (ms_browser s) of None \<Rightarrow> True
        | Some r \<Rightarrow> bs_active (ms_browser s) \<noteq> Some r \<and> dict_get (bs_epochs (ms_browser s)) r \<noteq> None)
     \<and> bs_client_revision (ms_browser s) \<le> bs_attach_revision (ms_browser s)
     \<and> bs_replacement_count (ms_browser s) \<le> max 0 cap"
  using reachable_inv[OF assms] by (auto simp: session_inv_def epochs_wf_def split: option.splits)

lemma reachable_sessions_sound_witness:
  "let s = initialize_session ''e1'' ''t0'' None 1000 (new_session ''s1'' 1 7 ''mobile_1080p'' ''local'' 600 ''k'' ''f'' ''t0'')
   in bs_client_revision (ms_browser s) \<le> bs_attach_revision (ms_browser s)"
proof -
  have "reachable_session 10 (initialize_session ''e1'' ''t0'' None 1000 (new_session ''s1'' 1 7 ''mobile_1080p'' ''local'' 600 ''k'' ''f'' ''t0''), [])"
    by (rule reach_init) (simp_all add: new_record_defs)
  from reachable_sessions_sound[OF this] show ?thesis by (simp add: Let_def)
qed

text \<open>C3: No step takes the stream away. In a reachable session every step keeps the epoch that is active
  (as the active one, or draining after its replacement took over), changes the active epoch only to the
  replacement, raises the attach revision by at most one, and lowers neither revision.\<close>

theorem steps_keep_the_stream:
  assumes "reachable_session cap (s, w)" and "0 < clock" and "session_step cap clock (s, w) (s', w')"
    and "bs_active (ms_browser s) = Some a"
  shows "dict_get (bs_epochs (ms_browser s')) a \<noteq> None
     \<and> bs_active (ms_browser s') \<in> {Some a, bs_replacement (ms_browser s)}
     \<and> bs_attach_revision (ms_browser s') \<in> {bs_attach_revision (ms_browser s), bs_attach_revision (ms_browser s) + 1}
     \<and> bs_client_revision (ms_browser s) \<le> bs_client_revision (ms_browser s')"
  using step_good[OF assms(3,2)] reachable_inv[OF assms(1)] assms(4)
  by (auto simp: good_step_def session_progress_def)

lemma steps_keep_the_stream_witness:
  "let s = initialize_session ''e1'' ''t0'' None 1000 (new_session ''s1'' 1 7 ''mobile_1080p'' ''local'' 600 ''k'' ''f'' ''t0'')
   in dict_get (bs_epochs (acknowledge_revision 5 (ms_browser s))) ''e1'' \<noteq> None"
proof -
  define s where "s = initialize_session ''e1'' ''t0'' None 1000 (new_session ''s1'' 1 7 ''mobile_1080p'' ''local'' 600 ''k'' ''f'' ''t0'')"
  have r: "reachable_session 10 (s, [])"
    unfolding s_def by (rule reach_init) (simp_all add: new_record_defs)
  have "bs_active (ms_browser s) = Some ''e1''"
    by (simp add: s_def initialize_session_def ensure_full_preflight_def new_record_defs Let_def)
  from steps_keep_the_stream[OF r _ step_acknowledge[of 10 1000 s "[]" 5] this]
  show ?thesis by (simp add: s_def Let_def)
qed

section \<open>Cancelling an audio switch that is not there\<close>

text \<open>Cancelling an audio candidate abandons an unrelated replacement. When the replacement in progress
  serves a seek or a recovery and no audio candidate exists, the cancellation request forgets the
  replacement without ending it: its epoch stays in the table, its worker keeps running, it is no longer
  the replacement, and as long as it is not draining no clean-up will ever remove it.\<close>

theorem cancel_orphans_replacement:
  assumes "bs_engine_mode (ms_browser s) = ''route2''" and "bs_replacement (ms_browser s) = Some rid"
    and "dict_get (bs_epochs (ms_browser s)) rid = Some r" and "ep_replacement_reason r \<noteq> Some ''audio_track_switch''"
    and "as_candidate_epoch (bs_audio (ms_browser s)) = None" and "epochs_wf (ms_browser s)"
    and "cancel_audio_track_candidate reason (s, w) = (err, s', w')"
  shows "err = None \<and> bs_replacement (ms_browser s') = None \<and> bs_active (ms_browser s') \<noteq> Some rid
     \<and> dict_get (bs_epochs (ms_browser s')) rid = Some r \<and> w' = w
     \<and> (\<forall>now v. ep_state r \<noteq> ''draining'' \<and> 0 < now
          \<longrightarrow> dict_get (bs_epochs (fst (cleanup_draining (Some now) now (ms_browser s', v)))) rid = Some r)"
proof -
  let ?b = "ms_browser s"
  have none: "audio_candidate_epoch ?b = None"
    using assms(2-5) epochs_wf_id[OF assms(6,3)] by (auto simp: audio_candidate_epoch_def Let_def truthy_string_def)
  obtain a where run: "cancel_audio_candidate reason False (?b, w) = (?b\<lparr>bs_replacement := None, bs_audio := a\<rparr>, w)"
    by (auto simp: cancel_audio_candidate_def none assms(5) Let_def)
  then have s': "err = None" "ms_browser s' = ?b\<lparr>bs_replacement := None, bs_audio := a\<rparr>" "w' = w"
    using assms(1,7) by (auto simp: cancel_audio_track_candidate_def)
  have wf: "epochs_wf (ms_browser s')" using assms(6) unfolding s' by (auto simp: epochs_wf_def)
  have get: "dict_get (bs_epochs (ms_browser s')) rid = Some r" using assms(3) s' by simp
  have "bs_active ?b \<noteq> Some rid" using assms(2,6) by (auto simp: epochs_wf_def)
  moreover have "dict_get (bs_epochs (fst (cleanup_draining (Some now) now (ms_browser s', v)))) rid = Some r"
    if "ep_state r \<noteq> ''draining''" "0 < now" for now v
    using cleanup_get(7)[OF wf _ get, of now now v] that by (simp add: epoch_draining_expired_def)
  ultimately show ?thesis using s' get by auto
qed

lemma cancel_orphans_replacement_witness:
  "bs_replacement (ms_browser (fst (snd (cancel_audio_track_candidate ''cancelled'' (demo_session, []))))) = None
   \<and> dict_get (bs_epochs (ms_browser (fst (snd (cancel_audio_track_candidate ''cancelled'' (demo_session, [])))))) ''e2'' \<noteq> None"
proof -
  obtain err s' w' where run: "cancel_audio_track_candidate ''cancelled'' (demo_session, []) = (err, s', w')"
    by (cases "cancel_audio_track_candidate ''cancelled'' (demo_session, [])") auto
  have "dict_get (bs_epochs (ms_browser demo_session)) ''e2'' = Some ((demo_epoch ''e2'')\<lparr>ep_state := ''attach_ready''\<rparr>)"
    by (simp add: demo_session_def)
  from cancel_orphans_replacement[OF _ _ this _ _ demo_wf run] show ?thesis
    by (simp add: run) (simp add: demo_defs)
qed

section \<open>Committing an audio switch before the full budget is known\<close>

lemma full_supply_cong:
  assumes "ms_duration s = ms_duration t"
  shows "full_supply_of s e = full_supply_of t e"
  unfolding full_supply_of_def epoch_ready_end_def by (simp only: assms)

lemma gate_closed_without_budget:
  assumes "full_mode_requires_initial_attach_gate s" and "bs_source_bins (ms_browser s) = []" and "\<not> fs_surplus (full_supply_of s r)"
  shows "\<exists>g. full_mode_gate None clock s r = (Inr g, fst (ensure_full_preflight None clock s)) \<and> \<not> fg_ready g"
proof -
  define t where "t = fst (ensure_full_preflight None clock s)"
  have bins: "bs_source_bins (ms_browser t) = []"
    using assms(1,2) by (auto simp: t_def ensure_full_preflight_def load_preflight_cache_def Let_def
        full_mode_requires_initial_attach_gate_def split: option.splits)
  have "full_supply_of t r = full_supply_of s r"
    by (rule full_supply_cong) (simp add: t_def ensure_full_preflight_def Let_def split: option.splits)
  then have "\<not> fg_ready (full_gate_without_budget t r clock (full_supply_of t r) why)" for why
    using assms(3) by (simp add: full_gate_without_budget_def bootstrap_result_def full_result_def)
  then show ?thesis
    using assms(1) bins
    by (simp add: full_mode_gate_def t_def[symmetric] Let_def full_mode_requires_initial_attach_gate_def)
qed

lemma issue_withheld:
  assumes "full_mode_requires_initial_attach_gate s" and "bs_source_bins (ms_browser s) = []"
    and "\<not> fs_surplus (full_supply_of s r)" and "issue_attach_revision None clock n reason (Some r) s = (err, s')"
  shows "err = None \<and> (bs_attach_revision (ms_browser s') = bs_attach_revision (ms_browser s) \<or> n \<le> 0)"
proof (cases "bs_attach_revision (ms_browser s) = max 0 n \<or> n \<le> 0")
  case True
  then show ?thesis using assms(4) by (auto simp: issue_attach_revision_def Let_def split: if_splits)
next
  case False
  obtain g where g: "full_mode_gate None clock s r = (Inr g, fst (ensure_full_preflight None clock s))" "\<not> fg_ready g"
    using gate_closed_without_budget[OF assms(1-3)] by blast
  define path where "path = ''issue_attach_revision:'' @ reason"
  obtain v t where guard: "guard_full_attach_boundary None clock (Some r) True path s = (v, t)" by fastforce
  have "v = Inr False"
    using guard g assms(1) by (simp add: guard_full_attach_boundary_def Let_def)
  moreover have "bs_attach_revision (ms_browser t) = bs_attach_revision (ms_browser s)"
    using guard_same[OF guard] by (simp add: same_revision_def)
  moreover have "max 0 n = n" "0 < n" using False by auto
  ultimately show ?thesis
    using assms(4) False by (simp add: issue_attach_revision_def Let_def path_def[symmetric] guard del: append_Cons append_Nil)
qed

lemma retire_active_mode:
  "bs_engine_mode (fst (retire_active clock n rid (b, w))) = bs_engine_mode b"
  "bs_playback_mode (fst (retire_active clock n rid (b, w))) = bs_playback_mode b"
  "bs_source_bins (fst (retire_active clock n rid (b, w))) = bs_source_bins b"
  by (auto simp: retire_active_def Let_def split: option.splits prod.splits)

lemma promote_withheld:
  assumes "full_mode_requires_initial_attach_gate s" and "bs_source_bins (ms_browser s) = []"
    and "\<not> fs_surplus (full_supply_of s r)" and "0 \<le> bs_attach_revision (ms_browser s)"
    and "promote_replacement_epoch None clock r (s, w) = (err, s', w')"
  shows "err = None \<and> bs_attach_revision (ms_browser s') = bs_attach_revision (ms_browser s)"
proof -
  let ?b = "ms_browser s"
  define n where "n = max 1 (bs_attach_revision ?b + 1)"
  obtain b1 w1 where ret: "retire_active clock n (ep_id r) (?b, w) = (b1, w1)" by fastforce
  define s1 where "s1 = s\<lparr>ms_browser := b1\<lparr>bs_active := Some (ep_id r), bs_replacement := None,
      bs_audio := commit_audio_switch (epoch_of ?b (bs_active ?b)) r (bs_audio b1)\<rparr>\<rparr>"
  obtain e2 s2 where iss: "issue_attach_revision None clock n ''replacement_promotion'' (Some r) s1 = (e2, s2)" by fastforce
  have mode: "full_mode_requires_initial_attach_gate s1" "bs_source_bins (ms_browser s1) = []"
    "bs_attach_revision (ms_browser s1) = bs_attach_revision b1"
    using retire_active_mode[of clock n "ep_id r" ?b w] assms(1,2)
    by (simp_all add: s1_def ret full_mode_requires_initial_attach_gate_def)
  have same_supply: "full_supply_of s1 r = full_supply_of s r"
    by (rule full_supply_cong) (simp add: s1_def)
  have rev: "bs_attach_revision b1 = bs_attach_revision ?b"
    using ret by (auto simp: retire_active_def Let_def split: option.splits prod.splits if_splits)
  have "e2 = None \<and> bs_attach_revision (ms_browser s2) = bs_attach_revision ?b"
    using issue_withheld[OF mode(1,2) _ iss] assms(3,4) mode(3) rev by (simp add: n_def same_supply)
  moreover have "promote_replacement_epoch None clock r (s, w) = (case e2 of Some x \<Rightarrow> (Some x, s2, w1)
      | None \<Rightarrow> (None, s2\<lparr>ms_target := ep_attach r, ms_pending_target := Some (ep_attach r), ms_last_error := None\<rparr>, w1))"
    by (simp only: promote_replacement_epoch_def Let_def prod.case n_def[symmetric] ret s1_def[symmetric] iss)
  ultimately show ?thesis using assms(5) by auto
qed

text \<open>A full-mode audio switch can strand its listener. When the candidate has its runway and the
  client commits it, but the byte budget of full mode is not known and the supply shows no surplus, the
  candidate becomes the active epoch although the gate withholds the attach revision. The epoch the client
  is reading is drained with a revision that was never issued, so no acknowledgement the client can send
  counts as having caught up, and once the drain limit has passed the clean-up removes it.\<close>

theorem full_commit_strands_listener:
  assumes "epochs_wf (ms_browser s)" and "full_mode_requires_initial_attach_gate s"
    and "bs_source_bins (ms_browser s) = []" and "bs_active (ms_browser s) = Some a"
    and "audio_candidate_epoch (ms_browser s) = Some c" and "as_candidate_state (bs_audio (ms_browser s)) = ''ready''"
    and "audio_runway_satisfied reserve s c" and "\<not> fs_surplus (full_supply_of s c)"
    and "commit_audio_track_candidate reserve None clock (s, w) = (err, s', w')"
  shows "err = None \<and> bs_active (ms_browser s') = Some (ep_id c)
     \<and> bs_attach_revision (ms_browser s') = bs_attach_revision (ms_browser s)
     \<and> (\<exists>e. dict_get (bs_epochs (ms_browser s')) a = Some e \<and> ep_state e = ''draining'' \<and> ep_worker e = None
          \<and> (\<forall>n. bs_client_revision (acknowledge_revision n (ms_browser s')) < ep_drain_revision e))"
proof -
  let ?t = "s\<lparr>ms_browser := (ms_browser s)\<lparr>bs_audio := (bs_audio (ms_browser s))\<lparr>as_candidate_state := ''committing'',
      as_state := ''committing'', as_commit_requested := clock\<rparr>\<rparr>\<rparr>"
  have wf: "epochs_wf (ms_browser ?t)"
    by (rule epochs_wf_same[OF _ assms(1)]) (simp_all add: same_epochs_def)
  have rep: "bs_replacement (ms_browser ?t) = Some (ep_id c)"
    using assms(5) by (auto simp: audio_candidate_epoch_def Let_def split: option.splits if_splits)
  have promote: "promote_replacement_epoch None clock c (?t, w) = (err, s', w')"
    using assms(2,5,6,7,9)
    by (simp add: commit_audio_track_candidate_def full_mode_requires_initial_attach_gate_def Let_def)
  have "full_mode_requires_initial_attach_gate ?t" "bs_source_bins (ms_browser ?t) = []"
    "\<not> fs_surplus (full_supply_of ?t c)" "0 \<le> bs_attach_revision (ms_browser ?t)"
    using assms(1-3,8) full_supply_cong[of ?t s c]
    by (simp_all add: full_mode_requires_initial_attach_gate_def epochs_wf_def)
  note held = promote_withheld[OF this promote]
  have act: "bs_active (ms_browser ?t) = Some a" using assms(4) by simp
  note pf = promote_facts[OF promote wf rep act]
  then obtain e where e: "dict_get (bs_epochs (ms_browser s')) a = Some e" "ep_state e = ''draining''" "ep_worker e = None"
    "bs_attach_revision (ms_browser ?t) + 1 \<le> ep_drain_revision e" by blast
  have "bs_client_revision (acknowledge_revision n (ms_browser s')) < ep_drain_revision e" for n
    using e(4) held by (simp add: acknowledge_revision_def)
  then show ?thesis using e held pf by auto
qed

definition demo_switch :: mobile_session where
  "demo_switch = demo_session\<lparr>ms_browser := (ms_browser demo_session)\<lparr>bs_playback_mode := ''full'',
     bs_audio := new_audio_switch\<lparr>as_candidate_epoch := Some ''e2'', as_candidate_state := ''ready''\<rparr>,
     bs_epochs := [(''e1'', (demo_epoch ''e1'')\<lparr>ep_state := ''active''\<rparr>),
                   (''e2'', (demo_epoch ''e2'')\<lparr>ep_state := ''attach_ready'', ep_init_published := True,
                      ep_contiguous_through := Some 79, ep_replacement_reason := Some ''audio_track_switch''\<rparr>)]\<rparr>\<rparr>"

lemma full_commit_strands_listener_witness:
  "let s' = fst (snd (commit_audio_track_candidate (False, None) None 1050 (demo_switch, [])))
   in bs_active (ms_browser s') = Some ''e2'' \<and> bs_attach_revision (ms_browser s') = 2"
proof -
  let ?c = "(demo_epoch ''e2'')\<lparr>ep_state := ''attach_ready'', ep_init_published := True,
      ep_contiguous_through := Some 79, ep_replacement_reason := Some ''audio_track_switch''\<rparr>"
  obtain err s' w' where run: "commit_audio_track_candidate (False, None) None 1050 (demo_switch, []) = (err, s', w')"
    by (cases "commit_audio_track_candidate (False, None) None 1050 (demo_switch, [])") auto
  have "epochs_wf (ms_browser demo_switch)"
    by (simp add: demo_switch_def demo_defs epochs_wf_def dict_wf_def)
  moreover have "full_mode_requires_initial_attach_gate demo_switch" "bs_source_bins (ms_browser demo_switch) = []"
    "bs_active (ms_browser demo_switch) = Some ''e1''" "audio_candidate_epoch (ms_browser demo_switch) = Some ?c"
    "as_candidate_state (bs_audio (ms_browser demo_switch)) = ''ready''"
    by (simp_all add: demo_switch_def demo_defs full_mode_requires_initial_attach_gate_def audio_candidate_epoch_def)
  moreover have "audio_runway_satisfied (False, None) demo_switch ?c"
    by (simp add: demo_switch_def demo_defs audio_runway_satisfied_def audio_actual_runway_def audio_required_runway_def
        audio_raw_required_def epoch_ready_end_def route2_consts)
  moreover have "\<not> fs_surplus (full_supply_of demo_switch ?c)"
    by (simp add: demo_defs full_supply_of_def supply_model_of_def supply_rate_x_def Let_def route2_consts)
  ultimately have "bs_active (ms_browser s') = Some (ep_id ?c) \<and> bs_attach_revision (ms_browser s') = bs_attach_revision (ms_browser demo_switch)"
    using full_commit_strands_listener[OF _ _ _ _ _ _ _ _ run] by blast
  moreover have "ep_id ?c = ''e2''" "bs_attach_revision (ms_browser demo_switch) = 2"
    by (simp_all add: demo_switch_def demo_defs)
  ultimately show ?thesis by (simp add: run Let_def)
qed

end
