(* ===== verification/Native_Window.thy ===== *)
theory Native_Window
  imports Route2_Readiness
begin

text \<open>
  The sliding manifest window of native-HLS sessions: the whole of
  \<^verbatim>\<open>services/route2_native_hls_window.py\<close> and the window operations of
  \<^verbatim>\<open>MobilePlaybackManager\<close> that use it.

  Arguments that the source passes through \<^verbatim>\<open>_coerce_finite_seconds\<close> have type \<open>pyval\<close>; a not-a-number
  fallback is the result \<open>None\<close> of \<open>finite_seconds\<close>. The rendered playlist is compared with a parser of
  the playlist's lines, the way a client reads it.
\<close>

section \<open>Constants and coercion\<close>

definition NATIVE_HLS_BACK_WINDOW_SECONDS :: real where
  "NATIVE_HLS_BACK_WINDOW_SECONDS = CLIENT_BACK_BUFFER_SECONDS"

definition NATIVE_HLS_WINDOW_POLICY :: string where
  "NATIVE_HLS_WINDOW_POLICY = ''native_hls_sliding_window_v1''"

definition WINDOW_EDGE_REFRESH_RUNWAY_SECONDS :: real where
  "WINDOW_EDGE_REFRESH_RUNWAY_SECONDS = 20"

definition WINDOW_ANCHOR_DRIFT_REFRESH_SECONDS :: real where
  "WINDOW_ANCHOR_DRIFT_REFRESH_SECONDS = 10"

definition WINDOW_EDGE_REFRESH_MIN_SECONDS :: real where
  "WINDOW_EDGE_REFRESH_MIN_SECONDS = 4"

definition WINDOW_EDGE_REFRESH_RATIO :: real where
  "WINDOW_EDGE_REFRESH_RATIO = 35 / 100"

lemmas window_consts [route2_consts] =
  NATIVE_HLS_BACK_WINDOW_SECONDS_def WINDOW_EDGE_REFRESH_RUNWAY_SECONDS_def
  WINDOW_ANCHOR_DRIFT_REFRESH_SECONDS_def WINDOW_EDGE_REFRESH_MIN_SECONDS_def WINDOW_EDGE_REFRESH_RATIO_def

definition BUFFER_TIER_FORWARD_SECONDS :: "(string \<times> real) list" where
  "BUFFER_TIER_FORWARD_SECONDS =
     [(''lite_fast'', ROUTE2_LITE_FAST_START_RUNWAY_SECONDS),
      (''lite_uncertain'', ROUTE2_LITE_SLOW_START_RUNWAY_SECONDS),
      (''lite_undersupply'', ROUTE2_LITE_UNDERSUPPLY_START_RUNWAY_SECONDS),
      (''full_healthy'', ROUTE2_FULL_FAST_START_RUNWAY_SECONDS),
      (''full_bad_condition'', ROUTE2_FULL_BAD_CONDITION_BUFFER_SECONDS)]"

fun finite_seconds :: "pyval \<Rightarrow> real option" where
  "finite_seconds (PyNum x) = Some x"
| "finite_seconds PyNone = None"
| "finite_seconds PyNaN = None"
| "finite_seconds PyInf = None"
| "finite_seconds PyNegInf = None"
| "finite_seconds PyNotNumeric = None"

definition coerce_finite_seconds :: "pyval \<Rightarrow> real \<Rightarrow> real" where
  "coerce_finite_seconds v fallback = (case finite_seconds v of None \<Rightarrow> fallback | Some x \<Rightarrow> x)"

lemma coerce_PyNum [simp]: "coerce_finite_seconds (PyNum x) d = x"
  by (simp add: coerce_finite_seconds_def)

definition is_native_hls_engine :: "string option \<Rightarrow> bool" where
  "is_native_hls_engine engine =
     (case engine of None \<Rightarrow> False | Some e \<Rightarrow> py_lower (py_strip e) = ''native_hls'')"

definition client_back_buffer_prune_supported :: "string option \<Rightarrow> bool" where
  "client_back_buffer_prune_supported engine =
     (case engine of None \<Rightarrow> False | Some e \<Rightarrow> py_lower (py_strip e) = ''hls_js'')"

section \<open>The window\<close>

definition tier_seconds :: "string \<Rightarrow> real" where
  "tier_seconds tier = (case dict_get BUFFER_TIER_FORWARD_SECONDS tier of None \<Rightarrow> 0 | Some s \<Rightarrow> s)"

definition compute_window_forward_seconds :: "string option \<Rightarrow> string option \<Rightarrow> real" where
  "compute_window_forward_seconds tier mode =
     (case dict_get BUFFER_TIER_FORWARD_SECONDS (py_lower (py_strip (or_string tier []))) of
        Some s \<Rightarrow> s
      | None \<Rightarrow>
          if py_lower (py_strip (or_string mode [])) = ''full'' then tier_seconds ''full_healthy''
          else tier_seconds ''lite_uncertain'')"

definition resolve_window_anchor_seconds :: "pyval \<Rightarrow> pyval \<Rightarrow> pyval \<Rightarrow> real" where
  "resolve_window_anchor_seconds current target attach =
     (let c = coerce_finite_seconds current 0; t = coerce_finite_seconds target 0;
          a = coerce_finite_seconds attach 0
      in if c > 0 then c else if t > 0 then t else if a > 0 then a else 0)"

record native_window =
  nw_start :: real
  nw_end :: real
  nw_back :: real
  nw_forward :: real
  nw_anchor :: real
  nw_policy :: string

definition compute_native_hls_window ::
  "pyval \<Rightarrow> pyval \<Rightarrow> string option \<Rightarrow> string option \<Rightarrow> real \<Rightarrow> native_window" where
  "compute_native_hls_window anchor_arg duration_arg tier mode back_arg =
     (let anchor = max 0 (coerce_finite_seconds anchor_arg 0);
          duration = max 0 (coerce_finite_seconds duration_arg 0);
          back = max 0 back_arg;
          forward = compute_window_forward_seconds tier mode;
          clamped_anchor = (if duration > 0 then min anchor duration else anchor);
          raw_start = clamped_anchor - back;
          raw_end = clamped_anchor + forward;
          end0 = (if duration > 0 then max 0 (min duration raw_end) else max 0 raw_end);
          start = max 0 raw_start;
          end1 = (if end0 < start then start else end0)
      in \<lparr>nw_start = py_round 2 start, nw_end = py_round 2 end1, nw_back = py_round 2 back,
          nw_forward = py_round 2 forward, nw_anchor = py_round 2 clamped_anchor,
          nw_policy = NATIVE_HLS_WINDOW_POLICY\<rparr>)"

definition is_position_in_active_window :: "pyval \<Rightarrow> pyval \<Rightarrow> pyval \<Rightarrow> real \<Rightarrow> bool" where
  "is_position_in_active_window position_arg start_arg end_arg headroom_arg =
     (case finite_seconds position_arg of
        None \<Rightarrow> False
      | Some position \<Rightarrow>
          let start = coerce_finite_seconds start_arg 0; w_end = coerce_finite_seconds end_arg 0 in
          if w_end \<le> start then False
          else start \<le> position \<and> position \<le> max start (w_end - max 0 headroom_arg))"

definition compute_window_edge_refresh_runway :: "pyval \<Rightarrow> real \<Rightarrow> real" where
  "compute_window_edge_refresh_runway forward_arg max_runway =
     (case finite_seconds forward_arg of
        None \<Rightarrow> max 0 max_runway
      | Some forward \<Rightarrow>
          if forward \<le> 0 then max 0 max_runway
          else min (max 0 max_runway) (max WINDOW_EDGE_REFRESH_MIN_SECONDS (forward * WINDOW_EDGE_REFRESH_RATIO)))"

text \<open>The runway at which the end of the window is near: from the forward window, else from the anchor.\<close>

definition effective_edge_runway :: "pyval \<Rightarrow> pyval \<Rightarrow> real \<Rightarrow> real \<Rightarrow> real" where
  "effective_edge_runway forward_arg anchor_arg w_end edge_runway =
     (if forward_arg \<noteq> PyNone then compute_window_edge_refresh_runway forward_arg edge_runway
      else case finite_seconds anchor_arg of
        Some anchor \<Rightarrow> compute_window_edge_refresh_runway (PyNum (max 0 (w_end - anchor))) edge_runway
      | None \<Rightarrow> max 0 edge_runway)"

definition should_refresh_native_hls_window ::
  "pyval \<Rightarrow> pyval \<Rightarrow> pyval \<Rightarrow> pyval \<Rightarrow> pyval \<Rightarrow> bool \<Rightarrow> pyval \<Rightarrow> real \<Rightarrow> real \<Rightarrow> string option" where
  "should_refresh_native_hls_window current_arg start_arg end_arg anchor_arg seek_arg tier_changed
      forward_arg edge_runway anchor_drift =
     (let w_end = coerce_finite_seconds end_arg 0; start = coerce_finite_seconds start_arg 0 in
      if tier_changed then Some ''buffer_tier_changed''
      else if (case finite_seconds seek_arg of
                 None \<Rightarrow> False
               | Some t \<Rightarrow> \<not> is_position_in_active_window (PyNum t) (PyNum start) (PyNum w_end) 0)
      then Some ''seek_target_outside_window''
      else case finite_seconds current_arg of
        None \<Rightarrow> None
      | Some current \<Rightarrow>
          if w_end > start \<and> w_end - current \<le> effective_edge_runway forward_arg anchor_arg w_end edge_runway
          then Some ''approaching_window_end''
          else (case finite_seconds anchor_arg of
                  Some anchor \<Rightarrow> if \<bar>current - anchor\<bar> > max 0 anchor_drift then Some ''anchor_drift'' else None
                | None \<Rightarrow> None))"

section \<open>Slicing the playlist\<close>

record segment_slice =
  sl_first :: int
  sl_last :: int
  sl_sequence :: int
  sl_start :: real

definition slice_manifest_segments_for_window ::
  "int \<Rightarrow> real \<Rightarrow> pyval \<Rightarrow> pyval \<Rightarrow> pyval \<Rightarrow> segment_slice" where
  "slice_manifest_segments_for_window manifest_end segment_duration epoch_start_arg start_arg end_arg =
     (let safe_end = max 0 manifest_end;
          d = max (1 / 1000) segment_duration;
          epoch_start = max 0 (coerce_finite_seconds epoch_start_arg 0);
          win_start = coerce_finite_seconds start_arg 0;
          win_end = coerce_finite_seconds end_arg 0
      in if win_end \<le> win_start
         then \<lparr>sl_first = safe_end, sl_last = safe_end, sl_sequence = safe_end,
               sl_start = py_round 3 (epoch_start + of_int safe_end * d)\<rparr>
         else
           let relative_start = max 0 (win_start - epoch_start);
               relative_end = max relative_start (win_end - epoch_start);
               first0 = \<lfloor>relative_start / d\<rfloor>;
               last0 = \<lfloor>relative_end / d\<rfloor>;
               first_candidate = (if of_int (first0 + 1) * d \<le> relative_start + 1 / 10 ^ 6 then first0 + 1 else first0);
               last_candidate = (if of_int last0 * d \<ge> relative_end - 1 / 10 ^ 6 \<and> last0 > 0 then last0 - 1 else last0);
               first = max 0 (min safe_end first_candidate);
               last = max first (min safe_end last_candidate)
           in \<lparr>sl_first = first, sl_last = last, sl_sequence = first,
               sl_start = py_round 3 (epoch_start + of_int first * d)\<rparr>)"

section \<open>Rendering the playlist\<close>

text \<open>\<^verbatim>\<open>f"{x:.df}"\<close>: a fixed number of decimals, rounded to even.\<close>

definition show_fixed :: "nat \<Rightarrow> real \<Rightarrow> string" where
  "show_fixed d x =
     (let n = round_half_even (\<bar>x\<bar> * 10 ^ d); k = nat n in
      (if x < 0 then ''-'' else []) @ show_nat (k div 10 ^ d) @ ''.'' @ pad_nat d (k mod 10 ^ d))"

definition segment_uri :: "int \<Rightarrow> string" where
  "segment_uri index = ''segments/'' @ show_int index @ ''.m4s''"

definition segment_extinf :: "real \<Rightarrow> real \<Rightarrow> real \<Rightarrow> int \<Rightarrow> real" where
  "segment_extinf epoch_start d duration index =
     (let segment_start = epoch_start + of_int index * d;
          remaining = (if duration > 0 then max 0 (duration - segment_start) else d)
      in if duration > 0 then min d remaining else d)"

definition segment_lines :: "real \<Rightarrow> real \<Rightarrow> real \<Rightarrow> int \<Rightarrow> string list" where
  "segment_lines epoch_start d duration index =
     [''#EXTINF:'' @ show_fixed 3 (segment_extinf epoch_start d duration index) @ '','', segment_uri index]"

definition header_lines :: "real \<Rightarrow> int \<Rightarrow> string \<Rightarrow> real \<Rightarrow> bool \<Rightarrow> string list" where
  "header_lines d sequence init_uri attach_offset use_window =
     [''#EXTM3U'', ''#EXT-X-VERSION:7'',
      ''#EXT-X-TARGETDURATION:'' @ show_int \<lceil>d\<rceil>,
      ''#EXT-X-MEDIA-SEQUENCE:'' @ show_int sequence]
     @ (if use_window then [] else [''#EXT-X-PLAYLIST-TYPE:EVENT''])
     @ [''#EXT-X-INDEPENDENT-SEGMENTS'',
        ''#EXT-X-MAP:URI='' @ [CHR 0x22] @ init_uri @ [CHR 0x22],
        ''#EXT-X-START:TIME-OFFSET='' @ show_fixed 3 attach_offset @ '',PRECISE=YES'']"

definition use_window :: "real option \<Rightarrow> real option \<Rightarrow> bool" where
  "use_window w_start w_end = (case (w_start, w_end) of (Some a, Some b) \<Rightarrow> b > a | _ \<Rightarrow> False)"

text \<open>Which segments the playlist lists and where its first one starts.\<close>

definition playlist_slice :: "real \<Rightarrow> int \<Rightarrow> real \<Rightarrow> real option \<Rightarrow> real option \<Rightarrow> segment_slice" where
  "playlist_slice epoch_start safe_end d w_start w_end =
     (if use_window w_start w_end
      then slice_manifest_segments_for_window safe_end d (PyNum epoch_start) (PyNum (the w_start)) (PyNum (the w_end))
      else \<lparr>sl_first = 0, sl_last = safe_end, sl_sequence = 0, sl_start = epoch_start\<rparr>)"

definition manifest_lines ::
  "pyval \<Rightarrow> pyval \<Rightarrow> int \<Rightarrow> pyval \<Rightarrow> real \<Rightarrow> bool \<Rightarrow> real option \<Rightarrow> real option \<Rightarrow> string \<Rightarrow> string list" where
  "manifest_lines epoch_start_arg attach_arg manifest_end duration_arg segment_duration all_published w_start w_end init_uri =
     (let d = max (1 / 1000) segment_duration; safe_end = max 0 manifest_end;
          epoch_start = max 0 (coerce_finite_seconds epoch_start_arg 0);
          duration = max 0 (coerce_finite_seconds duration_arg 0);
          attach = max 0 (coerce_finite_seconds attach_arg 0);
          sl = playlist_slice epoch_start safe_end d w_start w_end
      in header_lines d (sl_sequence sl) init_uri (max 0 (attach - sl_start sl)) (use_window w_start w_end)
         @ concat (map (segment_lines epoch_start d duration) [sl_first sl..sl_last sl])
         @ (if all_published then [''#EXT-X-ENDLIST''] else []))"

fun join_lines :: "string list \<Rightarrow> string" where
  "join_lines [] = []"
| "join_lines [l] = l"
| "join_lines (l # m # ms) = l @ CHR 0x0A # join_lines (m # ms)"

definition render_route2_epoch_manifest_text ::
  "pyval \<Rightarrow> pyval \<Rightarrow> int \<Rightarrow> pyval \<Rightarrow> real \<Rightarrow> bool \<Rightarrow> real option \<Rightarrow> real option \<Rightarrow> string \<Rightarrow> string" where
  "render_route2_epoch_manifest_text epoch_start attach manifest_end duration d all_published w_start w_end init_uri =
     join_lines (manifest_lines epoch_start attach manifest_end duration d all_published w_start w_end init_uri) @ [CHR 0x0A]"

section \<open>Reading the playlist back\<close>

text \<open>What a client takes from the text: the media sequence number, the addresses of the segments in order,
  and whether the stream has ended. Lines end with a newline.\<close>

fun split_lines :: "string \<Rightarrow> string list" where
  "split_lines [] = []"
| "split_lines (c # cs) =
     (if c = CHR 0x0A then [] # split_lines cs
      else case split_lines cs of [] \<Rightarrow> [[c]] | l # ls \<Rightarrow> (c # l) # ls)"

definition is_address :: "string \<Rightarrow> bool" where
  "is_address l = (l \<noteq> [] \<and> hd l \<noteq> CHR 0x23)"

definition sequence_tag :: string where
  "sequence_tag = ''#EXT-X-MEDIA-SEQUENCE:''"

definition read_sequence :: "string list \<Rightarrow> int option" where
  "read_sequence ls =
     (case filter (starts_with sequence_tag) ls of
        [] \<Rightarrow> None
      | l # _ \<Rightarrow> py_int (drop (length sequence_tag) l))"

record playlist =
  pl_sequence :: "int option"
  pl_addresses :: "string list"
  pl_ended :: bool

definition read_playlist :: "string \<Rightarrow> playlist" where
  "read_playlist text =
     (let ls = split_lines text
      in \<lparr>pl_sequence = read_sequence ls, pl_addresses = filter is_address ls,
          pl_ended = list_ex (\<lambda>l. l = ''#EXT-X-ENDLIST'') ls\<rparr>)"

definition read_address :: "string \<Rightarrow> int option" where
  "read_address a =
     (if starts_with ''segments/'' a \<and> ends_with ''.m4s'' a \<and> 13 \<le> length a
      then py_int (take (length a - 13) (drop 9 a)) else None)"

definition one_line :: "string \<Rightarrow> bool" where
  "one_line l = (CHR 0x0A \<notin> set l)"

lemma split_lines_append:
  "one_line l \<Longrightarrow> split_lines (l @ CHR 0x0A # rest) = l # split_lines rest"
  by (induction l) (auto simp: one_line_def)

lemma split_join: "ls \<noteq> [] \<Longrightarrow> \<forall>l \<in> set ls. one_line l \<Longrightarrow> split_lines (join_lines ls @ [CHR 0x0A]) = ls"
  by (induction ls rule: join_lines.induct) (simp_all add: split_lines_append)

lemma digit_no_newline: "is_py_digit c \<Longrightarrow> c \<noteq> CHR 0x0A"
  by (auto simp: is_py_digit_def char_code_def)

lemma show_nat_one_line: "one_line (show_nat n)"
  using show_nat_digits[of n] digit_no_newline by (auto simp: one_line_def)

lemma show_int_one_line: "one_line (show_int i)"
  using show_nat_one_line by (simp add: show_int_def one_line_def)

lemma show_fixed_one_line: "one_line (show_fixed d x)"
  using show_nat_one_line pad_nat_digits[of d] digit_no_newline
  by (auto simp: show_fixed_def one_line_def Let_def)

lemma py_int_show_nat: "py_int (show_nat n) = Some (int n)"
  using py_int_digits[OF show_nat_not_Nil show_nat_digits] by (simp add: digits_value_show_nat)

lemma py_int_show_int: "0 \<le> i \<Longrightarrow> py_int (show_int i) = Some i"
  by (simp add: show_int_def py_int_show_nat)

lemma read_segment_uri: "0 \<le> i \<Longrightarrow> read_address (segment_uri i) = Some i"
  by (simp add: read_address_def segment_uri_def starts_with_def ends_with_def py_int_show_int)

lemma header_one_line: "one_line init_uri \<Longrightarrow> l \<in> set (header_lines d sequence init_uri off uw) \<Longrightarrow> one_line l"
  using show_int_one_line show_fixed_one_line
  by (auto simp: header_lines_def one_line_def split: if_splits)

lemma segment_one_line: "l \<in> set (segment_lines es d dur i) \<Longrightarrow> one_line l"
  using show_int_one_line show_fixed_one_line
  by (auto simp: segment_lines_def segment_uri_def one_line_def)

lemma header_no_address: "filter is_address (header_lines d sequence init_uri off uw) = []"
  by (simp add: header_lines_def is_address_def)

lemma segment_addresses: "filter is_address (segment_lines es d dur i) = [segment_uri i]"
  by (simp add: segment_lines_def is_address_def segment_uri_def)

lemma header_sequence:
  "\<exists>ls. filter (starts_with sequence_tag) (header_lines d sequence init_uri off uw)
     = (sequence_tag @ show_int sequence) # ls"
  by (simp add: header_lines_def starts_with_def sequence_tag_def)

lemma slice_ordered:
  assumes "slice_manifest_segments_for_window manifest_end d es ws we = sl"
  shows "0 \<le> sl_first sl \<and> sl_first sl \<le> sl_last sl \<and> sl_last sl \<le> max 0 manifest_end \<and> sl_sequence sl = sl_first sl"
proof (cases "coerce_finite_seconds we 0 \<le> coerce_finite_seconds ws 0")
  case True
  then show ?thesis unfolding assms[symmetric] slice_manifest_segments_for_window_def Let_def by simp
next
  case False
  have "0 \<le> max 0 (min e a) \<and> max 0 (min e a) \<le> max (max 0 (min e a)) (min e b) \<and> max (max 0 (min e a)) (min e b) \<le> e"
    if "0 \<le> e" for e a b :: int
    using that by (auto simp: max_def min_def)
  then show ?thesis
    unfolding assms[symmetric] slice_manifest_segments_for_window_def Let_def
    by (simp only: False if_False segment_slice.simps)
qed

lemma playlist_slice_ordered:
  assumes "0 \<le> safe_end"
  shows "0 \<le> sl_first (playlist_slice es safe_end d ws we)
       \<and> sl_first (playlist_slice es safe_end d ws we) \<le> sl_last (playlist_slice es safe_end d ws we)
       \<and> sl_last (playlist_slice es safe_end d ws we) \<le> safe_end
       \<and> sl_sequence (playlist_slice es safe_end d ws we) = sl_first (playlist_slice es safe_end d ws we)"
  using assms slice_ordered[OF refl, of safe_end d "PyNum es" "PyNum (the ws)" "PyNum (the we)"]
  by (simp add: playlist_slice_def)

lemma playlist_facts:
  assumes "one_line init_uri"
    and "sl = playlist_slice (max 0 (coerce_finite_seconds es 0)) (max 0 manifest_end) (max (1 / 1000) d) ws we"
  shows "read_playlist (render_route2_epoch_manifest_text es att manifest_end dur d ended ws we init_uri)
       = \<lparr>pl_sequence = Some (sl_first sl), pl_addresses = map segment_uri [sl_first sl..sl_last sl], pl_ended = ended\<rparr>
     \<and> map read_address (map segment_uri [sl_first sl..sl_last sl]) = map Some [sl_first sl..sl_last sl]
     \<and> 0 \<le> sl_first sl \<and> sl_first sl \<le> sl_last sl \<and> sl_last sl \<le> max 0 manifest_end"
proof -
  let ?D = "max (1 / 1000) d" and ?E = "max 0 (coerce_finite_seconds es 0)" and ?dur = "max 0 (coerce_finite_seconds dur 0)"
  define head where "head = header_lines ?D (sl_sequence sl) init_uri (max 0 (max 0 (coerce_finite_seconds att 0) - sl_start sl)) (use_window ws we)"
  define body where "body = concat (map (segment_lines ?E ?D ?dur) [sl_first sl..sl_last sl])"
  define tail where "tail = (if ended then [''#EXT-X-ENDLIST''] else [])"
  have ord: "0 \<le> sl_first sl" "sl_first sl \<le> sl_last sl" "sl_last sl \<le> max 0 manifest_end" "sl_sequence sl = sl_first sl"
    using playlist_slice_ordered[of "max 0 manifest_end" ?E ?D ws we] assms(2) by auto
  have ls: "manifest_lines es att manifest_end dur d ended ws we init_uri = head @ body @ tail"
    by (simp add: manifest_lines_def head_def body_def tail_def assms(2) Let_def)
  have "\<forall>l \<in> set (head @ body @ tail). one_line l"
    using header_one_line[OF assms(1)] segment_one_line
    by (auto simp: head_def body_def tail_def) (simp_all add: one_line_def)
  moreover have "head \<noteq> []" by (simp add: head_def header_lines_def)
  ultimately have split: "split_lines (render_route2_epoch_manifest_text es att manifest_end dur d ended ws we init_uri)
      = head @ body @ tail"
    unfolding render_route2_epoch_manifest_text_def ls by (intro split_join) simp_all
  obtain rest where seq: "filter (starts_with sequence_tag) head = (sequence_tag @ show_int (sl_first sl)) # rest"
    using header_sequence ord(4) unfolding head_def by metis
  have "filter is_address body = map segment_uri [sl_first sl..sl_last sl]"
    unfolding body_def by (simp add: filter_concat comp_def segment_addresses)
  moreover have "filter is_address head = []" "filter is_address tail = []"
    by (simp_all add: head_def header_no_address tail_def is_address_def)
  moreover have "list_ex (\<lambda>l. l = ''#EXT-X-ENDLIST'') (head @ body @ tail) = ended"
    by (auto simp: head_def body_def tail_def header_lines_def segment_lines_def segment_uri_def list_ex_iff split: if_splits)
  moreover have "read_sequence (head @ body @ tail) = Some (sl_first sl)"
    using py_int_show_int[OF ord(1)] by (simp add: read_sequence_def seq)
  moreover have "map read_address (map segment_uri [sl_first sl..sl_last sl]) = map Some [sl_first sl..sl_last sl]"
    using ord(1) read_segment_uri by simp
  ultimately show ?thesis using ord by (simp add: read_playlist_def split)
qed

text \<open>C33: The playlist says what it means. Reading the rendered text back gives the media sequence number of the
  first listed segment, the addresses of exactly the consecutive segments of the slice, each of which
  reads back to its index, and the end mark exactly when the stream is complete. The listed segments never
  go past the published one.\<close>

theorem playlist_roundtrip:
  assumes "one_line init_uri"
    and "sl = playlist_slice (max 0 (coerce_finite_seconds es 0)) (max 0 manifest_end) (max (1 / 1000) d) ws we"
  shows "read_playlist (render_route2_epoch_manifest_text es att manifest_end dur d ended ws we init_uri)
       = \<lparr>pl_sequence = Some (sl_first sl), pl_addresses = map segment_uri [sl_first sl..sl_last sl], pl_ended = ended\<rparr>
     \<and> map read_address (map segment_uri [sl_first sl..sl_last sl]) = map Some [sl_first sl..sl_last sl]
     \<and> 0 \<le> sl_first sl \<and> sl_first sl \<le> sl_last sl \<and> sl_last sl \<le> max 0 manifest_end"
  using playlist_facts[OF assms] .

section \<open>The slice covers the window and nothing more\<close>

definition first_candidate :: "real \<Rightarrow> real \<Rightarrow> int" where
  "first_candidate rs d =
     (if of_int (\<lfloor>rs / d\<rfloor> + 1) * d \<le> rs + 1 / 10 ^ 6 then \<lfloor>rs / d\<rfloor> + 1 else \<lfloor>rs / d\<rfloor>)"

definition last_candidate :: "real \<Rightarrow> real \<Rightarrow> int" where
  "last_candidate re d =
     (if of_int \<lfloor>re / d\<rfloor> * d \<ge> re - 1 / 10 ^ 6 \<and> \<lfloor>re / d\<rfloor> > 0 then \<lfloor>re / d\<rfloor> - 1 else \<lfloor>re / d\<rfloor>)"

lemma slice_candidates:
  assumes "ws < we" and "0 \<le> es" and "0 \<le> manifest_end" and "1 / 1000 \<le> d"
  defines "rs \<equiv> max 0 (ws - es)"
  defines "re \<equiv> max rs (we - es)"
  defines "sl \<equiv> slice_manifest_segments_for_window manifest_end d (PyNum es) (PyNum ws) (PyNum we)"
  shows "sl_first sl = max 0 (min manifest_end (first_candidate rs d))"
    and "sl_last sl = max (sl_first sl) (min manifest_end (last_candidate re d))"
proof -
  have e: "max 0 manifest_end = manifest_end" "max (1 / 1000) d = d" "max 0 es = es" "(we \<le> ws) = False"
    using assms(1-4) by simp_all
  show "sl_first sl = max 0 (min manifest_end (first_candidate rs d))"
    and "sl_last sl = max (sl_first sl) (min manifest_end (last_candidate re d))"
    unfolding sl_def slice_manifest_segments_for_window_def Let_def rs_def re_def first_candidate_def last_candidate_def
    by (simp_all only: coerce_PyNum e if_False segment_slice.simps)
qed

lemma clamp_between:
  "a \<le> i \<Longrightarrow> i \<le> b \<Longrightarrow> 0 \<le> i \<Longrightarrow> i \<le> m \<Longrightarrow> max 0 (min m a) \<le> i \<and> i \<le> max c (min m b)" for i :: int
  by auto

lemma floor_segment: "0 < d \<Longrightarrow> of_int \<lfloor>x / d\<rfloor> * d \<le> x \<and> x < of_int (\<lfloor>x / d\<rfloor> + 1) * d"
  for x d :: real
proof -
  assume d: "0 < d"
  have "of_int \<lfloor>x / d\<rfloor> \<le> x / d" "x / d < of_int \<lfloor>x / d\<rfloor> + 1" by linarith+
  then show ?thesis using d by (simp only: pos_le_divide_eq pos_divide_less_eq of_int_add of_int_1 conj_absorb simp_thms)
qed

lemma first_candidate_end:
  assumes "0 < d" and "first_candidate rs d \<le> i"
  shows "rs < of_int (i + 1) * d"
proof -
  have "\<lfloor>rs / d\<rfloor> + 1 \<le> i + 1" using assms(2) by (auto simp: first_candidate_def split: if_splits)
  then have "of_int (\<lfloor>rs / d\<rfloor> + 1) * d \<le> of_int (i + 1) * d"
    using assms(1) by (intro mult_right_mono) (simp_all only: of_int_le_iff less_imp_le)
  with floor_segment[OF assms(1), of rs] show ?thesis by linarith
qed

lemma last_candidate_start:
  assumes "0 < d" and "i \<le> last_candidate re d" and "0 < re"
  shows "of_int i * d < re"
proof -
  let ?l = "\<lfloor>re / d\<rfloor>"
  have le: "of_int i * d \<le> of_int k * d" if "i \<le> k" for k
    using that assms(1) by (intro mult_right_mono) simp_all
  consider "of_int ?l * d < re - 1 / 10 ^ 6" "i \<le> ?l" | "?l \<le> 0" "i \<le> ?l" | "i \<le> ?l - 1"
    using assms(2) by (auto simp: last_candidate_def split: if_splits)
  then show ?thesis
  proof cases
    case 1
    then show ?thesis using le[OF 1(2)] by simp
  next
    case 2
    then have "i \<le> 0" by linarith
    then show ?thesis using le[of 0] assms(3) by simp
  next
    case 3
    have "of_int (?l - 1) * d < of_int ?l * d" using assms(1) by simp
    then show ?thesis using le[OF 3] floor_segment[OF assms(1), of re] by linarith
  qed
qed

lemma first_candidate_le:
  assumes "1 / 1000 \<le> d" and "0 \<le> rs" and "rs = 0 \<and> 0 \<le> x \<or> rs + 1 / 10 ^ 6 \<le> x"
  shows "first_candidate rs d \<le> \<lfloor>x / d\<rfloor>"
proof -
  have d: "0 < d" using assms(1) by simp
  have mono: "k \<le> \<lfloor>x / d\<rfloor>" if "of_int k * d \<le> x" for k
    using that d by (simp add: le_floor_iff pos_le_divide_eq)
  show ?thesis
  proof (cases "of_int (\<lfloor>rs / d\<rfloor> + 1) * d \<le> rs + 1 / 10 ^ 6")
    case True
    have "rs \<noteq> 0" using True assms(1) by auto
    then show ?thesis using True assms(3) mono[of "\<lfloor>rs / d\<rfloor> + 1"] by (simp add: first_candidate_def)
  next
    case False
    have "of_int \<lfloor>rs / d\<rfloor> * d \<le> x" using floor_segment[OF d, of rs] assms(3) by (elim disjE) simp_all
    then show ?thesis using False mono by (simp add: first_candidate_def)
  qed
qed

lemma last_candidate_ge:
  assumes "0 < d" and "x < re - 1 / 10 ^ 6"
  shows "\<lfloor>x / d\<rfloor> \<le> last_candidate re d"
proof -
  have "x / d \<le> re / d" using assms by (simp add: divide_right_mono)
  then have le: "\<lfloor>x / d\<rfloor> \<le> \<lfloor>re / d\<rfloor>" by (rule floor_mono)
  have "\<lfloor>x / d\<rfloor> < k" if "x < of_int k * d" for k
    using that assms(1) by (simp add: floor_less_iff pos_divide_less_eq)
  then show ?thesis using le assms(2) by (force simp: last_candidate_def)
qed

text \<open>The sliced playlist covers the window and nothing else. Every position of the window, up to a
  microsecond at its ends, that lies in a published segment lies in a listed one; and whenever more than
  one segment is listed, every listed segment overlaps the window. This holds for every window, epoch
  start and segment length.\<close>

theorem slice_covers_window:
  assumes "ws < we" and "0 \<le> es" and "0 \<le> manifest_end" and "1 / 1000 \<le> d"
    and "slice_manifest_segments_for_window manifest_end d (PyNum es) (PyNum ws) (PyNum we) = sl"
  shows "(\<forall>t. es \<le> t \<and> ws + 1 / 10 ^ 6 \<le> t \<and> t < we - 1 / 10 ^ 6 \<and> \<lfloor>(t - es) / d\<rfloor> \<le> manifest_end
            \<longrightarrow> \<lfloor>(t - es) / d\<rfloor> \<in> {sl_first sl..sl_last sl})
       \<and> (sl_first sl < sl_last sl
            \<longrightarrow> (\<forall>i \<in> {sl_first sl..sl_last sl}. ws < es + of_int (i + 1) * d \<and> es + of_int i * d < we))"
proof -
  have d: "0 < d" using assms(4) by simp
  let ?rs = "max 0 (ws - es)"
  let ?re = "max ?rs (we - es)"
  note cand = slice_candidates[OF assms(1-4), unfolded assms(5)]
  have cover: "\<lfloor>(t - es) / d\<rfloor> \<in> {sl_first sl..sl_last sl}"
    if t: "es \<le> t" "ws + 1 / 10 ^ 6 \<le> t" "t < we - 1 / 10 ^ 6" "\<lfloor>(t - es) / d\<rfloor> \<le> manifest_end" for t
  proof -
    have "first_candidate ?rs d \<le> \<lfloor>(t - es) / d\<rfloor>"
      by (rule first_candidate_le[OF assms(4)]) (use t in \<open>auto simp: max_def\<close>)
    moreover have "\<lfloor>(t - es) / d\<rfloor> \<le> last_candidate ?re d"
      by (rule last_candidate_ge[OF d]) (use t in simp)
    moreover have "0 \<le> \<lfloor>(t - es) / d\<rfloor>" using t(1) d by simp
    ultimately show ?thesis using t(4) unfolding cand atLeastAtMost_iff by (rule clamp_between)
  qed
  have overlap: "ws < es + of_int (i + 1) * d \<and> es + of_int i * d < we"
    if many: "sl_first sl < sl_last sl" and i: "sl_first sl \<le> i" "i \<le> sl_last sl" for i
  proof -
    have last: "sl_last sl = min manifest_end (last_candidate ?re d)" using many cand(2) by linarith
    then have "first_candidate ?rs d \<le> sl_first sl" using many cand(1) by linarith
    then have "?rs < of_int (i + 1) * d" using i(1) by (intro first_candidate_end[OF d]) simp
    moreover have "0 < ?re"
    proof (rule ccontr)
      assume "\<not> 0 < ?re"
      then have "?re = 0" by simp
      then have "last_candidate ?re d = 0" by (simp add: last_candidate_def)
      then show False using many last cand(1) by simp
    qed
    then have "of_int i * d < ?re" using i(2) last by (intro last_candidate_start[OF d]) simp_all
    moreover have "?re = we - es"
    proof (cases "we \<le> es")
      case True
      then have "?re = 0" using assms(1) by simp
      with \<open>0 < ?re\<close> show ?thesis by simp
    qed (use assms(1) in simp)
    ultimately show ?thesis by linarith
  qed
  show ?thesis using cover overlap by auto
qed

lemma slice_covers_window_witness:
  "sl_first (slice_manifest_segments_for_window 200 2 (PyNum 20) (PyNum 100) (PyNum 150)) \<le> 50
   \<and> 50 \<le> sl_last (slice_manifest_segments_for_window 200 2 (PyNum 20) (PyNum 100) (PyNum 150))"
proof -
  have "\<lfloor>(121 - 20 :: real) / 2\<rfloor> \<in> {sl_first (slice_manifest_segments_for_window 200 2 (PyNum 20) (PyNum 100) (PyNum 150))..
      sl_last (slice_manifest_segments_for_window 200 2 (PyNum 20) (PyNum 100) (PyNum 150))}"
    using slice_covers_window[OF _ _ _ _ refl, of 100 150 20 200 2, THEN conjunct1, THEN spec, of 121] by simp
  then show ?thesis by simp
qed

section \<open>What a window contains\<close>

lemma window_forward_range: "compute_window_forward_seconds tier mode \<in> {15, 45, 180, 120, 900}"
  by (simp add: compute_window_forward_seconds_def BUFFER_TIER_FORWARD_SECONDS_def tier_seconds_def route2_consts)

lemma window_of_anchor:
  fixes a dur :: real and tier mode :: "string option"
  assumes "0 \<le> a" and "0 < dur" and "a \<le> dur"
  defines "w \<equiv> compute_native_hls_window (PyNum a) (PyNum dur) tier mode NATIVE_HLS_BACK_WINDOW_SECONDS"
  defines "forward \<equiv> compute_window_forward_seconds tier mode"
  shows "nw_start w = py_round 2 (max 0 (a - 120))" and "nw_end w = py_round 2 (min dur (a + forward))"
    and "nw_anchor w = py_round 2 a" and "nw_back w = 120" and "nw_forward w = forward"
proof -
  have f: "0 < forward" using window_forward_range[of tier mode] by (auto simp: forward_def)
  have e: "max 0 a = a" "max 0 dur = dur" "min a dur = a" "max 0 (min dur (a + forward)) = min dur (a + forward)"
    "\<not> min dur (a + forward) < max 0 (a - 120)"
    using assms(1-3) f by auto
  have "py_round 2 forward = forward" using window_forward_range[of tier mode] by (auto simp: forward_def)
  then show "nw_start w = py_round 2 (max 0 (a - 120))" "nw_end w = py_round 2 (min dur (a + forward))"
    "nw_anchor w = py_round 2 a" "nw_back w = 120" "nw_forward w = forward"
    unfolding w_def compute_native_hls_window_def Let_def coerce_PyNum forward_def[symmetric]
    using assms(2) e by (simp_all add: NATIVE_HLS_BACK_WINDOW_SECONDS_def CLIENT_BACK_BUFFER_SECONDS_def)
qed

text \<open>The window is the contracted stretch around the playhead. For a playhead inside the film, the window
  starts at most 120 seconds before it and not before the film, ends at the film's end or one tier's forward
  stretch after it, to the hundredth of a second, and the playhead is inside; the forward stretch is one of
  the five locked tiers.\<close>

theorem window_contract:
  assumes "0 \<le> a" and "0 < dur" and "a \<le> dur"
    and "compute_native_hls_window (PyNum a) (PyNum dur) tier mode NATIVE_HLS_BACK_WINDOW_SECONDS = w"
  shows "0 \<le> nw_start w \<and> nw_start w \<le> nw_anchor w \<and> nw_anchor w \<le> nw_end w \<and> nw_end w \<le> py_round 2 dur
     \<and> \<bar>nw_start w - max 0 (a - 120)\<bar> \<le> 1 / 200 \<and> \<bar>nw_end w - min dur (a + nw_forward w)\<bar> \<le> 1 / 200
     \<and> nw_forward w \<in> {15, 45, 180, 120, 900}"
proof -
  note w = window_of_anchor[OF assms(1-3), of tier mode, unfolded assms(4)]
  have f: "nw_forward w \<in> {15, 45, 180, 120, 900}" using window_forward_range w(5) by simp
  then have "0 < nw_forward w" by auto
  then have "nw_start w \<le> nw_anchor w" "nw_anchor w \<le> nw_end w" "nw_end w \<le> py_round 2 dur"
    using assms(1,3) w by (auto intro!: py_round_mono)
  moreover have "0 \<le> nw_start w" using w(1) by simp
  moreover have near: "\<bar>py_round 2 x - x\<bar> \<le> 1 / 200" for x using py_round_near[of 2 x] by simp
  have "\<bar>nw_start w - max 0 (a - 120)\<bar> \<le> 1 / 200" "\<bar>nw_end w - min dur (a + nw_forward w)\<bar> \<le> 1 / 200"
    using near w by simp_all
  ultimately show ?thesis using f by blast
qed

lemma window_contract_witness:
  "let w = compute_native_hls_window (PyNum 600) (PyNum 5400) (Some ''lite_fast'') (Some ''lite'') NATIVE_HLS_BACK_WINDOW_SECONDS
   in nw_start w \<le> nw_anchor w \<and> nw_anchor w \<le> nw_end w"
  using window_contract[OF _ _ _ refl, of 600 5400 "Some ''lite_fast''" "Some ''lite''"] by (simp add: Let_def)

section \<open>Sliding the window with the playhead\<close>

text \<open>The tier is derived from the playback mode and the device class only.\<close>

definition latest_buffer_tier :: "string option \<Rightarrow> mobile_session \<Rightarrow> string option" where
  "latest_buffer_tier device s =
     (let tier = bc_tier (resolve_buffer_contract_fields (Some (bs_playback_mode (ms_browser s))) device
                   PyNone False PyNone PyNone None False)
      in if tier \<noteq> [] then Some tier else None)"

definition strongest_position :: "mobile_session \<Rightarrow> real" where
  "strongest_position s =
     Max {or_real (ms_client_current_time s) 0, ms_committed s, ms_actual s, ms_last_stable s, ms_target s}"

definition desired_window :: "string option \<Rightarrow> playback_epoch \<Rightarrow> mobile_session \<Rightarrow> native_window" where
  "desired_window device e s =
     compute_native_hls_window
       (PyNum (resolve_window_anchor_seconds (PyNum (strongest_position s)) (PyNum (ms_target s)) (PyNum (ep_attach e))))
       (PyNum (ms_duration s)) (Some (or_string (latest_buffer_tier device s) []))
       (Some (bs_playback_mode (ms_browser s))) NATIVE_HLS_BACK_WINDOW_SECONDS"

definition emit_window :: "native_window \<Rightarrow> string \<Rightarrow> string \<Rightarrow> int \<Rightarrow> emitted_window" where
  "emit_window w tier reason revision =
     \<lparr>ew_initialized = True, ew_start = nw_start w, ew_end = nw_end w, ew_anchor = nw_anchor w,
      ew_back = nw_back w, ew_forward = nw_forward w, ew_tier = tier, ew_revision = revision, ew_reason = reason\<rparr>"

definition refresh_decision :: "native_window \<Rightarrow> string \<Rightarrow> mobile_session \<Rightarrow> string option" where
  "refresh_decision w tier s =
     (let ew = bs_window (ms_browser s) in
      should_refresh_native_hls_window
        (case ms_client_current_time s of None \<Rightarrow> PyNone | Some t \<Rightarrow> PyNum t)
        (PyNum (ew_start ew)) (PyNum (ew_end ew)) (PyNum (ew_anchor ew)) PyNone
        (tier \<noteq> [] \<and> tier \<noteq> ew_tier ew) (PyNum (ew_forward ew))
        WINDOW_EDGE_REFRESH_RUNWAY_SECONDS (max WINDOW_ANCHOR_DRIFT_REFRESH_SECONDS (nw_forward w * (1 / 2))))"

definition next_window :: "native_window \<Rightarrow> string \<Rightarrow> mobile_session \<Rightarrow> emitted_window" where
  "next_window w tier s =
     (let ew = bs_window (ms_browser s) in
      if \<not> ew_initialized ew
      then emit_window w tier ''initial'' (max (ew_revision ew) (bs_attach_revision (ms_browser s)))
      else case refresh_decision w tier s of
        None \<Rightarrow> ew
      | Some reason \<Rightarrow>
          if \<bar>nw_start w - ew_start ew\<bar> > 1 / 2 \<or> \<bar>nw_end w - ew_end ew\<bar> > 1 / 2 \<or> tier \<noteq> ew_tier ew
          then emit_window w tier (or_string (Some reason) ''slide'') (ew_revision ew + 1)
          else ew\<lparr>ew_anchor := nw_anchor w\<rparr>)"

definition maybe_advance_native_hls_window :: "string option \<Rightarrow> mobile_session \<Rightarrow> mobile_session" where
  "maybe_advance_native_hls_window device s =
     (let b = ms_browser s in
      if \<not> is_native_hls_engine (ms_hls_engine s) then s
      else if bs_engine_mode b \<noteq> ''route2'' then s
      else case (if truthy_string (bs_active b) then dict_get (bs_epochs b) (the (bs_active b)) else None) of
        None \<Rightarrow> s
      | Some e \<Rightarrow>
          if ms_lifecycle s \<notin> {''attached'', ''playing''} \<and> ew_initialized (bs_window b) then s
          else s\<lparr>ms_browser := b\<lparr>bs_window :=
                 next_window (desired_window device e s) (or_string (latest_buffer_tier device s) []) s\<rparr>\<rparr>)"

lemma resolve_positive: "0 < x \<Longrightarrow> resolve_window_anchor_seconds (PyNum x) t a = x"
  by (simp add: resolve_window_anchor_seconds_def Let_def)

lemma next_window_cases:
  assumes "ew_initialized (bs_window (ms_browser s))"
  shows "next_window w tier s = bs_window (ms_browser s) \<and> refresh_decision w tier s = None
       \<or> next_window w tier s = (bs_window (ms_browser s))\<lparr>ew_anchor := nw_anchor w\<rparr>
          \<and> \<bar>nw_end w - ew_end (bs_window (ms_browser s))\<bar> \<le> 1 / 2
       \<or> (\<exists>reason. next_window w tier s = emit_window w tier reason (ew_revision (bs_window (ms_browser s)) + 1))"
  using assms by (auto simp: next_window_def Let_def split: option.split)

text \<open>A window that needs no refresh has its end further away than the runway.\<close>

lemma no_refresh_far:
  assumes "refresh_decision w tier s = None" and "ms_client_current_time s = Some t"
    and "ew_start (bs_window (ms_browser s)) < ew_end (bs_window (ms_browser s))"
  shows "t + compute_window_edge_refresh_runway (PyNum (ew_forward (bs_window (ms_browser s)))) 20
           < ew_end (bs_window (ms_browser s))"
  using assms
  by (auto simp: refresh_decision_def should_refresh_native_hls_window_def effective_edge_runway_def route2_consts Let_def
      split: if_splits)

definition window_inv :: "mobile_session \<Rightarrow> bool" where
  "window_inv s =
     (let ew = bs_window (ms_browser s) in
      ew_initialized ew \<longrightarrow> 0 \<le> ew_start ew \<and> ew_start ew \<le> ew_end ew \<and> 0 < ew_forward ew)"

lemma window_ordered:
  "0 \<le> nw_start (compute_native_hls_window a dur tier mode back)
   \<and> nw_start (compute_native_hls_window a dur tier mode back) \<le> nw_end (compute_native_hls_window a dur tier mode back)
   \<and> 0 < nw_forward (compute_native_hls_window a dur tier mode back)"
proof -
  have "y \<le> (if x < y then y else x)" for x y :: real by simp
  moreover have "0 < py_round 2 (compute_window_forward_seconds tier mode)"
    using window_forward_range[of tier mode] by auto
  ultimately show ?thesis
    unfolding compute_native_hls_window_def Let_def native_window.simps
    by (intro conjI py_round_mono py_round_nonneg) simp_all
qed

lemma desired_window_ordered:
  "0 \<le> nw_start (desired_window device e s) \<and> nw_start (desired_window device e s) \<le> nw_end (desired_window device e s)
   \<and> 0 < nw_forward (desired_window device e s)"
  unfolding desired_window_def by (rule window_ordered)

lemma next_window_inv:
  assumes "window_inv s" and "0 \<le> nw_start w \<and> nw_start w \<le> nw_end w \<and> 0 < nw_forward w"
  shows "window_inv (s\<lparr>ms_browser := (ms_browser s)\<lparr>bs_window := next_window w tier s\<rparr>\<rparr>)"
proof (cases "ew_initialized (bs_window (ms_browser s))")
  case True
  show ?thesis
    using next_window_cases[OF True, of w tier] assms True
    by (elim disjE exE conjE) (simp_all add: window_inv_def emit_window_def Let_def)
next
  case False
  then show ?thesis using assms by (simp add: window_inv_def next_window_def emit_window_def Let_def)
qed

lemma advance_window_inv: "window_inv s \<Longrightarrow> window_inv (maybe_advance_native_hls_window device s)"
  using next_window_inv[OF _ desired_window_ordered]
  by (auto simp: maybe_advance_native_hls_window_def Let_def split: option.split)

text \<open>The served window keeps ahead of the playhead. After a heartbeat of a native-HLS session whose reported
  position is its most advanced one and lies inside the film, the end of the served window is more than
  the refresh runway ahead of the playhead, or within half a second of the best end the current tier allows,
  which is the end of the film or one forward stretch ahead. Sliding never touches the attach revision, and
  the window revision goes up by at most one.\<close>

theorem window_keeps_ahead:
  assumes "window_inv s" and "ew_initialized (bs_window (ms_browser s))"
    and "ew_start (bs_window (ms_browser s)) < ew_end (bs_window (ms_browser s))"
    and "is_native_hls_engine (ms_hls_engine s)" and "bs_engine_mode (ms_browser s) = ''route2''"
    and "bs_active (ms_browser s) = Some eid" and "eid \<noteq> []" and "dict_get (bs_epochs (ms_browser s)) eid = Some e"
    and "ms_lifecycle s = ''playing''" and "ms_client_current_time s = Some t" and "strongest_position s = t"
    and "0 < t" and "t \<le> ms_duration s"
    and "maybe_advance_native_hls_window device s = s'"
  shows "(t + compute_window_edge_refresh_runway (PyNum (ew_forward (bs_window (ms_browser s)))) 20
            < ew_end (bs_window (ms_browser s'))
          \<or> min (ms_duration s) (t + nw_forward (desired_window device e s)) - 51 / 100 \<le> ew_end (bs_window (ms_browser s')))
       \<and> bs_attach_revision (ms_browser s') = bs_attach_revision (ms_browser s)
       \<and> ew_revision (bs_window (ms_browser s')) \<in> {ew_revision (bs_window (ms_browser s)), ew_revision (bs_window (ms_browser s)) + 1}"
proof -
  let ?w = "desired_window device e s" and ?tier = "or_string (latest_buffer_tier device s) []"
  let ?old = "bs_window (ms_browser s)"
  have s': "s' = s\<lparr>ms_browser := (ms_browser s)\<lparr>bs_window := next_window ?w ?tier s\<rparr>\<rparr>"
    using assms(4-9,14) by (cases eid) (simp_all add: maybe_advance_native_hls_window_def Let_def)
  have "?w = compute_native_hls_window (PyNum t) (PyNum (ms_duration s)) (Some ?tier)
      (Some (bs_playback_mode (ms_browser s))) NATIVE_HLS_BACK_WINDOW_SECONDS"
    using assms(11,12) by (simp add: desired_window_def resolve_positive)
  then have "\<bar>nw_end ?w - min (ms_duration s) (t + nw_forward ?w)\<bar> \<le> 1 / 200"
    using window_of_anchor[of t "ms_duration s" "Some ?tier" "Some (bs_playback_mode (ms_browser s))"] assms(12,13)
      py_round_near[of 2 "min (ms_duration s) (t + nw_forward ?w)"] by simp
  then have close: "min (ms_duration s) (t + nw_forward ?w) - 1 / 200 \<le> nw_end ?w" by linarith
  consider "next_window ?w ?tier s = ?old" "refresh_decision ?w ?tier s = None"
    | "next_window ?w ?tier s = ?old\<lparr>ew_anchor := nw_anchor ?w\<rparr>" "\<bar>nw_end ?w - ew_end ?old\<bar> \<le> 1 / 2"
    | reason where "next_window ?w ?tier s = emit_window ?w ?tier reason (ew_revision ?old + 1)"
    using next_window_cases[OF assms(2), of ?w ?tier] by (elim disjE conjE exE)
  then show ?thesis
  proof cases
    case 1
    then show ?thesis using no_refresh_far[OF 1(2) assms(10,3)] by (simp add: s')
  next
    case 2
    then have "min (ms_duration s) (t + nw_forward ?w) - 51 / 100 \<le> ew_end ?old" using close by linarith
    then show ?thesis by (simp add: s' 2(1))
  next
    case 3
    have "min (ms_duration s) (t + nw_forward ?w) - 51 / 100 \<le> nw_end ?w" using close by linarith
    then show ?thesis by (simp add: s' 3 emit_window_def)
  qed
qed

lemma playlist_roundtrip_witness:
  "pl_addresses (read_playlist (render_route2_epoch_manifest_text (PyNum 20) (PyNum 40) 2 (PyNum 600) 2 False None None ''init.mp4''))
     = [''segments/0.m4s'', ''segments/1.m4s'', ''segments/2.m4s'']"
proof -
  have "one_line ''init.mp4''" by (simp add: one_line_def)
  from playlist_roundtrip[OF this refl, of "PyNum 20" "PyNum 40" 2 "PyNum 600" 2 False None None]
  have "pl_addresses (read_playlist (render_route2_epoch_manifest_text (PyNum 20) (PyNum 40) 2 (PyNum 600) 2 False None None ''init.mp4''))
     = map segment_uri [0..2]"
    by (simp add: playlist_slice_def use_window_def)
  moreover have "[0..2::int] = [0, 1, 2]" by (simp add: upto.simps)
  moreover have "show_nat 0 = ''0''" "show_nat 1 = ''1''" "show_nat 2 = ''2''"
    by code_simp+
  ultimately show ?thesis by (simp add: segment_uri_def show_int_def)
qed

definition native_demo :: mobile_session where
  "native_demo =
     (new_session ''s1'' 1 7 ''mobile_1080p'' ''local'' 600 ''k'' ''f'' ''t0'')
       \<lparr>ms_hls_engine := Some ''native_hls'', ms_lifecycle := ''playing'', ms_client_current_time := Some 140,
        ms_browser := new_browser_session\<lparr>bs_engine_mode := ''route2'', bs_active := Some ''e1'',
          bs_epochs := [(''e1'', new_epoch ''e1'' ''s1'' ''t0'' 40 20 40 None 1000)],
          bs_window := \<lparr>ew_initialized = True, ew_start = 0, ew_end = 145, ew_anchor = 100, ew_back = 120,
            ew_forward = 45, ew_tier = ''lite_uncertain'', ew_revision = 1, ew_reason = ''initial''\<rparr>\<rparr>\<rparr>"

lemma window_keeps_ahead_witness:
  "140 < ew_end (bs_window (ms_browser (maybe_advance_native_hls_window None native_demo)))"
proof -
  let ?e = "new_epoch ''e1'' ''s1'' ''t0'' 40 20 40 None 1000"
  have r: "compute_window_edge_refresh_runway (PyNum 45) 20 = 63 / 4"
    by (simp add: compute_window_edge_refresh_runway_def route2_consts)
  have "nw_forward (desired_window None ?e native_demo) \<in> {15, 45, 180, 120, 900}"
    unfolding desired_window_def
    using window_of_anchor(5)[of 140 600] window_forward_range
    by (simp add: strongest_position_def native_demo_def new_record_defs resolve_positive)
  then have "155 \<le> min 600 (140 + nw_forward (desired_window None ?e native_demo))" by auto
  moreover have "(140 + compute_window_edge_refresh_runway (PyNum (ew_forward (bs_window (ms_browser native_demo)))) 20
      < ew_end (bs_window (ms_browser (maybe_advance_native_hls_window None native_demo)))
    \<or> min (ms_duration native_demo) (140 + nw_forward (desired_window None ?e native_demo)) - 51 / 100
        \<le> ew_end (bs_window (ms_browser (maybe_advance_native_hls_window None native_demo))))"
    by (rule window_keeps_ahead[where eid = "''e1''", OF _ _ _ _ _ _ _ _ _ _ _ _ _ refl, THEN conjunct1])
      (simp_all add: native_demo_def new_record_defs window_inv_def is_native_hls_engine_def strongest_position_def
        py_lower_def py_lower_char_def py_strip_def is_py_space_def char_code_def)
  moreover have "ew_forward (bs_window (ms_browser native_demo)) = 45" "ms_duration native_demo = 600"
    by (simp_all add: native_demo_def new_record_defs)
  ultimately show ?thesis by (auto simp: r)
qed

text \<open>The tier that sizes the window depends on nothing but the playback mode: the evidence of fast, slow or
  insufficient supply never reaches it.\<close>

lemma latest_tier_fixed:
  "latest_buffer_tier device s
     = Some (if bs_playback_mode (ms_browser s) = ''full'' then ''full_healthy'' else ''lite_uncertain'')"
  by (simp add: latest_buffer_tier_def resolve_buffer_contract_fields_def buffer_tier_def route2_consts
      starts_with_def Let_def)

lemma desired_forward_fixed:
  "compute_window_forward_seconds (latest_buffer_tier device s) mode
     = (if bs_playback_mode (ms_browser s) = ''full'' then 120 else 45)"
  by (simp add: latest_tier_fixed compute_window_forward_seconds_def BUFFER_TIER_FORWARD_SECONDS_def tier_seconds_def
      py_lower_def py_lower_char_def py_strip_def is_py_space_def char_code_def route2_consts)

end
