(* ===== verification/Epoch_Serving.thy ===== *)
theory Epoch_Serving
  imports Route2_Sessions Native_Window
begin

text \<open>
  Serving an epoch: the manifest, init and segment requests of \<^verbatim>\<open>MobilePlaybackManager\<close>
  (\<^verbatim>\<open>get_route2_epoch_manifest_content\<close>, \<^verbatim>\<open>get_route2_epoch_init_path\<close>,
  \<^verbatim>\<open>get_route2_epoch_segment_path\<close>). Here the access check of \<open>Route2_Epochs\<close>, the published frontier of
  \<open>Epoch_Publication\<close> and the playlist of \<open>Native_Window\<close> meet: a served playlist lists only segments that a
  following request gets.

  A path is the name of the file in the published directory. The manager's table of sessions is an
  association list in insertion order.
\<close>

type_synonym session_table = "(string \<times> mobile_session) list"

section \<open>The requests\<close>

fun owned_route2_epoch :: "session_table \<Rightarrow> string \<Rightarrow> int \<Rightarrow> py_error + (string \<times> mobile_session \<times> playback_epoch)" where
  "owned_route2_epoch [] eid user = Inl (KeyError ''Browser playback epoch not found'')"
| "owned_route2_epoch ((sid, s) # rest) eid user =
     (if ms_user s \<noteq> user then owned_route2_epoch rest eid user
      else if bs_engine_mode (ms_browser s) \<noteq> ''route2'' then owned_route2_epoch rest eid user
      else case dict_get (bs_epochs (ms_browser s)) eid of
             None \<Rightarrow> owned_route2_epoch rest eid user
           | Some e \<Rightarrow> Inr (sid, s, e))"

text \<open>The access check, then the published frontier is read again.\<close>

definition open_epoch ::
  "string \<Rightarrow> real \<Rightarrow> int \<Rightarrow> string \<Rightarrow> playback_epoch \<Rightarrow> mobile_session \<times> worker_table
     \<Rightarrow> (py_error + playback_epoch) \<times> mobile_session \<times> worker_table" where
  "open_epoch stamp clock ttl eid e sw =
     (let (err, s, workers) = prepare_epoch_access stamp clock ttl eid e sw in
      case err of
        Some x \<Rightarrow> (Inl x, s, workers)
      | None \<Rightarrow>
          let e1 = rebuild_published_frontier stamp clock (e\<lparr>ep_last_access := clock\<rparr>)
          in (Inr e1, s\<lparr>ms_browser := update_epoch eid (\<lambda>_. e1) (ms_browser s)\<rparr>, workers))"

definition total_epoch_segments :: "mobile_session \<Rightarrow> playback_epoch \<Rightarrow> int" where
  "total_epoch_segments s e = max 1 \<lceil>max (ms_duration s - ep_start e) 0 / SEGMENT_DURATION_SECONDS\<rceil>"

definition window_active :: "mobile_session \<Rightarrow> bool" where
  "window_active s = (is_native_hls_engine (ms_hls_engine s) \<and> ew_initialized (bs_window (ms_browser s)))"

definition manifest_end_segment :: "mobile_session \<Rightarrow> playback_epoch \<Rightarrow> int \<Rightarrow> int" where
  "manifest_end_segment s e through = min through (total_epoch_segments s e - 1)"

definition epoch_playlist :: "mobile_session \<Rightarrow> playback_epoch \<Rightarrow> int \<Rightarrow> string" where
  "epoch_playlist s e through =
     (let last = manifest_end_segment s e through; ew = bs_window (ms_browser s)
      in render_route2_epoch_manifest_text (PyNum (ep_start e)) (PyNum (ep_attach e)) last (PyNum (ms_duration s))
           SEGMENT_DURATION_SECONDS (ep_transcoder_completed e \<and> last \<ge> total_epoch_segments s e - 1)
           (if window_active s then Some (ew_start ew) else None)
           (if window_active s then Some (ew_end ew) else None) ''init.mp4'')"

definition epoch_manifest_content ::
  "string \<Rightarrow> real \<Rightarrow> int \<Rightarrow> string \<Rightarrow> playback_epoch \<Rightarrow> mobile_session \<times> worker_table
     \<Rightarrow> (py_error + string) \<times> mobile_session \<times> worker_table" where
  "epoch_manifest_content stamp clock ttl eid e sw =
     (let (r, s, workers) = open_epoch stamp clock ttl eid e sw in
      (case r of
         Inl x \<Rightarrow> Inl x
       | Inr e1 \<Rightarrow>
           (case ep_contiguous_through e1 of
              None \<Rightarrow> Inl (FileNotFoundError ''Route 2 epoch manifest is not published yet'')
            | Some through \<Rightarrow>
                if \<not> ep_init_published e1 then Inl (FileNotFoundError ''Route 2 epoch manifest is not published yet'')
                else Inr (epoch_playlist s e1 through)),
       s, workers))"

definition epoch_init_path ::
  "string \<Rightarrow> real \<Rightarrow> int \<Rightarrow> string \<Rightarrow> playback_epoch \<Rightarrow> mobile_session \<times> worker_table
     \<Rightarrow> (py_error + string) \<times> mobile_session \<times> worker_table" where
  "epoch_init_path stamp clock ttl eid e sw =
     (let (r, s, workers) = open_epoch stamp clock ttl eid e sw in
      (case r of
         Inl x \<Rightarrow> Inl x
       | Inr e1 \<Rightarrow>
           if \<not> ep_init_published e1 \<or> dict_get (ep_published_dir e1) init_file = None
           then Inl (FileNotFoundError ''Route 2 epoch init segment is not published yet'')
           else Inr init_file,
       s, workers))"

definition segment_not_published :: py_error where
  "segment_not_published = FileNotFoundError ''Route 2 epoch segment is not published yet''"

definition epoch_segment_path ::
  "string \<Rightarrow> real \<Rightarrow> int \<Rightarrow> string \<Rightarrow> playback_epoch \<Rightarrow> int \<Rightarrow> mobile_session \<times> worker_table
     \<Rightarrow> (py_error + string) \<times> mobile_session \<times> worker_table" where
  "epoch_segment_path stamp clock ttl eid e index sw =
     (if index < 0 then (Inl (FileNotFoundError ''Route 2 epoch segment not found''), sw)
      else
        let (r, s, workers) = open_epoch stamp clock ttl eid e sw in
        (case r of
           Inl x \<Rightarrow> Inl x
         | Inr e1 \<Rightarrow>
             (case ep_contiguous_through e1 of
                None \<Rightarrow> Inl segment_not_published
              | Some through \<Rightarrow>
                  if \<not> ep_init_published e1 then Inl segment_not_published
                  else if index \<ge> total_epoch_segments s e1 then Inl segment_not_published
                  else if index > through then Inl segment_not_published
                  else if dict_get (ep_published_dir e1) (segment_file_name (nat index)) = None
                  then Inl segment_not_published
                  else Inr (segment_file_name (nat index))),
         s, workers))"

text \<open>The manager finds the owner's session by the epoch and stores the changed session.\<close>

definition serve_epoch ::
  "(string \<Rightarrow> playback_epoch \<Rightarrow> mobile_session \<times> worker_table \<Rightarrow> (py_error + 'a) \<times> mobile_session \<times> worker_table)
     \<Rightarrow> string \<Rightarrow> int \<Rightarrow> session_table \<times> worker_table \<Rightarrow> (py_error + 'a) \<times> session_table \<times> worker_table" where
  "serve_epoch request eid user state =
     (let (sessions, workers) = state in
      case owned_route2_epoch sessions eid user of
        Inl x \<Rightarrow> (Inl x, state)
      | Inr (sid, s, e) \<Rightarrow>
          let (r, s', workers') = request eid e (s, workers) in (r, dict_set sessions sid s', workers'))"

definition get_route2_epoch_manifest_content where
  "get_route2_epoch_manifest_content stamp clock ttl = serve_epoch (epoch_manifest_content stamp clock ttl)"

definition get_route2_epoch_init_path where
  "get_route2_epoch_init_path stamp clock ttl = serve_epoch (epoch_init_path stamp clock ttl)"

definition get_route2_epoch_segment_path where
  "get_route2_epoch_segment_path stamp clock ttl index eid user state =
     (if index < 0 then (Inl (FileNotFoundError ''Route 2 epoch segment not found''), state)
      else serve_epoch (\<lambda>eid e. epoch_segment_path stamp clock ttl eid e index) eid user state)"

section \<open>What the requests serve\<close>

text \<open>Opening an epoch either fails as the access check does or reads the directory as it is.\<close>

definition opened :: "string \<Rightarrow> real \<Rightarrow> playback_epoch \<Rightarrow> playback_epoch" where
  "opened stamp clock e = rebuild_published_frontier stamp clock (e\<lparr>ep_last_access := clock\<rparr>)"

lemma open_epoch_cases:
  assumes "epochs_wf (ms_browser s)" and "clock \<noteq> 0" and "dict_get (bs_epochs (ms_browser s)) eid = Some e"
    and "open_epoch stamp clock ttl eid e (s, w) = (r, s', w')"
  shows "r = (if epoch_readable (ms_browser s) clock e then Inr (opened stamp clock e)
              else Inl (FileNotFoundError ''Route 2 epoch is no longer active''))
     \<and> (epoch_readable (ms_browser s) clock e \<longrightarrow> epochs_wf (ms_browser s')
          \<and> dict_get (bs_epochs (ms_browser s')) eid = Some (opened stamp clock e) \<and> ms_duration s' = ms_duration s
          \<and> ms_hls_engine s' = ms_hls_engine s \<and> bs_active (ms_browser s') = bs_active (ms_browser s))"
proof -
  obtain err s1 w1 where acc: "prepare_epoch_access stamp clock ttl eid e (s, w) = (err, s1, w1)"
    by (cases "prepare_epoch_access stamp clock ttl eid e (s, w)") auto
  note af = access_facts[OF assms(1-3) acc]
  have dur: "ms_duration s1 = ms_duration s" "ms_hls_engine s1 = ms_hls_engine s"
    using acc by (auto simp: prepare_epoch_access_def touch_session_def Let_def split: prod.splits if_splits)
  show ?thesis
  proof (cases "epoch_readable (ms_browser s) clock e")
    case False
    then have "err = Some (FileNotFoundError ''Route 2 epoch is no longer active'')" using af by simp
    then show ?thesis using assms(4) acc False by (simp add: open_epoch_def)
  next
    case True
    then have err: "err = None" using af by simp
    then have get: "dict_get (bs_epochs (ms_browser s1)) eid = Some (e\<lparr>ep_last_access := clock\<rparr>)" using af by blast
    have s': "r = Inr (opened stamp clock e)" "s' = s1\<lparr>ms_browser := update_epoch eid (\<lambda>_. opened stamp clock e) (ms_browser s1)\<rparr>"
      using assms(4) acc err by (auto simp: open_epoch_def opened_def Let_def)
    have act: "bs_active (ms_browser s1) = bs_active (ms_browser s)" using af by blast
    have "epochs_wf (ms_browser s1)" using af by blast
    moreover have "update_epoch eid (\<lambda>_. opened stamp clock e) (ms_browser s1)
        = update_epoch eid (\<lambda>x. (opened stamp clock e)\<lparr>ep_id := ep_id x\<rparr>) (ms_browser s1)"
      by (simp add: update_epoch_def get opened_def rebuild_published_frontier_def record_byte_sample_def Let_def
          split: prod.splits)
    ultimately have "epochs_wf (update_epoch eid (\<lambda>_. opened stamp clock e) (ms_browser s1))"
      by (metis (no_types, lifting) update_epoch_wf playback_epoch.select_convs(1) playback_epoch.surjective
          playback_epoch.update_convs(1))
    then show ?thesis using s' True get dur act by (simp add: update_epoch_get)
  qed
qed

text \<open>Every segment of the directory is there under the name it is published under.\<close>

definition canonical_names :: "directory \<Rightarrow> bool" where
  "canonical_names dir = (\<forall>i \<in> listed_segments dir. dict_get dir (segment_file_name (nat i)) \<noteq> None)"

lemma opened_fields [simp]:
  "ep_published_dir (opened stamp clock e) = ep_published_dir e" "ep_id (opened stamp clock e) = ep_id e"
  "ep_init_published (opened stamp clock e) \<longleftrightarrow> dict_get (ep_published_dir e) init_file \<noteq> None"
  by (simp_all add: opened_def)

lemma opened_start [simp]: "ep_start (opened stamp clock e) = ep_start e"
  by (simp add: opened_def rebuild_published_frontier_def record_byte_sample_def Let_def split: prod.splits)

lemma opened_frontier:
  "ep_contiguous_through (opened stamp clock e) =
     (if dict_get (ep_published_dir e) init_file \<noteq> None
      then contiguous_segment_frontier (ep_published_segments (opened stamp clock e)) else None)"
  unfolding opened_def by (subst rebuild_frontier) simp

lemma opened_segments: "set (ep_published_segments (opened stamp clock e)) = listed_segments (ep_published_dir e)"
  by (simp add: opened_def rebuild_segments)

lemma opened_frontier_Some:
  assumes "ep_contiguous_through (opened stamp clock e) = Some through"
  shows "dict_get (ep_published_dir e) init_file \<noteq> None \<and> 0 \<le> through \<and> {0..through} \<subseteq> listed_segments (ep_published_dir e)"
proof -
  have "contiguous_segment_frontier (ep_published_segments (opened stamp clock e)) = Some through"
    and init: "dict_get (ep_published_dir e) init_file \<noteq> None"
    using assms opened_frontier[of stamp clock e] by (auto split: if_splits)
  then have zero: "0 \<in> listed_segments (ep_published_dir e)"
    and through: "through = frontier_from (ep_published_segments (opened stamp clock e)) 0"
    using opened_segments[of stamp clock e] by (auto simp: contiguous_segment_frontier_def split: if_splits)
  note spec = frontier_from_spec[of 0 "ep_published_segments (opened stamp clock e)", folded through, unfolded opened_segments]
  have "i \<in> listed_segments (ep_published_dir e)" if "0 \<le> i" "i \<le> through" for i
    using spec zero that by (cases "i = 0") auto
  then show ?thesis using init spec by auto
qed

lemma opened_frontier_iff:
  "ep_contiguous_through (opened stamp clock e) \<noteq> None
     \<longleftrightarrow> dict_get (ep_published_dir e) init_file \<noteq> None \<and> 0 \<in> listed_segments (ep_published_dir e)"
  using opened_frontier[of stamp clock e] opened_segments[of stamp clock e]
  by (auto simp: contiguous_segment_frontier_def)

text \<open>The frontier depends on the directory only.\<close>

lemma opened_frontier_same:
  "ep_published_dir e = ep_published_dir e' \<Longrightarrow>
   ep_contiguous_through (opened stamp clock e) = ep_contiguous_through (opened stamp' clock' e')"
  unfolding opened_frontier by (simp add: opened_def rebuild_published_segments)

lemma manifest_content_cases:
  assumes "epochs_wf (ms_browser s)" and "clock \<noteq> 0" and "dict_get (bs_epochs (ms_browser s)) eid = Some e"
    and "epoch_manifest_content stamp clock ttl eid e (s, w) = (Inr text, s', w')"
  obtains through where "ep_contiguous_through (opened stamp clock e) = Some through"
    and "text = epoch_playlist s' (opened stamp clock e) through" and "epoch_readable (ms_browser s) clock e"
    and "epochs_wf (ms_browser s')" and "dict_get (bs_epochs (ms_browser s')) eid = Some (opened stamp clock e)"
    and "ms_duration s' = ms_duration s" and "ms_hls_engine s' = ms_hls_engine s"
    and "bs_active (ms_browser s') = bs_active (ms_browser s)"
proof -
  obtain r s1 w1 where opn: "open_epoch stamp clock ttl eid e (s, w) = (r, s1, w1)"
    by (cases "open_epoch stamp clock ttl eid e (s, w)") auto
  note oc = open_epoch_cases[OF assms(1-3) opn]
  have s1: "s1 = s'" using assms(4) opn by (simp add: epoch_manifest_content_def)
  show thesis
  proof (cases "epoch_readable (ms_browser s) clock e")
    case False
    then show thesis using assms(4) opn oc by (simp add: epoch_manifest_content_def)
  next
    case True
    then have r: "r = Inr (opened stamp clock e)" using oc by simp
    then obtain through where "ep_contiguous_through (opened stamp clock e) = Some through"
      "text = epoch_playlist s' (opened stamp clock e) through"
      using assms(4) opn s1 by (auto simp: epoch_manifest_content_def split: option.splits if_splits)
    then show thesis using that True oc s1 by blast
  qed
qed

text \<open>C4: Every segment a playlist lists can be fetched. When the manifest of an epoch is served, each address it
  lists reads back to a segment index, and a request for that segment in the session the manifest request
  left behind, at any time at which the epoch is still readable, serves the file of that segment. So a
  client that follows the playlist never asks for a segment the server does not have, whatever window the
  playlist was cut to.\<close>

theorem listed_segments_servable:
  assumes "epochs_wf (ms_browser s)" and "clock \<noteq> 0" and "dict_get (bs_epochs (ms_browser s)) eid = Some e"
    and "canonical_names (ep_published_dir e)"
    and "epoch_manifest_content stamp clock ttl eid e (s, w) = (Inr text, s', w')"
    and "address \<in> set (pl_addresses (read_playlist text))"
    and "dict_get (bs_epochs (ms_browser s')) eid = Some e'"
    and "clock' \<noteq> 0" and "epoch_readable (ms_browser s') clock' e'"
  shows "\<exists>index. read_address address = Some index \<and> 0 \<le> index
     \<and> fst (epoch_segment_path stamp' clock' ttl eid e' index (s', w')) = Inr (segment_file_name (nat index))"
proof -
  obtain through where thr: "ep_contiguous_through (opened stamp clock e) = Some through"
    and rendered: "text = epoch_playlist s' (opened stamp clock e) through"
    and wf': "epochs_wf (ms_browser s')" and get': "dict_get (bs_epochs (ms_browser s')) eid = Some (opened stamp clock e)"
    by (rule manifest_content_cases[OF assms(1-3,5)])
  have e': "e' = opened stamp clock e" using get' assms(7) by simp
  let ?last = "manifest_end_segment s' (opened stamp clock e) through"
  have one: "one_line ''init.mp4''" by (simp add: one_line_def)
  define sl where "sl = playlist_slice (max 0 (coerce_finite_seconds (PyNum (ep_start (opened stamp clock e))) 0)) (max 0 ?last)
      (max (1 / 1000) SEGMENT_DURATION_SECONDS)
      (if window_active s' then Some (ew_start (bs_window (ms_browser s'))) else None)
      (if window_active s' then Some (ew_end (bs_window (ms_browser s'))) else None)"
  note facts = playlist_facts[OF one sl_def, of "PyNum (ep_attach (opened stamp clock e))" "PyNum (ms_duration s')"]
  have sl: "pl_addresses (read_playlist text) = map segment_uri [sl_first sl..sl_last sl]"
    "0 \<le> sl_first sl" "sl_last sl \<le> max 0 ?last"
    unfolding rendered epoch_playlist_def Let_def using facts by (simp_all only: playlist.simps)
  then obtain index where index: "address = segment_uri index" "sl_first sl \<le> index" "index \<le> sl_last sl"
    using assms(6) by auto
  have front: "dict_get (ep_published_dir e) init_file \<noteq> None" "0 \<le> through" "{0..through} \<subseteq> listed_segments (ep_published_dir e)"
    using opened_frontier_Some[OF thr] by blast+
  have total: "1 \<le> total_epoch_segments s' (opened stamp clock e)" by (simp add: total_epoch_segments_def)
  then have last: "0 \<le> ?last" "?last \<le> through" "?last < total_epoch_segments s' (opened stamp clock e)"
    using front(2) by (simp_all add: manifest_end_segment_def)
  then have bounds: "0 \<le> index" "index \<le> through" "index < total_epoch_segments s' (opened stamp clock e)"
    using index sl(2,3) by auto
  have stored: "dict_get (ep_published_dir e) (segment_file_name (nat index)) \<noteq> None"
    using assms(4) front(3) bounds by (auto simp: canonical_names_def)
  obtain r s2 w2 where opn: "open_epoch stamp' clock' ttl eid e' (s', w') = (r, s2, w2)"
    by (cases "open_epoch stamp' clock' ttl eid e' (s', w')") auto
  have r: "r = Inr (opened stamp' clock' e')" and dur: "ms_duration s2 = ms_duration s'"
    using open_epoch_cases[OF wf' assms(8,7) opn] assms(9) by simp_all
  have thr': "ep_contiguous_through (opened stamp' clock' e') = Some through"
    using opened_frontier_same[of e e' stamp clock stamp' clock'] thr e' by simp
  have total': "total_epoch_segments s2 (opened stamp' clock' e') = total_epoch_segments s' (opened stamp clock e)"
    by (simp add: total_epoch_segments_def dur e')
  have "fst (epoch_segment_path stamp' clock' ttl eid e' index (s', w')) = Inr (segment_file_name (nat index))"
    using bounds stored front(1) thr' total' by (simp add: epoch_segment_path_def opn[unfolded e'] r e')
  then show ?thesis using index(1) bounds(1) read_segment_uri by blast
qed

section \<open>Publication keeps the names canonical\<close>

text \<open>The assumption of the theorem above is kept by every publication, and holds of the empty directory a new
  epoch starts with.\<close>

lemma canonical_empty [simp]: "canonical_names []"
  by (simp add: canonical_names_def listed_segments_def)

lemma canonical_set_segment:
  assumes "canonical_names dir"
  shows "canonical_names (dict_set dir (segment_file_name k) n)"
proof -
  have "i \<in> listed_segments dir \<or> i = int k" if "i \<in> listed_segments (dict_set dir (segment_file_name k) n)" for i
    using that segment_name_roundtrip[of k] by (auto simp: listed_segments_def split: if_splits)
  then show ?thesis using assms by (fastforce simp: canonical_names_def)
qed

lemma canonical_set_init: "canonical_names dir \<Longrightarrow> canonical_names (dict_set dir init_file n)"
  using init_file_no_segment by (auto simp: canonical_names_def listed_segments_def split: if_splits)

lemma canonical_move_segment:
  "canonical_names (ep_published_dir e) \<Longrightarrow> canonical_names (ep_published_dir (move_if_absent staged (segment_file_name k) e))"
  by (auto simp: move_if_absent_def canonical_set_segment split: option.splits)

lemma canonical_move_init:
  "canonical_names (ep_published_dir e) \<Longrightarrow> canonical_names (ep_published_dir (move_if_absent staged init_file e))"
  by (auto simp: move_if_absent_def canonical_set_init split: option.splits)

lemma publish_segment_canonical:
  "canonical_names (ep_published_dir e) \<Longrightarrow> publish_segment stamp clock el i name e = (err, e')
   \<Longrightarrow> canonical_names (ep_published_dir e')"
  by (auto simp: publish_segment_def Let_def canonical_move_segment split: if_splits)

lemma publish_init_canonical:
  "canonical_names (ep_published_dir e) \<Longrightarrow> publish_init stamp clock el e = (err, e')
   \<Longrightarrow> canonical_names (ep_published_dir e')"
  by (auto simp: publish_init_def Let_def canonical_move_init split: if_splits)

lemma publish_staged_canonical:
  "canonical_names (ep_published_dir e) \<Longrightarrow> publish_staged stamp clock el names e = (err, e')
   \<Longrightarrow> canonical_names (ep_published_dir e')"
proof (induction stamp clock el names e rule: publish_staged.induct)
  case (2 stamp clock el name names e)
  then show ?case
    by (auto split: option.splits if_splits prod.splits dest: publish_segment_canonical)
qed simp

lemma publish_outputs_canonical:
  assumes "canonical_names (ep_published_dir e)" and "publish_epoch_outputs stamp clock el e = (err, e')"
  shows "canonical_names (ep_published_dir e')"
  using assms
  by (auto simp: publish_epoch_outputs_def split: prod.splits option.splits if_splits
      dest: publish_init_canonical publish_staged_canonical)

section \<open>When a manifest is served\<close>

lemma manifest_content_exact:
  assumes "epochs_wf (ms_browser s)" and "clock \<noteq> 0" and "dict_get (bs_epochs (ms_browser s)) eid = Some e"
  shows "fst (epoch_manifest_content stamp clock ttl eid e (s, w)) =
     (if \<not> epoch_readable (ms_browser s) clock e then Inl (FileNotFoundError ''Route 2 epoch is no longer active'')
      else case ep_contiguous_through (opened stamp clock e) of
             None \<Rightarrow> Inl (FileNotFoundError ''Route 2 epoch manifest is not published yet'')
           | Some through \<Rightarrow> Inr (epoch_playlist (fst (snd (epoch_manifest_content stamp clock ttl eid e (s, w))))
                                  (opened stamp clock e) through))"
proof -
  obtain r s1 w1 where opn: "open_epoch stamp clock ttl eid e (s, w) = (r, s1, w1)"
    by (cases "open_epoch stamp clock ttl eid e (s, w)") auto
  note oc = open_epoch_cases[OF assms opn]
  show ?thesis
  proof (cases "epoch_readable (ms_browser s) clock e")
    case False
    then show ?thesis using opn oc by (simp add: epoch_manifest_content_def)
  next
    case True
    then show ?thesis using opn oc opened_frontier_Some[of stamp clock e]
      by (simp add: epoch_manifest_content_def split: option.split)
  qed
qed

text \<open>When a manifest is served. For an epoch of a well-formed session, the manifest request answers with a
  playlist exactly when the epoch is readable and both the init file and segment zero are in its published
  directory; in every other case it raises \<^verbatim>\<open>FileNotFoundError\<close>, never another error. What the record of the epoch
  said before does not matter: the directory is read again.\<close>

theorem manifest_served_exactly:
  assumes "epochs_wf (ms_browser s)" and "clock \<noteq> 0" and "dict_get (bs_epochs (ms_browser s)) eid = Some e"
  shows "(if epoch_readable (ms_browser s) clock e \<and> dict_get (ep_published_dir e) init_file \<noteq> None
             \<and> 0 \<in> listed_segments (ep_published_dir e)
          then \<exists>text. fst (epoch_manifest_content stamp clock ttl eid e (s, w)) = Inr text
          else \<exists>message. fst (epoch_manifest_content stamp clock ttl eid e (s, w)) = Inl (FileNotFoundError message))"
proof (cases "ep_contiguous_through (opened stamp clock e)")
  case None
  then have "\<not> (dict_get (ep_published_dir e) init_file \<noteq> None \<and> 0 \<in> listed_segments (ep_published_dir e))"
    using opened_frontier_iff[of stamp clock e] by simp
  then show ?thesis using manifest_content_exact[OF assms, of stamp ttl w] None by auto
next
  case (Some through)
  then have "dict_get (ep_published_dir e) init_file \<noteq> None \<and> 0 \<in> listed_segments (ep_published_dir e)"
    using opened_frontier_iff[of stamp clock e] by simp
  then show ?thesis using manifest_content_exact[OF assms, of stamp ttl w] Some by simp
qed

section \<open>A session that serves\<close>

definition serving_epoch :: playback_epoch where
  "serving_epoch = (demo_epoch ''e1'')\<lparr>ep_state := ''active'',
     ep_published_dir := [(init_file, 700), (segment_file_name 0, 900), (segment_file_name 1, 901)]\<rparr>"

definition serving_session :: mobile_session where
  "serving_session = demo_session\<lparr>ms_browser := (ms_browser demo_session)\<lparr>bs_replacement := None,
     bs_epochs := [(''e1'', serving_epoch)]\<rparr>\<rparr>"

lemma serving_session_facts:
  "epochs_wf (ms_browser serving_session)"
  "dict_get (bs_epochs (ms_browser serving_session)) ''e1'' = Some serving_epoch"
  "bs_active (ms_browser serving_session) = Some ''e1''"
  "ep_id serving_epoch = ''e1''" "ms_duration serving_session = 600" "ep_start serving_epoch = 20"
  "ep_published_dir serving_epoch = [(init_file, 700), (segment_file_name 0, 900), (segment_file_name 1, 901)]"
  by (simp_all add: serving_session_def serving_epoch_def demo_defs epochs_wf_def dict_wf_def)

lemma serving_listed: "listed_segments (ep_published_dir serving_epoch) = {0, 1}"
  using segment_name_roundtrip[of 0] segment_name_roundtrip[of 1] init_file_no_segment
  by (simp add: serving_session_facts listed_segments_Cons) (auto simp: listed_segments_def)

lemma serving_readable: "epoch_readable (ms_browser serving_session) clock serving_epoch"
  by (simp add: epoch_readable_def serving_session_facts)

lemma manifest_served_exactly_witness:
  "\<exists>text. fst (epoch_manifest_content ''t'' 1010 30 ''e1'' serving_epoch (serving_session, [])) = Inr text"
proof -
  have init: "dict_get (ep_published_dir serving_epoch) init_file \<noteq> None" by (simp add: serving_session_facts)
  show ?thesis
    using manifest_served_exactly[OF serving_session_facts(1) _ serving_session_facts(2), of 1010 "''t''" 30 "[]"]
    by (simp add: serving_readable serving_listed init)
qed

lemma serving_canonical: "canonical_names (ep_published_dir serving_epoch)"
  unfolding canonical_names_def serving_listed by (auto simp: serving_session_facts)

lemma unwindowed_playlist:
  assumes "one_line init_uri"
  shows "pl_addresses (read_playlist (render_route2_epoch_manifest_text es att through dur d ended None None init_uri))
     = map segment_uri [0..max 0 through]"
  using playlist_facts[OF assms, where es = es and att = att and manifest_end = through and dur = dur and d = d
      and ended = ended and ws = None and we = None]
  by (simp add: playlist_slice_def use_window_def)

lemma listed_segments_servable_witness:
  "\<exists>e'. dict_get (bs_epochs (ms_browser (fst (snd (epoch_manifest_content ''t'' 1010 30 ''e1'' serving_epoch (serving_session, [])))))) ''e1''
           = Some e'
     \<and> fst (epoch_segment_path ''t'' 1020 30 ''e1'' e' 0
          (snd (epoch_manifest_content ''t'' 1010 30 ''e1'' serving_epoch (serving_session, [])))) = Inr (segment_file_name 0)"
proof -
  have init: "dict_get (ep_published_dir serving_epoch) init_file \<noteq> None" by (simp add: serving_session_facts)
  obtain through where thr: "ep_contiguous_through (opened ''t'' 1010 serving_epoch) = Some through"
    using opened_frontier_iff[of "''t''" 1010 serving_epoch] init serving_listed by auto
  obtain page s' w' where run: "epoch_manifest_content ''t'' 1010 30 ''e1'' serving_epoch (serving_session, []) = (Inr page, s', w')"
    using manifest_content_exact[OF serving_session_facts(1) _ serving_session_facts(2), of 1010 "''t''" 30 "[]"]
    by (cases "epoch_manifest_content ''t'' 1010 30 ''e1'' serving_epoch (serving_session, [])")
      (auto simp: thr serving_readable)
  let ?o = "opened ''t'' 1010 serving_epoch"
  obtain thr2 where rendered: "page = epoch_playlist s' ?o thr2" and "ep_contiguous_through ?o = Some thr2"
    and get': "dict_get (bs_epochs (ms_browser s')) ''e1'' = Some ?o"
    and engine: "ms_hls_engine s' = ms_hls_engine serving_session"
    and act: "bs_active (ms_browser s') = bs_active (ms_browser serving_session)"
    by (rule manifest_content_cases[OF serving_session_facts(1) _ serving_session_facts(2) run]) auto
  then have "0 \<le> thr2" using opened_frontier_Some by blast
  then have last: "0 \<le> manifest_end_segment s' ?o thr2"
    by (simp add: manifest_end_segment_def total_epoch_segments_def)
  have "\<not> window_active s'"
    by (simp add: window_active_def is_native_hls_engine_def engine serving_session_def demo_defs)
  moreover have one: "one_line ''init.mp4''" by (simp add: one_line_def)
  ultimately have "pl_addresses (read_playlist page) = map segment_uri [0..manifest_end_segment s' ?o thr2]"
    using last by (simp add: rendered epoch_playlist_def unwindowed_playlist[OF one] Let_def)
  then have listed: "segment_uri 0 \<in> set (pl_addresses (read_playlist page))" using last by simp
  have "epoch_readable (ms_browser s') 1020 ?o"
    by (simp add: epoch_readable_def act serving_session_facts)
  then obtain index where "read_address (segment_uri 0) = Some index"
    "fst (epoch_segment_path ''t'' 1020 30 ''e1'' ?o index (s', w')) = Inr (segment_file_name (nat index))"
    using listed_segments_servable[OF serving_session_facts(1) _ serving_session_facts(2) serving_canonical run listed get', of 1020 "''t''"]
    by auto
  then show ?thesis using get' read_segment_uri[of 0] by (simp add: run)
qed

end
