(* ===== verification/Route2_Adaptive.thy ===== *)
theory Route2_Adaptive
  imports Elvern_Base
begin

text \<open>
  The adaptive thread controller, \<^verbatim>\<open>services/route2_adaptive_controller.py\<close>: from the
  measurements of one worker it names the bottleneck and recommends a number of threads.

  The definitions follow the source top to bottom: the helpers, the two functions that hold a promotion
  back, and \<open>classify_route2_adaptive_shadow\<close> with its early returns in order. The local variables of the
  source are definitions over the measurements \<open>p\<close>. The texts of the reasons are the constructors of
  \<open>thread_reason\<close>, one for each text the source returns; the parameters of a text are its arguments.
\<close>

section \<open>Measurements and decisions\<close>

datatype bottleneck =
    CPU_BOUND
  | SOURCE_BOUND
  | CLIENT_BOUND
  | OVER_SUPPLIED
  | UNDER_SUPPLIED_BUT_CPU_LIMITED
  | WAITING_FOR_CAPACITY
  | STORAGE_BOUND
  | PROVIDER_ERROR
  | UNKNOWN

record shadow_input =
  si_worker_state :: string
  si_playback_mode :: string
  si_profile :: string
  si_source_kind :: string
  si_assigned_threads :: int
  si_default_threads :: int
  si_max_threads :: int
  si_adaptive_max_threads :: "int option"
  si_cpu_cores_used :: "real option"
  si_allocated_cores :: "int option"
  si_user_cores_used :: "real option"
  si_upbound_cores :: "int option"
  si_route2_cores_used :: "real option"
  si_active_users :: "int option"
  si_host_total_cores :: "int option"
  si_host_used_cores :: "real option"
  si_host_used_percent :: "real option"
  si_external_cores :: "real option"
  si_external_percent :: "real option"
  si_external_ffmpeg :: "int option"
  si_external_ffmpeg_cores :: "real option"
  si_host_sample_mature :: bool
  si_memory_bytes :: "int option"
  si_total_memory :: "int option"
  si_route2_memory :: "int option"
  si_route2_memory_percent :: "real option"
  si_ready_end :: "real option"
  si_playhead :: "real option"
  si_runway :: "real option"
  si_required_runway :: "real option"
  si_supply_rate :: "real option"
  si_supply_observation :: "real option"
  si_client_goodput :: "real option"
  si_client_confident :: bool
  si_server_goodput :: "real option"
  si_server_confident :: bool
  si_non_retryable_error :: "string option"
  si_starvation_risk :: bool
  si_stalled_recovery :: bool
  si_mode_ready :: "bool option"

datatype thread_reason =
    ProviderFailure
  | WaitingForCapacity
  | InsufficientSamples
  | ComfortablyAhead
  | ClientIsLimiter
  | MemoryUnmeasured
  | MemoryPressure
  | LadderPromotion int "int option" bool
  | TwelveCloudGuard
  | TwelveUsersUnavailable
  | TwelveMultipleUsers
  | TwelveShortSample
  | TwelveNotCpuActive
  | TwelveSupplyNotLow
  | TwelveHeadroomUnmeasured
  | TwelveHeadroomSmall
  | TwelveMemoryUnmeasured
  | TwelveMemoryPressure
  | HostMetricsImmature
  | ExternalPressure
  | ExternalFfmpegBlocks
  | ExternalFfmpegSpareLimited
  | ModerateExternalPressure
  | CeilingPreventsIncrease
  | HeadroomBelowTier
  | HeadroomUnavailable
  | NoLadderIncrease
  | NoSafeIncrease
  | SourceSide
  | LocalStorage
  | NoStrongSignal

record shadow_decision =
  sd_class :: bottleneck
  sd_confidence :: real
  sd_recommended :: int
  sd_current :: int
  sd_reason :: thread_reason
  sd_safe_increase :: bool
  sd_safe_decrease :: bool
  sd_missing :: "string list"

section \<open>Helpers\<close>

definition default_required_runway :: "string \<Rightarrow> real" where
  "default_required_runway mode = (if mode = ''full'' then 120 else 45)"

definition comfortable_runway :: "string \<Rightarrow> real \<Rightarrow> real" where
  "comfortable_runway mode required =
     (let baseline = max required (default_required_runway mode);
          extra = (if mode = ''full'' then 60 else 20)
      in max (baseline * 1.5) (baseline + extra))"

definition clamp_threads :: "int \<Rightarrow> int \<Rightarrow> int" where
  "clamp_threads value max_threads =
     (let upper = max 1 max_threads; lower = min 2 upper in max lower (min value upper))"

definition current_threads :: "shadow_input \<Rightarrow> int" where
  "current_threads p =
     max 1 (if si_assigned_threads p > 0 then si_assigned_threads p else si_default_threads p)"

definition capped_by :: "int option \<Rightarrow> int \<Rightarrow> int" where
  "capped_by cores limit =
     (case cores of None \<Rightarrow> limit | Some c \<Rightarrow> if c > 0 then min limit (max 1 c) else limit)"

definition adaptive_ceiling :: "shadow_input \<Rightarrow> int" where
  "adaptive_ceiling p =
     (let limit = (case si_adaptive_max_threads p of
             Some m \<Rightarrow> if m > 0 then m else si_max_threads p
           | None \<Rightarrow> si_max_threads p)
      in max 1 (capped_by (si_allocated_cores p) (capped_by (si_upbound_cores p) limit)))"

definition preferred_target :: "int \<Rightarrow> int" where
  "preferred_target current =
     max current (if current \<le> 5 then 6 else if current \<le> 8 then 9 else if current \<le> 11 then 12 else current)"

definition provider_markers :: "string list" where
  "provider_markers = [''quota'', ''provider'', ''google drive'', ''gdrive'', ''forbidden'', ''unauthorized'',
     ''permission'', ''source'', ''auth'', ''rate limit'']"

definition looks_like_provider_error :: "string option \<Rightarrow> bool" where
  "looks_like_provider_error message =
     (let normalized = py_lower (py_strip (or_string message [])) in
      if normalized = [] then False else list_ex (\<lambda>m. contains m normalized) provider_markers)"

definition thread_pressure :: "shadow_input \<Rightarrow> real option" where
  "thread_pressure p =
     (case si_cpu_cores_used p of
        None \<Rightarrow> None
      | Some used \<Rightarrow> if current_threads p > 0 then Some (used / of_int (max (current_threads p) 1)) else None)"

definition budget_pressure :: "real option \<Rightarrow> int option \<Rightarrow> real option" where
  "budget_pressure used budget =
     (case (used, budget) of
        (Some u, Some b) \<Rightarrow> Some (u / max (of_int b) (1 / 1000))
      | _ \<Rightarrow> None)"

definition memory_pressure :: "shadow_input \<Rightarrow> real option" where
  "memory_pressure p =
     (case (si_total_memory p, si_route2_memory p) of
        (Some total_bytes, Some used) \<Rightarrow>
          if total_bytes \<noteq> 0 then Some (of_int used / max (of_int total_bytes) 1)
          else map_option (\<lambda>x. max 0 x / 100) (si_route2_memory_percent p)
      | _ \<Rightarrow> map_option (\<lambda>x. max 0 x / 100) (si_route2_memory_percent p))"

definition has_weak_client :: "shadow_input \<Rightarrow> bool" where
  "has_weak_client p =
     (if si_stalled_recovery p then True
      else if \<not> si_client_confident p then False
      else case (si_server_goodput p, si_client_goodput p) of
             (Some server, Some client) \<Rightarrow>
               if si_server_confident p \<and> server > 0 then client < server * (65 / 100) else False
           | _ \<Rightarrow> False)"

section \<open>The local variables of the classification\<close>

definition required_runway_of :: "shadow_input \<Rightarrow> real" where
  "required_runway_of p = max 0 (or_real (si_required_runway p) (default_required_runway (si_playback_mode p)))"

text \<open>Runway and supply rate are read only once they are known to be present.\<close>

definition runway_of :: "shadow_input \<Rightarrow> real" where
  "runway_of p = max 0 (case si_runway p of None \<Rightarrow> 0 | Some r \<Rightarrow> r)"

definition rate_of :: "shadow_input \<Rightarrow> real" where
  "rate_of p = max 0 (case si_supply_rate p of None \<Rightarrow> 0 | Some r \<Rightarrow> r)"

definition adequate_sample :: "shadow_input \<Rightarrow> bool" where
  "adequate_sample p =
     (si_runway p \<noteq> None \<and> si_supply_rate p \<noteq> None
      \<and> (case si_supply_observation p of None \<Rightarrow> False | Some o' \<Rightarrow> o' \<ge> 6))"

text \<open>The worker uses at least \<open>share\<close> of its threads, and at least \<open>floor_cores\<close> cores.\<close>

definition cpu_active :: "real \<Rightarrow> real \<Rightarrow> shadow_input \<Rightarrow> bool" where
  "cpu_active share floor_cores p =
     (case si_cpu_cores_used p of
        None \<Rightarrow> False
      | Some used \<Rightarrow>
          (case thread_pressure p of None \<Rightarrow> False | Some ratio \<Rightarrow> ratio \<ge> share)
          \<or> used \<ge> max floor_cores (of_int (current_threads p) * share))"

definition worker_cpu_active :: "shadow_input \<Rightarrow> bool" where
  "worker_cpu_active p = cpu_active (85 / 100) 1 p"

definition strongly_cpu_active :: "shadow_input \<Rightarrow> bool" where
  "strongly_cpu_active p = cpu_active (95 / 100) 2 p"

definition low_or_moderate_cpu :: "shadow_input \<Rightarrow> bool" where
  "low_or_moderate_cpu p = (si_cpu_cores_used p \<noteq> None \<and> \<not> worker_cpu_active p)"

definition supply_healthy :: "shadow_input \<Rightarrow> bool" where
  "supply_healthy p = (rate_of p \<ge> 1 \<and> runway_of p + 1 / 1000 \<ge> required_runway_of p)"

definition low_supply :: "shadow_input \<Rightarrow> bool" where
  "low_supply p = (rate_of p < 1 \<or> runway_of p + 1 / 1000 < required_runway_of p)"

definition clearly_low_supply :: "real \<Rightarrow> shadow_input \<Rightarrow> bool" where
  "clearly_low_supply threshold p =
     (rate_of p < threshold \<or> runway_of p + 1 / 1000 < required_runway_of p * (75 / 100))"

definition client_bound :: "shadow_input \<Rightarrow> bool" where
  "client_bound p = (supply_healthy p \<and> has_weak_client p)"

definition headroom :: "int option \<Rightarrow> real option \<Rightarrow> real option" where
  "headroom cores used =
     (case (cores, used) of (Some c, Some u) \<Rightarrow> Some (of_int c - u) | _ \<Rightarrow> None)"

definition user_headroom :: "shadow_input \<Rightarrow> real option" where
  "user_headroom p = headroom (si_allocated_cores p) (si_user_cores_used p)"

definition global_headroom :: "shadow_input \<Rightarrow> real option" where
  "global_headroom p = headroom (si_upbound_cores p) (si_route2_cores_used p)"

definition has_headroom :: "real option \<Rightarrow> bool" where
  "has_headroom h = (case h of None \<Rightarrow> False | Some v \<Rightarrow> v \<ge> 1)"

definition headroom_ceiling :: "shadow_input \<Rightarrow> int" where
  "headroom_ceiling p =
     (case (user_headroom p, global_headroom p) of
        (Some u, Some g) \<Rightarrow> current_threads p + max 0 \<lfloor>min u g\<rfloor>
      | _ \<Rightarrow> current_threads p)"

section \<open>What holds a promotion back\<close>

definition strict_twelve_hold :: "shadow_input \<Rightarrow> thread_reason option" where
  "strict_twelve_hold p =
     (if current_threads p < 9 \<or> current_threads p > 11 then None
      else if si_source_kind p \<noteq> ''local'' then Some TwelveCloudGuard
      else if si_active_users p \<noteq> Some 1 then
        (if si_active_users p = None then Some TwelveUsersUnavailable else Some TwelveMultipleUsers)
      else if (case si_supply_observation p of None \<Rightarrow> True | Some o' \<Rightarrow> o' < 20) then Some TwelveShortSample
      else if \<not> strongly_cpu_active p then Some TwelveNotCpuActive
      else if \<not> clearly_low_supply (90 / 100) p then Some TwelveSupplyNotLow
      else case (user_headroom p, global_headroom p) of
        (Some u, Some g) \<Rightarrow>
          if min u g < 3 then Some TwelveHeadroomSmall
          else (case memory_pressure p of
                  None \<Rightarrow> Some TwelveMemoryUnmeasured
                | Some m \<Rightarrow> if m \<ge> 80 / 100 then Some TwelveMemoryPressure else None)
      | _ \<Rightarrow> Some TwelveHeadroomUnmeasured)"

definition host_metrics_mature :: "shadow_input \<Rightarrow> bool" where
  "host_metrics_mature p =
     (si_host_sample_mature p \<and> si_host_total_cores p \<noteq> None \<and> si_host_used_cores p \<noteq> None
      \<and> si_host_used_percent p \<noteq> None)"

text \<open>A percentage above one is read as hundredths.\<close>

definition as_ratio :: "real option \<Rightarrow> real" where
  "as_ratio x = (let r = max 0 (or_real x 0) in if r > 1 then r / 100 else r)"

definition host_spare_cores :: "shadow_input \<Rightarrow> real" where
  "host_spare_cores p =
     max 0 (max 1 (of_int (or_int (si_host_total_cores p) 1)) - max 0 (or_real (si_host_used_cores p) 0))"

definition external_pressure_hold :: "int \<Rightarrow> shadow_input \<Rightarrow> thread_reason option" where
  "external_pressure_hold target p =
     (if target \<le> current_threads p then None
      else if \<not> host_metrics_mature p then
        (if target \<le> 6 \<and> strongly_cpu_active p \<and> clearly_low_supply (85 / 100) p then None
         else Some HostMetricsImmature)
      else
        let cores = max 0 (or_real (si_external_cores p) 0);
            ratio = as_ratio (si_external_percent p);
            ffmpeg = max 0 (or_int (si_external_ffmpeg p) 0)
        in if cores \<ge> 4 \<or> ratio \<ge> 20 / 100 then Some ExternalPressure
           else if ffmpeg > 0 \<and> target \<ge> 9 then Some ExternalFfmpegBlocks
           else if ffmpeg > 0 \<and> (host_spare_cores p < 2 \<or> cores \<ge> 1 \<or> ratio \<ge> 5 / 100)
           then Some ExternalFfmpegSpareLimited
           else if (cores \<ge> 3 \<or> ratio \<ge> 15 / 100) \<and> target > 6 then Some ModerateExternalPressure
           else None)"

definition benchmark_target :: "shadow_input \<Rightarrow> int" where
  "benchmark_target p =
     (let preferred = preferred_target (current_threads p)
      in if preferred = 12 \<and> strict_twelve_hold p \<noteq> None then current_threads p else preferred)"

section \<open>The classification\<close>

definition missing_metrics :: "shadow_input \<Rightarrow> string list" where
  "missing_metrics p =
     map snd (filter fst
       [(si_cpu_cores_used p = None, ''cpu_cores_used''),
        (si_allocated_cores p = None, ''allocated_cpu_cores''),
        (si_user_cores_used p = None, ''user_cpu_cores_used_total''),
        (si_upbound_cores p = None, ''route2_cpu_upbound_cores''),
        (si_route2_cores_used p = None, ''route2_cpu_cores_used_total''),
        (si_active_users p = None, ''active_route2_user_count''),
        (\<not> si_host_sample_mature p, ''host_cpu_sample_mature''),
        (si_host_total_cores p = None, ''host_cpu_total_cores''),
        (si_host_used_cores p = None, ''host_cpu_used_cores''),
        (si_host_used_percent p = None, ''host_cpu_used_percent''),
        (si_external_cores p = None, ''external_cpu_cores_used_estimate''),
        (si_external_percent p = None, ''external_cpu_percent_estimate''),
        (si_external_ffmpeg p = None, ''external_ffmpeg_process_count''),
        (si_runway p = None, ''ahead_runway_seconds''),
        (si_supply_rate p = None, ''supply_rate_x''),
        (si_supply_observation p = None, ''supply_observation_seconds''),
        (si_total_memory p = None, ''total_memory_bytes''),
        (si_route2_memory p = None \<and> si_route2_memory_percent p = None, ''route2_memory_bytes_total'')])"

text \<open>A decision that leaves the thread count alone, the common shape of the early returns.\<close>

definition hold :: "shadow_input \<Rightarrow> bottleneck \<Rightarrow> real \<Rightarrow> thread_reason \<Rightarrow> shadow_decision" where
  "hold p cls confidence reason =
     \<lparr>sd_class = cls, sd_confidence = confidence, sd_recommended = current_threads p,
      sd_current = current_threads p, sd_reason = reason, sd_safe_increase = False,
      sd_safe_decrease = False, sd_missing = missing_metrics p\<rparr>"

definition over_supplied :: "shadow_input \<Rightarrow> bool" where
  "over_supplied p =
     (rate_of p \<ge> 1.5
      \<and> runway_of p + 1 / 1000 \<ge> comfortable_runway (si_playback_mode p) (required_runway_of p)
      \<and> \<not> si_starvation_risk p \<and> \<not> si_stalled_recovery p)"

definition over_supplied_decision :: "shadow_input \<Rightarrow> shadow_decision" where
  "over_supplied_decision p =
     (let recommended = clamp_threads (current_threads p - 2) (max (current_threads p) (si_max_threads p))
      in (hold p OVER_SUPPLIED (if si_mode_ready p = Some True then 88 / 100 else 78 / 100) ComfortablyAhead)
           \<lparr>sd_recommended := recommended, sd_safe_decrease := recommended < current_threads p\<rparr>)"

definition promotion_allowed :: "shadow_input \<Rightarrow> bool" where
  "promotion_allowed p =
     (let target = benchmark_target p in
      target > current_threads p \<and> external_pressure_hold target p = None
      \<and> target \<le> adaptive_ceiling p \<and> target \<le> headroom_ceiling p
      \<and> has_headroom (user_headroom p) \<and> has_headroom (global_headroom p))"

definition user_budget_pressure :: "shadow_input \<Rightarrow> real option" where
  "user_budget_pressure p = budget_pressure (si_user_cores_used p) (si_allocated_cores p)"

definition global_budget_pressure :: "shadow_input \<Rightarrow> real option" where
  "global_budget_pressure p = budget_pressure (si_route2_cores_used p) (si_upbound_cores p)"

definition promotion_decision :: "shadow_input \<Rightarrow> shadow_decision" where
  "promotion_decision p =
     (let target = benchmark_target p in
      (hold p CPU_BOUND
         (if user_budget_pressure p \<noteq> None \<and> global_budget_pressure p \<noteq> None then 90 / 100 else 82 / 100)
         (LadderPromotion target (if si_max_threads p < adaptive_ceiling p then Some (si_max_threads p) else None)
            (si_active_users p = Some 1)))
        \<lparr>sd_recommended := target, sd_safe_increase := target > current_threads p\<rparr>)"

definition limited_reason :: "shadow_input \<Rightarrow> thread_reason" where
  "limited_reason p =
     (let preferred = preferred_target (current_threads p) in
      case external_pressure_hold (benchmark_target p) p of
        Some reason \<Rightarrow> reason
      | None \<Rightarrow>
          (case strict_twelve_hold p of
             Some reason \<Rightarrow> reason
           | None \<Rightarrow>
               if adaptive_ceiling p \<le> current_threads p \<or> preferred > adaptive_ceiling p then CeilingPreventsIncrease
               else if preferred > headroom_ceiling p then HeadroomBelowTier
               else if \<not> has_headroom (user_headroom p) \<or> \<not> has_headroom (global_headroom p) then HeadroomUnavailable
               else if preferred \<le> current_threads p then NoLadderIncrease
               else NoSafeIncrease))"

text \<open>Low supply with a busy worker: promote when everything allows it, otherwise say what forbids it.\<close>

definition cpu_limited_decision :: "shadow_input \<Rightarrow> shadow_decision" where
  "cpu_limited_decision p =
     (case memory_pressure p of
        None \<Rightarrow> hold p UNDER_SUPPLIED_BUT_CPU_LIMITED (72 / 100) MemoryUnmeasured
      | Some m \<Rightarrow>
          if m \<ge> 90 / 100 \<or> m \<ge> 80 / 100 then hold p UNDER_SUPPLIED_BUT_CPU_LIMITED (84 / 100) MemoryPressure
          else if promotion_allowed p then promotion_decision p
          else hold p UNDER_SUPPLIED_BUT_CPU_LIMITED
                 (if user_budget_pressure p \<noteq> None \<or> global_budget_pressure p \<noteq> None then 88 / 100 else 78 / 100)
                 (limited_reason p))"

definition weak_server :: "shadow_input \<Rightarrow> bool" where
  "weak_server p =
     (si_server_confident p \<and> si_client_confident p
      \<and> (case (si_server_goodput p, si_client_goodput p) of
           (Some server, Some client) \<Rightarrow> server \<le> client
         | _ \<Rightarrow> False))"

definition classify_route2_adaptive_shadow :: "shadow_input \<Rightarrow> shadow_decision" where
  "classify_route2_adaptive_shadow p =
     (if looks_like_provider_error (si_non_retryable_error p) then hold p PROVIDER_ERROR (98 / 100) ProviderFailure
      else if si_worker_state p \<in> {''queued'', ''waiting_for_capacity''}
      then hold p WAITING_FOR_CAPACITY (98 / 100) WaitingForCapacity
      else if \<not> adequate_sample p then hold p UNKNOWN (25 / 100) InsufficientSamples
      else if over_supplied p then over_supplied_decision p
      else if client_bound p
      then hold p CLIENT_BOUND (if si_client_confident p then 82 / 100 else 68 / 100) ClientIsLimiter
      else if low_supply p \<and> worker_cpu_active p then cpu_limited_decision p
      else if low_supply p \<and> (si_source_kind p = ''cloud'' \<or> weak_server p) \<and> low_or_moderate_cpu p
      then hold p SOURCE_BOUND (if si_server_confident p then 72 / 100 else 58 / 100) SourceSide
      else if low_supply p \<and> si_source_kind p = ''local'' \<and> low_or_moderate_cpu p
      then hold p STORAGE_BOUND (35 / 100) LocalStorage
      else hold p UNKNOWN (30 / 100) NoStrongSignal)"

section \<open>What a recommendation rests on\<close>

lemma current_threads_pos [simp]: "1 \<le> current_threads p"
  by (simp add: current_threads_def)

lemma adaptive_ceiling_bounds:
  "1 \<le> adaptive_ceiling p"
  "si_allocated_cores p = Some c \<Longrightarrow> 0 < c \<Longrightarrow> adaptive_ceiling p \<le> c"
  "si_upbound_cores p = Some c \<Longrightarrow> 0 < c \<Longrightarrow> adaptive_ceiling p \<le> c"
  by (auto simp: adaptive_ceiling_def capped_by_def Let_def split: option.splits)

lemma preferred_target_cases:
  "preferred_target c = c \<or> preferred_target c \<in> {6, 9, 12} \<and> c < preferred_target c"
  by (auto simp: preferred_target_def)

lemma hold_fields [simp]:
  "sd_class (hold p c x r) = c" "sd_recommended (hold p c x r) = current_threads p"
  "sd_current (hold p c x r) = current_threads p" "sd_safe_increase (hold p c x r) = False"
  "sd_safe_decrease (hold p c x r) = False" "sd_reason (hold p c x r) = r"
  by (simp_all add: hold_def)

lemma clamp_two_less:
  "1 \<le> c \<Longrightarrow> clamp_threads (c - 2) (max c m) = (if c = 1 then (if 2 \<le> m then 2 else 1) else max 2 (c - 2))"
  by (auto simp: clamp_threads_def Let_def max_def min_def)

lemma over_supplied_recommends:
  "sd_class (over_supplied_decision p) = OVER_SUPPLIED \<and> sd_current (over_supplied_decision p) = current_threads p
   \<and> \<not> sd_safe_increase (over_supplied_decision p)
   \<and> sd_recommended (over_supplied_decision p)
      = (if current_threads p = 1 then (if 2 \<le> si_max_threads p then 2 else 1) else max 2 (current_threads p - 2))
   \<and> (sd_safe_decrease (over_supplied_decision p) \<longleftrightarrow> sd_recommended (over_supplied_decision p) < current_threads p)"
  using clamp_two_less[OF current_threads_pos] by (simp add: over_supplied_decision_def Let_def)

text \<open>The decision follows one of the outcomes of the source: nothing changes, fewer threads, or a promotion.\<close>

definition held_in :: "shadow_input \<Rightarrow> shadow_decision \<Rightarrow> bool" where
  "held_in p d = (\<exists>c x r. d = hold p c x r \<and> c \<noteq> CPU_BOUND \<and> c \<noteq> OVER_SUPPLIED)"

lemma held_in_hold [simp]: "c \<noteq> CPU_BOUND \<Longrightarrow> c \<noteq> OVER_SUPPLIED \<Longrightarrow> held_in p (hold p c x r)"
  by (auto simp: held_in_def)

lemma classify_cases:
  obtains (held) c x r where "classify_route2_adaptive_shadow p = hold p c x r" "c \<noteq> CPU_BOUND" "c \<noteq> OVER_SUPPLIED"
    | (reduced) "classify_route2_adaptive_shadow p = over_supplied_decision p" "over_supplied p" "adequate_sample p"
    | (promoted) m where "classify_route2_adaptive_shadow p = promotion_decision p" "adequate_sample p" "low_supply p"
        "worker_cpu_active p" "memory_pressure p = Some m" "m < 80 / 100" "promotion_allowed p"
proof -
  have "classify_route2_adaptive_shadow p = over_supplied_decision p \<and> over_supplied p \<and> adequate_sample p
      \<or> classify_route2_adaptive_shadow p = cpu_limited_decision p \<and> low_supply p \<and> worker_cpu_active p \<and> adequate_sample p
      \<or> held_in p (classify_route2_adaptive_shadow p)"
    unfolding classify_route2_adaptive_shadow_def by simp
  then consider "classify_route2_adaptive_shadow p = over_supplied_decision p" "over_supplied p" "adequate_sample p"
    | "classify_route2_adaptive_shadow p = cpu_limited_decision p" "low_supply p" "worker_cpu_active p" "adequate_sample p"
    | c x r where "classify_route2_adaptive_shadow p = hold p c x r" "c \<noteq> CPU_BOUND" "c \<noteq> OVER_SUPPLIED"
    unfolding held_in_def by blast
  then show thesis
  proof cases
    case 1
    then show thesis by (rule reduced)
  next
    case 2
    show thesis
    proof (cases "memory_pressure p")
      case None
      then have eq: "classify_route2_adaptive_shadow p = hold p UNDER_SUPPLIED_BUT_CPU_LIMITED (72 / 100) MemoryUnmeasured"
        using 2(1) by (simp add: cpu_limited_decision_def)
      show thesis by (rule held[OF eq]) simp_all
    next
      case (Some m)
      then show thesis
        using 2 held promoted by (auto simp: cpu_limited_decision_def split: if_splits)
    qed
  next
    case 3
    then show thesis by (rule held)
  qed
qed

lemma promotion_allowed_facts:
  assumes "promotion_allowed p"
  shows "benchmark_target p \<in> {6, 9, 12}" and "current_threads p < benchmark_target p"
    and "\<exists>u g. user_headroom p = Some u \<and> global_headroom p = Some g
          \<and> of_int (benchmark_target p - current_threads p) \<le> min u g"
    and "benchmark_target p = 12 \<Longrightarrow> strict_twelve_hold p = None \<and> 9 \<le> current_threads p"
proof -
  let ?c = "current_threads p" and ?t = "benchmark_target p"
  have t: "?c < ?t" using assms by (simp add: promotion_allowed_def Let_def)
  then have pref: "?t = preferred_target ?c" and twelve: "?t = 12 \<Longrightarrow> strict_twelve_hold p = None"
    by (auto simp: benchmark_target_def Let_def split: if_splits)
  then show "?t \<in> {6, 9, 12}" and "?c < ?t" using t preferred_target_cases[of ?c] by auto
  have "9 \<le> ?c" if "?t = 12" using that pref t by (auto simp: preferred_target_def split: if_splits)
  then show "?t = 12 \<Longrightarrow> strict_twelve_hold p = None \<and> 9 \<le> ?c" using twelve by blast
  obtain u g where ug: "user_headroom p = Some u" "global_headroom p = Some g"
    using assms by (auto simp: promotion_allowed_def has_headroom_def Let_def split: option.splits)
  have "?t \<le> ?c + max 0 \<lfloor>min u g\<rfloor>"
    using assms by (simp add: promotion_allowed_def headroom_ceiling_def ug Let_def)
  then have "?t - ?c \<le> \<lfloor>min u g\<rfloor>" using t by linarith
  then have "of_int (?t - ?c) \<le> min u g" by (simp only: le_floor_iff)
  with ug show "\<exists>u g. user_headroom p = Some u \<and> global_headroom p = Some g \<and> of_int (?t - ?c) \<le> min u g" by blast
qed

text \<open>More threads are recommended only when they were earned. If the controller recommends more threads than
  the worker has, then either the supply is low, the worker is busy, memory pressure was measured below
  80 percent, no external load forbids it, the recommendation is one of the tiers 6, 9 and 12, respects the
  adaptive ceiling and fits into the measured head-room of the user and of the server; and the tier 12 also
  needs a local source, a single user and twenty seconds of samples. The only other case is a worker with
  one thread whose supply is comfortable.\<close>

theorem promotion_is_earned:
  assumes "classify_route2_adaptive_shadow p = d" and "sd_current d < sd_recommended d"
  shows "(sd_class d = CPU_BOUND \<and> sd_safe_increase d \<and> sd_recommended d \<in> {6, 9, 12}
           \<and> low_supply p \<and> worker_cpu_active p \<and> (\<exists>m. memory_pressure p = Some m \<and> m < 80 / 100)
           \<and> external_pressure_hold (sd_recommended d) p = None \<and> sd_recommended d \<le> adaptive_ceiling p
           \<and> (\<exists>u g. user_headroom p = Some u \<and> global_headroom p = Some g
                \<and> of_int (sd_recommended d - sd_current d) \<le> min u g)
           \<and> (sd_recommended d = 12 \<longrightarrow> si_source_kind p = ''local'' \<and> si_active_users p = Some 1
                \<and> (\<exists>o'. si_supply_observation p = Some o' \<and> 20 \<le> o') \<and> strongly_cpu_active p))
       \<or> (sd_class d = OVER_SUPPLIED \<and> sd_current d = 1 \<and> sd_recommended d = 2 \<and> \<not> sd_safe_increase d)"
proof (cases rule: classify_cases[of p, case_names held reduced promoted])
  case (held c x r)
  then show ?thesis using assms by auto
next
  case reduced
  then have "d = over_supplied_decision p" using assms(1) by simp
  then have "current_threads p = 1"
    using assms(2) over_supplied_recommends[of p] current_threads_pos[of p] by (simp split: if_splits; linarith)
  with \<open>d = over_supplied_decision p\<close> show ?thesis
    using assms(2) over_supplied_recommends[of p] by (simp split: if_splits)
next
  case (promoted m)
  let ?t = "benchmark_target p"
  have d: "sd_class d = CPU_BOUND" "sd_recommended d = ?t" "sd_current d = current_threads p"
    "sd_safe_increase d \<longleftrightarrow> ?t > current_threads p"
    using promoted(1) assms(1) by (auto simp: promotion_decision_def Let_def)
  note facts = promotion_allowed_facts[OF promoted(7)]
  have allowed: "external_pressure_hold ?t p = None" "?t \<le> adaptive_ceiling p"
    using promoted(7) by (simp_all add: promotion_allowed_def Let_def)
  have "si_source_kind p = ''local'' \<and> si_active_users p = Some 1
      \<and> (\<exists>o'. si_supply_observation p = Some o' \<and> 20 \<le> o') \<and> strongly_cpu_active p" if "?t = 12"
  proof -
    have "current_threads p \<le> 11" using facts(2) that by simp
    then show ?thesis
      using facts(4)[OF that] by (auto simp: strict_twelve_hold_def split: if_splits option.splits)
  qed
  then show ?thesis unfolding d using facts promoted allowed by blast
qed

text \<open>Fewer threads are recommended only to a comfortable worker. A recommendation below the current number of
  threads means that the supply runs at one and a half times real time or more, the runway is comfortable
  and neither starvation nor a stall is reported; it takes away at most two threads and leaves at least two,
  and it is flagged safe to decrease exactly then.\<close>

theorem reduction_is_comfortable:
  assumes "classify_route2_adaptive_shadow p = d"
  shows "(sd_safe_decrease d \<longleftrightarrow> sd_recommended d < sd_current d)
      \<and> (sd_recommended d < sd_current d \<longrightarrow>
         sd_class d = OVER_SUPPLIED \<and> 3 \<le> sd_current d \<and> sd_recommended d = max 2 (sd_current d - 2)
         \<and> 3 / 2 \<le> rate_of p \<and> \<not> si_starvation_risk p \<and> \<not> si_stalled_recovery p
         \<and> comfortable_runway (si_playback_mode p) (required_runway_of p) \<le> runway_of p + 1 / 1000)"
proof (cases rule: classify_cases[of p, case_names held reduced promoted])
  case (held c x r)
  then show ?thesis using assms by auto
next
  case reduced
  then have d: "d = over_supplied_decision p" using assms by simp
  show ?thesis
    using over_supplied_recommends[of p] current_threads_pos[of p] reduced(2)
    unfolding d by (auto simp: over_supplied_def split: if_splits)
next
  case (promoted m)
  then have "d = promotion_decision p" using assms by simp
  then show ?thesis using promotion_allowed_facts(2)[OF promoted(7)] by (simp add: promotion_decision_def Let_def)
qed

text \<open>A worker with the given threads, rate and runway, everything else healthy and idle.\<close>

definition demo_input :: "int \<Rightarrow> real \<Rightarrow> real \<Rightarrow> real \<Rightarrow> shadow_input" where
  "demo_input threads used rate runway =
     \<lparr>si_worker_state = ''running'', si_playback_mode = ''lite'', si_profile = ''mobile_1080p'',
      si_source_kind = ''local'', si_assigned_threads = threads, si_default_threads = 4, si_max_threads = 4,
      si_adaptive_max_threads = Some 12, si_cpu_cores_used = Some used, si_allocated_cores = Some 16,
      si_user_cores_used = Some used, si_upbound_cores = Some 20, si_route2_cores_used = Some used,
      si_active_users = Some 1, si_host_total_cores = Some 24, si_host_used_cores = Some used,
      si_host_used_percent = Some (20 / 100), si_external_cores = Some 0, si_external_percent = Some 0,
      si_external_ffmpeg = Some 0, si_external_ffmpeg_cores = None, si_host_sample_mature = True,
      si_memory_bytes = None, si_total_memory = Some 1000, si_route2_memory = Some 100,
      si_route2_memory_percent = None, si_ready_end = None, si_playhead = None, si_runway = Some runway,
      si_required_runway = None, si_supply_rate = Some rate, si_supply_observation = Some 30,
      si_client_goodput = None, si_client_confident = False, si_server_goodput = None,
      si_server_confident = False, si_non_retryable_error = None, si_starvation_risk = False,
      si_stalled_recovery = False, si_mode_ready = Some True\<rparr>"

lemmas adaptive_locals = current_threads_def required_runway_of_def runway_of_def rate_of_def adequate_sample_def
  low_supply_def supply_healthy_def client_bound_def over_supplied_def default_required_runway_def
  comfortable_runway_def worker_cpu_active_def cpu_active_def thread_pressure_def memory_pressure_def
  has_weak_client_def user_headroom_def global_headroom_def headroom_def has_headroom_def headroom_ceiling_def
  adaptive_ceiling_def capped_by_def

lemma demo_busy:
  "classify_route2_adaptive_shadow (demo_input 4 4 (1 / 2) 10) = promotion_decision (demo_input 4 4 (1 / 2) 10)
   \<and> benchmark_target (demo_input 4 4 (1 / 2) 10) = 6"
proof -
  let ?p = "demo_input 4 4 (1 / 2) 10"
  have target: "benchmark_target ?p = 6"
    by (simp add: benchmark_target_def preferred_target_def current_threads_def demo_input_def)
  have "\<not> looks_like_provider_error (si_non_retryable_error ?p)" "si_worker_state ?p \<notin> {''queued'', ''waiting_for_capacity''}"
    "adequate_sample ?p" "\<not> over_supplied ?p" "\<not> client_bound ?p" "low_supply ?p" "worker_cpu_active ?p"
    "memory_pressure ?p = Some (1 / 10)"
    by (simp_all add: adaptive_locals demo_input_def looks_like_provider_error_def)
  note early = this
  have "external_pressure_hold 6 ?p = None"
    by (simp add: external_pressure_hold_def host_metrics_mature_def as_ratio_def current_threads_def demo_input_def)
  moreover have head: "user_headroom ?p = Some 12" "global_headroom ?p = Some 16" "current_threads ?p = 4"
    by (simp_all add: user_headroom_def global_headroom_def headroom_def current_threads_def demo_input_def)
  moreover have "adaptive_ceiling ?p = 12" by (simp add: adaptive_ceiling_def capped_by_def demo_input_def)
  moreover have "headroom_ceiling ?p = 16" by (simp add: headroom_ceiling_def head)
  ultimately have "promotion_allowed ?p"
    by (simp add: promotion_allowed_def target has_headroom_def)
  with early show ?thesis
    using target by (simp add: classify_route2_adaptive_shadow_def cpu_limited_decision_def)
qed

lemma promotion_is_earned_witness:
  "sd_class (classify_route2_adaptive_shadow (demo_input 4 4 (1 / 2) 10)) = CPU_BOUND
   \<and> sd_recommended (classify_route2_adaptive_shadow (demo_input 4 4 (1 / 2) 10)) = 6"
proof -
  let ?d = "classify_route2_adaptive_shadow (demo_input 4 4 (1 / 2) 10)"
  have "sd_recommended ?d = 6" "sd_current ?d = 4"
    using demo_busy by (simp_all add: promotion_decision_def Let_def) (simp add: demo_input_def current_threads_def)
  then show ?thesis using promotion_is_earned[OF refl, of "demo_input 4 4 (1 / 2) 10"] by simp
qed

lemma reduction_is_comfortable_witness:
  "sd_recommended (classify_route2_adaptive_shadow (demo_input 6 2 2 200)) = 4
   \<and> sd_class (classify_route2_adaptive_shadow (demo_input 6 2 2 200)) = OVER_SUPPLIED"
proof -
  let ?p = "demo_input 6 2 2 200"
  have d: "classify_route2_adaptive_shadow ?p = over_supplied_decision ?p"
    by (simp add: classify_route2_adaptive_shadow_def adaptive_locals demo_input_def looks_like_provider_error_def)
  have c: "current_threads ?p = 6" by (simp add: demo_input_def current_threads_def)
  have "sd_recommended (over_supplied_decision ?p) = 4" "sd_current (over_supplied_decision ?p) = 6"
    using over_supplied_recommends[of ?p] c by simp_all
  then show ?thesis using reduction_is_comfortable[OF refl, of ?p] by (simp add: d)
qed

text \<open>The lower bound of the clamp makes a comfortable worker with one thread grow: the recommendation is two
  threads, with neither flag set.\<close>

lemma one_thread_grows:
  "sd_class (classify_route2_adaptive_shadow (demo_input 1 (1 / 2) 2 200)) = OVER_SUPPLIED
   \<and> sd_recommended (classify_route2_adaptive_shadow (demo_input 1 (1 / 2) 2 200)) = 2
   \<and> \<not> sd_safe_increase (classify_route2_adaptive_shadow (demo_input 1 (1 / 2) 2 200))"
proof -
  let ?p = "demo_input 1 (1 / 2) 2 200"
  have d: "classify_route2_adaptive_shadow ?p = over_supplied_decision ?p"
    by (simp add: classify_route2_adaptive_shadow_def adaptive_locals demo_input_def looks_like_provider_error_def)
  have c: "current_threads ?p = 1" "si_max_threads ?p = 4" by (simp_all add: demo_input_def current_threads_def)
  then show ?thesis using over_supplied_recommends[of ?p] by (simp add: d)
qed

end
