(* ===== verification/Shared_Ranges.thy ===== *)
theory Shared_Ranges
  imports Elvern_Base "HOL-Library.List_Lexorder" "HOL-Library.Product_Lexorder" "HOL-Library.Char_ord"
begin

text \<open>
  The index arithmetic of \<^verbatim>\<open>route2_shared_output_store.py\<close>: which absolute segments of a film the shared output
  store has confirmed, as a list of ranges of segment indices, and where a segment of an epoch goes in it.

  A list of ranges stands for a set of indices (\<open>covered\<close>); merging brings it to the one normal form of that
  set, and the questions asked of it (gaps, the range that covers an index) are answered as on the set.
\<close>

section \<open>Keys and segment times\<close>

definition SHARED_OUTPUT_MAPPING_TOLERANCE_SECONDS :: real where
  "SHARED_OUTPUT_MAPPING_TOLERANCE_SECONDS = 1 / 1000"

definition SHARED_OUTPUT_STORE_METADATA_VERSION :: string where
  "SHARED_OUTPUT_STORE_METADATA_VERSION = ''route2-shared-output-store-v1''"

definition key_char :: "char \<Rightarrow> bool" where
  "key_char c = (c \<in> set ''ABCDEFGHIJKLMNOPQRSTUVWXYZabcdefghijklmnopqrstuvwxyz0123456789._:-'')"

definition validate_shared_output_key :: "string option \<Rightarrow> py_error + string" where
  "validate_shared_output_key v =
     (let key = py_strip (or_string v []) in
      if key = [] \<or> CHR 0x2F \<in> set key \<or> CHR 0x5C \<in> set key \<or> contains ''..'' key
      then Inl (ValueError ''Shared output key must be a safe path component'')
      else if \<not> (list_all key_char key \<and> 8 \<le> length key \<and> length key \<le> 160)
      then Inl (ValueError ''Shared output key contains unsupported characters'')
      else Inr key)"

definition validate_segment_duration :: "real \<Rightarrow> py_error + real" where
  "validate_segment_duration d = (if d \<le> 0 then Inl (ValueError ''Segment duration must be positive'') else Inr d)"

definition absolute_segment_index_from_seconds :: "real \<Rightarrow> real \<Rightarrow> py_error + int" where
  "absolute_segment_index_from_seconds t d =
     and_then (validate_segment_duration d) (\<lambda>d. Inr (max 0 \<lfloor>max 0 t / d\<rfloor>))"

definition absolute_segment_end_index_exclusive_from_seconds :: "real \<Rightarrow> real \<Rightarrow> py_error + int" where
  "absolute_segment_end_index_exclusive_from_seconds t d =
     and_then (validate_segment_duration d) (\<lambda>d. Inr (max 0 \<lceil>max 0 t / d\<rceil>))"

definition absolute_segment_time_range :: "int \<Rightarrow> real \<Rightarrow> py_error + (real \<times> real)" where
  "absolute_segment_time_range index d =
     (if index < 0 then Inl (ValueError ''Segment index must be non-negative'')
      else and_then (validate_segment_duration d)
             (\<lambda>d. Inr (py_round 6 (of_int index * d), py_round 6 (of_int (index + 1) * d))))"

definition shared_segment_filename :: "int \<Rightarrow> py_error + string" where
  "shared_segment_filename index =
     (if index < 0 then Inl (ValueError ''Segment index must be non-negative'')
      else Inr (''abs_'' @ pad_nat 12 (nat index) @ ''.m4s''))"

section \<open>Ranges\<close>

record index_range =
  ir_start :: int
  ir_end :: int
  ir_start_seconds :: real
  ir_end_seconds :: real
  ir_count :: int
  ir_source :: string

text \<open>A range is given as the dataclass, as a mapping (here its two keys, either of which may be missing) or as
  a pair.\<close>

datatype range_value =
    Range_Object index_range
  | Range_Mapping "int option" "int option"
  | Range_Pair int int

definition checked_indexes :: "int \<Rightarrow> int \<Rightarrow> py_error + (int \<times> int)" where
  "checked_indexes s e =
     (if s < 0 \<or> e < 0 then Inl (ValueError ''Range indexes must be non-negative'')
      else if e \<le> s then Inl (ValueError ''Range end must be greater than range start'')
      else Inr (s, e))"

fun coerce_range_indexes :: "range_value \<Rightarrow> py_error + (int \<times> int)" where
  "coerce_range_indexes (Range_Object r) = checked_indexes (ir_start r) (ir_end r)"
| "coerce_range_indexes (Range_Mapping None _) = Inl (KeyError ''start_index'')"
| "coerce_range_indexes (Range_Mapping (Some s) None) = Inl (KeyError ''end_index_exclusive'')"
| "coerce_range_indexes (Range_Mapping (Some s) (Some e)) = checked_indexes s e"
| "coerce_range_indexes (Range_Pair s e) = checked_indexes s e"

fun coerce_ranges :: "range_value list \<Rightarrow> py_error + (int \<times> int) list" where
  "coerce_ranges [] = Inr []"
| "coerce_ranges (v # vs) =
     and_then (coerce_range_indexes v) (\<lambda>p. and_then (coerce_ranges vs) (\<lambda>ps. Inr (p # ps)))"

definition range_payload :: "real \<Rightarrow> string \<Rightarrow> int \<times> int \<Rightarrow> index_range" where
  "range_payload d source p =
     (let (s, e) = p in
      \<lparr>ir_start = s, ir_end = e, ir_start_seconds = py_round 6 (of_int s * d), ir_end_seconds = py_round 6 (of_int e * d),
       ir_count = e - s, ir_source = or_string (Some source) ''future''\<rparr>)"

text \<open>The duration is checked with every range that is built, so an empty result never raises.\<close>

definition range_payloads :: "real \<Rightarrow> string \<Rightarrow> (int \<times> int) list \<Rightarrow> py_error + index_range list" where
  "range_payloads d source ps =
     (if ps = [] then Inr []
      else and_then (validate_segment_duration d) (\<lambda>d. Inr (map (range_payload d source) ps)))"

fun merge_sorted :: "int \<Rightarrow> int \<Rightarrow> (int \<times> int) list \<Rightarrow> (int \<times> int) list" where
  "merge_sorted cs ce [] = [(cs, ce)]"
| "merge_sorted cs ce ((s, e) # ps) =
     (if s \<le> ce then merge_sorted cs (max ce e) ps else (cs, ce) # merge_sorted s e ps)"

definition merge_pairs :: "(int \<times> int) list \<Rightarrow> (int \<times> int) list" where
  "merge_pairs ps = (case sort ps of [] \<Rightarrow> [] | (s, e) # rest \<Rightarrow> merge_sorted s e rest)"

definition merge_contiguous_ranges :: "range_value list \<Rightarrow> real \<Rightarrow> string \<Rightarrow> py_error + index_range list" where
  "merge_contiguous_ranges ranges d source =
     and_then (coerce_ranges ranges) (\<lambda>ps. range_payloads d source (merge_pairs ps))"

fun first_covering :: "int \<Rightarrow> index_range list \<Rightarrow> index_range option" where
  "first_covering i [] = None"
| "first_covering i (r # rs) = (if ir_start r \<le> i \<and> i < ir_end r then Some r else first_covering i rs)"

definition find_contiguous_range_covering :: "range_value list \<Rightarrow> int \<Rightarrow> real \<Rightarrow> py_error + index_range option" where
  "find_contiguous_range_covering ranges target d =
     (if target < 0 then Inl (ValueError ''Segment index must be non-negative'')
      else and_then (merge_contiguous_ranges ranges d ''future'') (\<lambda>rs. Inr (first_covering target rs)))"

fun gap_loop :: "int \<Rightarrow> int \<Rightarrow> (int \<times> int) list \<Rightarrow> (int \<times> int) list" where
  "gap_loop cursor request_end [] = (if cursor < request_end then [(cursor, request_end)] else [])"
| "gap_loop cursor request_end ((s, e) # ps) =
     (if e \<le> cursor then gap_loop cursor request_end ps
      else if s \<ge> request_end then (if cursor < request_end then [(cursor, request_end)] else [])
      else (if s > cursor then [(cursor, min s request_end)] else [])
           @ (let next = max cursor (min e request_end)
              in if next \<ge> request_end then [] else gap_loop next request_end ps))"

definition range_pair :: "index_range \<Rightarrow> int \<times> int" where
  "range_pair r = (ir_start r, ir_end r)"

definition find_gaps_for_requested_range ::
  "range_value list \<Rightarrow> int \<Rightarrow> int \<Rightarrow> real \<Rightarrow> py_error + index_range list" where
  "find_gaps_for_requested_range ranges s e d =
     (if s < 0 \<or> e < 0 \<or> e < s then Inl (ValueError ''Requested range indexes are invalid'')
      else if e = s then Inr []
      else and_then (merge_contiguous_ranges ranges d ''future'')
             (\<lambda>rs. range_payloads d ''gap'' (gap_loop s e (map range_pair rs))))"

section \<open>The metadata of confirmed ranges\<close>

record ranges_metadata =
  rm_version :: string
  rm_key :: string
  rm_duration :: real
  rm_ranges :: "index_range list"
  rm_sparse :: "int list"
  rm_updated :: string

definition sorted_ints :: "int list \<Rightarrow> int list" where
  "sorted_ints xs = sort (remdups xs)"

definition build_ranges_metadata ::
  "string option \<Rightarrow> real \<Rightarrow> range_value list \<Rightarrow> int list \<Rightarrow> string \<Rightarrow> py_error + ranges_metadata" where
  "build_ranges_metadata key d confirmed sparse stamp =
     and_then (validate_shared_output_key key) (\<lambda>key.
     and_then (validate_segment_duration d) (\<lambda>d.
     and_then (merge_contiguous_ranges confirmed d ''future'') (\<lambda>rs.
       Inr \<lparr>rm_version = SHARED_OUTPUT_STORE_METADATA_VERSION, rm_key = key, rm_duration = d, rm_ranges = rs,
            rm_sparse = sorted_ints (map (max 0) sparse), rm_updated = stamp\<rparr>)))"

definition add_confirmed_range ::
  "ranges_metadata \<Rightarrow> int \<Rightarrow> int \<Rightarrow> real option \<Rightarrow> string \<Rightarrow> string \<Rightarrow> py_error + ranges_metadata" where
  "add_confirmed_range m s e duration source stamp =
     and_then (validate_shared_output_key (Some (rm_key m))) (\<lambda>key.
     and_then (validate_segment_duration (case duration of Some d \<Rightarrow> d | None \<Rightarrow> rm_duration m)) (\<lambda>d.
     and_then (merge_contiguous_ranges (map Range_Object (rm_ranges m) @ [Range_Pair s e]) d source) (\<lambda>rs.
       Inr \<lparr>rm_version = or_string (Some (rm_version m)) SHARED_OUTPUT_STORE_METADATA_VERSION, rm_key = key,
            rm_duration = d, rm_ranges = rs, rm_sparse = sorted_ints (map (max 0) (rm_sparse m)),
            rm_updated = stamp\<rparr>)))"

section \<open>Ranges as sets of indices\<close>

definition covered :: "(int \<times> int) list \<Rightarrow> int set" where
  "covered ps = (\<Union>p \<in> set ps. {fst p..<snd p})"

text \<open>The normal form: nonempty ranges in order, with a gap between neighbours.\<close>

fun normal_ranges :: "(int \<times> int) list \<Rightarrow> bool" where
  "normal_ranges [] = True"
| "normal_ranges [p] = (fst p < snd p)"
| "normal_ranges (p # q # ps) = (fst p < snd p \<and> snd p < fst q \<and> normal_ranges (q # ps))"

lemma covered_simps [simp]:
  "covered [] = {}" "covered ((s, e) # ps) = {s..<e} \<union> covered ps" "covered (ps @ qs) = covered ps \<union> covered qs"
  by (auto simp: covered_def)

lemma covered_set_eq: "set ps = set qs \<Longrightarrow> covered ps = covered qs"
  by (simp add: covered_def)

lemma normal_tail: "normal_ranges (p # ps) \<Longrightarrow> normal_ranges ps"
  by (cases ps) auto

lemma normal_nonempty: "normal_ranges (p # ps) \<Longrightarrow> fst p < snd p"
  by (cases ps) auto

lemma normal_above:
  "normal_ranges ((s, e) # ps) \<Longrightarrow> x \<in> covered ps \<Longrightarrow> e < x"
proof (induction ps arbitrary: s e)
  case (Cons q ps)
  obtain s' e' where q: "q = (s', e')" by (cases q)
  show ?case using Cons.prems Cons.IH[of s' e'] normal_nonempty[of "(s', e')" ps] by (auto simp: q)
qed simp

lemma normal_ConsI:
  "s < e \<Longrightarrow> normal_ranges ps \<Longrightarrow> (\<And>q qs. ps = q # qs \<Longrightarrow> e < fst q) \<Longrightarrow> normal_ranges ((s, e) # ps)"
  by (cases ps) auto

text \<open>A set has at most one normal form.\<close>

lemma normal_head_covered:
  assumes "normal_ranges ((s, e) # ps)"
  shows "s \<in> covered ((s, e) # ps)" "e \<notin> covered ((s, e) # ps)" "x \<in> covered ((s, e) # ps) \<Longrightarrow> s \<le> x"
    "covered ps = covered ((s, e) # ps) - {s..<e}"
  using assms normal_above[OF assms] normal_nonempty[OF assms] by force+

lemma normal_unique: "normal_ranges ps \<Longrightarrow> normal_ranges qs \<Longrightarrow> covered ps = covered qs \<Longrightarrow> ps = qs"
proof (induction ps arbitrary: qs)
  case Nil
  then show ?case using normal_head_covered(1) by (cases qs) (auto, fastforce)
next
  case (Cons p ps)
  obtain s e where p: "p = (s, e)" by (cases p)
  note P = normal_head_covered[OF Cons.prems(1)[unfolded p]]
  obtain q qs' where qs: "qs = q # qs'" using Cons.prems(3) P(1) by (cases qs) (auto simp: p)
  obtain s' e' where q: "q = (s', e')" by (cases q)
  note Q = normal_head_covered[OF Cons.prems(2)[unfolded qs q]]
  have eq: "covered ((s, e) # ps) = covered ((s', e') # qs')" using Cons.prems(3) by (simp add: p qs q)
  have s: "s = s'" using P(1,3) Q(1,3) eq by (metis order_antisym)
  have lt: "s < e" "s' < e'" using normal_nonempty Cons.prems(1,2) by (force simp: p qs q)+
  have "e \<in> covered ((s', e') # qs')" if "e < e'" using that lt s by simp
  moreover have "e' \<in> covered ((s, e) # ps)" if "e' < e" using that lt s by simp
  ultimately have e: "e = e'" using P(2) Q(2) unfolding eq by (meson linorder_neqE)
  have "covered ps = covered ((s, e) # ps) - {s..<e}" by (rule P(4))
  also have "\<dots> = covered ((s', e') # qs') - {s'..<e'}" by (subst eq) (simp only: s e)
  also have "\<dots> = covered qs'" by (rule Q(4)[symmetric])
  finally have "ps = qs'" by (rule Cons.IH[OF normal_tail[OF Cons.prems(1)] normal_tail[OF Cons.prems(2)[unfolded qs]]])
  then show ?case by (simp only: p q qs s e)
qed

text \<open>The loop over the sorted ranges.\<close>

lemma merge_sorted_head: "merge_sorted cs ce ps = r # rs \<Longrightarrow> fst r = cs"
  by (induction cs ce ps rule: merge_sorted.induct) (auto split: if_splits)

lemma merge_sorted_correct:
  "cs < ce \<Longrightarrow> \<forall>(s, e) \<in> set ps. cs \<le> s \<and> s < e \<Longrightarrow> sorted (map fst ps)
   \<Longrightarrow> covered (merge_sorted cs ce ps) = {cs..<ce} \<union> covered ps \<and> normal_ranges (merge_sorted cs ce ps)"
proof (induction cs ce ps rule: merge_sorted.induct)
  case (2 cs ce s e ps)
  show ?case
  proof (cases "s \<le> ce")
    case True
    have "{cs..<max ce e} = {cs..<ce} \<union> {s..<e}" using True 2(3,4) by auto
    then show ?thesis using 2(1)[OF True] 2(3-5) True by (auto simp: max.strict_coboundedI1)
  next
    case False
    have rest: "covered (merge_sorted s e ps) = {s..<e} \<union> covered ps \<and> normal_ranges (merge_sorted s e ps)"
      by (rule 2(2)[OF False]) (use 2(4,5) in auto)
    have "normal_ranges ((cs, ce) # merge_sorted s e ps)"
      by (rule normal_ConsI) (use 2(3) rest False merge_sorted_head in force)+
    then show ?thesis using rest False by auto
  qed
qed simp

lemma sorted_map_fst: "sorted (ps :: (int \<times> int) list) \<Longrightarrow> sorted (map fst ps)"
  by (induction ps) (auto simp: less_eq_prod_def)

lemma merge_pairs_correct:
  assumes "\<forall>(s, e) \<in> set ps. s < e"
  shows "covered (merge_pairs ps) = covered ps \<and> normal_ranges (merge_pairs ps)"
proof (cases "sort ps")
  case Nil
  moreover from this have "ps = []" by (metis length_0_conv length_sort)
  ultimately show ?thesis by (simp add: merge_pairs_def)
next
  case (Cons p rest)
  obtain s e where p: "p = (s, e)" by (cases p)
  have "set (p # rest) = set ps" by (metis Cons set_sort)
  moreover have "sorted (map fst (p # rest))" using sorted_map_fst[OF sorted_sort[of ps]] Cons by simp
  ultimately have "covered (merge_sorted s e rest) = {s..<e} \<union> covered rest \<and> normal_ranges (merge_sorted s e rest)"
    using assms by (intro merge_sorted_correct) (auto simp: p)
  moreover have "covered ps = {s..<e} \<union> covered rest"
    using covered_set_eq[OF \<open>set (p # rest) = set ps\<close>[symmetric]] by (simp add: p)
  ultimately show ?thesis by (simp add: merge_pairs_def Cons p)
qed

text \<open>The loop over the gaps.\<close>

lemma gap_loop_head: "gap_loop c re ps = g # gs \<Longrightarrow> c \<le> fst g"
  by (induction c re ps rule: gap_loop.induct) (auto simp: Let_def split: if_splits, fastforce)

lemma gap_loop_correct:
  "c < re \<Longrightarrow> normal_ranges ps
   \<Longrightarrow> covered (gap_loop c re ps) = {c..<re} - covered ps \<and> normal_ranges (gap_loop c re ps)"
proof (induction c re ps rule: gap_loop.induct)
  case (2 c re s e ps)
  note tail = normal_tail[OF 2(4)] and above = normal_above[OF 2(4)]
  have se: "s < e" using normal_nonempty[OF 2(4)] by simp
  consider "e \<le> c" | "c < e" "re \<le> s" | "c < e" "s < re" "re \<le> e" | "c < e" "s < re" "e < re" by linarith
  then show ?case
  proof cases
    case 1
    then show ?thesis using 2(1)[OF 1 2(3) tail] by auto
  next
    case 2
    then show ?thesis using \<open>c < re\<close> se above by (auto, fastforce)
  next
    case 3
    then have "{c..<re} - covered ((s, e) # ps) = {c..<s}" using above se by fastforce
    then show ?thesis using 3 by auto
  next
    case 4
    then have rest: "covered (gap_loop e re ps) = {e..<re} - covered ps \<and> normal_ranges (gap_loop e re ps)"
      using 2(2)[of e] tail by simp
    have "normal_ranges ((c, s) # gap_loop e re ps)" if "c < s"
      by (rule normal_ConsI) (use that rest se gap_loop_head in force)+
    moreover have "gap_loop c re ((s, e) # ps) = (if c < s then [(c, s)] else []) @ gap_loop e re ps"
      using 4 by simp
    moreover have "{c..<re} - covered ((s, e) # ps) = {c..<s} \<union> ({e..<re} - covered ps)" using 4 se above by fastforce
    ultimately show ?thesis using rest by auto
  qed
qed auto

section \<open>An index of ranges\<close>

text \<open>What a writer of segments relies on: it asks for the gaps of the part it wants and confirms each as it
  writes it. Once it is through, nothing of that part is missing, and nothing else was confirmed.\<close>

locale range_store =
  fixes cov :: "'r \<Rightarrow> int set"
    and ok :: "'r \<Rightarrow> bool"
    and confirm :: "'r \<Rightarrow> int \<times> int \<Rightarrow> 'r"
    and gaps :: "'r \<Rightarrow> int \<Rightarrow> int \<Rightarrow> (int \<times> int) list"
  assumes cov_confirm: "ok r \<Longrightarrow> fst p < snd p \<Longrightarrow> cov (confirm r p) = cov r \<union> {fst p..<snd p}"
    and ok_confirm: "ok r \<Longrightarrow> fst p < snd p \<Longrightarrow> ok (confirm r p)"
    and cov_gaps: "ok r \<Longrightarrow> s < e \<Longrightarrow> covered (gaps r s e) = {s..<e} - cov r"
    and gaps_pos: "ok r \<Longrightarrow> s < e \<Longrightarrow> p \<in> set (gaps r s e) \<Longrightarrow> fst p < snd p"
begin

lemma confirm_all:
  "ok r \<Longrightarrow> \<forall>p \<in> set ps. fst p < snd p \<Longrightarrow> cov (foldl confirm r ps) = cov r \<union> covered ps \<and> ok (foldl confirm r ps)"
proof (induction ps arbitrary: r)
  case (Cons p ps)
  then show ?case using cov_confirm ok_confirm by (cases p) auto
qed simp

lemma filled:
  assumes "ok r" and "s < e"
  shows "cov (foldl confirm r (gaps r s e)) = cov r \<union> {s..<e}"
  using confirm_all[OF assms(1), of "gaps r s e"] gaps_pos[OF assms] cov_gaps[OF assms] by auto

lemma no_gap_left:
  assumes "ok r" and "s < e"
  shows "gaps (foldl confirm r (gaps r s e)) s e = []"
proof -
  let ?r = "foldl confirm r (gaps r s e)"
  have r: "ok ?r" using confirm_all[OF assms(1), of "gaps r s e"] gaps_pos[OF assms] by blast
  have "covered (gaps ?r s e) = {}" using cov_gaps[OF r assms(2)] filled[OF assms] by auto
  then show ?thesis using gaps_pos[OF r assms(2)] by (cases "gaps ?r s e") (auto simp: covered_def)
qed

end

lemma normal_pos: "normal_ranges ps \<Longrightarrow> p \<in> set ps \<Longrightarrow> fst p < snd p"
proof (induction ps)
  case (Cons q ps)
  then show ?case using normal_nonempty[of q ps] normal_tail[of q ps] by auto
qed simp

lemma normal_start: "normal_ranges ps \<Longrightarrow> p \<in> set ps \<Longrightarrow> fst p \<in> covered ps"
  using normal_pos[of ps p] by (auto simp: covered_def intro!: bexI[of _ p])

lemma merge_normal_add:
  assumes "normal_ranges ps" and "s < e"
  shows "covered (merge_pairs (ps @ [(s, e)])) = covered ps \<union> {s..<e} \<and> normal_ranges (merge_pairs (ps @ [(s, e)]))"
  using merge_pairs_correct[of "ps @ [(s, e)]"] normal_pos[OF assms(1)] assms(2) by fastforce

interpretation confirmed_ranges: range_store covered normal_ranges "\<lambda>ps p. merge_pairs (ps @ [p])"
    "\<lambda>ps s e. gap_loop s e ps"
proof unfold_locales
  show "covered (merge_pairs (r @ [p])) = covered r \<union> {fst p..<snd p}" "normal_ranges (merge_pairs (r @ [p]))"
    if "normal_ranges r" "fst p < snd p" for r p
    using merge_normal_add[OF that(1), of "fst p" "snd p"] that(2) by simp_all
  show "covered (gap_loop s e r) = {s..<e} - covered r" if "normal_ranges r" "s < e" for r s e
    using gap_loop_correct[OF that(2,1)] by simp
  show "fst p < snd p" if "normal_ranges r" "s < e" "p \<in> set (gap_loop s e r)" for r s e p
    using gap_loop_correct[OF that(2,1)] normal_pos that(3) by blast
qed

section \<open>The operations on ranges as values\<close>

lemma range_pair_payload [simp]: "range_pair (range_payload d source p) = p"
  by (cases p) (simp add: range_pair_def range_payload_def)

lemma range_payloads_Inr:
  "range_payloads d source ps = Inr rs \<longleftrightarrow> (ps = [] \<or> 0 < d) \<and> rs = map (range_payload d source) ps"
  by (auto simp: range_payloads_def validate_segment_duration_def)

lemma coerce_pos: "coerce_range_indexes v = Inr (s, e) \<Longrightarrow> 0 \<le> s \<and> s < e"
  by (cases v rule: coerce_range_indexes.cases) (auto simp: checked_indexes_def split: if_splits)

lemma coerce_ranges_pos: "coerce_ranges vs = Inr ps \<Longrightarrow> \<forall>(s, e) \<in> set ps. 0 \<le> s \<and> s < e"
  by (induction vs arbitrary: ps) (auto simp: and_then_Inr_iff dest: coerce_pos)

lemma coerce_ranges_objects:
  "\<forall>r \<in> set rs. 0 \<le> ir_start r \<and> ir_start r < ir_end r \<Longrightarrow> coerce_ranges (map Range_Object rs) = Inr (map range_pair rs)"
  by (induction rs) (auto simp: checked_indexes_def range_pair_def)

lemma coerce_ranges_append:
  "coerce_ranges (vs @ ws) = and_then (coerce_ranges vs) (\<lambda>ps. and_then (coerce_ranges ws) (\<lambda>qs. Inr (ps @ qs)))"
proof (induction vs)
  case Nil
  then show ?case by (cases "coerce_ranges ws") auto
next
  case (Cons v vs)
  then show ?case by (cases "coerce_range_indexes v"; cases "coerce_ranges vs"; cases "coerce_ranges ws") auto
qed

lemma merge_ranges_facts:
  assumes "merge_contiguous_ranges rs d source = Inr out"
  obtains ps where "coerce_ranges rs = Inr ps" and "out = map (range_payload d source) (merge_pairs ps)"
    and "map range_pair out = merge_pairs ps" and "merge_pairs ps = [] \<or> 0 < d"
    and "covered (merge_pairs ps) = covered ps" and "normal_ranges (merge_pairs ps)"
proof -
  obtain ps where ps: "coerce_ranges rs = Inr ps" "range_payloads d source (merge_pairs ps) = Inr out"
    using assms by (auto simp: merge_contiguous_ranges_def and_then_Inr_iff)
  have "\<forall>(s, e) \<in> set ps. s < e" using coerce_ranges_pos[OF ps(1)] by auto
  from merge_pairs_correct[OF this] show thesis
    using that[OF ps(1)] ps(2) by (simp add: range_payloads_Inr o_def)
qed

text \<open>Merging is canonical. The merged list covers exactly the segments its inputs cover, in strictly separated
  nonempty ranges whose times and counts belong to their indices; and it depends on nothing else: any other
  list of ranges that covers the same segments, in any order, with any overlaps and in any of the three
  forms, merges to the very same list.\<close>

theorem merge_canonical:
  assumes "merge_contiguous_ranges rs d source = Inr out" and "coerce_ranges rs = Inr ps"
  shows "covered (map range_pair out) = covered ps \<and> normal_ranges (map range_pair out)
     \<and> (\<forall>r \<in> set out. r = range_payload d source (range_pair r))
     \<and> (\<forall>rs' ps'. coerce_ranges rs' = Inr ps' \<and> covered ps' = covered ps
          \<longrightarrow> merge_contiguous_ranges rs' d source = Inr out)"
proof -
  obtain out_eq: "out = map (range_payload d source) (merge_pairs ps)" and pairs: "map range_pair out = merge_pairs ps"
    and d: "merge_pairs ps = [] \<or> 0 < d" and cov: "covered (merge_pairs ps) = covered ps"
    and nf: "normal_ranges (merge_pairs ps)"
    using merge_ranges_facts[OF assms(1)] assms(2) by (metis sum.inject(2))
  have "merge_contiguous_ranges rs' d source = Inr out"
    if other: "coerce_ranges rs' = Inr ps'" "covered ps' = covered ps" for rs' ps'
  proof -
    have "\<forall>(s, e) \<in> set ps'. s < e" using coerce_ranges_pos[OF other(1)] by auto
    note m = merge_pairs_correct[OF this]
    have "merge_pairs ps' = merge_pairs ps" by (rule normal_unique) (use m nf cov other(2) in auto)
    then show ?thesis using other(1) d out_eq by (simp add: merge_contiguous_ranges_def range_payloads_Inr)
  qed
  then show ?thesis using pairs cov nf by (auto simp: out_eq)
qed

lemma merge_canonical_witness:
  "merge_contiguous_ranges [Range_Pair 4 6, Range_Mapping (Some 0) (Some 2), Range_Pair 2 3] 2 ''x''
     = merge_contiguous_ranges [Range_Pair 0 1, Range_Pair 1 3, Range_Pair 4 5, Range_Pair 5 6] 2 ''x''"
proof -
  obtain out where out: "merge_contiguous_ranges [Range_Pair 4 6, Range_Mapping (Some 0) (Some 2), Range_Pair 2 3] 2 ''x'' = Inr out"
    by (cases "merge_contiguous_ranges [Range_Pair 4 6, Range_Mapping (Some 0) (Some 2), Range_Pair 2 3] 2 ''x''")
      (auto simp: merge_contiguous_ranges_def checked_indexes_def range_payloads_def validate_segment_duration_def
        split: if_splits)
  have a: "coerce_ranges [Range_Pair 4 6, Range_Mapping (Some 0) (Some 2), Range_Pair 2 3] = Inr [(4, 6), (0, 2), (2, 3)]"
    and b: "coerce_ranges [Range_Pair 0 1, Range_Pair 1 3, Range_Pair 4 5, Range_Pair 5 6] = Inr [(0, 1), (1, 3), (4, 5), (5, 6)]"
    by (simp_all add: checked_indexes_def)
  have "covered [(0, 1), (1, 3), (4, 5), (5, 6)] = covered [(4, 6), (0, 2), (2, 3)]" by auto
  then show ?thesis using merge_canonical[OF out a] b out by auto
qed

section \<open>The confirmed segments of a store\<close>

definition confirmed :: "ranges_metadata \<Rightarrow> int set" where
  "confirmed m = covered (map range_pair (rm_ranges m))"

definition metadata_wf :: "ranges_metadata \<Rightarrow> bool" where
  "metadata_wf m =
     (validate_shared_output_key (Some (rm_key m)) = Inr (rm_key m) \<and> 0 < rm_duration m
      \<and> normal_ranges (map range_pair (rm_ranges m)) \<and> (\<forall>r \<in> set (rm_ranges m). 0 \<le> ir_start r))"

lemma key_char_no_space: "key_char c \<Longrightarrow> \<not> is_py_space c"
  unfolding key_char_def is_py_space_def char_code_def by auto

lemma validate_key_idem:
  assumes "validate_shared_output_key v = Inr key"
  shows "validate_shared_output_key (Some key) = Inr key"
proof -
  have key: "key \<noteq> []" "list_all key_char key" "CHR 0x2F \<notin> set key" "CHR 0x5C \<notin> set key" "\<not> contains ''..'' key"
    "8 \<le> length key" "length key \<le> 160"
    using assms by (auto simp: validate_shared_output_key_def Let_def split: if_splits)
  then have no: "\<forall>c \<in> set key. \<not> is_py_space c" using key_char_no_space by (auto simp: list_all_iff)
  have keep: "dropWhile is_py_space t = t" if "set t \<subseteq> set key" for t
    using that no by (cases t) auto
  then have "py_strip key = key" by (simp add: py_strip_def)
  moreover have "or_string (Some key) [] = key" using key(1) by (simp add: or_string_def)
  ultimately show ?thesis using key by (simp add: validate_shared_output_key_def Let_def)
qed

lemma metadata_objects:
  assumes "metadata_wf m"
  shows "coerce_ranges (map Range_Object (rm_ranges m)) = Inr (map range_pair (rm_ranges m))"
proof (rule coerce_ranges_objects, rule ballI)
  fix r assume "r \<in> set (rm_ranges m)"
  then have "fst (range_pair r) < snd (range_pair r)" "0 \<le> ir_start r"
    using assms normal_pos by (auto simp: metadata_wf_def)
  then show "0 \<le> ir_start r \<and> ir_start r < ir_end r" by (simp add: range_pair_def)
qed

lemma normal_merge_same: "normal_ranges ps \<Longrightarrow> merge_pairs ps = ps"
  using merge_pairs_correct[of ps] normal_pos normal_unique by fastforce

lemma metadata_merge:
  assumes "metadata_wf m" and "0 < d"
  shows "merge_contiguous_ranges (map Range_Object (rm_ranges m)) d source
     = Inr (map (range_payload d source) (map range_pair (rm_ranges m)))"
  using assms metadata_objects[OF assms(1)]
  by (simp add: merge_contiguous_ranges_def range_payloads_Inr normal_merge_same metadata_wf_def)

lemma add_confirmed:
  assumes "metadata_wf m" and "0 \<le> s" and "s < e"
  shows "\<exists>m'. add_confirmed_range m s e None source stamp = Inr m' \<and> metadata_wf m'
     \<and> confirmed m' = confirmed m \<union> {s..<e} \<and> rm_key m' = rm_key m \<and> rm_duration m' = rm_duration m"
proof -
  let ?ps = "map range_pair (rm_ranges m) @ [(s, e)]"
  have ps: "coerce_ranges (map Range_Object (rm_ranges m) @ [Range_Pair s e]) = Inr ?ps"
    using metadata_objects[OF assms(1)] assms(2,3) by (simp add: coerce_ranges_append checked_indexes_def)
  have nf: "normal_ranges (map range_pair (rm_ranges m))" and d: "0 < rm_duration m"
    using assms(1) by (auto simp: metadata_wf_def)
  note m = merge_normal_add[OF nf assms(3)]
  let ?out = "map (range_payload (rm_duration m) source) (merge_pairs ?ps)"
  have merge: "merge_contiguous_ranges (map Range_Object (rm_ranges m) @ [Range_Pair s e]) (rm_duration m) source = Inr ?out"
    using d by (simp add: merge_contiguous_ranges_def ps range_payloads_Inr)
  have pairs: "map range_pair ?out = merge_pairs ?ps" by (simp add: o_def)
  have start: "0 \<le> ir_start r" if r: "r \<in> set ?out" for r
  proof -
    obtain p where p: "p \<in> set (merge_pairs ?ps)" "r = range_payload (rm_duration m) source p"
      using r unfolding set_map[of "range_payload (rm_duration m) source" "merge_pairs ?ps"] by blast
    have "fst p \<in> covered (merge_pairs ?ps)" by (rule normal_start[OF conjunct2[OF m] p(1)])
    then have "fst p \<in> confirmed m \<union> {s..<e}" using m by (simp add: confirmed_def)
    moreover have "0 \<le> x" if "x \<in> confirmed m" for x
      using that assms(1) by (auto simp: confirmed_def covered_def metadata_wf_def range_pair_def)
    ultimately show ?thesis using p(2) assms(2) by (cases p) (auto simp: range_payload_def)
  qed
  obtain m' where m': "add_confirmed_range m s e None source stamp = Inr m'" "rm_ranges m' = ?out"
    "rm_key m' = rm_key m" "rm_duration m' = rm_duration m"
    using assms(1) d merge by (simp add: add_confirmed_range_def metadata_wf_def validate_segment_duration_def)
  have "metadata_wf m'"
    using assms(1) d m start by (simp only: metadata_wf_def m'(2-4) pairs) simp
  then show ?thesis using m'(1,3,4) m by (simp add: confirmed_def m'(2) o_def)
qed

lemma first_covering_spec:
  "normal_ranges (map range_pair rs) \<Longrightarrow>
     (first_covering i rs = None \<longleftrightarrow> i \<notin> covered (map range_pair rs))
     \<and> (\<forall>r. first_covering i rs = Some r \<longrightarrow> r \<in> set rs \<and> i \<in> {ir_start r..<ir_end r}
          \<and> ir_end r \<notin> covered (map range_pair rs))"
proof (induction rs)
  case (Cons r rs)
  have nf: "normal_ranges ((ir_start r, ir_end r) # map range_pair rs)" using Cons.prems unfolding list.map(2) range_pair_def[of r] .
  note h = normal_head_covered(2)[OF nf] and above = normal_above[OF nf] and IH = Cons.IH[OF normal_tail[OF nf]]
  show ?case
  proof (cases "ir_start r \<le> i \<and> i < ir_end r")
    case True
    then show ?thesis using h by (simp add: range_pair_def[of r])
  next
    case False
    have "ir_end x \<noteq> y" if "first_covering i rs = Some x" "y \<in> {ir_start r..<ir_end r}" for x y
    proof -
      have "x \<in> set rs" and i: "i \<in> {ir_start x..<ir_end x}" using IH that(1) by blast+
      then have "i \<in> covered (map range_pair rs)" by (force simp: covered_def range_pair_def)
      then show ?thesis using above that(2) i by fastforce
    qed
    then show ?thesis using IH False by (auto simp: range_pair_def[of r])
  qed
qed simp

lemma normal_left_gap: "normal_ranges ps \<Longrightarrow> p \<in> set ps \<Longrightarrow> fst p - 1 \<notin> covered ps"
proof (induction ps)
  case (Cons q ps)
  obtain s e where q: "q = (s, e)" by (cases q)
  note nf = Cons.prems(1)[unfolded q]
  have "s < e" using normal_nonempty[OF nf] by simp
  show ?case
  proof (cases "p = q")
    case True
    then show ?thesis using normal_above[OF nf, of "s - 1"] \<open>s < e\<close> by (auto simp: q)
  next
    case False
    then have p: "p \<in> set ps" using Cons.prems(2) by simp
    have "fst p \<in> covered ps" by (rule normal_start[OF normal_tail[OF nf] p])
    then show ?thesis using normal_above[OF nf, of "fst p"] Cons.IH[OF normal_tail[OF nf] p] by (auto simp: q)
  qed
qed simp

lemma find_covering:
  assumes "metadata_wf m" and "0 \<le> i"
  shows "\<exists>found. find_contiguous_range_covering (map Range_Object (rm_ranges m)) i (rm_duration m) = Inr found
     \<and> (found = None \<longleftrightarrow> i \<notin> confirmed m)
     \<and> (\<forall>r. found = Some r \<longrightarrow> i \<in> {ir_start r..<ir_end r} \<and> {ir_start r..<ir_end r} \<subseteq> confirmed m
          \<and> ir_start r - 1 \<notin> confirmed m \<and> ir_end r \<notin> confirmed m)"
proof -
  have d: "0 < rm_duration m" and nf: "normal_ranges (map range_pair (rm_ranges m))"
    using assms(1) by (auto simp: metadata_wf_def)
  let ?rs = "map (range_payload (rm_duration m) ''future'') (map range_pair (rm_ranges m))"
  have pairs: "map range_pair ?rs = map range_pair (rm_ranges m)" by simp
  have found: "find_contiguous_range_covering (map Range_Object (rm_ranges m)) i (rm_duration m) = Inr (first_covering i ?rs)"
    using assms(2) metadata_merge[OF assms(1) d] by (simp add: find_contiguous_range_covering_def)
  note fc = first_covering_spec[of ?rs i, unfolded pairs, OF nf, folded confirmed_def]
  have "{ir_start r..<ir_end r} \<subseteq> confirmed m \<and> ir_start r - 1 \<notin> confirmed m" if "first_covering i ?rs = Some r" for r
  proof -
    have "r \<in> set ?rs" using fc that by blast
    then have "range_pair r \<in> set (map range_pair ?rs)" unfolding set_map[of range_pair ?rs] by (rule imageI)
    then have mem: "(ir_start r, ir_end r) \<in> set (map range_pair (rm_ranges m))" by (simp only: pairs range_pair_def)
    from normal_left_gap[OF nf mem] show ?thesis
      using mem by (auto simp: confirmed_def covered_def simp del: set_map intro!: bexI[of _ "(ir_start r, ir_end r)"])
  qed
  then show ?thesis using found fc by (intro exI[of _ "first_covering i ?rs"] conjI allI impI) simp_all
qed

lemma request_gaps:
  assumes "metadata_wf m" and "0 \<le> a" and "a \<le> b"
  shows "\<exists>gs. find_gaps_for_requested_range (map Range_Object (rm_ranges m)) a b (rm_duration m) = Inr gs
     \<and> covered (map range_pair gs) = {a..<b} - confirmed m \<and> normal_ranges (map range_pair gs)"
proof (cases "a = b")
  case True
  then show ?thesis using assms(2) by (simp add: find_gaps_for_requested_range_def)
next
  case False
  have d: "0 < rm_duration m" and nf: "normal_ranges (map range_pair (rm_ranges m))"
    using assms(1) by (auto simp: metadata_wf_def)
  let ?gs = "gap_loop a b (map range_pair (rm_ranges m))"
  have "find_gaps_for_requested_range (map Range_Object (rm_ranges m)) a b (rm_duration m)
      = Inr (map (range_payload (rm_duration m) ''gap'') ?gs)"
    using False assms(2,3) d metadata_merge[OF assms(1) d]
    by (simp add: find_gaps_for_requested_range_def range_payloads_Inr o_def)
  then show ?thesis using gap_loop_correct[OF _ nf, of a b] False assms(3) by (simp add: o_def confirmed_def)
qed

text \<open>C39: The store of confirmed ranges refines a set of segments. On well-formed metadata, confirming a nonempty
  range of indices never raises and adds exactly those indices to the set, leaving the metadata well formed;
  asking for the gaps of a request gives exactly the indices of the request that are not in the set, as
  separated ranges; and asking for the range that covers an index finds one exactly when the index is in the
  set, and then the whole stretch around it.\<close>

theorem confirmed_ranges_refine_set:
  assumes "metadata_wf m"
  shows "(0 \<le> s \<and> s < e \<longrightarrow> (\<exists>m'. add_confirmed_range m s e None source stamp = Inr m' \<and> metadata_wf m'
            \<and> confirmed m' = confirmed m \<union> {s..<e}))
     \<and> (0 \<le> a \<and> a \<le> b \<longrightarrow>
         (\<exists>gs. find_gaps_for_requested_range (map Range_Object (rm_ranges m)) a b (rm_duration m) = Inr gs
            \<and> covered (map range_pair gs) = {a..<b} - confirmed m \<and> normal_ranges (map range_pair gs)))
     \<and> (0 \<le> i \<longrightarrow>
         (\<exists>found. find_contiguous_range_covering (map Range_Object (rm_ranges m)) i (rm_duration m) = Inr found
            \<and> (found = None \<longleftrightarrow> i \<notin> confirmed m)
            \<and> (\<forall>r. found = Some r \<longrightarrow> i \<in> {ir_start r..<ir_end r} \<and> {ir_start r..<ir_end r} \<subseteq> confirmed m
                 \<and> ir_start r - 1 \<notin> confirmed m \<and> ir_end r \<notin> confirmed m)))"
  using add_confirmed[OF assms, of s e source stamp] request_gaps[OF assms, of a b] find_covering[OF assms, of i] by blast

definition store_demo :: ranges_metadata where
  "store_demo = \<lparr>rm_version = SHARED_OUTPUT_STORE_METADATA_VERSION, rm_key = ''film-0001'', rm_duration = 2,
     rm_ranges = [range_payload 2 ''future'' (0, 3), range_payload 2 ''future'' (5, 9)], rm_sparse = [], rm_updated = ''t''\<rparr>"

lemma store_demo_wf: "metadata_wf store_demo"
proof -
  have "validate_shared_output_key (Some ''film-0001'') = Inr ''film-0001''" by code_simp
  then show ?thesis by (simp add: metadata_wf_def store_demo_def) (simp add: range_payload_def)
qed

lemma confirmed_ranges_refine_set_witness:
  "\<exists>m' gs. add_confirmed_range store_demo 3 4 None ''future'' ''t'' = Inr m' \<and> confirmed m' = {0..<4} \<union> {5..<9}
     \<and> find_gaps_for_requested_range (map Range_Object (rm_ranges store_demo)) 2 7 2 = Inr gs
     \<and> covered (map range_pair gs) = {3..<5}"
proof -
  note t = confirmed_ranges_refine_set[OF store_demo_wf, of 3 4 "''future''" "''t''" 2 7 0]
  have c: "confirmed store_demo = {0..<3} \<union> {5..<9}" and d: "rm_duration store_demo = 2"
    by (simp_all add: confirmed_def store_demo_def)
  have sets: "{0..<3} \<union> {5..<9} \<union> {3..<4} = {0..<4} \<union> {5..<9::int}" "{2..<7} - ({0..<3} \<union> {5..<9}) = {3..<5::int}"
    by auto
  show ?thesis using t unfolding c d sets by auto
qed

section \<open>Where a segment of an epoch goes\<close>

definition canonical_segment_index_candidate :: "real \<Rightarrow> real \<Rightarrow> real \<Rightarrow> py_error + (int \<times> bool)" where
  "canonical_segment_index_candidate absolute_seconds segment_duration tolerance =
     and_then (validate_segment_duration segment_duration) (\<lambda>d.
       let seconds = max 0 absolute_seconds;
           nearest = max 0 (round_half_even (seconds / d))
       in if \<bar>seconds - of_int nearest * d\<bar> \<le> max 0 tolerance then Inr (nearest, True)
          else and_then (absolute_segment_index_from_seconds seconds d) (\<lambda>i. Inr (i, False)))"

record segment_mapping =
  sm_epoch :: string
  sm_epoch_start :: real
  sm_index :: int
  sm_relative_start :: real
  sm_relative_end :: real
  sm_absolute_start :: real
  sm_absolute_end :: real
  sm_absolute_index :: int
  sm_filename :: string
  sm_alignment :: string
  sm_confidence :: string
  sm_blockers :: "string list"

definition sorted_strings :: "string list \<Rightarrow> string list" where
  "sorted_strings xs = sort (remdups xs)"

definition boundary_blockers :: "bool \<Rightarrow> real \<Rightarrow> real option \<Rightarrow> string list" where
  "boundary_blockers aligned absolute_start target =
     (if \<not> aligned then [''non_canonical_segment_boundary''] else [])
     @ (case target of
          Some t \<Rightarrow> if absolute_start < t then [''epoch_private_preroll'', ''preroll_not_shareable''] else []
        | None \<Rightarrow> [])"

lemma boundary_blockers_iff:
  "boundary_blockers aligned s target = [] \<longleftrightarrow> aligned \<and> (\<forall>t. target = Some t \<longrightarrow> t \<le> s)"
  "''non_canonical_segment_boundary'' \<in> set (boundary_blockers aligned s target) \<longleftrightarrow> \<not> aligned"
  by (auto simp: boundary_blockers_def split: option.splits if_splits)

lemma sorted_strings_Nil [simp]: "sorted_strings xs = [] \<longleftrightarrow> xs = []"
  unfolding sorted_strings_def by (metis set_empty set_remdups set_sort)

definition build_epoch_relative_segment_mapping ::
  "string \<Rightarrow> real \<Rightarrow> int \<Rightarrow> real \<Rightarrow> real option \<Rightarrow> real \<Rightarrow> py_error + segment_mapping" where
  "build_epoch_relative_segment_mapping epoch_id epoch_start_arg index segment_duration target tolerance =
     (if index < 0 then Inl (ValueError ''Epoch-relative segment index must be non-negative'')
      else
        and_then (validate_segment_duration segment_duration) (\<lambda>d.
        let epoch_start = max 0 epoch_start_arg;
            relative_start = py_round 6 (of_int index * d);
            relative_end = py_round 6 (of_int (index + 1) * d);
            absolute_start = py_round 6 (epoch_start + relative_start);
            absolute_end = py_round 6 (epoch_start + relative_end)
        in
        and_then (canonical_segment_index_candidate absolute_start d tolerance) (\<lambda>(absolute_index, start_aligned).
        let expected_end = py_round 6 (of_int (absolute_index + 1) * d);
            end_aligned = (\<bar>absolute_end - expected_end\<bar> \<le> max 0 tolerance);
            blockers = boundary_blockers (start_aligned \<and> end_aligned) absolute_start target
        in
        and_then (shared_segment_filename absolute_index) (\<lambda>filename.
          Inr \<lparr>sm_epoch = epoch_id, sm_epoch_start = py_round 6 epoch_start, sm_index = index,
               sm_relative_start = relative_start, sm_relative_end = relative_end,
               sm_absolute_start = absolute_start, sm_absolute_end = absolute_end,
               sm_absolute_index = absolute_index, sm_filename = filename,
               sm_alignment = (if blockers = [] \<or> ''non_canonical_segment_boundary'' \<notin> set blockers then ''aligned''
                               else ''non_canonical_segment_boundary''),
               sm_confidence = (if blockers = [] then ''high'' else ''low''),
               sm_blockers = sorted_strings blockers\<rparr>))))"

text \<open>The numbers a file is named by are padded to twelve digits, and read back.\<close>

definition shared_filename_index :: "string \<Rightarrow> int option" where
  "shared_filename_index name =
     (if starts_with ''abs_'' name \<and> ends_with ''.m4s'' name then py_int (drop 4 (take (length name - 4) name)) else None)"

lemma shared_filename_roundtrip:
  "shared_segment_filename i = Inr name \<Longrightarrow> shared_filename_index name = Some i"
  by (auto simp: shared_segment_filename_def shared_filename_index_def starts_with_def ends_with_def py_int_pad_nat
      split: if_splits)

lemma mapping_run:
  fixes es d tol :: real
  defines "start \<equiv> \<lambda>i. py_round 6 (max 0 es + py_round 6 (of_int i * d))"
  assumes "0 \<le> i" and "0 < d" and "canonical_segment_index_candidate (start i) d tol = Inr (ai, al)"
    and "shared_segment_filename ai = Inr name"
  shows "\<exists>m. build_epoch_relative_segment_mapping eid es i d target tol = Inr m
     \<and> sm_absolute_index m = ai \<and> sm_absolute_start m = start i \<and> sm_filename m = name
     \<and> (sm_alignment m = ''aligned'' \<longleftrightarrow> al \<and> \<bar>start (i + 1) - py_round 6 (of_int (ai + 1) * d)\<bar> \<le> max 0 tol)
     \<and> (sm_confidence m = ''high'' \<longleftrightarrow> al \<and> \<bar>start (i + 1) - py_round 6 (of_int (ai + 1) * d)\<bar> \<le> max 0 tol
          \<and> (\<forall>t. target = Some t \<longrightarrow> t \<le> start i))"
proof -
  have val: "validate_segment_duration d = Inr d" using assms(3) by (simp add: validate_segment_duration_def)
  show ?thesis
    using assms(2,4,5) unfolding start_def
    by (simp add: build_epoch_relative_segment_mapping_def val Let_def boundary_blockers_iff)
qed

lemma mapping_facts:
  assumes "build_epoch_relative_segment_mapping eid es i d target tol = Inr m"
  shows "0 \<le> i \<and> 0 < d
     \<and> sm_absolute_start m = py_round 6 (max 0 es + py_round 6 (of_int i * d))
     \<and> sm_absolute_end m = py_round 6 (max 0 es + py_round 6 (of_int (i + 1) * d))
     \<and> shared_segment_filename (sm_absolute_index m) = Inr (sm_filename m)
     \<and> (sm_alignment m = ''aligned'' \<longrightarrow>
          \<bar>sm_absolute_start m - of_int (sm_absolute_index m) * d\<bar> \<le> max 0 tol
          \<and> \<bar>sm_absolute_end m - py_round 6 (of_int (sm_absolute_index m + 1) * d)\<bar> \<le> max 0 tol)
     \<and> (sm_confidence m = ''high'' \<longrightarrow> sm_alignment m = ''aligned'' \<and> (\<forall>t. target = Some t \<longrightarrow> t \<le> sm_absolute_start m))
     \<and> (sm_confidence m = ''high'' \<longleftrightarrow> sm_blockers m = [])
     \<and> set (sm_blockers m) \<subseteq> {''non_canonical_segment_boundary'', ''epoch_private_preroll'', ''preroll_not_shareable''}"
proof -
  let ?rs = "py_round 6 (of_int i * d)" and ?re = "py_round 6 (of_int (i + 1) * d)"
  let ?as = "py_round 6 (max 0 es + ?rs)" and ?ae = "py_round 6 (max 0 es + ?re)"
  have i: "0 \<le> i" and d: "0 < d"
    using assms by (auto simp: build_epoch_relative_segment_mapping_def validate_segment_duration_def split: if_splits)
  have nonneg: "0 \<le> ?as" using i d by (intro py_round_nonneg add_nonneg_nonneg) simp_all
  have val: "validate_segment_duration d = Inr d" using d by (simp add: validate_segment_duration_def)
  obtain ai al where cand: "canonical_segment_index_candidate ?as d tol = Inr (ai, al)"
    using assms i by (cases "canonical_segment_index_candidate ?as d tol")
      (auto simp: build_epoch_relative_segment_mapping_def val Let_def)
  obtain name where name: "shared_segment_filename ai = Inr name"
    using assms i by (cases "shared_segment_filename ai")
      (auto simp: build_epoch_relative_segment_mapping_def val Let_def cand)
  let ?ends = "\<bar>?ae - py_round 6 (of_int (ai + 1) * d)\<bar> \<le> max 0 tol"
  let ?b = "boundary_blockers (al \<and> ?ends) ?as target"
  have m: "m = \<lparr>sm_epoch = eid, sm_epoch_start = py_round 6 (max 0 es), sm_index = i, sm_relative_start = ?rs,
      sm_relative_end = ?re, sm_absolute_start = ?as, sm_absolute_end = ?ae, sm_absolute_index = ai, sm_filename = name,
      sm_alignment = (if ?b = [] \<or> ''non_canonical_segment_boundary'' \<notin> set ?b then ''aligned''
                      else ''non_canonical_segment_boundary''),
      sm_confidence = (if ?b = [] then ''high'' else ''low''), sm_blockers = sorted_strings ?b\<rparr>"
    using assms i by (simp add: build_epoch_relative_segment_mapping_def val Let_def cand name)
  have "set (sorted_strings ?b) \<subseteq> {''non_canonical_segment_boundary'', ''epoch_private_preroll'', ''preroll_not_shareable''}"
    by (auto simp: sorted_strings_def boundary_blockers_def split: if_splits option.splits)
  moreover have "al \<longrightarrow> \<bar>?as - of_int ai * d\<bar> \<le> max 0 tol"
    using cand d nonneg by (auto simp: canonical_segment_index_candidate_def validate_segment_duration_def Let_def
        and_then_Inr_iff split: if_splits)
  ultimately show ?thesis using i d name
    by (simp only: m segment_mapping.simps boundary_blockers_iff sorted_strings_Nil) (auto split: if_splits)
qed

lemma aligned_same_start:
  assumes "build_epoch_relative_segment_mapping eid es i d target tol = Inr m"
    and "build_epoch_relative_segment_mapping eid' es i' d target' tol = Inr m'"
    and "\<bar>sm_absolute_start m - sm_absolute_start m'\<bar> \<le> 2 * max 0 tol" and "2 * max 0 tol + 2 / 10 ^ 6 < d"
  shows "i = i'"
proof -
  have near: "\<bar>sm_absolute_start m - (max 0 es + of_int i * d)\<bar> \<le> 1 / 10 ^ 6"
    if "build_epoch_relative_segment_mapping eid es i d target tol = Inr m" for eid i target m
  proof -
    have "sm_absolute_start m = py_round 6 (max 0 es + py_round 6 (of_int i * d))" using mapping_facts[OF that] by simp
    then show ?thesis
      using py_round_near[of 6 "max 0 es + py_round 6 (of_int i * d)"] py_round_near[of 6 "of_int i * d"] by linarith
  qed
  have "\<bar>of_int (i - i') * d\<bar> \<le> 2 * max 0 tol + 2 / 10 ^ 6"
    using near[OF assms(1)] near[OF assms(2)] assms(3) unfolding of_int_diff left_diff_distrib by linarith
  then have "\<bar>real_of_int (i - i')\<bar> * d < 1 * d" using assms(4) by (simp add: abs_mult)
  then have "\<bar>real_of_int (i - i')\<bar> < 1" by (rule mult_right_less_imp_less) (use assms(4) in simp)
  then show ?thesis by linarith
qed

lemma aligned_bounds:
  assumes "build_epoch_relative_segment_mapping eid es i d target tol = Inr m" and "sm_alignment m = ''aligned''"
  shows "\<bar>sm_absolute_start m - of_int (sm_absolute_index m) * d\<bar> \<le> max 0 tol"
    and "\<bar>sm_absolute_end m - py_round 6 (of_int (sm_absolute_index m + 1) * d)\<bar> \<le> max 0 tol"
  using mapping_facts[OF assms(1)] assms(2) by blast+

text \<open>A shared file is one stretch of the film. When segments of two epochs are both aligned and map to the same
  file of the store, their start times and their end times agree to within twice the tolerance, whatever the
  starts of the epochs; and two segments of one epoch never map to the same file, as long as segments are
  longer than twice the tolerance and the rounding.\<close>

theorem shared_file_is_one_stretch:
  assumes "build_epoch_relative_segment_mapping eid es i d target tol = Inr m"
    and "build_epoch_relative_segment_mapping eid' es' i' d target' tol = Inr m'"
    and "sm_alignment m = ''aligned''" and "sm_alignment m' = ''aligned''" and "sm_filename m = sm_filename m'"
  shows "\<bar>sm_absolute_start m - sm_absolute_start m'\<bar> \<le> 2 * max 0 tol
     \<and> \<bar>sm_absolute_end m - sm_absolute_end m'\<bar> \<le> 2 * max 0 tol
     \<and> (es = es' \<and> 2 * max 0 tol + 2 / 10 ^ 6 < d \<longrightarrow> i = i')"
proof -
  note f = mapping_facts[OF assms(1)] and f' = mapping_facts[OF assms(2)]
  have "shared_segment_filename (sm_absolute_index m) = Inr (sm_filename m)"
    "shared_segment_filename (sm_absolute_index m') = Inr (sm_filename m)"
    using f f' assms(5) by simp_all
  then have index: "sm_absolute_index m' = sm_absolute_index m"
    using shared_filename_roundtrip by (metis option.inject)
  let ?k = "sm_absolute_index m"
  note near = aligned_bounds[OF assms(1,3)] aligned_bounds[OF assms(2,4), unfolded index]
  then have starts: "\<bar>sm_absolute_start m - sm_absolute_start m'\<bar> \<le> 2 * max 0 tol"
    and ends: "\<bar>sm_absolute_end m - sm_absolute_end m'\<bar> \<le> 2 * max 0 tol" by linarith+
  have "i = i'" if "es = es'" "2 * max 0 tol + 2 / 10 ^ 6 < d"
    using aligned_same_start[OF assms(1) _ starts that(2)] assms(2) that(1) by blast
  then show ?thesis using starts ends by blast
qed

text \<open>An epoch that starts on a segment boundary maps its segments one after the other.\<close>

lemma boundary_candidate:
  assumes "0 \<le> j"
  shows "canonical_segment_index_candidate (of_int (2 * j)) 2 (1 / 1000) = Inr (j, True)"
proof -
  have s: "max 0 (real_of_int (2 * j)) = of_int (2 * j)" and h: "real_of_int (2 * j) / 2 = of_int j" using assms by simp_all
  show ?thesis
    unfolding canonical_segment_index_candidate_def validate_segment_duration_def Let_def s h round_half_even_of_int
    using assms by simp
qed

lemma boundary_epoch_mapping:
  assumes "0 \<le> k" and "0 \<le> i"
  shows "\<exists>m. build_epoch_relative_segment_mapping eid (of_int (2 * k)) i 2 None (1 / 1000) = Inr m
     \<and> sm_absolute_index m = k + i \<and> sm_confidence m = ''high'' \<and> sm_alignment m = ''aligned''
     \<and> sm_absolute_start m = of_int (2 * (k + i))"
proof -
  have r: "py_round 6 (of_int j * 2) = of_int (j * 2)" for j by (metis of_int_mult of_int_numeral py_round_of_int)
  have s: "max 0 (real_of_int (2 * k)) + py_round 6 (of_int j * 2) = of_int (2 * (k + j))" for j
    using assms(1) by (simp add: r)
  have cand: "canonical_segment_index_candidate (of_int (2 * (k + i))) 2 (1 / 1000) = Inr (k + i, True)"
    by (rule boundary_candidate) (use assms in simp)
  have e: "py_round 6 (of_int (k + i + 1) * 2) = of_int (2 * (k + (i + 1)))" by (simp only: r) simp
  have ends: "\<bar>py_round 6 (max 0 (real_of_int (2 * k)) + py_round 6 (of_int (i + 1) * 2)) - py_round 6 (of_int (k + i + 1) * 2)\<bar>
      \<le> max 0 (1 / 1000)"
    by (simp only: s e py_round_of_int)
  have starts: "py_round 6 (max 0 (real_of_int (2 * k)) + py_round 6 (of_int i * 2)) = of_int (2 * (k + i))"
    by (simp only: s py_round_of_int)
  have name: "shared_segment_filename (k + i) = Inr (''abs_'' @ pad_nat 12 (nat (k + i)) @ ''.m4s'')"
    using assms by (simp add: shared_segment_filename_def)
  have "canonical_segment_index_candidate (py_round 6 (max 0 (real_of_int (2 * k)) + py_round 6 (of_int i * 2))) 2 (1 / 1000)
      = Inr (k + i, True)" unfolding starts by (rule cand)
  from mapping_run[OF assms(2) _ this name, of eid None] show ?thesis using ends unfolding starts by auto
qed

lemma shared_file_is_one_stretch_witness:
  "\<exists>m m'. build_epoch_relative_segment_mapping ''a'' 40 5 2 None (1 / 1000) = Inr m
     \<and> build_epoch_relative_segment_mapping ''b'' 20 15 2 None (1 / 1000) = Inr m'
     \<and> sm_filename m = sm_filename m' \<and> \<bar>sm_absolute_start m - sm_absolute_start m'\<bar> \<le> 1 / 500"
proof -
  obtain m where m: "build_epoch_relative_segment_mapping ''a'' 40 5 2 None (1 / 1000) = Inr m" "sm_absolute_index m = 25"
    "sm_alignment m = ''aligned''"
    using boundary_epoch_mapping[of 20 5 "''a''"] by auto
  obtain m' where m': "build_epoch_relative_segment_mapping ''b'' 20 15 2 None (1 / 1000) = Inr m'" "sm_absolute_index m' = 25"
    "sm_alignment m' = ''aligned''"
    using boundary_epoch_mapping[of 10 15 "''b''"] by auto
  have "sm_filename m = sm_filename m'"
    using mapping_facts[OF m(1)] mapping_facts[OF m'(1)] m(2) m'(2) by simp
  with shared_file_is_one_stretch[OF m(1) m'(1) m(3) m'(3)] show ?thesis using m(1) m'(1) by auto
qed

section \<open>The plan of a write\<close>

text \<open>The arguments of \<^verbatim>\<open>build_shared_store_write_plan\<close>; \<open>wr_root\<close> is the text of the path.\<close>

record write_request =
  wr_root :: string
  wr_key :: "string option"
  wr_epoch :: string
  wr_epoch_start :: real
  wr_target :: "real option"
  wr_published :: "int list"
  wr_duration :: real
  wr_fingerprint :: "string option"
  wr_missing_fields :: "string list"
  wr_init_validated :: bool
  wr_init_status :: "string option"
  wr_permission :: "string option"
  wr_metadata_only :: bool
  wr_writer_enabled :: bool
  wr_manifest_enabled :: bool

record segment_plan =
  sp_mapping :: segment_mapping
  sp_candidate :: bool
  sp_blockers :: "string list"
  sp_key :: "string option"
  sp_fingerprint :: "string option"
  sp_output_path :: "string option"
  sp_segment_path :: "string option"
  sp_init_path :: "string option"

record write_plan =
  wp_available :: bool
  wp_key :: "string option"
  wp_fingerprint :: "string option"
  wp_output_path :: "string option"
  wp_init_path :: "string option"
  wp_segments :: "segment_plan list"
  wp_update :: "ranges_metadata option"
  wp_range :: "index_range option"
  wp_range_blockers :: "string list"
  wp_candidate_count :: nat
  wp_confidence :: string
  wp_notes :: "string list"

definition shared_output_directory :: "string \<Rightarrow> string \<Rightarrow> string" where
  "shared_output_directory base key = base @ ''/shared_outputs/'' @ key"

definition init_blockers :: "bool \<Rightarrow> string option \<Rightarrow> string list" where
  "init_blockers validated status =
     (let normalized = py_strip (or_string status []) in
      if normalized = ''mismatch'' then [''init_mismatch'']
      else if normalized \<in> {''pending'', ''pending_init'', ''unavailable''} then [''pending_init_compatibility'']
      else if \<not> (validated \<or> normalized \<in> {''hash_available'', ''compatible_by_hash''})
      then [''missing_init_compatibility''] else [])"

definition plan_blockers :: "write_request \<Rightarrow> int list \<Rightarrow> string list" where
  "plan_blockers r indices =
     (if truthy_string (wr_key r) then [] else [''missing_shared_output_key''])
     @ (if py_strip (or_string (wr_fingerprint r) []) = [] then [''missing_output_contract''] else [])
     @ (if wr_missing_fields r \<noteq> [] then [''output_contract_incomplete''] else [])
     @ init_blockers (wr_init_validated r) (wr_init_status r)
     @ (if wr_permission r \<in> {Some ''verified_local'', Some ''verified_cloud''} then [] else [''permission_context_unverified''])
     @ (if wr_metadata_only r then [''metadata_only''] else [])
     @ (if \<not> wr_writer_enabled r then [''no_segment_writer''] else [])
     @ (if \<not> wr_manifest_enabled r then [''no_shared_manifest''] else [])
     @ (if wr_metadata_only r \<or> \<not> wr_writer_enabled r then [''media_bytes_not_present''] else [])
     @ (if wr_metadata_only r \<or> \<not> wr_manifest_enabled r then [''serving_disabled''] else [])
     @ (if indices = [] then [''no_published_segments''] else [])"

definition plan_key :: "write_request \<Rightarrow> py_error + string option" where
  "plan_key r = (if truthy_string (wr_key r) then and_then (validate_shared_output_key (wr_key r)) (\<lambda>k. Inr (Some k))
                 else Inr None)"

definition plan_segment :: "write_request \<Rightarrow> real \<Rightarrow> string option \<Rightarrow> string list \<Rightarrow> int \<Rightarrow> py_error + segment_plan" where
  "plan_segment r d key blockers index =
     and_then (build_epoch_relative_segment_mapping (wr_epoch r) (wr_epoch_start r) index d (wr_target r)
                 SHARED_OUTPUT_MAPPING_TOLERANCE_SECONDS) (\<lambda>m.
       let segment_blockers = blockers @ sm_blockers m;
           against = (if wr_writer_enabled r
                      then filter (\<lambda>b. b \<notin> {''no_shared_manifest'', ''serving_disabled''}) segment_blockers
                      else segment_blockers);
           folder = map_option (shared_output_directory (wr_root r)) key
       in and_then (shared_segment_filename (sm_absolute_index m)) (\<lambda>name.
          Inr \<lparr>sp_mapping = m, sp_candidate = (against = []), sp_blockers = sorted_strings segment_blockers,
               sp_key = key, sp_fingerprint = wr_fingerprint r, sp_output_path = folder,
               sp_segment_path = map_option (\<lambda>f. f @ ''/segments/'' @ name) folder,
               sp_init_path = map_option (\<lambda>f. f @ ''/init.mp4'') folder\<rparr>))"

fun plan_segments :: "(int \<Rightarrow> py_error + segment_plan) \<Rightarrow> int list \<Rightarrow> py_error + segment_plan list" where
  "plan_segments f [] = Inr []"
| "plan_segments f (i # is) = and_then (f i) (\<lambda>p. and_then (plan_segments f is) (\<lambda>ps. Inr (p # ps)))"

definition shareable_indexes :: "segment_plan list \<Rightarrow> int list" where
  "shareable_indexes plans = map (sm_absolute_index \<circ> sp_mapping) (filter (\<lambda>p. sm_blockers (sp_mapping p) = []) plans)"

definition expected_update :: "string option \<Rightarrow> real \<Rightarrow> string \<Rightarrow> index_range option \<Rightarrow> py_error + ranges_metadata option" where
  "expected_update key d stamp chosen =
     (case (key, chosen) of
        (Some k, Some r) \<Rightarrow>
          and_then (build_ranges_metadata (Some k) d [] [] stamp) (\<lambda>m.
          and_then (add_confirmed_range m (ir_start r) (ir_end r) (Some d) ''dry_run_candidate'' stamp) (\<lambda>m'. Inr (Some m')))
      | _ \<Rightarrow> Inr None)"

definition build_shared_store_write_plan :: "string \<Rightarrow> write_request \<Rightarrow> py_error + write_plan" where
  "build_shared_store_write_plan stamp r =
     and_then (validate_segment_duration (wr_duration r)) (\<lambda>d.
     let indices = sorted_ints (map (max 0) (wr_published r)); blockers = plan_blockers r indices in
     and_then (plan_key r) (\<lambda>key.
     and_then (plan_segments (plan_segment r d key blockers) indices) (\<lambda>plans.
     and_then (merge_contiguous_ranges (map (\<lambda>i. Range_Pair i (i + 1)) (shareable_indexes plans)) d ''dry_run_candidate'') (\<lambda>ranges.
     let chosen = (case ranges of [] \<Rightarrow> None | x # _ \<Rightarrow> Some x);
         mapping_blockers = concat (map (sm_blockers \<circ> sp_mapping) plans) in
     and_then (expected_update key d stamp chosen) (\<lambda>update.
       Inr \<lparr>wp_available = (key \<noteq> None \<and> indices \<noteq> []), wp_key = key, wp_fingerprint = wr_fingerprint r,
            wp_output_path = map_option (shared_output_directory (wr_root r)) key,
            wp_init_path = map_option (\<lambda>k. shared_output_directory (wr_root r) k @ ''/init.mp4'') key,
            wp_segments = plans, wp_update = update, wp_range = chosen,
            wp_range_blockers = sorted_strings (blockers @ mapping_blockers
              @ (if chosen = None then [''no_shareable_segments''] else [])),
            wp_candidate_count = length (filter sp_candidate plans),
            wp_confidence = (if mapping_blockers \<noteq> [] then ''low'' else if indices \<noteq> [] then ''high'' else ''unavailable''),
            wp_notes = sorted_strings (''epoch_relative_to_absolute_mapping_candidate''
              # (if wr_writer_enabled r \<and> \<not> wr_metadata_only r then [''write_only_segment_capture_candidate'']
                 else [''dry_run_only'', ''no_shared_bytes_written'']))\<rparr>)))))"

lemma plan_segments_all:
  "plan_segments f is = Inr ps \<longleftrightarrow> list_all2 (\<lambda>i p. f i = Inr p) is ps"
proof (induction "is" arbitrary: ps)
  case (Cons i "is")
  then show ?case by (cases ps) (auto simp: and_then_Inr_iff)
qed auto

lemma plan_segments_set: "plan_segments f is = Inr ps \<Longrightarrow> p \<in> set ps \<Longrightarrow> \<exists>i \<in> set is. f i = Inr p"
  by (auto simp: plan_segments_all list_all2_conv_all_nth set_conv_nth)

lemma candidate_facts:
  assumes "plan_segment r d key (plan_blockers r indices) i = Inr p" and "sp_candidate p"
  shows "truthy_string (wr_key r) \<and> py_strip (or_string (wr_fingerprint r) []) \<noteq> [] \<and> wr_missing_fields r = []
     \<and> wr_permission r \<in> {Some ''verified_local'', Some ''verified_cloud''} \<and> wr_writer_enabled r \<and> \<not> wr_metadata_only r
     \<and> init_blockers (wr_init_validated r) (wr_init_status r) = [] \<and> sm_confidence (sp_mapping p) = ''high''
     \<and> build_epoch_relative_segment_mapping (wr_epoch r) (wr_epoch_start r) i d (wr_target r)
          SHARED_OUTPUT_MAPPING_TOLERANCE_SECONDS = Inr (sp_mapping p)"
proof -
  let ?soft = "\<lambda>b. b \<notin> {''no_shared_manifest'', ''serving_disabled''}"
  obtain m where m: "build_epoch_relative_segment_mapping (wr_epoch r) (wr_epoch_start r) i d (wr_target r)
      SHARED_OUTPUT_MAPPING_TOLERANCE_SECONDS = Inr m" and p: "sp_mapping p = m"
    and none: "filter ?soft (plan_blockers r indices @ sm_blockers m) = []"
      "\<not> wr_writer_enabled r \<Longrightarrow> plan_blockers r indices @ sm_blockers m = []"
    using assms by (auto simp: plan_segment_def and_then_Inr_iff Let_def split: if_splits)
  have writer: "wr_writer_enabled r" using none(2) by (cases "wr_writer_enabled r") (auto simp: plan_blockers_def)
  note f = mapping_facts[OF m]
  have soft: "?soft b \<Longrightarrow> b \<notin> set (plan_blockers r indices) \<and> b \<notin> set (sm_blockers m)" for b
    using none(1) by (auto simp: filter_empty_conv)
  have init: "init_blockers (wr_init_validated r) (wr_init_status r) = []"
  proof (rule ccontr)
    assume "init_blockers (wr_init_validated r) (wr_init_status r) \<noteq> []"
    then obtain b where "b \<in> set (init_blockers (wr_init_validated r) (wr_init_status r))" "?soft b"
      by (auto simp: init_blockers_def Let_def split: if_splits)
    then show False using soft[of b] by (auto simp: plan_blockers_def)
  qed
  have high: "sm_blockers m = []"
  proof (rule ccontr)
    assume "sm_blockers m \<noteq> []"
    then obtain b where "b \<in> set (sm_blockers m)" by (cases "sm_blockers m") auto
    moreover from this have "?soft b" using f by fastforce
    ultimately show False using soft by blast
  qed
  have hard: "?soft b \<Longrightarrow> b \<notin> set (plan_blockers r indices)" for b using soft by blast
  show ?thesis
    using hard[of "''missing_shared_output_key''"] hard[of "''missing_output_contract''"]
      hard[of "''output_contract_incomplete''"] hard[of "''permission_context_unverified''"] hard[of "''metadata_only''"]
      f high init m writer p
    by (auto simp: plan_blockers_def split: if_splits)
qed

lemma mapping_total:
  assumes "0 \<le> i" and "0 < d"
  shows "\<exists>m. build_epoch_relative_segment_mapping eid es i d target tol = Inr m \<and> 0 \<le> sm_absolute_index m \<and> sm_index m = i"
proof -
  have val: "validate_segment_duration d = Inr d" using assms(2) by (simp add: validate_segment_duration_def)
  have cand: "\<exists>ai al. canonical_segment_index_candidate x d tol = Inr (ai, al) \<and> 0 \<le> ai" for x
    by (auto simp: canonical_segment_index_candidate_def val absolute_segment_index_from_seconds_def Let_def)
  obtain ai al where c: "canonical_segment_index_candidate (py_round 6 (max 0 es + py_round 6 (of_int i * d))) d tol = Inr (ai, al)"
    and ai: "0 \<le> ai" using cand by blast
  then have "shared_segment_filename ai = Inr (''abs_'' @ pad_nat 12 (nat ai) @ ''.m4s'')"
    by (simp add: shared_segment_filename_def)
  then show ?thesis using assms(1) ai by (simp add: build_epoch_relative_segment_mapping_def val Let_def c)
qed

lemma plan_segment_total:
  assumes "0 \<le> i" and "0 < d"
  shows "\<exists>p. plan_segment r d key blockers i = Inr p"
proof -
  obtain m where m: "build_epoch_relative_segment_mapping (wr_epoch r) (wr_epoch_start r) i d (wr_target r)
      SHARED_OUTPUT_MAPPING_TOLERANCE_SECONDS = Inr m" "0 \<le> sm_absolute_index m" "sm_index m = i"
    using mapping_total[OF assms] by blast
  then have "shared_segment_filename (sm_absolute_index m) = Inr (''abs_'' @ pad_nat 12 (nat (sm_absolute_index m)) @ ''.m4s'')"
    by (simp add: shared_segment_filename_def)
  then show ?thesis using m(1) by (simp add: plan_segment_def Let_def)
qed

lemma plan_segment_mapping:
  assumes "plan_segment r d key blockers i = Inr p" and "0 \<le> i" and "0 < d"
  shows "0 \<le> sm_absolute_index (sp_mapping p) \<and> sm_index (sp_mapping p) = i
     \<and> (sm_blockers (sp_mapping p) = [] \<longleftrightarrow> sm_confidence (sp_mapping p) = ''high'')"
proof -
  have m: "build_epoch_relative_segment_mapping (wr_epoch r) (wr_epoch_start r) i d (wr_target r)
      SHARED_OUTPUT_MAPPING_TOLERANCE_SECONDS = Inr (sp_mapping p)"
    using assms(1) by (auto simp: plan_segment_def and_then_Inr_iff Let_def)
  then show ?thesis
    using mapping_total[OF assms(2,3), of "wr_epoch r" "wr_epoch_start r" "wr_target r" SHARED_OUTPUT_MAPPING_TOLERANCE_SECONDS]
      mapping_facts[OF m] by auto
qed

lemma plan_segments_total: "\<forall>i \<in> set is. \<exists>p. f i = Inr p \<Longrightarrow> \<exists>ps. plan_segments f is = Inr ps"
  by (induction "is") (auto simp: and_then_Inr_iff)

lemma coerce_singletons: "\<forall>i \<in> set is. 0 \<le> i \<Longrightarrow> coerce_ranges (map (\<lambda>i. Range_Pair i (i + 1)) is) = Inr (map (\<lambda>i. (i, i + 1)) is)"
  by (induction "is") (auto simp: checked_indexes_def)

lemma covered_singletons: "covered (map (\<lambda>i. (i, i + 1)) is) = set is"
proof (induction "is")
  case (Cons i "is")
  have "{i..<i + 1} = {i}" by auto
  then show ?case using Cons by simp
qed simp

lemma merge_singletons:
  assumes "\<forall>i \<in> set is. 0 \<le> i" and "0 < d"
  shows "\<exists>out. merge_contiguous_ranges (map (\<lambda>i. Range_Pair i (i + 1)) is) d source = Inr out
     \<and> covered (map range_pair out) = set is \<and> normal_ranges (map range_pair out)"
proof -
  have "\<forall>(s, e) \<in> set (map (\<lambda>i. (i, i + 1)) is). s < e" by auto
  from merge_pairs_correct[OF this] show ?thesis
    using assms by (simp add: merge_contiguous_ranges_def coerce_singletons range_payloads_Inr covered_singletons o_def)
qed

lemma expected_update_total:
  assumes "\<And>k. key = Some k \<Longrightarrow> validate_shared_output_key (Some k) = Inr k" and "0 < d"
    and "\<And>x. chosen = Some x \<Longrightarrow> 0 \<le> ir_start x \<and> ir_start x < ir_end x"
  shows "\<exists>u. expected_update key d stamp chosen = Inr u
     \<and> (\<forall>m. u = Some m \<longrightarrow> (\<exists>x. chosen = Some x \<and> confirmed m = {ir_start x..<ir_end x}))"
proof (cases "key = None \<or> chosen = None")
  case False
  then obtain k x where k: "key = Some k" "chosen = Some x" by auto
  let ?m = "\<lparr>rm_version = SHARED_OUTPUT_STORE_METADATA_VERSION, rm_key = k, rm_duration = d, rm_ranges = [],
      rm_sparse = [], rm_updated = stamp\<rparr>"
  have m: "build_ranges_metadata (Some k) d [] [] stamp = Inr ?m"
    using assms(1)[OF k(1)] assms(2)
    by (simp add: build_ranges_metadata_def validate_segment_duration_def merge_contiguous_ranges_def merge_pairs_def
        range_payloads_def sorted_ints_def)
  have wf: "metadata_wf ?m" using assms(1)[OF k(1)] assms(2) by (simp add: metadata_wf_def)
  have empty: "confirmed ?m = {}" by (simp add: confirmed_def)
  have "add_confirmed_range ?m s e (Some d) source stamp = add_confirmed_range ?m s e None source stamp" for s e source
    by (simp add: add_confirmed_range_def)
  moreover obtain m' where "add_confirmed_range ?m (ir_start x) (ir_end x) None ''dry_run_candidate'' stamp = Inr m'"
    "confirmed m' = {ir_start x..<ir_end x}"
    using add_confirmed[OF wf, of "ir_start x" "ir_end x" "''dry_run_candidate''" stamp] assms(3)[OF k(2)] empty by auto
  ultimately show ?thesis using m by (simp add: expected_update_def k)
qed (auto simp: expected_update_def split: option.split)

text \<open>The plan of a write is total and safe. With a positive segment duration and a key that is absent or valid,
  planning never raises. A planned segment is a candidate for being written only when the key, the output
  contract and its fields, the permission, the init file and the writer are all in order, it is one of the
  published segments and it lies on the common grid and not before the target. The candidate range contains
  only segments that were planned without an obstacle of their own, and the update it announces confirms
  exactly that range.\<close>

theorem write_plan_sound:
  assumes "0 < wr_duration r" and "truthy_string (wr_key r) \<Longrightarrow> validate_shared_output_key (wr_key r) = Inr key"
  shows "\<exists>plan. build_shared_store_write_plan stamp r = Inr plan
     \<and> (\<forall>p \<in> set (wp_segments plan). sp_candidate p \<longrightarrow>
          truthy_string (wr_key r) \<and> py_strip (or_string (wr_fingerprint r) []) \<noteq> [] \<and> wr_missing_fields r = []
          \<and> wr_permission r \<in> {Some ''verified_local'', Some ''verified_cloud''} \<and> wr_writer_enabled r \<and> \<not> wr_metadata_only r
          \<and> init_blockers (wr_init_validated r) (wr_init_status r) = [] \<and> sm_confidence (sp_mapping p) = ''high''
          \<and> sm_index (sp_mapping p) \<in> max 0 ` set (wr_published r))
     \<and> (\<forall>x k. wp_range plan = Some x \<and> k \<in> {ir_start x..<ir_end x} \<longrightarrow>
          (\<exists>p \<in> set (wp_segments plan). sm_absolute_index (sp_mapping p) = k \<and> sm_confidence (sp_mapping p) = ''high''))
     \<and> (\<forall>m. wp_update plan = Some m \<longrightarrow> (\<exists>x. wp_range plan = Some x \<and> confirmed m = {ir_start x..<ir_end x}))"
proof -
  let ?d = "wr_duration r" and ?is = "sorted_ints (map (max 0) (wr_published r))"
  let ?b = "plan_blockers r ?is"
  have val: "validate_segment_duration ?d = Inr ?d" using assms(1) by (simp add: validate_segment_duration_def)
  have indices: "set ?is = max 0 ` set (wr_published r)" and pos: "\<forall>i \<in> set ?is. 0 \<le> i" by (auto simp: sorted_ints_def)
  obtain k where k: "plan_key r = Inr k" "\<And>x. k = Some x \<Longrightarrow> validate_shared_output_key (Some x) = Inr x"
  proof (cases "truthy_string (wr_key r)")
    case True
    note v = assms(2)[OF True]
    show thesis by (rule that[of "Some key"]) (use True v validate_key_idem[OF v] in \<open>auto simp: plan_key_def\<close>)
  qed (use that[of None] in \<open>simp add: plan_key_def\<close>)
  obtain ps where ps: "plan_segments (plan_segment r ?d k ?b) ?is = Inr ps"
    using plan_segments_total plan_segment_total assms(1) pos by metis
  have each: "\<exists>i \<in> set ?is. plan_segment r ?d k ?b i = Inr p \<and> 0 \<le> sm_absolute_index (sp_mapping p) \<and> sm_index (sp_mapping p) = i
      \<and> (sm_blockers (sp_mapping p) = [] \<longleftrightarrow> sm_confidence (sp_mapping p) = ''high'')" if "p \<in> set ps" for p
    using plan_segments_set[OF ps that] plan_segment_mapping assms(1) pos by metis
  then have "\<forall>i \<in> set (shareable_indexes ps). 0 \<le> i" by (auto simp: shareable_indexes_def)
  from merge_singletons[OF this assms(1), of "''dry_run_candidate''"] obtain out where
    out: "merge_contiguous_ranges (map (\<lambda>i. Range_Pair i (i + 1)) (shareable_indexes ps)) ?d ''dry_run_candidate'' = Inr out"
    "covered (map range_pair out) = set (shareable_indexes ps)" "normal_ranges (map range_pair out)" by blast
  define chosen where "chosen = (case out of [] \<Rightarrow> None | x # _ \<Rightarrow> Some x)"
  have inside: "{ir_start x..<ir_end x} \<subseteq> set (shareable_indexes ps) \<and> ir_start x < ir_end x" if "chosen = Some x" for x
    using that out(2,3) normal_pos[OF out(3), of "range_pair x"]
    by (auto simp: chosen_def covered_def range_pair_def split: list.splits)
  have in_plan: "\<exists>p \<in> set ps. sm_absolute_index (sp_mapping p) = i \<and> sm_confidence (sp_mapping p) = ''high'' \<and> 0 \<le> i"
    if "i \<in> set (shareable_indexes ps)" for i
    using that each by (fastforce simp: shareable_indexes_def)
  have start: "0 \<le> ir_start x \<and> ir_start x < ir_end x" if "chosen = Some x" for x
    using inside[OF that] in_plan[of "ir_start x"] by auto
  obtain u where u: "expected_update k ?d stamp chosen = Inr u"
    "\<forall>m. u = Some m \<longrightarrow> (\<exists>x. chosen = Some x \<and> confirmed m = {ir_start x..<ir_end x})"
    using expected_update_total[of k ?d chosen stamp, OF k(2) assms(1) start] by blast
  obtain plan where plan: "build_shared_store_write_plan stamp r = Inr plan" "wp_segments plan = ps" "wp_range plan = chosen"
    "wp_update plan = u"
    using val k(1) ps out(1) u(1) by (simp add: build_shared_store_write_plan_def Let_def chosen_def)
  have candidates: "\<forall>p \<in> set ps. sp_candidate p \<longrightarrow>
      truthy_string (wr_key r) \<and> py_strip (or_string (wr_fingerprint r) []) \<noteq> [] \<and> wr_missing_fields r = []
      \<and> wr_permission r \<in> {Some ''verified_local'', Some ''verified_cloud''} \<and> wr_writer_enabled r \<and> \<not> wr_metadata_only r
      \<and> init_blockers (wr_init_validated r) (wr_init_status r) = [] \<and> sm_confidence (sp_mapping p) = ''high''
      \<and> sm_index (sp_mapping p) \<in> max 0 ` set (wr_published r)"
  proof (intro ballI impI)
    fix p assume p: "p \<in> set ps" "sp_candidate p"
    obtain i where i: "i \<in> set ?is" "plan_segment r ?d k ?b i = Inr p" "sm_index (sp_mapping p) = i" using each[OF p(1)] by blast
    have "sm_index (sp_mapping p) \<in> max 0 ` set (wr_published r)" using i(1,3) indices by simp
    with candidate_facts[OF i(2) p(2)] show "truthy_string (wr_key r) \<and> py_strip (or_string (wr_fingerprint r) []) \<noteq> []
      \<and> wr_missing_fields r = [] \<and> wr_permission r \<in> {Some ''verified_local'', Some ''verified_cloud''}
      \<and> wr_writer_enabled r \<and> \<not> wr_metadata_only r
      \<and> init_blockers (wr_init_validated r) (wr_init_status r) = [] \<and> sm_confidence (sp_mapping p) = ''high''
      \<and> sm_index (sp_mapping p) \<in> max 0 ` set (wr_published r)" by blast
  qed
  have range: "\<forall>x k. chosen = Some x \<and> k \<in> {ir_start x..<ir_end x} \<longrightarrow>
      (\<exists>p \<in> set ps. sm_absolute_index (sp_mapping p) = k \<and> sm_confidence (sp_mapping p) = ''high'')"
    using inside in_plan by blast
  show ?thesis
    by (rule exI[of _ plan]) (use plan(1) candidates range u(2) in \<open>simp only: plan(2-4) simp_thms\<close>)
qed

definition write_demo :: write_request where
  "write_demo = \<lparr>wr_root = ''/data/route2'', wr_key = Some ''film-0001'', wr_epoch = ''e1'', wr_epoch_start = 40, wr_target = None,
     wr_published = [1, 0, 1], wr_duration = 2, wr_fingerprint = Some ''f'', wr_missing_fields = [], wr_init_validated = False,
     wr_init_status = Some ''hash_available'', wr_permission = Some ''verified_local'', wr_metadata_only = False,
     wr_writer_enabled = True, wr_manifest_enabled = False\<rparr>"

lemma write_plan_sound_witness:
  "\<exists>plan. build_shared_store_write_plan ''t'' write_demo = Inr plan
     \<and> (\<forall>p \<in> set (wp_segments plan). sp_candidate p \<longrightarrow> sm_index (sp_mapping p) \<in> {0, 1})"
proof -
  have key: "validate_shared_output_key (Some ''film-0001'') = Inr ''film-0001''" by code_simp
  have d: "0 < wr_duration write_demo" and k: "wr_key write_demo = Some ''film-0001''"
    and published: "max 0 ` set (wr_published write_demo) = {0, 1}" by (auto simp: write_demo_def)
  show ?thesis
    using write_plan_sound[OF d, of "''film-0001''" "''t''"] key k unfolding published by fastforce
qed

end
