(* ===== verification/Shared_Writer.thy ===== *)
theory Shared_Writer
  imports Shared_Ranges
begin

text \<open>
  The writers of \<^verbatim>\<open>route2_shared_output_store.py\<close>: the init file, the media segments and the metadata of the
  directory of one shared output key.

  The directory is a record: its JSON files with the fields the writers decide on, the init file with its
  checksum file, and the segment files by name. A JSON file that does not exist is \<open>None\<close>. The staging
  directory is private to one call and left out; every rename is atomic. The hash of a file is
  \<^verbatim>\<open>hashlib.sha256\<close>, an argument \<open>sha\<close> of the definitions. \<open>now\<close> is \<^verbatim>\<open>utcnow_iso()\<close>, never the empty string.
  The file system itself is taken not to fail.
\<close>

type_synonym bytes = string

section \<open>Conflict records\<close>

record conflict_record =
  cf_index :: int
  cf_first :: string
  cf_last :: string
  cf_existing_sha :: "string option"
  cf_candidate_sha :: "string option"
  cf_existing_size :: "int option"
  cf_candidate_size :: "int option"

text \<open>What a metadata file or a caller may hold for a conflict: a mapping (with the number read from its index, if
  there is one), a bare index, or something without a number.\<close>

record raw_fields =
  rf_index :: "int option"
  rf_first :: "string option"
  rf_detected :: "string option"
  rf_last :: "string option"
  rf_existing_sha :: "string option"
  rf_candidate_sha :: "string option"
  rf_existing_size :: "int option"
  rf_candidate_size :: "int option"

datatype raw_conflict = Raw_Mapping raw_fields | Raw_Index int | Raw_Other

definition raw_of :: "conflict_record \<Rightarrow> raw_conflict" where
  "raw_of c = Raw_Mapping \<lparr>rf_index = Some (cf_index c), rf_first = Some (cf_first c), rf_detected = None,
     rf_last = Some (cf_last c), rf_existing_sha = cf_existing_sha c, rf_candidate_sha = cf_candidate_sha c,
     rf_existing_size = cf_existing_size c, rf_candidate_size = cf_candidate_size c\<rparr>"

definition or_else :: "string option \<Rightarrow> string option \<Rightarrow> string option" where
  "or_else a b = (if truthy_string a then a else b)"

fun normalize_conflict_record :: "string option \<Rightarrow> string \<Rightarrow> raw_conflict \<Rightarrow> conflict_record option" where
  "normalize_conflict_record updated now (Raw_Mapping f) =
     (case rf_index f of
        None \<Rightarrow> None
      | Some i \<Rightarrow>
          let first = or_string (or_else (rf_first f) (or_else (rf_detected f) updated)) now;
              last = or_string (or_else (rf_last f) (or_else (rf_detected f) updated)) first
          in Some \<lparr>cf_index = max 0 i, cf_first = first, cf_last = last, cf_existing_sha = rf_existing_sha f,
               cf_candidate_sha = rf_candidate_sha f, cf_existing_size = rf_existing_size f,
               cf_candidate_size = rf_candidate_size f\<rparr>)"
| "normalize_conflict_record updated now (Raw_Index i) =
     (let stamp = or_string updated now in
      Some \<lparr>cf_index = max 0 i, cf_first = stamp, cf_last = stamp, cf_existing_sha = None, cf_candidate_sha = None,
        cf_existing_size = None, cf_candidate_size = None\<rparr>)"
| "normalize_conflict_record updated now Raw_Other = None"

definition newer :: "'a option \<Rightarrow> 'a option \<Rightarrow> 'a option" where
  "newer given kept = (case given of Some x \<Rightarrow> Some x | None \<Rightarrow> kept)"

definition update_conflict :: "conflict_record \<Rightarrow> conflict_record \<Rightarrow> conflict_record" where
  "update_conflict kept r =
     kept\<lparr>cf_last := or_string (Some (cf_last r)) (cf_last kept),
       cf_existing_sha := newer (cf_existing_sha r) (cf_existing_sha kept),
       cf_candidate_sha := newer (cf_candidate_sha r) (cf_candidate_sha kept),
       cf_existing_size := newer (cf_existing_size r) (cf_existing_size kept),
       cf_candidate_size := newer (cf_candidate_size r) (cf_candidate_size kept)\<rparr>"

definition merge_conflict ::
  "string option \<Rightarrow> string \<Rightarrow> (int \<times> conflict_record) list \<Rightarrow> raw_conflict \<Rightarrow> (int \<times> conflict_record) list" where
  "merge_conflict updated now merged raw =
     (case normalize_conflict_record updated now raw of
        None \<Rightarrow> merged
      | Some r \<Rightarrow>
          (case dict_get merged (cf_index r) of
             None \<Rightarrow> dict_set merged (cf_index r) r
           | Some kept \<Rightarrow> dict_set merged (cf_index r) (update_conflict kept r)))"

text \<open>The sources are given as one list, in their order.\<close>

definition merge_conflict_records :: "string option \<Rightarrow> string \<Rightarrow> raw_conflict list \<Rightarrow> conflict_record list" where
  "merge_conflict_records updated now raws =
     (let merged = foldl (merge_conflict updated now) [] raws
      in map (\<lambda>i. the (dict_get merged i)) (sort (map fst merged)))"

definition conflict_indexes :: "conflict_record list \<Rightarrow> int list" where
  "conflict_indexes cs = sorted_ints (map (\<lambda>c. max 0 (cf_index c)) cs)"

section \<open>What a payload says about serving\<close>

record servability =
  sv_integrity :: bool
  sv_stable :: bool
  sv_mixed :: bool
  sv_indexes :: "int list"
  sv_count :: nat
  sv_first :: "string option"
  sv_last :: "string option"
  sv_allowed :: bool
  sv_blocked :: bool
  sv_reason :: string
  sv_reasons :: "string list"
  sv_canonical_required :: bool
  sv_conflicts :: "conflict_record list"

definition least_string :: "string list \<Rightarrow> string option" where
  "least_string xs = (case xs of [] \<Rightarrow> None | x # rest \<Rightarrow> Some (foldl min x rest))"

definition greatest_string :: "string list \<Rightarrow> string option" where
  "greatest_string xs = (case xs of [] \<Rightarrow> None | x # rest \<Rightarrow> Some (foldl max x rest))"

definition servability_fields :: "string \<Rightarrow> bool \<Rightarrow> bool \<Rightarrow> conflict_record list \<Rightarrow> servability" where
  "servability_fields now media integrity conflicts =
     (let records = merge_conflict_records None now (map raw_of conflicts);
          indexes = conflict_indexes records;
          mixed = (indexes \<noteq> []);
          base = [''serving_disabled'', ''canonical_generation_required'']
      in \<lparr>sv_integrity = integrity, sv_stable = False, sv_mixed = mixed, sv_indexes = indexes, sv_count = length indexes,
          sv_first = least_string (filter (\<lambda>s. s \<noteq> []) (map cf_first records)),
          sv_last = greatest_string (filter (\<lambda>s. s \<noteq> []) (map cf_last records)),
          sv_allowed = False, sv_blocked = True,
          sv_reason = (if mixed then ''segment_hash_conflict''
                       else if \<not> media then ''media_bytes_not_present'' else ''canonical_generation_required''),
          sv_reasons = sorted_strings (base @ (if mixed then [''segment_hash_conflict'']
                         else if \<not> media then [''media_bytes_not_present''] else [''stability_not_proven''])),
          sv_canonical_required = True, sv_conflicts = records\<rparr>)"

text \<open>The conflicts a stored payload brings into a merge: its records, then its bare indexes.\<close>

definition stored_conflicts :: "servability option \<Rightarrow> raw_conflict list" where
  "stored_conflicts v =
     (case v of None \<Rightarrow> [] | Some s \<Rightarrow> map raw_of (sv_conflicts s) @ map Raw_Index (sv_indexes s))"

definition apply_servability_fields :: "string \<Rightarrow> servability option \<Rightarrow> bool \<Rightarrow> bool \<Rightarrow> conflict_record list \<Rightarrow> servability" where
  "apply_servability_fields now before media integrity conflicts =
     servability_fields now media integrity
       (merge_conflict_records None now (stored_conflicts before @ map raw_of conflicts))"

section \<open>The directory of a key\<close>

datatype stored_file = Regular_File bytes | Irregular_File

record contract_payload =
  ct_fields :: "(string \<times> string) list"
  ct_created :: string
  ct_updated :: string

record metadata_payload =
  md_key :: string
  md_duration :: real
  md_media :: bool
  md_ready :: bool
  md_writer_policy :: string
  md_writer_enabled :: bool
  md_manifest_enabled :: bool
  md_serving_enabled :: bool
  md_init_hash :: "string option"
  md_init_size :: "int option"
  md_init_written :: "string option"
  md_updated :: string
  md_servability :: "servability option"

record stored_range =
  sg_range :: index_range
  sg_status :: string
  sg_media :: bool
  sg_servability :: servability

record ranges_payload =
  rp_duration :: real
  rp_status :: string
  rp_media :: bool
  rp_ranges :: "stored_range list"
  rp_sparse :: "int list"
  rp_updated :: string
  rp_servability :: "servability option"

record segment_record =
  sr_index :: int
  sr_start :: real
  sr_end :: real
  sr_filename :: string
  sr_size :: nat
  sr_sha :: string
  sr_written :: string
  sr_writer :: "string option"

record segments_payload =
  sj_media :: bool
  sj_segments :: "segment_record list"
  sj_updated :: string
  sj_servability :: "servability option"

record shared_store =
  st_contract :: "contract_payload option"
  st_metadata :: "metadata_payload option"
  st_ranges :: "ranges_payload option"
  st_segments :: "segments_payload option"
  st_init :: "bytes option"
  st_init_sha :: "string option"
  st_files :: "(string \<times> stored_file) list"

definition read_sha256_file :: "string option \<Rightarrow> string option" where
  "read_sha256_file text_of =
     (case text_of of
        None \<Rightarrow> None
      | Some t \<Rightarrow> let payload = py_strip t in
                   if payload = [] then None else Some (py_lower (takeWhile (\<lambda>c. \<not> is_py_space c) payload)))"

definition payload_conflicts :: "shared_store \<Rightarrow> raw_conflict list" where
  "payload_conflicts st =
     stored_conflicts (case st_metadata st of None \<Rightarrow> None | Some m \<Rightarrow> md_servability m)
     @ stored_conflicts (case st_ranges st of None \<Rightarrow> None | Some r \<Rightarrow> rp_servability r)
     @ stored_conflicts (case st_segments st of None \<Rightarrow> None | Some s \<Rightarrow> sj_servability s)"

section \<open>Writing the init file\<close>

record init_request =
  iq_key :: "string option"
  iq_source :: "bytes option"
  iq_enabled :: bool
  iq_fingerprint :: "string option"
  iq_metadata_ready :: bool
  iq_contract_status :: "string option"
  iq_init_status :: "string option"
  iq_expected :: "string option"
  iq_preconditions :: "string list"

record init_result =
  in_enabled :: bool
  in_attempted :: bool
  in_status :: string
  in_blockers :: "string list"
  in_hash :: "string option"
  in_size :: "int option"
  in_present :: bool
  in_errors :: "string list"

definition compatibility_blockers :: "string \<Rightarrow> string option \<Rightarrow> string list" where
  "compatibility_blockers pending status =
     (let normalized = py_strip (or_string status []) in
      if normalized = ''mismatch'' then [''init_mismatch'']
      else if normalized \<in> {''pending'', ''pending_init'', ''unavailable''} then [pending]
      else if normalized \<notin> {''hash_available'', ''compatible_by_hash''} then [''missing_init_compatibility''] else [])"

text \<open>The checks the two media writers share.\<close>

definition store_blockers ::
  "string list \<Rightarrow> string option \<Rightarrow> string option \<Rightarrow> bool \<Rightarrow> string option \<Rightarrow> string list" where
  "store_blockers preconditions key fingerprint ready contract =
     filter (\<lambda>b. b \<noteq> []) preconditions
     @ (if truthy_string key then [] else [''missing_shared_output_key''])
     @ (if py_strip (or_string fingerprint []) = [] then [''missing_output_contract''] else [])
     @ (if ready then [] else [''shared_metadata_missing''])
     @ (if contract = Some ''conflict'' then [''shared_contract_conflict''] else [])"

definition INIT_HARD_BLOCKERS :: "string list" where
  "INIT_HARD_BLOCKERS = [''missing_shared_output_key'', ''missing_output_contract'', ''output_contract_incomplete'',
     ''shared_metadata_missing'', ''shared_contract_conflict'', ''init_mismatch'', ''pending_init'',
     ''missing_init_compatibility'', ''init_missing'', ''provider_access_unavailable'']"

definition init_outcome ::
  "string \<Rightarrow> string list \<Rightarrow> bool \<Rightarrow> string option \<Rightarrow> int option \<Rightarrow> bool \<Rightarrow> string list \<Rightarrow> init_result" where
  "init_outcome status blockers attempted hash bytes_size present errors =
     \<lparr>in_enabled = True, in_attempted = attempted, in_status = status, in_blockers = sorted_strings blockers, in_hash = hash,
      in_size = bytes_size, in_present = present, in_errors = errors\<rparr>"

definition update_metadata_for_shared_init :: "string \<Rightarrow> string \<Rightarrow> string \<Rightarrow> int \<Rightarrow> shared_store \<Rightarrow> shared_store" where
  "update_metadata_for_shared_init now stamp hash bytes_size st =
     (case st_metadata st of
        None \<Rightarrow> st
      | Some m \<Rightarrow>
          st\<lparr>st_metadata := Some (m\<lparr>md_init_hash := Some hash, md_init_size := Some bytes_size, md_init_written := Some stamp,
            md_serving_enabled := False, md_manifest_enabled := False, md_media := False, md_writer_enabled := False,
            md_writer_policy := ''init_writer_only'', md_updated := stamp,
            md_servability := Some (apply_servability_fields now (md_servability m) False False [])\<rparr>)\<rparr>)"

text \<open>The part after the hard blockers: the staged copy is compared with what is there.\<close>

definition place_init :: "(bytes \<Rightarrow> string) \<Rightarrow> string \<Rightarrow> string \<Rightarrow> string list \<Rightarrow> string option \<Rightarrow> bytes \<Rightarrow> shared_store \<Rightarrow> init_result \<times> shared_store" where
  "place_init sha now stamp blockers expected staged st =
     (let staged_hash = sha staged; staged_size = int (length staged);
          wanted = py_lower (py_strip (or_string expected []));
          existing = read_sha256_file (st_init_sha st);
          other = (\<exists>x. existing = Some x \<and> x \<noteq> staged_hash)
      in if wanted \<noteq> [] \<and> wanted \<noteq> staged_hash
         then (init_outcome ''failed'' (blockers @ [''init_hash_mismatch_source'']) True None None (st_init st \<noteq> None) [], st)
         else case st_init st of
           Some final \<Rightarrow>
             let final_hash = sha final; final_size = int (length final) in
             if other then (init_outcome ''conflict'' (blockers @ [''shared_init_hash_conflict'']) True existing (Some final_size) True [], st)
             else if final_hash \<noteq> staged_hash
             then (init_outcome ''conflict'' (blockers @ [''shared_init_hash_conflict'']) True (Some final_hash) (Some final_size) True [], st)
             else (init_outcome ''already_present'' blockers True (Some staged_hash) (Some final_size) True [],
                   update_metadata_for_shared_init now stamp staged_hash final_size
                     (if existing = None then st\<lparr>st_init_sha := Some (staged_hash @ [CHR 0x0A])\<rparr> else st))
         | None \<Rightarrow>
             if other then (init_outcome ''conflict'' (blockers @ [''shared_init_hash_conflict'']) True existing None False [], st)
             else (init_outcome ''written'' blockers True (Some staged_hash) (Some staged_size) True [],
                   update_metadata_for_shared_init now stamp staged_hash staged_size
                     (st\<lparr>st_init := Some staged, st_init_sha := Some (staged_hash @ [CHR 0x0A])\<rparr>)))"

definition init_writer_blockers :: "init_request \<Rightarrow> string list" where
  "init_writer_blockers q =
     store_blockers (iq_preconditions q) (iq_key q) (iq_fingerprint q) (iq_metadata_ready q) (iq_contract_status q)
     @ compatibility_blockers ''pending_init'' (iq_init_status q)
     @ (if iq_source q = None then [''init_missing''] else [])"

definition write_shared_output_init_media ::
  "(bytes \<Rightarrow> string) \<Rightarrow> string \<Rightarrow> init_request \<Rightarrow> shared_store \<Rightarrow> (py_error + init_result) \<times> shared_store" where
  "write_shared_output_init_media sha now q st =
     (if \<not> iq_enabled q
      then (Inr \<lparr>in_enabled = False, in_attempted = False, in_status = ''disabled'', in_blockers = [''init_writer_disabled''],
              in_hash = None, in_size = None, in_present = False, in_errors = []\<rparr>, st)
      else
        let blockers = init_writer_blockers q; hard = filter (\<lambda>b. b \<in> set INIT_HARD_BLOCKERS) blockers in
        if hard \<noteq> [] then
          (let status = (if ''shared_contract_conflict'' \<in> set hard \<or> ''init_mismatch'' \<in> set hard then ''conflict'' else ''not_ready'') in
           if truthy_string (iq_key q)
           then (and_then (validate_shared_output_key (iq_key q))
                   (\<lambda>_. Inr (init_outcome status blockers False None None (st_init st \<noteq> None) [])), st)
           else (Inr (init_outcome status blockers False None None False []), st))
        else
          case validate_shared_output_key (iq_key q) of
            Inl _ \<Rightarrow> (Inr (init_outcome ''failed'' (blockers @ [''shared_init_write_failed'']) True None None False
                           [''shared_init_write_failed:ValueError'']), st)
          | Inr _ \<Rightarrow>
              if st_metadata st = None
              then (Inr (init_outcome ''not_ready'' (blockers @ [''shared_metadata_missing'']) False None None False []), st)
              else let (result, st') = place_init sha now now blockers (iq_expected q) (the (iq_source q)) st in (Inr result, st'))"

section \<open>Writing segments\<close>

text \<open>A planned segment as the writer reads it: \<open>pi_source\<close> is the content of the published file, \<open>None\<close> when no
  regular file is there.\<close>

record plan_item =
  pi_blockers :: "string list"
  pi_source :: "bytes option"
  pi_index :: int
  pi_filename :: "string option"
  pi_start :: real
  pi_end :: real

record segment_request =
  sq_key :: "string option"
  sq_plans :: "plan_item list"
  sq_enabled :: bool
  sq_fingerprint :: "string option"
  sq_metadata_ready :: bool
  sq_contract_status :: "string option"
  sq_init_status :: "string option"
  sq_duration :: real
  sq_preconditions :: "string list"
  sq_writer :: "string option"

record segment_result =
  so_enabled :: bool
  so_attempted :: bool
  so_status :: string
  so_writes :: nat
  so_already :: nat
  so_conflict_count :: nat
  so_blockers :: "string list"
  so_last_index :: "int option"
  so_last_hash :: "string option"
  so_range_start :: "int option"
  so_range_end :: "int option"
  so_media :: bool
  so_servability :: servability
  so_errors :: "string list"

record write_acc =
  wa_files :: "(string \<times> stored_file) list"
  wa_records :: "(int \<times> segment_record) list"
  wa_conflicts :: "conflict_record list"
  wa_blockers :: "string list"
  wa_writes :: nat
  wa_already :: nat
  wa_conflict_count :: nat
  wa_last :: "(int \<times> string) option"
  wa_attempted :: bool

definition SOFT_PLAN_BLOCKERS :: "string list" where
  "SOFT_PLAN_BLOCKERS = [''no_shared_manifest'', ''serving_disabled'', ''media_bytes_not_present'']"

definition SEGMENT_HARD_BLOCKERS :: "string list" where
  "SEGMENT_HARD_BLOCKERS = [''missing_shared_output_key'', ''missing_output_contract'', ''output_contract_incomplete'',
     ''shared_metadata_missing'', ''shared_contract_conflict'', ''init_mismatch'', ''pending_init_compatibility'',
     ''missing_init_compatibility'', ''provider_access_unavailable'', ''permission_unverified'', ''permission_blocked'',
     ''stopped_or_expired_workload'', ''explicit_stop_requested'', ''shared_init_missing'']"

definition segment_record_payload ::
  "plan_item \<Rightarrow> string \<Rightarrow> nat \<Rightarrow> string \<Rightarrow> string option \<Rightarrow> string \<Rightarrow> segment_record" where
  "segment_record_payload p name bytes_size hash writer written =
     \<lparr>sr_index = pi_index p, sr_start = py_round 6 (pi_start p), sr_end = py_round 6 (pi_end p), sr_filename = name,
      sr_size = bytes_size, sr_sha = hash, sr_written = written,
      sr_writer = (let w = py_strip (or_string writer []) in if w = [] then None else Some w)\<rparr>"

definition hash_conflict :: "string \<Rightarrow> int \<Rightarrow> string \<Rightarrow> nat \<Rightarrow> string \<Rightarrow> nat \<Rightarrow> raw_conflict" where
  "hash_conflict stamp index final_hash final_size staged_hash staged_size =
     Raw_Mapping \<lparr>rf_index = Some index, rf_first = Some stamp, rf_detected = None, rf_last = Some stamp,
       rf_existing_sha = Some final_hash, rf_candidate_sha = Some staged_hash, rf_existing_size = Some (int final_size),
       rf_candidate_size = Some (int staged_size)\<rparr>"

text \<open>One planned segment. \<open>Inl\<close> is an exception that leaves the loop; a segment that cannot be written is skipped.\<close>

definition place_segment ::
  "(bytes \<Rightarrow> string) \<Rightarrow> string \<Rightarrow> string \<Rightarrow> string option \<Rightarrow> plan_item \<Rightarrow> string \<Rightarrow> bytes \<Rightarrow> write_acc \<Rightarrow> write_acc" where
  "place_segment sha now stamp writer p name staged acc =
     (let hash = sha staged; index = pi_index p in
      case dict_get (wa_files acc) name of
        Some Irregular_File \<Rightarrow>
          acc\<lparr>wa_blockers := wa_blockers acc @ [''shared_segment_path_not_regular''], wa_conflict_count := wa_conflict_count acc + 1\<rparr>
      | Some (Regular_File final) \<Rightarrow>
          if sha final \<noteq> hash
          then acc\<lparr>wa_blockers := wa_blockers acc @ [''segment_hash_conflict''], wa_conflict_count := wa_conflict_count acc + 1,
                 wa_conflicts := merge_conflict_records (Some stamp) now
                   (map raw_of (wa_conflicts acc) @ [hash_conflict stamp index (sha final) (length final) hash (length staged)])\<rparr>
          else acc\<lparr>wa_already := wa_already acc + 1,
                 wa_records := dict_set (wa_records acc) index
                   (segment_record_payload p name (length final) (sha final) writer
                      (or_string (map_option sr_written (dict_get (wa_records acc) index)) stamp)),
                 wa_last := Some (index, sha final)\<rparr>
      | None \<Rightarrow>
          acc\<lparr>wa_files := dict_set (wa_files acc) name (Regular_File staged), wa_writes := wa_writes acc + 1,
            wa_records := dict_set (wa_records acc) index (segment_record_payload p name (length staged) hash writer stamp),
            wa_last := Some (index, hash)\<rparr>)"

definition write_segment ::
  "(bytes \<Rightarrow> string) \<Rightarrow> string \<Rightarrow> string \<Rightarrow> string option \<Rightarrow> plan_item \<Rightarrow> write_acc \<Rightarrow> (write_acc \<times> bool)" where
  "write_segment sha now stamp writer p acc =
     (let hard = filter (\<lambda>b. b \<notin> set SOFT_PLAN_BLOCKERS) (pi_blockers p)
                 @ (if pi_source p = None then [''published_segment_missing''] else [])
      in if hard \<noteq> [] then (acc\<lparr>wa_blockers := wa_blockers acc @ hard\<rparr>, True)
         else
           let acc = acc\<lparr>wa_attempted := True\<rparr> in
           case shared_segment_filename (pi_index p) of
             Inl _ \<Rightarrow> (acc, False)
           | Inr name \<Rightarrow>
               if or_string (pi_filename p) name \<noteq> name
               then (acc\<lparr>wa_blockers := wa_blockers acc @ [''segment_filename_mismatch'']\<rparr>, True)
               else (place_segment sha now stamp writer p name (the (pi_source p)) acc, True))"

text \<open>The loop stops at a segment whose index is negative, the one exception its body does not catch.\<close>

fun write_segments ::
  "(bytes \<Rightarrow> string) \<Rightarrow> string \<Rightarrow> string \<Rightarrow> string option \<Rightarrow> plan_item list \<Rightarrow> write_acc \<Rightarrow> (write_acc \<times> bool)" where
  "write_segments sha now stamp writer [] acc = (acc, True)"
| "write_segments sha now stamp writer (p # ps) acc =
     (let (acc', fine) = write_segment sha now stamp writer p acc in
      if fine then write_segments sha now stamp writer ps acc' else (acc', False))"

definition media_bytes_range :: "string \<Rightarrow> conflict_record list \<Rightarrow> index_range \<Rightarrow> stored_range" where
  "media_bytes_range now conflicts r =
     \<lparr>sg_range = r, sg_status = ''media_bytes_present'', sg_media = True,
      sg_servability = apply_servability_fields now None True True
        (filter (\<lambda>c. ir_start r \<le> cf_index c \<and> cf_index c < ir_end r)
           (merge_conflict_records None now (map raw_of conflicts)))\<rparr>"

definition build_media_bytes_ranges_metadata ::
  "string \<Rightarrow> real \<Rightarrow> int list \<Rightarrow> string \<Rightarrow> conflict_record list \<Rightarrow> py_error + ranges_payload" where
  "build_media_bytes_ranges_metadata now d indexes stamp given =
     (let conflicts = merge_conflict_records None now (map raw_of given) in
      and_then (merge_contiguous_ranges (map (\<lambda>i. Range_Pair i (i + 1)) indexes) d ''shared_segment_writer'') (\<lambda>ranges.
      and_then (validate_segment_duration d) (\<lambda>d.
        Inr \<lparr>rp_duration = d, rp_status = (if ranges \<noteq> [] then ''media_bytes_present'' else ''empty''),
             rp_media = (ranges \<noteq> []), rp_ranges = map (media_bytes_range now conflicts) ranges,
             rp_sparse = sorted_ints (map (max 0) indexes), rp_updated = stamp,
             rp_servability = Some (apply_servability_fields now None (ranges \<noteq> []) (ranges \<noteq> []) conflicts)\<rparr>)))"

definition ordered_records :: "(int \<times> segment_record) list \<Rightarrow> segment_record list" where
  "ordered_records records = map (\<lambda>i. the (dict_get records i)) (sort (map fst records))"

text \<open>The three files are written one after the other; the result is the first range of indices.\<close>

definition update_shared_segment_metadata ::
  "string \<Rightarrow> string \<Rightarrow> real \<Rightarrow> (int \<times> segment_record) list \<Rightarrow> conflict_record list \<Rightarrow> shared_store
     \<Rightarrow> (py_error + (int option \<times> int option)) \<times> shared_store" where
  "update_shared_segment_metadata now stamp d records given st =
     (let ordered = ordered_records records; media = (ordered \<noteq> []);
          conflicts = merge_conflict_records (Some stamp) now (payload_conflicts st @ map raw_of given)
      in case validate_segment_duration d of
        Inl e \<Rightarrow> (Inl e, st)
      | Inr _ \<Rightarrow>
          let segments = \<lparr>sj_media = media, sj_segments = ordered, sj_updated = stamp,
                 sj_servability = Some (apply_servability_fields now None media media conflicts)\<rparr>;
              st1 = st\<lparr>st_segments := Some segments\<rparr>
          in case build_media_bytes_ranges_metadata now d (map fst records) stamp conflicts of
               Inl e \<Rightarrow> (Inl e, st1)
             | Inr ranges \<Rightarrow>
                 let st2 = st1\<lparr>st_ranges := Some ranges\<rparr>;
                     st3 = (case st_metadata st2 of
                              None \<Rightarrow> st2
                            | Some m \<Rightarrow> st2\<lparr>st_metadata := Some (m\<lparr>md_ready := True, md_writer_policy := ''segment_writer_only'',
                                md_writer_enabled := True, md_manifest_enabled := False, md_serving_enabled := False,
                                md_media := media, md_updated := stamp,
                                md_servability := Some (apply_servability_fields now (md_servability m) media media conflicts)\<rparr>)\<rparr>)
                 in (and_then (merge_contiguous_ranges (map (\<lambda>r. Range_Pair (sr_index r) (sr_index r + 1)) ordered) d ''future'')
                       (\<lambda>rs. Inr (case rs of [] \<Rightarrow> (None, None) | x # _ \<Rightarrow> (Some (ir_start x), Some (ir_end x)))), st3))"

definition segment_outcome ::
  "string \<Rightarrow> string \<Rightarrow> bool \<Rightarrow> string list \<Rightarrow> bool \<Rightarrow> conflict_record list \<Rightarrow> string list \<Rightarrow> segment_result" where
  "segment_outcome now status attempted blockers media conflicts errors =
     \<lparr>so_enabled = True, so_attempted = attempted, so_status = status, so_writes = 0, so_already = 0, so_conflict_count = 0,
      so_blockers = sorted_strings (filter (\<lambda>b. b \<noteq> []) blockers), so_last_index = None, so_last_hash = None,
      so_range_start = None, so_range_end = None, so_media = media,
      so_servability = servability_fields now media media conflicts, so_errors = errors\<rparr>"

definition segment_failure :: "string \<Rightarrow> string list \<Rightarrow> segment_result" where
  "segment_failure now blockers =
     segment_outcome now ''failed'' True (blockers @ [''shared_segment_write_failed'']) False []
       [''shared_segment_write_failed:ValueError'']"

definition existing_records :: "shared_store \<Rightarrow> (int \<times> segment_record) list" where
  "existing_records st =
     (case st_segments st of
        None \<Rightarrow> []
      | Some s \<Rightarrow> foldl (\<lambda>records r. dict_set records (sr_index r) r) [] (sj_segments s))"

definition segment_writer_blockers :: "segment_request \<Rightarrow> shared_store \<Rightarrow> string list" where
  "segment_writer_blockers q st =
     store_blockers (sq_preconditions q) (sq_key q) (sq_fingerprint q) (sq_metadata_ready q) (sq_contract_status q)
     @ compatibility_blockers ''pending_init_compatibility'' (sq_init_status q)
     @ (if st_metadata st = None then [''shared_metadata_missing''] else [])
     @ (if st_init st = None \<or> read_sha256_file (st_init_sha st) = None then [''shared_init_missing''] else [])"

definition segment_status :: "write_acc \<Rightarrow> string" where
  "segment_status acc =
     (if wa_conflict_count acc > 0 then ''conflict''
      else if wa_writes acc > 0 then ''written''
      else if wa_already acc > 0 then ''already_present'' else ''not_ready'')"

definition finish_segments ::
  "string \<Rightarrow> real \<Rightarrow> write_acc \<Rightarrow> shared_store \<Rightarrow> segment_result \<times> shared_store" where
  "finish_segments now d acc st =
     (let st1 = st\<lparr>st_files := wa_files acc\<rparr>;
          (bounds, st2) = (if wa_records acc \<noteq> [] \<or> wa_conflicts acc \<noteq> []
                           then update_shared_segment_metadata now now d (wa_records acc) (wa_conflicts acc) st1
                           else (Inr (None, None), st1))
      in case bounds of
           Inl _ \<Rightarrow> (segment_failure now (wa_blockers acc), st2)
         | Inr (s, e) \<Rightarrow>
             ((segment_outcome now (segment_status acc) (wa_attempted acc) (wa_blockers acc) (wa_records acc \<noteq> [])
                 (wa_conflicts acc) [])
               \<lparr>so_writes := wa_writes acc, so_already := wa_already acc, so_conflict_count := wa_conflict_count acc,
                so_last_index := map_option fst (wa_last acc), so_last_hash := map_option snd (wa_last acc),
                so_range_start := s, so_range_end := e\<rparr>, st2))"

definition start_acc :: "string \<Rightarrow> string list \<Rightarrow> shared_store \<Rightarrow> write_acc" where
  "start_acc now blockers st =
     \<lparr>wa_files = st_files st, wa_records = existing_records st,
      wa_conflicts = merge_conflict_records (Some now) now (payload_conflicts st), wa_blockers = blockers,
      wa_writes = 0, wa_already = 0, wa_conflict_count = 0, wa_last = None, wa_attempted = False\<rparr>"

definition write_shared_output_segment_media ::
  "(bytes \<Rightarrow> string) \<Rightarrow> string \<Rightarrow> segment_request \<Rightarrow> shared_store \<Rightarrow> segment_result \<times> shared_store" where
  "write_shared_output_segment_media sha now q st =
     (if \<not> sq_enabled q
      then ((segment_outcome now ''disabled'' False [''segment_writer_disabled''] False [] [])\<lparr>so_enabled := False\<rparr>, st)
      else
        let early = store_blockers (sq_preconditions q) (sq_key q) (sq_fingerprint q) (sq_metadata_ready q) (sq_contract_status q)
              @ compatibility_blockers ''pending_init_compatibility'' (sq_init_status q)
        in if \<not> truthy_string (sq_key q) then (segment_outcome now ''not_ready'' False early False [] [], st)
        else
          case validate_shared_output_key (sq_key q) of
            Inl _ \<Rightarrow> (segment_failure now early, st)
          | Inr _ \<Rightarrow>
              let blockers = segment_writer_blockers q st; acc = start_acc now blockers st;
                  hard = filter (\<lambda>b. b \<in> set SEGMENT_HARD_BLOCKERS) blockers
              in if hard \<noteq> []
                 then (segment_outcome now
                         (if ''shared_contract_conflict'' \<in> set hard \<or> ''init_mismatch'' \<in> set hard then ''conflict'' else ''not_ready'')
                         False blockers (wa_records acc \<noteq> []) (wa_conflicts acc) [], st)
                 else if sq_plans q = []
                 then (segment_outcome now ''not_ready'' False (blockers @ [''no_published_segments'']) (wa_records acc \<noteq> [])
                         (wa_conflicts acc) [], st)
                 else
                   let (acc', fine) = write_segments sha now now (sq_writer q) (sq_plans q) acc in
                   if fine then finish_segments now (sq_duration q) acc' st
                   else (segment_failure now (wa_blockers acc'), st\<lparr>st_files := wa_files acc'\<rparr>))"

section \<open>Writing the metadata\<close>

definition SHARED_OUTPUT_STORE_BLOCKERS :: "string list" where
  "SHARED_OUTPUT_STORE_BLOCKERS = [''metadata_only'', ''no_segment_writer'', ''no_shared_manifest'',
     ''media_bytes_not_present'', ''serving_disabled'']"

definition metadata_only_status :: string where
  "metadata_only_status = ''metadata_only_confirmed_source_session''"

definition build_shared_output_metadata :: "string \<Rightarrow> string \<Rightarrow> real \<Rightarrow> metadata_payload" where
  "build_shared_output_metadata now key d =
     \<lparr>md_key = key, md_duration = d, md_media = False, md_ready = False, md_writer_policy = ''disabled'',
      md_writer_enabled = False, md_manifest_enabled = False, md_serving_enabled = False, md_init_hash = None,
      md_init_size = None, md_init_written = None, md_updated = now,
      md_servability = Some (apply_servability_fields now None False False [])\<rparr>"

definition metadata_only_range :: "string \<Rightarrow> index_range \<Rightarrow> stored_range" where
  "metadata_only_range now r =
     \<lparr>sg_range = r, sg_status = metadata_only_status, sg_media = False,
      sg_servability = apply_servability_fields now None False False []\<rparr>"

definition build_metadata_only_ranges ::
  "string \<Rightarrow> real \<Rightarrow> range_value list \<Rightarrow> string \<Rightarrow> py_error + ranges_payload" where
  "build_metadata_only_ranges now d given stamp =
     and_then (merge_contiguous_ranges given d metadata_only_status) (\<lambda>rs.
     and_then (validate_segment_duration d) (\<lambda>d.
       Inr \<lparr>rp_duration = d, rp_status = ''metadata_only'', rp_media = False, rp_ranges = map (metadata_only_range now) rs,
            rp_sparse = [], rp_updated = stamp,
            rp_servability = Some (apply_servability_fields now None False False [])\<rparr>))"

definition add_metadata_only_confirmed_range ::
  "string \<Rightarrow> ranges_payload \<Rightarrow> int \<Rightarrow> int \<Rightarrow> real \<Rightarrow> string \<Rightarrow> py_error + ranges_payload" where
  "add_metadata_only_confirmed_range now r s e d stamp =
     and_then (validate_segment_duration d) (\<lambda>d.
       build_metadata_only_ranges now d
         (map (\<lambda>x. Range_Mapping (Some (ir_start (sg_range x))) (Some (ir_end (sg_range x)))) (rp_ranges r) @ [Range_Pair s e]) stamp)"

record metadata_result =
  mr_written :: bool
  mr_contract_status :: string
  mr_metadata_status :: string
  mr_ranges_status :: string
  mr_range_count :: nat
  mr_media :: bool
  mr_servability :: servability
  mr_blockers :: "string list"
  mr_errors :: "string list"

definition ordered_store_blockers :: "string list \<Rightarrow> string list" where
  "ordered_store_blockers blockers =
     filter (\<lambda>b. b \<in> set blockers) SHARED_OUTPUT_STORE_BLOCKERS
     @ sorted_strings (filter (\<lambda>b. b \<notin> set SHARED_OUTPUT_STORE_BLOCKERS) blockers)"

definition same_contract :: "contract_payload \<Rightarrow> contract_payload \<Rightarrow> bool" where
  "same_contract a b = (set (ct_fields a) = set (ct_fields b))"

definition set_servability :: "string \<Rightarrow> conflict_record list \<Rightarrow> bool \<Rightarrow> bool \<Rightarrow> ranges_payload \<Rightarrow> ranges_payload" where
  "set_servability now conflicts media integrity r =
     r\<lparr>rp_servability := Some (apply_servability_fields now (rp_servability r) media integrity conflicts)\<rparr>"

definition payload_integrity :: "servability option \<Rightarrow> bool" where
  "payload_integrity v = (case v of None \<Rightarrow> False | Some s \<Rightarrow> sv_integrity s)"

text \<open>The new content of the ranges file and its status so far.\<close>

definition base_ranges ::
  "string \<Rightarrow> real \<Rightarrow> conflict_record list \<Rightarrow> ranges_payload option \<Rightarrow> py_error + (ranges_payload \<times> string)" where
  "base_ranges now d conflicts existing =
     (case existing of
        None \<Rightarrow> and_then (build_metadata_only_ranges now d [] now) (\<lambda>r. Inr (r, ''skipped''))
      | Some r \<Rightarrow>
          if rp_media r
          then Inr (set_servability now conflicts True
                      (case rp_servability r of None \<Rightarrow> True | Some v \<Rightarrow> sv_integrity v) (r\<lparr>rp_updated := now\<rparr>),
                    ''media_bytes_preserved'')
          else Inr (set_servability now conflicts (rp_media r) (payload_integrity (rp_servability r)) r, ''skipped''))"

definition final_ranges ::
  "string \<Rightarrow> real \<Rightarrow> conflict_record list \<Rightarrow> (int \<times> int) option \<Rightarrow> ranges_payload \<Rightarrow> string \<Rightarrow> py_error + ranges_payload" where
  "final_ranges now d conflicts candidate r status =
     and_then
       (case candidate of
          Some (s, e) \<Rightarrow> add_metadata_only_confirmed_range now r s e d now
        | None \<Rightarrow>
            if status \<noteq> ''media_bytes_preserved''
            then Inr (set_servability now conflicts False False
                        (r\<lparr>rp_updated := now, rp_status := ''metadata_only'', rp_media := False\<rparr>))
            else Inr r)
       (\<lambda>r. Inr (set_servability now conflicts (rp_media r) (payload_integrity (rp_servability r)) r))"

definition fresh_metadata :: "string \<Rightarrow> conflict_record list \<Rightarrow> bool \<Rightarrow> metadata_payload \<Rightarrow> metadata_payload" where
  "fresh_metadata now conflicts media m =
     (let m1 = m\<lparr>md_updated := now\<rparr>;
          m2 = (if media then m1\<lparr>md_media := True, md_writer_policy := ''segment_writer_only'', md_ready := True\<rparr> else m1)
      in m2\<lparr>md_servability := Some (apply_servability_fields now (md_servability m2) media media conflicts)\<rparr>)"

definition segments_stored :: "shared_store \<Rightarrow> bool" where
  "segments_stored st = (case st_segments st of None \<Rightarrow> False | Some s \<Rightarrow> sj_segments s \<noteq> [])"

definition metadata_outcome ::
  "string \<Rightarrow> conflict_record list \<Rightarrow> bool \<Rightarrow> bool \<Rightarrow> string \<Rightarrow> string \<Rightarrow> string \<Rightarrow> nat \<Rightarrow> string list \<Rightarrow> string list \<Rightarrow> metadata_result" where
  "metadata_outcome now conflicts media written contract_status metadata_status ranges_status range_count extra errors =
     \<lparr>mr_written = written, mr_contract_status = contract_status, mr_metadata_status = metadata_status,
      mr_ranges_status = ranges_status, mr_range_count = range_count, mr_media = media,
      mr_servability = servability_fields now media media conflicts,
      mr_blockers = ordered_store_blockers (SHARED_OUTPUT_STORE_BLOCKERS @ extra), mr_errors = errors\<rparr>"

definition store_payloads ::
  "string \<Rightarrow> string \<Rightarrow> contract_payload \<Rightarrow> metadata_payload \<Rightarrow> (int \<times> int) option \<Rightarrow> conflict_record list \<Rightarrow> bool \<Rightarrow> shared_store
     \<Rightarrow> metadata_result \<times> shared_store" where
  "store_payloads now contract_status contract metadata candidate conflicts media st =
     (let metadata_status = (if st_metadata st = None then ''written'' else ''updated'');
          st1 = st\<lparr>st_contract := Some contract, st_metadata := Some metadata\<rparr>;
          failure = (\<lambda>status. (metadata_outcome now conflicts media False contract_status metadata_status status 0
                       [''shared_output_metadata_write_failed''] [''shared_output_metadata_write_failed:ValueError''], st1))
      in case base_ranges now (md_duration metadata) conflicts (st_ranges st) of
           Inl _ \<Rightarrow> failure ''skipped''
         | Inr (r, status) \<Rightarrow>
             (case final_ranges now (md_duration metadata) conflicts candidate r status of
                Inl _ \<Rightarrow> failure status
              | Inr ranges \<Rightarrow>
                  let ranges_status = (if status \<noteq> ''media_bytes_preserved''
                        then (if st_ranges st \<noteq> None then ''metadata_only_updated'' else ''metadata_only_written'') else status)
                  in (metadata_outcome now conflicts (media \<or> rp_media ranges) True contract_status metadata_status ranges_status
                        (length (rp_ranges ranges)) [] [], st1\<lparr>st_ranges := Some ranges\<rparr>)))"

definition write_shared_output_store_metadata ::
  "string \<Rightarrow> contract_payload \<Rightarrow> metadata_payload \<Rightarrow> (int \<times> int) option \<Rightarrow> shared_store \<Rightarrow> metadata_result \<times> shared_store" where
  "write_shared_output_store_metadata now contract metadata candidate st =
     (let conflicts = merge_conflict_records (Some now) now (payload_conflicts st);
          media = segments_stored st;
          new_contract = contract\<lparr>ct_updated := now\<rparr>;
          new_metadata = fresh_metadata now conflicts media metadata
      in case st_contract st of
           Some old \<Rightarrow>
             if \<not> same_contract old new_contract
             then (metadata_outcome now conflicts media False ''conflict'' ''skipped'' ''skipped'' 0 [''shared_contract_conflict''] [], st)
             else store_payloads now (if old = new_contract then ''unchanged'' else ''updated'') new_contract new_metadata candidate conflicts media st
         | None \<Rightarrow> store_payloads now ''written'' new_contract new_metadata candidate conflicts media st)"

section \<open>Conflicts are merged by index\<close>

fun raw_index :: "raw_conflict \<Rightarrow> int option" where
  "raw_index (Raw_Mapping f) = map_option (max 0) (rf_index f)"
| "raw_index (Raw_Index i) = Some (max 0 i)"
| "raw_index Raw_Other = None"

definition conflict_ids :: "raw_conflict list \<Rightarrow> int set" where
  "conflict_ids raws = {i. \<exists>raw \<in> set raws. raw_index raw = Some i}"

lemma conflict_ids_simps [simp]:
  "conflict_ids [] = {}"
  "conflict_ids (raw # raws) = (case raw_index raw of None \<Rightarrow> {} | Some i \<Rightarrow> {i}) \<union> conflict_ids raws"
  "conflict_ids (xs @ ys) = conflict_ids xs \<union> conflict_ids ys"
  "conflict_ids (map Raw_Index is) = max 0 ` set is"
  "conflict_ids (map raw_of cs) = (\<lambda>c. max 0 (cf_index c)) ` set cs"
  by (auto simp: conflict_ids_def raw_of_def split: option.splits)

lemma raw_index_pos: "raw_index raw = Some i \<Longrightarrow> 0 \<le> i"
  by (cases raw) auto

lemma raw_index_nonneg: "i \<in> conflict_ids raws \<Longrightarrow> 0 \<le> i"
  by (auto simp: conflict_ids_def dest: raw_index_pos)

lemma normalize_index:
  "map_option cf_index (normalize_conflict_record updated now raw) = raw_index raw"
  by (cases "(updated, now, raw)" rule: normalize_conflict_record.cases) (auto simp: Let_def split: option.splits)

lemma merge_conflict_keys:
  assumes "\<forall>k c. dict_get merged k = Some c \<longrightarrow> cf_index c = k"
  shows "fst ` set (merge_conflict updated now merged raw)
       = fst ` set merged \<union> (case raw_index raw of None \<Rightarrow> {} | Some i \<Rightarrow> {i})
     \<and> (\<forall>k c. dict_get (merge_conflict updated now merged raw) k = Some c \<longrightarrow> cf_index c = k)"
proof (cases "normalize_conflict_record updated now raw")
  case None
  then show ?thesis using assms normalize_index[of updated now raw] by (simp add: merge_conflict_def)
next
  case (Some r)
  then have i: "raw_index raw = Some (cf_index r)" using normalize_index[of updated now raw] by simp
  show ?thesis
    using assms Some i
    by (auto simp: merge_conflict_def keys_dict_set update_conflict_def split: option.splits)
qed

lemma foldl_merge_keys:
  assumes "\<forall>k c. dict_get merged k = Some c \<longrightarrow> cf_index c = k"
  shows "fst ` set (foldl (merge_conflict updated now) merged raws) = fst ` set merged \<union> conflict_ids raws
     \<and> (\<forall>k c. dict_get (foldl (merge_conflict updated now) merged raws) k = Some c \<longrightarrow> cf_index c = k)"
  using assms
proof (induction raws arbitrary: merged)
  case (Cons raw raws)
  note step = merge_conflict_keys[OF Cons.prems, of updated now raw]
  show ?case using Cons.IH[OF step[THEN conjunct2]] step by auto
qed simp

lemma merged_indexes: "cf_index ` set (merge_conflict_records updated now raws) = conflict_ids raws"
proof -
  let ?m = "foldl (merge_conflict updated now) [] raws"
  have m: "fst ` set ?m = conflict_ids raws" "\<forall>k c. dict_get ?m k = Some c \<longrightarrow> cf_index c = k"
    using foldl_merge_keys[of "[]" updated now raws] by simp_all
  have "cf_index (the (dict_get ?m k)) = k" if "k \<in> fst ` set ?m" for k
    using that m(2) dict_get_None_iff[of ?m k] by auto
  then have "(\<lambda>k. cf_index (the (dict_get ?m k))) ` (fst ` set ?m) = (\<lambda>k. k) ` (fst ` set ?m)"
    by (rule image_cong[OF refl])
  then show ?thesis using m(1) by (simp add: merge_conflict_records_def Let_def image_image)
qed

lemma merged_max [simp]: "(\<lambda>c. max 0 (cf_index c)) ` set (merge_conflict_records updated now raws) = conflict_ids raws"
proof -
  have "(\<lambda>c. max 0 (cf_index c)) ` set (merge_conflict_records updated now raws)
      = max 0 ` (cf_index ` set (merge_conflict_records updated now raws))" by (simp add: image_image)
  also have "\<dots> = (\<lambda>i. i) ` conflict_ids raws" unfolding merged_indexes by (rule image_cong) (auto dest: raw_index_nonneg)
  finally show ?thesis by simp
qed

lemma conflict_indexes_set: "set (conflict_indexes cs) = (\<lambda>c. max 0 (cf_index c)) ` set cs"
  by (simp add: conflict_indexes_def sorted_ints_def)

lemma servability_indexes [simp]:
  "set (sv_indexes (servability_fields now media integrity cs)) = (\<lambda>c. max 0 (cf_index c)) ` set cs"
  "(\<lambda>c. max 0 (cf_index c)) ` set (sv_conflicts (servability_fields now media integrity cs)) = (\<lambda>c. max 0 (cf_index c)) ` set cs"
  by (simp_all add: servability_fields_def Let_def conflict_indexes_set)

lemma servability_mixed:
  "sv_mixed (servability_fields now media integrity cs) \<longleftrightarrow> cs \<noteq> []"
  "sv_reason (servability_fields now media integrity cs) = ''segment_hash_conflict'' \<longleftrightarrow> cs \<noteq> []"
proof -
  have "conflict_indexes (merge_conflict_records None now (map raw_of cs)) = [] \<longleftrightarrow> cs = []"
    using conflict_indexes_set[of "merge_conflict_records None now (map raw_of cs)"]
    by (metis (no_types, lifting) conflict_ids_simps(5) image_is_empty merged_max set_empty)
  then show "sv_mixed (servability_fields now media integrity cs) \<longleftrightarrow> cs \<noteq> []"
    "sv_reason (servability_fields now media integrity cs) = ''segment_hash_conflict'' \<longleftrightarrow> cs \<noteq> []"
    by (simp_all add: servability_fields_def Let_def)
qed

lemma stored_ids_servability [simp]:
  "conflict_ids (stored_conflicts (Some (servability_fields now media integrity cs))) = (\<lambda>c. max 0 (cf_index c)) ` set cs"
proof -
  have "max 0 ` ((\<lambda>c. max 0 (cf_index c)) ` set cs) = (\<lambda>c. max 0 (cf_index c)) ` set cs" by (simp add: image_image)
  then show ?thesis by (simp add: stored_conflicts_def)
qed

lemma stored_ids_apply [simp]:
  "conflict_ids (stored_conflicts (Some (apply_servability_fields now before media integrity cs)))
     = conflict_ids (stored_conflicts before) \<union> (\<lambda>c. max 0 (cf_index c)) ` set cs"
  unfolding apply_servability_fields_def by simp

definition store_conflicts :: "shared_store \<Rightarrow> int set" where
  "store_conflicts st = conflict_ids (payload_conflicts st)"

lemma store_conflicts_alt:
  "store_conflicts st =
     conflict_ids (stored_conflicts (case st_metadata st of None \<Rightarrow> None | Some m \<Rightarrow> md_servability m))
     \<union> conflict_ids (stored_conflicts (case st_ranges st of None \<Rightarrow> None | Some r \<Rightarrow> rp_servability r))
     \<union> conflict_ids (stored_conflicts (case st_segments st of None \<Rightarrow> None | Some s \<Rightarrow> sj_servability s))"
  by (auto simp: store_conflicts_def payload_conflicts_def)

section \<open>What every writer keeps\<close>

text \<open>A digest is written as nonempty text without white space in lower case, as \<^verbatim>\<open>hexdigest\<close> returns it.\<close>

definition hex_digest :: "(bytes \<Rightarrow> string) \<Rightarrow> bool" where
  "hex_digest sha = (\<forall>b. sha b \<noteq> [] \<and> (\<forall>c \<in> set (sha b). \<not> is_py_space c \<and> py_lower_char c = c))"

lemma read_own_digest: "hex_digest sha \<Longrightarrow> read_sha256_file (Some (sha b @ [CHR 0x0A])) = Some (sha b)"
proof -
  assume "hex_digest sha"
  then have ne: "sha b \<noteq> []" and no: "\<forall>c \<in> set (sha b). \<not> is_py_space c" and low: "\<forall>c \<in> set (sha b). py_lower_char c = c"
    by (auto simp: hex_digest_def)
  have keep: "dropWhile is_py_space t = t" if "set t \<subseteq> set (sha b)" for t
    using that no by (cases t) auto
  have newline: "is_py_space (CHR 0x0A)" by code_simp
  have "dropWhile is_py_space (sha b @ [CHR 0x0A]) = sha b @ [CHR 0x0A]"
    using ne no by (cases "sha b") auto
  then have "py_strip (sha b @ [CHR 0x0A]) = sha b" using keep[of "rev (sha b)"] newline by (simp add: py_strip_def)
  moreover have word: "takeWhile (\<lambda>c. \<not> is_py_space c) (sha b) = sha b" using no by (simp add: takeWhile_eq_all_conv)
  moreover have "py_lower (sha b) = sha b" using low by (simp add: py_lower_def map_idI)
  ultimately show ?thesis using ne by (simp add: read_sha256_file_def Let_def word)
qed

text \<open>Every record of the segments file describes a file that is there, and the checksum beside the init file is
  its own.\<close>

definition record_ok :: "(bytes \<Rightarrow> string) \<Rightarrow> (string \<times> stored_file) list \<Rightarrow> segment_record \<Rightarrow> bool" where
  "record_ok sha files r =
     (shared_segment_filename (sr_index r) = Inr (sr_filename r)
      \<and> (\<exists>b. dict_get files (sr_filename r) = Some (Regular_File b) \<and> sr_sha r = sha b \<and> sr_size r = length b))"

definition store_sound :: "(bytes \<Rightarrow> string) \<Rightarrow> shared_store \<Rightarrow> bool" where
  "store_sound sha st =
     ((\<forall>s. st_segments st = Some s \<longrightarrow> (\<forall>r \<in> set (sj_segments s). record_ok sha (st_files st) r))
      \<and> (\<forall>b h. st_init st = Some b \<and> read_sha256_file (st_init_sha st) = Some h \<longrightarrow> h = sha b))"

text \<open>Nothing stored is taken away or changed, and no conflict is forgotten.\<close>

definition keeps_files :: "(string \<times> stored_file) list \<Rightarrow> (string \<times> stored_file) list \<Rightarrow> bool" where
  "keeps_files a b = (\<forall>name f. dict_get a name = Some f \<longrightarrow> dict_get b name = Some f)"

definition keeps_store :: "shared_store \<Rightarrow> shared_store \<Rightarrow> bool" where
  "keeps_store a b =
     (keeps_files (st_files a) (st_files b) \<and> (\<forall>x. st_init a = Some x \<longrightarrow> st_init b = Some x)
      \<and> store_conflicts a \<subseteq> store_conflicts b)"

lemma keeps_files_refl [simp]: "keeps_files a a"
  by (simp add: keeps_files_def)

lemma keeps_files_trans: "keeps_files a b \<Longrightarrow> keeps_files b c \<Longrightarrow> keeps_files a c"
  by (simp add: keeps_files_def)

lemma keeps_store_refl [simp]: "keeps_store a a"
  by (simp add: keeps_store_def)

lemma keeps_store_trans [trans]: "keeps_store a b \<Longrightarrow> keeps_store b c \<Longrightarrow> keeps_store a c"
  unfolding keeps_store_def using keeps_files_trans by blast

lemma record_ok_mono: "keeps_files a b \<Longrightarrow> record_ok sha a r \<Longrightarrow> record_ok sha b r"
  by (auto simp: record_ok_def keeps_files_def)

text \<open>The init writer.\<close>

lemma update_init_metadata:
  "st_files (update_metadata_for_shared_init now stamp h n st) = st_files st"
  "st_init (update_metadata_for_shared_init now stamp h n st) = st_init st"
  "st_init_sha (update_metadata_for_shared_init now stamp h n st) = st_init_sha st"
  "st_segments (update_metadata_for_shared_init now stamp h n st) = st_segments st"
  "store_conflicts (update_metadata_for_shared_init now stamp h n st) = store_conflicts st"
  by (auto simp: update_metadata_for_shared_init_def store_conflicts_alt split: option.splits)

lemma store_conflicts_init [simp]:
  "store_conflicts (st\<lparr>st_init := i\<rparr>) = store_conflicts st" "store_conflicts (st\<lparr>st_init_sha := h\<rparr>) = store_conflicts st"
  "store_conflicts (st\<lparr>st_files := f\<rparr>) = store_conflicts st" "store_conflicts (st\<lparr>st_contract := c\<rparr>) = store_conflicts st"
  by (simp_all add: store_conflicts_alt)

lemma place_init_keeps:
  assumes "hex_digest sha" and "store_sound sha st" and "place_init sha now stamp blockers expected staged st = (res, st')"
  shows "keeps_store st st' \<and> store_sound sha st'"
proof (cases "st_init st")
  case None
  have "st' = st \<or> st' = update_metadata_for_shared_init now stamp (sha staged) (int (length staged))
      (st\<lparr>st_init := Some staged, st_init_sha := Some (sha staged @ [CHR 0x0A])\<rparr>)"
    using assms(3) None by (auto simp: place_init_def Let_def split: if_splits)
  then show ?thesis
    using assms(2) None read_own_digest[OF assms(1), of staged]
    by (elim disjE) (simp_all add: keeps_store_def store_sound_def update_init_metadata)
next
  case (Some final)
  have "st' = st \<or> (sha final = sha staged \<and> (\<exists>st1. st' = update_metadata_for_shared_init now stamp (sha staged) (int (length final)) st1
      \<and> (st1 = st \<or> st1 = st\<lparr>st_init_sha := Some (sha staged @ [CHR 0x0A])\<rparr>)))"
    using assms(3) Some by (auto simp: place_init_def Let_def split: if_splits)
  then show ?thesis
    using assms(2) Some read_own_digest[OF assms(1), of final]
    by (elim disjE conjE exE) (simp_all add: keeps_store_def store_sound_def update_init_metadata)
qed

lemma init_writer_keeps:
  assumes "hex_digest sha" and "store_sound sha st" and "write_shared_output_init_media sha now q st = (res, st')"
  shows "keeps_store st st' \<and> store_sound sha st'"
proof -
  have "st' = st \<or> (\<exists>r blockers. place_init sha now now blockers (iq_expected q) (the (iq_source q)) st = (r, st'))"
    using assms(3) by (auto simp: write_shared_output_init_media_def Let_def split: if_splits sum.splits prod.splits)
  then show ?thesis using assms(2) place_init_keeps[OF assms(1,2)] by auto
qed

text \<open>The segment writer: its loop.\<close>

definition acc_sound :: "(bytes \<Rightarrow> string) \<Rightarrow> write_acc \<Rightarrow> bool" where
  "acc_sound sha acc = (\<forall>i r. dict_get (wa_records acc) i = Some r \<longrightarrow> sr_index r = i \<and> record_ok sha (wa_files acc) r)"

definition acc_keeps :: "write_acc \<Rightarrow> write_acc \<Rightarrow> bool" where
  "acc_keeps a b =
     (keeps_files (wa_files a) (wa_files b) \<and> cf_index ` set (wa_conflicts a) \<subseteq> cf_index ` set (wa_conflicts b)
      \<and> (\<forall>c \<in> set (wa_conflicts b). 0 \<le> cf_index c) \<and> wa_conflict_count a \<le> wa_conflict_count b
      \<and> fst ` set (wa_records a) \<subseteq> fst ` set (wa_records b))"

lemma keeps_files_new: "dict_get files name = None \<Longrightarrow> keeps_files files (dict_set files name f)"
  by (auto simp: keeps_files_def)

lemma merged_nonneg: "c \<in> set (merge_conflict_records updated now raws) \<Longrightarrow> 0 \<le> cf_index c"
  using merged_indexes[of updated now raws] raw_index_nonneg by blast

lemma payload_index [simp]: "sr_index (segment_record_payload p name n h writer w) = pi_index p"
  by (simp add: segment_record_payload_def)

lemma payload_ok:
  "shared_segment_filename (pi_index p) = Inr name \<Longrightarrow> dict_get files name = Some (Regular_File b)
   \<Longrightarrow> record_ok sha files (segment_record_payload p name (length b) (sha b) writer w)"
  by (simp add: record_ok_def segment_record_payload_def)

lemma place_segment_sound:
  assumes "acc_sound sha acc" and "shared_segment_filename (pi_index p) = Inr name"
  shows "acc_sound sha (place_segment sha now stamp writer p name staged acc)"
proof (cases "dict_get (wa_files acc) name")
  case None
  let ?files = "dict_set (wa_files acc) name (Regular_File staged)"
  have old: "record_ok sha ?files r" if "record_ok sha (wa_files acc) r" for r
    using record_ok_mono[OF keeps_files_new[OF None] that] .
  have new: "record_ok sha ?files (segment_record_payload p name (length staged) (sha staged) writer stamp)"
    by (rule payload_ok[OF assms(2)]) simp
  show ?thesis using assms(1) None old new by (simp add: place_segment_def acc_sound_def Let_def)
next
  case (Some f)
  show ?thesis
  proof (cases f)
    case (Regular_File final)
    have "record_ok sha (wa_files acc) (segment_record_payload p name (length final) (sha staged) writer w)"
      if "sha final = sha staged" for w
      unfolding that[symmetric] by (rule payload_ok[OF assms(2) Some[unfolded Regular_File]])
    then show ?thesis using assms Some Regular_File by (simp add: place_segment_def acc_sound_def Let_def)
  next
    case Irregular_File
    then show ?thesis using assms Some by (simp add: place_segment_def acc_sound_def)
  qed
qed

lemma place_segment_keeps:
  assumes "\<forall>c \<in> set (wa_conflicts acc). 0 \<le> cf_index c"
  shows "acc_keeps acc (place_segment sha now stamp writer p name staged acc)"
proof -
  have max0: "(\<lambda>c. max 0 (cf_index c)) ` set (wa_conflicts acc) = cf_index ` set (wa_conflicts acc)"
    using assms by (intro image_cong) auto
  show ?thesis
    using assms keeps_files_new[of "wa_files acc" name "Regular_File staged"]
    by (auto simp: place_segment_def acc_keeps_def merged_indexes max0 keys_dict_set hash_conflict_def Let_def merged_nonneg
        split: option.splits stored_file.splits)
qed

lemma acc_keeps_refl: "\<forall>c \<in> set (wa_conflicts acc). 0 \<le> cf_index c \<Longrightarrow> acc_keeps acc acc"
  by (simp add: acc_keeps_def)

lemma acc_keeps_trans: "acc_keeps a b \<Longrightarrow> acc_keeps b c \<Longrightarrow> acc_keeps a c"
  unfolding acc_keeps_def using keeps_files_trans by (meson order_trans)

lemma acc_attempted [simp]:
  "acc_sound sha (acc\<lparr>wa_attempted := t\<rparr>) = acc_sound sha acc" "acc_keeps a (acc\<lparr>wa_attempted := t\<rparr>) = acc_keeps a acc"
  "acc_keeps (acc\<lparr>wa_attempted := t\<rparr>) a = acc_keeps acc a"
  "acc_sound sha (acc\<lparr>wa_blockers := b\<rparr>) = acc_sound sha acc" "acc_keeps a (acc\<lparr>wa_blockers := b\<rparr>) = acc_keeps a acc"
  by (simp_all add: acc_sound_def acc_keeps_def)

lemma write_segment_keeps:
  assumes "acc_sound sha acc" and "\<forall>c \<in> set (wa_conflicts acc). 0 \<le> cf_index c"
    and "write_segment sha now stamp writer p acc = (acc', fine)"
  shows "acc_sound sha acc' \<and> acc_keeps acc acc'"
proof -
  let ?t = "acc\<lparr>wa_attempted := True\<rparr>"
  consider (skip) b where "acc' = acc\<lparr>wa_blockers := b\<rparr>"
    | (stop) "acc' = ?t" | (mismatch) b where "acc' = ?t\<lparr>wa_blockers := b\<rparr>"
    | (place) name where "shared_segment_filename (pi_index p) = Inr name"
        "acc' = place_segment sha now stamp writer p name (the (pi_source p)) ?t"
    using assms(3) by (auto simp: write_segment_def Let_def split: if_splits sum.splits)
  then show ?thesis
  proof cases
    case place
    have "acc_sound sha ?t" "\<forall>c \<in> set (wa_conflicts ?t). 0 \<le> cf_index c" using assms(1,2) by simp_all
    from place_segment_sound[OF this(1) place(1)] place_segment_keeps[OF this(2)] show ?thesis
      unfolding place(2) by simp
  qed (use assms(1) acc_keeps_refl[OF assms(2)] in simp_all)
qed

lemma write_segments_keeps:
  assumes "acc_sound sha acc" and "\<forall>c \<in> set (wa_conflicts acc). 0 \<le> cf_index c"
    and "write_segments sha now stamp writer ps acc = (acc', fine)"
  shows "acc_sound sha acc' \<and> acc_keeps acc acc'"
  using assms
proof (induction ps arbitrary: acc)
  case Nil
  then show ?case using acc_keeps_refl by simp
next
  case (Cons p ps)
  obtain acc1 ok where one: "write_segment sha now stamp writer p acc = (acc1, ok)" by fastforce
  note step = write_segment_keeps[OF Cons.prems(1,2) one]
  then have pos: "\<forall>c \<in> set (wa_conflicts acc1). 0 \<le> cf_index c" by (simp add: acc_keeps_def)
  show ?case
  proof (cases ok)
    case True
    then have "write_segments sha now stamp writer ps acc1 = (acc', fine)" using Cons.prems(3) one by simp
    from Cons.IH[OF conjunct1[OF step] pos this] show ?thesis using step acc_keeps_trans by blast
  next
    case False
    then show ?thesis using Cons.prems(3) one step by simp
  qed
qed

text \<open>Its last part, and the whole.\<close>

lemma ordered_records_set: "set (ordered_records records) = {r. \<exists>i. dict_get records i = Some r}"
proof -
  have "(\<lambda>i. the (dict_get records i)) ` (fst ` set records) = {r. \<exists>i. dict_get records i = Some r}" (is "?l = ?r")
  proof
    show "?l \<subseteq> ?r" using dict_get_None_iff[of records] by fastforce
    show "?r \<subseteq> ?l"
    proof
      fix r assume "r \<in> ?r"
      then obtain i where i: "dict_get records i = Some r" by blast
      then have "i \<in> fst ` set records" using dict_get_None_iff[of records i] by simp
      then show "r \<in> ?l" using i by (intro image_eqI[of _ _ i]) simp_all
    qed
  qed
  then show ?thesis by (simp add: ordered_records_def)
qed

lemma update_segments_keeps:
  assumes "update_shared_segment_metadata now stamp d records given st = (res, st')"
    and "\<forall>i r. dict_get records i = Some r \<longrightarrow> record_ok sha (st_files st) r" and "store_sound sha st"
  shows "st_files st' = st_files st \<and> store_sound sha st' \<and> keeps_store st st'
     \<and> (0 < d \<longrightarrow> (\<lambda>c. max 0 (cf_index c)) ` set given \<subseteq> store_conflicts st')"
proof -
  let ?c = "merge_conflict_records (Some stamp) now (payload_conflicts st @ map raw_of given)"
  let ?seg = "\<lparr>sj_media = ordered_records records \<noteq> [], sj_segments = ordered_records records, sj_updated = stamp,
     sj_servability = Some (apply_servability_fields now None (ordered_records records \<noteq> []) (ordered_records records \<noteq> []) ?c)\<rparr>"
  have ids: "(\<lambda>c. max 0 (cf_index c)) ` set ?c = store_conflicts st \<union> (\<lambda>c. max 0 (cf_index c)) ` set given"
    by (simp add: store_conflicts_def)
  have ok: "\<forall>r \<in> set (ordered_records records). record_ok sha (st_files st) r"
    using assms(2) by (auto simp: ordered_records_set)
  show ?thesis
  proof (cases "validate_segment_duration d")
    case (Inl e)
    then have "\<not> 0 < d" by (auto simp: validate_segment_duration_def split: if_splits)
    then show ?thesis using assms Inl by (simp add: update_shared_segment_metadata_def Let_def)
  next
    case (Inr d')
    have seg: "st_segments st' = Some ?seg" "st_files st' = st_files st" "st_init st' = st_init st" "st_init_sha st' = st_init_sha st"
      using assms(1) Inr
      by (auto simp: update_shared_segment_metadata_def Let_def split: sum.splits option.splits)
    then have "store_conflicts st \<union> (\<lambda>c. max 0 (cf_index c)) ` set given \<subseteq> store_conflicts st'"
      unfolding store_conflicts_alt[of st'] seg(1) option.simps segments_payload.simps stored_ids_apply ids by blast
    then show ?thesis using seg ok assms(3) by (simp add: store_sound_def keeps_store_def)
  qed
qed

lemma existing_records_sound:
  assumes "store_sound sha st"
  shows "\<forall>i r. dict_get (existing_records st) i = Some r \<longrightarrow> sr_index r = i \<and> record_ok sha (st_files st) r"
proof (cases "st_segments st")
  case (Some s)
  have fold: "(\<forall>i r. dict_get (foldl (\<lambda>d r. dict_set d (sr_index r) r) d rs) i = Some r \<longrightarrow> sr_index r = i \<and> P r)"
    if "\<forall>i r. dict_get d i = Some r \<longrightarrow> sr_index r = i \<and> P r" "\<forall>r \<in> set rs. P r" for d rs P
    using that
  proof (induction rs arbitrary: d)
    case (Cons x rs)
    have "\<forall>i r. dict_get (dict_set d (sr_index x) x) i = Some r \<longrightarrow> sr_index r = i \<and> P r" using Cons.prems by simp
    then show ?case unfolding foldl.simps by (rule Cons.IH) (use Cons.prems(2) in simp)
  qed simp
  show ?thesis
    unfolding existing_records_def Some option.simps
    by (rule fold) (use assms Some in \<open>simp_all add: store_sound_def\<close>)
qed (simp add: existing_records_def)

lemma start_acc_sound:
  assumes "store_sound sha st"
  shows "acc_sound sha (start_acc now blockers st) \<and> (\<forall>c \<in> set (wa_conflicts (start_acc now blockers st)). 0 \<le> cf_index c)"
  using existing_records_sound[OF assms] merged_nonneg by (simp add: acc_sound_def start_acc_def)

lemma finish_segments_keeps:
  assumes "finish_segments now d acc st = (res, st')" and "acc_sound sha acc" and "keeps_files (st_files st) (wa_files acc)"
    and "store_sound sha st"
  shows "keeps_store st st' \<and> store_sound sha st' \<and> st_files st' = wa_files acc
     \<and> (0 < d \<longrightarrow> (\<lambda>c. max 0 (cf_index c)) ` set (wa_conflicts acc) \<subseteq> store_conflicts st')"
proof -
  let ?st1 = "st\<lparr>st_files := wa_files acc\<rparr>"
  have st1: "store_sound sha ?st1" "keeps_store st ?st1"
    using assms(3,4) record_ok_mono by (auto simp: store_sound_def keeps_store_def)
  show ?thesis
  proof (cases "wa_records acc \<noteq> [] \<or> wa_conflicts acc \<noteq> []")
    case True
    obtain r where upd: "update_shared_segment_metadata now now d (wa_records acc) (wa_conflicts acc) ?st1 = (r, st')"
      using assms(1) True
      by (cases "update_shared_segment_metadata now now d (wa_records acc) (wa_conflicts acc) ?st1")
        (auto simp: finish_segments_def split: sum.splits prod.splits)
    have "\<forall>i r. dict_get (wa_records acc) i = Some r \<longrightarrow> record_ok sha (st_files ?st1) r"
      using assms(2) by (simp add: acc_sound_def)
    from update_segments_keeps[OF upd this st1(1)] st1(2) show ?thesis using keeps_store_trans by auto
  next
    case False
    then have "st' = ?st1" using assms(1) by (simp add: finish_segments_def)
    then show ?thesis using st1 False by simp
  qed
qed

lemma segment_writer_keeps:
  assumes "store_sound sha st" and "write_shared_output_segment_media sha now q st = (res, st')"
  shows "keeps_store st st' \<and> store_sound sha st'"
proof -
  let ?acc = "start_acc now (segment_writer_blockers q st) st"
  obtain acc fine where run: "write_segments sha now now (sq_writer q) (sq_plans q) ?acc = (acc, fine)" by fastforce
  note acc = write_segments_keeps[OF conjunct1[OF start_acc_sound[OF assms(1)]] conjunct2[OF start_acc_sound[OF assms(1)]] run]
  have files: "keeps_files (st_files st) (wa_files acc)" using acc by (simp add: acc_keeps_def start_acc_def)
  have "st' = st \<or> finish_segments now (sq_duration q) acc st = (res, st') \<or> st' = st\<lparr>st_files := wa_files acc\<rparr>"
    using assms(2) run by (auto simp: write_shared_output_segment_media_def Let_def split: if_splits sum.splits)
  moreover have "keeps_store st (st\<lparr>st_files := wa_files acc\<rparr>) \<and> store_sound sha (st\<lparr>st_files := wa_files acc\<rparr>)"
    using files assms(1) record_ok_mono by (auto simp: store_sound_def keeps_store_def)
  ultimately show ?thesis using finish_segments_keeps[OF _ conjunct1[OF acc] files assms(1)] assms(1) by auto
qed

text \<open>The metadata writer.\<close>

lemma set_servability_ids [simp]:
  "conflict_ids (stored_conflicts (rp_servability (set_servability now cs media integrity r)))
     = conflict_ids (stored_conflicts (rp_servability r)) \<union> (\<lambda>c. max 0 (cf_index c)) ` set cs"
  by (simp add: set_servability_def)

lemma store_payloads_keeps:
  assumes "store_payloads now status contract metadata candidate conflicts media st = (res, st')"
    and "\<And>m. conflict_ids (stored_conflicts (md_servability metadata)) \<supseteq> store_conflicts st"
  shows "st_files st' = st_files st \<and> st_init st' = st_init st \<and> st_init_sha st' = st_init_sha st
     \<and> st_segments st' = st_segments st \<and> store_conflicts st \<subseteq> store_conflicts st'"
proof -
  have fields: "st_files st' = st_files st" "st_init st' = st_init st" "st_init_sha st' = st_init_sha st"
    "st_segments st' = st_segments st" "st_metadata st' = Some metadata"
    using assms(1) by (auto simp: store_payloads_def Let_def split: sum.splits prod.splits)
  have "store_conflicts st \<subseteq> store_conflicts st'"
    using assms(2) unfolding store_conflicts_alt[of st'] fields(5) option.simps by blast
  then show ?thesis using fields by blast
qed

lemma metadata_writer_keeps:
  assumes "store_sound sha st" and "write_shared_output_store_metadata now contract metadata candidate st = (res, st')"
  shows "keeps_store st st' \<and> store_sound sha st'"
proof -
  let ?c = "merge_conflict_records (Some now) now (payload_conflicts st)"
  let ?m = "fresh_metadata now ?c (segments_stored st) metadata"
  have m: "conflict_ids (stored_conflicts (md_servability ?m)) \<supseteq> store_conflicts st"
    by (simp add: fresh_metadata_def Let_def store_conflicts_def)
  have "st' = st \<or> (\<exists>status. store_payloads now status (contract\<lparr>ct_updated := now\<rparr>) ?m candidate ?c (segments_stored st) st = (res, st'))"
    using assms(2) by (auto simp: write_shared_output_store_metadata_def Let_def split: option.splits if_splits)
  then show ?thesis
  proof (elim disjE exE)
    fix status
    assume "store_payloads now status (contract\<lparr>ct_updated := now\<rparr>) ?m candidate ?c (segments_stored st) st = (res, st')"
    from store_payloads_keeps[OF this m] assms(1) show ?thesis by (simp add: keeps_store_def store_sound_def)
  qed (use assms(1) in simp)
qed

section \<open>Writers in any order\<close>

inductive store_step :: "(bytes \<Rightarrow> string) \<Rightarrow> shared_store \<Rightarrow> shared_store \<Rightarrow> bool" for sha where
  metadata_step: "write_shared_output_store_metadata now contract metadata candidate st = (r, st') \<Longrightarrow> store_step sha st st'"
| init_step: "write_shared_output_init_media sha now q st = (r, st') \<Longrightarrow> store_step sha st st'"
| segment_step: "write_shared_output_segment_media sha now q st = (r, st') \<Longrightarrow> store_step sha st st'"

inductive_cases store_stepE: "store_step sha st st'"

lemma store_step_keeps: "hex_digest sha \<Longrightarrow> store_sound sha st \<Longrightarrow> store_step sha st st' \<Longrightarrow> keeps_store st st' \<and> store_sound sha st'"
  by (erule store_stepE) (use metadata_writer_keeps init_writer_keeps segment_writer_keeps in blast)+

lemma store_steps_keep:
  assumes "(store_step sha)\<^sup>*\<^sup>* st st'" and "hex_digest sha" and "store_sound sha st"
  shows "keeps_store st st' \<and> store_sound sha st'"
  using assms(1)
proof (induction rule: rtranclp_induct)
  case (step a b)
  then show ?case using store_step_keeps[OF assms(2) _ step.hyps(2)] keeps_store_trans by blast
qed (use assms(3) in simp)

text \<open>C5: The shared store is written once. However the three writers take turns on a directory, whatever they are asked
  to write: a segment file, once stored, keeps its content for ever, and so does the init file; a recorded
  conflict is never forgotten; every record of the segments file still describes a file that is there, under
  the name of its index, with the digest and the size of its content; and a checksum beside the init file is
  its own. The one assumption is on \<^verbatim>\<open>hashlib\<close>: a digest is written as lower-case text without white space.\<close>

theorem shared_store_write_once:
  assumes "(store_step sha)\<^sup>*\<^sup>* st st'" and "hex_digest sha" and "store_sound sha st"
  shows "(\<forall>name f. dict_get (st_files st) name = Some f \<longrightarrow> dict_get (st_files st') name = Some f)
     \<and> (\<forall>b. st_init st = Some b \<longrightarrow> st_init st' = Some b)
     \<and> store_conflicts st \<subseteq> store_conflicts st' \<and> store_sound sha st'"
  using store_steps_keep[OF assms] by (simp add: keeps_store_def keeps_files_def)

section \<open>A differing segment is noticed\<close>

definition differs :: "(bytes \<Rightarrow> string) \<Rightarrow> plan_item \<Rightarrow> string \<Rightarrow> bytes \<Rightarrow> (string \<times> stored_file) list \<Rightarrow> bool" where
  "differs sha p name old files =
     (set (pi_blockers p) \<subseteq> set SOFT_PLAN_BLOCKERS \<and> shared_segment_filename (pi_index p) = Inr name
      \<and> or_string (pi_filename p) name = name \<and> dict_get files name = Some (Regular_File old)
      \<and> (\<exists>new. pi_source p = Some new \<and> sha old \<noteq> sha new))"

lemma write_segment_fine:
  "0 \<le> pi_index p \<Longrightarrow> write_segment sha now stamp writer p acc = (acc', fine) \<Longrightarrow> fine"
  by (auto simp: write_segment_def shared_segment_filename_def Let_def split: if_splits)

lemma write_segment_conflict:
  assumes "differs sha p name old (wa_files acc)" and "write_segment sha now stamp writer p acc = (acc', fine)"
  shows "max 0 (pi_index p) \<in> cf_index ` set (wa_conflicts acc') \<and> 0 < wa_conflict_count acc'"
proof -
  obtain new where new: "pi_source p = Some new" "sha old \<noteq> sha new" using assms(1) by (auto simp: differs_def)
  have "filter (\<lambda>b. b \<notin> set SOFT_PLAN_BLOCKERS) (pi_blockers p) = []"
    using assms(1) by (auto simp: differs_def filter_empty_conv)
  then have "acc' = place_segment sha now stamp writer p name new (acc\<lparr>wa_attempted := True\<rparr>)"
    using assms new by (simp add: write_segment_def differs_def Let_def)
  then show ?thesis
    using assms(1) new by (simp add: place_segment_def differs_def merged_indexes hash_conflict_def Let_def)
qed

lemma write_segments_conflict:
  assumes "p \<in> set ps" and "differs sha p name old (wa_files acc)" and "\<forall>q \<in> set ps. 0 \<le> pi_index q"
    and "acc_sound sha acc" and "\<forall>c \<in> set (wa_conflicts acc). 0 \<le> cf_index c"
    and "write_segments sha now stamp writer ps acc = (acc', fine)"
  shows "fine \<and> max 0 (pi_index p) \<in> cf_index ` set (wa_conflicts acc') \<and> 0 < wa_conflict_count acc'"
proof -
  have fine: "fine" if "\<forall>q \<in> set ps. 0 \<le> pi_index q" "write_segments sha now stamp writer ps acc = (acc', fine)" for ps acc acc' fine
    using that
  proof (induction ps arbitrary: acc)
    case (Cons q qs)
    obtain acc1 ok where one: "write_segment sha now stamp writer q acc = (acc1, ok)" by fastforce
    then show ?case using Cons.IH[of acc1] Cons.prems write_segment_fine[OF _ one] by simp
  qed simp
  show ?thesis
    using assms
  proof (induction ps arbitrary: acc)
    case (Cons q qs)
    obtain acc1 ok where one: "write_segment sha now stamp writer q acc = (acc1, ok)" by fastforce
    note step = write_segment_keeps[OF Cons.prems(4,5) one]
    have "ok" using write_segment_fine[OF _ one] Cons.prems(3) by simp
    then have rest: "write_segments sha now stamp writer qs acc1 = (acc', fine)" using Cons.prems(6) one by simp
    have pos: "\<forall>c \<in> set (wa_conflicts acc1). 0 \<le> cf_index c" and files: "keeps_files (wa_files acc) (wa_files acc1)"
      using step by (simp_all add: acc_keeps_def)
    show ?case
    proof (cases "p = q")
      case True
      from write_segment_conflict[OF Cons.prems(2)[unfolded True] one]
      have "max 0 (pi_index p) \<in> cf_index ` set (wa_conflicts acc1)" "0 < wa_conflict_count acc1" by (simp_all add: True)
      with write_segments_keeps[OF conjunct1[OF step] pos rest] fine[OF Cons.prems(3,6)] show ?thesis
        by (auto simp: acc_keeps_def)
    next
      case False
      have still: "differs sha p name old (wa_files acc1)" using Cons.prems(2) files by (auto simp: differs_def keeps_files_def)
      then show ?thesis
        using Cons.IH[OF _ still _ conjunct1[OF step] pos rest] Cons.prems(1,3) False by simp
    qed
  qed simp
qed

lemma ordered_nonneg:
  assumes "\<forall>i r. dict_get records i = Some r \<longrightarrow> sr_index r = i \<and> record_ok sha files r"
  shows "\<forall>i \<in> fst ` set records. 0 \<le> i" and "\<forall>r \<in> set (ordered_records records). 0 \<le> sr_index r"
proof -
  have pos: "0 \<le> sr_index r" if "record_ok sha files r" for r
    using that by (auto simp: record_ok_def shared_segment_filename_def split: if_splits)
  show "\<forall>i \<in> fst ` set records. 0 \<le> i"
  proof
    fix i assume "i \<in> fst ` set records"
    then obtain r where "dict_get records i = Some r" using dict_get_None_iff[of records i] by blast
    then show "0 \<le> i" using assms pos by force
  qed
  show "\<forall>r \<in> set (ordered_records records). 0 \<le> sr_index r" using assms pos by (auto simp: ordered_records_set)
qed

lemma update_segments_total:
  assumes "0 < d" and "\<forall>i r. dict_get records i = Some r \<longrightarrow> sr_index r = i \<and> record_ok sha files r"
  shows "\<exists>bounds st'. update_shared_segment_metadata now stamp d records given st = (Inr bounds, st')"
proof -
  have val: "validate_segment_duration d = Inr d" using assms(1) by (simp add: validate_segment_duration_def)
  note pos = ordered_nonneg[OF assms(2)]
  obtain out where one: "merge_contiguous_ranges (map (\<lambda>i. Range_Pair i (i + 1)) (map fst records)) d ''shared_segment_writer'' = Inr out"
    using merge_singletons[of "map fst records" d "''shared_segment_writer''"] assms(1) pos(1) by auto
  have "\<forall>i \<in> set (map sr_index (ordered_records records)). 0 \<le> i" using pos(2) by simp
  from merge_singletons[OF this assms(1), of "''future''"] obtain out2 where
    two: "merge_contiguous_ranges (map (\<lambda>r. Range_Pair (sr_index r) (sr_index r + 1)) (ordered_records records)) d ''future'' = Inr out2"
    by (auto simp: o_def)
  show ?thesis
    by (simp add: update_shared_segment_metadata_def val Let_def build_media_bytes_ranges_metadata_def one[simplified] two)
qed

lemma segment_writer_runs:
  assumes "sq_enabled q" and "truthy_string (sq_key q)" and "validate_shared_output_key (sq_key q) = Inr key"
    and "set (segment_writer_blockers q st) \<inter> set SEGMENT_HARD_BLOCKERS = {}" and "sq_plans q \<noteq> []"
    and "write_segments sha now now (sq_writer q) (sq_plans q) (start_acc now (segment_writer_blockers q st) st) = (acc, True)"
  shows "write_shared_output_segment_media sha now q st = finish_segments now (sq_duration q) acc st"
proof -
  have "filter (\<lambda>b. b \<in> set SEGMENT_HARD_BLOCKERS) (segment_writer_blockers q st) = []"
    using assms(4) by (auto simp: filter_empty_conv)
  then show ?thesis using assms by (simp add: write_shared_output_segment_media_def Let_def)
qed

lemma finish_segments_conflict:
  assumes "0 < d" and "acc_sound sha acc" and "0 < wa_conflict_count acc" and "wa_conflicts acc \<noteq> []"
    and "finish_segments now d acc st = (res, st')"
  shows "so_status res = ''conflict'' \<and> sv_mixed (so_servability res) \<and> sv_reason (so_servability res) = ''segment_hash_conflict''
     \<and> \<not> sv_allowed (so_servability res)"
proof -
  let ?st = "st\<lparr>st_files := wa_files acc\<rparr>"
  obtain bounds st1 where upd:
    "update_shared_segment_metadata now now d (wa_records acc) (wa_conflicts acc) ?st = (Inr bounds, st1)"
    using update_segments_total[OF assms(1), of "wa_records acc" sha "wa_files acc" now now "wa_conflicts acc" ?st] assms(2)
    unfolding acc_sound_def by blast
  obtain s e where b: "bounds = (s, e)" by (cases bounds)
  have "so_status res = segment_status acc" "so_servability res = servability_fields now (wa_records acc \<noteq> []) (wa_records acc \<noteq> []) (wa_conflicts acc)"
    using assms(4,5) upd b by (auto simp: finish_segments_def segment_outcome_def)
  then show ?thesis
    using assms(3,4) servability_mixed[of now _ _ "wa_conflicts acc"]
    by (simp add: segment_status_def) (simp add: servability_fields_def Let_def)
qed

text \<open>A differing segment is noticed, never stored. Take a write that is under way (writer on, valid key, nothing that
  blocks it) and a planned segment whose file is already in the store with another content, by its digest. The
  write then ends as a conflict whatever else it was asked to write; the index is recorded as a conflict of the
  store, serving is refused because of it, and the file keeps its first content.\<close>

theorem differing_segment_is_conflict:
  assumes "store_sound sha st" and "sq_enabled q" and "truthy_string (sq_key q)"
    and "validate_shared_output_key (sq_key q) = Inr key"
    and "set (segment_writer_blockers q st) \<inter> set SEGMENT_HARD_BLOCKERS = {}" and "0 < sq_duration q"
    and "\<forall>p \<in> set (sq_plans q). 0 \<le> pi_index p" and "p \<in> set (sq_plans q)" and "differs sha p name old (st_files st)"
    and "write_shared_output_segment_media sha now q st = (res, st')"
  shows "so_status res = ''conflict'' \<and> pi_index p \<in> store_conflicts st'
     \<and> sv_mixed (so_servability res) \<and> sv_reason (so_servability res) = ''segment_hash_conflict''
     \<and> \<not> sv_allowed (so_servability res) \<and> dict_get (st_files st') name = Some (Regular_File old)"
proof -
  let ?acc = "start_acc now (segment_writer_blockers q st) st"
  obtain acc fine where run: "write_segments sha now now (sq_writer q) (sq_plans q) ?acc = (acc, fine)" by fastforce
  note start = start_acc_sound[OF assms(1), of now "segment_writer_blockers q st"]
  have d: "differs sha p name old (wa_files ?acc)" using assms(9) by (simp add: start_acc_def)
  note c = write_segments_conflict[OF assms(8) d assms(7) conjunct1[OF start] conjunct2[OF start] run]
  note k = write_segments_keeps[OF conjunct1[OF start] conjunct2[OF start] run]
  have files: "keeps_files (st_files st) (wa_files acc)" using k by (simp add: acc_keeps_def start_acc_def)
  have index: "max 0 (pi_index p) = pi_index p" using assms(7,8) by simp
  have "write_shared_output_segment_media sha now q st = finish_segments now (sq_duration q) acc st"
    by (rule segment_writer_runs[OF assms(2-5)]) (use assms(8) run c in auto)
  then have fin: "finish_segments now (sq_duration q) acc st = (res, st')" using assms(10) by simp
  have ne: "wa_conflicts acc \<noteq> []" using c by auto
  have "(\<lambda>c. max 0 (cf_index c)) ` set (wa_conflicts acc) \<subseteq> store_conflicts st'" "st_files st' = wa_files acc"
    using finish_segments_keeps[OF fin conjunct1[OF k] files assms(1)] assms(6) by blast+
  moreover have "pi_index p \<in> (\<lambda>c. max 0 (cf_index c)) ` set (wa_conflicts acc)"
    using c index by (metis (no_types, lifting) image_iff)
  moreover have "dict_get (st_files st) name = Some (Regular_File old)" using assms(9) by (simp add: differs_def)
  ultimately show ?thesis
    using finish_segments_conflict[OF assms(6) conjunct1[OF k] _ ne fin] c files by (auto simp: keeps_files_def)
qed

section \<open>What the writers get wrong\<close>

lemma coerce_mapped_ranges:
  "\<forall>x \<in> set rs. 0 \<le> ir_start (sg_range x) \<and> ir_start (sg_range x) < ir_end (sg_range x)
   \<Longrightarrow> coerce_ranges (map (\<lambda>x. Range_Mapping (Some (ir_start (sg_range x))) (Some (ir_end (sg_range x)))) rs @ [Range_Pair s e])
     = (if 0 \<le> s \<and> s < e then Inr (map (\<lambda>x. (ir_start (sg_range x), ir_end (sg_range x))) rs @ [(s, e)])
        else coerce_ranges [Range_Pair s e])"
  by (induction rs) (auto simp: checked_indexes_def)

text \<open>A metadata write takes the media away from the ranges it says it preserves. When the ranges file records
  stored media and the contract is unchanged, a metadata write that comes with a candidate range (as every
  status update of a running worker does) reports \<^verbatim>\<open>media_bytes_preserved\<close>, but the ranges file it leaves says that
  no media is present, for the file and for every one of its ranges, and lists the candidate as if it were like
  the stored ones.\<close>

theorem preserved_ranges_lose_media:
  assumes "st_ranges st = Some r" and "rp_media r"
    and "\<forall>x \<in> set (rp_ranges r). 0 \<le> ir_start (sg_range x) \<and> ir_start (sg_range x) < ir_end (sg_range x)"
    and "st_contract st = Some c" and "same_contract c contract" and "0 < md_duration metadata" and "0 \<le> s" and "s < e"
    and "write_shared_output_store_metadata now contract metadata (Some (s, e)) st = (res, st')"
  shows "mr_written res \<and> mr_ranges_status res = ''media_bytes_preserved''
     \<and> (\<exists>r'. st_ranges st' = Some r' \<and> \<not> rp_media r' \<and> (\<forall>x \<in> set (rp_ranges r'). \<not> sg_media x)
          \<and> {s..<e} \<subseteq> covered (map (range_pair \<circ> sg_range) (rp_ranges r')))"
proof -
  let ?d = "md_duration metadata" and ?c = "merge_conflict_records (Some now) now (payload_conflicts st)"
  let ?m = "fresh_metadata now ?c (segments_stored st) metadata"
  let ?ps = "map (\<lambda>x. (ir_start (sg_range x), ir_end (sg_range x))) (rp_ranges r) @ [(s, e)]"
  have dm: "md_duration ?m = ?d" by (simp add: fresh_metadata_def Let_def)
  have val: "validate_segment_duration ?d = Inr ?d" using assms(6) by (simp add: validate_segment_duration_def)
  have pos: "\<forall>(a, b) \<in> set ?ps. a < b" using assms(3,8) by auto
  note merged = merge_pairs_correct[OF pos]
  obtain base where base: "base_ranges now ?d ?c (st_ranges st) = Inr (base, ''media_bytes_preserved'')"
    "rp_ranges base = rp_ranges r"
    using assms(1,2) by (simp add: base_ranges_def set_servability_def)
  let ?rs = "map (range_payload ?d metadata_only_status) (merge_pairs ?ps)"
  have "merge_contiguous_ranges (map (\<lambda>x. Range_Mapping (Some (ir_start (sg_range x))) (Some (ir_end (sg_range x)))) (rp_ranges r) @ [Range_Pair s e])
      ?d metadata_only_status = Inr ?rs"
    using coerce_mapped_ranges[OF assms(3), of s e] assms(6-8) by (simp add: merge_contiguous_ranges_def range_payloads_Inr)
  then obtain r' where final: "final_ranges now ?d ?c (Some (s, e)) base ''media_bytes_preserved'' = Inr r'"
    "\<not> rp_media r'" "rp_ranges r' = map (metadata_only_range now) ?rs"
    by (simp add: final_ranges_def add_metadata_only_confirmed_range_def build_metadata_only_ranges_def val base(2)
        set_servability_def)
  have "mr_written res \<and> mr_ranges_status res = ''media_bytes_preserved'' \<and> st_ranges st' = Some r'"
    using assms(4,5,9) base(1) final(1)
    by (simp add: write_shared_output_store_metadata_def same_contract_def store_payloads_def dm metadata_outcome_def Let_def)
      (auto simp: metadata_outcome_def)
  moreover have "map (range_pair \<circ> sg_range) (rp_ranges r') = merge_pairs ?ps"
    unfolding final(3) by (simp add: metadata_only_range_def o_def)
  ultimately show ?thesis using final(2,3) merged by (auto simp: metadata_only_range_def)
qed

text \<open>The init writer does the same to the metadata file: finding the init file already in place, it marks the store
  as one without media, whatever segments are in it.\<close>

lemma present_init_hides_media:
  assumes "place_init sha now stamp blockers expected staged st = (res, st')" and "in_status res = ''already_present''"
    and "st_metadata st = Some m"
  shows "\<exists>m'. st_metadata st' = Some m' \<and> \<not> md_media m' \<and> st_segments st' = st_segments st"
  using assms
  by (auto simp: place_init_def init_outcome_def update_metadata_for_shared_init_def Let_def split: option.splits if_splits)

text \<open>And the time of the last conflict is the time the metadata was last read back: a stored payload lists every
  conflict twice, and the second listing carries no time of its own.\<close>

lemma bare_indexes_restamp:
  assumes "dict_get (foldl (merge_conflict (Some stamp) now) merged (map Raw_Index is)) k = Some c"
    and "k \<in> max 0 ` set is" and "stamp \<noteq> []"
  shows "cf_last c = stamp"
  using assms(1,2)
proof (induction "is" arbitrary: c rule: rev_induct)
  case (snoc i "is")
  let ?m = "foldl (merge_conflict (Some stamp) now) merged (map Raw_Index is)"
  have run: "dict_get (merge_conflict (Some stamp) now ?m (Raw_Index i)) k = Some c" using snoc.prems(1) by simp
  show ?case
  proof (cases "k = max 0 i")
    case True
    then show ?thesis using run assms(3)
      by (auto simp: merge_conflict_def update_conflict_def or_string_def Let_def split: option.splits)
  next
    case False
    then have "dict_get ?m k = Some c" using run by (auto simp: merge_conflict_def Let_def split: option.splits)
    then show ?thesis using snoc.IH snoc.prems(2) False by auto
  qed
qed simp

section \<open>A store in use\<close>

text \<open>The digest of the examples is the length of the content.\<close>

definition length_digest :: "bytes \<Rightarrow> string" where
  "length_digest b = show_nat (length b)"

lemma length_digest_hex: "hex_digest length_digest"
proof -
  have "py_lower_char c = c" if "is_py_digit c" for c
    using that by (auto simp: is_py_digit_def py_lower_char_def Let_def)
  then show ?thesis using show_nat_digits digit_not_space by (auto simp: hex_digest_def length_digest_def)
qed

definition shared_demo :: shared_store where
  "shared_demo = \<lparr>st_contract = Some \<lparr>ct_fields = [], ct_created = ''t0'', ct_updated = ''t0''\<rparr>,
     st_metadata = Some (build_shared_output_metadata ''t0'' ''film-0001'' 2),
     st_ranges = Some \<lparr>rp_duration = 2, rp_status = ''media_bytes_present'', rp_media = True,
        rp_ranges = [media_bytes_range ''t0'' [] (range_payload 2 ''x'' (7, 8))], rp_sparse = [7], rp_updated = ''t0'',
        rp_servability = None\<rparr>,
     st_segments = None, st_init = Some ''init'', st_init_sha = Some ''4'',
     st_files = [(''abs_000000000007.m4s'', Regular_File ''old'')]\<rparr>"

definition shared_demo_request :: segment_request where
  "shared_demo_request = \<lparr>sq_key = Some ''film-0001'',
     sq_plans = [\<lparr>pi_blockers = [''serving_disabled''], pi_source = Some ''newer'', pi_index = 7, pi_filename = None,
                  pi_start = 14, pi_end = 16\<rparr>],
     sq_enabled = True, sq_fingerprint = Some ''f'', sq_metadata_ready = True, sq_contract_status = Some ''unchanged'',
     sq_init_status = Some ''hash_available'', sq_duration = 2, sq_preconditions = [], sq_writer = Some ''w''\<rparr>"

lemma shared_demo_sound: "store_sound length_digest shared_demo"
proof -
  have "read_sha256_file (Some ''4'') = Some (length_digest ''init'')" by code_simp
  then show ?thesis by (simp add: store_sound_def shared_demo_def)
qed

lemma shared_store_write_once_witness:
  "dict_get (st_files (snd (write_shared_output_segment_media length_digest ''t1'' shared_demo_request shared_demo)))
     ''abs_000000000007.m4s'' = Some (Regular_File ''old'')"
proof -
  obtain res st' where run: "write_shared_output_segment_media length_digest ''t1'' shared_demo_request shared_demo = (res, st')"
    by fastforce
  then have "(store_step length_digest)\<^sup>*\<^sup>* shared_demo st'" by (auto intro: segment_step)
  from shared_store_write_once[OF this length_digest_hex shared_demo_sound] show ?thesis
    unfolding run snd_conv by (simp add: shared_demo_def)
qed

lemma differing_segment_is_conflict_witness:
  "so_status (fst (write_shared_output_segment_media length_digest ''t1'' shared_demo_request shared_demo)) = ''conflict''
   \<and> 7 \<in> store_conflicts (snd (write_shared_output_segment_media length_digest ''t1'' shared_demo_request shared_demo))"
proof -
  let ?p = "hd (sq_plans shared_demo_request)"
  obtain res st' where run: "write_shared_output_segment_media length_digest ''t1'' shared_demo_request shared_demo = (res, st')"
    by fastforce
  have key: "validate_shared_output_key (sq_key shared_demo_request) = Inr ''film-0001''" by code_simp
  have read: "read_sha256_file (Some ''4'') = Some ''4''" by code_simp
  have strip: "py_strip ''f'' = ''f''" "py_strip ''hash_available'' = ''hash_available''" by code_simp+
  have blockers: "segment_writer_blockers shared_demo_request shared_demo = []"
    by (simp add: segment_writer_blockers_def store_blockers_def compatibility_blockers_def shared_demo_request_def
        shared_demo_def read strip)
  have name: "shared_segment_filename 7 = Inr ''abs_000000000007.m4s''" by code_simp
  have sha: "length_digest ''old'' \<noteq> length_digest ''newer''" by code_simp
  have d: "differs length_digest ?p ''abs_000000000007.m4s'' ''old'' (st_files shared_demo)"
    by (simp add: differs_def shared_demo_request_def shared_demo_def name sha SOFT_PLAN_BLOCKERS_def)
  have "so_status res = ''conflict'' \<and> pi_index ?p \<in> store_conflicts st'"
    using differing_segment_is_conflict[OF shared_demo_sound _ _ key _ _ _ _ d run] blockers
    by (simp add: shared_demo_request_def)
  moreover have "pi_index ?p = 7" by (simp add: shared_demo_request_def)
  ultimately show ?thesis by (simp only: run fst_conv snd_conv)
qed

lemma preserved_ranges_lose_media_witness:
  "\<exists>r'. st_ranges (snd (write_shared_output_store_metadata ''t1'' \<lparr>ct_fields = [], ct_created = ''t1'', ct_updated = ''t1''\<rparr>
       (build_shared_output_metadata ''t1'' ''film-0001'' 2) (Some (7, 12)) shared_demo)) = Some r' \<and> \<not> rp_media r'"
proof -
  let ?c = "\<lparr>ct_fields = [], ct_created = ''t1'', ct_updated = ''t1''\<rparr>" and ?m = "build_shared_output_metadata ''t1'' ''film-0001'' 2"
  obtain res st' where run: "write_shared_output_store_metadata ''t1'' ?c ?m (Some (7, 12)) shared_demo = (res, st')"
    by fastforce
  obtain r where r: "st_ranges shared_demo = Some r" "rp_media r"
    "rp_ranges r = [media_bytes_range ''t0'' [] (range_payload 2 ''x'' (7, 8))]"
    by (simp add: shared_demo_def)
  have "\<exists>r'. st_ranges st' = Some r' \<and> \<not> rp_media r'"
    using preserved_ranges_lose_media[OF r(1,2) _ _ _ _ _ _ run, of "\<lparr>ct_fields = [], ct_created = ''t0'', ct_updated = ''t0''\<rparr>"]
    by (simp add: r(3) media_bytes_range_def range_payload_def shared_demo_def same_contract_def
        build_shared_output_metadata_def) blast
  then show ?thesis by (simp add: run)
qed

end
