(* ===== verification/Rate_Limiter.thy ===== *)
theory Rate_Limiter
  imports Elvern_Base
begin

text \<open>
  The limiter of failed logins: \<^verbatim>\<open>src/backend/app/services/rate_limiter_service.py\<close>. The table \<^verbatim>\<open>login_failures\<close> is
  the list of its rows in the order of insertion (bucket and time), \<^verbatim>\<open>login_lockouts\<close> with its primary key a dictionary
  from buckets. A bucket is a kind with a normalised key. Each operation is one transaction under the lock of the
  limiter; the clock is an argument.
\<close>

section \<open>The tables and the operations\<close>

definition LOGIN_FAILURE_RETENTION_SECONDS :: int where
  "LOGIN_FAILURE_RETENTION_SECONDS = 7 * 86400"

type_synonym bucket = "string \<times> string"

record limiter_db =
  login_failures :: "(bucket \<times> real) list"
  login_lockouts :: "(bucket \<times> real \<times> string) list"

record rate_limiter =
  rl_bucket_kind :: string
  rl_window_seconds :: int
  rl_max_attempts :: int
  rl_lockout_seconds :: int

definition new_rate_limiter :: "string \<Rightarrow> int \<Rightarrow> int \<Rightarrow> int \<Rightarrow> py_error + rate_limiter" where
  "new_rate_limiter bucket_kind window_seconds max_attempts lockout_seconds =
     (if bucket_kind \<notin> {''ip'', ''username''} then Inl (ValueError (''bucket_kind must be '' @ [CHR 0x27] @ ''ip'' @ [CHR 0x27] @ '' or '' @ [CHR 0x27] @ ''username'' @ [CHR 0x27]))
      else Inr \<lparr>rl_bucket_kind = bucket_kind, rl_window_seconds = window_seconds,
                rl_max_attempts = max_attempts, rl_lockout_seconds = lockout_seconds\<rparr>)"

definition normalize_key :: "string \<Rightarrow> string" where
  "normalize_key key = or_string (Some (py_strip key)) ''unknown''"

definition bucket_of :: "rate_limiter \<Rightarrow> string \<Rightarrow> bucket" where
  "bucket_of rl key = (rl_bucket_kind rl, normalize_key key)"

definition check_limit :: "rate_limiter \<Rightarrow> string \<Rightarrow> real \<Rightarrow> 'a limiter_db_scheme \<Rightarrow> int \<times> 'a limiter_db_scheme" where
  "check_limit rl key now db =
     (let b = bucket_of rl key in
      case dict_get (login_lockouts db) b of
        None \<Rightarrow> (0, db)
      | Some (blocked_until, reason) \<Rightarrow>
          if blocked_until > now then (max 1 \<lceil>blocked_until - now\<rceil>, db)
          else (0, db\<lparr>login_lockouts := dict_pop (login_lockouts db) b\<rparr>))"

text \<open>The rows once a failure is inserted and what is too old for its bucket, or for all of them, is deleted.\<close>

definition insert_failure :: "rate_limiter \<Rightarrow> bucket \<Rightarrow> real \<Rightarrow> (bucket \<times> real) list \<Rightarrow> (bucket \<times> real) list" where
  "insert_failure rl b now rows =
     (let window_cutoff = now - real_of_int (rl_window_seconds rl);
          retention_cutoff = now - real_of_int LOGIN_FAILURE_RETENTION_SECONDS;
          rows = filter (\<lambda>(b', t). \<not> (b' = b \<and> t < window_cutoff)) (rows @ [(b, now)]) in
      filter (\<lambda>(b', t). \<not> t < retention_cutoff) rows)"

definition register_failure :: "rate_limiter \<Rightarrow> string \<Rightarrow> real \<Rightarrow> 'a limiter_db_scheme \<Rightarrow> int \<times> 'a limiter_db_scheme" where
  "register_failure rl key now db =
     (let b = bucket_of rl key;
          rows = insert_failure rl b now (login_failures db);
          count = int (length (filter (\<lambda>(b', t). b' = b \<and> t \<ge> now - real_of_int (rl_window_seconds rl)) rows)) in
      if count \<ge> rl_max_attempts rl then
        (rl_lockout_seconds rl,
         db\<lparr>login_lockouts := dict_set (login_lockouts db) b
              (now + real_of_int (rl_lockout_seconds rl), rl_bucket_kind rl @ ''_login_failure_threshold''),
            login_failures := filter (\<lambda>(b', t). b' \<noteq> b) rows\<rparr>)
      else (0, db\<lparr>login_failures := rows\<rparr>))"

definition clear_limit :: "rate_limiter \<Rightarrow> string \<Rightarrow> 'a limiter_db_scheme \<Rightarrow> 'a limiter_db_scheme" where
  "clear_limit rl key db =
     (let b = bucket_of rl key in
      db\<lparr>login_failures := filter (\<lambda>(b', t). b' \<noteq> b) (login_failures db),
         login_lockouts := dict_pop (login_lockouts db) b\<rparr>)"

definition count_recent_failures :: "string \<Rightarrow> string \<Rightarrow> real \<Rightarrow> 'a limiter_db_scheme \<Rightarrow> int" where
  "count_recent_failures bucket_kind bucket_key since_unix db =
     int (length (filter (\<lambda>(b, t). b = (bucket_kind, normalize_key bucket_key) \<and> t \<ge> since_unix) (login_failures db)))"

section \<open>What the operations do to one bucket\<close>

text \<open>The times of the failures of a bucket, and the end of its lockout.\<close>

definition times_of :: "bucket \<Rightarrow> (bucket \<times> real) list \<Rightarrow> real list" where
  "times_of b rows = map snd (filter (\<lambda>(b', t). b' = b) rows)"

definition failure_times :: "bucket \<Rightarrow> 'a limiter_db_scheme \<Rightarrow> real list" where
  "failure_times b db = times_of b (login_failures db)"

definition locked_until :: "bucket \<Rightarrow> 'a limiter_db_scheme \<Rightarrow> real option" where
  "locked_until b db = map_option fst (dict_get (login_lockouts db) b)"

text \<open>The failures of the bucket once one more is registered and the old ones are deleted.\<close>

definition kept_failures :: "rate_limiter \<Rightarrow> bucket \<Rightarrow> real \<Rightarrow> 'a limiter_db_scheme \<Rightarrow> real list" where
  "kept_failures rl b now db =
     filter (\<lambda>t. now - real_of_int (min (rl_window_seconds rl) LOGIN_FAILURE_RETENTION_SECONDS) \<le> t) (failure_times b db @ [now])"

lemma check_limit_bucket:
  assumes "check_limit rl key now db = (w, db')"
  shows "failure_times b db' = failure_times b db"
    and "locked_until b db' = (if b = bucket_of rl key \<and> w = 0 then None else locked_until b db)"
    and "w = 0 \<longleftrightarrow> (\<forall>u. locked_until (bucket_of rl key) db = Some u \<longrightarrow> u \<le> now)"
    and "0 \<le> w"
proof -
  have "now < u \<Longrightarrow> \<lceil>u - now\<rceil> \<noteq> 0" for u by linarith
  then show "failure_times b db' = failure_times b db"
    and "locked_until b db' = (if b = bucket_of rl key \<and> w = 0 then None else locked_until b db)"
    and "w = 0 \<longleftrightarrow> (\<forall>u. locked_until (bucket_of rl key) db = Some u \<longrightarrow> u \<le> now)"
    and "0 \<le> w"
    using assms
    by (auto simp: check_limit_def Let_def locked_until_def failure_times_def split: option.splits if_splits)
qed

lemma times_of_Nil [simp]: "times_of b [] = []"
  by (simp add: times_of_def)

lemma times_of_Cons [simp]: "times_of b (x # rows) = (if fst x = b then snd x # times_of b rows else times_of b rows)"
  by (cases x) (simp add: times_of_def)

lemma times_of_append [simp]: "times_of b (rows @ rows') = times_of b rows @ times_of b rows'"
  by (induction rows) auto

lemma times_of_other_rows: "times_of b (filter (\<lambda>(b', t). b' \<noteq> c) rows) = (if b = c then [] else times_of b rows)"
  by (induction rows) auto

lemma times_of_insert_failure:
  "times_of b' (insert_failure rl b now rows) =
     (if b' = b
      then filter (\<lambda>t. now - real_of_int (min (rl_window_seconds rl) LOGIN_FAILURE_RETENTION_SECONDS) \<le> t) (times_of b rows @ [now])
      else filter (\<lambda>t. now - real_of_int LOGIN_FAILURE_RETENTION_SECONDS \<le> t) (times_of b' rows))"
proof -
  have "times_of b' (filter (\<lambda>(x, t). \<not> t < r) (filter (\<lambda>(x, t). \<not> (x = b \<and> t < w)) rows))
      = (if b' = b then filter (\<lambda>t. w \<le> t \<and> r \<le> t) (times_of b rows) else filter (\<lambda>t. r \<le> t) (times_of b' rows))" for r w rows
    by (induction rows) auto
  then show ?thesis
    by (auto simp: insert_failure_def Let_def min_def simp del: filter_filter filter_append intro!: filter_cong)
qed

lemma counted_rows:
  "length (filter (\<lambda>(b', t). b' = b \<and> c \<le> t) rows) = length (filter (\<lambda>t. c \<le> t) (times_of b rows))"
  by (induction rows) auto

lemma register_failure_bucket:
  assumes "register_failure rl key now db = (r, db')"
  defines "b \<equiv> bucket_of rl key"
  defines "locks \<equiv> rl_max_attempts rl \<le> int (length (kept_failures rl b now db))"
  shows "failure_times b db' = (if locks then [] else kept_failures rl b now db)"
    and "locked_until b db' = (if locks then Some (now + rl_lockout_seconds rl) else locked_until b db)"
    and "r = (if locks then rl_lockout_seconds rl else 0)"
proof -
  let ?rows = "insert_failure rl b now (login_failures db)"
  have times: "times_of b ?rows = kept_failures rl b now db"
    by (simp add: times_of_insert_failure kept_failures_def failure_times_def)
  have "length (filter (\<lambda>(b', t). b' = b \<and> now - real_of_int (rl_window_seconds rl) \<le> t) ?rows) = length (kept_failures rl b now db)"
    unfolding counted_rows times by (auto simp: kept_failures_def min_def intro!: arg_cong[where f = length] filter_cong)
  then have "register_failure rl key now db =
      (if locks then (rl_lockout_seconds rl,
         db\<lparr>login_lockouts := dict_set (login_lockouts db) b
              (now + real_of_int (rl_lockout_seconds rl), rl_bucket_kind rl @ ''_login_failure_threshold''),
            login_failures := filter (\<lambda>(b', t). b' \<noteq> b) ?rows\<rparr>)
       else (0, db\<lparr>login_failures := ?rows\<rparr>))"
    by (simp add: register_failure_def Let_def locks_def b_def[symmetric])
  then show "failure_times b db' = (if locks then [] else kept_failures rl b now db)"
    and "locked_until b db' = (if locks then Some (now + rl_lockout_seconds rl) else locked_until b db)"
    and "r = (if locks then rl_lockout_seconds rl else 0)"
    using assms(1) times by (auto simp: failure_times_def locked_until_def times_of_other_rows split: if_splits)
qed

lemma register_failure_other:
  assumes "register_failure rl key now db = (r, db')" and "b \<noteq> bucket_of rl key"
  shows "failure_times b db' = filter (\<lambda>t. now - real_of_int LOGIN_FAILURE_RETENTION_SECONDS \<le> t) (failure_times b db)"
    and "locked_until b db' = locked_until b db"
  using assms
  by (auto simp: register_failure_def Let_def locked_until_def failure_times_def times_of_other_rows times_of_insert_failure
      split: if_splits)

lemma clear_limit_bucket:
  "failure_times b (clear_limit rl key db) = (if b = bucket_of rl key then [] else failure_times b db)"
  "locked_until b (clear_limit rl key db) = (if b = bucket_of rl key then None else locked_until b db)"
  by (simp_all add: clear_limit_def failure_times_def locked_until_def times_of_other_rows Let_def)

section \<open>At most so many failures\<close>

text \<open>A client that asks before each attempt, seen at one bucket: the times of its failed attempts, newest first,
  the clock and the tables. Checks that no failure follows, and whatever the other buckets do, may come in between; the
  bucket is not cleared. An attempt and the check before it are one step.\<close>

inductive failed_attempts :: "rate_limiter \<Rightarrow> string \<Rightarrow> real list \<Rightarrow> real \<Rightarrow> limiter_db \<Rightarrow> bool" for rl key where
  start: "failed_attempts rl key [] now \<lparr>login_failures = [], login_lockouts = []\<rparr>"
| fails: "failed_attempts rl key hist t db \<Longrightarrow> t \<le> now \<Longrightarrow> check_limit rl key now db = (0, db1)
    \<Longrightarrow> register_failure rl key now db1 = (r, db2) \<Longrightarrow> failed_attempts rl key (now # hist) now db2"
| asks: "failed_attempts rl key hist t db \<Longrightarrow> t \<le> now \<Longrightarrow> check_limit rl key now db = (w, db1)
    \<Longrightarrow> failed_attempts rl key hist now db1"
| other_check: "failed_attempts rl key hist t db \<Longrightarrow> t \<le> now \<Longrightarrow> bucket_of rl' key' \<noteq> bucket_of rl key
    \<Longrightarrow> check_limit rl' key' now db = (w, db1) \<Longrightarrow> failed_attempts rl key hist now db1"
| other_failure: "failed_attempts rl key hist t db \<Longrightarrow> t \<le> now \<Longrightarrow> bucket_of rl' key' \<noteq> bucket_of rl key
    \<Longrightarrow> register_failure rl' key' now db = (r, db1) \<Longrightarrow> failed_attempts rl key hist now db1"
| other_clear: "failed_attempts rl key hist t db \<Longrightarrow> t \<le> now \<Longrightarrow> bucket_of rl' key' \<noteq> bucket_of rl key
    \<Longrightarrow> failed_attempts rl key hist now (clear_limit rl' key' db)"

inductive_cases failed_attempts_ConsE: "failed_attempts rl key (x # hist) now db"

text \<open>The history falls into the failures since the last lockout and those before; the table holds the recent ones
  of the window, fewer than the limit; and the next attempt comes after the lockout.\<close>

definition limiter_inv :: "rate_limiter \<Rightarrow> bucket \<Rightarrow> real list \<Rightarrow> real list \<Rightarrow> real \<Rightarrow> 'a limiter_db_scheme \<Rightarrow> bool" where
  "limiter_inv rl b recent older now db \<longleftrightarrow>
     sorted (rev (recent @ older)) \<and> (\<forall>x \<in> set (recent @ older). x \<le> now)
   \<and> (\<exists>c \<le> now - real_of_int (rl_window_seconds rl). failure_times b db = rev (filter (\<lambda>x. c \<le> x) recent))
   \<and> int (length (failure_times b db)) < rl_max_attempts rl
   \<and> (older \<noteq> [] \<longrightarrow>
       (let u = hd older + real_of_int (rl_lockout_seconds rl) in
        if recent = [] then locked_until b db = Some u \<or> u \<le> now else u \<le> last recent))"

lemma limiter_invE:
  assumes "limiter_inv rl b recent older t db"
  obtains c where "c \<le> t - rl_window_seconds rl" and "failure_times b db = rev (filter (\<lambda>x. c \<le> x) recent)"
    and "int (length (failure_times b db)) < rl_max_attempts rl" and "sorted (rev (recent @ older))" and "\<forall>x \<in> set (recent @ older). x \<le> t"
  using assms unfolding limiter_inv_def by blast

text \<open>Time passes, the failures of the bucket may lose what is older than the retention, and its lockout may end.\<close>

lemma limiter_inv_passes:
  assumes "limiter_inv rl b recent older t db" and "t \<le> now"
    and "failure_times b db' = failure_times b db
      \<or> (\<exists>d \<le> now - real_of_int (rl_window_seconds rl). failure_times b db' = filter (\<lambda>x. d \<le> x) (failure_times b db))"
    and "locked_until b db' = locked_until b db \<or> (\<forall>u. locked_until b db = Some u \<longrightarrow> u \<le> now)"
  shows "limiter_inv rl b recent older now db'"
proof -
  from assms(1) obtain c where c: "c \<le> t - rl_window_seconds rl" "failure_times b db = rev (filter (\<lambda>x. c \<le> x) recent)"
    and few: "int (length (failure_times b db)) < rl_max_attempts rl"
    by (rule limiter_invE)
  from assms(3) obtain d where d: "d \<le> now - real_of_int (rl_window_seconds rl)"
    "failure_times b db' = filter (\<lambda>x. d \<le> x) (failure_times b db)"
  proof
    assume "failure_times b db' = failure_times b db"
    then show thesis using c assms(2) by (intro that[of c]) (simp_all add: rev_filter)
  qed blast
  have "failure_times b db' = rev (filter (\<lambda>x. max c d \<le> x) recent)"
    unfolding d(2) c(2) by (simp add: rev_filter)
  moreover have "max c d \<le> now - rl_window_seconds rl" using c(1) assms(2) d(1) by simp
  moreover have "int (length (failure_times b db')) < rl_max_attempts rl"
    using few length_filter_le[of "\<lambda>x. d \<le> x" "failure_times b db"] unfolding d(2) by linarith
  ultimately show ?thesis
    using assms(1,2,4) unfolding limiter_inv_def by (fastforce simp: Let_def)
qed

lemma limiter_inv_passes_ex:
  assumes "\<exists>recent older. hist = recent @ older \<and> limiter_inv rl b recent older t db" and "t \<le> now"
    and "failure_times b db' = failure_times b db
      \<or> (\<exists>d \<le> now - real_of_int (rl_window_seconds rl). failure_times b db' = filter (\<lambda>x. d \<le> x) (failure_times b db))"
    and "locked_until b db' = locked_until b db \<or> (\<forall>u. locked_until b db = Some u \<longrightarrow> u \<le> now)"
  shows "\<exists>recent older. hist = recent @ older \<and> limiter_inv rl b recent older now db'"
  using assms(1) limiter_inv_passes[OF _ assms(2-4)] by blast

lemma limiter_inv_fails:
  assumes inv: "limiter_inv rl b recent older t db" and "t \<le> now" and "b = bucket_of rl key"
    and "check_limit rl key now db = (0, db1)" and "register_failure rl key now db1 = (r, db2)"
    and "rl_window_seconds rl \<le> LOGIN_FAILURE_RETENTION_SECONDS" and "0 < rl_max_attempts rl"
  shows "\<exists>recent' older'. recent' @ older' = now # recent @ older \<and> limiter_inv rl b recent' older' now db2"
    and "length (filter (\<lambda>x. now - rl_window_seconds rl \<le> x) (now # recent)) \<le> nat (rl_max_attempts rl)"
    and "older \<noteq> [] \<Longrightarrow> hd older + rl_lockout_seconds rl \<le> now"
proof -
  note check = check_limit_bucket[OF assms(4)] and reg = register_failure_bucket[OF assms(5), folded assms(3)]
  from inv obtain c where c: "c \<le> t - rl_window_seconds rl" "failure_times b db = rev (filter (\<lambda>x. c \<le> x) recent)"
    and few: "int (length (failure_times b db)) < rl_max_attempts rl"
    and sorted: "sorted (rev (recent @ older))" "\<forall>x \<in> set (recent @ older). x \<le> t"
    by (rule limiter_invE)
  show lock: "hd older + rl_lockout_seconds rl \<le> now" if "older \<noteq> []"
    using inv that assms(2,3) check(3) sorted(2)
    by (cases recent rule: rev_cases) (fastforce simp: limiter_inv_def Let_def)+
  let ?kept = "rev (filter (\<lambda>x. now - rl_window_seconds rl \<le> x) (now # recent))"
  have kept: "kept_failures rl b now db1 = ?kept"
  proof -
    have "filter (\<lambda>x. now - rl_window_seconds rl \<le> x) (filter (\<lambda>x. c \<le> x) (rev recent))
        = filter (\<lambda>x. now - rl_window_seconds rl \<le> x) (rev recent)"
      unfolding filter_filter using c(1) assms(2) by (intro filter_cong) auto
    then show ?thesis using assms(6) by (simp add: kept_failures_def check(1) c(2) min_def rev_filter)
  qed
  have "int (length ?kept) \<le> int (length (failure_times b db)) + 1"
  proof -
    have "length (filter (\<lambda>x. now - rl_window_seconds rl \<le> x) recent) \<le> length (filter (\<lambda>x. c \<le> x) recent)"
      using c(1) assms(2) by (induction recent) auto
    then show ?thesis by (simp add: c(2))
  qed
  with few show "length (filter (\<lambda>x. now - rl_window_seconds rl \<le> x) (now # recent)) \<le> nat (rl_max_attempts rl)" by simp
  have ordered: "sorted (rev (now # recent @ older))" "\<forall>x \<in> set (now # recent @ older). x \<le> now"
    using sorted assms(2) by (auto simp: sorted_append intro: order_trans)
  show "\<exists>recent' older'. recent' @ older' = now # recent @ older \<and> limiter_inv rl b recent' older' now db2"
  proof (cases "rl_max_attempts rl \<le> int (length ?kept)")
    case True
    have "limiter_inv rl b [] (now # recent @ older) now db2"
      using ordered reg(1,2) True assms(7) unfolding limiter_inv_def kept by (auto simp: Let_def intro: exI[of _ "now - rl_window_seconds rl"])
    then show ?thesis by (intro exI[of _ "[]"] exI[of _ "now # recent @ older"]) simp
  next
    case False
    have last: "last (now # recent) = (if recent = [] then now else last recent)" by simp
    have "limiter_inv rl b (now # recent) older now db2"
      unfolding limiter_inv_def
    proof (intro conjI)
      show "sorted (rev ((now # recent) @ older))" "\<forall>x \<in> set ((now # recent) @ older). x \<le> now" using ordered by simp_all
      show "\<exists>c \<le> now - rl_window_seconds rl. failure_times b db2 = rev (filter (\<lambda>x. c \<le> x) (now # recent))"
        using reg(1) False kept by (intro exI[of _ "now - rl_window_seconds rl"]) auto
      show "int (length (failure_times b db2)) < rl_max_attempts rl" using reg(1) False kept by simp
      show "older \<noteq> [] \<longrightarrow> (let u = hd older + rl_lockout_seconds rl in
          if now # recent = [] then locked_until b db2 = Some u \<or> u \<le> now else u \<le> last (now # recent))"
        using lock inv by (auto simp: limiter_inv_def Let_def)
    qed
    then show ?thesis by (intro exI[of _ "now # recent"] exI[of _ older]) simp
  qed
qed

lemma failed_attempts_inv:
  assumes "failed_attempts rl key hist now db" and "rl_window_seconds rl \<le> LOGIN_FAILURE_RETENTION_SECONDS" and "0 < rl_max_attempts rl"
  shows "\<exists>recent older. hist = recent @ older \<and> limiter_inv rl (bucket_of rl key) recent older now db"
  using assms(1)
proof induction
  case (start now)
  have "limiter_inv rl (bucket_of rl key) [] [] now \<lparr>login_failures = [], login_lockouts = []\<rparr>"
    using assms(3) by (auto simp: limiter_inv_def failure_times_def)
  then show ?case by blast
next
  case (fails hist t db now db1 r db2)
  from fails.IH obtain recent older where "hist = recent @ older" "limiter_inv rl (bucket_of rl key) recent older t db" by blast
  then show ?case using limiter_inv_fails(1)[OF _ fails(2) refl fails(3,4) assms(2,3), of recent older] by metis
next
  case (asks hist t db now w db1)
  note check = check_limit_bucket[OF asks(3)]
  have "locked_until (bucket_of rl key) db1 = locked_until (bucket_of rl key) db
      \<or> (\<forall>u. locked_until (bucket_of rl key) db = Some u \<longrightarrow> u \<le> now)"
    using check(2,3) by (cases "w = 0") simp_all
  then show ?case by (rule limiter_inv_passes_ex[OF asks(4,2) disjI1[OF check(1)]])
next
  case (other_check hist t db now rl' key' w db1)
  note check = check_limit_bucket[OF other_check(4)]
  have "locked_until (bucket_of rl key) db1 = locked_until (bucket_of rl key) db"
    using other_check(3) check(2) by simp
  then show ?case by (intro limiter_inv_passes_ex[OF other_check(5,2)] disjI1 check(1))
next
  case (other_failure hist t db now rl' key' r db1)
  note reg = register_failure_other[OF other_failure(4) other_failure(3)[symmetric]]
  have "now - real_of_int LOGIN_FAILURE_RETENTION_SECONDS \<le> now - rl_window_seconds rl" using assms(2) by simp
  with reg(1) have "\<exists>d \<le> now - real_of_int (rl_window_seconds rl).
      failure_times (bucket_of rl key) db1 = filter (\<lambda>x. d \<le> x) (failure_times (bucket_of rl key) db)" by blast
  then show ?case by (intro limiter_inv_passes_ex[OF other_failure(5,2)] disjI2 disjI1[OF reg(2)])
next
  case (other_clear hist t db now rl' key')
  then show ?case by (intro limiter_inv_passes_ex[OF other_clear(4,2)]) (simp_all add: clear_limit_bucket)
qed

text \<open>The failures of a history that lie in \<open>[a, a + L)\<close>.\<close>

definition in_span :: "real \<Rightarrow> real \<Rightarrow> real list \<Rightarrow> real list" where
  "in_span a L hist = filter (\<lambda>x. a \<le> x \<and> x < a + L) hist"

lemma in_span_fails:
  assumes inv: "limiter_inv rl b recent older t db" and "t \<le> now" and "b = bucket_of rl key"
    and "check_limit rl key now db = (0, db1)" and "register_failure rl key now db1 = (r, db2)"
    and "rl_window_seconds rl \<le> LOGIN_FAILURE_RETENTION_SECONDS" and "0 < rl_max_attempts rl"
    and "L \<le> rl_window_seconds rl" and "L \<le> rl_lockout_seconds rl" and "a \<le> now" and "now < a + L"
  shows "length (in_span a L (now # recent @ older)) \<le> nat (rl_max_attempts rl)"
proof -
  note fails = limiter_inv_fails[OF assms(1-7)]
  from inv have sorted: "sorted (rev (recent @ older))" by (rule limiter_invE)
  have "x < a" if "x \<in> set older" for x
  proof -
    have "x \<le> hd older" using sorted that by (cases older) (auto simp: sorted_append)
    moreover have "older \<noteq> []" using that by auto
    ultimately show ?thesis using fails(3) assms(9,11) by linarith
  qed
  then have "in_span a L (now # recent @ older) = in_span a L (now # recent)"
    by (fastforce simp: in_span_def filter_empty_conv)
  also have "length \<dots> \<le> length (filter (\<lambda>x. now - rl_window_seconds rl \<le> x) (now # recent))"
    unfolding in_span_def using assms(8,11) by (induction recent) auto
  finally show ?thesis using fails(2) by linarith
qed

text \<open>C16: A client that asks the limiter before each attempt and is not cleared fails at most \<open>max_attempts\<close> times in any
  span that is not longer than the window and not longer than the lockout, whatever happens to the other buckets in
  between. (The window must not exceed the seven days that failures are kept.)\<close>

theorem failures_bounded:
  assumes "failed_attempts rl key hist now db"
    and "rl_window_seconds rl \<le> LOGIN_FAILURE_RETENTION_SECONDS" and "0 < rl_max_attempts rl"
    and "L \<le> rl_window_seconds rl" and "L \<le> rl_lockout_seconds rl"
  shows "length (in_span a L hist) \<le> nat (rl_max_attempts rl)"
  using assms(1)
proof induction
  case (fails hist t db now db1 r db2)
  from failed_attempts_inv[OF fails(1) assms(2,3)] obtain recent older where
    h: "hist = recent @ older" "limiter_inv rl (bucket_of rl key) recent older t db" by blast
  show ?case
  proof (cases "a \<le> now \<and> now < a + L")
    case True
    then show ?thesis using in_span_fails[OF h(2) fails(2) refl fails(3,4) assms(2-5)] h(1) by simp
  next
    case False
    then show ?thesis using fails.IH by (auto simp: in_span_def)
  qed
qed (simp_all add: in_span_def)

text \<open>Two attempts of at most two: the second one locks, and the third is refused until the lockout ends.\<close>

theorem failures_bounded_witness:
  "let rl = \<lparr>rl_bucket_kind = ''ip'', rl_window_seconds = 60, rl_max_attempts = 2, rl_lockout_seconds = 30\<rparr> in
   \<exists>db. failed_attempts rl ''h'' [31, 1, 0] 31 db \<and> length (in_span 0 30 [31, 1, 0]) = 2
      \<and> length (in_span 0 30 [31, 1, 0]) \<le> nat (rl_max_attempts rl)"
proof -
  let ?rl = "\<lparr>rl_bucket_kind = ''ip'', rl_window_seconds = 60, rl_max_attempts = 2, rl_lockout_seconds = 30\<rparr>"
  let ?b = "(''ip'', ''h'')" and ?r = "''ip_login_failure_threshold''"
  let ?d0 = "\<lparr>login_failures = [], login_lockouts = []\<rparr>"
    and ?d1 = "\<lparr>login_failures = [(?b, 0)], login_lockouts = []\<rparr>"
    and ?d2 = "\<lparr>login_failures = [], login_lockouts = [(?b, 31, ?r)]\<rparr>"
    and ?d3 = "\<lparr>login_failures = [(?b, 31)], login_lockouts = []\<rparr>"
  have b: "bucket_of ?rl ''h'' = ?b" by code_simp
  note defs = check_limit_def register_failure_def insert_failure_def LOGIN_FAILURE_RETENTION_SECONDS_def b Let_def
  have "failed_attempts ?rl ''h'' [] 0 ?d0" by (rule failed_attempts.start)
  then have "failed_attempts ?rl ''h'' [0] 0 ?d1"
    by (rule failed_attempts.fails[where ?db1.0 = ?d0 and r = 0]) (simp_all add: defs)
  then have "failed_attempts ?rl ''h'' [1, 0] 1 ?d2"
    by (rule failed_attempts.fails[where ?db1.0 = ?d1 and r = 30]) (simp_all add: defs)
  then have h: "failed_attempts ?rl ''h'' [31, 1, 0] 31 ?d3"
    by (rule failed_attempts.fails[where ?db1.0 = ?d0 and r = 0]) (simp_all add: defs)
  show ?thesis
    using failures_bounded[OF h, of 30 0] h
    by (auto simp: in_span_def LOGIN_FAILURE_RETENTION_SECONDS_def)
qed

end
