(* ===== verification/Auth_Sessions.thy ===== *)
theory Auth_Sessions
  imports Rate_Limiter
begin

text \<open>
  Browser sessions: \<^verbatim>\<open>src/backend/app/auth.py\<close>. A table is the list of its rows in the order of insertion, with the
  columns the code reads or writes; a time stamp is a number of seconds (the code compares UTC stamps of one format,
  whose order as strings is that of the times), \<^verbatim>\<open>NULL\<close> is \<open>None\<close>. Each operation reads the clock once; the hash of
  tokens is an argument. Log and admin events are left out, but for the test whether a status change is announced; so
  is the yearly increment of age credentials, which touches only their columns.
\<close>

section \<open>The tables\<close>

record user_row =
  ur_id :: int
  ur_username :: string
  ur_password_hash :: string
  ur_role :: string
  ur_enabled :: bool
  ur_totp_secret :: "string option"
  ur_totp_enabled_at :: "real option"
  ur_totp_last_used_window :: "int option"
  ur_totp_setup_skipped_at :: "real option"
  ur_totp_setup_prompt_enabled :: bool
  ur_last_login_at :: "real option"

record session_row =
  ss_id :: int
  ss_user_id :: int
  ss_token_hash :: string
  ss_created_at :: real
  ss_expires_at :: real
  ss_last_seen_at :: "real option"
  ss_last_activity_at :: "real option"
  ss_revoked_at :: "real option"
  ss_revoked_reason :: "string option"
  ss_cleanup_confirmed_at :: "real option"

text \<open>The rows other tables hold on behalf of a session.\<close>

record native_row =
  ns_session_id :: string
  ns_access_token_hash :: string
  ns_user_id :: int
  ns_auth_session_id :: "int option"
  ns_created_from :: "int option"
  ns_expires_at :: real
  ns_revoked_at :: "real option"
  ns_closed_at :: "real option"
  ns_media_item_id :: int
  ns_client_name :: "string option"

record handoff_row =
  ho_handoff_id :: string
  ho_access_token_hash :: string
  ho_user_id :: int
  ho_auth_session_id :: "int option"
  ho_expires_at :: real
  ho_revoked_at :: "real option"
  ho_media_item_id :: int

record download_row =
  dl_auth_session_id :: "int option"
  dl_revoked_at :: "real option"
  dl_last_error :: "string option"
  dl_completed_at :: "real option"

record challenge_row =
  ch_token_hash :: string
  ch_user_id :: int
  ch_expires_at_unix :: real

record recovery_row =
  rc_id :: int
  rc_user_id :: int
  rc_code_hash :: string
  rc_used_at :: "real option"

record auth_db = limiter_db +
  users :: "user_row list"
  sessions :: "session_row list"
  session_seq :: int
  native_playback_sessions :: "native_row list"
  desktop_vlc_handoffs :: "handoff_row list"
  download_sessions :: "download_row list"
  google_oauth_states :: "int list"
  google_oauth_account_candidates :: "int list"
  google_oauth_operations :: "int list"
  login_challenges :: "challenge_row list"
  user_recovery_codes :: "recovery_row list"
  recovery_seq :: int
  totp_pending_secrets :: "(int \<times> string \<times> real) list"

record auth_settings =
  session_ttl_hours :: int
  session_idle_timeout_hours :: int
  playback_token_ttl_seconds :: int
  external_player_stream_ttl_seconds :: int

definition SESSION_LIVENESS_WINDOW_SECONDS :: real where "SESSION_LIVENESS_WINDOW_SECONDS = 90"
definition SESSION_ACTIVITY_WINDOW_SECONDS :: real where "SESSION_ACTIVITY_WINDOW_SECONDS = 3 * 60 * 60"
definition SESSION_HISTORY_RETENTION_DAYS :: real where "SESSION_HISTORY_RETENTION_DAYS = 90"

section \<open>Revoking\<close>

definition revoke_downloads :: "int list \<Rightarrow> real \<Rightarrow> string \<Rightarrow> download_row list \<Rightarrow> download_row list" where
  "revoke_downloads ids now reason =
     map (\<lambda>d. if (\<exists>i \<in> set ids. dl_auth_session_id d = Some i) \<and> dl_revoked_at d = None \<and> dl_completed_at d = None
              then d\<lparr>dl_revoked_at := Some now,
                     dl_last_error := (case dl_last_error d of None \<Rightarrow> Some reason | Some e \<Rightarrow> Some e)\<rparr> else d)"

definition revoke_natives :: "(native_row \<Rightarrow> bool) \<Rightarrow> real \<Rightarrow> native_row list \<Rightarrow> native_row list" where
  "revoke_natives P now =
     map (\<lambda>n. if P n \<and> ns_revoked_at n = None \<and> ns_closed_at n = None then n\<lparr>ns_revoked_at := Some now\<rparr> else n)"

definition revoke_handoffs :: "(handoff_row \<Rightarrow> bool) \<Rightarrow> real \<Rightarrow> handoff_row list \<Rightarrow> handoff_row list" where
  "revoke_handoffs P now = map (\<lambda>h. if P h \<and> ho_revoked_at h = None then h\<lparr>ho_revoked_at := Some now\<rparr> else h)"

definition owned_by :: "int list \<Rightarrow> int option \<Rightarrow> bool" where
  "owned_by ids owner = (case owner of None \<Rightarrow> False | Some i \<Rightarrow> i \<in> set ids)"

definition revoke_session_ids :: "int list \<Rightarrow> string \<Rightarrow> real \<Rightarrow> auth_db \<Rightarrow> auth_db" where
  "revoke_session_ids ids reason now db =
     (if ids = [] then db
      else
        let natives = revoke_natives (\<lambda>n. owned_by ids (ns_auth_session_id n)) now (native_playback_sessions db) in
        db\<lparr>download_sessions := revoke_downloads ids now reason (download_sessions db),
           sessions := map (\<lambda>s. if ss_id s \<in> set ids
                                then s\<lparr>ss_revoked_at := Some now, ss_revoked_reason := Some reason, ss_cleanup_confirmed_at := None\<rparr>
                                else s) (sessions db),
           native_playback_sessions :=
             (if reason = ''admin_revoked''
              then revoke_natives (\<lambda>n. owned_by ids (ns_created_from n) \<and> ns_auth_session_id n = None) now natives else natives),
           desktop_vlc_handoffs := revoke_handoffs (\<lambda>h. owned_by ids (ho_auth_session_id h)) now (desktop_vlc_handoffs db),
           google_oauth_states := filter (\<lambda>i. i \<notin> set ids) (google_oauth_states db),
           google_oauth_account_candidates := filter (\<lambda>i. i \<notin> set ids) (google_oauth_account_candidates db),
           google_oauth_operations := filter (\<lambda>i. i \<notin> set ids) (google_oauth_operations db)\<rparr>)"

definition revoke_session_by_id :: "int \<Rightarrow> string \<Rightarrow> real \<Rightarrow> auth_db \<Rightarrow> bool \<times> auth_db" where
  "revoke_session_by_id session_id reason now db =
     (if \<exists>s \<in> set (sessions db). ss_id s = session_id \<and> ss_revoked_at s = None
      then (True, revoke_session_ids [session_id] reason now db) else (False, db))"

definition revoke_sessions_for_user :: "int \<Rightarrow> string \<Rightarrow> real \<Rightarrow> auth_db \<Rightarrow> int \<times> auth_db" where
  "revoke_sessions_for_user user_id reason now db =
     (let ids = map ss_id (filter (\<lambda>s. ss_user_id s = user_id \<and> ss_revoked_at s = None) (sessions db));
          db = (if ids \<noteq> [] then revoke_session_ids ids reason now db else db);
          db = (if reason = ''user_disabled''
                then db\<lparr>native_playback_sessions := revoke_natives (\<lambda>n. ns_user_id n = user_id) now (native_playback_sessions db),
                        desktop_vlc_handoffs := revoke_handoffs (\<lambda>h. ho_user_id h = user_id) now (desktop_vlc_handoffs db)\<rparr>
                else db) in
      (int (length ids), db))"

definition destroy_session :: "(string \<Rightarrow> string) \<Rightarrow> string option \<Rightarrow> real \<Rightarrow> auth_db \<Rightarrow> auth_db" where
  "destroy_session token_hash token now db =
     (if \<not> truthy_string token then db
      else case List.find (\<lambda>s. ss_token_hash s = token_hash (the token) \<and> ss_revoked_at s = None) (sessions db) of
             None \<Rightarrow> db
           | Some row \<Rightarrow>
               db\<lparr>sessions := map (\<lambda>s. if ss_id s = ss_id row
                      then s\<lparr>ss_revoked_at := Some now, ss_revoked_reason := Some ''logout'', ss_cleanup_confirmed_at := Some now\<rparr>
                      else s) (sessions db),
                  native_playback_sessions := revoke_natives (\<lambda>n. ns_auth_session_id n = Some (ss_id row)) now (native_playback_sessions db),
                  desktop_vlc_handoffs := revoke_handoffs (\<lambda>h. ho_auth_session_id h = Some (ss_id row)) now (desktop_vlc_handoffs db),
                  download_sessions := revoke_downloads [ss_id row] now ''auth_session_logout'' (download_sessions db),
                  google_oauth_states := filter (\<lambda>i. i \<noteq> ss_id row) (google_oauth_states db),
                  google_oauth_account_candidates := filter (\<lambda>i. i \<noteq> ss_id row) (google_oauth_account_candidates db),
                  google_oauth_operations := filter (\<lambda>i. i \<noteq> ss_id row) (google_oauth_operations db)\<rparr>)"

text \<open>Maintenance mode (\<^verbatim>\<open>exposure_maintenance_service.py\<close>) ends the sessions of all users who are not administrators.\<close>

definition revoke_non_admin_sessions_for_maintenance_mode :: "real \<Rightarrow> auth_db \<Rightarrow> (int \<times> int) \<times> auth_db" where
  "revoke_non_admin_sessions_for_maintenance_mode now db =
     (let rows = filter (\<lambda>s. ss_revoked_at s = None
                    \<and> (case List.find (\<lambda>u. ur_id u = ss_user_id s) (users db) of None \<Rightarrow> False | Some u \<Rightarrow> ur_role u \<noteq> ''admin'')) (sessions db);
          ids = map ss_id rows;
          affected = length (remdups (map ss_user_id rows)) in
      ((int (length ids), int affected),
       if ids = [] then db
       else db\<lparr>download_sessions := revoke_downloads ids now ''maintenance_mode'' (download_sessions db),
               sessions := map (\<lambda>s. if ss_id s \<in> set ids
                                    then s\<lparr>ss_revoked_at := Some now, ss_revoked_reason := Some ''maintenance_mode'', ss_cleanup_confirmed_at := None\<rparr>
                                    else s) (sessions db),
               native_playback_sessions := revoke_natives (\<lambda>n. owned_by ids (ns_auth_session_id n)) now (native_playback_sessions db)\<rparr>))"

section \<open>Expiry\<close>

text \<open>A session leaves the table 90 days after it was revoked or, never revoked, after it expired.\<close>

definition is_history :: "real \<Rightarrow> session_row \<Rightarrow> bool" where
  "is_history cutoff s = (case ss_revoked_at s of Some r \<Rightarrow> r \<le> cutoff | None \<Rightarrow> ss_expires_at s \<le> cutoff)"

text \<open>Rows of sessions are deleted with what the foreign keys do: downloads are left without an owner, the pending
  sign-ins to Google are deleted.\<close>

definition delete_session_rows :: "(session_row \<Rightarrow> bool) \<Rightarrow> auth_db \<Rightarrow> auth_db" where
  "delete_session_rows P db =
     (let gone = map ss_id (filter P (sessions db)) in
      db\<lparr>sessions := filter (\<lambda>s. \<not> P s) (sessions db),
         download_sessions := map (\<lambda>d. if owned_by gone (dl_auth_session_id d) then d\<lparr>dl_auth_session_id := None\<rparr> else d) (download_sessions db),
         google_oauth_states := filter (\<lambda>i. i \<notin> set gone) (google_oauth_states db),
         google_oauth_account_candidates := filter (\<lambda>i. i \<notin> set gone) (google_oauth_account_candidates db),
         google_oauth_operations := filter (\<lambda>i. i \<notin> set gone) (google_oauth_operations db)\<rparr>)"

definition cleanup_expired_sessions :: "real \<Rightarrow> auth_db \<Rightarrow> auth_db" where
  "cleanup_expired_sessions now db =
     (let cutoff = now - SESSION_HISTORY_RETENTION_DAYS * 86400;
          gone = map ss_id (filter (is_history cutoff) (sessions db)) in
      delete_session_rows (is_history cutoff)
        (db\<lparr>download_sessions := revoke_downloads gone now ''auth_session_deleted'' (download_sessions db),
         native_playback_sessions := filter (\<lambda>n. \<not> (ns_expires_at n \<le> now \<or> ns_closed_at n \<noteq> None \<or> ns_revoked_at n \<noteq> None))
           (native_playback_sessions db),
         desktop_vlc_handoffs := filter (\<lambda>h. \<not> (ho_expires_at h \<le> now \<or> ho_revoked_at h \<noteq> None)) (desktop_vlc_handoffs db)\<rparr>))"

definition delete_session_for_auth_expiry :: "int \<Rightarrow> real \<Rightarrow> auth_db \<Rightarrow> auth_db" where
  "delete_session_for_auth_expiry session_id now db =
     (let db = delete_session_rows (\<lambda>s. ss_id s = session_id)
            (db\<lparr>download_sessions := revoke_downloads [session_id] now ''auth_session_expired'' (download_sessions db)\<rparr>) in
     db\<lparr>native_playback_sessions := revoke_natives (\<lambda>n. ns_auth_session_id n = Some session_id) now (native_playback_sessions db),
        desktop_vlc_handoffs := revoke_handoffs (\<lambda>h. ho_auth_session_id h = Some session_id) now (desktop_vlc_handoffs db)\<rparr>)"

section \<open>Creating and using a session\<close>

text \<open>The token is fresh from the random generator; a token whose hash is taken violates the unique column.\<close>

definition new_session_row :: "auth_settings \<Rightarrow> string \<Rightarrow> int \<Rightarrow> real \<Rightarrow> int \<Rightarrow> session_row" where
  "new_session_row settings h user_id now i =
     \<lparr>ss_id = i, ss_user_id = user_id, ss_token_hash = h, ss_created_at = now,
      ss_expires_at = now + real_of_int (session_ttl_hours settings) * 3600, ss_last_seen_at = Some now,
      ss_last_activity_at = Some now, ss_revoked_at = None, ss_revoked_reason = None, ss_cleanup_confirmed_at = None\<rparr>"

definition create_session :: "auth_settings \<Rightarrow> (string \<Rightarrow> string) \<Rightarrow> string \<Rightarrow> int \<Rightarrow> real \<Rightarrow> auth_db \<Rightarrow> py_error + auth_db" where
  "create_session settings token_hash token user_id now db =
     (let db = cleanup_expired_sessions now db; i = session_seq db + 1 in
      if token_hash token \<in> set (map ss_token_hash (sessions db))
      then Inl (DatabaseError ''UNIQUE constraint failed: sessions.session_token_hash'')
      else Inr (db\<lparr>sessions := sessions db @ [new_session_row settings (token_hash token) user_id now i], session_seq := i,
                  users := map (\<lambda>u. if ur_id u = user_id then u\<lparr>ur_last_login_at := Some now\<rparr> else u) (users db)\<rparr>))"

definition admin_visible_session_state ::
  "real option \<Rightarrow> real option \<Rightarrow> real \<Rightarrow> real option \<Rightarrow> real \<Rightarrow> bool \<times> bool" where
  "admin_visible_session_state last_seen_at last_activity_at expires_at revoked_at now =
     (let live = (revoked_at = None \<and> expires_at > now \<and>
                  (case last_seen_at of None \<Rightarrow> False | Some t \<Rightarrow> t \<ge> now - SESSION_LIVENESS_WINDOW_SECONDS)) in
      (live, live \<and> (case last_activity_at of None \<Rightarrow> False | Some t \<Rightarrow> t \<ge> now - SESSION_ACTIVITY_WINDOW_SECONDS)))"

definition user_of_session :: "auth_db \<Rightarrow> session_row \<Rightarrow> user_row option" where
  "user_of_session db s = List.find (\<lambda>u. ur_id u = ss_user_id s) (users db)"

definition usable_session :: "auth_db \<Rightarrow> string \<Rightarrow> session_row \<Rightarrow> bool" where
  "usable_session db h s =
     (ss_token_hash s = h \<and> ss_revoked_at s = None \<and>
      (case user_of_session db s of None \<Rightarrow> False | Some u \<Rightarrow> ur_enabled u))"

definition expiry_reason :: "auth_settings \<Rightarrow> session_row \<Rightarrow> real \<Rightarrow> string option" where
  "expiry_reason settings s now =
     (if ss_expires_at s \<le> now then Some ''absolute_ttl''
      else case ss_last_seen_at s of
             None \<Rightarrow> Some ''missing_last_seen_at''
           | Some seen \<Rightarrow> if now - seen > real_of_int (session_idle_timeout_hours settings) * 3600 then Some ''idle_timeout'' else None)"

definition known_activity :: "session_row \<Rightarrow> real" where
  "known_activity s =
     (case ss_last_activity_at s of Some t \<Rightarrow> t | None \<Rightarrow> (case ss_last_seen_at s of Some t \<Rightarrow> t | None \<Rightarrow> ss_created_at s))"

text \<open>The user and session of a token, whether a change of status is announced, and the tables after it.\<close>

definition get_user_by_session_token ::
  "auth_settings \<Rightarrow> (string \<Rightarrow> string) \<Rightarrow> string \<Rightarrow> bool \<Rightarrow> real \<Rightarrow> auth_db \<Rightarrow> ((user_row \<times> int) option \<times> bool) \<times> auth_db" where
  "get_user_by_session_token settings token_hash token heartbeat now db =
     (if token = [] then ((None, False), db)
      else
        let db = cleanup_expired_sessions now db in
        case List.find (usable_session db (token_hash token)) (sessions db) of
          None \<Rightarrow> ((None, False), db)
        | Some s \<Rightarrow>
            if expiry_reason settings s now \<noteq> None then ((None, False), delete_session_for_auth_expiry (ss_id s) now db)
            else
              let before = admin_visible_session_state (ss_last_seen_at s) (Some (known_activity s)) (ss_expires_at s) (ss_revoked_at s) now;
                  touch = (\<lambda>r. if ss_id r = ss_id s
                                then (if heartbeat then r\<lparr>ss_last_seen_at := Some now\<rparr>
                                      else r\<lparr>ss_last_seen_at := Some now, ss_last_activity_at := Some now\<rparr>)
                                else r);
                  next_activity = (if heartbeat then known_activity s else now);
                  after = admin_visible_session_state (Some now) (Some next_activity) (ss_expires_at s) (ss_revoked_at s) now in
              ((map_option (\<lambda>u. (u, ss_id s)) (user_of_session db s), before \<noteq> after),
               db\<lparr>sessions := map touch (sessions db)\<rparr>))"

definition confirm_cleanup :: "int \<Rightarrow> real \<Rightarrow> auth_db \<Rightarrow> auth_db" where
  "confirm_cleanup session_id now db =
     db\<lparr>sessions := map (\<lambda>s. if ss_id s = session_id \<and> ss_cleanup_confirmed_at s = None
                             then s\<lparr>ss_cleanup_confirmed_at := Some now\<rparr> else s) (sessions db)\<rparr>"

definition get_session_access_failure_reason ::
  "(string \<Rightarrow> string) \<Rightarrow> string \<Rightarrow> real \<Rightarrow> auth_db \<Rightarrow> string option \<times> auth_db" where
  "get_session_access_failure_reason token_hash token now db =
     (if token = [] then (None, db)
      else
        let db = cleanup_expired_sessions now db in
        case List.find (\<lambda>s. ss_token_hash s = token_hash token) (sessions db) of
          None \<Rightarrow> (None, db)
        | Some s \<Rightarrow>
            let expired = (ss_revoked_at s = None \<and> ss_cleanup_confirmed_at s = None \<and> ss_expires_at s \<le> now);
                ended = (ss_revoked_at s \<noteq> None \<and> ss_cleanup_confirmed_at s = None);
                db' = (if expired \<or> ended then confirm_cleanup (ss_id s) now db else db);
                disabled = (case user_of_session db s of None \<Rightarrow> False | Some u \<Rightarrow> \<not> ur_enabled u) in
            (if ss_revoked_reason s = Some ''user_disabled'' \<or> disabled then Some ''disabled''
             else if ss_revoked_reason s = Some ''maintenance_mode'' \<and> ss_revoked_at s \<noteq> None then Some ''maintenance_mode''
             else if ss_revoked_at s \<noteq> None then Some ''revoked'' else None, db'))"

definition raise_if_exposure_maintenance_locked :: "bool \<Rightarrow> string \<Rightarrow> string \<Rightarrow> py_error + unit" where
  "raise_if_exposure_maintenance_locked locked message role =
     (if role = ''admin'' then Inr () else if locked then Inl (HTTPException 503 message) else Inr ())"

definition resolve_authenticated_user ::
  "auth_settings \<Rightarrow> (string \<Rightarrow> string) \<Rightarrow> bool \<Rightarrow> string \<Rightarrow> string option \<Rightarrow> bool \<Rightarrow> real \<Rightarrow> auth_db
     \<Rightarrow> (py_error + user_row \<times> int) \<times> auth_db" where
  "resolve_authenticated_user settings token_hash locked message cookie heartbeat now db =
     (let token = or_string cookie [];
          (failure_reason, db) = get_session_access_failure_reason token_hash token now db;
          ((user, announced), db) = get_user_by_session_token settings token_hash token heartbeat now db in
      (case user of
         None \<Rightarrow> Inl (if failure_reason = Some ''disabled'' then HTTPException 403 ''This account has been disabled''
                      else if failure_reason = Some ''maintenance_mode'' then HTTPException 503 message
                      else HTTPException 401 ''Authentication required'')
       | Some (u, i) \<Rightarrow> and_then (raise_if_exposure_maintenance_locked locked message (ur_role u)) (\<lambda>_. Inr (u, i)), db))"

definition require_admin_user :: "py_error + user_row \<times> int \<Rightarrow> py_error + user_row \<times> int" where
  "require_admin_user user =
     and_then user (\<lambda>(u, i). if ur_role u \<noteq> ''admin'' then Inl (HTTPException 403 ''Admin access is required'') else Inr (u, i))"

section \<open>Well-formed tables\<close>

text \<open>Ids are unique and below the sequence, and so are the hashes of tokens.\<close>

definition auth_wf :: "auth_db \<Rightarrow> bool" where
  "auth_wf db \<longleftrightarrow> distinct (map ss_id (sessions db)) \<and> distinct (map ss_token_hash (sessions db))
     \<and> (\<forall>s \<in> set (sessions db). ss_id s \<le> session_seq db)"

text \<open>What an operation may do to a row of a session: delete it, or keep who and what it is; a revoked row stays revoked.\<close>

definition row_kept :: "session_row \<Rightarrow> session_row \<Rightarrow> bool" where
  "row_kept s s' \<longleftrightarrow> ss_id s' = ss_id s \<and> ss_user_id s' = ss_user_id s \<and> ss_token_hash s' = ss_token_hash s
     \<and> ss_expires_at s' = ss_expires_at s \<and> (ss_revoked_at s \<noteq> None \<longrightarrow> ss_revoked_at s' \<noteq> None)"

inductive rows_kept :: "session_row list \<Rightarrow> session_row list \<Rightarrow> bool" where
  rows_Nil: "rows_kept [] []"
| rows_gone: "rows_kept ss ss' \<Longrightarrow> rows_kept (s # ss) ss'"
| rows_stay: "rows_kept ss ss' \<Longrightarrow> row_kept s s' \<Longrightarrow> rows_kept (s # ss) (s' # ss')"

lemma row_kept_refl [simp]: "row_kept s s" by (simp add: row_kept_def)

lemma row_kept_trans: "row_kept s t \<Longrightarrow> row_kept t u \<Longrightarrow> row_kept s u" by (simp add: row_kept_def)

lemma rows_kept_refl [simp]: "rows_kept ss ss"
  by (induction ss) (auto intro: rows_kept.intros)

lemma rows_kept_map: "(\<And>s. s \<in> set ss \<Longrightarrow> row_kept s (f s)) \<Longrightarrow> rows_kept ss (map f ss)"
  by (induction ss) (auto intro: rows_kept.intros)

lemma rows_kept_filter: "rows_kept ss (filter P ss)"
  by (induction ss) (auto intro: rows_kept.intros)

inductive_cases rows_kept_ConsE: "rows_kept (s # ss) ts"
inductive_cases rows_kept_NilE: "rows_kept [] ts"

lemma rows_kept_trans: "rows_kept ss ts \<Longrightarrow> rows_kept ts us \<Longrightarrow> rows_kept ss us"
proof (induction ss ts arbitrary: us rule: rows_kept.induct)
  case (rows_stay ss ss' s s')
  from rows_stay.prems show ?case
    by (rule rows_kept_ConsE) (auto intro: rows_kept.intros rows_stay.IH row_kept_trans[OF rows_stay.hyps(2)])
qed (auto intro: rows_kept.intros)

lemma rows_kept_from: "rows_kept ss ts \<Longrightarrow> t \<in> set ts \<Longrightarrow> \<exists>s \<in> set ss. row_kept s t"
  by (induction rule: rows_kept.induct) auto

lemma rows_kept_distinct:
  "rows_kept ss ts \<Longrightarrow> distinct (map ss_id ss) \<Longrightarrow> distinct (map ss_id ts)"
  "rows_kept ss ts \<Longrightarrow> distinct (map ss_token_hash ss) \<Longrightarrow> distinct (map ss_token_hash ts)"
proof (induction rule: rows_kept.induct)
  case (rows_stay ss ss' s s')
  {
    case 1
    then show ?case using rows_stay rows_kept_from[OF rows_stay.hyps(1)] by (fastforce simp: row_kept_def image_iff)
  next
    case 2
    then show ?case using rows_stay rows_kept_from[OF rows_stay.hyps(1)] by (fastforce simp: row_kept_def image_iff)
  }
qed auto

lemma auth_wf_kept:
  "auth_wf db \<Longrightarrow> rows_kept (sessions db) (sessions db') \<Longrightarrow> session_seq db' = session_seq db \<Longrightarrow> auth_wf db'"
  unfolding auth_wf_def using rows_kept_distinct rows_kept_from by (fastforce simp: row_kept_def)

lemma kept_marks [simp]:
  "row_kept s (s\<lparr>ss_revoked_at := Some r, ss_revoked_reason := q, ss_cleanup_confirmed_at := c\<rparr>)"
  "row_kept s (s\<lparr>ss_cleanup_confirmed_at := c\<rparr>)"
  "row_kept s (s\<lparr>ss_last_seen_at := t\<rparr>)"
  "row_kept s (s\<lparr>ss_last_seen_at := t, ss_last_activity_at := a\<rparr>)"
  by (simp_all add: row_kept_def)

lemma delete_session_rows_sessions [simp]:
  "sessions (delete_session_rows P db) = filter (\<lambda>s. \<not> P s) (sessions db)"
  "session_seq (delete_session_rows P db) = session_seq db"
  "users (delete_session_rows P db) = users db"
  by (simp_all add: delete_session_rows_def Let_def)

lemma cleanup_sessions [simp]:
  "sessions (cleanup_expired_sessions now db) = filter (\<lambda>s. \<not> is_history (now - SESSION_HISTORY_RETENTION_DAYS * 86400) s) (sessions db)"
  "session_seq (cleanup_expired_sessions now db) = session_seq db"
  "users (cleanup_expired_sessions now db) = users db"
  by (simp_all add: cleanup_expired_sessions_def Let_def)

lemma delete_expiry_sessions [simp]:
  "sessions (delete_session_for_auth_expiry i now db) = filter (\<lambda>s. ss_id s \<noteq> i) (sessions db)"
  "session_seq (delete_session_for_auth_expiry i now db) = session_seq db"
  "users (delete_session_for_auth_expiry i now db) = users db"
  by (simp_all add: delete_session_for_auth_expiry_def Let_def)

lemma revoke_ids_sessions [simp]:
  "sessions (revoke_session_ids ids reason now db) =
     map (\<lambda>s. if ss_id s \<in> set ids
              then s\<lparr>ss_revoked_at := Some now, ss_revoked_reason := Some reason, ss_cleanup_confirmed_at := None\<rparr> else s) (sessions db)"
  "session_seq (revoke_session_ids ids reason now db) = session_seq db"
  "users (revoke_session_ids ids reason now db) = users db"
  by (simp_all add: revoke_session_ids_def Let_def)

lemma confirm_cleanup_keeps: "rows_kept (sessions db) (sessions (confirm_cleanup i now db))"
  "session_seq (confirm_cleanup i now db) = session_seq db" "users (confirm_cleanup i now db) = users db"
  by (simp_all add: confirm_cleanup_def rows_kept_map)

lemma revoke_by_id_keeps:
  assumes "revoke_session_by_id i reason now db = (b, db')"
  shows "rows_kept (sessions db) (sessions db')" and "session_seq db' = session_seq db" and "users db' = users db"
  using assms by (auto simp: revoke_session_by_id_def intro!: rows_kept_map split: if_splits)

lemma revoke_for_user_keeps:
  assumes "revoke_sessions_for_user u reason now db = (n, db')"
  shows "rows_kept (sessions db) (sessions db')" and "session_seq db' = session_seq db" and "users db' = users db"
  using assms by (auto simp: revoke_sessions_for_user_def Let_def intro!: rows_kept_map split: if_splits)

lemma maintenance_keeps:
  assumes "revoke_non_admin_sessions_for_maintenance_mode now db = (n, db')"
  shows "rows_kept (sessions db) (sessions db')" and "session_seq db' = session_seq db" and "users db' = users db"
  using assms by (auto simp: revoke_non_admin_sessions_for_maintenance_mode_def Let_def intro!: rows_kept_map split: if_splits)

lemma destroy_keeps:
  "rows_kept (sessions db) (sessions (destroy_session hash token now db))"
  "session_seq (destroy_session hash token now db) = session_seq db"
  "users (destroy_session hash token now db) = users db"
  by (auto simp: destroy_session_def intro!: rows_kept_map split: option.splits)

lemma get_user_keeps:
  assumes "get_user_by_session_token settings hash token hb now db = (r, db')"
  shows "rows_kept (sessions db) (sessions db')" and "session_seq db' = session_seq db" and "users db' = users db"
proof -
  let ?db = "cleanup_expired_sessions now db"
  have c: "rows_kept (sessions db) (sessions ?db)" by (simp add: rows_kept_filter)
  have e: "rows_kept (sessions ?db) (sessions (delete_session_for_auth_expiry i now ?db))" for i
    unfolding delete_expiry_sessions by (rule rows_kept_filter)
  have t: "rows_kept (sessions ?db) (map f (sessions ?db))" if "\<And>s. row_kept s (f s)" for f using that by (rule rows_kept_map)
  show "rows_kept (sessions db) (sessions db')"
    using assms c rows_kept_trans[OF c e] rows_kept_trans[OF c t]
    by (auto simp: get_user_by_session_token_def Let_def simp del: cleanup_sessions delete_expiry_sessions
        split: if_splits option.splits prod.splits)
  show "session_seq db' = session_seq db" "users db' = users db"
    using assms by (auto simp: get_user_by_session_token_def Let_def split: if_splits option.splits)
qed

lemma failure_reason_keeps:
  assumes "get_session_access_failure_reason hash token now db = (r, db')"
  shows "rows_kept (sessions db) (sessions db')" and "session_seq db' = session_seq db" and "users db' = users db"
proof -
  have c: "rows_kept (sessions db) (sessions (cleanup_expired_sessions now db))" by (simp add: rows_kept_filter)
  show "rows_kept (sessions db) (sessions db')"
    using assms c rows_kept_trans[OF c confirm_cleanup_keeps(1)]
    by (auto simp: get_session_access_failure_reason_def Let_def simp del: cleanup_sessions split: if_splits option.splits)
  show "session_seq db' = session_seq db" "users db' = users db"
    using assms by (auto simp: get_session_access_failure_reason_def Let_def confirm_cleanup_keeps split: if_splits option.splits)
qed

lemma create_session_cases:
  assumes "create_session settings hash token uid now db = Inr db'"
  shows "sessions db' = sessions (cleanup_expired_sessions now db) @ [new_session_row settings (hash token) uid now (session_seq db + 1)]"
    and "hash token \<notin> set (map ss_token_hash (sessions (cleanup_expired_sessions now db)))"
    and "session_seq db' = session_seq db + 1"
  using assms unfolding create_session_def Let_def by (auto simp del: cleanup_sessions(1) split: if_splits)

lemma create_session_wf:
  assumes "create_session settings hash token uid now db = Inr db'" and "auth_wf db"
  shows "auth_wf db'"
proof -
  have "auth_wf (cleanup_expired_sessions now db)"
    using auth_wf_kept[OF assms(2), of "cleanup_expired_sessions now db"] by (simp add: rows_kept_filter)
  then show ?thesis
    using create_session_cases[OF assms(1)] unfolding auth_wf_def
    by (fastforce simp: new_session_row_def simp del: cleanup_sessions(1))
qed

section \<open>Who gets in\<close>

lemma find_unique:
  assumes "distinct (map f xs)" and "\<And>x. P x \<Longrightarrow> f x = k"
  shows "List.find P xs = Some s \<longleftrightarrow> s \<in> set xs \<and> P s"
  using assms(1)
proof (induction xs)
  case (Cons x xs)
  show ?case
  proof (cases "P x")
    case True
    then have "\<not> P y" if "y \<in> set xs" for y using Cons.prems assms(2)[of x] assms(2)[of y] that by (auto simp: image_iff)
    with True show ?thesis by auto
  qed (use Cons in auto)
qed simp

text \<open>The session admits the user: it has the token, is not revoked, not expired and not idle for too long, and the
  user is enabled.\<close>

definition admits :: "auth_settings \<Rightarrow> string \<Rightarrow> real \<Rightarrow> auth_db \<Rightarrow> session_row \<Rightarrow> user_row \<Rightarrow> bool" where
  "admits settings h now db s u \<longleftrightarrow>
     ss_token_hash s = h \<and> ss_revoked_at s = None \<and> user_of_session db s = Some u \<and> ur_enabled u \<and> now < ss_expires_at s
   \<and> (\<exists>seen. ss_last_seen_at s = Some seen \<and> now - seen \<le> real_of_int (session_idle_timeout_hours settings) * 3600)"

lemma admits_usable: "admits settings h now db s u \<longleftrightarrow> usable_session db h s \<and> user_of_session db s = Some u \<and> expiry_reason settings s now = None"
  by (auto simp: admits_def usable_session_def expiry_reason_def not_less split: option.splits)

lemma admits_not_history: "admits settings h now db s u \<Longrightarrow> \<not> is_history (now - SESSION_HISTORY_RETENTION_DAYS * 86400) s"
  by (auto simp: admits_def is_history_def SESSION_HISTORY_RETENTION_DAYS_def)

lemma usable_same_users: "users db' = users db \<Longrightarrow> usable_session db' = usable_session db" "users db' = users db \<Longrightarrow> user_of_session db' = user_of_session db"
  by (auto simp: usable_session_def user_of_session_def fun_eq_iff)

lemma find_usable:
  assumes "auth_wf db"
  shows "List.find (usable_session db h) (filter P (sessions db)) = Some s \<longleftrightarrow> s \<in> set (sessions db) \<and> P s \<and> usable_session db h s"
proof -
  have "distinct (map ss_token_hash (filter P (sessions db)))"
    using assms by (auto simp: auth_wf_def distinct_map inj_on_def)
  from find_unique[OF this, of "usable_session db h" h] show ?thesis by (auto simp: usable_session_def)
qed

lemma get_user_admits:
  assumes "auth_wf db"
  shows "fst (fst (get_user_by_session_token settings hash token hb now db)) = Some (u, i)
    \<longleftrightarrow> token \<noteq> [] \<and> (\<exists>s \<in> set (sessions db). ss_id s = i \<and> admits settings (hash token) now db s u)"
proof -
  let ?P = "\<lambda>s. \<not> is_history (now - SESSION_HISTORY_RETENTION_DAYS * 86400) s"
  let ?db = "cleanup_expired_sessions now db"
  have same: "usable_session ?db = usable_session db" "user_of_session ?db = user_of_session db"
    by (rule usable_same_users, simp)+
  have "fst (fst (get_user_by_session_token settings hash token hb now db)) = Some (u, i)
    \<longleftrightarrow> token \<noteq> [] \<and> (\<exists>s. List.find (usable_session db (hash token)) (filter ?P (sessions db)) = Some s
          \<and> expiry_reason settings s now = None \<and> user_of_session db s = Some u \<and> ss_id s = i)"
    by (cases "List.find (usable_session db (hash token)) (filter ?P (sessions db))")
       (simp_all add: get_user_by_session_token_def Let_def same)
  moreover have "List.find (usable_session db (hash token)) (filter ?P (sessions db)) = Some s
          \<and> expiry_reason settings s now = None \<and> user_of_session db s = Some u \<and> ss_id s = i
    \<longleftrightarrow> s \<in> set (sessions db) \<and> ss_id s = i \<and> admits settings (hash token) now db s u" for s
    unfolding find_usable[OF assms] using admits_not_history[of settings "hash token" now db s u] admits_usable by blast
  ultimately show ?thesis by (simp only: Bex_def)
qed

lemma failure_reason_rows:
  assumes "get_session_access_failure_reason hash token now db = (r, db')"
  obtains f where "sessions db' = sessions db \<or> sessions db' = map f (filter (\<lambda>s. \<not> is_history (now - SESSION_HISTORY_RETENTION_DAYS * 86400) s) (sessions db))"
    and "\<And>s. ss_id (f s) = ss_id s \<and> ss_user_id (f s) = ss_user_id s \<and> ss_token_hash (f s) = ss_token_hash s \<and> ss_revoked_at (f s) = ss_revoked_at s
           \<and> ss_expires_at (f s) = ss_expires_at s \<and> ss_last_seen_at (f s) = ss_last_seen_at s"
    and "users db' = users db"
proof -
  let ?rows = "filter (\<lambda>s. \<not> is_history (now - SESSION_HISTORY_RETENTION_DAYS * 86400) s) (sessions db)"
  note u = failure_reason_keeps(3)[OF assms]
  have "sessions db' = sessions db \<or> sessions db' = map id ?rows \<or>
      (\<exists>i. sessions db' = map (\<lambda>s. if ss_id s = i \<and> ss_cleanup_confirmed_at s = None then s\<lparr>ss_cleanup_confirmed_at := Some now\<rparr> else s) ?rows)"
  proof (cases "token = []"; cases "List.find (\<lambda>s. ss_token_hash s = hash token) ?rows")
    fix s
    assume "List.find (\<lambda>s. ss_token_hash s = hash token) ?rows = Some s" and "token \<noteq> []"
    with assms have "db' = cleanup_expired_sessions now db \<or> db' = confirm_cleanup (ss_id s) now (cleanup_expired_sessions now db)"
      by (simp add: get_session_access_failure_reason_def Let_def split: if_splits)
    then show ?thesis by (auto simp: confirm_cleanup_def)
  qed (use assms in \<open>simp_all add: get_session_access_failure_reason_def\<close>, auto simp: Let_def)
  then consider "sessions db' = sessions db \<or> sessions db' = map id ?rows"
    | i where "sessions db' = map (\<lambda>s. if ss_id s = i \<and> ss_cleanup_confirmed_at s = None then s\<lparr>ss_cleanup_confirmed_at := Some now\<rparr> else s) ?rows"
    by blast
  then show thesis
  proof cases
    case 1
    then show thesis using u by (intro that[of id]) simp_all
  next
    case 2
    then show thesis
      using u by (intro that[of "\<lambda>s. if ss_id s = i \<and> ss_cleanup_confirmed_at s = None then s\<lparr>ss_cleanup_confirmed_at := Some now\<rparr> else s"]) simp_all
  qed
qed

lemma failure_reason_admits:
  assumes "get_session_access_failure_reason hash token now db = (r, db')"
  shows "(\<exists>s \<in> set (sessions db'). ss_id s = i \<and> admits settings h now db' s u) \<longleftrightarrow> (\<exists>s \<in> set (sessions db). ss_id s = i \<and> admits settings h now db s u)"
proof -
  obtain f where f: "sessions db' = sessions db \<or> sessions db' = map f (filter (\<lambda>s. \<not> is_history (now - SESSION_HISTORY_RETENTION_DAYS * 86400) s) (sessions db))"
    and k: "\<And>s. ss_id (f s) = ss_id s \<and> ss_user_id (f s) = ss_user_id s \<and> ss_token_hash (f s) = ss_token_hash s \<and> ss_revoked_at (f s) = ss_revoked_at s
           \<and> ss_expires_at (f s) = ss_expires_at s \<and> ss_last_seen_at (f s) = ss_last_seen_at s"
    and u: "users db' = users db"
    using failure_reason_rows[OF assms] by metis
  have same: "admits settings h now db' (f s) u \<longleftrightarrow> admits settings h now db s u" "admits settings h now db' s u \<longleftrightarrow> admits settings h now db s u" for s
    using k[of s] by (simp_all add: admits_def user_of_session_def u)
  from f show ?thesis
  proof
    assume "sessions db' = map f (filter (\<lambda>s. \<not> is_history (now - SESSION_HISTORY_RETENTION_DAYS * 86400) s) (sessions db))"
    then show ?thesis using same(1) k admits_not_history by fastforce
  qed (simp add: same(2))
qed

lemma resolve_admits:
  assumes "auth_wf db"
  shows "fst (resolve_authenticated_user settings hash locked message cookie hb now db) = Inr (u, i)
    \<longleftrightarrow> truthy_string cookie \<and> (\<exists>s \<in> set (sessions db). ss_id s = i \<and> admits settings (hash (the cookie)) now db s u)
       \<and> (ur_role u = ''admin'' \<or> \<not> locked)"
proof -
  let ?token = "or_string cookie []"
  obtain reason db1 where f: "get_session_access_failure_reason hash ?token now db = (reason, db1)" by fastforce
  obtain user ann db2 where g: "get_user_by_session_token settings hash ?token hb now db1 = ((user, ann), db2)" by (metis surj_pair)
  have wf1: "auth_wf db1" using auth_wf_kept[OF assms] failure_reason_keeps[OF f] by blast
  have "fst (resolve_authenticated_user settings hash locked message cookie hb now db) = Inr (u, i)
    \<longleftrightarrow> user = Some (u, i) \<and> (ur_role u = ''admin'' \<or> \<not> locked)"
    by (auto simp: resolve_authenticated_user_def f g raise_if_exposure_maintenance_locked_def Let_def and_then_Inr_iff split: option.splits)
  also have "user = Some (u, i) \<longleftrightarrow> ?token \<noteq> [] \<and> (\<exists>s \<in> set (sessions db). ss_id s = i \<and> admits settings (hash ?token) now db s u)"
    using get_user_admits[OF wf1, of settings hash ?token hb now u i] failure_reason_admits[OF f, of i settings "hash ?token" u] by (simp add: g)
  finally show ?thesis by (cases cookie) (auto simp: or_string_def truthy_string_def)
qed

section \<open>A session that has ended stays ended\<close>

text \<open>Whatever the server does, except to issue a token with the hash \<open>h\<close> again; the step \<open>elsewhere\<close> is any write to
  another table, users included.\<close>

inductive auth_steps :: "auth_settings \<Rightarrow> (string \<Rightarrow> string) \<Rightarrow> string \<Rightarrow> auth_db \<Rightarrow> auth_db \<Rightarrow> bool" for settings hash h where
  none: "auth_steps settings hash h db db"
| created: "auth_steps settings hash h db db1 \<Longrightarrow> hash token \<noteq> h \<Longrightarrow> create_session settings hash token uid now db1 = Inr db2
    \<Longrightarrow> auth_steps settings hash h db db2"
| used: "auth_steps settings hash h db db1 \<Longrightarrow> resolve_authenticated_user settings hash locked message cookie hb now db1 = (r, db2)
    \<Longrightarrow> auth_steps settings hash h db db2"
| logged_out: "auth_steps settings hash h db db1 \<Longrightarrow> auth_steps settings hash h db (destroy_session hash token now db1)"
| revoked: "auth_steps settings hash h db db1 \<Longrightarrow> revoke_session_by_id i reason now db1 = (b, db2) \<Longrightarrow> auth_steps settings hash h db db2"
| revoked_user: "auth_steps settings hash h db db1 \<Longrightarrow> revoke_sessions_for_user uid reason now db1 = (n, db2)
    \<Longrightarrow> auth_steps settings hash h db db2"
| maintained: "auth_steps settings hash h db db1 \<Longrightarrow> revoke_non_admin_sessions_for_maintenance_mode now db1 = (m, db2)
    \<Longrightarrow> auth_steps settings hash h db db2"
| elsewhere: "auth_steps settings hash h db db1 \<Longrightarrow> sessions db2 = sessions db1 \<Longrightarrow> session_seq db2 = session_seq db1
    \<Longrightarrow> auth_steps settings hash h db db2"

definition dead_token :: "string \<Rightarrow> auth_db \<Rightarrow> bool" where
  "dead_token h db \<longleftrightarrow> (\<forall>s \<in> set (sessions db). ss_token_hash s = h \<longrightarrow> ss_revoked_at s \<noteq> None)"

lemma dead_token_kept: "dead_token h db \<Longrightarrow> rows_kept (sessions db) (sessions db') \<Longrightarrow> dead_token h db'"
  unfolding dead_token_def using rows_kept_from by (fastforce simp: row_kept_def)

lemma resolve_keeps:
  assumes "resolve_authenticated_user settings hash locked message cookie hb now db = (r, db')"
  shows "rows_kept (sessions db) (sessions db')" and "session_seq db' = session_seq db"
proof -
  obtain reason db1 where f: "get_session_access_failure_reason hash (or_string cookie []) now db = (reason, db1)" by fastforce
  obtain user ann db2 where g: "get_user_by_session_token settings hash (or_string cookie []) hb now db1 = ((user, ann), db2)"
    by (metis surj_pair)
  have "db' = db2" using assms by (simp add: resolve_authenticated_user_def f g Let_def)
  then show "rows_kept (sessions db) (sessions db')" and "session_seq db' = session_seq db"
    using failure_reason_keeps[OF f] get_user_keeps[OF g] rows_kept_trans by auto
qed

lemma keep_step:
  assumes "(auth_wf db \<longrightarrow> auth_wf db1) \<and> (dead_token h db \<longrightarrow> dead_token h db1)"
    and "rows_kept (sessions db1) (sessions db2)" and "session_seq db2 = session_seq db1"
  shows "(auth_wf db \<longrightarrow> auth_wf db2) \<and> (dead_token h db \<longrightarrow> dead_token h db2)"
  using assms auth_wf_kept dead_token_kept by blast

lemma auth_steps_keep:
  assumes "auth_steps settings hash h db db'"
  shows "(auth_wf db \<longrightarrow> auth_wf db') \<and> (dead_token h db \<longrightarrow> dead_token h db')"
  using assms
proof induction
  case (created db db1 token uid now db2)
  have "dead_token h db2" if "dead_token h db1"
    using that created(2) unfolding dead_token_def create_session_cases(1)[OF created(3)] by (auto simp: new_session_row_def)
  then show ?case using created create_session_wf by blast
next
  case (elsewhere db db1 db2)
  then show ?case by (simp add: auth_wf_def dead_token_def)
next
  case (used db db1 locked message cookie hb now r db2)
  from keep_step[OF used.IH resolve_keeps[OF used.hyps(2)]] show ?case .
next
  case (logged_out db db1 token now)
  from keep_step[OF logged_out.IH destroy_keeps(1,2)] show ?case .
next
  case (revoked db db1 i reason now b db2)
  from keep_step[OF revoked.IH revoke_by_id_keeps(1,2)[OF revoked.hyps(2)]] show ?case .
next
  case (revoked_user db db1 uid reason now n db2)
  from keep_step[OF revoked_user.IH revoke_for_user_keeps(1,2)[OF revoked_user.hyps(2)]] show ?case .
next
  case (maintained db db1 now m db2)
  from keep_step[OF maintained.IH maintenance_keeps(1,2)[OF maintained.hyps(2)]] show ?case .
qed simp

text \<open>The ways a session ends: logout, revoked by an administrator, with its user, or found to be expired when its token
  is used within the 90 days its row is kept.\<close>

inductive ends_session :: "auth_settings \<Rightarrow> (string \<Rightarrow> string) \<Rightarrow> string \<Rightarrow> session_row \<Rightarrow> auth_db \<Rightarrow> auth_db \<Rightarrow> bool"
  for settings hash token s where
  by_logout: "token \<noteq> [] \<Longrightarrow> ends_session settings hash token s db (destroy_session hash (Some token) now db)"
| by_admin: "revoke_session_by_id (ss_id s) reason now db = (b, db') \<Longrightarrow> ends_session settings hash token s db db'"
| by_user: "revoke_sessions_for_user (ss_user_id s) reason now db = (n, db') \<Longrightarrow> ends_session settings hash token s db db'"
| by_expiry: "token \<noteq> [] \<Longrightarrow> now < ss_expires_at s + SESSION_HISTORY_RETENTION_DAYS * 86400 \<Longrightarrow> usable_session db (hash token) s \<Longrightarrow> expiry_reason settings s now \<noteq> None
    \<Longrightarrow> get_user_by_session_token settings hash token hb now db = (r, db') \<Longrightarrow> ends_session settings hash token s db db'"

lemma auth_wf_unique:
  assumes "auth_wf db" and "s \<in> set (sessions db)" and "t \<in> set (sessions db)"
  shows "ss_token_hash s = ss_token_hash t \<Longrightarrow> s = t" and "ss_id s = ss_id t \<Longrightarrow> s = t"
  using assms by (auto simp: auth_wf_def distinct_map inj_on_def)

lemma expiry_ends:
  assumes "auth_wf db" and "s \<in> set (sessions db)" and "token \<noteq> []" and "usable_session db (hash token) s" and "expiry_reason settings s now \<noteq> None"
    and "get_user_by_session_token settings hash token hb now db = (r, db')"
  shows "db' = cleanup_expired_sessions now db \<and> is_history (now - SESSION_HISTORY_RETENTION_DAYS * 86400) s
    \<or> db' = delete_session_for_auth_expiry (ss_id s) now (cleanup_expired_sessions now db)"
proof -
  let ?P = "\<lambda>s. \<not> is_history (now - SESSION_HISTORY_RETENTION_DAYS * 86400) s"
  have same: "usable_session (cleanup_expired_sessions now db) = usable_session db" by (rule usable_same_users) simp
  note get = get_user_by_session_token_def Let_def cleanup_sessions(1) same
  show ?thesis
  proof (cases "?P s")
    case True
    then have "List.find (usable_session db (hash token)) (filter ?P (sessions db)) = Some s"
      using assms(2,4) by (simp add: find_usable[OF assms(1)])
    then show ?thesis using assms(3,5,6) by (simp add: get)
  next
    case False
    have "List.find (usable_session db (hash token)) (filter ?P (sessions db)) = None"
    proof (rule ccontr)
      assume "List.find (usable_session db (hash token)) (filter ?P (sessions db)) \<noteq> None"
      then obtain t where t: "List.find (usable_session db (hash token)) (filter ?P (sessions db)) = Some t" by blast
      then have "t = s" using auth_wf_unique(1)[OF assms(1)] assms(2,4) by (simp add: find_usable[OF assms(1)] usable_session_def)
      with t False show False by (simp add: find_usable[OF assms(1)])
    qed
    then show ?thesis using False assms(3,6) by (simp add: get)
  qed
qed

lemma revoke_for_user_cases:
  assumes "revoke_sessions_for_user uid reason now db = (n, db')"
    and "ids = map ss_id (filter (\<lambda>t. ss_user_id t = uid \<and> ss_revoked_at t = None) (sessions db))" and "i \<in> set ids"
  shows "db' = revoke_session_ids ids reason now db \<or>
     db' = (revoke_session_ids ids reason now db)\<lparr>
       native_playback_sessions := revoke_natives (\<lambda>n. ns_user_id n = uid) now (native_playback_sessions (revoke_session_ids ids reason now db)),
       desktop_vlc_handoffs := revoke_handoffs (\<lambda>h. ho_user_id h = uid) now (desktop_vlc_handoffs (revoke_session_ids ids reason now db))\<rparr>"
proof -
  have "ids \<noteq> []" using assms(3) by auto
  then show ?thesis using assms(1) unfolding revoke_sessions_for_user_def assms(2)[symmetric] Let_def by (simp split: if_splits)
qed

lemma dead_tokenI:
  assumes "auth_wf db" and "s \<in> set (sessions db)" and "ss_token_hash s = h" and "sessions db' = map f (sessions db)"
    and "\<And>t. ss_token_hash (f t) = ss_token_hash t" and "ss_revoked_at (f s) \<noteq> None"
  shows "dead_token h db'"
  using assms auth_wf_unique(1)[OF assms(1,2)] by (fastforce simp: dead_token_def)

lemma ends_session_dead:
  assumes "ends_session settings hash token s db db'" and "auth_wf db" and "s \<in> set (sessions db)" and "ss_token_hash s = hash token"
  shows "auth_wf db' \<and> dead_token (hash token) db'"
  using assms(1)
proof cases
  case (by_logout now)
  let ?Q = "\<lambda>t. ss_token_hash t = hash token \<and> ss_revoked_at t = None"
  have "distinct (map ss_token_hash (sessions db))" using assms(2) by (simp add: auth_wf_def)
  from find_unique[OF this, of ?Q "hash token"] have f: "List.find ?Q (sessions db) = Some t \<longleftrightarrow> t \<in> set (sessions db) \<and> ?Q t" for t by simp
  have "dead_token (hash token) db'"
  proof (cases "List.find ?Q (sessions db)")
    case None
    then have "db' = db" using by_logout by (simp add: destroy_session_def truthy_string_def)
    with None show ?thesis by (auto simp: dead_token_def find_None_iff)
  next
    case (Some t)
    then have "u = t" if "u \<in> set (sessions db)" "ss_token_hash u = hash token" for u
      using f[of t] that auth_wf_unique(1)[OF assms(2)] by auto
    moreover have "sessions db' = map (\<lambda>s. if ss_id s = ss_id t
        then s\<lparr>ss_revoked_at := Some now, ss_revoked_reason := Some ''logout'', ss_cleanup_confirmed_at := Some now\<rparr> else s) (sessions db)"
      using by_logout Some by (simp add: destroy_session_def truthy_string_def)
    ultimately show ?thesis by (auto simp: dead_token_def)
  qed
  moreover have "auth_wf db'"
    unfolding by_logout(1) using auth_wf_kept[OF assms(2)] destroy_keeps(1,2) by blast
  ultimately show ?thesis by blast
next
  case (by_admin reason now b)
  have "auth_wf db'" using auth_wf_kept[OF assms(2)] revoke_by_id_keeps[OF by_admin] by blast
  moreover have "dead_token (hash token) db'"
  proof (cases "\<exists>t \<in> set (sessions db). ss_id t = ss_id s \<and> ss_revoked_at t = None")
    case True
    then have "db' = revoke_session_ids [ss_id s] reason now db" using by_admin by (auto simp: revoke_session_by_id_def split: if_splits)
    then show ?thesis using dead_tokenI[OF assms(2-4) revoke_ids_sessions(1)] by simp
  next
    case False
    then have "ss_revoked_at s \<noteq> None" "db' = db" using by_admin assms(3) by (auto simp: revoke_session_by_id_def split: if_splits)
    then show ?thesis using dead_tokenI[OF assms(2-4), of db id] by simp
  qed
  ultimately show ?thesis by blast
next
  case (by_user reason now n)
  have "auth_wf db'" using auth_wf_kept[OF assms(2)] revoke_for_user_keeps[OF by_user] by blast
  moreover have "dead_token (hash token) db'"
  proof (cases "ss_revoked_at s")
    case None
    then have "ss_id s \<in> set (map ss_id (filter (\<lambda>t. ss_user_id t = ss_user_id s \<and> ss_revoked_at t = None) (sessions db)))" (is "_ \<in> set ?ids")
      using assms(3) by simp
    then have "sessions db' = sessions (revoke_session_ids ?ids reason now db)"
      using revoke_for_user_cases[OF by_user refl] by fastforce
    then show ?thesis using dead_tokenI[OF assms(2-4), of db'] \<open>ss_id s \<in> set ?ids\<close> unfolding revoke_ids_sessions by fastforce
  next
    case (Some t)
    have "dead_token (hash token) db" using dead_tokenI[OF assms(2-4), of db id] Some by simp
    then show ?thesis using dead_token_kept revoke_for_user_keeps(1)[OF by_user] by blast
  qed
  ultimately show ?thesis by blast
next
  case (by_expiry now hb r)
  have "auth_wf db'" using auth_wf_kept[OF assms(2)] get_user_keeps[OF by_expiry(5)] by blast
  moreover have "dead_token (hash token) db'"
  proof -
    have "\<forall>t \<in> set (sessions db'). t \<in> set (sessions db) \<and> t \<noteq> s"
      using expiry_ends[OF assms(2,3) by_expiry(1,3-)] by auto
    then show ?thesis using auth_wf_unique(1)[OF assms(2,3)] assms(4) by (force simp: dead_token_def)
  qed
  ultimately show ?thesis by blast
qed

text \<open>C18: A request is answered as that of a user exactly when its cookie is the token of a session that is not revoked, not
  expired, not idle for longer than the settings allow, of an enabled user; and, under maintenance, only for
  administrators. Every other request is refused with 401, 403 or 503, and no request revives or renames a session.\<close>

theorem session_access_exact:
  assumes "auth_wf db" and "resolve_authenticated_user settings hash locked message cookie hb now db = (r, db')"
  shows "(r = Inr (u, i) \<longleftrightarrow> truthy_string cookie \<and> (ur_role u = ''admin'' \<or> \<not> locked)
            \<and> (\<exists>s \<in> set (sessions db). ss_id s = i \<and> admits settings (hash (the cookie)) now db s u))
     \<and> (\<forall>e. r = Inl e \<longrightarrow> e \<in> {HTTPException 401 ''Authentication required'', HTTPException 403 ''This account has been disabled'',
                               HTTPException 503 message})
     \<and> auth_wf db' \<and> rows_kept (sessions db) (sessions db')"
proof -
  have "fst (resolve_authenticated_user settings hash locked message cookie hb now db) = r" using assms(2) by simp
  moreover have "e \<in> {HTTPException 401 ''Authentication required'', HTTPException 403 ''This account has been disabled'', HTTPException 503 message}"
    if "r = Inl e" for e
    using assms(2) that
    by (auto simp: resolve_authenticated_user_def raise_if_exposure_maintenance_locked_def Let_def and_then_Inl_iff
        split: prod.splits option.splits if_splits)
  ultimately show ?thesis
    using resolve_admits[OF assms(1), of settings hash locked message cookie hb now u i] resolve_keeps[OF assms(2)]
      auth_wf_kept[OF assms(1)]
    by blast
qed

text \<open>C17: Once a session has ended by logout, by an administrator, with its user, or by expiry noticed when it is used, its
  token is refused for ever: whatever requests, logouts, revocations and changes to the users follow, unless the random
  generator issues the same token again.\<close>

theorem ended_session_stays_ended:
  assumes "auth_wf db" and "s \<in> set (sessions db)" and "ss_token_hash s = hash token"
    and "ends_session settings hash token s db db1" and "auth_steps settings hash (hash token) db1 db2"
  shows "\<exists>e. fst (resolve_authenticated_user settings hash locked message (Some token) hb now db2) = Inl e"
proof -
  have "auth_wf db2" and dead: "dead_token (hash token) db2"
    using ends_session_dead[OF assms(4,1-3)] auth_steps_keep[OF assms(5)] by blast+
  have "fst (resolve_authenticated_user settings hash locked message (Some token) hb now db2) \<noteq> Inr (u, i)" for u i
    unfolding resolve_admits[OF \<open>auth_wf db2\<close>] using dead by (auto simp: admits_def dead_token_def)
  then show ?thesis by (cases "fst (resolve_authenticated_user settings hash locked message (Some token) hb now db2)") auto
qed

text \<open>What is coupled to a session, so that it ends with it: streams of native players, hand-offs to a desktop player,
  downloads and pending sign-ins to Google that carry its identifier. A stream for an external player is opened decoupled: it
  carries no session and only remembers the one it was created from, and it is meant to outlive it.\<close>

definition nothing_coupled :: "int \<Rightarrow> auth_db \<Rightarrow> bool" where
  "nothing_coupled i db \<longleftrightarrow>
     (\<forall>n \<in> set (native_playback_sessions db). ns_auth_session_id n = Some i \<longrightarrow> ns_revoked_at n \<noteq> None \<or> ns_closed_at n \<noteq> None)
   \<and> (\<forall>h \<in> set (desktop_vlc_handoffs db). ho_auth_session_id h = Some i \<longrightarrow> ho_revoked_at h \<noteq> None)
   \<and> (\<forall>d \<in> set (download_sessions db). dl_auth_session_id d = Some i \<longrightarrow> dl_revoked_at d \<noteq> None \<or> dl_completed_at d \<noteq> None)
   \<and> i \<notin> set (google_oauth_states db) \<and> i \<notin> set (google_oauth_account_candidates db) \<and> i \<notin> set (google_oauth_operations db)"

definition decoupled_from :: "int \<Rightarrow> native_row \<Rightarrow> bool" where
  "decoupled_from i n \<longleftrightarrow> ns_auth_session_id n = None \<and> ns_created_from n = Some i"

lemma revoke_ids_nothing_coupled: "i \<in> set ids \<Longrightarrow> nothing_coupled i (revoke_session_ids ids reason now db)"
  by (auto simp: nothing_coupled_def revoke_session_ids_def Let_def revoke_natives_def revoke_handoffs_def revoke_downloads_def owned_by_def)

lemma nothing_coupled_revoke_more:
  "nothing_coupled i db \<Longrightarrow> nothing_coupled i (db\<lparr>native_playback_sessions := revoke_natives P now (native_playback_sessions db),
     desktop_vlc_handoffs := revoke_handoffs Q now (desktop_vlc_handoffs db)\<rparr>)"
  by (auto simp: nothing_coupled_def revoke_natives_def revoke_handoffs_def)

lemma delete_expiry_nothing_coupled:
  "s \<in> set (sessions db) \<Longrightarrow> nothing_coupled (ss_id s) (delete_session_for_auth_expiry (ss_id s) now db)"
  by (auto simp: nothing_coupled_def delete_session_for_auth_expiry_def delete_session_rows_def Let_def revoke_natives_def
      revoke_handoffs_def revoke_downloads_def owned_by_def image_iff split: option.splits)

lemma ended_session_coupled:
  assumes "auth_wf db" and "s \<in> set (sessions db)" and "ss_token_hash s = hash token" and "ss_revoked_at s = None"
    and "ends_session settings hash token s db db'"
  shows "nothing_coupled (ss_id s) db'"
  using assms(5)
proof cases
  case (by_logout now)
  let ?Q = "\<lambda>t. ss_token_hash t = hash token \<and> ss_revoked_at t = None"
  have "distinct (map ss_token_hash (sessions db))" using assms(1) by (simp add: auth_wf_def)
  from find_unique[OF this, of ?Q "hash token" s] have "List.find ?Q (sessions db) = Some s" using assms(2-4) by simp
  then show ?thesis
    using by_logout
    by (auto simp: destroy_session_def truthy_string_def nothing_coupled_def revoke_natives_def revoke_handoffs_def revoke_downloads_def)
next
  case (by_admin reason now b)
  then have "db' = revoke_session_ids [ss_id s] reason now db" using assms(2,4) by (auto simp: revoke_session_by_id_def split: if_splits)
  then show ?thesis by (simp add: revoke_ids_nothing_coupled)
next
  case (by_user reason now n)
  have "ss_id s \<in> set (map ss_id (filter (\<lambda>t. ss_user_id t = ss_user_id s \<and> ss_revoked_at t = None) (sessions db)))" (is "_ \<in> set ?ids")
    using assms(2,4) by simp
  with revoke_ids_nothing_coupled have "nothing_coupled (ss_id s) (revoke_session_ids ?ids reason now db)" .
  then show ?thesis
    using revoke_for_user_cases[OF by_user refl \<open>ss_id s \<in> set ?ids\<close>] by (elim disjE) (simp_all only: nothing_coupled_revoke_more)
next
  case (by_expiry now hb r)
  have "\<not> is_history (now - SESSION_HISTORY_RETENTION_DAYS * 86400) s"
    using assms(4) by_expiry(2) by (simp add: is_history_def)
  with expiry_ends[OF assms(1,2) by_expiry(1,3-)] assms(2) show ?thesis
    using delete_expiry_nothing_coupled[of s "cleanup_expired_sessions now db" now] by auto
qed

lemma logout_natives:
  "n \<in> set (native_playback_sessions db) \<Longrightarrow> ns_auth_session_id n = None \<Longrightarrow> n \<in> set (native_playback_sessions (destroy_session hash tok now db))"
  by (force simp: destroy_session_def revoke_natives_def split: option.split)

lemma admin_natives:
  assumes "s \<in> set (sessions db)" and "ss_revoked_at s = None" and "revoke_session_by_id (ss_id s) ''admin_revoked'' now db = (b, db')"
    and "n \<in> set (native_playback_sessions db')" and "decoupled_from (ss_id s) n"
  shows "ns_revoked_at n \<noteq> None \<or> ns_closed_at n \<noteq> None"
proof -
  have "db' = revoke_session_ids [ss_id s] ''admin_revoked'' now db" using assms(1-3) by (auto simp: revoke_session_by_id_def split: if_splits)
  then show ?thesis
    using assms(4,5) by (auto simp: revoke_session_ids_def Let_def revoke_natives_def owned_by_def decoupled_from_def split: if_splits)
qed

text \<open>C36: A session that ends by logout, by an administrator or with its user, or that is found expired within its 90 days,
  leaves nothing open that is coupled to it: no native stream, no desktop hand-off, no download, no pending sign-in that
  carries its identifier. A stream for an external player, which is decoupled from the session it was created from, is left
  as it is by a logout, and revoked when an administrator revokes that session (the reason is admin_revoked).
  Maintenance mode is another way to end sessions and not among these.\<close>

theorem ended_session_leaves_nothing:
  assumes "auth_wf db" and "s \<in> set (sessions db)" and "ss_token_hash s = hash token" and "ss_revoked_at s = None"
    and "ends_session settings hash token s db db'"
  shows "nothing_coupled (ss_id s) db'
    \<and> (\<forall>n \<in> set (native_playback_sessions db). decoupled_from (ss_id s) n
         \<longrightarrow> n \<in> set (native_playback_sessions (destroy_session hash (Some token) now db)))
    \<and> (\<forall>n \<in> set (native_playback_sessions (snd (revoke_session_by_id (ss_id s) ''admin_revoked'' now db))). decoupled_from (ss_id s) n
         \<longrightarrow> ns_revoked_at n \<noteq> None \<or> ns_closed_at n \<noteq> None)"
proof (intro conjI ballI impI)
  show "nothing_coupled (ss_id s) db'" by (rule ended_session_coupled[OF assms])
  show "n \<in> set (native_playback_sessions (destroy_session hash (Some token) now db))"
    if "n \<in> set (native_playback_sessions db)" "decoupled_from (ss_id s) n" for n
    using that by (intro logout_natives) (simp_all add: decoupled_from_def)
  show "ns_revoked_at n \<noteq> None \<or> ns_closed_at n \<noteq> None"
    if "n \<in> set (native_playback_sessions (snd (revoke_session_by_id (ss_id s) ''admin_revoked'' now db)))" "decoupled_from (ss_id s) n" for n
    using admin_natives[OF assms(2,4) _ that] by (cases "revoke_session_by_id (ss_id s) ''admin_revoked'' now db") simp
qed

section \<open>A concrete server\<close>

text \<open>One user with one session whose token is \<open>t\<close> (the hash is the identity), with a native stream, a hand-off, a
  download and a pending sign-in opened from it.\<close>

definition sample_user :: user_row where
  "sample_user = \<lparr>ur_id = 7, ur_username = ''ann'', ur_password_hash = ''pw'', ur_role = ''standard_user'', ur_enabled = True,
     ur_totp_secret = None, ur_totp_enabled_at = None, ur_totp_last_used_window = None, ur_totp_setup_skipped_at = None,
     ur_totp_setup_prompt_enabled = False, ur_last_login_at = None\<rparr>"

definition sample_settings :: auth_settings where
  "sample_settings = \<lparr>session_ttl_hours = 2, session_idle_timeout_hours = 1, playback_token_ttl_seconds = 60,
     external_player_stream_ttl_seconds = 600\<rparr>"

definition sample_session :: session_row where
  "sample_session = new_session_row sample_settings ''t'' 7 0 1"

definition sample_db :: auth_db where
  "sample_db = \<lparr>login_failures = [], login_lockouts = [], users = [sample_user], sessions = [sample_session], session_seq = 1,
     native_playback_sessions = [\<lparr>ns_session_id = ''n'', ns_access_token_hash = ''a'', ns_user_id = 7, ns_auth_session_id = Some 1,
       ns_created_from = None, ns_expires_at = 100, ns_revoked_at = None, ns_closed_at = None, ns_media_item_id = 3, ns_client_name = None\<rparr>],
     desktop_vlc_handoffs = [\<lparr>ho_handoff_id = ''h'', ho_access_token_hash = ''a'', ho_user_id = 7, ho_auth_session_id = Some 1,
       ho_expires_at = 100, ho_revoked_at = None, ho_media_item_id = 3\<rparr>],
     download_sessions = [\<lparr>dl_auth_session_id = Some 1, dl_revoked_at = None, dl_last_error = None, dl_completed_at = None\<rparr>],
     google_oauth_states = [1], google_oauth_account_candidates = [], google_oauth_operations = [],
     login_challenges = [], user_recovery_codes = [], recovery_seq = 0, totp_pending_secrets = []\<rparr>"

lemmas sample_defs = sample_db_def sample_session_def sample_user_def sample_settings_def new_session_row_def

lemma sample_wf: "auth_wf sample_db" and sample_in: "sample_session \<in> set (sessions sample_db)"
  and sample_hash: "ss_token_hash sample_session = ''t''" and sample_unrevoked: "ss_revoked_at sample_session = None"
  by (simp_all add: auth_wf_def sample_defs)

theorem session_access_exact_witness:
  "let r = fst (resolve_authenticated_user sample_settings id False ''m'' (Some ''t'') True 10 sample_db) in
   r = Inr (sample_user, 1) \<and> fst (resolve_authenticated_user sample_settings id False ''m'' (Some ''x'') True 10 sample_db) \<noteq> r"
proof -
  obtain r db' where r: "resolve_authenticated_user sample_settings id False ''m'' (Some ''t'') True 10 sample_db = (r, db')" by fastforce
  obtain q db'' where q: "resolve_authenticated_user sample_settings id False ''m'' (Some ''x'') True 10 sample_db = (q, db'')" by fastforce
  have "r = Inr (sample_user, 1)"
    using session_access_exact[OF sample_wf r, of sample_user 1]
    by (simp add: admits_def user_of_session_def sample_defs truthy_string_def)
  moreover have "q \<noteq> Inr (sample_user, 1)"
    using session_access_exact[OF sample_wf q, of sample_user 1] by (simp add: admits_def sample_defs)
  ultimately show ?thesis by (simp add: r q)
qed

theorem ended_session_stays_ended_witness:
  "\<exists>e. fst (resolve_authenticated_user sample_settings id False ''m'' (Some ''t'') True 20
     (snd (revoke_sessions_for_user 7 ''user_disabled'' 15 (destroy_session id (Some ''t'') 10 sample_db)))) = Inl e"
proof (rule ended_session_stays_ended[OF sample_wf sample_in _ by_logout])
  show "ss_token_hash sample_session = id ''t''" by (simp add: sample_hash)
  show "auth_steps sample_settings id (id ''t'') (destroy_session id (Some ''t'') 10 sample_db)
    (snd (revoke_sessions_for_user 7 ''user_disabled'' 15 (destroy_session id (Some ''t'') 10 sample_db)))"
    by (rule auth_steps.revoked_user[OF auth_steps.none prod.collapse[symmetric]])
qed simp

text \<open>The same server with a second stream, for an external player.\<close>

definition sample_decoupled :: native_row where
  "sample_decoupled = \<lparr>ns_session_id = ''m'', ns_access_token_hash = ''b'', ns_user_id = 7, ns_auth_session_id = None,
     ns_created_from = Some 1, ns_expires_at = 100, ns_revoked_at = None, ns_closed_at = None, ns_media_item_id = 3,
     ns_client_name = Some ''Elvern iOS VLC Handoff''\<rparr>"

definition sample_db_decoupled :: auth_db where
  "sample_db_decoupled = sample_db\<lparr>native_playback_sessions := native_playback_sessions sample_db @ [sample_decoupled]\<rparr>"

theorem ended_session_leaves_nothing_witness:
  "\<not> nothing_coupled 1 sample_db_decoupled \<and> nothing_coupled 1 (destroy_session id (Some ''t'') 10 sample_db_decoupled)
   \<and> sample_decoupled \<in> set (native_playback_sessions (destroy_session id (Some ''t'') 10 sample_db_decoupled))"
proof -
  have wf: "auth_wf sample_db_decoupled" "sample_session \<in> set (sessions sample_db_decoupled)"
    using sample_wf sample_in by (simp_all add: sample_db_decoupled_def auth_wf_def)
  have "ss_token_hash sample_session = id ''t''" by (simp add: sample_hash)
  note ended = ended_session_leaves_nothing[where settings = sample_settings and hash = id and token = "''t''", OF wf this sample_unrevoked, OF by_logout]
  have one: "ss_id sample_session = 1" by (simp add: sample_defs)
  have "sample_decoupled \<in> set (native_playback_sessions sample_db_decoupled)" "decoupled_from 1 sample_decoupled"
    by (simp_all add: sample_db_decoupled_def decoupled_from_def sample_decoupled_def)
  with ended show ?thesis unfolding one by (auto simp: nothing_coupled_def sample_db_decoupled_def sample_defs)
qed

end
