(* ===== verification/Range_Stream.thy ===== *)
theory Range_Stream
  imports Elvern_Base
begin

text \<open>
  Direct streaming of a media file: \<^verbatim>\<open>src/backend/app/media_stream.py\<close>. A path is the list of its components, a
  file its list of bytes; \<open>resolve\<close> is \<^verbatim>\<open>Path.resolve\<close> and \<open>files\<close> the regular files of the file system, both
  arguments. A validator (asked whether the stream may go on) is the sequence of its answers.
\<close>

section \<open>The range header\<close>

definition VALIDATED_STREAM_DEFAULT_CHUNK_SIZE :: int where
  "VALIDATED_STREAM_DEFAULT_CHUNK_SIZE = 64 * 1024"

text \<open>\<^verbatim>\<open>re.compile(r"bytes=(\d*)-(\d*)").fullmatch\<close>\<close>

definition match_range :: "string \<Rightarrow> (string \<times> string) option" where
  "match_range s =
     (if starts_with ''bytes='' s then
        let r = drop 6 s; a = takeWhile is_py_digit r in
        (case dropWhile is_py_digit r of
           c # b \<Rightarrow> if c = CHR ''-'' \<and> list_all is_py_digit b then Some (a, b) else None
         | [] \<Rightarrow> None)
      else None)"

definition unsatisfiable :: "string \<Rightarrow> py_error" where
  "unsatisfiable detail = HTTPException 416 detail"

text \<open>\<^verbatim>\<open>int(...)\<close> on a run of digits, which Python refuses beyond 4300 of them.\<close>

definition int_of_digits :: "string \<Rightarrow> py_error + int" where
  "int_of_digits s =
     (if length s > 4300 then Inl (ValueError ''Exceeds the limit (4300 digits) for integer string conversion'')
      else Inr (digits_value s))"

definition parse_range_header :: "string option \<Rightarrow> int \<Rightarrow> py_error + (int \<times> int \<times> bool)" where
  "parse_range_header header file_size =
     (if \<not> truthy_string header then Inr (0, file_size - 1, False)
      else
        case match_range (py_strip (the header)) of
          None \<Rightarrow> Inl (unsatisfiable ''Invalid range header'')
        | Some (start_raw, end_raw) \<Rightarrow>
            if start_raw = [] \<and> end_raw = [] then Inl (unsatisfiable ''Empty range header'')
            else
              and_then
                (if start_raw = [] then
                   and_then (int_of_digits end_raw) (\<lambda>n. Inr (max (file_size - n) 0, file_size - 1))
                 else
                   and_then (int_of_digits start_raw) (\<lambda>s.
                   and_then (if end_raw \<noteq> [] then int_of_digits end_raw else Inr (file_size - 1)) (\<lambda>e. Inr (s, e))))
                (\<lambda>(s, e).
                   if s > e \<or> s \<ge> file_size then Inl (unsatisfiable ''Requested range is outside the file'')
                   else Inr (s, min e (file_size - 1), True)))"

section \<open>The body\<close>

definition resolve_effective_stream_chunk_size :: "int \<Rightarrow> bool \<Rightarrow> int option \<Rightarrow> int" where
  "resolve_effective_stream_chunk_size chunk_size validated validated_chunk_size =
     (if \<not> validated then chunk_size
      else case validated_chunk_size of
             Some n \<Rightarrow> if n > 0 then n else VALIDATED_STREAM_DEFAULT_CHUNK_SIZE
           | None \<Rightarrow> VALIDATED_STREAM_DEFAULT_CHUNK_SIZE)"

text \<open>\<^verbatim>\<open>handle.read(n)\<close> at a position: everything for a negative \<open>n\<close>.\<close>

definition read_at :: "'b list \<Rightarrow> nat \<Rightarrow> int \<Rightarrow> 'b list" where
  "read_at content pos n = (if n < 0 then drop pos content else take (nat n) (drop pos content))"

definition still_valid :: "(nat \<Rightarrow> bool) option \<Rightarrow> nat \<Rightarrow> bool" where
  "still_valid validator calls = (case validator of None \<Rightarrow> True | Some v \<Rightarrow> v calls)"

text \<open>The loop ends because a chunk that is not empty makes what remains smaller.\<close>

function iter_chunks :: "(nat \<Rightarrow> bool) option \<Rightarrow> 'b list \<Rightarrow> int \<Rightarrow> nat \<Rightarrow> nat \<Rightarrow> int \<Rightarrow> 'b list list" where
  "iter_chunks validator content chunk_size calls pos remaining =
     (if remaining \<le> 0 then []
      else if \<not> still_valid validator calls then []
      else
        let chunk = read_at content pos (min chunk_size remaining) in
        if chunk = [] then []
        else if \<not> still_valid validator (calls + 1) then []
        else chunk # iter_chunks validator content chunk_size (calls + 2) (pos + length chunk) (remaining - int (length chunk)))"
  by pat_completeness auto
termination
proof (relation "measure (\<lambda>(validator, content, chunk_size, calls, pos, remaining). nat remaining)")
  fix validator :: "(nat \<Rightarrow> bool) option" and content :: "'b list" and chunk_size :: int and calls pos :: nat
    and remaining :: int and chunk :: "'b list"
  assume "\<not> remaining \<le> 0" "chunk \<noteq> []"
  then have "0 < remaining" "0 < length chunk" by simp_all
  then show "((validator, content, chunk_size, calls + 2, pos + length chunk, remaining - int (length chunk)),
      validator, content, chunk_size, calls, pos, remaining)
     \<in> measure (\<lambda>(validator, content, chunk_size, calls, pos, remaining). nat remaining)" by simp
qed simp

declare iter_chunks.simps [simp del]

definition iter_file ::
  "'b list \<Rightarrow> int \<Rightarrow> int \<Rightarrow> int \<Rightarrow> int option \<Rightarrow> (nat \<Rightarrow> bool) option \<Rightarrow> 'b list list" where
  "iter_file content s e chunk_size validated_chunk_size validator =
     iter_chunks validator content
       (resolve_effective_stream_chunk_size chunk_size (validator \<noteq> None) validated_chunk_size) 0 (nat s) (e - s + 1)"

section \<open>The response\<close>

type_synonym path = "string list"

definition ensure_media_path_within_root :: "(path \<Rightarrow> path) \<Rightarrow> path list \<Rightarrow> path \<Rightarrow> py_error + path" where
  "ensure_media_path_within_root resolve roots file_path =
     (let resolved = resolve file_path in
      if \<exists>root \<in> set (map resolve roots). take (length root) resolved = root then Inr resolved
      else Inl (HTTPException 403 ''Media path escapes configured media root''))"

record 'b stream_response =
  sr_code :: nat
  sr_length :: string
  sr_range :: "string option"
  sr_body :: "'b list list"

definition content_range :: "int \<Rightarrow> int \<Rightarrow> int \<Rightarrow> string" where
  "content_range s e file_size = ''bytes '' @ show_int s @ ''-'' @ show_int e @ ''/'' @ show_int file_size"

definition build_stream_response ::
  "(path \<Rightarrow> path) \<Rightarrow> (path \<Rightarrow> 'b list option) \<Rightarrow> path list \<Rightarrow> path \<Rightarrow> string option \<Rightarrow> int \<Rightarrow> int option
     \<Rightarrow> (nat \<Rightarrow> bool) option \<Rightarrow> py_error + 'b stream_response" where
  "build_stream_response resolve files roots file_path header chunk_size validated_chunk_size validator =
     and_then (ensure_media_path_within_root resolve roots file_path) (\<lambda>resolved.
       case files resolved of
         None \<Rightarrow> Inl (HTTPException 404 ''Media file not found'')
       | Some content \<Rightarrow>
           let file_size = int (length content) in
           and_then (parse_range_header header file_size) (\<lambda>(s, e, partial).
             Inr \<lparr>sr_code = (if partial then 206 else 200), sr_length = show_int (e - s + 1),
                  sr_range = (if partial then Some (content_range s e file_size) else None),
                  sr_body = iter_file content s e chunk_size validated_chunk_size validator\<rparr>))"

section \<open>What is streamed\<close>

lemma digits_value_nonneg: "list_all is_py_digit s \<Longrightarrow> 0 \<le> digits_value s"
proof (induction s rule: rev_induct)
  case (snoc c s)
  then show ?case by (simp add: digits_value_snoc is_py_digit_def Let_def)
qed (simp add: digits_value_def)

lemma match_range_digits:
  assumes "match_range s = Some (a, b)"
  shows "list_all is_py_digit a \<and> list_all is_py_digit b"
  using assms set_takeWhileD[of _ is_py_digit "drop 6 s"]
  by (auto simp: match_range_def Let_def list_all_iff split: if_splits list.splits)

lemma parse_range_bounds:
  assumes "parse_range_header header n = Inr (s, e, partial)" and "0 \<le> n"
  shows "0 \<le> s \<and> s \<le> e + 1 \<and> e \<le> n - 1 \<and> (partial \<longleftrightarrow> truthy_string header) \<and> (partial \<longrightarrow> s \<le> e)"
  using assms match_range_digits digits_value_nonneg
  by (auto simp: parse_range_header_def int_of_digits_def Let_def and_then_Inr_iff split: if_splits option.splits)

text \<open>One turn of the loop: it stops, or it sends the next bytes and goes on after them.\<close>

lemma iter_chunks_turn:
  assumes "0 < chunk_size"
  obtains (stop) "iter_chunks validator content chunk_size calls pos remaining = []"
      and "remaining \<le> 0 \<or> drop pos content = [] \<or> (\<exists>k. \<not> still_valid validator k)"
    | (step) k where "0 < k" and "int k \<le> chunk_size" and "int k \<le> remaining" and "k \<le> length (drop pos content)"
      and "iter_chunks validator content chunk_size calls pos remaining
        = take k (drop pos content) # iter_chunks validator content chunk_size (calls + 2) (pos + k) (remaining - int k)"
proof -
  let ?chunk = "read_at content pos (min chunk_size remaining)"
  consider "remaining \<le> 0" | "0 < remaining" "\<not> still_valid validator calls \<or> \<not> still_valid validator (calls + 1)"
    | "0 < remaining" "?chunk = []" | "0 < remaining" "?chunk \<noteq> []" "still_valid validator calls" "still_valid validator (calls + 1)"
    by fastforce
  then show thesis
  proof cases
    case 1
    then show thesis by (intro stop) (simp_all add: iter_chunks.simps)
  next
    case 2
    then show thesis by (intro stop) (subst iter_chunks.simps, auto simp: Let_def)+
  next
    case 3
    then have "drop pos content = []" using assms by (auto simp: read_at_def min_def split: if_splits)
    moreover have "iter_chunks validator content chunk_size calls pos remaining = []"
      using 3 by (subst iter_chunks.simps) (simp add: Let_def)
    ultimately show thesis by (intro stop) simp_all
  next
    case 4
    have chunk: "?chunk = take (nat (min chunk_size remaining)) (drop pos content)"
      using 4(1) assms by (simp add: read_at_def)
    have same: "take (length ?chunk) (drop pos content) = ?chunk" unfolding chunk by (simp add: take_all_iff min_def)
    have "iter_chunks validator content chunk_size calls pos remaining
        = ?chunk # iter_chunks validator content chunk_size (calls + 2) (pos + length ?chunk) (remaining - int (length ?chunk))"
      using 4 by (subst iter_chunks.simps) (simp add: Let_def)
    moreover have "int (length ?chunk) \<le> min chunk_size remaining" unfolding chunk length_take using 4(1) assms by linarith
    ultimately show thesis
      using 4(1,2) same assms by (intro step[of "length ?chunk"]) (simp_all add: chunk)
  qed
qed

lemma take_split: "k \<le> m \<Longrightarrow> take m xs = take k xs @ take (m - k) (drop k xs)"
  by (metis append_take_drop_id drop_take min.absorb1 take_take)

text \<open>The chunks are what remains, cut in pieces; whatever the validator answers, a beginning of that.\<close>

lemma chunks_prefix:
  assumes "0 < chunk_size"
  shows "\<exists>k. concat (iter_chunks validator content chunk_size calls pos remaining) = take k (take (nat remaining) (drop pos content))
     \<and> ((\<forall>j. still_valid validator j) \<longrightarrow> nat remaining \<le> k)
     \<and> list_all (\<lambda>c. c \<noteq> [] \<and> int (length c) \<le> chunk_size) (iter_chunks validator content chunk_size calls pos remaining)"
proof (induction "nat remaining" arbitrary: calls pos remaining rule: less_induct)
  case less
  show ?case
  proof (rule iter_chunks_turn[OF assms, of validator content calls pos remaining])
    assume "iter_chunks validator content chunk_size calls pos remaining = []"
      and "remaining \<le> 0 \<or> drop pos content = [] \<or> (\<exists>k. \<not> still_valid validator k)"
    then show ?thesis by (intro exI[of _ "if \<forall>j. still_valid validator j then nat remaining else 0"]) auto
  next
    fix k
    assume step: "0 < k" "int k \<le> chunk_size" "int k \<le> remaining" "k \<le> length (drop pos content)"
      "iter_chunks validator content chunk_size calls pos remaining
        = take k (drop pos content) # iter_chunks validator content chunk_size (calls + 2) (pos + k) (remaining - int k)"
    have "nat (remaining - int k) < nat remaining" using step(1,3) by simp
    from less[OF this, of "calls + 2" "pos + k"] obtain j where
      j: "concat (iter_chunks validator content chunk_size (calls + 2) (pos + k) (remaining - int k))
          = take j (take (nat (remaining - int k)) (drop (pos + k) content))"
        "(\<forall>j. still_valid validator j) \<longrightarrow> nat (remaining - int k) \<le> j"
        "list_all (\<lambda>c. c \<noteq> [] \<and> int (length c) \<le> chunk_size) (iter_chunks validator content chunk_size (calls + 2) (pos + k) (remaining - int k))"
      by blast
    have n: "nat (remaining - int k) = nat remaining - k" "k \<le> nat remaining" using step(3) by auto
    have "take (k + j) (take (nat remaining) (drop pos content))
        = take k (drop pos content) @ take j (take (nat remaining - k) (drop (pos + k) content))"
    proof -
      have "take (nat remaining) (drop pos content) = take k (drop pos content) @ take (nat remaining - k) (drop (pos + k) content)"
        using take_split[OF n(2), of "drop pos content"] by (simp add: add.commute)
      then show ?thesis using step(4) by simp
    qed
    then have "concat (iter_chunks validator content chunk_size calls pos remaining) = take (k + j) (take (nat remaining) (drop pos content))"
      using j(1) n(1) by (simp add: step(5))
    moreover have "take k (drop pos content) \<noteq> []" "int (length (take k (drop pos content))) \<le> chunk_size"
      using step(1,2,4) by auto
    ultimately show ?thesis using j(2,3) n by (intro exI[of _ "k + j"]) (auto simp: step(5))
  qed
qed

text \<open>A chunk leaves only between two positive answers of the validator.\<close>

lemma chunks_validated:
  "i < 2 * length (iter_chunks validator content chunk_size calls pos remaining) \<Longrightarrow> still_valid validator (calls + i)"
proof (induction validator content chunk_size calls pos remaining arbitrary: i rule: iter_chunks.induct)
  case (1 validator content chunk_size calls pos remaining)
  let ?chunk = "read_at content pos (min chunk_size remaining)"
  show ?case
  proof (cases "iter_chunks validator content chunk_size calls pos remaining = []")
    case False
    then have go: "\<not> remaining \<le> 0" "still_valid validator calls" "?chunk \<noteq> []" "still_valid validator (calls + 1)"
      by (subst (asm) iter_chunks.simps, auto simp: Let_def split: if_splits)+
    then have "iter_chunks validator content chunk_size calls pos remaining
        = ?chunk # iter_chunks validator content chunk_size (calls + 2) (pos + length ?chunk) (remaining - int (length ?chunk))"
      by (subst iter_chunks.simps) (simp add: Let_def)
    then have rest: "i - 2 < 2 * length (iter_chunks validator content chunk_size (calls + 2) (pos + length ?chunk)
        (remaining - int (length ?chunk)))" if "2 \<le> i"
      using 1(2) that by simp
    consider "i = 0" | "i = 1" | "2 \<le> i" by linarith
    then show ?thesis
    proof cases
      case 3
      show ?thesis using "1.IH"[OF go(1) _ refl go(3), of "i - 2"] go(2,4) rest[OF 3] 3
        by (simp add: add.commute[of calls] flip: Suc_diff_le)
    qed (use go in simp_all)
  qed (use 1(2) in simp)
qed

lemma effective_chunk_positive:
  "0 < chunk_size \<Longrightarrow> 0 < resolve_effective_stream_chunk_size chunk_size validated validated_chunk_size"
  by (auto simp: resolve_effective_stream_chunk_size_def VALIDATED_STREAM_DEFAULT_CHUNK_SIZE_def split: option.splits)

text \<open>The bytes \<open>s\<close> to \<open>e\<close> of a file, both included.\<close>

definition byte_slice :: "'b list \<Rightarrow> int \<Rightarrow> int \<Rightarrow> 'b list" where
  "byte_slice content s e = take (nat (e - s + 1)) (drop (nat s) content)"

lemma iter_file_prefix:
  assumes "0 < chunk_size"
  shows "\<exists>k. concat (iter_file content s e chunk_size vcs validator) = take k (byte_slice content s e)
     \<and> ((\<forall>j. still_valid validator j) \<longrightarrow> concat (iter_file content s e chunk_size vcs validator) = byte_slice content s e)"
    and "list_all (\<lambda>c. c \<noteq> [] \<and> int (length c) \<le> resolve_effective_stream_chunk_size chunk_size (validator \<noteq> None) vcs)
           (iter_file content s e chunk_size vcs validator)"
    and "i < 2 * length (iter_file content s e chunk_size vcs validator) \<Longrightarrow> still_valid validator i"
proof -
  note c = chunks_prefix[OF effective_chunk_positive[OF assms, of "validator \<noteq> None" vcs],
      of validator content 0 "nat s" "e - s + 1", folded iter_file_def]
  show "\<exists>k. concat (iter_file content s e chunk_size vcs validator) = take k (byte_slice content s e)
     \<and> ((\<forall>j. still_valid validator j) \<longrightarrow> concat (iter_file content s e chunk_size vcs validator) = byte_slice content s e)"
    using c by (auto simp: byte_slice_def min_def)
  show "list_all (\<lambda>c. c \<noteq> [] \<and> int (length c) \<le> resolve_effective_stream_chunk_size chunk_size (validator \<noteq> None) vcs)
           (iter_file content s e chunk_size vcs validator)" using c by blast
  show "i < 2 * length (iter_file content s e chunk_size vcs validator) \<Longrightarrow> still_valid validator i"
    unfolding iter_file_def using chunks_validated[where calls = 0] by fastforce
qed

lemma ensure_within_root:
  "ensure_media_path_within_root resolve roots p = Inr q
     \<longleftrightarrow> q = resolve p \<and> (\<exists>r \<in> set roots. take (length (resolve r)) q = resolve r)"
  by (auto simp: ensure_media_path_within_root_def Let_def)

lemma build_stream_response_cases:
  assumes "build_stream_response resolve files roots file_path header chunk_size vcs validator = Inr resp"
  obtains content s e part r where "r \<in> set roots" and "take (length (resolve r)) (resolve file_path) = resolve r"
    and "files (resolve file_path) = Some content" and "parse_range_header header (int (length content)) = Inr (s, e, part)"
    and "resp = \<lparr>sr_code = (if part then 206 else 200), sr_length = show_int (e - s + 1),
                  sr_range = (if part then Some (content_range s e (int (length content))) else None),
                  sr_body = iter_file content s e chunk_size vcs validator\<rparr>"
  using assms
  by (auto simp: build_stream_response_def and_then_Inr_iff ensure_within_root Let_def split: option.splits)

text \<open>C34: A stream that starts is of a regular file inside a media root. Its range lies in the file and its
  headers state it; status 206 and \<^verbatim>\<open>Content-Range\<close> exactly when a range was asked for, and the whole file otherwise.
  What is sent is a beginning of that range, and all of it, in as many bytes as \<^verbatim>\<open>Content-Length\<close> says, when the
  validator never refuses; the chunks are not empty, at most the effective chunk size, and every one of them left after
  both answers asked for it were positive.\<close>

theorem stream_sends_what_it_says:
  assumes "build_stream_response resolve files roots file_path header chunk_size vcs validator = Inr resp"
    and "0 < chunk_size"
  shows "\<exists>r content s e. r \<in> set roots \<and> take (length (resolve r)) (resolve file_path) = resolve r
     \<and> files (resolve file_path) = Some content
     \<and> 0 \<le> s \<and> s \<le> e + 1 \<and> e \<le> int (length content) - 1
     \<and> sr_length resp = show_int (e - s + 1)
     \<and> (if truthy_string header then sr_code resp = 206 \<and> s \<le> e \<and> sr_range resp = Some (content_range s e (int (length content)))
        else sr_code resp = 200 \<and> sr_range resp = None \<and> byte_slice content s e = content)
     \<and> (\<exists>k. concat (sr_body resp) = take k (byte_slice content s e))
     \<and> ((\<forall>j. still_valid validator j)
          \<longrightarrow> concat (sr_body resp) = byte_slice content s e \<and> int (length (concat (sr_body resp))) = e - s + 1)
     \<and> list_all (\<lambda>c. c \<noteq> [] \<and> int (length c) \<le> resolve_effective_stream_chunk_size chunk_size (validator \<noteq> None) vcs) (sr_body resp)
     \<and> (\<forall>i < 2 * length (sr_body resp). still_valid validator i)"
proof -
  obtain content s e part r where r: "r \<in> set roots" "take (length (resolve r)) (resolve file_path) = resolve r"
    "files (resolve file_path) = Some content" and p: "parse_range_header header (int (length content)) = Inr (s, e, part)"
    and resp: "resp = \<lparr>sr_code = (if part then 206 else 200), sr_length = show_int (e - s + 1),
                  sr_range = (if part then Some (content_range s e (int (length content))) else None),
                  sr_body = iter_file content s e chunk_size vcs validator\<rparr>"
    by (rule build_stream_response_cases[OF assms(1)])
  have b: "0 \<le> s" "s \<le> e + 1" "e \<le> int (length content) - 1" "part \<longleftrightarrow> truthy_string header" "part \<longrightarrow> s \<le> e"
    using parse_range_bounds[OF p] by simp_all
  have whole: "byte_slice content s e = content" if "\<not> part"
    using p that b(4) by (auto simp: parse_range_header_def byte_slice_def)
  have len: "int (length (byte_slice content s e)) = e - s + 1" using b by (auto simp: byte_slice_def)
  note f = iter_file_prefix[OF assms(2), where content = content and s = s and e = e and vcs = vcs and validator = validator]
  show ?thesis
    using r b whole len f by (intro exI[of _ r] exI[of _ content] exI[of _ s] exI[of _ e]) (auto simp: resp)
qed

text \<open>Served from two roots: the last three bytes of a file of five, in chunks of two.\<close>

theorem stream_sends_what_it_says_witness:
  "\<exists>resp. build_stream_response id [[''m'', ''f''] \<mapsto> [1, 2, 3, 4, 5 :: nat]] [[''x''], [''m'']] [''m'', ''f''] (Some ''bytes=-3'') 9 (Some 2)
       (Some (\<lambda>_. True)) = Inr resp
     \<and> sr_body resp = [[3, 4], [5]] \<and> concat (sr_body resp) = byte_slice [1, 2, 3, 4, 5] 2 4"
proof -
  let ?r = "\<lparr>sr_code = 206, sr_length = ''3'', sr_range = Some ''bytes 2-4/5'', sr_body = [[3, 4], [5 :: nat]]\<rparr>"
  have r: "build_stream_response id [[''m'', ''f''] \<mapsto> [1, 2, 3, 4, 5 :: nat]] [[''x''], [''m'']] [''m'', ''f''] (Some ''bytes=-3'') 9 (Some 2)
       (Some (\<lambda>_. True)) = Inr ?r"
    by code_simp
  show ?thesis
    using stream_sends_what_it_says[OF r] r by (intro exI[of _ ?r]) (simp add: byte_slice_def)
qed

section \<open>The forms of a range\<close>

lemma span_digits:
  assumes "list_all is_py_digit a" and "\<not> is_py_digit c"
  shows "takeWhile is_py_digit (a @ c # b) = a" and "dropWhile is_py_digit (a @ c # b) = c # b"
  using assms by (induction a) auto

lemma match_range_form:
  assumes "list_all is_py_digit a" and "list_all is_py_digit b"
  shows "match_range (''bytes='' @ a @ ''-'' @ b) = Some (a, b)"
  using assms span_digits[OF assms(1), of "CHR ''-''" b]
  by (simp add: match_range_def starts_with_def is_py_digit_def char_code_def)

lemma digits_no_space: "is_py_digit c \<or> c = CHR ''-'' \<Longrightarrow> \<not> is_py_space c"
  by (auto simp: is_py_digit_def is_py_space_def char_code_def Let_def)

lemma py_strip_tight: "xs \<noteq> [] \<Longrightarrow> \<not> is_py_space (hd xs) \<Longrightarrow> \<not> is_py_space (last xs) \<Longrightarrow> py_strip xs = xs"
proof -
  assume xs: "xs \<noteq> []" "\<not> is_py_space (hd xs)" "\<not> is_py_space (last xs)"
  then have "dropWhile is_py_space xs = xs" "dropWhile is_py_space (rev xs) = rev xs"
    by (simp_all add: dropWhile_eq_self_iff hd_rev)
  then show "py_strip xs = xs" by (simp add: py_strip_def)
qed

lemma range_form_stripped:
  assumes "list_all is_py_digit a" and "list_all is_py_digit b"
  shows "py_strip (''bytes='' @ a @ ''-'' @ b) = ''bytes='' @ a @ ''-'' @ b"
proof (rule py_strip_tight)
  show "\<not> is_py_space (last (''bytes='' @ a @ ''-'' @ b))"
    using assms(2) digits_no_space by (cases b rule: rev_cases) auto
qed (simp_all add: is_py_space_def char_code_def)

lemma parse_range_form:
  assumes "list_all is_py_digit a" and "list_all is_py_digit b"
  shows "parse_range_header (Some (''bytes='' @ a @ ''-'' @ b)) n
    = (if a = [] \<and> b = [] then Inl (unsatisfiable ''Empty range header'')
       else and_then
         (if a = [] then and_then (int_of_digits b) (\<lambda>m. Inr (max (n - m) 0, n - 1))
          else and_then (int_of_digits a) (\<lambda>s. and_then (if b \<noteq> [] then int_of_digits b else Inr (n - 1)) (\<lambda>e. Inr (s, e))))
         (\<lambda>(s, e). if s > e \<or> s \<ge> n then Inl (unsatisfiable ''Requested range is outside the file'')
                   else Inr (s, min e (n - 1), True)))"
  unfolding parse_range_header_def option.sel range_form_stripped[OF assms] match_range_form[OF assms]
  by (simp add: Let_def split del: if_split)

text \<open>The three forms of a range a client may write are read back: the bytes \<open>a\<close> to \<open>b\<close>, the bytes from \<open>a\<close> on,
  the last \<open>k\<close> bytes; each is cut to the file and is refused with 416 exactly when no byte of the file is in it.\<close>

theorem range_forms:
  assumes "length (show_nat a) \<le> 4300" and "length (show_nat b) \<le> 4300" and "length (show_nat k) \<le> 4300"
  shows "parse_range_header (Some (''bytes='' @ show_nat a @ ''-'' @ show_nat b)) n
      = (if int a \<le> int b \<and> int a < n then Inr (int a, min (int b) (n - 1), True)
         else Inl (HTTPException 416 ''Requested range is outside the file''))
     \<and> parse_range_header (Some (''bytes='' @ show_nat a @ ''-'')) n
      = (if int a < n then Inr (int a, n - 1, True) else Inl (HTTPException 416 ''Requested range is outside the file''))
     \<and> parse_range_header (Some (''bytes=-'' @ show_nat k)) n
      = (if 0 < k \<and> 0 < n then Inr (max (n - int k) 0, n - 1, True)
         else Inl (HTTPException 416 ''Requested range is outside the file''))"
proof -
  have d: "list_all is_py_digit (show_nat m)" for m using show_nat_digits by (simp add: list_all_iff)
  note r = int_of_digits_def digits_value_show_nat unsatisfiable_def
  show ?thesis
    using parse_range_form[OF d d, of a b n] parse_range_form[OF d, of "[]" a n] parse_range_form[OF _ d, of "[]" k n] assms
    by (auto simp: r)
qed

theorem range_forms_witness:
  "length (show_nat 12) \<le> 4300 \<and> parse_range_header (Some ''bytes=3-12'') 10 = Inr (3, 9, True)
     \<and> parse_range_header (Some ''bytes=3-'') 10 = Inr (3, 9, True) \<and> parse_range_header (Some ''bytes=-12'') 10 = Inr (0, 9, True)"
proof -
  have s: "show_nat 3 = ''3''" "show_nat 12 = ''12''" by code_simp+
  show ?thesis using range_forms[of 3 12 12 10] by (simp add: s)
qed

end
