(* ===== verification/Stream_Access.thy ===== *)
theory Stream_Access
  imports Auth_Sessions Range_Stream
begin

text \<open>
  Streams of external players: the access checks of \<^verbatim>\<open>native_playback_service.py\<close> and
  \<^verbatim>\<open>desktop_playback_handoff_service.py\<close> on the tables of \<open>Auth_Sessions\<close>, and the validator a stream of
  \<open>Range_Stream\<close> asks before each chunk. \<open>media\<close> are the ids of the media table, the two hashes of a token are the current
  and the legacy one. The age limits are those of \<^verbatim>\<open>media_age_access_service.py\<close>; the key under which an item is grouped
  with other editions of its film, a product of many regular expressions over its title, is an argument.
\<close>

section \<open>The age check\<close>

text \<open>The ages of the users who have one recorded, the manual links of items to groups, the group an item belongs to by its
  title, and the limits of the groups.\<close>

record age_tables =
  ag_credentials :: "(int \<times> int) list"
  ag_manual_links :: "(int \<times> string) list"
  ag_automatic_key :: "int \<Rightarrow> string"
  ag_requirements :: "(string \<times> int option) list"

definition validate_age_credential :: "int \<Rightarrow> py_error + int" where
  "validate_age_credential age =
     (if age < 1 \<or> 18 < age then Inl (HTTPException 400 ''Age credential must be a whole number from 1 to 18'') else Inr age)"

definition age_credential_of :: "age_tables \<Rightarrow> user_row \<Rightarrow> int" where
  "age_credential_of ages u = (case dict_get (ag_credentials ages) (ur_id u) of None \<Rightarrow> 18 | Some n \<Rightarrow> if n = 0 then 18 else n)"

definition effective_age_group_key :: "age_tables \<Rightarrow> int \<Rightarrow> string" where
  "effective_age_group_key ages item =
     (case dict_get (ag_manual_links ages) item of None \<Rightarrow> ag_automatic_key ages item | Some key \<Rightarrow> key)"

text \<open>The answer also formats the limit for display, which raises for a limit that is no valid age.\<close>

definition resolve_media_age_requirement :: "int set \<Rightarrow> age_tables \<Rightarrow> int \<Rightarrow> py_error + int option" where
  "resolve_media_age_requirement media ages item =
     (if item \<notin> media then Inl (HTTPException 404 ''Media item not found'')
      else case dict_get (ag_requirements ages) (effective_age_group_key ages item) of
             None \<Rightarrow> Inr None
           | Some None \<Rightarrow> Inr None
           | Some (Some limit) \<Rightarrow> and_then (validate_age_credential limit) (\<lambda>_. Inr (Some limit)))"

definition age_denied_message :: "int \<Rightarrow> string" where
  "age_denied_message limit =
     ''You must be '' @ (if 18 \<le> limit then ''18+'' else show_int limit)
     @ '' years old to view this film. Please contact an admin if your age credentials are incorrect.''"

definition assert_user_can_access_media_by_age :: "int set \<Rightarrow> age_tables \<Rightarrow> user_row \<Rightarrow> int \<Rightarrow> py_error + unit" where
  "assert_user_can_access_media_by_age media ages u item =
     (if ur_role u = ''admin'' then Inr ()
      else and_then (resolve_media_age_requirement media ages item) (\<lambda>requirement.
        case requirement of
          None \<Rightarrow> Inr ()
        | Some limit \<Rightarrow> and_then (validate_age_credential (age_credential_of ages u)) (\<lambda>age.
            if age < limit then Inl (HTTPException 403 (age_denied_message limit)) else Inr ())))"

section \<open>Access to a native session\<close>

definition client_of :: "string option \<Rightarrow> string" where
  "client_of client_name = py_lower (py_strip (or_string client_name []))"

definition is_ios_external_player_client :: "string option \<Rightarrow> bool" where
  "is_ios_external_player_client client_name =
     (starts_with ''elvern ios vlc handoff'' (client_of client_name) \<or> starts_with ''elvern ios infuse handoff'' (client_of client_name))"

definition uses_external_player_backend_stream :: "string option \<Rightarrow> bool" where
  "uses_external_player_backend_stream client_name =
     (is_ios_external_player_client client_name \<or> client_of client_name = ''linux same-host vlc''
      \<or> starts_with ''vlc helper fallback'' (client_of client_name) \<or> starts_with ''vlc playlist fallback'' (client_of client_name))"

definition should_decouple_external_player_auth_session :: "string option \<Rightarrow> string option \<Rightarrow> bool" where
  "should_decouple_external_player_auth_session client_name external_player =
     (if client_of external_player \<in> {''vlc'', ''infuse''} then True else uses_external_player_backend_stream client_name)"

definition session_expiry :: "auth_settings \<Rightarrow> real \<Rightarrow> string option \<Rightarrow> real" where
  "session_expiry settings now client_name =
     now + real_of_int (if uses_external_player_backend_stream client_name then external_player_stream_ttl_seconds settings
                        else playback_token_ttl_seconds settings)"

definition cleanup_native_playback_sessions :: "real \<Rightarrow> auth_db \<Rightarrow> auth_db" where
  "cleanup_native_playback_sessions now db =
     db\<lparr>native_playback_sessions := filter (\<lambda>n. \<not> (ns_expires_at n \<le> now \<or> ns_closed_at n \<noteq> None \<or> ns_revoked_at n \<noteq> None))
          (native_playback_sessions db)\<rparr>"

text \<open>The hashes of an access token, the current one and the legacy one.\<close>

record token_hashes =
  th_hash :: "string \<Rightarrow> string"
  th_legacy :: "string \<Rightarrow> string"

definition find_user :: "auth_db \<Rightarrow> int \<Rightarrow> user_row option" where
  "find_user db i = List.find (\<lambda>u. ur_id u = i) (users db)"

definition find_session :: "auth_db \<Rightarrow> int \<Rightarrow> session_row option" where
  "find_session db i = List.find (\<lambda>s. ss_id s = i) (sessions db)"

text \<open>The condition of the query that three operations share.\<close>

definition native_row_open :: "token_hashes \<Rightarrow> string \<Rightarrow> string \<Rightarrow> real \<Rightarrow> auth_db \<Rightarrow> native_row \<Rightarrow> bool" where
  "native_row_open th session_id token now db n =
     (ns_session_id n = session_id \<and> ns_access_token_hash n \<in> {th_hash th token, th_legacy th token}
    \<and> ns_closed_at n = None \<and> ns_revoked_at n = None \<and> ns_expires_at n > now
    \<and> (case find_user db (ns_user_id n) of None \<Rightarrow> False | Some u \<Rightarrow> ur_enabled u)
    \<and> (case ns_auth_session_id n of
         None \<Rightarrow> True
       | Some i \<Rightarrow> (case find_session db i of None \<Rightarrow> False | Some s \<Rightarrow> ss_revoked_at s = None \<and> ss_expires_at s > now)))"

definition rehash_native :: "token_hashes \<Rightarrow> string \<Rightarrow> string \<Rightarrow> string \<Rightarrow> auth_db \<Rightarrow> auth_db" where
  "rehash_native th session_id token current_hash db =
     (if current_hash = th_hash th token then db
      else db\<lparr>native_playback_sessions :=
        map (\<lambda>n. if ns_session_id n = session_id \<and> ns_access_token_hash n = current_hash
                 then n\<lparr>ns_access_token_hash := th_hash th token\<rparr> else n) (native_playback_sessions db)\<rparr>)"

definition extend_native :: "auth_settings \<Rightarrow> token_hashes \<Rightarrow> string \<Rightarrow> string \<Rightarrow> native_row \<Rightarrow> real \<Rightarrow> auth_db \<Rightarrow> auth_db" where
  "extend_native settings th session_id token row now db =
     db\<lparr>native_playback_sessions :=
        map (\<lambda>n. if ns_session_id n = session_id \<and> ns_access_token_hash n = ns_access_token_hash row
                 then n\<lparr>ns_access_token_hash := th_hash th token, ns_expires_at := session_expiry settings now (ns_client_name row)\<rparr>
                 else n) (native_playback_sessions db)\<rparr>"

definition inspect_native_playback_access ::
  "token_hashes \<Rightarrow> string \<Rightarrow> string option \<Rightarrow> real \<Rightarrow> auth_db \<Rightarrow> string \<times> auth_db" where
  "inspect_native_playback_access th session_id access_token now db =
     (if session_id = [] then (''session_lookup_miss'', db)
      else if \<not> truthy_string access_token then (''missing_access_token'', db)
      else
        let token = the access_token in
        case List.find (\<lambda>n. ns_session_id n = session_id \<and> find_user db (ns_user_id n) \<noteq> None) (native_playback_sessions db) of
          None \<Rightarrow> (''session_lookup_miss'', db)
        | Some n \<Rightarrow>
            let enabled = ur_enabled (the (find_user db (ns_user_id n)));
                session = (case ns_auth_session_id n of None \<Rightarrow> None | Some i \<Rightarrow> find_session db i) in
            if ns_access_token_hash n \<notin> {th_hash th token, th_legacy th token} then (''token_mismatch'', db)
            else if ns_closed_at n \<noteq> None then (''native_session_closed'', db)
            else if ns_revoked_at n \<noteq> None then (''native_session_revoked'', db)
            else if ns_expires_at n \<le> now then (''native_session_expired'', db)
            else if \<not> enabled then (''user_disabled'', db)
            else if ns_auth_session_id n \<noteq> None \<and> session = None then (''auth_session_lookup_miss'', db)
            else if ns_auth_session_id n \<noteq> None \<and> ss_revoked_at (the session) \<noteq> None then (''auth_session_revoked'', db)
            else if ns_auth_session_id n \<noteq> None \<and> ss_expires_at (the session) \<le> now then (''auth_session_expired'', db)
            else (''allowed'', rehash_native th session_id token (ns_access_token_hash n) db))"

definition require_native_session ::
  "auth_settings \<Rightarrow> token_hashes \<Rightarrow> int set \<Rightarrow> age_tables \<Rightarrow> string \<Rightarrow> string \<Rightarrow> bool \<Rightarrow> real \<Rightarrow> auth_db
     \<Rightarrow> (py_error + native_row \<times> real) \<times> auth_db" where
  "require_native_session settings th media ages session_id token extend_ttl now db =
     (if session_id = [] \<or> token = [] then (Inl (HTTPException 401 ''Native playback session token is required''), db)
      else
        let db = cleanup_native_playback_sessions now db in
        case List.find (\<lambda>n. native_row_open th session_id token now db n \<and> ns_media_item_id n \<in> media) (native_playback_sessions db) of
          None \<Rightarrow> (Inl (HTTPException 401 ''Native playback session is invalid or has expired''), db)
        | Some n \<Rightarrow>
            let expires = (if extend_ttl then session_expiry settings now (ns_client_name n) else ns_expires_at n);
                db = (if extend_ttl then extend_native settings th session_id token n now db
                      else rehash_native th session_id token (ns_access_token_hash n) db) in
            (and_then (assert_user_can_access_media_by_age media ages (the (find_user db (ns_user_id n))) (ns_media_item_id n)) (\<lambda>_. Inr (n, expires)), db))"

definition close_native_playback_session ::
  "auth_settings \<Rightarrow> token_hashes \<Rightarrow> int set \<Rightarrow> age_tables \<Rightarrow> string \<Rightarrow> string \<Rightarrow> real \<Rightarrow> auth_db
     \<Rightarrow> (py_error + unit) \<times> auth_db" where
  "close_native_playback_session settings th media ages session_id token now db =
     (case require_native_session settings th media ages session_id token False now db of
        (Inl e, db) \<Rightarrow> (Inl e, db)
      | (Inr _, db) \<Rightarrow>
          (Inr (), db\<lparr>native_playback_sessions :=
             map (\<lambda>n. if ns_session_id n = session_id then n\<lparr>ns_closed_at := Some now\<rparr> else n) (native_playback_sessions db)\<rparr>))"

section \<open>The validator of a stream\<close>

definition native_stream_access_still_valid ::
  "auth_settings \<Rightarrow> token_hashes \<Rightarrow> string \<Rightarrow> string \<Rightarrow> bool \<Rightarrow> real \<Rightarrow> auth_db \<Rightarrow> bool \<times> auth_db" where
  "native_stream_access_still_valid settings th session_id token extend_ttl now db =
     (case List.find (native_row_open th session_id token now db) (native_playback_sessions db) of
        None \<Rightarrow> (False, db)
      | Some n \<Rightarrow>
          (True, if extend_ttl then
                   db\<lparr>native_playback_sessions :=
                      map (\<lambda>m. if ns_session_id m = session_id \<and> ns_access_token_hash m = ns_access_token_hash n
                                  \<and> ns_closed_at m = None \<and> ns_revoked_at m = None
                               then m\<lparr>ns_access_token_hash := th_hash th token, ns_expires_at := session_expiry settings now (ns_client_name n)\<rparr>
                               else m) (native_playback_sessions db)\<rparr>
                 else rehash_native th session_id token (ns_access_token_hash n) db))"

record stream_validator =
  sv_next_check_at :: real
  sv_next_ttl_refresh_at :: real
  sv_stream_open :: bool

definition new_stream_validator :: stream_validator where
  "new_stream_validator = \<lparr>sv_next_check_at = 0, sv_next_ttl_refresh_at = 0, sv_stream_open = True\<rparr>"

text \<open>One call: \<open>ticks\<close> is the monotonic clock, \<open>now\<close> the wall clock.\<close>

definition native_stream_validator ::
  "auth_settings \<Rightarrow> token_hashes \<Rightarrow> string \<Rightarrow> string \<Rightarrow> real \<Rightarrow> real \<Rightarrow> real \<Rightarrow> real \<Rightarrow> stream_validator \<Rightarrow> auth_db
     \<Rightarrow> bool \<times> stream_validator \<times> auth_db" where
  "native_stream_validator settings th session_id token validation_interval ttl_refresh_interval ticks now sv db =
     (if \<not> sv_stream_open sv then (False, sv, db)
      else if ticks < sv_next_check_at sv then (True, sv, db)
      else
        let refresh = (ticks \<ge> sv_next_ttl_refresh_at sv);
            (ok, db) = native_stream_access_still_valid settings th session_id token refresh now db;
            sv = sv\<lparr>sv_next_check_at := ticks + validation_interval, sv_stream_open := ok\<rparr>;
            sv = (if ok \<and> refresh then sv\<lparr>sv_next_ttl_refresh_at := ticks + ttl_refresh_interval\<rparr> else sv) in
        (ok, sv, db))"

section \<open>Access to a desktop hand-off\<close>

definition cleanup_desktop_vlc_handoffs :: "real \<Rightarrow> auth_db \<Rightarrow> auth_db" where
  "cleanup_desktop_vlc_handoffs now db =
     db\<lparr>desktop_vlc_handoffs := filter (\<lambda>h. \<not> (ho_expires_at h \<le> now \<or> ho_revoked_at h \<noteq> None)) (desktop_vlc_handoffs db)\<rparr>"

definition handoff_row_open :: "token_hashes \<Rightarrow> int set \<Rightarrow> string \<Rightarrow> string \<Rightarrow> real \<Rightarrow> auth_db \<Rightarrow> handoff_row \<Rightarrow> bool" where
  "handoff_row_open th media handoff_id token now db h =
     (ho_handoff_id h = handoff_id \<and> ho_access_token_hash h \<in> {th_hash th token, th_legacy th token}
    \<and> ho_expires_at h > now \<and> ho_revoked_at h = None \<and> ho_media_item_id h \<in> media
    \<and> (case find_user db (ho_user_id h) of None \<Rightarrow> False | Some u \<Rightarrow> ur_enabled u))"

definition require_desktop_vlc_handoff ::
  "token_hashes \<Rightarrow> int set \<Rightarrow> age_tables \<Rightarrow> string \<Rightarrow> string \<Rightarrow> real \<Rightarrow> auth_db \<Rightarrow> (py_error + handoff_row) \<times> auth_db" where
  "require_desktop_vlc_handoff th media ages handoff_id token now db =
     (let db = cleanup_desktop_vlc_handoffs now db in
      case List.find (handoff_row_open th media handoff_id token now db) (desktop_vlc_handoffs db) of
        None \<Rightarrow> (Inl (HTTPException 401 ''Desktop VLC handoff is invalid or has expired''), db)
      | Some h \<Rightarrow>
          (case assert_user_can_access_media_by_age media ages (the (find_user db (ho_user_id h))) (ho_media_item_id h) of
             Inl e \<Rightarrow> (Inl e, db)
           | Inr _ \<Rightarrow>
               (Inr h, if ho_access_token_hash h = th_hash th token then db
                       else db\<lparr>desktop_vlc_handoffs :=
                         map (\<lambda>g. if ho_handoff_id g = handoff_id \<and> ho_access_token_hash g = ho_access_token_hash h
                                  then g\<lparr>ho_access_token_hash := th_hash th token\<rparr> else g) (desktop_vlc_handoffs db)\<rparr>)))"

section \<open>The two checks agree\<close>

lemma cleanup_native_find:
  "find_user (cleanup_native_playback_sessions now db) = find_user db" "find_session (cleanup_native_playback_sessions now db) = find_session db"
  "native_row_open th sid token t (cleanup_native_playback_sessions now db) = native_row_open th sid token t db"
proof -
  show u: "find_user (cleanup_native_playback_sessions now db) = find_user db"
    and s: "find_session (cleanup_native_playback_sessions now db) = find_session db"
    by (simp_all add: cleanup_native_playback_sessions_def find_user_def find_session_def fun_eq_iff)
  show "native_row_open th sid token t (cleanup_native_playback_sessions now db) = native_row_open th sid token t db"
    unfolding native_row_open_def u s by simp
qed

lemma find_user_after: "find_user (if longer then extend_native settings th sid token n now db else rehash_native th sid token h db) = find_user db"
  by (simp add: extend_native_def rehash_native_def find_user_def fun_eq_iff)

text \<open>The inspection allows an access exactly when a row passes the query.\<close>

lemma inspect_allows:
  assumes "distinct (map ns_session_id (native_playback_sessions db))"
  shows "fst (inspect_native_playback_access th sid tok now db) = ''allowed''
    \<longleftrightarrow> sid \<noteq> [] \<and> truthy_string tok \<and> (\<exists>n \<in> set (native_playback_sessions db). native_row_open th sid (the tok) now db n)"
proof (cases "sid = [] \<or> \<not> truthy_string tok")
  case False
  let ?P = "\<lambda>n. ns_session_id n = sid \<and> find_user db (ns_user_id n) \<noteq> None"
  have f: "List.find ?P (native_playback_sessions db) = Some n \<longleftrightarrow> n \<in> set (native_playback_sessions db) \<and> ?P n" for n
    by (rule find_unique[OF assms]) simp
  show ?thesis
  proof (cases "List.find ?P (native_playback_sessions db)")
    case None
    then have "\<not> (\<exists>n \<in> set (native_playback_sessions db). native_row_open th sid (the tok) now db n)"
      by (auto simp: find_None_iff native_row_open_def split: option.splits)
    with None False show ?thesis by (simp add: inspect_native_playback_access_def)
  next
    case (Some n)
    with f have n: "n \<in> set (native_playback_sessions db)" "?P n" by blast+
    have "(\<exists>m \<in> set (native_playback_sessions db). native_row_open th sid (the tok) now db m) \<longleftrightarrow> native_row_open th sid (the tok) now db n"
      using n assms by (auto simp: native_row_open_def distinct_map inj_on_def)
    also have "\<dots> \<longleftrightarrow> fst (inspect_native_playback_access th sid tok now db) = ''allowed''"
      using False Some n(2)
      by (auto simp: inspect_native_playback_access_def Let_def native_row_open_def split: option.splits)
    finally show ?thesis using False by blast
  qed
qed (auto simp: inspect_native_playback_access_def)

lemma require_answer:
  assumes "distinct (map ns_session_id (native_playback_sessions db))" and "sid \<noteq> []" "token \<noteq> []"
  shows "n \<in> set (native_playback_sessions db) \<Longrightarrow> native_row_open th sid token now db n \<Longrightarrow> ns_media_item_id n \<in> media
      \<Longrightarrow> fst (require_native_session settings th media ages sid token longer now db)
        = and_then (assert_user_can_access_media_by_age media ages (the (find_user db (ns_user_id n))) (ns_media_item_id n))
            (\<lambda>_. Inr (n, if longer then session_expiry settings now (ns_client_name n) else ns_expires_at n))"
    and "(\<And>n. n \<in> set (native_playback_sessions db) \<Longrightarrow> \<not> (native_row_open th sid token now db n \<and> ns_media_item_id n \<in> media))
      \<Longrightarrow> fst (require_native_session settings th media ages sid token longer now db)
        = Inl (HTTPException 401 ''Native playback session is invalid or has expired'')"
proof -
  let ?P = "\<lambda>n. native_row_open th sid token now db n \<and> ns_media_item_id n \<in> media"
  let ?kept = "native_playback_sessions (cleanup_native_playback_sessions now db)"
  have kept: "n \<in> set ?kept \<and> ?P n \<longleftrightarrow> n \<in> set (native_playback_sessions db) \<and> ?P n" for n
    by (auto simp: cleanup_native_playback_sessions_def native_row_open_def)
  have "distinct (map ns_session_id ?kept)"
    using assms(1) by (auto simp: cleanup_native_playback_sessions_def distinct_map inj_on_def)
  then have f: "List.find ?P ?kept = Some n \<longleftrightarrow> n \<in> set (native_playback_sessions db) \<and> ?P n" for n
    unfolding kept[symmetric] by (rule find_unique[where k = sid]) (simp add: native_row_open_def)
  show "fst (require_native_session settings th media ages sid token longer now db)
      = and_then (assert_user_can_access_media_by_age media ages (the (find_user db (ns_user_id n))) (ns_media_item_id n))
          (\<lambda>_. Inr (n, if longer then session_expiry settings now (ns_client_name n) else ns_expires_at n))"
    if "n \<in> set (native_playback_sessions db)" "native_row_open th sid token now db n" "ns_media_item_id n \<in> media"
    using f[of n] that assms(2,3) by (simp add: require_native_session_def Let_def cleanup_native_find find_user_after)
  show "fst (require_native_session settings th media ages sid token longer now db)
      = Inl (HTTPException 401 ''Native playback session is invalid or has expired'')"
    if "\<And>n. n \<in> set (native_playback_sessions db) \<Longrightarrow> \<not> ?P n"
  proof -
    have "List.find ?P ?kept = None" using that f by (metis not_None_eq)
    then show ?thesis using assms(2,3) by (simp add: require_native_session_def Let_def cleanup_native_find)
  qed
qed

text \<open>C37: The diagnostic inspection of a native session and the check that opens its stream judge the token and the sessions
  behind it alike. What the inspection does not call allowed, the check answers with 401. What it calls allowed, the check
  answers by two tests the inspection does not make: 401 when the item is gone, the error of the age check (403 for a
  viewer who is too young) when that fails; otherwise it accepts the row that the inspection found.\<close>

theorem inspection_agrees_with_access:
  assumes "distinct (map ns_session_id (native_playback_sessions db))"
  shows "if fst (inspect_native_playback_access th sid (Some token) now db) \<noteq> ''allowed''
    then \<exists>text. fst (require_native_session settings th media ages sid token longer now db) = Inl (HTTPException 401 text)
    else \<exists>n \<in> set (native_playback_sessions db). ns_session_id n = sid
      \<and> fst (require_native_session settings th media ages sid token longer now db)
        = (if ns_media_item_id n \<notin> media then Inl (HTTPException 401 ''Native playback session is invalid or has expired'')
           else case assert_user_can_access_media_by_age media ages (the (find_user db (ns_user_id n))) (ns_media_item_id n) of
                  Inl e \<Rightarrow> Inl e
                | Inr _ \<Rightarrow> Inr (n, if longer then session_expiry settings now (ns_client_name n) else ns_expires_at n))"
proof (cases "fst (inspect_native_playback_access th sid (Some token) now db) = ''allowed''")
  case True
  then obtain n where n: "sid \<noteq> []" "token \<noteq> []" "n \<in> set (native_playback_sessions db)" "native_row_open th sid token now db n"
    unfolding inspect_allows[OF assms] by (auto simp: truthy_string_def)
  have sid: "ns_session_id n = sid" using n(4) by (simp add: native_row_open_def)
  have "m = n" if "m \<in> set (native_playback_sessions db)" "native_row_open th sid token now db m" for m
    using that n(3) sid assms by (auto simp: native_row_open_def distinct_map inj_on_def)
  then have gone: "fst (require_native_session settings th media ages sid token longer now db)
      = Inl (HTTPException 401 ''Native playback session is invalid or has expired'')" if "ns_media_item_id n \<notin> media"
    using that by (intro require_answer(2)[OF assms n(1,2)]) blast
  have "fst (require_native_session settings th media ages sid token longer now db)
      = (if ns_media_item_id n \<notin> media then Inl (HTTPException 401 ''Native playback session is invalid or has expired'')
         else case assert_user_can_access_media_by_age media ages (the (find_user db (ns_user_id n))) (ns_media_item_id n) of
                Inl e \<Rightarrow> Inl e
              | Inr _ \<Rightarrow> Inr (n, if longer then session_expiry settings now (ns_client_name n) else ns_expires_at n))"
    (is "?answer = ?expected")
  proof (cases "ns_media_item_id n \<in> media")
    case True
    then show ?thesis
      by (cases "assert_user_can_access_media_by_age media ages (the (find_user db (ns_user_id n))) (ns_media_item_id n)")
        (simp_all only: require_answer(1)[OF assms n] and_then.simps sum.case if_False not_True_eq_False simp_thms)
  qed (simp add: gone)
  then show ?thesis using True n(3) sid by (simp only: simp_thms if_False) blast
next
  case False
  show ?thesis
  proof (cases "sid = [] \<or> token = []")
    case True
    then show ?thesis using False by (auto simp: require_native_session_def)
  next
    case some: False
    have "\<not> native_row_open th sid token now db n" if "n \<in> set (native_playback_sessions db)" for n
      using False that some unfolding inspect_allows[OF assms] by (auto simp: truthy_string_def)
    then show ?thesis using False some require_answer(2)[OF assms, of sid token th now media settings ages longer] by auto
  qed
qed

section \<open>A revoked stream stops\<close>

text \<open>The answers of the validator: call \<open>k\<close> is made at the time \<open>ticks k\<close> of the monotonic and \<open>wall k\<close> of the wall clock
  and finds the tables \<open>dbs k\<close>.\<close>

primrec validator_at ::
  "auth_settings \<Rightarrow> token_hashes \<Rightarrow> string \<Rightarrow> string \<Rightarrow> real \<Rightarrow> real \<Rightarrow> (nat \<Rightarrow> real) \<Rightarrow> (nat \<Rightarrow> real) \<Rightarrow> (nat \<Rightarrow> auth_db) \<Rightarrow> nat \<Rightarrow> stream_validator" where
  "validator_at settings th sid token vi ri ticks wall dbs 0 = new_stream_validator"
| "validator_at settings th sid token vi ri ticks wall dbs (Suc k) =
     fst (snd (native_stream_validator settings th sid token vi ri (ticks k) (wall k) (validator_at settings th sid token vi ri ticks wall dbs k) (dbs k)))"

definition validator_answer ::
  "auth_settings \<Rightarrow> token_hashes \<Rightarrow> string \<Rightarrow> string \<Rightarrow> real \<Rightarrow> real \<Rightarrow> (nat \<Rightarrow> real) \<Rightarrow> (nat \<Rightarrow> real) \<Rightarrow> (nat \<Rightarrow> auth_db) \<Rightarrow> nat \<Rightarrow> bool" where
  "validator_answer settings th sid token vi ri ticks wall dbs k =
     fst (native_stream_validator settings th sid token vi ri (ticks k) (wall k) (validator_at settings th sid token vi ri ticks wall dbs k) (dbs k))"

text \<open>The session is over in the tables: its row is revoked, closed or gone.\<close>

definition native_over :: "string \<Rightarrow> auth_db \<Rightarrow> bool" where
  "native_over sid db \<longleftrightarrow> (\<forall>n \<in> set (native_playback_sessions db). ns_session_id n = sid \<longrightarrow> ns_revoked_at n \<noteq> None \<or> ns_closed_at n \<noteq> None)"

lemma native_over_invalid: "native_over sid db \<Longrightarrow> fst (native_stream_access_still_valid settings th sid token longer now db) = False"
proof -
  assume "native_over sid db"
  then have "List.find (native_row_open th sid token now db) (native_playback_sessions db) = None"
    by (auto simp: find_None_iff native_over_def native_row_open_def)
  then show ?thesis by (simp add: native_stream_access_still_valid_def)
qed

lemma validator_step:
  assumes "native_stream_validator settings th sid token vi ri ticks now sv db = (a, sv', db')"
  shows "\<not> sv_stream_open sv \<Longrightarrow> \<not> a \<and> sv' = sv"
    and "sv_stream_open sv \<Longrightarrow> ticks < sv_next_check_at sv \<Longrightarrow> a \<and> sv' = sv"
    and "sv_stream_open sv \<Longrightarrow> sv_next_check_at sv \<le> ticks
      \<Longrightarrow> (\<exists>x. a = fst (native_stream_access_still_valid settings th sid token x now db)) \<and> sv_stream_open sv' = a \<and> sv_next_check_at sv' = ticks + vi"
proof -
  show "\<not> sv_stream_open sv \<Longrightarrow> \<not> a \<and> sv' = sv" and "sv_stream_open sv \<Longrightarrow> ticks < sv_next_check_at sv \<Longrightarrow> a \<and> sv' = sv"
    using assms by (auto simp: native_stream_validator_def)
  let ?x = "ticks \<ge> sv_next_ttl_refresh_at sv"
  obtain ok db1 where v: "native_stream_access_still_valid settings th sid token ?x now db = (ok, db1)" by fastforce
  then have ok: "ok = fst (native_stream_access_still_valid settings th sid token ?x now db)" by simp
  assume "sv_stream_open sv" "sv_next_check_at sv \<le> ticks"
  then have "a = ok \<and> sv_stream_open sv' = a \<and> sv_next_check_at sv' = ticks + vi"
    using assms by (simp add: native_stream_validator_def v Let_def split: if_splits) auto
  then show "(\<exists>x. a = fst (native_stream_access_still_valid settings th sid token x now db)) \<and> sv_stream_open sv' = a \<and> sv_next_check_at sv' = ticks + vi"
    using ok by blast
qed

text \<open>While the stream is open, the next check is due within the interval after the last time it was found valid.\<close>

lemma validator_due:
  assumes over: "\<And>j. T \<le> ticks j \<Longrightarrow> native_over sid (dbs j)" and "0 \<le> T" and "0 \<le> vi"
  shows "sv_stream_open (validator_at settings th sid token vi ri ticks wall dbs k)
    \<longrightarrow> sv_next_check_at (validator_at settings th sid token vi ri ticks wall dbs k) < T + vi \<or> sv_next_check_at (validator_at settings th sid token vi ri ticks wall dbs k) = 0"
proof (induction k)
  case (Suc k)
  let ?sv = "validator_at settings th sid token vi ri ticks wall dbs k"
  obtain a sv' db' where s: "native_stream_validator settings th sid token vi ri (ticks k) (wall k) ?sv (dbs k) = (a, sv', db')"
    by (metis surj_pair)
  note step = validator_step[OF s]
  have "sv_next_check_at sv' < T + vi \<or> sv_next_check_at sv' = 0" if "sv_stream_open sv'"
  proof (cases "sv_stream_open ?sv \<and> sv_next_check_at ?sv \<le> ticks k")
    case True
    then obtain x where "a = fst (native_stream_access_still_valid settings th sid token x (wall k) (dbs k))" "sv_stream_open sv' = a"
      using step(3) by blast
    then have "\<not> native_over sid (dbs k)" using that native_over_invalid by auto
    then have "ticks k < T" using over[of k] by linarith
    then show ?thesis using step(3) True by simp
  next
    case False
    then have "sv' = ?sv" using step(1,2) by fastforce
    then show ?thesis using Suc that by simp
  qed
  then show ?case by (simp add: s)
qed (simp add: new_stream_validator_def)

lemma validator_refuses:
  assumes over: "\<And>j. T \<le> ticks j \<Longrightarrow> native_over sid (dbs j)" and "0 \<le> T" and "0 \<le> vi" and "T + vi \<le> ticks k"
  shows "\<not> validator_answer settings th sid token vi ri ticks wall dbs k"
proof -
  let ?sv = "validator_at settings th sid token vi ri ticks wall dbs k"
  obtain a sv' db' where s: "native_stream_validator settings th sid token vi ri (ticks k) (wall k) ?sv (dbs k) = (a, sv', db')"
    by (metis surj_pair)
  have "native_over sid (dbs k)" using over assms(3,4) by simp
  moreover have "sv_next_check_at ?sv \<le> ticks k" if "sv_stream_open ?sv"
    using validator_due[where T = T and ticks = ticks and sid = sid and dbs = dbs and vi = vi, OF over assms(2,3)] that assms(2-4) by fastforce
  ultimately have "\<not> a" using validator_step(1,3)[OF s] native_over_invalid by (cases "sv_stream_open ?sv") fastforce+
  then show ?thesis by (simp add: validator_answer_def s)
qed

text \<open>C19: From the time a native session is revoked, closed or gone, its stream sends no chunk after one interval of
  validation: every chunk of the response left between two calls of the validator, the later of them before that.\<close>

theorem revoked_stream_stops:
  assumes "build_stream_response resolve files roots file_path header chunk_size vcs
      (Some (validator_answer settings th sid token vi ri ticks wall dbs)) = Inr resp"
    and "0 < chunk_size" and "0 \<le> T" and "0 \<le> vi"
    and "\<And>j. T \<le> ticks j \<Longrightarrow> native_over sid (dbs j)"
    and "c < length (sr_body resp)"
  shows "ticks (2 * c) < T + vi \<and> ticks (2 * c + 1) < T + vi"
proof -
  obtain content s e part r where "resp = \<lparr>sr_code = (if part then 206 else 200), sr_length = show_int (e - s + 1),
      sr_range = (if part then Some (content_range s e (int (length content))) else None),
      sr_body = iter_file content s e chunk_size vcs (Some (validator_answer settings th sid token vi ri ticks wall dbs))\<rparr>"
    by (rule build_stream_response_cases[OF assms(1)])
  then have "still_valid (Some (validator_answer settings th sid token vi ri ticks wall dbs)) i" if "i < 2 * length (sr_body resp)" for i
    using iter_file_prefix(3)[OF assms(2)] that by simp
  then have "validator_answer settings th sid token vi ri ticks wall dbs i" if "i \<in> {2 * c, 2 * c + 1}" for i
    using that assms(6) by (fastforce simp: still_valid_def)
  then show ?thesis using validator_refuses[OF assms(5,3,4)] by (meson insertI1 insertI2 not_less)
qed

section \<open>Hand-offs and maintenance\<close>

lemma handoff_row_open_cong:
  "users db' = users db \<Longrightarrow> handoff_row_open th media hid token now db' h = handoff_row_open th media hid token now db h"
  by (simp add: handoff_row_open_def find_user_def)

lemma maintenance_same:
  "users (snd (revoke_non_admin_sessions_for_maintenance_mode t db)) = users db"
  "desktop_vlc_handoffs (snd (revoke_non_admin_sessions_for_maintenance_mode t db)) = desktop_vlc_handoffs db"
  by (simp_all add: revoke_non_admin_sessions_for_maintenance_mode_def Let_def)

lemma require_handoff_cong:
  assumes "users db' = users db" and "desktop_vlc_handoffs db' = desktop_vlc_handoffs db"
  shows "fst (require_desktop_vlc_handoff th media ages hid token now db') = fst (require_desktop_vlc_handoff th media ages hid token now db)"
proof -
  have rows: "desktop_vlc_handoffs (cleanup_desktop_vlc_handoffs now db') = desktop_vlc_handoffs (cleanup_desktop_vlc_handoffs now db)"
    and us: "users (cleanup_desktop_vlc_handoffs now db') = users (cleanup_desktop_vlc_handoffs now db)"
    using assms by (simp_all add: cleanup_desktop_vlc_handoffs_def)
  have "handoff_row_open th media hid token now (cleanup_desktop_vlc_handoffs now db')
      = handoff_row_open th media hid token now (cleanup_desktop_vlc_handoffs now db)"
    using handoff_row_open_cong[OF us] by (rule ext)
  moreover have "find_user (cleanup_desktop_vlc_handoffs now db') = find_user (cleanup_desktop_vlc_handoffs now db)"
    using us by (simp add: find_user_def fun_eq_iff)
  ultimately show ?thesis
    unfolding require_desktop_vlc_handoff_def Let_def rows by (auto split: option.splits sum.splits)
qed

lemma require_handoff_needs_row:
  assumes "fst (require_desktop_vlc_handoff th media ages hid token now db) = Inr h"
  shows "h \<in> set (desktop_vlc_handoffs db) \<and> ho_handoff_id h = hid \<and> ho_revoked_at h = None"
proof -
  let ?db = "cleanup_desktop_vlc_handoffs now db"
  have "List.find (handoff_row_open th media hid token now ?db) (desktop_vlc_handoffs ?db) = Some h"
    using assms by (auto simp: require_desktop_vlc_handoff_def Let_def split: option.splits sum.splits)
  then show ?thesis
    by (auto simp: find_Some_iff cleanup_desktop_vlc_handoffs_def handoff_row_open_def dest!: nth_mem)
qed

text \<open>Maintenance mode ends the sessions of the users who are not administrators but not the desktop hand-offs they had
  opened: every hand-off that could be resolved before can be resolved after. When an administrator revokes the session,
  its hand-offs are refused at once.\<close>

theorem maintenance_leaves_handoffs:
  assumes "fst (require_desktop_vlc_handoff th media ages hid token now db) = Inr h"
    and "distinct (map ho_handoff_id (desktop_vlc_handoffs db))"
    and "ho_auth_session_id h = Some (ss_id s)" and "s \<in> set (sessions db)" and "ss_revoked_at s = None"
  shows "fst (require_desktop_vlc_handoff th media ages hid token now (snd (revoke_non_admin_sessions_for_maintenance_mode t db))) = Inr h
     \<and> (\<exists>e. fst (require_desktop_vlc_handoff th media ages hid token now (snd (revoke_session_by_id (ss_id s) reason t db))) = Inl e)"
proof
  show "fst (require_desktop_vlc_handoff th media ages hid token now (snd (revoke_non_admin_sessions_for_maintenance_mode t db))) = Inr h"
    unfolding require_handoff_cong[OF maintenance_same] by (rule assms(1))
  have revoked: "snd (revoke_session_by_id (ss_id s) reason t db) = revoke_session_ids [ss_id s] reason t db"
    using assms(4,5) by (auto simp: revoke_session_by_id_def)
  have "fst (require_desktop_vlc_handoff th media ages hid token now (revoke_session_ids [ss_id s] reason t db)) \<noteq> Inr g" for g
  proof
    assume "fst (require_desktop_vlc_handoff th media ages hid token now (revoke_session_ids [ss_id s] reason t db)) = Inr g"
    from require_handoff_needs_row[OF this] obtain g' where g': "g' \<in> set (desktop_vlc_handoffs db)" "ho_handoff_id g' = hid"
      "\<not> (owned_by [ss_id s] (ho_auth_session_id g') \<and> ho_revoked_at g' = None)" "ho_revoked_at g' = None"
      by (auto simp: revoke_session_ids_def Let_def revoke_handoffs_def split: if_splits)
    with require_handoff_needs_row[OF assms(1)] assms(2) have "g' = h" by (auto simp: distinct_map inj_on_def)
    with g' assms(3) show False by (simp add: owned_by_def)
  qed
  then show "\<exists>e. fst (require_desktop_vlc_handoff th media ages hid token now (snd (revoke_session_by_id (ss_id s) reason t db))) = Inl e"
    unfolding revoked by (cases "fst (require_desktop_vlc_handoff th media ages hid token now (revoke_session_ids [ss_id s] reason t db))") auto
qed

section \<open>The sample server\<close>

definition sample_hashes :: token_hashes where
  "sample_hashes = \<lparr>th_hash = id, th_legacy = (\<lambda>t. ''old'' @ t)\<rparr>"

text \<open>The user of the sample is twelve; the only film with a limit, of sixteen years, is linked to the fourth item.\<close>

definition sample_ages :: age_tables where
  "sample_ages = \<lparr>ag_credentials = [(7, 12)], ag_manual_links = [(4, ''age:title:dracula|1992'')], ag_automatic_key = (\<lambda>i. ''age:item:'' @ show_int i),
     ag_requirements = [(''age:title:dracula|1992'', Some 16)]\<rparr>"

lemma sample_age_check:
  "3 \<in> media \<Longrightarrow> assert_user_can_access_media_by_age media sample_ages sample_user 3 = Inr ()"
  "4 \<in> media \<Longrightarrow> assert_user_can_access_media_by_age media sample_ages sample_user 4 = Inl (HTTPException 403 (age_denied_message 16))"
proof -
  have "CHR ''i'' \<noteq> CHR ''t''" by simp
  then have "''age:item:3'' \<noteq> ''age:title:dracula|1992''" by simp
  moreover have "show_int 3 = ''3''" by code_simp
  ultimately show "assert_user_can_access_media_by_age media sample_ages sample_user 3 = Inr ()" if "3 \<in> media"
    using that
    by (simp add: assert_user_can_access_media_by_age_def resolve_media_age_requirement_def effective_age_group_key_def sample_ages_def sample_user_def)
  show "assert_user_can_access_media_by_age media sample_ages sample_user 4 = Inl (HTTPException 403 (age_denied_message 16))" if "4 \<in> media"
    using that
    by (simp add: assert_user_can_access_media_by_age_def resolve_media_age_requirement_def effective_age_group_key_def sample_ages_def sample_user_def
        validate_age_credential_def age_credential_of_def)
qed

theorem maintenance_leaves_handoffs_witness:
  "fst (require_desktop_vlc_handoff sample_hashes {3} sample_ages ''h'' ''a'' 20 (snd (revoke_non_admin_sessions_for_maintenance_mode 15 sample_db)))
     = Inr (hd (desktop_vlc_handoffs sample_db))
   \<and> fst (fst (revoke_non_admin_sessions_for_maintenance_mode 15 sample_db)) = 1"
proof
  have r: "fst (require_desktop_vlc_handoff sample_hashes {3} sample_ages ''h'' ''a'' 20 sample_db) = Inr (hd (desktop_vlc_handoffs sample_db))"
    by (simp add: require_desktop_vlc_handoff_def cleanup_desktop_vlc_handoffs_def handoff_row_open_def find_user_def sample_hashes_def sample_defs
        sample_age_check(1)[of "{3}", unfolded sample_user_def])
  have s: "ho_auth_session_id (hd (desktop_vlc_handoffs sample_db)) = Some (ss_id sample_session)"
    and d: "distinct (map ho_handoff_id (desktop_vlc_handoffs sample_db))"
    by (simp_all add: sample_defs)
  show "fst (require_desktop_vlc_handoff sample_hashes {3} sample_ages ''h'' ''a'' 20 (snd (revoke_non_admin_sessions_for_maintenance_mode 15 sample_db)))
     = Inr (hd (desktop_vlc_handoffs sample_db))"
    using maintenance_leaves_handoffs[OF r d s sample_in sample_unrevoked] by blast
  show "fst (fst (revoke_non_admin_sessions_for_maintenance_mode 15 sample_db)) = 1"
    by (simp add: revoke_non_admin_sessions_for_maintenance_mode_def sample_defs Let_def)
qed

text \<open>The same session playing the film that is not for its viewer.\<close>

definition sample_db_limited :: auth_db where
  "sample_db_limited = sample_db\<lparr>native_playback_sessions := map (\<lambda>n. n\<lparr>ns_media_item_id := 4\<rparr>) (native_playback_sessions sample_db)\<rparr>"

theorem inspection_agrees_with_access_witness:
  "(\<exists>v. fst (require_native_session sample_settings sample_hashes {3, 4} sample_ages ''n'' ''a'' False 20 sample_db) = Inr v)
   \<and> fst (inspect_native_playback_access sample_hashes ''n'' (Some ''a'') 20 sample_db_limited) = ''allowed''
   \<and> fst (require_native_session sample_settings sample_hashes {3, 4} sample_ages ''n'' ''a'' False 20 sample_db_limited)
     = Inl (HTTPException 403 (age_denied_message 16))"
proof (intro conjI)
  note defs = inspect_native_playback_access_def Let_def truthy_string_def find_user_def find_session_def sample_hashes_def sample_defs
  have a: "fst (inspect_native_playback_access sample_hashes ''n'' (Some ''a'') 20 sample_db) = ''allowed''"
    by (simp add: defs)
  show b: "fst (inspect_native_playback_access sample_hashes ''n'' (Some ''a'') 20 sample_db_limited) = ''allowed''"
    by (simp add: sample_db_limited_def defs)
  have d: "distinct (map ns_session_id (native_playback_sessions sample_db))" "distinct (map ns_session_id (native_playback_sessions sample_db_limited))"
    by (simp_all add: sample_db_limited_def sample_defs)
  have u: "the (find_user sample_db 7) = sample_user" "the (find_user sample_db_limited 7) = sample_user"
    by (simp_all add: find_user_def sample_db_limited_def sample_db_def sample_user_def)
  have rows: "n \<in> set (native_playback_sessions sample_db) \<Longrightarrow> ns_user_id n = 7 \<and> ns_media_item_id n = 3"
    "n \<in> set (native_playback_sessions sample_db_limited) \<Longrightarrow> ns_user_id n = 7 \<and> ns_media_item_id n = 4" for n
    by (simp_all add: sample_db_limited_def sample_db_def)
  show "\<exists>v. fst (require_native_session sample_settings sample_hashes {3, 4} sample_ages ''n'' ''a'' False 20 sample_db) = Inr v"
    using inspection_agrees_with_access[OF d(1), of sample_hashes "''n''" "''a''" 20 sample_settings "{3, 4}" sample_ages False] a rows(1) u(1)
    by (auto simp: sample_age_check)
  show "fst (require_native_session sample_settings sample_hashes {3, 4} sample_ages ''n'' ''a'' False 20 sample_db_limited)
      = Inl (HTTPException 403 (age_denied_message 16))"
    using inspection_agrees_with_access[OF d(2), of sample_hashes "''n''" "''a''" 20 sample_settings "{3, 4}" sample_ages False] b rows(2) u(2)
    by (auto simp: sample_age_check)
qed

text \<open>The stream of a file of four bytes in chunks of one, checked every second; the session is over from the time 2 on,
  and each call takes half a second.\<close>

definition over_db :: auth_db where
  "over_db = sample_db\<lparr>native_playback_sessions := []\<rparr>"

theorem revoked_stream_stops_witness:
  "\<exists>resp. build_stream_response id [[''m'', ''f''] \<mapsto> [1, 2, 3, 4 :: nat]] [[''m'']] [''m'', ''f''] None 9 (Some 1)
      (Some (validator_answer sample_settings sample_hashes ''n'' ''a'' 1 30 (\<lambda>k. real k / 2) (\<lambda>k. 20) (\<lambda>k. if k < 4 then sample_db else over_db))) = Inr resp
    \<and> (\<forall>c < length (sr_body resp). real (2 * c + 1) / 2 < 3)"
proof -
  let ?v = "validator_answer sample_settings sample_hashes ''n'' ''a'' 1 30 (\<lambda>k. real k / 2) (\<lambda>k. 20) (\<lambda>k. if k < 4 then sample_db else over_db)"
  have "parse_range_header None 4 = Inr (0, 3, False)" by (simp add: parse_range_header_def)
  then obtain resp where r: "build_stream_response id [[''m'', ''f''] \<mapsto> [1, 2, 3, 4 :: nat]] [[''m'']] [''m'', ''f''] None 9 (Some 1) (Some ?v) = Inr resp"
    by (simp add: build_stream_response_def ensure_media_path_within_root_def)
  have over: "native_over ''n'' (if j < 4 then sample_db else over_db)" if "2 \<le> real j / 2" for j
    using that by (auto simp: native_over_def over_db_def)
  have "real (2 * c + 1) / 2 < 3" if "c < length (sr_body resp)" for c
  proof -
    have "real (2 * c) / 2 < 2 + 1 \<and> real (2 * c + 1) / 2 < 2 + 1"
      by (rule revoked_stream_stops[OF r _ _ _ over that]) simp_all
    then show ?thesis by simp
  qed
  with r show ?thesis by blast
qed

end
