(* ===== verification/Login_Flow.thy ===== *)
theory Login_Flow
  imports Auth_Sessions
begin

text \<open>
  Signing in: \<^verbatim>\<open>src/backend/app/routes/auth.py\<close> with \<^verbatim>\<open>authenticate_user\<close> of \<^verbatim>\<open>auth.py\<close> and \<^verbatim>\<open>totp_service.py\<close>. A handler
  takes the clock (read once) and the random tokens as arguments and returns its answer with the tables after it; what
  it did not commit before raising is undone. Cryptography is the record \<open>crypto\<close> of functions: verifying a password
  (and the hash it is upgraded to), opening and sealing what is stored, the code of a secret for a window of 30 seconds,
  and the keyed hashes. The audit log, the scan of the library that a sign-in starts and the reconciliation of age
  credentials before a password is checked are left out; none of them touches the tables used here.
\<close>

section \<open>Second factors\<close>

record crypto =
  cr_verify :: "string \<Rightarrow> string \<Rightarrow> bool \<times> string option"
  cr_open :: "string \<Rightarrow> (string \<times> bool) option"
  cr_seal :: "string \<Rightarrow> string"
  cr_totp :: "string \<Rightarrow> int \<Rightarrow> string"
  cr_challenge_hash :: "string \<Rightarrow> string"
  cr_recovery_hash :: "string \<Rightarrow> string"
  cr_legacy_recovery_hash :: "string \<Rightarrow> string"
  cr_token_hash :: "string \<Rightarrow> string"

definition CHALLENGE_TOKEN_TTL_SECONDS :: real where "CHALLENGE_TOKEN_TTL_SECONDS = 300"
definition SKIP_GRACE_DAYS :: real where "SKIP_GRACE_DAYS = 30"

text \<open>\<^verbatim>\<open>str.isdigit\<close> on 8-bit characters: the digits and the superscripts one, two and three.\<close>

definition py_isdigit :: "char \<Rightarrow> bool" where
  "py_isdigit c = (is_py_digit c \<or> char_code c \<in> {178, 179, 185})"

text \<open>\<^verbatim>\<open>hmac.compare_digest\<close> on strings: only ASCII.\<close>

definition compare_digest :: "string \<Rightarrow> string \<Rightarrow> py_error + bool" where
  "compare_digest a b =
     (if \<exists>c \<in> set a \<union> set b. char_code c \<ge> 128
      then Inl (TypeError ''comparing strings with non-ASCII characters is not supported'') else Inr (a = b))"

fun matching_window :: "crypto \<Rightarrow> string \<Rightarrow> string \<Rightarrow> int option \<Rightarrow> int list \<Rightarrow> py_error + int option" where
  "matching_window cr secret code last_used [] = Inr None"
| "matching_window cr secret code last_used (w # ws) =
     (if (case last_used of None \<Rightarrow> False | Some l \<Rightarrow> w \<le> l) then matching_window cr secret code last_used ws
      else and_then (compare_digest (cr_totp cr secret w) code)
             (\<lambda>same. if same then Inr (Some w) else matching_window cr secret code last_used ws))"

definition verify_totp_code :: "crypto \<Rightarrow> string \<Rightarrow> string \<Rightarrow> int option \<Rightarrow> real \<Rightarrow> py_error + int option" where
  "verify_totp_code cr secret code last_used now =
     (if code = [] \<or> \<not> list_all py_isdigit code \<or> length code \<noteq> 6 then Inr None
      else let w = \<lfloor>now\<rfloor> div 30 in matching_window cr secret code last_used [w - 1, w, w + 1])"

definition normalize_recovery_input :: "string \<Rightarrow> string" where
  "normalize_recovery_input raw = py_lower (py_strip raw)"

definition hash_recovery_code :: "crypto \<Rightarrow> string \<Rightarrow> string" where
  "hash_recovery_code cr code = cr_recovery_hash cr (normalize_recovery_input code)"

definition recovery_code_hash_candidates :: "crypto \<Rightarrow> string \<Rightarrow> string list" where
  "recovery_code_hash_candidates cr code =
     (let n = normalize_recovery_input code in
      [hash_recovery_code cr n, cr_legacy_recovery_hash cr (normalize_recovery_input n)])"

text \<open>The row a recovery code uses up, if it is one of the user's that is not used yet.\<close>

definition consume_recovery_code :: "crypto \<Rightarrow> int \<Rightarrow> string \<Rightarrow> real \<Rightarrow> auth_db \<Rightarrow> int option \<times> auth_db" where
  "consume_recovery_code cr user_id code now db =
     (case List.find (\<lambda>r. rc_user_id r = user_id \<and> rc_code_hash r \<in> set (recovery_code_hash_candidates cr code) \<and> rc_used_at r = None)
             (user_recovery_codes db) of
        None \<Rightarrow> (None, db)
      | Some row \<Rightarrow>
          (Some (rc_id row),
           db\<lparr>user_recovery_codes := map (\<lambda>r. if rc_id r = rc_id row then r\<lparr>rc_used_at := Some now\<rparr> else r) (user_recovery_codes db)\<rparr>))"

definition insert_recovery_codes :: "crypto \<Rightarrow> int \<Rightarrow> string list \<Rightarrow> auth_db \<Rightarrow> py_error + auth_db" where
  "insert_recovery_codes cr user_id codes db =
     (let hashes = map (hash_recovery_code cr) codes in
      if \<not> distinct (hashes @ map rc_code_hash (user_recovery_codes db))
      then Inl (DatabaseError ''UNIQUE constraint failed: user_recovery_codes.code_hash'')
      else Inr (db\<lparr>user_recovery_codes := user_recovery_codes db @
              map (\<lambda>(k, h). \<lparr>rc_id = recovery_seq db + 1 + int k, rc_user_id = user_id, rc_code_hash = h, rc_used_at = None\<rparr>)
                (enumerate 0 hashes),
              recovery_seq := recovery_seq db + int (length codes)\<rparr>))"

definition update_user :: "int \<Rightarrow> (user_row \<Rightarrow> user_row) \<Rightarrow> auth_db \<Rightarrow> auth_db" where
  "update_user i f db = db\<lparr>users := map (\<lambda>u. if ur_id u = i then f u else u) (users db)\<rparr>"

definition user_by_id :: "auth_db \<Rightarrow> int \<Rightarrow> user_row option" where
  "user_by_id db i = List.find (\<lambda>u. ur_id u = i) (users db)"

definition clear_user_totp_for_reenrollment :: "int \<Rightarrow> auth_db \<Rightarrow> auth_db" where
  "clear_user_totp_for_reenrollment user_id db =
     (update_user user_id (\<lambda>u. u\<lparr>ur_totp_secret := None, ur_totp_enabled_at := None, ur_totp_last_used_window := None,
                                 ur_totp_setup_prompt_enabled := True\<rparr>) db)
       \<lparr>user_recovery_codes := filter (\<lambda>r. rc_user_id r \<noteq> user_id) (user_recovery_codes db)\<rparr>"

definition resolve_user_totp_secret :: "crypto \<Rightarrow> int \<Rightarrow> string option \<Rightarrow> auth_db \<Rightarrow> string option \<times> auth_db" where
  "resolve_user_totp_secret cr user_id stored db =
     (if \<not> truthy_string stored then (None, db)
      else case cr_open cr (the stored) of
             None \<Rightarrow> (None, clear_user_totp_for_reenrollment user_id db)
           | Some (secret, was_encrypted) \<Rightarrow>
               if secret = [] then (None, db)
               else (Some secret, if was_encrypted then db
                                  else update_user user_id (\<lambda>u. u\<lparr>ur_totp_secret := Some (cr_seal cr secret)\<rparr>) db))"

definition is_totp_setup_required_for_values :: "string option \<Rightarrow> real option \<Rightarrow> bool \<Rightarrow> real \<Rightarrow> bool" where
  "is_totp_setup_required_for_values totp_secret skipped_at prompt_enabled now =
     (if truthy_string totp_secret then False
      else if \<not> prompt_enabled then False
      else case skipped_at of None \<Rightarrow> True | Some t \<Rightarrow> now - t \<ge> SKIP_GRACE_DAYS * 86400)"

section \<open>The password\<close>

definition authenticate_user :: "crypto \<Rightarrow> string \<Rightarrow> string \<Rightarrow> auth_db \<Rightarrow> (string + user_row) \<times> auth_db" where
  "authenticate_user cr username password db =
     (case List.find (\<lambda>u. ur_username u = username) (users db) of
        None \<Rightarrow> (Inl ''user_not_found'', db)
      | Some u \<Rightarrow>
          if \<not> ur_enabled u then (Inl ''disabled'', db)
          else
            let (ok, new_hash) = cr_verify cr password (ur_password_hash u) in
            if \<not> ok then (Inl ''invalid_credentials'', db)
            else (Inr u, case new_hash of None \<Rightarrow> db | Some h \<Rightarrow> update_user (ur_id u) (\<lambda>v. v\<lparr>ur_password_hash := h\<rparr>) db))"

definition create_challenge :: "crypto \<Rightarrow> int \<Rightarrow> string \<Rightarrow> real \<Rightarrow> auth_db \<Rightarrow> py_error + auth_db" where
  "create_challenge cr user_id token now db =
     (let kept = filter (\<lambda>c. \<not> ch_expires_at_unix c \<le> now) (login_challenges db); h = cr_challenge_hash cr token in
      if h \<in> set (map ch_token_hash kept) then Inl (DatabaseError ''UNIQUE constraint failed: login_challenges.challenge_token_hash'')
      else Inr (db\<lparr>login_challenges :=
        kept @ [\<lparr>ch_token_hash = h, ch_user_id = user_id, ch_expires_at_unix = now + CHALLENGE_TOKEN_TTL_SECONDS\<rparr>]\<rparr>))"

definition delete_challenge :: "string \<Rightarrow> auth_db \<Rightarrow> auth_db" where
  "delete_challenge h db = db\<lparr>login_challenges := filter (\<lambda>c. ch_token_hash c \<noteq> h) (login_challenges db)\<rparr>"

text \<open>What a handler that lets the user in answers: the challenge for the second factor, or a session, opened with the
  password alone, with the code of a window, or with a recovery code.\<close>

datatype second_factor = NoFactor | CodeOfWindow int | RecoveryRow int

datatype login_answer = PendingTotp string | SignedIn int string second_factor bool

record login_config =
  lc_crypto :: crypto
  lc_settings :: auth_settings
  lc_ip_limiter :: rate_limiter
  lc_username_limiter :: rate_limiter
  lc_locked :: bool
  lc_lock_message :: string

text \<open>The answer to a failed password, after the failure is registered for the name and for the address.\<close>

definition failed_login_error :: "string \<Rightarrow> int \<Rightarrow> int \<Rightarrow> py_error" where
  "failed_login_error reason user_lockout ip_lockout =
     (if reason = ''disabled'' then
        (if user_lockout \<noteq> 0 \<or> ip_lockout \<noteq> 0 then HTTPException 429 ''Too many login attempts. Try again in 600 seconds.''
         else HTTPException 403 ''This account has been disabled'')
      else if max user_lockout ip_lockout \<noteq> 0
      then HTTPException 429 (''Too many login attempts. Try again in '' @ show_int (max user_lockout ip_lockout) @ '' seconds.'')
      else HTTPException 401 ''Invalid username or password'')"

definition sign_in :: "login_config \<Rightarrow> int \<Rightarrow> string \<Rightarrow> second_factor \<Rightarrow> bool \<Rightarrow> real \<Rightarrow> auth_db \<Rightarrow> (py_error + login_answer) \<times> auth_db" where
  "sign_in lc user_id session_token how setup_required now db =
     (case create_session (lc_settings lc) (cr_token_hash (lc_crypto lc)) session_token user_id now db of
        Inl e \<Rightarrow> (Inl e, db)
      | Inr db' \<Rightarrow> (Inr (SignedIn user_id session_token how setup_required), db'))"

text \<open>What follows a right password.\<close>

definition login_with_password :: "login_config \<Rightarrow> user_row \<Rightarrow> string \<Rightarrow> string \<Rightarrow> real \<Rightarrow> auth_db \<Rightarrow> (py_error + login_answer) \<times> auth_db" where
  "login_with_password lc user challenge_token session_token now db =
     (case raise_if_exposure_maintenance_locked (lc_locked lc) (lc_lock_message lc) (ur_role user) of
        Inl e \<Rightarrow> (Inl e, db)
      | Inr _ \<Rightarrow>
          let stored = (case user_by_id db (ur_id user) of None \<Rightarrow> None | Some u \<Rightarrow> ur_totp_secret u);
              (secret, db) = resolve_user_totp_secret (lc_crypto lc) (ur_id user) stored db in
          if secret \<noteq> None then
            (case create_challenge (lc_crypto lc) (ur_id user) challenge_token now db of
               Inl e \<Rightarrow> (Inl e, db)
             | Inr db' \<Rightarrow> (Inr (PendingTotp challenge_token), db'))
          else
            let setup_required = (case user_by_id db (ur_id user) of None \<Rightarrow> False
                  | Some u \<Rightarrow> is_totp_setup_required_for_values (ur_totp_secret u) (ur_totp_setup_skipped_at u) (ur_totp_setup_prompt_enabled u) now) in
            sign_in lc (ur_id user) session_token NoFactor setup_required now db)"

definition login ::
  "login_config \<Rightarrow> string \<Rightarrow> string \<Rightarrow> string \<Rightarrow> string \<Rightarrow> string \<Rightarrow> real \<Rightarrow> auth_db \<Rightarrow> (py_error + login_answer) \<times> auth_db" where
  "login lc username password ip challenge_token session_token now db =
     (let name = py_strip username;
          (ip_retry, db) = check_limit (lc_ip_limiter lc) ip now db in
      if ip_retry \<noteq> 0
      then (Inl (HTTPException 429 (''Too many login attempts from this IP. Try again in '' @ show_int ip_retry @ '' seconds.'')), db)
      else
        let (name_retry, db) = check_limit (lc_username_limiter lc) name now db in
        if name_retry \<noteq> 0
        then (Inl (HTTPException 429 (''Too many login attempts for this username. Try again in '' @ show_int name_retry @ '' seconds.'')), db)
        else
          (case authenticate_user (lc_crypto lc) name password db of
             (Inl reason, db) \<Rightarrow>
               let (user_lockout, db) = register_failure (lc_username_limiter lc) name now db;
                   (ip_lockout, db) = register_failure (lc_ip_limiter lc) ip now db in
               (Inl (failed_login_error reason user_lockout ip_lockout), db)
           | (Inr user, db) \<Rightarrow>
               login_with_password lc user challenge_token session_token now
                 (clear_limit (lc_username_limiter lc) name (clear_limit (lc_ip_limiter lc) ip db))))"

section \<open>The second factor\<close>

text \<open>Once the challenge is found, not expired and not limited.\<close>

definition login_totp_with_challenge ::
  "login_config \<Rightarrow> challenge_row \<Rightarrow> user_row \<Rightarrow> string \<Rightarrow> string \<Rightarrow> string \<Rightarrow> real \<Rightarrow> auth_db \<Rightarrow> (py_error + login_answer) \<times> auth_db" where
  "login_totp_with_challenge lc ch user code ip session_token now db =
     (if \<not> ur_enabled user then (Inl (HTTPException 403 ''This account has been disabled''), db)
      else if \<not> truthy_string (ur_totp_secret user) then (Inl (HTTPException 500 ''totp_not_enabled''), db)
      else
        let cr = lc_crypto lc; h = ch_token_hash ch;
            (secret, db1) = resolve_user_totp_secret cr (ur_id user) (ur_totp_secret user) db in
        (case secret of
           None \<Rightarrow> (Inl (HTTPException 401 ''totp_setup_required''), delete_challenge h db1)
         | Some s \<Rightarrow>
             (case verify_totp_code cr s (py_strip code) (ur_totp_last_used_window user) now of
                Inl e \<Rightarrow> (Inl e, db)
              | Inr window \<Rightarrow>
                  let (recovery, db2) = (if window = None then consume_recovery_code cr (ur_id user) code now db1 else (None, db1)) in
                  if window = None \<and> recovery = None then
                    (if db1 \<noteq> db then (Inl (DatabaseError ''database is locked''), db)
                     else
                       let (l1, db) = register_failure (lc_username_limiter lc) (ur_username user) now db;
                           (l2, db) = register_failure (lc_ip_limiter lc) ip now db in
                       (Inl (HTTPException 401 ''invalid_totp_code''), db))
                  else
                    let db3 = (case window of None \<Rightarrow> db2
                               | Some w \<Rightarrow> update_user (ur_id user) (\<lambda>u. u\<lparr>ur_totp_last_used_window := Some w\<rparr>) db2);
                        db4 = delete_challenge h db3 in
                    (case raise_if_exposure_maintenance_locked (lc_locked lc) (lc_lock_message lc) (ur_role user) of
                       Inl e \<Rightarrow> (Inl e, db4)
                     | Inr _ \<Rightarrow>
                         sign_in lc (ur_id user) session_token
                           (case window of Some w \<Rightarrow> CodeOfWindow w | None \<Rightarrow> RecoveryRow (the recovery)) False now
                           (clear_limit (lc_username_limiter lc) (ur_username user) (clear_limit (lc_ip_limiter lc) ip db4))))))"

definition login_totp ::
  "login_config \<Rightarrow> string \<Rightarrow> string \<Rightarrow> string \<Rightarrow> string \<Rightarrow> real \<Rightarrow> auth_db \<Rightarrow> (py_error + login_answer) \<times> auth_db" where
  "login_totp lc challenge_token code ip session_token now db =
     (let h = cr_challenge_hash (lc_crypto lc) challenge_token in
      case List.find (\<lambda>c. ch_token_hash c = h \<and> user_by_id db (ch_user_id c) \<noteq> None) (login_challenges db) of
        None \<Rightarrow> (Inl (HTTPException 401 ''invalid_or_expired''), db)
      | Some ch \<Rightarrow>
          if ch_expires_at_unix ch \<le> now then (Inl (HTTPException 401 ''invalid_or_expired''), delete_challenge h db)
          else
            let user = the (user_by_id db (ch_user_id ch));
                (ip_retry, db) = check_limit (lc_ip_limiter lc) ip now db;
                (name_retry, db) = check_limit (lc_username_limiter lc) (ur_username user) now db in
            if ip_retry \<noteq> 0 \<or> name_retry \<noteq> 0 then (Inl (HTTPException 429 ''Too many login attempts.''), db)
            else login_totp_with_challenge lc ch user code ip session_token now db)"

section \<open>Managing the second factor\<close>

definition TOTP_SETUP_SECONDS :: real where "TOTP_SETUP_SECONDS = 600"

text \<open>\<open>fresh\<close> is the secret from the random generator.\<close>

definition start_totp_setup :: "crypto \<Rightarrow> int \<Rightarrow> string \<Rightarrow> real \<Rightarrow> auth_db \<Rightarrow> (py_error + string) \<times> auth_db" where
  "start_totp_setup cr user_id fresh now db =
     (let stored = (case user_by_id db user_id of None \<Rightarrow> None | Some u \<Rightarrow> ur_totp_secret u);
          (existing, db) = resolve_user_totp_secret cr user_id stored db in
      if existing \<noteq> None then (Inl (HTTPException 409 ''already_enabled''), db)
      else
        (Inr fresh, db\<lparr>totp_pending_secrets :=
           filter (\<lambda>(i, s, t). i \<noteq> user_id) (filter (\<lambda>(i, s, t). \<not> t < now - TOTP_SETUP_SECONDS) (totp_pending_secrets db))
             @ [(user_id, cr_seal cr fresh, now)]\<rparr>))"

definition drop_pending :: "int \<Rightarrow> auth_db \<Rightarrow> auth_db" where
  "drop_pending user_id db = db\<lparr>totp_pending_secrets := filter (\<lambda>(i, s, t). i \<noteq> user_id) (totp_pending_secrets db)\<rparr>"

definition resolve_pending_totp_secret :: "crypto \<Rightarrow> int \<Rightarrow> string \<Rightarrow> auth_db \<Rightarrow> string option \<times> auth_db" where
  "resolve_pending_totp_secret cr user_id stored db =
     (if stored = [] then (None, db)
      else case cr_open cr stored of
             None \<Rightarrow> (None, drop_pending user_id db)
           | Some (secret, was_encrypted) \<Rightarrow>
               (if secret = [] then None else Some secret,
                if secret \<noteq> [] \<and> \<not> was_encrypted
                then db\<lparr>totp_pending_secrets := map (\<lambda>(i, s, t). if i = user_id then (i, cr_seal cr secret, t) else (i, s, t))
                       (totp_pending_secrets db)\<rparr>
                else db))"

text \<open>\<open>codes\<close> are the recovery codes from the random generator.\<close>

definition verify_totp_setup :: "crypto \<Rightarrow> int \<Rightarrow> string \<Rightarrow> string list \<Rightarrow> real \<Rightarrow> auth_db \<Rightarrow> (py_error + string list) \<times> auth_db" where
  "verify_totp_setup cr user_id code codes now db =
     (case List.find (\<lambda>(i, s, t). i = user_id) (totp_pending_secrets db) of
        None \<Rightarrow> (Inl (HTTPException 400 ''setup_expired''), db)
      | Some (i, stored, created_at) \<Rightarrow>
          if now - created_at > TOTP_SETUP_SECONDS then (Inl (HTTPException 400 ''setup_expired''), drop_pending user_id db)
          else
            let (secret, db1) = resolve_pending_totp_secret cr user_id stored db in
            (case secret of
               None \<Rightarrow> (Inl (HTTPException 400 ''setup_expired''), db1)
             | Some s \<Rightarrow>
                 (case verify_totp_code cr s (py_strip code) None now of
                    Inl e \<Rightarrow> (Inl e, db)
                  | Inr None \<Rightarrow> (Inl (HTTPException 400 ''invalid_code''), db)
                  | Inr (Some w) \<Rightarrow>
                      let db2 = update_user user_id (\<lambda>u. u\<lparr>ur_totp_secret := Some (cr_seal cr s), ur_totp_enabled_at := Some now,
                                   ur_totp_last_used_window := Some w, ur_totp_setup_skipped_at := None,
                                   ur_totp_setup_prompt_enabled := True\<rparr>) db1;
                          db3 = db2\<lparr>user_recovery_codes := filter (\<lambda>r. rc_user_id r \<noteq> user_id) (user_recovery_codes db2)\<rparr> in
                      (case insert_recovery_codes cr user_id codes db3 of
                         Inl e \<Rightarrow> (Inl e, db)
                       | Inr db4 \<Rightarrow> (Inr codes, drop_pending user_id db4)))))"

definition skip_totp_setup :: "int \<Rightarrow> real \<Rightarrow> auth_db \<Rightarrow> auth_db" where
  "skip_totp_setup user_id now db = update_user user_id (\<lambda>u. u\<lparr>ur_totp_setup_skipped_at := Some now\<rparr>) db"

definition totp_status :: "crypto \<Rightarrow> int \<Rightarrow> auth_db \<Rightarrow> (bool \<times> int) \<times> auth_db" where
  "totp_status cr user_id db =
     (let stored = (case user_by_id db user_id of None \<Rightarrow> None | Some u \<Rightarrow> ur_totp_secret u);
          (secret, db) = resolve_user_totp_secret cr user_id stored db in
      ((secret \<noteq> None, int (length (filter (\<lambda>r. rc_user_id r = user_id \<and> rc_used_at r = None) (user_recovery_codes db)))), db))"

definition verify_user_password :: "crypto \<Rightarrow> int \<Rightarrow> string \<Rightarrow> auth_db \<Rightarrow> bool \<times> auth_db" where
  "verify_user_password cr user_id password db =
     (case user_by_id db user_id of
        None \<Rightarrow> (False, db)
      | Some u \<Rightarrow>
          let (ok, new_hash) = cr_verify cr password (ur_password_hash u) in
          (ok, case new_hash of
                 Some h \<Rightarrow> if ok then update_user user_id (\<lambda>v. v\<lparr>ur_password_hash := h\<rparr>) db else db
               | None \<Rightarrow> db))"

text \<open>What disabling the second factor and replacing the recovery codes have in common: the password, and the secret. The
  answer is the user, the secret and the tables with what is not committed yet.\<close>

definition reauthenticate ::
  "crypto \<Rightarrow> int \<Rightarrow> string \<Rightarrow> auth_db \<Rightarrow> (py_error \<times> auth_db) + (user_row \<times> string \<times> auth_db)" where
  "reauthenticate cr user_id password db =
     (case user_by_id db user_id of
        None \<Rightarrow> Inl (HTTPException 409 ''not_enabled'', db)
      | Some u \<Rightarrow>
          if \<not> truthy_string (ur_totp_secret u) then Inl (HTTPException 409 ''not_enabled'', db)
          else
            let (ok, db1) = verify_user_password cr user_id password db in
            if \<not> ok then Inl (HTTPException 401 ''invalid_password'', db)
            else
              let (secret, db2) = resolve_user_totp_secret cr user_id (ur_totp_secret u) db1 in
              (case secret of None \<Rightarrow> Inl (HTTPException 409 ''totp_setup_required'', db2) | Some s \<Rightarrow> Inr (u, s, db2)))"

definition disable_totp :: "crypto \<Rightarrow> int \<Rightarrow> string \<Rightarrow> string \<Rightarrow> real \<Rightarrow> auth_db \<Rightarrow> (py_error + unit) \<times> auth_db" where
  "disable_totp cr user_id password code now db =
     (case reauthenticate cr user_id password db of
        Inl (e, db') \<Rightarrow> (Inl e, db')
      | Inr (u, s, db1) \<Rightarrow>
          (case verify_totp_code cr s (py_strip code) (ur_totp_last_used_window u) now of
             Inl e \<Rightarrow> (Inl e, db)
           | Inr window \<Rightarrow>
               if window = None \<and> fst (consume_recovery_code cr user_id code now db1) = None
               then (Inl (HTTPException 401 ''invalid_totp_code''), db)
               else
                 (Inr (), (update_user user_id (\<lambda>v. v\<lparr>ur_totp_secret := None, ur_totp_enabled_at := None,
                             ur_totp_last_used_window := None, ur_totp_setup_skipped_at := Some now,
                             ur_totp_setup_prompt_enabled := False\<rparr>) db1)
                    \<lparr>user_recovery_codes := filter (\<lambda>r. rc_user_id r \<noteq> user_id) (user_recovery_codes db1)\<rparr>)))"

definition regenerate_recovery_codes ::
  "crypto \<Rightarrow> int \<Rightarrow> string \<Rightarrow> string \<Rightarrow> string list \<Rightarrow> real \<Rightarrow> auth_db \<Rightarrow> (py_error + string list) \<times> auth_db" where
  "regenerate_recovery_codes cr user_id password code codes now db =
     (case reauthenticate cr user_id password db of
        Inl (e, db') \<Rightarrow> (Inl e, db')
      | Inr (u, s, db1) \<Rightarrow>
          (case verify_totp_code cr s (py_strip code) (ur_totp_last_used_window u) now of
             Inl e \<Rightarrow> (Inl e, db)
           | Inr None \<Rightarrow> (Inl (HTTPException 401 ''invalid_totp_code''), db)
           | Inr (Some w) \<Rightarrow>
               (case insert_recovery_codes cr user_id codes
                       (db1\<lparr>user_recovery_codes := filter (\<lambda>r. rc_user_id r \<noteq> user_id) (user_recovery_codes db1)\<rparr>) of
                  Inl e \<Rightarrow> (Inl e, db)
                | Inr db2 \<Rightarrow> (Inr codes, update_user user_id (\<lambda>v. v\<lparr>ur_totp_last_used_window := Some w\<rparr>) db2))))"

section \<open>What each part leaves alone\<close>

text \<open>The part of the tables the second factors live in.\<close>

definition factors :: "auth_db \<Rightarrow> user_row list \<times> (int \<times> string \<times> real) list \<times> recovery_row list \<times> int" where
  "factors db = (users db, totp_pending_secrets db, user_recovery_codes db, recovery_seq db)"

lemma factors_limiter:
  "factors (snd (check_limit rl k now db)) = factors db"
  "factors (snd (register_failure rl k now db)) = factors db"
  "factors (clear_limit rl k db) = factors db"
  by (simp_all add: factors_def check_limit_def register_failure_def clear_limit_def Let_def split: option.splits prod.splits)

lemma factors_challenges:
  "factors (delete_challenge h db) = factors db"
  "create_challenge cr i tok now db = Inr db' \<Longrightarrow> factors db' = factors db"
  by (auto simp: factors_def delete_challenge_def create_challenge_def Let_def split: if_splits)

lemma factors_limiter_eq:
  "check_limit rl k now db = (w, db') \<Longrightarrow> factors db' = factors db"
  "register_failure rl k now db = (w, db') \<Longrightarrow> factors db' = factors db"
  using factors_limiter(1)[of rl k now db] factors_limiter(2)[of rl k now db] by simp_all

text \<open>What a step may do to the users, the pending secrets and the recovery codes; \<open>ok\<close> is what it keeps of each row.\<close>

definition users_step :: "(user_row \<Rightarrow> bool) \<Rightarrow> auth_db \<Rightarrow> auth_db \<Rightarrow> bool" where
  "users_step ok db db' \<longleftrightarrow>
     (distinct (map ur_id (users db)) \<longrightarrow> distinct (map ur_id (users db')))
   \<and> (\<forall>u' \<in> set (users db'). ok u' \<or> (\<exists>u \<in> set (users db). ur_id u = ur_id u' \<and> \<not> ok u))"

lemma users_step_same [simp]: "users db' = users db \<Longrightarrow> users_step ok db db'"
  unfolding users_step_def by auto

lemma users_step_trans: "users_step ok db db1 \<Longrightarrow> users_step ok db1 db2 \<Longrightarrow> users_step ok db db2"
  unfolding users_step_def by metis

lemma users_step_map:
  "users db' = map g (users db) \<Longrightarrow> (\<And>u. u \<in> set (users db) \<Longrightarrow> ur_id (g u) = ur_id u \<and> (ok u \<longrightarrow> ok (g u))) \<Longrightarrow> users_step ok db db'"
  unfolding users_step_def by (auto simp: o_def cong: map_cong)

lemma users_step_update:
  "(\<And>u. u \<in> set (users db) \<Longrightarrow> ur_id u = i \<Longrightarrow> ur_id (f u) = i \<and> (ok u \<longrightarrow> ok (f u))) \<Longrightarrow> users_step ok db (update_user i f db)"
  by (rule users_step_map[where g = "\<lambda>u. if ur_id u = i then f u else u"]) (auto simp: update_user_def)

lemma users_step_rows: "users_step ok db db' \<Longrightarrow> \<forall>u \<in> set (users db). ok u \<Longrightarrow> \<forall>u \<in> set (users db'). ok u"
  unfolding users_step_def by blast

lemma users_step_ids: "users_step ok db db' \<Longrightarrow> distinct (map ur_id (users db)) \<Longrightarrow> distinct (map ur_id (users db'))"
  by (simp add: users_step_def)

lemma user_by_id_iff:
  "distinct (map ur_id (users db)) \<Longrightarrow> user_by_id db i = Some u \<longleftrightarrow> u \<in> set (users db) \<and> ur_id u = i"
  unfolding user_by_id_def using find_unique[of ur_id "users db" "\<lambda>u. ur_id u = i" i u] by simp

section \<open>Each second factor works once\<close>

definition opens :: "crypto \<Rightarrow> string \<Rightarrow> string \<Rightarrow> bool" where
  "opens cr stored s \<longleftrightarrow> (\<exists>b. cr_open cr stored = Some (s, b))"

definition has_secret :: "crypto \<Rightarrow> user_row \<Rightarrow> string \<Rightarrow> bool" where
  "has_secret cr u s \<longleftrightarrow> (\<exists>st. ur_totp_secret u = Some st \<and> opens cr st s)"

text \<open>The window \<open>w\<close> of the secret \<open>s\<close> of a user is spent: while the user has this secret, no window up to \<open>w\<close> is taken,
  and it does not wait for being set up again.\<close>

definition spent_row :: "crypto \<Rightarrow> int \<Rightarrow> string \<Rightarrow> int \<Rightarrow> user_row \<Rightarrow> bool" where
  "spent_row cr i s w u \<longleftrightarrow> (ur_id u = i \<and> has_secret cr u s \<longrightarrow> (\<exists>l. ur_totp_last_used_window u = Some l \<and> w \<le> l))"

definition not_pending :: "crypto \<Rightarrow> int \<Rightarrow> string \<Rightarrow> auth_db \<Rightarrow> bool" where
  "not_pending cr i s db \<longleftrightarrow> (\<forall>(j, st, t) \<in> set (totp_pending_secrets db). j = i \<longrightarrow> \<not> opens cr st s)"

definition used_up :: "int \<Rightarrow> auth_db \<Rightarrow> bool" where
  "used_up r db \<longleftrightarrow> r \<le> recovery_seq db \<and> (\<forall>c \<in> set (user_recovery_codes db). rc_id c = r \<longrightarrow> rc_used_at c \<noteq> None)"

definition codes_wf :: "auth_db \<Rightarrow> bool" where
  "codes_wf db \<longleftrightarrow> (\<forall>c \<in> set (user_recovery_codes db). rc_id c \<le> recovery_seq db)"

text \<open>A step of the server as these see it.\<close>

definition factor_step :: "crypto \<Rightarrow> int \<Rightarrow> string \<Rightarrow> int \<Rightarrow> auth_db \<Rightarrow> auth_db \<Rightarrow> bool" where
  "factor_step cr i s w db db' \<longleftrightarrow>
     users_step (spent_row cr i s w) db db'
   \<and> (not_pending cr i s db \<longrightarrow> not_pending cr i s db')
   \<and> (\<forall>r. used_up r db \<longrightarrow> used_up r db') \<and> (codes_wf db \<longrightarrow> codes_wf db')"

lemma factor_step_trans: "factor_step cr i s w db db1 \<Longrightarrow> factor_step cr i s w db1 db2 \<Longrightarrow> factor_step cr i s w db db2"
  unfolding factor_step_def using users_step_trans by blast

lemma factor_step_same: "factors db' = factors db \<Longrightarrow> factor_step cr i s w db db'"
  by (simp add: factor_step_def factors_def not_pending_def used_up_def codes_wf_def)

lemma factor_step_refl [simp]: "factor_step cr i s w db db" by (rule factor_step_same) simp

lemma factor_step_users:
  "users_step (spent_row cr i s w) db db' \<Longrightarrow> totp_pending_secrets db' = totp_pending_secrets db
   \<Longrightarrow> user_recovery_codes db' = user_recovery_codes db \<Longrightarrow> recovery_seq db' = recovery_seq db \<Longrightarrow> factor_step cr i s w db db'"
  by (simp add: factor_step_def not_pending_def used_up_def codes_wf_def)

lemma update_user_other [simp]:
  "totp_pending_secrets (update_user i f db) = totp_pending_secrets db" "user_recovery_codes (update_user i f db) = user_recovery_codes db"
  "recovery_seq (update_user i f db) = recovery_seq db" "login_challenges (update_user i f db) = login_challenges db"
  "sessions (update_user i f db) = sessions db" "session_seq (update_user i f db) = session_seq db"
  "login_failures (update_user i f db) = login_failures db" "login_lockouts (update_user i f db) = login_lockouts db"
  by (simp_all add: update_user_def)

lemma factor_step_update:
  "(\<And>u. u \<in> set (users db) \<Longrightarrow> ur_id u = j \<Longrightarrow> ur_id (f u) = j \<and> (spent_row cr i s w u \<longrightarrow> spent_row cr i s w (f u)))
   \<Longrightarrow> factor_step cr i s w db (update_user j f db)"
  by (intro factor_step_users users_step_update) simp_all

lemma factor_step_drop_codes:
  "factor_step cr i s w db (db\<lparr>user_recovery_codes := filter P (user_recovery_codes db)\<rparr>)"
  by (auto simp: factor_step_def not_pending_def used_up_def codes_wf_def)

lemma factor_step_drop_pending: "factor_step cr i s w db (drop_pending j db)"
  by (auto simp: factor_step_def not_pending_def used_up_def codes_wf_def drop_pending_def)

lemma clear_reenrollment_step: "factor_step cr i s w db (clear_user_totp_for_reenrollment j db)"
proof -
  let ?f = "\<lambda>u. u\<lparr>ur_totp_secret := None, ur_totp_enabled_at := None, ur_totp_last_used_window := None, ur_totp_setup_prompt_enabled := True\<rparr>"
  have "factor_step cr i s w db (update_user j ?f db)"
    by (rule factor_step_update) (simp add: spent_row_def has_secret_def)
  from factor_step_trans[OF this factor_step_drop_codes]
  show ?thesis unfolding clear_user_totp_for_reenrollment_def by simp
qed

text \<open>What is sealed opens again; the hypothesis of the theorems on \<open>crypto\<close>.\<close>

definition seals :: "crypto \<Rightarrow> bool" where
  "seals cr \<longleftrightarrow> (\<forall>x. cr_open cr (cr_seal cr x) = Some (x, True))"

lemma seals_opens: "seals cr \<Longrightarrow> opens cr (cr_seal cr x) y \<longleftrightarrow> x = y"
  by (auto simp: seals_def opens_def)

lemma resolve_secret_step:
  assumes "seals cr" and "distinct (map ur_id (users db))" and "user_by_id db j = Some u"
    and "resolve_user_totp_secret cr j (ur_totp_secret u) db = (r, db')"
  shows "factor_step cr i s w db db'" and "r = Some x \<Longrightarrow> has_secret cr u x \<and> x \<noteq> []"
proof -
  have one: "v = u" if "v \<in> set (users db)" "ur_id v = j" for v
    using that assms(3) user_by_id_iff[OF assms(2)] by (metis option.inject)
  have upd: "factor_step cr i s w db (update_user j (\<lambda>v. v\<lparr>ur_totp_secret := Some (cr_seal cr y)\<rparr>) db)"
    if "has_secret cr u y" for y
  proof (rule factor_step_update)
    fix v assume "v \<in> set (users db)" "ur_id v = j"
    then have v: "v = u" "ur_id u = j" using one by blast+
    have "opens cr (cr_seal cr y) s \<longleftrightarrow> y = s" by (rule seals_opens[OF assms(1)])
    then show "ur_id (v\<lparr>ur_totp_secret := Some (cr_seal cr y)\<rparr>) = j
        \<and> (spent_row cr i s w v \<longrightarrow> spent_row cr i s w (v\<lparr>ur_totp_secret := Some (cr_seal cr y)\<rparr>))"
      unfolding v(1) using v(2) that by (auto simp: spent_row_def has_secret_def)
  qed
  show "factor_step cr i s w db db'"
    using assms(4) upd clear_reenrollment_step
    by (auto simp: resolve_user_totp_secret_def has_secret_def opens_def truthy_string_def split: if_splits option.splits)
  show "r = Some x \<Longrightarrow> has_secret cr u x \<and> x \<noteq> []"
    using assms(4) by (auto simp: resolve_user_totp_secret_def has_secret_def opens_def truthy_string_def split: if_splits option.splits)
qed

lemma matching_windowD:
  "matching_window cr secret code lu ws = Inr (Some w) \<Longrightarrow> w \<in> set ws \<and> (\<forall>l. lu = Some l \<longrightarrow> l < w) \<and> cr_totp cr secret w = code"
  by (induction ws) (auto simp: and_then_Inr_iff compare_digest_def split: if_splits option.splits)

lemma verify_totp_codeD:
  assumes "verify_totp_code cr secret code lu now = Inr (Some w)"
  shows "\<bar>w - \<lfloor>now\<rfloor> div 30\<bar> \<le> 1 \<and> (\<forall>l. lu = Some l \<longrightarrow> l < w) \<and> cr_totp cr secret w = code \<and> length code = 6"
proof -
  let ?n = "\<lfloor>now\<rfloor> div 30"
  have "matching_window cr secret code lu [?n - 1, ?n, ?n + 1] = Inr (Some w)" and "length code = 6"
    using assms by (simp_all only: verify_totp_code_def Let_def split: if_splits) simp_all
  with matching_windowD[OF this(1)] show ?thesis by auto
qed

lemma find_SomeD: "List.find P xs = Some x \<Longrightarrow> x \<in> set xs \<and> P x"
  by (induction xs) (auto split: if_splits)

lemma consume_cases:
  assumes "consume_recovery_code cr j code now db = (r, db')"
  obtains (none) "r = None" and "db' = db"
    | (row) c where "c \<in> set (user_recovery_codes db)" and "rc_user_id c = j" and "rc_used_at c = None"
        and "rc_code_hash c \<in> set (recovery_code_hash_candidates cr code)" and "r = Some (rc_id c)"
        and "db' = db\<lparr>user_recovery_codes := map (\<lambda>r. if rc_id r = rc_id c then r\<lparr>rc_used_at := Some now\<rparr> else r) (user_recovery_codes db)\<rparr>"
proof (cases "List.find (\<lambda>r. rc_user_id r = j \<and> rc_code_hash r \<in> set (recovery_code_hash_candidates cr code) \<and> rc_used_at r = None)
    (user_recovery_codes db)")
  case None
  then show ?thesis using assms by (intro none) (simp_all add: consume_recovery_code_def)
next
  case (Some c)
  with find_SomeD[OF Some] show ?thesis using assms by (intro row[of c]) (simp_all add: consume_recovery_code_def)
qed

lemma consume_step:
  assumes "consume_recovery_code cr j code now db = (r, db')"
  shows "factor_step cr' i s w db db'" and "r = Some k \<Longrightarrow> codes_wf db \<Longrightarrow> used_up k db'"
    and "users db' = users db" and "login_challenges db' = login_challenges db" and "sessions db' = sessions db"
proof -
  show "factor_step cr' i s w db db'"
    using assms
  proof (cases rule: consume_cases)
    case (row c)
    have "codes_wf db'" if "codes_wf db" using that unfolding row(6) codes_wf_def by auto
    moreover have "used_up q db'" if "used_up q db" for q using that unfolding row(6) used_up_def by auto
    ultimately show ?thesis unfolding factor_step_def by (simp add: row(6) not_pending_def)
  qed simp
  show "r = Some k \<Longrightarrow> codes_wf db \<Longrightarrow> used_up k db'"
    using assms by (cases rule: consume_cases) (auto simp: used_up_def codes_wf_def)
  show "users db' = users db" "login_challenges db' = login_challenges db" "sessions db' = sessions db"
    using assms by (auto elim: consume_cases)
qed

lemma insert_codes_step:
  assumes "insert_recovery_codes cr j codes db = Inr db'"
  shows "factor_step cr' i s w db db'" and "users db' = users db" and "totp_pending_secrets db' = totp_pending_secrets db"
proof -
  have "used_up r db \<longrightarrow> used_up r db'" "codes_wf db \<longrightarrow> codes_wf db'" for r
    using assms
    by (fastforce simp: insert_recovery_codes_def used_up_def codes_wf_def Let_def in_set_enumerate_eq split: if_splits)+
  moreover show "users db' = users db" "totp_pending_secrets db' = totp_pending_secrets db"
    using assms by (auto simp: insert_recovery_codes_def Let_def split: if_splits)
  ultimately show "factor_step cr' i s w db db'" by (simp add: factor_step_def not_pending_def)
qed

lemma create_session_step:
  assumes "create_session settings hash tok uid now db = Inr db'"
  shows "factor_step cr i s w db db'"
proof -
  have u: "users db' = map (\<lambda>u. if ur_id u = uid then u\<lparr>ur_last_login_at := Some now\<rparr> else u) (users db)"
    and rest: "totp_pending_secrets db' = totp_pending_secrets db" "user_recovery_codes db' = user_recovery_codes db" "recovery_seq db' = recovery_seq db"
    using assms
    by (auto simp: create_session_def cleanup_expired_sessions_def delete_session_rows_def Let_def split: if_splits)
  have "users_step (spent_row cr i s w) db db'"
    by (rule users_step_map[OF u]) (auto simp: spent_row_def has_secret_def)
  then show ?thesis using rest by (rule factor_step_users)
qed

lemma sign_in_step:
  assumes "sign_in lc j tok how sr now db = (r, db')"
  shows "factor_step cr i s w db db'"
  using assms create_session_step by (auto simp: sign_in_def split: sum.splits)

lemma authenticate_step:
  assumes "authenticate_user cr' name password db = (r, db')"
  shows "factor_step cr i s w db db'"
proof -
  have "factor_step cr i s w db (update_user j (\<lambda>v. v\<lparr>ur_password_hash := h\<rparr>) db)" for j h
    by (rule factor_step_update) (auto simp: spent_row_def has_secret_def)
  then show ?thesis using assms by (auto simp: authenticate_user_def split: option.splits if_splits prod.splits)
qed

lemma resolve_or_none_step:
  assumes "seals cr" and "distinct (map ur_id (users db))"
    and "resolve_user_totp_secret cr j (case user_by_id db j of None \<Rightarrow> None | Some u \<Rightarrow> ur_totp_secret u) db = (r, db')"
  shows "factor_step cr i s w db db'"
  using assms resolve_secret_step(1)[OF assms(1,2)]
  by (cases "user_by_id db j") (auto simp: resolve_user_totp_secret_def)

lemma login_with_password_step:
  assumes "seals (lc_crypto lc)" and "distinct (map ur_id (users db))" and "login_with_password lc u ct st now db = (r, db')"
  shows "factor_step (lc_crypto lc) i s w db db'"
proof -
  let ?stored = "case user_by_id db (ur_id u) of None \<Rightarrow> None | Some u \<Rightarrow> ur_totp_secret u"
  obtain secret db1 where res: "resolve_user_totp_secret (lc_crypto lc) (ur_id u) ?stored db = (secret, db1)" by fastforce
  have "factor_step (lc_crypto lc) i s w db db1" by (rule resolve_or_none_step[OF assms(1,2) res])
  moreover have "db' = db \<or> db' = db1 \<or> factor_step (lc_crypto lc) i s w db1 db'"
    using assms(3) factor_step_same[OF factors_challenges(2)] sign_in_step
    by (fastforce simp: login_with_password_def Let_def res split: sum.splits if_splits prod.splits)
  ultimately show ?thesis using factor_step_trans by auto
qed

lemma login_step:
  assumes "seals (lc_crypto lc)" and "distinct (map ur_id (users db))" and "login lc name pw ip ct st now db = (r, db')"
  shows "factor_step (lc_crypto lc) i s w db db'"
proof -
  let ?name = "py_strip name"
  obtain w1 db1 where c1: "check_limit (lc_ip_limiter lc) ip now db = (w1, db1)" by fastforce
  obtain w2 db2 where c2: "check_limit (lc_username_limiter lc) ?name now db1 = (w2, db2)" by fastforce
  obtain a db3 where a: "authenticate_user (lc_crypto lc) ?name pw db2 = (a, db3)" by fastforce
  have s1: "factor_step (lc_crypto lc) i s w db db1" and s2: "factor_step (lc_crypto lc) i s w db1 db2" and s3: "factor_step (lc_crypto lc) i s w db2 db3"
    using factor_step_same[OF factors_limiter_eq(1)[OF c1]] factor_step_same[OF factors_limiter_eq(1)[OF c2]] authenticate_step[OF a] by blast+
  note s12 = factor_step_trans[OF s1 s2] note s123 = factor_step_trans[OF s12 s3]
  consider "db' = db1" | "db' = db2"
    | l1 l2 db4 where "w1 = 0" "w2 = 0" "register_failure (lc_username_limiter lc) ?name now db3 = (l1, db4)" "register_failure (lc_ip_limiter lc) ip now db4 = (l2, db')"
    | u where "a = Inr u" "login_with_password lc u ct st now (clear_limit (lc_username_limiter lc) ?name (clear_limit (lc_ip_limiter lc) ip db3)) = (r, db')"
    using assms(3) by (auto simp: login_def Let_def c1 c2 a split: if_splits sum.splits prod.splits)
  then show ?thesis
  proof cases
    case 3
    have "factors db' = factors db3" using factors_limiter_eq(2)[OF 3(3)] factors_limiter_eq(2)[OF 3(4)] by simp
    then show ?thesis by (intro factor_step_trans[OF s123 factor_step_same])
  next
    case 4
    let ?db = "clear_limit (lc_username_limiter lc) ?name (clear_limit (lc_ip_limiter lc) ip db3)"
    have f: "factors ?db = factors db3" by (simp add: factors_limiter)
    have "distinct (map ur_id (users db3))"
      using users_step_ids s123 assms(2) unfolding factor_step_def by metis
    then have "distinct (map ur_id (users ?db))" using f by (simp add: factors_def)
    show ?thesis
      by (rule factor_step_trans[OF s123 factor_step_trans[OF factor_step_same[OF f] login_with_password_step[OF assms(1) _ 4(2)]]]) fact
  qed (use s1 s12 in simp_all)
qed

text \<open>How a second factor is accepted: the secret, what is found, and the tables once it is marked as used.\<close>

definition marked :: "login_config \<Rightarrow> challenge_row \<Rightarrow> user_row \<Rightarrow> int option \<Rightarrow> auth_db \<Rightarrow> auth_db" where
  "marked lc ch user window db =
     delete_challenge (ch_token_hash ch)
       (case window of None \<Rightarrow> db | Some w \<Rightarrow> update_user (ur_id user) (\<lambda>u. u\<lparr>ur_totp_last_used_window := Some w\<rparr>) db)"

definition how_of :: "int option \<Rightarrow> int option \<Rightarrow> second_factor" where
  "how_of window recovery = (case window of Some w \<Rightarrow> CodeOfWindow w | None \<Rightarrow> RecoveryRow (the recovery))"

lemma challenge_cases:
  assumes "login_totp_with_challenge lc ch user code ip st now db = (r, db')"
  obtains (refused) "\<exists>e. r = Inl e" and "db' = db \<or> factors db' = factors db"
    | (no_secret) db1 where "\<exists>e. r = Inl e" and "resolve_user_totp_secret (lc_crypto lc) (ur_id user) (ur_totp_secret user) db = (None, db1)"
        and "db' = delete_challenge (ch_token_hash ch) db1"
    | (accepted) s db1 window recovery db2 where "ur_enabled user"
        and "resolve_user_totp_secret (lc_crypto lc) (ur_id user) (ur_totp_secret user) db = (Some s, db1)"
        and "verify_totp_code (lc_crypto lc) s (py_strip code) (ur_totp_last_used_window user) now = Inr window"
        and "(if window = None then consume_recovery_code (lc_crypto lc) (ur_id user) code now db1 else (None, db1)) = (recovery, db2)"
        and "window \<noteq> None \<or> recovery \<noteq> None"
        and "(\<exists>e. r = Inl e) \<and> db' = marked lc ch user window db2
           \<or> raise_if_exposure_maintenance_locked (lc_locked lc) (lc_lock_message lc) (ur_role user) = Inr ()
             \<and> sign_in lc (ur_id user) st (how_of window recovery) False now
               (clear_limit (lc_username_limiter lc) (ur_username user) (clear_limit (lc_ip_limiter lc) ip (marked lc ch user window db2))) = (r, db')"
proof (cases "ur_enabled user \<and> truthy_string (ur_totp_secret user)")
  case False
  then show ?thesis using assms by (intro refused) (auto simp: login_totp_with_challenge_def split: if_splits)
next
  case True
  obtain secret db1 where res: "resolve_user_totp_secret (lc_crypto lc) (ur_id user) (ur_totp_secret user) db = (secret, db1)" by fastforce
  show ?thesis
  proof (cases secret)
    case None
    then show ?thesis using assms True res by (intro no_secret[of db1]) (auto simp: login_totp_with_challenge_def Let_def)
  next
    case (Some s)
    show ?thesis
    proof (cases "verify_totp_code (lc_crypto lc) s (py_strip code) (ur_totp_last_used_window user) now")
      case (Inl e)
      then show ?thesis using assms True res Some by (intro refused) (auto simp: login_totp_with_challenge_def Let_def)
    next
      case (Inr window)
      obtain recovery db2 where rec: "(if window = None then consume_recovery_code (lc_crypto lc) (ur_id user) code now db1 else (None, db1)) = (recovery, db2)"
        by fastforce
      have unfolded: "login_totp_with_challenge lc ch user code ip st now db =
          (if window = None \<and> recovery = None then
             (if db1 \<noteq> db then (Inl (DatabaseError ''database is locked''), db)
              else let (l1, db) = register_failure (lc_username_limiter lc) (ur_username user) now db;
                       (l2, db) = register_failure (lc_ip_limiter lc) ip now db in (Inl (HTTPException 401 ''invalid_totp_code''), db))
           else case raise_if_exposure_maintenance_locked (lc_locked lc) (lc_lock_message lc) (ur_role user) of
                  Inl e \<Rightarrow> (Inl e, marked lc ch user window db2)
                | Inr _ \<Rightarrow> sign_in lc (ur_id user) st (how_of window recovery) False now
                    (clear_limit (lc_username_limiter lc) (ur_username user) (clear_limit (lc_ip_limiter lc) ip (marked lc ch user window db2))))"
        using True unfolding marked_def how_of_def by (simp add: login_totp_with_challenge_def res Some Inr rec Let_def del: if_split)
      show ?thesis
      proof (cases "window = None \<and> recovery = None")
        case True
        then show ?thesis
          using assms factors_limiter_eq(2) unfolding unfolded by (intro refused) (auto simp: Let_def split: if_splits prod.splits)
      next
        case False
        then show ?thesis
          using assms True res Some Inr rec unfolding unfolded
          by (intro accepted[of s db1 window recovery db2]) (auto split: sum.splits)
      qed
    qed
  qed
qed

lemma resolve_rows:
  assumes "seals cr" and "distinct (map ur_id (users db))" and "user_by_id db j = Some u"
    and "resolve_user_totp_secret cr j (ur_totp_secret u) db = (Some x, db')" and "v \<in> set (users db')" and "ur_id v = j"
  shows "ur_totp_last_used_window v = ur_totp_last_used_window u \<and> has_secret cr v x"
proof -
  have one: "y = u" if "y \<in> set (users db)" "ur_id y = j" for y
    using that assms(3) user_by_id_iff[OF assms(2)] by (metis option.inject)
  have seal: "opens cr (cr_seal cr x) x" using seals_opens[OF assms(1)] by blast
  have secret: "has_secret cr u x" by (rule resolve_secret_step(2)[OF assms(1-4) refl, THEN conjunct1])
  have "db' = db \<or> db' = update_user j (\<lambda>v. v\<lparr>ur_totp_secret := Some (cr_seal cr x)\<rparr>) db"
    using assms(4) by (auto simp: resolve_user_totp_secret_def split: if_splits option.splits)
  then show ?thesis
  proof
    assume "db' = db"
    then show ?thesis using one assms(5,6) secret by blast
  next
    assume "db' = update_user j (\<lambda>v. v\<lparr>ur_totp_secret := Some (cr_seal cr x)\<rparr>) db"
    then obtain y where "y \<in> set (users db)" "v = (if ur_id y = j then y\<lparr>ur_totp_secret := Some (cr_seal cr x)\<rparr> else y)"
      using assms(5) by (auto simp: update_user_def)
    moreover from this have "y = u" using one assms(6) by (auto split: if_splits)
    ultimately show ?thesis using assms(6) seal by (auto simp: has_secret_def split: if_splits)
  qed
qed

lemma marked_step:
  assumes "\<And>w' v. window = Some w' \<Longrightarrow> v \<in> set (users db) \<Longrightarrow> ur_id v = ur_id user \<Longrightarrow> \<forall>l. ur_totp_last_used_window v = Some l \<longrightarrow> l < w'"
  shows "factor_step cr i s w db (marked lc ch user window db)"
proof (cases window)
  case None
  then show ?thesis by (simp add: marked_def factor_step_same factors_challenges)
next
  case (Some w')
  have "factor_step cr i s w db (update_user (ur_id user) (\<lambda>u. u\<lparr>ur_totp_last_used_window := Some w'\<rparr>) db)"
  proof (rule factor_step_update)
    fix v assume v: "v \<in> set (users db)" "ur_id v = ur_id user"
    then show "ur_id (v\<lparr>ur_totp_last_used_window := Some w'\<rparr>) = ur_id user
        \<and> (spent_row cr i s w v \<longrightarrow> spent_row cr i s w (v\<lparr>ur_totp_last_used_window := Some w'\<rparr>))"
      using assms[OF Some v] by (force simp: spent_row_def has_secret_def)
  qed
  then show ?thesis unfolding marked_def Some option.case
    using factor_step_trans factor_step_same[OF factors_challenges(1)] by blast
qed

lemma marked_spent: "u \<in> set (users (marked lc ch user (Some w) db)) \<Longrightarrow> spent_row cr (ur_id user) s w u"
  by (auto simp: marked_def update_user_def delete_challenge_def spent_row_def)

lemma marked_used: "used_up k db \<Longrightarrow> used_up k (marked lc ch user window db)"
  by (auto simp: marked_def update_user_def delete_challenge_def used_up_def split: option.splits)

lemma resolve_some_codes:
  "resolve_user_totp_secret cr j stored db = (Some x, db') \<Longrightarrow> user_recovery_codes db' = user_recovery_codes db \<and> recovery_seq db' = recovery_seq db"
  by (auto simp: resolve_user_totp_secret_def split: if_splits option.splits)

lemma sign_in_Inr: "sign_in lc j st how b now db = (Inr a, db') \<Longrightarrow> a = SignedIn j st how b"
  by (auto simp: sign_in_def split: sum.splits)

lemma factor_step_rows: "factor_step cr i s w db db' \<Longrightarrow> \<forall>u \<in> set (users db). spent_row cr i s w u \<Longrightarrow> \<forall>u \<in> set (users db'). spent_row cr i s w u"
  unfolding factor_step_def using users_step_rows by blast

text \<open>The second factor of a user is accepted: a code of the user's secret for a window after the last one used, which is then
  spent, or a recovery code that was not used, and is then.\<close>

definition factor_accepted :: "crypto \<Rightarrow> user_row \<Rightarrow> string \<Rightarrow> real \<Rightarrow> auth_db \<Rightarrow> auth_db \<Rightarrow> second_factor \<Rightarrow> bool" where
  "factor_accepted cr user code now db db' how \<longleftrightarrow>
     (\<exists>x. has_secret cr user x
      \<and> (case how of NoFactor \<Rightarrow> False
         | CodeOfWindow w \<Rightarrow> verify_totp_code cr x (py_strip code) (ur_totp_last_used_window user) now = Inr (Some w)
             \<and> (\<forall>u \<in> set (users db'). spent_row cr (ur_id user) x w u)
         | RecoveryRow k \<Rightarrow> (\<exists>c \<in> set (user_recovery_codes db). rc_id c = k \<and> rc_user_id c = ur_id user \<and> rc_used_at c = None)
             \<and> (codes_wf db \<longrightarrow> used_up k db')))"

lemma with_challenge_step:
  assumes "seals (lc_crypto lc)" and "distinct (map ur_id (users db))" and "user_by_id db (ur_id user) = Some user"
    and "login_totp_with_challenge lc ch user code ip st now db = (r, db')"
  shows "factor_step (lc_crypto lc) i s w db db'"
    and "r = Inr (SignedIn j tok how b) \<Longrightarrow> j = ur_id user \<and> tok = st \<and> ur_enabled user
      \<and> raise_if_exposure_maintenance_locked (lc_locked lc) (lc_lock_message lc) (ur_role user) = Inr ()
      \<and> factor_accepted (lc_crypto lc) user code now db db' how"
    and "r \<noteq> Inr (PendingTotp tok)"
proof -
  let ?cr = "lc_crypto lc"
  have "factor_step ?cr i s w db db' \<and> r \<noteq> Inr (PendingTotp tok) \<and> (r = Inr (SignedIn j tok how b) \<longrightarrow> j = ur_id user \<and> tok = st \<and> ur_enabled user
      \<and> raise_if_exposure_maintenance_locked (lc_locked lc) (lc_lock_message lc) (ur_role user) = Inr ()
      \<and> factor_accepted ?cr user code now db db' how)"
    using assms(4)
  proof (cases rule: challenge_cases)
    case refused
    then show ?thesis using factor_step_same by auto
  next
    case (no_secret db1)
    have "factor_step ?cr i s w db db1" by (rule resolve_secret_step(1)[OF assms(1-3) no_secret(2)])
    then show ?thesis using no_secret(1,3) factor_step_trans factor_step_same[OF factors_challenges(1)] by blast
  next
    case (accepted x db1 window recovery db2)
    have s1: "factor_step ?cr i' s' w' db db1" for i' s' w' by (rule resolve_secret_step(1)[OF assms(1-3) accepted(2)])
    have s2: "factor_step ?cr i' s' w' db1 db2 \<and> users db2 = users db1" for i' s' w'
      using accepted(4) consume_step(1,3) by (auto split: if_splits)
    have s3: "factor_step ?cr i' s' w' db2 (marked lc ch user window db2)" for i' s' w'
    proof (rule marked_step)
      fix w1 v
      assume "window = Some w1" "v \<in> set (users db2)" "ur_id v = ur_id user"
      then show "\<forall>l. ur_totp_last_used_window v = Some l \<longrightarrow> l < w1"
        using resolve_rows[OF assms(1-3) accepted(2)] verify_totp_codeD accepted(3) s2 by metis
    qed
    have s4: "factor_step ?cr i' s' w' (marked lc ch user window db2) db'" for i' s' w'
      using accepted(6) sign_in_step[of lc] factor_step_trans[OF factor_step_same[of "clear_limit _ _ (clear_limit _ _ _)"]]
      by (metis factor_step_refl factors_limiter(3))
    have all: "factor_step ?cr i' s' w' db db'" for i' s' w'
      using factor_step_trans[OF s1 factor_step_trans[OF _ factor_step_trans[OF s3 s4]]] s2 by blast
    have secret: "has_secret ?cr user x" using resolve_secret_step(2)[OF assms(1-3) accepted(2)] by blast
    show ?thesis
    proof (intro conjI impI)
      show "factor_step ?cr i s w db db'" by (rule all)
      show "r \<noteq> Inr (PendingTotp tok)" using accepted(6) sign_in_Inr by fastforce
      assume r: "r = Inr (SignedIn j tok how b)"
      then have e: "j = ur_id user" "tok = st" "how = how_of window recovery" using accepted(6) sign_in_Inr by fastforce+
      show "j = ur_id user" "tok = st" "ur_enabled user" by (fact e accepted(1))+
      show "raise_if_exposure_maintenance_locked (lc_locked lc) (lc_lock_message lc) (ur_role user) = Inr ()" using accepted(6) r by auto
      show "factor_accepted ?cr user code now db db' how"
        unfolding factor_accepted_def
      proof (intro exI[of _ x] conjI secret)
        show "case how of NoFactor \<Rightarrow> False
           | CodeOfWindow w' \<Rightarrow> verify_totp_code ?cr x (py_strip code) (ur_totp_last_used_window user) now = Inr (Some w')
               \<and> (\<forall>u \<in> set (users db'). spent_row ?cr (ur_id user) x w' u)
           | RecoveryRow k \<Rightarrow> (\<exists>c \<in> set (user_recovery_codes db). rc_id c = k \<and> rc_user_id c = ur_id user \<and> rc_used_at c = None) \<and> (codes_wf db \<longrightarrow> used_up k db')"
        proof (cases window)
          case (Some w1)
          have "\<forall>u \<in> set (users db'). spent_row ?cr (ur_id user) x w1 u"
            using factor_step_rows[OF s4] marked_spent Some e(1) by blast
          then show ?thesis using e(3) Some accepted(3) by (simp add: how_of_def)
        next
          case None
          then obtain k where k: "recovery = Some k" "consume_recovery_code ?cr (ur_id user) code now db1 = (Some k, db2)"
            using accepted(4,5) by auto
          note codes = resolve_some_codes[OF accepted(2)]
          have "\<exists>c \<in> set (user_recovery_codes db). rc_id c = k \<and> rc_user_id c = ur_id user \<and> rc_used_at c = None"
            using k(2) codes e(1) by (cases rule: consume_cases) auto
          moreover have "used_up k db'" if "codes_wf db"
          proof -
            have "codes_wf db1" using that codes by (simp add: codes_wf_def)
            from marked_used[OF consume_step(2)[OF k(2) refl this]] show ?thesis using s4 unfolding factor_step_def by blast
          qed
          ultimately show ?thesis using e(3) None k(1) by (simp add: how_of_def)
        qed
      qed
    qed
  qed
  then show "factor_step ?cr i s w db db'"
    and "r \<noteq> Inr (PendingTotp tok)"
    and "r = Inr (SignedIn j tok how b) \<Longrightarrow> j = ur_id user \<and> tok = st \<and> ur_enabled user
      \<and> raise_if_exposure_maintenance_locked (lc_locked lc) (lc_lock_message lc) (ur_role user) = Inr ()
      \<and> factor_accepted ?cr user code now db db' how"
    by blast+
qed

end
