(* ===== verification/Second_Factor.thy ===== *)
theory Second_Factor
  imports Login_Flow
begin

text \<open>
  What the handlers of \<^verbatim>\<open>Login_Flow\<close> guarantee together: nobody is let in without the password and, where the user has
  one, the second factor; and each second factor is accepted once, over every sequence of requests.
\<close>

section \<open>Who is let in\<close>

definition not_limited :: "rate_limiter \<Rightarrow> string \<Rightarrow> real \<Rightarrow> 'a limiter_db_scheme \<Rightarrow> bool" where
  "not_limited rl key now db \<longleftrightarrow> (\<forall>u. locked_until (bucket_of rl key) db = Some u \<longrightarrow> u \<le> now)"

lemma check_limit_zero: "check_limit rl key now db = (0, db') \<Longrightarrow> not_limited rl key now db"
  unfolding not_limited_def using check_limit_bucket(3) by blast

lemma not_limited_before:
  assumes "check_limit rl key now db = (0, db')" and "not_limited rl' key' now db'"
  shows "not_limited rl' key' now db"
  using assms check_limit_zero[OF assms(1)] check_limit_bucket(2)[OF assms(1), of "bucket_of rl' key'"]
  by (auto simp: not_limited_def split: if_splits)

lemma factor_step_ids: "factor_step cr i s w db db' \<Longrightarrow> distinct (map ur_id (users db)) \<Longrightarrow> distinct (map ur_id (users db'))"
  unfolding factor_step_def using users_step_ids by blast

lemma user_by_idD: "user_by_id db j = Some u \<Longrightarrow> ur_id u = j \<and> u \<in> set (users db)"
  unfolding user_by_id_def by (auto dest: find_SomeD)

lemma user_by_id_users: "users db' = users db \<Longrightarrow> user_by_id db' j = user_by_id db j"
  by (simp add: user_by_id_def)

lemma login_totp_cases:
  assumes "login_totp lc ct code ip st now db = (r, db')"
  obtains (refused) e where "r = Inl e" and "factors db' = factors db"
    | (challenge) ch user db2 where "ch \<in> set (login_challenges db)" and "ch_token_hash ch = cr_challenge_hash (lc_crypto lc) ct"
        and "now < ch_expires_at_unix ch" and "user_by_id db (ur_id user) = Some user" and "ch_user_id ch = ur_id user"
        and "factors db2 = factors db" and "not_limited (lc_ip_limiter lc) ip now db"
        and "not_limited (lc_username_limiter lc) (ur_username user) now db"
        and "login_totp_with_challenge lc ch user code ip st now db2 = (r, db')"
proof (cases "List.find (\<lambda>c. ch_token_hash c = cr_challenge_hash (lc_crypto lc) ct \<and> user_by_id db (ch_user_id c) \<noteq> None) (login_challenges db)")
  case None
  then show ?thesis using assms by (intro refused) (auto simp: login_totp_def)
next
  case (Some ch)
  from find_SomeD[OF Some] obtain user where ch: "ch \<in> set (login_challenges db)" "ch_token_hash ch = cr_challenge_hash (lc_crypto lc) ct"
    and user: "user_by_id db (ch_user_id ch) = Some user" by blast
  have id: "ch_user_id ch = ur_id user" using user_by_idD[OF user] by simp
  obtain w1 db1 where c1: "check_limit (lc_ip_limiter lc) ip now db = (w1, db1)" by fastforce
  obtain w2 db2 where c2: "check_limit (lc_username_limiter lc) (ur_username user) now db1 = (w2, db2)" by fastforce
  have found: "login_totp lc ct code ip st now db =
      (if ch_expires_at_unix ch \<le> now
       then (Inl (HTTPException 401 ''invalid_or_expired''), delete_challenge (cr_challenge_hash (lc_crypto lc) ct) db)
       else if w1 \<noteq> 0 \<or> w2 \<noteq> 0 then (Inl (HTTPException 429 ''Too many login attempts.''), db2)
       else login_totp_with_challenge lc ch user code ip st now db2)"
    unfolding login_totp_def Let_def Some option.case user option.sel c1 c2 prod.case by (rule refl)
  have f: "factors db2 = factors db" using factors_limiter_eq(1)[OF c1] factors_limiter_eq(1)[OF c2] by simp
  consider (expired) "ch_expires_at_unix ch \<le> now" | (limited) "now < ch_expires_at_unix ch" "w1 \<noteq> 0 \<or> w2 \<noteq> 0"
    | (go) "now < ch_expires_at_unix ch" "w1 = 0" "w2 = 0" by linarith
  then show ?thesis
  proof cases
    case expired
    then show ?thesis using assms by (intro refused) (auto simp: found factors_challenges)
  next
    case limited
    then show ?thesis using assms f by (intro refused) (auto simp: found)
  next
    case go
    have "login_totp lc ct code ip st now db = login_totp_with_challenge lc ch user code ip st now db2"
      using go by (simp add: found)
    then show ?thesis
      using challenge[OF ch go(1) _ id f] user id assms not_limited_before check_limit_zero c1 c2 go(2,3) by metis
  qed
qed

lemma factor_accepted_factors:
  "factors db2 = factors db \<Longrightarrow> factor_accepted cr user code now db2 db' how \<longleftrightarrow> factor_accepted cr user code now db db' how"
  unfolding factor_accepted_def factors_def codes_wf_def by (cases how) auto

lemma login_totp_step:
  assumes "seals (lc_crypto lc)" and "distinct (map ur_id (users db))" and "login_totp lc ct code ip st now db = (r, db')"
  shows "factor_step (lc_crypto lc) i s w db db'"
  using assms(3)
proof (cases rule: login_totp_cases)
  case (refused e)
  then show ?thesis using factor_step_same by blast
next
  case (challenge ch user db2)
  have u: "users db2 = users db" using challenge(6) by (simp add: factors_def)
  have "factor_step (lc_crypto lc) i s w db2 db'"
    by (rule with_challenge_step(1)[OF assms(1) _ _ challenge(9)]) (simp_all add: u assms(2) user_by_id_users[OF u] challenge(4))
  then show ?thesis by (rule factor_step_trans[OF factor_step_same[OF challenge(6)]])
qed

lemma login_totp_signs_in:
  assumes "seals (lc_crypto lc)" and "distinct (map ur_id (users db))" and "login_totp lc ct code ip st now db = (r, db')"
  shows "r \<noteq> Inr (PendingTotp tok)"
  using assms(3)
proof (cases rule: login_totp_cases)
  case (challenge ch user db2)
  have u: "users db2 = users db" using challenge(6) by (simp add: factors_def)
  show ?thesis
    by (rule with_challenge_step(3)[OF assms(1) _ _ challenge(9)]) (simp_all add: u assms(2) user_by_id_users[OF u] challenge(4))
qed simp

lemma login_totp_accepts:
  assumes "seals (lc_crypto lc)" and "distinct (map ur_id (users db))"
    and "login_totp lc ct code ip st now db = (Inr (SignedIn j tok how b), db')"
  obtains ch user where "ch \<in> set (login_challenges db)" and "ch_token_hash ch = cr_challenge_hash (lc_crypto lc) ct"
    and "ch_user_id ch = j" and "now < ch_expires_at_unix ch" and "user_by_id db j = Some user" and "tok = st" and "ur_enabled user"
    and "not_limited (lc_ip_limiter lc) ip now db" and "not_limited (lc_username_limiter lc) (ur_username user) now db"
    and "raise_if_exposure_maintenance_locked (lc_locked lc) (lc_lock_message lc) (ur_role user) = Inr ()"
    and "factor_accepted (lc_crypto lc) user code now db db' how"
  using assms(3)
proof (cases rule: login_totp_cases)
  case (challenge ch user db2)
  have u: "users db2 = users db" using challenge(6) by (simp add: factors_def)
  have "j = ur_id user \<and> tok = st \<and> ur_enabled user
      \<and> raise_if_exposure_maintenance_locked (lc_locked lc) (lc_lock_message lc) (ur_role user) = Inr ()
      \<and> factor_accepted (lc_crypto lc) user code now db2 db' how"
    by (rule with_challenge_step(2)[OF assms(1) _ _ challenge(9) refl]) (simp_all add: u assms(2) user_by_id_users[OF u] challenge(4))
  then show ?thesis using challenge that factor_accepted_factors[OF challenge(6)] by metis
qed simp

definition working_secret :: "crypto \<Rightarrow> user_row \<Rightarrow> bool" where
  "working_secret cr u \<longleftrightarrow> truthy_string (ur_totp_secret u) \<and> (\<exists>x. x \<noteq> [] \<and> has_secret cr u x)"

lemma resolve_working: "resolve_user_totp_secret cr j (ur_totp_secret u) db = (r, db') \<Longrightarrow> r \<noteq> None \<longleftrightarrow> working_secret cr u"
  by (auto simp: resolve_user_totp_secret_def working_secret_def has_secret_def opens_def truthy_string_def split: if_splits option.splits)

lemma login_cases:
  assumes "login lc name pw ip ct st now db = (Inr a, db')"
  obtains u db3 where "not_limited (lc_ip_limiter lc) ip now db" and "not_limited (lc_username_limiter lc) (py_strip name) now db"
    and "u \<in> set (users db)" and "ur_username u = py_strip name" and "ur_enabled u" and "fst (cr_verify (lc_crypto lc) pw (ur_password_hash u))"
    and "users db3 = users db \<or> (\<exists>h. users db3 = users (update_user (ur_id u) (\<lambda>v. v\<lparr>ur_password_hash := h\<rparr>) db))"
    and "login_with_password lc u ct st now db3 = (Inr a, db')"
proof -
  let ?name = "py_strip name"
  obtain w1 db1 where c1: "check_limit (lc_ip_limiter lc) ip now db = (w1, db1)" by fastforce
  obtain w2 db2 where c2: "check_limit (lc_username_limiter lc) ?name now db1 = (w2, db2)" by fastforce
  obtain r db3 where a: "authenticate_user (lc_crypto lc) ?name pw db2 = (r, db3)" by fastforce
  have users: "users db2 = users db" using factors_limiter_eq(1)[OF c1] factors_limiter_eq(1)[OF c2] by (simp add: factors_def)
  have ok: "w1 = 0" "w2 = 0" using assms by (auto simp: login_def Let_def c1 c2 split: if_splits)
  obtain u where r: "r = Inr u" and go: "login_with_password lc u ct st now
      (clear_limit (lc_username_limiter lc) ?name (clear_limit (lc_ip_limiter lc) ip db3)) = (Inr a, db')"
    using assms ok by (cases r) (auto simp: login_def Let_def c1 c2 a split: prod.splits)
  from a r have u: "u \<in> set (users db2)" "ur_username u = ?name" "ur_enabled u" "fst (cr_verify (lc_crypto lc) pw (ur_password_hash u))"
    by (auto simp: authenticate_user_def Let_def split: option.splits if_splits prod.splits dest: find_SomeD)
  have db3: "users db3 = users db2 \<or> (\<exists>h. users db3 = users (update_user (ur_id u) (\<lambda>v. v\<lparr>ur_password_hash := h\<rparr>) db2))"
    using a r by (auto simp: authenticate_user_def Let_def split: option.splits if_splits prod.splits)
  have "users (clear_limit (lc_username_limiter lc) ?name (clear_limit (lc_ip_limiter lc) ip db3)) = users db3"
    by (simp add: clear_limit_def Let_def)
  then show ?thesis
    using that[OF check_limit_zero not_limited_before[OF _ check_limit_zero] _ u(2-4) _ go] c1 c2 ok u(1) db3 users by (auto simp: update_user_def)
qed

text \<open>A password lets in a user with a working second factor only as far as the challenge.\<close>

definition after_password :: "login_config \<Rightarrow> user_row \<Rightarrow> string \<Rightarrow> string \<Rightarrow> real \<Rightarrow> login_answer \<Rightarrow> auth_db \<Rightarrow> bool" where
  "after_password lc u ct st now a db' \<longleftrightarrow>
     (if working_secret (lc_crypto lc) u
      then a = PendingTotp ct \<and> (\<exists>c \<in> set (login_challenges db'). ch_token_hash c = cr_challenge_hash (lc_crypto lc) ct \<and> ch_user_id c = ur_id u)
      else \<exists>b. a = SignedIn (ur_id u) st NoFactor b)"

lemma login_with_password_answer:
  assumes "login_with_password lc u ct st now db = (Inr a, db')" and "user_by_id db (ur_id u) = Some u'" and "ur_totp_secret u' = ur_totp_secret u"
  shows "raise_if_exposure_maintenance_locked (lc_locked lc) (lc_lock_message lc) (ur_role u) = Inr () \<and> after_password lc u ct st now a db'"
proof -
  obtain secret db1 where res: "resolve_user_totp_secret (lc_crypto lc) (ur_id u) (ur_totp_secret u) db = (secret, db1)" by fastforce
  have maint: "raise_if_exposure_maintenance_locked (lc_locked lc) (lc_lock_message lc) (ur_role u) = Inr ()"
    using assms(1) by (auto simp: login_with_password_def split: sum.splits)
  show ?thesis
  proof (cases "working_secret (lc_crypto lc) u")
    case True
    then have "secret \<noteq> None" using resolve_working[OF res] by simp
    then have "case create_challenge (lc_crypto lc) (ur_id u) ct now db1 of Inl e \<Rightarrow> False | Inr d \<Rightarrow> a = PendingTotp ct \<and> db' = d"
      using assms(1) by (auto simp: login_with_password_def maint assms(2,3) res split: sum.splits)
    then show ?thesis using True maint by (auto simp: after_password_def create_challenge_def Let_def split: sum.splits if_splits)
  next
    case False
    then have "secret = None" using resolve_working[OF res] by simp
    then have "\<exists>b d. sign_in lc (ur_id u) st NoFactor b now d = (Inr a, db')"
      using assms(1) by (auto simp: login_with_password_def Let_def maint assms(2,3) res)
    then show ?thesis using False maint sign_in_Inr by (fastforce simp: after_password_def)
  qed
qed

lemma login_lets_in:
  assumes "distinct (map ur_id (users db))" and "login lc name pw ip ct st now db = (Inr a, db')"
  shows "not_limited (lc_ip_limiter lc) ip now db \<and> not_limited (lc_username_limiter lc) (py_strip name) now db
    \<and> (\<exists>u \<in> set (users db). ur_username u = py_strip name \<and> ur_enabled u \<and> fst (cr_verify (lc_crypto lc) pw (ur_password_hash u))
        \<and> raise_if_exposure_maintenance_locked (lc_locked lc) (lc_lock_message lc) (ur_role u) = Inr () \<and> after_password lc u ct st now a db')"
  using assms(2)
proof (cases rule: login_cases)
  case (1 u db3)
  have ids: "distinct (map ur_id (users db3))"
    using 1(7) assms(1) by (auto simp: update_user_def o_def if_distrib cong: if_cong)
  have "\<exists>v \<in> set (users db3). ur_id v = ur_id u \<and> ur_totp_secret v = ur_totp_secret u"
    using 1(7)
  proof
    assume "\<exists>h. users db3 = users (update_user (ur_id u) (\<lambda>v. v\<lparr>ur_password_hash := h\<rparr>) db)"
    then obtain h where "users db3 = map (\<lambda>v. if ur_id v = ur_id u then v\<lparr>ur_password_hash := h\<rparr> else v) (users db)"
      by (auto simp: update_user_def)
    moreover have "(\<lambda>v. if ur_id v = ur_id u then v\<lparr>ur_password_hash := h\<rparr> else v) u
        \<in> (\<lambda>v. if ur_id v = ur_id u then v\<lparr>ur_password_hash := h\<rparr> else v) ` set (users db)" by (rule imageI[OF 1(3)])
    ultimately have "u\<lparr>ur_password_hash := h\<rparr> \<in> set (users db3)" by (simp only: set_map if_True refl simp_thms)
    then show ?thesis by (intro bexI[of _ "u\<lparr>ur_password_hash := h\<rparr>"]) simp_all
  next
    assume "users db3 = users db"
    then show ?thesis using 1(3) by (intro bexI[of _ u]) simp_all
  qed
  then obtain v where "user_by_id db3 (ur_id u) = Some v" "ur_totp_secret v = ur_totp_secret u"
    using user_by_id_iff[OF ids] by metis
  from login_with_password_answer[OF 1(8) this] show ?thesis using 1(1-6) by blast
qed

section \<open>The sign-in property\<close>

text \<open>C13: A password signs a user in only if neither the address nor the name is limited, the user exists, is enabled and has
  that password, and maintenance lets the role in; where the user has a working second factor, the answer is a challenge of
  that user and never a session. A challenge gives a session only to the user it was made for, before it expires, not
  limited, enabled, and with a second factor that was not used and is now.
\<close>

theorem sign_in_needs_factor:
  assumes "seals (lc_crypto lc)" and "distinct (map ur_id (users db))"
  shows "(login lc name pw ip ct st now db = (Inr a, db') \<longrightarrow>
        not_limited (lc_ip_limiter lc) ip now db \<and> not_limited (lc_username_limiter lc) (py_strip name) now db
      \<and> (\<exists>u \<in> set (users db). ur_username u = py_strip name \<and> ur_enabled u \<and> fst (cr_verify (lc_crypto lc) pw (ur_password_hash u))
          \<and> raise_if_exposure_maintenance_locked (lc_locked lc) (lc_lock_message lc) (ur_role u) = Inr () \<and> after_password lc u ct st now a db'))
    \<and> (login_totp lc ct code ip st now db = (Inr a, db') \<longrightarrow>
        (\<exists>ch \<in> set (login_challenges db). \<exists>user how b. a = SignedIn (ch_user_id ch) st how b \<and> user_by_id db (ch_user_id ch) = Some user
          \<and> ch_token_hash ch = cr_challenge_hash (lc_crypto lc) ct \<and> now < ch_expires_at_unix ch \<and> ur_enabled user
          \<and> not_limited (lc_ip_limiter lc) ip now db \<and> not_limited (lc_username_limiter lc) (ur_username user) now db
          \<and> raise_if_exposure_maintenance_locked (lc_locked lc) (lc_lock_message lc) (ur_role user) = Inr ()
          \<and> factor_accepted (lc_crypto lc) user code now db db' how))"
proof (intro conjI impI)
  assume totp: "login_totp lc ct code ip st now db = (Inr a, db')"
  obtain j tok how b where a: "a = SignedIn j tok how b"
    using login_totp_signs_in[OF assms totp] by (cases a) auto
  from login_totp_accepts[OF assms totp[unfolded a]] show "\<exists>ch \<in> set (login_challenges db). \<exists>user how b. a = SignedIn (ch_user_id ch) st how b
      \<and> user_by_id db (ch_user_id ch) = Some user
          \<and> ch_token_hash ch = cr_challenge_hash (lc_crypto lc) ct \<and> now < ch_expires_at_unix ch \<and> ur_enabled user
          \<and> not_limited (lc_ip_limiter lc) ip now db \<and> not_limited (lc_username_limiter lc) (ur_username user) now db
          \<and> raise_if_exposure_maintenance_locked (lc_locked lc) (lc_lock_message lc) (ur_role user) = Inr ()
          \<and> factor_accepted (lc_crypto lc) user code now db db' how"
    unfolding a by metis
qed (use login_lets_in[OF assms(2)] in blast)+

section \<open>The other handlers\<close>

lemma pending_cases:
  assumes "resolve_pending_totp_secret cr j stored db = (x, db')"
  shows "factor_step cr i s w db db' \<or> (\<exists>y. cr_open cr stored = Some (y, False) \<and> x = Some y \<and> y \<noteq> [] \<and>
      db' = db\<lparr>totp_pending_secrets := map (\<lambda>(i, s, t). if i = j then (i, cr_seal cr y, t) else (i, s, t)) (totp_pending_secrets db)\<rparr>)"
    and "x = Some y \<Longrightarrow> opens cr stored y"
proof -
  consider "stored = []" | "cr_open cr stored = None" "stored \<noteq> []" | z b where "cr_open cr stored = Some (z, b)" "stored \<noteq> []"
    by (metis not_None_eq surj_pair)
  note cases = this
  from cases show "factor_step cr i s w db db' \<or> (\<exists>y. cr_open cr stored = Some (y, False) \<and> x = Some y \<and> y \<noteq> [] \<and>
      db' = db\<lparr>totp_pending_secrets := map (\<lambda>(i, s, t). if i = j then (i, cr_seal cr y, t) else (i, s, t)) (totp_pending_secrets db)\<rparr>)"
  proof cases
    case (3 z b)
    then show ?thesis using assms by (cases "z \<noteq> [] \<and> \<not> b") (auto simp: resolve_pending_totp_secret_def)
  qed (use assms factor_step_drop_pending in \<open>auto simp: resolve_pending_totp_secret_def\<close>)
  from cases show "x = Some y \<Longrightarrow> opens cr stored y"
    by cases (use assms in \<open>auto simp: resolve_pending_totp_secret_def opens_def split: if_splits\<close>)
qed

text \<open>Setting up a second factor with a pending secret that is not \<open>s\<close> leaves the windows of \<open>s\<close> as they are.\<close>

lemma verify_setup_step:
  assumes "seals cr" and "not_pending cr i s db" and "verify_totp_setup cr j code codes now db = (r, db')"
  shows "factor_step cr i s w db db'"
proof (cases "List.find (\<lambda>(i, s, t). i = j) (totp_pending_secrets db)")
  case None
  then show ?thesis using assms(3) by (simp add: verify_totp_setup_def)
next
  case (Some row)
  obtain j' stored created where row: "row = (j', stored, created)" by (cases row)
  have mem: "(j, stored, created) \<in> set (totp_pending_secrets db)" using find_SomeD[OF Some] row by auto
  obtain x db1 where res: "resolve_pending_totp_secret cr j stored db = (x, db1)" by fastforce
  have new: "\<not> opens cr (cr_seal cr y) s" if "opens cr stored y" "j = i" for y
    using that mem assms(2) seals_opens[OF assms(1)] by (auto simp: not_pending_def)
  have s1: "factor_step cr i s w db db1"
    using pending_cases(1)[OF res, of i s w]
  proof (elim disjE exE conjE)
    fix y assume y: "cr_open cr stored = Some (y, False)"
      and db1: "db1 = db\<lparr>totp_pending_secrets := map (\<lambda>(i, s, t). if i = j then (i, cr_seal cr y, t) else (i, s, t)) (totp_pending_secrets db)\<rparr>"
    have "opens cr stored y" unfolding opens_def using y by (rule exI)
    then have "not_pending cr i s db1" using new assms(2) unfolding db1 not_pending_def by (auto split: if_splits)
    then show ?thesis by (simp add: db1 factor_step_def used_up_def codes_wf_def)
  qed
  show ?thesis
  proof (cases "db' = db \<or> db' = drop_pending j db \<or> db' = db1")
    case True
    then show ?thesis using s1 factor_step_drop_pending by auto
  next
    case False
    let ?f = "\<lambda>y w' u. u\<lparr>ur_totp_secret := Some (cr_seal cr y), ur_totp_enabled_at := Some now, ur_totp_last_used_window := Some w',
        ur_totp_setup_skipped_at := None, ur_totp_setup_prompt_enabled := True\<rparr>"
    obtain y w' db4 where y: "x = Some y" "verify_totp_code cr y (py_strip code) None now = Inr (Some w')"
      and ins: "insert_recovery_codes cr j codes ((update_user j (?f y w') db1)
          \<lparr>user_recovery_codes := filter (\<lambda>r. rc_user_id r \<noteq> j) (user_recovery_codes (update_user j (?f y w') db1))\<rparr>) = Inr db4"
      and db': "db' = drop_pending j db4"
      using assms(3) False by (auto simp: verify_totp_setup_def Some row res Let_def split: if_splits option.splits sum.splits)
    have "factor_step cr i s w db1 (update_user j (?f y w') db1)"
      by (rule factor_step_update) (use new pending_cases(2)[OF res y(1)] in \<open>auto simp: spent_row_def has_secret_def\<close>)
    from factor_step_trans[OF s1 factor_step_trans[OF this factor_step_trans[OF factor_step_drop_codes
        factor_step_trans[OF insert_codes_step(1)[OF ins] factor_step_drop_pending]]]]
    show ?thesis unfolding db' .
  qed
qed

lemma start_setup_step:
  assumes "seals cr" and "distinct (map ur_id (users db))" and "fresh \<noteq> s" and "start_totp_setup cr j fresh now db = (r, db')"
  shows "factor_step cr i s w db db'"
proof -
  obtain existing db1 where res: "resolve_user_totp_secret cr j (case user_by_id db j of None \<Rightarrow> None | Some u \<Rightarrow> ur_totp_secret u) db = (existing, db1)"
    by fastforce
  have s1: "factor_step cr i s w db db1" by (rule resolve_or_none_step[OF assms(1,2) res])
  have "db' = db1 \<or> db' = db1\<lparr>totp_pending_secrets :=
      filter (\<lambda>(i, s, t). i \<noteq> j) (filter (\<lambda>(i, s, t). \<not> t < now - TOTP_SETUP_SECONDS) (totp_pending_secrets db1)) @ [(j, cr_seal cr fresh, now)]\<rparr>"
    using assms(4) by (auto simp: start_totp_setup_def Let_def res split: if_splits)
  then show ?thesis
  proof
    assume db': "db' = db1\<lparr>totp_pending_secrets :=
      filter (\<lambda>(i, s, t). i \<noteq> j) (filter (\<lambda>(i, s, t). \<not> t < now - TOTP_SETUP_SECONDS) (totp_pending_secrets db1)) @ [(j, cr_seal cr fresh, now)]\<rparr>"
    have "factor_step cr i s w db1 db'"
      using assms(3) seals_opens[OF assms(1), of fresh s] unfolding db'
      by (auto simp: factor_step_def not_pending_def used_up_def codes_wf_def)
    with s1 show ?thesis by (rule factor_step_trans)
  qed (simp add: s1)
qed

lemma skip_setup_step: "factor_step cr i s w db (skip_totp_setup j now db)"
  unfolding skip_totp_setup_def by (rule factor_step_update) (auto simp: spent_row_def has_secret_def)

lemma status_step:
  assumes "seals cr" and "distinct (map ur_id (users db))" and "totp_status cr j db = (r, db')"
  shows "factor_step cr i s w db db'"
  using assms(3) by (auto simp: totp_status_def Let_def split: prod.splits intro: resolve_or_none_step[OF assms(1,2)])

lemma verify_password_step:
  assumes "verify_user_password cr j password db = (ok, db')"
  shows "factor_step cr i s w db db'" and "map ur_totp_secret (users db') = map ur_totp_secret (users db)"
    and "map ur_totp_last_used_window (users db') = map ur_totp_last_used_window (users db)" and "map ur_id (users db') = map ur_id (users db)"
proof -
  have pw: "factor_step cr i s w db (update_user j (\<lambda>v. v\<lparr>ur_password_hash := h\<rparr>) db)" for h
    by (rule factor_step_update) (auto simp: spent_row_def has_secret_def)
  show "factor_step cr i s w db db'"
    using assms pw by (auto simp: verify_user_password_def Let_def split: option.splits prod.splits if_splits)
  show "map ur_totp_secret (users db') = map ur_totp_secret (users db)"
    and "map ur_totp_last_used_window (users db') = map ur_totp_last_used_window (users db)" and "map ur_id (users db') = map ur_id (users db)"
    using assms by (auto simp: verify_user_password_def update_user_def Let_def split: option.splits prod.splits if_splits)
qed

lemma list_find_map: "List.find P (map g xs) = map_option g (List.find (P \<circ> g) xs)"
  by (induction xs) auto

lemma reauthenticate_step:
  assumes "seals cr" and "distinct (map ur_id (users db))"
  shows "reauthenticate cr j password db = Inl (e, db') \<Longrightarrow> factor_step cr i s w db db'"
    and "reauthenticate cr j password db = Inr (u, x, db') \<Longrightarrow> factor_step cr i s w db db' \<and> has_secret cr u x
      \<and> user_by_id db j = Some u \<and> (\<forall>v \<in> set (users db'). ur_id v = j \<longrightarrow> ur_totp_last_used_window v = ur_totp_last_used_window u \<and> has_secret cr v x)"
proof -
  obtain ok db1 where pw: "verify_user_password cr j password db = (ok, db1)" by fastforce
  have ids: "distinct (map ur_id (users db1))" using verify_password_step(4)[OF pw] assms(2) by simp
  have row: "\<exists>v. user_by_id db1 j = Some v \<and> ur_totp_secret v = ur_totp_secret u \<and> ur_totp_last_used_window v = ur_totp_last_used_window u"
    if u: "user_by_id db j = Some u" for u
  proof -
    have "users db1 = users db \<or> (\<exists>h. users db1 = map (\<lambda>v. if ur_id v = j then v\<lparr>ur_password_hash := h\<rparr> else v) (users db))"
      using pw by (auto simp: verify_user_password_def update_user_def Let_def split: option.splits prod.splits if_splits)
    then show ?thesis
    proof
      assume "\<exists>h. users db1 = map (\<lambda>v. if ur_id v = j then v\<lparr>ur_password_hash := h\<rparr> else v) (users db)"
      then obtain h where h: "users db1 = map (\<lambda>v. if ur_id v = j then v\<lparr>ur_password_hash := h\<rparr> else v) (users db)" by blast
      have "user_by_id db1 j = map_option (\<lambda>v. if ur_id v = j then v\<lparr>ur_password_hash := h\<rparr> else v) (user_by_id db j)"
        unfolding user_by_id_def h list_find_map by (simp add: o_def if_distrib cong: if_cong)
      then show ?thesis using u by simp
    qed (simp add: user_by_id_def u[unfolded user_by_id_def])
  qed
  have s1: "factor_step cr i s w db db1" by (rule verify_password_step(1)[OF pw])
  show "factor_step cr i s w db db'" if "reauthenticate cr j password db = Inl (e, db')"
  proof -
    from that consider "db' = db" | u where "user_by_id db j = Some u" "resolve_user_totp_secret cr j (ur_totp_secret u) db1 = (None, db')"
      by (auto simp: reauthenticate_def Let_def pw split: option.splits if_splits prod.splits)
    then show ?thesis
    proof cases
      case 2
      from row[OF 2(1)] obtain v where "user_by_id db1 j = Some v" "ur_totp_secret v = ur_totp_secret u" by blast
      with 2(2) resolve_secret_step(1)[OF assms(1) ids this(1)] factor_step_trans[OF s1] show ?thesis by metis
    qed simp
  qed
  show "factor_step cr i s w db db' \<and> has_secret cr u x
      \<and> user_by_id db j = Some u \<and> (\<forall>v \<in> set (users db'). ur_id v = j \<longrightarrow> ur_totp_last_used_window v = ur_totp_last_used_window u \<and> has_secret cr v x)"
    if "reauthenticate cr j password db = Inr (u, x, db')"
  proof -
    have u: "user_by_id db j = Some u" and res: "resolve_user_totp_secret cr j (ur_totp_secret u) db1 = (Some x, db')"
      using that by (auto simp: reauthenticate_def Let_def pw split: option.splits if_splits prod.splits)
    from row[OF u] obtain v where v: "user_by_id db1 j = Some v" "ur_totp_secret v = ur_totp_secret u"
      "ur_totp_last_used_window v = ur_totp_last_used_window u" by blast
    note res' = res[folded v(2)]
    have "factor_step cr i s w db1 db' \<and> has_secret cr v x" using resolve_secret_step[OF assms(1) ids v(1) res'] by blast
    then show ?thesis
      using factor_step_trans[OF s1] u v(2,3) resolve_rows[OF assms(1) ids v(1) res'] by (auto simp: has_secret_def)
  qed
qed

lemma disable_step:
  assumes "seals cr" and "distinct (map ur_id (users db))" and "disable_totp cr j password code now db = (r, db')"
  shows "factor_step cr i s w db db'"
proof (cases "reauthenticate cr j password db")
  case (Inl e)
  then show ?thesis using assms(3) reauthenticate_step(1)[OF assms(1,2)] by (cases e) (simp add: disable_totp_def)
next
  case (Inr q)
  obtain u x db1 where q: "reauthenticate cr j password db = Inr (u, x, db1)" using Inr by (cases q) simp
  let ?f = "\<lambda>v. v\<lparr>ur_totp_secret := None, ur_totp_enabled_at := None, ur_totp_last_used_window := None,
      ur_totp_setup_skipped_at := Some now, ur_totp_setup_prompt_enabled := False\<rparr>"
  have s1: "factor_step cr i s w db db1" using reauthenticate_step(2)[OF assms(1,2) q] by blast
  have s2: "factor_step cr i s w db1 (update_user j ?f db1)"
    by (rule factor_step_update) (simp add: spent_row_def has_secret_def)
  have "db' = db \<or> db' = (update_user j ?f db1)\<lparr>user_recovery_codes := filter (\<lambda>r. rc_user_id r \<noteq> j) (user_recovery_codes (update_user j ?f db1))\<rparr>"
    using assms(3) by (auto simp: disable_totp_def q Let_def split: sum.splits if_splits)
  then show ?thesis using factor_step_trans[OF s1 factor_step_trans[OF s2 factor_step_drop_codes]] by auto
qed

lemma regenerate_step:
  assumes "seals cr" and "distinct (map ur_id (users db))" and "regenerate_recovery_codes cr j password code codes now db = (r, db')"
  shows "factor_step cr i s w db db'"
proof (cases "reauthenticate cr j password db")
  case (Inl e)
  then show ?thesis using assms(3) reauthenticate_step(1)[OF assms(1,2)] by (cases e) (simp add: regenerate_recovery_codes_def)
next
  case (Inr q)
  obtain u x db1 where q: "reauthenticate cr j password db = Inr (u, x, db1)" using Inr by (cases q) simp
  note re = reauthenticate_step(2)[OF assms(1,2) q]
  consider "db' = db" | w' db2 where "verify_totp_code cr x (py_strip code) (ur_totp_last_used_window u) now = Inr (Some w')"
      "insert_recovery_codes cr j codes (db1\<lparr>user_recovery_codes := filter (\<lambda>r. rc_user_id r \<noteq> j) (user_recovery_codes db1)\<rparr>) = Inr db2"
      "db' = update_user j (\<lambda>v. v\<lparr>ur_totp_last_used_window := Some w'\<rparr>) db2"
    using assms(3) by (auto simp: regenerate_recovery_codes_def q split: sum.splits option.splits)
  then show ?thesis
  proof cases
    case 2
    have u2: "users db2 = users db1" using insert_codes_step(2)[OF 2(2)] by simp
    have "factor_step cr i s w db2 (update_user j (\<lambda>v. v\<lparr>ur_totp_last_used_window := Some w'\<rparr>) db2)"
    proof (rule factor_step_update)
      fix v assume v: "v \<in> set (users db2)" "ur_id v = j"
      then have "\<forall>l. ur_totp_last_used_window v = Some l \<longrightarrow> l < w'" using re u2 verify_totp_codeD[OF 2(1)] by metis
      then show "ur_id (v\<lparr>ur_totp_last_used_window := Some w'\<rparr>) = j
          \<and> (spent_row cr i s w v \<longrightarrow> spent_row cr i s w (v\<lparr>ur_totp_last_used_window := Some w'\<rparr>))"
        using v(2) by (force simp: spent_row_def has_secret_def)
    qed
    with re factor_step_trans[OF factor_step_drop_codes insert_codes_step(1)[OF 2(2)]] show ?thesis
      unfolding 2(3) using factor_step_trans by metis
  qed simp
qed

section \<open>Every sequence of requests\<close>

text \<open>What the rest of the server may do to the tables: users come and go and change, but a second factor is only removed;
  pending secrets and recovery codes are only deleted, and the ids of recovery codes are not given twice.\<close>

definition elsewhere :: "auth_db \<Rightarrow> auth_db \<Rightarrow> bool" where
  "elsewhere db db' \<longleftrightarrow>
     (distinct (map ur_id (users db)) \<longrightarrow> distinct (map ur_id (users db')))
   \<and> (\<forall>u' \<in> set (users db'). ur_totp_secret u' = None \<or> (\<exists>u \<in> set (users db). ur_id u = ur_id u'
        \<and> ur_totp_secret u = ur_totp_secret u' \<and> ur_totp_last_used_window u = ur_totp_last_used_window u'))
   \<and> set (totp_pending_secrets db') \<subseteq> set (totp_pending_secrets db)
   \<and> set (user_recovery_codes db') \<subseteq> set (user_recovery_codes db) \<and> recovery_seq db' = recovery_seq db"

text \<open>One request, with the secret it draws, if any.\<close>

inductive account_step :: "login_config \<Rightarrow> string list \<Rightarrow> auth_db \<Rightarrow> auth_db \<Rightarrow> bool" for lc where
  password: "login lc name pw ip ct st now db = (r, db') \<Longrightarrow> account_step lc [] db db'"
| second_factor: "login_totp lc ct code ip st now db = (r, db') \<Longrightarrow> account_step lc [] db db'"
| start_setup: "start_totp_setup (lc_crypto lc) j fresh now db = (r', db') \<Longrightarrow> account_step lc [fresh] db db'"
| verify_setup: "verify_totp_setup (lc_crypto lc) j code codes now db = (r'', db') \<Longrightarrow> account_step lc [] db db'"
| skip_setup: "account_step lc [] db (skip_totp_setup j now db)"
| status: "totp_status (lc_crypto lc) j db = (b, db') \<Longrightarrow> account_step lc [] db db'"
| disable: "disable_totp (lc_crypto lc) j password code now db = (q, db') \<Longrightarrow> account_step lc [] db db'"
| regenerate: "regenerate_recovery_codes (lc_crypto lc) j password code codes now db = (r'', db') \<Longrightarrow> account_step lc [] db db'"
| elsewhere: "elsewhere db db' \<Longrightarrow> account_step lc [] db db'"

inductive account_run :: "login_config \<Rightarrow> string list \<Rightarrow> auth_db \<Rightarrow> auth_db \<Rightarrow> bool" for lc where
  start: "account_run lc [] db db"
| step: "account_run lc fs db db1 \<Longrightarrow> account_step lc fs' db1 db2 \<Longrightarrow> account_run lc (fs @ fs') db db2"

lemma elsewhere_step: "elsewhere db db' \<Longrightarrow> factor_step cr i s w db db'"
proof -
  assume *: "elsewhere db db'"
  have "spent_row cr i s w u' \<or> (\<exists>u \<in> set (users db). ur_id u = ur_id u' \<and> \<not> spent_row cr i s w u)" if u': "u' \<in> set (users db')" for u'
  proof (cases "ur_totp_secret u' = None")
    case False
    with * u' obtain u where "u \<in> set (users db)" "ur_id u = ur_id u'" "ur_totp_secret u = ur_totp_secret u'"
      "ur_totp_last_used_window u = ur_totp_last_used_window u'"
      unfolding elsewhere_def by metis
    then show ?thesis unfolding spent_row_def has_secret_def by metis
  qed (simp add: spent_row_def has_secret_def)
  moreover have "not_pending cr i s db \<longrightarrow> not_pending cr i s db'" using * unfolding elsewhere_def not_pending_def by blast
  moreover have "(\<forall>r. used_up r db \<longrightarrow> used_up r db') \<and> (codes_wf db \<longrightarrow> codes_wf db')"
    using * unfolding elsewhere_def used_up_def codes_wf_def by (metis subsetD)
  ultimately show ?thesis using * unfolding factor_step_def users_step_def elsewhere_def by blast
qed

lemma account_step_factor:
  assumes "account_step lc fs db db'" and "seals (lc_crypto lc)" and "distinct (map ur_id (users db))"
    and "s \<notin> set fs" and "not_pending (lc_crypto lc) i s db"
  shows "factor_step (lc_crypto lc) i s w db db'"
  using assms
proof cases
  case password
  then show ?thesis using login_step assms by blast
next
  case second_factor
  then show ?thesis using login_totp_step assms by blast
next
  case (start_setup j fresh)
  then show ?thesis using start_setup_step assms by (metis list.set_intros(1))
next
  case verify_setup
  then show ?thesis using verify_setup_step assms by blast
next
  case skip_setup
  then show ?thesis using skip_setup_step by blast
next
  case status
  then show ?thesis using status_step assms by blast
next
  case disable
  then show ?thesis using disable_step assms by blast
next
  case regenerate
  then show ?thesis using regenerate_step assms by blast
next
  case elsewhere
  then show ?thesis using elsewhere_step by blast
qed

lemma account_run_factor:
  assumes "account_run lc fs db db'" and "seals (lc_crypto lc)" and "distinct (map ur_id (users db))"
    and "s \<notin> set fs" and "not_pending (lc_crypto lc) i s db"
  shows "factor_step (lc_crypto lc) i s w db db'"
  using assms(1,3,4,5)
proof induction
  case (step fs db db1 fs' db2)
  then have s1: "factor_step (lc_crypto lc) i s w db db1" by simp
  have "factor_step (lc_crypto lc) i s w db1 db2"
  proof (rule account_step_factor[OF step(2) assms(2) factor_step_ids[OF s1 step.prems(1)]])
    show "s \<notin> set fs'" using step.prems(2) by simp
    show "not_pending (lc_crypto lc) i s db1" using s1 step.prems(3) unfolding factor_step_def by blast
  qed
  with s1 show ?case by (rule factor_step_trans)
qed simp

section \<open>Each second factor is accepted once\<close>

lemma has_secret_unique: "has_secret cr u x \<Longrightarrow> has_secret cr u y \<Longrightarrow> x = y"
  by (auto simp: has_secret_def opens_def)

text \<open>C14: Once a code of the secret \<open>x\<close> of a user was accepted for a window, no code is accepted for that window or an
  earlier one while the user has this secret, over every sequence of requests after it: the handlers that sign in, that set
  up, skip, show and disable the second factor and replace the recovery codes, and what the rest of the server does to users.
  (The requests do not draw \<open>x\<close> again, and no setup with it is pending.)
\<close>

theorem code_accepted_once:
  assumes "seals (lc_crypto lc)" and "distinct (map ur_id (users db))"
    and "login_totp lc ct code ip st now db = (Inr (SignedIn i tok (CodeOfWindow w) b), db1)"
    and "account_run lc fs db1 db2"
    and "login_totp lc ct' code' ip' st' now' db2 = (Inr (SignedIn i tok' (CodeOfWindow w') b'), db3)"
    and "\<forall>u \<in> set (users db) \<union> set (users db2). ur_id u = i \<longrightarrow> has_secret (lc_crypto lc) u x"
    and "x \<notin> set fs" and "not_pending (lc_crypto lc) i x db"
  shows "w < w'"
proof -
  let ?cr = "lc_crypto lc"
  have s1: "factor_step ?cr i x w db db1" by (rule login_totp_step[OF assms(1-3)])
  have ids1: "distinct (map ur_id (users db1))" by (rule factor_step_ids[OF s1 assms(2)])
  have "not_pending ?cr i x db1" using s1 assms(8) unfolding factor_step_def by blast
  from account_run_factor[OF assms(4,1) ids1 assms(7) this] have s2: "factor_step ?cr i x w db1 db2" .
  have secret: "has_secret ?cr u x" if "user_by_id db i = Some u \<or> user_by_id db2 i = Some u" for u
    using that assms(6) user_by_idD by blast
  obtain u where u: "user_by_id db i = Some u" "factor_accepted ?cr u code now db db1 (CodeOfWindow w)"
    by (rule login_totp_accepts[OF assms(1-3)]) blast
  then have "\<forall>v \<in> set (users db1). spent_row ?cr i x w v"
    using secret has_secret_unique user_by_idD unfolding factor_accepted_def second_factor.case by metis
  with s2 have spent: "\<forall>v \<in> set (users db2). spent_row ?cr i x w v" by (rule factor_step_rows)
  obtain v where v: "user_by_id db2 i = Some v" "factor_accepted ?cr v code' now' db2 db3 (CodeOfWindow w')"
    by (rule login_totp_accepts[OF assms(1) factor_step_ids[OF s2 ids1] assms(5)]) blast
  have "\<exists>l. ur_totp_last_used_window v = Some l \<and> w \<le> l"
    using spent secret v(1) user_by_idD unfolding spent_row_def by metis
  with v(2) verify_totp_codeD show ?thesis unfolding factor_accepted_def second_factor.case by fastforce
qed

lemma unseen_secret:
  obtains x where "x \<notin> set fs" and "not_pending cr j x db"
proof -
  let ?known = "set fs \<union> (\<lambda>(j, stored, t). fst (the (cr_open cr stored))) ` set (totp_pending_secrets db)"
  obtain x where x: "x \<notin> ?known" using ex_new_if_finite[OF infinite_UNIV_listI, of ?known] by auto
  then have "not_pending cr j x db" unfolding not_pending_def opens_def by force
  with x show ?thesis using that by blast
qed

text \<open>C15: A recovery code that let a user in is never accepted again, over the same sequences of requests.\<close>

theorem recovery_code_accepted_once:
  assumes "seals (lc_crypto lc)" and "distinct (map ur_id (users db))" and "codes_wf db"
    and "login_totp lc ct code ip st now db = (Inr (SignedIn i tok (RecoveryRow k) b), db1)"
    and "account_run lc fs db1 db2"
  shows "login_totp lc ct' code' ip' st' now' db2 \<noteq> (Inr (SignedIn j tok' (RecoveryRow k) b'), db3)"
proof
  let ?cr = "lc_crypto lc"
  assume again: "login_totp lc ct' code' ip' st' now' db2 = (Inr (SignedIn j tok' (RecoveryRow k) b'), db3)"
  have ids1: "distinct (map ur_id (users db1))" by (rule factor_step_ids[OF login_totp_step[OF assms(1,2,4)] assms(2)])
  obtain x where x: "x \<notin> set fs" "not_pending ?cr j x db1" by (rule unseen_secret)
  have s2: "factor_step ?cr j x w db1 db2" for w by (rule account_run_factor[OF assms(5,1) ids1 x])
  obtain u where "factor_accepted ?cr u code now db db1 (RecoveryRow k)" by (rule login_totp_accepts[OF assms(1,2,4)]) blast
  then have "used_up k db1" using assms(3) unfolding factor_accepted_def by simp
  then have used: "used_up k db2" using s2 unfolding factor_step_def by blast
  obtain v where "factor_accepted ?cr v code' now' db2 db3 (RecoveryRow k)"
    by (rule login_totp_accepts[OF assms(1) factor_step_ids[OF s2 ids1] again]) blast
  then show False using used unfolding factor_accepted_def used_up_def by auto
qed

section \<open>What the handlers do not rule out\<close>

lemma sign_in_succeeds:
  assumes "cr_token_hash (lc_crypto lc) tok \<notin> ss_token_hash ` set (sessions db)"
  shows "fst (sign_in lc j tok how b now db) = Inr (SignedIn j tok how b)"
  using assms
  by (auto simp: sign_in_def create_session_def cleanup_expired_sessions_def delete_session_rows_def Let_def split: sum.splits if_splits)

lemma verify_totp_code_clock:
  "\<lfloor>now'\<rfloor> div 30 = \<lfloor>now\<rfloor> div 30 \<Longrightarrow> verify_totp_code cr s code last_used now' = verify_totp_code cr s code last_used now"
  by (simp add: verify_totp_code_def Let_def)

lemma sessions_kept:
  "sessions (clear_limit rl k db) = sessions db" "sessions (delete_challenge h db) = sessions db"
  by (simp_all add: clear_limit_def delete_challenge_def Let_def)

lemma resolve_sessions: "resolve_user_totp_secret cr j stored db = (x, db') \<Longrightarrow> sessions db' = sessions db"
  by (auto simp: resolve_user_totp_secret_def clear_user_totp_for_reenrollment_def split: if_splits option.splits)

text \<open>A request reads the user before it writes the window it accepts, and the write does not ask whether the window is still
  free: a second request that read the same row, on a challenge of its own, is let in by the same code.\<close>

theorem interleaved_code_accepted_twice:
  assumes "login_totp_with_challenge lc ch user code ip st now db = (Inr (SignedIn i st (CodeOfWindow w) b), db1)"
    and "\<lfloor>now'\<rfloor> div 30 = \<lfloor>now\<rfloor> div 30" and "cr_token_hash (lc_crypto lc) st' \<notin> ss_token_hash ` set (sessions db1)"
  shows "fst (login_totp_with_challenge lc ch' user code ip' st' now' db1) = Inr (SignedIn i st' (CodeOfWindow w) False)"
  using assms(1)
proof (cases rule: challenge_cases)
  case (accepted s db2 window recovery db3)
  obtain x d where res: "resolve_user_totp_secret (lc_crypto lc) (ur_id user) (ur_totp_secret user) db1 = (x, d)" by fastforce
  have x: "x = Some s" using accepted(2) res by (auto simp: resolve_user_totp_secret_def split: if_splits option.splits)
  have w: "window = Some w" and i: "i = ur_id user"
    using accepted(6) sign_in_Inr by (fastforce simp: how_of_def split: option.splits)+
  have stored: "truthy_string (ur_totp_secret user)" using accepted(2) by (auto simp: resolve_user_totp_secret_def split: if_splits)
  have maint: "raise_if_exposure_maintenance_locked (lc_locked lc) (lc_lock_message lc) (ur_role user) = Inr ()" using accepted(6) by auto
  have "fst (login_totp_with_challenge lc ch' user code ip' st' now' db1) =
      fst (sign_in lc (ur_id user) st' (CodeOfWindow w) False now' (clear_limit (lc_username_limiter lc) (ur_username user)
        (clear_limit (lc_ip_limiter lc) ip' (delete_challenge (ch_token_hash ch')
          (update_user (ur_id user) (\<lambda>u. u\<lparr>ur_totp_last_used_window := Some w\<rparr>) d)))))"
    using accepted(1,3) stored res x w
    by (simp add: login_totp_with_challenge_def Let_def maint verify_totp_code_clock[OF assms(2)])
  also have "\<dots> = Inr (SignedIn (ur_id user) st' (CodeOfWindow w) False)"
    by (rule sign_in_succeeds) (use assms(3) resolve_sessions[OF res] in \<open>simp add: sessions_kept\<close>)
  finally show ?thesis unfolding i .
qed simp_all

text \<open>A code of six characters that \<^verbatim>\<open>isdigit\<close> takes for digits and that are not all ASCII makes the comparison raise: the
  request fails with an error of the server and no failure is counted.\<close>

lemma superscript_code_not_counted:
  assumes "length (py_strip code) = 6" and "list_all py_isdigit (py_strip code)" and "\<exists>c \<in> set (py_strip code). char_code c \<ge> 128"
    and "ur_enabled user" and "working_secret (lc_crypto lc) user"
    and "\<forall>l. ur_totp_last_used_window user = Some l \<longrightarrow> l \<le> \<lfloor>now\<rfloor> div 30"
  shows "\<exists>e. login_totp_with_challenge lc ch user code ip st now db = (Inl (TypeError e), db)"
proof -
  let ?n = "\<lfloor>now\<rfloor> div 30"
  obtain x db1 where res: "resolve_user_totp_secret (lc_crypto lc) (ur_id user) (ur_totp_secret user) db = (Some x, db1)"
    using resolve_working[of "lc_crypto lc" "ur_id user" user db] assms(5) by (metis surj_pair not_None_eq)
  have raises: "compare_digest y (py_strip code) = Inl (TypeError ''comparing strings with non-ASCII characters is not supported'')" for y
    using assms(3) by (auto simp: compare_digest_def)
  have "\<exists>e. matching_window (lc_crypto lc) x (py_strip code) (ur_totp_last_used_window user) [?n - 1, ?n, ?n + 1] = Inl (TypeError e)"
    using assms(6) by (cases "ur_totp_last_used_window user") (auto simp: raises)
  moreover have "py_strip code \<noteq> []" using assms(1) by auto
  ultimately obtain e where "verify_totp_code (lc_crypto lc) x (py_strip code) (ur_totp_last_used_window user) now = Inl (TypeError e)"
    using assms(1,2) \<open>py_strip code \<noteq> []\<close> by (auto simp: verify_totp_code_def Let_def simp del: matching_window.simps)
  then show ?thesis
    using assms(4,5) res by (auto simp: login_totp_with_challenge_def Let_def working_secret_def)
qed

section \<open>The limiters between the password and the second factor\<close>

text \<open>What a handler relies on of a limiter of one name: quiet tables let it pass as they are, clearing makes them fresh,
  and one failure does not end the quiet where more than one is allowed.\<close>

locale attempt_guard =
  fixes check fail :: "real \<Rightarrow> 'd \<Rightarrow> int \<times> 'd" and clear :: "'d \<Rightarrow> 'd" and quiet fresh :: "'d \<Rightarrow> bool" and tolerant :: bool
  assumes passes: "quiet d \<Longrightarrow> check t d = (0, d)"
    and cleared: "fresh (clear d)"
    and fresh_quiet: "fresh d \<Longrightarrow> quiet d"
    and one_failure: "tolerant \<Longrightarrow> fresh d \<Longrightarrow> quiet (snd (fail t d))"

text \<open>Two of them on the same tables, that keep to their own rows.\<close>

locale two_guards =
  a: attempt_guard check1 fail1 clear1 quiet1 fresh1 tolerant + b: attempt_guard check2 fail2 clear2 quiet2 fresh2 tolerant
  for check1 fail1 :: "real \<Rightarrow> 'd \<Rightarrow> int \<times> 'd" and clear1 quiet1 fresh1
    and check2 fail2 :: "real \<Rightarrow> 'd \<Rightarrow> int \<times> 'd" and clear2 quiet2 fresh2 and tolerant +
  fixes apart :: bool
  assumes fail_apart: "apart \<Longrightarrow> quiet2 d \<Longrightarrow> quiet2 (snd (fail1 t d))" "apart \<Longrightarrow> fresh1 d \<Longrightarrow> fresh1 (snd (fail2 t d))"
    and clear_apart: "apart \<Longrightarrow> fresh1 d \<Longrightarrow> fresh1 (clear2 d)"
begin

lemma asks_both: "quiet1 d \<Longrightarrow> quiet2 d \<Longrightarrow> check1 t d = (0, d) \<and> check2 t' d = (0, d)"
  using a.passes b.passes by blast

lemma cleared_both: "apart \<Longrightarrow> fresh1 (clear2 (clear1 d)) \<and> fresh2 (clear2 (clear1 d))"
  using a.cleared b.cleared clear_apart by blast

lemma fresh_both_quiet: "fresh1 d \<Longrightarrow> fresh2 d \<Longrightarrow> quiet1 d \<and> quiet2 d"
  using a.fresh_quiet b.fresh_quiet by blast

lemma one_failure_each: "tolerant \<Longrightarrow> apart \<Longrightarrow> fresh1 d \<Longrightarrow> fresh2 d
    \<Longrightarrow> quiet1 (snd (fail1 t' (snd (fail2 t d)))) \<and> quiet2 (snd (fail1 t' (snd (fail2 t d))))"
  using a.one_failure b.one_failure fail_apart by blast

end

definition quiet_bucket :: "rate_limiter \<Rightarrow> string \<Rightarrow> 'a limiter_db_scheme \<Rightarrow> bool" where
  "quiet_bucket rl key db \<longleftrightarrow> locked_until (bucket_of rl key) db = None"

definition fresh_bucket :: "rate_limiter \<Rightarrow> string \<Rightarrow> 'a limiter_db_scheme \<Rightarrow> bool" where
  "fresh_bucket rl key db \<longleftrightarrow> quiet_bucket rl key db \<and> failure_times (bucket_of rl key) db = []"

lemma fails_on_fresh: "1 < rl_max_attempts rl \<Longrightarrow> fresh_bucket rl key db \<Longrightarrow> quiet_bucket rl key (snd (register_failure rl key t db))"
  using register_failure_bucket(2)[of rl key t db "fst (register_failure rl key t db)" "snd (register_failure rl key t db)"]
  by (auto simp: fresh_bucket_def quiet_bucket_def kept_failures_def)

lemma fails_elsewhere:
  assumes "b \<noteq> bucket_of rl key"
  shows "locked_until b (snd (register_failure rl key t db)) = locked_until b db"
    and "failure_times b db = [] \<Longrightarrow> failure_times b (snd (register_failure rl key t db)) = []"
  using register_failure_other[OF prod.collapse[symmetric] assms, of t db] by simp_all

interpretation login_guards: two_guards
    "check_limit ip_rl ip" "register_failure ip_rl ip" "clear_limit ip_rl ip" "quiet_bucket ip_rl ip" "fresh_bucket ip_rl ip"
    "check_limit name_rl name" "register_failure name_rl name" "clear_limit name_rl name" "quiet_bucket name_rl name" "fresh_bucket name_rl name"
    "1 < rl_max_attempts ip_rl \<and> 1 < rl_max_attempts name_rl" "bucket_of ip_rl ip \<noteq> bucket_of name_rl name"
  for ip_rl ip name_rl name
proof unfold_locales
  show "check_limit ip_rl ip t d = (0, d)" if "quiet_bucket ip_rl ip d" for t and d :: "'a limiter_db_scheme"
    using that by (simp add: quiet_bucket_def locked_until_def check_limit_def Let_def)
  show "check_limit name_rl name t d = (0, d)" if "quiet_bucket name_rl name d" for t and d :: "'a limiter_db_scheme"
    using that by (simp add: quiet_bucket_def locked_until_def check_limit_def Let_def)
qed (auto simp: fresh_bucket_def quiet_bucket_def clear_limit_bucket fails_elsewhere fails_on_fresh[unfolded quiet_bucket_def fresh_bucket_def])

text \<open>Rounds of a right password followed by a guess of the second factor on the challenge it gave.\<close>

fun guess_rounds :: "login_config \<Rightarrow> string \<Rightarrow> string \<Rightarrow> string \<Rightarrow> string \<Rightarrow> (string \<times> string \<times> real) list \<Rightarrow> auth_db
    \<Rightarrow> ((py_error + login_answer) \<times> (py_error + login_answer)) list" where
  "guess_rounds lc name pw ip st [] db = []"
| "guess_rounds lc name pw ip st ((ct, code, t) # gs) db =
     (let (a, db1) = login lc name pw ip ct st t db; (b, db2) = login_totp lc ct code ip st t db1 in
      (a, b) # guess_rounds lc name pw ip st gs db2)"

text \<open>An account with a second factor whose password is known.\<close>

definition known_password :: "login_config \<Rightarrow> user_row \<Rightarrow> string \<Rightarrow> string \<Rightarrow> auth_db \<Rightarrow> bool" where
  "known_password lc u name pw db \<longleftrightarrow>
     List.find (\<lambda>v. ur_username v = py_strip name) (users db) = Some u \<and> user_by_id db (ur_id u) = Some u \<and> ur_enabled u
   \<and> cr_verify (lc_crypto lc) pw (ur_password_hash u) = (True, None)
   \<and> raise_if_exposure_maintenance_locked (lc_locked lc) (lc_lock_message lc) (ur_role u) = Inr ()
   \<and> (\<exists>stored x. ur_totp_secret u = Some stored \<and> stored \<noteq> [] \<and> cr_open (lc_crypto lc) stored = Some (x, True) \<and> x \<noteq> [])"

text \<open>A guess that is wrong: no code of the secret, and none of the user's recovery codes.\<close>

definition wrong_guess :: "login_config \<Rightarrow> user_row \<Rightarrow> string \<Rightarrow> real \<Rightarrow> auth_db \<Rightarrow> bool" where
  "wrong_guess lc u code t db \<longleftrightarrow>
     (\<forall>x. has_secret (lc_crypto lc) u x \<longrightarrow> verify_totp_code (lc_crypto lc) x (py_strip code) (ur_totp_last_used_window u) t = Inr None)
   \<and> fst (consume_recovery_code (lc_crypto lc) (ur_id u) code t db) = None"

lemma known_password_resolve:
  assumes "known_password lc u name pw db0"
  obtains x where "\<And>db. resolve_user_totp_secret (lc_crypto lc) (ur_id u) (ur_totp_secret u) db = (Some x, db)"
    and "has_secret (lc_crypto lc) u x" and "truthy_string (ur_totp_secret u)"
proof -
  obtain stored x where x: "ur_totp_secret u = Some stored" "stored \<noteq> []" "cr_open (lc_crypto lc) stored = Some (x, True)" "x \<noteq> []"
    using assms unfolding known_password_def by blast
  have "has_secret (lc_crypto lc) u x" unfolding has_secret_def opens_def using x(1,3) by blast
  then show ?thesis using that x by (simp add: resolve_user_totp_secret_def truthy_string_def)
qed

lemma clear_limit_other:
  "users (clear_limit rl k db) = users db" "login_challenges (clear_limit rl k db) = login_challenges db"
  "user_recovery_codes (clear_limit rl k db) = user_recovery_codes db"
  by (simp_all add: clear_limit_def Let_def)

lemma register_failure_other_tables:
  "users (snd (register_failure rl k t db)) = users db" "login_challenges (snd (register_failure rl k t db)) = login_challenges db"
  "user_recovery_codes (snd (register_failure rl k t db)) = user_recovery_codes db"
  by (simp_all add: register_failure_def Let_def)

lemma consume_none:
  "fst (consume_recovery_code cr j code t db) = None \<Longrightarrow> consume_recovery_code cr j code t db = (None, db)"
  by (auto simp: consume_recovery_code_def split: option.splits)

lemma consume_tables:
  "user_recovery_codes db' = user_recovery_codes db \<Longrightarrow> fst (consume_recovery_code cr j code t db') = fst (consume_recovery_code cr j code t db)"
  by (simp add: consume_recovery_code_def split: option.split)

text \<open>The tables the password leaves, with its challenge last.\<close>

definition password_tables :: "login_config \<Rightarrow> user_row \<Rightarrow> string \<Rightarrow> string \<Rightarrow> string \<Rightarrow> real \<Rightarrow> auth_db \<Rightarrow> auth_db" where
  "password_tables lc u name ip ct t db =
     (let db = clear_limit (lc_username_limiter lc) name (clear_limit (lc_ip_limiter lc) ip db) in
      db\<lparr>login_challenges := filter (\<lambda>c. \<not> ch_expires_at_unix c \<le> t) (login_challenges db)
           @ [\<lparr>ch_token_hash = cr_challenge_hash (lc_crypto lc) ct, ch_user_id = ur_id u, ch_expires_at_unix = t + CHALLENGE_TOKEN_TTL_SECONDS\<rparr>]\<rparr>)"

lemma known_password_login:
  assumes "known_password lc u name pw db" and "quiet_bucket (lc_ip_limiter lc) ip db" and "quiet_bucket (lc_username_limiter lc) (py_strip name) db"
    and "cr_challenge_hash (lc_crypto lc) ct \<notin> ch_token_hash ` set (login_challenges db)"
  shows "login lc name pw ip ct st t db = (Inr (PendingTotp ct), password_tables lc u (py_strip name) ip ct t db)"
proof -
  obtain x where res: "\<And>db. resolve_user_totp_secret (lc_crypto lc) (ur_id u) (ur_totp_secret u) db = (Some x, db)"
    by (rule known_password_resolve[OF assms(1)]) blast
  have limits: "check_limit (lc_ip_limiter lc) ip t db = (0, db)" "check_limit (lc_username_limiter lc) (py_strip name) t db = (0, db)"
    using login_guards.asks_both[OF assms(2,3)] by blast+
  have auth: "authenticate_user (lc_crypto lc) (py_strip name) pw db = (Inr u, db)"
    using assms(1) by (simp add: authenticate_user_def known_password_def)
  have row: "user_by_id (clear_limit rl k (clear_limit rl' k' db)) (ur_id u) = Some u" for rl k rl' k'
    using assms(1) by (simp add: known_password_def user_by_id_def clear_limit_other)
  show ?thesis
    using assms(1,4)
    by (auto simp: login_def Let_def limits auth login_with_password_def row res create_challenge_def password_tables_def
        clear_limit_other known_password_def)
qed

lemma find_last: "(\<forall>x \<in> set xs. \<not> P x) \<Longrightarrow> P y \<Longrightarrow> List.find P (xs @ [y]) = Some y"
  by (induction xs) auto

lemma known_password_guess:
  assumes "known_password lc u name pw db" and "wrong_guess lc u code t db"
    and "1 < rl_max_attempts (lc_ip_limiter lc) \<and> 1 < rl_max_attempts (lc_username_limiter lc)"
    and "bucket_of (lc_ip_limiter lc) ip \<noteq> bucket_of (lc_username_limiter lc) (py_strip name)"
    and "cr_challenge_hash (lc_crypto lc) ct \<notin> ch_token_hash ` set (login_challenges db)"
    and "login_totp lc ct code ip st t (password_tables lc u (py_strip name) ip ct t db) = (r, db')"
  shows "r = Inl (HTTPException 401 ''invalid_totp_code'')"
    and "quiet_bucket (lc_ip_limiter lc) ip db' \<and> quiet_bucket (lc_username_limiter lc) (py_strip name) db'"
    and "users db' = users db \<and> user_recovery_codes db' = user_recovery_codes db"
    and "ch_token_hash ` set (login_challenges db') \<subseteq> insert (cr_challenge_hash (lc_crypto lc) ct) (ch_token_hash ` set (login_challenges db))"
proof -
  let ?h = "cr_challenge_hash (lc_crypto lc) ct" and ?d = "password_tables lc u (py_strip name) ip ct t db"
  let ?ip = "lc_ip_limiter lc" and ?nm = "lc_username_limiter lc"
  let ?ch = "\<lparr>ch_token_hash = ?h, ch_user_id = ur_id u, ch_expires_at_unix = t + CHALLENGE_TOKEN_TTL_SECONDS\<rparr>"
  have name: "ur_username u = py_strip name" using assms(1) find_SomeD by (fastforce simp: known_password_def)
  have tables: "users ?d = users db" "user_recovery_codes ?d = user_recovery_codes db"
    "login_challenges ?d = filter (\<lambda>c. \<not> ch_expires_at_unix c \<le> t) (login_challenges db) @ [?ch]"
    by (simp_all add: password_tables_def clear_limit_other Let_def)
  have "fresh_bucket ?ip ip ?d \<and> fresh_bucket ?nm (py_strip name) ?d"
    using login_guards.cleared_both[OF assms(4), of db]
    by (simp add: password_tables_def Let_def fresh_bucket_def quiet_bucket_def locked_until_def failure_times_def)
  then have fresh: "fresh_bucket ?ip ip ?d" "fresh_bucket ?nm (py_strip name) ?d" by blast+
  then have limits: "check_limit ?ip ip t ?d = (0, ?d)" "check_limit ?nm (py_strip name) t ?d = (0, ?d)"
    using login_guards.fresh_both_quiet login_guards.asks_both by blast+
  obtain x where res: "\<And>db. resolve_user_totp_secret (lc_crypto lc) (ur_id u) (ur_totp_secret u) db = (Some x, db)"
    and x: "has_secret (lc_crypto lc) u x" "truthy_string (ur_totp_secret u)"
    by (rule known_password_resolve[OF assms(1)]) blast
  have wrong: "verify_totp_code (lc_crypto lc) x (py_strip code) (ur_totp_last_used_window u) t = Inr None"
    "consume_recovery_code (lc_crypto lc) (ur_id u) code t ?d = (None, ?d)"
    using assms(2) x(1) by (auto simp: wrong_guess_def consume_tables[OF tables(2)] intro: consume_none)
  have row: "user_by_id ?d (ur_id u) = Some u" using assms(1) by (simp add: user_by_id_def tables known_password_def)
  have found: "List.find (\<lambda>c. ch_token_hash c = ?h \<and> user_by_id ?d (ch_user_id c) \<noteq> None) (login_challenges ?d) = Some ?ch"
    unfolding tables(3) by (rule find_last) (use assms(5) row in \<open>auto simp: image_iff\<close>)
  have "login_totp lc ct code ip st t ?d = login_totp_with_challenge lc ?ch u code ip st t ?d"
    unfolding login_totp_def Let_def found by (simp add: row name limits CHALLENGE_TOKEN_TTL_SECONDS_def)
  also have "\<dots> = (Inl (HTTPException 401 ''invalid_totp_code''), snd (register_failure ?ip ip t (snd (register_failure ?nm (py_strip name) t ?d))))"
    using assms(1) x(2) by (simp add: login_totp_with_challenge_def Let_def res wrong name known_password_def split: prod.split)
  finally have r: "r = Inl (HTTPException 401 ''invalid_totp_code'')"
    and db': "db' = snd (register_failure ?ip ip t (snd (register_failure ?nm (py_strip name) t ?d)))"
    using assms(6) by simp_all
  show "r = Inl (HTTPException 401 ''invalid_totp_code'')" by (rule r)
  show "quiet_bucket ?ip ip db' \<and> quiet_bucket ?nm (py_strip name) db'"
    unfolding db' by (rule login_guards.one_failure_each[OF assms(3,4) fresh])
  show "users db' = users db \<and> user_recovery_codes db' = user_recovery_codes db"
    by (simp add: db' register_failure_other_tables tables)
  show "ch_token_hash ` set (login_challenges db') \<subseteq> insert ?h (ch_token_hash ` set (login_challenges db))"
    unfolding db' register_failure_other_tables tables by auto
qed

text \<open>C35: The password clears the failures of the name and of the address before the second factor is asked for. Who
  knows the password is therefore never limited while guessing the second factor: over any number of rounds each wrong guess is
  compared and answered as wrong, none as one too many, wherever the limiters allow more than one attempt.
\<close>

theorem guesses_never_limited:
  assumes "known_password lc u name pw db" and "quiet_bucket (lc_ip_limiter lc) ip db" and "quiet_bucket (lc_username_limiter lc) (py_strip name) db"
    and "1 < rl_max_attempts (lc_ip_limiter lc) \<and> 1 < rl_max_attempts (lc_username_limiter lc)"
    and "bucket_of (lc_ip_limiter lc) ip \<noteq> bucket_of (lc_username_limiter lc) (py_strip name)"
    and "\<forall>(ct, code, t) \<in> set gs. wrong_guess lc u code t db"
    and "distinct (map (\<lambda>(ct, code, t). cr_challenge_hash (lc_crypto lc) ct) gs)"
    and "\<forall>(ct, code, t) \<in> set gs. cr_challenge_hash (lc_crypto lc) ct \<notin> ch_token_hash ` set (login_challenges db)"
  shows "guess_rounds lc name pw ip st gs db =
    map (\<lambda>(ct, code, t). (Inr (PendingTotp ct), Inl (HTTPException 401 ''invalid_totp_code''))) gs"
  using assms(1-3,6-8)
proof (induction gs arbitrary: db)
  case (Cons g gs)
  obtain ct code t where g: "g = (ct, code, t)" by (cases g)
  have new: "cr_challenge_hash (lc_crypto lc) ct \<notin> ch_token_hash ` set (login_challenges db)" using Cons.prems(6) g by simp
  note pw = known_password_login[OF Cons.prems(1-3) new, of st t]
  obtain r db' where totp: "login_totp lc ct code ip st t (password_tables lc u (py_strip name) ip ct t db) = (r, db')" by fastforce
  have "wrong_guess lc u code t db" using Cons.prems(4) g by simp
  note guess = known_password_guess[OF Cons.prems(1) this assms(4,5) new totp]
  have rec: "user_recovery_codes db' = user_recovery_codes db" and us: "users db' = users db" using guess(3) by blast+
  have "guess_rounds lc name pw ip st gs db' =
      map (\<lambda>(ct, code, t). (Inr (PendingTotp ct), Inl (HTTPException 401 ''invalid_totp_code''))) gs"
  proof (rule Cons.IH)
    show "known_password lc u name pw db'" using Cons.prems(1) by (simp add: known_password_def us user_by_id_def)
    show "\<forall>(ct, code, t) \<in> set gs. wrong_guess lc u code t db'"
      using Cons.prems(4) unfolding wrong_guess_def consume_tables[OF rec] by simp
    show "\<forall>(ct, code, t) \<in> set gs. cr_challenge_hash (lc_crypto lc) ct \<notin> ch_token_hash ` set (login_challenges db')"
    proof (clarify)
      fix ct' code' t' c
      assume "(ct', code', t') \<in> set gs" and eq: "cr_challenge_hash (lc_crypto lc) ct' = ch_token_hash c" and "c \<in> set (login_challenges db')"
      then have "ch_token_hash c \<noteq> cr_challenge_hash (lc_crypto lc) ct" "ch_token_hash c \<notin> ch_token_hash ` set (login_challenges db)"
        using Cons.prems(5,6) unfolding g eq[symmetric] by force+
      with guess(4) \<open>c \<in> set (login_challenges db')\<close> show False by blast
    qed
  qed (use guess(2) Cons.prems(5) in auto)
  then show ?case by (simp add: g pw totp guess(1) split_def)
qed simp

section \<open>A right second factor is enough\<close>

text \<open>A challenge that can be answered: found for the user, not expired, nothing limited, the user enabled with a sealed secret.\<close>

definition answerable :: "login_config \<Rightarrow> string \<Rightarrow> challenge_row \<Rightarrow> user_row \<Rightarrow> string \<Rightarrow> string \<Rightarrow> real \<Rightarrow> auth_db \<Rightarrow> bool" where
  "answerable lc ct ch user x ip now db \<longleftrightarrow>
     List.find (\<lambda>c. ch_token_hash c = cr_challenge_hash (lc_crypto lc) ct \<and> user_by_id db (ch_user_id c) \<noteq> None) (login_challenges db) = Some ch
   \<and> ch_user_id ch = ur_id user \<and> user_by_id db (ur_id user) = Some user \<and> now < ch_expires_at_unix ch
   \<and> quiet_bucket (lc_ip_limiter lc) ip db \<and> quiet_bucket (lc_username_limiter lc) (ur_username user) db
   \<and> ur_enabled user \<and> raise_if_exposure_maintenance_locked (lc_locked lc) (lc_lock_message lc) (ur_role user) = Inr ()
   \<and> (\<exists>stored. ur_totp_secret user = Some stored \<and> stored \<noteq> [] \<and> cr_open (lc_crypto lc) stored = Some (x, True) \<and> x \<noteq> [])"

text \<open>The tables a session is opened on once the factor is marked as used.\<close>

definition let_in :: "login_config \<Rightarrow> challenge_row \<Rightarrow> user_row \<Rightarrow> string \<Rightarrow> int option \<Rightarrow> auth_db \<Rightarrow> auth_db" where
  "let_in lc ch user ip window db =
     clear_limit (lc_username_limiter lc) (ur_username user) (clear_limit (lc_ip_limiter lc) ip (marked lc ch user window db))"

lemma answerable_challenge:
  assumes "answerable lc ct ch user x ip now db"
  shows "login_totp lc ct code ip st now db = login_totp_with_challenge lc ch user code ip st now db"
    and "resolve_user_totp_secret (lc_crypto lc) (ur_id user) (ur_totp_secret user) db' = (Some x, db')"
    and "truthy_string (ur_totp_secret user)"
proof -
  have find: "List.find (\<lambda>c. ch_token_hash c = cr_challenge_hash (lc_crypto lc) ct \<and> user_by_id db (ch_user_id c) \<noteq> None) (login_challenges db) = Some ch"
    using assms unfolding answerable_def by blast
  have "check_limit (lc_ip_limiter lc) ip now db = (0, db)" "check_limit (lc_username_limiter lc) (ur_username user) now db = (0, db)"
    using assms login_guards.asks_both unfolding answerable_def by blast+
  then show "login_totp lc ct code ip st now db = login_totp_with_challenge lc ch user code ip st now db"
    unfolding login_totp_def Let_def find using assms by (simp add: answerable_def)
  show "resolve_user_totp_secret (lc_crypto lc) (ur_id user) (ur_totp_secret user) db' = (Some x, db')" "truthy_string (ur_totp_secret user)"
    using assms by (auto simp: answerable_def resolve_user_totp_secret_def truthy_string_def)
qed

lemma code_signs_in:
  assumes "answerable lc ct ch user x ip now db"
    and "verify_totp_code (lc_crypto lc) x (py_strip code) (ur_totp_last_used_window user) now = Inr (Some w)"
  shows "login_totp lc ct code ip st now db = sign_in lc (ur_id user) st (CodeOfWindow w) False now (let_in lc ch user ip (Some w) db)"
  unfolding answerable_challenge(1)[OF assms(1)]
  using assms(1) answerable_challenge(3)[OF assms(1)]
  by (simp add: login_totp_with_challenge_def Let_def answerable_challenge(2)[OF assms(1)] assms(2) let_in_def marked_def answerable_def)

lemma recovery_code_signs_in:
  assumes "answerable lc ct ch user x ip now db"
    and "verify_totp_code (lc_crypto lc) x (py_strip code) (ur_totp_last_used_window user) now = Inr None"
    and "consume_recovery_code (lc_crypto lc) (ur_id user) code now db = (Some k, db')"
  shows "login_totp lc ct code ip st now db = sign_in lc (ur_id user) st (RecoveryRow k) False now (let_in lc ch user ip None db')"
  unfolding answerable_challenge(1)[OF assms(1)]
  using assms(1) answerable_challenge(3)[OF assms(1)]
  by (simp add: login_totp_with_challenge_def Let_def answerable_challenge(2)[OF assms(1)] assms(2,3) let_in_def marked_def answerable_def)

lemma let_in_sessions: "sessions (let_in lc ch user ip window db) = sessions db"
  by (simp add: let_in_def marked_def sessions_kept split: option.split)

lemma second_factor_lets_in:
  assumes "answerable lc ct ch user x ip now db" and "cr_token_hash (lc_crypto lc) st \<notin> ss_token_hash ` set (sessions db)"
    and "verify_totp_code (lc_crypto lc) x (py_strip code) (ur_totp_last_used_window user) now = Inr window"
  shows "fst (login_totp lc ct code ip st now db) =
    (case window of
       Some w \<Rightarrow> Inr (SignedIn (ur_id user) st (CodeOfWindow w) False)
     | None \<Rightarrow>
         (case fst (consume_recovery_code (lc_crypto lc) (ur_id user) code now db) of
            Some k \<Rightarrow> Inr (SignedIn (ur_id user) st (RecoveryRow k) False)
          | None \<Rightarrow> Inl (HTTPException 401 ''invalid_totp_code'')))"
proof (cases window)
  case (Some w)
  show ?thesis
    unfolding code_signs_in[OF assms(1,3)[unfolded Some]] Some option.case
    by (rule sign_in_succeeds) (simp add: let_in_sessions assms(2))
next
  case None
  obtain r db' where con: "consume_recovery_code (lc_crypto lc) (ur_id user) code now db = (r, db')" by fastforce
  show ?thesis
  proof (cases r)
    case (Some k)
    show ?thesis
      unfolding recovery_code_signs_in[OF assms(1) assms(3)[unfolded None] con[unfolded Some]] None con Some fst_conv option.case
      by (rule sign_in_succeeds) (simp add: let_in_sessions consume_step(5)[OF con] assms(2))
  next
    case False: None
    then show ?thesis
      unfolding answerable_challenge(1)[OF assms(1)]
      using assms(1,3) answerable_challenge(3)[OF assms(1)] consume_none[of "lc_crypto lc" "ur_id user" code now db]
      by (simp add: login_totp_with_challenge_def Let_def answerable_challenge(2)[OF assms(1)] con None answerable_def split: prod.split)
  qed
qed

section \<open>A concrete account\<close>

text \<open>Ann with a second factor: the code of the windows 1 and 2 is in digits of the window, sealing puts an \<open>e\<close> in front and
  the hashes are the identity. Two challenges and a recovery code are open.\<close>

definition sample_crypto :: crypto where
  "sample_crypto = \<lparr>cr_verify = (\<lambda>p h. (p = h, None)), cr_open = (\<lambda>st. if take 1 st = ''e'' then Some (drop 1 st, True) else None),
     cr_seal = (\<lambda>x. ''e'' @ x), cr_totp = (\<lambda>s w. if w = 1 then ''111111'' else if w = 2 then ''222222'' else ''000000''),
     cr_challenge_hash = id, cr_recovery_hash = id, cr_legacy_recovery_hash = id, cr_token_hash = id\<rparr>"

definition sample_login :: login_config where
  "sample_login = \<lparr>lc_crypto = sample_crypto, lc_settings = sample_settings,
     lc_ip_limiter = \<lparr>rl_bucket_kind = ''ip'', rl_window_seconds = 60, rl_max_attempts = 2, rl_lockout_seconds = 30\<rparr>,
     lc_username_limiter = \<lparr>rl_bucket_kind = ''username'', rl_window_seconds = 60, rl_max_attempts = 2, rl_lockout_seconds = 30\<rparr>,
     lc_locked = False, lc_lock_message = ''m''\<rparr>"

definition sample_account :: user_row where
  "sample_account = sample_user\<lparr>ur_totp_secret := Some ''es''\<rparr>"

definition sample_factors :: auth_db where
  "sample_factors = \<lparr>login_failures = [], login_lockouts = [], users = [sample_account], sessions = [], session_seq = 0,
     native_playback_sessions = [], desktop_vlc_handoffs = [], download_sessions = [],
     google_oauth_states = [], google_oauth_account_candidates = [], google_oauth_operations = [],
     login_challenges = [\<lparr>ch_token_hash = ''c'', ch_user_id = 7, ch_expires_at_unix = 100\<rparr>, \<lparr>ch_token_hash = ''d'', ch_user_id = 7, ch_expires_at_unix = 100\<rparr>],
     user_recovery_codes = [\<lparr>rc_id = 1, rc_user_id = 7, rc_code_hash = ''r'', rc_used_at = None\<rparr>], recovery_seq = 1, totp_pending_secrets = []\<rparr>"

lemmas sample_login_defs = sample_crypto_def sample_login_def sample_account_def sample_factors_def sample_user_def sample_settings_def

lemma sample_seals: "seals (lc_crypto sample_login)" and sample_ids: "distinct (map ur_id (users sample_factors))"
  and sample_codes: "codes_wf sample_factors"
  by (simp_all add: seals_def codes_wf_def sample_login_defs)

lemma py_strip_code: "py_strip ''111111'' = ''111111''" "py_strip ''222222'' = ''222222''" "py_strip ''r'' = ''r''" "py_strip ''ann'' = ''ann''"
  "py_strip ''h'' = ''h''"
  by code_simp+

lemma sample_digits:
  "py_isdigit CHR ''1''" "py_isdigit CHR ''2''" "\<not> py_isdigit CHR ''r''" "char_code CHR ''0'' < 128" "char_code CHR ''1'' < 128" "char_code CHR ''2'' < 128"
  by code_simp+

lemma sample_totp_code:
  "verify_totp_code sample_crypto s ''111111'' None 30 = Inr (Some 1)"
  "verify_totp_code sample_crypto s ''222222'' (Some 1) 60 = Inr (Some 2)"
  "verify_totp_code sample_crypto s ''r'' l t = Inr None"
  by (simp_all add: verify_totp_code_def sample_crypto_def sample_digits compare_digest_def Let_def not_le)

lemma sample_candidates: "recovery_code_hash_candidates sample_crypto ''r'' = [''r'', ''r'']"
  by code_simp

lemma sample_user_by_id: "user_by_id sample_factors 7 = Some sample_account"
  by (simp add: user_by_id_def sample_login_defs)

lemma sample_resolve: "resolve_user_totp_secret sample_crypto 7 (Some ''es'') db = (Some ''s'', db)"
  by (simp add: resolve_user_totp_secret_def sample_crypto_def truthy_string_def)

definition sample_challenge :: "string \<Rightarrow> challenge_row" where
  "sample_challenge h = \<lparr>ch_token_hash = h, ch_user_id = 7, ch_expires_at_unix = 100\<rparr>"

lemma sample_answerable:
  "ct = ''c'' \<or> ct = ''d'' \<Longrightarrow> t < 100 \<Longrightarrow> answerable sample_login ct (sample_challenge ct) sample_account ''s'' ''h'' t sample_factors"
  by (auto simp: answerable_def sample_challenge_def sample_login_defs user_by_id_def quiet_bucket_def locked_until_def
      raise_if_exposure_maintenance_locked_def)

text \<open>The tables once the code of the first window was accepted.\<close>

definition sample_signed_in :: auth_db where
  "sample_signed_in = snd (login_totp sample_login ''c'' ''111111'' ''h'' ''t'' 30 sample_factors)"

lemma sample_account_fields:
  "ur_id sample_account = 7" "ur_totp_last_used_window sample_account = None" "lc_crypto sample_login = sample_crypto"
  by (simp_all add: sample_login_defs)

lemma sample_first_code:
  "login_totp sample_login ''c'' ''111111'' ''h'' ''t'' 30 sample_factors = (Inr (SignedIn 7 ''t'' (CodeOfWindow 1) False), sample_signed_in)"
  unfolding sample_signed_in_def
  using second_factor_lets_in[OF sample_answerable, of "''c''" 30 "''t''" "''111111''" "Some 1"]
  by (simp add: prod_eq_iff py_strip_code sample_totp_code sample_account_fields sample_factors_def)

lemma sample_tables:
  "users sample_signed_in = [sample_account\<lparr>ur_totp_last_used_window := Some 1, ur_last_login_at := Some 30\<rparr>]"
  "login_challenges sample_signed_in = [sample_challenge ''d'']" "login_lockouts sample_signed_in = []"
  "map ss_token_hash (sessions sample_signed_in) = [''t'']"
proof -
  have "login_totp sample_login ''c'' ''111111'' ''h'' ''t'' 30 sample_factors =
      sign_in sample_login 7 ''t'' (CodeOfWindow 1) False 30 (let_in sample_login (sample_challenge ''c'') sample_account ''h'' (Some 1) sample_factors)"
    using code_signs_in[OF sample_answerable, of "''c''" 30 "''111111''" 1]
    by (simp add: py_strip_code sample_totp_code sample_account_fields)
  note eq = arg_cong[OF this, of snd, folded sample_signed_in_def]
  show "users sample_signed_in = [sample_account\<lparr>ur_totp_last_used_window := Some 1, ur_last_login_at := Some 30\<rparr>]"
    and "login_challenges sample_signed_in = [sample_challenge ''d'']" and "login_lockouts sample_signed_in = []"
    and "map ss_token_hash (sessions sample_signed_in) = [''t'']"
    unfolding eq
    by (simp_all add: sign_in_def create_session_def cleanup_expired_sessions_def delete_session_rows_def Let_def let_in_def marked_def
        update_user_def delete_challenge_def clear_limit_def sample_challenge_def sample_login_defs new_session_row_def)
qed

lemma sample_answerable_again:
  "t < 100 \<Longrightarrow> answerable sample_login ''d'' (sample_challenge ''d'') (sample_account\<lparr>ur_totp_last_used_window := Some 1, ur_last_login_at := Some 30\<rparr>) ''s'' ''h'' t sample_signed_in"
  by (auto simp: answerable_def sample_tables user_by_id_def quiet_bucket_def locked_until_def raise_if_exposure_maintenance_locked_def
      sample_challenge_def sample_login_defs)

lemma sample_answers:
  "fst (login_totp sample_login ''c'' ''111111'' ''h'' ''t'' 30 sample_factors) = Inr (SignedIn 7 ''t'' (CodeOfWindow 1) False)
   \<and> fst (login_totp sample_login ''c'' ''r'' ''h'' ''t'' 30 sample_factors) = Inr (SignedIn 7 ''t'' (RecoveryRow 1) False)"
proof
  show "fst (login_totp sample_login ''c'' ''111111'' ''h'' ''t'' 30 sample_factors) = Inr (SignedIn 7 ''t'' (CodeOfWindow 1) False)"
    by (simp add: sample_first_code)
  have "fst (consume_recovery_code sample_crypto 7 ''r'' 30 sample_factors) = Some 1"
    by (simp add: consume_recovery_code_def sample_candidates sample_factors_def)
  then show "fst (login_totp sample_login ''c'' ''r'' ''h'' ''t'' 30 sample_factors) = Inr (SignedIn 7 ''t'' (RecoveryRow 1) False)"
    using second_factor_lets_in[OF sample_answerable, of "''c''" 30 "''t''" "''r''" None]
    by (simp add: py_strip_code sample_totp_code sample_account_fields sample_factors_def)
qed

theorem sign_in_needs_factor_witness:
  "login_totp sample_login ''c'' ''111111'' ''h'' ''t'' 30 sample_factors = (Inr (SignedIn 7 ''t'' (CodeOfWindow 1) False), sample_signed_in)
   \<and> (\<exists>user. user_by_id sample_factors 7 = Some user \<and> factor_accepted sample_crypto user ''111111'' 30 sample_factors sample_signed_in (CodeOfWindow 1))"
  using sign_in_needs_factor[OF sample_seals sample_ids, THEN conjunct2, THEN mp, OF sample_first_code] sample_first_code
  by (auto simp: sample_account_fields)

lemma sample_run: "account_run sample_login [] sample_signed_in sample_signed_in" by (rule account_run.start)

theorem code_accepted_once_witness:
  "fst (login_totp sample_login ''d'' ''222222'' ''h'' ''u'' 60 sample_signed_in) = Inr (SignedIn 7 ''u'' (CodeOfWindow 2) False) \<and> (1::int) < 2"
proof -
  obtain db3 where second: "login_totp sample_login ''d'' ''222222'' ''h'' ''u'' 60 sample_signed_in = (Inr (SignedIn 7 ''u'' (CodeOfWindow 2) False), db3)"
  proof
    have "ss_token_hash ` set (sessions sample_signed_in) = {''t''}" using arg_cong[OF sample_tables(4), of set] by simp
    then have "fst (login_totp sample_login ''d'' ''222222'' ''h'' ''u'' 60 sample_signed_in) = Inr (SignedIn 7 ''u'' (CodeOfWindow 2) False)"
      using second_factor_lets_in[OF sample_answerable_again, of 60 "''u''" "''222222''" "Some 2"]
      by (simp add: py_strip_code sample_totp_code sample_account_fields sample_crypto_def[THEN arg_cong, of cr_token_hash])
    then show "login_totp sample_login ''d'' ''222222'' ''h'' ''u'' 60 sample_signed_in =
        (Inr (SignedIn 7 ''u'' (CodeOfWindow 2) False), snd (login_totp sample_login ''d'' ''222222'' ''h'' ''u'' 60 sample_signed_in))"
      by (metis prod.collapse)
  qed
  have "\<forall>u \<in> set (users sample_factors) \<union> set (users sample_signed_in). ur_id u = 7 \<longrightarrow> has_secret (lc_crypto sample_login) u ''s''"
    by (auto simp: sample_tables has_secret_def opens_def) (auto simp: sample_login_defs intro: exI[of _ True])
  then show ?thesis
    using code_accepted_once[OF sample_seals sample_ids sample_first_code sample_run second, of "''s''"] second
    by (simp add: not_pending_def sample_factors_def)
qed

theorem recovery_code_accepted_once_witness:
  "\<exists>db1. login_totp sample_login ''c'' ''r'' ''h'' ''t'' 30 sample_factors = (Inr (SignedIn 7 ''t'' (RecoveryRow 1) False), db1)
     \<and> fst (login_totp sample_login ''d'' ''r'' ''h'' ''u'' 60 db1) \<noteq> Inr (SignedIn 7 ''u'' (RecoveryRow 1) False)"
proof -
  obtain db1 where first: "login_totp sample_login ''c'' ''r'' ''h'' ''t'' 30 sample_factors = (Inr (SignedIn 7 ''t'' (RecoveryRow 1) False), db1)"
    using sample_answers by (metis prod.collapse)
  from recovery_code_accepted_once[OF sample_seals sample_ids sample_codes first account_run.start]
  show ?thesis using first by (metis prod.collapse)
qed

theorem guesses_never_limited_witness:
  "guess_rounds sample_login ''ann'' ''pw'' ''h'' ''t'' [(''x'', ''111111'', 600), (''y'', ''111111'', 600), (''z'', ''111111'', 600)] sample_factors
   = [(Inr (PendingTotp ''x''), Inl (HTTPException 401 ''invalid_totp_code'')), (Inr (PendingTotp ''y''), Inl (HTTPException 401 ''invalid_totp_code'')),
      (Inr (PendingTotp ''z''), Inl (HTTPException 401 ''invalid_totp_code''))]"
proof -
  let ?gs = "[(''x'', ''111111'', 600), (''y'', ''111111'', 600), (''z'', ''111111'', 600)]"
  have "verify_totp_code sample_crypto s ''111111'' None 600 = Inr None" for s
    by (simp add: verify_totp_code_def sample_crypto_def sample_digits compare_digest_def Let_def not_le)
  moreover have "recovery_code_hash_candidates sample_crypto ''111111'' = [''111111'', ''111111'']" by code_simp
  ultimately have wrong: "wrong_guess sample_login sample_account ''111111'' 600 sample_factors"
    by (simp add: wrong_guess_def sample_account_fields py_strip_code consume_recovery_code_def) (simp add: sample_factors_def)
  have "bucket_of (lc_ip_limiter sample_login) ''h'' \<noteq> bucket_of (lc_username_limiter sample_login) (py_strip ''ann'')"
    by (simp add: bucket_of_def sample_login_def)
  moreover have "known_password sample_login sample_account ''ann'' ''pw'' sample_factors"
    by (auto simp: known_password_def py_strip_code user_by_id_def sample_login_defs raise_if_exposure_maintenance_locked_def)
  moreover have "quiet_bucket rl k sample_factors" for rl k by (simp add: quiet_bucket_def locked_until_def sample_factors_def)
  ultimately show ?thesis
    using guesses_never_limited[of sample_login sample_account "''ann''" "''pw''" sample_factors "''h''" ?gs "''t''"] wrong
    by (simp add: sample_login_def) (simp add: sample_crypto_def sample_factors_def)
qed

theorem interleaved_code_accepted_twice_witness:
  "fst (login_totp_with_challenge sample_login (sample_challenge ''d'') sample_account ''111111'' ''g'' ''u'' 31 sample_signed_in)
   = Inr (SignedIn 7 ''u'' (CodeOfWindow 1) False)"
proof -
  have first: "login_totp_with_challenge sample_login (sample_challenge ''c'') sample_account ''111111'' ''h'' ''t'' 30 sample_factors =
      (Inr (SignedIn 7 ''t'' (CodeOfWindow 1) False), sample_signed_in)"
    using answerable_challenge(1)[OF sample_answerable, of "''c''" 30 "''111111''" "''t''"] sample_first_code by simp
  have "ss_token_hash ` set (sessions sample_signed_in) = {''t''}" using arg_cong[OF sample_tables(4), of set] by simp
  moreover have "\<lfloor>31 :: real\<rfloor> div 30 = \<lfloor>30 :: real\<rfloor> div 30" by (simp only: floor_numeral) simp
  ultimately show ?thesis
    using interleaved_code_accepted_twice[OF first, of 31 "''u''" "sample_challenge ''d''" "''g''"]
    by (simp add: sample_account_fields sample_crypto_def[THEN arg_cong, of cr_token_hash])
qed

end
