(* ===== verification/Worker_Pool.thy ===== *)
theory Worker_Pool
  imports Route2_Sessions
begin

text \<open>
  The workers of the pipeline: the records \<^verbatim>\<open>_route2_workers\<close> of \<^verbatim>\<open>MobilePlaybackManager\<close> with what creates, synchronises,
  finishes and parks them, how many threads each may have, and the dispatcher that starts the queued ones. A record is
  the part of \<^verbatim>\<open>Route2WorkerRecord\<close> these operations read or decide; its time of creation is a number. \<open>stamp\<close> is
  \<^verbatim>\<open>utcnow_iso()\<close>, \<open>clock\<close> is \<^verbatim>\<open>time.time()\<close>, \<open>new_id\<close> a fresh \<^verbatim>\<open>uuid4().hex\<close>. The telemetry fields, the fields that only
  explain a decision to administrators, metadata files and log events are left out.
\<close>

section \<open>Records\<close>

record worker_record =
  wr_session :: string
  wr_epoch :: string
  wr_user :: int
  wr_mode :: string
  wr_source_kind :: string
  wr_state :: string
  wr_alive :: bool
  wr_started :: "string option"
  wr_finished :: "string option"
  wr_created :: real
  wr_stop_requested :: bool
  wr_error :: "string option"
  wr_failures :: int
  wr_assigned :: int
  wr_fixed :: "int option"
  wr_source :: string
  wr_cpu_used :: "real option"

type_synonym pool = "(string \<times> worker_record) list"

definition new_worker_record :: "real \<Rightarrow> mobile_session \<Rightarrow> playback_epoch \<Rightarrow> worker_record" where
  "new_worker_record clock s e =
     \<lparr>wr_session = ms_id s, wr_epoch = ep_id e, wr_user = ms_user s, wr_mode = bs_playback_mode (ms_browser s),
      wr_source_kind = ms_source_kind s, wr_state = ''queued'', wr_alive = False, wr_started = None, wr_finished = None,
      wr_created = clock, wr_stop_requested = False, wr_error = None, wr_failures = 0, wr_assigned = 0, wr_fixed = None,
      wr_source = ''fixed_disabled'', wr_cpu_used = None\<rparr>"

definition is_non_retryable_cloud_source_error :: "string option \<Rightarrow> bool" where
  "is_non_retryable_cloud_source_error error =
     (let normalized = py_lower (py_strip (or_string error [])) in
      normalized \<noteq> [] \<and>
      (\<exists>x \<in> set [''provider_auth_required'', ''token_expired_or_revoked'', ''reauth_required'', ''reconnect google drive'',
                 ''provider_source_error'', ''download quota'', ''quota exceeded'', ''downloadquotaexceeded'', ''provider_quota_exceeded''].
        contains x normalized))"

definition mark_runtime_finished :: "string \<Rightarrow> worker_record \<Rightarrow> worker_record" where
  "mark_runtime_finished stamp r =
     (if wr_state r = ''running'' then r\<lparr>wr_finished := None\<rparr>
      else if truthy_string (wr_started r) \<and> \<not> truthy_string (wr_finished r) then r\<lparr>wr_finished := Some stamp\<rparr>
      else r)"

definition sync_record :: "string \<Rightarrow> mobile_session \<Rightarrow> playback_epoch \<Rightarrow> worker_record \<Rightarrow> worker_record" where
  "sync_record stamp s e r =
     mark_runtime_finished stamp
       (r\<lparr>wr_mode := bs_playback_mode (ms_browser s), wr_source_kind := ms_source_kind s, wr_stop_requested := ep_stop_requested e,
          wr_error := (if is_non_retryable_cloud_source_error (ep_last_error e) then ep_last_error e else None),
          wr_alive := poll_running (ep_process e)\<rparr>)"

text \<open>Synchronising a record also reads the published files of its epoch again.\<close>

definition ensure_worker_record ::
  "string \<Rightarrow> string \<Rightarrow> real \<Rightarrow> mobile_session \<Rightarrow> playback_epoch \<times> pool \<Rightarrow> string \<times> playback_epoch \<times> pool" where
  "ensure_worker_record new_id stamp clock s ep =
     (let (e, p) = ep;
          wid = (if truthy_string (ep_worker e) then the (ep_worker e) else new_id);
          e1 = rebuild_published_frontier stamp clock (e\<lparr>ep_worker := Some wid\<rparr>);
          r = (case dict_get p wid of Some r \<Rightarrow> r | None \<Rightarrow> new_worker_record clock s e)
      in (wid, e1, dict_set p wid (sync_record stamp s e1 r)))"

definition finalize_worker_record ::
  "string \<Rightarrow> real \<Rightarrow> string \<Rightarrow> bool \<Rightarrow> bool \<Rightarrow> mobile_session \<Rightarrow> playback_epoch \<times> pool \<Rightarrow> playback_epoch \<times> pool" where
  "finalize_worker_record stamp clock state failed remove s ep =
     (if \<not> truthy_string (ep_worker (fst ep)) then ep
      else
        let (wid, e, p) = ensure_worker_record [] stamp clock s ep;
            r = the (dict_get p wid);
            r1 = mark_runtime_finished stamp (r\<lparr>wr_state := state, wr_failures := wr_failures r + (if failed then 1 else 0)\<rparr>);
            r2 = (if state \<noteq> ''running'' then r1\<lparr>wr_alive := False\<rparr> else r1);
            e1 = rebuild_published_frontier stamp clock e;
            p1 = dict_set p wid (sync_record stamp s e1 r2)
        in (e1, if remove then dict_pop p1 wid else p1))"

section \<open>Ending an epoch with its record\<close>

definition terminate_epoch_record ::
  "string \<Rightarrow> real \<Rightarrow> string \<Rightarrow> bool \<Rightarrow> mobile_session \<Rightarrow> playback_epoch \<times> worker_table \<times> pool \<Rightarrow> playback_epoch \<times> worker_table \<times> pool" where
  "terminate_epoch_record stamp clock final_state remove s ewp =
     (let (e, workers, p) = ewp; wid = ep_worker e;
          (e1, p1) = finalize_worker_record stamp clock ''stopping'' False False s (e, p);
          (e2, workers') = terminate_epoch workers e1;
          (e3, p2) = (if truthy_string wid
                      then finalize_worker_record stamp clock final_state False remove s (e2\<lparr>ep_worker := wid\<rparr>, p1)
                      else (e2, p1))
      in (e3\<lparr>ep_worker := None\<rparr>, workers', p2))"

definition discard_epoch_record ::
  "string \<Rightarrow> real \<Rightarrow> string \<Rightarrow> mobile_session \<times> worker_table \<times> pool \<Rightarrow> mobile_session \<times> worker_table \<times> pool" where
  "discard_epoch_record stamp clock eid swp =
     (let (s, workers, p) = swp; b = ms_browser s;
          (workers', p') = (case dict_get (bs_epochs b) eid of
             None \<Rightarrow> (workers, p)
           | Some e \<Rightarrow> snd (terminate_epoch_record stamp clock ''stopped'' True s (e, workers, p)))
      in (s\<lparr>ms_browser := fst (discard_epoch eid (b, workers))\<rparr>, workers', p'))"

section \<open>Queueing workers for the epochs of a session\<close>

definition epoch_needs_worker ::
  "string \<Rightarrow> real \<Rightarrow> mobile_session \<Rightarrow> playback_epoch \<times> pool \<Rightarrow> bool \<times> playback_epoch \<times> pool" where
  "epoch_needs_worker stamp clock s ep =
     (let (e, p) = ep; wid = ep_worker e;
          r = (if truthy_string wid then dict_get p (the wid) else None) in
      if ep_state e \<in> {''failed'', ''draining'', ''ended''} then (False, e, p)
      else if ep_transcoder_completed e then (False, e, p)
      else case r of
             Some rec \<Rightarrow>
               if wr_state rec \<in> {''queued'', ''running'', ''stopping''}
               then (let e1 = rebuild_published_frontier stamp clock e in (False, e1, dict_set p (the wid) (sync_record stamp s e1 rec)))
               else (\<not> poll_running (ep_process e), e, p)
           | None \<Rightarrow>
               if poll_running (ep_process e) then (False, e, p)
               else (True, e\<lparr>ep_worker := (if truthy_string wid then None else wid)\<rparr>, p))"

text \<open>One of the epochs of the session: the outcome says whether it runs or waits.\<close>

datatype worker_need = Runs | Waits | Idle

definition ensure_epoch_worker ::
  "string \<Rightarrow> string \<Rightarrow> real \<Rightarrow> mobile_session \<Rightarrow> playback_epoch \<times> pool \<Rightarrow> worker_need \<times> playback_epoch \<times> pool" where
  "ensure_epoch_worker new_id stamp clock s ep =
     (let (e, p) = ep; wid = ep_worker e; r = (if truthy_string wid then dict_get p (the wid) else None) in
      if poll_running (ep_process e) then
        (let (w, e1, p1) = ensure_worker_record new_id stamp clock s ep;
             e2 = rebuild_published_frontier stamp clock e1
         in (Runs, e2\<lparr>ep_state := (if ep_state e2 = ''starting'' then ''warming'' else ep_state e2)\<rparr>,
             dict_set p1 w (sync_record stamp s e2 ((the (dict_get p1 w))\<lparr>wr_state := ''running''\<rparr>))))
      else if (case r of Some rec \<Rightarrow> wr_state rec = ''queued'' | None \<Rightarrow> False) then
        (let e1 = rebuild_published_frontier stamp clock e
         in (Waits, e1\<lparr>ep_state := (if ep_state e1 \<notin> {''failed'', ''draining'', ''ended''} then ''starting'' else ep_state e1)\<rparr>,
             dict_set p (the wid) (sync_record stamp s e1 (the r))))
      else
        let (needed, e1, p1) = epoch_needs_worker stamp clock s ep in
        if \<not> needed then (Idle, e1, p1)
        else
          let (w, e2, p2) = ensure_worker_record new_id stamp clock s (e1, p1)
          in (Waits, e2\<lparr>ep_stop_requested := False, ep_state := ''starting''\<rparr>,
              dict_set p2 w ((the (dict_get p2 w))\<lparr>wr_state := ''queued'', wr_assigned := 0\<rparr>)))"

definition ensure_one ::
  "string \<Rightarrow> real \<Rightarrow> string \<times> string option \<Rightarrow> worker_need list \<times> mobile_session \<times> pool \<Rightarrow> worker_need list \<times> mobile_session \<times> pool" where
  "ensure_one stamp clock idref acc =
     (let (new_id, ref) = idref; (needs, s, p) = acc in
      case epoch_of (ms_browser s) ref of
        None \<Rightarrow> acc
      | Some e \<Rightarrow>
          let (need, e', p') = ensure_epoch_worker new_id stamp clock s (e, p)
          in (needs @ [need], s\<lparr>ms_browser := update_epoch (the ref) (\<lambda>_. e') (ms_browser s)\<rparr>, p'))"

definition ensure_epoch_workers ::
  "string \<Rightarrow> string \<Rightarrow> string \<Rightarrow> real \<Rightarrow> mobile_session \<times> pool \<Rightarrow> mobile_session \<times> pool" where
  "ensure_epoch_workers id1 id2 stamp clock sp =
     (let (s, p) = sp; b = ms_browser s in
      if ms_parked s then
        (s\<lparr>ms_worker_state := (if \<exists>ref \<in> set [bs_active b, bs_replacement b].
             (case epoch_of b ref of None \<Rightarrow> False | Some e \<Rightarrow> poll_running (ep_process e)) then ''running'' else ''idle''),
           ms_queue_started := None\<rparr>, p)
      else
        let (needs, s1, p1) = ensure_one stamp clock (id2, bs_replacement b) (ensure_one stamp clock (id1, bs_active b) ([], s, p)) in
        (if Runs \<in> set needs then s1\<lparr>ms_worker_state := ''running'', ms_queue_started := None\<rparr>
         else if Waits \<in> set needs
         then s1\<lparr>ms_worker_state := ''queued'', ms_queue_started := (if ms_queue_started s1 = None then Some clock else ms_queue_started s1)\<rparr>
         else s1\<lparr>ms_worker_state := ''idle'', ms_queue_started := None\<rparr>, p1))"

section \<open>Parking and resuming\<close>

definition BACKGROUND_PREPARATION_PARK_SECONDS :: real where "BACKGROUND_PREPARATION_PARK_SECONDS = 300"

text \<open>What parking does to the epochs of the session: those with a record of it are asked to stop.\<close>

definition request_stop :: "bool \<Rightarrow> string list \<Rightarrow> mobile_session \<Rightarrow> mobile_session" where
  "request_stop flag eids s =
     s\<lparr>ms_browser := foldl (\<lambda>b eid. update_epoch eid (\<lambda>e. e\<lparr>ep_stop_requested := flag\<rparr>) b) (ms_browser s) eids\<rparr>"

definition epochs_with_records :: "mobile_session \<Rightarrow> pool \<Rightarrow> string list" where
  "epochs_with_records s p = map (wr_epoch \<circ> snd) (filter (\<lambda>(w, r). wr_session r = ms_id s) p)"

definition park_record :: "worker_record \<Rightarrow> worker_record" where
  "park_record r =
     (if wr_state r = ''queued'' then r\<lparr>wr_state := ''paused''\<rparr>
      else if wr_state r = ''running'' then r\<lparr>wr_stop_requested := True, wr_state := ''stopping''\<rparr> else r)"

definition of_session :: "mobile_session \<Rightarrow> (worker_record \<Rightarrow> worker_record) \<Rightarrow> pool \<Rightarrow> pool" where
  "of_session s f p = map (\<lambda>(w, r). (w, if wr_session r = ms_id s then f r else r)) p"

definition park_backgrounded :: "real \<Rightarrow> mobile_session \<times> pool \<Rightarrow> mobile_session \<times> pool" where
  "park_backgrounded now sp =
     (let (s, p) = sp in
      if bs_engine_mode (ms_browser s) \<noteq> ''route2'' then (s, p)
      else if ms_lifecycle s \<noteq> ''background-suspended'' then (s, p)
      else if ms_backgrounded_at s \<le> 0 then (s\<lparr>ms_backgrounded_at := now\<rparr>, p)
      else if now - ms_backgrounded_at s < BACKGROUND_PREPARATION_PARK_SECONDS then (s, p)
      else if ms_parked s then (s, p)
      else
        (request_stop True (epochs_with_records s p)
           (s\<lparr>ms_parked := True, ms_parked_at := now, ms_lifecycle := ''background-parked'', ms_queue_started := None,
              ms_worker_state := (if \<exists>wr \<in> set p. wr_session (snd wr) = ms_id s \<and> wr_state (snd wr) = ''running''
                                  then ''stopping'' else ''idle'')\<rparr>),
         of_session s park_record p))"

definition resume_record :: "worker_record \<Rightarrow> worker_record" where
  "resume_record r =
     (let r1 = (if wr_state r = ''paused'' then r\<lparr>wr_state := ''queued''\<rparr>
                else if wr_state r = ''stopping''
                then r\<lparr>wr_state := (if truthy_string (wr_started r) \<and> \<not> truthy_string (wr_finished r) then ''running'' else ''queued'')\<rparr>
                else r)
      in r1\<lparr>wr_stop_requested := False\<rparr>)"

definition apply_background_lifecycle :: "string \<Rightarrow> real \<Rightarrow> mobile_session \<times> pool \<Rightarrow> mobile_session \<times> pool" where
  "apply_background_lifecycle lifecycle now sp =
     (let (s, p) = sp; normalized = py_strip lifecycle;
          s1 = (if ms_backgrounded_at s \<le> 0 then s\<lparr>ms_backgrounded_at := now\<rparr> else s) in
      if normalized = ''background-suspended'' then (s1, p)
      else if normalized = ''background-parked'' then (s1\<lparr>ms_parked := True, ms_parked_at := now\<rparr>, p)
      else if normalized \<in> {''resuming'', ''attached''} then
        (let (s2, p2) = (if ms_parked s
               then (request_stop False (epochs_with_records s p) (s\<lparr>ms_resumed_at := now\<rparr>), of_session s resume_record p)
               else (s, p))
         in (s2\<lparr>ms_parked := False, ms_backgrounded_at := 0\<rparr>, p2))
      else (s, p))"

section \<open>Threads\<close>

record thread_settings =
  ts_budget_percent :: int
  ts_min :: int
  ts_max :: int
  ts_protected :: int
  ts_adaptive_max :: int
  ts_adaptive :: bool
  ts_local_only :: bool
  ts_cloud :: bool
  ts_real_9 :: bool
  ts_strict_12 :: bool

text \<open>What \<^verbatim>\<open>config.py\<close> requires of them.\<close>

definition thread_settings_ok :: "thread_settings \<Rightarrow> bool" where
  "thread_settings_ok ts \<longleftrightarrow>
     10 \<le> ts_budget_percent ts \<and> ts_budget_percent ts \<le> 95 \<and> 1 \<le> ts_min ts \<and> ts_min ts \<le> ts_max ts
   \<and> 1 \<le> ts_protected ts \<and> ts_protected ts \<le> ts_max ts \<and> ts_min ts \<le> ts_adaptive_max ts"

definition cpu_upbound_cores_for_total :: "int \<Rightarrow> int \<Rightarrow> int" where
  "cpu_upbound_cores_for_total total_cpu_cores percent = max 1 (max 1 total_cpu_cores * percent div 100)"

definition in_states :: "string set \<Rightarrow> pool \<Rightarrow> worker_record list" where
  "in_states states p = filter (\<lambda>r. wr_state r \<in> states) (map snd p)"

definition running_threads :: "int option \<Rightarrow> pool \<Rightarrow> int" where
  "running_threads user p =
     sum_list (map (\<lambda>r. max 0 (wr_assigned r))
       (filter (\<lambda>r. case user of None \<Rightarrow> True | Some u \<Rightarrow> wr_user r = u) (in_states {''running''} p)))"

record budget =
  bg_total :: int
  bg_per_user :: int
  bg_users :: int
  bg_workloads :: int

definition budget_summary :: "int \<Rightarrow> thread_settings \<Rightarrow> pool \<Rightarrow> budget" where
  "budget_summary cpus ts p =
     (let total = cpu_upbound_cores_for_total cpus (ts_budget_percent ts);
          active = in_states {''queued'', ''running''} p;
          users = int (length (remdups (map wr_user active)))
      in \<lparr>bg_total = total, bg_per_user = (if users > 0 then max 1 (total div users) else total),
          bg_users = users, bg_workloads = int (length active)\<rparr>)"

text \<open>The last sample of the resources of the host.\<close>

record resource_snapshot =
  rs_sampled_at :: real
  rs_mature :: bool
  rs_cpu :: "real option"
  rs_user_cpu :: "(int \<times> real) list"
  rs_total_memory :: "int option"
  rs_memory :: "int option"
  rs_pressure :: string
  rs_ffmpeg :: int
  rs_ffmpeg_cores :: "real option"

definition ROUTE2_RESOURCE_SNAPSHOT_STALE_SECONDS :: real where "ROUTE2_RESOURCE_SNAPSHOT_STALE_SECONDS = 5"

definition fresh_snapshot :: "real \<Rightarrow> resource_snapshot option \<Rightarrow> resource_snapshot option" where
  "fresh_snapshot now snap =
     (case snap of None \<Rightarrow> None
      | Some x \<Rightarrow> if now - rs_sampled_at x > ROUTE2_RESOURCE_SNAPSHOT_STALE_SECONDS then None else Some x)"

definition conservative_spawn_target :: "thread_settings \<Rightarrow> int \<Rightarrow> int \<Rightarrow> int \<Rightarrow> int" where
  "conservative_spawn_target ts fixed available user_remaining =
     (let baseline = min (max (ts_min ts) 4) (max 0 fixed);
          ceiling = min (min (max 0 available) (max 0 user_remaining)) (max 0 (ts_adaptive_max ts))
      in if ceiling \<le> 0 then 0 else min baseline ceiling)"

definition cloud_prepare_enabled :: "thread_settings \<Rightarrow> bool" where
  "cloud_prepare_enabled ts = (\<not> ts_local_only ts \<and> ts_cloud ts)"

text \<open>The threads a start by the ladder of 6, 9 and 12 would take.\<close>

definition ladder_target :: "thread_settings \<Rightarrow> int \<Rightarrow> int \<Rightarrow> int \<Rightarrow> int" where
  "ladder_target ts available user_remaining upbound =
     (let first = max 6 (ts_min ts); boost = max first 9; strict = max boost 12;
          ceiling = min (min (max 0 (ts_adaptive_max ts)) (max 0 available)) (min (max 0 user_remaining) (max 0 upbound))
      in if ts_strict_12 ts \<and> ts_real_9 ts \<and> ceiling \<ge> strict then strict
         else if ts_real_9 ts \<and> ceiling \<ge> boost then boost
         else min first ceiling)"

definition blocker :: "bool \<Rightarrow> string \<Rightarrow> string list" where
  "blocker c name = (if c then [name] else [])"

definition source_blockers :: "thread_settings \<Rightarrow> string \<Rightarrow> string list" where
  "source_blockers ts kind =
     (if kind = ''cloud'' then blocker (\<not> cloud_prepare_enabled ts) ''cloud_adaptive_disabled''
      else blocker (kind \<noteq> ''local'') ''unsupported_source_kind'')"

text \<open>A snapshot that is stale still counts for the sizes of memory, as in the code.\<close>

definition resource_blockers :: "real \<Rightarrow> resource_snapshot option \<Rightarrow> int \<Rightarrow> string list" where
  "resource_blockers now snap user =
     (let fresh = fresh_snapshot now snap in
      (case fresh of None \<Rightarrow> []
       | Some x \<Rightarrow> blocker (rs_pressure x = ''high'') ''external_host_cpu_pressure_high''
                 @ blocker (rs_pressure x = ''moderate'') ''external_host_cpu_pressure_moderate''
                 @ blocker (rs_ffmpeg x > 0) ''external_ffmpeg_detected'')
    @ (case snap of None \<Rightarrow> [''memory_metrics_missing'']
       | Some x \<Rightarrow>
           if rs_total_memory x = None \<or> rs_memory x = None then [''memory_metrics_missing'']
           else blocker (fresh \<noteq> None \<and> the (rs_total_memory x) \<noteq> 0
                 \<and> real_of_int (the (rs_memory x)) / real_of_int (the (rs_total_memory x)) \<ge> 80 / 100) ''route2_memory_pressure'')
    @ (case fresh of None \<Rightarrow> [''route2_cpu_metrics_missing'', ''user_cpu_metrics_missing'']
       | Some x \<Rightarrow> blocker (rs_cpu x = None) ''route2_cpu_metrics_missing''))"

text \<open>\<^verbatim>\<open>list(dict.fromkeys(xs))\<close>: each element once, where it first occurs.\<close>

definition dict_fromkeys :: "'a list \<Rightarrow> 'a list" where
  "dict_fromkeys xs = rev (remdups (rev xs))"

lemma dict_fromkeys_simps [simp]: "set (dict_fromkeys xs) = set xs" "distinct (dict_fromkeys xs)" "dict_fromkeys xs = [] \<longleftrightarrow> xs = []"
  by (simp_all add: dict_fromkeys_def)

text \<open>The recommendation, what speaks against it, and whether the sample is mature.\<close>

definition adaptive_spawn_dry_run ::
  "thread_settings \<Rightarrow> real \<Rightarrow> resource_snapshot option \<Rightarrow> worker_record \<Rightarrow> int \<Rightarrow> int \<Rightarrow> int \<Rightarrow> budget \<Rightarrow> int \<times> string list \<times> bool" where
  "adaptive_spawn_dry_run ts now snap r fixed available user_remaining bg =
     (let fresh = fresh_snapshot now snap;
          mature = (case fresh of None \<Rightarrow> False | Some x \<Rightarrow> rs_mature x);
          target = ladder_target ts available user_remaining (bg_total bg);
          user_cpu = (case fresh of None \<Rightarrow> None | Some x \<Rightarrow> Some (case dict_get (rs_user_cpu x) (wr_user r) of Some c \<Rightarrow> c | None \<Rightarrow> 0));
          cpu = (case fresh of None \<Rightarrow> None | Some x \<Rightarrow> rs_cpu x);
          blockers =
            source_blockers ts (wr_source_kind r)
            @ blocker (bg_workloads bg \<noteq> 1) ''existing_route2_workload_present''
            @ blocker (\<not> mature) ''telemetry_missing_or_stale''
            @ resource_blockers now snap (wr_user r)
            @ blocker (target < ts_min ts) ''below_min_worker_threads''
            @ (case cpu of None \<Rightarrow> [] | Some c \<Rightarrow> blocker (real_of_int (bg_total bg) - c < real_of_int target) ''global_cpu_headroom_insufficient'')
            @ (case user_cpu of None \<Rightarrow> [] | Some c \<Rightarrow> blocker (real_of_int (bg_per_user bg) - c < real_of_int target) ''user_cpu_headroom_insufficient'')
      in (if blockers = [] then target else conservative_spawn_target ts fixed available user_remaining, dict_fromkeys blockers, mature))"

section \<open>What speaks against more threads\<close>

definition provider_prepare_blocker :: "string option \<Rightarrow> string option" where
  "provider_prepare_blocker error =
     (if \<not> truthy_string error then None
      else let l = py_lower (the error) in
        if contains ''quota'' l then Some ''provider_quota_exceeded''
        else if contains ''auth'' l \<or> contains ''token'' l \<or> contains ''reconnect'' l then Some ''provider_auth_required''
        else Some ''provider_source_error'')"

definition prepare_alias :: "string \<Rightarrow> string list" where
  "prepare_alias b =
     (if b \<in> {''external_host_cpu_pressure_high'', ''external_host_cpu_pressure_moderate''} then [''external_pressure'']
      else if b \<in> {''external_ffmpeg_detected'', ''external_ffmpeg_process_present''} then [''external_ffmpeg'']
      else if b \<in> {''route2_memory_pressure'', ''route2_memory_hard_pressure''} then [''ram_pressure'']
      else if b = ''telemetry_missing_or_stale'' then [''lite_telemetry_immature''] else [])"

definition HARD_LITE_BLOCKERS :: "string list" where
  "HARD_LITE_BLOCKERS = [''lite_telemetry_immature'', ''lite_cpu_thread_bottleneck_not_proven'', ''provider_auth_required'',
     ''provider_quota_exceeded'', ''provider_source_error'', ''source_bound'', ''client_bound'', ''external_pressure'', ''external_ffmpeg'', ''ram_pressure'']"

definition SOFT_LITE_BLOCKERS :: "string list" where
  "SOFT_LITE_BLOCKERS = [''lite_runway_already_sufficient'', ''lite_supply_healthy_no_boost_needed'']"

definition CLOUD_BLOCKERS :: "string list" where
  "CLOUD_BLOCKERS = [''cloud_adaptive_disabled'', ''cloud_source_feed_unavailable'', ''cloud_source_feed_immature'',
     ''cloud_source_feed_low'', ''provider_auth_required'', ''provider_quota_exceeded'', ''provider_source_error'', ''client_bound'',
     ''source_bound'', ''cpu_thread_not_primary'', ''limiting_factor_confidence_low'']"

definition strong_worker_cpu :: "worker_record \<Rightarrow> bool" where
  "strong_worker_cpu r =
     (case wr_cpu_used r of None \<Rightarrow> False
      | Some c \<Rightarrow> let t = real_of_int (max 1 (wr_assigned r)); used = max 0 c in
          used / t \<ge> 95 / 100 \<or> used \<ge> max 2 (t * (95 / 100)))"

definition strict_12_prepare_blockers ::
  "thread_settings \<Rightarrow> worker_record \<Rightarrow> mobile_session \<Rightarrow> playback_epoch \<Rightarrow> int \<Rightarrow> bool \<Rightarrow> string list \<Rightarrow> string list \<Rightarrow> string list" where
  "strict_12_prepare_blockers ts r s e target mature lite cloud =
     (let provider = provider_prepare_blocker (if truthy_string (wr_error r) then wr_error r else ms_last_error s);
          startup = (wr_state r = ''queued'' \<and> \<not> ep_init_published e \<and> ep_contiguous_through e = None);
          local_startup = (wr_source_kind r = ''local'' \<and> startup);
          cloud_cpu = (wr_source_kind r = ''cloud'' \<and> set cloud \<inter> set CLOUD_BLOCKERS = {})
      in blocker (\<not> ts_strict_12 ts) ''strict_12_prepare_disabled''
       @ blocker (ts_adaptive_max ts < 12) ''adaptive_cap_below_12''
       @ blocker (target < 12) ''effective_ladder_target_below_12''
       @ blocker (\<not> mature) ''strict_12_telemetry_immature''
       @ (case provider of None \<Rightarrow> [] | Some b \<Rightarrow> [b])
       @ filter (\<lambda>b. b \<in> set (HARD_LITE_BLOCKERS @ SOFT_LITE_BLOCKERS)) lite
       @ filter (\<lambda>b. b \<in> set CLOUD_BLOCKERS) cloud
       @ blocker (\<not> (strong_worker_cpu r \<or> local_startup \<or> cloud_cpu)) ''strict_12_cpu_thread_bottleneck_not_proven'')"

section \<open>The threads of a worker\<close>

text \<open>The evidence of the parts not modelled here: what speaks against a boost of a lite or a cloud playback.\<close>

record prepare_evidence =
  pv_lite :: "worker_record \<Rightarrow> mobile_session \<Rightarrow> playback_epoch \<Rightarrow> int \<Rightarrow> bool \<Rightarrow> string list"
  pv_cloud :: "worker_record \<Rightarrow> mobile_session \<Rightarrow> playback_epoch \<Rightarrow> string list"

record thread_decision =
  td_threads :: int
  td_policy :: string
  td_source :: string
  td_blockers :: "string list"
  td_applied :: bool

definition fixed_decision :: "int \<Rightarrow> string \<Rightarrow> string \<Rightarrow> string list \<Rightarrow> thread_decision" where
  "fixed_decision fixed policy src blockers =
     \<lparr>td_threads = max 0 fixed, td_policy = policy, td_source = src, td_blockers = dict_fromkeys blockers, td_applied = False\<rparr>"

definition lite_prepare_blockers ::
  "prepare_evidence \<Rightarrow> worker_record \<Rightarrow> mobile_session \<Rightarrow> playback_epoch \<Rightarrow> int \<times> string list \<times> bool \<Rightarrow> string list" where
  "lite_prepare_blockers pv r s e dry =
     (let (target, spawn, mature) = dry in
      filter (\<lambda>b. b \<notin> {''cloud_adaptive_disabled'', ''cloud_adaptive_thread_control_local_only''}) spawn
      @ concat (map prepare_alias spawn)
      @ blocker (\<not> mature) ''lite_telemetry_immature''
      @ (if wr_mode r = ''lite'' then pv_lite pv r s e target mature else []))"

definition cloud_prepare_blockers ::
  "thread_settings \<Rightarrow> prepare_evidence \<Rightarrow> worker_record \<Rightarrow> mobile_session \<Rightarrow> playback_epoch \<Rightarrow> int \<times> string list \<times> bool \<Rightarrow> string list" where
  "cloud_prepare_blockers ts pv r s e dry =
     (let (target, spawn, mature) = dry; cloud = (wr_source_kind r = ''cloud'') in
      (if cloud \<and> \<not> cloud_prepare_enabled ts
       then [''cloud_adaptive_disabled''] @ blocker (ts_local_only ts) ''cloud_adaptive_thread_control_local_only'' else [])
      @ spawn @ concat (map prepare_alias spawn)
      @ (if cloud then pv_cloud pv r s e else []))"

text \<open>The rung of the ladder that is left once evidence and flags have lowered the recommended one.\<close>

definition next_rung_below_12 :: "thread_settings \<Rightarrow> int" where
  "next_rung_below_12 ts = (if ts_real_9 ts \<and> ts_adaptive_max ts \<ge> 9 then 9 else 6)"

definition lowered_target ::
  "thread_settings \<Rightarrow> worker_record \<Rightarrow> mobile_session \<Rightarrow> playback_epoch \<Rightarrow> int \<Rightarrow> bool \<Rightarrow> string list \<Rightarrow> string list \<Rightarrow> int" where
  "lowered_target ts r s e recommended mature lite cloud =
     (let t1 = (if wr_mode r = ''lite'' \<and> set lite \<inter> set HARD_LITE_BLOCKERS = {} \<and> recommended \<ge> 9
                   \<and> set lite \<inter> set SOFT_LITE_BLOCKERS \<noteq> {} then 6 else recommended);
          t2 = (if recommended \<ge> 12 \<and> \<not> ts_strict_12 ts then next_rung_below_12 ts else t1)
      in if ts_strict_12 ts \<and> recommended \<ge> 12 \<and> strict_12_prepare_blockers ts r s e t2 mature lite cloud \<noteq> [] \<and> t2 \<ge> 12
         then next_rung_below_12 ts else t2)"

definition assignment_blockers ::
  "thread_settings \<Rightarrow> worker_record \<Rightarrow> int \<Rightarrow> int \<Rightarrow> string list \<times> bool \<Rightarrow> string list \<Rightarrow> string list \<Rightarrow> string list" where
  "assignment_blockers ts r fixed target spawn lite cloud =
     (if wr_source_kind r = ''cloud'' \<and> \<not> cloud_prepare_enabled ts
      then [''cloud_adaptive_disabled''] @ blocker (ts_local_only ts) ''cloud_adaptive_thread_control_local_only''
      else blocker (wr_source_kind r \<notin> {''cloud'', ''local''}) ''unsupported_source_kind'')
     @ fst spawn
     @ blocker (\<not> snd spawn) ''telemetry_missing_or_stale''
     @ (if wr_source_kind r = ''cloud'' then cloud else [])
     @ (if wr_mode r = ''lite'' \<and> set lite \<inter> set HARD_LITE_BLOCKERS \<noteq> {} then lite else [])
     @ (if target \<in> {9, 12}
        then blocker (\<not> ts_real_9 ts) ''real_9_prepare_disabled'' @ blocker (ts_adaptive_max ts < 9) ''adaptive_max_below_9''
        else blocker (target \<noteq> 6) ''unsupported_real_adaptive_target'')
     @ blocker (ts_adaptive_max ts < 6) ''adaptive_max_below_first_tier''
     @ blocker (fixed < ts_min ts) ''fixed_assignment_below_min_worker_threads''"

definition resolve_assigned_threads ::
  "thread_settings \<Rightarrow> prepare_evidence \<Rightarrow> worker_record \<Rightarrow> mobile_session \<Rightarrow> playback_epoch \<Rightarrow> int \<Rightarrow> int \<times> string list \<times> bool \<Rightarrow> thread_decision" where
  "resolve_assigned_threads ts pv r s e fixed dry =
     (if \<not> ts_adaptive ts then fixed_decision fixed ''fixed_disabled'' ''fixed_disabled'' []
      else
        let (recommended, spawn, mature) = dry;
            lite = lite_prepare_blockers pv r s e dry; cloud = cloud_prepare_blockers ts pv r s e dry;
            target = lowered_target ts r s e recommended mature lite cloud;
            blockers = assignment_blockers ts r fixed target (spawn, mature) lite cloud;
            kind = (if wr_source_kind r = ''cloud'' then ''cloud'' else ''local'')
        in if blockers \<noteq> []
           then fixed_decision fixed ''adaptive_enabled_fixed_fallback''
                  (if \<exists>b \<in> set blockers. b = ''cloud_adaptive_disabled'' \<or> starts_with ''cloud_adaptive_thread_control'' b
                   then ''cloud_disabled'' else ''safety_fallback'') blockers
           else
             let src = (if target = 12 then ''adaptive_'' @ kind @ ''_prepare_12''
                        else if target = 9 then ''adaptive_'' @ kind @ ''_prepare_9''
                        else if kind = ''cloud'' then ''adaptive_cloud_prepare_6'' else ''adaptive_local_initial_6'')
             in \<lparr>td_threads = (if target = 12 then 12 else if target = 9 then 9 else 6), td_policy = src, td_source = src,
                  td_blockers = [], td_applied = True\<rparr>)"

section \<open>Giving up a replacement that lacks headroom\<close>

definition ROUTE2_ADAPTIVE_DOWNSHIFT_RETRY_BACKOFF_SECONDS :: real where "ROUTE2_ADAPTIVE_DOWNSHIFT_RETRY_BACKOFF_SECONDS = 30"
definition ROUTE2_ADAPTIVE_RECLAIM_RETRY_BACKOFF_SECONDS :: real where "ROUTE2_ADAPTIVE_RECLAIM_RETRY_BACKOFF_SECONDS = 30"

definition add_blocker :: "string list \<Rightarrow> string \<Rightarrow> string list" where
  "add_blocker bs b = (if b \<in> set bs then bs else bs @ [b])"

definition end_failed_or_ended :: "playback_epoch \<Rightarrow> playback_epoch" where
  "end_failed_or_ended e = e\<lparr>ep_state := (if ep_state e = ''failed'' then ''failed'' else ''ended'')\<rparr>"

definition abort_downshift_replacement ::
  "string \<Rightarrow> real \<Rightarrow> string \<Rightarrow> playback_epoch \<Rightarrow> mobile_session \<times> worker_table \<times> pool \<Rightarrow> mobile_session \<times> worker_table \<times> pool" where
  "abort_downshift_replacement stamp clock reason e swp =
     (let (s, workers, p) = swp; b = ms_browser s; a = bs_adaptive b;
          a1 = (if truthy_string (ep_reclaim_request e)
                then a\<lparr>ad_reclaim_state := ''reclaim_aborted'', ad_reclaim_abort := Some reason, ad_reclaim_failed := Some reason,
                       ad_reclaim_completed_at := Some stamp, ad_reclaim_retry_count := ad_reclaim_retry_count a + 1,
                       ad_reclaim_retry_not_before := clock + ROUTE2_ADAPTIVE_RECLAIM_RETRY_BACKOFF_SECONDS,
                       ad_reclaim_retry_blocker := Some ''adaptive_reclaim_retry_cooldown_active'',
                       ad_reclaim_blockers := add_blocker (ad_reclaim_blockers a) reason\<rparr>
                else a);
          a2 = a1\<lparr>ad_downshift_last_abort := Some reason, ad_downshift_retry_count := ad_downshift_retry_count a1 + 1,
                  ad_downshift_retry_not_before := clock + ROUTE2_ADAPTIVE_DOWNSHIFT_RETRY_BACKOFF_SECONDS,
                  ad_downshift_retry_blocker := Some ''adaptive_downshift_retry_cooldown_active''\<rparr>;
          b1 = update_epoch (ep_id e) (\<lambda>x. end_failed_or_ended (x\<lparr>ep_downshift_abort := Some reason\<rparr>)) (b\<lparr>bs_adaptive := a2\<rparr>);
          b2 = (case epoch_of b1 (bs_active b1) of None \<Rightarrow> b1
                | Some _ \<Rightarrow> update_epoch (the (bs_active b1)) (\<lambda>x. x\<lparr>ep_downshift_abort := Some reason\<rparr>) b1)
      in discard_epoch_record stamp clock (ep_id e) (s\<lparr>ms_browser := b2\<rparr>, workers, p))"

definition abort_resupply_replacement ::
  "string \<Rightarrow> real \<Rightarrow> string \<Rightarrow> playback_epoch \<Rightarrow> mobile_session \<times> worker_table \<times> pool \<Rightarrow> mobile_session \<times> worker_table \<times> pool" where
  "abort_resupply_replacement stamp clock reason e swp =
     (let (s, workers, p) = swp; b = ms_browser s; a = bs_adaptive b;
          a1 = a\<lparr>ad_resupply_state := ''aborted'', ad_resupply_abort := Some reason,
                 ad_resupply_blockers := add_blocker (ad_resupply_blockers a) reason,
                 ad_priority_reexpand := True, ad_donor_protection := True, ad_admission_blocked := True\<rparr>;
          b1 = update_epoch (ep_id e) (\<lambda>x. end_failed_or_ended (x\<lparr>ep_resupply_abort := Some reason\<rparr>)) (b\<lparr>bs_adaptive := a1\<rparr>)
      in discard_epoch_record stamp clock (ep_id e) (s\<lparr>ms_browser := b1\<rparr>, workers, p))"

section \<open>What each operation does to the threads in use\<close>

text \<open>What a record adds to the threads of a user, or of everybody.\<close>

definition threads_of :: "int option \<Rightarrow> worker_record \<Rightarrow> int" where
  "threads_of user r =
     (if wr_state r = ''running'' \<and> (case user of None \<Rightarrow> True | Some u \<Rightarrow> wr_user r = u) then max 0 (wr_assigned r) else 0)"

lemma threads_of_nonneg [simp]: "0 \<le> threads_of u r"
  by (simp add: threads_of_def)

lemma threads_of_idle [simp]: "wr_state r \<noteq> ''running'' \<Longrightarrow> threads_of u r = 0"
  by (simp add: threads_of_def)

lemma running_threads_sum: "running_threads u p = sum_list (map (threads_of u \<circ> snd) p)"
  unfolding running_threads_def in_states_def by (induction p) (auto simp: threads_of_def split: option.split)

lemma running_threads_nonneg [simp]: "0 \<le> running_threads u p"
  unfolding running_threads_sum by (intro sum_list_nonneg) auto

lemma running_threads_set:
  "running_threads u (dict_set p w r) = running_threads u p + threads_of u r - (case dict_get p w of None \<Rightarrow> 0 | Some r0 \<Rightarrow> threads_of u r0)"
  unfolding running_threads_sum by (induction p w r rule: dict_set.induct) auto

lemma running_threads_pop: "running_threads u (dict_pop p w) \<le> running_threads u p"
  unfolding running_threads_sum by (induction p w rule: dict_pop.induct) (simp_all add: add_increasing)

lemma dict_pop_set [simp]: "dict_pop (dict_set p w r) w = dict_pop p w"
  by (induction p w r rule: dict_set.induct) auto

lemma sync_record_fields [simp]:
  "wr_state (sync_record stamp s e r) = wr_state r" "wr_assigned (sync_record stamp s e r) = wr_assigned r"
  "wr_user (sync_record stamp s e r) = wr_user r" "wr_session (sync_record stamp s e r) = wr_session r"
  "wr_epoch (sync_record stamp s e r) = wr_epoch r" "wr_created (sync_record stamp s e r) = wr_created r"
  by (simp_all add: sync_record_def mark_runtime_finished_def)

lemma threads_of_sync [simp]: "threads_of u (sync_record stamp s e r) = threads_of u r"
  by (cases u) (simp_all add: threads_of_def)

text \<open>Ending an epoch with its record takes just that record out of the pool.\<close>

lemma finalize_pool:
  "truthy_string (ep_worker e) \<Longrightarrow> \<exists>r. snd (finalize_worker_record stamp clock st f False s (e, p)) = dict_set (dict_set p (the (ep_worker e)) r) (the (ep_worker e)) r"
  "\<not> truthy_string (ep_worker e) \<Longrightarrow> finalize_worker_record stamp clock st f rm s (e, p) = (e, p)"
  "truthy_string (ep_worker e) \<Longrightarrow> snd (finalize_worker_record stamp clock st f True s (e, p)) = dict_pop p (the (ep_worker e))"
proof -
  have set2: "dict_set (dict_set p w a) w b = dict_set p w b" for p :: pool and w a b
    by (induction p w a rule: dict_set.induct) auto
  show "truthy_string (ep_worker e) \<Longrightarrow> \<exists>r. snd (finalize_worker_record stamp clock st f False s (e, p)) = dict_set (dict_set p (the (ep_worker e)) r) (the (ep_worker e)) r"
    by (auto simp: finalize_worker_record_def ensure_worker_record_def Let_def set2)
qed (simp_all add: finalize_worker_record_def ensure_worker_record_def Let_def)

lemma terminate_epoch_pool:
  "snd (snd (terminate_epoch_record stamp clock st True s (e, workers, p))) =
     (if truthy_string (ep_worker e) then dict_pop p (the (ep_worker e)) else p)"
proof (cases "truthy_string (ep_worker e)")
  case True
  obtain e1 p1 where f: "finalize_worker_record stamp clock ''stopping'' False False s (e, p) = (e1, p1)" by fastforce
  obtain r where p1: "p1 = dict_set (dict_set p (the (ep_worker e)) r) (the (ep_worker e)) r"
    using finalize_pool(1)[OF True, of stamp clock "''stopping''" False s p] f by auto
  obtain e2 w2 where t: "terminate_epoch workers e1 = (e2, w2)" by fastforce
  have "snd (finalize_worker_record stamp clock st False True s (e2\<lparr>ep_worker := ep_worker e\<rparr>, p1)) = dict_pop p (the (ep_worker e))"
    using finalize_pool(3)[of "e2\<lparr>ep_worker := ep_worker e\<rparr>"] True by (simp add: p1)
  then show ?thesis using True by (auto simp: terminate_epoch_record_def Let_def f t split: prod.split)
qed (simp add: terminate_epoch_record_def finalize_pool(2) Let_def split: prod.split)

lemma discard_epoch_pool:
  "snd (snd (discard_epoch_record stamp clock eid (s, workers, p))) =
     (case dict_get (bs_epochs (ms_browser s)) eid of None \<Rightarrow> p
      | Some e \<Rightarrow> if truthy_string (ep_worker e) then dict_pop p (the (ep_worker e)) else p)"
  using terminate_epoch_pool[of stamp clock "''stopped''" s]
  by (auto simp: discard_epoch_record_def Let_def split: option.split prod.split)

lemma discard_pool_cases:
  "snd (snd (discard_epoch_record stamp clock eid (s, workers, p))) = p
   \<or> (\<exists>w. snd (snd (discard_epoch_record stamp clock eid (s, workers, p))) = dict_pop p w)"
  unfolding discard_epoch_pool by (auto split: option.split)

lemma abort_resupply_pool:
  "snd (snd (abort_resupply_replacement stamp clock why e (s, workers, p))) = p
   \<or> (\<exists>w. snd (snd (abort_resupply_replacement stamp clock why e (s, workers, p))) = dict_pop p w)"
  unfolding abort_resupply_replacement_def Let_def prod.case by (rule discard_pool_cases)

lemma abort_downshift_pool:
  "snd (snd (abort_downshift_replacement stamp clock why e (s, workers, p))) = p
   \<or> (\<exists>w. snd (snd (abort_downshift_replacement stamp clock why e (s, workers, p))) = dict_pop p w)"
  unfolding abort_downshift_replacement_def Let_def prod.case by (rule discard_pool_cases)

section \<open>The bounds of an assignment\<close>

lemma ladder_target_le:
  "ladder_target ts available remaining upbound \<le> max 0 available" "ladder_target ts available remaining upbound \<le> max 0 remaining"
proof -
  define ceiling where
    "ceiling = min (min (max 0 (ts_adaptive_max ts)) (max 0 available)) (min (max 0 remaining) (max 0 upbound))"
  have le: "ladder_target ts available remaining upbound \<le> ceiling"
    unfolding ladder_target_def Let_def ceiling_def[symmetric] by (simp only: split: if_split) simp
  have "ceiling \<le> max 0 available" "ceiling \<le> max 0 remaining"
    unfolding ceiling_def by (meson min.cobounded1 min.cobounded2 order_trans)+
  then show "ladder_target ts available remaining upbound \<le> max 0 available"
    "ladder_target ts available remaining upbound \<le> max 0 remaining" using le by (meson order_trans)+
qed

lemma next_rung_cases: "next_rung_below_12 ts = 9 \<or> next_rung_below_12 ts = 6"
  by (simp add: next_rung_below_12_def)

lemma lowered_target_cases:
  "lowered_target ts r s e n mature lite cloud = n \<or> lowered_target ts r s e n mature lite cloud = 6 \<and> 9 \<le> n
   \<or> lowered_target ts r s e n mature lite cloud = 9 \<and> 12 \<le> n"
  using next_rung_cases[of ts] by (auto simp: lowered_target_def Let_def)

lemma dry_run_unblocked:
  "adaptive_spawn_dry_run ts now snap r fixed available remaining bg = (n, [], mature) \<Longrightarrow> n = ladder_target ts available remaining (bg_total bg)"
  unfolding adaptive_spawn_dry_run_def Let_def prod.inject by (elim conjE) (simp only: dict_fromkeys_simps if_True simp_thms)

lemma assigned_threads_bounds:
  fixes pv and r :: worker_record and s :: mobile_session and e :: playback_epoch and now and snap and bg
  assumes "1 \<le> ts_min ts" and "ts_min ts \<le> fixed" and "fixed \<le> available" and "fixed \<le> remaining"
  defines "d \<equiv> resolve_assigned_threads ts pv r s e fixed (adaptive_spawn_dry_run ts now snap r fixed available remaining bg)"
  shows "td_threads d \<le> available" and "td_threads d \<le> remaining" and "td_threads d = fixed \<or> td_threads d \<in> {6, 9, 12} \<and> td_applied d"
proof -
  obtain n spawn mature where dry: "adaptive_spawn_dry_run ts now snap r fixed available remaining bg = (n, spawn, mature)"
    by (metis prod_cases3)
  have pos: "0 \<le> fixed" "max 0 available = available" "max 0 remaining = remaining" using assms(1-4) by simp_all
  define lite where "lite = lite_prepare_blockers pv r s e (n, spawn, mature)"
  define cloud where "cloud = cloud_prepare_blockers ts pv r s e (n, spawn, mature)"
  define t where "t = lowered_target ts r s e n mature lite cloud"
  define bs where "bs = assignment_blockers ts r fixed t (spawn, mature) lite cloud"
  have off: "td_threads d = fixed" if "\<not> ts_adaptive ts"
    using that pos(1) by (simp add: d_def resolve_assigned_threads_def fixed_decision_def)
  have blocked: "td_threads d = fixed" if "ts_adaptive ts" "bs \<noteq> []"
    using that pos(1)
    unfolding d_def resolve_assigned_threads_def Let_def dry prod.case lite_def[symmetric] cloud_def[symmetric] t_def[symmetric] bs_def[symmetric]
    by (simp add: fixed_decision_def)
  have free: "td_applied d \<and> td_threads d = (if t = 12 then 12 else if t = 9 then 9 else 6)" if "ts_adaptive ts" "bs = []"
    using that
    unfolding d_def resolve_assigned_threads_def Let_def dry prod.case lite_def[symmetric] cloud_def[symmetric] t_def[symmetric] bs_def[symmetric]
    by simp
  show "td_threads d = fixed \<or> td_threads d \<in> {6, 9, 12} \<and> td_applied d"
    using off blocked free by (cases "ts_adaptive ts"; cases "bs = []") auto
  have "td_threads d \<le> available \<and> td_threads d \<le> remaining"
  proof (cases "ts_adaptive ts \<and> bs = []")
    case True
    then have "spawn = []" and rung: "t \<in> {9, 12} \<or> t = 6" by (auto simp: bs_def assignment_blockers_def blocker_def split: if_splits)
    then have n: "n = ladder_target ts available remaining (bg_total bg)"
      using dry by (intro dry_run_unblocked[of ts now snap r fixed available remaining bg n mature]) simp
    have "td_threads d = t" using free True rung by auto
    moreover have "t \<le> n" using lowered_target_cases[of ts r s e n mature lite cloud] by (auto simp: t_def)
    ultimately show ?thesis
      using ladder_target_le[of ts available remaining "bg_total bg"] pos(2,3) n by simp
  next
    case False
    then have "td_threads d = fixed" using off blocked by blast
    then show ?thesis using assms(3,4) by simp
  qed
  then show "td_threads d \<le> available" and "td_threads d \<le> remaining" by auto
qed

end
