(* ===== verification/Worker_Dispatch.thy ===== *)
theory Worker_Dispatch
  imports Worker_Pool
begin

text \<open>
  The dispatcher of queued workers, \<^verbatim>\<open>_dispatch_waiting_route2_workers_locked\<close>: users in the order of their oldest queued
  record, one start each per round, as long as rounds start something and threads are left. The lemmas follow the budget,
  the queues and the records through a round; the properties say that no start exceeds the budget of the host or of the
  user, and when the dispatcher stops short of it.
\<close>

section \<open>The dispatcher\<close>

record dispatch_state =
  ds_sessions :: "(string \<times> mobile_session) list"
  ds_workers :: worker_table
  ds_pool :: pool
  ds_queues :: "(int \<times> string list) list"
  ds_available :: int
  ds_progress :: bool
  ds_started :: "string list"

text \<open>What the dispatcher reads besides the state: settings, evidence, the last sample, and the clock.\<close>

record dispatch_input =
  di_settings :: thread_settings
  di_evidence :: prepare_evidence
  di_snapshot :: "resource_snapshot option"
  di_clock :: real
  di_stamp :: string

definition session_epoch :: "(string \<times> mobile_session) list \<Rightarrow> worker_record \<Rightarrow> (mobile_session \<times> playback_epoch) option" where
  "session_epoch sessions r =
     (case dict_get sessions (wr_session r) of None \<Rightarrow> None
      | Some s \<Rightarrow>
          if bs_engine_mode (ms_browser s) \<noteq> ''route2'' then None
          else (case dict_get (bs_epochs (ms_browser s)) (wr_epoch r) of None \<Rightarrow> None | Some e \<Rightarrow> Some (s, e)))"

text \<open>The queued records of each user, oldest first.\<close>

definition queued_by_user :: "(string \<times> mobile_session) list \<Rightarrow> pool \<Rightarrow> (int \<times> string list) list" where
  "queued_by_user sessions p =
     foldl (\<lambda>q (w, r). dict_set q (wr_user r) ((case dict_get q (wr_user r) of Some ws \<Rightarrow> ws | None \<Rightarrow> []) @ [w])) []
       (filter (\<lambda>(w, r). wr_state r = ''queued'' \<and> session_epoch sessions r \<noteq> None)
         (sort_key (\<lambda>(w, r). wr_created r) (sort_key fst p)))"

definition replacement_target_threads :: "playback_epoch \<Rightarrow> int option" where
  "replacement_target_threads e =
     (if ep_replacement_reason e = Some ''maintenance_downshift'' \<and> ep_maintenance_target e \<noteq> None then ep_maintenance_target e
      else if ep_replacement_reason e = Some ''adaptive_resupply_boost'' \<and> ep_resupply_target e \<noteq> None then ep_resupply_target e
      else None)"

definition replacement_source :: "playback_epoch \<Rightarrow> int \<Rightarrow> string" where
  "replacement_source e n =
     (if ep_replacement_reason e = Some ''adaptive_resupply_boost'' then ''adaptive_resupply_boost_''
      else if truthy_string (ep_reclaim_request e) then ''adaptive_reclaim_maintenance_'' else ''adaptive_downshift_maintenance_'') @ show_int n"

definition started_record :: "dispatch_input \<Rightarrow> mobile_session \<Rightarrow> playback_epoch \<Rightarrow> int \<Rightarrow> int \<Rightarrow> string \<Rightarrow> worker_record \<Rightarrow> worker_record" where
  "started_record di s e assigned fixed src r =
     sync_record (di_stamp di) s e
       (r\<lparr>wr_state := ''running'', wr_fixed := Some fixed, wr_source := src, wr_assigned := assigned,
          wr_started := (if truthy_string (wr_started r) then wr_started r else Some (di_stamp di))\<rparr>)"

definition start_worker ::
  "dispatch_input \<Rightarrow> string \<Rightarrow> mobile_session \<Rightarrow> playback_epoch \<Rightarrow> int \<Rightarrow> int \<Rightarrow> string \<Rightarrow> worker_record \<Rightarrow> dispatch_state \<Rightarrow> dispatch_state" where
  "start_worker di wid s e assigned fixed src r ds =
     (let e1 = rebuild_published_frontier (di_stamp di) (di_clock di) e
      in ds\<lparr>ds_sessions := dict_set (ds_sessions ds) (wr_session r) (s\<lparr>ms_browser := update_epoch (wr_epoch r) (\<lambda>_. e1) (ms_browser s)\<rparr>),
            ds_pool := dict_set (ds_pool ds) wid (started_record di s e1 assigned fixed src r),
            ds_available := ds_available ds - assigned, ds_progress := True, ds_started := ds_started ds @ [wid]\<rparr>)"

definition abort_for_headroom ::
  "dispatch_input \<Rightarrow> playback_epoch \<Rightarrow> mobile_session \<times> worker_table \<times> pool \<Rightarrow> mobile_session \<times> worker_table \<times> pool" where
  "abort_for_headroom di e swp =
     (if ep_replacement_reason e = Some ''adaptive_resupply_boost''
      then abort_resupply_replacement (di_stamp di) (di_clock di) ''resupply_transition_headroom_unavailable'' e swp
      else abort_downshift_replacement (di_stamp di) (di_clock di) ''downshift_transition_headroom_unavailable'' e swp)"

definition abort_replacement ::
  "dispatch_input \<Rightarrow> worker_record \<Rightarrow> mobile_session \<Rightarrow> playback_epoch \<Rightarrow> dispatch_state \<Rightarrow> dispatch_state" where
  "abort_replacement di r s e ds =
     (let (s', workers', p') = abort_for_headroom di e (s, ds_workers ds, ds_pool ds)
      in ds\<lparr>ds_sessions := dict_set (ds_sessions ds) (wr_session r) s', ds_workers := workers', ds_pool := p'\<rparr>)"

text \<open>The record taken from the head of the queue of a user that has \<open>remaining\<close> threads left.\<close>

definition dispatch_record :: "dispatch_input \<Rightarrow> budget \<Rightarrow> int \<Rightarrow> string \<Rightarrow> dispatch_state \<Rightarrow> dispatch_state" where
  "dispatch_record di bg remaining wid ds =
     (let ts = di_settings di in
      case dict_get (ds_pool ds) wid of None \<Rightarrow> ds
      | Some r \<Rightarrow>
          (case session_epoch (ds_sessions ds) r of None \<Rightarrow> ds
           | Some (s, e) \<Rightarrow>
               if ms_parked s then ds
               else
                 let fixed = min (min (ts_max ts) (ds_available ds)) remaining in
                 if fixed < ts_min ts then ds
                 else
                   (case replacement_target_threads e of
                      Some t \<Rightarrow>
                        if ds_available ds < t \<or> remaining < t then abort_replacement di r s e ds
                        else if t < ts_min ts then ds
                        else start_worker di wid s e t t (replacement_source e t) r ds
                    | None \<Rightarrow>
                        let dry = adaptive_spawn_dry_run ts (di_clock di) (di_snapshot di) r fixed (ds_available ds) remaining bg;
                            d = resolve_assigned_threads ts (di_evidence di) r s e fixed dry
                        in if td_threads d < ts_min ts then ds
                           else start_worker di wid s e (td_threads d) fixed (td_source d) r ds)))"

text \<open>One user in a round; the answer says whether the dispatcher returns at once.\<close>

definition dispatch_user :: "dispatch_input \<Rightarrow> budget \<Rightarrow> int \<Rightarrow> dispatch_state \<Rightarrow> bool \<times> dispatch_state" where
  "dispatch_user di bg user ds =
     (let queue = (case dict_get (ds_queues ds) user of Some ws \<Rightarrow> ws | None \<Rightarrow> []);
          remaining = bg_per_user bg - running_threads (Some user) (ds_pool ds) in
      if queue = [] then (False, ds)
      else if remaining < ts_min (di_settings di) then (False, ds)
      else if ds_available ds < ts_min (di_settings di) then (True, ds)
      else (False, dispatch_record di bg remaining (hd queue) (ds\<lparr>ds_queues := dict_set (ds_queues ds) user (tl queue)\<rparr>)))"

fun dispatch_round :: "dispatch_input \<Rightarrow> budget \<Rightarrow> int list \<Rightarrow> dispatch_state \<Rightarrow> bool \<times> dispatch_state" where
  "dispatch_round di bg [] ds = (False, ds)"
| "dispatch_round di bg (u # us) ds =
     (case dispatch_user di bg u ds of (True, ds') \<Rightarrow> (True, ds') | (False, ds') \<Rightarrow> dispatch_round di bg us ds')"

definition head_created :: "pool \<Rightarrow> int \<times> string list \<Rightarrow> real" where
  "head_created p uq = (case snd uq of [] \<Rightarrow> 0 | w # _ \<Rightarrow> (case dict_get p w of Some r \<Rightarrow> wr_created r | None \<Rightarrow> 0))"

definition round_order :: "pool \<Rightarrow> dispatch_state \<Rightarrow> int list" where
  "round_order p0 ds = map fst (sort_key (head_created p0) (ds_queues ds))"

definition waiting :: "(int \<times> string list) list \<Rightarrow> nat" where
  "waiting q = sum_list (map (length \<circ> snd) q)"

lemma waiting_dict_set: "dict_get q u = Some ws \<Longrightarrow> waiting (dict_set q u ws') + length ws = waiting q + length ws'"
  by (induction q u ws' rule: dict_set.induct) (auto simp: waiting_def split: if_splits)

lemma dispatch_record_queues: "ds_queues (dispatch_record di bg remaining wid ds) = ds_queues ds"
  by (simp add: dispatch_record_def abort_replacement_def start_worker_def Let_def split: option.split prod.split)

lemma dispatch_user_waiting:
  assumes "dispatch_user di bg u ds = (ret, ds')"
  shows "ds' = ds \<or> waiting (ds_queues ds') < waiting (ds_queues ds)"
proof (cases "dict_get (ds_queues ds) u")
  case None
  then show ?thesis using assms by (simp add: dispatch_user_def)
next
  case (Some ws)
  then show ?thesis
    using assms waiting_dict_set[OF Some, of "tl ws"]
    by (cases ws) (auto simp: dispatch_user_def Let_def dispatch_record_queues split: if_splits)
qed

lemma dispatch_round_waiting:
  "dispatch_round di bg us ds = (ret, ds') \<Longrightarrow> ds' = ds \<or> waiting (ds_queues ds') < waiting (ds_queues ds)"
proof (induction di bg us ds rule: dispatch_round.induct)
  case (2 di bg u us ds)
  obtain ret1 ds1 where u: "dispatch_user di bg u ds = (ret1, ds1)" by fastforce
  note step = dispatch_user_waiting[OF u]
  show ?case
  proof (cases ret1)
    case True
    then show ?thesis using 2(2) u step by simp
  next
    case False
    then have "dispatch_round di bg us ds1 = (ret, ds')" using 2(2) u by simp
    moreover have "ds' = ds1 \<or> waiting (ds_queues ds') < waiting (ds_queues ds1)"
      by (rule 2(1)[of ret1 ds1]) (use u False calculation in simp_all)
    ultimately show ?thesis using step by auto
  qed
qed simp

text \<open>Rounds go on as long as one of them starts a worker; each shortens the queues.\<close>

function dispatch_loop :: "dispatch_input \<Rightarrow> budget \<Rightarrow> pool \<Rightarrow> dispatch_state \<Rightarrow> dispatch_state" where
  "dispatch_loop di bg p0 ds =
     (if ds_available ds < ts_min (di_settings di) then ds
      else let (ret, ds') = dispatch_round di bg (round_order p0 ds) (ds\<lparr>ds_progress := False\<rparr>) in
           if ret \<or> \<not> ds_progress ds' then ds' else dispatch_loop di bg p0 ds')"
  by pat_completeness auto
termination
proof (relation "measure (\<lambda>(di, bg, p0, ds). waiting (ds_queues ds))")
  fix di bg p0 ds x ret ds'
  assume "x = dispatch_round di bg (round_order p0 ds) (ds\<lparr>ds_progress := False\<rparr>)" "(ret, ds') = x" "\<not> (ret \<or> \<not> ds_progress ds')"
  then have "ds' = ds\<lparr>ds_progress := False\<rparr> \<or> waiting (ds_queues ds') < waiting (ds_queues ds)" and "ds_progress ds'"
    using dispatch_round_waiting[of di bg "round_order p0 ds" "ds\<lparr>ds_progress := False\<rparr>" ret ds'] by simp_all
  then show "((di, bg, p0, ds'), di, bg, p0, ds) \<in> measure (\<lambda>(di, bg, p0, ds). waiting (ds_queues ds))" by auto
qed simp

declare dispatch_loop.simps [simp del]

definition dispatch_waiting_workers ::
  "dispatch_input \<Rightarrow> int \<Rightarrow> (string \<times> mobile_session) list \<Rightarrow> worker_table \<Rightarrow> pool \<Rightarrow> dispatch_state" where
  "dispatch_waiting_workers di cpus sessions workers p =
     (let bg = budget_summary cpus (di_settings di) p;
          ds = \<lparr>ds_sessions = sessions, ds_workers = workers, ds_pool = p, ds_queues = queued_by_user sessions p,
                ds_available = bg_total bg - running_threads None p, ds_progress = True, ds_started = []\<rparr>
      in dispatch_loop di bg p ds)"

section \<open>The pool after an abort\<close>

lemma abort_for_headroom_pool:
  "snd (snd (abort_for_headroom di e (s, workers, p))) = p \<or> (\<exists>w. snd (snd (abort_for_headroom di e (s, workers, p))) = dict_pop p w)"
proof (cases "ep_replacement_reason e = Some ''adaptive_resupply_boost''")
  case True
  show ?thesis unfolding abort_for_headroom_def if_P[OF True] by (rule abort_resupply_pool)
next
  case False
  show ?thesis unfolding abort_for_headroom_def if_not_P[OF False] by (rule abort_downshift_pool)
qed

lemma abort_replacement_pool:
  "ds_pool (abort_replacement di r s e ds) = ds_pool ds \<or> (\<exists>w. ds_pool (abort_replacement di r s e ds) = dict_pop (ds_pool ds) w)"
proof -
  obtain s' w' p' where a: "abort_for_headroom di e (s, ds_workers ds, ds_pool ds) = (s', w', p')" by (metis prod_cases3)
  have "ds_pool (abort_replacement di r s e ds) = p'" by (simp add: abort_replacement_def a)
  then show ?thesis using abort_for_headroom_pool[of di e s "ds_workers ds" "ds_pool ds"] by (simp add: a)
qed

section \<open>One record\<close>

text \<open>A record either starts within what its user and the host have left, or changes no threads.\<close>

lemma dispatch_record_effect:
  fixes di and bg and remaining and wid and ds
  assumes min: "1 \<le> ts_min (di_settings di)"
  defines "ds' \<equiv> dispatch_record di bg remaining wid ds"
  shows "ds_available ds' = ds_available ds \<and> ds_started ds' = ds_started ds \<and> ds_progress ds' = ds_progress ds
           \<and> (ds_pool ds' = ds_pool ds \<or> (\<exists>w. ds_pool ds' = dict_pop (ds_pool ds) w))
       \<or> (\<exists>r r'. dict_get (ds_pool ds) wid = Some r \<and> wr_state r' = ''running'' \<and> wr_user r' = wr_user r
           \<and> ts_min (di_settings di) \<le> wr_assigned r' \<and> wr_assigned r' \<le> ds_available ds \<and> wr_assigned r' \<le> remaining
           \<and> ds_pool ds' = dict_set (ds_pool ds) wid r' \<and> ds_available ds' = ds_available ds - wr_assigned r'
           \<and> ds_started ds' = ds_started ds @ [wid] \<and> ds_progress ds')"
    (is "?same ds' \<or> ?start ds'")
proof (cases "\<exists>r s e. dict_get (ds_pool ds) wid = Some r \<and> session_epoch (ds_sessions ds) r = Some (s, e)")
  case False
  then have "ds' = ds" by (auto simp: ds'_def dispatch_record_def Let_def split: option.split)
  then show ?thesis by simp
next
  case True
  then obtain r s e where g: "dict_get (ds_pool ds) wid = Some r" and se: "session_epoch (ds_sessions ds) r = Some (s, e)" by blast
  define fixed where "fixed = min (min (ts_max (di_settings di)) (ds_available ds)) remaining"
  have le: "fixed \<le> ds_available ds" "fixed \<le> remaining" by (simp_all add: fixed_def)
  define d where "d = resolve_assigned_threads (di_settings di) (di_evidence di) r s e fixed
    (adaptive_spawn_dry_run (di_settings di) (di_clock di) (di_snapshot di) r fixed (ds_available ds) remaining bg)"
  have ds': "ds' = (if ms_parked s \<or> fixed < ts_min (di_settings di) then ds
      else (case replacement_target_threads e of
              Some t \<Rightarrow> if ds_available ds < t \<or> remaining < t then abort_replacement di r s e ds
                        else if t < ts_min (di_settings di) then ds
                        else start_worker di wid s e t t (replacement_source e t) r ds
            | None \<Rightarrow> if td_threads d < ts_min (di_settings di) then ds
                      else start_worker di wid s e (td_threads d) fixed (td_source d) r ds))"
    unfolding ds'_def dispatch_record_def Let_def g se option.case prod.case d_def fixed_def
    by (cases "ms_parked s") (simp_all only: if_True if_False simp_thms)
  have start: "?start (start_worker di wid s e a f src r ds)"
    if "ts_min (di_settings di) \<le> a" "a \<le> ds_available ds" "a \<le> remaining" for a f src
    using that
    by (intro exI[of _ r] exI[of _ "started_record di s (rebuild_published_frontier (di_stamp di) (di_clock di) e) a f src r"])
       (simp add: start_worker_def started_record_def g Let_def)
  have abort: "?same (abort_replacement di r s e ds)"
    using abort_replacement_pool[of di r s e ds] by (simp add: abort_replacement_def split: prod.split)
  show ?thesis
  proof (cases "ms_parked s \<or> fixed < ts_min (di_settings di)")
    case True
    then show ?thesis by (simp add: ds')
  next
    case False
    then have "ts_min (di_settings di) \<le> fixed" by simp
    note bounds = assigned_threads_bounds[OF min this le, of "di_evidence di" r s e "di_clock di" "di_snapshot di" bg, folded d_def]
    show ?thesis
    proof (cases "replacement_target_threads e")
      case None
      then show ?thesis
        using start[of "td_threads d"] bounds(1,2) False by (cases "td_threads d < ts_min (di_settings di)") (simp_all add: ds')
    next
      case (Some t)
      show ?thesis
      proof (cases "ds_available ds < t \<or> remaining < t")
        case True
        then have "ds' = abort_replacement di r s e ds" using False by (simp add: ds' Some)
        then show ?thesis using abort by simp
      next
        case fits: False
        then show ?thesis using start[of t] False by (cases "t < ts_min (di_settings di)") (simp_all add: ds' Some)
      qed
    qed
  qed
qed

section \<open>What the dispatcher keeps\<close>

text \<open>A property of the state that serving one user keeps holds when the dispatcher is done.\<close>

locale dispatch_invariant =
  fixes di :: dispatch_input and bg :: budget and keeps :: "dispatch_state \<Rightarrow> bool"
  assumes progress: "keeps ds \<Longrightarrow> keeps (ds\<lparr>ds_progress := b\<rparr>)"
    and user: "keeps ds \<Longrightarrow> keeps (snd (dispatch_user di bg u ds))"
begin

lemma round: "keeps ds \<Longrightarrow> keeps (snd (dispatch_round di bg us ds))"
proof (induction us arbitrary: ds)
  case (Cons u us)
  obtain ret ds1 where s: "dispatch_user di bg u ds = (ret, ds1)" by fastforce
  then have "keeps ds1" using user[OF Cons.prems, of u] by simp
  then show ?case using Cons.IH by (cases ret) (simp_all add: s)
qed simp

lemma loop: "keeps ds \<Longrightarrow> keeps (dispatch_loop di bg p0 ds)"
proof (induction "waiting (ds_queues ds)" arbitrary: ds rule: less_induct)
  case less
  obtain ret ds' where r: "dispatch_round di bg (round_order p0 ds) (ds\<lparr>ds_progress := False\<rparr>) = (ret, ds')" by fastforce
  have k: "keeps ds'" using round[OF progress[OF less.prems, of False], of "round_order p0 ds"] by (simp add: r)
  show ?case
  proof (cases "ds_available ds < ts_min (di_settings di) \<or> ret \<or> \<not> ds_progress ds'")
    case True
    then show ?thesis using k less.prems by (subst dispatch_loop.simps) (auto simp: r)
  next
    case False
    then have "waiting (ds_queues ds') < waiting (ds_queues ds)" using dispatch_round_waiting[OF r] by auto
    then show ?thesis using less.hyps[OF _ k] False by (subst dispatch_loop.simps) (simp add: r)
  qed
qed

end

section \<open>The budget\<close>

definition queued_in :: "pool \<Rightarrow> (int \<times> string list) list \<Rightarrow> bool" where
  "queued_in p0 q \<longleftrightarrow>
     (\<forall>u ws w. dict_get q u = Some ws \<longrightarrow> w \<in> set ws \<longrightarrow> (\<exists>r. dict_get p0 w = Some r \<and> wr_user r = u \<and> wr_state r = ''queued''))"

lemma queued_in_next: "queued_in p0 q \<Longrightarrow> dict_get q u = Some (w # ws) \<Longrightarrow> queued_in p0 (dict_set q u ws)"
  unfolding queued_in_def by (metis dict_get_set list.set_intros(2) option.inject)

lemma queued_inD: "queued_in p0 q \<Longrightarrow> dict_get q u = Some ws \<Longrightarrow> w \<in> set ws \<Longrightarrow> \<exists>r. dict_get p0 w = Some r \<and> wr_user r = u \<and> wr_state r = ''queued''"
  by (simp add: queued_in_def)

definition budget_kept :: "dispatch_input \<Rightarrow> budget \<Rightarrow> pool \<Rightarrow> dispatch_state \<Rightarrow> bool" where
  "budget_kept di bg p0 ds \<longleftrightarrow>
     1 \<le> ts_min (di_settings di) \<and> dict_wf p0
   \<and> queued_in p0 (ds_queues ds)
   \<and> (\<forall>w r r0. dict_get (ds_pool ds) w = Some r \<longrightarrow> dict_get p0 w = Some r0 \<longrightarrow> wr_user r = wr_user r0)
   \<and> (\<forall>u. running_threads (Some u) (ds_pool ds) \<le> max (running_threads (Some u) p0) (bg_per_user bg))
   \<and> ds_available ds + running_threads None (ds_pool ds) \<le> bg_total bg
   \<and> running_threads None (ds_pool ds) \<le> max (running_threads None p0) (bg_total bg)
   \<and> (\<forall>w \<in> set (ds_started ds). \<exists>r. dict_get p0 w = Some r \<and> wr_state r = ''queued'')"

lemma running_threads_start:
  assumes "dict_get p w = Some r" and "wr_state r' = ''running''" and "wr_user r' = wr_user r" and "1 \<le> wr_assigned r'"
  shows "running_threads None (dict_set p w r') \<le> running_threads None p + wr_assigned r'"
    and "running_threads (Some u) (dict_set p w r') \<le> running_threads (Some u) p + (if wr_user r = u then wr_assigned r' else 0)"
  using assms by (auto simp: running_threads_set threads_of_def)

lemma budget_kept_record:
  assumes k: "budget_kept di bg p0 ds"
    and q: "dict_get p0 wid = Some r0" "wr_user r0 = u" "wr_state r0 = ''queued''"
    and rem: "remaining = bg_per_user bg - running_threads (Some u) (ds_pool ds)"
  shows "budget_kept di bg p0 (dispatch_record di bg remaining wid ds)"
proof -
  define ds' where "ds' = dispatch_record di bg remaining wid ds"
  have min: "1 \<le> ts_min (di_settings di)" using k by (simp add: budget_kept_def)
  have queues: "ds_queues ds' = ds_queues ds" by (simp add: ds'_def dispatch_record_queues)
  consider (same) "ds_available ds' = ds_available ds" "ds_started ds' = ds_started ds"
      "ds_pool ds' = ds_pool ds \<or> (\<exists>w. ds_pool ds' = dict_pop (ds_pool ds) w)"
    | (start) r r' where "dict_get (ds_pool ds) wid = Some r" "wr_state r' = ''running''" "wr_user r' = wr_user r"
      "1 \<le> wr_assigned r'" "wr_assigned r' \<le> ds_available ds" "wr_assigned r' \<le> remaining"
      "ds_pool ds' = dict_set (ds_pool ds) wid r'" "ds_available ds' = ds_available ds - wr_assigned r'"
      "ds_started ds' = ds_started ds @ [wid]"
    using dispatch_record_effect[OF min, of bg remaining wid ds, folded ds'_def] min by fastforce
  then have "budget_kept di bg p0 ds'"
  proof cases
    case same
    have le: "running_threads v (ds_pool ds') \<le> running_threads v (ds_pool ds)" for v
      using same(3) running_threads_pop by auto
    have sub: "dict_get (ds_pool ds') w = Some r \<Longrightarrow> dict_get (ds_pool ds) w = Some r" for w r
      using same(3) by (auto split: if_splits)
    show ?thesis
      using k le[of None] le[of "Some v" for v] sub
      unfolding budget_kept_def queues same(1,2) by (meson add_left_mono order_trans)
  next
    case (start r r')
    note run = running_threads_start[OF start(1-4)]
    have u: "wr_user r = u" using k start(1) q(1,2) by (auto simp: budget_kept_def)
    have total: "running_threads None (ds_pool ds') + ds_available ds' \<le> bg_total bg"
      using k run(1) start(7,8) by (simp add: budget_kept_def)
    have per_user: "running_threads (Some v) (ds_pool ds') \<le> max (running_threads (Some v) p0) (bg_per_user bg)" for v
      using k run(2)[of v] start(6,7) u rem by (cases "v = u") (auto simp: budget_kept_def dest: spec[of _ v])
    have users: "wr_user x = wr_user x0" if "dict_get (ds_pool ds') w = Some x" "dict_get p0 w = Some x0" for w x x0
      using k that start(3) u q by (cases "w = wid") (auto simp: budget_kept_def start(7))
    have started: "\<exists>x. dict_get p0 w = Some x \<and> wr_state x = ''queued''" if "w \<in> set (ds_started ds')" for w
      using k that q by (auto simp: budget_kept_def start(9))
    have "running_threads None (ds_pool ds') \<le> bg_total bg" using total start(5,8) by simp
    then show ?thesis
      using k total per_user users started unfolding budget_kept_def queues by (auto simp: add.commute le_max_iff_disj)
  qed
  then show ?thesis by (simp add: ds'_def)
qed

lemma budget_kept_user: "budget_kept di bg p0 ds \<Longrightarrow> budget_kept di bg p0 (snd (dispatch_user di bg u ds))"
proof -
  assume k: "budget_kept di bg p0 ds"
  show "budget_kept di bg p0 (snd (dispatch_user di bg u ds))"
  proof (cases "dict_get (ds_queues ds) u")
    case None
    then show ?thesis using k by (simp add: dispatch_user_def)
  next
    case (Some ws)
    show ?thesis
    proof (cases ws)
      case Nil
      then show ?thesis using k Some by (simp add: dispatch_user_def)
    next
      case (Cons w ws')
      define ds1 where "ds1 = ds\<lparr>ds_queues := dict_set (ds_queues ds) u ws'\<rparr>"
      obtain r0 where r0: "dict_get p0 w = Some r0" "wr_user r0 = u" "wr_state r0 = ''queued''"
        using k Some Cons queued_inD[of p0 "ds_queues ds" u ws w] by (auto simp: budget_kept_def)
      have "queued_in p0 (ds_queues ds1)"
        using k Some Cons queued_in_next[of p0 "ds_queues ds" u w ws'] by (simp add: budget_kept_def ds1_def)
      then have "budget_kept di bg p0 ds1" using k by (simp add: budget_kept_def ds1_def)
      then have "budget_kept di bg p0 (dispatch_record di bg (bg_per_user bg - running_threads (Some u) (ds_pool ds)) w ds1)"
        by (rule budget_kept_record[OF _ r0]) (simp add: ds1_def)
      then show ?thesis using k Some Cons by (simp add: dispatch_user_def Let_def ds1_def)
    qed
  qed
qed

interpretation budget_kept: dispatch_invariant di bg "budget_kept di bg p0" for di bg p0
  by unfold_locales (simp add: budget_kept_def, rule budget_kept_user)

text \<open>The queues the dispatcher starts from hold each user's queued records and no others.\<close>

definition add_queued :: "(int \<times> string list) list \<Rightarrow> string \<times> worker_record \<Rightarrow> (int \<times> string list) list" where
  "add_queued q wr = dict_set q (wr_user (snd wr)) ((case dict_get q (wr_user (snd wr)) of Some ws \<Rightarrow> ws | None \<Rightarrow> []) @ [fst wr])"

lemma queued_by_user_fold:
  "queued_by_user sessions p =
     foldl add_queued [] (filter (\<lambda>(w, r). wr_state r = ''queued'' \<and> session_epoch sessions r \<noteq> None)
       (sort_key (\<lambda>(w, r). wr_created r) (sort_key fst p)))"
  unfolding queued_by_user_def by (rule foldl_cong) (auto simp: add_queued_def)

lemma add_queued_members:
  "(\<exists>ws. dict_get (foldl add_queued q l) u = Some ws \<and> w \<in> set ws)
     \<longleftrightarrow> (\<exists>ws. dict_get q u = Some ws \<and> w \<in> set ws) \<or> (\<exists>r. (w, r) \<in> set l \<and> wr_user r = u)"
proof (induction l arbitrary: q)
  case (Cons x l)
  have "(\<exists>ws. dict_get (add_queued q x) u = Some ws \<and> w \<in> set ws)
      \<longleftrightarrow> (\<exists>ws. dict_get q u = Some ws \<and> w \<in> set ws) \<or> fst x = w \<and> wr_user (snd x) = u"
    by (cases "dict_get q (wr_user (snd x))") (auto simp: add_queued_def)
  then show ?case using Cons.IH[of "add_queued q x"] by (cases x) auto
qed simp

lemma queued_by_user_members:
  "(\<exists>ws. dict_get (queued_by_user sessions p) u = Some ws \<and> w \<in> set ws)
     \<longleftrightarrow> (\<exists>r. (w, r) \<in> set p \<and> wr_user r = u \<and> wr_state r = ''queued'' \<and> session_epoch sessions r \<noteq> None)"
  unfolding queued_by_user_fold add_queued_members by auto

lemma queued_by_user_in: "dict_wf p \<Longrightarrow> queued_in p (queued_by_user sessions p)"
  using queued_by_user_members[of sessions p] dict_get_wf[of p] unfolding queued_in_def by blast

text \<open>The loop with the number of rounds it may still make.\<close>

fun dispatch_rounds :: "nat \<Rightarrow> dispatch_input \<Rightarrow> budget \<Rightarrow> pool \<Rightarrow> dispatch_state \<Rightarrow> dispatch_state option" where
  "dispatch_rounds 0 di bg p0 ds = None"
| "dispatch_rounds (Suc n) di bg p0 ds =
     (if ds_available ds < ts_min (di_settings di) then Some ds
      else let (ret, ds') = dispatch_round di bg (round_order p0 ds) (ds\<lparr>ds_progress := False\<rparr>) in
           if ret \<or> \<not> ds_progress ds' then Some ds' else dispatch_rounds n di bg p0 ds')"

lemma dispatch_rounds_enough: "waiting (ds_queues ds) < n \<Longrightarrow> dispatch_rounds n di bg p0 ds = Some (dispatch_loop di bg p0 ds)"
proof (induction n arbitrary: ds)
  case (Suc n)
  obtain ret ds' where round: "dispatch_round di bg (round_order p0 ds) (ds\<lparr>ds_progress := False\<rparr>) = (ret, ds')" by fastforce
  have "waiting (ds_queues ds') < n" if "ds_progress ds'"
    using dispatch_round_waiting[OF round] that Suc.prems by auto
  then show ?case
    using Suc.IH[of ds'] by (simp add: round dispatch_loop.simps[of di bg p0 ds])
qed simp

lemma waiting_add_queued: "waiting (foldl add_queued q l) = waiting q + length l"
proof (induction l arbitrary: q)
  case (Cons x l)
  have append: "waiting (dict_set q u ws') = waiting q + length ws'" if "dict_get q u = None" for u and ws' :: "string list"
    using that by (induction q u ws' rule: dict_set.induct) (auto simp: waiting_def split: if_splits)
  have "waiting (add_queued q x) = Suc (waiting q)"
  proof (cases "dict_get q (wr_user (snd x))")
    case None
    then show ?thesis using append by (simp add: add_queued_def)
  next
    case (Some ws)
    then show ?thesis using waiting_dict_set[OF Some, of "ws @ [fst x]"] by (simp add: add_queued_def)
  qed
  then show ?case by (simp add: Cons.IH)
qed simp

lemma waiting_queued_by_user: "waiting (queued_by_user sessions p) \<le> length (in_states {''queued''} p)"
proof -
  have sorted: "length (filter P (sort_key f xs)) = length (filter P xs)" for P and f :: "string \<times> worker_record \<Rightarrow> 'a::linorder" and xs
    by (metis mset_filter mset_sort size_mset)
  have sorted': "length (filter P (sort_key f xs)) = length (filter P xs)" for P and f :: "string \<times> worker_record \<Rightarrow> 'b::linorder" and xs
    by (metis mset_filter mset_sort size_mset)
  have "waiting (queued_by_user sessions p) = length (filter (\<lambda>(w, r). wr_state r = ''queued'' \<and> session_epoch sessions r \<noteq> None) p)"
    unfolding queued_by_user_fold waiting_add_queued by (simp add: waiting_def sorted sorted')
  also have "\<dots> \<le> length (filter (\<lambda>(w, r). wr_state r = ''queued'') p)"
    by (induction p) auto
  also have "\<dots> = length (in_states {''queued''} p)" by (induction p) (auto simp: in_states_def)
  finally show ?thesis .
qed

text \<open>C25: The dispatcher ends: it makes at most one round more than there are queued workers, whatever starts, waits or is given up.\<close>

theorem dispatch_ends:
  "dispatch_rounds (Suc (length (in_states {''queued''} p))) di (budget_summary cpus (di_settings di) p) p
     \<lparr>ds_sessions = sessions, ds_workers = workers, ds_pool = p, ds_queues = queued_by_user sessions p,
      ds_available = bg_total (budget_summary cpus (di_settings di) p) - running_threads None p, ds_progress = True, ds_started = []\<rparr>
   = Some (dispatch_waiting_workers di cpus sessions workers p)"
  using waiting_queued_by_user[of sessions p] by (simp add: dispatch_waiting_workers_def Let_def dispatch_rounds_enough del: dispatch_rounds.simps)

text \<open>C7: The dispatcher stays within the budget of the host and of each user, and starts only workers that were queued.\<close>

theorem dispatch_within_budget:
  assumes "dict_wf p" and "1 \<le> ts_min (di_settings di)"
  shows "let bg = budget_summary cpus (di_settings di) p; ds = dispatch_waiting_workers di cpus sessions workers p in
      running_threads None (ds_pool ds) \<le> max (running_threads None p) (bg_total bg)
    \<and> (\<forall>u. running_threads (Some u) (ds_pool ds) \<le> max (running_threads (Some u) p) (bg_per_user bg))
    \<and> (\<forall>w \<in> set (ds_started ds). \<exists>r. dict_get p w = Some r \<and> wr_state r = ''queued'')"
proof -
  define bg where "bg = budget_summary cpus (di_settings di) p"
  define ds where "ds = dispatch_waiting_workers di cpus sessions workers p"
  have "budget_kept di bg p ds"
    unfolding ds_def dispatch_waiting_workers_def bg_def[symmetric] Let_def
    by (rule budget_kept.loop) (simp add: budget_kept_def assms(1,2) queued_by_user_in)
  then show ?thesis by (simp add: budget_kept_def Let_def bg_def ds_def)
qed

section \<open>No thread is left idle\<close>

text \<open>A queued worker that would start now: its session is not parked and its epoch replaces nothing at a fixed size.\<close>

definition ready :: "(string \<times> mobile_session) list \<Rightarrow> pool \<Rightarrow> int \<Rightarrow> string \<Rightarrow> bool" where
  "ready sessions p u w =
     (case dict_get p w of None \<Rightarrow> False
      | Some r \<Rightarrow> wr_user r = u \<and> wr_state r = ''queued'' \<and>
          (case session_epoch sessions r of None \<Rightarrow> False | Some (s, e) \<Rightarrow> \<not> ms_parked s \<and> replacement_target_threads e = None))"

lemma readyE:
  assumes "ready sessions p u w"
  obtains r s e where "dict_get p w = Some r" "wr_user r = u" "wr_state r = ''queued''" "session_epoch sessions r = Some (s, e)"
    "\<not> ms_parked s" "replacement_target_threads e = None"
  using assms by (auto simp: ready_def split: option.splits)

lemma replacement_target_rebuild [simp]:
  "replacement_target_threads (rebuild_published_frontier stamp clock e) = replacement_target_threads e"
  by (simp add: replacement_target_threads_def rebuild_published_frontier_def record_byte_sample_def Let_def split: prod.splits)

lemma session_epoch_SomeD:
  "session_epoch sessions r = Some (s, e) \<Longrightarrow>
     dict_get sessions (wr_session r) = Some s \<and> bs_engine_mode (ms_browser s) = ''route2'' \<and> dict_get (bs_epochs (ms_browser s)) (wr_epoch r) = Some e"
  by (auto simp: session_epoch_def split: option.splits if_splits)

lemma started_record_fields [simp]:
  "wr_state (started_record di s e a f src r) = ''running''" "wr_assigned (started_record di s e a f src r) = a"
  "wr_user (started_record di s e a f src r) = wr_user r"
  by (simp_all add: started_record_def)

text \<open>Starting one worker leaves the others ready.\<close>

lemma ready_start:
  assumes r: "dict_get (ds_pool ds) wid = Some r" and se: "session_epoch (ds_sessions ds) r = Some (s, e)"
    and other: "w \<noteq> wid" and ready: "ready (ds_sessions ds) (ds_pool ds) u w"
  shows "ready (ds_sessions (start_worker di wid s e a f src r ds)) (ds_pool (start_worker di wid s e a f src r ds)) u w"
proof -
  obtain r2 s2 e2 where r2: "dict_get (ds_pool ds) w = Some r2" "wr_user r2 = u" "wr_state r2 = ''queued''"
    and se2: "session_epoch (ds_sessions ds) r2 = Some (s2, e2)" "\<not> ms_parked s2" "replacement_target_threads e2 = None"
    using ready by (rule readyE)
  note d = session_epoch_SomeD[OF se] and d2 = session_epoch_SomeD[OF se2(1)]
  show ?thesis
  proof (cases "wr_session r2 = wr_session r")
    case True
    then have "s2 = s" using d d2 by simp
    then show ?thesis
      using r2 se2 d d2 True other
      by (cases "wr_epoch r2 = wr_epoch r") (simp_all add: ready_def session_epoch_def start_worker_def Let_def update_epoch_def)
  next
    case False
    then show ?thesis using r2 se2 d2 other by (simp add: ready_def session_epoch_def start_worker_def Let_def)
  qed
qed

lemma fixed_when_off: "\<not> ts_adaptive ts \<Longrightarrow> 0 \<le> fixed \<Longrightarrow> td_threads (resolve_assigned_threads ts pv r s e fixed dry) = fixed"
  by (simp add: resolve_assigned_threads_def fixed_decision_def)

text \<open>A ready worker at the head of its queue starts, with at least the smallest number of threads.\<close>

lemma ready_starts:
  assumes min: "1 \<le> ts_min (di_settings di)" "ts_min (di_settings di) \<le> ts_max (di_settings di)"
      "ts_adaptive (di_settings di) \<Longrightarrow> ts_min (di_settings di) \<le> 6"
    and left: "ts_min (di_settings di) \<le> ds_available ds" "ts_min (di_settings di) \<le> remaining"
    and r: "dict_get (ds_pool ds) wid = Some r" and se: "session_epoch (ds_sessions ds) r = Some (s, e)"
    and se2: "\<not> ms_parked s" "replacement_target_threads e = None"
  shows "\<exists>a f src. ts_min (di_settings di) \<le> a \<and> dispatch_record di bg remaining wid ds = start_worker di wid s e a f src r ds"
proof -
  define fixed where "fixed = min (min (ts_max (di_settings di)) (ds_available ds)) remaining"
  have fixed: "ts_min (di_settings di) \<le> fixed" "fixed \<le> ds_available ds" "fixed \<le> remaining"
    using min(2) left by (simp_all add: fixed_def)
  define d where "d = resolve_assigned_threads (di_settings di) (di_evidence di) r s e fixed
    (adaptive_spawn_dry_run (di_settings di) (di_clock di) (di_snapshot di) r fixed (ds_available ds) remaining bg)"
  have "td_threads d = fixed \<or> td_threads d \<in> {6, 9, 12}"
    using assigned_threads_bounds(3)[OF min(1) fixed, of "di_evidence di" r s e "di_clock di" "di_snapshot di" bg, folded d_def] by blast
  then have "ts_min (di_settings di) \<le> td_threads d"
    using fixed_when_off[of "di_settings di" fixed] min(1,3) fixed(1)
    by (cases "ts_adaptive (di_settings di)") (auto simp: d_def)
  moreover from this have "dispatch_record di bg remaining wid ds = start_worker di wid s e (td_threads d) fixed (td_source d) r ds"
    using fixed(1)
    unfolding dispatch_record_def Let_def r se option.case prod.case se2(2) fixed_def[symmetric] d_def[symmetric]
    by (simp add: se2(1) not_less)
  ultimately show ?thesis by blast
qed

definition startable :: "dispatch_input \<Rightarrow> budget \<Rightarrow> (int \<times> string list) list \<Rightarrow> dispatch_state \<Rightarrow> bool" where
  "startable di bg q0 ds \<longleftrightarrow>
     1 \<le> ts_min (di_settings di) \<and> ts_min (di_settings di) \<le> ts_max (di_settings di)
   \<and> (ts_adaptive (di_settings di) \<longrightarrow> ts_min (di_settings di) \<le> 6)
   \<and> ds_available ds + running_threads None (ds_pool ds) = bg_total bg
   \<and> (\<forall>u ws. dict_get (ds_queues ds) u = Some ws \<longrightarrow> distinct ws \<and> (\<forall>w \<in> set ws. ready (ds_sessions ds) (ds_pool ds) u w))
   \<and> (\<forall>u ws0 w. dict_get q0 u = Some ws0 \<longrightarrow> w \<in> set ws0 \<longrightarrow>
        w \<in> set (ds_started ds) \<or> (\<exists>ws. dict_get (ds_queues ds) u = Some ws \<and> w \<in> set ws))"

text \<open>A user with nothing to start, or with too little left to start it.\<close>

definition served :: "dispatch_input \<Rightarrow> budget \<Rightarrow> dispatch_state \<Rightarrow> int \<Rightarrow> bool" where
  "served di bg ds u \<longleftrightarrow>
     (case dict_get (ds_queues ds) u of None \<Rightarrow> True | Some ws \<Rightarrow> ws = [])
   \<or> bg_per_user bg - running_threads (Some u) (ds_pool ds) < ts_min (di_settings di)"

lemma startable_head:
  assumes k: "startable di bg q0 ds" and q: "dict_get (ds_queues ds) u = Some (w # ws)"
    and left: "ts_min (di_settings di) \<le> ds_available ds" "ts_min (di_settings di) \<le> remaining"
  defines "ds' \<equiv> dispatch_record di bg remaining w (ds\<lparr>ds_queues := dict_set (ds_queues ds) u ws\<rparr>)"
  shows "startable di bg q0 ds'" and "ds_progress ds'"
proof -
  define ds1 where "ds1 = ds\<lparr>ds_queues := dict_set (ds_queues ds) u ws\<rparr>"
  have ready: "ready (ds_sessions ds) (ds_pool ds) u w" and w: "w \<notin> set ws"
    using k q by (force simp: startable_def)+
  from ready obtain r s e where r: "dict_get (ds_pool ds) w = Some r" "wr_user r = u" "wr_state r = ''queued''"
    and se: "session_epoch (ds_sessions ds) r = Some (s, e)" "\<not> ms_parked s" "replacement_target_threads e = None"
    by (rule readyE)
  have "\<exists>a f src. ts_min (di_settings di) \<le> a \<and> dispatch_record di bg remaining w ds1 = start_worker di w s e a f src r ds1"
    by (rule ready_starts) (use k left r se in \<open>simp_all add: startable_def ds1_def\<close>)
  then obtain a f src where a: "ts_min (di_settings di) \<le> a" and ds': "ds' = start_worker di w s e a f src r ds1"
    by (auto simp: ds'_def ds1_def)
  show "ds_progress ds'" by (simp add: ds' start_worker_def Let_def)
  have others: "ready (ds_sessions ds') (ds_pool ds') u2 w2" if "w2 \<noteq> w" "ready (ds_sessions ds) (ds_pool ds) u2 w2" for u2 w2
    unfolding ds' by (rule ready_start) (use that r se in \<open>simp_all add: ds1_def\<close>)
  have alone: "w2 \<noteq> w" if "u2 \<noteq> u" "ready (ds_sessions ds) (ds_pool ds) u2 w2" for u2 w2
    using that r by (auto simp: ready_def)
  have queues: "ds_queues ds' = dict_set (ds_queues ds) u ws" by (simp add: ds' ds1_def start_worker_def Let_def)
  have started: "ds_started ds' = ds_started ds @ [w]" by (simp add: ds' ds1_def start_worker_def Let_def)
  have "ds_available ds' + running_threads None (ds_pool ds') = ds_available ds + running_threads None (ds_pool ds)"
    using a k by (simp add: ds' ds1_def start_worker_def running_threads_set r startable_def threads_of_def Let_def)
  moreover have "distinct ws2 \<and> (\<forall>w2 \<in> set ws2. ready (ds_sessions ds') (ds_pool ds') u2 w2)"
    if "dict_get (ds_queues ds') u2 = Some ws2" for u2 ws2
  proof (cases "u2 = u")
    case True
    then have "ws2 = ws" using that by (simp add: queues)
    then show ?thesis using True k q w others by (fastforce simp: startable_def)
  next
    case False
    then have g: "dict_get (ds_queues ds) u2 = Some ws2" using that by (simp add: queues)
    have "distinct ws2" "\<forall>w2 \<in> set ws2. ready (ds_sessions ds) (ds_pool ds) u2 w2" using k g by (auto simp: startable_def)
    then show ?thesis using others alone[OF False] by blast
  qed
  moreover have "w2 \<in> set (ds_started ds') \<or> (\<exists>ws2. dict_get (ds_queues ds') u2 = Some ws2 \<and> w2 \<in> set ws2)"
    if "dict_get q0 u2 = Some ws0" "w2 \<in> set ws0" for u2 ws0 w2
  proof -
    have "w2 \<in> set (ds_started ds) \<or> (\<exists>ws2. dict_get (ds_queues ds) u2 = Some ws2 \<and> w2 \<in> set ws2)"
      using k that by (auto simp: startable_def)
    then show ?thesis using q by (auto simp: queues started)
  qed
  ultimately show "startable di bg q0 ds'"
    using k unfolding startable_def
    by - (elim conjE, intro conjI allI impI, (assumption | (simp; fail) | blast)+)
qed

lemma dispatch_user_ready:
  assumes k: "startable di bg q0 ds" and u: "dispatch_user di bg u ds = (ret, ds')"
  shows "startable di bg q0 ds'"
    and "ret \<and> ds' = ds \<and> ds_available ds < ts_min (di_settings di) \<or> \<not> ret \<and> (ds_progress ds' \<or> ds' = ds \<and> served di bg ds u)"
proof -
  have "startable di bg q0 ds'
    \<and> (ret \<and> ds' = ds \<and> ds_available ds < ts_min (di_settings di) \<or> \<not> ret \<and> (ds_progress ds' \<or> ds' = ds \<and> served di bg ds u))"
  proof (cases "served di bg ds u \<or> ds_available ds < ts_min (di_settings di)")
    case True
    then show ?thesis using k u by (auto simp: served_def dispatch_user_def Let_def split: option.splits if_splits)
  next
    case False
    then obtain w ws where q: "dict_get (ds_queues ds) u = Some (w # ws)"
      by (auto simp: served_def neq_Nil_conv split: option.splits)
    note h = startable_head[OF k q, of "bg_per_user bg - running_threads (Some u) (ds_pool ds)"]
    show ?thesis
      using False u h by (auto simp: served_def dispatch_user_def q Let_def split: if_splits)
  qed
  then show "startable di bg q0 ds'"
    and "ret \<and> ds' = ds \<and> ds_available ds < ts_min (di_settings di) \<or> \<not> ret \<and> (ds_progress ds' \<or> ds' = ds \<and> served di bg ds u)" by auto
qed

interpretation startable: dispatch_invariant di bg "startable di bg q0" for di bg q0
proof
  show "startable di bg q0 (ds\<lparr>ds_progress := b\<rparr>)" if "startable di bg q0 ds" for ds b
    using that by (simp add: startable_def)
  show "startable di bg q0 (snd (dispatch_user di bg u ds))" if "startable di bg q0 ds" for ds u
    using dispatch_user_ready(1)[OF that, of u] by (cases "dispatch_user di bg u ds") simp
qed

lemma dispatch_round_ready:
  "startable di bg q0 ds \<Longrightarrow> dispatch_round di bg us ds = (ret, ds') \<Longrightarrow>
     ret \<and> ds_available ds' < ts_min (di_settings di) \<or> \<not> ret \<and> (ds_progress ds' \<or> ds' = ds \<and> (\<forall>u \<in> set us. served di bg ds u))"
proof (induction us arbitrary: ds)
  case (Cons u us)
  obtain ret1 ds1 where s: "dispatch_user di bg u ds = (ret1, ds1)" by fastforce
  note step = dispatch_user_ready[OF Cons.prems(1) s]
  show ?case
  proof (cases ret1)
    case True
    then show ?thesis using step(2) Cons.prems(2) by (auto simp: s)
  next
    case False
    then have "dispatch_round di bg us ds1 = (ret, ds')" using Cons.prems(2) by (simp add: s)
    from Cons.IH[OF step(1) this] show ?thesis using step(2) False by auto
  qed
qed simp

lemma served_absent: "u \<notin> set (round_order p0 ds) \<Longrightarrow> served di bg ds u"
  using dict_get_None_iff[of "ds_queues ds" u] by (simp add: served_def round_order_def split: option.split)

lemma dispatch_loop_ready:
  "startable di bg q0 ds \<Longrightarrow>
     ds_available (dispatch_loop di bg p0 ds) < ts_min (di_settings di) \<or> (\<forall>u. served di bg (dispatch_loop di bg p0 ds) u)"
proof (induction "waiting (ds_queues ds)" arbitrary: ds rule: less_induct)
  case less
  let ?ds = "ds\<lparr>ds_progress := False\<rparr>"
  obtain ret ds' where r: "dispatch_round di bg (round_order p0 ds) ?ds = (ret, ds')" by fastforce
  have k: "startable di bg q0 ?ds" using less.prems by (rule startable.progress)
  have k': "startable di bg q0 ds'" using startable.round[OF k, of "round_order p0 ds"] by (simp add: r)
  note step = dispatch_round_ready[OF k r]
  show ?case
  proof (cases "ds_available ds < ts_min (di_settings di) \<or> ret")
    case True
    then show ?thesis using step by (subst (1 2) dispatch_loop.simps) (auto simp: r)
  next
    case False
    show ?thesis
    proof (cases "ds_progress ds'")
      case True
      then have "waiting (ds_queues ds') < waiting (ds_queues ds)" using dispatch_round_waiting[OF r] by auto
      then have "ds_available (dispatch_loop di bg p0 ds') < ts_min (di_settings di) \<or> (\<forall>u. served di bg (dispatch_loop di bg p0 ds') u)"
        by (rule less.hyps[OF _ k'])
      then show ?thesis using False True by (subst (1 2) dispatch_loop.simps) (simp add: r)
    next
      case idle: False
      then have same: "ds' = ?ds" and "\<forall>u \<in> set (round_order p0 ds). served di bg ?ds u" using step False by auto
      moreover have "round_order p0 ?ds = round_order p0 ds" by (simp add: round_order_def)
      ultimately have "\<forall>u. served di bg ?ds u" using served_absent[of _ p0 ?ds di bg] by metis
      then show ?thesis using False idle by (subst (1 2) dispatch_loop.simps) (simp add: r same)
    qed
  qed
qed

lemma add_queued_distinct:
  "distinct (map fst l) \<Longrightarrow> \<forall>u ws. dict_get q u = Some ws \<longrightarrow> distinct ws \<and> set ws \<inter> fst ` set l = {} \<Longrightarrow>
     dict_get (foldl add_queued q l) u = Some ws \<Longrightarrow> distinct ws"
proof (induction l arbitrary: q)
  case (Cons x l)
  have "\<forall>u ws. dict_get (add_queued q x) u = Some ws \<longrightarrow> distinct ws \<and> set ws \<inter> fst ` set l = {}"
  proof (intro allI impI)
    fix v ws
    assume g: "dict_get (add_queued q x) v = Some ws"
    show "distinct ws \<and> set ws \<inter> fst ` set l = {}"
    proof (cases "v = wr_user (snd x)")
      case False
      then have "dict_get q v = Some ws" using g by (simp add: add_queued_def)
      then have "distinct ws \<and> set ws \<inter> fst ` set (x # l) = {}" using Cons.prems(2) by blast
      then show ?thesis by simp
    next
      case True
      define ws1 where "ws1 = (case dict_get q v of Some ws \<Rightarrow> ws | None \<Rightarrow> [])"
      have "distinct ws1 \<and> set ws1 \<inter> fst ` set (x # l) = {}"
        using Cons.prems(2) by (cases "dict_get q v") (simp_all add: ws1_def)
      moreover have "ws = ws1 @ [fst x]" using g True by (simp add: add_queued_def ws1_def)
      ultimately show ?thesis using Cons.prems(1) by simp
    qed
  qed
  then show ?case using Cons.IH[of "add_queued q x"] Cons.prems(1,3) by simp
qed simp

lemma queued_by_user_distinct: "dict_wf p \<Longrightarrow> dict_get (queued_by_user sessions p) u = Some ws \<Longrightarrow> distinct ws"
  unfolding queued_by_user_fold
  by (erule add_queued_distinct[rotated 2]) (auto simp: dict_wf_def distinct_map intro: inj_on_subset)

text \<open>C9:
  The dispatcher is work conserving as long as every queued worker can be started: when no queued worker belongs to a parked
  session or prepares a replacement of a fixed number of threads (a downshift or a resupply), and the smallest worker is no larger
  than the largest nor than six threads, then on its return a queued worker waits only because its user, or the host, has
  fewer threads left than the smallest worker takes. The condition on the queue is needed: a record that is taken from the head
  of a queue without a start ends the dispatch when nobody else makes progress (\<open>parked_head_stops_dispatch\<close> below).
\<close>

theorem dispatch_leaves_no_thread_idle:
  assumes "dict_wf p" and "1 \<le> ts_min (di_settings di)" "ts_min (di_settings di) \<le> ts_max (di_settings di)" "ts_min (di_settings di) \<le> 6"
    and "\<forall>(w, r) \<in> set p. wr_state r = ''queued'' \<longrightarrow>
           (case session_epoch sessions r of None \<Rightarrow> True | Some (s, e) \<Rightarrow> \<not> ms_parked s \<and> replacement_target_threads e = None)"
    and "(w, r) \<in> set p" "wr_state r = ''queued''" "session_epoch sessions r \<noteq> None"
  shows "let bg = budget_summary cpus (di_settings di) p; ds = dispatch_waiting_workers di cpus sessions workers p in
      w \<in> set (ds_started ds)
    \<or> bg_per_user bg - running_threads (Some (wr_user r)) (ds_pool ds) < ts_min (di_settings di)
    \<or> bg_total bg - running_threads None (ds_pool ds) < ts_min (di_settings di)"
proof -
  define bg where "bg = budget_summary cpus (di_settings di) p"
  define q0 where "q0 = queued_by_user sessions p"
  define ds0 where "ds0 = \<lparr>ds_sessions = sessions, ds_workers = workers, ds_pool = p, ds_queues = q0,
     ds_available = bg_total bg - running_threads None p, ds_progress = True, ds_started = []\<rparr>"
  define ds where "ds = dispatch_loop di bg p ds0"
  have ready: "ready sessions p u v" if g: "dict_get q0 u = Some ws" "v \<in> set ws" for u ws v
  proof -
    obtain x where x: "(v, x) \<in> set p" "wr_user x = u" "wr_state x = ''queued''" "session_epoch sessions x \<noteq> None"
      using queued_by_user_members[of sessions p u v] g unfolding q0_def by blast
    moreover from x(4) obtain s e where "session_epoch sessions x = Some (s, e)" by auto
    ultimately show ?thesis using assms(5) dict_get_wf[OF assms(1) x(1)] by (auto simp: ready_def)
  qed
  have "startable di bg q0 ds0"
    using ready assms(1-4) queued_by_user_distinct[OF assms(1), of sessions] by (simp add: startable_def ds0_def q0_def)
  then have k: "startable di bg q0 ds" and stop: "ds_available ds < ts_min (di_settings di) \<or> (\<forall>u. served di bg ds u)"
    unfolding ds_def by (rule startable.loop, rule dispatch_loop_ready)
  obtain ws where "dict_get q0 (wr_user r) = Some ws" "w \<in> set ws"
    using queued_by_user_members[of sessions p "wr_user r" w] assms(6-8) unfolding q0_def by blast
  with k have place: "w \<in> set (ds_started ds) \<or> (\<exists>ws. dict_get (ds_queues ds) (wr_user r) = Some ws \<and> w \<in> set ws)"
    unfolding startable_def by blast
  have "bg_per_user bg - running_threads (Some (wr_user r)) (ds_pool ds) < ts_min (di_settings di)"
    if "served di bg ds (wr_user r)" "dict_get (ds_queues ds) (wr_user r) = Some ws'" "w \<in> set ws'" for ws'
    using that by (auto simp: served_def)
  moreover have "bg_total bg - running_threads None (ds_pool ds) = ds_available ds" using k by (simp add: startable_def)
  ultimately have "w \<in> set (ds_started ds) \<or> bg_per_user bg - running_threads (Some (wr_user r)) (ds_pool ds) < ts_min (di_settings di)
      \<or> bg_total bg - running_threads None (ds_pool ds) < ts_min (di_settings di)"
    using stop place by (metis (no_types))
  moreover have "dispatch_waiting_workers di cpus sessions workers p = ds"
    by (simp add: dispatch_waiting_workers_def ds_def ds0_def q0_def bg_def Let_def)
  ultimately show ?thesis by (simp add: bg_def Let_def)
qed

section \<open>Parking\<close>

text \<open>The threads of the running workers of one session.\<close>

definition session_threads :: "mobile_session \<Rightarrow> pool \<Rightarrow> int" where
  "session_threads s p = sum_list (map (\<lambda>(w, r). if wr_session r = ms_id s then threads_of None r else 0) p)"

definition session_records :: "mobile_session \<Rightarrow> pool \<Rightarrow> pool" where
  "session_records s p = filter (\<lambda>(w, r). wr_session r = ms_id s) p"

lemma session_threads_records: "session_threads s p = sum_list (map (threads_of None \<circ> snd) (session_records s p))"
  unfolding session_threads_def session_records_def by (induction p) (auto split: prod.split)

lemma running_threads_of_session:
  "running_threads None (of_session s f p) = running_threads None p - session_threads s p
     + sum_list (map (threads_of None \<circ> f \<circ> snd) (session_records s p))"
  unfolding running_threads_sum of_session_def session_threads_def session_records_def by (induction p) auto

lemma park_record_idle [simp]: "threads_of None (park_record r) = 0"
  by (simp add: park_record_def threads_of_def)

lemma session_records_of_session:
  "(\<And>r. wr_session (f r) = wr_session r) \<Longrightarrow> session_records s (of_session s f p) = map (\<lambda>(w, r). (w, f r)) (session_records s p)"
  unfolding session_records_def of_session_def by (induction p) auto

lemma update_epoch_get_process:
  "(\<And>e. ep_process (f e) = ep_process e) \<Longrightarrow>
     map_option ep_process (dict_get (bs_epochs (update_epoch i f b)) k) = map_option ep_process (dict_get (bs_epochs b) k)"
  by (cases "k = i"; cases "dict_get (bs_epochs b) i") (simp_all add: update_epoch_get)

lemma request_stop_process:
  "map_option ep_process (dict_get (bs_epochs (ms_browser (request_stop flag eids s))) k) = map_option ep_process (dict_get (bs_epochs (ms_browser s)) k)"
proof -
  have "map_option ep_process (dict_get (bs_epochs (foldl (\<lambda>b eid. update_epoch eid (\<lambda>e. e\<lparr>ep_stop_requested := flag\<rparr>) b) b eids)) k)
      = map_option ep_process (dict_get (bs_epochs b) k)" for b
    by (induction eids arbitrary: b) (simp_all add: update_epoch_get_process)
  then show ?thesis by (simp add: request_stop_def)
qed

lemma resumed_threads:
  "wr_state r = ''running'' \<Longrightarrow> truthy_string (wr_started r) \<Longrightarrow> \<not> truthy_string (wr_finished r) \<Longrightarrow>
     threads_of None (resume_record (park_record r)) = threads_of None r"
  by (simp add: resume_record_def park_record_def threads_of_def Let_def)

definition due_for_parking :: "real \<Rightarrow> mobile_session \<Rightarrow> bool" where
  "due_for_parking now s \<longleftrightarrow>
     bs_engine_mode (ms_browser s) = ''route2'' \<and> ms_lifecycle s = ''background-suspended'' \<and> 0 < ms_backgrounded_at s
   \<and> BACKGROUND_PREPARATION_PARK_SECONDS \<le> now - ms_backgrounded_at s \<and> \<not> ms_parked s"

text \<open>C26:
  Parking a session hands back the threads of its workers although their processes run on; when the user returns, the
  same workers count again, on top of what was started in between.
\<close>

theorem parked_threads_counted_twice:
  assumes "due_for_parking now s" and "park_backgrounded now (s, p) = (s1, p1)"
    and "\<forall>(w, r) \<in> set p. wr_state r = ''running'' \<longrightarrow> truthy_string (wr_started r) \<and> \<not> truthy_string (wr_finished r)"
    and "session_records s q = session_records s p1"
    and "apply_background_lifecycle ''attached'' later (s1, q) = (s2, q2)"
  shows "running_threads None p1 = running_threads None p - session_threads s p
    \<and> (\<forall>k. map_option ep_process (dict_get (bs_epochs (ms_browser s1)) k) = map_option ep_process (dict_get (bs_epochs (ms_browser s)) k))
    \<and> running_threads None q + session_threads s p \<le> running_threads None q2"
proof -
  have p1: "p1 = of_session s park_record p" and id: "ms_id s1 = ms_id s" and parked: "ms_parked s1"
    and proc: "map_option ep_process (dict_get (bs_epochs (ms_browser s1)) k) = map_option ep_process (dict_get (bs_epochs (ms_browser s)) k)" for k
    using assms(1,2) by (auto simp: park_backgrounded_def due_for_parking_def Let_def request_stop_process) (auto simp: request_stop_def)
  have "py_strip ''attached'' = ''attached''" by code_simp
  then have q2: "q2 = of_session s1 resume_record q"
    using assms(5) parked by (auto simp: apply_background_lifecycle_def Let_def)
  have parts: "session_records s q = map (\<lambda>(w, r). (w, park_record r)) (session_records s p)"
    unfolding assms(4) p1 by (rule session_records_of_session) (simp add: park_record_def)
  have none: "session_threads s q = 0"
  proof -
    have "sum_list (map (threads_of None \<circ> snd) (map (\<lambda>(w, r). (w, park_record r)) l)) = 0" for l :: pool by (induction l) auto
    then show ?thesis unfolding session_threads_records parts .
  qed
  have "sum_list (map (threads_of None \<circ> snd) l) \<le> sum_list (map (threads_of None \<circ> resume_record \<circ> snd) (map (\<lambda>(w, r). (w, park_record r)) l))"
    if "\<forall>(w, r) \<in> set l. wr_state r = ''running'' \<longrightarrow> truthy_string (wr_started r) \<and> \<not> truthy_string (wr_finished r)" for l :: pool
    using that
  proof (induction l)
    case (Cons x l)
    have "threads_of None (snd x) \<le> threads_of None (resume_record (park_record (snd x)))"
      using Cons.prems resumed_threads[of "snd x"] by (cases "wr_state (snd x) = ''running''") auto
    then show ?case using Cons by (cases x) (simp add: add_mono)
  qed simp
  then have again: "session_threads s p \<le> sum_list (map (threads_of None \<circ> resume_record \<circ> snd) (session_records s q))"
    unfolding parts session_threads_records using assms(3) by (simp add: session_records_def comp_assoc)
  have "session_records s1 q = session_records s q" "session_threads s1 q = session_threads s q"
    by (simp_all add: session_records_def session_threads_def id)
  then have "running_threads None q + session_threads s p \<le> running_threads None q2"
    using running_threads_of_session[of s1 resume_record q] again none by (simp add: q2)
  moreover have "running_threads None p1 = running_threads None p - session_threads s p"
  proof -
    have "sum_list (map (threads_of None \<circ> park_record \<circ> snd) l) = 0" for l :: pool by (induction l) auto
    then show ?thesis unfolding p1 running_threads_of_session by simp
  qed
  ultimately show ?thesis using proc by blast
qed

section \<open>An example: two users on a host of sixteen cores\<close>

definition example_session :: "string \<Rightarrow> int \<Rightarrow> string \<Rightarrow> mobile_session" where
  "example_session sid user eid =
     (new_session sid user 7 ''mobile_1080p'' ''local'' 5400 ''k'' ''f'' ''t0'')
       \<lparr>ms_browser := new_browser_session\<lparr>bs_engine_mode := ''route2'', bs_active := Some eid,
          bs_epochs := [(eid, new_epoch eid sid ''t0'' 0 0 0 None 0)]\<rparr>\<rparr>"

definition example_record :: "string \<Rightarrow> int \<Rightarrow> string \<Rightarrow> worker_record" where
  "example_record sid user eid = new_worker_record 10 (example_session sid user eid) (new_epoch eid sid ''t0'' 0 0 0 None 0)"

definition example_input :: dispatch_input where
  "example_input =
     \<lparr>di_settings = \<lparr>ts_budget_percent = 80, ts_min = 2, ts_max = 8, ts_protected = 4, ts_adaptive_max = 12, ts_adaptive = False,
        ts_local_only = True, ts_cloud = False, ts_real_9 = False, ts_strict_12 = False\<rparr>,
      di_evidence = \<lparr>pv_lite = \<lambda>_ _ _ _ _. [], pv_cloud = \<lambda>_ _ _. []\<rparr>, di_snapshot = None, di_clock = 500, di_stamp = ''t1''\<rparr>"

definition example_pool :: pool where
  "example_pool = [(''w1'', (example_record ''s1'' 1 ''e1'')\<lparr>wr_state := ''running'', wr_started := Some ''t0'', wr_assigned := 8\<rparr>),
                   (''w2'', example_record ''s2'' 2 ''e2'')]"

definition example_away :: mobile_session where
  "example_away = (example_session ''s1'' 1 ''e1'')\<lparr>ms_lifecycle := ''background-suspended'', ms_backgrounded_at := 100\<rparr>"

definition example_sessions :: "(string \<times> mobile_session) list" where
  "example_sessions = [(''s1'', example_away), (''s2'', example_session ''s2'' 2 ''e2'')]"

lemmas example_defs = example_session_def example_record_def example_input_def example_pool_def example_away_def example_sessions_def
  new_worker_record_def new_record_defs

text \<open>
  Two workers of one user are queued, the first of them for a session that is parked. The dispatcher takes the first,
  skips it, has made no progress and returns: the second waits although all threads are free. The next dispatch finds the same
  queue. Once the session is no longer parked, both start.
\<close>

lemma parked_head_stops_dispatch:
  defines "queue \<equiv> [(''w1'', example_record ''s1'' 1 ''e1''), (''w2'', example_record ''s2'' 1 ''e2'')]"
    and "dispatch \<equiv> \<lambda>away. dispatch_waiting_workers example_input 16
           [(''s1'', (example_session ''s1'' 1 ''e1'')\<lparr>ms_parked := away\<rparr>), (''s2'', example_session ''s2'' 1 ''e2'')] []"
  shows "ds_started (dispatch True queue) = []" and "ds_pool (dispatch True queue) = queue"
    and "bg_total (budget_summary 16 (di_settings example_input) queue) - running_threads None queue = 12"
    and "ds_started (dispatch False queue) = [''w1'', ''w2'']"
  unfolding queue_def dispatch_def by code_simp+

theorem dispatch_within_budget_witness:
  "running_threads None (ds_pool (dispatch_waiting_workers example_input 16 example_sessions [] example_pool)) \<le> 12"
proof -
  have "dict_wf example_pool" "1 \<le> ts_min (di_settings example_input)" by (simp_all add: example_defs dict_wf_def)
  note dispatch_within_budget[OF this, of 16 example_sessions "[]", unfolded Let_def]
  moreover have "bg_total (budget_summary 16 (di_settings example_input) example_pool) = 12" "running_threads None example_pool = 8"
    by code_simp+
  ultimately show ?thesis by simp
qed

theorem dispatch_leaves_no_thread_idle_witness:
  "let bg = budget_summary 16 (di_settings example_input) example_pool; ds = dispatch_waiting_workers example_input 16 example_sessions [] example_pool in
      ''w2'' \<in> set (ds_started ds)
    \<or> bg_per_user bg - running_threads (Some 2) (ds_pool ds) < 2 \<or> bg_total bg - running_threads None (ds_pool ds) < 2"
proof -
  have "dict_wf example_pool" "1 \<le> ts_min (di_settings example_input)" "ts_min (di_settings example_input) \<le> ts_max (di_settings example_input)"
    "ts_min (di_settings example_input) \<le> 6" "(''w2'', example_record ''s2'' 2 ''e2'') \<in> set example_pool"
    "wr_state (example_record ''s2'' 2 ''e2'') = ''queued''" "session_epoch example_sessions (example_record ''s2'' 2 ''e2'') \<noteq> None"
    "\<forall>(w, r) \<in> set example_pool. wr_state r = ''queued'' \<longrightarrow>
       (case session_epoch example_sessions r of None \<Rightarrow> True | Some (s, e) \<Rightarrow> \<not> ms_parked s \<and> replacement_target_threads e = None)"
    by (simp_all add: example_defs dict_wf_def session_epoch_def replacement_target_threads_def)
  note dispatch_leaves_no_thread_idle[OF this(1-4,8,5,6,7), of 16 "[]"]
  moreover have "wr_user (example_record ''s2'' 2 ''e2'') = 2" "ts_min (di_settings example_input) = 2" by code_simp+
  ultimately show ?thesis by simp
qed

text \<open>The first user goes away for more than five minutes and comes back; the second is served in between.\<close>

theorem parked_threads_counted_twice_witness:
  "let parked = park_backgrounded 500 (example_away, example_pool);
       served = ds_pool (dispatch_waiting_workers example_input 16 (dict_set example_sessions ''s1'' (fst parked)) [] (snd parked));
       again = snd (apply_background_lifecycle ''attached'' 600 (fst parked, served))
   in running_threads None example_pool = 8 \<and> running_threads None served = 8 \<and> 16 \<le> running_threads None again
    \<and> bg_total (budget_summary 16 (di_settings example_input) served) = 12"
proof -
  define parked where "parked = park_backgrounded 500 (example_away, example_pool)"
  define served where "served = ds_pool (dispatch_waiting_workers example_input 16 (dict_set example_sessions ''s1'' (fst parked)) [] (snd parked))"
  define again where "again = apply_background_lifecycle ''attached'' 600 (fst parked, served)"
  have due: "due_for_parking 500 example_away" by code_simp
  have fine: "\<forall>(w, r) \<in> set example_pool. wr_state r = ''running'' \<longrightarrow> truthy_string (wr_started r) \<and> \<not> truthy_string (wr_finished r)"
    by code_simp
  have records: "session_records example_away served = session_records example_away (snd parked)"
    unfolding served_def parked_def by code_simp
  have "park_backgrounded 500 (example_away, example_pool) = (fst parked, snd parked)" by (simp add: parked_def)
  moreover have "apply_background_lifecycle ''attached'' 600 (fst parked, served) = (fst again, snd again)" by (simp add: again_def)
  ultimately have "running_threads None served + session_threads example_away example_pool \<le> running_threads None (snd again)"
    using parked_threads_counted_twice[OF due _ fine records] by blast
  moreover have "session_threads example_away example_pool = 8" "running_threads None example_pool = 8" by code_simp+
  moreover have "running_threads None served = 8" "bg_total (budget_summary 16 (di_settings example_input) served) = 12"
    unfolding served_def parked_def by code_simp+
  ultimately show ?thesis by (simp add: parked_def served_def again_def Let_def)
qed

end
