(* ===== verification/Session_Registry.thy ===== *)
theory Session_Registry
  imports Worker_Dispatch
begin

text \<open>
  The sessions of \<^verbatim>\<open>MobilePlaybackManager\<close> and the two tables that index them: the preferred session of a user
  (\<^verbatim>\<open>_active_session_by_user\<close>) and the sessions of the new pipeline (\<^verbatim>\<open>_route2_session_ids_by_user\<close>, a set of the code, a
  list without repetition here). The operations look sessions up, register them, end them one at a time or in groups, and
  let them expire; ending takes the worker records of their epochs along. \<open>parse\<close> stands for \<^verbatim>\<open>datetime.fromisoformat\<close>,
  \<open>clock\<close> for \<^verbatim>\<open>time.time()\<close>, \<open>stamp\<close> for \<^verbatim>\<open>utcnow_iso()\<close>. Directories on disk, processes of the older pipeline and log
  events are left out.
\<close>

section \<open>The manager\<close>

record manager =
  mg_sessions :: "(string \<times> mobile_session) list"
  mg_active :: "(int \<times> string) list"
  mg_route2 :: "(int \<times> string list) list"
  mg_workers :: worker_table
  mg_pool :: pool
  mg_cooldowns :: "((int \<times> int) \<times> real) list"

definition parse_iso_ts :: "(string \<Rightarrow> real option) \<Rightarrow> real \<Rightarrow> string \<Rightarrow> real" where
  "parse_iso_ts parse clock v = (if v = [] then clock else case parse v of Some t \<Rightarrow> t | None \<Rightarrow> clock)"

definition session_activity_ts :: "(string \<Rightarrow> real option) \<Rightarrow> real \<Rightarrow> mobile_session \<Rightarrow> real" where
  "session_activity_ts parse clock s =
     max (parse_iso_ts parse clock (ms_last_client_seen s)) (parse_iso_ts parse clock (ms_last_media_access s))"

definition session_live :: "mobile_session \<Rightarrow> bool" where
  "session_live s = (ms_state s \<notin> {''failed'', ''stopped'', ''expired''})"

text \<open>The most recently active first; the sort of the code is stable in reverse too.\<close>

definition ordered_live :: "(string \<Rightarrow> real option) \<Rightarrow> real \<Rightarrow> mobile_session list \<Rightarrow> mobile_session list" where
  "ordered_live parse clock ss = sort_key (\<lambda>s. - session_activity_ts parse clock s) (filter session_live ss)"

definition resolve_preferred ::
  "(string \<Rightarrow> real option) \<Rightarrow> real \<Rightarrow> int \<Rightarrow> int option \<Rightarrow> manager \<Rightarrow> mobile_session option \<times> manager" where
  "resolve_preferred parse clock user item m =
     (let fits = (\<lambda>s. item = None \<or> Some (ms_media_item s) = item);
          candidates = ordered_live parse clock (filter (\<lambda>s. ms_user s = user \<and> fits s) (map snd (mg_sessions m))) in
      if candidates = [] then (None, m\<lparr>mg_active := dict_pop (mg_active m) user\<rparr>)
      else
        let preferred = (if truthy_string (dict_get (mg_active m) user)
                         then dict_get (mg_sessions m) (the (dict_get (mg_active m) user)) else None) in
        if preferred \<noteq> None \<and> the preferred \<in> set candidates \<and> fits (the preferred) then (preferred, m)
        else (Some (hd candidates), m\<lparr>mg_active := dict_set (mg_active m) user (ms_id (hd candidates))\<rparr>))"

definition route2_ids :: "manager \<Rightarrow> int \<Rightarrow> string list" where
  "route2_ids m user = (case dict_get (mg_route2 m) user of Some ids \<Rightarrow> ids | None \<Rightarrow> [])"

definition is_route2 :: "mobile_session \<Rightarrow> bool" where
  "is_route2 s = (bs_engine_mode (ms_browser s) = ''route2'')"

definition user_route2_sessions :: "manager \<Rightarrow> int \<Rightarrow> mobile_session list" where
  "user_route2_sessions m user =
     concat (map (\<lambda>sid. case dict_get (mg_sessions m) sid of None \<Rightarrow> [] | Some s \<Rightarrow> if is_route2 s then [s] else []) (route2_ids m user))"

definition register_route2 :: "mobile_session \<Rightarrow> manager \<Rightarrow> manager" where
  "register_route2 s m =
     (let ids = route2_ids m (ms_user s) in
      m\<lparr>mg_route2 := dict_set (mg_route2 m) (ms_user s) (if ms_id s \<in> set ids then ids else ids @ [ms_id s]),
        mg_active := dict_set (mg_active m) (ms_user s) (ms_id s)\<rparr>)"

definition drop_route2_id :: "mobile_session \<Rightarrow> manager \<Rightarrow> manager" where
  "drop_route2_id s m =
     (if \<not> is_route2 s then m
      else case dict_get (mg_route2 m) (ms_user s) of
             None \<Rightarrow> m
           | Some ids \<Rightarrow>
               let ids' = filter (\<lambda>i. i \<noteq> ms_id s) ids
               in m\<lparr>mg_route2 := (if ids' = [] then dict_pop (mg_route2 m) (ms_user s) else dict_set (mg_route2 m) (ms_user s) ids')\<rparr>)"

definition unregister_session :: "(string \<Rightarrow> real option) \<Rightarrow> real \<Rightarrow> mobile_session \<Rightarrow> manager \<Rightarrow> manager" where
  "unregister_session parse clock s m0 =
     (let m = drop_route2_id s m0 in
      if dict_get (mg_active m) (ms_user s) = Some (ms_id s) then
        (let (replacement, m1) = resolve_preferred parse clock (ms_user s) None m in
         case replacement of
           None \<Rightarrow> m1\<lparr>mg_active := dict_pop (mg_active m1) (ms_user s)\<rparr>
         | Some r \<Rightarrow>
             if ms_id r = ms_id s then m1\<lparr>mg_active := dict_pop (mg_active m1) (ms_user s)\<rparr>
             else m1\<lparr>mg_active := dict_set (mg_active m1) (ms_user s) (ms_id r)\<rparr>)
      else m)"

section \<open>One session\<close>

definition normalize_device_class :: "string option \<Rightarrow> string option" where
  "normalize_device_class v =
     (let n = py_lower (py_strip (or_string v [])) in if n \<in> {''phone'', ''tablet'', ''desktop'', ''unknown''} then Some n else None)"

definition strip_or_none :: "string option \<Rightarrow> string option" where
  "strip_or_none v = (let n = py_strip (or_string v []) in if n = [] then None else Some n)"

record authority =
  au_auth :: "int option"
  au_username :: "string option"
  au_device :: "string option"
  au_agent :: "string option"

definition adopt_authority :: "authority \<Rightarrow> mobile_session \<Rightarrow> mobile_session" where
  "adopt_authority a s =
     (let keep = (\<lambda>x y. if x = None then y else x) in
      s\<lparr>ms_auth_session := (if au_auth a = None then ms_auth_session s else au_auth a),
        ms_username := keep (strip_or_none (au_username a)) (ms_username s),
        ms_device_class := keep (normalize_device_class (au_device a)) (ms_device_class s),
        ms_user_agent := keep (strip_or_none (au_agent a)) (ms_user_agent s)\<rparr>)"

definition get_owned_session :: "string \<Rightarrow> int \<Rightarrow> manager \<Rightarrow> py_error + mobile_session" where
  "get_owned_session sid user m =
     (case dict_get (mg_sessions m) sid of
        None \<Rightarrow> Inl (KeyError ''Mobile playback session not found'')
      | Some s \<Rightarrow> if ms_user s \<noteq> user then Inl (PermissionError ''Mobile playback session not found'') else Inr s)"

definition put_session :: "mobile_session \<Rightarrow> manager \<Rightarrow> manager" where
  "put_session s m = m\<lparr>mg_sessions := dict_set (mg_sessions m) (ms_id s) s\<rparr>"

definition touch :: "string \<Rightarrow> real \<Rightarrow> int \<Rightarrow> bool \<Rightarrow> mobile_session \<Rightarrow> manager \<Rightarrow> manager" where
  "touch stamp clock ttl media_access s m =
     put_session (touch_session stamp clock ttl media_access s) (m\<lparr>mg_active := dict_set (mg_active m) (ms_user s) (ms_id s)\<rparr>)"

definition touch_owned :: "string \<Rightarrow> real \<Rightarrow> int \<Rightarrow> bool \<Rightarrow> string \<Rightarrow> int \<Rightarrow> manager \<Rightarrow> manager" where
  "touch_owned stamp clock ttl media_access sid user m =
     (case dict_get (mg_sessions m) sid of
        None \<Rightarrow> m
      | Some s \<Rightarrow> if ms_user s \<noteq> user then m else touch stamp clock ttl media_access s m)"

text \<open>The worker that an error about a conflicting session names.\<close>

definition conflict_worker_id :: "mobile_session \<Rightarrow> pool \<Rightarrow> string option" where
  "conflict_worker_id s p =
     (let b = ms_browser s;
          of_epoch = (\<lambda>ref. case epoch_of b ref of None \<Rightarrow> None | Some e \<Rightarrow> if truthy_string (ep_worker e) then ep_worker e else None) in
      case of_epoch (bs_replacement b) of
        Some w \<Rightarrow> Some w
      | None \<Rightarrow>
          (case of_epoch (bs_active b) of
             Some w \<Rightarrow> Some w
           | None \<Rightarrow>
               (case filter (\<lambda>(w, r). wr_session r = ms_id s \<and> wr_state r \<in> {''queued'', ''running'', ''stopping''}) p of
                  [] \<Rightarrow> None
                | (w, _) # _ \<Rightarrow> Some w)))"

section \<open>Ending sessions\<close>

text \<open>Every epoch of a session ends, with its worker and its record.\<close>

definition terminate_session :: "string \<Rightarrow> real \<Rightarrow> mobile_session \<Rightarrow> manager \<Rightarrow> manager" where
  "terminate_session stamp clock s m =
     (if \<not> is_route2 s then m
      else
        let (workers, p) = foldl (\<lambda>(workers, p) (eid, e). snd (terminate_epoch_record stamp clock ''stopped'' True s (e, workers, p)))
                             (mg_workers m, mg_pool m) (bs_epochs (ms_browser s))
        in m\<lparr>mg_workers := workers, mg_pool := p\<rparr>)"

definition remove_session :: "(string \<Rightarrow> real option) \<Rightarrow> real \<Rightarrow> mobile_session \<Rightarrow> manager \<Rightarrow> manager" where
  "remove_session parse clock s m = unregister_session parse clock s (m\<lparr>mg_sessions := dict_pop (mg_sessions m) (ms_id s)\<rparr>)"

definition stop_session :: "(string \<Rightarrow> real option) \<Rightarrow> string \<Rightarrow> real \<Rightarrow> string \<Rightarrow> int \<Rightarrow> manager \<Rightarrow> bool \<times> manager" where
  "stop_session parse stamp clock sid user m =
     (case get_owned_session sid user m of
        Inl _ \<Rightarrow> (False, m)
      | Inr s \<Rightarrow> (True, terminate_session stamp clock s (remove_session parse clock s m)))"

definition invalidation_message :: "string \<Rightarrow> string" where
  "invalidation_message reason =
     (if reason = ''user_disabled'' then ''This account has been disabled. Browser playback preparation was stopped.''
      else if reason = ''admin_revoked'' then ''This signed-in session was revoked. Browser playback preparation was stopped.''
      else if reason = ''self_deleted'' then ''This account was deleted. Browser playback preparation was stopped.''
      else if reason = ''age_requirement_changed'' then ''This movie's age requirement changed. Browser playback preparation was stopped.''
      else if reason = ''user_age_credential_changed''
      then ''This account's age credential changed. Browser playback preparation was stopped.''
      else ''Browser playback preparation was stopped by backend control.'')"

definition collect_one ::
  "(string \<Rightarrow> real option) \<Rightarrow> real \<Rightarrow> (mobile_session \<Rightarrow> bool) \<Rightarrow> string \<Rightarrow> mobile_session list \<times> manager \<Rightarrow> string \<times> mobile_session
     \<Rightarrow> mobile_session list \<times> manager" where
  "collect_one parse clock pred reason acc entry =
     (let (out, m) = acc; s = snd entry in
      if \<not> pred s then acc
      else let s' = s\<lparr>ms_state := ''failed'', ms_last_error := Some (invalidation_message reason)\<rparr>
           in (out @ [s'], remove_session parse clock s' m))"

definition collect_to_invalidate ::
  "(string \<Rightarrow> real option) \<Rightarrow> real \<Rightarrow> (mobile_session \<Rightarrow> bool) \<Rightarrow> string \<Rightarrow> manager \<Rightarrow> mobile_session list \<times> manager" where
  "collect_to_invalidate parse clock pred reason m = foldl (collect_one parse clock pred reason) ([], m) (mg_sessions m)"

definition invalidate_sessions ::
  "(string \<Rightarrow> real option) \<Rightarrow> string \<Rightarrow> real \<Rightarrow> (mobile_session \<Rightarrow> bool) \<Rightarrow> string \<Rightarrow> manager \<Rightarrow> nat \<times> manager" where
  "invalidate_sessions parse stamp clock pred reason m =
     (let (ss, m1) = collect_to_invalidate parse clock pred reason m
      in (length ss, foldl (\<lambda>m s. terminate_session stamp clock s m) m1 ss))"

definition invalidate_user_sessions where
  "invalidate_user_sessions parse stamp clock user reason = invalidate_sessions parse stamp clock (\<lambda>s. ms_user s = user) reason"

definition invalidate_auth_session where
  "invalidate_auth_session parse stamp clock auth reason = invalidate_sessions parse stamp clock (\<lambda>s. ms_auth_session s = Some auth) reason"

definition invalidate_media_for_users ::
  "(string \<Rightarrow> real option) \<Rightarrow> string \<Rightarrow> real \<Rightarrow> int list \<Rightarrow> int list \<Rightarrow> string \<Rightarrow> manager \<Rightarrow> nat \<times> manager" where
  "invalidate_media_for_users parse stamp clock items users reason m =
     (if items = [] \<or> users = [] then (0, m)
      else invalidate_sessions parse stamp clock (\<lambda>s. ms_media_item s \<in> set items \<and> ms_user s \<in> set users) reason m)"

text \<open>
  The sweep of the manager loop: accounts that are disabled, and sign-ins that were revoked other than by signing out.
  \<open>enabled\<close> and \<open>revoked\<close> are what the two queries return for an identifier, \<open>None\<close> when it has no row.
\<close>

definition reconcile_auth_state ::
  "(string \<Rightarrow> real option) \<Rightarrow> string \<Rightarrow> real \<Rightarrow> (int \<Rightarrow> bool option) \<Rightarrow> (int \<Rightarrow> (bool \<times> string option) option) \<Rightarrow> manager \<Rightarrow> manager" where
  "reconcile_auth_state parse stamp clock enabled revoked m =
     (let sessions = map snd (mg_sessions m);
          disabled = filter (\<lambda>u. enabled u = Some False) (sort (remdups (map ms_user sessions)));
          ended = filter (\<lambda>a. case revoked a of Some (True, why) \<Rightarrow> or_string why [] \<noteq> ''logout'' | _ \<Rightarrow> False)
                    (sort (remdups (concat (map (\<lambda>s. case ms_auth_session s of None \<Rightarrow> [] | Some a \<Rightarrow> [a]) sessions))));
          m1 = foldl (\<lambda>m u. snd (invalidate_user_sessions parse stamp clock u ''user_disabled'' m)) m disabled
      in foldl (\<lambda>m a. snd (invalidate_auth_session parse stamp clock a ''admin_revoked'' m)) m1 ended)"

section \<open>Expiry\<close>

definition cleanup_draining_records :: "string \<Rightarrow> real \<Rightarrow> mobile_session \<times> worker_table \<times> pool \<Rightarrow> mobile_session \<times> worker_table \<times> pool" where
  "cleanup_draining_records stamp now swp =
     foldl (\<lambda>(s, workers, p) (eid, e).
         let b = ms_browser s in
         if bs_active b = Some eid \<or> bs_replacement b = Some eid then (s, workers, p)
         else if \<not> epoch_draining_expired b (Some now) now e then (s, workers, p)
         else discard_epoch_record stamp now eid (s, workers, p))
       swp (bs_epochs (ms_browser (fst swp)))"

definition has_background_activity :: "mobile_session \<Rightarrow> pool \<Rightarrow> bool" where
  "has_background_activity s p = (\<exists>wr \<in> set p. wr_session (snd wr) = ms_id s \<and> wr_state (snd wr) \<in> {''queued'', ''running''})"

record lifetime =
  lt_ttl_minutes :: int
  lt_idle_seconds :: int
  lt_queue_timeout_seconds :: int

text \<open>One session in the sweep: whether it is stale, and what the sweep leaves of it.\<close>

definition expire_one ::
  "(string \<Rightarrow> real option) \<Rightarrow> string \<Rightarrow> lifetime \<Rightarrow> real \<Rightarrow> mobile_session list \<times> manager \<Rightarrow> string \<times> mobile_session
     \<Rightarrow> mobile_session list \<times> manager" where
  "expire_one parse stamp lt now acc entry =
     (let (stale, m) = acc; s = snd entry;
          expire = (\<lambda>s m. (stale @ [s\<lparr>ms_state := ''expired''\<rparr>], remove_session parse now (s\<lparr>ms_state := ''expired''\<rparr>) m)) in
      if is_route2 s then
        (let (s1, workers, p) = cleanup_draining_records stamp now (s, mg_workers m, mg_pool m);
             (s2, p2) = park_backgrounded now (s1, p);
             s3 = (if has_background_activity s2 p2
                   then s2\<lparr>ms_expires_at := max (ms_expires_at s2) (now + of_int (lt_ttl_minutes lt * 60))\<rparr> else s2);
             m1 = m\<lparr>mg_sessions := dict_set (mg_sessions m) (fst entry) s3, mg_workers := workers, mg_pool := p2\<rparr>
         in if ms_expires_at s3 \<le> now then expire s3 m1 else (stale, m1))
      else if ms_expires_at s \<le> now \<or> now - session_activity_ts parse now s > of_int (lt_idle_seconds lt) then expire s m
      else if ms_worker_state s = ''queued'' \<and> (case ms_queue_started s of None \<Rightarrow> False | Some t \<Rightarrow> t \<noteq> 0 \<and> now - t > of_int (lt_queue_timeout_seconds lt))
      then (stale, m\<lparr>mg_sessions := dict_set (mg_sessions m) (fst entry)
             (s\<lparr>ms_last_error := Some ''Maximum concurrent mobile workers reached; try again when another experimental playback job finishes.'',
                ms_state := ''failed'', ms_worker_state := ''idle'', ms_queue_started := None\<rparr>)\<rparr>)
      else acc)"

definition cleanup_sessions :: "(string \<Rightarrow> real option) \<Rightarrow> string \<Rightarrow> lifetime \<Rightarrow> real \<Rightarrow> manager \<Rightarrow> manager" where
  "cleanup_sessions parse stamp lt now m =
     (let (stale, m1) = foldl (expire_one parse stamp lt now) ([], m) (mg_sessions m)
      in foldl (\<lambda>m s. terminate_session stamp now s m) m1 stale)"

section \<open>The pause after an administrator ended a playback\<close>

definition ADMIN_TERMINATED_BROWSER_PLAYBACK_COOLDOWN_SECONDS :: real where
  "ADMIN_TERMINATED_BROWSER_PLAYBACK_COOLDOWN_SECONDS = 30"

definition cleanup_cooldowns :: "real \<Rightarrow> manager \<Rightarrow> manager" where
  "cleanup_cooldowns now m = m\<lparr>mg_cooldowns := filter (\<lambda>(k, t). \<not> t \<le> now) (mg_cooldowns m)\<rparr>"

definition record_cooldown :: "int \<Rightarrow> int \<Rightarrow> real \<Rightarrow> manager \<Rightarrow> manager" where
  "record_cooldown user item now m =
     (let m1 = cleanup_cooldowns now m
      in m1\<lparr>mg_cooldowns := dict_set (mg_cooldowns m1) (user, item) (now + ADMIN_TERMINATED_BROWSER_PLAYBACK_COOLDOWN_SECONDS)\<rparr>)"

text \<open>The seconds left, as the answer to the client states them.\<close>

definition cooldown_remaining :: "int \<Rightarrow> int \<Rightarrow> real \<Rightarrow> manager \<Rightarrow> int option \<times> manager" where
  "cooldown_remaining user item now m =
     (case dict_get (mg_cooldowns m) (user, item) of
        None \<Rightarrow> (None, m)
      | Some t \<Rightarrow>
          if t \<le> now then (None, m\<lparr>mg_cooldowns := dict_pop (mg_cooldowns m) (user, item)\<rparr>)
          else (Some (max 1 \<lceil>t - now\<rceil>), m))"

definition select_playback_mode :: "string option \<Rightarrow> py_error + string" where
  "select_playback_mode v =
     (let c = py_lower (py_strip (or_string v [])) in
      if c = [] then Inr ''lite'' else if c \<notin> {''lite'', ''full''} then Inl (ValueError ''Unsupported browser playback mode'') else Inr c)"

datatype cooldown_check = Free | Cooling int | Bad_Mode py_error

definition check_cooldown :: "int \<Rightarrow> int \<Rightarrow> string option \<Rightarrow> real \<Rightarrow> manager \<Rightarrow> cooldown_check \<times> manager" where
  "check_cooldown user item mode now m =
     (case select_playback_mode mode of
        Inl e \<Rightarrow> (Bad_Mode e, m)
      | Inr _ \<Rightarrow>
          let (left, m1) = cooldown_remaining user item now (cleanup_cooldowns now m)
          in ((case left of None \<Rightarrow> Free | Some n \<Rightarrow> Cooling n), m1))"

definition terminate_route2_worker ::
  "(string \<Rightarrow> real option) \<Rightarrow> string \<Rightarrow> real \<Rightarrow> string \<Rightarrow> bool \<Rightarrow> manager \<Rightarrow> bool \<times> manager" where
  "terminate_route2_worker parse stamp clock worker cooldown m =
     (let w = py_strip worker in
      if w = [] then (False, m)
      else case dict_get (mg_pool m) w of
             None \<Rightarrow> (False, m)
           | Some r \<Rightarrow>
               (case session_epoch (mg_sessions m) r of
                  None \<Rightarrow> (False, m)
                | Some (s, e) \<Rightarrow>
                    if ep_worker e \<noteq> Some w then (False, m)
                    else
                      let (stopped, m1) = stop_session parse stamp clock (ms_id s) (ms_user s) m
                      in (stopped, if stopped \<and> cooldown then record_cooldown (ms_user s) (ms_media_item s) clock m1 else m1)))"

definition shutdown :: "string \<Rightarrow> real \<Rightarrow> manager \<Rightarrow> manager" where
  "shutdown stamp clock m =
     foldl (\<lambda>m s. terminate_session stamp clock s m)
       \<lparr>mg_sessions = [], mg_active = [], mg_route2 = [], mg_workers = [], mg_pool = [], mg_cooldowns = []\<rparr> (map snd (mg_sessions m))"

section \<open>The tables agree\<close>

definition registry_ok :: "manager \<Rightarrow> bool" where
  "registry_ok m \<longleftrightarrow>
     dict_wf (mg_sessions m)
   \<and> (\<forall>sid s. dict_get (mg_sessions m) sid = Some s \<longrightarrow> ms_id s = sid)
   \<and> (\<forall>u. distinct (route2_ids m u) \<and> dict_get (mg_route2 m) u \<noteq> Some [])
   \<and> (\<forall>u sid. sid \<in> set (route2_ids m u) \<longleftrightarrow> (\<exists>s. dict_get (mg_sessions m) sid = Some s \<and> ms_user s = u \<and> is_route2 s))
   \<and> (\<forall>u sid. dict_get (mg_active m) u = Some sid \<longrightarrow> (\<exists>s. dict_get (mg_sessions m) sid = Some s \<and> ms_user s = u))"

lemma registry_okD:
  assumes "registry_ok m"
  shows "dict_wf (mg_sessions m)" and "dict_get (mg_sessions m) sid = Some s \<Longrightarrow> ms_id s = sid"
    and "distinct (route2_ids m u)" and "dict_get (mg_route2 m) u \<noteq> Some []"
    and "sid \<in> set (route2_ids m u) \<longleftrightarrow> (\<exists>s. dict_get (mg_sessions m) sid = Some s \<and> ms_user s = u \<and> is_route2 s)"
    and "dict_get (mg_active m) u = Some sid \<Longrightarrow> \<exists>s. dict_get (mg_sessions m) sid = Some s \<and> ms_user s = u"
  using assms by (simp_all add: registry_ok_def)

text \<open>It speaks of the three tables only, and of a session only by what names it.\<close>

lemma registry_ok_cong:
  "mg_sessions m' = mg_sessions m \<Longrightarrow> mg_active m' = mg_active m \<Longrightarrow> mg_route2 m' = mg_route2 m \<Longrightarrow> registry_ok m' = registry_ok m"
  by (simp add: registry_ok_def route2_ids_def)

definition same_name :: "mobile_session \<Rightarrow> mobile_session \<Rightarrow> bool" where
  "same_name s s' \<longleftrightarrow> ms_id s' = ms_id s \<and> ms_user s' = ms_user s \<and> is_route2 s' = is_route2 s"

lemma same_name_refl [simp]: "same_name s s"
  by (simp add: same_name_def)

lemma registry_ok_put:
  assumes ok: "registry_ok m" and s: "dict_get (mg_sessions m) sid = Some s" and name: "same_name s s'"
  shows "registry_ok (m\<lparr>mg_sessions := dict_set (mg_sessions m) sid s'\<rparr>)"
proof -
  have ids: "(\<exists>x. dict_get (dict_set (mg_sessions m) sid s') k = Some x \<and> ms_user x = u \<and> is_route2 x)
      \<longleftrightarrow> (\<exists>x. dict_get (mg_sessions m) k = Some x \<and> ms_user x = u \<and> is_route2 x)"
    and users: "(\<exists>x. dict_get (dict_set (mg_sessions m) sid s') k = Some x \<and> ms_user x = u)
      \<longleftrightarrow> (\<exists>x. dict_get (mg_sessions m) k = Some x \<and> ms_user x = u)" for k u
    using s name by (auto simp: same_name_def)
  have "ms_id s' = sid" using ok s name by (auto simp: registry_ok_def same_name_def)
  then show ?thesis using ok ids users by (simp add: registry_ok_def route2_ids_def)
qed

lemma put_session_ok:
  "registry_ok m \<Longrightarrow> dict_get (mg_sessions m) (ms_id s) = Some s0 \<Longrightarrow> same_name s0 s \<Longrightarrow> registry_ok (put_session s m)"
  unfolding put_session_def by (rule registry_ok_put)

lemma registry_ok_active:
  "registry_ok m \<Longrightarrow> dict_get (mg_sessions m) sid = Some s \<Longrightarrow> ms_user s = u \<Longrightarrow> registry_ok (m\<lparr>mg_active := dict_set (mg_active m) u sid\<rparr>)"
  by (auto simp: registry_ok_def route2_ids_def)

lemma touch_ok: "registry_ok m \<Longrightarrow> dict_get (mg_sessions m) (ms_id s) = Some s \<Longrightarrow> registry_ok (touch stamp clock ttl media s m)"
  unfolding touch_def
  by (rule put_session_ok[of _ _ s]) (auto simp: touch_session_def same_name_def is_route2_def intro: registry_ok_active)

lemma adopt_same_name: "same_name s (adopt_authority a s)"
  by (simp add: adopt_authority_def same_name_def is_route2_def Let_def)

text \<open>The preferred session is one of the user's, and looking for it changes at most the entry of that user.\<close>

lemma resolve_preferred_some:
  assumes "resolve_preferred parse clock user item m = (Some s, m')" and "dict_wf (mg_sessions m)"
    and "\<forall>sid s. dict_get (mg_sessions m) sid = Some s \<longrightarrow> ms_id s = sid"
  shows "dict_get (mg_sessions m) (ms_id s) = Some s \<and> ms_user s = user \<and> session_live s"
proof -
  define candidates where "candidates = ordered_live parse clock
    (filter (\<lambda>s. ms_user s = user \<and> (item = None \<or> Some (ms_media_item s) = item)) (map snd (mg_sessions m)))"
  have "s \<in> set candidates"
    using assms(1) by (auto simp: resolve_preferred_def Let_def candidates_def[symmetric] split: if_splits)
  then have "s \<in> snd ` set (mg_sessions m)" "ms_user s = user" "session_live s" by (auto simp: candidates_def ordered_live_def)
  moreover from this(1) obtain k where "(k, s) \<in> set (mg_sessions m)" by auto
  ultimately show ?thesis using dict_get_wf[OF assms(2)] assms(3) by blast
qed

lemma resolve_preferred_fields:
  assumes "resolve_preferred parse clock user item m = (r, m')"
  shows "mg_sessions m' = mg_sessions m" "mg_route2 m' = mg_route2 m" "mg_workers m' = mg_workers m" "mg_pool m' = mg_pool m"
    "mg_cooldowns m' = mg_cooldowns m" "u \<noteq> user \<Longrightarrow> dict_get (mg_active m') u = dict_get (mg_active m) u"
    "r = None \<Longrightarrow> dict_get (mg_active m') user = None" "r = Some s \<Longrightarrow> dict_get (mg_active m') user \<noteq> None"
  using assms by (auto simp: resolve_preferred_def Let_def truthy_string_def split: if_splits option.splits)

lemma resolve_preferred_ok:
  assumes ok: "registry_ok m" and r: "resolve_preferred parse clock user item m = (r, m')"
  shows "registry_ok m'"
proof -
  have tables: "mg_sessions m' = mg_sessions m" "route2_ids m' = route2_ids m" "mg_route2 m' = mg_route2 m"
    using resolve_preferred_fields[OF r] by (auto simp: route2_ids_def)
  have "\<exists>s. dict_get (mg_sessions m) sid = Some s \<and> ms_user s = u" if g: "dict_get (mg_active m') u = Some sid" for u sid
  proof (cases "dict_get (mg_active m') u = dict_get (mg_active m) u")
    case True
    then show ?thesis using g registry_okD(6)[OF ok] by simp
  next
    case False
    then have u: "u = user" using resolve_preferred_fields(6)[OF r] by auto
    then obtain s where s: "r = Some s" using g resolve_preferred_fields(7)[OF r] by (cases r) auto
    have "dict_get (mg_sessions m) (ms_id s) = Some s \<and> ms_user s = user"
      using resolve_preferred_some[OF r[unfolded s] registry_okD(1)[OF ok]] registry_okD(2)[OF ok] by blast
    moreover have "sid = ms_id s"
      using False g r s unfolding u by (auto simp: resolve_preferred_def Let_def split: if_splits)
    ultimately show ?thesis using u by blast
  qed
  then show ?thesis using ok by (simp add: registry_ok_def tables)
qed

lemma register_route2_ok:
  assumes ok: "registry_ok m" and new: "dict_get (mg_sessions m) (ms_id s) = None" and r2: "is_route2 s"
  shows "registry_ok (register_route2 s (m\<lparr>mg_sessions := dict_set (mg_sessions m) (ms_id s) s\<rparr>))" (is "registry_ok ?m")
proof -
  have absent: "ms_id s \<notin> set (route2_ids m u)" for u using registry_okD(5)[OF ok] new by simp
  have ids: "route2_ids ?m u = (if u = ms_user s then route2_ids m u @ [ms_id s] else route2_ids m u)" for u
  proof -
    have "dict_get (mg_route2 ?m) u = (if u = ms_user s then Some (route2_ids m u @ [ms_id s]) else dict_get (mg_route2 m) u)"
      using absent[of "ms_user s"] by (cases "u = ms_user s") (simp_all add: register_route2_def Let_def route2_ids_def)
    then show ?thesis unfolding route2_ids_def by simp
  qed
  have "\<exists>x. dict_get (mg_sessions ?m) sid = Some x \<and> ms_user x = u" if "dict_get (mg_active ?m) u = Some sid" for u sid
    using that registry_okD(6)[OF ok, of u sid] new
    by (cases "u = ms_user s"; cases "sid = ms_id s") (auto simp: register_route2_def Let_def)
  moreover have "sid \<in> set (route2_ids ?m u) \<longleftrightarrow> (\<exists>x. dict_get (mg_sessions ?m) sid = Some x \<and> ms_user x = u \<and> is_route2 x)" for u sid
    unfolding ids using registry_okD(5)[OF ok, of sid u] absent[of u] new r2
    by (cases "sid = ms_id s") (auto simp: register_route2_def Let_def)
  moreover have "distinct (route2_ids ?m u)" "dict_get (mg_route2 ?m) u \<noteq> Some []" for u
    unfolding ids using registry_okD(3,4)[OF ok, of u] absent[of u] by (auto simp: register_route2_def Let_def)
  moreover have "dict_wf (mg_sessions ?m)" "dict_get (mg_sessions ?m) sid = Some x \<Longrightarrow> ms_id x = sid" for sid x
    using registry_okD(1,2)[OF ok] by (auto simp: register_route2_def Let_def split: if_splits)
  ultimately show ?thesis unfolding registry_ok_def by blast
qed

lemma register_legacy_ok:
  assumes "registry_ok m" and "dict_get (mg_sessions m) (ms_id s) = None" and "\<not> is_route2 s"
  shows "registry_ok (m\<lparr>mg_sessions := dict_set (mg_sessions m) (ms_id s) s, mg_active := dict_set (mg_active m) (ms_user s) (ms_id s)\<rparr>)"
proof -
  have "dict_get (mg_active m) u = Some sid \<Longrightarrow> sid \<noteq> ms_id s" for u sid using registry_okD(6)[OF assms(1)] assms(2) by fastforce
  then show ?thesis using assms by (auto simp: registry_ok_def route2_ids_def)
qed

lemma drop_route2_id_fields [simp]:
  "mg_sessions (drop_route2_id s m) = mg_sessions m" "mg_active (drop_route2_id s m) = mg_active m"
  "mg_workers (drop_route2_id s m) = mg_workers m" "mg_pool (drop_route2_id s m) = mg_pool m"
  "mg_cooldowns (drop_route2_id s m) = mg_cooldowns m"
  by (simp_all add: drop_route2_id_def Let_def split: option.split)

lemma route2_ids_drop:
  "route2_ids (drop_route2_id s m) u = (if is_route2 s \<and> u = ms_user s then filter (\<lambda>i. i \<noteq> ms_id s) (route2_ids m u) else route2_ids m u)"
  by (auto simp: drop_route2_id_def route2_ids_def Let_def split: option.split)

lemma drop_route2_id_nonempty:
  "(\<And>u. dict_get (mg_route2 m) u \<noteq> Some []) \<Longrightarrow> dict_get (mg_route2 (drop_route2_id s m)) u \<noteq> Some []"
  by (simp add: drop_route2_id_def Let_def split: option.split)

lemma unregister_fields [simp]:
  "mg_sessions (unregister_session parse clock s m) = mg_sessions m" "mg_route2 (unregister_session parse clock s m) = mg_route2 (drop_route2_id s m)"
  "mg_workers (unregister_session parse clock s m) = mg_workers m" "mg_pool (unregister_session parse clock s m) = mg_pool m"
  "mg_cooldowns (unregister_session parse clock s m) = mg_cooldowns m"
proof -
  obtain r m1 where r: "resolve_preferred parse clock (ms_user s) None (drop_route2_id s m) = (r, m1)" by fastforce
  note f = resolve_preferred_fields(1-5)[OF r]
  show "mg_sessions (unregister_session parse clock s m) = mg_sessions m" "mg_route2 (unregister_session parse clock s m) = mg_route2 (drop_route2_id s m)"
    "mg_workers (unregister_session parse clock s m) = mg_workers m" "mg_pool (unregister_session parse clock s m) = mg_pool m"
    "mg_cooldowns (unregister_session parse clock s m) = mg_cooldowns m"
    by (simp_all add: unregister_session_def Let_def r f split: option.split)
qed

lemma unregister_active:
  assumes wf: "dict_wf (mg_sessions m)" "\<forall>sid x. dict_get (mg_sessions m) sid = Some x \<longrightarrow> ms_id x = sid"
    and g: "dict_get (mg_active (unregister_session parse clock s m)) u = Some sid"
  shows "dict_get (mg_active m) u = Some sid \<and> sid \<noteq> ms_id s
    \<or> u \<noteq> ms_user s \<and> dict_get (mg_active m) u = Some sid
    \<or> (\<exists>x. dict_get (mg_sessions m) sid = Some x \<and> ms_user x = u)"
proof (cases "dict_get (mg_active m) (ms_user s) = Some (ms_id s)")
  case False
  then have "dict_get (mg_active m) u = Some sid" using g by (simp add: unregister_session_def Let_def)
  then show ?thesis using False by (cases "u = ms_user s") auto
next
  case True
  obtain r m1 where r: "resolve_preferred parse clock (ms_user s) None (drop_route2_id s m) = (r, m1)" by fastforce
  have found: "dict_get (mg_sessions m) (ms_id x) = Some x \<and> ms_user x = ms_user s" if "r = Some x" for x
    using resolve_preferred_some[OF r[unfolded that]] wf by simp
  show ?thesis
  proof (cases "u = ms_user s")
    case False
    then have "dict_get (mg_active m) u = Some sid"
      using g True resolve_preferred_fields(6)[OF r False] by (simp add: unregister_session_def Let_def r split: option.splits if_splits)
    then show ?thesis using False by blast
  next
    case u: True
    then have "\<exists>x. r = Some x \<and> sid = ms_id x"
      using g True by (auto simp: unregister_session_def Let_def r split: option.splits if_splits)
    then show ?thesis using found u by auto
  qed
qed

lemma remove_session_fields [simp]:
  "mg_sessions (remove_session parse clock s m) = dict_pop (mg_sessions m) (ms_id s)" "mg_workers (remove_session parse clock s m) = mg_workers m"
  "mg_pool (remove_session parse clock s m) = mg_pool m" "mg_cooldowns (remove_session parse clock s m) = mg_cooldowns m"
  by (simp_all add: remove_session_def)

text \<open>Taking a session out of the tables leaves them in agreement.\<close>

lemma remove_session_ok:
  assumes ok: "registry_ok m" and s0: "dict_get (mg_sessions m) (ms_id s) = Some s0" and name: "same_name s0 s"
  shows "registry_ok (remove_session parse clock s m)" (is "registry_ok ?m")
proof -
  define m0 where "m0 = m\<lparr>mg_sessions := dict_pop (mg_sessions m) (ms_id s)\<rparr>"
  have m: "?m = unregister_session parse clock s m0" by (simp add: remove_session_def m0_def)
  have wf: "dict_wf (mg_sessions m0)" "\<forall>sid x. dict_get (mg_sessions m0) sid = Some x \<longrightarrow> ms_id x = sid"
    using registry_okD(1,2)[OF ok] by (auto simp: m0_def)
  have base: "route2_ids m0 u = route2_ids m u" "mg_route2 m0 = mg_route2 m" for u by (simp_all add: m0_def route2_ids_def)
  have ids: "route2_ids ?m u = (if is_route2 s \<and> u = ms_user s then filter (\<lambda>i. i \<noteq> ms_id s) (route2_ids m u) else route2_ids m u)" for u
  proof -
    have "route2_ids ?m u = route2_ids (drop_route2_id s m0) u" by (simp add: m route2_ids_def)
    then show ?thesis by (simp add: route2_ids_drop base)
  qed
  have "sid \<in> set (route2_ids ?m u) \<longleftrightarrow> (\<exists>x. dict_get (mg_sessions ?m) sid = Some x \<and> ms_user x = u \<and> is_route2 x)" for u sid
    unfolding ids using registry_okD(5)[OF ok, of sid u] s0 name by (auto simp: same_name_def)
  moreover have "\<exists>x. dict_get (mg_sessions ?m) sid = Some x \<and> ms_user x = u" if g: "dict_get (mg_active ?m) u = Some sid" for u sid
  proof -
    have "dict_get (mg_active m) u = Some sid \<and> (sid \<noteq> ms_id s \<or> u \<noteq> ms_user s) \<or> (\<exists>x. dict_get (mg_sessions m0) sid = Some x \<and> ms_user x = u)"
      using unregister_active[OF wf, of parse clock s u sid] g by (auto simp: m m0_def)
    then show ?thesis
    proof
      assume a: "dict_get (mg_active m) u = Some sid \<and> (sid \<noteq> ms_id s \<or> u \<noteq> ms_user s)"
      then obtain x where "dict_get (mg_sessions m) sid = Some x" "ms_user x = u" using registry_okD(6)[OF ok] by blast
      then show ?thesis using a s0 name by (cases "sid = ms_id s") (auto simp: same_name_def)
    qed (simp add: m0_def)
  qed
  moreover have "distinct (route2_ids ?m u)" for u unfolding ids using registry_okD(3)[OF ok] by simp
  moreover have "dict_get (mg_route2 ?m) u \<noteq> Some []" for u
    using drop_route2_id_nonempty[of m0 s u] registry_okD(4)[OF ok] by (simp add: m base)
  moreover have "dict_wf (mg_sessions ?m)" "\<And>sid x. dict_get (mg_sessions ?m) sid = Some x \<Longrightarrow> ms_id x = sid"
    using registry_okD(1,2)[OF ok] by (auto split: if_splits)
  ultimately show ?thesis unfolding registry_ok_def by blast
qed

section \<open>Ending many sessions\<close>

lemma dict_pop_filter: "dict_pop d k = filter (\<lambda>x. fst x \<noteq> k) d"
  by (induction d k rule: dict_pop.induct) auto

lemma dict_pop_middle: "dict_wf (ys @ (k, v) # xs) \<Longrightarrow> dict_pop (ys @ (k, v) # xs) k = ys @ xs"
  unfolding dict_pop_filter dict_wf_def by (auto intro!: filter_True arg_cong2[where f = "(@)"])

text \<open>The workers that the epochs of a session name; terminating the session takes exactly their records.\<close>

definition session_workers :: "mobile_session \<Rightarrow> string list" where
  "session_workers s =
     (if is_route2 s then map (\<lambda>(eid, e). the (ep_worker e)) (filter (\<lambda>(eid, e). truthy_string (ep_worker e)) (bs_epochs (ms_browser s))) else [])"

lemma terminate_fold_pool:
  "snd (foldl (\<lambda>(workers, p) (eid, e). snd (terminate_epoch_record stamp clock ''stopped'' True s (e, workers, p))) (ws, p) es)
     = foldl dict_pop p (map (\<lambda>(eid, e). the (ep_worker e)) (filter (\<lambda>(eid, e). truthy_string (ep_worker e)) es))"
proof (induction es arbitrary: ws p)
  case (Cons x es)
  obtain eid e where x: "x = (eid, e)" by fastforce
  obtain e' ws' p' where t: "terminate_epoch_record stamp clock ''stopped'' True s (e, ws, p) = (e', ws', p')" by (metis prod_cases3)
  have "p' = (if truthy_string (ep_worker e) then dict_pop p (the (ep_worker e)) else p)"
    using terminate_epoch_pool[of stamp clock "''stopped''" s e ws p] by (simp add: t)
  then show ?case using Cons.IH[of ws' p'] by (simp add: x t)
qed simp

lemma terminate_session_fields [simp]:
  "mg_sessions (terminate_session stamp clock s m) = mg_sessions m" "mg_active (terminate_session stamp clock s m) = mg_active m"
  "mg_route2 (terminate_session stamp clock s m) = mg_route2 m" "mg_cooldowns (terminate_session stamp clock s m) = mg_cooldowns m"
  by (simp_all add: terminate_session_def split: prod.split)

lemma terminate_session_pool: "mg_pool (terminate_session stamp clock s m) = foldl dict_pop (mg_pool m) (session_workers s)"
  using terminate_fold_pool[of stamp clock s "mg_workers m" "mg_pool m" "bs_epochs (ms_browser s)"]
  by (simp add: terminate_session_def session_workers_def case_prod_beta)

lemma dict_get_pops: "dict_get (foldl dict_pop p ws) w = (if w \<in> set ws then None else dict_get p w)"
  by (induction ws arbitrary: p) auto

lemma terminate_all:
  fixes ss :: "mobile_session list" and stamp and clock
  defines "end_all \<equiv> foldl (\<lambda>m s. terminate_session stamp clock s m)"
  shows "mg_sessions (end_all m ss) = mg_sessions m" "mg_active (end_all m ss) = mg_active m" "mg_route2 (end_all m ss) = mg_route2 m"
    "mg_cooldowns (end_all m ss) = mg_cooldowns m"
    "dict_get (mg_pool (end_all m ss)) w = (if \<exists>s \<in> set ss. w \<in> set (session_workers s) then None else dict_get (mg_pool m) w)"
  unfolding end_all_def by (induction ss arbitrary: m) (auto simp: terminate_session_pool dict_get_pops)

definition invalidated :: "string \<Rightarrow> mobile_session \<Rightarrow> mobile_session" where
  "invalidated reason s = s\<lparr>ms_state := ''failed'', ms_last_error := Some (invalidation_message reason)\<rparr>"

lemma invalidated_name [simp]: "same_name s (invalidated reason s)" "ms_id (invalidated reason s) = ms_id s"
  "session_workers (invalidated reason s) = session_workers s"
  by (simp_all add: invalidated_def same_name_def is_route2_def session_workers_def)

lemma collect_fold:
  "registry_ok m \<Longrightarrow> mg_sessions m = ys @ xs \<Longrightarrow> foldl (collect_one parse clock pred reason) (out, m) xs = (out', m') \<Longrightarrow>
     registry_ok m' \<and> mg_sessions m' = ys @ filter (\<lambda>x. \<not> pred (snd x)) xs
     \<and> out' = out @ map (invalidated reason) (filter pred (map snd xs)) \<and> mg_pool m' = mg_pool m \<and> mg_cooldowns m' = mg_cooldowns m"
proof (induction xs arbitrary: ys out m)
  case (Cons x xs)
  obtain k s where x: "x = (k, s)" by fastforce
  have wf: "dict_wf (ys @ (k, s) # xs)" using registry_okD(1)[OF Cons.prems(1)] Cons.prems(2) by (simp add: x)
  have get: "dict_get (mg_sessions m) k = Some s"
    using dict_get_wf[OF registry_okD(1)[OF Cons.prems(1)], of k s] Cons.prems(2) by (simp add: x)
  then have id: "ms_id s = k" by (rule registry_okD(2)[OF Cons.prems(1)])
  show ?case
  proof (cases "pred s")
    case False
    then show ?thesis
      using Cons.IH[of m "ys @ [x]" out] Cons.prems by (simp add: x collect_one_def)
  next
    case True
    define m1 where "m1 = remove_session parse clock (invalidated reason s) m"
    have "registry_ok m1"
      unfolding m1_def by (rule remove_session_ok[OF Cons.prems(1), of _ s]) (simp_all add: get id)
    moreover have "mg_sessions m1 = ys @ xs"
      using dict_pop_middle[OF wf] Cons.prems(2) by (simp add: m1_def id x)
    moreover have "collect_one parse clock pred reason (out, m) x = (out @ [invalidated reason s], m1)"
      using True by (simp add: x collect_one_def m1_def invalidated_def Let_def)
    then have "foldl (collect_one parse clock pred reason) (out @ [invalidated reason s], m1) xs = (out', m')"
      using Cons.prems(3) by simp
    ultimately have "registry_ok m' \<and> mg_sessions m' = ys @ filter (\<lambda>x. \<not> pred (snd x)) xs
        \<and> out' = (out @ [invalidated reason s]) @ map (invalidated reason) (filter pred (map snd xs)) \<and> mg_pool m' = mg_pool m1 \<and> mg_cooldowns m' = mg_cooldowns m1"
      by (rule Cons.IH)
    then show ?thesis using True by (simp add: x m1_def)
  qed
qed simp

lemma invalidate_parts:
  assumes "registry_ok m" and "invalidate_sessions parse stamp clock pred reason m = (n, m')"
  obtains ss m1 where "registry_ok m1" "mg_sessions m1 = filter (\<lambda>x. \<not> pred (snd x)) (mg_sessions m)"
    "ss = map (invalidated reason) (filter pred (map snd (mg_sessions m)))" "mg_pool m1 = mg_pool m"
    "m' = foldl (\<lambda>m s. terminate_session stamp clock s m) m1 ss" "n = length ss"
proof -
  obtain ss m1 where c: "foldl (collect_one parse clock pred reason) ([], m) (mg_sessions m) = (ss, m1)" by fastforce
  have "m' = foldl (\<lambda>m s. terminate_session stamp clock s m) m1 ss" "n = length ss"
    using assms(2) by (auto simp: invalidate_sessions_def collect_to_invalidate_def c)
  then show thesis using collect_fold[OF assms(1) _ c, of "[]"] by (intro that[of m1 ss]) auto
qed

text \<open>C20: Invalidating takes exactly the sessions asked for out of the tables, and exactly the records of their workers.\<close>

theorem invalidation_exact:
  assumes "registry_ok m" and "invalidate_sessions parse stamp clock pred reason m = (n, m')"
  shows "registry_ok m' \<and> mg_sessions m' = filter (\<lambda>(sid, s). \<not> pred s) (mg_sessions m)
    \<and> n = length (filter pred (map snd (mg_sessions m)))
    \<and> (\<forall>w. dict_get (mg_pool m') w =
          (if \<exists>(sid, s) \<in> set (mg_sessions m). pred s \<and> w \<in> set (session_workers s) then None else dict_get (mg_pool m) w))"
proof -
  obtain ss m1 where f: "registry_ok m1" "mg_sessions m1 = filter (\<lambda>x. \<not> pred (snd x)) (mg_sessions m)"
    "ss = map (invalidated reason) (filter pred (map snd (mg_sessions m)))" "mg_pool m1 = mg_pool m"
    and m': "m' = foldl (\<lambda>m s. terminate_session stamp clock s m) m1 ss" "n = length ss"
    by (rule invalidate_parts[OF assms])
  have "registry_ok m'"
    using f(1) registry_ok_cong[of m' m1] by (simp add: m' terminate_all)
  moreover have "(\<exists>s \<in> set ss. w \<in> set (session_workers s)) \<longleftrightarrow> (\<exists>(sid, s) \<in> set (mg_sessions m). pred s \<and> w \<in> set (session_workers s))" for w
    unfolding f(3) by force
  ultimately show ?thesis by (auto simp: m' terminate_all f case_prod_beta')
qed

section \<open>The sweep\<close>

lemma same_name_trans: "same_name a b \<Longrightarrow> same_name b c \<Longrightarrow> same_name a c"
  by (simp add: same_name_def)

lemma discard_record_name: "same_name s (fst (discard_epoch_record stamp clock eid (s, workers, p)))"
  by (simp add: discard_epoch_record_def same_name_def is_route2_def discard_epoch_def Let_def split: option.split prod.split)

lemma cleanup_records_name: "same_name s (fst (cleanup_draining_records stamp now (s, workers, p)))"
proof -
  define step where "step = (\<lambda>(s, workers, p) (eid, e).
         let b = ms_browser s in
         if bs_active b = Some eid \<or> bs_replacement b = Some eid then (s, workers, p)
         else if \<not> epoch_draining_expired b (Some now) now e then (s, workers, p)
         else discard_epoch_record stamp now eid (s, workers, p))"
  have one: "same_name (fst swp) (fst (step swp x))" for swp x
    by (cases swp; cases x) (simp add: step_def Let_def discard_record_name)
  have "same_name (fst swp) (fst (foldl step swp es))" for swp es
  proof (induction es arbitrary: swp)
    case (Cons x es)
    show ?case using same_name_trans[OF one[of swp x] Cons.IH] by simp
  qed simp
  from this[of "(s, workers, p)"] show ?thesis by (simp add: cleanup_draining_records_def step_def)
qed

lemma request_stop_name: "same_name s (request_stop flag eids s)"
proof -
  have "bs_engine_mode (foldl (\<lambda>b eid. update_epoch eid (\<lambda>e. e\<lparr>ep_stop_requested := flag\<rparr>) b) b eids) = bs_engine_mode b" for b
    by (induction eids arbitrary: b) (simp_all add: update_epoch_def split: option.split)
  then show ?thesis by (simp add: request_stop_def same_name_def is_route2_def)
qed

lemma park_name: "same_name s (fst (park_backgrounded now (s, p)))"
  using request_stop_name[of "s\<lparr>ms_parked := True, ms_parked_at := now, ms_lifecycle := ''background-parked'', ms_queue_started := None,
      ms_worker_state := w\<rparr>" True "epochs_with_records s p" for w]
  by (auto simp: park_backgrounded_def same_name_def is_route2_def Let_def)

lemma expire_one_ok:
  assumes ok: "registry_ok m" and get: "dict_get (mg_sessions m) k = Some s"
    and step: "expire_one parse stamp lt now (stale, m) (k, s) = (stale', m')"
  shows "registry_ok m' \<and> (\<forall>k' s'. k' \<noteq> k \<longrightarrow> dict_get (mg_sessions m) k' = Some s' \<longrightarrow> dict_get (mg_sessions m') k' = Some s')"
proof -
  have id: "ms_id s = k" by (rule registry_okD(2)[OF ok get])
  have gone: "registry_ok (remove_session parse now (x\<lparr>ms_state := ''expired''\<rparr>) n)
      \<and> (\<forall>k' s'. k' \<noteq> k \<longrightarrow> dict_get (mg_sessions n) k' = Some s' \<longrightarrow> dict_get (mg_sessions (remove_session parse now (x\<lparr>ms_state := ''expired''\<rparr>) n)) k' = Some s')"
    if "registry_ok n" "dict_get (mg_sessions n) k = Some x" for n x
  proof -
    have "ms_id x = k" by (rule registry_okD(2)[OF that])
    then show ?thesis using that remove_session_ok[of n "x\<lparr>ms_state := ''expired''\<rparr>" x] by (simp add: same_name_def is_route2_def)
  qed
  show ?thesis
  proof (cases "is_route2 s")
    case False
    have "same_name s (s\<lparr>ms_last_error := e, ms_state := ''failed'', ms_worker_state := ''idle'', ms_queue_started := None\<rparr>)" for e
      by (simp add: same_name_def is_route2_def)
    then show ?thesis
      using step False gone[OF ok get] registry_ok_put[OF ok get] ok by (auto simp: expire_one_def Let_def split: if_splits)
  next
    case True
    obtain s1 ws p where c: "cleanup_draining_records stamp now (s, mg_workers m, mg_pool m) = (s1, ws, p)" by (metis prod_cases3)
    obtain s2 p2 where park: "park_backgrounded now (s1, p) = (s2, p2)" by fastforce
    define s3 where "s3 = (if has_background_activity s2 p2
        then s2\<lparr>ms_expires_at := max (ms_expires_at s2) (now + of_int (lt_ttl_minutes lt * 60))\<rparr> else s2)"
    define m1 where "m1 = m\<lparr>mg_sessions := dict_set (mg_sessions m) k s3, mg_workers := ws, mg_pool := p2\<rparr>"
    have "same_name s s1" "same_name s1 s2"
      using cleanup_records_name[of s stamp now "mg_workers m" "mg_pool m"] park_name[of s1 now p] by (simp_all add: c park)
    then have "same_name s s3" by (auto simp: s3_def same_name_def is_route2_def)
    then have "registry_ok (m\<lparr>mg_sessions := dict_set (mg_sessions m) k s3\<rparr>)" by (rule registry_ok_put[OF ok get])
    then have ok1: "registry_ok m1" by (subst registry_ok_cong[of _ "m\<lparr>mg_sessions := dict_set (mg_sessions m) k s3\<rparr>"]) (simp_all add: m1_def)
    have get1: "dict_get (mg_sessions m1) k = Some s3" by (simp add: m1_def)
    have "(stale', m') = (if ms_expires_at s3 \<le> now then (stale @ [s3\<lparr>ms_state := ''expired''\<rparr>], remove_session parse now (s3\<lparr>ms_state := ''expired''\<rparr>) m1)
        else (stale, m1))"
      unfolding m1_def s3_def using step True by (simp add: expire_one_def c park Let_def)
    then show ?thesis using gone[OF ok1 get1] ok1 by (auto simp: m1_def split: if_splits)
  qed
qed

lemma expire_fold_ok:
  "registry_ok m \<Longrightarrow> distinct (map fst xs) \<Longrightarrow> \<forall>(k, s) \<in> set xs. dict_get (mg_sessions m) k = Some s \<Longrightarrow>
     registry_ok (snd (foldl (expire_one parse stamp lt now) (stale, m) xs))"
proof (induction xs arbitrary: stale m)
  case (Cons x xs)
  obtain k s where x: "x = (k, s)" by fastforce
  obtain stale' m' where e: "expire_one parse stamp lt now (stale, m) (k, s) = (stale', m')" by fastforce
  have "dict_get (mg_sessions m) k = Some s" using Cons.prems(3) by (simp add: x)
  note step = expire_one_ok[OF Cons.prems(1) this e]
  have "\<forall>(k', s') \<in> set xs. dict_get (mg_sessions m') k' = Some s'"
  proof (intro ballI, clarify)
    fix k' s'
    assume "(k', s') \<in> set xs"
    then have "k' \<noteq> k" "dict_get (mg_sessions m) k' = Some s'" using Cons.prems(2,3) by (force simp: x)+
    then show "dict_get (mg_sessions m') k' = Some s'" using step by blast
  qed
  then show ?case using Cons.IH[of m' stale'] step Cons.prems(2,3) by (simp add: x e)
qed simp

lemma terminate_all_ok: "registry_ok (foldl (\<lambda>m s. terminate_session stamp clock s m) m ss) = registry_ok m"
  by (rule registry_ok_cong) (simp_all add: terminate_all)

lemma cleanup_sessions_ok: "registry_ok m \<Longrightarrow> registry_ok (cleanup_sessions parse stamp lt now m)"
proof -
  assume ok: "registry_ok m"
  obtain stale m1 where e: "foldl (expire_one parse stamp lt now) ([], m) (mg_sessions m) = (stale, m1)" by fastforce
  have "registry_ok m1"
    using expire_fold_ok[OF ok, of "mg_sessions m" parse stamp lt now "[]"] registry_okD(1)[OF ok] dict_get_wf[OF registry_okD(1)[OF ok]]
    by (auto simp: e dict_wf_def)
  then show ?thesis by (simp add: cleanup_sessions_def e terminate_all_ok)
qed

lemma stop_session_ok: "registry_ok m \<Longrightarrow> registry_ok (snd (stop_session parse stamp clock sid user m))"
proof -
  assume ok: "registry_ok m"
  show ?thesis
  proof (cases "get_owned_session sid user m")
    case (Inr s)
    then have s: "dict_get (mg_sessions m) sid = Some s" by (auto simp: get_owned_session_def split: option.splits if_splits)
    then have "registry_ok (remove_session parse clock s m)"
      using remove_session_ok[OF ok, of s s] registry_okD(2)[OF ok s] by simp
    moreover have "registry_ok (terminate_session stamp clock s n) = registry_ok n" for n by (rule registry_ok_cong) simp_all
    ultimately show ?thesis by (simp add: stop_session_def Inr)
  qed (simp add: stop_session_def ok)
qed

lemma invalidate_ok: "registry_ok m \<Longrightarrow> registry_ok (snd (invalidate_sessions parse stamp clock pred reason m))"
proof -
  assume ok: "registry_ok m"
  obtain n m' where r: "invalidate_sessions parse stamp clock pred reason m = (n, m')" by fastforce
  from ok r obtain ss m1 where "registry_ok m1" "m' = foldl (\<lambda>m s. terminate_session stamp clock s m) m1 ss" by (rule invalidate_parts)
  then show ?thesis by (simp add: r terminate_all_ok)
qed

lemma reconcile_ok: "registry_ok m \<Longrightarrow> registry_ok (reconcile_auth_state parse stamp clock enabled revoked m)"
proof -
  assume ok: "registry_ok m"
  have "registry_ok n \<Longrightarrow> registry_ok (foldl (\<lambda>m u. snd (invalidate_user_sessions parse stamp clock u why m)) n us)" for n us why
    by (induction us arbitrary: n) (simp_all add: invalidate_user_sessions_def invalidate_ok)
  moreover have "registry_ok n \<Longrightarrow> registry_ok (foldl (\<lambda>m a. snd (invalidate_auth_session parse stamp clock a why m)) n as)" for n as why
    by (induction as arbitrary: n) (simp_all add: invalidate_auth_session_def invalidate_ok)
  ultimately show ?thesis using ok by (simp add: reconcile_auth_state_def Let_def)
qed

lemma terminate_route2_worker_ok: "registry_ok m \<Longrightarrow> registry_ok (snd (terminate_route2_worker parse stamp clock w cooldown m))"
proof -
  assume ok: "registry_ok m"
  have cool: "registry_ok (record_cooldown u i c n) = registry_ok n" for u i c n
    by (rule registry_ok_cong) (simp_all add: record_cooldown_def cleanup_cooldowns_def Let_def)
  show ?thesis
    using ok stop_session_ok[OF ok]
    by (auto simp: terminate_route2_worker_def cool Let_def case_prod_beta split: option.split)
qed

lemma shutdown_ok: "registry_ok (shutdown stamp clock m)"
  unfolding shutdown_def terminate_all_ok by (simp add: registry_ok_def route2_ids_def)

section \<open>Every step of the manager\<close>

text \<open>
  A change of one session, in whatever way, that leaves its name, its user and its engine; a change of the workers. These
  stand for the handlers of the other components. The rest are the operations above.
\<close>

inductive manager_step :: "manager \<Rightarrow> manager \<Rightarrow> bool" where
  Register: "dict_get (mg_sessions m) (ms_id s) = None \<Longrightarrow> is_route2 s \<Longrightarrow>
     manager_step m (register_route2 s (m\<lparr>mg_sessions := dict_set (mg_sessions m) (ms_id s) s\<rparr>))"
| Register_Legacy: "dict_get (mg_sessions m) (ms_id s) = None \<Longrightarrow> \<not> is_route2 s \<Longrightarrow>
     manager_step m (m\<lparr>mg_sessions := dict_set (mg_sessions m) (ms_id s) s, mg_active := dict_set (mg_active m) (ms_user s) (ms_id s)\<rparr>)"
| Change: "dict_get (mg_sessions m) sid = Some s \<Longrightarrow> same_name s s' \<Longrightarrow> manager_step m (m\<lparr>mg_sessions := dict_set (mg_sessions m) sid s'\<rparr>)"
| Work: "manager_step m (m\<lparr>mg_workers := workers, mg_pool := p\<rparr>)"
| Touch: "manager_step m (touch_owned stamp clock ttl media_access sid user m)"
| Prefer: "manager_step m (snd (resolve_preferred parse clock user item m))"
| Stop: "manager_step m (snd (stop_session parse stamp clock sid user m))"
| Invalidate: "manager_step m (snd (invalidate_sessions parse stamp clock pred reason m))"
| Reconcile: "manager_step m (reconcile_auth_state parse stamp clock enabled revoked m)"
| Sweep: "manager_step m (cleanup_sessions parse stamp lt now m)"
| End_Worker: "manager_step m (snd (terminate_route2_worker parse stamp clock w cooldown m))"
| Cooldown: "manager_step m (snd (check_cooldown user item mode now m))"
| Shutdown: "manager_step m (shutdown stamp clock m)"

definition new_manager :: manager where
  "new_manager = \<lparr>mg_sessions = [], mg_active = [], mg_route2 = [], mg_workers = [], mg_pool = [], mg_cooldowns = []\<rparr>"

inductive manager_reachable :: "manager \<Rightarrow> bool" where
  Start: "manager_reachable new_manager"
| Step: "manager_reachable m \<Longrightarrow> manager_step m m' \<Longrightarrow> manager_reachable m'"

lemma manager_step_ok: "manager_step m m' \<Longrightarrow> registry_ok m \<Longrightarrow> registry_ok m'"
proof (induction rule: manager_step.induct)
  case Work
  then show ?case by (simp add: registry_ok_def route2_ids_def)
next
  case (Touch m stamp clock ttl media_access sid user)
  then show ?case using touch_ok[OF Touch] registry_okD(2)[OF Touch] by (auto simp: touch_owned_def split: option.split)
next
  case (Prefer m parse clock user item)
  then show ?case using resolve_preferred_ok[OF Prefer] by (metis prod.collapse)
next
  case (Cooldown m user item mode now)
  have "registry_ok (snd (check_cooldown user item mode now m)) = registry_ok m"
    by (rule registry_ok_cong)
       (simp_all add: check_cooldown_def cooldown_remaining_def cleanup_cooldowns_def Let_def split: sum.split option.split)
  then show ?case using Cooldown by simp
qed (simp_all add: register_route2_ok register_legacy_ok registry_ok_put stop_session_ok invalidate_ok reconcile_ok cleanup_sessions_ok
    terminate_route2_worker_ok shutdown_ok)

text \<open>C8:
  Whatever is asked of the manager in whatever order, its tables agree: the sessions listed for a user are exactly that
  user's sessions of the new pipeline, and the preferred session of a user exists and is theirs.
\<close>

theorem reachable_registry_agrees:
  assumes "manager_reachable m"
  shows "(\<forall>u sid. sid \<in> set (route2_ids m u) \<longleftrightarrow> (\<exists>s. dict_get (mg_sessions m) sid = Some s \<and> ms_user s = u \<and> is_route2 s))
    \<and> (\<forall>u sid. dict_get (mg_active m) u = Some sid \<longrightarrow> (\<exists>s. get_owned_session sid u m = Inr s \<and> ms_id s = sid))"
proof -
  have "registry_ok m" using assms by (induction rule: manager_reachable.induct) (simp_all add: manager_step_ok, simp add: new_manager_def registry_ok_def route2_ids_def)
  then show ?thesis unfolding registry_ok_def get_owned_session_def by fastforce
qed

section \<open>Examples\<close>

definition example_playing :: manager where
  "example_playing = register_route2 example_away (new_manager\<lparr>mg_sessions := [(''s1'', example_away)]\<rparr>)"

lemma example_playing_reachable: "manager_reachable example_playing"
proof -
  have "manager_step new_manager (register_route2 example_away (new_manager\<lparr>mg_sessions := dict_set (mg_sessions new_manager) (ms_id example_away) example_away\<rparr>))"
    by (rule manager_step.Register) (simp_all add: new_manager_def is_route2_def example_defs)
  moreover have "dict_set (mg_sessions new_manager) (ms_id example_away) example_away = [(''s1'', example_away)]"
    by (simp add: new_manager_def example_defs)
  ultimately show ?thesis using manager_reachable.Step[OF manager_reachable.Start] by (simp add: example_playing_def)
qed

theorem reachable_registry_agrees_witness:
  "''s1'' \<in> set (route2_ids example_playing 1) \<and> (\<exists>s. get_owned_session ''s1'' 1 example_playing = Inr s)"
proof -
  have "dict_get (mg_active example_playing) 1 = Some ''s1''" "dict_get (mg_sessions example_playing) ''s1'' = Some example_away"
    by (simp_all add: example_playing_def register_route2_def Let_def example_defs)
  moreover have "ms_user example_away = 1" "is_route2 example_away" by (simp_all add: example_defs is_route2_def)
  ultimately show ?thesis using reachable_registry_agrees[OF example_playing_reachable] by blast
qed

theorem invalidation_exact_witness:
  "mg_sessions (snd (invalidate_user_sessions (\<lambda>_. None) ''t1'' 600 1 ''user_disabled'' example_playing)) = []"
proof -
  have sessions: "mg_sessions example_playing = [(''s1'', example_away)]" by (simp add: example_playing_def register_route2_def Let_def)
  have ok: "registry_ok example_playing"
    unfolding example_playing_def using register_route2_ok[of new_manager example_away]
    by (simp add: new_manager_def registry_ok_def route2_ids_def is_route2_def example_defs)
  have user: "ms_user example_away = 1" by (simp add: example_defs)
  obtain n m' where r: "invalidate_sessions (\<lambda>_. None) ''t1'' 600 (\<lambda>s. ms_user s = 1) ''user_disabled'' example_playing = (n, m')" by fastforce
  from invalidation_exact[OF ok r] have "mg_sessions m' = []" by (simp add: sessions user)
  then show ?thesis by (simp add: invalidate_user_sessions_def r)
qed

end
