(* ===== verification/Session_Admission.thy ===== *)
theory Session_Admission
  imports Session_Registry
begin

text \<open>
  Starting a playback: which session a request reuses, when it is refused, and how a new one enters the tables
  (\<^verbatim>\<open>create_session\<close> with \<^verbatim>\<open>_raise_if_route2_admission_denied_locked\<close>). The code takes its lock three times: to look at the
  sessions of the user, to decide on admission, and to register. The refresh of a candidate is an argument here (\<open>refresh_in_manager\<close> of
  \<open>Session_Refresh\<close> is one, and \<open>Session_Life\<close> shows that it keeps what is asked of it); so are the state of the protections of other
  playbacks, the reclaim of threads and the check of the cloud account. What a request says of its source beyond the fields below is left out.
\<close>

section \<open>Capacity\<close>

definition protected_floor :: "thread_settings \<Rightarrow> int" where
  "protected_floor ts = max 1 (if ts_protected ts = 0 then 2 else ts_protected ts)"

definition admission_min_threads :: "thread_settings \<Rightarrow> int" where
  "admission_min_threads ts = max (ts_min ts) (protected_floor ts)"

definition reserved_threads :: "thread_settings \<Rightarrow> worker_record \<Rightarrow> int" where
  "reserved_threads ts r =
     (if wr_state r = ''queued'' then admission_min_threads ts
      else if wr_state r \<in> {''running'', ''stopping''} then max (wr_assigned r) (protected_floor ts)
      else 0)"

record capacity_detail =
  cd_reason :: string
  cd_message :: string
  cd_users :: int
  cd_available :: "int option"
  cd_required :: int
  cd_protected :: int

text \<open>What the parts of the manager not modelled here say about the other playbacks.\<close>

record admission_evidence =
  ae_resupply :: "manager \<Rightarrow> bool"
  ae_reserve :: "manager \<Rightarrow> bool"
  ae_health :: "manager \<Rightarrow> (bool \<times> string) list"
  ae_reclaim :: "int \<Rightarrow> manager \<Rightarrow> bool \<times> manager"

record admission_input =
  ai_settings :: thread_settings
  ai_cpus :: int
  ai_snapshot :: "resource_snapshot option"
  ai_clock :: real
  ai_stamp :: string
  ai_evidence :: admission_evidence

definition active_records :: "pool \<Rightarrow> worker_record list" where
  "active_records p = in_states {''queued'', ''running'', ''stopping''} p"

definition users_after :: "int \<Rightarrow> pool \<Rightarrow> int" where
  "users_after user p = int (length (remdups (user # map wr_user (active_records p))))"

definition upbound :: "admission_input \<Rightarrow> int" where
  "upbound ai = cpu_upbound_cores_for_total (ai_cpus ai) (ts_budget_percent (ai_settings ai))"

definition per_user_after :: "admission_input \<Rightarrow> int \<Rightarrow> pool \<Rightarrow> int" where
  "per_user_after ai user p = max 1 (upbound ai div users_after user p)"

definition reserved_total :: "thread_settings \<Rightarrow> pool \<Rightarrow> int" where
  "reserved_total ts p = sum_list (map (reserved_threads ts) (active_records p))"

definition reserved_of_user :: "thread_settings \<Rightarrow> int \<Rightarrow> pool \<Rightarrow> int" where
  "reserved_of_user ts user p = sum_list (map (reserved_threads ts) (filter (\<lambda>r. wr_user r = user) (active_records p)))"

definition busy_message :: string where "busy_message = ''Server is busy. Please try again later.''"

definition deny :: "admission_input \<Rightarrow> int \<Rightarrow> pool \<Rightarrow> string \<Rightarrow> string \<Rightarrow> int option \<Rightarrow> capacity_detail" where
  "deny ai user p reason message available =
     \<lparr>cd_reason = reason, cd_message = message, cd_users = users_after user p, cd_available = available,
      cd_required = admission_min_threads (ai_settings ai), cd_protected = protected_floor (ai_settings ai)\<rparr>"

text \<open>A playback that waited for threads of another one is let in.\<close>

definition consumer_matches :: "int \<Rightarrow> int option \<Rightarrow> browser_session \<Rightarrow> bool" where
  "consumer_matches user item b =
     (let a = bs_adaptive b in
      bs_engine_mode b = ''route2'' \<and> ad_reclaim_state a = ''capacity_available'' \<and> ad_reclaim_sufficient a = Some True
    \<and> ad_reclaim_consumer_user a = Some user
    \<and> \<not> (item \<noteq> None \<and> ad_reclaim_consumer_media a \<noteq> None \<and> ad_reclaim_consumer_media a \<noteq> item))"

definition consumer_admitted :: "string \<Rightarrow> browser_session \<Rightarrow> browser_session" where
  "consumer_admitted stamp b =
     b\<lparr>bs_adaptive := (bs_adaptive b)\<lparr>ad_reclaim_state := ''consumer_admitted_after_reclaim'', ad_reclaim_completed_at := Some stamp,
         ad_reclaim_failed := None, ad_reclaim_abort := None\<rparr>\<rparr>"

definition mark_consumer_admitted :: "string \<Rightarrow> int \<Rightarrow> int option \<Rightarrow> manager \<Rightarrow> manager" where
  "mark_consumer_admitted stamp user item m =
     m\<lparr>mg_sessions := map (\<lambda>(sid, s).
         (sid, if consumer_matches user item (ms_browser s) then s\<lparr>ms_browser := consumer_admitted stamp (ms_browser s)\<rparr> else s)) (mg_sessions m)\<rparr>"

text \<open>The last tests, on the host, once there is room.\<close>

definition host_denial :: "admission_input \<Rightarrow> int \<Rightarrow> pool \<Rightarrow> int \<Rightarrow> capacity_detail option" where
  "host_denial ai user p available =
     (let other_task = ''Server is busy with another task. Please try again later.'' in
      case fresh_snapshot (ai_clock ai) (ai_snapshot ai) of
        None \<Rightarrow> None
      | Some x \<Rightarrow>
          if rs_total_memory x \<noteq> None \<and> the (rs_total_memory x) \<noteq> 0 \<and> rs_memory x \<noteq> None
             \<and> real_of_int (the (rs_memory x)) / real_of_int (the (rs_total_memory x)) \<ge> 90 / 100
          then Some (deny ai user p ''route2_memory_hard_pressure'' busy_message (Some available))
          else if rs_pressure x = ''high'' then Some (deny ai user p ''external_host_cpu_pressure_high'' other_task (Some available))
          else if rs_ffmpeg x > 0 \<and> (case rs_ffmpeg_cores x of None \<Rightarrow> False | Some c \<Rightarrow> c \<ge> 1)
          then Some (deny ai user p ''external_ffmpeg_pressure'' other_task (Some available))
          else None)"

definition health_denial :: "admission_input \<Rightarrow> int \<Rightarrow> pool \<Rightarrow> int \<Rightarrow> (bool \<times> string) list \<Rightarrow> capacity_detail option" where
  "health_denial ai user p available healths =
     (let floor_left = available \<le> admission_min_threads (ai_settings ai) in
      case filter (\<lambda>(blocking, status). blocking \<or> status = ''metrics_immature'' \<and> floor_left) healths of
        [] \<Rightarrow> None
      | (blocking, status) # _ \<Rightarrow>
          Some (deny ai user p (if blocking then ''active_stream_protection'' else ''active_stream_metrics_immature'') busy_message (Some available)))"

definition raise_if_admission_denied :: "admission_input \<Rightarrow> int \<Rightarrow> int option \<Rightarrow> manager \<Rightarrow> capacity_detail option \<times> manager" where
  "raise_if_admission_denied ai user item m =
     (let ts = ai_settings ai; p = mg_pool m; need = admission_min_threads ts;
          available = upbound ai - reserved_total ts p;
          user_left = per_user_after ai user p - reserved_of_user ts user p;
          without_room = (\<lambda>reason retry left.
            (let (waiting, m1) = ae_reclaim (ai_evidence ai) user m
             in (Some (deny ai user p (if waiting then ''waiting_for_reclaim'' else reason) (if waiting then retry else busy_message) (Some left)), m1))) in
      if ts_max ts < need then (Some (deny ai user p ''route2_max_worker_threads_below_protected_floor'' busy_message None), m)
      else if upbound ai < need then (Some (deny ai user p ''route2_cpu_upbound_below_protected_floor'' busy_message None), m)
      else if per_user_after ai user p < protected_floor ts
      then (Some (deny ai user p ''per_user_budget_below_protected_floor'' busy_message None), m)
      else if ae_resupply (ai_evidence ai) m
      then (Some (deny ai user p ''adaptive_resupply_priority_reexpand_pending''
                    ''An active playback needs resources back before new playback can start.'' None), m)
      else if ae_reserve (ai_evidence ai) m then (Some (deny ai user p ''active_bad_condition_reserve_protection'' busy_message None), m)
      else if available < need
      then without_room ''no_spare_protected_worker_capacity''
             ''Capacity reclaim is in progress. Please retry after the active playback has safely downshifted.'' available
      else if user_left < need
      then without_room ''user_budget_protected_capacity_exhausted''
             ''Capacity reclaim is in progress. Please retry after measured capacity is available.'' user_left
      else
        let m1 = mark_consumer_admitted (ai_stamp ai) user item m in
        case health_denial ai user p available (ae_health (ai_evidence ai) m1) of
          Some d \<Rightarrow> (Some d, m1)
        | None \<Rightarrow> (host_denial ai user p available, m1))"

section \<open>A request to play\<close>

record create_request =
  cq_user :: int
  cq_role :: "string option"
  cq_item :: int
  cq_title :: "string option"
  cq_profile :: string
  cq_mode :: string
  cq_audio :: "int option"
  cq_kind :: string
  cq_duration :: real
  cq_cache_key :: string
  cq_fingerprint :: string
  cq_start :: real
  cq_authority :: authority

definition normalize_user_role :: "string option \<Rightarrow> string" where
  "normalize_user_role v = (if py_lower (py_strip (or_string v [])) = ''admin'' then ''admin'' else ''standard_user'')"

definition select_engine_mode :: "bool \<Rightarrow> string option \<Rightarrow> py_error + string" where
  "select_engine_mode route2_enabled v =
     (let c0 = py_lower (py_strip (or_string v []));
          c = (if c0 = [] then (if route2_enabled then ''route2'' else ''legacy'') else c0) in
      if c \<notin> {''legacy'', ''route2''} then Inl (ValueError ''Unsupported browser playback engine mode'')
      else if c = ''route2'' \<and> \<not> route2_enabled then Inl (ValueError ''Browser Playback Route 2 is disabled on this server'')
      else Inr c)"

definition validate_transcoding :: "bool \<Rightarrow> string option \<Rightarrow> py_error option" where
  "validate_transcoding enabled ffmpeg =
     (if \<not> enabled then Some (ValueError ''Experimental playback is disabled on this server'')
      else if \<not> truthy_string ffmpeg then Some (ValueError ''ffmpeg was not found on the server'') else None)"

definition session_matches :: "create_request \<Rightarrow> mobile_session \<Rightarrow> bool" where
  "session_matches req s =
     (ms_media_item s = cq_item req \<and> ms_profile s = cq_profile req \<and> bs_playback_mode (ms_browser s) = cq_mode req
    \<and> as_selected (bs_audio (ms_browser s)) = cq_audio req \<and> ms_source_fingerprint s = cq_fingerprint req \<and> ms_cache_key s = cq_cache_key req)"

definition can_reuse_target :: "mobile_session \<Rightarrow> real \<Rightarrow> bool" where
  "can_reuse_target s target =
     (\<bar>ms_target s - target\<bar> \<le> SEGMENT_DURATION_SECONDS
    \<or> (case epoch_of (ms_browser s) (bs_active (ms_browser s)) of
         None \<Rightarrow> False
       | Some e \<Rightarrow> ep_init_published e \<and> ep_contiguous_through e \<noteq> None \<and> position_in_epoch s e target)
    \<or> ms_ready_start s \<le> target \<and> target \<le> ms_ready_end s \<and> ms_ready_start s < ms_ready_end s)"

text \<open>
  The walk over the user's sessions: the one to reuse, else the first session with the same media and the first with other
  media, either of which stands in the way of a new one.
\<close>

fun scan_candidates ::
  "(string \<Rightarrow> manager \<Rightarrow> manager) \<Rightarrow> create_request \<Rightarrow> real \<Rightarrow> string list \<Rightarrow> string option \<times> string option \<Rightarrow> manager
     \<Rightarrow> string option \<times> (string option \<times> string option) \<times> manager" where
  "scan_candidates refresh req target [] found m = (None, found, m)"
| "scan_candidates refresh req target (sid # sids) (same, other) m =
     (let m1 = refresh sid m in
      case dict_get (mg_sessions m1) sid of
        None \<Rightarrow> scan_candidates refresh req target sids (same, other) m1
      | Some s \<Rightarrow>
          if \<not> session_matches req s
          then scan_candidates refresh req target sids (same, if other = None then Some sid else other) m1
          else
            let s1 = adopt_authority (cq_authority req) s; m2 = put_session s1 m1 in
            if can_reuse_target s1 target then (Some sid, (same, other), m2)
            else scan_candidates refresh req target sids (if same = None then Some sid else same, other) m2)"

record conflict_detail =
  cf_code :: string
  cf_title :: string
  cf_item :: int
  cf_mode :: string
  cf_worker :: "string option"
  cf_session :: string

definition active_playback_limit :: "mobile_session \<Rightarrow> pool \<Rightarrow> conflict_detail" where
  "active_playback_limit s p =
     \<lparr>cf_code = ''same_user_active_playback_limit'',
      cf_title = (if ms_title s = [] then ''Media Item '' @ show_int (ms_media_item s) else ms_title s),
      cf_item = ms_media_item s, cf_mode = bs_playback_mode (ms_browser s), cf_worker = conflict_worker_id s p, cf_session = ms_id s\<rparr>"

datatype create_check = Reuse string | Conflict conflict_detail | Cloud_Denied py_error | Denied capacity_detail | Admitted

text \<open>
  A request runs three sections under the lock, which it releases in between: the walk over the user's sessions, the test
  of admission, and the registration. The first answers nothing when the request goes on.
\<close>

definition scan_create ::
  "(string \<Rightarrow> real option) \<Rightarrow> (string \<Rightarrow> manager \<Rightarrow> manager) \<Rightarrow> int \<Rightarrow> admission_input \<Rightarrow> create_request \<Rightarrow> manager
     \<Rightarrow> create_check option \<times> manager" where
  "scan_create parse refresh ttl ai req m =
     (let candidates = map ms_id (ordered_live parse (ai_clock ai) (user_route2_sessions m (cq_user req)));
          target = clamp_time (cq_start req) (cq_duration req);
          (reuse, (same, other), m1) = scan_candidates refresh req target candidates (None, None) m;
          conflict = (if same \<noteq> None then same else other) in
      case reuse of
        Some sid \<Rightarrow> (Some (Reuse sid), touch_owned (ai_stamp ai) (ai_clock ai) ttl True sid (cq_user req) m1)
      | None \<Rightarrow>
          if conflict \<noteq> None \<and> normalize_user_role (cq_role req) \<noteq> ''admin''
          then (Some (Conflict (active_playback_limit (the (dict_get (mg_sessions m1) (the conflict))) (mg_pool m1))), m1)
          else (None, m1))"

text \<open>The second section. \<open>cloud\<close> is the answer of the check of the cloud account, which runs before it without the lock.\<close>

definition admit_create :: "admission_input \<Rightarrow> py_error option \<Rightarrow> create_request \<Rightarrow> manager \<Rightarrow> create_check \<times> manager" where
  "admit_create ai cloud req m =
     (if cq_kind req = ''cloud'' \<and> cloud \<noteq> None then (Cloud_Denied (the cloud), m)
      else (case raise_if_admission_denied ai (cq_user req) (Some (cq_item req)) m of
              (Some d, m2) \<Rightarrow> (Denied d, m2)
            | (None, m2) \<Rightarrow> (Admitted, m2)))"

text \<open>The two, one right after the other.\<close>

definition check_create ::
  "(string \<Rightarrow> real option) \<Rightarrow> (string \<Rightarrow> manager \<Rightarrow> manager) \<Rightarrow> int \<Rightarrow> admission_input \<Rightarrow> py_error option \<Rightarrow> create_request \<Rightarrow> manager
     \<Rightarrow> create_check \<times> manager" where
  "check_create parse refresh ttl ai cloud req m =
     (case scan_create parse refresh ttl ai req m of
        (Some c, m1) \<Rightarrow> (c, m1)
      | (None, m1) \<Rightarrow> admit_create ai cloud req m1)"

definition build_browser_playback_session :: "string \<Rightarrow> string \<Rightarrow> int option \<Rightarrow> browser_session" where
  "build_browser_playback_session engine mode audio =
     new_browser_session\<lparr>bs_engine_mode := engine, bs_playback_mode := mode,
       bs_state := (if engine = ''legacy'' then ''legacy'' else ''starting''),
       bs_audio := new_audio_switch\<lparr>as_selected := audio, as_active := audio, as_state := ''active''\<rparr>\<rparr>"

definition requested_session :: "string \<Rightarrow> string \<Rightarrow> real \<Rightarrow> int \<Rightarrow> create_request \<Rightarrow> mobile_session" where
  "requested_session sid stamp clock ttl req =
     (let target = clamp_time (cq_start req) (cq_duration req); a = cq_authority req in
      (new_session sid (cq_user req) (cq_item req) (cq_profile req) (cq_kind req) (cq_duration req) (cq_cache_key req) (cq_fingerprint req) stamp)
        \<lparr>ms_auth_session := au_auth a, ms_username := strip_or_none (au_username a),
         ms_title := (if truthy_string (cq_title req) then the (cq_title req) else ''Media Item '' @ show_int (cq_item req)),
         ms_target := target, ms_last_stable := target, ms_committed := target, ms_actual := target,
         ms_device_class := normalize_device_class (au_device a), ms_user_agent := strip_or_none (au_agent a),
         ms_expires_at := clock + of_int (ttl * 60),
         ms_browser := build_browser_playback_session ''route2'' (cq_mode req) (cq_audio req)\<rparr>)"

text \<open>The third locked section.\<close>

definition register_create :: "string \<Rightarrow> string \<Rightarrow> string \<Rightarrow> real \<Rightarrow> int \<Rightarrow> int list option \<Rightarrow> create_request \<Rightarrow> manager \<Rightarrow> manager" where
  "register_create sid eid stamp clock ttl cached req m =
     (let s = initialize_session eid stamp cached clock (requested_session sid stamp clock ttl req)
      in register_route2 s (m\<lparr>mg_sessions := dict_set (mg_sessions m) (ms_id s) s\<rparr>))"

text \<open>
  The two routes of the server that start a playback: only one of them asks about the pause. Here the three sections run
  without another request in between; the properties below also say what holds when others come between them.
\<close>

datatype start_answer = Started string | Continued string | Refused create_check | Paused int | Bad_Request py_error

definition create_session_route ::
  "(string \<Rightarrow> real option) \<Rightarrow> (string \<Rightarrow> manager \<Rightarrow> manager) \<Rightarrow> int \<Rightarrow> admission_input \<Rightarrow> py_error option \<Rightarrow> int list option \<Rightarrow> string \<Rightarrow> string
     \<Rightarrow> create_request \<Rightarrow> manager \<Rightarrow> start_answer \<times> manager" where
  "create_session_route parse refresh ttl ai cloud cached sid eid req m =
     (case check_create parse refresh ttl ai cloud req m of
        (Reuse k, m1) \<Rightarrow> (Continued k, m1)
      | (Admitted, m1) \<Rightarrow> (Started sid, register_create sid eid (ai_stamp ai) (ai_clock ai) ttl cached req m1)
      | (c, m1) \<Rightarrow> (Refused c, m1))"

definition browser_playback_route ::
  "(string \<Rightarrow> real option) \<Rightarrow> (string \<Rightarrow> manager \<Rightarrow> manager) \<Rightarrow> int \<Rightarrow> admission_input \<Rightarrow> py_error option \<Rightarrow> int list option \<Rightarrow> string \<Rightarrow> string
     \<Rightarrow> string option \<Rightarrow> create_request \<Rightarrow> manager \<Rightarrow> start_answer \<times> manager" where
  "browser_playback_route parse refresh ttl ai cloud cached sid eid mode req m =
     (case check_cooldown (cq_user req) (cq_item req) mode (ai_clock ai) m of
        (Free, m1) \<Rightarrow> create_session_route parse refresh ttl ai cloud cached sid eid req m1
      | (Cooling n, m1) \<Rightarrow> (Paused n, m1)
      | (Bad_Mode e, m1) \<Rightarrow> (Bad_Request e, m1))"

definition mobile_playback_route where
  "mobile_playback_route = create_session_route"

section \<open>Room for whoever is let in\<close>

text \<open>A playback that waited for threads is marked as let in before the last tests, and stays marked when they refuse it.\<close>

lemma refused_consumer_marked:
  assumes "raise_if_admission_denied ai user item m = (Some d, m')" and "cd_reason d \<in> {''active_stream_protection'', ''route2_memory_hard_pressure''}"
  shows "m' = mark_consumer_admitted (ai_stamp ai) user item m"
  using assms by (auto simp: raise_if_admission_denied_def deny_def Let_def split: if_splits option.splits prod.splits)

lemma running_threads_le_reserved:
  "running_threads None p \<le> reserved_total ts p" "running_threads (Some u) p \<le> reserved_of_user ts u p"
proof -
  have "threads_of None r \<le> (if wr_state r \<in> {''queued'', ''running'', ''stopping''} then reserved_threads ts r else 0)"
    "threads_of (Some u) r \<le> (if wr_state r \<in> {''queued'', ''running'', ''stopping''} \<and> wr_user r = u then reserved_threads ts r else 0)" for r
    by (auto simp: threads_of_def reserved_threads_def admission_min_threads_def protected_floor_def)
  note le = this
  have total: "reserved_total ts p = sum_list (map (\<lambda>(w, r). if wr_state r \<in> {''queued'', ''running'', ''stopping''} then reserved_threads ts r else 0) p)"
    unfolding reserved_total_def active_records_def in_states_def by (induction p) auto
  have user: "reserved_of_user ts u p
      = sum_list (map (\<lambda>(w, r). if wr_state r \<in> {''queued'', ''running'', ''stopping''} \<and> wr_user r = u then reserved_threads ts r else 0) p)"
    unfolding reserved_of_user_def active_records_def in_states_def by (induction p) auto
  show "running_threads None p \<le> reserved_total ts p"
    unfolding running_threads_sum total by (rule sum_list_mono) (use le(1) in \<open>simp add: case_prod_beta\<close>)
  show "running_threads (Some u) p \<le> reserved_of_user ts u p"
    unfolding running_threads_sum user by (rule sum_list_mono) (use le(2) in \<open>simp add: case_prod_beta\<close>)
qed

lemma admitted_facts:
  assumes "raise_if_admission_denied ai user item m = (None, m')"
  shows "admission_min_threads (ai_settings ai) \<le> ts_max (ai_settings ai)"
    "protected_floor (ai_settings ai) \<le> per_user_after ai user (mg_pool m)"
    "admission_min_threads (ai_settings ai) \<le> upbound ai - reserved_total (ai_settings ai) (mg_pool m)"
    "admission_min_threads (ai_settings ai) \<le> per_user_after ai user (mg_pool m) - reserved_of_user (ai_settings ai) user (mg_pool m)"
    "m' = mark_consumer_admitted (ai_stamp ai) user item m"
  using assms by (auto simp: raise_if_admission_denied_def Let_def split: if_splits option.splits prod.splits)

text \<open>C24:
  Who is admitted finds room: for the host and for the user, the smallest worker fits beside the running ones, and the
  protected threads of all users fit into the host.
\<close>

theorem admission_leaves_room:
  assumes "raise_if_admission_denied ai user item m = (None, m')"
  shows "running_threads None (mg_pool m) + admission_min_threads (ai_settings ai) \<le> upbound ai
    \<and> running_threads (Some user) (mg_pool m) + admission_min_threads (ai_settings ai) \<le> per_user_after ai user (mg_pool m)
    \<and> (1 < protected_floor (ai_settings ai) \<longrightarrow> protected_floor (ai_settings ai) * users_after user (mg_pool m) \<le> upbound ai)
    \<and> mg_pool m' = mg_pool m"
proof -
  note f = admitted_facts[OF assms]
  have "protected_floor (ai_settings ai) * users_after user (mg_pool m) \<le> upbound ai" if "1 < protected_floor (ai_settings ai)"
  proof -
    have pos: "0 < users_after user (mg_pool m)" by (auto simp: users_after_def)
    have "protected_floor (ai_settings ai) \<le> upbound ai div users_after user (mg_pool m)"
      using f(2) that by (auto simp: per_user_after_def max_def split: if_splits)
    then have "protected_floor (ai_settings ai) * users_after user (mg_pool m) \<le> upbound ai div users_after user (mg_pool m) * users_after user (mg_pool m)"
      using pos by (intro mult_right_mono) simp_all
    moreover have "upbound ai div users_after user (mg_pool m) * users_after user (mg_pool m) = upbound ai - upbound ai mod users_after user (mg_pool m)"
      by (simp add: minus_mod_eq_div_mult)
    moreover have "0 \<le> upbound ai mod users_after user (mg_pool m)" using pos by simp
    ultimately show ?thesis by linarith
  qed
  moreover have "mg_pool m' = mg_pool m" by (simp add: f(5) mark_consumer_admitted_def)
  ultimately show ?thesis
    using f(3,4) running_threads_le_reserved(1)[of "mg_pool m" "ai_settings ai"]
      running_threads_le_reserved(2)[of user "mg_pool m" "ai_settings ai"] by linarith
qed

section \<open>One playback for each user\<close>

text \<open>A refresh may change a session as it likes, but it does not take sessions away nor give them to others.\<close>

definition refresh_keeps :: "(string \<Rightarrow> manager \<Rightarrow> manager) \<Rightarrow> bool" where
  "refresh_keeps refresh \<longleftrightarrow>
     (\<forall>sid m k s. dict_get (mg_sessions m) k = Some s \<longrightarrow> (\<exists>s'. dict_get (mg_sessions (refresh sid m)) k = Some s' \<and> same_name s s'))"

lemma refresh_keepsD:
  "refresh_keeps refresh \<Longrightarrow> dict_get (mg_sessions m) k = Some s \<Longrightarrow> \<exists>s'. dict_get (mg_sessions (refresh sid m)) k = Some s' \<and> same_name s s'"
  by (simp add: refresh_keeps_def)

lemma put_adopted_keeps:
  assumes "dict_get (mg_sessions m) k = Some x"
  shows "\<exists>x'. dict_get (mg_sessions (put_session (adopt_authority a s) m)) k = Some x'"
  using assms by (simp add: put_session_def)

text \<open>The walk finds something in the way, or something to reuse, as soon as there is a session to look at.\<close>

lemma scan_finds:
  assumes keeps: "refresh_keeps refresh"
  shows "\<forall>sid \<in> set sids. dict_get (mg_sessions m) sid \<noteq> None \<Longrightarrow> scan_candidates refresh req target sids (same, other) m = (None, (same', other'), m') \<Longrightarrow>
    (same \<noteq> None \<longrightarrow> same' \<noteq> None) \<and> (other \<noteq> None \<longrightarrow> other' \<noteq> None) \<and> (sids \<noteq> [] \<longrightarrow> same' \<noteq> None \<or> other' \<noteq> None)"
proof (induction sids arbitrary: same other m)
  case (Cons sid sids)
  define m1 where "m1 = refresh sid m"
  obtain s0 where "dict_get (mg_sessions m) sid = Some s0" using Cons.prems(1) by auto
  then obtain s where s: "dict_get (mg_sessions m1) sid = Some s" using refresh_keepsD[OF keeps] unfolding m1_def by blast
  have there: "\<forall>k \<in> set sids. dict_get (mg_sessions m1) k \<noteq> None"
  proof
    fix k assume "k \<in> set sids"
    then obtain x where "dict_get (mg_sessions m) k = Some x" using Cons.prems(1) by auto
    then show "dict_get (mg_sessions m1) k \<noteq> None" using refresh_keepsD[OF keeps] unfolding m1_def by fastforce
  qed
  show ?case
  proof (cases "session_matches req s")
    case False
    then have "scan_candidates refresh req target sids (same, if other = None then Some sid else other) m1 = (None, (same', other'), m')"
      using Cons.prems(2) s by (simp add: m1_def Let_def)
    from Cons.IH[OF there this] show ?thesis by (auto split: if_splits)
  next
    case True
    define m2 where "m2 = put_session (adopt_authority (cq_authority req) s) m1"
    have no: "\<not> can_reuse_target (adopt_authority (cq_authority req) s) target"
      using Cons.prems(2) s True by (auto simp: m1_def Let_def split: if_splits)
    then have "scan_candidates refresh req target sids (if same = None then Some sid else same, other) m2 = (None, (same', other'), m')"
      using Cons.prems(2) s True by (simp add: m1_def m2_def Let_def)
    moreover have "\<forall>k \<in> set sids. dict_get (mg_sessions m2) k \<noteq> None" using there by (auto simp: m2_def put_session_def)
    ultimately show ?thesis using Cons.IH[of m2] by (auto split: if_splits)
  qed
qed simp

lemma live_candidates:
  assumes ok: "registry_ok m" and s: "dict_get (mg_sessions m) sid = Some s" "is_route2 s" "session_live s"
  shows "sid \<in> set (map ms_id (ordered_live parse clock (user_route2_sessions m (ms_user s))))"
proof -
  have "sid \<in> set (route2_ids m (ms_user s))" using registry_okD(5)[OF ok] s by blast
  then have "s \<in> set (user_route2_sessions m (ms_user s))" using s by (force simp: user_route2_sessions_def)
  moreover have "ms_id s = sid" by (rule registry_okD(2)[OF ok s(1)])
  ultimately show ?thesis using s(3) by (force simp: ordered_live_def)
qed

lemma candidates_present:
  assumes "registry_ok m" and "sid \<in> set (map ms_id (ordered_live parse clock (user_route2_sessions m u)))"
  shows "dict_get (mg_sessions m) sid \<noteq> None"
proof -
  obtain s where "s \<in> set (user_route2_sessions m u)" "ms_id s = sid" using assms(2) by (auto simp: ordered_live_def)
  then obtain k where "dict_get (mg_sessions m) k = Some s" by (auto simp: user_route2_sessions_def split: option.splits if_splits)
  then show ?thesis using registry_okD(2)[OF assms(1)] \<open>ms_id s = sid\<close> by auto
qed

text \<open>Whoever is no administrator passes the first section only when there is no session to walk over; it then does nothing.\<close>

lemma scan_create_passed:
  assumes "registry_ok m" and "refresh_keeps refresh" and "normalize_user_role (cq_role req) \<noteq> ''admin''"
    and "scan_create parse refresh ttl ai req m = (None, m1)"
  shows "m1 = m" and "dict_get (mg_sessions m) sid = Some s \<Longrightarrow> ms_user s = cq_user req \<Longrightarrow> is_route2 s \<Longrightarrow> \<not> session_live s"
proof -
  define candidates where "candidates = map ms_id (ordered_live parse (ai_clock ai) (user_route2_sessions m (cq_user req)))"
  define target where "target = clamp_time (cq_start req) (cq_duration req)"
  obtain reuse same other m' where scan: "scan_candidates refresh req target candidates (None, None) m = (reuse, (same, other), m')"
    by (metis prod.collapse)
  have passed: "reuse = None" "same = None" "other = None" "m1 = m'"
    using assms(3,4) scan unfolding scan_create_def Let_def candidates_def[symmetric] target_def[symmetric]
    by (auto split: option.splits if_splits)
  have "\<forall>k \<in> set candidates. dict_get (mg_sessions m) k \<noteq> None"
    using candidates_present[OF assms(1)] unfolding candidates_def by blast
  then have none: "candidates = []"
    using scan_finds[OF assms(2), of candidates m req target None None same other m'] scan passed(1-3) by auto
  then show "m1 = m" using scan passed(4) by simp
  show "\<not> session_live s" if "dict_get (mg_sessions m) sid = Some s" "ms_user s = cq_user req" "is_route2 s"
    using live_candidates[OF assms(1) that(1,3), of parse "ai_clock ai"] none by (auto simp: candidates_def that(2))
qed

lemma no_live_session_when_admitted:
  assumes "registry_ok m" and "refresh_keeps refresh" and "normalize_user_role (cq_role req) \<noteq> ''admin''"
    and "check_create parse refresh ttl ai cloud req m = (Admitted, m1)"
    and "dict_get (mg_sessions m) sid = Some s" "ms_user s = cq_user req" "is_route2 s"
  shows "\<not> session_live s"
proof -
  have "fst (scan_create parse refresh ttl ai req m) \<noteq> Some Admitted"
    by (auto simp: scan_create_def Let_def split: prod.splits option.splits if_splits)
  then obtain m2 where "scan_create parse refresh ttl ai req m = (None, m2)"
    using assms(4) by (cases "scan_create parse refresh ttl ai req m") (auto simp: check_create_def split: option.splits)
  from scan_create_passed(2)[OF assms(1-3) this assms(5-7)] show ?thesis .
qed

section \<open>The lock is released in between\<close>

lemma preflight_name: "same_name s (fst (ensure_full_preflight cached clock s))"
  by (auto simp: ensure_full_preflight_def load_preflight_cache_def same_name_def is_route2_def Let_def split: option.splits)

lemma initialized_session:
  fixes eid and stamp and cached and clock and sid and ttl and req
  defines "s \<equiv> initialize_session eid stamp cached clock (requested_session sid stamp clock ttl req)"
  shows "ms_id s = sid" "ms_user s = cq_user req" "is_route2 s" "session_live s" "ms_media_item s = cq_item req"
proof -
  define r where "r = requested_session sid stamp clock ttl req"
  define b where "b = (ms_browser r)\<lparr>bs_state := ''starting'', bs_attach_revision := 0, bs_client_revision := 0,
                bs_attach_issued_at := 0, bs_last_attach_warning := 0, bs_replacement := None,
                bs_retry_not_before := 0, bs_replacement_count := 0, bs_preflight_error := None,
                bs_prepare_started := (if bs_playback_mode (ms_browser r) = ''full'' then clock else 0), bs_probes := []\<rparr>"
  define e where "e = build_epoch eid stamp clock None (r\<lparr>ms_browser := b\<rparr>)"
  define s1 where "s1 = r\<lparr>ms_browser := b\<lparr>bs_active := Some (ep_id e),
                   bs_epochs := dict_set (bs_epochs b) (ep_id e) (ensure_workspace stamp clock e)\<rparr>\<rparr>"
  define s2 where "s2 = fst (ensure_full_preflight cached clock s1)"
  have s: "s = s2\<lparr>ms_worker_state := ''idle'', ms_pending_target := None, ms_ready_start := 0, ms_ready_end := 0, ms_state := ''preparing''\<rparr>"
    unfolding s_def initialize_session_def r_def[symmetric] Let_def b_def[symmetric] e_def[symmetric] s1_def[symmetric] s2_def[symmetric] ..
  have r: "ms_id r = sid" "ms_user r = cq_user req" "is_route2 r" "ms_media_item r = cq_item req"
    by (simp_all add: r_def requested_session_def build_browser_playback_session_def new_session_def is_route2_def Let_def)
  have "same_name r s1" by (simp add: s1_def b_def same_name_def is_route2_def)
  moreover have "same_name s1 s2" unfolding s2_def by (rule preflight_name)
  ultimately have "same_name r s" by (simp add: s same_name_def is_route2_def)
  then show "ms_id s = sid" "ms_user s = cq_user req" "is_route2 s" using r by (simp_all add: same_name_def)
  show "session_live s" by (simp add: s session_live_def)
  have "ms_media_item s2 = ms_media_item s1"
    by (auto simp: s2_def ensure_full_preflight_def load_preflight_cache_def Let_def split: option.splits)
  then show "ms_media_item s = cq_item req" by (simp add: s s1_def r)
qed

lemma register_create_ok:
  "registry_ok m \<Longrightarrow> dict_get (mg_sessions m) sid = None \<Longrightarrow> registry_ok (register_create sid eid stamp clock ttl cached req m)"
  unfolding register_create_def Let_def by (rule register_route2_ok) (simp_all add: initialized_session)

lemma register_create_get:
  "dict_get (mg_sessions (register_create sid eid stamp clock ttl cached req m)) k =
     (if k = sid then Some (initialize_session eid stamp cached clock (requested_session sid stamp clock ttl req)) else dict_get (mg_sessions m) k)"
  by (simp add: register_create_def register_route2_def Let_def initialized_session)

definition plays :: "manager \<Rightarrow> int \<Rightarrow> string \<Rightarrow> bool" where
  "plays m user sid = (case dict_get (mg_sessions m) sid of None \<Rightarrow> False | Some s \<Rightarrow> ms_user s = user \<and> is_route2 s \<and> session_live s)"

lemma plays_marked [simp]: "plays (mark_consumer_admitted stamp user item m) u k = plays m u k"
proof -
  have "dict_get (map (\<lambda>(k, s). (k, f s)) d) k = map_option f (dict_get d k)" for d :: "(string \<times> mobile_session) list" and f
    by (induction d) auto
  then have "dict_get (mg_sessions (mark_consumer_admitted stamp user item m)) k
      = map_option (\<lambda>s. if consumer_matches user item (ms_browser s) then s\<lparr>ms_browser := consumer_admitted stamp (ms_browser s)\<rparr> else s)
          (dict_get (mg_sessions m) k)"
    by (simp add: mark_consumer_admitted_def)
  then show ?thesis
    by (auto simp: plays_def is_route2_def session_live_def consumer_admitted_def split: option.splits)
qed

lemma admitted_plays: "admit_create ai cloud req m = (Admitted, m') \<Longrightarrow> plays m' u k = plays m u k"
  by (auto simp: admit_create_def raise_if_admission_denied_def Let_def split: if_splits option.splits prod.splits)

lemma registered_plays:
  "plays (register_create sid eid stamp clock ttl cached req m) (cq_user req) k \<longleftrightarrow> k = sid \<or> plays m (cq_user req) k"
  by (simp add: plays_def register_create_get initialized_session)


text \<open>C32:
  Two requests of one user whose checks both run before either registers leave the user with two live playbacks, while
  the second request is turned down when the first has registered.
\<close>

theorem interleaved_creates_pass_limit:
  assumes "check_create parse refresh ttl ai1 cloud1 req1 m = (Admitted, m1)"
    and "check_create parse refresh ttl ai2 cloud2 req2 m1 = (Admitted, m2)"
    and "registry_ok m1" "refresh_keeps refresh" "normalize_user_role (cq_role req2) \<noteq> ''admin''" "cq_user req2 = cq_user req1"
    and "sid1 \<noteq> sid2" "dict_get (mg_sessions m1) sid1 = None" "dict_get (mg_sessions m2) sid1 = None" "dict_get (mg_sessions m2) sid2 = None"
  shows "let first = (\<lambda>n. register_create sid1 eid1 (ai_stamp ai1) (ai_clock ai1) ttl cached1 req1 n);
             second = (\<lambda>n. register_create sid2 eid2 (ai_stamp ai2) (ai_clock ai2) ttl cached2 req2 n) in
         plays (second (first m2)) (cq_user req1) sid1 \<and> plays (second (first m2)) (cq_user req1) sid2
       \<and> fst (check_create parse refresh ttl ai2 cloud2 req2 (first m1)) \<noteq> Admitted"
proof -
  let ?first = "register_create sid1 eid1 (ai_stamp ai1) (ai_clock ai1) ttl cached1 req1"
  have "fst (check_create parse refresh ttl ai2 cloud2 req2 (?first m1)) \<noteq> Admitted"
  proof
    assume "fst (check_create parse refresh ttl ai2 cloud2 req2 (?first m1)) = Admitted"
    then obtain m3 where "check_create parse refresh ttl ai2 cloud2 req2 (?first m1) = (Admitted, m3)" by (metis prod.collapse)
    from no_live_session_when_admitted[OF register_create_ok[OF assms(3,8)] assms(4,5) this, of sid1]
    show False by (simp add: register_create_get initialized_session assms(6))
  qed
  then show ?thesis
    using assms(6,7) by (simp add: plays_def register_create_get initialized_session)
qed

section \<open>The pause\<close>

text \<open>The pause after an administrator ended a playback binds one of the two routes only.\<close>

theorem mobile_route_skips_pause:
  assumes "dict_get (mg_cooldowns m) (cq_user req, cq_item req) = Some t" and "ai_clock ai < t" and "dict_wf (mg_cooldowns m)"
    and "select_playback_mode mode = Inr md"
    and "check_create parse refresh ttl ai cloud req m = (Admitted, m1)"
  shows "(\<exists>n. fst (browser_playback_route parse refresh ttl ai cloud cached sid eid mode req m) = Paused n \<and> t - ai_clock ai \<le> of_int n)
    \<and> fst (mobile_playback_route parse refresh ttl ai cloud cached sid eid req m) = Started sid
    \<and> plays (snd (mobile_playback_route parse refresh ttl ai cloud cached sid eid req m)) (cq_user req) sid"
proof -
  have "dict_get (filter (\<lambda>(k, x). \<not> x \<le> ai_clock ai) (mg_cooldowns m)) (cq_user req, cq_item req) = Some t"
    using dict_get_wf[of "filter (\<lambda>(k, x). \<not> x \<le> ai_clock ai) (mg_cooldowns m)"] dict_get_SomeD[OF assms(1)] assms(2,3)
    by (force simp: dict_wf_def distinct_map intro: inj_on_subset)
  then have "fst (check_cooldown (cq_user req) (cq_item req) mode (ai_clock ai) m) = Cooling (max 1 \<lceil>t - ai_clock ai\<rceil>)"
    using assms(2,4) by (simp add: check_cooldown_def cleanup_cooldowns_def cooldown_remaining_def Let_def)
  then have "fst (browser_playback_route parse refresh ttl ai cloud cached sid eid mode req m) = Paused (max 1 \<lceil>t - ai_clock ai\<rceil>)"
    by (cases "check_cooldown (cq_user req) (cq_item req) mode (ai_clock ai) m") (simp add: browser_playback_route_def)
  moreover have "t - ai_clock ai \<le> of_int (max 1 \<lceil>t - ai_clock ai\<rceil>)" by linarith
  moreover have "mobile_playback_route parse refresh ttl ai cloud cached sid eid req m
      = (Started sid, register_create sid eid (ai_stamp ai) (ai_clock ai) ttl cached req m1)"
    by (simp add: mobile_playback_route_def create_session_route_def assms(5))
  ultimately show ?thesis by (simp add: plays_def register_create_get initialized_session)
qed

section \<open>Examples\<close>

definition example_request :: "int \<Rightarrow> create_request" where
  "example_request item =
     \<lparr>cq_user = 5, cq_role = Some ''standard_user'', cq_item = item, cq_title = None, cq_profile = ''mobile_1080p'', cq_mode = ''lite'',
      cq_audio = None, cq_kind = ''local'', cq_duration = 5400, cq_cache_key = ''k'', cq_fingerprint = ''f'', cq_start = 0,
      cq_authority = \<lparr>au_auth = Some 1, au_username = Some ''ann'', au_device = None, au_agent = None\<rparr>\<rparr>"

definition example_admission :: admission_input where
  "example_admission =
     \<lparr>ai_settings = di_settings example_input, ai_cpus = 16, ai_snapshot = None, ai_clock = 500, ai_stamp = ''t1'',
      ai_evidence = \<lparr>ae_resupply = \<lambda>_. False, ae_reserve = \<lambda>_. False, ae_health = \<lambda>_. [], ae_reclaim = \<lambda>_ m. (False, m)\<rparr>\<rparr>"

definition example_parse :: "string \<Rightarrow> real option" where "example_parse s = None"

text \<open>A manager that has just ended the playback of user 5 on item 7 for an administrator.\<close>

definition example_manager :: manager where
  "example_manager = new_manager\<lparr>mg_cooldowns := [((5, 7), 520)]\<rparr>"

lemma example_check:
  "check_create example_parse (\<lambda>_ m. m) 90 example_admission None (example_request item) example_manager = (Admitted, example_manager)"
proof -
  have none: "user_route2_sessions example_manager 5 = []" "active_records (mg_pool example_manager) = []" "mg_sessions example_manager = []" by code_simp+
  have mark: "mark_consumer_admitted stamp u i example_manager = example_manager" for stamp u i
    using none(3) by (simp add: mark_consumer_admitted_def)
  have sums: "reserved_total ts (mg_pool example_manager) = 0" "reserved_of_user ts u (mg_pool example_manager) = 0"
    "users_after u (mg_pool example_manager) = 1" for ts u
    by (simp_all add: reserved_total_def reserved_of_user_def users_after_def none(2))
  have bounds: "upbound example_admission = 12" "admission_min_threads (ai_settings example_admission) = 4"
    "protected_floor (ai_settings example_admission) = 4" "ts_max (ai_settings example_admission) = 8" by code_simp+
  have "raise_if_admission_denied example_admission 5 (Some item) example_manager = (None, example_manager)"
    unfolding raise_if_admission_denied_def Let_def sums bounds mark per_user_after_def
    by (simp add: example_admission_def health_denial_def host_denial_def fresh_snapshot_def)
  then show ?thesis
    using none(1) by (simp add: check_create_def scan_create_def admit_create_def ordered_live_def example_request_def Let_def)
qed

lemma example_keeps: "refresh_keeps (\<lambda>_ m. m)"
  by (auto simp: refresh_keeps_def)

lemma example_registry_ok: "registry_ok example_manager"
  by (simp add: example_manager_def new_manager_def registry_ok_def route2_ids_def)


theorem interleaved_creates_pass_limit_witness:
  "\<exists>m. plays m 5 ''s1'' \<and> plays m 5 ''s2''"
proof -
  have role: "normalize_user_role (cq_role (example_request 8)) \<noteq> ''admin''" by code_simp
  have user: "cq_user (example_request i) = 5" for i by (simp add: example_request_def)
  have same: "cq_user (example_request 8) = cq_user (example_request 7)" by (simp add: user)
  have fresh: "dict_get (mg_sessions example_manager) k = None" for k by (simp add: example_manager_def new_manager_def)
  have "''s1'' \<noteq> ''s2''" by simp
  from interleaved_creates_pass_limit[OF example_check[of 7] example_check[of 8] example_registry_ok example_keeps role same this fresh fresh fresh]
  show ?thesis unfolding Let_def user by blast
qed

theorem mobile_route_skips_pause_witness:
  "(\<exists>n. fst (browser_playback_route example_parse (\<lambda>_ m. m) 90 example_admission None None ''s1'' ''e1'' None (example_request 7) example_manager) = Paused n)
   \<and> fst (mobile_playback_route example_parse (\<lambda>_ m. m) 90 example_admission None None ''s1'' ''e1'' (example_request 7) example_manager) = Started ''s1''"
proof -
  have "dict_get (mg_cooldowns example_manager) (cq_user (example_request 7), cq_item (example_request 7)) = Some 520"
    "ai_clock example_admission < 520" "dict_wf (mg_cooldowns example_manager)"
    by (simp_all add: example_manager_def example_request_def example_admission_def dict_wf_def)
  moreover have "select_playback_mode None = Inr ''lite''" by code_simp
  ultimately show ?thesis using mobile_route_skips_pause[OF _ _ _ _ example_check[of 7]] by blast
qed

theorem admission_leaves_room_witness:
  "running_threads None (mg_pool example_manager) + 4 \<le> 12"
proof -
  have "check_create example_parse (\<lambda>_ m. m) 90 example_admission None (example_request 7) example_manager = (Admitted, example_manager)" by (rule example_check)
  moreover have "user_route2_sessions example_manager 5 = []" by code_simp
  ultimately have "raise_if_admission_denied example_admission 5 (Some 7) example_manager = (None, example_manager)"
    by (simp add: check_create_def scan_create_def admit_create_def ordered_live_def example_request_def Let_def split: prod.splits option.splits)
  from admission_leaves_room[OF this]
  have "running_threads None (mg_pool example_manager) + admission_min_threads (ai_settings example_admission) \<le> upbound example_admission" by blast
  moreover have "upbound example_admission = 12" "admission_min_threads (ai_settings example_admission) = 4" by code_simp+
  ultimately show ?thesis by simp
qed

end
