(* ===== verification/Session_Refresh.thy ===== *)
theory Session_Refresh
  imports Session_Admission
begin

text \<open>
  The refresh of a session, \<^verbatim>\<open>_refresh_route2_session_authority_locked\<close>: every request and every tick of the manager runs it,
  and it decides what becomes of the session's epochs. It puts together what the other theories model: preflight, clean-up
  and publication, the failure of epochs, replacement and promotion, the candidate of an audio switch, the start gates, the
  issue of attach revisions and the queueing of workers, on the session with its tables of workers. A replacement that
  moves a running playback to other threads (downshift, resupply) is started, given up and switched to as in the code;
  the measurements that ask for one are arguments (\<open>maintenance\<close>), and the dispatch of workers that follows the start of a
  resupply is a step of the manager. Log events and metadata files are left out.
\<close>

type_synonym refresh_state = "mobile_session \<times> worker_table \<times> pool"

datatype refresh_answer = Goes_On | Settled | Raised py_error

text \<open>
  What the measurements say: whether to start a resupply or a downshift of the active epoch (the threads, and the request
  for threads it serves, with the user and the film it waits for), whether pressure on the host ends one (by a foreign ffmpeg or not), whether the reserve of a bad
  condition is open, what speaks against the switched epoch, and the capacity measured after a switch.
\<close>

record maintenance =
  mt_resupply :: "mobile_session \<Rightarrow> pool \<Rightarrow> playback_epoch \<Rightarrow> int option"
  mt_downshift :: "mobile_session \<Rightarrow> pool \<Rightarrow> playback_epoch \<Rightarrow> (int \<times> (string \<times> int option \<times> int option) option) option"
  mt_pressure :: "mobile_session \<Rightarrow> bool option"
  mt_reserve_open :: "mobile_session \<Rightarrow> playback_epoch \<Rightarrow> bool"
  mt_health :: "mobile_session \<Rightarrow> playback_epoch \<Rightarrow> string list"
  mt_capacity :: "mobile_session \<Rightarrow> bool \<times> string list"
  mt_remeasured :: "mobile_session \<Rightarrow> bool option"

record refresh_input =
  ri_clock :: real
  ri_stamp :: string
  ri_cap :: int
  ri_min_threads :: int
  ri_cached :: "int list option"
  ri_epoch_id :: string
  ri_worker_ids :: "nat \<Rightarrow> string"
  ri_reserve :: "mobile_session \<Rightarrow> playback_epoch \<Rightarrow> bool \<times> real option"
  ri_maintenance :: maintenance

text \<open>The sections follow one another until one of them settles the refresh or raises.\<close>

definition and_go :: "refresh_answer \<times> 'a \<Rightarrow> ('a \<Rightarrow> refresh_answer \<times> 'a) \<Rightarrow> refresh_answer \<times> 'a" where
  "and_go r f = (case r of (Goes_On, x) \<Rightarrow> f x | (a, x) \<Rightarrow> (a, x))"

definition active_of :: "mobile_session \<Rightarrow> playback_epoch option" where
  "active_of s = epoch_of (ms_browser s) (bs_active (ms_browser s))"

definition replacement_of :: "mobile_session \<Rightarrow> playback_epoch option" where
  "replacement_of s = epoch_of (ms_browser s) (bs_replacement (ms_browser s))"

definition on_browser :: "(browser_session \<Rightarrow> browser_session) \<Rightarrow> mobile_session \<Rightarrow> mobile_session" where
  "on_browser f s = s\<lparr>ms_browser := f (ms_browser s)\<rparr>"

definition on_epoch :: "string option \<Rightarrow> (playback_epoch \<Rightarrow> playback_epoch) \<Rightarrow> mobile_session \<Rightarrow> mobile_session" where
  "on_epoch ref f s = (case ref of None \<Rightarrow> s | Some eid \<Rightarrow> on_browser (update_epoch eid f) s)"

definition on_active :: "(playback_epoch \<Rightarrow> playback_epoch) \<Rightarrow> mobile_session \<Rightarrow> mobile_session" where
  "on_active f s = on_epoch (bs_active (ms_browser s)) f s"

definition on_replacement :: "(playback_epoch \<Rightarrow> playback_epoch) \<Rightarrow> mobile_session \<Rightarrow> mobile_session" where
  "on_replacement f s = on_epoch (bs_replacement (ms_browser s)) f s"

definition in_state :: "string \<Rightarrow> mobile_session \<Rightarrow> mobile_session" where
  "in_state x = on_browser (\<lambda>b. b\<lparr>bs_state := x\<rparr>)"

definition fail_session :: "string option \<Rightarrow> mobile_session \<Rightarrow> mobile_session" where
  "fail_session error s = (in_state ''failed'' s)\<lparr>ms_state := ''failed'', ms_last_error := error\<rparr>"

definition on_audio :: "(audio_switch \<Rightarrow> audio_switch) \<Rightarrow> mobile_session \<Rightarrow> mobile_session" where
  "on_audio f = on_browser (\<lambda>b. b\<lparr>bs_audio := f (bs_audio b)\<rparr>)"

section \<open>Epochs with their workers\<close>

definition observe_epoch :: "refresh_input \<Rightarrow> mobile_session \<Rightarrow> playback_epoch \<Rightarrow> playback_epoch" where
  "observe_epoch i s e =
     record_frontier_sample s (Some (ri_clock i)) (ri_clock i) (rebuild_published_frontier (ri_stamp i) (ri_clock i) e)"

definition rebuild_active :: "refresh_input \<Rightarrow> mobile_session \<Rightarrow> mobile_session" where
  "rebuild_active i s = on_active (rebuild_published_frontier (ri_stamp i) (ri_clock i)) s"

definition discard_replacement :: "refresh_input \<Rightarrow> refresh_state \<Rightarrow> refresh_state" where
  "discard_replacement i st =
     (case replacement_of (fst st) of None \<Rightarrow> st | Some r \<Rightarrow> discard_epoch_record (ri_stamp i) (ri_clock i) (ep_id r) st)"

text \<open>A replacement epoch; the one in progress loses its worker record too.\<close>

definition create_replacement :: "refresh_input \<Rightarrow> real \<Rightarrow> string \<Rightarrow> refresh_state \<Rightarrow> playback_epoch option \<times> refresh_state" where
  "create_replacement i target reason st =
     (let (s, workers, p) = st; old = bs_replacement (ms_browser s);
          (r, s', workers') = create_replacement_epoch (ri_cap i) (ri_epoch_id i) (ri_stamp i) (ri_clock i) target reason True (s, workers);
          p' = (if truthy_string old then snd (snd (discard_epoch_record (ri_stamp i) (ri_clock i) (the old) st)) else p)
      in (r, s', workers', p'))"

definition promote_replacement :: "refresh_input \<Rightarrow> playback_epoch \<Rightarrow> refresh_state \<Rightarrow> refresh_answer \<times> refresh_state" where
  "promote_replacement i r st =
     (let (s, workers, p) = st;
          (err, s', workers') = promote_replacement_epoch (ri_cached i) (ri_clock i) r (s, workers);
          p' = (case active_of s of
                  None \<Rightarrow> p
                | Some previous \<Rightarrow>
                    if ep_id previous = ep_id r then p
                    else snd (snd (terminate_epoch_record (ri_stamp i) (ri_clock i) ''stopped'' False s
                           (mark_draining (ri_clock i) (Some (max 1 (bs_attach_revision (ms_browser s) + 1))) previous, workers, p))))
      in case err of Some e \<Rightarrow> (Raised e, s', workers', p') | None \<Rightarrow> (Goes_On, rebuild_active i s', workers', p'))"

definition cancel_candidate :: "refresh_input \<Rightarrow> string \<Rightarrow> bool \<Rightarrow> refresh_state \<Rightarrow> refresh_state" where
  "cancel_candidate i reason failed st =
     (let (s, workers, p) = st; b = ms_browser s;
          cid = (case audio_candidate_epoch b of Some c \<Rightarrow> Some (ep_id c)
                 | None \<Rightarrow> if truthy_string (as_candidate_epoch (bs_audio b)) then as_candidate_epoch (bs_audio b) else None);
          (b', workers') = cancel_audio_candidate reason failed (b, workers);
          p' = (case cid of None \<Rightarrow> p | Some eid \<Rightarrow> snd (snd (discard_epoch_record (ri_stamp i) (ri_clock i) eid st)))
      in (s\<lparr>ms_browser := b'\<rparr>, workers', p'))"

text \<open>The gate of an epoch and the boundary of full mode behind it.\<close>

definition guarded_ready :: "refresh_input \<Rightarrow> string \<Rightarrow> mobile_session \<Rightarrow> playback_epoch \<Rightarrow> (py_error + bool) \<times> mobile_session" where
  "guarded_ready i path s e =
     (let (ready, s1) = epoch_startup_attach_ready (ri_cached i) (ri_clock i) s e in
      case ready of
        Inl x \<Rightarrow> (Inl x, s1)
      | Inr ok \<Rightarrow> guard_full_attach_boundary (ri_cached i) (ri_clock i) (Some e) ok path s1)"

section \<open>When an epoch has failed\<close>

definition begin_refresh :: "refresh_input \<Rightarrow> refresh_state \<Rightarrow> refresh_answer \<times> refresh_state" where
  "begin_refresh i st =
     (let (s0, w0, p0) = st;
          s1 = fst (ensure_full_preflight (ri_cached i) (ri_clock i) s0);
          (s, w, p) = cleanup_draining_records (ri_stamp i) (ri_clock i) (s1, w0, p0)
      in case active_of s of
           None \<Rightarrow> (Settled, fail_session (Some ''Route 2 active epoch is missing'') s, w, p)
         | Some _ \<Rightarrow> (Goes_On, on_replacement (observe_epoch i s) (on_active (observe_epoch i s) s), w, p))"

definition replacement_lost :: "refresh_input \<Rightarrow> playback_epoch \<Rightarrow> refresh_state \<Rightarrow> refresh_answer \<times> refresh_state" where
  "replacement_lost i r st =
     (let (s, w, p) = discard_replacement i
            (on_browser (\<lambda>b. b\<lparr>bs_retry_not_before := ri_clock i + ROUTE2_REPLACEMENT_RETRY_BACKOFF_SECONDS\<rparr>) (fst st), snd st)
      in case active_of s of
           None \<Rightarrow> (Goes_On, s, w, p)
         | Some a \<Rightarrow>
             if ep_state a \<noteq> ''draining'' then (Goes_On, s, w, p)
             else
               (let (ready, s1) = epoch_startup_attach_ready (ri_cached i) (ri_clock i) s a in
                case ready of
                  Inl x \<Rightarrow> (Raised x, s1, w, p)
                | Inr True \<Rightarrow> (Goes_On, s1, w, p)
                | Inr False \<Rightarrow>
                    (Settled, fail_session (Some (or_string (ep_last_error r) ''Browser Playback Route 2 replacement epoch failed'')) s1, w, p)))"

definition replacement_failed :: "refresh_input \<Rightarrow> refresh_state \<Rightarrow> refresh_answer \<times> refresh_state" where
  "replacement_failed i st =
     (case replacement_of (fst st) of
        None \<Rightarrow> (Goes_On, st)
      | Some r \<Rightarrow>
          if ep_state r \<noteq> ''failed'' then (Goes_On, st)
          else if ep_replacement_reason r = Some ''audio_track_switch''
          then (Goes_On, discard_replacement i
                  (on_audio (fail_audio_switch r (Some (or_string (ep_last_error r) ''Could not prepare the selected audio track''))) (fst st), snd st))
          else if ep_replacement_reason r = Some ''maintenance_downshift''
          then (Goes_On, abort_downshift_replacement (ri_stamp i) (ri_clock i) ''replacement_failed'' r st)
          else if ep_replacement_reason r = Some ''adaptive_resupply_boost''
          then (Goes_On, abort_resupply_replacement (ri_stamp i) (ri_clock i) ''replacement_failed'' r st)
          else if is_non_retryable_cloud_source_error (ep_last_error r)
          then (let (s, w, p) = discard_replacement i st
                in (Settled, fail_session (Some (or_string (ep_last_error r) ''Browser Playback Route 2 replacement epoch failed'')) s, w, p))
          else replacement_lost i r st)"

text \<open>A replacement for the active epoch, or the end of the session when there have been too many.\<close>

definition replace_active :: "refresh_input \<Rightarrow> string \<Rightarrow> playback_epoch \<Rightarrow> refresh_state \<Rightarrow> refresh_answer \<times> refresh_state" where
  "replace_active i reason a st =
     (let (r, s, w, p) = create_replacement i (recovery_target (fst st) (Some a)) reason st
      in if r = None \<and> ms_state s = ''failed'' then (Settled, s, w, p) else (Goes_On, s, w, p))"

definition active_failed :: "refresh_input \<Rightarrow> refresh_state \<Rightarrow> refresh_answer \<times> refresh_state" where
  "active_failed i st =
     (case active_of (fst st) of
        None \<Rightarrow> (Goes_On, st)
      | Some a \<Rightarrow>
          if ep_state a \<noteq> ''failed'' then (Goes_On, st)
          else
            let (s0, w, p) = st; s = on_active (mark_draining (ri_clock i) None) s0 in
            if is_non_retryable_cloud_source_error (ep_last_error a) then (Settled, fail_session (ep_last_error a) s, w, p)
            else
              and_go (if replacement_of s = None \<and> ri_clock i \<ge> bs_retry_not_before (ms_browser s)
                      then replace_active i ''active_epoch_failure'' a (s, w, p) else (Goes_On, s, w, p))
                (\<lambda>(s, w, p). (Goes_On, in_state ''recovering'' s, w, p)))"

definition draining_retried :: "refresh_input \<Rightarrow> refresh_state \<Rightarrow> refresh_answer \<times> refresh_state" where
  "draining_retried i st =
     (let (s, w, p) = st in
      case active_of s of
        None \<Rightarrow> (Goes_On, st)
      | Some a \<Rightarrow>
          if \<not> (replacement_of s = None \<and> ep_state a = ''draining'' \<and> ri_clock i \<ge> bs_retry_not_before (ms_browser s)) then (Goes_On, st)
          else
            let error = (if truthy_string (ms_last_error s) then ms_last_error s else ep_last_error a) in
            if is_non_retryable_cloud_source_error error then (Settled, fail_session error s, w, p)
            else replace_active i ''draining_epoch_retry'' a st)"

section \<open>Moving a playback to other threads\<close>

definition ROUTE2_ADAPTIVE_DOWNSHIFT_MAX_RETRIES_PER_SESSION :: int where "ROUTE2_ADAPTIVE_DOWNSHIFT_MAX_RETRIES_PER_SESSION = 3"

definition would_interrupt_client :: "mobile_session \<Rightarrow> bool" where
  "would_interrupt_client s =
     (bs_engine_mode (ms_browser s) = ''route2'' \<and> \<not> ms_parked s \<and> ms_pending_target s = None
    \<and> ms_lifecycle s \<in> {''attached'', ''playing'', ''resuming''} \<and> ms_client_is_playing s)"

definition on_adaptive :: "(adaptive_state \<Rightarrow> adaptive_state) \<Rightarrow> mobile_session \<Rightarrow> mobile_session" where
  "on_adaptive f = on_browser (\<lambda>b. b\<lparr>bs_adaptive := f (bs_adaptive b)\<rparr>)"

text \<open>The replacement goes on from where the client plays, and does not count among the replacements of the session.\<close>

definition maintenance_epoch :: "refresh_input \<Rightarrow> (playback_epoch \<Rightarrow> playback_epoch) \<Rightarrow> playback_epoch \<Rightarrow> mobile_session \<Rightarrow> mobile_session" where
  "maintenance_epoch i f a s =
     (let e = f (build_epoch (ri_epoch_id i) (ri_stamp i) (ri_clock i) (Some (effective_playhead s a)) s) in
      on_browser (\<lambda>b. b\<lparr>bs_replacement := Some (ri_epoch_id i),
        bs_epochs := dict_set (bs_epochs b) (ri_epoch_id i) (ensure_workspace (ri_stamp i) (ri_clock i) e)\<rparr>) s)"

definition record_of :: "playback_epoch \<Rightarrow> pool \<Rightarrow> worker_record option" where
  "record_of e p = (if truthy_string (ep_worker e) then dict_get p (the (ep_worker e)) else None)"

definition start_resupply :: "refresh_input \<Rightarrow> playback_epoch \<Rightarrow> refresh_state \<Rightarrow> refresh_state" where
  "start_resupply i a st =
     (let (s, w, p) = st in
      if truthy_string (bs_replacement (ms_browser s)) \<or> record_of a p = None then st
      else case mt_resupply (ri_maintenance i) s p a of
             None \<Rightarrow> st
           | Some t \<Rightarrow>
               let s1 = maintenance_epoch i (\<lambda>e. e\<lparr>ep_replacement_reason := Some ''adaptive_resupply_boost'',
                          ep_resupply_target := Some (max (ri_min_threads i) t), ep_resupply_abort := None\<rparr>) a s;
                   s2 = on_adaptive (\<lambda>d. d\<lparr>ad_resupply_abort := None, ad_resupply_state := ''boost_replacement_warming'',
                          ad_priority_reexpand := True, ad_donor_protection := True\<rparr>) s1;
                   (s3, p') = ensure_epoch_workers (ri_worker_ids i 0) (ri_worker_ids i 1) (ri_stamp i) (ri_clock i) (s2, p)
               in (s3, w, p'))"

text \<open>A downshift on request of a waiting playback starts the record of the reclaim anew.\<close>

definition reclaim_started :: "int option \<Rightarrow> int option \<Rightarrow> adaptive_state \<Rightarrow> adaptive_state" where
  "reclaim_started user media d =
     d\<lparr>ad_reclaim_consumer_user := user, ad_reclaim_consumer_media := media, ad_reclaim_completed_at := None, ad_reclaim_failed := None,
       ad_reclaim_sufficient := None, ad_reclaim_state := ''donor_downshift_starting'', ad_reclaim_blockers := [], ad_reclaim_abort := None\<rparr>"

definition start_downshift :: "refresh_input \<Rightarrow> playback_epoch \<Rightarrow> refresh_state \<Rightarrow> refresh_state" where
  "start_downshift i a st =
     (let (s0, w, p) = st; d = bs_adaptive (ms_browser s0) in
      if ad_priority_reexpand d \<or> truthy_string (bs_replacement (ms_browser s0)) \<or> record_of a p = None then st
      else case mt_downshift (ri_maintenance i) s0 p a of
             None \<Rightarrow> st
           | Some (t, reclaim) \<Rightarrow>
               let s = (case reclaim of Some (_, user, media) \<Rightarrow> on_adaptive (reclaim_started user media) s0 | None \<Rightarrow> s0) in
               if ROUTE2_ADAPTIVE_DOWNSHIFT_MAX_RETRIES_PER_SESSION \<le> ad_downshift_retry_count d
               then (on_active (\<lambda>e. e\<lparr>ep_downshift_abort := Some ''adaptive_downshift_retry_cap_exceeded''\<rparr>)
                       (on_adaptive (\<lambda>d. d\<lparr>ad_downshift_retry_blocker := Some ''adaptive_downshift_retry_cap_exceeded''\<rparr>) s), w, p)
               else if would_interrupt_client s then (on_active (\<lambda>e. e\<lparr>ep_downshift_abort := None\<rparr>) s, w, p)
               else if ad_downshift_retry_not_before d > ri_clock i
               then (on_adaptive (\<lambda>d. d\<lparr>ad_downshift_retry_blocker := Some ''adaptive_downshift_retry_cooldown_active''\<rparr>) s, w, p)
               else
                 (on_adaptive (\<lambda>d. d\<lparr>ad_downshift_retry_blocker := None,
                      ad_reclaim_state := (if reclaim \<noteq> None then ''donor_downshift_warming'' else ad_reclaim_state d)\<rparr>)
                    (on_active (\<lambda>e. e\<lparr>ep_downshift_abort := None\<rparr>)
                       (maintenance_epoch i (\<lambda>e. e\<lparr>ep_replacement_reason := Some ''maintenance_downshift'',
                            ep_maintenance_target := Some (max (ri_min_threads i) t), ep_reclaim_request := map_option fst reclaim\<rparr>) a s)), w, p))"

definition start_maintenance :: "refresh_input \<Rightarrow> refresh_state \<Rightarrow> refresh_answer \<times> refresh_state" where
  "start_maintenance i st =
     (case active_of (fst st) of
        None \<Rightarrow> (Goes_On, st)
      | Some a \<Rightarrow>
          if ep_state a \<in> {''failed'', ''draining'', ''ended''} \<or> replacement_of (fst st) \<noteq> None then (Goes_On, st)
          else
            let st1 = start_resupply i a st in
            (Goes_On, if replacement_of (fst st1) = None then start_downshift i a st1 else st1))"

definition maintenance_abort_reason :: "refresh_input \<Rightarrow> string \<Rightarrow> mobile_session \<Rightarrow> pool \<Rightarrow> playback_epoch \<Rightarrow> string option" where
  "maintenance_abort_reason i kind s p r =
     (if ms_pending_target s \<noteq> None then Some (''client_seek_during_'' @ kind)
      else if truthy_string (ep_last_error r) \<or> ep_state r = ''failed'' then Some ''replacement_failed''
      else case mt_pressure (ri_maintenance i) s of
             Some foreign \<Rightarrow> Some ((if foreign then ''external_ffmpeg_during_'' else ''external_pressure_during_'') @ kind)
           | None \<Rightarrow>
               if length (in_states {''queued'', ''running''} p) > 2 then Some (''route2_workload_changed_during_'' @ kind) else None)"

definition maintenance_ready :: "refresh_input \<Rightarrow> string \<Rightarrow> mobile_session \<Rightarrow> playback_epoch \<Rightarrow> (py_error + bool) \<times> mobile_session" where
  "maintenance_ready i path s r =
     (if ep_state r \<in> {''failed'', ''ended'', ''draining''} \<or> truthy_string (ep_last_error r) \<or> \<not> ep_init_published r
         \<or> ep_contiguous_through r = None \<or> stalled_recovery_needed s \<or> starvation_risk s
         \<or> mt_reserve_open (ri_maintenance i) s r
      then (Inr False, s) else guarded_ready i path s r)"

text \<open>Not ready yet: a replacement with a worker or a process warms up.\<close>

definition keep_waiting :: "playback_epoch \<Rightarrow> playback_epoch" where
  "keep_waiting e =
     (if truthy_string (ep_worker e) \<or> poll_running (ep_process e) then e\<lparr>ep_state := ''warming''\<rparr>
      else if ep_state e \<notin> {''failed'', ''ended''} then e\<lparr>ep_state := ''starting''\<rparr> else e)"

text \<open>The switch: the previous epoch drains up to the revision that has been issued, and its worker ends.\<close>

definition switch_epochs :: "refresh_input \<Rightarrow> string \<Rightarrow> playback_epoch \<Rightarrow> refresh_state \<Rightarrow> refresh_answer \<times> refresh_state" where
  "switch_epochs i reason r st =
     (let (s0, w, p) = st; b0 = ms_browser s0; previous = bs_active b0;
          s1 = on_browser (\<lambda>b. b\<lparr>bs_active := Some (ep_id r), bs_replacement := None\<rparr>)
                 (on_replacement (\<lambda>e. e\<lparr>ep_state := ''attach_ready''\<rparr>) s0);
          (err, s2) = issue_attach_revision (ri_cached i) (ri_clock i) (max 1 (bs_attach_revision b0 + 1)) reason (Some r) s1
      in case err of
           Some x \<Rightarrow> (Raised x, s2, w, p)
         | None \<Rightarrow>
             (case epoch_of (ms_browser s2) previous of
                None \<Rightarrow> (Goes_On, s2, w, p)
              | Some e \<Rightarrow>
                  let (e', w', p') = terminate_epoch_record (ri_stamp i) (ri_clock i) ''stopped'' False s2
                        (mark_draining (ri_clock i) (Some (bs_attach_revision (ms_browser s2))) e, w, p)
                  in (Goes_On, on_epoch previous (\<lambda>_. e') s2, w', p')))"

definition measured_after_downshift :: "refresh_input \<Rightarrow> mobile_session \<Rightarrow> adaptive_state \<Rightarrow> adaptive_state" where
  "measured_after_downshift i s d =
     (let (enough, blockers) = mt_capacity (ri_maintenance i) s;
          d1 = d\<lparr>ad_reclaim_sufficient := Some enough, ad_reclaim_completed_at := Some (ri_stamp i)\<rparr> in
      if enough then d1\<lparr>ad_reclaim_state := ''capacity_available'', ad_reclaim_abort := None, ad_reclaim_failed := None, ad_reclaim_blockers := []\<rparr>
      else d1\<lparr>ad_reclaim_state := ''capacity_insufficient'', ad_reclaim_abort := Some ''insufficient_measured_capacity'',
              ad_reclaim_failed := Some ''insufficient_measured_capacity'', ad_reclaim_blockers := blockers\<rparr>)"

text \<open>A downshift waits while the client plays in the foreground, unless another playback asked for the threads.\<close>

definition promote_downshift :: "refresh_input \<Rightarrow> playback_epoch \<Rightarrow> refresh_state \<Rightarrow> refresh_answer \<times> refresh_state" where
  "promote_downshift i r st =
     (let (s, w, p) = st in
      if \<not> truthy_string (ep_reclaim_request r) \<and> would_interrupt_client s
      then (Goes_On, on_replacement (\<lambda>e. e\<lparr>ep_state := ''attach_ready''\<rparr>) s, w, p)
      else
        and_go (switch_epochs i ''maintenance_downshift_ready'' r
                  (on_adaptive (\<lambda>d. d\<lparr>ad_downshift_retry_not_before := 0, ad_downshift_retry_blocker := None\<rparr>) s, w, p))
          (\<lambda>(s, w, p). (Goes_On, rebuild_active i
             (if truthy_string (ep_reclaim_request r) then on_adaptive (measured_after_downshift i s) s else s), w, p)))"

definition settled_after_resupply :: "refresh_input \<Rightarrow> playback_epoch \<Rightarrow> mobile_session \<Rightarrow> adaptive_state \<Rightarrow> adaptive_state" where
  "settled_after_resupply i r s d =
     (let blockers = mt_health (ri_maintenance i) s r;
          d1 = (if blockers = []
                then d\<lparr>ad_resupply_state := ''donor_safe'', ad_resupply_blockers := [], ad_resupply_abort := None,
                       ad_priority_reexpand := False, ad_donor_protection := False, ad_admission_blocked := False\<rparr>
                else d\<lparr>ad_resupply_state := ''capacity_insufficient_after_resupply'', ad_resupply_blockers := blockers,
                       ad_priority_reexpand := True, ad_donor_protection := True, ad_admission_blocked := True\<rparr>)
      in case mt_remeasured (ri_maintenance i) s of
           None \<Rightarrow> d1
         | Some True \<Rightarrow> d1\<lparr>ad_reclaim_sufficient := Some True, ad_reclaim_failed := None, ad_reclaim_abort := None\<rparr>
         | Some False \<Rightarrow> d1\<lparr>ad_reclaim_sufficient := Some False, ad_reclaim_failed := Some ''insufficient_measured_capacity_after_resupply''\<rparr>)"

definition promote_resupply :: "refresh_input \<Rightarrow> playback_epoch \<Rightarrow> refresh_state \<Rightarrow> refresh_answer \<times> refresh_state" where
  "promote_resupply i r st =
     and_go (switch_epochs i ''adaptive_resupply_ready'' r st)
       (\<lambda>(s, w, p). (Goes_On, rebuild_active i (on_adaptive (settled_after_resupply i r s) s), w, p))"

definition maintenance_section ::
  "refresh_input \<Rightarrow> string \<Rightarrow> (string \<Rightarrow> playback_epoch \<Rightarrow> refresh_state \<Rightarrow> refresh_state)
     \<Rightarrow> (playback_epoch \<Rightarrow> refresh_state \<Rightarrow> refresh_answer \<times> refresh_state) \<Rightarrow> refresh_state \<Rightarrow> refresh_answer \<times> refresh_state" where
  "maintenance_section i reason abort switch st =
     (let (s, w, p) = st in
      case replacement_of s of
        None \<Rightarrow> (Goes_On, st)
      | Some r \<Rightarrow>
          if ep_replacement_reason r \<noteq> Some reason then (Goes_On, st)
          else case maintenance_abort_reason i (if reason = ''maintenance_downshift'' then ''downshift'' else ''resupply'') s p r of
                 Some text \<Rightarrow> (Goes_On, abort text r st)
               | None \<Rightarrow>
                   (let (ready, s1) = maintenance_ready i
                          (if reason = ''maintenance_downshift'' then ''maintenance_downshift_ready_check'' else ''adaptive_resupply_ready_check'') s r in
                    case ready of
                      Inl x \<Rightarrow> (Raised x, s1, w, p)
                    | Inr True \<Rightarrow> switch r (s1, w, p)
                    | Inr False \<Rightarrow> (Goes_On, on_replacement keep_waiting s1, w, p)))"

section \<open>The replacement that recovers, seeks or switches audio\<close>

text \<open>The candidate of an audio switch is ready on the server; the client commits it.\<close>

definition candidate_ready :: "real \<Rightarrow> playback_epoch \<Rightarrow> mobile_session \<Rightarrow> mobile_session" where
  "candidate_ready clock r s =
     on_audio (\<lambda>a. a\<lparr>as_candidate_epoch := Some (ep_id r), as_candidate_stream := ep_audio_stream r, as_candidate_state := ''ready'',
         as_candidate_error := None, as_candidate_ready := (if as_candidate_ready a \<le> 0 then clock else as_candidate_ready a),
         as_state := ''candidate_ready'', as_error := None, as_pending := ep_audio_stream r\<rparr>)
       (on_replacement (\<lambda>e. e\<lparr>ep_state := ''attach_ready''\<rparr>) s)"

definition audio_replacement :: "refresh_input \<Rightarrow> playback_epoch \<Rightarrow> refresh_state \<Rightarrow> refresh_answer \<times> refresh_state" where
  "audio_replacement i r st =
     (let (s, w, p) = st; a = bs_audio (ms_browser s) in
      if as_candidate_expires a > 0 \<and> ri_clock i \<ge> as_candidate_expires a \<and> as_candidate_state a \<noteq> ''committing''
      then (Goes_On, cancel_candidate i ''Audio switch candidate expired before commit.'' True st)
      else if ep_state r = ''ended''
      then (Goes_On, discard_replacement i
              (on_audio (fail_audio_switch r
                 (Some (or_string (ep_last_error r) ''Selected audio track preparation ended before it was ready.''))) s, w, p))
      else if audio_replacement_ready (ri_reserve i s r) s r
      then (if as_candidate_state a = ''committing'' then promote_replacement i r st
            else (Goes_On, candidate_ready (ri_clock i) r s, w, p))
      else (Goes_On, on_audio (\<lambda>a. a\<lparr>as_state := ''candidate_preparing'', as_candidate_state := ''preparing'',
                                   as_error := None, as_candidate_error := None\<rparr>)
                       (on_replacement keep_waiting s), w, p))"

definition recovery_replacement :: "refresh_input \<Rightarrow> playback_epoch \<Rightarrow> refresh_state \<Rightarrow> refresh_answer \<times> refresh_state" where
  "recovery_replacement i r st =
     (let (s, w, p) = st; (ready, s1) = guarded_ready i ''replacement_promotion_check'' s r in
      case ready of
        Inl x \<Rightarrow> (Raised x, s1, w, p)
      | Inr True \<Rightarrow> promote_replacement i r (s1, w, p)
      | Inr False \<Rightarrow>
          let s2 = on_replacement keep_waiting s1;
              draining = (case active_of s2 of None \<Rightarrow> False | Some a \<Rightarrow> ep_state a = ''draining'')
          in (Goes_On, (in_state (if draining then ''recovering'' else ''switching'') s2)
                \<lparr>ms_state := (if ms_pending_target s2 \<noteq> None then ''retargeting'' else ''preparing'')\<rparr>, w, p))"

definition settle_replacement :: "refresh_input \<Rightarrow> refresh_state \<Rightarrow> refresh_answer \<times> refresh_state" where
  "settle_replacement i st =
     (let (s, w, p) = st;
          otherwise = (Goes_On, (case active_of s of
              Some a \<Rightarrow> (if ep_state a = ''draining'' then in_state ''recovering'' s else s) | None \<Rightarrow> s), w, p) in
      case replacement_of s of
        None \<Rightarrow> otherwise
      | Some r \<Rightarrow>
          if ep_replacement_reason r \<in> {Some ''maintenance_downshift'', Some ''adaptive_resupply_boost''} then otherwise
          else if ep_replacement_reason r = Some ''audio_track_switch'' then audio_replacement i r st
          else recovery_replacement i r st)"

section \<open>What the client is told\<close>

definition queue_workers :: "refresh_input \<Rightarrow> refresh_state \<Rightarrow> refresh_state" where
  "queue_workers i st =
     (let (s, w, p) = st; (s', p') = ensure_epoch_workers (ri_worker_ids i 2) (ri_worker_ids i 3) (ri_stamp i) (ri_clock i) (s, p)
      in (s', w, p'))"

text \<open>A position asked for is reached once the client has the revision; so is the end of an audio switch.\<close>

definition acknowledge_targets :: "playback_epoch \<Rightarrow> mobile_session \<Rightarrow> mobile_session" where
  "acknowledge_targets a s =
     (let b = ms_browser s; caught_up = bs_client_revision b \<ge> bs_attach_revision b;
          s1 = (case ms_pending_target s of
                  Some t \<Rightarrow> if caught_up \<and> \<bar>t - ep_attach a\<bar> \<le> 1 / 2 then s\<lparr>ms_pending_target := None\<rparr> else s
                | None \<Rightarrow> s)
      in if as_state (bs_audio b) = ''committing'' \<and> caught_up \<and> bs_replacement b = None
         then on_audio (\<lambda>x. x\<lparr>as_state := ''active'', as_error := None\<rparr>) s1 else s1)"

definition show_ready :: "refresh_input \<Rightarrow> playback_epoch \<Rightarrow> mobile_session \<Rightarrow> mobile_session" where
  "show_ready i a s =
     (let b = ms_browser s; caught_up = bs_client_revision b \<ge> bs_attach_revision b;
          s1 = (if bs_replacement b = None
                then (if ep_state a = ''draining'' then in_state ''recovering'' s
                      else if caught_up then on_active (\<lambda>e. e\<lparr>ep_state := ''active''\<rparr>) (in_state ''active'' s)
                      else on_active (\<lambda>e. e\<lparr>ep_state := ''attach_ready''\<rparr>) (in_state ''starting'' s))
                       \<lparr>ms_state := (if ms_pending_target s = None then ''ready'' else ''retargeting'')\<rparr>
                else s);
          s2 = s1\<lparr>ms_ready_start := py_round 2 (ep_start a), ms_ready_end := py_round 2 (epoch_ready_end s a), ms_last_error := None\<rparr>
      in if bs_attach_revision b > 0 \<and> \<not> caught_up \<and> bs_attach_issued_at b > 0
            \<and> ri_clock i - bs_attach_issued_at b \<ge> ROUTE2_ATTACH_ACK_WARN_SECONDS \<and> bs_last_attach_warning b < bs_attach_revision b
         then on_browser (\<lambda>b. b\<lparr>bs_last_attach_warning := bs_attach_revision b\<rparr>) s2 else s2)"

definition show_waiting :: "playback_epoch \<Rightarrow> mobile_session \<Rightarrow> mobile_session" where
  "show_waiting a s =
     (let state = (if truthy_string (ep_worker a) \<or> poll_running (ep_process a) then ''warming''
                   else if ep_state a \<notin> {''draining'', ''failed'', ''ended''} then ''starting'' else ep_state a);
          s1 = on_active (\<lambda>e. e\<lparr>ep_state := state\<rparr>) s;
          s2 = (if bs_replacement (ms_browser s) = None
                then (in_state (if state = ''draining'' then ''recovering'' else ''starting'') s1)\<lparr>ms_state := ''preparing''\<rparr> else s1)
      in s2\<lparr>ms_ready_start := 0, ms_ready_end := 0\<rparr>)"

text \<open>Without a replacement a draining epoch that cannot be attached to leaves nothing to show.\<close>

definition stranded :: "refresh_input \<Rightarrow> playback_epoch \<Rightarrow> refresh_state \<Rightarrow> refresh_answer \<times> refresh_state" where
  "stranded i a st =
     (let (s, w, p) = st in
      if \<not> (bs_replacement (ms_browser s) = None \<and> ep_state a = ''draining'') then (Goes_On, st)
      else
        let (ready, s1) = epoch_startup_attach_ready (ri_cached i) (ri_clock i) s a in
        case ready of
          Inl x \<Rightarrow> (Raised x, s1, w, p)
        | Inr True \<Rightarrow> (Goes_On, s1, w, p)
        | Inr False \<Rightarrow>
            (Settled, queue_workers i ((in_state ''recovering'' s1)\<lparr>ms_state := ''preparing'',
               ms_last_error := Some (or_string (ep_last_error a) ''Recovering Browser Playback Route 2 epoch'')\<rparr>, w, p)))"

definition show_authority :: "refresh_input \<Rightarrow> refresh_state \<Rightarrow> refresh_answer \<times> refresh_state" where
  "show_authority i st =
     (case active_of (fst st) of
        None \<Rightarrow> (Goes_On, st)
      | Some a \<Rightarrow>
          and_go (stranded i a st)
            (\<lambda>(s, w, p).
               let (ready, s1) = guarded_ready i ''refresh_active_attach_ready'' s a in
               case ready of
                 Inl x \<Rightarrow> (Raised x, s1, w, p)
               | Inr ok \<Rightarrow>
                   let (err, s2) = (if ok \<and> bs_attach_revision (ms_browser s1) = 0
                          then issue_attach_revision (ri_cached i) (ri_clock i) 1 ''initial_attach_ready'' (Some a) s1 else (None, s1))
                   in case err of
                        Some x \<Rightarrow> (Raised x, s2, w, p)
                      | None \<Rightarrow>
                          let s3 = acknowledge_targets a s2
                          in (Goes_On, queue_workers i (if ok then show_ready i a s3 else show_waiting a s3, w, p))))"

section \<open>The refresh\<close>

definition refresh_session_authority :: "refresh_input \<Rightarrow> refresh_state \<Rightarrow> refresh_answer \<times> refresh_state" where
  "refresh_session_authority i st =
     and_go (begin_refresh i st) (\<lambda>st1.
     and_go (replacement_failed i st1) (\<lambda>st2.
     and_go (active_failed i st2) (\<lambda>st3.
     and_go (draining_retried i st3) (\<lambda>st4.
     and_go (start_maintenance i st4) (\<lambda>st5.
     and_go (maintenance_section i ''maintenance_downshift'' (abort_downshift_replacement (ri_stamp i) (ri_clock i)) (promote_downshift i) st5) (\<lambda>st6.
     and_go (maintenance_section i ''adaptive_resupply_boost'' (abort_resupply_replacement (ri_stamp i) (ri_clock i)) (promote_resupply i) st6) (\<lambda>st7.
     and_go (settle_replacement i st7) (\<lambda>st8.
     show_authority i st8))))))))"

text \<open>The refresh of a session of the manager; a session of the older pipeline has none.\<close>

definition refresh_in_manager :: "refresh_input \<Rightarrow> string \<Rightarrow> manager \<Rightarrow> manager" where
  "refresh_in_manager i sid m =
     (case dict_get (mg_sessions m) sid of
        None \<Rightarrow> m
      | Some s \<Rightarrow>
          if \<not> is_route2 s then m
          else (case refresh_session_authority i (s, mg_workers m, mg_pool m) of
                  (_, s', w, p) \<Rightarrow> m\<lparr>mg_sessions := dict_set (mg_sessions m) sid s', mg_workers := w, mg_pool := p\<rparr>))"

end
