(* ===== verification/Session_Requests.thy ===== *)
theory Session_Requests
  imports Session_Refresh Native_Window
begin

text \<open>
  The requests of a player about its session: \<^verbatim>\<open>get_session\<close>, \<^verbatim>\<open>get_active_session\<close> (of any film or of one), \<^verbatim>\<open>seek_session\<close> and
  \<^verbatim>\<open>update_runtime\<close> (the heartbeat). Each takes the manager's lock, finds the session of the user, adopts who asks, does its
  own work on the session and its workers, and ends with a refresh and a snapshot. The answer here is the session whose
  snapshot is built. \<open>older\<close> is what the handler does with a session of the older pipeline. Telemetry of the client beyond
  the fields of the session's record is left out.
\<close>

datatype reply = Snapshot string | No_Session | Failure py_error

record request =
  rq_session :: string
  rq_user :: int
  rq_authority :: authority
  rq_ttl :: int
  rq_refresh :: refresh_input

section \<open>Looking at a session\<close>

definition refresh_reply :: "refresh_input \<Rightarrow> string \<Rightarrow> manager \<Rightarrow> reply \<times> manager" where
  "refresh_reply i sid m =
     (case dict_get (mg_sessions m) sid of
        None \<Rightarrow> (No_Session, m)
      | Some s \<Rightarrow>
          (case refresh_session_authority i (s, mg_workers m, mg_pool m) of
             (a, s', w, p) \<Rightarrow>
               ((case a of Raised e \<Rightarrow> Failure e | _ \<Rightarrow> Snapshot sid),
                m\<lparr>mg_sessions := dict_set (mg_sessions m) sid s', mg_workers := w, mg_pool := p\<rparr>)))"

definition look_at ::
  "(mobile_session \<Rightarrow> manager \<Rightarrow> reply \<times> manager) \<Rightarrow> request \<Rightarrow> mobile_session \<Rightarrow> manager \<Rightarrow> reply \<times> manager" where
  "look_at older rq s0 m =
     (let s = adopt_authority (rq_authority rq) s0; i = rq_refresh rq in
      if is_route2 s then refresh_reply i (ms_id s) (touch (ri_stamp i) (ri_clock i) (rq_ttl rq) False s m)
      else older s (put_session s m))"

definition get_session :: "(mobile_session \<Rightarrow> manager \<Rightarrow> reply \<times> manager) \<Rightarrow> request \<Rightarrow> manager \<Rightarrow> reply \<times> manager" where
  "get_session older rq m =
     (case get_owned_session (rq_session rq) (rq_user rq) m of
        Inl e \<Rightarrow> (Failure e, m)
      | Inr s \<Rightarrow> look_at older rq s m)"

text \<open>The preferred session of the user, of one film when \<open>item\<close> names it.\<close>

definition get_active_session ::
  "(string \<Rightarrow> real option) \<Rightarrow> (mobile_session \<Rightarrow> manager \<Rightarrow> reply \<times> manager) \<Rightarrow> int option \<Rightarrow> request \<Rightarrow> manager \<Rightarrow> reply \<times> manager" where
  "get_active_session parse older item rq m =
     (case resolve_preferred parse (ri_clock (rq_refresh rq)) (rq_user rq) item m of
        (None, m1) \<Rightarrow> (No_Session, m1)
      | (Some s, m1) \<Rightarrow> look_at older rq s m1)"

section \<open>Seeking\<close>

text \<open>The work of a seek before the refresh. Within the published part of the active epoch the epoch goes on and the
  replacement is given up; elsewhere a replacement is created.\<close>

definition seek_position :: "real \<Rightarrow> bool option \<Rightarrow> mobile_session \<Rightarrow> mobile_session" where
  "seek_position place playing s =
     (let s1 = s\<lparr>ms_last_stable := place, ms_committed := place, ms_actual := place\<rparr>;
          s2 = (case playing of None \<Rightarrow> s1 | Some x \<Rightarrow> s1\<lparr>ms_playing_before_seek := x, ms_client_is_playing := x\<rparr>)
      in s2\<lparr>ms_lifecycle := ''attached'', ms_stalled_recovery := False, ms_last_error := None\<rparr>)"

definition seek_steps :: "refresh_input \<Rightarrow> real \<Rightarrow> real option \<Rightarrow> bool option \<Rightarrow> refresh_state \<Rightarrow> py_error option \<times> refresh_state" where
  "seek_steps i target_arg place_arg playing st =
     (let (s0, w, p) = st;
          target = clamp_time target_arg (ms_duration s0);
          place = clamp_time (case place_arg of Some x \<Rightarrow> x | None \<Rightarrow> ms_last_stable s0) (ms_duration s0) in
      if active_of s0 = None then (Some (ValueError ''Browser Playback Route 2 active epoch is missing''), st)
      else
        let s = seek_position place playing (rebuild_active i s0); a = the (active_of s) in
        if position_in_epoch s a target then
          (let (s1, w1, p1) = (if truthy_string (bs_replacement (ms_browser s))
                 then discard_epoch_record (ri_stamp i) (ri_clock i) (the (bs_replacement (ms_browser s))) (s, w, p) else (s, w, p))
           in (None, on_active (\<lambda>e. e\<lparr>ep_attach := target\<rparr>) (s1\<lparr>ms_target := target, ms_pending_target := None\<rparr>), w1, p1))
        else (None, snd (create_replacement i target ''out_of_range_seek'' (s, w, p))))"

definition in_manager ::
  "request \<Rightarrow> string \<Rightarrow> (refresh_state \<Rightarrow> py_error option \<times> refresh_state) \<Rightarrow> manager \<Rightarrow> py_error option \<times> manager" where
  "in_manager rq sid f m =
     (case dict_get (mg_sessions m) sid of
        None \<Rightarrow> (None, m)
      | Some s \<Rightarrow> (case f (s, mg_workers m, mg_pool m) of
          (err, s', w, p) \<Rightarrow> (err, m\<lparr>mg_sessions := dict_set (mg_sessions m) sid s', mg_workers := w, mg_pool := p\<rparr>)))"

definition seek_session ::
  "(mobile_session \<Rightarrow> manager \<Rightarrow> reply \<times> manager) \<Rightarrow> request \<Rightarrow> real \<Rightarrow> real option \<Rightarrow> bool option \<Rightarrow> manager \<Rightarrow> reply \<times> manager" where
  "seek_session older rq target place playing m =
     (case get_owned_session (rq_session rq) (rq_user rq) m of
        Inl e \<Rightarrow> (Failure e, m)
      | Inr s0 \<Rightarrow>
          let s = adopt_authority (rq_authority rq) s0; m1 = put_session s m; i = rq_refresh rq in
          if \<not> is_route2 s then older s m1
          else (case in_manager rq (ms_id s) (seek_steps i target place playing) m1 of
                  (Some e, m2) \<Rightarrow> (Failure e, m2)
                | (None, m2) \<Rightarrow> refresh_reply i (ms_id s) m2))"

section \<open>The heartbeat\<close>

record heartbeat =
  hb_committed :: "real option"
  hb_actual :: "real option"
  hb_revision :: "int option"
  hb_probe_bytes :: "int option"
  hb_probe_ms :: "int option"
  hb_lifecycle :: "string option"
  hb_playing :: "bool option"
  hb_engine :: "string option"
  hb_current_time :: "real option"
  hb_time_advancing :: "bool option"
  hb_stall_reason :: "string option"

text \<open>A page that was suspended reports the position zero; such a report is dropped when a better position is known.\<close>

definition stable_position :: "mobile_session \<Rightarrow> real" where
  "stable_position s = max (max (ms_committed s) (ms_actual s)) (max (ms_last_stable s) (ms_target s))"

definition drop_zero :: "bool \<Rightarrow> mobile_session \<Rightarrow> real option \<Rightarrow> real option" where
  "drop_zero suspended s v =
     (if suspended \<and> stable_position s > 1 \<and> (case v of None \<Rightarrow> False | Some x \<Rightarrow> x \<le> 1 / 1000) then None else v)"

definition clean_heartbeat :: "mobile_session \<Rightarrow> heartbeat \<Rightarrow> heartbeat" where
  "clean_heartbeat s h =
     (let suspended = py_strip (or_string (hb_lifecycle h) []) \<in> {''background-suspended'', ''background-parked''} in
      h\<lparr>hb_committed := drop_zero suspended s (hb_committed h), hb_actual := drop_zero suspended s (hb_actual h),
        hb_current_time := drop_zero suspended s (hb_current_time h)\<rparr>)"

definition record_telemetry :: "heartbeat \<Rightarrow> mobile_session \<Rightarrow> mobile_session" where
  "record_telemetry h s =
     s\<lparr>ms_hls_engine := (if truthy_string (hb_engine h) then hb_engine h else ms_hls_engine s),
       ms_client_current_time := (case hb_current_time h of None \<Rightarrow> ms_client_current_time s | Some x \<Rightarrow> Some (max 0 x)),
       ms_client_time_advancing := (case hb_time_advancing h of None \<Rightarrow> ms_client_time_advancing s | Some x \<Rightarrow> Some x),
       ms_stall_reason := (case hb_stall_reason h of None \<Rightarrow> ms_stall_reason s | Some x \<Rightarrow> Some x)\<rparr>"

definition record_place :: "heartbeat \<Rightarrow> mobile_session \<Rightarrow> mobile_session" where
  "record_place h s =
     (let s1 = (case hb_committed h of None \<Rightarrow> s
                | Some x \<Rightarrow> s\<lparr>ms_committed := clamp_time x (ms_duration s), ms_last_stable := clamp_time x (ms_duration s)\<rparr>)
      in case hb_actual h of None \<Rightarrow> s1 | Some x \<Rightarrow> s1\<lparr>ms_actual := clamp_time x (ms_duration s)\<rparr>)"

text \<open>The work of a heartbeat before the refresh.\<close>

definition heartbeat_steps :: "refresh_input \<Rightarrow> heartbeat \<Rightarrow> refresh_state \<Rightarrow> refresh_state" where
  "heartbeat_steps i h0 st =
     (let (s0, w, p0) = st; h = clean_heartbeat s0 h0;
          s1 = record_place h (record_telemetry h s0);
          (s2, p) = (if truthy_string (hb_lifecycle h)
                     then apply_background_lifecycle (the (hb_lifecycle h)) (ri_clock i) (s1\<lparr>ms_lifecycle := the (hb_lifecycle h)\<rparr>, p0)
                     else (s1, p0));
          s3 = (case hb_playing h of None \<Rightarrow> s2 | Some x \<Rightarrow> s2\<lparr>ms_client_is_playing := x\<rparr>);
          s4 = (case hb_revision h of None \<Rightarrow> s3 | Some n \<Rightarrow> on_browser (acknowledge_revision n) s3)
      in (on_browser (record_client_probe (hb_probe_bytes h) (hb_probe_ms h) None (ri_clock i)) s4, w, p))"

definition advance_window :: "string option \<Rightarrow> string \<Rightarrow> manager \<Rightarrow> manager" where
  "advance_window device sid m =
     (case dict_get (mg_sessions m) sid of
        None \<Rightarrow> m
      | Some s \<Rightarrow> m\<lparr>mg_sessions := dict_set (mg_sessions m) sid (maybe_advance_native_hls_window device s)\<rparr>)"

definition update_runtime ::
  "(mobile_session \<Rightarrow> manager \<Rightarrow> reply \<times> manager) \<Rightarrow> request \<Rightarrow> heartbeat \<Rightarrow> string option \<Rightarrow> manager \<Rightarrow> reply \<times> manager" where
  "update_runtime older rq h device m =
     (case get_owned_session (rq_session rq) (rq_user rq) m of
        Inl e \<Rightarrow> (Failure e, m)
      | Inr s0 \<Rightarrow>
          let s = adopt_authority (rq_authority rq) s0; m1 = put_session s m; i = rq_refresh rq in
          if \<not> is_route2 s then older (record_telemetry (clean_heartbeat s h) s) (put_session (record_telemetry (clean_heartbeat s h) s) m)
          else
            let (_, m2) = in_manager rq (ms_id s) (\<lambda>st. (None, heartbeat_steps i h st)) m1;
                m3 = (case dict_get (mg_sessions m2) (ms_id s) of None \<Rightarrow> m2
                      | Some s1 \<Rightarrow> touch (ri_stamp i) (ri_clock i) (rq_ttl rq) (hb_playing h = Some True) s1 m2);
                (answer, m4) = refresh_reply i (ms_id s) m3
            in (case answer of Failure _ \<Rightarrow> (answer, m4) | _ \<Rightarrow> (answer, advance_window device (ms_id s) m4)))"

end
