(* ===== verification/Worker_Life.thy ===== *)
theory Worker_Life
  imports Session_Registry Native_Window
begin

text \<open>
  The life of one worker thread, \<^verbatim>\<open>_run_route2_epoch_worker\<close>, as the sections it runs under the lock and their composition:
  it prepares the staging directory and the command, it attaches the process it has started (or settles the epoch because it
  could not be started), publishes what the process has written, and settles the epoch and its record when
  the process has ended. Between the sections other threads hold the lock; what they do is an argument of the whole run. So
  are the file or address of the source, the exit code, the tail of the error output and the probe of the source. The
  refresh of the session that follows each section is a step of its own (in the theories on the refresh) and left out here.
\<close>

section \<open>The command\<close>

definition ffmpeg_audio_map :: "int option \<Rightarrow> string" where
  "ffmpeg_audio_map stream = (case stream of None \<Rightarrow> ''0:a:0?'' | Some i \<Rightarrow> ''0:'' @ show_int i @ ''?'')"

text \<open>The source is a path or a URL; resolving it may fail with a text.\<close>

type_synonym source_input = "string + string \<times> string"

definition build_ffmpeg_command ::
  "string \<Rightarrow> string \<Rightarrow> mobile_profile \<Rightarrow> string \<times> string \<Rightarrow> playback_epoch \<Rightarrow> int \<Rightarrow> string list" where
  "build_ffmpeg_command ffmpeg dir profile source e threads =
     (let (input, kind) = source; interval = show_int \<lfloor>SEGMENT_DURATION_SECONDS * 24\<rfloor> in
      [ffmpeg, ''-hide_banner'', ''-loglevel'', ''warning'', ''-nostdin'', ''-y'', ''-stats_period'', ''1'',
       ''-progress'', dir @ ''/ffmpeg.progress.log'', ''-threads'', show_int (max 1 threads)]
      @ (if kind = ''url''
         then [''-reconnect'', ''1'', ''-reconnect_streamed'', ''1'', ''-reconnect_on_network_error'', ''1'', ''-rw_timeout'', ''15000000'']
         else [])
      @ [''-ss'', show_fixed 3 (ep_start e), ''-i'', input, ''-output_ts_offset'', ''0.000'', ''-muxpreload'', ''0'', ''-muxdelay'', ''0'',
         ''-map'', ''0:v:0'', ''-map'', ffmpeg_audio_map (ep_audio_stream e), ''-sn'', ''-dn'',
         ''-vf'', ''scale=w='' @ [CHR 0x27] @ ''min('' @ show_int (pr_max_width profile) @ '',iw)'' @ [CHR 0x27]
                @ '':h='' @ [CHR 0x27] @ ''min('' @ show_int (pr_max_height profile) @ '',ih)'' @ [CHR 0x27]
                @ '':force_original_aspect_ratio=decrease'',
         ''-c:v'', ''libx264'', ''-preset'', ''superfast'', ''-profile:v'', ''high'', ''-level:v'', pr_level profile,
         ''-pix_fmt'', ''yuv420p'', ''-crf'', show_int (pr_crf profile), ''-maxrate'', pr_maxrate profile, ''-bufsize'', pr_bufsize profile,
         ''-g'', interval, ''-keyint_min'', interval, ''-sc_threshold'', ''0'',
         ''-force_key_frames'', ''expr:gte(t,n_forced*'' @ show_fixed 1 SEGMENT_DURATION_SECONDS @ '')'',
         ''-c:a'', ''aac'', ''-ac'', ''2'', ''-ar'', ''48000'', ''-b:a'', ''160k'', ''-max_muxing_queue_size'', ''2048'',
         ''-f'', ''hls'', ''-hls_time'', show_int \<lfloor>SEGMENT_DURATION_SECONDS\<rfloor>, ''-hls_list_size'', ''0'',
         ''-hls_segment_type'', ''fmp4'', ''-hls_fmp4_init_filename'', ''init.mp4'',
         ''-hls_flags'', ''independent_segments+temp_file'', ''-start_number'', ''0'',
         ''-hls_segment_filename'', dir @ ''/staging/segment_%06d.m4s'', dir @ ''/staging/ffmpeg.m3u8''])"

text \<open>What follows the first \<^verbatim>\<open>-i\<close> of a command.\<close>

fun command_input :: "string list \<Rightarrow> string option" where
  "command_input [] = None"
| "command_input (a # as) = (if a = ''-i'' then (case as of [] \<Rightarrow> None | b # _ \<Rightarrow> Some b) else command_input as)"

definition command_input_kind :: "string \<Rightarrow> string" where
  "command_input_kind input = (if starts_with ''http://'' input \<or> starts_with ''https://'' input then ''url'' else ''path'')"

section \<open>Error texts\<close>

text \<open>\<^verbatim>\<open>" ".join(s.split())\<close>: runs of white space become one space.\<close>

fun split_ws :: "string \<Rightarrow> string \<Rightarrow> string list" where
  "split_ws word [] = (if word = [] then [] else [word])"
| "split_ws word (c # cs) =
     (if is_py_space c then (if word = [] then split_ws [] cs else word # split_ws [] cs) else split_ws (word @ [c]) cs)"

fun join_with :: "char \<Rightarrow> string list \<Rightarrow> string" where
  "join_with c [] = []"
| "join_with c [w] = w"
| "join_with c (w # v # ws) = w @ c # join_with c (v # ws)"

definition py_rstrip :: "string \<Rightarrow> string" where
  "py_rstrip s = rev (dropWhile is_py_space (rev s))"

definition compact_error_text :: "string \<Rightarrow> string" where
  "compact_error_text s =
     (let text = join_with (CHR '' '') (split_ws [] s) in
      if length text \<le> 220 then text else py_rstrip (take 217 text) @ ''...'')"

definition show_stream :: "int option \<Rightarrow> string" where
  "show_stream x = (case x of None \<Rightarrow> ''None'' | Some i \<Rightarrow> show_int i)"

definition audio_switch_epoch :: "playback_epoch \<Rightarrow> bool" where
  "audio_switch_epoch e = (ep_replacement_reason e = Some ''audio_track_switch'')"

definition command_error :: "playback_epoch \<Rightarrow> string \<Rightarrow> string" where
  "command_error e text =
     (if audio_switch_epoch e
      then ''FFmpeg command could not be built while preparing selected audio stream '' @ show_stream (ep_audio_stream e) @ '': '' @ compact_error_text text
      else if text = [] then ''Browser Playback Route 2 could not prepare the source'' else text)"

text \<open>\<open>probe\<close> is the answer of \<^verbatim>\<open>_probe_worker_source_input_error\<close>, \<open>tail\<close> the end of the error output.\<close>

definition exit_error :: "playback_epoch \<Rightarrow> int \<Rightarrow> string option \<Rightarrow> string option \<Rightarrow> string" where
  "exit_error e code probe tail =
     (if audio_switch_epoch e then
        (if truthy_string probe
         then ''Cloud/source input failed while preparing selected audio stream '' @ show_stream (ep_audio_stream e) @ '': '' @ compact_error_text (the probe)
         else
           let hint = compact_error_text (or_string tail []) in
           ''FFmpeg failed while preparing selected audio stream '' @ show_stream (ep_audio_stream e)
           @ (if hint \<noteq> [] then '': '' @ hint else '' (ffmpeg exited with code '' @ show_int code @ '')''))
      else if truthy_string probe then py_strip (the probe)
      else ''Browser Playback Route 2 epoch transcoder failed (ffmpeg exited with code '' @ show_int code @ '')'')"

section \<open>The sections under the lock\<close>

datatype worker_start = Gone | Build_Failed | Spawn int "string list"

text \<open>The session and the epoch of a worker, when they are still its own.\<close>

definition worker_epoch :: "string \<Rightarrow> string \<Rightarrow> manager \<Rightarrow> (mobile_session \<times> playback_epoch) option" where
  "worker_epoch sid eid m =
     (case dict_get (mg_sessions m) sid of None \<Rightarrow> None
      | Some s \<Rightarrow>
          if \<not> is_route2 s then None
          else (case dict_get (bs_epochs (ms_browser s)) eid of None \<Rightarrow> None | Some e \<Rightarrow> Some (s, e)))"

definition drop_record :: "string \<Rightarrow> manager \<Rightarrow> manager" where
  "drop_record wid m = m\<lparr>mg_pool := dict_pop (mg_pool m) wid\<rparr>"

definition put_epoch :: "string \<Rightarrow> string \<Rightarrow> playback_epoch \<Rightarrow> pool \<Rightarrow> mobile_session \<Rightarrow> manager \<Rightarrow> manager" where
  "put_epoch sid eid e p s m =
     m\<lparr>mg_sessions := dict_set (mg_sessions m) sid (s\<lparr>ms_browser := update_epoch eid (\<lambda>_. e) (ms_browser s)\<rparr>), mg_pool := p\<rparr>"

definition settle ::
  "string \<Rightarrow> real \<Rightarrow> string \<Rightarrow> bool \<Rightarrow> string \<Rightarrow> string \<Rightarrow> mobile_session \<Rightarrow> playback_epoch \<Rightarrow> manager \<Rightarrow> manager" where
  "settle stamp clock state failed sid eid s e m =
     (let (e', p') = finalize_worker_record stamp clock state failed False s (e, mg_pool m) in put_epoch sid eid e' p' s m)"

definition worker_prepare ::
  "string \<Rightarrow> real \<Rightarrow> thread_settings \<Rightarrow> string \<Rightarrow> string \<Rightarrow> (mobile_session \<Rightarrow> source_input) \<Rightarrow> string \<Rightarrow> string \<Rightarrow> string \<Rightarrow> manager
     \<Rightarrow> worker_start \<times> manager" where
  "worker_prepare stamp clock ts ffmpeg dir source sid eid wid m =
     (case worker_epoch sid eid m of
        None \<Rightarrow> (Gone, drop_record wid m)
      | Some (s, e) \<Rightarrow>
          if ep_worker e \<noteq> Some wid then (Gone, drop_record wid m)
          else (case dict_get (mg_pool m) wid of
                  None \<Rightarrow> (Gone, m)
                | Some r \<Rightarrow>
                    let threads = max (ts_min ts) (if wr_assigned r = 0 then ts_min ts else wr_assigned r);
                        e1 = e\<lparr>ep_staging_dir := []\<rparr> in
                    (case (source s, dict_get MOBILE_PROFILES (ms_profile s)) of
                       (Inr src, Some profile) \<Rightarrow>
                         (Spawn threads (build_ffmpeg_command ffmpeg dir profile src e1 threads), put_epoch sid eid e1 (mg_pool m) s m)
                     | (Inl text, Some _) \<Rightarrow>
                         (Build_Failed, settle stamp clock ''failed'' True sid eid s
                            (e1\<lparr>ep_state := ''failed'', ep_last_error := Some (command_error e1 text)\<rparr>) m)
                     | (_, None) \<Rightarrow>
                         (Build_Failed, settle stamp clock ''failed'' True sid eid s
                            (e1\<lparr>ep_state := ''failed'', ep_last_error := Some (command_error e1 ([CHR 0x27] @ ms_profile s @ [CHR 0x27]))\<rparr>) m))))"

text \<open>The process could not be started.\<close>

definition worker_spawn_failed :: "string \<Rightarrow> real \<Rightarrow> string \<Rightarrow> string \<Rightarrow> string \<Rightarrow> string \<Rightarrow> manager \<Rightarrow> manager" where
  "worker_spawn_failed stamp clock text sid eid wid m =
     (case worker_epoch sid eid m of
        None \<Rightarrow> drop_record wid m
      | Some (s, e) \<Rightarrow> settle stamp clock ''failed'' True sid eid s (e\<lparr>ep_state := ''failed'', ep_last_error := Some text\<rparr>) m)"

text \<open>The process runs: the epoch takes it, or it is terminated at once. The answer says which.\<close>

definition worker_attach ::
  "string \<Rightarrow> real \<Rightarrow> int \<Rightarrow> string \<Rightarrow> string \<Rightarrow> string \<Rightarrow> manager \<Rightarrow> bool \<times> manager" where
  "worker_attach stamp clock threads sid eid wid m =
     (case worker_epoch sid eid m of
        None \<Rightarrow> (False, drop_record wid m)
      | Some (s, e) \<Rightarrow>
          if ep_worker e \<noteq> Some wid then (False, drop_record wid m)
          else
            let e1 = e\<lparr>ep_process := Some Running, ep_state := (if ep_state e = ''starting'' then ''warming'' else ep_state e)\<rparr>;
                (w, e2, p) = ensure_worker_record [] stamp clock s (e1, mg_pool m);
                r = the (dict_get p w);
                r1 = r\<lparr>wr_state := ''running'', wr_assigned := threads,
                       wr_started := (if truthy_string (wr_started r) then wr_started r else Some stamp)\<rparr>;
                e3 = rebuild_published_frontier stamp clock e2
            in (True, put_epoch sid eid e3 (dict_set p w (sync_record stamp s e3 r1)) s m))"

text \<open>The process has ended.\<close>

definition worker_exit ::
  "string \<Rightarrow> real \<Rightarrow> int \<Rightarrow> string option \<Rightarrow> string option \<Rightarrow> string \<Rightarrow> string \<Rightarrow> string \<Rightarrow> manager \<Rightarrow> manager" where
  "worker_exit stamp clock code probe tail sid eid wid m =
     (case worker_epoch sid eid m of
        None \<Rightarrow> drop_record wid m
      | Some (s, e0) \<Rightarrow>
          let e = e0\<lparr>ep_process := None\<rparr> in
          if ep_stop_requested e \<or> ep_state e \<in> {''draining'', ''ended''}
          then settle stamp clock ''stopped'' False sid eid s (e\<lparr>ep_stop_requested := False\<rparr>) m
          else if code \<noteq> 0
          then settle stamp clock ''failed'' True sid eid s (e\<lparr>ep_state := ''failed'', ep_last_error := Some (exit_error e code probe tail)\<rparr>) m
          else settle stamp clock ''completed'' False sid eid s (e\<lparr>ep_transcoder_completed := True, ep_last_error := None\<rparr>) m)"

text \<open>Publication, in the loop beside the process and once after it. An error of the publication ends the thread.\<close>

definition worker_publish ::
  "string \<Rightarrow> real \<Rightarrow> (string \<Rightarrow> real) \<Rightarrow> string \<Rightarrow> string \<Rightarrow> manager \<Rightarrow> py_error option \<times> manager" where
  "worker_publish stamp clock elapsed sid eid m =
     (case worker_epoch sid eid m of
        None \<Rightarrow> (None, m)
      | Some (s, e) \<Rightarrow> (let (err, e') = publish_epoch_outputs stamp clock elapsed e in (err, put_epoch sid eid e' (mg_pool m) s m)))"

text \<open>The source is probed when the process has failed on an address.\<close>

definition probe_of :: "(string \<Rightarrow> string option) \<Rightarrow> int \<Rightarrow> string list \<Rightarrow> string option" where
  "probe_of probe code command =
     (case command_input command of
        None \<Rightarrow> None
      | Some input \<Rightarrow> if code \<noteq> 0 \<and> command_input_kind input = ''url'' \<and> input \<noteq> [] then probe input else None)"

text \<open>
  The thread as a whole. Each section has its own time. \<open>wi_spawn\<close> is the error of starting the process, \<open>wi_starting\<close> and
  \<open>wi_running\<close> are what others do to the manager before the process is attached and while it runs (the publications and the
  refreshes of this thread included).
\<close>

record worker_input =
  wi_stamp :: "nat \<Rightarrow> string"
  wi_clock :: "nat \<Rightarrow> real"
  wi_settings :: thread_settings
  wi_ffmpeg :: string
  wi_dir :: string
  wi_source :: "mobile_session \<Rightarrow> source_input"
  wi_spawn :: "string list \<Rightarrow> string option"
  wi_code :: int
  wi_probe :: "string \<Rightarrow> string option"
  wi_tail :: "string option"
  wi_starting :: "manager \<Rightarrow> manager"
  wi_running :: "manager \<Rightarrow> manager"

definition run_epoch_worker :: "worker_input \<Rightarrow> string \<Rightarrow> string \<Rightarrow> string \<Rightarrow> manager \<Rightarrow> manager" where
  "run_epoch_worker wi sid eid wid m =
     (case worker_prepare (wi_stamp wi 0) (wi_clock wi 0) (wi_settings wi) (wi_ffmpeg wi) (wi_dir wi) (wi_source wi) sid eid wid m of
        (Spawn threads command, m1) \<Rightarrow>
          (case wi_spawn wi command of
             Some error \<Rightarrow> worker_spawn_failed (wi_stamp wi 1) (wi_clock wi 1) error sid eid wid (wi_starting wi m1)
           | None \<Rightarrow>
               (case worker_attach (wi_stamp wi 1) (wi_clock wi 1) threads sid eid wid (wi_starting wi m1) of
                  (False, m2) \<Rightarrow> m2
                | (True, m2) \<Rightarrow>
                    worker_exit (wi_stamp wi 2) (wi_clock wi 2) (wi_code wi) (probe_of (wi_probe wi) (wi_code wi) command) (wi_tail wi)
                      sid eid wid (wi_running wi m2)))
      | (_, m1) \<Rightarrow> m1)"

section \<open>How an epoch ends up\<close>

lemma rebuild_runtime [simp]:
  "ep_process (rebuild_published_frontier stamp c e) = ep_process e"
  "ep_transcoder_completed (rebuild_published_frontier stamp c e) = ep_transcoder_completed e"
  "ep_last_error (rebuild_published_frontier stamp c e) = ep_last_error e"
  "ep_stop_requested (rebuild_published_frontier stamp c e) = ep_stop_requested e"
  by (simp_all add: rebuild_published_frontier_def record_byte_sample_def Let_def split: prod.splits)

lemma finalize_epoch_fields:
  fixes stamp and clock and st and failed and rm and s and e and p
  defines "e' \<equiv> fst (finalize_worker_record stamp clock st failed rm s (e, p))"
  shows "ep_process e' = ep_process e" "ep_transcoder_completed e' = ep_transcoder_completed e" "ep_last_error e' = ep_last_error e"
    "ep_stop_requested e' = ep_stop_requested e" "ep_state e' = ep_state e" "ep_published_dir e' = ep_published_dir e"
    "ep_worker e' = ep_worker e"
proof -
  have "ep_process e' = ep_process e \<and> ep_transcoder_completed e' = ep_transcoder_completed e \<and> ep_last_error e' = ep_last_error e
      \<and> ep_stop_requested e' = ep_stop_requested e \<and> ep_state e' = ep_state e \<and> ep_published_dir e' = ep_published_dir e \<and> ep_worker e' = ep_worker e"
    by (cases "ep_worker e") (simp_all add: e'_def finalize_worker_record_def ensure_worker_record_def Let_def truthy_string_def)
  then show "ep_process e' = ep_process e" "ep_transcoder_completed e' = ep_transcoder_completed e" "ep_last_error e' = ep_last_error e"
    "ep_stop_requested e' = ep_stop_requested e" "ep_state e' = ep_state e" "ep_published_dir e' = ep_published_dir e"
    "ep_worker e' = ep_worker e" by blast+
qed

lemma finalize_record_state:
  "truthy_string (ep_worker e) \<Longrightarrow>
     \<exists>r. dict_get (snd (finalize_worker_record stamp clock st failed False s (e, p))) (the (ep_worker e)) = Some r \<and> wr_state r = st"
  by (simp add: finalize_worker_record_def ensure_worker_record_def mark_runtime_finished_def Let_def)

lemma worker_epoch_SomeD:
  "worker_epoch sid eid m = Some (s, e) \<Longrightarrow>
     dict_get (mg_sessions m) sid = Some s \<and> is_route2 s \<and> dict_get (bs_epochs (ms_browser s)) eid = Some e"
  by (auto simp: worker_epoch_def split: option.splits if_splits)

lemma worker_epoch_put:
  assumes "worker_epoch sid eid m = Some (s, e)"
  shows "\<exists>s'. worker_epoch sid eid (put_epoch sid eid e' p s m) = Some (s', e') \<and> mg_pool (put_epoch sid eid e' p s m) = p"
proof -
  have "bs_engine_mode (update_epoch eid f b) = bs_engine_mode b" for f b by (simp add: update_epoch_def split: option.split)
  then show ?thesis
    using worker_epoch_SomeD[OF assms] by (simp add: worker_epoch_def put_epoch_def is_route2_def update_epoch_get)
qed

lemma settle_epoch:
  assumes "worker_epoch sid eid m = Some (s, e0)" and "truthy_string (ep_worker e)"
  shows "\<exists>s' e' r. worker_epoch sid eid (settle stamp clock st failed sid eid s e m) = Some (s', e') \<and> ep_process e' = ep_process e
    \<and> ep_transcoder_completed e' = ep_transcoder_completed e \<and> ep_last_error e' = ep_last_error e \<and> ep_state e' = ep_state e
    \<and> ep_stop_requested e' = ep_stop_requested e \<and> ep_published_dir e' = ep_published_dir e \<and> ep_worker e' = ep_worker e
    \<and> dict_get (mg_pool (settle stamp clock st failed sid eid s e m)) (the (ep_worker e)) = Some r \<and> wr_state r = st"
proof -
  obtain e' p' where f: "finalize_worker_record stamp clock st failed False s (e, mg_pool m) = (e', p')" by fastforce
  obtain s' where put: "worker_epoch sid eid (put_epoch sid eid e' p' s m) = Some (s', e')" "mg_pool (put_epoch sid eid e' p' s m) = p'"
    using worker_epoch_put[OF assms(1)] by blast
  have "settle stamp clock st failed sid eid s e m = put_epoch sid eid e' p' s m" by (simp add: settle_def f)
  then show ?thesis
    using put finalize_epoch_fields[of stamp clock st failed False s e "mg_pool m"] finalize_record_state[OF assms(2), of stamp clock st failed s "mg_pool m"]
    by (simp add: f)
qed

text \<open>The third section when the epoch is still there, by what was asked of the worker and the exit code.\<close>

lemma worker_exit_exact:
  assumes "worker_epoch sid eid m = Some (s, e)" and "truthy_string (ep_worker e)"
  shows "let stopped = ep_stop_requested e \<or> ep_state e \<in> {''draining'', ''ended''} in
    \<exists>s' e' r. worker_epoch sid eid (worker_exit stamp clock code probe tail sid eid wid m) = Some (s', e')
    \<and> dict_get (mg_pool (worker_exit stamp clock code probe tail sid eid wid m)) (the (ep_worker e)) = Some r
    \<and> ep_process e' = None \<and> ep_published_dir e' = ep_published_dir e
    \<and> ep_transcoder_completed e' = (ep_transcoder_completed e \<or> \<not> stopped \<and> code = 0)
    \<and> ep_state e' = (if \<not> stopped \<and> code \<noteq> 0 then ''failed'' else ep_state e)
    \<and> ep_last_error e' = (if stopped then ep_last_error e else if code \<noteq> 0 then Some (exit_error e code probe tail) else None)
    \<and> wr_state r = (if stopped then ''stopped'' else if code \<noteq> 0 then ''failed'' else ''completed'')"
proof -
  let ?st = "ep_stop_requested e \<or> ep_state e \<in> {''draining'', ''ended''}"
  have err: "exit_error (e\<lparr>ep_process := None\<rparr>) code probe tail = exit_error e code probe tail"
    by (simp add: exit_error_def audio_switch_epoch_def Let_def)
  consider (stop) "?st = True" | (fail) "?st = False" "code \<noteq> 0" | (complete) "?st = False" "code = 0" by blast
  then show ?thesis
  proof cases
    case stop
    then have "worker_exit stamp clock code probe tail sid eid wid m
        = settle stamp clock ''stopped'' False sid eid s (e\<lparr>ep_process := None, ep_stop_requested := False\<rparr>) m"
      using assms(1) by (auto simp: worker_exit_def Let_def)
    then show ?thesis
      using settle_epoch[OF assms(1), of "e\<lparr>ep_process := None, ep_stop_requested := False\<rparr>" stamp clock "''stopped''" False] assms(2)
      unfolding Let_def stop by auto
  next
    case fail
    then have "worker_exit stamp clock code probe tail sid eid wid m
        = settle stamp clock ''failed'' True sid eid s (e\<lparr>ep_process := None, ep_state := ''failed'', ep_last_error := Some (exit_error e code probe tail)\<rparr>) m"
      using assms(1) by (auto simp: worker_exit_def err Let_def)
    then show ?thesis
      using fail(2) assms(2)
        settle_epoch[OF assms(1), of "e\<lparr>ep_process := None, ep_state := ''failed'', ep_last_error := Some (exit_error e code probe tail)\<rparr>" stamp clock "''failed''" True]
      unfolding Let_def fail(1) by auto
  next
    case complete
    then have "worker_exit stamp clock code probe tail sid eid wid m
        = settle stamp clock ''completed'' False sid eid s (e\<lparr>ep_process := None, ep_transcoder_completed := True, ep_last_error := None\<rparr>) m"
      using assms(1) by (auto simp: worker_exit_def Let_def)
    then show ?thesis
      using complete(2) assms(2)
        settle_epoch[OF assms(1), of "e\<lparr>ep_process := None, ep_transcoder_completed := True, ep_last_error := None\<rparr>" stamp clock "''completed''" False]
      unfolding Let_def complete(1) by auto
  qed
qed

section \<open>Every way a worker can end\<close>

text \<open>The record of a worker is at rest: it is gone, or in one of the final states.\<close>

definition at_rest :: "string \<Rightarrow> pool \<Rightarrow> bool" where
  "at_rest wid p \<longleftrightarrow> (\<forall>r. dict_get p wid = Some r \<longrightarrow> wr_state r \<in> {''stopped'', ''failed'', ''completed''})"

text \<open>The epoch is still the worker's, or whoever took it has put the record of the worker to rest.\<close>

definition owned_or_rest :: "string \<Rightarrow> string \<Rightarrow> string \<Rightarrow> manager \<Rightarrow> bool" where
  "owned_or_rest sid eid wid m \<longleftrightarrow> (\<forall>s e. worker_epoch sid eid m = Some (s, e) \<and> ep_worker e \<noteq> Some wid \<longrightarrow> at_rest wid (mg_pool m))"

text \<open>The epoch agrees with the record of its worker about how the worker ended.\<close>

definition end_agrees :: "string \<Rightarrow> string \<Rightarrow> string \<Rightarrow> manager \<Rightarrow> bool" where
  "end_agrees sid eid wid m \<longleftrightarrow>
     (\<forall>s e r. worker_epoch sid eid m = Some (s, e) \<and> ep_worker e = Some wid \<and> dict_get (mg_pool m) wid = Some r
        \<longrightarrow> (wr_state r = ''failed'' \<longrightarrow> ep_state e = ''failed'' \<and> ep_last_error e \<noteq> None)
          \<and> (wr_state r = ''completed'' \<longrightarrow> ep_transcoder_completed e \<and> ep_last_error e = None))"

lemma dropped_at_rest: "at_rest wid (mg_pool (drop_record wid m)) \<and> end_agrees sid eid wid (drop_record wid m)"
  by (simp add: at_rest_def end_agrees_def drop_record_def)

lemma settled_at_rest:
  fixes stamp and clock and failed
  assumes found: "worker_epoch sid eid m = Some (s, e0)" and wid: "wid \<noteq> []" and st: "st \<in> {''stopped'', ''failed'', ''completed''}"
    and rest: "ep_worker e \<noteq> Some wid \<Longrightarrow> at_rest wid (mg_pool m)"
    and fail: "st = ''failed'' \<Longrightarrow> ep_state e = ''failed'' \<and> ep_last_error e \<noteq> None"
    and complete: "st = ''completed'' \<Longrightarrow> ep_transcoder_completed e \<and> ep_last_error e = None"
  defines "m' \<equiv> settle stamp clock st failed sid eid s e m"
  shows "at_rest wid (mg_pool m') \<and> end_agrees sid eid wid m'"
proof (cases "ep_worker e = Some wid")
  case True
  then have "truthy_string (ep_worker e)" using wid by (simp add: truthy_string_def)
  from settle_epoch[OF found this, of stamp clock st failed] st fail complete True show ?thesis
    by (auto simp: m'_def at_rest_def end_agrees_def)
next
  case False
  obtain e' p where f: "finalize_worker_record stamp clock st failed False s (e, mg_pool m) = (e', p)" by fastforce
  have "ep_worker e' = ep_worker e"
    using finalize_epoch_fields(7)[of stamp clock st failed False s e "mg_pool m"] by (simp add: f)
  moreover have "dict_get p wid = dict_get (mg_pool m) wid"
    using f False by (cases "ep_worker e") (auto simp: finalize_worker_record_def ensure_worker_record_def Let_def truthy_string_def split: if_splits)
  moreover obtain s' where "worker_epoch sid eid m' = Some (s', e')" "mg_pool m' = p"
    using worker_epoch_put[OF found, of e' p] by (auto simp: m'_def settle_def f)
  ultimately show ?thesis using rest[OF False] False by (simp add: at_rest_def end_agrees_def)
qed

lemma prepare_ends:
  assumes "worker_prepare stamp clock ts ffmpeg dir source sid eid wid m = (answer, m')" and "wid \<noteq> []"
  shows "(\<forall>threads command. answer \<noteq> Spawn threads command) \<Longrightarrow> at_rest wid (mg_pool m') \<and> end_agrees sid eid wid m'"
    and "answer = Spawn threads command \<Longrightarrow> owned_or_rest sid eid wid m'"
proof -
  show "at_rest wid (mg_pool m') \<and> end_agrees sid eid wid m'" if no: "\<forall>threads command. answer \<noteq> Spawn threads command"
  proof (cases "\<exists>s e r. worker_epoch sid eid m = Some (s, e) \<and> ep_worker e = Some wid \<and> dict_get (mg_pool m) wid = Some r")
    case False
    then have "m' = drop_record wid m \<or> m' = m \<and> dict_get (mg_pool m) wid = None"
      using assms(1) by (auto simp: worker_prepare_def split: option.splits if_splits)
    moreover have "at_rest wid (mg_pool m) \<and> end_agrees sid eid wid m" if "dict_get (mg_pool m) wid = None"
      using that by (simp add: at_rest_def end_agrees_def)
    ultimately show ?thesis using dropped_at_rest by metis
  next
    case True
    then obtain s e r where e: "worker_epoch sid eid m = Some (s, e)" "ep_worker e = Some wid" "dict_get (mg_pool m) wid = Some r" by blast
    then obtain t where "m' = settle stamp clock ''failed'' True sid eid s (e\<lparr>ep_staging_dir := [], ep_state := ''failed'', ep_last_error := Some t\<rparr>) m"
      using assms(1) no by (auto simp: worker_prepare_def Let_def split: sum.splits option.splits)
    then show ?thesis by (simp only:) (rule settled_at_rest[OF e(1) assms(2)], simp_all add: e(2))
  qed
  show "owned_or_rest sid eid wid m'" if spawn: "answer = Spawn threads command"
  proof -
    obtain s e where e: "worker_epoch sid eid m = Some (s, e)" "ep_worker e = Some wid"
      and m': "m' = put_epoch sid eid (e\<lparr>ep_staging_dir := []\<rparr>) (mg_pool m) s m"
      using assms(1) spawn by (auto simp: worker_prepare_def Let_def split: option.splits sum.splits if_splits)
    then show ?thesis using worker_epoch_put[OF e(1), of "e\<lparr>ep_staging_dir := []\<rparr>" "mg_pool m"] by (auto simp: owned_or_rest_def)
  qed
qed

lemma spawn_failed_ends:
  assumes "owned_or_rest sid eid wid m" and "wid \<noteq> []"
  shows "at_rest wid (mg_pool (worker_spawn_failed stamp clock text sid eid wid m))
     \<and> end_agrees sid eid wid (worker_spawn_failed stamp clock text sid eid wid m)"
proof (cases "worker_epoch sid eid m")
  case None
  then show ?thesis using dropped_at_rest by (simp add: worker_spawn_failed_def)
next
  case (Some se)
  obtain s e where se: "se = (s, e)" by fastforce
  have rest: "ep_worker e \<noteq> Some wid \<Longrightarrow> at_rest wid (mg_pool m)" using assms(1) Some se by (simp add: owned_or_rest_def)
  show ?thesis
    unfolding worker_spawn_failed_def Some se option.case prod.case
    by (rule settled_at_rest[OF Some[unfolded se] assms(2)]) (simp_all add: rest)
qed

lemma attach_ends:
  assumes "worker_attach stamp clock threads sid eid wid m = (attached, m')" and "wid \<noteq> []"
  shows "\<not> attached \<Longrightarrow> at_rest wid (mg_pool m') \<and> end_agrees sid eid wid m'" and "attached \<Longrightarrow> owned_or_rest sid eid wid m'"
proof -
  show "at_rest wid (mg_pool m') \<and> end_agrees sid eid wid m'" if "\<not> attached"
  proof -
    have "m' = drop_record wid m" using assms(1) that by (auto simp: worker_attach_def Let_def split: option.splits if_splits prod.splits)
    then show ?thesis using dropped_at_rest by simp
  qed
  show "owned_or_rest sid eid wid m'" if on: "attached"
  proof -
    obtain s e where e: "worker_epoch sid eid m = Some (s, e)" "ep_worker e = Some wid"
      using assms(1) on by (auto simp: worker_attach_def split: option.splits if_splits)
    define e1 where "e1 = e\<lparr>ep_process := Some Running, ep_state := (if ep_state e = ''starting'' then ''warming'' else ep_state e)\<rparr>"
    obtain w e2 p where r: "ensure_worker_record [] stamp clock s (e1, mg_pool m) = (w, e2, p)" by (metis prod_cases3)
    have "ep_worker e2 = Some wid" using r e(2) assms(2) by (auto simp: ensure_worker_record_def e1_def truthy_string_def Let_def)
    then have "ep_worker (rebuild_published_frontier stamp clock e2) = Some wid" by simp
    moreover obtain p' where "m' = put_epoch sid eid (rebuild_published_frontier stamp clock e2) p' s m"
      using assms(1) on e r by (auto simp: worker_attach_def e1_def[symmetric] Let_def)
    ultimately show ?thesis
      using worker_epoch_put[OF e(1), of "rebuild_published_frontier stamp clock e2" p'] by (auto simp: owned_or_rest_def)
  qed
qed

lemma exit_ends:
  assumes "owned_or_rest sid eid wid m" and "wid \<noteq> []"
  shows "at_rest wid (mg_pool (worker_exit stamp clock code probe tail sid eid wid m))
     \<and> end_agrees sid eid wid (worker_exit stamp clock code probe tail sid eid wid m)"
proof (cases "worker_epoch sid eid m")
  case None
  then show ?thesis using dropped_at_rest by (simp add: worker_exit_def)
next
  case (Some se)
  obtain s e where se: "se = (s, e)" by fastforce
  note found = Some[unfolded se]
  have rest: "ep_worker e \<noteq> Some wid \<Longrightarrow> at_rest wid (mg_pool m)" using assms(1) found by (simp add: owned_or_rest_def)
  note settled = settled_at_rest[OF found assms(2)]
  show ?thesis
    unfolding worker_exit_def found option.case prod.case Let_def
    by (simp only: split: if_split) (intro conjI[OF impI impI]; rule settled; simp add: rest)
qed


text \<open>C31:
  A transcode that reaches its end while its session is parked is not recorded as complete, for parking has asked its
  epoch to stop. When the user returns, the epoch asks for a worker again and all of it is transcoded a second time.
\<close>

theorem parked_completion_is_forgotten:
  assumes "worker_epoch sid eid m = Some (s, e)" and "truthy_string (ep_worker e)" and "ep_stop_requested e"
    and "\<not> ep_transcoder_completed e" and "ep_state e \<notin> {''failed'', ''draining'', ''ended''}"
  shows "\<exists>s' e'. worker_epoch sid eid (worker_exit stamp clock 0 probe tail sid eid wid m) = Some (s', e')
    \<and> \<not> ep_transcoder_completed e' \<and> ep_published_dir e' = ep_published_dir e
    \<and> fst (epoch_needs_worker stamp' clock' s' (e', mg_pool (worker_exit stamp clock 0 probe tail sid eid wid m)))"
proof -
  have exit: "worker_exit stamp clock 0 probe tail sid eid wid m
      = settle stamp clock ''stopped'' False sid eid s (e\<lparr>ep_process := None, ep_stop_requested := False\<rparr>) m"
    using assms(1,3) by (simp add: worker_exit_def Let_def)
  obtain s' e' r where s': "worker_epoch sid eid (worker_exit stamp clock 0 probe tail sid eid wid m) = Some (s', e')"
    and e': "ep_process e' = None" "\<not> ep_transcoder_completed e'" "ep_state e' = ep_state e" "ep_published_dir e' = ep_published_dir e" "ep_worker e' = ep_worker e"
    and r: "dict_get (mg_pool (worker_exit stamp clock 0 probe tail sid eid wid m)) (the (ep_worker e)) = Some r" "wr_state r = ''stopped''"
    using settle_epoch[OF assms(1), of "e\<lparr>ep_process := None, ep_stop_requested := False\<rparr>" stamp clock "''stopped''" False] assms(2,4)
    unfolding exit by auto
  have "fst (epoch_needs_worker stamp' clock' s' (e', mg_pool (worker_exit stamp clock 0 probe tail sid eid wid m)))"
    using e' r assms(2,5) by (simp add: epoch_needs_worker_def poll_running_def Let_def)
  then show ?thesis using s' e' by blast
qed

text \<open>Attaching a process to a worker that the dispatcher started changes no count of threads.\<close>

lemma attach_keeps_threads:
  assumes "worker_epoch sid eid m = Some (s, e)" "ep_worker e = Some wid" "wid \<noteq> []"
    and "dict_get (mg_pool m) wid = Some r" "wr_state r = ''running''" "wr_assigned r = threads"
  shows "running_threads u (mg_pool (snd (worker_attach stamp clock threads sid eid wid m))) = running_threads u (mg_pool m)"
proof -
  define e1 where "e1 = e\<lparr>ep_process := Some Running, ep_state := (if ep_state e = ''starting'' then ''warming'' else ep_state e)\<rparr>"
  obtain w e2 p where en: "ensure_worker_record [] stamp clock s (e1, mg_pool m) = (w, e2, p)" by (metis prod_cases3)
  have "ep_worker e1 = Some wid" using assms(2) by (simp add: e1_def)
  then have p: "w = wid" "p = dict_set (mg_pool m) wid (sync_record stamp s e2 r)"
    using en assms(3,4) by (auto simp: ensure_worker_record_def truthy_string_def Let_def)
  define r0 where "r0 = sync_record stamp s e2 r"
  define r1 where "r1 = r0\<lparr>wr_state := ''running'', wr_assigned := threads,
                       wr_started := (if truthy_string (wr_started r0) then wr_started r0 else Some stamp)\<rparr>"
  have r0: "threads_of u r0 = threads_of u r" by (simp add: r0_def)
  have r1: "threads_of u r1 = threads_of u r"
    using assms(5,6) by (cases u) (simp_all add: r1_def r0_def threads_of_def)
  have "mg_pool (snd (worker_attach stamp clock threads sid eid wid m))
      = dict_set p wid (sync_record stamp s (rebuild_published_frontier stamp clock e2) r1)"
    by (simp add: worker_attach_def assms(1,2) e1_def[symmetric] en p put_epoch_def Let_def r1_def r0_def)
  then show ?thesis using assms(4) by (simp add: p running_threads_set r1 r0_def[symmetric] r0)
qed

text \<open>The source that the exit handler probes is the one the command was built for.\<close>

lemma command_input_build:
  assumes "ffmpeg \<noteq> ''-i''"
  shows "command_input (build_ffmpeg_command ffmpeg dir profile (input, kind) e threads) = Some input"
proof -
  have log: "dir @ ''/ffmpeg.progress.log'' \<noteq> ''-i''"
  proof -
    have "length (dir @ ''/ffmpeg.progress.log'') \<noteq> length ''-i''" by simp
    then show ?thesis by metis
  qed
  have digits: "show_int n \<noteq> ''-i''" for n
    using show_nat_digits[of "nat n"] show_nat_digits[of "nat (- n)"] by (auto simp: show_int_def is_py_digit_def char_code_def)
  have fixed: "show_fixed 3 x \<noteq> ''-i''" for x
  proof
    assume "show_fixed 3 x = ''-i''"
    then have "CHR ''.'' \<in> set ''-i''" by (metis Un_iff list.set_intros(1) set_append show_fixed_def)
    then show False by simp
  qed
  show ?thesis using assms log digits fixed by (simp add: build_ffmpeg_command_def Let_def)
qed

section \<open>An example\<close>

definition example_parked_epoch :: playback_epoch where
  "example_parked_epoch = (new_epoch ''e1'' ''s1'' ''t0'' 0 0 0 None 0)\<lparr>ep_worker := Some ''w1'', ep_process := Some Running, ep_stop_requested := True\<rparr>"

definition example_parked_session :: mobile_session where
  "example_parked_session = example_away\<lparr>ms_browser := (ms_browser example_away)\<lparr>bs_epochs := [(''e1'', example_parked_epoch)]\<rparr>\<rparr>"

definition example_parked :: manager where
  "example_parked = new_manager\<lparr>mg_sessions := [(''s1'', example_parked_session)], mg_pool := map (\<lambda>(w, r). (w, park_record r)) example_pool\<rparr>"

lemma example_parked_epoch_found:
  "worker_epoch ''s1'' ''e1'' example_parked = Some (example_parked_session, example_parked_epoch)"
  "truthy_string (ep_worker example_parked_epoch)"
  by (simp_all add: worker_epoch_def example_parked_def example_parked_session_def example_parked_epoch_def example_defs is_route2_def truthy_string_def)

text \<open>The parked worker runs to its end: the process fails, but the worker had been asked to stop.\<close>

definition example_worker_run :: worker_input where
  "example_worker_run = \<lparr>wi_stamp = (\<lambda>_. ''t1''), wi_clock = (\<lambda>_. 600), wi_settings = di_settings example_input, wi_ffmpeg = ''ffmpeg'', wi_dir = ''d'',
     wi_source = (\<lambda>_. Inr (''film.mkv'', ''path'')), wi_spawn = (\<lambda>_. None), wi_code = 1, wi_probe = (\<lambda>_. None), wi_tail = None,
     wi_starting = id, wi_running = id\<rparr>"


theorem parked_completion_is_forgotten_witness:
  "\<exists>s' e'. worker_epoch ''s1'' ''e1'' (worker_exit ''t1'' 600 0 None None ''s1'' ''e1'' ''w1'' example_parked) = Some (s', e')
    \<and> \<not> ep_transcoder_completed e'"
proof -
  have "ep_stop_requested example_parked_epoch" "\<not> ep_transcoder_completed example_parked_epoch"
    "ep_state example_parked_epoch \<notin> {''failed'', ''draining'', ''ended''}"
    by (simp_all add: example_parked_epoch_def new_record_defs)
  from parked_completion_is_forgotten[OF example_parked_epoch_found this] show ?thesis by blast
qed

end
