(* ===== verification/Session_Life.thy ===== *)
theory Session_Life
  imports Session_Requests Worker_Life Epoch_Serving
begin

text \<open>
  What a refresh keeps of a session, and what it does not. Most of its writes are mild: they change the contents of epochs
  and the state shown to the client, and neither the epochs nor the revisions. The lemmas follow the sections of the
  refresh; each section is mild, or creates, gives up or switches to the replacement. Then come the writes of others: the handlers that
  serve files, the sections of worker threads, the dispatcher, the admission of other sessions and the sweep, each shown to keep
  a session well formed.
\<close>

named_theorems mild_steps

section \<open>Mild writes\<close>

definition same_epoch :: "playback_epoch \<Rightarrow> playback_epoch \<Rightarrow> bool" where
  "same_epoch e e' \<longleftrightarrow> ep_id e' = ep_id e \<and> ep_replacement_reason e' = ep_replacement_reason e"

lemma same_epoch_refl [simp]: "same_epoch e e"
  by (simp add: same_epoch_def)

definition mild_browser :: "browser_session \<Rightarrow> browser_session \<Rightarrow> bool" where
  "mild_browser b b' \<longleftrightarrow>
     bs_active b' = bs_active b \<and> bs_replacement b' = bs_replacement b \<and> bs_attach_revision b' = bs_attach_revision b
   \<and> bs_client_revision b' = bs_client_revision b \<and> bs_replacement_count b' = bs_replacement_count b
   \<and> bs_engine_mode b' = bs_engine_mode b
   \<and> as_candidate_epoch (bs_audio b') \<in> {None, as_candidate_epoch (bs_audio b)}
   \<and> (epochs_wf b \<longrightarrow> epochs_wf b') \<and> (\<forall>k. rel_option same_epoch (dict_get (bs_epochs b) k) (dict_get (bs_epochs b') k))"

definition mild :: "mobile_session \<Rightarrow> mobile_session \<Rightarrow> bool" where
  "mild s s' \<longleftrightarrow> ms_id s' = ms_id s \<and> ms_user s' = ms_user s \<and> mild_browser (ms_browser s) (ms_browser s')"

lemma rel_option_same [simp]: "rel_option same_epoch x x"
  by (cases x) simp_all

lemma mild_refl [simp, mild_steps]: "mild s s"
  by (simp add: mild_def mild_browser_def)

lemma rel_same_trans: "rel_option same_epoch x y \<Longrightarrow> rel_option same_epoch y z \<Longrightarrow> rel_option same_epoch x z"
  by (cases x; cases y; cases z) (auto simp: same_epoch_def)

lemma mild_browser_trans: "mild_browser a b \<Longrightarrow> mild_browser b c \<Longrightarrow> mild_browser a c"
  unfolding mild_browser_def by (auto intro: rel_same_trans dest: spec)

lemma mild_trans: "mild s t \<Longrightarrow> mild t u \<Longrightarrow> mild s u"
  unfolding mild_def using mild_browser_trans by auto

lemma mild_fields [mild_steps]:
  "mild s t \<Longrightarrow> mild s (t\<lparr>ms_state := a\<rparr>)" "mild s t \<Longrightarrow> mild s (t\<lparr>ms_last_error := e\<rparr>)"
  "mild s t \<Longrightarrow> mild s (t\<lparr>ms_pending_target := p\<rparr>)" "mild s t \<Longrightarrow> mild s (t\<lparr>ms_ready_start := x\<rparr>)"
  "mild s t \<Longrightarrow> mild s (t\<lparr>ms_ready_end := x\<rparr>)" "mild s t \<Longrightarrow> mild s (t\<lparr>ms_worker_state := a\<rparr>)"
  "mild s t \<Longrightarrow> mild s (t\<lparr>ms_queue_started := p\<rparr>)"
  by (simp_all add: mild_def)

lemma mild_on_browser: "mild s t \<Longrightarrow> mild_browser (ms_browser t) (f (ms_browser t)) \<Longrightarrow> mild s (on_browser f t)"
  by (rule mild_trans[of _ t]) (simp_all add: mild_def on_browser_def)

lemma mild_update:
  assumes "\<And>e. dict_get (bs_epochs b) k = Some e \<Longrightarrow> same_epoch e (f e)"
  shows "mild_browser b (update_epoch k f b)"
proof -
  have "update_epoch k f b = update_epoch k (\<lambda>x. if same_epoch x (f x) then f x else x) b"
    using assms by (simp add: update_epoch_def split: option.split)
  then have "epochs_wf b \<Longrightarrow> epochs_wf (update_epoch k f b)"
    by (simp only:) (rule update_epoch_wf, assumption, auto simp: same_epoch_def)
  moreover have "rel_option same_epoch (dict_get (bs_epochs b) j) (dict_get (bs_epochs (update_epoch k f b)) j)" for j
    using assms by (cases "dict_get (bs_epochs b) k") (auto simp: update_epoch_get)
  moreover have "bs_engine_mode (update_epoch k f b) = bs_engine_mode b" by (simp add: update_epoch_def split: option.split)
  ultimately show ?thesis by (simp add: mild_browser_def)
qed

lemma mild_on_epoch: "mild s t \<Longrightarrow> (\<And>e. same_epoch e (f e)) \<Longrightarrow> mild s (on_epoch ref f t)"
  by (cases ref) (auto simp: on_epoch_def intro!: mild_on_browser mild_update)

lemma mild_epochs [mild_steps]:
  "mild s t \<Longrightarrow> (\<And>e. same_epoch e (f e)) \<Longrightarrow> mild s (on_active f t)"
  "mild s t \<Longrightarrow> (\<And>e. same_epoch e (f e)) \<Longrightarrow> mild s (on_replacement f t)"
  by (simp_all add: on_active_def on_replacement_def mild_on_epoch)

lemma mild_plain:
  assumes "\<And>b. bs_epochs (f b) = bs_epochs b" "\<And>b. bs_active (f b) = bs_active b" "\<And>b. bs_replacement (f b) = bs_replacement b"
    "\<And>b. bs_attach_revision (f b) = bs_attach_revision b" "\<And>b. bs_client_revision (f b) = bs_client_revision b"
    "\<And>b. bs_replacement_count (f b) = bs_replacement_count b" "\<And>b. bs_engine_mode (f b) = bs_engine_mode b"
    "\<And>b. as_candidate_epoch (bs_audio (f b)) \<in> {None, as_candidate_epoch (bs_audio b)}"
  shows "mild_browser b (f b)"
  using assms by (simp add: mild_browser_def epochs_wf_def)

lemma mild_shown [mild_steps]:
  "mild s t \<Longrightarrow> mild s (in_state x t)" "mild s t \<Longrightarrow> mild s (on_adaptive g t)"
  "mild s t \<Longrightarrow> mild s (on_browser (\<lambda>b. b\<lparr>bs_retry_not_before := r\<rparr>) t)"
  "mild s t \<Longrightarrow> mild s (on_browser (\<lambda>b. b\<lparr>bs_last_attach_warning := bs_attach_revision b\<rparr>) t)"
  by (auto simp: in_state_def on_adaptive_def intro!: mild_on_browser mild_plain[where f = "\<lambda>b. b\<lparr>bs_state := x\<rparr>"]
      mild_plain[where f = "\<lambda>b. b\<lparr>bs_adaptive := g (bs_adaptive b)\<rparr>"] mild_plain[where f = "\<lambda>b. b\<lparr>bs_retry_not_before := r\<rparr>"]
      mild_plain[where f = "\<lambda>b. b\<lparr>bs_last_attach_warning := bs_attach_revision b\<rparr>"])

lemma mild_audio [mild_steps]:
  assumes "mild s t" and "\<And>a. as_candidate_epoch (h a) \<in> {None, as_candidate_epoch a}"
  shows "mild s (on_audio h t)"
  unfolding on_audio_def using assms by (intro mild_on_browser mild_plain[where f = "\<lambda>b. b\<lparr>bs_audio := h (bs_audio b)\<rparr>"]) simp_all

lemma mild_fail_audio: "mild s (on_audio (fail_audio_switch r e) s)"
  by (rule mild_audio[OF mild_refl]) (unfold insert_iff empty_iff simp_thms, rule fail_audio_candidate)

lemma mild_fail [mild_steps]: "mild s t \<Longrightarrow> mild s (fail_session e t)"
  by (simp add: fail_session_def mild_steps)

lemma same_epoch_updates [simp]:
  "same_epoch e (rebuild_published_frontier stamp clock e)" "same_epoch e (e\<lparr>ep_state := x\<rparr>)" "same_epoch e (keep_waiting e)"
  "same_epoch e (e\<lparr>ep_downshift_abort := a\<rparr>)" "same_epoch e (mark_draining clock r e)" "same_epoch e (observe_epoch i s e)"
  by (simp_all add: same_epoch_def keep_waiting_def mark_draining_def observe_epoch_def record_frontier_sample_def Let_def
      split: option.splits)

section \<open>Gates and workers are mild\<close>

lemma mild_same: "same_revision (ms_browser t) (ms_browser s) \<Longrightarrow> ms_id t = ms_id s \<Longrightarrow> ms_user t = ms_user s \<Longrightarrow> mild s t"
  using epochs_wf_same[of "ms_browser t" "ms_browser s"]
  by (auto simp: mild_def mild_browser_def same_revision_def same_epochs_def)

lemma preflight_mild: "mild s (fst (ensure_full_preflight cached clock s))"
  using ensure_preflight_same[of cached clock s] preflight_name[of s cached clock]
  by (intro mild_same) (simp_all add: same_revision_def same_name_def)

lemma gate_mild: "mild s (snd (full_mode_gate cached clock s e))"
  using full_mode_gate_session[of cached clock s e] preflight_mild[of s cached clock] by auto

lemma mild_snd: "f = (r, t) \<Longrightarrow> mild s (snd f) \<Longrightarrow> mild s t" by simp

lemma startup_mild:
  assumes "epoch_startup_attach_ready cached clock s e = (r, t)"
  shows "mild s t" and "same_revision (ms_browser t) (ms_browser s)"
proof -
  obtain v where "epoch_startup_attach_gate cached clock s e = (v, t)"
    using assms by (auto simp: epoch_startup_attach_ready_def split: prod.splits)
  note run = this[unfolded epoch_startup_attach_gate_def]
  consider "t = snd (full_mode_gate cached clock s e)" | d where "t = s\<lparr>ms_browser := (ms_browser s)\<lparr>bs_lite := d\<rparr>\<rparr>" | "t = s"
  proof (cases "full_mode_requires_initial_attach_gate s")
    case True
    then show thesis using run that(1) by (simp add: case_prod_beta Let_def)
  next
    case full: False
    then show thesis
    proof (cases "bs_playback_mode (ms_browser s) = ''lite'' \<and> bs_client_revision (ms_browser s) = 0")
      case True
      then show thesis using run full that(2) by (auto simp: case_prod_beta Let_def)
    next
      case False
      then show thesis using run full that(3) by (simp only: if_False Let_def prod.inject)
    qed
  qed
  then have "mild s t \<and> same_revision (ms_browser t) (ms_browser s)"
  proof cases
    case 1
    then show ?thesis using full_mode_gate_same[of cached clock s e] by (simp add: gate_mild same_revision_def)
  next
    case 2
    then have "same_revision (ms_browser t) (ms_browser s)" by (simp add: same_revision_def same_epochs_def)
    then show ?thesis using 2 by (simp add: mild_same)
  qed simp
  then show "mild s t" "same_revision (ms_browser t) (ms_browser s)" by simp_all
qed

lemma guard_mild:
  assumes "guard_full_attach_boundary cached clock epoch eligible path s = (r, t)"
  shows "mild s t"
proof (rule mild_same)
  show "same_revision (ms_browser t) (ms_browser s)" by (rule guard_same[OF assms])
  have gate: "same_name s (snd (full_mode_gate cached clock s e))" for e
    using full_mode_gate_session[of cached clock s e] preflight_name[of s cached clock] by auto
  have "ms_id t = ms_id s \<and> ms_user t = ms_user s"
  proof (cases "epoch = None \<or> \<not> eligible \<or> \<not> full_mode_requires_initial_attach_gate s")
    case True
    then have "t = s" using assms by (cases epoch) (auto simp: guard_full_attach_boundary_def split: if_splits)
    then show ?thesis by simp
  next
    case False
    then obtain e where e: "epoch = Some e" by auto
    obtain g u where g: "full_mode_gate cached clock s e = (g, u)" by fastforce
    have "ms_id u = ms_id s" "ms_user u = ms_user s" using gate[of e] by (simp_all add: g same_name_def)
    then show ?thesis
      using assms False by (auto simp: guard_full_attach_boundary_def e g Let_def split: sum.splits if_splits)
  qed
  then show "ms_id t = ms_id s" "ms_user t = ms_user s" by simp_all
qed

lemma same_revision_trans: "same_revision a b \<Longrightarrow> same_revision b c \<Longrightarrow> same_revision a c"
  by (auto simp: same_revision_def same_epochs_def)

lemma guarded_mild:
  assumes "guarded_ready i path s e = (r, t)"
  shows "mild s t \<and> same_revision (ms_browser t) (ms_browser s)"
proof -
  obtain x u where x: "epoch_startup_attach_ready (ri_cached i) (ri_clock i) s e = (x, u)" by fastforce
  obtain y v where y: "guard_full_attach_boundary (ri_cached i) (ri_clock i) (Some e) (projr x) path u = (y, v)" by fastforce
  have "t = u \<or> t = v" using assms y by (auto simp: guarded_ready_def x split: sum.splits)
  then show ?thesis
    using startup_mild[OF x] guard_mild[OF y] guard_same[OF y] mild_trans same_revision_trans by metis
qed

lemma maintenance_ready_mild: "maintenance_ready i path s r = (x, t) \<Longrightarrow> mild s t \<and> same_revision (ms_browser t) (ms_browser s)"
  using guarded_mild by (auto simp: maintenance_ready_def split: if_splits)

lemma same_revision_epochs:
  assumes "same_revision (ms_browser t) (ms_browser s)"
  shows "replacement_of t = replacement_of s" and "active_of t = active_of s"
  using assms by (simp_all add: same_revision_def same_epochs_def replacement_of_def active_of_def epoch_of_def)

lemma same_epoch_trans: "same_epoch a b \<Longrightarrow> same_epoch b c \<Longrightarrow> same_epoch a c"
  by (simp add: same_epoch_def)

lemma needs_worker_same: "epoch_needs_worker stamp clock s (e, p) = (x, e', p') \<Longrightarrow> same_epoch e e'"
  by (auto simp: epoch_needs_worker_def Let_def same_epoch_def split: if_splits option.splits)

lemma worker_record_same: "ensure_worker_record new_id stamp clock s (e, p) = (w, e', p') \<Longrightarrow> same_epoch e e'"
  by (auto simp: ensure_worker_record_def Let_def same_epoch_def)

lemma ensure_epoch_worker_same:
  assumes "ensure_epoch_worker new_id stamp clock s (e, p) = (x, e', p')"
  shows "same_epoch e e'"
proof -
  obtain w e1 p1 where rec: "ensure_worker_record new_id stamp clock s (e, p) = (w, e1, p1)" by (metis prod_cases3)
  obtain b e2 p2 where need: "epoch_needs_worker stamp clock s (e, p) = (b, e2, p2)" by (metis prod_cases3)
  obtain v e3 p3 where rec2: "ensure_worker_record new_id stamp clock s (e2, p2) = (v, e3, p3)" by (metis prod_cases3)
  have "same_epoch e e1" "same_epoch e e2" "same_epoch e2 e3"
    using worker_record_same[OF rec] needs_worker_same[OF need] worker_record_same[OF rec2] .
  then show ?thesis
    using assms by (auto simp: ensure_epoch_worker_def rec need rec2 Let_def same_epoch_def split: if_splits)
qed

lemma ensure_one_mild:
  assumes "ensure_one stamp clock (new_id, ref) (needs, s, p) = (needs', t, q)"
  shows "mild s t"
proof (cases "epoch_of (ms_browser s) ref")
  case None
  then show ?thesis using assms by (simp add: ensure_one_def)
next
  case (Some e)
  obtain x e' p' where w: "ensure_epoch_worker new_id stamp clock s (e, p) = (x, e', p')" by (metis prod_cases3)
  obtain k where k: "ref = Some k" "dict_get (bs_epochs (ms_browser s)) k = Some e"
    using Some by (cases ref) (auto simp: epoch_of_def truthy_string_def split: if_splits)
  have "t = on_browser (update_epoch (the ref) (\<lambda>_. e')) s" using assms by (simp add: ensure_one_def Some w on_browser_def)
  moreover have "mild s (on_browser (update_epoch k (\<lambda>_. e')) s)"
    using k(2) ensure_epoch_worker_same[OF w] by (intro mild_on_browser mild_update) auto
  ultimately show ?thesis by (simp add: k(1))
qed

lemma ensure_workers_mild:
  assumes "ensure_epoch_workers id1 id2 stamp clock (s, p) = (t, q)"
  shows "mild s t"
proof -
  obtain n1 s1 p1 where one: "ensure_one stamp clock (id1, bs_active (ms_browser s)) ([], s, p) = (n1, s1, p1)" by (metis prod_cases3)
  obtain n2 s2 p2 where two: "ensure_one stamp clock (id2, bs_replacement (ms_browser s)) (n1, s1, p1) = (n2, s2, p2)" by (metis prod_cases3)
  have "mild s s2" using mild_trans[OF ensure_one_mild[OF one] ensure_one_mild[OF two]] .
  then show ?thesis
    using assms by (auto simp: ensure_epoch_workers_def one two Let_def split: if_splits intro!: mild_steps)
qed

lemma queue_workers_mild: "mild s (fst (queue_workers i (s, w, p)))"
  by (auto simp: queue_workers_def split: prod.splits intro: ensure_workers_mild)

section \<open>What is kept\<close>

definition kept :: "int \<Rightarrow> mobile_session \<Rightarrow> mobile_session \<Rightarrow> bool" where
  "kept cap s0 s \<longleftrightarrow>
     same_name s0 s \<and> session_inv cap (ms_browser s) \<and> bs_active (ms_browser s) = bs_active (ms_browser s0)
   \<and> bs_attach_revision (ms_browser s) = bs_attach_revision (ms_browser s0)
   \<and> bs_client_revision (ms_browser s) = bs_client_revision (ms_browser s0)"

text \<open>After the switch there is no replacement, and the epoch that was active is still in the table.\<close>

definition moved :: "int \<Rightarrow> mobile_session \<Rightarrow> mobile_session \<Rightarrow> bool" where
  "moved cap s0 s \<longleftrightarrow>
     same_name s0 s \<and> session_inv cap (ms_browser s) \<and> bs_replacement (ms_browser s) = None
   \<and> bs_attach_revision (ms_browser s) \<in> {bs_attach_revision (ms_browser s0), bs_attach_revision (ms_browser s0) + 1}
   \<and> bs_client_revision (ms_browser s) = bs_client_revision (ms_browser s0)
   \<and> (\<exists>a. bs_active (ms_browser s0) = Some a \<and> dict_get (bs_epochs (ms_browser s)) a \<noteq> None)"

definition steady :: "int \<Rightarrow> mobile_session \<Rightarrow> mobile_session \<Rightarrow> bool" where
  "steady cap s0 s \<longleftrightarrow> kept cap s0 s \<or> moved cap s0 s"

definition creatable :: "string \<Rightarrow> mobile_session \<Rightarrow> bool" where
  "creatable i s \<longleftrightarrow> bs_replacement (ms_browser s) = None \<longrightarrow> fresh_id i s"

lemma mild_name: "mild s t \<Longrightarrow> same_name s t"
  by (simp add: mild_def mild_browser_def same_name_def is_route2_def)

lemma mild_none: "mild s t \<Longrightarrow> dict_get (bs_epochs (ms_browser t)) k = None \<longleftrightarrow> dict_get (bs_epochs (ms_browser s)) k = None"
proof -
  assume "mild s t"
  then have "rel_option same_epoch (dict_get (bs_epochs (ms_browser s)) k) (dict_get (bs_epochs (ms_browser t)) k)"
    by (simp add: mild_def mild_browser_def)
  then show ?thesis by (auto elim: option.rel_cases)
qed

lemma mild_inv:
  assumes "mild s t" and "session_inv cap (ms_browser s)"
  shows "session_inv cap (ms_browser t)"
proof -
  have m: "mild_browser (ms_browser s) (ms_browser t)" using assms(1) by (simp add: mild_def)
  have reason: "audio_reason (dict_get (bs_epochs (ms_browser t)) c)" if "audio_reason (dict_get (bs_epochs (ms_browser s)) c)" for c
  proof -
    have "rel_option same_epoch (dict_get (bs_epochs (ms_browser s)) c) (dict_get (bs_epochs (ms_browser t)) c)"
      using m by (simp add: mild_browser_def)
    then show ?thesis using that by (auto simp: audio_reason_def same_epoch_def elim: option.rel_cases)
  qed
  have cand: "as_candidate_epoch (bs_audio (ms_browser t)) = None
      \<or> as_candidate_epoch (bs_audio (ms_browser t)) = as_candidate_epoch (bs_audio (ms_browser s))"
    and act: "bs_active (ms_browser t) = bs_active (ms_browser s)"
    using m by (auto simp: mild_browser_def)
  have "candidate_ok (ms_browser s)" using assms(2) by (simp add: session_inv_def)
  then have "candidate_ok (ms_browser t)"
    using cand reason by (auto simp: candidate_ok_def act split: option.splits)
  then show ?thesis using m assms(2) by (simp add: session_inv_def mild_browser_def)
qed

lemma kept_mild: "kept cap s0 s \<Longrightarrow> mild s t \<Longrightarrow> kept cap s0 t"
  using mild_inv[of s t cap] mild_name[of s t] same_name_trans[of s0 s t] by (simp add: kept_def mild_def mild_browser_def)

lemma moved_mild: "moved cap s0 s \<Longrightarrow> mild s t \<Longrightarrow> moved cap s0 t"
  using mild_inv[of s t cap] mild_name[of s t] same_name_trans[of s0 s t] mild_none[of s t]
  by (auto simp: moved_def mild_def mild_browser_def)

lemma steady_mild: "steady cap s0 s \<Longrightarrow> mild s t \<Longrightarrow> steady cap s0 t"
  using kept_mild moved_mild by (auto simp: steady_def)

lemma fresh_mild: "fresh_id i s \<Longrightarrow> mild s t \<Longrightarrow> fresh_id i t"
  using mild_none[of s t i] by (auto simp: fresh_id_def mild_def mild_browser_def)

lemma creatable_mild: "creatable i s \<Longrightarrow> mild s t \<Longrightarrow> creatable i t"
  using fresh_mild by (auto simp: creatable_def mild_def mild_browser_def)

lemma kept_refl: "session_inv cap (ms_browser s) \<Longrightarrow> kept cap s s"
  by (simp add: kept_def)

lemma kept_good:
  assumes "kept cap s0 s" and "good_step cap (ms_browser s) (ms_browser t)" and "same_name s t"
    and "bs_active (ms_browser t) = bs_active (ms_browser s)"
    and "bs_attach_revision (ms_browser t) = bs_attach_revision (ms_browser s)"
    and "bs_client_revision (ms_browser t) = bs_client_revision (ms_browser s)"
  shows "kept cap s0 t"
  using assms same_name_trans[of s0 s t] by (auto simp: kept_def good_step_def)

text \<open>An epoch in the table is found by reference.\<close>

lemma epoch_ofD: "epoch_of b ref = Some e \<Longrightarrow> \<exists>k. ref = Some k \<and> k \<noteq> [] \<and> dict_get (bs_epochs b) k = Some e"
  by (cases ref) (auto simp: epoch_of_def truthy_string_def split: if_splits)

lemma replacement_ofD:
  assumes "session_inv cap (ms_browser s)" and "replacement_of s = Some r"
  shows "bs_replacement (ms_browser s) = Some (ep_id r) \<and> dict_get (bs_epochs (ms_browser s)) (ep_id r) = Some r
     \<and> bs_active (ms_browser s) \<noteq> Some (ep_id r)"
proof -
  obtain k where k: "bs_replacement (ms_browser s) = Some k" "dict_get (bs_epochs (ms_browser s)) k = Some r"
    using assms(2) by (auto simp: replacement_of_def dest: epoch_ofD)
  moreover have "ep_id r = k" "bs_active (ms_browser s) \<noteq> Some k"
    using epochs_wf_id[of "ms_browser s" k r] assms(1) k by (auto simp: session_inv_def epochs_wf_def)
  ultimately show ?thesis by simp
qed

lemma active_ofD:
  assumes "session_inv cap (ms_browser s)" and "active_of s = Some a"
  shows "bs_active (ms_browser s) = Some (ep_id a) \<and> dict_get (bs_epochs (ms_browser s)) (ep_id a) = Some a"
proof -
  obtain k where k: "bs_active (ms_browser s) = Some k" "dict_get (bs_epochs (ms_browser s)) k = Some a"
    using assms(2) by (auto simp: active_of_def dest: epoch_ofD)
  moreover have "ep_id a = k" using epochs_wf_id[of "ms_browser s" k a] assms(1) k by (auto simp: session_inv_def)
  ultimately show ?thesis by simp
qed

lemma replacement_none:
  assumes "session_inv cap (ms_browser s)"
  shows "replacement_of s = None \<longleftrightarrow> bs_replacement (ms_browser s) = None"
proof (cases "bs_replacement (ms_browser s)")
  case (Some k)
  then obtain e where e: "dict_get (bs_epochs (ms_browser s)) k = Some e"
    using assms by (auto simp: session_inv_def epochs_wf_def)
  moreover have "k \<noteq> []" using epochs_wf_id[OF _ e] assms by (simp add: session_inv_def)
  ultimately show ?thesis using Some by (simp add: replacement_of_def epoch_of_def truthy_string_def)
qed (simp add: replacement_of_def epoch_of_def truthy_string_def)

section \<open>Giving up, creating, switching\<close>

lemma discard_record_browser:
  "ms_browser (fst (discard_epoch_record stamp clock eid (s, w, p))) = fst (discard_epoch eid (ms_browser s, w))"
  by (simp add: discard_epoch_record_def discard_epoch_def Let_def split: option.split prod.split)

lemma discard_kept:
  assumes "kept cap s0 s" and "bs_active (ms_browser s) \<noteq> Some eid"
  shows "kept cap s0 (fst (discard_epoch_record stamp clock eid (s, w, p)))"
proof -
  let ?b = "fst (discard_epoch eid (ms_browser s, w))"
  have inv: "session_inv cap (ms_browser s)" using assms(1) by (simp add: kept_def)
  have "epochs_wf ?b" using discard_epoch_wf[OF _ assms(2)] inv by (simp add: session_inv_def)
  then have "good_step cap (ms_browser s) ?b" by (rule good_shrink[OF inv]) (simp_all split: if_splits)
  then show ?thesis
    by (intro kept_good[OF assms(1)]) (simp_all only: discard_record_browser discard_record_name discard_epoch_fields)
qed

lemma discard_fresh: "fresh_id i s \<Longrightarrow> fresh_id i (fst (discard_epoch_record stamp clock eid (s, w, p)))"
  by (simp add: fresh_id_def discard_record_browser)

lemma cleanup_record_kept:
  assumes "kept cap s0 s"
  shows "kept cap s0 (fst (cleanup_draining_records stamp now (s, w, p)))"
proof -
  define step where "step = (\<lambda>(s, workers, p) (eid, e).
         let b = ms_browser s in
         if bs_active b = Some eid \<or> bs_replacement b = Some eid then (s, workers, p)
         else if \<not> epoch_draining_expired b (Some now) now e then (s, workers, p)
         else discard_epoch_record stamp now eid (s, workers, p))"
  have one: "kept cap s0 (fst (step swp x))" if "kept cap s0 (fst swp)" for swp x
    using that by (cases swp; cases x) (auto simp: step_def Let_def intro!: discard_kept)
  have "kept cap s0 (fst (foldl step swp es))" if "kept cap s0 (fst swp)" for swp es
    using that by (induction es arbitrary: swp) (simp_all add: one)
  from this[of "(s, w, p)"] show ?thesis using assms by (simp add: cleanup_draining_records_def step_def)
qed

lemma cleanup_kept:
  assumes "kept cap s0 s" and "fresh_id i s"
  shows "kept cap s0 (fst (cleanup_draining_records stamp now (s, w, p))) \<and> fresh_id i (fst (cleanup_draining_records stamp now (s, w, p)))"
proof -
  define step where "step = (\<lambda>(s, workers, p) (eid, e).
         let b = ms_browser s in
         if bs_active b = Some eid \<or> bs_replacement b = Some eid then (s, workers, p)
         else if \<not> epoch_draining_expired b (Some now) now e then (s, workers, p)
         else discard_epoch_record stamp now eid (s, workers, p))"
  have one: "kept cap s0 (fst (step swp x)) \<and> fresh_id i (fst (step swp x))"
    if "kept cap s0 (fst swp)" "fresh_id i (fst swp)" for swp x
    using that by (cases swp; cases x) (auto simp: step_def Let_def intro!: discard_kept discard_fresh)
  have "kept cap s0 (fst (foldl step swp es)) \<and> fresh_id i (fst (foldl step swp es))"
    if "kept cap s0 (fst swp)" "fresh_id i (fst swp)" for swp es
    using that
  proof (induction es arbitrary: swp)
    case (Cons x es)
    show ?case using Cons.IH[of "step swp x"] one[OF Cons.prems, of x] by simp
  qed simp
  from this[of "(s, w, p)"] show ?thesis using assms by (simp add: cleanup_draining_records_def step_def)
qed

lemma discard_replacement_kept:
  assumes "kept cap s0 s"
  shows "kept cap s0 (fst (discard_replacement i (s, w, p)))"
proof (cases "replacement_of s")
  case (Some r)
  then have "bs_active (ms_browser s) \<noteq> Some (ep_id r)" using replacement_ofD[of cap s r] assms by (simp add: kept_def)
  then show ?thesis using discard_kept[OF assms] by (simp add: discard_replacement_def Some)
qed (use assms in \<open>simp add: discard_replacement_def\<close>)

lemma discard_replacement_fresh: "fresh_id j s \<Longrightarrow> fresh_id j (fst (discard_replacement i (s, w, p)))"
  by (simp add: discard_replacement_def discard_fresh split: option.split)

lemma aborted_mild:
  assumes "mild s t" and "kept cap s0 s" and "bs_active (ms_browser s) \<noteq> Some eid"
  shows "kept cap s0 (fst (discard_epoch_record stamp clock eid (t, w, p)))"
  using assms kept_mild[OF assms(2,1)] by (intro discard_kept) (auto simp: mild_def mild_browser_def)

lemma aborted_same [simp]:
  "same_epoch e (end_failed_or_ended (e\<lparr>ep_downshift_abort := x\<rparr>))" "same_epoch e (end_failed_or_ended (e\<lparr>ep_resupply_abort := x\<rparr>))"
  by (simp_all add: same_epoch_def end_failed_or_ended_def)

lemma mild_browser_adaptive: "mild_browser b (b\<lparr>bs_adaptive := a\<rparr>)"
  by (rule mild_plain[where f = "\<lambda>b. b\<lparr>bs_adaptive := a\<rparr>"]) simp_all

lemma mild_set: "mild_browser (ms_browser s) b \<Longrightarrow> mild s (s\<lparr>ms_browser := b\<rparr>)"
  by (simp add: mild_def)

lemma abort_downshift_mild:
  "\<exists>t. mild s t \<and> abort_downshift_replacement stamp clock reason r (s, w, p) = discard_epoch_record stamp clock (ep_id r) (t, w, p)"
proof -
  have "\<exists>a f. (\<forall>e. same_epoch e (f e)) \<and> abort_downshift_replacement stamp clock reason r (s, w, p) = discard_epoch_record stamp clock (ep_id r)
      (s\<lparr>ms_browser := (let b = update_epoch (ep_id r) f ((ms_browser s)\<lparr>bs_adaptive := a\<rparr>) in
         case epoch_of b (bs_active b) of None \<Rightarrow> b
         | Some _ \<Rightarrow> update_epoch (the (bs_active b)) (\<lambda>x. x\<lparr>ep_downshift_abort := Some reason\<rparr>) b)\<rparr>, w, p)"
    unfolding abort_downshift_replacement_def Let_def prod.case
    by (rule exI, rule exI[of _ "\<lambda>x. end_failed_or_ended (x\<lparr>ep_downshift_abort := Some reason\<rparr>)"], rule conjI[OF _ refl]) simp
  then obtain a f where f: "\<And>e. same_epoch e (f e)" and run: "abort_downshift_replacement stamp clock reason r (s, w, p) =
      discard_epoch_record stamp clock (ep_id r)
      (s\<lparr>ms_browser := (let b = update_epoch (ep_id r) f ((ms_browser s)\<lparr>bs_adaptive := a\<rparr>) in
         case epoch_of b (bs_active b) of None \<Rightarrow> b
         | Some _ \<Rightarrow> update_epoch (the (bs_active b)) (\<lambda>x. x\<lparr>ep_downshift_abort := Some reason\<rparr>) b)\<rparr>, w, p)" by blast
  have one: "mild_browser (ms_browser s) (update_epoch (ep_id r) f ((ms_browser s)\<lparr>bs_adaptive := a\<rparr>))"
    by (rule mild_browser_trans[OF mild_browser_adaptive mild_update]) (rule f)
  have two: "mild_browser b (update_epoch k (\<lambda>x. x\<lparr>ep_downshift_abort := Some reason\<rparr>) b)" for b k
    by (rule mild_update) simp
  show ?thesis unfolding run
    by (rule exI, rule conjI[OF _ refl], rule mild_set) (auto simp: Let_def one mild_browser_trans[OF one two] split: option.split)
qed

lemma abort_resupply_mild:
  "\<exists>t. mild s t \<and> abort_resupply_replacement stamp clock reason r (s, w, p) = discard_epoch_record stamp clock (ep_id r) (t, w, p)"
  unfolding abort_resupply_replacement_def Let_def prod.case
  by (rule exI, rule conjI[OF _ refl], rule mild_set, rule mild_browser_trans[OF mild_browser_adaptive], rule mild_update) simp

lemma drop_client: "bs_client_revision (fst (drop_replacement reason (b, w))) = bs_client_revision b"
  by (simp add: drop_replacement_def Let_def split: option.splits)

lemma drop_mode: "bs_engine_mode (fst (drop_replacement reason (b, w))) = bs_engine_mode b"
  by (simp add: drop_replacement_def discard_epoch_def Let_def split: option.splits)

lemma create_name:
  assumes "create_replacement_epoch cap nid stamp clock target reason mutate (s, w) = (r, s', w')"
  shows "same_name s s'"
proof -
  obtain b1 w1 where d: "drop_replacement reason (ms_browser s, w) = (b1, w1)" by fastforce
  have "bs_engine_mode b1 = bs_engine_mode (ms_browser s)" using drop_mode[of reason "ms_browser s" w] by (simp add: d)
  then show ?thesis
    using assms by (cases "cap \<le> bs_replacement_count b1")
      (auto simp: create_replacement_epoch_def d same_name_def is_route2_def Let_def)
qed

lemma create_kept:
  assumes "kept cap s0 s" and "fresh_id i s"
    and "create_replacement_epoch cap i stamp clock target reason mutate (s, w) = (r, s', w')"
  shows "kept cap s0 s' \<and> (if r = None then ms_state s' = ''failed'' else bs_replacement (ms_browser s') = Some i)"
proof -
  have inv: "session_inv cap (ms_browser s)" using assms(1) by (simp add: kept_def)
  note cg = create_good[OF inv assms(2,3)]
  have "bs_client_revision (ms_browser s') = bs_client_revision (ms_browser s)
      \<and> (if r = None then ms_state s' = ''failed'' else bs_replacement (ms_browser s') = Some i)"
    by (rule create_replacement_cases[OF assms(3)]) (use cg in \<open>simp_all add: drop_client\<close>)
  then show ?thesis using kept_good[OF assms(1) _ create_name[OF assms(3)]] cg by simp
qed

lemma issue_name:
  assumes "issue_attach_revision cached clock n reason epoch s = (err, t)"
  shows "same_name s t"
proof (cases "bs_attach_revision (ms_browser s) = max 0 n \<or> \<not> 0 < n")
  case True
  then show ?thesis using assms
    by (auto simp: issue_attach_revision_def Let_def same_name_def is_route2_def split: if_splits)
next
  case False
  obtain x u where g: "guard_full_attach_boundary cached clock epoch True (''issue_attach_revision:'' @ reason) s = (x, u)" by fastforce
  have "t = u \<or> (\<exists>b. t = u\<lparr>ms_browser := b\<rparr> \<and> bs_engine_mode b = bs_engine_mode (ms_browser u))"
    using assms False by (auto simp: issue_attach_revision_def g[simplified] Let_def split: sum.splits bool.splits)
  then show ?thesis using mild_name[OF guard_mild[OF g]] by (auto simp: same_name_def is_route2_def)
qed

lemma issue_inv:
  assumes "issue_attach_revision cached clock n reason epoch s = (err, t)" and "session_inv cap (ms_browser s)"
    and "bs_attach_revision (ms_browser s) \<le> max 0 n"
  shows "session_inv cap (ms_browser t)"
  using issue_wf[OF assms(1) _ assms(3)] issue_same[OF assms(1)] assms(2)
  by (simp add: session_inv_def same_epochs_def candidate_ok_def split: option.splits)

lemma promote_name:
  assumes "promote_replacement_epoch cached clock r (s, w) = (err, s', w')"
  shows "same_name s s'"
proof -
  define n where "n = max 1 (bs_attach_revision (ms_browser s) + 1)"
  obtain b1 w1 where ret: "retire_active clock n (ep_id r) (ms_browser s, w) = (b1, w1)" by fastforce
  define s1 where "s1 = s\<lparr>ms_browser := b1\<lparr>bs_active := Some (ep_id r), bs_replacement := None,
      bs_audio := commit_audio_switch (epoch_of (ms_browser s) (bs_active (ms_browser s))) r (bs_audio b1)\<rparr>\<rparr>"
  obtain e2 s2 where iss: "issue_attach_revision cached clock n ''replacement_promotion'' (Some r) s1 = (e2, s2)" by fastforce
  have "bs_engine_mode b1 = bs_engine_mode (ms_browser s)"
    using retire_active_mode(1)[of clock n "ep_id r" "ms_browser s" w] by (simp add: ret)
  then have "same_name s s2"
    using issue_name[OF iss] by (simp add: s1_def same_name_def is_route2_def)
  moreover have "promote_replacement_epoch cached clock r (s, w) = (case e2 of Some x \<Rightarrow> (Some x, s2, w1)
      | None \<Rightarrow> (None, s2\<lparr>ms_target := ep_attach r, ms_pending_target := Some (ep_attach r), ms_last_error := None\<rparr>, w1))"
    by (simp only: promote_replacement_epoch_def Let_def prod.case n_def[symmetric] ret s1_def[symmetric] iss)
  ultimately show ?thesis using assms by (auto simp: same_name_def is_route2_def split: option.splits)
qed

lemma promote_moved:
  assumes "kept cap s0 s" and "replacement_of s = Some r" and "promote_replacement i r (s, w, p) = (ans, s', w', p')"
  shows "moved cap s0 s'"
proof -
  have inv: "session_inv cap (ms_browser s)" using assms(1) by (simp add: kept_def)
  note rep = replacement_ofD[OF inv assms(2)]
  obtain a where a: "bs_active (ms_browser s) = Some a" using inv by (auto simp: session_inv_def)
  obtain err t v where run: "promote_replacement_epoch (ri_cached i) (ri_clock i) r (s, w) = (err, t, v)" by (metis prod_cases3)
  have "s' = t \<or> s' = rebuild_active i t"
    using assms(3) by (auto simp: promote_replacement_def run Let_def split: option.splits)
  moreover have "mild t (rebuild_active i t)" by (simp add: rebuild_active_def mild_steps)
  moreover have "moved cap s0 t"
  proof -
    have wf: "epochs_wf (ms_browser s)" using inv by (simp add: session_inv_def)
    have "good_step cap (ms_browser s) (ms_browser t)" using promote_good[OF inv _ _ run] rep by blast
    then have "session_inv cap (ms_browser t)" by (simp add: good_step_def)
    moreover have "same_name s0 t" using same_name_trans[OF _ promote_name[OF run]] assms(1) by (simp add: kept_def)
    moreover have "bs_replacement (ms_browser t) = None" "\<exists>e. dict_get (bs_epochs (ms_browser t)) a = Some e"
      "bs_attach_revision (ms_browser t) \<in> {bs_attach_revision (ms_browser s), bs_attach_revision (ms_browser s) + 1}"
      "bs_client_revision (ms_browser t) = bs_client_revision (ms_browser s)"
      using promote_facts[OF run wf _ a] rep by blast+
    moreover have "bs_active (ms_browser s0) = Some a" using assms(1) a by (simp add: kept_def)
    ultimately show ?thesis using assms(1) by (auto simp: moved_def kept_def)
  qed
  ultimately show ?thesis using moved_mild by metis
qed

lemma finalize_record_same: "finalize_worker_record stamp clock state failed remove s (e, p) = (e', q) \<Longrightarrow> same_epoch e e'"
  by (auto simp: finalize_worker_record_def ensure_worker_record_def same_epoch_def Let_def split: if_splits)

lemma terminate_record_same:
  assumes "terminate_epoch_record stamp clock state remove s (e, w, p) = (e', w', p')"
  shows "same_epoch e e'"
proof -
  obtain e1 p1 where one: "finalize_worker_record stamp clock ''stopping'' False False s (e, p) = (e1, p1)" by fastforce
  obtain e2 w2 where two: "terminate_epoch w e1 = (e2, w2)" by fastforce
  obtain e3 p3 where three: "finalize_worker_record stamp clock state False remove s (e2\<lparr>ep_worker := ep_worker e\<rparr>, p1) = (e3, p3)"
    by fastforce
  have "same_epoch e e2"
    using finalize_record_same[OF one] two by (auto simp: terminate_epoch_def same_epoch_def)
  moreover have "e' = e3\<lparr>ep_worker := None\<rparr> \<or> e' = e2\<lparr>ep_worker := None\<rparr>"
    using assms by (auto simp: terminate_epoch_record_def one two three Let_def split: if_splits)
  ultimately show ?thesis using finalize_record_same[OF three] by (auto simp: same_epoch_def)
qed

text \<open>The switch of a downshift or a resupply.\<close>

lemma switch_moved:
  assumes "kept cap s0 s" and "replacement_of s = Some r" and "ep_replacement_reason r \<noteq> Some ''audio_track_switch''"
    and "switch_epochs i reason r (s, w, p) = (ans, s', w', p')"
  shows "moved cap s0 s'"
proof -
  have inv: "session_inv cap (ms_browser s)" using assms(1) by (simp add: kept_def)
  note rep = replacement_ofD[OF inv assms(2)]
  obtain a where a: "bs_active (ms_browser s) = Some a" using inv by (auto simp: session_inv_def)
  define t where "t = on_replacement (\<lambda>e. e\<lparr>ep_state := ''attach_ready''\<rparr>) s"
  define s1 where "s1 = on_browser (\<lambda>b. b\<lparr>bs_active := Some (ep_id r), bs_replacement := None\<rparr>) t"
  have mild: "mild s t" by (simp add: t_def mild_steps)
  then have t: "kept cap s0 t" by (rule kept_mild[OF assms(1)])
  have same: "bs_replacement (ms_browser t) = Some (ep_id r)" "bs_active (ms_browser t) = Some a"
    using mild rep a by (simp_all add: mild_def mild_browser_def)
  have in_t: "dict_get (bs_epochs (ms_browser t)) (ep_id r) \<noteq> None" "dict_get (bs_epochs (ms_browser t)) a \<noteq> None"
    using t same by (auto simp: kept_def session_inv_def epochs_wf_def)
  have reason: "\<not> audio_reason (dict_get (bs_epochs (ms_browser t)) (ep_id r))"
  proof -
    have "rel_option same_epoch (dict_get (bs_epochs (ms_browser s)) (ep_id r)) (dict_get (bs_epochs (ms_browser t)) (ep_id r))"
      using mild by (simp add: mild_def mild_browser_def)
    then show ?thesis using rep assms(3) by (auto simp: audio_reason_def same_epoch_def elim: option.rel_cases)
  qed
  have "epochs_wf (ms_browser s1)"
    using t in_t by (simp add: s1_def on_browser_def kept_def session_inv_def epochs_wf_def)
  moreover have "candidate_ok (ms_browser s1)"
    using t reason by (auto simp: s1_def on_browser_def candidate_ok_def kept_def session_inv_def split: option.splits)
  ultimately have inv1: "session_inv cap (ms_browser s1)"
    using t by (simp add: s1_def on_browser_def kept_def session_inv_def)
  define n where "n = max 1 (bs_attach_revision (ms_browser s) + 1)"
  have rev: "bs_attach_revision (ms_browser s1) = bs_attach_revision (ms_browser s0)" "n = bs_attach_revision (ms_browser s0) + 1" "0 < n"
    using t assms(1) inv by (simp_all add: s1_def on_browser_def kept_def n_def session_inv_def epochs_wf_def)
  obtain err s2 where iss: "issue_attach_revision (ri_cached i) (ri_clock i) n reason (Some r) s1 = (err, s2)" by fastforce
  have "moved cap s0 s2"
  proof -
    have "session_inv cap (ms_browser s2)" using issue_inv[OF iss inv1] rev by simp
    moreover have "same_name s0 s2"
      using issue_name[OF iss] t by (auto simp: kept_def s1_def on_browser_def same_name_def is_route2_def)
    moreover have "bs_active (ms_browser s0) = Some a" using t same by (simp add: kept_def)
    ultimately show ?thesis
      using issue_same[OF iss] rev t in_t(2)
      by (auto simp: moved_def same_epochs_def kept_def s1_def on_browser_def)
  qed
  moreover have "mild s2 s'"
  proof (cases "err \<noteq> None \<or> epoch_of (ms_browser s2) (Some a) = None")
    case True
    then have "s' = s2"
      using assms(4) by (auto simp: switch_epochs_def Let_def t_def[symmetric] s1_def[symmetric] n_def[symmetric] iss a split: option.splits)
    then show ?thesis by simp
  next
    case False
    then obtain e where e: "epoch_of (ms_browser s2) (Some a) = Some e" by auto
    obtain e' w2 p2 where ter: "terminate_epoch_record (ri_stamp i) (ri_clock i) ''stopped'' False s2
        (mark_draining (ri_clock i) (Some (bs_attach_revision (ms_browser s2))) e, w, p) = (e', w2, p2)" by (metis prod_cases3)
    have "s' = on_browser (update_epoch a (\<lambda>_. e')) s2"
      using assms(4) False
      by (simp add: switch_epochs_def Let_def t_def[symmetric] s1_def[symmetric] n_def[symmetric] iss a e ter on_epoch_def)
    moreover have "same_epoch e e'"
      using same_epoch_trans[OF _ terminate_record_same[OF ter]] by simp
    ultimately show ?thesis using epoch_ofD[OF e] by (auto intro!: mild_on_browser mild_update)
  qed
  ultimately show ?thesis by (rule moved_mild)
qed

section \<open>The sections of the refresh\<close>

text \<open>A section keeps what it should however it answers, and when the refresh goes on another epoch can be created.\<close>

definition section_ok :: "int \<Rightarrow> string \<Rightarrow> mobile_session \<Rightarrow> refresh_answer \<times> refresh_state \<Rightarrow> bool" where
  "section_ok cap j s0 x \<longleftrightarrow> kept cap s0 (fst (snd x)) \<and> (fst x = Goes_On \<longrightarrow> creatable j (fst (snd x)))"

lemma section_okI: "kept cap s0 s \<Longrightarrow> (a = Goes_On \<Longrightarrow> creatable j s) \<Longrightarrow> section_ok cap j s0 (a, s, w, p)"
  by (simp add: section_ok_def)

lemma begin_ok:
  assumes "kept cap s0 s" and "fresh_id j s"
  shows "section_ok cap j s0 (begin_refresh i (s, w, p))"
    and "fst (begin_refresh i (s, w, p)) = Goes_On \<Longrightarrow> fresh_id j (fst (snd (begin_refresh i (s, w, p))))"
proof -
  define s1 where "s1 = fst (ensure_full_preflight (ri_cached i) (ri_clock i) s)"
  have s1: "kept cap s0 s1" "fresh_id j s1"
    using preflight_mild[of s "ri_cached i" "ri_clock i"] kept_mild[OF assms(1)] fresh_mild[OF assms(2)] by (simp_all add: s1_def)
  obtain t v q where c: "cleanup_draining_records (ri_stamp i) (ri_clock i) (s1, w, p) = (t, v, q)" by (metis prod_cases3)
  have t: "kept cap s0 t" "fresh_id j t"
    using cleanup_kept[OF s1, where stamp = "ri_stamp i" and now = "ri_clock i" and w = w and p = p] by (simp_all add: c)
  have m: "mild t (fail_session e t)" "mild t (on_replacement (observe_epoch i t) (on_active (observe_epoch i t) t))" for e
    by (simp_all add: mild_steps)
  show "section_ok cap j s0 (begin_refresh i (s, w, p))"
    "fst (begin_refresh i (s, w, p)) = Goes_On \<Longrightarrow> fresh_id j (fst (snd (begin_refresh i (s, w, p))))"
    using kept_mild[OF t(1) m(1)] kept_mild[OF t(1) m(2)] fresh_mild[OF t(2) m(2)]
    by (auto simp: begin_refresh_def Let_def s1_def[symmetric] c creatable_def intro!: section_okI split: option.split)
qed

lemma lost_ok:
  assumes "kept cap s0 s" and "fresh_id j s"
  shows "kept cap s0 (fst (snd (replacement_lost i r (s, w, p)))) \<and> fresh_id j (fst (snd (replacement_lost i r (s, w, p))))"
proof -
  define s1 where "s1 = on_browser (\<lambda>b. b\<lparr>bs_retry_not_before := ri_clock i + ROUTE2_REPLACEMENT_RETRY_BACKOFF_SECONDS\<rparr>) s"
  have "mild s s1" by (simp add: s1_def mild_steps)
  then have s1: "kept cap s0 s1" "fresh_id j s1" using kept_mild[OF assms(1)] fresh_mild[OF assms(2)] by blast+
  obtain t v q where d: "discard_replacement i (s1, w, p) = (t, v, q)" by (metis prod_cases3)
  have t: "kept cap s0 t" "fresh_id j t"
    using discard_replacement_kept[OF s1(1), where i = i and w = w and p = p] discard_replacement_fresh[OF s1(2), where i = i and w = w and p = p]
    by (simp_all add: d)
  have "mild t (fst (snd (replacement_lost i r (s, w, p))))"
    by (auto simp: replacement_lost_def Let_def s1_def[symmetric] d split: option.splits prod.splits sum.splits bool.splits
        intro!: mild_steps dest: startup_mild(1))
  then show ?thesis using kept_mild[OF t(1)] fresh_mild[OF t(2)] by blast
qed

lemma replacement_failed_ok:
  assumes "kept cap s0 s" and "fresh_id j s"
  shows "kept cap s0 (fst (snd (replacement_failed i (s, w, p)))) \<and> fresh_id j (fst (snd (replacement_failed i (s, w, p))))"
proof (cases "replacement_of s")
  case None
  then show ?thesis using assms by (simp add: replacement_failed_def)
next
  case (Some r)
  have act: "bs_active (ms_browser s) \<noteq> Some (ep_id r)" using replacement_ofD[of cap s r] Some assms(1) by (simp add: kept_def)
  define u where "u = on_audio (fail_audio_switch r (Some (or_string (ep_last_error r) ''Could not prepare the selected audio track''))) s"
  have u: "mild s u" by (simp add: u_def mild_fail_audio)
  obtain t1 where t1: "mild s t1" "abort_downshift_replacement (ri_stamp i) (ri_clock i) ''replacement_failed'' r (s, w, p)
      = discard_epoch_record (ri_stamp i) (ri_clock i) (ep_id r) (t1, w, p)" using abort_downshift_mild by blast
  obtain t2 where t2: "mild s t2" "abort_resupply_replacement (ri_stamp i) (ri_clock i) ''replacement_failed'' r (s, w, p)
      = discard_epoch_record (ri_stamp i) (ri_clock i) (ep_id r) (t2, w, p)" using abort_resupply_mild by blast
  obtain t3 v3 q3 where d: "discard_replacement i (s, w, p) = (t3, v3, q3)" by (metis prod_cases3)
  have t3: "kept cap s0 t3" "fresh_id j t3"
    using discard_replacement_kept[OF assms(1), where i = i and w = w and p = p] discard_replacement_fresh[OF assms(2), where i = i and w = w and p = p]
    by (simp_all add: d)
  have m3: "mild t3 (fail_session e t3)" for e by (simp add: mild_steps)
  have a: "kept cap s0 (fst (discard_replacement i (u, w, p))) \<and> fresh_id j (fst (discard_replacement i (u, w, p)))"
    using discard_replacement_kept[OF kept_mild[OF assms(1) u]] discard_replacement_fresh[OF fresh_mild[OF assms(2) u]] by blast
  have b: "kept cap s0 (fst (discard_epoch_record (ri_stamp i) (ri_clock i) (ep_id r) (t, w, p)))
      \<and> fresh_id j (fst (discard_epoch_record (ri_stamp i) (ri_clock i) (ep_id r) (t, w, p)))" if "mild s t" for t
    using aborted_mild[OF that assms(1) act] discard_fresh[OF fresh_mild[OF assms(2) that]] by blast
  have c: "kept cap s0 (fail_session e t3) \<and> fresh_id j (fail_session e t3)" for e
    using kept_mild[OF t3(1) m3] fresh_mild[OF t3(2) m3] by blast
  show ?thesis
    using a b[OF t1(1)] b[OF t2(1)] c lost_ok[OF assms] assms
    by (simp add: replacement_failed_def Some t1(2) t2(2) d u_def[symmetric])
qed

lemma create_replacement_ok:
  assumes "kept (ri_cap i) s0 s" and "fresh_id (ri_epoch_id i) s" and "create_replacement i target reason (s, w, p) = (r, t, v, q)"
  shows "kept (ri_cap i) s0 t \<and> (if r = None then ms_state t = ''failed'' else creatable (ri_epoch_id i) t)"
proof -
  obtain r1 t1 v1 where run: "create_replacement_epoch (ri_cap i) (ri_epoch_id i) (ri_stamp i) (ri_clock i) target reason True (s, w) = (r1, t1, v1)"
    by (metis prod_cases3)
  then have "r = r1" "t = t1" using assms(3) by (auto simp: create_replacement_def Let_def)
  then show ?thesis using create_kept[OF assms(1,2) run] by (auto simp: creatable_def split: if_splits)
qed

lemma replace_active_ok:
  assumes "kept (ri_cap i) s0 s" and "fresh_id (ri_epoch_id i) s"
  shows "section_ok (ri_cap i) (ri_epoch_id i) s0 (replace_active i reason a (s, w, p))"
proof -
  obtain r t v q where run: "create_replacement i (recovery_target s (Some a)) reason (s, w, p) = (r, t, v, q)" by (metis prod_cases4)
  show ?thesis
    using create_replacement_ok[OF assms run]
    by (auto simp: replace_active_def run section_ok_def split: if_splits)
qed

lemma fresh_creatable: "fresh_id j s \<Longrightarrow> creatable j s" by (simp add: creatable_def)

lemma creatable_fresh:
  "creatable j s \<Longrightarrow> kept cap s0 s \<Longrightarrow> replacement_of s = None \<Longrightarrow> fresh_id j s"
  using replacement_none[of cap s] by (simp add: creatable_def kept_def)

lemma active_failed_ok:
  assumes "kept (ri_cap i) s0 s" and "creatable (ri_epoch_id i) s"
  shows "section_ok (ri_cap i) (ri_epoch_id i) s0 (active_failed i (s, w, p))"
proof -
  define t where "t = on_active (mark_draining (ri_clock i) None) s"
  have m: "mild s t" by (simp add: t_def mild_steps)
  have t: "kept (ri_cap i) s0 t" "creatable (ri_epoch_id i) t"
    using kept_mild[OF assms(1) m] creatable_mild[OF assms(2) m] .
  have go: "section_ok (ri_cap i) (ri_epoch_id i) s0 (and_go x (\<lambda>(s, w, p). (Goes_On, in_state y s, w, p)))"
    if "section_ok (ri_cap i) (ri_epoch_id i) s0 x" for x y
  proof -
    obtain a u v q where x: "x = (a, u, v, q)" by (metis prod_cases4)
    have "mild u (in_state y u)" by (simp add: mild_steps)
    then show ?thesis using that kept_mild creatable_mild
      by (cases a) (auto simp: x and_go_def section_ok_def)
  qed
  have new: "section_ok (ri_cap i) (ri_epoch_id i) s0 (replace_active i reason a (t, w, p))" if "replacement_of t = None" for reason a
    by (rule replace_active_ok[OF t(1) creatable_fresh[OF t(2,1) that]])
  have stay: "section_ok (ri_cap i) (ri_epoch_id i) s0 (Goes_On, t, w, p)" "section_ok (ri_cap i) (ri_epoch_id i) s0 (Goes_On, s, w, p)"
    using t assms by (simp_all add: section_ok_def)
  have fail: "section_ok (ri_cap i) (ri_epoch_id i) s0 (Settled, fail_session e t, w, p)" for e
    using kept_mild[OF t(1)] by (auto simp: section_ok_def intro!: mild_steps)
  show ?thesis
    using stay fail new
    by (auto simp: active_failed_def Let_def t_def[symmetric] intro!: go split: option.split)
qed

lemma draining_retried_ok:
  assumes "kept (ri_cap i) s0 s" and "creatable (ri_epoch_id i) s"
  shows "section_ok (ri_cap i) (ri_epoch_id i) s0 (draining_retried i (s, w, p))"
proof -
  have "fresh_id (ri_epoch_id i) s" if "replacement_of s = None"
    by (rule creatable_fresh[OF assms(2,1) that])
  moreover have "kept (ri_cap i) s0 (fail_session e s)" for e using kept_mild[OF assms(1)] by (simp add: mild_steps)
  ultimately show ?thesis
    using assms replace_active_ok[OF assms(1)]
    by (auto simp: draining_retried_def Let_def section_ok_def split: option.split)
qed

lemma maintenance_epoch_kept:
  assumes "kept cap s0 s" and "fresh_id (ri_epoch_id i) s" and "bs_replacement (ms_browser s) = None"
    and "\<And>e. ep_id (f e) = ep_id e"
  shows "kept cap s0 (maintenance_epoch i f a s)"
proof -
  define e where "e = ensure_workspace (ri_stamp i) (ri_clock i) (f (build_epoch (ri_epoch_id i) (ri_stamp i) (ri_clock i) (Some (effective_playhead s a)) s))"
  let ?b = "(ms_browser s)\<lparr>bs_replacement := Some (ri_epoch_id i), bs_epochs := dict_set (bs_epochs (ms_browser s)) (ri_epoch_id i) e\<rparr>"
  have run: "maintenance_epoch i f a s = s\<lparr>ms_browser := ?b\<rparr>"
    by (simp add: maintenance_epoch_def Let_def on_browser_def e_def)
  have inv: "session_inv cap (ms_browser s)" using assms(1) by (simp add: kept_def)
  have id: "ep_id e = ri_epoch_id i" by (simp add: e_def assms(4))
  have "epochs_wf ?b"
    using inv assms(2,3) id set_dict_set[of "bs_epochs (ms_browser s)" "ri_epoch_id i" e]
    by (auto simp: session_inv_def epochs_wf_def fresh_id_def)
  moreover have "candidate_ok ?b"
    using inv assms(2) by (auto simp: session_inv_def candidate_ok_def fresh_id_def split: option.splits)
  ultimately have "session_inv cap ?b" using inv by (simp add: session_inv_def)
  then show ?thesis unfolding run using assms(1) by (simp add: kept_def same_name_def is_route2_def)
qed

lemma no_replacement: "kept cap s0 s \<Longrightarrow> \<not> truthy_string (bs_replacement (ms_browser s)) \<Longrightarrow> bs_replacement (ms_browser s) = None"
  using replacement_none[of cap s] by (simp add: kept_def replacement_of_def epoch_of_def)

lemma start_resupply_ok:
  assumes "kept cap s0 s" and "fresh_id (ri_epoch_id i) s" and "start_resupply i a (s, w, p) = (t, v, q)"
  shows "kept cap s0 t \<and> (bs_replacement (ms_browser t) = None \<longrightarrow> t = s)"
proof (cases "truthy_string (bs_replacement (ms_browser s)) \<or> record_of a p = None \<or> mt_resupply (ri_maintenance i) s p a = None")
  case True
  then have "t = s" using assms(3) by (auto simp: start_resupply_def split: if_splits)
  then show ?thesis using assms(1) by simp
next
  case False
  then obtain n rec where n: "mt_resupply (ri_maintenance i) s p a = Some n" and rec: "record_of a p = Some rec" by auto
  define f :: "playback_epoch \<Rightarrow> playback_epoch" where "f = (\<lambda>e. e\<lparr>ep_replacement_reason := Some ''adaptive_resupply_boost'',
      ep_resupply_target := Some (max (ri_min_threads i) n), ep_resupply_abort := None\<rparr>)"
  define s2 where "s2 = on_adaptive (\<lambda>d. d\<lparr>ad_resupply_abort := None, ad_resupply_state := ''boost_replacement_warming'',
      ad_priority_reexpand := True, ad_donor_protection := True\<rparr>) (maintenance_epoch i f a s)"
  have "kept cap s0 (maintenance_epoch i f a s)"
    by (rule maintenance_epoch_kept[OF assms(1,2) no_replacement[OF assms(1)]]) (use False in \<open>simp_all add: f_def\<close>)
  then have s2: "kept cap s0 s2" unfolding s2_def by (rule kept_mild) (simp add: mild_steps)
  obtain s3 p3 where e: "ensure_epoch_workers (ri_worker_ids i 0) (ri_worker_ids i 1) (ri_stamp i) (ri_clock i) (s2, p) = (s3, p3)" by fastforce
  have "t = s3" using assms(3) False by (simp add: start_resupply_def n rec Let_def f_def[symmetric] s2_def[symmetric] e del: One_nat_def)
  moreover have "bs_replacement (ms_browser s2) = Some (ri_epoch_id i)"
    by (simp add: s2_def on_adaptive_def on_browser_def maintenance_epoch_def Let_def)
  ultimately show ?thesis
    using ensure_workers_mild[OF e] kept_mild[OF s2] by (simp add: mild_def mild_browser_def)
qed

lemma start_downshift_ok:
  assumes "kept cap s0 s" and "creatable (ri_epoch_id i) s" and "start_downshift i a (s, w, p) = (t, v, q)"
  shows "kept cap s0 t"
proof -
  let ?d = "bs_adaptive (ms_browser s)"
  have abort: "mild s' (on_active (\<lambda>e. e\<lparr>ep_downshift_abort := x\<rparr>) s')" and ad: "mild s' (on_adaptive g s')" for s' x g
    by (simp_all add: mild_steps)
  have keep: "kept cap s0 (on_active (\<lambda>e. e\<lparr>ep_downshift_abort := x\<rparr>) u)" "kept cap s0 (on_adaptive g u)" if "kept cap s0 u" for u x g
    using kept_mild[OF that abort] kept_mild[OF that ad] .
  show ?thesis
  proof (cases "ad_priority_reexpand ?d \<or> truthy_string (bs_replacement (ms_browser s)) \<or> record_of a p = None
      \<or> mt_downshift (ri_maintenance i) s p a = None")
    case True
    then have "t = s" using assms(3) by (auto simp: start_downshift_def Let_def split: if_splits)
    then show ?thesis using assms(1) by simp
  next
    case open_way: False
    then obtain n reclaim rec where some: "mt_downshift (ri_maintenance i) s p a = Some (n, reclaim)" "record_of a p = Some rec" by auto
    define u where "u = (case reclaim of Some (_, user, media) \<Rightarrow> on_adaptive (reclaim_started user media) s | None \<Rightarrow> s)"
    have m: "mild s u" by (auto simp: u_def ad split: option.split)
    have u: "kept cap s0 u" by (rule kept_mild[OF assms(1) m])
    define f :: "playback_epoch \<Rightarrow> playback_epoch" where "f = (\<lambda>e. e\<lparr>ep_replacement_reason := Some ''maintenance_downshift'',
        ep_maintenance_target := Some (max (ri_min_threads i) n), ep_reclaim_request := map_option fst reclaim\<rparr>)"
    have none: "bs_replacement (ms_browser u) = None"
      using no_replacement[OF assms(1)] open_way m by (simp add: mild_def mild_browser_def)
    have "creatable (ri_epoch_id i) u" by (rule creatable_mild[OF assms(2) m])
    then have new: "kept cap s0 (maintenance_epoch i f a u)"
      by (intro maintenance_epoch_kept[OF u _ none]) (use none in \<open>simp_all add: f_def creatable_def\<close>)
    show ?thesis
      using assms(3) open_way keep[OF u] keep(1)[OF keep(2)[OF u]] keep(2)[OF keep(1)[OF new]]
      by (simp add: start_downshift_def some f_def[symmetric] u_def[symmetric] Let_def split: if_splits) blast+
  qed
qed

lemma start_maintenance_ok:
  assumes "kept cap s0 s" and "creatable (ri_epoch_id i) s"
  shows "kept cap s0 (fst (snd (start_maintenance i (s, w, p))))"
proof (cases "active_of s")
  case None
  then show ?thesis using assms by (simp add: start_maintenance_def)
next
  case (Some a)
  show ?thesis
  proof (cases "ep_state a \<in> {''failed'', ''draining'', ''ended''} \<or> replacement_of s \<noteq> None")
    case True
    then show ?thesis using assms(1) by (simp add: start_maintenance_def Some)
  next
    case False
    obtain s1 w1 p1 where r: "start_resupply i a (s, w, p) = (s1, w1, p1)" by (metis prod_cases3)
    obtain s2 w2 p2 where d: "start_downshift i a (s1, w1, p1) = (s2, w2, p2)" by (metis prod_cases3)
    have s1: "kept cap s0 s1" "bs_replacement (ms_browser s1) = None \<longrightarrow> s1 = s"
      using start_resupply_ok[OF assms(1) creatable_fresh[OF assms(2,1)] r] False by simp_all
    have "creatable (ri_epoch_id i) s1" using s1(2) assms(2) by (auto simp: creatable_def)
    then have "kept cap s0 s2" by (rule start_downshift_ok[OF s1(1) _ d])
    then show ?thesis using s1(1) False by (simp add: start_maintenance_def Some r d Let_def)
  qed
qed

text \<open>From here on no epoch is created; the switch, when there is one, is the last step that changes which epoch is active.\<close>

lemma promote_downshift_ok:
  assumes "kept cap s0 s" and "replacement_of s = Some r" and "ep_replacement_reason r \<noteq> Some ''audio_track_switch''"
  shows "steady cap s0 (fst (snd (promote_downshift i r (s, w, p))))"
proof (cases "\<not> truthy_string (ep_reclaim_request r) \<and> would_interrupt_client s")
  case True
  have "mild s (on_replacement (\<lambda>e. e\<lparr>ep_state := ''attach_ready''\<rparr>) s)" by (simp add: mild_steps)
  then show ?thesis using kept_mild[OF assms(1)] True by (simp add: promote_downshift_def steady_def)
next
  case False
  define u where "u = on_adaptive (\<lambda>d. d\<lparr>ad_downshift_retry_not_before := 0, ad_downshift_retry_blocker := None\<rparr>) s"
  have m: "mild s u" by (simp add: u_def mild_steps)
  have rep: "replacement_of u = Some r"
    using assms(2) by (simp add: u_def on_adaptive_def on_browser_def replacement_of_def epoch_of_def split: if_splits)
  obtain a t v q where sw: "switch_epochs i ''maintenance_downshift_ready'' r (u, w, p) = (a, t, v, q)" by (metis prod_cases4)
  have t: "moved cap s0 t" by (rule switch_moved[OF kept_mild[OF assms(1) m] rep assms(3) sw])
  have "mild t (rebuild_active i (if c then on_adaptive g t else t))" for c g
    by (simp add: rebuild_active_def mild_steps)
  then have "moved cap s0 (rebuild_active i (if c then on_adaptive g t else t))" for c g using moved_mild[OF t] by blast
  then show ?thesis using t False
    by (cases a) (auto simp: promote_downshift_def u_def[symmetric] sw and_go_def steady_def)
qed

lemma promote_resupply_ok:
  assumes "kept cap s0 s" and "replacement_of s = Some r" and "ep_replacement_reason r \<noteq> Some ''audio_track_switch''"
  shows "steady cap s0 (fst (snd (promote_resupply i r (s, w, p))))"
proof -
  obtain a t v q where sw: "switch_epochs i ''adaptive_resupply_ready'' r (s, w, p) = (a, t, v, q)" by (metis prod_cases4)
  have t: "moved cap s0 t" by (rule switch_moved[OF assms sw])
  have "mild t (rebuild_active i (on_adaptive g t))" for g by (simp add: rebuild_active_def mild_steps)
  then have "moved cap s0 (rebuild_active i (on_adaptive g t))" for g using moved_mild[OF t] by blast
  then show ?thesis using t by (cases a) (simp_all add: promote_resupply_def sw and_go_def steady_def)
qed

lemma moved_no_replacement: "moved cap s0 s \<Longrightarrow> replacement_of s = None"
  by (simp add: moved_def replacement_of_def epoch_of_def truthy_string_def)

lemma maintenance_section_ok:
  assumes "steady cap s0 s" and "reason \<noteq> ''audio_track_switch''"
    and switch: "\<And>s r w p. kept cap s0 s \<Longrightarrow> replacement_of s = Some r \<Longrightarrow> ep_replacement_reason r \<noteq> Some ''audio_track_switch''
      \<Longrightarrow> steady cap s0 (fst (snd (switch r (s, w, p))))"
    and abort: "\<And>why r s w p. \<exists>t. mild s t \<and> abort why r (s, w, p) = discard_epoch_record (ri_stamp i) (ri_clock i) (ep_id r) (t, w, p)"
  shows "steady cap s0 (fst (snd (maintenance_section i reason abort switch (s, w, p))))"
proof (cases "replacement_of s")
  case None
  then show ?thesis using assms(1) by (simp add: maintenance_section_def)
next
  case (Some r)
  then have s: "kept cap s0 s" using assms(1) moved_no_replacement by (auto simp: steady_def)
  have act: "bs_active (ms_browser s) \<noteq> Some (ep_id r)" using replacement_ofD[of cap s r] Some s by (simp add: kept_def)
  show ?thesis
  proof (cases "ep_replacement_reason r = Some reason")
    case False
    then show ?thesis using assms(1) by (simp add: maintenance_section_def Some)
  next
    case reason: True
    let ?kind = "if reason = ''maintenance_downshift'' then ''downshift'' else ''resupply''"
    let ?path = "if reason = ''maintenance_downshift'' then ''maintenance_downshift_ready_check'' else ''adaptive_resupply_ready_check''"
    show ?thesis
    proof (cases "maintenance_abort_reason i ?kind s p r")
      case why: (Some why)
      obtain t where t: "mild s t" "abort why r (s, w, p) = discard_epoch_record (ri_stamp i) (ri_clock i) (ep_id r) (t, w, p)"
        using abort by blast
      have "kept cap s0 (fst (abort why r (s, w, p)))" unfolding t(2) by (rule aborted_mild[OF t(1) s act])
      then show ?thesis using reason why by (simp add: maintenance_section_def Some steady_def)
    next
      case None
      obtain x u where ready: "maintenance_ready i ?path s r = (x, u)" by fastforce
      have u: "kept cap s0 u" using kept_mild[OF s] maintenance_ready_mild[OF ready] by blast
      have wait: "kept cap s0 (on_replacement keep_waiting u)" by (rule kept_mild[OF u]) (simp add: mild_steps)
      have sw: "steady cap s0 (fst (snd (switch r (u, w, p))))" if "x = Inr True"
      proof (rule switch[OF u])
        show "ep_replacement_reason r \<noteq> Some ''audio_track_switch''" using reason assms(2) by simp
        show "replacement_of u = Some r" using same_revision_epochs(1) maintenance_ready_mild[OF ready] Some by metis
      qed
      show ?thesis using reason None u wait sw
        by (auto simp: maintenance_section_def Some ready steady_def split: sum.split bool.split)
    qed
  qed
qed

lemma cancel_fields:
  "bs_active (fst (cancel_audio_candidate reason failed (b, w))) = bs_active b"
  "bs_attach_revision (fst (cancel_audio_candidate reason failed (b, w))) = bs_attach_revision b"
  "bs_client_revision (fst (cancel_audio_candidate reason failed (b, w))) = bs_client_revision b"
  "bs_engine_mode (fst (cancel_audio_candidate reason failed (b, w))) = bs_engine_mode b"
  by (simp_all add: cancel_audio_candidate_def discard_epoch_def Let_def split: option.split prod.split)

lemma cancel_candidate_ok:
  assumes "kept cap s0 s"
  shows "kept cap s0 (fst (cancel_candidate i reason failed (s, w, p)))"
proof -
  obtain b v where c: "cancel_audio_candidate reason failed (ms_browser s, w) = (b, v)" by fastforce
  have inv: "session_inv cap (ms_browser s)" using assms by (simp add: kept_def)
  have good: "good_step cap (ms_browser s) b" using cancel_good[OF inv, of reason failed w] by (simp add: c)
  have "fst (cancel_candidate i reason failed (s, w, p)) = s\<lparr>ms_browser := b\<rparr>"
    by (simp add: cancel_candidate_def Let_def c)
  moreover have "kept cap s0 (s\<lparr>ms_browser := b\<rparr>)"
    using good cancel_fields[of reason failed "ms_browser s" w]
    by (intro kept_good[OF assms]) (simp_all add: c same_name_def is_route2_def)
  ultimately show ?thesis by simp
qed

lemma candidate_ready_ok:
  assumes "kept cap s0 s" and "replacement_of s = Some r" and "ep_replacement_reason r = Some ''audio_track_switch''"
  shows "kept cap s0 (candidate_ready clock r s)"
proof -
  define t where "t = on_replacement (\<lambda>e. e\<lparr>ep_state := ''attach_ready''\<rparr>) s"
  obtain a where run: "candidate_ready clock r s = t\<lparr>ms_browser := (ms_browser t)\<lparr>bs_audio := a\<rparr>\<rparr>"
    and cand: "as_candidate_epoch a = Some (ep_id r)"
    by (simp add: candidate_ready_def on_audio_def on_browser_def t_def)
  have mild: "mild s t" by (simp add: t_def mild_steps)
  have t: "kept cap s0 t" by (rule kept_mild[OF assms(1) mild])
  have rep: "dict_get (bs_epochs (ms_browser s)) (ep_id r) = Some r" "bs_active (ms_browser s) \<noteq> Some (ep_id r)"
    using replacement_ofD[OF _ assms(2), of cap] assms(1) by (simp_all add: kept_def)
  have "rel_option same_epoch (dict_get (bs_epochs (ms_browser s)) (ep_id r)) (dict_get (bs_epochs (ms_browser t)) (ep_id r))"
    using mild by (simp add: mild_def mild_browser_def)
  then have "audio_reason (dict_get (bs_epochs (ms_browser t)) (ep_id r))"
    using rep assms(3) by (auto simp: audio_reason_def same_epoch_def elim: option.rel_cases)
  moreover have "bs_active (ms_browser t) \<noteq> Some (ep_id r)" using rep mild by (simp add: mild_def mild_browser_def)
  ultimately have "session_inv cap ((ms_browser t)\<lparr>bs_audio := a\<rparr>)"
    using t cand by (auto simp: kept_def session_inv_def epochs_wf_def candidate_ok_def)
  then show ?thesis using t by (simp add: run kept_def same_name_def is_route2_def)
qed

lemma audio_replacement_ok:
  assumes "kept cap s0 s" and "replacement_of s = Some r" and "ep_replacement_reason r = Some ''audio_track_switch''"
  shows "steady cap s0 (fst (snd (audio_replacement i r (s, w, p))))"
proof -
  obtain a t v q where pr: "promote_replacement i r (s, w, p) = (a, t, v, q)" by (metis prod_cases4)
  define u where "u = on_audio (fail_audio_switch r
      (Some (or_string (ep_last_error r) ''Selected audio track preparation ended before it was ready.''))) s"
  define x where "x = on_audio (\<lambda>a. a\<lparr>as_state := ''candidate_preparing'', as_candidate_state := ''preparing'',
      as_error := None, as_candidate_error := None\<rparr>) (on_replacement keep_waiting s)"
  have u: "kept cap s0 u" unfolding u_def by (rule kept_mild[OF assms(1) mild_fail_audio])
  have x: "kept cap s0 x" unfolding x_def by (rule kept_mild[OF assms(1)]) (simp add: mild_steps)
  note ends = cancel_candidate_ok[OF assms(1), where i = i and w = w and p = p] discard_replacement_kept[OF u, where i = i and w = w and p = p]
    promote_moved[OF assms(1,2) pr] candidate_ready_ok[OF assms]
  show ?thesis
    unfolding audio_replacement_def Let_def prod.case u_def[symmetric] x_def[symmetric]
    using ends x by (simp add: pr steady_def)
qed

lemma recovery_replacement_ok:
  assumes "kept cap s0 s" and "replacement_of s = Some r"
  shows "steady cap s0 (fst (snd (recovery_replacement i r (s, w, p))))"
proof -
  obtain x u where ready: "guarded_ready i ''replacement_promotion_check'' s r = (x, u)" by fastforce
  have u: "kept cap s0 u" "replacement_of u = Some r"
    using guarded_mild[OF ready] kept_mild[OF assms(1)] same_revision_epochs(1)[of u s] assms(2) by auto
  obtain a t v q where pr: "promote_replacement i r (u, w, p) = (a, t, v, q)" by (metis prod_cases4)
  have "mild u ((in_state y (on_replacement keep_waiting u))\<lparr>ms_state := z\<rparr>)" for y z by (simp add: mild_steps)
  then have "kept cap s0 ((in_state y (on_replacement keep_waiting u))\<lparr>ms_state := z\<rparr>)" for y z by (rule kept_mild[OF u(1)])
  then show ?thesis
    using u(1) promote_moved[OF u pr]
    by (auto simp: recovery_replacement_def ready pr Let_def steady_def split: sum.split bool.split)
qed

lemma settle_ok:
  assumes "steady cap s0 s"
  shows "steady cap s0 (fst (snd (settle_replacement i (s, w, p))))"
proof -
  have "mild s (in_state y s)" for y by (simp add: mild_steps)
  then have "steady cap s0 (in_state y s)" for y by (rule steady_mild[OF assms])
  moreover have "kept cap s0 s" if "replacement_of s = Some r" for r
    using that assms moved_no_replacement by (auto simp: steady_def)
  ultimately show ?thesis
    using assms audio_replacement_ok recovery_replacement_ok
    by (auto simp: settle_replacement_def Let_def split: option.split)
qed

text \<open>The last section may issue the first revision.\<close>

definition held :: "int \<Rightarrow> mobile_session \<Rightarrow> mobile_session \<Rightarrow> bool" where
  "held cap s0 s \<longleftrightarrow>
     same_name s0 s \<and> session_inv cap (ms_browser s)
   \<and> bs_attach_revision (ms_browser s) \<in> {bs_attach_revision (ms_browser s0), bs_attach_revision (ms_browser s0) + 1}
   \<and> bs_client_revision (ms_browser s) = bs_client_revision (ms_browser s0)
   \<and> (\<exists>a. bs_active (ms_browser s0) = Some a \<and> dict_get (bs_epochs (ms_browser s)) a \<noteq> None)"

lemma steady_held:
  assumes "steady cap s0 s"
  shows "held cap s0 s"
  using assms unfolding steady_def
proof
  assume k: "kept cap s0 s"
  then obtain a where "bs_active (ms_browser s0) = Some a" by (auto simp: kept_def session_inv_def)
  then show ?thesis using k by (auto simp: held_def kept_def session_inv_def epochs_wf_def)
qed (auto simp: moved_def held_def)

lemma held_mild: "held cap s0 s \<Longrightarrow> mild s t \<Longrightarrow> held cap s0 t"
  using mild_inv[of s t cap] mild_name[of s t] same_name_trans[of s0 s t] mild_none[of s t]
  by (auto simp: held_def mild_def mild_browser_def)

lemma show_mild: "mild s (show_ready i a s)" "mild s (show_waiting a s)" "mild s (acknowledge_targets a s)"
  by (auto simp: show_ready_def show_waiting_def acknowledge_targets_def Let_def intro!: mild_steps split: option.split)

lemma queued_mild: "mild s t \<Longrightarrow> mild s (fst (queue_workers i (t, w, p)))"
  using mild_trans queue_workers_mild by blast

lemma stranded_mild: "mild s (fst (snd (stranded i a (s, w, p))))"
proof (cases "bs_replacement (ms_browser s) = None \<and> ep_state a = ''draining''")
  case True
  obtain x u where ready: "epoch_startup_attach_ready (ri_cached i) (ri_clock i) s a = (x, u)" by fastforce
  have u: "mild s u" by (rule startup_mild(1)[OF ready])
  then have "mild s (fst (queue_workers i ((in_state y u)\<lparr>ms_state := z, ms_last_error := e\<rparr>, w, p)))" for y z e
    by (intro queued_mild) (simp add: mild_steps)
  then show ?thesis using u True by (simp add: stranded_def ready split: sum.split bool.split)
qed (simp add: stranded_def)

lemma show_ok:
  assumes "steady cap s0 s" and "0 \<le> bs_attach_revision (ms_browser s0)"
  shows "held cap s0 (fst (snd (show_authority i (s, w, p))))"
proof (cases "active_of s")
  case None
  then show ?thesis using steady_held[OF assms(1)] by (simp add: show_authority_def)
next
  case (Some a)
  obtain x t v q where st: "stranded i a (s, w, p) = (x, t, v, q)" by (metis prod_cases4)
  have t: "steady cap s0 t" using stranded_mild[of s i a w p] steady_mild[OF assms(1)] by (simp add: st)
  obtain y u where ready: "guarded_ready i ''refresh_active_attach_ready'' t a = (y, u)" by fastforce
  have u: "steady cap s0 u" using steady_mild[OF t] guarded_mild[OF ready] by blast
  note hu = steady_held[OF u]
  obtain err r where iss: "issue_attach_revision (ri_cached i) (ri_clock i) 1 ''initial_attach_ready'' (Some a) u = (err, r)" by fastforce
  have r: "held cap s0 r" if "bs_attach_revision (ms_browser u) = 0"
  proof -
    have zero: "bs_attach_revision (ms_browser s0) = 0" using hu that assms(2) by (auto simp: held_def)
    have "session_inv cap (ms_browser r)" using issue_inv[OF iss] hu that by (simp add: held_def)
    then show ?thesis
      using hu issue_same[OF iss] same_name_trans[OF _ issue_name[OF iss], of s0] that zero
      by (auto simp: held_def same_epochs_def)
  qed
  have fin: "held cap s0 (fst (queue_workers i (show_ready i a (acknowledge_targets a z), v, q)))"
    "held cap s0 (fst (queue_workers i (show_waiting a (acknowledge_targets a z), v, q)))" if "held cap s0 z" for z
    by (rule held_mild[OF held_mild[OF that] queue_workers_mild], rule mild_trans[OF show_mild(3)], rule show_mild)+
  show ?thesis
    using steady_held[OF t] hu r fin
    by (cases x) (auto simp: show_authority_def Some st and_go_def ready iss Let_def split: sum.split option.split)
qed

section \<open>A refresh keeps the session\<close>

lemma held_and_go:
  assumes "held cap s0 (fst (snd x))" and "\<And>t w p. x = (Goes_On, t, w, p) \<Longrightarrow> held cap s0 (fst (snd (f (t, w, p))))"
  shows "held cap s0 (fst (snd (and_go x f)))"
proof -
  obtain a t w p where x: "x = (a, t, w, p)" by (metis prod_cases4)
  show ?thesis using assms by (cases a) (simp_all add: x and_go_def)
qed

lemma steady_and_go:
  assumes "steady cap s0 (fst (snd x))" and "\<And>t w p. steady cap s0 t \<Longrightarrow> held cap s0 (fst (snd (f (t, w, p))))"
  shows "held cap s0 (fst (snd (and_go x f)))"
  by (rule held_and_go) (use assms steady_held in auto)

lemma kept_and_go:
  assumes "kept cap s0 (fst (snd x))" and "\<And>t w p. kept cap s0 t \<Longrightarrow> x = (Goes_On, t, w, p) \<Longrightarrow> held cap s0 (fst (snd (f (t, w, p))))"
  shows "held cap s0 (fst (snd (and_go x f)))"
  by (rule held_and_go) (use assms steady_held in \<open>auto simp: steady_def\<close>)

lemma refresh_held:
  assumes "session_inv (ri_cap i) (ms_browser s)" and "fresh_id (ri_epoch_id i) s"
  shows "held (ri_cap i) s (fst (snd (refresh_session_authority i (s, w, p))))"
proof -
  let ?cap = "ri_cap i" and ?i = "ri_epoch_id i"
  let ?down = "\<lambda>st. maintenance_section i ''maintenance_downshift'' (abort_downshift_replacement (ri_stamp i) (ri_clock i)) (promote_downshift i) st"
  let ?up = "\<lambda>st. maintenance_section i ''adaptive_resupply_boost'' (abort_resupply_replacement (ri_stamp i) (ri_clock i)) (promote_resupply i) st"
  let ?f8 = "\<lambda>st. show_authority i st"
  let ?f7 = "\<lambda>st. and_go (settle_replacement i st) ?f8"
  let ?f6 = "\<lambda>st. and_go (?up st) ?f7"
  let ?f5 = "\<lambda>st. and_go (?down st) ?f6"
  let ?f4 = "\<lambda>st. and_go (start_maintenance i st) ?f5"
  let ?f3 = "\<lambda>st. and_go (draining_retried i st) ?f4"
  let ?f2 = "\<lambda>st. and_go (active_failed i st) ?f3"
  let ?f1 = "\<lambda>st. and_go (replacement_failed i st) ?f2"
  let ?held = "\<lambda>x. held ?cap s (fst (snd x))"
  have rev: "0 \<le> bs_attach_revision (ms_browser s)" using assms(1) by (simp add: session_inv_def epochs_wf_def)
  have down: "steady ?cap s (fst (snd (?down (t, v, q))))" if "steady ?cap s t" for t v q
    by (rule maintenance_section_ok[OF that], simp, rule promote_downshift_ok, assumption+, rule abort_downshift_mild)
  have up: "steady ?cap s (fst (snd (?up (t, v, q))))" if "steady ?cap s t" for t v q
    by (rule maintenance_section_ok[OF that], simp, rule promote_resupply_ok, assumption+, rule abort_resupply_mild)
  have f7: "?held (?f7 (t, v, q))" if "steady ?cap s t" for t v q
    by (rule steady_and_go[OF settle_ok[OF that]], rule show_ok[OF _ rev])
  have f6: "?held (?f6 (t, v, q))" if "steady ?cap s t" for t v q by (rule steady_and_go[OF up[OF that]], rule f7)
  have f5: "?held (?f5 (t, v, q))" if "steady ?cap s t" for t v q by (rule steady_and_go[OF down[OF that]], rule f6)
  have f4: "?held (?f4 (t, v, q))" if "kept ?cap s t" "creatable ?i t" for t v q
    by (rule kept_and_go[OF start_maintenance_ok[OF that]], rule f5) (simp add: steady_def)
  have f3: "?held (?f3 (t, v, q))" if "kept ?cap s t" "creatable ?i t" for t v q
    using draining_retried_ok[OF that, of v q] by - (rule kept_and_go, auto simp: section_ok_def intro: f4)
  have f2: "?held (?f2 (t, v, q))" if "kept ?cap s t" "creatable ?i t" for t v q
    using active_failed_ok[OF that, of v q] by - (rule kept_and_go, auto simp: section_ok_def intro: f3)
  have f1: "?held (?f1 (t, v, q))" if "kept ?cap s t" "fresh_id ?i t" for t v q
    using replacement_failed_ok[OF that, of i v q] by - (rule kept_and_go, auto simp: fresh_creatable intro: f2)
  have "?held (and_go (begin_refresh i (s, w, p)) ?f1)"
    using begin_ok[OF kept_refl[OF assms(1)] assms(2), of i w p]
    by - (rule kept_and_go, auto simp: section_ok_def intro: f1)
  then show ?thesis by (simp only: refresh_session_authority_def)
qed

section \<open>The requests of the player\<close>

lemma seek_position_mild [mild_steps]: "mild s t \<Longrightarrow> mild s (seek_position place playing t)"
  by (simp add: mild_def seek_position_def Let_def split: option.split)

lemma seek_kept:
  assumes "kept (ri_cap i) s0 s" and "fresh_id (ri_epoch_id i) s" and "seek_steps i target place playing (s, w, p) = (err, s', w', p')"
  shows "kept (ri_cap i) s0 s'"
proof (cases "active_of s")
  case None
  then have "s' = s" using assms(3) by (simp add: seek_steps_def)
  then show ?thesis using assms(1) by simp
next
  case (Some a)
  define tgt where "tgt = clamp_time target (ms_duration s)"
  define u where "u = seek_position (clamp_time (case place of Some x \<Rightarrow> x | None \<Rightarrow> ms_last_stable s) (ms_duration s)) playing (rebuild_active i s)"
  have m: "mild s u" by (simp add: u_def rebuild_active_def mild_steps)
  have u: "kept (ri_cap i) s0 u" "fresh_id (ri_epoch_id i) u" using kept_mild[OF assms(1) m] fresh_mild[OF assms(2) m] .
  obtain r t v q where new: "create_replacement i tgt ''out_of_range_seek'' (u, w, p) = (r, t, v, q)" by (metis prod_cases4)
  have t: "kept (ri_cap i) s0 t" using create_replacement_ok[OF u new] by simp
  define d where "d = (if truthy_string (bs_replacement (ms_browser u))
      then discard_epoch_record (ri_stamp i) (ri_clock i) (the (bs_replacement (ms_browser u))) (u, w, p) else (u, w, p))"
  have d: "kept (ri_cap i) s0 (fst d)"
  proof (cases "truthy_string (bs_replacement (ms_browser u))")
    case True
    then obtain k where "bs_replacement (ms_browser u) = Some k" by (auto elim: truthy_stringE)
    moreover from this have "bs_active (ms_browser u) \<noteq> Some k" using u(1) by (auto simp: kept_def session_inv_def epochs_wf_def)
    ultimately show ?thesis using discard_kept[OF u(1)] True by (simp add: d_def)
  qed (simp add: d_def u(1))
  obtain d1 d2 d3 where dd: "d = (d1, d2, d3)" by (metis prod_cases3)
  have in_range: "kept (ri_cap i) s0 (on_active (\<lambda>e. e\<lparr>ep_attach := tgt\<rparr>) (d1\<lparr>ms_target := tgt, ms_pending_target := None\<rparr>))"
  proof (rule kept_mild)
    show "kept (ri_cap i) s0 d1" using d by (simp add: dd)
    have "mild d1 (d1\<lparr>ms_target := tgt\<rparr>)" by (simp add: mild_def mild_browser_def)
    then show "mild d1 (on_active (\<lambda>e. e\<lparr>ep_attach := tgt\<rparr>) (d1\<lparr>ms_target := tgt, ms_pending_target := None\<rparr>))"
      by (intro mild_steps) (simp_all add: same_epoch_def)
  qed
  show ?thesis
    using assms(3) t in_range
    by (simp add: seek_steps_def Some Let_def tgt_def[symmetric] u_def[symmetric] d_def[symmetric] dd new split: if_splits)
qed

lemma stop_request_mild: "mild s (request_stop flag eids s)"
proof -
  have "mild_browser b (foldl (\<lambda>b eid. update_epoch eid (\<lambda>e. e\<lparr>ep_stop_requested := flag\<rparr>) b) b eids)" for b
  proof (induction eids arbitrary: b)
    case (Cons k eids)
    have "mild_browser b (update_epoch k (\<lambda>e. e\<lparr>ep_stop_requested := flag\<rparr>) b)" by (rule mild_update) (simp add: same_epoch_def)
    then show ?case using mild_browser_trans Cons.IH by simp
  qed (simp add: mild_browser_def)
  then show ?thesis by (simp add: mild_def request_stop_def)
qed

lemma lifecycle_mild: "apply_background_lifecycle x now (s, p) = (t, q) \<Longrightarrow> mild s t"
proof -
  have "mild s (request_stop False eids (s\<lparr>ms_resumed_at := now\<rparr>))" for eids
    by (rule mild_trans[OF _ stop_request_mild]) (simp add: mild_def mild_browser_def)
  then have resumed: "mild s ((request_stop False eids (s\<lparr>ms_resumed_at := now\<rparr>))\<lparr>ms_parked := False, ms_backgrounded_at := 0\<rparr>)" for eids
    by (simp add: mild_def)
  have others: "mild s (s\<lparr>ms_backgrounded_at := b\<rparr>)" "mild s (s\<lparr>ms_parked := x, ms_backgrounded_at := b\<rparr>)"
    "mild s (s\<lparr>ms_parked := x, ms_parked_at := y\<rparr>)" "mild s (s\<lparr>ms_backgrounded_at := b, ms_parked := x, ms_parked_at := y\<rparr>)" for b x y
    by (simp_all add: mild_def mild_browser_def)
  show "apply_background_lifecycle x now (s, p) = (t, q) \<Longrightarrow> mild s t"
    by (auto simp: apply_background_lifecycle_def Let_def resumed others split: if_splits)
qed

lemma heartbeat_inv:
  assumes "session_inv cap (ms_browser s)" and "heartbeat_steps i h (s, w, p) = (s', w', p')"
  shows "session_inv cap (ms_browser s')"
proof -
  define g where "g = clean_heartbeat s h"
  define s1 where "s1 = record_place g (record_telemetry g s)"
  have m1: "mild s s1" by (simp add: s1_def record_place_def record_telemetry_def mild_def mild_browser_def Let_def split: option.split)
  obtain s2 q where two: "(if truthy_string (hb_lifecycle g)
      then apply_background_lifecycle (the (hb_lifecycle g)) (ri_clock i) (s1\<lparr>ms_lifecycle := the (hb_lifecycle g)\<rparr>, p) else (s1, p)) = (s2, q)"
    by fastforce
  have "mild s1 (s1\<lparr>ms_lifecycle := x\<rparr>)" for x by (simp add: mild_def mild_browser_def)
  then have m2: "mild s1 s2"
    using two lifecycle_mild[of "the (hb_lifecycle g)" "ri_clock i" "s1\<lparr>ms_lifecycle := the (hb_lifecycle g)\<rparr>" p s2 q] mild_trans
    by (auto split: if_splits)
  define s3 where "s3 = (case hb_playing g of None \<Rightarrow> s2 | Some x \<Rightarrow> s2\<lparr>ms_client_is_playing := x\<rparr>)"
  have "mild s2 s3" by (simp add: s3_def mild_def mild_browser_def split: option.split)
  then have inv3: "session_inv cap (ms_browser s3)" using mild_inv assms(1) mild_trans m1 m2 by blast
  define s4 where "s4 = (case hb_revision g of None \<Rightarrow> s3 | Some n \<Rightarrow> on_browser (acknowledge_revision n) s3)"
  have inv4: "session_inv cap (ms_browser s4)"
    using inv3 acknowledge_good[OF inv3] by (auto simp: s4_def on_browser_def good_step_def split: option.split)
  have probe: "mild s4 (on_browser (record_client_probe b ms None c) s4)" for b ms c
    by (rule mild_on_browser[OF mild_refl])
      (auto simp: record_client_probe_def Let_def mild_browser_def epochs_wf_def split: option.split)
  have "s' = on_browser (record_client_probe (hb_probe_bytes g) (hb_probe_ms g) None (ri_clock i)) s4"
    using assms(2) unfolding heartbeat_steps_def Let_def prod.case g_def[symmetric] s1_def[symmetric] two s3_def[symmetric] s4_def[symmetric]
    by simp
  then show ?thesis using mild_inv[OF probe inv4] by simp
qed

section \<open>Writes of others\<close>

text \<open>
  Between the requests of its own player a session is written to by the handlers that serve its files, by the threads of
  its workers, by the dispatcher, by the admission of other sessions and by the sweep. Each keeps the session well formed,
  with one exception: the dispatcher, told to start the worker of a resupply or downshift epoch that has meanwhile become
  the active one, and with fewer threads left than the epoch was sized for, gives the epoch up like a replacement.
\<close>

definition gives_up_active :: "int \<Rightarrow> string \<Rightarrow> dispatch_state \<Rightarrow> bool" where
  "gives_up_active remaining wid ds =
     (case dict_get (ds_pool ds) wid of None \<Rightarrow> False
      | Some r \<Rightarrow>
          (case session_epoch (ds_sessions ds) r of None \<Rightarrow> False
           | Some (s, e) \<Rightarrow>
               bs_active (ms_browser s) = Some (ep_id e)
               \<and> (case replacement_target_threads e of None \<Rightarrow> False | Some t \<Rightarrow> ds_available ds < t \<or> remaining < t)))"

text \<open>The writes under the manager's lock that reach other sessions than the one of the request.\<close>

inductive manager_write :: "manager \<Rightarrow> manager \<Rightarrow> bool" where
  write_prepare: "worker_prepare stamp clock ts ffmpeg dir source sid eid wid m = (start, m') \<Longrightarrow> manager_write m m'"
| write_spawn_failed: "manager_write m (worker_spawn_failed stamp clock error sid eid wid m)"
| write_attach: "worker_attach stamp clock threads sid eid wid m = (taken, m') \<Longrightarrow> manager_write m m'"
| write_publish: "worker_publish stamp clock elapsed sid eid m = (err, m') \<Longrightarrow> manager_write m m'"
| write_exit: "manager_write m (worker_exit stamp clock code probe tail sid eid wid m)"
| write_dispatch:
    "ds_sessions ds = mg_sessions m \<Longrightarrow> ds_workers ds = mg_workers m \<Longrightarrow> ds_pool ds = mg_pool m
     \<Longrightarrow> \<not> gives_up_active remaining wid ds \<Longrightarrow> dispatch_record di bg remaining wid ds = ds'
     \<Longrightarrow> manager_write m (m\<lparr>mg_sessions := ds_sessions ds', mg_workers := ds_workers ds', mg_pool := ds_pool ds'\<rparr>)"
| write_admitted: "manager_write m (mark_consumer_admitted stamp user item m)"
| write_sweep:
    "dict_get (mg_sessions m) sid = Some s \<Longrightarrow> expire_one parse stamp lt now (stale, m) (sid, s) = (stale', m') \<Longrightarrow> manager_write m m'"
| write_remove: "manager_write m (remove_session parse clock s m)"
| write_terminate: "manager_write m (terminate_session stamp clock s m)"

text \<open>Whatever session is in the table before and after is as well formed after as it was before.\<close>

definition keeps_sessions :: "int \<Rightarrow> manager \<Rightarrow> manager \<Rightarrow> bool" where
  "keeps_sessions cap m m' \<longleftrightarrow>
     (\<forall>sid s s'. dict_get (mg_sessions m) sid = Some s \<longrightarrow> session_inv cap (ms_browser s)
        \<longrightarrow> dict_get (mg_sessions m') sid = Some s' \<longrightarrow> session_inv cap (ms_browser s'))"

lemma keeps_same: "mg_sessions m' = mg_sessions m \<Longrightarrow> keeps_sessions cap m m'"
  by (simp add: keeps_sessions_def)

lemma keeps_one:
  assumes "dict_get (mg_sessions m) sid = Some s" and "mg_sessions m' = dict_set (mg_sessions m) sid s'"
    and "session_inv cap (ms_browser s) \<Longrightarrow> session_inv cap (ms_browser s')"
  shows "keeps_sessions cap m m'"
  using assms by (auto simp: keeps_sessions_def)

lemma keeps_drop [simp]: "keeps_sessions cap m (drop_record wid m)" "keeps_sessions cap m m"
  by (simp_all add: keeps_same drop_record_def)

lemma put_epoch_keeps:
  assumes "worker_epoch sid eid m = Some (s, e)" and "same_epoch e e'"
  shows "keeps_sessions cap m (put_epoch sid eid e' p s m)"
proof (rule keeps_one)
  note w = worker_epoch_SomeD[OF assms(1)]
  then show "dict_get (mg_sessions m) sid = Some s" by simp
  have "mild s (s\<lparr>ms_browser := update_epoch eid (\<lambda>_. e') (ms_browser s)\<rparr>)"
    by (intro mild_set mild_update) (use w assms(2) in auto)
  then show "session_inv cap (ms_browser s) \<Longrightarrow> session_inv cap (ms_browser (s\<lparr>ms_browser := update_epoch eid (\<lambda>_. e') (ms_browser s)\<rparr>))"
    by (rule mild_inv)
qed (simp add: put_epoch_def)

lemma settle_keeps:
  assumes "worker_epoch sid eid m = Some (s, e0)" and "same_epoch e0 e"
  shows "keeps_sessions cap m (settle stamp clock st failed sid eid s e m)"
proof -
  obtain e' p where f: "finalize_worker_record stamp clock st failed False s (e, mg_pool m) = (e', p)" by fastforce
  show ?thesis
    using put_epoch_keeps[OF assms(1) same_epoch_trans[OF assms(2) finalize_record_same[OF f]]] by (simp add: settle_def f)
qed

lemma same_epoch_runtime [simp]:
  "same_epoch e (e\<lparr>ep_staging_dir := d\<rparr>)" "same_epoch e (e\<lparr>ep_staging_dir := d, ep_state := x, ep_last_error := y\<rparr>)"
  "same_epoch e (e\<lparr>ep_state := x, ep_last_error := y\<rparr>)" "same_epoch e (e\<lparr>ep_process := q, ep_stop_requested := b\<rparr>)"
  "same_epoch e (e\<lparr>ep_process := q, ep_state := x\<rparr>)" "same_epoch e (e\<lparr>ep_process := q, ep_state := x, ep_last_error := y\<rparr>)"
  "same_epoch e (e\<lparr>ep_process := q, ep_transcoder_completed := b, ep_last_error := y\<rparr>)"
  by (simp_all add: same_epoch_def)

lemma prepare_keeps:
  assumes "worker_prepare stamp clock ts ffmpeg dir source sid eid wid m = (start, m')"
  shows "keeps_sessions cap m m'"
proof (cases "worker_epoch sid eid m")
  case (Some se)
  obtain s e where se: "se = (s, e)" by fastforce
  note found = Some[unfolded se]
  note keeps = put_epoch_keeps[OF found] settle_keeps[OF found]
  show ?thesis
    using assms by (auto simp: worker_prepare_def found Let_def intro!: keeps split: if_splits option.splits sum.splits)
qed (use assms in \<open>auto simp: worker_prepare_def\<close>)

lemma spawn_failed_keeps: "keeps_sessions cap m (worker_spawn_failed stamp clock error sid eid wid m)"
  by (auto simp: worker_spawn_failed_def intro: settle_keeps split: option.split)

lemma attach_keeps:
  assumes "worker_attach stamp clock threads sid eid wid m = (taken, m')"
  shows "keeps_sessions cap m m'"
proof (cases "worker_epoch sid eid m")
  case (Some se)
  obtain s e where se: "se = (s, e)" by fastforce
  note found = Some[unfolded se]
  define e1 where "e1 = e\<lparr>ep_process := Some Running, ep_state := (if ep_state e = ''starting'' then ''warming'' else ep_state e)\<rparr>"
  obtain w e2 p where rec: "ensure_worker_record [] stamp clock s (e1, mg_pool m) = (w, e2, p)" by (metis prod_cases3)
  have "same_epoch e e1" by (simp add: e1_def)
  then have "same_epoch e (rebuild_published_frontier stamp clock e2)"
    by (rule same_epoch_trans[OF same_epoch_trans[OF _ worker_record_same[OF rec]]]) simp
  then show ?thesis
    using assms put_epoch_keeps[OF found]
    by (auto simp: worker_attach_def found Let_def e1_def[symmetric] rec split: if_splits)
qed (use assms in \<open>auto simp: worker_attach_def\<close>)

lemma exit_keeps: "keeps_sessions cap m (worker_exit stamp clock code probe tail sid eid wid m)"
proof (cases "worker_epoch sid eid m")
  case (Some se)
  obtain s e where se: "se = (s, e)" by fastforce
  show ?thesis
    using settle_keeps[OF Some[unfolded se]] by (simp add: worker_exit_def Some se Let_def)
qed (simp add: worker_exit_def)

text \<open>Publication moves files; it does not change which epoch it is.\<close>

lemma publish_same:
  "same_epoch e (move_if_absent a b e)" "same_epoch e (snd (publish_init stamp clock elapsed e))"
  "same_epoch e (snd (publish_segment stamp clock elapsed i a e))"
  by (auto simp: same_epoch_def move_if_absent_def publish_init_def publish_segment_def Let_def split: option.split)

lemma publish_staged_same: "same_epoch e (snd (publish_staged stamp clock elapsed names e))"
proof (induction names arbitrary: e)
  case (Cons name names)
  show ?case
  proof (cases "segment_of_name name")
    case (Some i)
    obtain err e' where p: "publish_segment stamp clock elapsed i name e = (err, e')" by fastforce
    have "same_epoch e e'" using publish_same(3)[of e stamp clock elapsed i name] by (simp add: p)
    then show ?thesis using Cons.IH[of e] Cons.IH[of e'] same_epoch_trans by (auto simp: Some p split: option.split)
  qed (use Cons.IH in simp)
qed simp

lemma publish_outputs_same: "same_epoch e (snd (publish_epoch_outputs stamp clock elapsed e))"
proof -
  obtain err e1 where p: "(if dict_get (ep_staging_dir e) init_file \<noteq> None \<and> \<not> ep_init_published e
      then publish_init stamp clock elapsed e else (None, e)) = (err, e1)" by fastforce
  have "same_epoch e e1" using p publish_same(2)[of e stamp clock elapsed] by (auto split: if_splits)
  then show ?thesis
    using same_epoch_trans[OF _ publish_staged_same] unfolding publish_epoch_outputs_def p by (simp split: option.split)
qed

lemma publish_keeps:
  assumes "worker_publish stamp clock elapsed sid eid m = (err, m')"
  shows "keeps_sessions cap m m'"
proof (cases "worker_epoch sid eid m")
  case (Some se)
  obtain s e where se: "se = (s, e)" by fastforce
  show ?thesis
    using assms put_epoch_keeps[OF Some[unfolded se]] publish_outputs_same[of e stamp clock elapsed]
    by (auto simp: worker_publish_def Some se split: prod.splits)
qed (use assms in \<open>simp add: worker_publish_def\<close>)

text \<open>The dispatcher starts the worker, or gives up an epoch that is not the active one.\<close>

lemma abort_kept:
  assumes "session_inv cap (ms_browser s)" and "bs_active (ms_browser s) \<noteq> Some (ep_id e)"
  shows "session_inv cap (ms_browser (fst (abort_for_headroom di e (s, w, p))))"
proof -
  have "\<exists>t. mild s t \<and> abort_for_headroom di e (s, w, p) = discard_epoch_record (di_stamp di) (di_clock di) (ep_id e) (t, w, p)"
    unfolding abort_for_headroom_def by (simp add: abort_downshift_mild abort_resupply_mild)
  then obtain t where t: "mild s t" "abort_for_headroom di e (s, w, p) = discard_epoch_record (di_stamp di) (di_clock di) (ep_id e) (t, w, p)"
    by blast
  show ?thesis using aborted_mild[OF t(1) kept_refl[OF assms(1)] assms(2)] by (simp add: t(2) kept_def)
qed

lemma dispatch_keeps:
  assumes "ds_sessions ds = mg_sessions m" and "\<not> gives_up_active remaining wid ds"
    and "mg_sessions m' = ds_sessions (dispatch_record di bg remaining wid ds)"
  shows "keeps_sessions cap m m'"
proof (cases "\<exists>r s e. dict_get (ds_pool ds) wid = Some r \<and> session_epoch (ds_sessions ds) r = Some (s, e)")
  case False
  then have "dispatch_record di bg remaining wid ds = ds" by (auto simp: dispatch_record_def Let_def split: option.split)
  then show ?thesis using assms by (simp add: keeps_same)
next
  case True
  then obtain r s e where g: "dict_get (ds_pool ds) wid = Some r" and se: "session_epoch (ds_sessions ds) r = Some (s, e)" by blast
  have s: "dict_get (mg_sessions m) (wr_session r) = Some s" and e: "dict_get (bs_epochs (ms_browser s)) (wr_epoch r) = Some e"
    using session_epoch_SomeD[OF se] assms(1) by simp_all
  have start: "keeps_sessions cap m m'" if "mg_sessions m' = ds_sessions (start_worker di wid s e a f src r ds)" for a f src
  proof (rule keeps_one[OF s])
    let ?s = "s\<lparr>ms_browser := update_epoch (wr_epoch r) (\<lambda>_. rebuild_published_frontier (di_stamp di) (di_clock di) e) (ms_browser s)\<rparr>"
    show "mg_sessions m' = dict_set (mg_sessions m) (wr_session r) ?s" using that assms(1) by (simp add: start_worker_def Let_def)
    have "mild s ?s" by (intro mild_set mild_update) (simp add: e)
    then show "session_inv cap (ms_browser s) \<Longrightarrow> session_inv cap (ms_browser ?s)" by (rule mild_inv)
  qed
  have abort: "keeps_sessions cap m m'"
    if "mg_sessions m' = ds_sessions (abort_replacement di r s e ds)" "bs_active (ms_browser s) \<noteq> Some (ep_id e)"
    using that(1) assms(1) abort_kept[OF _ that(2), of cap di "ds_workers ds" "ds_pool ds"]
    by (intro keeps_one[OF s, of _ "fst (abort_for_headroom di e (s, ds_workers ds, ds_pool ds))"])
      (auto simp: abort_replacement_def split: prod.splits)
  have active: "bs_active (ms_browser s) \<noteq> Some (ep_id e)"
    if "replacement_target_threads e = Some t" "ds_available ds < t \<or> remaining < t" for t
    using assms(2) that by (auto simp: gives_up_active_def g se)
  show ?thesis
    using assms(3) assms(1) start abort active
    unfolding dispatch_record_def Let_def g se option.case prod.case
    by (auto simp: keeps_same split: if_splits option.splits)
qed

text \<open>The case left out: the epoch is discarded, and it stays the active one.\<close>

lemma dispatch_discards_active:
  assumes "dict_get (ds_pool ds) wid = Some r" and "session_epoch (ds_sessions ds) r = Some (s, e)" and "epochs_wf (ms_browser s)"
    and "gives_up_active remaining wid ds" and "\<not> ms_parked s"
    and "ts_min (di_settings di) \<le> min (min (ts_max (di_settings di)) (ds_available ds)) remaining"
  shows "\<exists>s'. dict_get (ds_sessions (dispatch_record di bg remaining wid ds)) (wr_session r) = Some s'
    \<and> bs_active (ms_browser s') = Some (wr_epoch r) \<and> dict_get (bs_epochs (ms_browser s')) (wr_epoch r) = None"
proof -
  obtain t where t: "replacement_target_threads e = Some t" "ds_available ds < t \<or> remaining < t"
    and act: "bs_active (ms_browser s) = Some (ep_id e)"
    using assms(4) by (auto simp: gives_up_active_def assms(1,2) split: option.splits)
  have e: "dict_get (bs_epochs (ms_browser s)) (wr_epoch r) = Some e" using session_epoch_SomeD[OF assms(2)] by simp
  have id: "ep_id e = wr_epoch r" using epochs_wf_id[OF assms(3) e] by simp
  have run: "dispatch_record di bg remaining wid ds = abort_replacement di r s e ds"
    using assms(5,6) t by (auto simp: dispatch_record_def Let_def assms(1,2))
  have "\<exists>u. mild s u \<and> abort_for_headroom di e (s, ds_workers ds, ds_pool ds)
      = discard_epoch_record (di_stamp di) (di_clock di) (ep_id e) (u, ds_workers ds, ds_pool ds)"
    unfolding abort_for_headroom_def by (simp add: abort_downshift_mild abort_resupply_mild)
  then obtain u where u: "mild s u" "abort_for_headroom di e (s, ds_workers ds, ds_pool ds)
      = discard_epoch_record (di_stamp di) (di_clock di) (ep_id e) (u, ds_workers ds, ds_pool ds)" by blast
  obtain s' w' p' where d: "discard_epoch_record (di_stamp di) (di_clock di) (ep_id e) (u, ds_workers ds, ds_pool ds) = (s', w', p')"
    by (metis prod_cases3)
  have b: "ms_browser s' = fst (discard_epoch (ep_id e) (ms_browser u, ds_workers ds))"
    using discard_record_browser[of "di_stamp di" "di_clock di" "ep_id e" u "ds_workers ds" "ds_pool ds"] by (simp add: d)
  have "bs_active (ms_browser s') = Some (ep_id e)" using u(1) act by (simp add: b mild_def mild_browser_def)
  moreover have "dict_get (bs_epochs (ms_browser s')) (ep_id e) = None" by (simp add: b)
  ultimately show ?thesis unfolding run abort_replacement_def u(2) d by (simp add: id)
qed

text \<open>The sweep gives up drained epochs and parks; what it removes is gone.\<close>

lemma park_mild: "mild s (fst (park_backgrounded now (s, p)))"
proof -
  have "mild s (request_stop x eids (s\<lparr>ms_parked := a, ms_parked_at := b, ms_lifecycle := c, ms_queue_started := d, ms_worker_state := f\<rparr>))"
    for x eids a b c d f
    by (rule mild_trans[OF _ stop_request_mild]) (simp add: mild_def mild_browser_def)
  moreover have "mild s (s\<lparr>ms_backgrounded_at := now\<rparr>)" by (simp add: mild_def mild_browser_def)
  ultimately show ?thesis by (auto simp: park_backgrounded_def Let_def)
qed

lemma expire_keeps:
  assumes "dict_get (mg_sessions m) sid = Some s" and "expire_one parse stamp lt now (stale, m) (sid, s) = (stale', m')"
  shows "keeps_sessions cap m m'"
proof (cases "is_route2 s")
  case False
  have idle: "mild s (s\<lparr>ms_last_error := x, ms_state := y, ms_worker_state := z, ms_queue_started := q\<rparr>)" for x y z q
    by (simp add: mild_def mild_browser_def)
  show ?thesis
    using assms(2) False keeps_one[OF assms(1), of _ _ cap] mild_inv[OF idle]
    by (fastforce simp: expire_one_def Let_def keeps_sessions_def assms(1) split: if_splits)
next
  case True
  obtain s1 w p where c: "cleanup_draining_records stamp now (s, mg_workers m, mg_pool m) = (s1, w, p)" by (metis prod_cases3)
  obtain s2 p2 where park: "park_backgrounded now (s1, p) = (s2, p2)" by fastforce
  define s3 where "s3 = (if has_background_activity s2 p2
      then s2\<lparr>ms_expires_at := max (ms_expires_at s2) (now + of_int (lt_ttl_minutes lt * 60))\<rparr> else s2)"
  have "mild s1 s2" using park_mild[of s1 now p] by (simp add: park)
  moreover have "mild s2 s3" by (simp add: s3_def mild_def mild_browser_def)
  ultimately have m13: "mild s1 s3" by (rule mild_trans)
  have inv: "session_inv cap (ms_browser s3)" if i: "session_inv cap (ms_browser s)"
    using cleanup_record_kept[OF kept_refl[OF i], of stamp now "mg_workers m" "mg_pool m"] mild_inv[OF m13] by (simp add: c kept_def)
  define m1 where "m1 = m\<lparr>mg_sessions := dict_set (mg_sessions m) sid s3, mg_workers := w, mg_pool := p2\<rparr>"
  have one: "keeps_sessions cap m m1" by (rule keeps_one[OF assms(1) _ inv]) (simp add: m1_def)
  have "m' = m1 \<or> m' = remove_session parse now (s3\<lparr>ms_state := ''expired''\<rparr>) m1"
    using assms(2) True by (simp add: expire_one_def Let_def c park s3_def[symmetric] m1_def split: if_splits)
  then have "dict_get (mg_sessions m') k = Some x \<Longrightarrow> dict_get (mg_sessions m1) k = Some x" for k x
    by (auto split: if_splits)
  then show ?thesis using one unfolding keeps_sessions_def by blast
qed

lemma admitted_keeps: "keeps_sessions cap m (mark_consumer_admitted stamp user item m)"
proof -
  let ?f = "\<lambda>s. if consumer_matches user item (ms_browser s) then s\<lparr>ms_browser := consumer_admitted stamp (ms_browser s)\<rparr> else s"
  have get: "dict_get (map (\<lambda>(sid, s). (sid, ?f s)) d) k = map_option ?f (dict_get d k)" for d k by (induction d) auto
  have "mild s (?f s)" for s
    by (auto simp: consumer_admitted_def intro!: mild_set mild_browser_adaptive)
  then show ?thesis using mild_inv by (fastforce simp: keeps_sessions_def mark_consumer_admitted_def get)
qed

lemma terminate_sessions [simp]: "mg_sessions (terminate_session stamp clock s m) = mg_sessions m"
  by (simp add: terminate_session_def split: prod.split)

lemma remove_keeps: "keeps_sessions cap m (remove_session parse clock s m)"
  by (simp add: keeps_sessions_def)

lemma manager_write_keeps: "manager_write m m' \<Longrightarrow> keeps_sessions cap m m'"
proof (induction rule: manager_write.induct)
  case (write_dispatch ds m remaining wid di bg ds')
  then show ?case by (intro dispatch_keeps[of ds m remaining wid _ di bg]) simp_all
next
  case (write_sweep m sid s parse stamp lt now stale stale' m')
  then show ?case by (rule expire_keeps)
qed (auto intro: prepare_keeps spawn_failed_keeps attach_keeps publish_keeps exit_keeps admitted_keeps remove_keeps keeps_same)

text \<open>Serving a file touches the session, cleans up its drained epochs and reads the directory again.\<close>

lemma open_keeps:
  assumes "session_inv cap (ms_browser s)" and "0 < clock" and "dict_get (bs_epochs (ms_browser s)) eid = Some e"
    and "open_epoch stamp clock ttl eid e (s, w) = (r, s', w')"
  shows "session_inv cap (ms_browser s')"
proof -
  obtain err s1 w1 where acc: "prepare_epoch_access stamp clock ttl eid e (s, w) = (err, s1, w1)" by (metis prod_cases3)
  have inv: "session_inv cap (ms_browser s1)" using access_good[OF assms(1-3) acc] by (simp add: good_step_def)
  show ?thesis
  proof (cases err)
    case None
    have wf: "epochs_wf (ms_browser s)" "clock \<noteq> 0" using assms(1,2) by (simp_all add: session_inv_def)
    have get: "dict_get (bs_epochs (ms_browser s1)) eid = Some (e\<lparr>ep_last_access := clock\<rparr>)"
      using access_facts[OF wf assms(3) acc] None by blast
    have "mild s1 (s1\<lparr>ms_browser := update_epoch eid (\<lambda>_. rebuild_published_frontier stamp clock (e\<lparr>ep_last_access := clock\<rparr>)) (ms_browser s1)\<rparr>)"
      by (intro mild_set mild_update) (simp add: get)
    then show ?thesis using mild_inv[OF _ inv] assms(4) None by (auto simp: open_epoch_def acc Let_def)
  next
    case (Some x)
    then show ?thesis using inv assms(4) by (simp add: open_epoch_def acc)
  qed
qed

lemma served_open:
  "epoch_manifest_content stamp clock ttl eid e (s, w) = (text1, s', w') \<Longrightarrow> \<exists>r. open_epoch stamp clock ttl eid e (s, w) = (r, s', w')"
  "epoch_init_path stamp clock ttl eid e (s, w) = (file1, s', w') \<Longrightarrow> \<exists>r. open_epoch stamp clock ttl eid e (s, w) = (r, s', w')"
  "epoch_segment_path stamp clock ttl eid e n (s, w) = (file1, s', w')
     \<Longrightarrow> s' = s \<or> (\<exists>r. open_epoch stamp clock ttl eid e (s, w) = (r, s', w'))"
  by (auto simp: epoch_manifest_content_def epoch_init_path_def epoch_segment_path_def Let_def split: prod.splits if_splits)

lemma window_mild: "mild s (maybe_advance_native_hls_window device s)"
  by (auto simp: maybe_advance_native_hls_window_def Let_def split: option.split
      intro!: mild_set mild_plain[where f = "\<lambda>b. b\<lparr>bs_window := x\<rparr>" for x])

lemma preflight_end_mild: "mild s (finish_preflight outcome s)"
  by (auto simp: finish_preflight_def mild_def mild_browser_def epochs_wf_def Let_def split: sum.split)

section \<open>The life of a session\<close>

text \<open>
  Requests, refreshes and the writes of others in any order, at any positive time. The pool of records, the table of workers
  and the other sessions belong to all, so each step finds them as others have left them.
\<close>

inductive session_life :: "int \<Rightarrow> mobile_session \<Rightarrow> bool" for cap :: int where
  life_start:
    "bs_epochs (ms_browser s) = [] \<Longrightarrow> as_candidate_epoch (bs_audio (ms_browser s)) = None \<Longrightarrow> i \<noteq> []
     \<Longrightarrow> session_life cap (initialize_session i stamp cached clock s)"
| life_request:
    "session_life cap s \<Longrightarrow> 0 < clock \<Longrightarrow> session_step cap clock (s, w) (s', w') \<Longrightarrow> session_life cap s'"
| life_seek:
    "session_life cap s \<Longrightarrow> ri_cap i = cap \<Longrightarrow> fresh_id (ri_epoch_id i) s
     \<Longrightarrow> seek_steps i target place playing (s, w, p) = (err, s', w', p') \<Longrightarrow> session_life cap s'"
| life_heartbeat: "session_life cap s \<Longrightarrow> heartbeat_steps i h (s, w, p) = (s', w', p') \<Longrightarrow> session_life cap s'"
| life_refresh:
    "session_life cap s \<Longrightarrow> ri_cap i = cap \<Longrightarrow> fresh_id (ri_epoch_id i) s
     \<Longrightarrow> refresh_session_authority i (s, w, p) = (a, s', w', p') \<Longrightarrow> session_life cap s'"
| life_touch: "session_life cap s \<Longrightarrow> session_life cap (touch_session stamp clock ttl media s)"
| life_adopt: "session_life cap s \<Longrightarrow> session_life cap (adopt_authority authority s)"
| life_window: "session_life cap s \<Longrightarrow> session_life cap (maybe_advance_native_hls_window device s)"
| life_preflight: "session_life cap s \<Longrightarrow> session_life cap (finish_preflight outcome s)"
| life_manifest:
    "session_life cap s \<Longrightarrow> 0 < clock \<Longrightarrow> dict_get (bs_epochs (ms_browser s)) eid = Some e
     \<Longrightarrow> epoch_manifest_content stamp clock ttl eid e (s, w) = (manifest, s', w') \<Longrightarrow> session_life cap s'"
| life_init:
    "session_life cap s \<Longrightarrow> 0 < clock \<Longrightarrow> dict_get (bs_epochs (ms_browser s)) eid = Some e
     \<Longrightarrow> epoch_init_path stamp clock ttl eid e (s, w) = (path, s', w') \<Longrightarrow> session_life cap s'"
| life_segment:
    "session_life cap s \<Longrightarrow> 0 < clock \<Longrightarrow> dict_get (bs_epochs (ms_browser s)) eid = Some e
     \<Longrightarrow> epoch_segment_path stamp clock ttl eid e n (s, w) = (path, s', w') \<Longrightarrow> session_life cap s'"
| life_manager:
    "session_life cap s \<Longrightarrow> dict_get (mg_sessions m) sid = Some s \<Longrightarrow> manager_write m m'
     \<Longrightarrow> dict_get (mg_sessions m') sid = Some s' \<Longrightarrow> session_life cap s'"

lemma life_inv: "session_life cap s \<Longrightarrow> session_inv cap (ms_browser s)"
proof (induction rule: session_life.induct)
  case (life_start s i stamp cached clock)
  then show ?case by (rule initialize_inv)
next
  case (life_request s clock w s' w')
  then show ?case using step_good[of cap clock "(s, w)" "(s', w')"] by (simp add: good_step_def)
next
  case (life_seek s i target place playing w p err s' w' p')
  then show ?case using seek_kept[OF _ _ life_seek.hyps(4), of s] kept_refl[of cap s] by (simp add: kept_def)
next
  case (life_heartbeat s i h w p s' w' p')
  then show ?case using heartbeat_inv by blast
next
  case (life_refresh s i w p a s' w' p')
  then show ?case using refresh_held[of i s w p] by (simp add: held_def)
next
  case (life_touch s stamp clock ttl media)
  then show ?case by (simp add: touch_session_def)
next
  case (life_adopt s authority)
  then show ?case by (simp add: adopt_authority_def Let_def)
next
  case (life_window s device)
  then show ?case using mild_inv[OF window_mild] by blast
next
  case (life_preflight s outcome)
  then show ?case using mild_inv[OF preflight_end_mild] by blast
next
  case (life_manifest s clock eid e stamp ttl w manifest s' w')
  from served_open(1)[OF life_manifest.hyps(4)] obtain r where "open_epoch stamp clock ttl eid e (s, w) = (r, s', w')" ..
  then show ?case by (rule open_keeps[OF life_manifest.IH life_manifest.hyps(2,3)])
next
  case (life_init s clock eid e stamp ttl w path s' w')
  from served_open(2)[OF life_init.hyps(4)] obtain r where "open_epoch stamp clock ttl eid e (s, w) = (r, s', w')" ..
  then show ?case by (rule open_keeps[OF life_init.IH life_init.hyps(2,3)])
next
  case (life_segment s clock eid e stamp ttl n w path s' w')
  from served_open(3)[OF life_segment.hyps(4)] show ?case
    using open_keeps[OF life_segment.IH life_segment.hyps(2,3)] life_segment.IH by auto
next
  case (life_manager s m sid m' s')
  then show ?case using manager_write_keeps unfolding keeps_sessions_def by blast
qed


text \<open>C2: No refresh takes the stream away. Whatever a refresh decides (to fail, replace, move to other threads, promote, switch
  or cancel) and whether it returns or raises, the epoch that was active is still there for its readers, the revision
  goes up by at most one and what the client has acknowledged is not touched; the session keeps its identifier
  and its user.\<close>

theorem refresh_keeps_the_stream:
  assumes "session_life (ri_cap i) s" and "fresh_id (ri_epoch_id i) s" and "bs_active (ms_browser s) = Some a"
    and "refresh_session_authority i (s, w, p) = (answer, s', w', p')"
  shows "dict_get (bs_epochs (ms_browser s')) a \<noteq> None
     \<and> bs_client_revision (ms_browser s') = bs_client_revision (ms_browser s)
     \<and> bs_attach_revision (ms_browser s') \<in> {bs_attach_revision (ms_browser s), bs_attach_revision (ms_browser s) + 1}
     \<and> ms_id s' = ms_id s \<and> ms_user s' = ms_user s"
  using refresh_held[OF life_inv[OF assms(1)] assms(2), of w p] assms(3,4)
  by (auto simp: held_def same_name_def)

section \<open>A failed epoch starts again\<close>

lemma unpublished_waits:
  assumes "\<not> full_mode_requires_initial_attach_gate s" and "\<not> ep_init_published e"
  shows "guarded_ready i path s e = (Inr False, s)"
proof -
  have "s\<lparr>ms_browser := (ms_browser s)\<lparr>bs_lite := bs_lite (ms_browser s)\<rparr>\<rparr> = s" by simp
  then have "epoch_startup_attach_ready (ri_cached i) (ri_clock i) s e = (Inr False, s)"
    using assms by (simp add: epoch_startup_attach_ready_def epoch_startup_attach_gate_def lite_initial_startup_gate_def
        attach_gate_state_def Let_def)
  then show ?thesis by (simp add: guarded_ready_def guard_full_attach_boundary_def)
qed

lemma worker_pool_elsewhere:
  assumes "ensure_epoch_worker new_id stamp clock s (e, p) = (x, e', p')" and "k \<noteq> new_id" and "ep_worker e \<noteq> Some k"
  shows "dict_get p' k = dict_get p k"
proof -
  have rec: "dict_get q' k = dict_get q k"
    if "ensure_worker_record new_id stamp clock s (f, q) = (v, f', q')" "ep_worker f \<noteq> Some k" for f f' q q' v
    using that assms(2) by (auto simp: ensure_worker_record_def Let_def truthy_string_def split: option.splits if_splits)
  have rec_id: "v \<noteq> k"
    if "ensure_worker_record new_id stamp clock s (f, q) = (v, f', q')" "ep_worker f \<noteq> Some k" for f f' q q' v
    using that assms(2) by (auto simp: ensure_worker_record_def Let_def truthy_string_def split: option.splits if_splits)
  have need: "dict_get q' k = dict_get q k \<and> ep_worker f' \<noteq> Some k"
    if "epoch_needs_worker stamp clock s (f, q) = (v, f', q')" "ep_worker f \<noteq> Some k" for f f' q q' v
    using that by (auto simp: epoch_needs_worker_def Let_def truthy_string_def split: option.splits if_splits)
  obtain w e1 p1 where one: "ensure_worker_record new_id stamp clock s (e, p) = (w, e1, p1)" by (metis prod_cases3)
  obtain b e2 p2 where two: "epoch_needs_worker stamp clock s (e, p) = (b, e2, p2)" by (metis prod_cases3)
  obtain v e3 p3 where three: "ensure_worker_record new_id stamp clock s (e2, p2) = (v, e3, p3)" by (metis prod_cases3)
  have "the (ep_worker e) \<noteq> k" if "truthy_string (ep_worker e)" using that assms(3) by (cases "ep_worker e") (auto simp: truthy_string_def)
  then show ?thesis
    using assms(1) rec[OF one assms(3)] rec_id[OF one assms(3)] need[OF two assms(3)] rec[OF three] rec_id[OF three]
    by (auto simp: ensure_epoch_worker_def one two three Let_def split: if_splits option.splits)
qed

lemma idle_worker_queued:
  assumes "ep_worker e = Some k" and "k \<noteq> []" and "\<not> poll_running (ep_process e)" and "\<not> ep_transcoder_completed e"
    and "ep_state e \<notin> {''failed'', ''draining'', ''ended''}"
    and "dict_get p k = Some r" and "wr_state r \<notin> {''queued'', ''running'', ''stopping''}"
  shows "\<exists>e' p' r'. ensure_epoch_worker new_id stamp clock s (e, p) = (Waits, e', p') \<and> ep_state e' = ''starting''
     \<and> ep_worker e' = Some k \<and> dict_get p' k = Some r' \<and> wr_state r' = ''queued''"
proof -
  have needs: "epoch_needs_worker stamp clock s (e, p) = (True, e, p)"
    using assms by (simp add: epoch_needs_worker_def Let_def truthy_string_def)
  obtain e1 p1 where rec: "ensure_worker_record new_id stamp clock s (e, p) = (k, e1, p1)" "ep_worker e1 = Some k"
    using assms(1,2) by (simp add: ensure_worker_record_def Let_def truthy_string_def)
  show ?thesis
    using assms by (simp add: ensure_epoch_worker_def needs rec Let_def truthy_string_def)
qed

text \<open>C27: The refresh restarts the transcode that has failed. A failed epoch is marked as draining and a replacement is
  created for it. But when the refresh then reports that the epoch is not ready, it overwrites the state: an epoch that
  still names its worker becomes \<^verbatim>\<open>warming\<close>, so the call that follows queues the worker of the failed epoch again, beside the one
  of its replacement. Neither the back-off after a failure nor the limit on replacements applies to this
  restart, and since the epoch no longer drains, the failure of the replacement will not end the session.\<close>

theorem draining_epoch_is_restarted:
  assumes "epochs_wf (ms_browser s)" and "active_of s = Some e" and "ep_state e = ''draining''" and "\<not> ep_init_published e"
    and "ep_worker e = Some k" and "k \<noteq> []" and "\<not> poll_running (ep_process e)" and "\<not> ep_transcoder_completed e"
    and "dict_get p k = Some r" and "wr_state r \<notin> {''queued'', ''running'', ''stopping''}"
    and "replacement_of s = Some x" and "ep_worker x \<noteq> Some k" and "ri_worker_ids i 3 \<noteq> k"
    and "\<not> full_mode_requires_initial_attach_gate s" and "\<not> ms_parked s"
    and "show_authority i (s, w, p) = (answer, s', w', p')"
  shows "answer = Goes_On \<and> bs_replacement (ms_browser s') = bs_replacement (ms_browser s)
     \<and> (\<exists>e'. active_of s' = Some e' \<and> ep_id e' = ep_id e \<and> ep_state e' = ''starting'' \<and> ep_worker e' = Some k)
     \<and> (\<exists>r'. dict_get p' k = Some r' \<and> wr_state r' = ''queued'')"
proof -
  obtain j where j: "bs_active (ms_browser s) = Some j" "j \<noteq> []" "dict_get (bs_epochs (ms_browser s)) j = Some e"
    using assms(2) by (auto simp: active_of_def dest: epoch_ofD)
  obtain l where l: "bs_replacement (ms_browser s) = Some l" "l \<noteq> []" "dict_get (bs_epochs (ms_browser s)) l = Some x"
    using assms(11) by (auto simp: replacement_of_def dest: epoch_ofD)
  have diff: "l \<noteq> j" using assms(1) j(1) l(1) by (auto simp: epochs_wf_def)
  define e1 where "e1 = e\<lparr>ep_state := ''warming''\<rparr>"
  define s1 where "s1 = show_waiting e (acknowledge_targets e s)"
  have table: "bs_epochs (ms_browser s1) = dict_set (bs_epochs (ms_browser s)) j e1" "bs_active (ms_browser s1) = Some j"
    "bs_replacement (ms_browser s1) = Some l" "ms_parked s1 = ms_parked s"
    using j l assms(5,6)
    by (simp_all add: s1_def e1_def show_waiting_def acknowledge_targets_def on_audio_def on_active_def on_epoch_def on_browser_def
        update_epoch_def truthy_string_def Let_def split: option.split)
  have one: "epoch_of (ms_browser s1) (Some j) = Some e1" using j(2) by (simp add: epoch_of_def table truthy_string_def)
  obtain e2 p2 r2 where w2: "ensure_epoch_worker (ri_worker_ids i 2) (ri_stamp i) (ri_clock i) s1 (e1, p) = (Waits, e2, p2)"
    "ep_state e2 = ''starting''" "ep_worker e2 = Some k" "dict_get p2 k = Some r2" "wr_state r2 = ''queued''"
    using idle_worker_queued[of e1 k p r "ri_worker_ids i 2" "ri_stamp i" "ri_clock i" s1] assms(5-10) by (auto simp: e1_def)
  define s2 where "s2 = s1\<lparr>ms_browser := update_epoch j (\<lambda>_. e2) (ms_browser s1)\<rparr>"
  have step1: "ensure_one (ri_stamp i) (ri_clock i) (ri_worker_ids i 2, Some j) ([], s1, p) = ([Waits], s2, p2)"
    by (simp add: ensure_one_def one w2(1) s2_def)
  have "dict_get (bs_epochs (ms_browser s2)) l = Some x" "dict_get (bs_epochs (ms_browser s2)) j = Some e2"
    using l(3) diff by (simp_all add: s2_def table update_epoch_get)
  then have two: "epoch_of (ms_browser s2) (Some l) = Some x" using l(2) by (simp add: epoch_of_def truthy_string_def)
  obtain n3 x3 p3 where w3: "ensure_epoch_worker (ri_worker_ids i 3) (ri_stamp i) (ri_clock i) s2 (x, p2) = (n3, x3, p3)" by (metis prod_cases3)
  define s3 where "s3 = s2\<lparr>ms_browser := update_epoch l (\<lambda>_. x3) (ms_browser s2)\<rparr>"
  have step2: "ensure_one (ri_stamp i) (ri_clock i) (ri_worker_ids i 3, Some l) ([Waits], s2, p2) = ([Waits, n3], s3, p3)"
    by (simp add: ensure_one_def two w3 s3_def)
  have p3: "dict_get p3 k = Some r2" using worker_pool_elsewhere[OF w3, of k] assms(12,13) w2(4) by simp
  have s3: "active_of s3 = Some e2" "bs_replacement (ms_browser s3) = Some l"
    using j(2) diff by (simp_all add: s3_def s2_def table active_of_def epoch_of_def update_epoch_get truthy_string_def)
  have id: "ep_id e2 = ep_id e" using ensure_epoch_worker_same[OF w2(1)] by (simp add: same_epoch_def e1_def)
  have "\<exists>t. ensure_epoch_workers (ri_worker_ids i 2) (ri_worker_ids i 3) (ri_stamp i) (ri_clock i) (s1, p) = (t, p3)
      \<and> ms_browser t = ms_browser s3"
    using assms(15) by (simp add: ensure_epoch_workers_def Let_def table step1 step2)
  then obtain t where t: "queue_workers i (s1, w, p) = (t, w, p3)" "ms_browser t = ms_browser s3"
    by (auto simp: queue_workers_def)
  have "stranded i e (s, w, p) = (Goes_On, s, w, p)" by (simp add: stranded_def l(1))
  then have "(answer, s', w', p') = (Goes_On, t, w, p3)"
    using assms(16) by (simp add: show_authority_def assms(2) and_go_def unpublished_waits[OF assms(14,4)] Let_def s1_def[symmetric] t(1))
  moreover have "active_of t = active_of s3" by (simp add: active_of_def t(2))
  ultimately show ?thesis using s3 t(2) l(1) w2 p3 id by simp
qed

section \<open>A seek leaves the audio switch behind\<close>

text \<open>A refresh that finds no replacement and a healthy active epoch, and nothing that asks for other threads.\<close>

lemma cleanup_records_keep:
  fixes stamp and now and s :: mobile_session and w and p
  defines "t \<equiv> fst (cleanup_draining_records stamp now (s, w, p))"
  shows "bs_audio (ms_browser t) = bs_audio (ms_browser s)" and "bs_active (ms_browser t) = bs_active (ms_browser s)"
    and "bs_replacement (ms_browser t) = bs_replacement (ms_browser s)"
    and "bs_active (ms_browser s) = Some k \<Longrightarrow> dict_get (bs_epochs (ms_browser t)) k = dict_get (bs_epochs (ms_browser s)) k"
proof -
  define step :: "refresh_state \<Rightarrow> string \<times> playback_epoch \<Rightarrow> refresh_state" where "step = (\<lambda>(s, workers, p) (eid, e).
         let b = ms_browser s in
         if bs_active b = Some eid \<or> bs_replacement b = Some eid then (s, workers, p)
         else if \<not> epoch_draining_expired b (Some now) now e then (s, workers, p)
         else discard_epoch_record stamp now eid (s, workers, p))"
  define same :: "mobile_session \<Rightarrow> mobile_session \<Rightarrow> bool" where "same = (\<lambda>s t. bs_audio (ms_browser t) = bs_audio (ms_browser s) \<and> bs_active (ms_browser t) = bs_active (ms_browser s)
      \<and> bs_replacement (ms_browser t) = bs_replacement (ms_browser s)
      \<and> (\<forall>k. bs_active (ms_browser s) = Some k \<longrightarrow> dict_get (bs_epochs (ms_browser t)) k = dict_get (bs_epochs (ms_browser s)) k))"
  have one: "same (fst swp) (fst (step swp x))" for swp x
    by (cases swp; cases x) (simp add: step_def same_def discard_record_browser Let_def)
  have "same (fst swp) (fst (foldl step swp es))" for swp es
  proof (induction es arbitrary: swp)
    case (Cons x es)
    show ?case using one[of swp x] Cons.IH[of "step swp x"] by (simp add: same_def)
  qed (simp add: same_def)
  from this[of "(s, w, p)" "bs_epochs (ms_browser s)"] have "same s t" by (simp add: t_def cleanup_draining_records_def step_def)
  then show "bs_audio (ms_browser t) = bs_audio (ms_browser s)" "bs_active (ms_browser t) = bs_active (ms_browser s)"
    "bs_replacement (ms_browser t) = bs_replacement (ms_browser s)"
    "bs_active (ms_browser s) = Some k \<Longrightarrow> dict_get (bs_epochs (ms_browser t)) k = dict_get (bs_epochs (ms_browser s)) k"
    by (simp_all add: same_def)
qed

lemma on_epoch_audio [simp]: "bs_audio (ms_browser (on_epoch ref f s)) = bs_audio (ms_browser s)"
  by (simp add: on_epoch_def on_browser_def split: option.split)

lemma ensure_workers_audio: "ensure_epoch_workers id1 id2 stamp clock (s, p) = (t, q) \<Longrightarrow> bs_audio (ms_browser t) = bs_audio (ms_browser s)"
proof -
  have one: "bs_audio (ms_browser v) = bs_audio (ms_browser u)" if "ensure_one stamp clock idref (n, u, r) = (n', v, r')" for idref n u r n' v r'
    using that by (cases idref) (auto simp: ensure_one_def Let_def split: option.splits prod.splits)
  obtain n1 s1 p1 where 1: "ensure_one stamp clock (id1, bs_active (ms_browser s)) ([], s, p) = (n1, s1, p1)" by (metis prod_cases3)
  obtain n2 s2 p2 where 2: "ensure_one stamp clock (id2, bs_replacement (ms_browser s)) (n1, s1, p1) = (n2, s2, p2)" by (metis prod_cases3)
  show "ensure_epoch_workers id1 id2 stamp clock (s, p) = (t, q) \<Longrightarrow> bs_audio (ms_browser t) = bs_audio (ms_browser s)"
    using one[OF 1] one[OF 2] by (auto simp: ensure_epoch_workers_def 1 2 Let_def split: if_splits)
qed

lemma show_audio:
  assumes "as_state (bs_audio (ms_browser s)) \<noteq> ''committing''"
  shows "bs_audio (ms_browser (acknowledge_targets a s)) = bs_audio (ms_browser s)"
    and "bs_audio (ms_browser (show_ready i a t)) = bs_audio (ms_browser t)"
    and "bs_audio (ms_browser (show_waiting a t)) = bs_audio (ms_browser t)"
    and "bs_audio (ms_browser (fst (queue_workers i (t, w, p)))) = bs_audio (ms_browser t)"
  using assms
  by (auto simp: acknowledge_targets_def show_ready_def show_waiting_def queue_workers_def in_state_def on_browser_def on_active_def
      Let_def ensure_workers_audio split: option.split prod.split)

lemma healthy_show_audio:
  assumes "active_of s = Some e" and "ep_state e \<noteq> ''draining''" and "as_state (bs_audio (ms_browser s)) \<noteq> ''committing''"
  shows "bs_audio (ms_browser (fst (snd (show_authority i (s, w, p))))) = bs_audio (ms_browser s)"
proof -
  have "stranded i e (s, w, p) = (Goes_On, s, w, p)" using assms(2) by (simp add: stranded_def)
  moreover obtain y u where ready: "guarded_ready i ''refresh_active_attach_ready'' s e = (y, u)" by fastforce
  moreover obtain err r where iss: "issue_attach_revision (ri_cached i) (ri_clock i) 1 ''initial_attach_ready'' (Some e) u = (err, r)" by fastforce
  moreover have u: "bs_audio (ms_browser u) = bs_audio (ms_browser s)" using guarded_mild[OF ready] by (simp add: same_revision_def)
  moreover have "bs_audio (ms_browser r) = bs_audio (ms_browser s)" using issue_same[OF iss] u by simp
  ultimately show ?thesis
    using assms(3) by (auto simp: show_authority_def assms(1) and_go_def Let_def show_audio split: sum.split option.split)
qed

lemma healthy_refresh_audio:
  assumes "bs_replacement (ms_browser s) = None" and "active_of s = Some e" and "ep_state e \<notin> {''failed'', ''draining'', ''ended''}"
    and "as_state (bs_audio (ms_browser s)) \<noteq> ''committing''"
    and "mt_resupply (ri_maintenance i) = (\<lambda>_ _ _. None)" and "mt_downshift (ri_maintenance i) = (\<lambda>_ _ _. None)"
  shows "bs_audio (ms_browser (fst (snd (refresh_session_authority i (s, w, p))))) = bs_audio (ms_browser s)"
proof -
  define s1 where "s1 = fst (ensure_full_preflight (ri_cached i) (ri_clock i) s)"
  have s1: "bs_audio (ms_browser s1) = bs_audio (ms_browser s)" "active_of s1 = Some e" "bs_replacement (ms_browser s1) = None"
    using ensure_preflight_same[of "ri_cached i" "ri_clock i" s] assms(1,2)
    by (simp_all add: s1_def same_epochs_def active_of_def epoch_of_def split: if_splits)
  obtain s2 w2 p2 where clean: "cleanup_draining_records (ri_stamp i) (ri_clock i) (s1, w, p) = (s2, w2, p2)" by (metis prod_cases3)
  note keep = cleanup_records_keep[where stamp = "ri_stamp i" and now = "ri_clock i" and s = s1 and w = w and p = p, unfolded clean fst_conv]
  obtain k where k: "bs_active (ms_browser s1) = Some k" "k \<noteq> []" "dict_get (bs_epochs (ms_browser s1)) k = Some e"
    using s1(2) by (auto simp: active_of_def dest: epoch_ofD)
  have s2: "active_of s2 = Some e" "bs_replacement (ms_browser s2) = None" "bs_active (ms_browser s2) = Some k"
    "dict_get (bs_epochs (ms_browser s2)) k = Some e"
    using keep(2,3) keep(4)[OF k(1)] k s1(3) by (simp_all add: active_of_def epoch_of_def truthy_string_def)
  define s3 where "s3 = on_active (observe_epoch i s2) s2"
  define e3 where "e3 = observe_epoch i s2 e"
  have e3: "ep_state e3 = ep_state e" by (simp add: e3_def observe_epoch_def record_frontier_sample_def Let_def)
  have s3: "active_of s3 = Some e3" "replacement_of s3 = None" "on_replacement f s3 = s3" "bs_audio (ms_browser s3) = bs_audio (ms_browser s)" for f
    using s2 k(2) keep(1) s1(1)
    by (simp_all add: s3_def e3_def active_of_def replacement_of_def on_replacement_def on_active_def on_epoch_def on_browser_def epoch_of_def
        truthy_string_def update_epoch_get)
  have "begin_refresh i (s, w, p) = (Goes_On, s3, w2, p2)"
    by (simp add: begin_refresh_def Let_def s1_def[symmetric] clean s2(1) s3_def[symmetric] s3(3))
  moreover have "start_maintenance i (s3, w2, p2) = (Goes_On, s3, w2, p2)"
    by (simp add: start_maintenance_def s3 start_resupply_def start_downshift_def assms(5,6) Let_def)
  ultimately have "refresh_session_authority i (s, w, p) = show_authority i (s3, w2, p2)"
    using assms(3) e3
    by (simp add: refresh_session_authority_def and_go_def replacement_failed_def active_failed_def draining_retried_def
        maintenance_section_def settle_replacement_def s3 Let_def)
  moreover have "ep_state e3 \<noteq> ''draining''" using assms(3) e3 by simp
  ultimately show ?thesis using healthy_show_audio[OF s3(1)] assms(4) s3(4) by simp
qed

section \<open>A refresh does not rename a session\<close>

text \<open>Whatever state a session is in, a refresh leaves its identifier, its user and its pipeline; the manager finds it again.\<close>

lemma name_mild: "same_name s t \<Longrightarrow> mild t u \<Longrightarrow> same_name s u"
  using same_name_trans mild_name by blast

lemma discard_replacement_name: "same_name s (fst (discard_replacement i (s, w, p)))"
  by (simp add: discard_replacement_def discard_record_name split: option.split)

lemma discarded_name: "mild s t \<Longrightarrow> same_name s (fst (discard_epoch_record stamp clock eid (t, w, p)))"
  using same_name_trans[OF mild_name discard_record_name] .

lemma begin_name: "same_name s (fst (snd (begin_refresh i (s, w, p))))"
proof -
  define s1 where "s1 = fst (ensure_full_preflight (ri_cached i) (ri_clock i) s)"
  obtain t v q where c: "cleanup_draining_records (ri_stamp i) (ri_clock i) (s1, w, p) = (t, v, q)" by (metis prod_cases3)
  have "same_name s t"
    using same_name_trans[OF preflight_name[of s "ri_cached i" "ri_clock i"]] cleanup_records_name[of s1 "ri_stamp i" "ri_clock i" w p]
    by (simp add: s1_def[symmetric] c)
  moreover have "mild t (fst (snd (begin_refresh i (s, w, p))))"
    by (auto simp: begin_refresh_def Let_def s1_def[symmetric] c intro!: mild_steps split: option.split)
  ultimately show ?thesis by (rule name_mild)
qed

lemma lost_name: "same_name s (fst (snd (replacement_lost i r (s, w, p))))"
proof -
  define s1 where "s1 = on_browser (\<lambda>b. b\<lparr>bs_retry_not_before := ri_clock i + ROUTE2_REPLACEMENT_RETRY_BACKOFF_SECONDS\<rparr>) s"
  have "mild s s1" by (simp add: s1_def mild_steps)
  obtain t v q where d: "discard_replacement i (s1, w, p) = (t, v, q)" by (metis prod_cases3)
  have "same_name s1 t" using discard_replacement_name[of s1 i w p] by (simp add: d)
  moreover have "mild t (fst (snd (replacement_lost i r (s, w, p))))"
    by (auto simp: replacement_lost_def Let_def s1_def[symmetric] d split: option.splits prod.splits sum.splits bool.splits
        intro!: mild_steps dest: startup_mild(1))
  ultimately show ?thesis using same_name_trans[OF mild_name[OF \<open>mild s s1\<close>]] name_mild by blast
qed

lemma replacement_failed_name: "same_name s (fst (snd (replacement_failed i (s, w, p))))"
proof (cases "replacement_of s")
  case (Some r)
  define u where "u = on_audio (fail_audio_switch r (Some (or_string (ep_last_error r) ''Could not prepare the selected audio track''))) s"
  obtain t1 where t1: "mild s t1" "abort_downshift_replacement (ri_stamp i) (ri_clock i) ''replacement_failed'' r (s, w, p)
      = discard_epoch_record (ri_stamp i) (ri_clock i) (ep_id r) (t1, w, p)" using abort_downshift_mild by blast
  obtain t2 where t2: "mild s t2" "abort_resupply_replacement (ri_stamp i) (ri_clock i) ''replacement_failed'' r (s, w, p)
      = discard_epoch_record (ri_stamp i) (ri_clock i) (ep_id r) (t2, w, p)" using abort_resupply_mild by blast
  obtain t3 v3 q3 where d: "discard_replacement i (s, w, p) = (t3, v3, q3)" by (metis prod_cases3)
  have "mild s u" by (simp add: u_def mild_fail_audio)
  then have a: "same_name s (fst (discard_replacement i (u, w, p)))"
    using same_name_trans[OF mild_name discard_replacement_name] by blast
  have c: "same_name s (fail_session e t3)" for e
    using name_mild[of s t3 "fail_session e t3"] discard_replacement_name[of s i w p] by (simp add: d mild_steps)
  show ?thesis
    using a c discarded_name[OF t1(1)] discarded_name[OF t2(1)] lost_name[of s i r w p]
    by (simp add: replacement_failed_def Some t1(2) t2(2) d u_def[symmetric])
qed (simp add: replacement_failed_def)

lemma replace_active_name: "same_name s (fst (snd (replace_active i reason a (s, w, p))))"
proof -
  obtain r1 t1 v1 where run: "create_replacement_epoch (ri_cap i) (ri_epoch_id i) (ri_stamp i) (ri_clock i)
      (recovery_target s (Some a)) reason True (s, w) = (r1, t1, v1)" by (metis prod_cases3)
  show ?thesis using create_name[OF run] by (simp add: replace_active_def create_replacement_def run Let_def)
qed

lemma active_failed_name: "same_name s (fst (snd (active_failed i (s, w, p))))"
proof -
  define t where "t = on_active (mark_draining (ri_clock i) None) s"
  have m: "mild s t" by (simp add: t_def mild_steps)
  have go: "same_name s (fst (snd (and_go x (\<lambda>(s, w, p). (Goes_On, in_state y s, w, p)))))" if "same_name s (fst (snd x))" for x y
  proof -
    obtain a u v q where x: "x = (a, u, v, q)" by (metis prod_cases4)
    show ?thesis using that name_mild[of s u "in_state y u"] by (cases a) (simp_all add: x and_go_def mild_steps)
  qed
  have new: "same_name s (fst (snd (replace_active i reason a (t, w, p))))" for reason a
    by (rule same_name_trans[OF mild_name[OF m] replace_active_name])
  have fail: "same_name s (fail_session e t)" for e by (rule name_mild[OF mild_name[OF m]]) (simp add: mild_steps)
  show ?thesis
    using mild_name[OF m] fail new by (auto simp: active_failed_def Let_def t_def[symmetric] intro!: go split: option.split)
qed

lemma draining_retried_name: "same_name s (fst (snd (draining_retried i (s, w, p))))"
proof -
  have "same_name s (fail_session e s)" for e by (rule mild_name) (simp add: mild_steps)
  then show ?thesis using replace_active_name by (auto simp: draining_retried_def Let_def split: option.split)
qed

lemma maintenance_epoch_name: "same_name s (maintenance_epoch i f a s)"
  by (simp add: maintenance_epoch_def Let_def on_browser_def same_name_def is_route2_def)

lemma on_browser_name: "(\<And>b. bs_engine_mode (f b) = bs_engine_mode b) \<Longrightarrow> same_name s (on_browser f s)"
  by (simp add: on_browser_def same_name_def is_route2_def)

lemma start_resupply_name: "same_name s (fst (start_resupply i a (s, w, p)))"
proof (cases "truthy_string (bs_replacement (ms_browser s)) \<or> record_of a p = None \<or> mt_resupply (ri_maintenance i) s p a = None")
  case True
  then show ?thesis by (auto simp: start_resupply_def)
next
  case False
  then obtain n rec where n: "mt_resupply (ri_maintenance i) s p a = Some n" and rec: "record_of a p = Some rec" by auto
  define s1 where "s1 = maintenance_epoch i (\<lambda>e. e\<lparr>ep_replacement_reason := Some ''adaptive_resupply_boost'',
      ep_resupply_target := Some (max (ri_min_threads i) n), ep_resupply_abort := None\<rparr>) a s"
  define s2 where "s2 = on_adaptive (\<lambda>d. d\<lparr>ad_resupply_abort := None, ad_resupply_state := ''boost_replacement_warming'',
      ad_priority_reexpand := True, ad_donor_protection := True\<rparr>) s1"
  obtain s3 p3 where e: "ensure_epoch_workers (ri_worker_ids i 0) (ri_worker_ids i 1) (ri_stamp i) (ri_clock i) (s2, p) = (s3, p3)" by fastforce
  have "same_name s s1" unfolding s1_def by (rule maintenance_epoch_name)
  then have "same_name s s2" by (rule name_mild) (simp add: s2_def mild_steps)
  then have "same_name s s3" using ensure_workers_mild[OF e] by (rule name_mild)
  then show ?thesis using False
    by (simp add: start_resupply_def n rec Let_def s1_def[symmetric] s2_def[symmetric] e del: One_nat_def)
qed

lemma start_downshift_name: "same_name s (fst (start_downshift i a (s, w, p)))"
proof -
  have abort: "mild s' (on_active (\<lambda>e. e\<lparr>ep_downshift_abort := x\<rparr>) s')" and ad: "mild s' (on_adaptive g s')" for s' x g
    by (simp_all add: mild_steps)
  have keep: "same_name s (on_active (\<lambda>e. e\<lparr>ep_downshift_abort := x\<rparr>) u)" "same_name s (on_adaptive g u)" if "same_name s u" for u x g
    using name_mild[OF that abort] name_mild[OF that ad] .
  have new: "same_name s (maintenance_epoch i f a u)" if "same_name s u" for f u
    by (rule same_name_trans[OF that maintenance_epoch_name])
  show ?thesis
    by (auto simp: start_downshift_def Let_def intro!: keep new split: option.split)
qed

lemma start_maintenance_name: "same_name s (fst (snd (start_maintenance i (s, w, p))))"
proof (cases "active_of s")
  case (Some a)
  obtain s1 w1 p1 where r: "start_resupply i a (s, w, p) = (s1, w1, p1)" by (metis prod_cases3)
  have one: "same_name s s1" using start_resupply_name[of s i a w p] by (simp add: r)
  have "same_name s (fst (start_downshift i a (s1, w1, p1)))" by (rule same_name_trans[OF one start_downshift_name])
  then show ?thesis using one by (simp add: start_maintenance_def Some r Let_def)
qed (simp add: start_maintenance_def)

lemma promote_record_name: "same_name s (fst (snd (promote_replacement i r (s, w, p))))"
proof -
  obtain err t v where run: "promote_replacement_epoch (ri_cached i) (ri_clock i) r (s, w) = (err, t, v)" by (metis prod_cases3)
  have "mild t (rebuild_active i t)" by (simp add: rebuild_active_def mild_steps)
  then show ?thesis
    using promote_name[OF run] name_mild by (auto simp: promote_replacement_def run Let_def split: option.split)
qed

lemma switch_name: "same_name s (fst (snd (switch_epochs i reason r (s, w, p))))"
proof -
  define n where "n = max 1 (bs_attach_revision (ms_browser s) + 1)"
  define s1 where "s1 = on_browser (\<lambda>b. b\<lparr>bs_active := Some (ep_id r), bs_replacement := None\<rparr>)
      (on_replacement (\<lambda>e. e\<lparr>ep_state := ''attach_ready''\<rparr>) s)"
  have "mild s (on_replacement (\<lambda>e. e\<lparr>ep_state := ''attach_ready''\<rparr>) s)" by (simp add: mild_steps)
  from same_name_trans[OF mild_name[OF this] on_browser_name] have s1: "same_name s s1" by (simp add: s1_def)
  obtain err s2 where iss: "issue_attach_revision (ri_cached i) (ri_clock i) n reason (Some r) s1 = (err, s2)" by fastforce
  have s2: "same_name s s2" by (rule same_name_trans[OF s1 issue_name[OF iss]])
  have mode: "same_name s2 (on_epoch ref (\<lambda>_. e') s2)" for ref e'
    by (simp add: on_epoch_def same_name_def is_route2_def on_browser_def update_epoch_def split: option.split)
  show ?thesis
    using s2 same_name_trans[OF s2 mode]
    by (auto simp: switch_epochs_def Let_def s1_def[symmetric] n_def[symmetric] iss split: option.split prod.split)
qed

lemma name_and_go:
  assumes "same_name s (fst (snd x))" and "\<And>t w p. same_name t (fst (snd (f (t, w, p))))"
  shows "same_name s (fst (snd (and_go x f)))"
proof -
  obtain a t w p where x: "x = (a, t, w, p)" by (metis prod_cases4)
  show ?thesis using assms same_name_trans by (cases a) (auto simp: x and_go_def)
qed

lemma promote_downshift_name: "same_name s (fst (snd (promote_downshift i r (s, w, p))))"
proof (cases "\<not> truthy_string (ep_reclaim_request r) \<and> would_interrupt_client s")
  case True
  have "mild s (on_replacement (\<lambda>e. e\<lparr>ep_state := ''attach_ready''\<rparr>) s)" by (simp add: mild_steps)
  then show ?thesis using True mild_name by (simp add: promote_downshift_def)
next
  case False
  define u where "u = on_adaptive (\<lambda>d. d\<lparr>ad_downshift_retry_not_before := 0, ad_downshift_retry_blocker := None\<rparr>) s"
  have u: "same_name s u" unfolding u_def by (rule mild_name) (simp add: mild_steps)
  have "mild t (rebuild_active i (if c then on_adaptive g t else t))" for c g t by (simp add: rebuild_active_def mild_steps)
  then have last: "same_name t (rebuild_active i (if c then on_adaptive g t else t))" for c g t by (rule mild_name)
  show ?thesis
    using False last unfolding promote_downshift_def Let_def prod.case u_def[symmetric]
    by (simp only: if_False) (rule name_and_go[OF same_name_trans[OF u switch_name]], simp)
qed

lemma promote_resupply_name: "same_name s (fst (snd (promote_resupply i r (s, w, p))))"
proof -
  have "mild t (rebuild_active i (on_adaptive g t))" for g t by (simp add: rebuild_active_def mild_steps)
  then have last: "same_name t (rebuild_active i (on_adaptive g t))" for g t by (rule mild_name)
  show ?thesis unfolding promote_resupply_def by (rule name_and_go[OF switch_name]) (simp add: last)
qed

lemma maintenance_section_name:
  assumes switch: "\<And>r s w p. same_name s (fst (snd (switch r (s, w, p))))"
    and abort: "\<And>why r s w p. \<exists>t. mild s t \<and> abort why r (s, w, p) = discard_epoch_record (ri_stamp i) (ri_clock i) (ep_id r) (t, w, p)"
  shows "same_name s (fst (snd (maintenance_section i reason abort switch (s, w, p))))"
proof (cases "replacement_of s")
  case (Some r)
  let ?kind = "if reason = ''maintenance_downshift'' then ''downshift'' else ''resupply''"
  let ?path = "if reason = ''maintenance_downshift'' then ''maintenance_downshift_ready_check'' else ''adaptive_resupply_ready_check''"
  obtain x u where ready: "maintenance_ready i ?path s r = (x, u)" by fastforce
  have u: "same_name s u" using maintenance_ready_mild[OF ready] mild_name by blast
  have wait: "same_name s (on_replacement keep_waiting u)" by (rule name_mild[OF u]) (simp add: mild_steps)
  have sw: "same_name s (fst (snd (switch r (u, w, p))))" by (rule same_name_trans[OF u switch])
  have ab: "same_name s (fst (abort why r (s, w, p)))" for why using abort[of s why r w p] discarded_name by metis
  show ?thesis
    using u wait sw ab
    by (cases "maintenance_abort_reason i ?kind s p r")
      (simp_all add: maintenance_section_def Some ready split: sum.split bool.split)
qed (simp add: maintenance_section_def)

lemma settle_name: "same_name s (fst (snd (settle_replacement i (s, w, p))))"
proof -
  have other: "same_name s (in_state y s)" for y by (rule mild_name) (simp add: mild_steps)
  have audio: "same_name s (fst (snd (audio_replacement i r (s, w, p))))" for r
  proof -
    define u where "u = on_audio (fail_audio_switch r
        (Some (or_string (ep_last_error r) ''Selected audio track preparation ended before it was ready.''))) s"
    define x where "x = on_audio (\<lambda>a. a\<lparr>as_state := ''candidate_preparing'', as_candidate_state := ''preparing'',
        as_error := None, as_candidate_error := None\<rparr>) (on_replacement keep_waiting s)"
    have "mild s x" by (simp add: x_def mild_steps)
    moreover have "mild s u" by (simp add: u_def mild_fail_audio)
    moreover have "same_name s (fst (cancel_candidate i why failed (s, w, p)))" for why failed
    proof -
      obtain b v where c: "cancel_audio_candidate why failed (ms_browser s, w) = (b, v)" by fastforce
      show ?thesis using cancel_fields(4)[of why failed "ms_browser s" w]
        by (simp add: cancel_candidate_def Let_def c same_name_def is_route2_def)
    qed
    moreover have "same_name s (candidate_ready (ri_clock i) r s)"
    proof -
      have "mild s (on_replacement (\<lambda>e. e\<lparr>ep_state := ''attach_ready''\<rparr>) s)" by (simp add: mild_steps)
      from same_name_trans[OF mild_name[OF this] on_browser_name] show ?thesis
        by (simp add: candidate_ready_def on_audio_def)
    qed
    ultimately show ?thesis
      unfolding audio_replacement_def Let_def prod.case u_def[symmetric] x_def[symmetric]
      using promote_record_name mild_name same_name_trans[OF mild_name discard_replacement_name] by simp
  qed
  have recovery: "same_name s (fst (snd (recovery_replacement i r (s, w, p))))" for r
  proof -
    obtain x u where ready: "guarded_ready i ''replacement_promotion_check'' s r = (x, u)" by fastforce
    have u: "same_name s u" using guarded_mild[OF ready] mild_name by blast
    have "same_name s ((in_state y (on_replacement keep_waiting u))\<lparr>ms_state := z\<rparr>)" for y z by (rule name_mild[OF u]) (simp add: mild_steps)
    then show ?thesis
      using u same_name_trans[OF u promote_record_name]
      by (simp add: recovery_replacement_def ready Let_def split: sum.split bool.split)
  qed
  show ?thesis using other audio recovery by (simp add: settle_replacement_def Let_def split: option.split)
qed

lemma show_name: "same_name s (fst (snd (show_authority i (s, w, p))))"
proof (cases "active_of s")
  case (Some a)
  show ?thesis unfolding show_authority_def Some option.case fst_conv
  proof (rule name_and_go)
    show "same_name s (fst (snd (stranded i a (s, w, p))))" by (rule mild_name[OF stranded_mild])
    fix t v q
    obtain y u where ready: "guarded_ready i ''refresh_active_attach_ready'' t a = (y, u)" by fastforce
    obtain err r where iss: "issue_attach_revision (ri_cached i) (ri_clock i) 1 ''initial_attach_ready'' (Some a) u = (err, r)" by fastforce
    have u: "same_name t u" using guarded_mild[OF ready] mild_name by blast
    have r: "same_name t r" by (rule same_name_trans[OF u issue_name[OF iss]])
    have fin: "same_name t (fst (queue_workers i (show_ready i a (acknowledge_targets a z), v, q)))"
      "same_name t (fst (queue_workers i (show_waiting a (acknowledge_targets a z), v, q)))" if "same_name t z" for z
      by (rule name_mild[OF name_mild[OF that] queue_workers_mild], rule mild_trans[OF show_mild(3)], rule show_mild)+
    show "same_name t (fst (snd ((\<lambda>(s, w, p). let (ready, s1) = guarded_ready i ''refresh_active_attach_ready'' s a in
               case ready of
                 Inl x \<Rightarrow> (Raised x, s1, w, p)
               | Inr ok \<Rightarrow>
                   let (err, s2) = (if ok \<and> bs_attach_revision (ms_browser s1) = 0
                          then issue_attach_revision (ri_cached i) (ri_clock i) 1 ''initial_attach_ready'' (Some a) s1 else (None, s1))
                   in case err of
                        Some x \<Rightarrow> (Raised x, s2, w, p)
                      | None \<Rightarrow>
                          let s3 = acknowledge_targets a s2
                          in (Goes_On, queue_workers i (if ok then show_ready i a s3 else show_waiting a s3, w, p))) (t, v, q))))"
      using u r fin by (auto simp: ready iss Let_def split: sum.split option.split)
  qed
qed (simp add: show_authority_def)

lemma refresh_name: "same_name s (fst (snd (refresh_session_authority i (s, w, p))))"
  unfolding refresh_session_authority_def
  by (rule name_and_go, rule begin_name, rule name_and_go, rule replacement_failed_name, rule name_and_go, rule active_failed_name,
      rule name_and_go, rule draining_retried_name, rule name_and_go, rule start_maintenance_name,
      rule name_and_go, rule maintenance_section_name, rule promote_downshift_name, rule abort_downshift_mild,
      rule name_and_go, rule maintenance_section_name, rule promote_resupply_name, rule abort_resupply_mild,
      rule name_and_go, rule settle_name, rule show_name)

text \<open>So the refresh is one that the creation of sessions may call.\<close>

lemma refresh_in_manager_keeps: "refresh_keeps (refresh_in_manager i)"
  unfolding refresh_keeps_def
proof (intro allI impI)
  fix sid and m :: manager and k s
  assume k: "dict_get (mg_sessions m) k = Some s"
  show "\<exists>s'. dict_get (mg_sessions (refresh_in_manager i sid m)) k = Some s' \<and> same_name s s'"
  proof (cases "dict_get (mg_sessions m) sid")
    case None
    then show ?thesis using k by (simp add: refresh_in_manager_def)
  next
    case (Some t)
    obtain a t' w p where run: "refresh_session_authority i (t, mg_workers m, mg_pool m) = (a, t', w, p)" by (metis prod_cases4)
    have "same_name t t'" using refresh_name[of t i "mg_workers m" "mg_pool m"] by (simp add: run)
    then show ?thesis using k Some by (auto simp: refresh_in_manager_def run)
  qed
qed

lemma refresh_in_manager_ok:
  assumes "registry_ok m"
  shows "registry_ok (refresh_in_manager i sid m)"
proof (cases "dict_get (mg_sessions m) sid")
  case (Some s)
  obtain a s' w p where run: "refresh_session_authority i (s, mg_workers m, mg_pool m) = (a, s', w, p)" by (metis prod_cases4)
  have "same_name s s'" using refresh_name[of s i "mg_workers m" "mg_pool m"] by (simp add: run)
  note put = registry_ok_put[OF assms Some this]
  have "registry_ok (m\<lparr>mg_sessions := dict_set (mg_sessions m) sid s', mg_workers := w, mg_pool := p\<rparr>)"
    using put registry_ok_cong[of "m\<lparr>mg_sessions := dict_set (mg_sessions m) sid s', mg_workers := w, mg_pool := p\<rparr>"
        "m\<lparr>mg_sessions := dict_set (mg_sessions m) sid s'\<rparr>"] by simp
  then show ?thesis using assms by (simp add: refresh_in_manager_def Some run)
qed (use assms in \<open>simp add: refresh_in_manager_def\<close>)

section \<open>A seek during an audio switch\<close>

lemma position_in_epoch_cong:
  assumes "ms_duration t = ms_duration s"
  shows "position_in_epoch t e x = position_in_epoch s e x"
proof -
  have "epoch_ready_end t e = epoch_ready_end s e"
    unfolding epoch_ready_end_def assms ..
  then show ?thesis
    unfolding position_in_epoch_def assms by simp
qed

lemma preparing_in_progress:
  assumes "as_state (bs_audio b) = ''candidate_preparing''"
  shows "audio_switch_in_progress b"
  using assms
  by (simp add: audio_switch_in_progress_def Let_def py_lower_def py_lower_char_def py_strip_def is_py_space_def char_code_def)

lemma seek_in_range:
  assumes "epochs_wf (ms_browser s)" and "active_of s = Some a" and "bs_replacement (ms_browser s) = Some r"
    and "position_in_epoch s (rebuild_published_frontier (ri_stamp i) (ri_clock i) a) (clamp_time target (ms_duration s))"
    and "seek_steps i target place playing (s, w, p) = (err, s', w', p')"
  shows "err = None \<and> bs_replacement (ms_browser s') = None \<and> dict_get (bs_epochs (ms_browser s')) r = None
     \<and> bs_audio (ms_browser s') = bs_audio (ms_browser s) \<and> bs_engine_mode (ms_browser s') = bs_engine_mode (ms_browser s)
     \<and> (\<exists>e. active_of s' = Some e \<and> ep_state e = ep_state a \<and> ep_attach e = clamp_time target (ms_duration s))"
proof -
  obtain k where k: "bs_active (ms_browser s) = Some k" "k \<noteq> []" "dict_get (bs_epochs (ms_browser s)) k = Some a"
    using assms(2) by (auto simp: active_of_def dest: epoch_ofD)
  have r: "r \<noteq> []" "r \<noteq> k"
  proof -
    obtain x where "dict_get (bs_epochs (ms_browser s)) r = Some x" using assms(1,3) by (auto simp: epochs_wf_def)
    then show "r \<noteq> []" using epochs_wf_id[OF assms(1)] by blast
    show "r \<noteq> k" using assms(1,3) k(1) by (auto simp: epochs_wf_def)
  qed
  define tgt where "tgt = clamp_time target (ms_duration s)"
  define u where "u = seek_position (clamp_time (case place of Some x \<Rightarrow> x | None \<Rightarrow> ms_last_stable s) (ms_duration s)) playing (rebuild_active i s)"
  have dur: "ms_duration u = ms_duration s"
    by (simp add: u_def seek_position_def rebuild_active_def on_active_def on_epoch_def on_browser_def Let_def split: option.split)
  have bu: "ms_browser u = update_epoch k (rebuild_published_frontier (ri_stamp i) (ri_clock i)) (ms_browser s)"
    by (simp add: u_def seek_position_def rebuild_active_def on_active_def on_epoch_def on_browser_def k(1) Let_def split: option.split)
  have act: "active_of u = Some (rebuild_published_frontier (ri_stamp i) (ri_clock i) a)"
    using k by (simp add: active_of_def epoch_of_def bu update_epoch_get truthy_string_def)
  obtain d1 d2 d3 where d: "discard_epoch_record (ri_stamp i) (ri_clock i) r (u, w, p) = (d1, d2, d3)" by (metis prod_cases3)
  have bd: "ms_browser d1 = fst (discard_epoch r (ms_browser u, w))"
    using discard_record_browser[of "ri_stamp i" "ri_clock i" r u w p] by (simp add: d)
  have here: "position_in_epoch u (rebuild_published_frontier (ri_stamp i) (ri_clock i) a) tgt"
    using assms(4) dur by (simp add: position_in_epoch_cong[of u s] tgt_def)
  have s': "err = None" "s' = on_active (\<lambda>e. e\<lparr>ep_attach := tgt\<rparr>) (d1\<lparr>ms_target := tgt, ms_pending_target := None\<rparr>)"
    using assms(2,3,5) r(1) here
    by (simp_all add: seek_steps_def Let_def tgt_def[symmetric] u_def[symmetric] act bu d truthy_string_def)
  have mode: "bs_engine_mode (fst (discard_epoch r (b, w))) = bs_engine_mode b" for b
    by (simp add: discard_epoch_def Let_def split: option.split)
  show ?thesis
    using k r assms(3)
    by (simp add: s' bd bu on_active_def on_epoch_def on_browser_def active_of_def epoch_of_def truthy_string_def update_epoch_get
        tgt_def mode update_epoch_def)
qed

text \<open>C28: A seek can lock the choice of audio tracks. When the viewer seeks within what is already published while an audio switch is
  being prepared, the seek discards the candidate of the switch but not the state of the switch. The refresh at the end of the
  request leaves it, too (it fails or expires a switch only while there is a candidate), so the switch goes on counting as in
  progress although nothing is being prepared: a choice of an audio track is then answered like a success and has no effect.
  Only a request that cancels the switch, which is no longer there to cancel, frees the choice again.\<close>

theorem seek_jams_audio_switch:
  assumes "epochs_wf (ms_browser s)" and "active_of s = Some a" and "ep_state a \<notin> {''failed'', ''draining'', ''ended''}"
    and "bs_replacement (ms_browser s) = Some r" and "as_state (bs_audio (ms_browser s)) = ''candidate_preparing''"
    and "position_in_epoch s (rebuild_published_frontier (ri_stamp i) (ri_clock i) a) (clamp_time target (ms_duration s))"
    and "mt_resupply (ri_maintenance i) = (\<lambda>_ _ _. None)" and "mt_downshift (ri_maintenance i) = (\<lambda>_ _ _. None)"
    and "seek_steps i target place playing (s, w, p) = (err, s1, w1, p1)"
    and "refresh_session_authority i (s1, w1, p1) = (answer, s2, w2, p2)" and "is_route2 s"
  shows "err = None \<and> dict_get (bs_epochs (ms_browser s1)) r = None \<and> audio_switch_in_progress (ms_browser s2)
     \<and> (\<forall>cap eid stamp clock validation stream current play v. 0 \<le> stream
          \<longrightarrow> select_audio_track cap eid stamp clock validation (Some stream) current play (s2, v) = (None, s2, v))"
proof -
  note seek = seek_in_range[OF assms(1,2,4,6,9)]
  then obtain e where e: "active_of s1 = Some e" "ep_state e = ep_state a" by blast
  have "as_state (bs_audio (ms_browser s1)) = ''candidate_preparing''" using seek assms(5) by simp
  moreover have "bs_audio (ms_browser s2) = bs_audio (ms_browser s1)"
    using healthy_refresh_audio[OF _ e(1) _ _ assms(7,8), of w1 p1] seek assms(3,10) e(2) calculation by simp
  ultimately have busy: "audio_switch_in_progress (ms_browser s2)" by (intro preparing_in_progress) simp
  have "is_route2 s1" using seek assms(11) by (simp add: is_route2_def)
  then have "bs_engine_mode (ms_browser s2) = ''route2''"
    using refresh_name[of s1 i w1 p1] assms(10) by (simp add: same_name_def is_route2_def)
  then show ?thesis
    using seek busy by (auto simp: select_audio_track_def coerce_audio_stream_index_def Let_def)
qed

section \<open>Examples\<close>

definition example_maintenance :: maintenance where
  "example_maintenance = \<lparr>mt_resupply = (\<lambda>_ _ _. None), mt_downshift = (\<lambda>_ _ _. None), mt_pressure = (\<lambda>_. None),
     mt_reserve_open = (\<lambda>_ _. False), mt_health = (\<lambda>_ _. []), mt_capacity = (\<lambda>_. (True, [])), mt_remeasured = (\<lambda>_. None)\<rparr>"

definition example_refresh :: refresh_input where
  "example_refresh = \<lparr>ri_clock = 1010, ri_stamp = ''t1'', ri_cap = 10, ri_min_threads = 2, ri_cached = None, ri_epoch_id = ''e9'',
     ri_worker_ids = (\<lambda>_. ''w9''), ri_reserve = (\<lambda>_ _. (False, None)), ri_maintenance = example_maintenance\<rparr>"

definition example_start :: mobile_session where
  "example_start = initialize_session ''e1'' ''t0'' None 1000 (new_session ''s1'' 1 7 ''mobile_1080p'' ''local'' 600 ''k'' ''f'' ''t0'')"

lemma example_life: "session_life 10 example_start"
  unfolding example_start_def by (rule life_start) (simp_all add: new_record_defs)

lemma example_start_facts:
  "bs_active (ms_browser example_start) = Some ''e1''" "bs_attach_revision (ms_browser example_start) = 0"
  "fresh_id ''e9'' example_start"
  by (simp_all add: example_start_def initialize_session_def ensure_full_preflight_def new_record_defs fresh_id_def Let_def)


theorem refresh_keeps_the_stream_witness:
  "dict_get (bs_epochs (ms_browser (fst (snd (refresh_session_authority example_refresh (example_start, [], [])))))) ''e1'' \<noteq> None"
proof -
  obtain a s' w p where run: "refresh_session_authority example_refresh (example_start, [], []) = (a, s', w, p)" by (metis prod_cases4)
  have "ri_cap example_refresh = 10" "ri_epoch_id example_refresh = ''e9''" by (simp_all add: example_refresh_def)
  then show ?thesis
    using refresh_keeps_the_stream[of example_refresh example_start "''e1''" "[]" "[]" a s' w p] example_life example_start_facts run
    by simp
qed

text \<open>The active epoch has failed before it published anything; its replacement has been created.\<close>

definition example_failed_epoch :: playback_epoch where
  "example_failed_epoch = (demo_epoch ''e1'')\<lparr>ep_state := ''draining'', ep_worker := Some ''w1''\<rparr>"

definition example_recovering :: mobile_session where
  "example_recovering = demo_session\<lparr>ms_browser := (ms_browser demo_session)\<lparr>bs_epochs :=
     [(''e1'', example_failed_epoch), (''e2'', demo_epoch ''e2'')]\<rparr>\<rparr>"

definition example_failed_record :: worker_record where
  "example_failed_record = (new_worker_record 1000 example_recovering example_failed_epoch)\<lparr>wr_state := ''failed''\<rparr>"

theorem draining_epoch_is_restarted_witness:
  "\<exists>e'. active_of (fst (snd (show_authority example_refresh (example_recovering, [], [(''w1'', example_failed_record)])))) = Some e'
     \<and> ep_state e' = ''starting''"
proof -
  obtain a s' w p where run: "show_authority example_refresh (example_recovering, [], [(''w1'', example_failed_record)]) = (a, s', w, p)"
    by (metis prod_cases4)
  have wf: "epochs_wf (ms_browser example_recovering)"
    by (simp add: example_recovering_def example_failed_epoch_def demo_defs epochs_wf_def dict_wf_def)
  have refs: "active_of example_recovering = Some example_failed_epoch" "replacement_of example_recovering = Some (demo_epoch ''e2'')"
    by (simp_all add: example_recovering_def active_of_def replacement_of_def epoch_of_def truthy_string_def demo_defs)
  have e: "ep_state example_failed_epoch = ''draining''" "\<not> ep_init_published example_failed_epoch" "ep_worker example_failed_epoch = Some ''w1''"
    "\<not> poll_running (ep_process example_failed_epoch)" "\<not> ep_transcoder_completed example_failed_epoch" "ep_worker (demo_epoch ''e2'') = None"
    by (simp_all add: example_failed_epoch_def demo_defs poll_running_def)
  have others: "ri_worker_ids example_refresh 3 = ''w9''" "\<not> full_mode_requires_initial_attach_gate example_recovering"
    "\<not> ms_parked example_recovering" "wr_state example_failed_record = ''failed''"
    by (simp_all add: example_refresh_def example_recovering_def demo_defs full_mode_requires_initial_attach_gate_def example_failed_record_def)
  have "\<exists>e'. active_of s' = Some e' \<and> ep_id e' = ep_id example_failed_epoch \<and> ep_state e' = ''starting'' \<and> ep_worker e' = Some ''w1''"
    using draining_epoch_is_restarted[OF wf refs(1) e(1,2,3) _ e(4,5) _ _ refs(2) _ _ others(2,3) run, of example_failed_record] others(1,4) e(6)
    by simp
  then show ?thesis by (auto simp: run)
qed

text \<open>A short film whose two segments are published, while a switch to another audio track is being prepared.\<close>

definition example_published_epoch :: playback_epoch where
  "example_published_epoch = (demo_epoch ''e1'')\<lparr>ep_state := ''active'',
     ep_published_dir := [(init_file, 700), (segment_file_name 0, 900), (segment_file_name 1, 901)]\<rparr>"

definition example_switching :: mobile_session where
  "example_switching = demo_session\<lparr>ms_duration := 24, ms_browser := (ms_browser demo_session)\<lparr>
     bs_epochs := [(''e1'', example_published_epoch), (''e2'', (demo_epoch ''e2'')\<lparr>ep_replacement_reason := Some ''audio_track_switch''\<rparr>)],
     bs_audio := (bs_audio (ms_browser demo_session))\<lparr>as_state := ''candidate_preparing'', as_candidate_epoch := Some ''e2''\<rparr>\<rparr>\<rparr>"

lemma example_published_frontier:
  "ep_contiguous_through (rebuild_published_frontier t c example_published_epoch) = Some 1"
proof -
  have dir: "ep_published_dir example_published_epoch = [(init_file, 700), (segment_file_name 0, 900), (segment_file_name 1, 901)]"
    by (simp add: example_published_epoch_def)
  have "listed_segments (ep_published_dir example_published_epoch) = {0, 1}"
    using segment_name_roundtrip[of 0] segment_name_roundtrip[of 1] init_file_no_segment
    by (simp add: dir listed_segments_Cons) (auto simp: listed_segments_def)
  then have segs: "set (ep_published_segments (rebuild_published_frontier t c example_published_epoch)) = {0, 1}"
    by (simp add: rebuild_segments)
  let ?f = "frontier_from (ep_published_segments (rebuild_published_frontier t c example_published_epoch)) 0"
  have f: "0 \<le> ?f" "0 < i \<and> i \<le> ?f \<Longrightarrow> i \<in> {0, 1}" "?f + 1 \<notin> {0, 1}" for i
    using frontier_from_spec[where segs = "ep_published_segments (rebuild_published_frontier t c example_published_epoch)" and f = 0]
    by (simp_all add: segs)
  have "?f \<noteq> 0" "\<not> 2 \<le> ?f" using f(3) f(2)[of 2] by auto
  then have "?f = 1" using f(1) by linarith
  then show ?thesis by (simp add: rebuild_frontier dir contiguous_segment_frontier_def segs)
qed

theorem seek_jams_audio_switch_witness:
  "let st = snd (seek_steps example_refresh 20 None None (example_switching, [], []));
       s2 = fst (snd (refresh_session_authority example_refresh st))
   in select_audio_track 10 ''e9'' ''t1'' 1010 None (Some 3) None None (s2, []) = (None, s2, [])"
proof -
  obtain err s1 w1 p1 where seek: "seek_steps example_refresh 20 None None (example_switching, [], []) = (err, s1, w1, p1)"
    by (metis prod_cases4)
  obtain answer s2 w2 p2 where run: "refresh_session_authority example_refresh (s1, w1, p1) = (answer, s2, w2, p2)"
    by (metis prod_cases4)
  have wf: "epochs_wf (ms_browser example_switching)"
    by (simp add: example_switching_def example_published_epoch_def demo_defs epochs_wf_def dict_wf_def)
  have refs: "active_of example_switching = Some example_published_epoch" "bs_replacement (ms_browser example_switching) = Some ''e2''"
    "as_state (bs_audio (ms_browser example_switching)) = ''candidate_preparing''" "is_route2 example_switching"
    by (simp_all add: example_switching_def active_of_def epoch_of_def truthy_string_def is_route2_def demo_defs)
  have st: "ep_state example_published_epoch = ''active''" "ep_start example_published_epoch = 20" "ms_duration example_switching = 24"
    "dict_get (ep_published_dir example_published_epoch) init_file \<noteq> None"
    by (simp_all add: example_published_epoch_def example_switching_def demo_defs)
  have start: "ep_start (rebuild_published_frontier t c example_published_epoch) = 20" for t c
    using st(2) by (simp add: rebuild_published_frontier_def Let_def record_byte_sample_def split: prod.splits)
  have i: "mt_resupply (ri_maintenance example_refresh) = (\<lambda>_ _ _. None)" "mt_downshift (ri_maintenance example_refresh) = (\<lambda>_ _ _. None)"
    by (simp_all add: example_refresh_def example_maintenance_def)
  have here: "position_in_epoch example_switching
      (rebuild_published_frontier (ri_stamp example_refresh) (ri_clock example_refresh) example_published_epoch)
      (clamp_time 20 (ms_duration example_switching))"
    using st start example_published_frontier
    by (simp add: position_in_epoch_def epoch_ready_end_def Let_def clamp_time_def SEGMENT_DURATION_SECONDS_def
        READY_AFTER_TARGET_SECONDS_def)
  show ?thesis
    using seek_jams_audio_switch[OF wf refs(1) _ refs(2,3) here i seek run refs(4)] st(1) by (simp add: seek run Let_def)
qed

end
