(* ===== verification/Byte_Text.thy ===== *)
theory Byte_Text
  imports Elvern_Base "HOL-Library.Word"
begin

text \<open>
  Bytes, and the encodings of Python's standard library the journal of the diagnostics uses: \<^verbatim>\<open>str.encode("utf-8")\<close> and
  \<^verbatim>\<open>bytes.decode\<close> on the characters of this development (the first 256 code points), \<^verbatim>\<open>bytes.hex\<close> and \<^verbatim>\<open>bytes.fromhex\<close>,
  \<^verbatim>\<open>struct.Struct(">Q")\<close>, and \<^verbatim>\<open>base64.b64encode\<close> and \<^verbatim>\<open>b64decode(..., validate=True)\<close>. Each is shown to read back what it
  writes.
\<close>

type_synonym octets = "8 word list"

definition byte :: "nat \<Rightarrow> 8 word" where
  "byte n = of_nat n"

lemma unat_byte [simp]: "n < 256 \<Longrightarrow> unat (byte n) = n"
  by (simp add: byte_def unat_of_nat take_bit_nat_eq_self)

lemma unat_byte_less [simp]: "unat (b :: 8 word) < 256"
  using unsigned_less[of b] by simp

lemma byte_unat [simp]: "byte (unat b) = b"
  by (simp add: byte_def)

abbreviation code_char :: "nat \<Rightarrow> char" where
  "code_char n \<equiv> char_of n"

lemma char_of_code [simp]: "char_of (char_code c) = c"
  by (simp add: char_code_def)

lemma char_code_char [simp]: "n < 256 \<Longrightarrow> char_code (char_of n) = n"
  by (simp add: char_code_def)

lemma char_eq_code: "n < 256 \<Longrightarrow> c = code_char n \<longleftrightarrow> char_code c = n"
  by (metis char_code_char char_of_code)

lemma minus_code [simp]: "char_code (CHR ''-'') = 45"
  by (simp add: char_code_def)

section \<open>UTF-8\<close>

definition utf8_char :: "char \<Rightarrow> octets" where
  "utf8_char c = (let n = char_code c in if n < 128 then [byte n] else [byte (192 + n div 64), byte (128 + n mod 64)])"

definition utf8_encode :: "string \<Rightarrow> octets" where
  "utf8_encode s = concat (map utf8_char s)"

fun utf8_decode :: "octets \<Rightarrow> string option" where
  "utf8_decode [] = Some []"
| "utf8_decode (b # bs) =
     (let n = unat b in
      if n < 128 then map_option ((#) (char_of n)) (utf8_decode bs)
      else if n = 194 \<or> n = 195 then
        (case bs of
           [] \<Rightarrow> None
         | c # cs \<Rightarrow> let m = unat c in
             if 128 \<le> m \<and> m < 192 then map_option ((#) (char_of ((n - 192) * 64 + (m - 128)))) (utf8_decode cs) else None)
      else None)"

lemma utf8_char_decode: "utf8_decode (utf8_char c @ bs) = map_option ((#) c) (utf8_decode bs)"
proof (cases "char_code c < 128")
  case True
  then show ?thesis by (simp add: utf8_char_def)
next
  case False
  define n where "n = char_code c"
  have n: "128 \<le> n" "n < 256" using False by (simp_all add: n_def)
  then have "2 \<le> n div 64" "n div 64 < 4" using div_le_mono[of 128 n 64] by (simp_all add: less_mult_imp_div_less)
  then have lead: "n div 64 = 2 \<or> n div 64 = 3" by linarith
  have "n mod 64 < 64" by simp
  have enc: "utf8_char c = [byte (192 + n div 64), byte (128 + n mod 64)]"
    using False by (simp add: utf8_char_def Let_def n_def)
  define h m where "h = n div 64" and "m = n mod 64"
  have "h * 64 + m = n" by (simp add: h_def m_def)
  then have c: "char_of (h * 64 + m) = c" by (simp add: n_def)
  have "m < 64" "h = 2 \<or> h = 3" using lead by (simp_all add: h_def m_def)
  then have u: "unat (byte (192 + h)) = 192 + h" "unat (byte (128 + m)) = 128 + m" by (elim disjE; simp)+
  have "utf8_char c = [byte (192 + h), byte (128 + m)]" by (simp add: enc h_def m_def)
  moreover have "192 + h = 194 \<or> 192 + h = 195" "\<not> 192 + h < 128" "128 \<le> 128 + m \<and> 128 + m < 192" "192 + h - 192 = h" "128 + m - 128 = m"
    using \<open>m < 64\<close> \<open>h = 2 \<or> h = 3\<close> by auto
  ultimately show ?thesis
    by (simp only: append.simps utf8_decode.simps Let_def u c if_True if_False list.case simp_thms)
qed

lemma utf8_roundtrip [simp]: "utf8_decode (utf8_encode s) = Some s"
  by (induction s) (simp_all add: utf8_encode_def utf8_char_decode)

lemma utf8_encode_append [simp]: "utf8_encode (s @ t) = utf8_encode s @ utf8_encode t"
  by (simp add: utf8_encode_def)

lemma utf8_inject: "utf8_encode s = utf8_encode t \<Longrightarrow> s = t"
  using utf8_roundtrip by (metis option.inject)

section \<open>Hexadecimal digits\<close>

definition hex_char :: "nat \<Rightarrow> char" where
  "hex_char n = char_of (if n < 10 then 48 + n else 87 + n)"

definition hex_value :: "char \<Rightarrow> nat option" where
  "hex_value c =
     (let n = char_code c in
      if 48 \<le> n \<and> n \<le> 57 then Some (n - 48)
      else if 97 \<le> n \<and> n \<le> 102 then Some (n - 87)
      else if 65 \<le> n \<and> n \<le> 70 then Some (n - 55) else None)"

lemma hex_value_char [simp]: "n < 16 \<Longrightarrow> hex_value (hex_char n) = Some n"
  by (auto simp: hex_value_def hex_char_def Let_def)

definition to_hex :: "octets \<Rightarrow> string" where
  "to_hex bs = concat (map (\<lambda>b. [hex_char (unat b div 16), hex_char (unat b mod 16)]) bs)"

fun from_hex :: "string \<Rightarrow> octets option" where
  "from_hex [] = Some []"
| "from_hex [c] = None"
| "from_hex (c # d # cs) =
     (case (hex_value c, hex_value d, from_hex cs) of
        (Some h, Some l, Some bs) \<Rightarrow> Some (byte (16 * h + l) # bs)
      | _ \<Rightarrow> None)"

lemma from_to_hex [simp]: "from_hex (to_hex bs) = Some bs"
proof (induction bs)
  case (Cons b bs)
  have "unat b div 16 < 16" "unat b mod 16 < 16"
    using unat_byte_less[of b] by (simp_all add: less_mult_imp_div_less)
  then show ?case using Cons by (simp add: to_hex_def)
qed (simp add: to_hex_def)

lemma to_hex_Nil_iff [simp]: "to_hex bs = [] \<longleftrightarrow> bs = []"
  by (simp add: to_hex_def)

section \<open>Lengths of eight bytes\<close>

fun be_bytes :: "nat \<Rightarrow> nat \<Rightarrow> octets" where
  "be_bytes 0 n = []"
| "be_bytes (Suc k) n = be_bytes k (n div 256) @ [byte (n mod 256)]"

definition be_value :: "octets \<Rightarrow> nat" where
  "be_value bs = foldl (\<lambda>acc b. acc * 256 + unat b) 0 bs"

lemma length_be_bytes [simp]: "length (be_bytes k n) = k"
  by (induction k arbitrary: n) simp_all

lemma be_value_bytes: "n < 256 ^ k \<Longrightarrow> be_value (be_bytes k n) = n"
proof (induction k arbitrary: n)
  case (Suc k)
  then have "n div 256 < 256 ^ k" by (simp add: less_mult_imp_div_less)
  then show ?case using Suc.IH[of "n div 256"] by (simp add: be_value_def)
qed (simp add: be_value_def)

section \<open>Base 64\<close>

definition b64_char :: "nat \<Rightarrow> char" where
  "b64_char n = char_of (if n < 26 then 65 + n else if n < 52 then 71 + n else if n < 62 then n - 4 else if n = 62 then 43 else 47)"

definition b64_value :: "char \<Rightarrow> nat option" where
  "b64_value c =
     (let n = char_code c in
      if 65 \<le> n \<and> n \<le> 90 then Some (n - 65)
      else if 97 \<le> n \<and> n \<le> 122 then Some (n - 71)
      else if 48 \<le> n \<and> n \<le> 57 then Some (n + 4)
      else if n = 43 then Some 62 else if n = 47 then Some 63 else None)"

lemma b64_value_char [simp]: "n < 64 \<Longrightarrow> b64_value (b64_char n) = Some n"
  by (auto simp: b64_value_def b64_char_def Let_def)

lemma b64_char_no_pad [simp]: "n < 64 \<Longrightarrow> b64_char n \<noteq> CHR ''=''"
  using b64_value_char[of n] by (auto simp: b64_value_def char_code_def)

fun b64_encode :: "octets \<Rightarrow> string" where
  "b64_encode [] = []"
| "b64_encode [a] = [b64_char (unat a div 4), b64_char (unat a mod 4 * 16), CHR ''='', CHR ''='']"
| "b64_encode [a, b] =
     [b64_char (unat a div 4), b64_char (unat a mod 4 * 16 + unat b div 16), b64_char (unat b mod 16 * 4), CHR ''='']"
| "b64_encode (a # b # c # bs) =
     [b64_char (unat a div 4), b64_char (unat a mod 4 * 16 + unat b div 16),
      b64_char (unat b mod 16 * 4 + unat c div 64), b64_char (unat c mod 64)] @ b64_encode bs"

fun b64_decode :: "string \<Rightarrow> octets option" where
  "b64_decode [] = Some []"
| "b64_decode (p # q # r # s # cs) =
     (case (b64_value p, b64_value q) of
        (Some x, Some y) \<Rightarrow>
          (if s = CHR ''='' then
             (if cs \<noteq> [] then None
              else if r = CHR ''='' then Some [byte (x * 4 + y div 16)]
              else map_option (\<lambda>z. [byte (x * 4 + y div 16), byte (y mod 16 * 16 + z div 4)]) (b64_value r))
           else
             (case (b64_value r, b64_value s, b64_decode cs) of
                (Some z, Some w, Some bs) \<Rightarrow>
                  Some (byte (x * 4 + y div 16) # byte (y mod 16 * 16 + z div 4) # byte (z mod 4 * 64 + w) # bs)
              | _ \<Rightarrow> None))
      | _ \<Rightarrow> None)"
| "b64_decode cs = None"

lemma b64_parts:
  assumes "a < 256" "b < 256" "c < (256 :: nat)"
  shows "a div 4 < 64" "a mod 4 * 16 + b div 16 < 64" "b mod 16 * 4 + c div 64 < 64" "c mod 64 < 64"
    "a mod 4 * 16 < 64" "b mod 16 * 4 < 64"
    "a div 4 * 4 + (a mod 4 * 16 + b div 16) div 16 = a"
    "(a mod 4 * 16 + b div 16) mod 16 * 16 + (b mod 16 * 4 + c div 64) div 4 = b"
    "(b mod 16 * 4 + c div 64) mod 4 * 64 + c mod 64 = c"
proof -
  have d: "b div 16 < 16" "c div 64 < 4" "a mod 4 < 4" "b mod 16 < 16" using assms by (simp_all add: less_mult_imp_div_less)
  show "a div 4 < 64" "c mod 64 < 64" using assms by (simp_all add: less_mult_imp_div_less)
  show "a mod 4 * 16 + b div 16 < 64" "b mod 16 * 4 + c div 64 < 64" "a mod 4 * 16 < 64" "b mod 16 * 4 < 64"
    using d by linarith+
  show "a div 4 * 4 + (a mod 4 * 16 + b div 16) div 16 = a"
    "(a mod 4 * 16 + b div 16) mod 16 * 16 + (b mod 16 * 4 + c div 64) div 4 = b"
    "(b mod 16 * 4 + c div 64) mod 4 * 64 + c mod 64 = c"
    using d by simp_all
qed

lemma b64_decode_quad:
  assumes "x < 64" "y < 64" "z < 64" "w < 64"
  shows "b64_decode (b64_char x # b64_char y # b64_char z # b64_char w # cs)
     = map_option (\<lambda>bs. byte (x * 4 + y div 16) # byte (y mod 16 * 16 + z div 4) # byte (z mod 4 * 64 + w) # bs) (b64_decode cs)"
    "b64_decode [b64_char x, b64_char y, b64_char z, CHR ''=''] = Some [byte (x * 4 + y div 16), byte (y mod 16 * 16 + z div 4)]"
    "b64_decode [b64_char x, b64_char y, CHR ''='', CHR ''=''] = Some [byte (x * 4 + y div 16)]"
  using assms by (simp_all split: option.split)

lemma b64_roundtrip [simp]: "b64_decode (b64_encode bs) = Some bs"
proof (induction bs rule: b64_encode.induct)
  case (2 a)
  note p = b64_parts[of "unat a" 0 0, simplified]
  have "unat a div 4 * 4 + unat a mod 4 * 16 div 16 = unat a" by simp
  then show ?case
    using p by (simp only: b64_encode.simps b64_decode_quad(3)[where z = 0 and w = 0] unat_byte_less byte_unat zero_less_numeral)
next
  case (3 a b)
  note p = b64_parts[of "unat a" "unat b" 0, OF unat_byte_less unat_byte_less]
  have z: "unat b mod 16 * 4 + 0 div 64 = unat b mod 16 * 4" "(0::nat) < 256" by simp_all
  note p = p[OF z(2), unfolded z(1)]
  show ?case by (simp only: b64_encode.simps b64_decode_quad(2)[where w = 0] p byte_unat zero_less_numeral)
next
  case (4 a b c bs)
  note p = b64_parts[of "unat a" "unat b" "unat c", OF unat_byte_less unat_byte_less unat_byte_less]
  show ?case by (simp only: b64_encode.simps append.simps b64_decode_quad p byte_unat 4 option.map)
qed simp

lemma b64_encode_Nil_iff [simp]: "b64_encode bs = [] \<longleftrightarrow> bs = []"
  by (cases bs rule: b64_encode.cases) simp_all

end
