(* ===== verification/Json_Text.thy ===== *)
theory Json_Text
  imports Byte_Text "HOL-Library.List_Lexorder" "HOL-Library.Char_ord"
begin

text \<open>
  JSON as \<^verbatim>\<open>json.dumps(value, ensure_ascii=False, sort_keys=True, separators=(",", ":"))\<close> writes it and \<^verbatim>\<open>json.loads\<close> reads
  it. A number with a fraction or an exponent is kept as its text. The parser takes fuel; \<open>json_loads\<close> gives it more than the
  text has characters, and no more fuel changes what it reads (\<open>json_fuel_enough\<close>). Reading what was written gives the
  value back (\<open>json_roundtrip\<close>).
\<close>

datatype json =
    JNull
  | JBool bool
  | JInt int
  | JReal string
  | JStr string
  | JList "json list"
  | JObj "(string \<times> json) list"

section \<open>Writing\<close>

definition escape_char :: "char \<Rightarrow> string" where
  "escape_char c =
     (let n = char_code c in
      if n = 34 then [code_char 92, code_char 34]
      else if n = 92 then [code_char 92, code_char 92]
      else if n = 10 then [code_char 92, code_char 110]
      else if n = 13 then [code_char 92, code_char 114]
      else if n = 9 then [code_char 92, code_char 116]
      else if n = 12 then [code_char 92, code_char 102]
      else if n = 8 then [code_char 92, code_char 98]
      else if n < 32 then [code_char 92, code_char 117, code_char 48, code_char 48, hex_char (n div 16), hex_char (n mod 16)]
      else [c])"

definition quoted :: "string \<Rightarrow> string" where
  "quoted s = code_char 34 # concat (map escape_char s) @ [code_char 34]"

fun comma_separated :: "string list \<Rightarrow> string" where
  "comma_separated [] = []"
| "comma_separated [x] = x"
| "comma_separated (x # y # ys) = x @ code_char 44 # comma_separated (y # ys)"

fun show_json :: "json \<Rightarrow> string" where
  "show_json JNull = ''null''"
| "show_json (JBool b) = (if b then ''true'' else ''false'')"
| "show_json (JInt i) = show_int i"
| "show_json (JReal t) = t"
| "show_json (JStr s) = quoted s"
| "show_json (JList xs) = code_char 91 # comma_separated (map show_json xs) @ [code_char 93]"
| "show_json (JObj kvs) = code_char 123 # comma_separated (map (\<lambda>(k, v). quoted k @ code_char 58 # show_json v) kvs) @ [code_char 125]"

text \<open>\<^verbatim>\<open>sort_keys=True\<close>.\<close>

fun sort_keys :: "json \<Rightarrow> json" where
  "sort_keys (JList xs) = JList (map sort_keys xs)"
| "sort_keys (JObj kvs) = JObj (sort_key fst (map (\<lambda>(k, v). (k, sort_keys v)) kvs))"
| "sort_keys j = j"

definition json_dumps :: "json \<Rightarrow> string" where
  "json_dumps j = show_json (sort_keys j)"

section \<open>Reading\<close>

definition json_space :: "char \<Rightarrow> bool" where
  "json_space c = (char_code c \<in> {32, 9, 10, 13})"

definition skip_space :: "string \<Rightarrow> string" where
  "skip_space s = dropWhile json_space s"

definition simple_escape :: "char \<Rightarrow> char option" where
  "simple_escape c =
     (let n = char_code c in
      if n = 34 \<or> n = 92 \<or> n = 47 then Some c
      else if n = 110 then Some (code_char 10)
      else if n = 114 then Some (code_char 13)
      else if n = 116 then Some (code_char 9)
      else if n = 102 then Some (code_char 12)
      else if n = 98 then Some (code_char 8) else None)"

definition hex4 :: "char \<Rightarrow> char \<Rightarrow> char \<Rightarrow> char \<Rightarrow> char option" where
  "hex4 a b c d =
     (case (hex_value a, hex_value b, hex_value c, hex_value d) of
        (Some w, Some x, Some y, Some z) \<Rightarrow> if w = 0 \<and> x = 0 then Some (code_char (16 * y + z)) else None
      | _ \<Rightarrow> None)"

text \<open>The characters up to the closing quote, and what follows it. A code point above 255 is not a character here.\<close>

fun read_chars :: "string \<Rightarrow> (string \<times> string) option" where
  "read_chars [] = None"
| "read_chars (c # cs) =
     (if char_code c = 34 then Some ([], cs)
      else if char_code c = 92 then
        (case cs of
           [] \<Rightarrow> None
         | e # es \<Rightarrow>
             if char_code e = 117 then
               (case es of
                  a # b # h # l # r \<Rightarrow>
                    (case hex4 a b h l of
                       None \<Rightarrow> None
                     | Some x \<Rightarrow> map_option (\<lambda>(t, r'). (x # t, r')) (read_chars r))
                | _ \<Rightarrow> None)
             else (case simple_escape e of
                     None \<Rightarrow> None
                   | Some x \<Rightarrow> map_option (\<lambda>(t, r'). (x # t, r')) (read_chars es)))
      else if char_code c < 32 then None
      else map_option (\<lambda>(t, r'). (c # t, r')) (read_chars cs))"

definition number_char :: "char \<Rightarrow> bool" where
  "number_char c = (is_py_digit c \<or> char_code c \<in> {43, 45, 46, 69, 101})"

definition int_text :: "string \<Rightarrow> bool" where
  "int_text t = (t \<noteq> [] \<and> (\<forall>c \<in> set t. is_py_digit c) \<and> (hd t = code_char 48 \<longrightarrow> tl t = []))"

text \<open>The integer part, fraction and exponent of a number.\<close>

definition split_number :: "string \<Rightarrow> string \<times> string \<times> string" where
  "split_number t =
     (let i = takeWhile is_py_digit t; r = dropWhile is_py_digit t;
          fr = (case r of c # cs \<Rightarrow> if char_code c = 46 then c # takeWhile is_py_digit cs else [] | [] \<Rightarrow> []);
          ex = drop (length fr) r
      in (i, fr, ex))"

definition exponent_text :: "string \<Rightarrow> bool" where
  "exponent_text e =
     (case e of
        [] \<Rightarrow> True
      | c # cs \<Rightarrow> char_code c \<in> {69, 101} \<and>
          (let d = (case cs of s # ds \<Rightarrow> if char_code s \<in> {43, 45} then ds else cs | [] \<Rightarrow> [])
           in d \<noteq> [] \<and> (\<forall>x \<in> set d. is_py_digit x)))"

definition real_text :: "string \<Rightarrow> bool" where
  "real_text t =
     (let u = (case t of c # cs \<Rightarrow> if char_code c = 45 then cs else t | [] \<Rightarrow> []);
          (i, fr, ex) = split_number u
      in int_text i \<and> length fr \<noteq> 1 \<and> exponent_text ex \<and> fr @ ex \<noteq> [])"

definition read_number :: "string \<Rightarrow> (json \<times> string) option" where
  "read_number s =
     (let t = takeWhile number_char s; r = dropWhile number_char s in
      if int_text t then Some (JInt (digits_value t), r)
      else if t \<noteq> [] \<and> char_code (hd t) = 45 \<and> int_text (tl t) then Some (JInt (- digits_value (tl t)), r)
      else if real_text t then Some (JReal t, r) else None)"

definition read_word :: "string \<Rightarrow> (json \<times> string) option" where
  "read_word s =
     (if starts_with ''null'' s then Some (JNull, drop 4 s)
      else if starts_with ''true'' s then Some (JBool True, drop 4 s)
      else if starts_with ''false'' s then Some (JBool False, drop 5 s)
      else if starts_with ''NaN'' s then Some (JReal ''NaN'', drop 3 s)
      else if starts_with ''Infinity'' s then Some (JReal ''Infinity'', drop 8 s)
      else if starts_with ''-Infinity'' s then Some (JReal ''-Infinity'', drop 9 s)
      else read_number s)"

text \<open>A dictionary of the pairs in the order of the text; a key that comes again replaces its value.\<close>

definition dict_of :: "(string \<times> json) list \<Rightarrow> (string \<times> json) list" where
  "dict_of kvs = foldl (\<lambda>d (k, v). dict_set d k v) [] kvs"

definition next_char :: "string \<Rightarrow> (char \<times> string) option" where
  "next_char s = (case skip_space s of [] \<Rightarrow> None | c # cs \<Rightarrow> Some (c, cs))"

fun read_value :: "nat \<Rightarrow> string \<Rightarrow> (json \<times> string) option"
  and read_items :: "nat \<Rightarrow> string \<Rightarrow> (json list \<times> string) option"
  and read_pairs :: "nat \<Rightarrow> string \<Rightarrow> ((string \<times> json) list \<times> string) option" where
  "read_value 0 s = None"
| "read_value (Suc n) s =
     (case s of
        [] \<Rightarrow> None
      | c # cs \<Rightarrow>
          if char_code c = 34 then map_option (\<lambda>(t, r). (JStr t, r)) (read_chars cs)
          else if char_code c = 91 then
            Option.bind (next_char cs) (\<lambda>(d, ds).
              if char_code d = 93 then Some (JList [], ds)
              else map_option (\<lambda>(xs, r). (JList xs, r)) (read_items n (d # ds)))
          else if char_code c = 123 then
            Option.bind (next_char cs) (\<lambda>(d, ds).
              if char_code d = 125 then Some (JObj [], ds)
              else map_option (\<lambda>(kvs, r). (JObj (dict_of kvs), r)) (read_pairs n (d # ds)))
          else read_word s)"
| "read_items 0 s = None"
| "read_items (Suc n) s =
     Option.bind (read_value n s) (\<lambda>(x, r).
       Option.bind (next_char r) (\<lambda>(d, ds).
         if char_code d = 93 then Some ([x], ds)
         else if char_code d = 44 then map_option (\<lambda>(xs, r'). (x # xs, r')) (read_items n (skip_space ds))
         else None))"
| "read_pairs 0 s = None"
| "read_pairs (Suc n) s =
     (case s of
        [] \<Rightarrow> None
      | q # qs \<Rightarrow>
          if char_code q \<noteq> 34 then None
          else
            Option.bind (read_chars qs) (\<lambda>(k, r).
              Option.bind (next_char r) (\<lambda>(d, ds).
                if char_code d \<noteq> 58 then None
                else
                  Option.bind (read_value n (skip_space ds)) (\<lambda>(v, r1).
                    Option.bind (next_char r1) (\<lambda>(e, es).
                      if char_code e = 125 then Some ([(k, v)], es)
                      else if char_code e = 44
                      then map_option (\<lambda>(kvs, r'). ((k, v) # kvs, r')) (read_pairs n (skip_space es))
                      else None)))))"

definition json_loads :: "string \<Rightarrow> json option" where
  "json_loads s =
     (case read_value (2 * length s + 2) (skip_space s) of
        None \<Rightarrow> None
      | Some (j, r) \<Rightarrow> if skip_space r = [] then Some j else None)"

section \<open>Fuel\<close>

lemma skip_space_length: "length (skip_space s) \<le> length s"
  by (simp add: skip_space_def length_dropWhile_le)

lemma next_char_shorter: "next_char s = Some (c, cs) \<Longrightarrow> length cs < length s"
  using skip_space_length[of s] by (auto simp: next_char_def split: list.splits)

lemma read_chars_shorter: "read_chars s = Some (t, r) \<Longrightarrow> length r < length s"
proof (induction s arbitrary: t r rule: measure_induct_rule[where f = length])
  case (less s)
  note step = less.IH[rotated]
  show ?case
  proof (cases s)
    case (Cons c cs)
    then show ?thesis
      using less.prems by (auto split: if_splits list.splits option.splits dest!: step)
  qed (use less.prems in simp)
qed

lemma number_text_not_Nil: "int_text t \<or> real_text t \<Longrightarrow> t \<noteq> []"
  by (auto simp: int_text_def real_text_def split_number_def)

lemma read_number_shorter: "read_number s = Some (j, r) \<Longrightarrow> length r < length s"
proof -
  assume run: "read_number s = Some (j, r)"
  have "\<not> int_text [] \<and> \<not> real_text []" using number_text_not_Nil by blast
  with run have "takeWhile number_char s \<noteq> []" "r = dropWhile number_char s"
    by (auto simp: read_number_def Let_def split: if_splits)
  then show ?thesis
    using takeWhile_dropWhile_id[of number_char s] by (metis length_append length_greater_0_conv less_add_same_cancel2)
qed

lemma read_word_shorter: "read_word s = Some (j, r) \<Longrightarrow> length r < length s"
proof -
  assume run: "read_word s = Some (j, r)"
  have drop: "\<exists>n > 0. drop (numeral k) s = drop n s" for k
    by (rule exI[of _ "numeral k"]) simp
  have "read_number s = Some (j, r) \<or> (\<exists>n > 0. r = drop n s)"
    using run drop by (auto simp: read_word_def split: if_splits)
  moreover have "s \<noteq> []"
    using run read_number_shorter[of "[]" j r] by (auto simp: read_word_def starts_with_def)
  ultimately show ?thesis using read_number_shorter by auto
qed

lemma read_shorter:
  "(read_value n s = Some (j, r) \<longrightarrow> length r < length s)
   \<and> (read_items n s = Some (js, r) \<longrightarrow> length r < length s)
   \<and> (read_pairs n s = Some (kvs, r) \<longrightarrow> length r < length s)"
proof (induction n arbitrary: s j js kvs r)
  case (Suc n)
  have vals: "read_value n t = Some (j', r') \<Longrightarrow> length r' < length t"
    and items: "read_items n t = Some (js', r') \<Longrightarrow> length r' < length t"
    and pairs: "read_pairs n t = Some (kvs', r') \<Longrightarrow> length r' < length t" for t j' js' kvs' r'
    using Suc.IH by blast+
  note skip = skip_space_length le_less_trans less_le_trans
  have 1: "length r < length s" if "read_value (Suc n) s = Some (j, r)"
    using that
    by (auto simp: bind_eq_Some_conv split: list.splits if_splits
        dest: read_chars_shorter read_word_shorter dest!: next_char_shorter items pairs)
  have 2: "length r < length s" if run: "read_items (Suc n) s = Some (js, r)"
  proof -
    obtain x r1 d ds where v: "read_value n s = Some (x, r1)" and nc: "next_char r1 = Some (d, ds)"
      and r: "r = ds \<or> (\<exists>xs. read_items n (skip_space ds) = Some (xs, r))"
      using run by (auto simp: bind_eq_Some_conv split: if_splits)
    have "length r \<le> length ds" using r items[of "skip_space ds"] skip_space_length[of ds] by fastforce
    then show ?thesis using vals[OF v] next_char_shorter[OF nc] by simp
  qed
  have 3: "length r < length s" if run: "read_pairs (Suc n) s = Some (kvs, r)"
  proof -
    obtain q qs k r1 d ds v r2 e es where s: "s = q # qs" and k: "read_chars qs = Some (k, r1)"
      and nc: "next_char r1 = Some (d, ds)" and v: "read_value n (skip_space ds) = Some (v, r2)"
      and nc2: "next_char r2 = Some (e, es)"
      and r: "r = es \<or> (\<exists>xs. read_pairs n (skip_space es) = Some (xs, r))"
      using run by (auto simp: bind_eq_Some_conv split: if_splits list.splits)
    have "length r \<le> length es" using r pairs[of "skip_space es"] skip_space_length[of es] by fastforce
    then show ?thesis
      using s read_chars_shorter[OF k] next_char_shorter[OF nc] vals[OF v] next_char_shorter[OF nc2] skip_space_length[of ds]
      by simp
  qed
  from 1 2 3 show ?case by blast
qed simp

lemma read_value_shorter: "read_value n s = Some (j, r) \<Longrightarrow> length r < length s"
  using read_shorter by blast

text \<open>Fuel beyond twice the length changes nothing.\<close>

lemma more_fuel:
  "(2 * length s < n \<longrightarrow> read_value (n + k) s = read_value n s)
   \<and> (2 * length s + 1 < n \<longrightarrow> read_items (n + k) s = read_items n s)
   \<and> (2 * length s + 1 < n \<longrightarrow> read_pairs (n + k) s = read_pairs n s)"
proof (induction n arbitrary: s)
  case (Suc n)
  have vals: "2 * length t < n \<Longrightarrow> read_value (n + k) t = read_value n t"
    and items: "2 * length t + 1 < n \<Longrightarrow> read_items (n + k) t = read_items n t"
    and pairs: "2 * length t + 1 < n \<Longrightarrow> read_pairs (n + k) t = read_pairs n t" for t
    using Suc.IH by blast+
  have skip: "length (skip_space t) \<le> length t" for t by (rule skip_space_length)
  have 1: "read_value (Suc n + k) s = read_value (Suc n) s" if len: "2 * length s < Suc n"
  proof (cases s)
    case (Cons c cs)
    have "read_items (n + k) (d # ds) = read_items n (d # ds)" "read_pairs (n + k) (d # ds) = read_pairs n (d # ds)"
      if "next_char cs = Some (d, ds)" for d ds
      using next_char_shorter[OF that] len Cons by (auto intro!: items pairs)
    then show ?thesis using Cons by (auto split: option.split intro!: Option.bind_cong)
  qed simp
  have 2: "read_items (Suc n + k) s = read_items (Suc n) s" if len: "2 * length s + 1 < Suc n"
  proof -
    have "read_items (n + k) (skip_space ds) = read_items n (skip_space ds)"
      if "read_value n s = Some (x, r)" "next_char r = Some (d, ds)" for x r d ds
      using read_value_shorter[OF that(1)] next_char_shorter[OF that(2)] skip[of ds] len by (intro items) linarith
    moreover have "read_value (n + k) s = read_value n s" using len by (intro vals) simp
    ultimately show ?thesis by (auto intro!: Option.bind_cong)
  qed
  have 3: "read_pairs (Suc n + k) s = read_pairs (Suc n) s" if len: "2 * length s + 1 < Suc n"
  proof (cases s)
    case (Cons q qs)
    have v: "read_value (n + k) (skip_space ds) = read_value n (skip_space ds)"
      if "read_chars qs = Some (x, r)" "next_char r = Some (d, ds)" for x r d ds
      using read_chars_shorter[OF that(1)] next_char_shorter[OF that(2)] skip[of ds] len Cons by (intro vals) simp
    have "read_pairs (n + k) (skip_space es) = read_pairs n (skip_space es)"
      if "read_chars qs = Some (x, r)" "next_char r = Some (d, ds)" "read_value n (skip_space ds) = Some (v, r1)"
        "next_char r1 = Some (e, es)" for x r d ds v r1 e es
      using read_chars_shorter[OF that(1)] next_char_shorter[OF that(2)] skip[of ds] len Cons
        read_value_shorter[OF that(3)] next_char_shorter[OF that(4)] skip[of es] by (intro pairs) simp
    with v show ?thesis using Cons by (auto intro!: Option.bind_cong)
  qed simp
  from 1 2 3 show ?case by blast
qed simp

lemma json_fuel_enough: "2 * length s + 2 \<le> n \<Longrightarrow> read_value n (skip_space s) = read_value (2 * length s + 2) (skip_space s)"
  using more_fuel[of "skip_space s" "2 * length s + 2" "n - (2 * length s + 2)"] skip_space_length[of s]
  by (simp del: read_value.simps add_2_eq_Suc add_2_eq_Suc')

section \<open>Reading what was written\<close>

text \<open>A value Python can hold: the keys of a dictionary differ, and the text of a finite float is a number.\<close>

fun json_wf :: "json \<Rightarrow> bool" where
  "json_wf (JReal t) \<longleftrightarrow> real_text t \<and> (\<forall>c \<in> set t. number_char c)"
| "json_wf (JList xs) \<longleftrightarrow> (\<forall>x \<in> set xs. json_wf x)"
| "json_wf (JObj kvs) \<longleftrightarrow> distinct (map fst kvs) \<and> (\<forall>(k, v) \<in> set kvs. json_wf v)"
| "json_wf j \<longleftrightarrow> True"

definition ends_number :: "string \<Rightarrow> bool" where
  "ends_number r = (r = [] \<or> \<not> number_char (hd r))"

lemma read_escape_char: "read_chars (escape_char c @ s) = map_option (\<lambda>(t, r). (c # t, r)) (read_chars s)"
proof -
  have c: "code_char (char_code c) = c" by simp
  have hex: "16 * (char_code c div 16) + char_code c mod 16 = char_code c" by simp
  consider "char_code c \<in> {34, 92, 10, 13, 9, 12, 8}" | "char_code c < 32" "char_code c \<notin> {34, 92, 10, 13, 9, 12, 8}"
    | "32 \<le> char_code c" "char_code c \<notin> {34, 92}"
    by fastforce
  then show ?thesis
  proof cases
    case 1
    then have "c \<in> {code_char 34, code_char 92, code_char 10, code_char 13, code_char 9, code_char 12, code_char 8}"
      by (metis c insertE empty_iff insertI1 insertI2)
    then show ?thesis by (auto simp: escape_char_def simple_escape_def Let_def)
  next
    case 2
    then have "char_code c div 16 < 16" by (simp add: less_mult_imp_div_less)
    moreover have "hex_value (code_char 48) = Some 0" by (simp add: hex_value_def)
    ultimately show ?thesis
      using 2 c hex by (simp add: escape_char_def Let_def hex4_def)
  next
    case 3
    then show ?thesis by (auto simp: escape_char_def Let_def)
  qed
qed

lemma read_quoted: "read_chars (concat (map escape_char s) @ code_char 34 # r) = Some (s, r)"
  by (induction s) (simp_all add: read_escape_char)

lemma digit_number_char: "is_py_digit c \<Longrightarrow> number_char c"
  by (simp add: number_char_def)

lemma int_text_show_nat: "int_text (show_nat n)"
proof -
  have "hd (show_nat n) = code_char 48 \<longrightarrow> tl (show_nat n) = []"
  proof (induction n rule: show_nat.induct)
    case (1 n)
    have zero: "code_char (48 + d) = code_char 48 \<longleftrightarrow> d = 0" if "d < 10" for d
      using that char_code_char[of "48 + d"] by (auto simp del: char_code_char dest: arg_cong[of _ _ char_code])
    show ?case
    proof (cases "n < 10")
      case True
      then show ?thesis by (subst (1 2) show_nat.simps) simp
    next
      case False
      have "hd (show_nat (n div 10)) \<noteq> code_char 48"
      proof
        assume "hd (show_nat (n div 10)) = code_char 48"
        then have "tl (show_nat (n div 10)) = []" using 1 False by simp
        then have z: "show_nat (n div 10) = [code_char 48]"
          using \<open>hd (show_nat (n div 10)) = code_char 48\<close> by (cases "show_nat (n div 10)") auto
        have "int (n div 10) = 0" unfolding digits_value_show_nat[symmetric] z by (simp add: digits_value_def)
        then show False using False by simp
      qed
      then show ?thesis using False by (subst (1 2) show_nat.simps) simp
    qed
  qed
  then show ?thesis using show_nat_digits by (simp add: int_text_def)
qed

lemma take_number:
  assumes "\<forall>c \<in> set t. number_char c" "ends_number r"
  shows "takeWhile number_char (t @ r) = t" "dropWhile number_char (t @ r) = r"
  using assms by (cases r; simp add: ends_number_def takeWhile_append2 dropWhile_append2)+

lemma int_text_starts: "int_text t \<Longrightarrow> \<exists>c cs. t = c # cs \<and> is_py_digit c"
  by (cases t) (auto simp: int_text_def)

lemma minus_number_char: "number_char (CHR ''-'')"
  by (simp add: number_char_def char_code_def)

lemma not_int_minus: "\<not> int_text (CHR ''-'' # t)"
  by (simp add: int_text_def is_py_digit_def char_code_def)

lemma read_int: "ends_number r \<Longrightarrow> read_number (show_int i @ r) = Some (JInt i, r)"
proof -
  assume r: "ends_number r"
  have n: "\<forall>c \<in> set (show_nat n). number_char c" for n
    using show_nat_digits[of n] digit_number_char by blast
  show ?thesis
  proof (cases "i < 0")
    case True
    have t: "\<forall>c \<in> set (CHR ''-'' # show_nat (nat (- i))). number_char c" using n minus_number_char by simp
    show ?thesis
      using True take_number[OF t r] int_text_show_nat[of "nat (- i)"] not_int_minus
      by (simp add: show_int_def read_number_def digits_value_show_nat char_code_def)
  next
    case False
    then show ?thesis
      using take_number[OF n r] int_text_show_nat by (simp add: show_int_def read_number_def digits_value_show_nat)
  qed
qed

lemma int_text_split: "int_text t \<Longrightarrow> split_number t = (t, [], [])"
proof -
  assume "int_text t"
  then have "takeWhile is_py_digit t = t" "dropWhile is_py_digit t = []" by (auto simp: int_text_def)
  then show ?thesis unfolding split_number_def Let_def by (simp only: list.case list.size drop_0)
qed

lemma real_not_int: "real_text t \<Longrightarrow> \<not> int_text t \<and> \<not> (t \<noteq> [] \<and> char_code (hd t) = 45 \<and> int_text (tl t))"
proof -
  assume real: "real_text t"
  define u where "u = (case t of c # cs \<Rightarrow> if char_code c = 45 then cs else t | [] \<Rightarrow> [])"
  have "\<not> int_text u"
    using real int_text_split[of u] by (auto simp: real_text_def Let_def u_def[symmetric])
  moreover have "u = t" if "int_text t"
    using int_text_starts[OF that] by (auto simp: u_def is_py_digit_def)
  moreover have "u = tl t" if "t \<noteq> []" "char_code (hd t) = 45"
    using that by (cases t) (simp_all add: u_def)
  ultimately show ?thesis by metis
qed

lemma read_real: "real_text t \<Longrightarrow> \<forall>c \<in> set t. number_char c \<Longrightarrow> ends_number r \<Longrightarrow> read_number (t @ r) = Some (JReal t, r)"
  using real_not_int[of t] unfolding read_number_def Let_def by (simp only: take_number if_False if_True)

lemma real_text_starts:
  assumes "real_text t"
  shows "\<exists>c cs. t = c # cs \<and> (is_py_digit c \<or> c = CHR ''-'' \<and> cs \<noteq> [] \<and> is_py_digit (hd cs))"
proof -
  define u where "u = (case t of c # cs \<Rightarrow> if char_code c = 45 then cs else t | [] \<Rightarrow> [])"
  have "int_text (takeWhile is_py_digit u)"
    using assms by (simp add: real_text_def split_number_def Let_def u_def[symmetric])
  then have u: "u \<noteq> [] \<and> is_py_digit (hd u)"
    by (cases u) (auto simp: int_text_def split: if_splits)
  show ?thesis
  proof (cases t)
    case Nil
    then show ?thesis using u by (simp add: u_def)
  next
    case (Cons c cs)
    show ?thesis
    proof (cases "char_code c = 45")
      case True
      then have "c = CHR ''-''" by (metis char_of_code minus_code)
      then show ?thesis using u Cons True by (simp add: u_def)
    next
      case False
      then show ?thesis using u Cons by (simp add: u_def)
    qed
  qed
qed

lemma read_word_number:
  assumes "s = c # cs" "is_py_digit c \<or> c = CHR ''-'' \<and> cs \<noteq> [] \<and> is_py_digit (hd cs)"
  shows "read_word s = read_number s" "c \<notin> {code_char 34, code_char 91, code_char 123}"
proof -
  have d: "is_py_digit x \<Longrightarrow> x \<notin> {CHR ''n'', CHR ''t'', CHR ''f'', CHR ''N'', CHR ''I''}" for x
    by (auto simp: is_py_digit_def char_code_def)
  have "\<not> starts_with (x # p) s" if "x \<in> {CHR ''n'', CHR ''t'', CHR ''f'', CHR ''N'', CHR ''I''}" for x p
    using assms d that by (auto simp: starts_with_def)
  moreover have "\<not> starts_with ''-Infinity'' s"
    using assms d[of "hd cs"] by (cases cs) (auto simp: starts_with_def is_py_digit_def char_code_def)
  ultimately show "read_word s = read_number s" by (simp add: read_word_def)
  show "c \<notin> {code_char 34, code_char 91, code_char 123}"
    using assms(2) by (auto simp: is_py_digit_def char_eq_code Let_def)
qed

lemma show_int_starts: "\<exists>c cs. show_int i = c # cs \<and> (is_py_digit c \<or> c = CHR ''-'' \<and> cs \<noteq> [] \<and> is_py_digit (hd cs))"
proof (cases "i < 0")
  case True
  obtain c cs where "show_nat (nat (- i)) = c # cs" "is_py_digit c" using int_text_starts[OF int_text_show_nat] by blast
  then show ?thesis using True by (simp add: show_int_def)
next
  case False
  then show ?thesis using int_text_starts[OF int_text_show_nat[of "nat i"]] by (auto simp: show_int_def)
qed

text \<open>The first character of a value is none of the separators.\<close>

lemma digit_no_separator: "is_py_digit c \<or> c = CHR ''-'' \<Longrightarrow> 32 < char_code c \<and> char_code c < 128 \<and> char_code c \<notin> {93, 125, 44, 58}"
  by (auto simp: is_py_digit_def Let_def)

lemma show_json_starts:
  assumes "json_wf j"
  shows "\<exists>c cs. show_json j = c # cs \<and> 32 < char_code c \<and> char_code c < 128 \<and> char_code c \<notin> {93, 125, 44, 58}"
proof (cases j)
  case (JInt i)
  then show ?thesis using show_int_starts[of i] digit_no_separator by fastforce
next
  case (JReal t)
  then show ?thesis using assms real_text_starts[of t] digit_no_separator by fastforce
qed (auto simp: quoted_def char_code_def)

lemma next_char_show: "json_wf j \<Longrightarrow> next_char (show_json j @ r) = Some (hd (show_json j), tl (show_json j) @ r)"
  using show_json_starts[of j] by (auto simp: next_char_def skip_space_def json_space_def)

lemma skip_show: "json_wf j \<Longrightarrow> skip_space (show_json j @ r) = show_json j @ r"
  using show_json_starts[of j] by (auto simp: skip_space_def json_space_def)

lemma skip_separator [simp]: "char_code c \<notin> {32, 9, 10, 13} \<Longrightarrow> skip_space (c # r) = c # r"
  by (simp add: skip_space_def json_space_def)

lemma next_separator [simp]: "char_code c \<notin> {32, 9, 10, 13} \<Longrightarrow> next_char (c # r) = Some (c, r)"
  by (simp add: next_char_def)

lemma ends_number_separator [simp]: "n \<in> {44, 93, 125} \<Longrightarrow> ends_number (code_char n # r)"
  by (auto simp: ends_number_def number_char_def is_py_digit_def)

lemma foldl_dict_set: "distinct (map fst (d @ kvs)) \<Longrightarrow> foldl (\<lambda>d (k, v). dict_set d k v) d kvs = d @ kvs"
proof (induction kvs arbitrary: d)
  case (Cons e kvs)
  obtain k v where e: "e = (k, v)" by (cases e)
  have "dict_set d k v = d @ [(k, v)]" if "k \<notin> fst ` set d" for d
    using that by (induction d) auto
  then show ?case using Cons.prems Cons.IH[of "d @ [(k, v)]"] e by simp
qed simp

lemma dict_of_distinct: "distinct (map fst kvs) \<Longrightarrow> dict_of kvs = kvs"
  using foldl_dict_set[of "[]" kvs] by (simp add: dict_of_def)

definition show_pair :: "string \<times> json \<Rightarrow> string" where
  "show_pair kv = quoted (fst kv) @ code_char 58 # show_json (snd kv)"

lemma comma_separated_Cons: "comma_separated (x # xs) = x @ (if xs = [] then [] else code_char 44 # comma_separated xs)"
  by (cases xs) simp_all

lemma read_shown:
  "(size j < n \<longrightarrow> json_wf j \<longrightarrow> ends_number r \<longrightarrow> read_value n (show_json j @ r) = Some (j, r))
   \<and> (size_list size xs < n \<longrightarrow> (\<forall>x \<in> set xs. json_wf x) \<longrightarrow> xs \<noteq> []
       \<longrightarrow> read_items n (comma_separated (map show_json xs) @ code_char 93 # r) = Some (xs, r))
   \<and> (size_list (size_prod (\<lambda>_. 0) size) kvs < n \<longrightarrow> (\<forall>kv \<in> set kvs. json_wf (snd kv)) \<longrightarrow> kvs \<noteq> []
       \<longrightarrow> read_pairs n (comma_separated (map show_pair kvs) @ code_char 125 # r) = Some (kvs, r))"
proof (induction n arbitrary: j xs kvs r)
  case (Suc n)
  have vals: "size j < n \<Longrightarrow> json_wf j \<Longrightarrow> ends_number r \<Longrightarrow> read_value n (show_json j @ r) = Some (j, r)" for j r
    using Suc.IH by blast
  have items: "size_list size xs < n \<Longrightarrow> \<forall>x \<in> set xs. json_wf x \<Longrightarrow> xs \<noteq> []
       \<Longrightarrow> read_items n (comma_separated (map show_json xs) @ code_char 93 # r) = Some (xs, r)" for xs r
    using Suc.IH by blast
  have pairs: "size_list (size_prod (\<lambda>_. 0) size) kvs < n \<Longrightarrow> \<forall>kv \<in> set kvs. json_wf (snd kv) \<Longrightarrow> kvs \<noteq> []
       \<Longrightarrow> read_pairs n (comma_separated (map show_pair kvs) @ code_char 125 # r) = Some (kvs, r)" for kvs r
    using Suc.IH by blast
  have 1: "read_value (Suc n) (show_json j @ r) = Some (j, r)" if len: "size j < Suc n" and wf: "json_wf j" and r: "ends_number r"
  proof (cases j)
    case (JInt i)
    obtain c cs where c: "show_int i = c # cs" "is_py_digit c \<or> c = CHR ''-'' \<and> cs \<noteq> [] \<and> is_py_digit (hd cs)"
      using show_int_starts by blast
    have "c # cs @ r = c # (cs @ r)" "is_py_digit c \<or> c = CHR ''-'' \<and> cs @ r \<noteq> [] \<and> is_py_digit (hd (cs @ r))" using c(2) by auto
    note w = read_word_number[OF this]
    then have "read_word (c # cs @ r) = Some (JInt i, r)" using read_int[OF r, of i] c(1) by simp
    then show ?thesis using w(2) JInt c(1) by (auto dest: arg_cong[of _ _ code_char])
  next
    case (JReal t)
    then have t: "real_text t" "\<forall>c \<in> set t. number_char c" using wf by simp_all
    obtain c cs where c: "t = c # cs" "is_py_digit c \<or> c = CHR ''-'' \<and> cs \<noteq> [] \<and> is_py_digit (hd cs)"
      using real_text_starts[OF t(1)] by blast
    have "c # cs @ r = c # (cs @ r)" "is_py_digit c \<or> c = CHR ''-'' \<and> cs @ r \<noteq> [] \<and> is_py_digit (hd (cs @ r))" using c(2) by auto
    note w = read_word_number[OF this]
    then have "read_word (c # cs @ r) = Some (j, r)" using read_real[OF t r] c(1) JReal by simp
    then show ?thesis using w(2) JReal c(1) by (auto dest: arg_cong[of _ _ code_char])
  next
    case (JStr t)
    then show ?thesis by (simp add: quoted_def read_quoted)
  next
    case (JList ys)
    show ?thesis
    proof (cases ys)
      case Nil
      then show ?thesis using JList by simp
    next
      case (Cons y zs)
      then have "next_char (comma_separated (map show_json ys) @ code_char 93 # r)
          = Some (hd (show_json y), tl (show_json y) @ (if zs = [] then [] else code_char 44 # comma_separated (map show_json zs)) @ code_char 93 # r)"
        using JList wf next_char_show[of y] by (simp add: comma_separated_Cons)
      moreover obtain c cs where "show_json y = c # cs" "char_code c \<noteq> 93" using show_json_starts[of y] JList Cons wf by auto
      ultimately show ?thesis
        using JList Cons wf len items[of ys r] by (simp add: comma_separated_Cons)
    qed
  next
    case (JObj kvs)
    show ?thesis
    proof (cases kvs)
      case Nil
      then show ?thesis using JObj by simp
    next
      case (Cons kv zs)
      have pr: "(\<lambda>(k, v). quoted k @ code_char 58 # show_json v) = show_pair" by (auto simp: show_pair_def)
      have q: "comma_separated (map show_pair kvs) = code_char 34 # tl (comma_separated (map show_pair kvs))"
        using Cons by (simp add: comma_separated_Cons show_pair_def quoted_def)
      have "read_pairs n (comma_separated (map show_pair kvs) @ code_char 125 # r) = Some (kvs, r)"
      proof (rule pairs)
        show "size_list (size_prod (\<lambda>_. 0) size) kvs < n" using len JObj by simp
        show "\<forall>kv \<in> set kvs. json_wf (snd kv)" using wf JObj by auto
        show "kvs \<noteq> []" using Cons by simp
      qed
      moreover obtain u where u: "comma_separated (map show_pair kvs) = code_char 34 # u" using q by blast
      moreover have "show_json j @ r = code_char 123 # comma_separated (map show_pair kvs) @ code_char 125 # r"
        by (simp add: JObj pr)
      ultimately show ?thesis using JObj wf by (simp add: dict_of_distinct)
    qed
  qed (use r in \<open>auto simp: read_word_def starts_with_def char_code_def\<close>)
  have 2: "read_items (Suc n) (comma_separated (map show_json xs) @ code_char 93 # r) = Some (xs, r)"
    if len: "size_list size xs < Suc n" and wf: "\<forall>x \<in> set xs. json_wf x" and "xs \<noteq> []"
  proof -
    obtain y zs where xs: "xs = y # zs" using \<open>xs \<noteq> []\<close> by (cases xs) auto
    have v: "ends_number r' \<Longrightarrow> read_value n (show_json y @ r') = Some (y, r')" for r'
      using vals[of y] len wf xs by simp
    show ?thesis
    proof (cases zs)
      case Nil
      then show ?thesis using v xs by simp
    next
      case (Cons z ws)
      have "skip_space (comma_separated (map show_json zs) @ code_char 93 # r) = comma_separated (map show_json zs) @ code_char 93 # r"
        using skip_show[of z] wf xs Cons by (simp add: comma_separated_Cons)
      then show ?thesis using v xs Cons items[of zs r] len wf by (simp add: comma_separated_Cons)
    qed
  qed
  have 3: "read_pairs (Suc n) (comma_separated (map show_pair kvs) @ code_char 125 # r) = Some (kvs, r)"
    if len: "size_list (size_prod (\<lambda>_. 0) size) kvs < Suc n" and wf: "\<forall>kv \<in> set kvs. json_wf (snd kv)" and "kvs \<noteq> []"
  proof -
    obtain k v zs where kvs: "kvs = (k, v) # zs" using \<open>kvs \<noteq> []\<close> by (cases kvs) auto
    have wv: "json_wf v" using wf kvs by simp
    have rv: "ends_number r' \<Longrightarrow> read_value n (show_json v @ r') = Some (v, r')" for r'
      using vals[of v] len wv kvs by simp
    show ?thesis
    proof (cases zs)
      case Nil
      then show ?thesis using rv kvs wv by (simp add: show_pair_def quoted_def read_quoted skip_show)
    next
      case (Cons z ws)
      have "skip_space (comma_separated (map show_pair zs) @ code_char 125 # r) = comma_separated (map show_pair zs) @ code_char 125 # r"
        using Cons by (simp add: comma_separated_Cons show_pair_def quoted_def)
      then show ?thesis
        using rv kvs wv Cons pairs[of zs r] len wf
        by (simp add: comma_separated_Cons show_pair_def quoted_def read_quoted skip_show)
    qed
  qed
  from 1 2 3 show ?case by blast
qed simp

declare read_value.simps [simp del] read_items.simps [simp del] read_pairs.simps [simp del]

lemma read_show_json: "json_wf j \<Longrightarrow> json_loads (show_json j) = Some j"
proof -
  assume wf: "json_wf j"
  define s where "s = show_json j"
  have skip: "skip_space s = s" using skip_show[OF wf, of "[]"] by (simp add: s_def)
  have "2 * length s < 2 * length s + 2" by simp
  note more = more_fuel[THEN conjunct1, rule_format, OF this, of "size j"]
  have "read_value (2 * length s + 2 + size j) s = Some (j, [])"
    using read_shown[THEN conjunct1, rule_format, of j "2 * length s + 2 + size j" "[]"] wf unfolding s_def
    by (simp only: append_Nil2) (simp add: ends_number_def)
  then have "read_value (2 * length s + 2) s = Some (j, [])" unfolding more .
  then show ?thesis
    unfolding json_loads_def s_def[symmetric] skip by (simp add: skip_space_def del: add_2_eq_Suc')
qed

section \<open>Sorted keys\<close>

lemma sort_keys_wf: "json_wf j \<Longrightarrow> json_wf (sort_keys j)"
proof (induction j rule: sort_keys.induct)
  case (2 kvs)
  let ?kvs = "map (\<lambda>(k, v). (k, sort_keys v)) kvs"
  have keys: "map fst ?kvs = map fst kvs" by auto
  have "mset (map fst (sort_key fst ?kvs)) = mset (map fst ?kvs)" by (simp only: mset_map mset_sort)
  then have "distinct (map fst (sort_key fst ?kvs))"
    using 2(2) unfolding keys by (metis json_wf.simps(3) mset_eq_imp_distinct_iff)
  then show ?case using 2 by auto
qed auto

lemma sort_key_map_snd: "sort_key fst (map (\<lambda>(k, v). (k, f v)) kvs) = map (\<lambda>(k, v). (k, f v)) (sort_key fst kvs)"
proof -
  have ins: "insort_key fst (k, f v) (map (\<lambda>(k, v). (k, f v)) xs) = map (\<lambda>(k, v). (k, f v)) (insort_key fst (k, v) xs)"
    for k :: "'a :: linorder" and v xs
    by (induction xs) auto
  show ?thesis by (induction kvs) (auto simp: sort_key_def ins)
qed

lemma sort_keys_idem [simp]: "sort_keys (sort_keys j) = sort_keys j"
proof (induction j rule: sort_keys.induct)
  case (2 kvs)
  have "map (\<lambda>(k, v). (k, sort_keys v)) (map (\<lambda>(k, v). (k, sort_keys v)) kvs) = map (\<lambda>(k, v). (k, sort_keys v)) kvs"
    using 2 by auto
  then have "sort_key fst (map (\<lambda>(k, v). (k, sort_keys v)) (sort_key fst (map (\<lambda>(k, v). (k, sort_keys v)) kvs)))
      = sort_key fst (sort_key fst (map (\<lambda>(k, v). (k, sort_keys v)) kvs))"
    by (simp only: sort_key_map_snd[symmetric])
  also have "\<dots> = sort_key fst (map (\<lambda>(k, v). (k, sort_keys v)) kvs)"
    by (rule sort_key_id_if_sorted) (rule sorted_sort_key)
  finally show ?case by simp
qed auto

lemma json_roundtrip: "json_wf j \<Longrightarrow> json_loads (json_dumps j) = Some (sort_keys j)"
  unfolding json_dumps_def by (rule read_show_json) (rule sort_keys_wf)

lemma json_dumps_sorted [simp]: "json_dumps (sort_keys j) = json_dumps j"
  by (simp add: json_dumps_def)

end
