(* ===== verification/Diag_Journal.thy ===== *)
theory Diag_Journal
  imports Json_Text
begin

text \<open>
  The journal of the playback diagnostics (\<^verbatim>\<open>playback_diagnostics/journal.py\<close>): a file that only grows, of records that are
  compressed, encrypted and chained by their digests. A record is a header and a ciphertext, each after its length. A journal
  is verified from its beginning when it is opened; a last record that is incomplete is copied to the quarantine and cut off.

  A file is a list of octets. SHA-256, zlib and AES-GCM are functions of the record \<open>codec\<close> (\<open>sound_codec\<close> says what is relied
  on), as are \<^verbatim>\<open>str\<close> and \<^verbatim>\<open>int\<close> of values a header of this program never has; JSON, UTF-8, base 64 and the lengths are
  those of \<open>Json_Text\<close> and \<open>Byte_Text\<close>. The file is opened without a buffer, so \<^verbatim>\<open>write\<close> may take fewer octets than it is
  given: \<open>took\<close> says how many. Nonces, time stamps and the name of a quarantined copy are arguments; so is the answer of the
  guard of the disk's capacity. Locks, permissions, \<^verbatim>\<open>fsync\<close> and other failures of the file system are left out.
\<close>

section \<open>What the journal relies on\<close>

definition JOURNAL_MAGIC :: octets where "JOURNAL_MAGIC = map byte [69, 76, 86, 68, 50, 10]"
definition LEGACY_JOURNAL_MAGIC :: octets where "LEGACY_JOURNAL_MAGIC = map byte [69, 76, 86, 68, 49, 10]"
definition JOURNAL_SCHEMA_VERSION :: string where "JOURNAL_SCHEMA_VERSION = ''elvern-diagnostics-journal-v2''"
definition LEGACY_JOURNAL_SCHEMA_VERSION :: string where "LEGACY_JOURNAL_SCHEMA_VERSION = ''elvern-diagnostics-journal-v1''"
definition JOURNAL_LENGTH_BYTES :: nat where "JOURNAL_LENGTH_BYTES = 8"
definition MAX_JOURNAL_CHUNK_BYTES :: nat where "MAX_JOURNAL_CHUNK_BYTES = 4000000"
definition KEY_BYTES :: nat where "KEY_BYTES = 32"
definition NONCE_BYTES :: nat where "NONCE_BYTES = 12"

text \<open>The exceptions that make a journal invalid, the one of an incomplete last record, and those that pass through.\<close>

datatype journal_error =
    Journal_Error string
  | Decode_Error
  | Invalid_Tag
  | Zlib_Error
  | Number_Error
  | Key_Error string

datatype fault = Torn string | Bad journal_error | Raised py_error

record codec =
  cd_sha256 :: "octets \<Rightarrow> octets"
  cd_compress :: "octets \<Rightarrow> octets"
  cd_decompress :: "octets \<Rightarrow> octets option"
  cd_encrypt :: "octets \<Rightarrow> octets \<Rightarrow> octets \<Rightarrow> octets \<Rightarrow> octets"
  cd_decrypt :: "octets \<Rightarrow> octets \<Rightarrow> octets \<Rightarrow> octets \<Rightarrow> octets option"
  cd_str :: "json \<Rightarrow> string"
  cd_real_truthy :: "string \<Rightarrow> bool"
  cd_real_int :: "string \<Rightarrow> fault + int"

definition sound_codec :: "codec \<Rightarrow> bool" where
  "sound_codec c \<longleftrightarrow>
     (\<forall>x. length (cd_sha256 c x) = 32) \<and> (\<forall>x. cd_decompress c (cd_compress c x) = Some x)
     \<and> (\<forall>key nonce x context. cd_decrypt c key nonce (cd_encrypt c key nonce x context) context = Some x
          \<and> cd_encrypt c key nonce x context \<noteq> [])"

definition hexdigest :: "codec \<Rightarrow> octets \<Rightarrow> string" where
  "hexdigest c x = to_hex (cd_sha256 c x)"

definition canonical_json :: "json \<Rightarrow> octets" where
  "canonical_json j = utf8_encode (json_dumps j)"

section \<open>Keys\<close>

definition is_space :: "char \<Rightarrow> bool" where
  "is_space c = (is_py_space c \<or> char_code c = 133 \<or> char_code c = 160)"

definition strip :: "string \<Rightarrow> string" where
  "strip s = rev (dropWhile is_space (rev (dropWhile is_space s)))"

text \<open>\<^verbatim>\<open>str.isalnum\<close> of one character.\<close>

definition is_alnum :: "char \<Rightarrow> bool" where
  "is_alnum c =
     (let n = char_code c in
      (48 \<le> n \<and> n \<le> 57) \<or> (65 \<le> n \<and> n \<le> 90) \<or> (97 \<le> n \<and> n \<le> 122) \<or> n \<in> {170, 178, 179, 181, 185, 186, 188, 189, 190}
      \<or> (192 \<le> n \<and> n \<noteq> 215 \<and> n \<noteq> 247))"

definition load_key :: "(string \<times> octets) list \<Rightarrow> string \<Rightarrow> fault + (string \<times> octets)" where
  "load_key key_files key_id =
     (let normalized = strip key_id; letters = filter (\<lambda>c. c \<noteq> CHR ''-'') normalized in
      if normalized = [] \<or> letters = [] \<or> \<not> list_all is_alnum letters then Inl (Bad (Key_Error ''Invalid diagnostics key id''))
      else case dict_get key_files (''key-'' @ normalized @ ''.bin'') of
             None \<Rightarrow> Inl (Bad (Key_Error ''missing''))
           | Some material \<Rightarrow>
               if length material \<noteq> KEY_BYTES then Inl (Bad (Key_Error ''Invalid diagnostics key material''))
               else Inr (normalized, material))"

section \<open>Fields of a header\<close>

fun truthy :: "codec \<Rightarrow> json \<Rightarrow> bool" where
  "truthy c JNull = False"
| "truthy c (JBool b) = b"
| "truthy c (JInt i) = (i \<noteq> 0)"
| "truthy c (JReal t) = cd_real_truthy c t"
| "truthy c (JStr s) = (s \<noteq> [])"
| "truthy c (JList xs) = (xs \<noteq> [])"
| "truthy c (JObj kvs) = (kvs \<noteq> [])"

fun str_of :: "codec \<Rightarrow> json \<Rightarrow> string" where
  "str_of c (JStr s) = s"
| "str_of c (JInt i) = show_int i"
| "str_of c (JBool b) = (if b then ''True'' else ''False'')"
| "str_of c JNull = ''None''"
| "str_of c j = cd_str c j"

text \<open>\<^verbatim>\<open>str(header.get(key) or "")\<close> and \<^verbatim>\<open>int(header.get(key) or default)\<close>.\<close>

definition text_field :: "codec \<Rightarrow> (string \<times> json) list \<Rightarrow> string \<Rightarrow> string" where
  "text_field c h key =
     (case dict_get h key of None \<Rightarrow> [] | Some v \<Rightarrow> if truthy c v then str_of c v else [])"

fun int_of :: "codec \<Rightarrow> json \<Rightarrow> fault + int" where
  "int_of c (JInt i) = Inr i"
| "int_of c (JBool b) = Inr (if b then 1 else 0)"
| "int_of c (JStr s) = (case py_int s of None \<Rightarrow> Inl (Bad Number_Error) | Some i \<Rightarrow> Inr i)"
| "int_of c (JReal t) = cd_real_int c t"
| "int_of c j = Inl (Raised (TypeError ''int''))"

definition int_field :: "codec \<Rightarrow> int \<Rightarrow> (string \<times> json) list \<Rightarrow> string \<Rightarrow> fault + int" where
  "int_field c otherwise h key =
     (case dict_get h key of None \<Rightarrow> Inr otherwise | Some v \<Rightarrow> if truthy c v then int_of c v else Inr otherwise)"

text \<open>\<^verbatim>\<open>secrets.compare_digest\<close> on strings.\<close>

definition same_digest :: "string \<Rightarrow> string \<Rightarrow> fault + bool" where
  "same_digest a b =
     (if \<forall>c \<in> set (a @ b). char_code c < 128 then Inr (a = b) else Inl (Raised (TypeError ''compare_digest'')))"

section \<open>Verifying one record\<close>

record journal_config =
  jc_codec :: codec
  jc_keys :: "(string \<times> octets) list"
  jc_session :: string
  jc_source :: string
  jc_type :: string

record journal_scan =
  sc_end :: nat
  sc_chunks :: nat
  sc_events :: nat
  sc_prev :: string
  sc_bound :: "(string \<times> string \<times> string) option"
  sc_out :: "(nat \<times> string \<times> json) list"

definition refuse :: "string \<Rightarrow> fault" where
  "refuse message = Bad (Journal_Error message)"

definition ensure :: "bool \<Rightarrow> fault \<Rightarrow> fault + unit" where
  "ensure b f = (if b then Inr () else Inl f)"

definition check_identity ::
  "journal_config \<Rightarrow> string \<Rightarrow> (string \<times> json) list \<Rightarrow> (string \<times> string \<times> string) option
     \<Rightarrow> fault + (string \<times> string \<times> string)" where
  "check_identity cfg schema h bound =
     (let c = jc_codec cfg; session = text_field c h ''playback_session_id''; type = text_field c h ''source_type'';
          source = text_field c h ''source_id''; current = (schema = JOURNAL_SCHEMA_VERSION) in
      and_then (ensure (dict_get h ''schema_version'' = Some (JStr schema)) (refuse ''Unsupported diagnostics journal schema'')) (\<lambda>_.
      and_then (ensure (\<not> (current \<and> source = [])) (refuse ''Diagnostics journal source id is missing'')) (\<lambda>_.
      and_then (ensure (case bound of None \<Rightarrow> True
                        | Some (s, i, t) \<Rightarrow> session = s \<and> type = t \<and> (current \<longrightarrow> source = i))
          (refuse ''Diagnostics journal source identity changed'')) (\<lambda>_.
      and_then (ensure (jc_session cfg = [] \<or> session = jc_session cfg) (refuse ''Diagnostics journal session identity mismatch'')) (\<lambda>_.
      and_then (ensure (jc_type cfg = [] \<or> type = jc_type cfg) (refuse ''Diagnostics journal source type mismatch'')) (\<lambda>_.
      and_then (ensure (jc_source cfg = [] \<or> \<not> current \<or> source = jc_source cfg) (refuse ''Diagnostics journal source identity mismatch'')) (\<lambda>_.
      Inr (case bound of None \<Rightarrow> (session, source, type) | Some b \<Rightarrow> b))))))))"

definition check_chain :: "codec \<Rightarrow> journal_scan \<Rightarrow> (string \<times> json) list \<Rightarrow> string \<Rightarrow> octets \<Rightarrow> fault + unit" where
  "check_chain c sc h current ciphertext =
     and_then (int_field c 0 h ''chunk_sequence'') (\<lambda>n.
     and_then (ensure (n = int (sc_chunks sc) + 1) (refuse ''Diagnostics chunk sequence is not contiguous'')) (\<lambda>_.
     and_then (ensure (text_field c h ''previous_chunk_hash'' = sc_prev sc) (refuse ''Diagnostics journal hash chain is broken'')) (\<lambda>_.
     (case from_hex (sc_prev sc) of
        None \<Rightarrow> Inl (Bad Decode_Error)
      | Some prev \<Rightarrow>
          and_then (same_digest current (hexdigest c (prev @ canonical_json (JObj h) @ ciphertext))) (\<lambda>same.
          ensure same (refuse ''Diagnostics chunk hash mismatch''))))))"

definition open_chunk :: "journal_config \<Rightarrow> (string \<times> json) list \<Rightarrow> octets \<Rightarrow> fault + octets" where
  "open_chunk cfg h ciphertext =
     (let c = jc_codec cfg in
      case b64_decode (text_field c h ''nonce'') of
        None \<Rightarrow> Inl (Bad Decode_Error)
      | Some nonce \<Rightarrow>
          and_then (ensure (length nonce = NONCE_BYTES) (refuse ''Invalid diagnostics chunk nonce'')) (\<lambda>_.
          and_then (load_key (jc_keys cfg) (text_field c h ''key_id'')) (\<lambda>(_, material).
          (case cd_decrypt c material nonce ciphertext (canonical_json (JObj h)) of
             None \<Rightarrow> Inl (Bad Invalid_Tag)
           | Some compressed \<Rightarrow>
               (case cd_decompress c compressed of None \<Rightarrow> Inl (Bad Zlib_Error) | Some plaintext \<Rightarrow> Inr plaintext)))))"

text \<open>\<^verbatim>\<open>str.splitlines\<close>: on the characters here it breaks at line feed, vertical tab, form feed, carriage return, the three
  separators 28 to 30, and the next-line character 133.\<close>

definition is_break :: "char \<Rightarrow> bool" where
  "is_break c = (char_code c \<in> {10, 11, 12, 13, 28, 29, 30, 133})"

fun break_lines :: "string \<Rightarrow> string list" where
  "break_lines [] = []"
| "break_lines (c # cs) =
     (if char_code c = 13 then
        (case cs of
           [] \<Rightarrow> [[]]
         | d # ds \<Rightarrow> if char_code d = 10 then [] # break_lines ds else [] # break_lines cs)
      else if is_break c then [] # break_lines cs
      else case break_lines cs of [] \<Rightarrow> [[c]] | l # ls \<Rightarrow> (c # l) # ls)"

fun load_lines :: "string list \<Rightarrow> json list option" where
  "load_lines [] = Some []"
| "load_lines (l # ls) =
     (if strip l = [] then load_lines ls
      else case (json_loads l, load_lines ls) of (Some j, Some js) \<Rightarrow> Some (j # js) | _ \<Rightarrow> None)"

definition decode_events :: "codec \<Rightarrow> (string \<times> json) list \<Rightarrow> octets \<Rightarrow> fault + json list" where
  "decode_events c h plaintext =
     and_then (int_field c (- 1) h ''plaintext_length'') (\<lambda>n.
     and_then (ensure (int (length plaintext) = n) (refuse ''Diagnostics plaintext length mismatch'')) (\<lambda>_.
     and_then (ensure (dict_get h ''plaintext_sha256'' = Some (JStr (hexdigest c plaintext)))
         (refuse ''Diagnostics plaintext hash mismatch'')) (\<lambda>_.
     (case Option.bind (utf8_decode plaintext) (\<lambda>text. load_lines (break_lines text)) of
        None \<Rightarrow> Inl (Bad Decode_Error)
      | Some events \<Rightarrow>
          and_then (int_field c (- 1) h ''event_count'') (\<lambda>m.
          and_then (ensure (int (length events) = m) (refuse ''Diagnostics event count mismatch'')) (\<lambda>_. Inr events))))))"

text \<open>The checks of one record, in the order of the code.\<close>

definition check_record ::
  "journal_config \<Rightarrow> string \<Rightarrow> json \<Rightarrow> octets \<Rightarrow> journal_scan \<Rightarrow> fault + journal_scan" where
  "check_record cfg schema header ciphertext sc =
     (case header of
        JObj stored \<Rightarrow>
          (let c = jc_codec cfg; h = dict_pop stored ''current_chunk_hash'';
               current = (case dict_get stored ''current_chunk_hash'' of None \<Rightarrow> [] | Some v \<Rightarrow> str_of c v) in
           and_then (check_identity cfg schema h (sc_bound sc)) (\<lambda>bound.
           and_then (check_chain c sc h current ciphertext) (\<lambda>_.
           and_then (open_chunk cfg h ciphertext) (\<lambda>plaintext.
           and_then (decode_events c h plaintext) (\<lambda>events.
           Inr (sc\<lparr>sc_chunks := sc_chunks sc + 1, sc_events := sc_events sc + length events, sc_prev := current, sc_bound := Some bound,
                   sc_out := sc_out sc @ map (\<lambda>e. (sc_chunks sc + 1, current, e)) events\<rparr>))))))
      | _ \<Rightarrow> Inl (Raised (TypeError ''pop'')))"

section \<open>Reading the file\<close>

definition read_exact :: "nat \<Rightarrow> octets \<Rightarrow> fault + (octets \<times> octets) option" where
  "read_exact n s =
     (if take n s = [] then Inr None
      else if length (take n s) \<noteq> n then Inl (Torn ''truncated final journal record'')
      else Inr (Some (take n s, drop n s)))"

definition must_read :: "string \<Rightarrow> nat \<Rightarrow> octets \<Rightarrow> fault + (octets \<times> octets)" where
  "must_read message n s =
     and_then (read_exact n s) (\<lambda>r. case r of None \<Rightarrow> Inl (Torn message) | Some x \<Rightarrow> Inr x)"

definition read_rest ::
  "journal_config \<Rightarrow> string \<Rightarrow> journal_scan \<Rightarrow> octets \<Rightarrow> octets \<Rightarrow> fault + (journal_scan \<times> octets)" where
  "read_rest cfg schema sc raw s1 =
     (let header_length = be_value raw in
      and_then (ensure (0 < header_length \<and> header_length \<le> 64000) (refuse ''Invalid diagnostics chunk header length'')) (\<lambda>_.
      and_then (must_read ''truncated final diagnostics chunk header'' header_length s1) (\<lambda>(header_bytes, s2).
      (case Option.bind (utf8_decode header_bytes) json_loads of
         None \<Rightarrow> Inl (Bad Decode_Error)
       | Some header \<Rightarrow>
           and_then (must_read ''truncated final diagnostics ciphertext length'' JOURNAL_LENGTH_BYTES s2) (\<lambda>(raw2, s3).
           let ciphertext_length = be_value raw2 in
           and_then (ensure (0 < ciphertext_length \<and> ciphertext_length \<le> MAX_JOURNAL_CHUNK_BYTES)
               (refuse ''Invalid diagnostics ciphertext length'')) (\<lambda>_.
           and_then (must_read ''truncated final diagnostics ciphertext'' ciphertext_length s3) (\<lambda>(ciphertext, s4).
           and_then (check_record cfg schema header ciphertext sc) (\<lambda>sc'.
           Inr (sc'\<lparr>sc_end := sc_end sc + (length raw + length s1 - length s4)\<rparr>, s4)))))))))"

definition read_record ::
  "journal_config \<Rightarrow> string \<Rightarrow> journal_scan \<Rightarrow> octets \<Rightarrow> fault + (journal_scan \<times> octets) option" where
  "read_record cfg schema sc s =
     and_then (read_exact JOURNAL_LENGTH_BYTES s) (\<lambda>r.
       case r of None \<Rightarrow> Inr None
       | Some (raw, s1) \<Rightarrow> and_then (read_rest cfg schema sc raw s1) (\<lambda>x. Inr (Some x)))"

lemma read_exact_shorter: "read_exact n s = Inr (Some (x, r)) \<Longrightarrow> length r < length s \<and> s = x @ r \<and> length x = n \<and> 0 < n"
  by (cases n; cases s) (auto simp: read_exact_def split: if_splits)

lemma must_read_shorter: "must_read message n s = Inr (x, r) \<Longrightarrow> length r < length s \<and> s = x @ r \<and> length x = n \<and> 0 < n"
  by (auto simp: must_read_def and_then_Inr_iff dest: read_exact_shorter split: option.splits)

lemma read_rest_shorter: "read_rest cfg schema sc raw s = Inr (sc', r) \<Longrightarrow> length r < length s"
  by (fastforce simp: read_rest_def and_then_Inr_iff Let_def split: option.splits dest: must_read_shorter)

lemma read_record_shorter: "read_record cfg schema sc s = Inr (Some (sc', r)) \<Longrightarrow> length r < length s"
  by (fastforce simp: read_record_def and_then_Inr_iff split: option.splits dest: read_exact_shorter read_rest_shorter)

text \<open>The loop over the records ends because a record is not empty.\<close>

function scan_records :: "journal_config \<Rightarrow> string \<Rightarrow> journal_scan \<Rightarrow> octets \<Rightarrow> fault option \<times> journal_scan" where
  "scan_records cfg schema sc s =
     (case read_record cfg schema sc s of
        Inl f \<Rightarrow> (Some f, sc)
      | Inr None \<Rightarrow> (None, sc)
      | Inr (Some (sc', r)) \<Rightarrow> scan_records cfg schema sc' r)"
  by pat_completeness auto
termination
  by (relation "measure (\<lambda>(_, _, _, s). length s)") (auto dest: read_record_shorter)

declare scan_records.simps [simp del]

definition no_hash :: string where
  "no_hash = replicate 64 (CHR ''0'')"

definition new_scan :: "nat \<Rightarrow> journal_scan" where
  "new_scan n = \<lparr>sc_end = n, sc_chunks = 0, sc_events = 0, sc_prev = no_hash, sc_bound = None, sc_out = []\<rparr>"

definition scan_file :: "journal_config \<Rightarrow> octets \<Rightarrow> string option \<times> fault option \<times> journal_scan" where
  "scan_file cfg file =
     (let magic = take (length JOURNAL_MAGIC) file; rest = drop (length JOURNAL_MAGIC) file; start = new_scan (length JOURNAL_MAGIC) in
      if magic = JOURNAL_MAGIC then (Some JOURNAL_SCHEMA_VERSION, scan_records cfg JOURNAL_SCHEMA_VERSION start rest)
      else if magic = LEGACY_JOURNAL_MAGIC then (Some LEGACY_JOURNAL_SCHEMA_VERSION, scan_records cfg LEGACY_JOURNAL_SCHEMA_VERSION start rest)
      else (None, Some (refuse ''Invalid diagnostics journal magic''), new_scan 0))"

section \<open>Verifying and recovering\<close>

record journal_disk =
  jd_file :: "octets option"
  jd_quarantine :: "(string \<times> octets) list"

record verification =
  jv_valid :: bool
  jv_chunks :: nat
  jv_events :: nat
  jv_last :: string
  jv_recovered :: nat
  jv_quarantined :: "string option"
  jv_error :: "fault option"
  jv_schema :: "string option"
  jv_bound :: "(string \<times> string \<times> string) option"
  jv_torn :: bool

definition report_of :: "string option \<Rightarrow> fault option \<Rightarrow> journal_scan \<Rightarrow> nat \<Rightarrow> string option \<Rightarrow> verification" where
  "report_of schema error sc recovered copy =
     \<lparr>jv_valid = (error = None), jv_chunks = sc_chunks sc, jv_events = sc_events sc,
      jv_last = (if sc_chunks sc = 0 then [] else sc_prev sc), jv_recovered = recovered, jv_quarantined = copy,
      jv_error = error, jv_schema = schema, jv_bound = sc_bound sc,
      jv_torn = (case error of Some (Torn _) \<Rightarrow> True | _ \<Rightarrow> False)\<rparr>"

text \<open>What \<^verbatim>\<open>include_events\<close> and \<^verbatim>\<open>annotate_events\<close> make of the events; only a dictionary can be annotated.\<close>

definition annotated :: "nat \<times> string \<times> json \<Rightarrow> json option" where
  "annotated x =
     (case x of (n, hash, JObj d) \<Rightarrow>
        Some (JObj (dict_set (dict_set d ''_journal_chunk_sequence'' (JInt (int n))) ''_journal_chunk_hash'' (JStr hash)))
      | _ \<Rightarrow> None)"

datatype wanted = No_Events | Plain_Events | Annotated_Events

definition events_of :: "wanted \<Rightarrow> journal_scan \<Rightarrow> py_error + json list" where
  "events_of wanted sc =
     (case wanted of
        No_Events \<Rightarrow> Inr []
      | Plain_Events \<Rightarrow> Inr (map (\<lambda>(_, _, e). e) (sc_out sc))
      | Annotated_Events \<Rightarrow>
          if list_all (\<lambda>x. annotated x \<noteq> None) (sc_out sc) then Inr (map (\<lambda>x. the (annotated x)) (sc_out sc))
          else Inl (TypeError ''mapping''))"

text \<open>The copy of the tail, under a name that is new, and the truncation. \<open>quarantine\<close> is the name when there is a directory
  for it, \<open>reserve\<close> the answer of the guard of the capacity.\<close>

definition quarantine_tail :: "string option \<Rightarrow> nat \<Rightarrow> octets \<Rightarrow> journal_disk \<Rightarrow> string option \<times> journal_disk" where
  "quarantine_tail quarantine offset file disk =
     (let tail = drop offset file in
      case quarantine of
        None \<Rightarrow> (None, disk)
      | Some name \<Rightarrow>
          if tail = [] then (None, disk)
          else (Some name, disk\<lparr>jd_quarantine := dict_set (jd_quarantine disk) name tail\<rparr>))"

definition verify_journal ::
  "journal_config \<Rightarrow> bool \<Rightarrow> string option \<Rightarrow> wanted \<Rightarrow> (nat \<Rightarrow> py_error option) \<Rightarrow> journal_disk
     \<Rightarrow> (py_error + verification \<times> json list) \<times> journal_disk" where
  "verify_journal cfg recover quarantine wanted reserve disk =
     (case jd_file disk of
        None \<Rightarrow> (Inr (report_of None None (new_scan 0) 0 None, []), disk)
      | Some file \<Rightarrow>
          (let (schema, error, sc) = scan_file cfg file in
           case events_of wanted sc of
             Inl e \<Rightarrow> (Inl e, disk)
           | Inr events \<Rightarrow>
               (case error of
                  Some (Raised e) \<Rightarrow> (Inl e, disk)
                | Some (Torn m) \<Rightarrow>
                    if \<not> recover then (Inr (report_of schema error sc 0 None, events), disk)
                    else
                      (let tail_size = length file - sc_end sc in
                       case reserve tail_size of
                         Some e \<Rightarrow> (Inl e, disk)
                       | None \<Rightarrow>
                           (let (copy, disk1) = quarantine_tail quarantine (sc_end sc) file disk in
                            (Inr (report_of schema None sc tail_size copy, events), disk1\<lparr>jd_file := Some (take (sc_end sc) file)\<rparr>)))
                | _ \<Rightarrow> (Inr (report_of schema error sc 0 None, events), disk))))"

section \<open>Writing\<close>

record journal =
  jr_session :: string
  jr_type :: string
  jr_source :: string
  jr_key_id :: string
  jr_material :: octets
  jr_sequence :: nat
  jr_prev :: string

definition journal_config_of :: "codec \<Rightarrow> (string \<times> octets) list \<Rightarrow> journal \<Rightarrow> journal_config" where
  "journal_config_of c keys j =
     \<lparr>jc_codec = c, jc_keys = keys, jc_session = jr_session j, jc_source = jr_source j, jc_type = jr_type j\<rparr>"

definition new_journal :: "string \<times> octets \<Rightarrow> string \<Rightarrow> string \<Rightarrow> string option \<Rightarrow> journal" where
  "new_journal key session type source =
     \<lparr>jr_session = session, jr_type = type, jr_source = (if truthy_string source then the source else type @ ''_'' @ session),
      jr_key_id = fst key, jr_material = snd key, jr_sequence = 0, jr_prev = no_hash\<rparr>"

definition open_journal ::
  "codec \<Rightarrow> (string \<times> octets) list \<Rightarrow> string \<times> octets \<Rightarrow> string \<Rightarrow> string \<Rightarrow> string option \<Rightarrow> string \<Rightarrow> (nat \<Rightarrow> py_error option)
     \<Rightarrow> journal_disk \<Rightarrow> (py_error + journal) \<times> journal_disk" where
  "open_journal c keys key session type source_arg copy reserve disk =
     (let j = new_journal key session type source_arg;
          (answer, disk1) = verify_journal (journal_config_of c keys j) True (Some copy) No_Events reserve disk in
      case answer of
        Inl e \<Rightarrow> (Inl e, disk1)
      | Inr (v, _) \<Rightarrow>
          if \<not> jv_valid v then (Inl (ValueError ''Invalid diagnostics journal''), disk1)
          else (Inr (j\<lparr>jr_sequence := jv_chunks v, jr_prev := (if jv_last v = [] then no_hash else jv_last v)\<rparr>), disk1))"

definition plaintext_of :: "json list \<Rightarrow> octets" where
  "plaintext_of events = concat (map (\<lambda>e. canonical_json e @ [byte 10]) events)"

definition chunk_header :: "codec \<Rightarrow> journal \<Rightarrow> octets \<Rightarrow> string \<Rightarrow> json list \<Rightarrow> (string \<times> json) list" where
  "chunk_header c j nonce created events =
     [(''schema_version'', JStr JOURNAL_SCHEMA_VERSION),
      (''key_id'', JStr (jr_key_id j)),
      (''playback_session_id'', JStr (jr_session j)),
      (''source_id'', JStr (jr_source j)),
      (''source_type'', JStr (jr_type j)),
      (''chunk_sequence'', JInt (int (jr_sequence j) + 1)),
      (''event_count'', JInt (int (length events))),
      (''plaintext_length'', JInt (int (length (plaintext_of events)))),
      (''compressed_length'', JInt (int (length (cd_compress c (plaintext_of events))))),
      (''plaintext_sha256'', JStr (hexdigest c (plaintext_of events))),
      (''previous_chunk_hash'', JStr (jr_prev j)),
      (''nonce'', JStr (b64_encode nonce)),
      (''created_at_utc'', JStr created)]"

record chunk_record =
  cr_sequence :: nat
  cr_offset :: nat
  cr_end_offset :: nat
  cr_event_count :: nat
  cr_plaintext_length :: nat
  cr_ciphertext_length :: nat
  cr_previous :: string
  cr_current :: string
  cr_nonce :: string

definition seal_chunk :: "codec \<Rightarrow> journal \<Rightarrow> octets \<Rightarrow> string \<Rightarrow> json list \<Rightarrow> octets" where
  "seal_chunk c j nonce created events =
     cd_encrypt c (jr_material j) nonce (cd_compress c (plaintext_of events)) (canonical_json (JObj (chunk_header c j nonce created events)))"

definition chunk_hash :: "codec \<Rightarrow> journal \<Rightarrow> octets \<Rightarrow> (string \<times> json) list \<Rightarrow> octets \<Rightarrow> string" where
  "chunk_hash c j prev h ciphertext = hexdigest c (prev @ canonical_json (JObj h) @ ciphertext)"

definition record_bytes :: "(string \<times> json) list \<Rightarrow> string \<Rightarrow> octets \<Rightarrow> octets" where
  "record_bytes h current ciphertext =
     (let stored = canonical_json (JObj (h @ [(''current_chunk_hash'', JStr current)])) in
      be_bytes 8 (length stored) @ stored @ be_bytes 8 (length ciphertext) @ ciphertext)"

definition append_events ::
  "codec \<Rightarrow> octets \<Rightarrow> string \<Rightarrow> (nat \<Rightarrow> nat) \<Rightarrow> json list \<Rightarrow> journal \<times> journal_disk
     \<Rightarrow> (py_error + chunk_record option) \<times> journal \<times> journal_disk" where
  "append_events c nonce created took events st =
     (let (j, disk) = st in
      if events = [] then (Inr None, st)
      else
        let h = chunk_header c j nonce created events;
            ciphertext = seal_chunk c j nonce created events in
        if length ciphertext > MAX_JOURNAL_CHUNK_BYTES then (Inl (ValueError ''Diagnostics chunk is too large''), st)
        else case from_hex (jr_prev j) of
          None \<Rightarrow> (Inl (ValueError ''fromhex''), st)
        | Some prev \<Rightarrow>
            (let current = chunk_hash c j prev h ciphertext;
                 rec = record_bytes h current ciphertext;
                 old = (case jd_file disk of None \<Rightarrow> [] | Some f \<Rightarrow> f);
                 magic = (if old = [] then take (took (length JOURNAL_MAGIC)) JOURNAL_MAGIC else []);
                 offset = (if old = [] then length JOURNAL_MAGIC else length old)
             in (Inr (Some \<lparr>cr_sequence = jr_sequence j + 1, cr_offset = offset, cr_end_offset = offset + length rec,
                        cr_event_count = length events, cr_plaintext_length = length (plaintext_of events),
                        cr_ciphertext_length = length ciphertext, cr_previous = jr_prev j, cr_current = current,
                        cr_nonce = b64_encode nonce\<rparr>),
                 j\<lparr>jr_sequence := jr_sequence j + 1, jr_prev := current\<rparr>,
                 disk\<lparr>jd_file := Some (old @ magic @ take (took (length rec)) rec)\<rparr>)))"

definition read_events :: "codec \<Rightarrow> (string \<times> octets) list \<Rightarrow> journal \<Rightarrow> journal_disk \<Rightarrow> py_error + json list" where
  "read_events c keys j disk =
     (case fst (verify_journal (journal_config_of c keys j) False None Plain_Events (\<lambda>_. None) disk) of
        Inl e \<Rightarrow> Inl e
      | Inr (v, events) \<Rightarrow> if jv_valid v then Inr events else Inl (ValueError ''Invalid diagnostics journal''))"

section \<open>Records are read one after another\<close>

lemma and_then_Inl [simp]: "and_then (Inl e) f = Inl e"
  by simp

lemma ensure_Inr_iff [simp]: "ensure b f = Inr u \<longleftrightarrow> b"
  by (simp add: ensure_def)

lemma ensure_True [simp]: "ensure True f = Inr ()"
  by (simp add: ensure_def)

lemma read_exact_Nil [simp]: "read_exact n [] = Inr None"
  by (simp add: read_exact_def)

lemma read_exact_append: "length x = n \<Longrightarrow> 0 < n \<Longrightarrow> read_exact n (x @ z) = Inr (Some (x, z))"
  by (auto simp: read_exact_def)

lemma must_read_append: "length x = n \<Longrightarrow> 0 < n \<Longrightarrow> must_read message n (x @ z) = Inr (x, z)"
  by (simp add: must_read_def read_exact_append)

lemma read_record_local:
  assumes "read_record cfg schema sc s = Inr (Some (sc', r))"
  shows "\<exists>p. s = p @ r \<and> p \<noteq> [] \<and> sc_end sc' = sc_end sc + length p
     \<and> (\<forall>z. read_record cfg schema sc (p @ z) = Inr (Some (sc', z)))"
proof -
  obtain raw s1 where raw: "read_exact JOURNAL_LENGTH_BYTES s = Inr (Some (raw, s1))"
    and rest: "read_rest cfg schema sc raw s1 = Inr (sc', r)"
    using assms by (auto simp: read_record_def and_then_Inr_iff split: option.splits)
  obtain hb s2 header raw2 s3 ct sc1 where
    hl: "0 < be_value raw \<and> be_value raw \<le> 64000" and hb: "must_read ''truncated final diagnostics chunk header'' (be_value raw) s1 = Inr (hb, s2)"
    and header: "Option.bind (utf8_decode hb) json_loads = Some header"
    and raw2: "must_read ''truncated final diagnostics ciphertext length'' JOURNAL_LENGTH_BYTES s2 = Inr (raw2, s3)"
    and cl: "0 < be_value raw2 \<and> be_value raw2 \<le> MAX_JOURNAL_CHUNK_BYTES"
    and ct: "must_read ''truncated final diagnostics ciphertext'' (be_value raw2) s3 = Inr (ct, r)"
    and check: "check_record cfg schema header ct sc = Inr sc1"
    and sc': "sc' = sc1\<lparr>sc_end := sc_end sc + (length raw + length s1 - length r)\<rparr>"
    using rest by (auto simp: read_rest_def Let_def and_then_Inr_iff split: option.splits)
  note parts = read_exact_shorter[OF raw] must_read_shorter[OF hb] must_read_shorter[OF raw2] must_read_shorter[OF ct]
  let ?p = "raw @ hb @ raw2 @ ct"
  have "read_record cfg schema sc (?p @ z) = Inr (Some (sc', z))" for z
    using parts hl cl header check
    by (simp add: read_record_def read_rest_def read_exact_append must_read_append Let_def sc')
  moreover have "sc_end sc' = sc_end sc + length ?p" using parts by (simp add: sc')
  ultimately show ?thesis using parts by (intro exI[of _ ?p]) auto
qed

lemma read_record_Nil [simp]: "read_record cfg schema sc [] = Inr None"
  by (simp add: read_record_def)

lemma read_record_end: "read_record cfg schema sc s = Inr None \<Longrightarrow> s = []"
  by (auto simp: read_record_def and_then_Inr_iff read_exact_def JOURNAL_LENGTH_BYTES_def split: option.splits if_splits)

lemma scan_Nil [simp]: "scan_records cfg schema sc [] = (None, sc)"
  by (subst scan_records.simps) simp

lemma scan_step: "read_record cfg schema sc s = Inr (Some (sc', r)) \<Longrightarrow> scan_records cfg schema sc s = scan_records cfg schema sc' r"
  by (subst scan_records.simps) simp

lemma scan_stop: "read_record cfg schema sc s = Inl f \<Longrightarrow> scan_records cfg schema sc s = (Some f, sc)"
  by (subst scan_records.simps) simp

text \<open>What a scan has accepted is a prefix of the file; what follows it plays no part.\<close>

lemma scan_prefix:
  assumes "scan_records cfg schema sc s = (error, sc')"
  shows "\<exists>p r. s = p @ r \<and> sc_end sc' = sc_end sc + length p \<and> (error = None \<longleftrightarrow> r = [])
     \<and> (\<forall>z. scan_records cfg schema sc (p @ z) = scan_records cfg schema sc' z)"
  using assms
proof (induction cfg schema sc s rule: scan_records.induct)
  case (1 cfg schema sc s)
  show ?case
  proof (cases "read_record cfg schema sc s")
    case (Inl f)
    then have "s \<noteq> []" by auto
    then show ?thesis using Inl "1.prems" scan_stop[OF Inl] by (intro exI[of _ "[]"] exI[of _ s]) auto
  next
    case (Inr x)
    show ?thesis
    proof (cases x)
      case None
      then have "s = []" using Inr read_record_end by blast
      then show ?thesis using "1.prems" by simp
    next
      case (Some y)
      obtain sc1 r where y: "y = (sc1, r)" by (cases y)
      have run: "read_record cfg schema sc s = Inr (Some (sc1, r))" using Inr Some y by simp
      obtain p where p: "s = p @ r" "sc_end sc1 = sc_end sc + length p"
        and any: "\<forall>z. read_record cfg schema sc (p @ z) = Inr (Some (sc1, z))"
        using read_record_local[OF run] by blast
      have "scan_records cfg schema sc1 r = (error, sc')" using "1.prems" scan_step[OF run] by simp
      from "1.IH"[OF Inr Some y[symmetric] this] obtain q t where q: "r = q @ t" "sc_end sc' = sc_end sc1 + length q"
        "error = None \<longleftrightarrow> t = []" "\<forall>z. scan_records cfg schema sc1 (q @ z) = scan_records cfg schema sc' z"
        by blast
      have "scan_records cfg schema sc ((p @ q) @ z) = scan_records cfg schema sc' z" for z
        using scan_step[OF any[rule_format, of "q @ z"]] q(4) by simp
      then show ?thesis using p q by (intro exI[of _ "p @ q"] exI[of _ t]) auto
    qed
  qed
qed

lemma scan_more: "scan_records cfg schema sc s = (None, sc') \<Longrightarrow> scan_records cfg schema sc (s @ z) = scan_records cfg schema sc' z"
  using scan_prefix[of cfg schema sc s None sc'] by auto

lemma scan_file_prefix:
  assumes "scan_file cfg file = (schema, error, sc)" and "schema \<noteq> None"
  shows "\<exists>kept tail. file = kept @ tail \<and> sc_end sc = length kept \<and> (error = None \<longleftrightarrow> tail = [])
     \<and> scan_file cfg kept = (schema, None, sc)"
proof -
  define n where "n = length JOURNAL_MAGIC"
  have same: "length LEGACY_JOURNAL_MAGIC = n" by (simp add: n_def JOURNAL_MAGIC_def LEGACY_JOURNAL_MAGIC_def)
  have magic: "take n file = JOURNAL_MAGIC \<or> take n file = LEGACY_JOURNAL_MAGIC"
    and scan: "scan_records cfg (the schema) (new_scan n) (drop n file) = (error, sc)"
    and schema: "schema = Some (if take n file = JOURNAL_MAGIC then JOURNAL_SCHEMA_VERSION else LEGACY_JOURNAL_SCHEMA_VERSION)"
    using assms by (auto simp: scan_file_def Let_def n_def[symmetric] split: if_splits)
  obtain p r where p: "drop n file = p @ r" "sc_end sc = n + length p" "error = None \<longleftrightarrow> r = []"
    and any: "\<And>z. scan_records cfg (the schema) (new_scan n) (p @ z) = scan_records cfg (the schema) sc z"
    using scan_prefix[OF scan] by (auto simp: new_scan_def)
  have len: "length (take n file) = n" using magic same n_def by metis
  let ?kept = "take n file @ p"
  have "scan_records cfg (the schema) (new_scan n) p = (None, sc)" using any[of "[]"] by simp
  then have "scan_file cfg ?kept = (schema, None, sc)"
    using magic len schema by (auto simp: scan_file_def Let_def n_def[symmetric])
  moreover have "file = ?kept @ r" using p(1) by (metis append.assoc append_take_drop_id)
  ultimately show ?thesis using p len by (intro exI[of _ ?kept] exI[of _ r]) auto
qed

lemma scan_file_schema: "scan_file cfg file = (schema, error, sc) \<Longrightarrow> schema = None \<Longrightarrow> error = Some (refuse ''Invalid diagnostics journal magic'')"
  by (auto simp: scan_file_def Let_def split: if_splits)

text \<open>C23: Recovery loses nothing that was verified and nothing at all. Whatever bytes a journal file holds: when verifying it
  without recovery gives a report, recovering it reports the same records and the same events. If the last record is not
  incomplete, the file stays as it is. If it is, the file is cut after the last record that was verified, what is cut off is
  in the quarantine under the new name, and the file that is left verifies as it is.\<close>

theorem recovery_exact:
  assumes "jd_file disk = Some file"
    and "verify_journal cfg False None wanted reserve disk = (Inr (v, events), disk0)"
    and "verify_journal cfg True (Some name) wanted reserve disk = (Inr (v', events'), disk')"
  shows "events' = events \<and> jv_chunks v' = jv_chunks v \<and> jv_events v' = jv_events v \<and> jv_last v' = jv_last v
     \<and> (if jv_torn v
        then \<exists>kept tail v''. file = kept @ tail \<and> tail \<noteq> [] \<and> jd_file disk' = Some kept \<and> jv_recovered v' = length tail
               \<and> dict_get (jd_quarantine disk') name = Some tail
               \<and> (\<forall>other. other \<noteq> name \<longrightarrow> dict_get (jd_quarantine disk') other = dict_get (jd_quarantine disk) other)
               \<and> verify_journal cfg False None wanted reserve disk' = (Inr (v'', events), disk') \<and> jv_valid v''
               \<and> jv_chunks v'' = jv_chunks v
        else disk' = disk \<and> jv_valid v' = jv_valid v)"
proof -
  obtain schema error sc where scan: "scan_file cfg file = (schema, error, sc)" by (metis prod_cases3)
  have out: "events_of wanted sc = Inr events"
    using assms(1,2) scan by (auto simp: verify_journal_def split: sum.splits option.splits fault.splits)
  show ?thesis
  proof (cases "\<exists>m. error = Some (Torn m)")
    case True
    then obtain m where torn: "error = Some (Torn m)" by blast
    have "schema \<noteq> None" using scan_file_schema[OF scan] torn by (auto simp: refuse_def)
    from scan_file_prefix[OF scan this] obtain kept tail where k: "file = kept @ tail" "sc_end sc = length kept" "tail \<noteq> []"
      "scan_file cfg kept = (schema, None, sc)"
      using torn by auto
    have v: "v = report_of schema error sc 0 None"
      using assms(1,2) scan out torn by (simp add: verify_journal_def)
    have v': "events' = events" "v' = report_of schema None sc (length tail) (Some name)"
      "disk' = disk\<lparr>jd_quarantine := dict_set (jd_quarantine disk) name tail, jd_file := Some kept\<rparr>"
      using assms(1,3) scan out torn k
      by (auto simp: verify_journal_def quarantine_tail_def Let_def split: option.splits)
    have "verify_journal cfg False None wanted reserve disk' = (Inr (report_of schema None sc 0 None, events), disk')"
      using v'(3) k(4) out by (simp add: verify_journal_def)
    then show ?thesis using v v' k torn by (auto simp: report_of_def)
  next
    case False
    then have "disk' = disk \<and> events' = events \<and> v' = v \<and> \<not> jv_torn v"
      using assms scan out by (auto simp: verify_journal_def report_of_def split: option.splits fault.splits)
    then show ?thesis by simp
  qed
qed

section \<open>Reading what was appended\<close>

lemma dict_get_sorted: "distinct (map fst kvs) \<Longrightarrow> dict_get (sort_key fst kvs) k = dict_get kvs k"
proof -
  assume d: "distinct (map fst kvs)"
  have "mset (map fst (sort_key fst kvs)) = mset (map fst kvs)" by (simp only: mset_map mset_sort)
  then have "distinct (map fst (sort_key fst kvs))" using d by (metis mset_eq_imp_distinct_iff)
  then have "map_of (sort_key fst kvs) = map_of kvs" using d by (simp add: map_of_inject_set)
  then show ?thesis by (simp add: dict_get_map_of)
qed

lemma sort_keys_sorted: "sort_keys (JObj (sort_key fst kvs)) = sort_keys (JObj kvs)"
proof -
  have "sort_key fst (map (\<lambda>(k, v). (k, sort_keys v)) (sort_key fst kvs)) = sort_key fst (sort_key fst (map (\<lambda>(k, v). (k, sort_keys v)) kvs))"
    by (simp only: sort_key_map_snd[symmetric])
  also have "\<dots> = sort_key fst (map (\<lambda>(k, v). (k, sort_keys v)) kvs)"
    by (rule sort_key_id_if_sorted) (rule sorted_sort_key)
  finally show ?thesis by simp
qed

lemma canonical_sorted: "canonical_json (JObj (sort_key fst kvs)) = canonical_json (JObj kvs)"
  by (simp only: canonical_json_def json_dumps_def sort_keys_sorted)

lemma dict_pop_as_filter: "dict_pop d k = filter (\<lambda>x. fst x \<noteq> k) d"
  by (induction d) auto

lemma dict_pop_sorted: "k \<notin> fst ` set kvs \<Longrightarrow> dict_pop (sort_key fst (kvs @ [(k, v)])) k = sort_key fst kvs"
proof -
  assume "k \<notin> fst ` set kvs"
  then have "filter (\<lambda>x. fst x \<noteq> k) (kvs @ [(k, v)]) = kvs" by (simp add: filter_id_conv) (metis image_eqI)
  then show ?thesis unfolding dict_pop_as_filter filter_sort by simp
qed

lemma flat_sort_keys:
  assumes "\<forall>(k, v) \<in> set kvs. \<exists>s i. v = JStr s \<or> v = JInt i"
  shows "sort_keys (JObj kvs) = JObj (sort_key fst kvs)"
proof -
  have "map (\<lambda>(k, v). (k, sort_keys v)) kvs = kvs" using assms by (intro map_idI) auto
  then show ?thesis by simp
qed

lemma header_facts:
  shows "\<forall>(k, v) \<in> set (chunk_header c j nonce created events). \<exists>s i. v = JStr s \<or> v = JInt i"
    and "distinct (map fst (chunk_header c j nonce created events))"
    and "''current_chunk_hash'' \<notin> fst ` set (chunk_header c j nonce created events)"
  by (simp_all add: chunk_header_def)

definition stored_header :: "(string \<times> json) list \<Rightarrow> string \<Rightarrow> (string \<times> json) list" where
  "stored_header h current = sort_key fst (h @ [(''current_chunk_hash'', JStr current)])"

lemma stored_header_read:
  fixes current :: string
  assumes "h = chunk_header c j nonce created events"
  shows "Option.bind (utf8_decode (canonical_json (JObj (h @ [(''current_chunk_hash'', JStr current)])))) json_loads
     = Some (JObj (stored_header h current))"
proof -
  let ?h = "h @ [(''current_chunk_hash'', JStr current)]"
  have flat: "\<forall>(k, v) \<in> set ?h. \<exists>s i. v = JStr s \<or> v = JInt i" using header_facts(1) assms by auto
  have "distinct (map fst ?h)" using header_facts(2,3) assms by simp
  moreover have "\<forall>(k, v) \<in> set ?h. json_wf v" using flat by auto
  ultimately have "json_wf (JObj ?h)" by simp
  then show ?thesis
    unfolding canonical_json_def stored_header_def by (simp add: json_roundtrip flat_sort_keys[OF flat] del: sort_keys.simps)
qed

lemma stored_header_get:
  assumes "h = chunk_header c j nonce created events"
  shows "dict_get (stored_header h current) ''current_chunk_hash'' = Some (JStr current)"
    and "dict_pop (stored_header h current) ''current_chunk_hash'' = sort_key fst h"
    and "dict_get (sort_key fst h) k = dict_get h k"
proof -
  note d = header_facts(2,3)[of c j nonce created events, folded assms]
  show "dict_get (stored_header h current) ''current_chunk_hash'' = Some (JStr current)"
  proof -
    have "map_of h ''current_chunk_hash'' = None" using d(2) by (simp only: map_of_eq_None_iff not_False_eq_True)
    then have "dict_get (h @ [(''current_chunk_hash'', JStr current)]) ''current_chunk_hash'' = Some (JStr current)"
      by (simp add: dict_get_map_of map_add_def)
    then show ?thesis using d by (simp add: stored_header_def dict_get_sorted)
  qed
  show "dict_pop (stored_header h current) ''current_chunk_hash'' = sort_key fst h"
    using d by (simp add: stored_header_def dict_pop_sorted)
  show "dict_get (sort_key fst h) k = dict_get h k"
    using d by (simp add: dict_get_sorted)
qed

lemma hexdigest_ascii: "\<forall>x \<in> set (hexdigest c d). char_code x < 128"
proof -
  have "char_code (hex_char n) < 128" if "n < 16" for n using that by (simp add: hex_char_def)
  moreover have "unat b div 16 < 16" "unat b mod 16 < 16" for b :: "8 word"
    using unat_byte_less[of b] by (simp_all add: less_mult_imp_div_less)
  ultimately show ?thesis by (auto simp: hexdigest_def to_hex_def)
qed

lemma same_digest_refl: "same_digest (hexdigest c x) (hexdigest c x) = Inr True"
  using hexdigest_ascii[of c x] by (simp add: same_digest_def)

lemma hexdigest_from_hex [simp]: "from_hex (hexdigest c x) = Some (cd_sha256 c x)"
  by (simp add: hexdigest_def)

section \<open>Lines\<close>

definition unbroken :: "json \<Rightarrow> bool" where
  "unbroken e \<longleftrightarrow> json_wf e \<and> (\<forall>c \<in> set (json_dumps e). \<not> is_break c)"

lemma split_unbroken: "\<forall>c \<in> set l. \<not> is_break c \<Longrightarrow> break_lines (l @ code_char 10 # r) = l # break_lines r"
proof (induction l)
  case (Cons c l)
  then have "char_code c \<noteq> 13" "\<not> is_break c" by (auto simp: is_break_def)
  then show ?case using Cons by simp
qed (simp add: is_break_def)

lemma shown_not_blank: "json_wf j \<Longrightarrow> strip (json_dumps j) \<noteq> []"
proof -
  assume "json_wf j"
  then obtain c cs where c: "json_dumps j = c # cs" "32 < char_code c" "char_code c < 128"
    using show_json_starts[OF sort_keys_wf[of j]] unfolding json_dumps_def by auto
  have "\<not> is_space c" using c by (auto simp: is_space_def is_py_space_def Let_def)
  then show ?thesis using c by (auto simp: strip_def dropWhile_eq_Nil_conv)
qed

lemma plaintext_text: "plaintext_of events = utf8_encode (concat (map (\<lambda>e. json_dumps e @ [code_char 10]) events))"
  by (induction events) (simp_all add: plaintext_of_def canonical_json_def utf8_encode_def utf8_char_def)

lemma load_own_lines:
  "\<forall>e \<in> set events. unbroken e
     \<Longrightarrow> load_lines (break_lines (concat (map (\<lambda>e. json_dumps e @ [code_char 10]) events))) = Some (map sort_keys events)"
  by (induction events) (simp_all add: split_unbroken unbroken_def shown_not_blank json_roundtrip)

lemma plaintext_not_Nil: "events \<noteq> [] \<Longrightarrow> plaintext_of events \<noteq> []"
  by (cases events) (simp_all add: plaintext_of_def)

section \<open>A record that was written is accepted\<close>

definition continues :: "journal_scan \<Rightarrow> journal \<Rightarrow> bool" where
  "continues sc j \<longleftrightarrow> sc_chunks sc = jr_sequence j \<and> sc_prev sc = jr_prev j
     \<and> sc_bound sc \<in> {None, Some (jr_session j, jr_source j, jr_type j)}"

definition scan_after :: "journal \<Rightarrow> string \<Rightarrow> json list \<Rightarrow> journal_scan \<Rightarrow> journal_scan" where
  "scan_after j current events sc =
     sc\<lparr>sc_chunks := sc_chunks sc + 1, sc_events := sc_events sc + length events, sc_prev := current,
        sc_bound := Some (jr_session j, jr_source j, jr_type j),
        sc_out := sc_out sc @ map (\<lambda>e. (sc_chunks sc + 1, current, sort_keys e)) events\<rparr>"

lemma header_fields:
  fixes c j nonce created events
  defines "h \<equiv> chunk_header c j nonce created events"
  shows "dict_get h ''schema_version'' = Some (JStr JOURNAL_SCHEMA_VERSION)" "dict_get h ''key_id'' = Some (JStr (jr_key_id j))"
    "dict_get h ''playback_session_id'' = Some (JStr (jr_session j))" "dict_get h ''source_id'' = Some (JStr (jr_source j))"
    "dict_get h ''source_type'' = Some (JStr (jr_type j))" "dict_get h ''chunk_sequence'' = Some (JInt (int (jr_sequence j) + 1))"
    "dict_get h ''event_count'' = Some (JInt (int (length events)))"
    "dict_get h ''plaintext_length'' = Some (JInt (int (length (plaintext_of events))))"
    "dict_get h ''plaintext_sha256'' = Some (JStr (hexdigest c (plaintext_of events)))"
    "dict_get h ''previous_chunk_hash'' = Some (JStr (jr_prev j))" "dict_get h ''nonce'' = Some (JStr (b64_encode nonce))"
  unfolding h_def by (simp_all add: chunk_header_def)

lemma text_field_str: "dict_get d k = Some (JStr t) \<Longrightarrow> text_field c d k = t"
  by (simp add: text_field_def)

lemma int_field_int: "dict_get d k = Some (JInt i) \<Longrightarrow> i \<noteq> 0 \<Longrightarrow> int_field c x d k = Inr i"
  by (simp add: int_field_def)

lemma own_record_checked:
  fixes c j nonce created events prev
  defines "h \<equiv> chunk_header c j nonce created events" and "ct \<equiv> seal_chunk c j nonce created events"
  defines "current \<equiv> chunk_hash c j prev h ct"
  assumes sound: "sound_codec c" and key: "load_key keys (jr_key_id j) = Inr (kid, jr_material j)" and nonce: "length nonce = NONCE_BYTES"
    and prev: "from_hex (jr_prev j) = Some prev" and source: "jr_source j \<noteq> []" and sc: "continues sc j"
    and events: "events \<noteq> []"
  shows "check_record (journal_config_of c keys j) JOURNAL_SCHEMA_VERSION (JObj (stored_header h current)) ct sc
     = (case load_lines (break_lines (concat (map (\<lambda>e. json_dumps e @ [code_char 10]) events))) of
          None \<Rightarrow> Inl (Bad Decode_Error)
        | Some read \<Rightarrow>
            if length read = length events
            then Inr (sc\<lparr>sc_chunks := sc_chunks sc + 1, sc_events := sc_events sc + length read, sc_prev := current,
                  sc_bound := Some (jr_session j, jr_source j, jr_type j),
                  sc_out := sc_out sc @ map (\<lambda>e. (sc_chunks sc + 1, current, e)) read\<rparr>)
            else Inl (refuse ''Diagnostics event count mismatch''))"
proof -
  let ?S = "sort_key fst h" and ?cfg = "journal_config_of c keys j" and ?text = "concat (map (\<lambda>e. json_dumps e @ [code_char 10]) events)"
  note stored = stored_header_get[OF h_def[THEN meta_eq_to_obj_eq]]
  have get: "dict_get ?S k = dict_get h k" for k by (rule stored(3))
  note field = header_fields[of c j nonce created events, folded h_def, folded get]
  have cfg: "jc_codec ?cfg = c" "jc_keys ?cfg = keys" "jc_session ?cfg = jr_session j" "jc_source ?cfg = jr_source j" "jc_type ?cfg = jr_type j"
    by (simp_all add: journal_config_of_def)
  have ident: "check_identity ?cfg JOURNAL_SCHEMA_VERSION ?S (sc_bound sc) = Inr (jr_session j, jr_source j, jr_type j)"
    using source sc by (auto simp: check_identity_def Let_def cfg field text_field_str[OF field(3)] text_field_str[OF field(4)]
        text_field_str[OF field(5)] continues_def)
  have "check_chain c sc ?S current ct = Inr ()"
    using sc prev by (simp add: check_chain_def int_field_int[OF field(6)] text_field_str[OF field(10)] continues_def
        current_def chunk_hash_def canonical_sorted same_digest_refl)
  moreover have "open_chunk ?cfg ?S ct = Inr (plaintext_of events)"
    using sound key nonce by (simp add: open_chunk_def cfg text_field_str[OF field(11)] text_field_str[OF field(2)] canonical_sorted
        ct_def seal_chunk_def h_def[symmetric] sound_codec_def)
  moreover have "decode_events c ?S (plaintext_of events)
      = (case load_lines (break_lines ?text) of None \<Rightarrow> Inl (Bad Decode_Error)
         | Some read \<Rightarrow> if length read = length events then Inr read else Inl (refuse ''Diagnostics event count mismatch''))"
    using events plaintext_not_Nil[OF events]
    by (simp add: decode_events_def int_field_int[OF field(8)] int_field_int[OF field(7)] field(9) plaintext_text[of events] ensure_def
        split: option.split)
  ultimately show ?thesis
    by (simp add: check_record_def stored cfg ident split: option.split)
qed

lemma must_read_short: "length s < n \<Longrightarrow> \<exists>m. must_read message n s = Inl (Torn m)"
  by (simp add: must_read_def read_exact_def)

lemma own_record_read:
  fixes c j nonce created events prev
  defines "h \<equiv> chunk_header c j nonce created events" and "ct \<equiv> seal_chunk c j nonce created events"
  defines "current \<equiv> chunk_hash c j prev h ct"
  defines "stored \<equiv> canonical_json (JObj (h @ [(''current_chunk_hash'', JStr current)]))"
  assumes sound: "sound_codec c" and sizes: "length stored \<le> 64000" "length ct \<le> MAX_JOURNAL_CHUNK_BYTES"
  shows "read_record cfg schema sc (record_bytes h current ct @ z)
     = (case check_record cfg schema (JObj (stored_header h current)) ct sc of
          Inl f \<Rightarrow> Inl f | Inr sc' \<Rightarrow> Inr (Some (sc'\<lparr>sc_end := sc_end sc + length (record_bytes h current ct)\<rparr>, z)))"
    and "n < length (record_bytes h current ct) \<Longrightarrow> 0 < n
       \<Longrightarrow> \<exists>m. read_record cfg schema sc (take n (record_bytes h current ct)) = Inl (Torn m)"
proof -
  have h: "Option.bind (utf8_decode stored) json_loads = Some (JObj (stored_header h current))"
    unfolding stored_def by (rule stored_header_read) (simp add: h_def)
  have len: "0 < length stored"
    by (rule ccontr) (use h in \<open>simp add: json_loads_def skip_space_def read_value.simps\<close>)
  have ct: "0 < length ct" using sound by (simp add: ct_def seal_chunk_def sound_codec_def)
  have rec: "record_bytes h current ct = be_bytes 8 (length stored) @ stored @ be_bytes 8 (length ct) @ ct"
    unfolding record_bytes_def stored_def Let_def ..
  have v: "be_value (be_bytes 8 (length stored)) = length stored" "be_value (be_bytes 8 (length ct)) = length ct"
    using sizes by (simp_all add: be_value_bytes MAX_JOURNAL_CHUNK_BYTES_def)
  show "read_record cfg schema sc (record_bytes h current ct @ z)
     = (case check_record cfg schema (JObj (stored_header h current)) ct sc of
          Inl f \<Rightarrow> Inl f | Inr sc' \<Rightarrow> Inr (Some (sc'\<lparr>sc_end := sc_end sc + length (record_bytes h current ct)\<rparr>, z)))"
    using len ct sizes v h
    by (simp add: read_record_def read_rest_def rec read_exact_append must_read_append JOURNAL_LENGTH_BYTES_def Let_def
        split: sum.split)
  show "\<exists>m. read_record cfg schema sc (take n (record_bytes h current ct)) = Inl (Torn m)"
    if n: "n < length (record_bytes h current ct)" "0 < n"
  proof -
    let ?L = "be_bytes 8 (length stored)" and ?C = "be_bytes 8 (length ct)"
    consider "n < 8" | x where "n = 8 + x" "x < length stored" | x where "n = 8 + length stored + x" "x < 8"
      | x where "n = 16 + length stored + x" "x < length ct"
    proof (cases "n < 8 + length stored")
      case True
      then show ?thesis using that(1,2) by (cases "n < 8") (auto dest!: le_Suc_ex simp: not_less)
    next
      case False
      then show ?thesis using that(3)[of "n - (8 + length stored)"] that(4)[of "n - (16 + length stored)"] n(1) rec
        by (cases "n < 16 + length stored") auto
    qed
    then show ?thesis
    proof cases
      case 1
      then have "length (take n (record_bytes h current ct)) = n" using n by simp
      then show ?thesis using 1 n by (auto simp: read_record_def read_exact_def JOURNAL_LENGTH_BYTES_def)
    next
      case 2
      then have "take n (record_bytes h current ct) = ?L @ take x stored" by (simp add: rec)
      then show ?thesis
        using must_read_short[of "take x stored" "length stored" "''truncated final diagnostics chunk header''"] 2 len sizes v
        by (auto simp: read_record_def read_rest_def read_exact_append JOURNAL_LENGTH_BYTES_def Let_def)
    next
      case 3
      then have "take n (record_bytes h current ct) = ?L @ stored @ take x ?C" by (simp add: rec)
      then show ?thesis
        using must_read_short[of "take x ?C" 8 "''truncated final diagnostics ciphertext length''"] 3 len sizes v h
        by (auto simp: read_record_def read_rest_def read_exact_append must_read_append JOURNAL_LENGTH_BYTES_def Let_def)
    next
      case 4
      then have "take n (record_bytes h current ct) = ?L @ stored @ ?C @ take x ct" by (simp add: rec)
      then show ?thesis
        using must_read_short[of "take x ct" "length ct" "''truncated final diagnostics ciphertext''"] 4 len sizes v h ct
        by (auto simp: read_record_def read_rest_def read_exact_append must_read_append JOURNAL_LENGTH_BYTES_def Let_def)
    qed
  qed
qed

section \<open>The life of a journal\<close>

text \<open>The length of the header as it is stored, for which a verification has a bound but an append has none.\<close>

definition header_size :: "codec \<Rightarrow> octets \<Rightarrow> string \<Rightarrow> json list \<Rightarrow> journal \<Rightarrow> nat" where
  "header_size c nonce created events j =
     (let h = chunk_header c j nonce created events in
      case from_hex (jr_prev j) of
        None \<Rightarrow> 0
      | Some prev \<Rightarrow>
          length (canonical_json (JObj (h @ [(''current_chunk_hash'', JStr (chunk_hash c j prev h (seal_chunk c j nonce created events)))]))))"

definition may_append :: "codec \<Rightarrow> octets \<Rightarrow> string \<Rightarrow> json list \<Rightarrow> journal \<Rightarrow> bool" where
  "may_append c nonce created events j \<longleftrightarrow> length nonce = NONCE_BYTES \<and> header_size c nonce created events j \<le> 64000"

text \<open>A journal over its life: it is opened, batches are appended, the process is cut off while a batch is written (but not
  within the six bytes that begin the file), and it is opened again. The last argument holds the batches that were
  written completely.\<close>

inductive journal_run ::
  "codec \<Rightarrow> (string \<times> octets) list \<Rightarrow> string \<times> octets \<Rightarrow> string \<Rightarrow> string \<Rightarrow> string option
     \<Rightarrow> journal option \<Rightarrow> journal_disk \<Rightarrow> json list list \<Rightarrow> bool"
  for c keys key session type source where
  run_new: "journal_run c keys key session type source None \<lparr>jd_file = None, jd_quarantine = q\<rparr> []"
| run_open: "journal_run c keys key session type source jo disk batches
    \<Longrightarrow> open_journal c keys key session type source copy reserve disk = (Inr j, disk')
    \<Longrightarrow> journal_run c keys key session type source (Some j) disk' batches"
| run_append: "journal_run c keys key session type source (Some j) disk batches
    \<Longrightarrow> may_append c nonce created events j \<Longrightarrow> \<forall>e \<in> set events. unbroken e
    \<Longrightarrow> append_events c nonce created (\<lambda>n. n) events (j, disk) = (Inr (Some r), j', disk')
    \<Longrightarrow> journal_run c keys key session type source (Some j') disk' (batches @ [map sort_keys events])"
| run_crash: "journal_run c keys key session type source (Some j) disk batches
    \<Longrightarrow> may_append c nonce created events j
    \<Longrightarrow> append_events c nonce created took events (j, disk) = (Inr (Some r), j', disk')
    \<Longrightarrow> jd_file disk \<noteq> None \<or> took (length JOURNAL_MAGIC) = length JOURNAL_MAGIC
    \<Longrightarrow> took (cr_end_offset r - cr_offset r) < cr_end_offset r - cr_offset r
    \<Longrightarrow> journal_run c keys key session type source None disk' batches"

definition base_file :: "journal_disk \<Rightarrow> octets" where
  "base_file disk = (case jd_file disk of None \<Rightarrow> JOURNAL_MAGIC | Some f \<Rightarrow> f)"

definition scan_logs :: "journal \<Rightarrow> json list list \<Rightarrow> journal_scan \<Rightarrow> bool" where
  "scan_logs who batches sc \<longleftrightarrow>
     map (\<lambda>(_, _, e). e) (sc_out sc) = concat batches \<and> sc_chunks sc = length batches \<and> from_hex (sc_prev sc) \<noteq> None \<and> sc_prev sc \<noteq> []
     \<and> sc_bound sc \<in> {None, Some (jr_session who, jr_source who, jr_type who)} \<and> (batches = [] \<longrightarrow> sc_prev sc = no_hash)"

definition journal_inv :: "codec \<Rightarrow> (string \<times> octets) list \<Rightarrow> journal \<Rightarrow> journal option \<Rightarrow> journal_disk \<Rightarrow> json list list \<Rightarrow> bool" where
  "journal_inv c keys who jo disk batches \<longleftrightarrow>
     (\<exists>error sc. scan_file (journal_config_of c keys who) (base_file disk) = (Some JOURNAL_SCHEMA_VERSION, error, sc)
        \<and> scan_logs who batches sc
        \<and> (case jo of
             None \<Rightarrow> error = None \<or> (\<exists>m. error = Some (Torn m))
           | Some j \<Rightarrow> error = None \<and> j = who\<lparr>jr_sequence := length batches, jr_prev := sc_prev sc\<rparr>))"

lemma config_of_update [simp]: "journal_config_of c keys (who\<lparr>jr_sequence := n, jr_prev := p\<rparr>) = journal_config_of c keys who"
  by (simp add: journal_config_of_def)

lemma from_no_hash: "from_hex no_hash = Some (replicate 32 0)"
proof -
  have "hex_value (CHR ''0'') = Some 0" by (simp add: hex_value_def char_code_def)
  moreover have "byte 0 = 0" by (simp add: byte_def)
  ultimately show ?thesis by (simp add: no_hash_def numeral_eq_Suc)
qed

lemma no_hash_not_Nil: "no_hash \<noteq> []"
  by (simp add: no_hash_def)

lemma scan_magic: "scan_file cfg (JOURNAL_MAGIC @ s) = (Some JOURNAL_SCHEMA_VERSION, scan_records cfg JOURNAL_SCHEMA_VERSION (new_scan (length JOURNAL_MAGIC)) s)"
  by (simp add: scan_file_def)

lemma scan_file_more:
  assumes "scan_file cfg f = (Some JOURNAL_SCHEMA_VERSION, None, sc)"
  shows "scan_file cfg (f @ z) = (Some JOURNAL_SCHEMA_VERSION, scan_records cfg JOURNAL_SCHEMA_VERSION sc z)"
proof -
  have differ: "LEGACY_JOURNAL_SCHEMA_VERSION \<noteq> JOURNAL_SCHEMA_VERSION"
    by (simp add: LEGACY_JOURNAL_SCHEMA_VERSION_def JOURNAL_SCHEMA_VERSION_def)
  then have m: "take (length JOURNAL_MAGIC) f = JOURNAL_MAGIC"
    and scan: "scan_records cfg JOURNAL_SCHEMA_VERSION (new_scan (length JOURNAL_MAGIC)) (drop (length JOURNAL_MAGIC) f) = (None, sc)"
    using assms by (auto simp: scan_file_def Let_def split: if_splits)
  have f: "f = JOURNAL_MAGIC @ drop (length JOURNAL_MAGIC) f" using m by (metis append_take_drop_id)
  have "scan_file cfg (f @ z) = scan_file cfg (JOURNAL_MAGIC @ (drop (length JOURNAL_MAGIC) f @ z))" using f by (metis append.assoc)
  then show ?thesis using scan_more[OF scan] by (simp add: scan_magic)
qed

lemma inv_new: "journal_inv c keys (new_journal key session type source) None \<lparr>jd_file = None, jd_quarantine = q\<rparr> []"
  using scan_magic[of "journal_config_of c keys (new_journal key session type source)" "[]"]
  by (simp add: journal_inv_def base_file_def scan_logs_def new_scan_def from_no_hash no_hash_not_Nil)

text \<open>Opening a journal of the life: it succeeds, unless there is no room for the copy of the tail.\<close>

lemma inv_open:
  assumes "journal_inv c keys (new_journal key session type source) jo disk batches"
  shows "open_journal c keys key session type source copy reserve disk = (Inr j, disk')
      \<Longrightarrow> journal_inv c keys (new_journal key session type source) (Some j) disk' batches \<and> jr_sequence j = length batches"
    and "(\<forall>n. reserve n = None) \<Longrightarrow> \<exists>j disk'. open_journal c keys key session type source copy reserve disk = (Inr j, disk')"
proof -
  let ?who = "new_journal key session type source"
  let ?cfg = "journal_config_of c keys ?who"
  obtain error sc where scan: "scan_file ?cfg (base_file disk) = (Some JOURNAL_SCHEMA_VERSION, error, sc)" and batches: "scan_logs ?who batches sc"
    and error: "error = None \<or> (\<exists>m. error = Some (Torn m))"
    using assms by (auto simp: journal_inv_def split: option.splits)
  obtain kept tail where k: "base_file disk = kept @ tail" "sc_end sc = length kept" "error = None \<longleftrightarrow> tail = []"
    "scan_file ?cfg kept = (Some JOURNAL_SCHEMA_VERSION, None, sc)"
    using scan_file_prefix[OF scan] by blast
  have prev: "(if (if sc_chunks sc = 0 then [] else sc_prev sc) = [] then no_hash else sc_prev sc) = sc_prev sc"
    using batches by (auto simp: scan_logs_def)
  show "journal_inv c keys ?who (Some j) disk' batches \<and> jr_sequence j = length batches"
    if run: "open_journal c keys key session type source copy reserve disk = (Inr j, disk')"
  proof (cases "jd_file disk")
    case None
    then have "batches = []" "sc = new_scan (length JOURNAL_MAGIC)" "error = None"
      using scan batches scan_magic[of ?cfg "[]"] by (auto simp: base_file_def scan_logs_def new_scan_def)
    then show ?thesis
      using run None scan batches
      by (auto simp: open_journal_def Let_def verify_journal_def report_of_def new_scan_def journal_inv_def base_file_def scan_logs_def
          intro!: exI[of _ "None :: fault option"])
  next
    case (Some f)
    have f: "f = kept @ tail" using k Some by (simp add: base_file_def)
    have "j = ?who\<lparr>jr_sequence := sc_chunks sc, jr_prev := sc_prev sc\<rparr> \<and> jd_file disk' = Some kept"
      using run Some scan f k(2,3) error prev
      by (auto simp: open_journal_def Let_def verify_journal_def report_of_def base_file_def events_of_def quarantine_tail_def
          split: option.splits if_splits)
    then show ?thesis using batches k(4) by (auto simp: journal_inv_def base_file_def scan_logs_def)
  qed
  show "\<exists>j disk'. open_journal c keys key session type source copy reserve disk = (Inr j, disk')" if "\<forall>n. reserve n = None"
    using that scan error
    by (auto simp: open_journal_def Let_def verify_journal_def report_of_def base_file_def events_of_def
        split: option.splits prod.splits)
qed

lemma inv_read:
  assumes "journal_inv c keys who (Some j) disk batches"
  shows "read_events c keys j disk = Inr (concat batches)"
proof -
  obtain sc where scan: "scan_file (journal_config_of c keys who) (base_file disk) = (Some JOURNAL_SCHEMA_VERSION, None, sc)"
    and batches: "scan_logs who batches sc" and j: "j = who\<lparr>jr_sequence := length batches, jr_prev := sc_prev sc\<rparr>"
    using assms by (auto simp: journal_inv_def)
  show ?thesis
  proof (cases "jd_file disk")
    case None
    then have "sc_out sc = []" using scan scan_magic[of "journal_config_of c keys who" "[]"] by (auto simp: base_file_def new_scan_def)
    then show ?thesis using None batches by (simp add: read_events_def verify_journal_def report_of_def scan_logs_def)
  next
    case (Some f)
    then show ?thesis using scan batches j
      by (simp add: read_events_def verify_journal_def report_of_def base_file_def events_of_def scan_logs_def)
  qed
qed

text \<open>What an append does to the file, whatever the writes take.\<close>

lemma append_facts:
  assumes inv: "journal_inv c keys who (Some j) disk batches"
    and run: "append_events c nonce created took events (j, disk) = (Inr (Some r), j', disk')"
    and whole: "jd_file disk \<noteq> None \<or> took (length JOURNAL_MAGIC) = length JOURNAL_MAGIC"
  obtains prev sc h ct current rec where
    "scan_file (journal_config_of c keys who) (base_file disk) = (Some JOURNAL_SCHEMA_VERSION, None, sc)"
    "scan_logs who batches sc" "continues sc j" "from_hex (jr_prev j) = Some prev" "events \<noteq> []"
    "h = chunk_header c j nonce created events" "ct = seal_chunk c j nonce created events" "current = chunk_hash c j prev h ct"
    "rec = record_bytes h current ct" "length ct \<le> MAX_JOURNAL_CHUNK_BYTES"
    "j' = j\<lparr>jr_sequence := jr_sequence j + 1, jr_prev := current\<rparr>" "cr_end_offset r = length (base_file disk) + length rec"
    "cr_offset r = length (base_file disk)"
    "base_file disk' = base_file disk @ take (took (length rec)) rec" "jd_file disk' = Some (base_file disk')"
proof -
  obtain sc where scan: "scan_file (journal_config_of c keys who) (base_file disk) = (Some JOURNAL_SCHEMA_VERSION, None, sc)"
    and logs: "scan_logs who batches sc" and j: "j = who\<lparr>jr_sequence := length batches, jr_prev := sc_prev sc\<rparr>"
    using inv by (auto simp: journal_inv_def)
  obtain prev where prev: "from_hex (jr_prev j) = Some prev" using logs j by (auto simp: scan_logs_def)
  have cont: "continues sc j" using logs j by (auto simp: continues_def scan_logs_def)
  define h where "h = chunk_header c j nonce created events"
  define ct where "ct = seal_chunk c j nonce created events"
  define current where "current = chunk_hash c j prev h ct"
  define rec where "rec = record_bytes h current ct"
  have some: "events \<noteq> []" "length ct \<le> MAX_JOURNAL_CHUNK_BYTES"
    using run by (auto simp: append_events_def Let_def ct_def split: if_splits)
  have not_empty: "jd_file disk \<noteq> Some []"
    using scan by (auto simp: base_file_def scan_file_def JOURNAL_MAGIC_def LEGACY_JOURNAL_MAGIC_def Let_def)
  have magic: "JOURNAL_MAGIC \<noteq> []" by (simp add: JOURNAL_MAGIC_def)
  have res: "j' = j\<lparr>jr_sequence := jr_sequence j + 1, jr_prev := current\<rparr>" "cr_end_offset r = length (base_file disk) + length rec"
    "cr_offset r = length (base_file disk)" "jd_file disk' = Some (base_file disk @ take (took (length rec)) rec)"
    using run some prev not_empty whole magic
    by (auto simp: append_events_def Let_def h_def[symmetric] ct_def[symmetric] current_def[symmetric] rec_def[symmetric] base_file_def
        split: option.splits if_splits)
  then have "base_file disk' = base_file disk @ take (took (length rec)) rec" by (simp add: base_file_def)
  then show ?thesis
    using that[OF scan logs cont prev some(1) h_def ct_def current_def rec_def some(2) res(1-3)] res(4) by simp
qed

lemma inv_append:
  assumes inv: "journal_inv c keys (new_journal key session type source) (Some j) disk batches"
    and run: "append_events c nonce created took events (j, disk) = (Inr (Some r), j', disk')"
    and whole: "jd_file disk \<noteq> None \<or> took (length JOURNAL_MAGIC) = length JOURNAL_MAGIC"
    and sound: "sound_codec c" and key: "load_key keys (fst key) = Inr (kid, snd key)" and may: "may_append c nonce created events j"
  shows "took (cr_end_offset r - cr_offset r) < cr_end_offset r - cr_offset r
      \<Longrightarrow> journal_inv c keys (new_journal key session type source) None disk' batches"
    and "took (cr_end_offset r - cr_offset r) = cr_end_offset r - cr_offset r
      \<Longrightarrow> load_lines (break_lines (concat (map (\<lambda>e. json_dumps e @ [code_char 10]) events))) = Some read
      \<Longrightarrow> length read = length events
      \<Longrightarrow> journal_inv c keys (new_journal key session type source) (Some j') disk' (batches @ [read])"
    and "took (cr_end_offset r - cr_offset r) = cr_end_offset r - cr_offset r
      \<Longrightarrow> load_lines (break_lines (concat (map (\<lambda>e. json_dumps e @ [code_char 10]) events))) = None
      \<Longrightarrow> \<exists>sc. scan_file (journal_config_of c keys (new_journal key session type source)) (base_file disk')
            = (Some JOURNAL_SCHEMA_VERSION, Some (Bad Decode_Error), sc)"
proof -
  let ?who = "new_journal key session type source"
  let ?cfg = "journal_config_of c keys ?who"
  obtain prev sc h ct current rec where scan: "scan_file ?cfg (base_file disk) = (Some JOURNAL_SCHEMA_VERSION, None, sc)"
    and logs: "scan_logs ?who batches sc" and cont: "continues sc j" and prev: "from_hex (jr_prev j) = Some prev" and ev: "events \<noteq> []"
    and h: "h = chunk_header c j nonce created events" and ct: "ct = seal_chunk c j nonce created events"
    and cur: "current = chunk_hash c j prev h ct" and rec: "rec = record_bytes h current ct" and len: "length ct \<le> MAX_JOURNAL_CHUNK_BYTES"
    and j': "j' = j\<lparr>jr_sequence := jr_sequence j + 1, jr_prev := current\<rparr>"
    and off: "cr_end_offset r = length (base_file disk) + length rec" "cr_offset r = length (base_file disk)"
    and fl: "base_file disk' = base_file disk @ take (took (length rec)) rec" "jd_file disk' = Some (base_file disk')"
    using append_facts[OF inv run whole] by metis
  have j: "j = ?who\<lparr>jr_sequence := length batches, jr_prev := sc_prev sc\<rparr>" using inv scan by (auto simp: journal_inv_def)
  have cfg: "journal_config_of c keys j = ?cfg" by (simp add: j)
  have who: "jr_source j \<noteq> []" "jr_key_id j = fst key" "jr_material j = snd key"
    by (auto simp: j new_journal_def truthy_string_def split: option.splits)
  have size: "length (canonical_json (JObj (h @ [(''current_chunk_hash'', JStr current)]))) \<le> 64000"
    using may prev by (simp add: may_append_def header_size_def Let_def h ct cur)
  have nonce: "length nonce = NONCE_BYTES" using may by (simp add: may_append_def)
  note read = own_record_read[where c = c and j = j and prev = prev and nonce = nonce and created = created and events = events, folded h ct, folded cur, OF sound size len, folded rec]
  have checked: "check_record ?cfg JOURNAL_SCHEMA_VERSION (JObj (stored_header h current)) ct sc
     = (case load_lines (break_lines (concat (map (\<lambda>e. json_dumps e @ [code_char 10]) events))) of
          None \<Rightarrow> Inl (Bad Decode_Error)
        | Some read \<Rightarrow>
            if length read = length events
            then Inr (sc\<lparr>sc_chunks := sc_chunks sc + 1, sc_events := sc_events sc + length read, sc_prev := current,
                  sc_bound := Some (jr_session j, jr_source j, jr_type j),
                  sc_out := sc_out sc @ map (\<lambda>e. (sc_chunks sc + 1, current, e)) read\<rparr>)
            else Inl (refuse ''Diagnostics event count mismatch''))"
    using own_record_checked[where c = c and j = j and prev = prev and nonce = nonce and created = created and events = events
        and keys = keys and kid = kid and sc = sc, folded h ct, folded cur, unfolded cfg who(2,3), OF sound key nonce prev who(1) cont ev] .
  have "0 < length rec" using sound ct rec by (simp add: record_bytes_def Let_def seal_chunk_def sound_codec_def)
  show "journal_inv c keys ?who None disk' batches" if torn: "took (cr_end_offset r - cr_offset r) < cr_end_offset r - cr_offset r"
  proof (cases "took (length rec) = 0")
    case True
    then show ?thesis using scan logs fl by (auto simp: journal_inv_def)
  next
    case False
    have n: "took (length rec) < length rec" using torn off by simp
    obtain m where "read_record ?cfg JOURNAL_SCHEMA_VERSION sc (take (took (length rec)) rec) = Inl (Torn m)"
      using read(2)[OF n] False by blast
    then have "scan_file ?cfg (base_file disk') = (Some JOURNAL_SCHEMA_VERSION, Some (Torn m), sc)"
      using scan_file_more[OF scan] scan_stop by (simp add: fl)
    then show ?thesis using logs by (auto simp: journal_inv_def)
  qed
  show "journal_inv c keys ?who (Some j') disk' (batches @ [read])"
    if took: "took (cr_end_offset r - cr_offset r) = cr_end_offset r - cr_offset r"
      and lines: "load_lines (break_lines (concat (map (\<lambda>e. json_dumps e @ [code_char 10]) events))) = Some read"
        "length read = length events" for read
  proof -
    let ?sc = "sc\<lparr>sc_chunks := sc_chunks sc + 1, sc_events := sc_events sc + length read, sc_prev := current,
        sc_bound := Some (jr_session j, jr_source j, jr_type j),
        sc_out := sc_out sc @ map (\<lambda>e. (sc_chunks sc + 1, current, e)) read, sc_end := sc_end sc + length rec\<rparr>"
    have "read_record ?cfg JOURNAL_SCHEMA_VERSION sc rec = Inr (Some (?sc, []))"
      using read(1)[of ?cfg JOURNAL_SCHEMA_VERSION sc "[]"] checked lines by simp
    then have "scan_file ?cfg (base_file disk') = (Some JOURNAL_SCHEMA_VERSION, None, ?sc)"
      using scan_file_more[OF scan] scan_step took off by (simp add: fl)
    moreover have "cd_sha256 c x \<noteq> []" for x
      using sound by (metis list.size(3) numeral_neq_zero sound_codec_def)
    then have "scan_logs ?who (batches @ [read]) ?sc"
      using logs by (simp add: scan_logs_def cur chunk_hash_def comp_def j) (simp add: hexdigest_def)
    ultimately show ?thesis by (simp add: journal_inv_def j' j)
  qed
  show "\<exists>sc. scan_file ?cfg (base_file disk') = (Some JOURNAL_SCHEMA_VERSION, Some (Bad Decode_Error), sc)"
    if took: "took (cr_end_offset r - cr_offset r) = cr_end_offset r - cr_offset r"
      and lines: "load_lines (break_lines (concat (map (\<lambda>e. json_dumps e @ [code_char 10]) events))) = None"
  proof -
    have "read_record ?cfg JOURNAL_SCHEMA_VERSION sc rec = Inl (Bad Decode_Error)"
      using read(1)[of ?cfg JOURNAL_SCHEMA_VERSION sc "[]"] checked lines by simp
    then show ?thesis using scan_file_more[OF scan] scan_stop took off by (simp add: fl)
  qed
qed

lemma run_inv:
  assumes "journal_run c keys key session type source jo disk batches"
    and "sound_codec c" and "load_key keys (fst key) = Inr (kid, snd key)"
  shows "journal_inv c keys (new_journal key session type source) jo disk batches"
  using assms
proof (induction rule: journal_run.induct)
  case (run_new q)
  show ?case by (rule inv_new)
next
  case (run_open jo disk batches copy reserve j disk')
  then show ?case using inv_open(1) by blast
next
  case (run_append j disk batches nonce created events r j' disk')
  then have "load_lines (break_lines (concat (map (\<lambda>e. json_dumps e @ [code_char 10]) events))) = Some (map sort_keys events)"
    by (intro load_own_lines)
  then show ?case
    using run_append inv_append(2)[OF _ run_append.hyps(4), where keys = keys and key = key and session = session and type = type
        and source = source and kid = kid and batches = batches and read = "map sort_keys events"]
    by auto
next
  case (run_crash j disk batches nonce created events took r j' disk')
  then show ?case
    using inv_append(1)[OF _ run_crash.hyps(3,4), where keys = keys and key = key and session = session and type = type
        and source = source and kid = kid and batches = batches]
    by auto
qed

text \<open>A file that is empty, or ends within its first six bytes, is invalid and not incomplete: opening it fails for good,
  although it holds no batch.\<close>

lemma cut_magic_is_fatal:
  assumes "n < length JOURNAL_MAGIC" and "jd_file disk = Some (take n JOURNAL_MAGIC)"
  shows "fst (open_journal c keys key session type source copy reserve disk) = Inl (ValueError ''Invalid diagnostics journal'')"
    and "snd (open_journal c keys key session type source copy reserve disk) = disk"
proof -
  have len: "length LEGACY_JOURNAL_MAGIC = length JOURNAL_MAGIC" by (simp add: JOURNAL_MAGIC_def LEGACY_JOURNAL_MAGIC_def)
  have n: "length (take (length JOURNAL_MAGIC) (take n JOURNAL_MAGIC)) \<noteq> length JOURNAL_MAGIC" using assms(1) by simp
  have "take (length JOURNAL_MAGIC) (take n JOURNAL_MAGIC) \<noteq> JOURNAL_MAGIC"
    "take (length JOURNAL_MAGIC) (take n JOURNAL_MAGIC) \<noteq> LEGACY_JOURNAL_MAGIC"
    using n len by (metis, metis)
  then have "scan_file cfg (take n JOURNAL_MAGIC) = (None, Some (refuse ''Invalid diagnostics journal magic''), new_scan 0)" for cfg
    by (simp only: scan_file_def Let_def if_False)
  then show "fst (open_journal c keys key session type source copy reserve disk) = Inl (ValueError ''Invalid diagnostics journal'')"
    and "snd (open_journal c keys key session type source copy reserve disk) = disk"
    using assms(2) by (simp_all add: open_journal_def verify_journal_def report_of_def events_of_def refuse_def Let_def)
qed

text \<open>The very first write of a journal, cut off within the six bytes that begin the file.\<close>

lemma cut_birth:
  assumes "journal_inv c keys (new_journal key session type source) (Some j) disk batches" and "jd_file disk = None"
    and "append_events c nonce created took events (j, disk) = (Inr (Some r), j', disk')"
    and "took (length JOURNAL_MAGIC) < length JOURNAL_MAGIC" and "took (cr_end_offset r - cr_offset r) = 0"
  shows "batches = [] \<and> jd_file disk' = Some (take (took (length JOURNAL_MAGIC)) JOURNAL_MAGIC)"
proof
  show "batches = []"
    using assms(1,2) scan_magic[of "journal_config_of c keys (new_journal key session type source)" "[]"]
    by (auto simp: journal_inv_def base_file_def scan_logs_def new_scan_def)
  show "jd_file disk' = Some (take (took (length JOURNAL_MAGIC)) JOURNAL_MAGIC)"
    using assms(2,3,5) by (auto simp: append_events_def Let_def split: option.splits if_splits)
qed

text \<open>C6: What was written completely is never lost. However often the process is cut off while it writes to a journal, opening
  the journal again succeeds (when there is room for the copy of the torn record), it goes on with the number of the complete
  batches, and reading it gives the events of exactly the complete batches, in order; so does reading it at any time in
  between. There is one exception, which the sequences of \<open>journal_run\<close> leave out and the last part states: when the first
  write of all is cut off within the six bytes that begin the file, no batch had been written, and opening the empty or cut
  file fails with the same error for good. The events must not contain a character at which Python breaks lines.\<close>

theorem journal_durable:
  assumes "sound_codec c" and "load_key keys (fst key) = Inr (kid, snd key)"
    and "journal_run c keys key session type source jo disk batches"
  shows "(\<forall>j. jo = Some j \<longrightarrow> read_events c keys j disk = Inr (concat batches))
     \<and> (\<forall>copy reserve. (\<forall>n. reserve n = None)
          \<longrightarrow> (\<exists>j disk'. open_journal c keys key session type source copy reserve disk = (Inr j, disk')
                \<and> jr_sequence j = length batches \<and> read_events c keys j disk' = Inr (concat batches)))
     \<and> (\<forall>j nonce created took events r j' disk'. jo = Some j \<and> jd_file disk = None
          \<and> append_events c nonce created took events (j, disk) = (Inr (Some r), j', disk')
          \<and> took (length JOURNAL_MAGIC) < length JOURNAL_MAGIC \<and> took (cr_end_offset r - cr_offset r) = 0
          \<longrightarrow> batches = []
            \<and> (\<forall>copy reserve. open_journal c keys key session type source copy reserve disk'
                 = (Inl (ValueError ''Invalid diagnostics journal''), disk')))"
proof -
  have inv: "journal_inv c keys (new_journal key session type source) jo disk batches" by (rule run_inv[OF assms(3,1,2)])
  show ?thesis
  proof (intro conjI allI impI; (elim conjE)?)
    show "read_events c keys j disk = Inr (concat batches)" if "jo = Some j" for j
      using inv that by (auto intro: inv_read)
    show "\<exists>j disk'. open_journal c keys key session type source copy reserve disk = (Inr j, disk')
        \<and> jr_sequence j = length batches \<and> read_events c keys j disk' = Inr (concat batches)"
      if "\<forall>n. reserve n = None" for copy reserve
      using inv_open(2)[OF inv that, of copy] inv_open(1)[OF inv] inv_read by blast
    fix j nonce created took events r j' disk'
    assume birth: "jo = Some j" "jd_file disk = None"
      "append_events c nonce created took events (j, disk) = (Inr (Some r), j', disk')"
      "took (length JOURNAL_MAGIC) < length JOURNAL_MAGIC" "took (cr_end_offset r - cr_offset r) = 0"
    note cut = cut_birth[OF inv[unfolded birth(1)] birth(2-)]
    show "batches = []" using cut by simp
    show "open_journal c keys key session type source copy reserve disk' = (Inl (ValueError ''Invalid diagnostics journal''), disk')"
      for copy reserve
      by (rule prod_eqI) (use cut cut_magic_is_fatal[OF birth(4)] in simp_all)
  qed
qed

section \<open>Events that spoil the journal\<close>

lemma escape_unbroken: "char_code c \<noteq> 133 \<Longrightarrow> x \<in> set (escape_char c) \<Longrightarrow> \<not> is_break x"
proof -
  have hex: "\<not> is_break (hex_char n)" if "n < 16" for n
    using that by (auto simp: is_break_def hex_char_def)
  have "char_code c div 16 < 16" by (simp add: less_mult_imp_div_less)
  then show "char_code c \<noteq> 133 \<Longrightarrow> x \<in> set (escape_char c) \<Longrightarrow> \<not> is_break x"
    using hex by (auto simp: escape_char_def Let_def is_break_def split: if_splits)
qed

lemma split_broken: "\<forall>c \<in> set l. \<not> is_break c \<Longrightarrow> break_lines (l @ code_char 133 # r) = l # break_lines r"
proof (induction l)
  case (Cons c l)
  then have "char_code c \<noteq> 13" "\<not> is_break c" by (auto simp: is_break_def)
  then show ?case using Cons by simp
qed (simp add: is_break_def)

lemma read_open_string: "read_chars (concat (map escape_char s)) = None"
  by (induction s) (simp_all add: read_escape_char)

text \<open>An event with one field, whose text contains the next-line character.\<close>

definition next_line_event :: "string \<Rightarrow> string \<Rightarrow> string \<Rightarrow> json" where
  "next_line_event k a b = JObj [(k, JStr (a @ code_char 133 # b))]"

lemma next_line_lines:
  assumes "code_char 133 \<notin> set k" "code_char 133 \<notin> set a"
  shows "load_lines (break_lines (concat (map (\<lambda>e. json_dumps e @ [code_char 10]) [next_line_event k a b]))) = None"
proof -
  let ?first = "code_char 123 # quoted k @ code_char 58 # code_char 34 # concat (map escape_char a)"
  have esc: "escape_char (code_char 133) = [code_char 133]" by (simp add: escape_char_def)
  have codes: "char_code x \<noteq> 133" if "x \<in> set k \<union> set a" for x
    using that assms char_eq_code[of 133 x] by auto
  have "\<forall>x \<in> set ?first. \<not> is_break x"
    using escape_unbroken codes by (auto simp: quoted_def is_break_def)
  then have lines: "break_lines (concat (map (\<lambda>e. json_dumps e @ [code_char 10]) [next_line_event k a b]))
      = ?first # break_lines (concat (map escape_char b) @ [code_char 34, code_char 125, code_char 10])"
    using split_broken[of ?first] by (simp add: json_dumps_def next_line_event_def quoted_def esc)
  have none: "read_value n ?first = None" for n
    by (cases n; cases "n - 1"; cases "n - 2")
      (auto simp: read_value.simps read_pairs.simps quoted_def read_quoted read_open_string Suc_diff_Suc)
  have "skip_space ?first = ?first" by simp
  then have "json_loads ?first = None" using none by (simp only: json_loads_def option.case)
  moreover have "strip ?first \<noteq> []"
    by (auto simp: strip_def dropWhile_eq_Nil_conv is_space_def is_py_space_def Let_def)
  ultimately show ?thesis unfolding lines by simp
qed

lemma damaged_journal:
  assumes "scan_file (journal_config_of c keys who) file = (Some JOURNAL_SCHEMA_VERSION, Some (Bad e), sc)"
    and "jd_file disk = Some file" and "who = new_journal key session type source"
  shows "read_events c keys (who\<lparr>jr_sequence := n, jr_prev := p\<rparr>) disk = Inl (ValueError ''Invalid diagnostics journal'')"
    and "fst (open_journal c keys key session type source copy reserve disk) = Inl (ValueError ''Invalid diagnostics journal'')"
  using assms
  by (simp_all add: read_events_def open_journal_def verify_journal_def report_of_def events_of_def Let_def)

text \<open>C29: One event can make a whole journal unreadable. An event is written as one line of JSON that keeps characters beyond
  ASCII, but read back with \<^verbatim>\<open>str.splitlines\<close>, which breaks lines at more than the line feed. Appending an event with a
  next-line character (code point 133) in a text succeeds; from then on reading the journal fails, for all batches before it
  and all after it, and so does opening it again.\<close>

theorem next_line_spoils_journal:
  assumes "sound_codec c" and "load_key keys (fst key) = Inr (kid, snd key)"
    and "journal_run c keys key session type source (Some j) disk batches" and "code_char 133 \<notin> set k" and "code_char 133 \<notin> set a"
    and "may_append c nonce created [next_line_event k a b] j"
    and "append_events c nonce created (\<lambda>n. n) [next_line_event k a b] (j, disk) = (Inr (Some r), j', disk')"
  shows "read_events c keys j disk = Inr (concat batches)
     \<and> read_events c keys j' disk' = Inl (ValueError ''Invalid diagnostics journal'')
     \<and> fst (open_journal c keys key session type source copy reserve disk') = Inl (ValueError ''Invalid diagnostics journal'')"
proof -
  let ?who = "new_journal key session type source"
  have inv: "journal_inv c keys ?who (Some j) disk batches" by (rule run_inv[OF assms(3,1,2)])
  obtain sc where sc: "scan_file (journal_config_of c keys ?who) (base_file disk') = (Some JOURNAL_SCHEMA_VERSION, Some (Bad Decode_Error), sc)"
    using inv_append(3)[OF inv assms(7) _ assms(1,2,6)] next_line_lines[OF assms(4,5)] by auto
  have whole: "jd_file disk \<noteq> None \<or> (\<lambda>n. n) (length JOURNAL_MAGIC) = length JOURNAL_MAGIC" by simp
  obtain current where "j' = j\<lparr>jr_sequence := jr_sequence j + 1, jr_prev := current\<rparr>"
    and fl: "jd_file disk' = Some (base_file disk')"
    using append_facts[OF inv assms(7) whole] by metis
  moreover obtain n p where "j = ?who\<lparr>jr_sequence := n, jr_prev := p\<rparr>" using inv by (auto simp: journal_inv_def)
  ultimately have "j' = ?who\<lparr>jr_sequence := n + 1, jr_prev := current\<rparr>" by simp
  then show ?thesis using damaged_journal[OF sc fl refl] inv_read[OF inv] by simp
qed

text \<open>C30: An append can be acknowledged although its batch is not in the file. The file is opened without a buffer and the number
  of bytes a write takes is not looked at; when it takes fewer (the disk is nearly full), the append still returns the record,
  with an end offset beyond the end of the file, and counts the batch. Reading the journal then does not give the batch.\<close>

theorem short_write_acknowledged:
  assumes "sound_codec c" and "load_key keys (fst key) = Inr (kid, snd key)"
    and "journal_run c keys key session type source (Some j) disk batches"
    and "may_append c nonce created events j" and "jd_file disk \<noteq> None"
    and "append_events c nonce created took events (j, disk) = (Inr (Some r), j', disk')"
    and "took (cr_end_offset r - cr_offset r) < cr_end_offset r - cr_offset r"
  shows "jr_sequence j' = length batches + 1 \<and> cr_sequence r = length batches + 1
     \<and> (\<exists>file. jd_file disk' = Some file \<and> length file < cr_end_offset r)
     \<and> (read_events c keys j' disk' = Inr (concat batches) \<or> read_events c keys j' disk' = Inl (ValueError ''Invalid diagnostics journal''))"
proof -
  let ?who = "new_journal key session type source"
  have inv: "journal_inv c keys ?who (Some j) disk batches" by (rule run_inv[OF assms(3,1,2)])
  have after: "journal_inv c keys ?who None disk' batches" using inv_append(1)[OF inv assms(6) _ assms(1,2,4,7)] assms(5) by simp
  obtain current rec where j': "j' = j\<lparr>jr_sequence := jr_sequence j + 1, jr_prev := current\<rparr>"
    and r: "cr_end_offset r = length (base_file disk) + length rec" "cr_offset r = length (base_file disk)"
    and fl: "base_file disk' = base_file disk @ take (took (length rec)) rec" "jd_file disk' = Some (base_file disk')"
    using append_facts[OF inv assms(6) disjI1[OF assms(5)]] by metis
  obtain p where j: "j = ?who\<lparr>jr_sequence := length batches, jr_prev := p\<rparr>" using inv by (auto simp: journal_inv_def)
  have seq: "cr_sequence r = jr_sequence j + 1"
    using assms(6) by (auto simp: append_events_def Let_def split: if_splits option.splits)
  have "length (base_file disk') < cr_end_offset r" using r fl assms(7) by simp
  moreover have "read_events c keys j' disk' = Inr (concat batches) \<or> read_events c keys j' disk' = Inl (ValueError ''Invalid diagnostics journal'')"
  proof -
    have cfg: "journal_config_of c keys j' = journal_config_of c keys ?who" by (simp add: j j')
    obtain error sc where scan: "scan_file (journal_config_of c keys ?who) (base_file disk') = (Some JOURNAL_SCHEMA_VERSION, error, sc)"
      and logs: "map (\<lambda>(_, _, e). e) (sc_out sc) = concat batches" and error: "error = None \<or> (\<exists>m. error = Some (Torn m))"
      using after by (auto simp: journal_inv_def scan_logs_def)
    show ?thesis
      using error by (elim disjE exE) (simp_all add: read_events_def cfg verify_journal_def fl(2) scan events_of_def logs report_of_def)
  qed
  moreover have "jr_sequence j = length batches" by (simp add: j)
  moreover have "jr_sequence j' = jr_sequence j + 1" by (simp add: j')
  ultimately show ?thesis using fl(2) seq by metis
qed

section \<open>The length of a header\<close>

lemma utf8_length: "length (utf8_encode s) \<le> 2 * length s"
  by (induction s) (auto simp: utf8_encode_def utf8_char_def Let_def)

lemma quoted_length: "length (quoted s) \<le> 6 * length s + 2"
proof -
  have "length (escape_char c) \<le> 6" for c by (simp add: escape_char_def Let_def)
  then have "length (concat (map escape_char s)) \<le> 6 * length s"
    by (induction s) (simp_all add: add_le_mono)
  then show ?thesis by (simp add: quoted_def)
qed

lemma comma_length: "length (comma_separated xs) \<le> sum_list (map (\<lambda>x. length x + 1) xs)"
  by (induction xs rule: comma_separated.induct) simp_all

lemma flat_length:
  assumes "\<forall>(k, v) \<in> set kvs. \<exists>s i. v = JStr s \<or> v = JInt i"
  shows "length (canonical_json (JObj kvs)) \<le> 2 * (2 + sum_list (map (\<lambda>kv. length (show_pair kv) + 1) kvs))"
proof -
  have pr: "(\<lambda>(k, v). quoted k @ code_char 58 # show_json v) = show_pair" by (auto simp: show_pair_def)
  have "mset (map (\<lambda>kv. length (show_pair kv) + 1) (sort_key fst kvs)) = mset (map (\<lambda>kv. length (show_pair kv) + 1) kvs)"
    by (simp only: mset_map mset_sort)
  then have "sum_list (map (\<lambda>kv. length (show_pair kv) + 1) (sort_key fst kvs)) = sum_list (map (\<lambda>kv. length (show_pair kv) + 1) kvs)"
    by (metis sum_mset_sum_list)
  then have "length (json_dumps (JObj kvs)) \<le> 2 + sum_list (map (\<lambda>kv. length (show_pair kv) + 1) kvs)"
    using comma_length[of "map show_pair (sort_key fst kvs)"]
    by (simp add: json_dumps_def flat_sort_keys[OF assms] pr comp_def del: sort_keys.simps)
  then show ?thesis using utf8_length[of "json_dumps (JObj kvs)"] by (simp add: canonical_json_def)
qed

lemma show_nat_length: "n < 10 ^ k \<Longrightarrow> 0 < k \<Longrightarrow> length (show_nat n) \<le> k"
proof (induction n arbitrary: k rule: show_nat.induct)
  case (1 n)
  show ?case
  proof (cases "n < 10")
    case True
    then show ?thesis using 1(3) by (subst show_nat.simps) simp
  next
    case False
    then obtain l where k: "k = Suc l" "0 < l" using 1(2,3) by (cases k; cases "k - 1") auto
    then have "n div 10 < 10 ^ l" using 1(2) by (simp add: less_mult_imp_div_less)
    then have "length (show_nat (n div 10)) \<le> l" using 1(1)[OF False] k by simp
    then show ?thesis using False k by (subst show_nat.simps) simp
  qed
qed

lemma pair_length:
  "length (show_pair (k, JStr s)) \<le> 6 * length k + 6 * length s + 5"
  "n < 10 ^ 20 \<Longrightarrow> length (show_pair (k, JInt (int n))) \<le> 6 * length k + 23"
  using quoted_length[of k] quoted_length[of s] show_nat_length[of n 20]
  by (simp_all add: show_pair_def show_int_def)

lemma b64_length: "length (b64_encode bs) \<le> 4 * length bs"
  by (induction bs rule: b64_encode.induct) simp_all

lemma digest_length: "sound_codec c \<Longrightarrow> length (hexdigest c x) = 64"
proof -
  have "length (to_hex y) = 2 * length y" for y by (induction y) (simp_all add: to_hex_def)
  then show "sound_codec c \<Longrightarrow> length (hexdigest c x) = 64" by (simp add: hexdigest_def sound_codec_def)
qed

text \<open>With identifiers of ordinary lengths the bound of the verification is never met.\<close>

lemma header_fits:
  assumes "sound_codec c" and "length nonce = NONCE_BYTES" and "length (jr_prev j) \<le> 64"
    and "length (jr_key_id j) + length (jr_session j) + length (jr_source j) + length (jr_type j) + length created \<le> 2000"
    and "jr_sequence j + 1 < 10 ^ 20" "length events < 10 ^ 20" "length (plaintext_of events) < 10 ^ 20"
      "length (cd_compress c (plaintext_of events)) < 10 ^ 20"
  shows "may_append c nonce created events j"
proof (cases "from_hex (jr_prev j)")
  case None
  then show ?thesis using assms(2) by (simp add: may_append_def header_size_def)
next
  case (Some prev)
  let ?h = "chunk_header c j nonce created events"
  let ?cur = "chunk_hash c j prev ?h (seal_chunk c j nonce created events)"
  note digest = digest_length[OF assms(1)]
  have cur: "length ?cur = 64" by (simp add: chunk_hash_def digest)
  have b64: "length (b64_encode nonce) \<le> 48" using b64_length[of nonce] assms(2) by (simp add: NONCE_BYTES_def)
  have schema: "length JOURNAL_SCHEMA_VERSION = 29" by (simp add: JOURNAL_SCHEMA_VERSION_def)
  have seq: "length (show_pair (''chunk_sequence'', JInt (int (jr_sequence j) + 1))) \<le> 107"
    using pair_length(2)[OF assms(5), of "''chunk_sequence''"] unfolding of_nat_add of_nat_1 by simp
  have sum: "sum_list (map (\<lambda>kv. length (show_pair kv) + 1) (?h @ [(''current_chunk_hash'', JStr x)])) \<le> 20000"
    if "length x = 64" for x
    using that assms(3,4) b64 seq
      pair_length(1)[of "''schema_version''" JOURNAL_SCHEMA_VERSION] pair_length(1)[of "''key_id''" "jr_key_id j"]
      pair_length(1)[of "''playback_session_id''" "jr_session j"] pair_length(1)[of "''source_id''" "jr_source j"]
      pair_length(1)[of "''source_type''" "jr_type j"] pair_length(2)[OF assms(6), of "''event_count''"] pair_length(2)[OF assms(7), of "''plaintext_length''"]
      pair_length(2)[OF assms(8), of "''compressed_length''"]
      pair_length(1)[of "''plaintext_sha256''" "hexdigest c (plaintext_of events)"] pair_length(1)[of "''previous_chunk_hash''" "jr_prev j"]
      pair_length(1)[of "''nonce''" "b64_encode nonce"] pair_length(1)[of "''created_at_utc''" created]
      pair_length(1)[of "''current_chunk_hash''" x]
    by (simp add: chunk_header_def digest schema)
  have "\<forall>(k, v) \<in> set (?h @ [(''current_chunk_hash'', JStr ?cur)]). \<exists>s i. v = JStr s \<or> v = JInt i"
    using header_facts(1)[of c j nonce created events] by auto
  note flat_length[OF this]
  also have "2 * (2 + sum_list (map (\<lambda>kv. length (show_pair kv) + 1) (?h @ [(''current_chunk_hash'', JStr ?cur)]))) \<le> 2 * (2 + 20000)"
    by (intro mult_le_mono2 add_le_mono le_refl sum cur)
  also have "2 * (2 + 20000) \<le> (64000 :: nat)" by simp
  finally have "length (canonical_json (JObj (?h @ [(''current_chunk_hash'', JStr ?cur)]))) \<le> 64000" .
  then show ?thesis using assms(2) Some by (simp add: may_append_def header_size_def Let_def)
qed

section \<open>Examples\<close>

text \<open>A codec that satisfies what is relied on, and a journal with it.\<close>

definition example_codec :: codec where
  "example_codec = \<lparr>cd_sha256 = (\<lambda>_. replicate 32 0), cd_compress = (\<lambda>x. x), cd_decompress = Some,
     cd_encrypt = (\<lambda>_ _ x _. x @ [0]), cd_decrypt = (\<lambda>_ _ y _. Some (butlast y)), cd_str = (\<lambda>_. []),
     cd_real_truthy = (\<lambda>_. True), cd_real_int = (\<lambda>_. Inr 0)\<rparr>"

lemma example_sound: "sound_codec example_codec"
  by (simp add: sound_codec_def example_codec_def)

definition example_key :: "string \<times> octets" where
  "example_key = (''k1'', replicate 32 7)"

definition example_keys :: "(string \<times> octets) list" where
  "example_keys = [(''key-k1.bin'', replicate 32 7)]"

lemma example_load: "load_key example_keys (fst example_key) = Inr (''k1'', snd example_key)"
  by (simp add: load_key_def example_keys_def example_key_def strip_def is_space_def is_py_space_def char_code_def is_alnum_def KEY_BYTES_def)

definition example_disk :: journal_disk where
  "example_disk = \<lparr>jd_file = None, jd_quarantine = []\<rparr>"

definition example_journal :: journal where
  "example_journal = new_journal example_key ''s'' ''server'' (Some ''i'')"

lemma example_opened: "open_journal example_codec example_keys example_key ''s'' ''server'' (Some ''i'') ''c'' (\<lambda>_. None) example_disk
    = (Inr example_journal, example_disk)"
  by (simp add: open_journal_def verify_journal_def report_of_def new_scan_def example_disk_def example_journal_def Let_def new_journal_def)

lemma example_run: "journal_run example_codec example_keys example_key ''s'' ''server'' (Some ''i'') (Some example_journal) example_disk []"
  by (rule run_open[OF run_new[of _ _ _ _ _ _ "[]"] example_opened[unfolded example_disk_def], folded example_disk_def])

definition example_event :: json where
  "example_event = JObj [(''seek'', JInt 7)]"

lemma small_plaintext:
  assumes "e = JObj [(k, JInt 7)] \<or> e = JObj [(k, JStr t)]" and "length k < 100" and "length t < 100"
  shows "length (plaintext_of [e]) < 10000"
proof -
  have "length (canonical_json e) < 9999"
    using assms flat_length[of "[(k, JInt 7)]"] flat_length[of "[(k, JStr t)]"] pair_length(1)[of k t] pair_length(2)[of 7 k] by auto
  then show ?thesis by (simp add: plaintext_of_def)
qed

lemma example_may:
  assumes "length (plaintext_of [e]) < 10000" and "jr_sequence j < 10" and "length (jr_prev j) = 64"
    and "jr_key_id j = ''k1''" "jr_session j = ''s''" "jr_source j = ''i''" "jr_type j = ''server''"
  shows "may_append example_codec (replicate 12 0) ''t'' [e] j"
  by (rule header_fits[OF example_sound]) (use assms in \<open>simp_all add: NONCE_BYTES_def example_codec_def\<close>)

lemma example_append:
  assumes "length (plaintext_of [e]) < 10000" and "from_hex (jr_prev j) \<noteq> None"
  shows "\<exists>r j' disk'. append_events example_codec (replicate 12 0) ''t'' took [e] (j, disk) = (Inr (Some r), j', disk')
     \<and> cr_offset r < cr_end_offset r"
proof -
  obtain prev where "from_hex (jr_prev j) = Some prev" using assms(2) by blast
  moreover have "length (seal_chunk example_codec j (replicate 12 0) ''t'' [e]) \<le> MAX_JOURNAL_CHUNK_BYTES"
    using assms(1) by (simp add: seal_chunk_def example_codec_def MAX_JOURNAL_CHUNK_BYTES_def)
  ultimately show ?thesis by (auto simp: append_events_def Let_def record_bytes_def)
qed

lemma example_journal_fields:
  "jr_prev example_journal = no_hash" "jr_sequence example_journal = 0" "jr_key_id example_journal = ''k1''"
  "jr_session example_journal = ''s''" "jr_source example_journal = ''i''" "jr_type example_journal = ''server''" "length no_hash = 64"
  by (simp_all add: example_journal_def new_journal_def example_key_def truthy_string_def no_hash_def)

lemma example_event_facts: "length (plaintext_of [example_event]) < 10000" "unbroken example_event" "sort_keys example_event = example_event"
proof -
  show "length (plaintext_of [example_event]) < 10000"
    by (rule small_plaintext[of _ "''seek''" "[]"]) (simp_all add: example_event_def)
  have "json_dumps example_event = [code_char 123] @ quoted ''seek'' @ [code_char 58] @ show_int 7 @ [code_char 125]"
    by (simp add: json_dumps_def example_event_def)
  moreover have "\<forall>c \<in> set (show_int 7). \<not> is_break c"
    using show_nat_digits[of 7] by (auto simp: show_int_def is_py_digit_def is_break_def)
  ultimately show "unbroken example_event"
    by (auto simp: unbroken_def example_event_def quoted_def escape_char_def is_break_def char_code_def)
  show "sort_keys example_event = example_event" by (simp add: example_event_def)
qed

text \<open>One batch written completely.\<close>

lemma example_written:
  obtains p disk where "journal_run example_codec example_keys example_key ''s'' ''server'' (Some ''i'')
      (Some (example_journal\<lparr>jr_sequence := 1, jr_prev := p\<rparr>)) disk [[example_event]]"
    "jd_file disk \<noteq> None" "length p = 64" "from_hex p \<noteq> None"
proof -
  note f = example_journal_fields example_event_facts
  obtain r j' disk' where run: "append_events example_codec (replicate 12 0) ''t'' (\<lambda>n. n) [example_event] (example_journal, example_disk)
      = (Inr (Some r), j', disk')"
    using example_append[of example_event example_journal "\<lambda>n. n" example_disk] f from_no_hash by auto
  have "journal_run example_codec example_keys example_key ''s'' ''server'' (Some ''i'') (Some j') disk' [map sort_keys [example_event]]"
    using run_append[OF example_run _ _ run] example_may[of example_event example_journal] f by simp
  moreover have "jd_file disk' \<noteq> None \<and> (\<exists>x. j' = example_journal\<lparr>jr_sequence := 1, jr_prev := hexdigest example_codec x\<rparr>)"
    using run f by (auto simp: append_events_def chunk_hash_def Let_def split: if_splits option.splits)
  ultimately show ?thesis using that f digest_length[OF example_sound] by auto
qed

theorem recovery_exact_witness:
  "\<exists>kept tail. JOURNAL_MAGIC @ [0] = kept @ tail \<and> tail \<noteq> []
     \<and> jd_file (snd (verify_journal (journal_config_of example_codec example_keys example_journal) True (Some ''c'') No_Events (\<lambda>_. None)
          \<lparr>jd_file = Some (JOURNAL_MAGIC @ [0]), jd_quarantine = []\<rparr>)) = Some kept"
proof -
  let ?cfg = "journal_config_of example_codec example_keys example_journal"
    and ?disk = "\<lparr>jd_file = Some (JOURNAL_MAGIC @ [0]), jd_quarantine = []\<rparr>"
  obtain m where "read_record ?cfg JOURNAL_SCHEMA_VERSION (new_scan (length JOURNAL_MAGIC)) [0] = Inl (Torn m)"
    by (simp add: read_record_def read_exact_def JOURNAL_LENGTH_BYTES_def)
  then have scan: "scan_file ?cfg (JOURNAL_MAGIC @ [0]) = (Some JOURNAL_SCHEMA_VERSION, Some (Torn m), new_scan (length JOURNAL_MAGIC))"
    using scan_stop by (simp add: scan_magic)
  obtain v where v: "verify_journal ?cfg False None No_Events (\<lambda>_. None) ?disk = (Inr (v, []), ?disk)" "jv_torn v"
    using scan by (simp add: verify_journal_def events_of_def report_of_def)
  obtain v' disk' where v': "verify_journal ?cfg True (Some ''c'') No_Events (\<lambda>_. None) ?disk = (Inr (v', []), disk')"
    using scan by (simp add: verify_journal_def events_of_def quarantine_tail_def new_scan_def)
  from recovery_exact[OF _ v(1) v'] v(2) show ?thesis by (simp add: v') metis
qed

theorem journal_durable_witness:
  "\<exists>j disk. read_events example_codec example_keys j disk = Inr [example_event] \<and> jr_sequence j = 1"
proof -
  obtain j disk where "journal_run example_codec example_keys example_key ''s'' ''server'' (Some ''i'') (Some j) disk [[example_event]]"
    by (rule example_written) blast
  from journal_durable[OF example_sound example_load this] show ?thesis by fastforce
qed

theorem next_line_spoils_journal_witness:
  "\<exists>disk. fst (open_journal example_codec example_keys example_key ''s'' ''server'' (Some ''i'') ''c'' (\<lambda>_. None) disk)
     = Inl (ValueError ''Invalid diagnostics journal'')"
proof -
  let ?e = "next_line_event ''reason'' ''a'' ''b''"
  have small: "length (plaintext_of [?e]) < 10000"
    by (rule small_plaintext[of _ "''reason''" "''a'' @ code_char 133 # ''b''"]) (simp_all add: next_line_event_def)
  note f = example_journal_fields
  obtain r j' disk' where run: "append_events example_codec (replicate 12 0) ''t'' (\<lambda>n. n) [?e] (example_journal, example_disk)
      = (Inr (Some r), j', disk')"
    using example_append[of ?e example_journal "\<lambda>n. n" example_disk] small f from_no_hash by auto
  have may: "may_append example_codec (replicate 12 0) ''t'' [?e] example_journal" using example_may[OF small] f by simp
  have absent: "code_char 133 \<notin> set s" if "\<forall>x \<in> set s. char_code x \<noteq> 133" for s
    using that char_code_char[of 133] by auto
  have "code_char 133 \<notin> set ''reason''" "code_char 133 \<notin> set ''a''" by (rule absent, simp add: char_code_def)+
  from next_line_spoils_journal[OF example_sound example_load example_run this may run] show ?thesis by blast
qed

theorem short_write_acknowledged_witness:
  "\<exists>(j :: journal) (r :: chunk_record) (disk :: journal_disk) file. jr_sequence j = 2 \<and> cr_sequence r = 2 \<and> jd_file disk = Some file \<and> length file < cr_end_offset r"
proof -
  obtain p disk where run: "journal_run example_codec example_keys example_key ''s'' ''server'' (Some ''i'')
      (Some (example_journal\<lparr>jr_sequence := 1, jr_prev := p\<rparr>)) disk [[example_event]]"
    and fl: "jd_file disk \<noteq> None" and p: "length p = 64" "from_hex p \<noteq> None"
    by (rule example_written)
  let ?j = "example_journal\<lparr>jr_sequence := 1, jr_prev := p\<rparr>"
  note f = example_journal_fields example_event_facts
  obtain r j' disk' where again: "append_events example_codec (replicate 12 0) ''t'' (\<lambda>_. 0) [example_event] (?j, disk) = (Inr (Some r), j', disk')"
    and off: "cr_offset r < cr_end_offset r"
    using example_append[of example_event ?j "\<lambda>_. 0" disk] f p by auto
  have may: "may_append example_codec (replicate 12 0) ''t'' [example_event] ?j" using example_may[of example_event ?j] f p by simp
  have "(\<lambda>_. 0) (cr_end_offset r - cr_offset r) < cr_end_offset r - cr_offset r" using off by simp
  from short_write_acknowledged[OF example_sound example_load run may fl again this]
  have "jr_sequence j' = 2 \<and> cr_sequence r = 2 \<and> (\<exists>file. jd_file disk' = Some file \<and> length file < cr_end_offset r)" by simp
  then show ?thesis by blast
qed

end
