(* ===== verification/Spec2Isabelle.thy ===== *)
theory Spec2Isabelle
  imports Epoch_Serving Route2_Adaptive Shared_Writer Stream_Access Second_Factor Session_Life Worker_Life Diag_Journal
begin

text \<open>
  \<^bold>\<open>Elvern: the browser playback pipeline ("Route 2")\<close>

  Elvern is a self-hosted film server. Its core is the pipeline that lets a browser play a film while it
  is still being transcoded: a session of a viewer holds epochs (one run of the transcoder from one
  position), an epoch publishes segments, gates decide from measured supply when the player may attach,
  an audio switch or a seek prepares a replacement epoch that is promoted over the active one, and the
  requests of the player are answered from what is published. The code is under
  \<^verbatim>\<open>src/backend/app/services\<close>: the class \<^verbatim>\<open>MobilePlaybackManager\<close> in \<^verbatim>\<open>mobile_playback_service.py\<close> and the modules
  \<^verbatim>\<open>mobile_playback_route2_*.py\<close>, \<^verbatim>\<open>route2_*.py\<close> it delegates to.

  \<^bold>\<open>Theories, bottom up\<close>

  \<^item> \<open>Elvern_Base\<close>: exceptions as values of a sum (\<open>py_error\<close>), Python's strings, numbers, rounding and
    dictionaries, and the interface of a keyed store (locale \<open>keyed_store\<close>, interpreted on the dictionaries).
  \<^item> \<open>Playback_Models\<close>: the records of \<^verbatim>\<open>mobile_playback_models.py\<close> (epoch, browser session, session) and the
    constants of the pipeline.
  \<^item> \<open>Route2_Math\<close>, \<open>Route2_Supply\<close>: rate estimates (\<^verbatim>\<open>mobile_playback_route2_math.py\<close>, \<^verbatim>\<open>..._samples.py\<close>,
    \<^verbatim>\<open>..._metrics.py\<close>). The locale \<open>rate_summary\<close> states what every estimate promises (between the least and the
    greatest measurement) and is interpreted on each of them.
  \<^item> \<open>Route2_Readiness\<close>: recovery, undersupply, and the buffer contract offered to the client.
  \<^item> \<open>Route2_Lite_Gate\<close>: the start gates and the lite threshold decider (\<^verbatim>\<open>..._gates.py\<close>), the decider also as a step
    relation with its reachable states. The locales \<open>start_gate\<close> and \<open>published_start_gate\<close> state what a gate
    promises and are interpreted on the gates of both modes.
  \<^item> \<open>Route2_Full_Gate\<close>: packet binning, byte budget, gate and displayed estimate of full mode
    (\<^verbatim>\<open>..._preflight_service.py\<close>, \<^verbatim>\<open>..._full_helpers.py\<close>, \<^verbatim>\<open>..._full_gate.py\<close>).
  \<^item> \<open>Epoch_Publication\<close>: the published frontier and the moves from staging to published directory.
  \<^item> \<open>Route2_Epochs\<close>: the life of epochs (build, terminate, drain, clean up, replace, promote) and the access check.
  \<^item> \<open>Route2_Sessions\<close>: audio switching, and the step relation \<open>session_step\<close> of a whole session.
  \<^item> \<open>Route2_Adaptive\<close>: the classifier that recommends thread counts (\<^verbatim>\<open>route2_adaptive_controller.py\<close>).
  \<^item> \<open>Native_Window\<close>: the sliding window and the playlist of native HLS (\<^verbatim>\<open>route2_native_hls_window.py\<close>).
  \<^item> \<open>Epoch_Serving\<close>: the manifest, init and segment requests, where access check, frontier and playlist meet.
  \<^item> \<open>Worker_Pool\<close>, \<open>Worker_Dispatch\<close>: the records of the transcoder's workers, parking and resuming, the budget of
    threads, what speaks for and against more threads, and the dispatcher that starts queued workers
    (\<^verbatim>\<open>_dispatch_waiting_route2_workers_locked\<close>). The locale \<open>dispatch_invariant\<close> states what serving one user must keep so
    that the whole dispatcher keeps it; it is interpreted on the budgets and on the workers that can start.
  \<^item> \<open>Session_Registry\<close>: the tables of the manager and every operation that enters, ends, invalidates or expires sessions,
    also as the step relation \<open>manager_step\<close>.
  \<^item> \<open>Session_Admission\<close>: who is let in, the creation of a session as the three locked sections of \<^verbatim>\<open>create_session\<close>
    (\<open>scan_create\<close>, \<open>admit_create\<close>, \<open>register_create\<close>), and the two routes that start a playback.
  \<^item> \<open>Session_Refresh\<close>, \<open>Session_Requests\<close>, \<open>Session_Life\<close>: the refresh of a session (\<^verbatim>\<open>_refresh_route2_session_authority_locked\<close>), section by
    section: what becomes of failed epochs, the replacement that recovers, seeks, switches audio or moves to other threads,
    and what the client is told; the seek, the heartbeat and the look at a session as handlers (\<^verbatim>\<open>seek_session\<close>,
    \<^verbatim>\<open>update_runtime\<close>, \<^verbatim>\<open>get_session\<close>); then a session over its whole life (\<open>session_life\<close>: requests, refreshes,
    the fetching of its files, and \<open>manager_write\<close>, the sections of worker threads, of the dispatcher, of the admission
    of others and of the sweep; the one write of the dispatcher that breaks a session is stated by \<open>gives_up_active\<close>).
  \<^item> \<open>Worker_Life\<close>: one worker thread (\<^verbatim>\<open>_run_route2_epoch_worker\<close>): the ffmpeg command, the locked sections before,
    at and after its process, publication beside it, and the thread as a whole (\<open>run_epoch_worker\<close>) with what others do in between
    as an argument.
  \<^item> \<open>Shared_Ranges\<close>, \<open>Shared_Writer\<close>: the store of output shared between viewers
    (\<^verbatim>\<open>route2_shared_output_store.py\<close>): ranges of segment indices as sets (locale \<open>range_store\<close>), the plan of a write,
    and the three writers as a step relation on a directory.
  \<^item> \<open>Range_Stream\<close>: direct streaming of a media file by byte ranges (\<^verbatim>\<open>src/backend/app/media_stream.py\<close>), whose loop
    of chunks ends because a chunk that is not empty makes what remains smaller.
  \<^item> \<open>Byte_Text\<close>, \<open>Json_Text\<close>: UTF-8, base 64, hexadecimal and big-endian lengths, and a printer and a parser of JSON, with
    their round trips.
  \<^item> \<open>Diag_Journal\<close>: the encrypted, chained journal of the diagnostics (\<^verbatim>\<open>playback_diagnostics/journal.py\<close>): verifying,
    recovering, opening, appending and reading. \<open>journal_run\<close> is a journal over its life, with writes that are cut off; the
    log of complete batches is its abstract specification.
  \<^item> \<open>Rate_Limiter\<close>: the limiter of failed logins (\<^verbatim>\<open>rate_limiter_service.py\<close>), with the histories of attempts at one
    bucket as an inductive relation.
  \<^item> \<open>Auth_Sessions\<close>: browser sessions, how they are used, expire and are revoked (\<^verbatim>\<open>src/backend/app/auth.py\<close>), on a
    database of tables as lists of rows.
  \<^item> \<open>Login_Flow\<close>, \<open>Second_Factor\<close>: signing in with a password and a second factor (\<^verbatim>\<open>routes/auth.py\<close>,
    \<^verbatim>\<open>totp_service.py\<close>) with cryptography as a record of functions; every handler is shown to keep what is spent
    (\<open>factor_step\<close>), and the relation \<open>account_run\<close> is every sequence of requests. The locales \<open>attempt_guard\<close> and
    \<open>two_guards\<close> say what the handlers rely on of the limiters.
  \<^item> \<open>Stream_Access\<close>: who may open the streams and hand-offs of external players, with the age limits of
    \<^verbatim>\<open>media_age_access_service.py\<close>, and the validator that ends a running stream of \<open>Range_Stream\<close> (\<^verbatim>\<open>native_playback_service.py\<close>, \<^verbatim>\<open>desktop_playback_handoff_service.py\<close>).

  \<^bold>\<open>What the lemmas show\<close>

  The properties carry the marks C1, C2, ... in front of their theorems. The first groups are invariants of
  sessions over all sequences of requests and refreshes (every session is well formed, no request and no refresh takes the
  stream from the player), the agreement of what is listed with what can be fetched, and that the shared store is written
  once, that a journal keeps what was written completely (once its first six bytes are there); that the dispatcher ends, keeps to the budgets and leaves no thread idle while every queued worker can be started, and that the tables of sessions agree in
  every reachable state of the manager. Then the functional behaviour of gates, windows, budgets, publication and clean-up on every branch, the
  refinement of confirmed ranges by sets, equivalence of merging with a normal form, and the round trip of the
  playlist. Around playback: who is signed in, that each second factor is accepted once,
  how often a login may fail, that a session that has ended stays ended and leaves nothing open that is
  coupled to it, and that a revoked stream stops. Some properties record behaviour the code hardly means to have (threads of parked workers that are counted twice, a failed transcode that is restarted beside its
  replacement, one that is forgotten, a seek that locks the choice of audio tracks, an event that spoils its journal, a limit
  that two overlapping requests pass); others are lemmas (an active epoch given up
  by the dispatcher, a parked worker that stops the dispatch, a switch that strands its listener, a cancel that abandons an
  unrelated replacement, a pause that one route does not ask for, media flags that are lost).

  \<^bold>\<open>Conventions and bounds\<close>

  Python's integers are \<open>int\<close>, floats are exact \<open>real\<close>s with \<^verbatim>\<open>round\<close> written out, so statements about rates hold up to
  the error of binary rounding. Clocks, time stamps and random identifiers are arguments. Strings are lists of
  8-bit characters. Every loop is a structural recursion, a fold over a finite list or a recursion with a
  measure, so each operation is total; exceptions are values. Two functions have fuel: \<open>dispatch_rounds\<close> states the
  bound of the dispatcher (one round more than there are queued workers is enough), and the parser of \<open>Json_Text\<close> reads the
  same with any fuel above twice the length of the text (\<open>json_fuel_enough\<close>). The manager's lock makes each locked
  section one step; the sections of \<^verbatim>\<open>create_session\<close> and of a worker are separate steps, with other operations between them.

  \<^bold>\<open>Not modelled\<close>

  The transcoder itself and the reading of its output, \<^verbatim>\<open>/proc\<close> and host measurements, the health of running playbacks
  and the measurements behind reclaim and resupply of threads (their answers are arguments of admission, dispatch and
  refresh), telemetry of the player that is only reported, log events, the snapshots built for the player and for
  administrators, JSON encodings outside the journal, failures of the file system, the legacy fragment cache, and the parts
  of the server around playback: creating accounts and resetting passwords, library, cloud sources, backup, the diagnostics
  around the journal, database, routes and the front end. Each handler of the sign-in is one step at one time; where two of them overlap, a lemma of
  \<open>Second_Factor\<close> says what happens. SHA-256 is an argument of the writers with the form of its digest as hypothesis; the parsed output of
  \<^verbatim>\<open>ffprobe\<close> and the trusted audio tracks are arguments.
\<close>

end
